(* ===== verification/Prelude.thy ===== *)
theory Prelude
  imports Complex_Main "HOL-Library.AList"
begin

text \<open>
  Shared vocabulary of the development.

  Python values are modelled as follows.  A \<open>uuid.UUID\<close> is its canonical text, so
  \<open>str(u)\<close> is the identity; a timezone-aware \<open>datetime\<close> is the number of microseconds
  since the epoch; a \<open>dict\<close> is an association list in insertion order, written with
  \<open>AList.update\<close> (which, like Python, keeps the position of a key that is already
  present) and \<open>AList.delete\<close>.  An exception is a value of \<open>exc\<close> and a
  computation that may raise is a sum with the exception on the left.  Optional ports
  (\<open>audit\<close>, \<open>metrics\<close>) are optional logs, \<open>None\<close> when the port is not wired.
\<close>

named_theorems frame_simps \<open>fields an operation leaves alone\<close>
named_theorems guard_simps \<open>the branches of a guarded operation\<close>

type_synonym uuid = string
type_synonym datetime = int

datatype exc =
    ValueError
  | TypeError
  | KeyError
  | IndexError
  | ZeroDivisionError
  | OverflowError
  | RuntimeError
  | OSError
  | TimeoutError
  | InvalidOperation
  | IntegrityError
  | ConfigError
  | ServiceError
  | InfrastructureError
  | MoneyPrecisionError
  | RateLimitExceededError
  | CircuitOpenError
  | InvalidTradeTransitionError string string
  | StrategyLifecycleError string
  | APIError "int option"
  | OtherException string

type_synonym 'a res = "exc + 'a"

subsection \<open>Sequencing computations that may raise\<close>

definition rbind :: "'e + 'a \<Rightarrow> ('a \<Rightarrow> 'e + 'b) \<Rightarrow> 'e + 'b" where
  "rbind r f = (case r of Inl e \<Rightarrow> Inl e | Inr a \<Rightarrow> f a)"

lemma rbind_simps [simp]:
  "rbind (Inl e) f = Inl e"
  "rbind (Inr a) f = f a"
  by (simp_all add: rbind_def)

lemma rbind_eq_InrE:
  assumes "rbind r f = Inr b"
  obtains a where "r = Inr a" and "f a = Inr b"
  using assms by (cases r) auto

lemma guard_Inr [guard_simps]: "(if c then Inl e else r) = Inr x \<longleftrightarrow> \<not> c \<and> r = Inr x"
  by simp

lemma rbind_assoc: "rbind (rbind r f) g = rbind r (\<lambda>a. rbind (f a) g)"
  by (cases r) simp_all

text \<open>\<open>[f(x) for x in xs]\<close> where \<open>f\<close> may raise: the first exception wins.\<close>

fun mapr :: "('a \<Rightarrow> 'e + 'b) \<Rightarrow> 'a list \<Rightarrow> 'e + 'b list" where
  "mapr f [] = Inr []"
| "mapr f (x # xs) = rbind (f x) (\<lambda>y. rbind (mapr f xs) (\<lambda>ys. Inr (y # ys)))"

lemma mapr_InrD: "mapr f xs = Inr ys \<Longrightarrow> list_all2 (\<lambda>x y. f x = Inr y) xs ys"
  by (induction xs arbitrary: ys) (auto elim!: rbind_eq_InrE)

lemma mapr_Inr_total: "(\<And>x. x \<in> set xs \<Longrightarrow> \<exists>y. f x = Inr y) \<Longrightarrow> \<exists>ys. mapr f xs = Inr ys"
proof (induction xs)
  case Nil
  then show ?case by simp
next
  case (Cons x xs)
  then obtain y ys where "f x = Inr y" and "mapr f xs = Inr ys"
    by (meson list.set_intros)
  then show ?case by simp
qed

subsection \<open>Dictionaries\<close>

text \<open>\<open>list(d.values())\<close>, and the value stored under a key with a default.\<close>

abbreviation dict_values :: "('k \<times> 'v) list \<Rightarrow> 'v list" where
  "dict_values d \<equiv> map snd d"

abbreviation dict_keys :: "('k \<times> 'v) list \<Rightarrow> 'k list" where
  "dict_keys d \<equiv> map fst d"

definition dict_get :: "('k \<times> 'v) list \<Rightarrow> 'k \<Rightarrow> 'v \<Rightarrow> 'v" where
  "dict_get d k v = (case map_of d k of None \<Rightarrow> v | Some w \<Rightarrow> w)"

lemma map_of_update [simp]:
  "map_of (AList.update k v d) k' = (if k' = k then Some v else map_of d k')"
  by (simp add: update_conv')

lemma map_of_delete_dict [simp]:
  "map_of (AList.delete k d) k' = (if k' = k then None else map_of d k')"
  by (simp add: delete_conv')

lemma keys_update_dict [simp]: "set (dict_keys (AList.update k v d)) = insert k (set (dict_keys d))"
  by (induction d) auto

lemma distinct_keys_update [simp]:
  "distinct (dict_keys d) \<Longrightarrow> distinct (dict_keys (AList.update k v d))"
  by (rule distinct_update)

lemma distinct_keys_delete [simp]:
  "distinct (dict_keys d) \<Longrightarrow> distinct (dict_keys (AList.delete k d))"
  by (rule distinct_delete)

lemma update_new: "k \<notin> set (dict_keys d) \<Longrightarrow> AList.update k v d = d @ [(k, v)]"
  by (induction d) auto

lemma values_update_existing:
  "map_of d k = Some w \<Longrightarrow> length (AList.update k v d) = length d"
  by (induction d) (auto split: if_splits)

lemma set_values_update:
  "set (dict_values (AList.update k v d)) \<subseteq> insert v (set (dict_values d))"
  by (induction d) auto

lemma set_values_delete: "set (dict_values (AList.delete k d)) \<subseteq> set (dict_values d)"
  by (induction d) auto

subsection \<open>Optional event logs\<close>

text \<open>\<open>if self.audit: self.audit.record(...)\<close> on an optional log.\<close>

definition log_to :: "'e \<Rightarrow> 'e list option \<Rightarrow> 'e list option" where
  "log_to e l = map_option (\<lambda>es. es @ [e]) l"

lemma log_to_simps [simp]: "log_to e None = None" "log_to e (Some es) = Some (es @ [e])"
  by (simp_all add: log_to_def)

lemma log_to_eq_None_iff [simp]: "log_to e l = None \<longleftrightarrow> l = None"
  by (cases l) simp_all

end
