(* ===== verification/PyFloat.thy ===== *)
theory PyFloat
  imports Prelude
begin

text \<open>
  The Python \<open>float\<close>: IEEE 754 binary64, executable over the rationals.

  A finite value is \<open>Fin r\<close>; every operation computes exactly in \<open>rat\<close> and rounds
  once with \<open>rnd\<close> (round to nearest, ties to even, gradual underflow, overflow to an
  infinity).  Comparisons with \<open>NaN\<close> are false, as in Python.  The two zeros are
  identified: they compare equal in Python and a division by either raises, so the
  modelled code cannot tell them apart (only formatting can).  The second half proves
  what the component theories use: rounding is monotone, odd, leaves representable values
  alone and is exact on the integers up to \<open>2^53\<close>.
\<close>

subsection \<open>Rounding to binary64\<close>

function nlog2 :: "int \<Rightarrow> nat" where
  "nlog2 n = (if n < 2 then 0 else Suc (nlog2 (n div 2)))"
  by pat_completeness auto
termination
  by (relation "measure nat") auto

declare nlog2.simps [simp del]

definition ilog2 :: "rat \<Rightarrow> int" where
  "ilog2 q = (if 1 \<le> q then int (nlog2 \<lfloor>q\<rfloor>)
              else - int (Suc (nlog2 (\<lceil>1 / q\<rceil> - 1))))"

definition round_half_even :: "rat \<Rightarrow> int" where
  "round_half_even x = (let f = \<lfloor>x\<rfloor>; r = x - of_int f in
     if r < 1/2 then f else if 1/2 < r then f + 1 else if even f then f else f + 1)"

definition grid_exp :: "rat \<Rightarrow> int" where
  "grid_exp x = max (ilog2 \<bar>x\<bar> - 52) (- 1074)"

definition round_grid :: "rat \<Rightarrow> rat" where
  "round_grid x = (if x = 0 then 0
     else of_int (round_half_even (x / 2 powi grid_exp x)) * 2 powi grid_exp x)"

datatype float64 = Fin rat | PosInf | NegInf | NaN

definition rnd :: "rat \<Rightarrow> float64" where
  "rnd x = (let y = round_grid x in
     if 2 ^ 1024 \<le> y then PosInf else if y \<le> - (2 ^ 1024) then NegInf else Fin y)"

text \<open>A decimal literal of the source denotes the nearest double.\<close>

abbreviation lit :: "rat \<Rightarrow> float64" where
  "lit r \<equiv> rnd r"

subsection \<open>Arithmetic and comparison\<close>

fun inf_of_sign :: "rat \<Rightarrow> float64" where
  "inf_of_sign s = (if s = 0 then NaN else if 0 < s then PosInf else NegInf)"

fun fadd :: "float64 \<Rightarrow> float64 \<Rightarrow> float64" where
  "fadd (Fin a) (Fin b) = rnd (a + b)"
| "fadd NaN _ = NaN"
| "fadd _ NaN = NaN"
| "fadd PosInf NegInf = NaN"
| "fadd NegInf PosInf = NaN"
| "fadd PosInf _ = PosInf"
| "fadd _ PosInf = PosInf"
| "fadd NegInf _ = NegInf"
| "fadd _ NegInf = NegInf"

fun fneg :: "float64 \<Rightarrow> float64" where
  "fneg (Fin a) = Fin (- a)"
| "fneg PosInf = NegInf"
| "fneg NegInf = PosInf"
| "fneg NaN = NaN"

fun fmul :: "float64 \<Rightarrow> float64 \<Rightarrow> float64" where
  "fmul (Fin a) (Fin b) = rnd (a * b)"
| "fmul NaN _ = NaN"
| "fmul _ NaN = NaN"
| "fmul PosInf (Fin b) = inf_of_sign b"
| "fmul NegInf (Fin b) = inf_of_sign (- b)"
| "fmul (Fin a) PosInf = inf_of_sign a"
| "fmul (Fin a) NegInf = inf_of_sign (- a)"
| "fmul PosInf PosInf = PosInf"
| "fmul NegInf NegInf = PosInf"
| "fmul PosInf NegInf = NegInf"
| "fmul NegInf PosInf = NegInf"

text \<open>The quotient for a divisor that is not zero.\<close>

fun fquot :: "float64 \<Rightarrow> float64 \<Rightarrow> float64" where
  "fquot (Fin a) (Fin b) = rnd (a / b)"
| "fquot NaN _ = NaN"
| "fquot _ NaN = NaN"
| "fquot (Fin a) _ = Fin 0"
| "fquot PosInf (Fin b) = inf_of_sign (if b < 0 then -1 else 1)"
| "fquot NegInf (Fin b) = inf_of_sign (if b < 0 then 1 else -1)"
| "fquot _ _ = NaN"

fun fabs :: "float64 \<Rightarrow> float64" where
  "fabs (Fin a) = Fin \<bar>a\<bar>"
| "fabs NaN = NaN"
| "fabs _ = PosInf"

fun fle :: "float64 \<Rightarrow> float64 \<Rightarrow> bool" where
  "fle (Fin a) (Fin b) = (a \<le> b)"
| "fle NaN _ = False"
| "fle _ NaN = False"
| "fle NegInf _ = True"
| "fle _ PosInf = True"
| "fle _ _ = False"

fun flt :: "float64 \<Rightarrow> float64 \<Rightarrow> bool" where
  "flt (Fin a) (Fin b) = (a < b)"
| "flt NaN _ = False"
| "flt _ NaN = False"
| "flt NegInf NegInf = False"
| "flt NegInf _ = True"
| "flt PosInf _ = False"
| "flt (Fin _) PosInf = True"
| "flt (Fin _) NegInf = False"

instantiation float64 :: "{zero, one, plus, minus, uminus, times, ord, abs}"
begin

definition zero_float64 :: float64 where "zero_float64 = Fin 0"
definition one_float64 :: float64 where "one_float64 = Fin 1"
definition plus_float64 :: "float64 \<Rightarrow> float64 \<Rightarrow> float64" where "plus_float64 = fadd"
definition uminus_float64 :: "float64 \<Rightarrow> float64" where "uminus_float64 = fneg"
definition minus_float64 :: "float64 \<Rightarrow> float64 \<Rightarrow> float64" where
  "minus_float64 x y = fadd x (fneg y)"
definition times_float64 :: "float64 \<Rightarrow> float64 \<Rightarrow> float64" where "times_float64 = fmul"
definition less_eq_float64 :: "float64 \<Rightarrow> float64 \<Rightarrow> bool" where "less_eq_float64 = fle"
definition less_float64 :: "float64 \<Rightarrow> float64 \<Rightarrow> bool" where "less_float64 = flt"
definition abs_float64 :: "float64 \<Rightarrow> float64" where "abs_float64 = fabs"

instance ..

end

text \<open>\<open>x == y\<close>, \<open>x / y\<close>, \<open>max\<close>, \<open>min\<close>, \<open>math.isfinite\<close> and \<open>bool(x)\<close>.\<close>

fun feq :: "float64 \<Rightarrow> float64 \<Rightarrow> bool" where
  "feq NaN _ = False"
| "feq x y = (x = y)"

definition py_div :: "float64 \<Rightarrow> float64 \<Rightarrow> float64 res" where
  "py_div x y = (if feq y 0 then Inl ZeroDivisionError else Inr (fquot x y))"

definition py_max :: "float64 \<Rightarrow> float64 \<Rightarrow> float64" where
  "py_max a b = (if a < b then b else a)"

definition py_min :: "float64 \<Rightarrow> float64 \<Rightarrow> float64" where
  "py_min a b = (if b < a then b else a)"

fun isfinite :: "float64 \<Rightarrow> bool" where
  "isfinite (Fin _) = True"
| "isfinite _ = False"

definition truthy :: "float64 \<Rightarrow> bool" where
  "truthy x = (\<not> feq x 0)"

text \<open>\<open>round(x, n)\<close> is the double nearest to the correctly rounded \<open>n\<close>-digit decimal.\<close>

fun py_round :: "float64 \<Rightarrow> nat \<Rightarrow> float64" where
  "py_round (Fin a) n = rnd (of_int (round_half_even (a * 10 ^ n)) / 10 ^ n)"
| "py_round x n = x"

text \<open>
  \<open>(later - earlier).total_seconds()\<close> for instants in microseconds: an exact integer
  quotient rounded once.
\<close>

definition total_seconds :: "int \<Rightarrow> float64" where
  "total_seconds us = rnd (of_int us / 1000000)"

text \<open>
  \<open>sum(xs)\<close> on floats, as CPython 3.12 and later compute it (the runtime image is 3.14):
  a running sum with Neumaier compensation, added back at the end when it is finite.
\<close>

fun csum_step :: "float64 \<times> float64 \<Rightarrow> float64 \<Rightarrow> float64 \<times> float64" where
  "csum_step (hi, lo) x = (let t = hi + x in
     if \<bar>x\<bar> \<le> \<bar>hi\<bar> then (t, lo + ((hi - t) + x)) else (t, lo + ((x - t) + hi)))"

definition py_sum :: "float64 list \<Rightarrow> float64" where
  "py_sum xs = (let (hi, lo) = foldl csum_step (0, 0) xs in
     if truthy lo \<and> isfinite lo then hi + lo else hi)"

text \<open>
  \<open>math.sqrt\<close>, correctly rounded: an integer square root with at least 60 significant
  bits and a sticky half when it is inexact, rounded once.
\<close>

function isqrt :: "int \<Rightarrow> int" where
  "isqrt n = (if n \<le> 0 then 0
     else let r = 2 * isqrt (n div 4) in if (r + 1) * (r + 1) \<le> n then r + 1 else r)"
  by pat_completeness auto
termination
  by (relation "measure nat") auto

declare isqrt.simps [simp del]

definition sqrt_scale :: "rat \<Rightarrow> int" where
  "sqrt_scale a = 60 - ilog2 a div 2"

fun py_sqrt :: "float64 \<Rightarrow> float64 res" where
  "py_sqrt (Fin a) =
     (if a < 0 then Inl ValueError else if a = 0 then Inr (Fin 0)
      else let k = sqrt_scale a; b = a * 4 powi k; s = isqrt \<lfloor>b\<rfloor> in
        Inr (rnd ((of_int s + (if of_int (s * s) = b then 0 else 1 / 2)) / 2 powi k)))"
| "py_sqrt PosInf = Inr PosInf"
| "py_sqrt NegInf = Inl ValueError"
| "py_sqrt NaN = Inr NaN"

subsection \<open>Evaluation and basic simplification\<close>

lemma floor_rat_numerals [simp]:
  "\<lfloor>numeral a / numeral b :: rat\<rfloor> = numeral a div numeral b"
  "\<lfloor>1 / numeral b :: rat\<rfloor> = 1 div numeral b"
  "\<lfloor>- (numeral a / numeral b) :: rat\<rfloor> = (- numeral a) div numeral b"
  "\<lfloor>- (1 / numeral b) :: rat\<rfloor> = (- 1) div numeral b"
  using floor_divide_of_int_eq [of "numeral a" "numeral b", where 'a = rat]
    floor_divide_of_int_eq [of 1 "numeral b", where 'a = rat]
    floor_divide_of_int_eq [of "- numeral a" "numeral b", where 'a = rat]
    floor_divide_of_int_eq [of "- 1" "numeral b", where 'a = rat]
  by simp_all

lemma powi_minus_numeral [simp]: "(2 :: rat) powi (- numeral n) = 1 / 2 ^ numeral n"
  by (simp add: power_int_def inverse_eq_divide power_one_over)

lemma powi_minus_nat: "(2 :: rat) powi (- int n) = 1 / 2 ^ n"
  by (simp add: power_int_minus inverse_eq_divide)

text \<open>The rewrite rules that evaluate a rounding of a closed rational.\<close>

lemmas float_eval = rnd_def round_grid_def grid_exp_def ilog2_def round_half_even_def
  nlog2.simps Let_def ceiling_def

lemma Fin_ops [simp]:
  "Fin a + Fin b = rnd (a + b)"
  "Fin a - Fin b = rnd (a - b)"
  "Fin a * Fin b = rnd (a * b)"
  "- Fin a = Fin (- a)"
  "\<bar>Fin a\<bar> = Fin \<bar>a\<bar>"
  "Fin a \<le> Fin b \<longleftrightarrow> a \<le> b"
  "Fin a < Fin b \<longleftrightarrow> a < b"
  by (simp_all add: plus_float64_def minus_float64_def times_float64_def uminus_float64_def
      abs_float64_def less_eq_float64_def less_float64_def)

lemma zero_eq_Fin: "0 = Fin 0" and one_eq_Fin: "1 = Fin 1"
  by (simp_all add: zero_float64_def one_float64_def)

lemma NaN_ops [simp]:
  "NaN + x = NaN" "x + NaN = NaN" "NaN - x = NaN" "x - NaN = NaN"
  "NaN * x = NaN" "x * NaN = NaN" "- NaN = NaN" "\<bar>NaN\<bar> = NaN"
  "\<not> NaN \<le> x" "\<not> x \<le> NaN" "\<not> NaN < x" "\<not> x < NaN"
  "\<not> feq NaN x" "\<not> feq x NaN"
  by (cases x; simp add: plus_float64_def minus_float64_def times_float64_def
      uminus_float64_def abs_float64_def less_eq_float64_def less_float64_def)+

lemma Inf_order [simp]:
  "Fin a \<le> PosInf" "Fin a < PosInf" "NegInf \<le> Fin a" "NegInf < Fin a"
  "PosInf \<le> PosInf" "NegInf \<le> NegInf" "NegInf \<le> PosInf" "NegInf < PosInf"
  "\<not> PosInf \<le> Fin a" "\<not> PosInf < x" "\<not> Fin a \<le> NegInf" "\<not> x < NegInf"
  "\<not> PosInf \<le> NegInf"
  by (cases x; simp add: less_eq_float64_def less_float64_def)+

lemma Inf_ops [simp]:
  "- PosInf = NegInf" "- NegInf = PosInf" "\<bar>PosInf\<bar> = PosInf" "\<bar>NegInf\<bar> = PosInf"
  by (simp_all add: uminus_float64_def abs_float64_def)

lemma feq_refl_iff [simp]: "feq x x \<longleftrightarrow> x \<noteq> NaN"
  by (cases x) simp_all

lemma feq_iff: "feq x y \<longleftrightarrow> x = y \<and> x \<noteq> NaN"
  by (cases x; cases y) auto

lemma feq_Fin [simp]: "feq (Fin a) (Fin b) \<longleftrightarrow> a = b"
  by (simp add: feq_iff)

text \<open>Off \<open>NaN\<close> the comparisons form a total order.\<close>

lemma float_le_refl: "x \<noteq> NaN \<Longrightarrow> x \<le> (x :: float64)"
  by (cases x) simp_all

lemma float_le_trans [trans]: "x \<le> y \<Longrightarrow> y \<le> z \<Longrightarrow> x \<le> (z :: float64)"
  by (cases x; cases y; cases z) auto

lemma float_less_le_trans [trans]: "x < y \<Longrightarrow> y \<le> z \<Longrightarrow> x < (z :: float64)"
  by (cases x; cases y; cases z) (auto simp: less_eq_float64_def less_float64_def)

lemma float_le_less_trans [trans]: "x \<le> y \<Longrightarrow> y < z \<Longrightarrow> x < (z :: float64)"
  by (cases x; cases y; cases z) (auto simp: less_eq_float64_def less_float64_def)

lemma float_less_imp_le: "x < y \<Longrightarrow> x \<le> (y :: float64)"
  by (cases x; cases y) (auto simp: less_eq_float64_def less_float64_def)

lemma float_not_less: "x \<noteq> NaN \<Longrightarrow> y \<noteq> NaN \<Longrightarrow> \<not> x < y \<longleftrightarrow> y \<le> (x :: float64)"
  by (cases x; cases y) (auto simp: less_eq_float64_def less_float64_def)

lemma float_not_le: "x \<noteq> NaN \<Longrightarrow> y \<noteq> NaN \<Longrightarrow> \<not> x \<le> y \<longleftrightarrow> y < (x :: float64)"
  by (cases x; cases y) (auto simp: less_eq_float64_def less_float64_def)

lemma float_less_irrefl [simp]: "\<not> x < (x :: float64)"
  by (cases x) (auto simp: less_float64_def)

lemma less_not_NaN: "x < y \<Longrightarrow> x \<noteq> NaN \<and> y \<noteq> NaN"
  and le_not_NaN: "x \<le> y \<Longrightarrow> x \<noteq> NaN \<and> y \<noteq> NaN"
  by auto

lemma float_antisym: "x \<le> y \<Longrightarrow> y \<le> x \<Longrightarrow> x = (y :: float64)"
  by (cases x; cases y) (auto simp: less_eq_float64_def)

lemma float_le_less_linear: "x \<noteq> NaN \<Longrightarrow> y \<noteq> NaN \<Longrightarrow> x \<le> y \<or> y < (x :: float64)"
  by (metis float_not_le)

lemma isfinite_iff: "isfinite x \<longleftrightarrow> (\<exists>a. x = Fin a)"
  by (cases x) simp_all

subsection \<open>Rounding is monotone, odd and exact on the grid\<close>

lemma nlog2_bounds: "0 < n \<Longrightarrow> 2 ^ nlog2 n \<le> n \<and> n < 2 ^ Suc (nlog2 n)"
proof (induction n rule: nlog2.induct)
  case (1 n)
  show ?case
  proof (cases "n < 2")
    case True
    with "1.prems" have "n = 1" by simp
    then show ?thesis by (simp add: nlog2.simps)
  next
    case False
    with "1.IH" have "2 ^ nlog2 (n div 2) \<le> n div 2" "n div 2 < 2 ^ Suc (nlog2 (n div 2))"
      by auto
    with False show ?thesis by (subst (1 2) nlog2.simps) auto
  qed
qed

lemma of_int_log2_bounds:
  assumes "0 < n"
  shows "2 ^ nlog2 n \<le> (of_int n :: rat)" and "of_int n + 1 \<le> (2 :: rat) ^ Suc (nlog2 n)"
proof -
  have "of_int (2 ^ nlog2 n) \<le> (of_int n :: rat)"
    and "of_int (n + 1) \<le> (of_int (2 ^ Suc (nlog2 n)) :: rat)"
    using nlog2_bounds [OF assms] by (auto simp only: of_int_le_iff)
  then show "2 ^ nlog2 n \<le> (of_int n :: rat)" and "of_int n + 1 \<le> (2 :: rat) ^ Suc (nlog2 n)"
    by simp_all
qed

lemma ilog2_bounds:
  assumes "0 < q"
  shows "2 powi ilog2 q \<le> q" and "q < 2 powi (ilog2 q + 1)"
proof -
  have "2 powi ilog2 q \<le> q \<and> q < 2 powi (ilog2 q + 1)"
  proof (cases "1 \<le> q")
    case True
    define n where "n = \<lfloor>q\<rfloor>"
    have "0 < n" using True by (simp add: n_def)
    moreover have "of_int n \<le> q" "q < of_int n + 1"
      using floor_correct [of q] by (simp_all add: n_def)
    ultimately have "2 ^ nlog2 n \<le> q" "q < 2 ^ Suc (nlog2 n)"
      using of_int_log2_bounds [of n] by linarith+
    with True show ?thesis
      by (simp add: ilog2_def n_def [symmetric] power_int_def nat_add_distrib)
  next
    case False
    define m where "m = \<lceil>1 / q\<rceil> - 1"
    have "1 < 1 / q" using False assms by (simp add: field_simps)
    then have "0 < m" by (simp add: m_def)
    moreover have "of_int m < 1 / q" "1 / q \<le> of_int m + 1"
      using ceiling_correct [of "1 / q"] by (simp_all add: m_def)
    ultimately have "2 ^ nlog2 m < 1 / q" "1 / q \<le> 2 ^ Suc (nlog2 m)"
      using of_int_log2_bounds [of m] by linarith+
    then have "1 / 2 ^ Suc (nlog2 m) \<le> q" "q < 1 / 2 ^ nlog2 m"
      using assms by (auto simp: field_simps)
    moreover have "ilog2 q = - int (Suc (nlog2 m))" and "ilog2 q + 1 = - int (nlog2 m)"
      using False by (simp_all add: ilog2_def m_def)
    ultimately show ?thesis by (simp only: powi_minus_nat)
  qed
  then show "2 powi ilog2 q \<le> q" and "q < 2 powi (ilog2 q + 1)" by auto
qed

lemma ilog2_mono:
  assumes "0 < x" and "x \<le> y"
  shows "ilog2 x \<le> ilog2 y"
proof (rule ccontr)
  assume "\<not> ilog2 x \<le> ilog2 y"
  then have "(2 :: rat) powi (ilog2 y + 1) \<le> 2 powi ilog2 x"
    by (intro power_int_increasing) auto
  with ilog2_bounds(2) [of y] ilog2_bounds(1) [of x] assms show False by linarith
qed

lemma round_half_even_mono: "x \<le> y \<Longrightarrow> round_half_even x \<le> round_half_even y"
proof -
  assume "x \<le> y"
  then have "\<lfloor>x\<rfloor> \<le> \<lfloor>y\<rfloor>" by (rule floor_mono)
  then consider "\<lfloor>x\<rfloor> = \<lfloor>y\<rfloor>" | "\<lfloor>x\<rfloor> + 1 \<le> \<lfloor>y\<rfloor>" by linarith
  then show ?thesis
    using \<open>x \<le> y\<close> by cases (auto simp: round_half_even_def Let_def)
qed

lemma round_half_even_of_int [simp]: "round_half_even (of_int n) = n"
  by (simp add: round_half_even_def)

lemma round_half_even_uminus: "round_half_even (- x) = - round_half_even x"
proof (cases "x \<in> \<int>")
  case True
  then obtain n where "x = of_int n" by (auto elim: Ints_cases)
  then show ?thesis by (metis of_int_minus round_half_even_of_int)
next
  case False
  then have "\<lfloor>- x\<rfloor> = - \<lfloor>x\<rfloor> - 1"
    by (metis ceiling_altdef ceiling_def diff_minus_eq_add minus_add_distrib minus_equation_iff
        uminus_add_conv_diff Ints_of_int)
  then show ?thesis by (auto simp: round_half_even_def Let_def)
qed

lemma grid_exp_uminus [simp]: "grid_exp (- x) = grid_exp x"
  by (simp add: grid_exp_def)

lemma round_grid_uminus: "round_grid (- x) = - round_grid x"
  by (simp add: round_grid_def round_half_even_uminus)

lemma round_grid_0 [simp]: "round_grid 0 = 0"
  by (simp add: round_grid_def)

lemma round_grid_nonneg: "0 \<le> x \<Longrightarrow> 0 \<le> round_grid x"
  using round_half_even_mono [of 0 "x / 2 powi grid_exp x"] round_half_even_of_int [of 0]
  by (simp add: round_grid_def)

lemma round_grid_mono_pos:
  assumes "0 < x" and "x \<le> y"
  shows "round_grid x \<le> round_grid y"
proof -
  let ?a = "grid_exp x" and ?b = "grid_exp y"
  have "?a \<le> ?b"
    using ilog2_mono [OF assms] assms by (auto simp: grid_exp_def)
  then consider "?a = ?b" | "?a < ?b" by linarith
  then show ?thesis
  proof cases
    case 1
    then show ?thesis
      using assms round_half_even_mono [of "x / 2 powi ?a" "y / 2 powi ?a"]
      by (auto simp: round_grid_def divide_right_mono)
  next
    case 2
    have "x < 2 powi (ilog2 x + 1)" by (rule ilog2_bounds) (use assms in simp)
    also have "\<dots> \<le> 2 powi (53 + ?a)"
      by (rule power_int_increasing) (use assms in \<open>auto simp: grid_exp_def\<close>)
    finally have "x / 2 powi ?a \<le> of_int (2 ^ 53)"
      by (simp add: power_int_add field_simps)
    then have "round_half_even (x / 2 powi ?a) \<le> 2 ^ 53"
      by (metis round_half_even_mono round_half_even_of_int)
    then have "(of_int (round_half_even (x / 2 powi ?a)) :: rat) \<le> 2 ^ 53"
      by (metis of_int_le_iff of_int_numeral of_int_power)
    then have "round_grid x \<le> 2 ^ 53 * 2 powi ?a"
      using assms by (simp add: round_grid_def)
    also have "\<dots> = 2 powi (53 + ?a)" by (simp add: power_int_add)
    also have "\<dots> \<le> 2 powi (52 + ?b)" by (rule power_int_increasing) (use 2 in auto)
    also have "\<dots> = 2 ^ 52 * 2 powi ?b" by (simp add: power_int_add)
    also have "\<dots> \<le> round_grid y"
    proof -
      have b: "?b = ilog2 y - 52" using 2 assms by (auto simp: grid_exp_def)
      have "2 powi ilog2 y \<le> y" by (rule ilog2_bounds) (use assms in simp)
      moreover have "(2 :: rat) powi ilog2 y = 2 ^ 52 * 2 powi ?b"
        unfolding b by (simp add: power_int_diff)
      ultimately have "of_int (2 ^ 52) \<le> y / 2 powi ?b"
        by (simp add: field_simps)
      then have "2 ^ 52 \<le> round_half_even (y / 2 powi ?b)"
        by (metis round_half_even_mono round_half_even_of_int)
      then have "2 ^ 52 \<le> (of_int (round_half_even (y / 2 powi ?b)) :: rat)"
        by (metis of_int_le_iff of_int_numeral of_int_power)
      then show ?thesis using assms by (simp add: round_grid_def)
    qed
    finally show ?thesis .
  qed
qed

lemma round_grid_mono: "x \<le> y \<Longrightarrow> round_grid x \<le> round_grid y"
proof -
  assume le: "x \<le> y"
  consider "0 < x" | "x \<le> 0" "0 \<le> y" | "y < 0" using le by linarith
  then show ?thesis
  proof cases
    case 1
    then show ?thesis using le by (rule round_grid_mono_pos)
  next
    case 2
    then show ?thesis
      using round_grid_nonneg [of y] round_grid_nonneg [of "- x"] by (simp add: round_grid_uminus)
  next
    case 3
    then have "round_grid (- y) \<le> round_grid (- x)"
      using le by (intro round_grid_mono_pos) auto
    then show ?thesis by (simp add: round_grid_uminus)
  qed
qed

lemma rnd_not_NaN [simp]: "rnd x \<noteq> NaN"
  by (simp add: rnd_def Let_def)

lemma rnd_0 [simp]: "rnd 0 = Fin 0"
  by (simp add: rnd_def)

lemma rnd_mono: "x \<le> y \<Longrightarrow> rnd x \<le> rnd y"
  using round_grid_mono [of x y] by (auto simp: rnd_def Let_def)

lemma rnd_uminus: "rnd (- x) = - rnd x"
  by (auto simp: rnd_def Let_def round_grid_uminus)

lemma rnd_nonneg: "0 \<le> x \<Longrightarrow> Fin 0 \<le> rnd x"
  using rnd_mono [of 0 x] by simp

lemma rnd_nonpos: "x \<le> 0 \<Longrightarrow> rnd x \<le> Fin 0"
  using rnd_mono [of x 0] by simp

lemma rnd_less_imp_less: "rnd x < rnd y \<Longrightarrow> x < y"
  by (metis rnd_mono rnd_not_NaN float_not_less not_le)

text \<open>A multiple of a grid step with at most 53 significant bits is its own rounding.\<close>

lemma round_grid_exact:
  assumes "\<bar>m\<bar> \<le> 2 ^ 53" and "- 1074 \<le> k"
  shows "round_grid (of_int m * 2 powi k) = of_int m * 2 powi k"
proof -
  let ?x = "of_int m * 2 powi k :: rat"
  let ?g = "grid_exp ?x"
  show ?thesis
  proof (cases "m = 0")
    case True
    then show ?thesis by simp
  next
    case False
    then have pos: "0 < \<bar>?x\<bar>" by simp
    have step: "of_int j * 2 powi (i - l) \<in> (\<int> :: rat set)" if "l \<le> i" for i j l
      using that by (simp add: power_int_def)
    have "?x / 2 powi ?g \<in> \<int>"
    proof (cases "?g \<le> k")
      case True
      have "?x / 2 powi ?g = of_int m * 2 powi (k - ?g)"
        by (simp add: power_int_diff)
      then show ?thesis using step [OF True, of m] by simp
    next
      case False
      then have g: "?g = ilog2 \<bar>?x\<bar> - 52" "k < ilog2 \<bar>?x\<bar> - 52"
        using assms(2) by (auto simp: grid_exp_def)
      have "2 powi (53 + k) \<le> (2 :: rat) powi ilog2 \<bar>?x\<bar>"
        by (rule power_int_increasing) (use g in auto)
      also have "\<dots> \<le> \<bar>?x\<bar>" by (rule ilog2_bounds(1) [OF pos])
      also have "\<dots> = of_int \<bar>m\<bar> * 2 powi k" by (simp add: abs_mult)
      finally have "2 ^ 53 * 2 powi k \<le> (of_int \<bar>m\<bar> * 2 powi k :: rat)"
        by (simp add: power_int_add)
      then have "2 ^ 53 \<le> (of_int \<bar>m\<bar> :: rat)" by simp
      then have "2 ^ 53 \<le> \<bar>m\<bar>" by (metis of_int_le_iff of_int_numeral of_int_power)
      with assms(1) have m: "\<bar>m\<bar> = 2 ^ 53" by simp
      then have "\<bar>?x\<bar> = 2 powi (53 + k)"
        by (simp add: abs_mult power_int_add flip: of_int_abs)
      then have "2 powi ilog2 \<bar>?x\<bar> \<le> (2 :: rat) powi (53 + k)"
        using ilog2_bounds(1) [OF pos] by simp
      then have "ilog2 \<bar>?x\<bar> \<le> 53 + k"
        by (metis not_less power_int_strict_increasing numeral_One one_less_numeral_iff
            semiring_norm(76) not_le)
      with g have "?g = k + 1" by simp
      moreover have "even \<bar>m\<bar>" unfolding m by simp
      then obtain s where "m = 2 * s" by (auto elim: evenE)
      ultimately have "?x / 2 powi ?g = of_int s"
        by (simp add: power_int_add)
      then show ?thesis by simp
    qed
    then obtain j where "?x / 2 powi ?g = of_int j" by (auto elim: Ints_cases)
    then have "round_grid ?x = ?x / 2 powi ?g * 2 powi ?g"
      using pos by (auto simp: round_grid_def)
    then show ?thesis by simp
  qed
qed

lemma round_grid_form:
  obtains m where "round_grid x = of_int m * 2 powi grid_exp x" and "\<bar>m\<bar> \<le> 2 ^ 53"
proof (cases "x = 0")
  case True
  then show ?thesis using that [of 0] by simp
next
  case False
  let ?g = "grid_exp x"
  have "\<bar>x\<bar> < 2 powi (ilog2 \<bar>x\<bar> + 1)" by (rule ilog2_bounds) (use False in simp)
  also have "\<dots> \<le> 2 powi (53 + ?g)"
    by (rule power_int_increasing) (auto simp: grid_exp_def)
  finally have "\<bar>x / 2 powi ?g\<bar> \<le> of_int (2 ^ 53)"
    by (simp add: power_int_add field_simps)
  then have "x / 2 powi ?g \<le> of_int (2 ^ 53)" and "of_int (- (2 ^ 53)) \<le> x / 2 powi ?g"
    by (auto simp only: abs_le_iff of_int_minus)
  then have "round_half_even (x / 2 powi ?g) \<le> 2 ^ 53"
    and "- (2 ^ 53) \<le> round_half_even (x / 2 powi ?g)"
    by (metis round_half_even_mono round_half_even_of_int)+
  then have "\<bar>round_half_even (x / 2 powi ?g)\<bar> \<le> 2 ^ 53" by linarith
  then show ?thesis using that False by (simp add: round_grid_def)
qed

lemma round_grid_idem: "round_grid (round_grid x) = round_grid x"
proof -
  obtain m where m: "round_grid x = of_int m * 2 powi grid_exp x" "\<bar>m\<bar> \<le> 2 ^ 53"
    by (rule round_grid_form)
  then show ?thesis using round_grid_exact [of m "grid_exp x"] by (simp add: grid_exp_def)
qed

lemma rnd_Fin_bound: "rnd x = Fin y \<Longrightarrow> y = round_grid x \<and> \<bar>y\<bar> < 2 ^ 1024"
  by (auto simp: rnd_def Let_def split: if_splits)

lemma rnd_idem: "rnd x = Fin y \<Longrightarrow> rnd y = Fin y"
  by (auto simp: rnd_def Let_def round_grid_idem split: if_splits)

lemma rnd_overflow: "rnd (2 ^ 1024) = PosInf"
  using round_grid_exact [of 1 1024] by (simp add: rnd_def Let_def del: power_numeral)

lemma rnd_of_int:
  assumes "\<bar>n\<bar> \<le> 2 ^ 53"
  shows "rnd (of_int n) = Fin (of_int n)"
proof -
  have "(of_int n :: rat) \<le> of_int (2 ^ 53)" and "of_int (- (2 ^ 53)) \<le> (of_int n :: rat)"
    using assms by (auto simp only: of_int_le_iff abs_le_iff)
  then have "(of_int n :: rat) < 2 ^ 1024" and "- (2 ^ 1024) < (of_int n :: rat)" by simp_all
  then show ?thesis
    using round_grid_exact [of n 0] assms by (simp add: rnd_def Let_def)
qed

lemma rnd_of_nat: "n \<le> 2 ^ 53 \<Longrightarrow> rnd (of_nat n) = Fin (of_nat n)"
  using rnd_of_int [of "int n"] by (simp flip: of_nat_le_iff)

subsection \<open>Representable values\<close>

fun is_double :: "float64 \<Rightarrow> bool" where
  "is_double (Fin r) = (rnd r = Fin r)"
| "is_double _ = True"

lemma is_double_rnd [simp]: "is_double (rnd x)"
  by (cases "rnd x") (auto dest: rnd_idem)

lemma is_double_fadd: "is_double (fadd x y)"
  by (cases x; cases y) simp_all

lemma is_double_fmul: "is_double (fmul x y)"
  by (cases x; cases y) simp_all

lemma is_double_ops [simp]:
  "is_double (x + y)" "is_double (x - y)" "is_double (x * y)" "is_double (Fin 0)"
  by (simp_all add: plus_float64_def minus_float64_def times_float64_def is_double_fadd
      is_double_fmul)

lemma is_double_neg: "is_double x \<Longrightarrow> is_double (- x)"
  by (cases x) (auto simp: rnd_uminus)

lemma mult_le_self: "is_double (Fin a) \<Longrightarrow> 0 \<le> a \<Longrightarrow> s \<le> 1 \<Longrightarrow> Fin a * Fin s \<le> Fin a"
  using rnd_mono [of "a * s" a] mult_left_mono [of s 1 a] by simp

lemma mult_ge_self: "is_double (Fin a) \<Longrightarrow> 0 \<le> a \<Longrightarrow> 1 \<le> s \<Longrightarrow> Fin a \<le> Fin a * Fin s"
  using rnd_mono [of a "a * s"] mult_left_mono [of 1 s a] by simp

lemma mult_le_mult: "0 \<le> a \<Longrightarrow> s \<le> t \<Longrightarrow> Fin a * Fin s \<le> Fin a * Fin t"
  using rnd_mono [of "a * s" "a * t"] mult_left_mono [of s t a] by simp

lemma add_0_right: "is_double x \<Longrightarrow> x + Fin 0 = x"
  by (cases x) (auto simp: plus_float64_def)

text \<open>Gradual underflow: the difference of distinct doubles does not round to zero.\<close>

lemma is_double_subnormal_grid:
  assumes "is_double (Fin a)"
  obtains m where "a = of_int m * 2 powi (- 1074)"
proof -
  from assms have "a = round_grid a" using rnd_Fin_bound by fastforce
  then obtain m where m: "a = of_int m * 2 powi grid_exp a"
    by (metis round_grid_form)
  define d where "d = nat (grid_exp a + 1074)"
  have d: "grid_exp a = int d - 1074" unfolding d_def grid_exp_def by linarith
  have "(2 :: rat) powi grid_exp a = of_int (2 ^ d) * 2 powi (- 1074)"
    unfolding d by (simp add: power_int_diff field_simps)
  with m have "a = of_int (m * 2 ^ d) * 2 powi (- 1074)" by simp
  then show ?thesis by (rule that)
qed

lemma rnd_diff_pos_iff:
  assumes "is_double (Fin a)" and "is_double (Fin b)"
  shows "Fin 0 < rnd (a - b) \<longleftrightarrow> b < a"
proof
  assume "b < a"
  obtain m where m: "a = of_int m * 2 powi (- 1074)"
    using assms(1) by (rule is_double_subnormal_grid)
  obtain n where n: "b = of_int n * 2 powi (- 1074)"
    using assms(2) by (rule is_double_subnormal_grid)
  have "n < m" using \<open>b < a\<close> unfolding m n by simp
  then have "of_int 1 * 2 powi (- 1074) \<le> of_int (m - n) * (2 :: rat) powi (- 1074)"
    by (intro mult_right_mono) auto
  then have "of_int 1 * 2 powi (- 1074) \<le> a - b"
    unfolding m n by (simp add: algebra_simps)
  then have "rnd (of_int 1 * 2 powi (- 1074)) \<le> rnd (a - b)" by (rule rnd_mono)
  moreover have "Fin 0 < rnd (of_int 1 * 2 powi (- 1074))"
    using round_grid_exact [of 1 "- 1074"] by (simp add: rnd_def Let_def)
  ultimately show "Fin 0 < rnd (a - b)" by (blast intro: float_less_le_trans)
next
  assume "Fin 0 < rnd (a - b)"
  then have "rnd 0 < rnd (a - b)" by simp
  then show "b < a" using rnd_less_imp_less by fastforce
qed

lemma sub_pos_iff:
  assumes "is_double x" and "is_double y" and "isfinite x" and "isfinite y"
  shows "0 < x - y \<longleftrightarrow> y < x"
  using assms rnd_diff_pos_iff by (auto simp: isfinite_iff zero_eq_Fin)

subsection \<open>The integer square root\<close>

lemma isqrt_bounds: "0 \<le> n \<Longrightarrow> 0 \<le> isqrt n \<and> isqrt n * isqrt n \<le> n \<and> n < (isqrt n + 1) * (isqrt n + 1)"
proof (induction n rule: isqrt.induct)
  case (1 n)
  show ?case
  proof (cases "n \<le> 0")
    case True
    with "1.prems" show ?thesis by (simp add: isqrt.simps)
  next
    case False
    define r where "r = isqrt (n div 4)"
    have r: "0 \<le> r" "r * r \<le> n div 4" "n div 4 < (r + 1) * (r + 1)"
      using "1.IH" False by (auto simp: r_def)
    have "4 * (r * r) \<le> n" and "n < 4 * ((r + 1) * (r + 1))" using r(2,3) by linarith+
    moreover have "isqrt n = (if (2 * r + 1) * (2 * r + 1) \<le> n then 2 * r + 1 else 2 * r)"
      using False by (subst isqrt.simps) (simp add: Let_def r_def)
    ultimately show ?thesis using r(1) by (auto simp: algebra_simps)
  qed
qed

end
