(* ===== verification/PyText.thy ===== *)
theory PyText
  imports PyFloat
begin

text \<open>
  The string operations of the language that the configuration code relies on.
  \<open>float(s)\<close> and \<open>int(s)\<close> are modelled on ASCII text, with their whitespace,
  underscore and digit-count rules (\<open>int\<close> refuses more than 4300 digits).
\<close>

subsection \<open>Text to number\<close>

definition char_code :: "char \<Rightarrow> int" where
  "char_code c = of_char c"

definition is_space :: "char \<Rightarrow> bool" where
  "is_space c = (let n = char_code c in
     9 \<le> n \<and> n \<le> 13 \<or> 28 \<le> n \<and> n \<le> 32 \<or> n = 133 \<or> n = 160)"

definition is_digit :: "char \<Rightarrow> bool" where
  "is_digit c = (48 \<le> char_code c \<and> char_code c \<le> 57)"

definition lower_char :: "char \<Rightarrow> char" where
  "lower_char c = (if 65 \<le> char_code c \<and> char_code c \<le> 90 then char_of (char_code c + 32) else c)"

definition strip :: "string \<Rightarrow> string" where
  "strip s = rev (dropWhile is_space (rev (dropWhile is_space s)))"

definition lower :: "string \<Rightarrow> string" where
  "lower s = map lower_char s"

fun split_comma :: "string \<Rightarrow> string list" where
  "split_comma [] = [[]]"
| "split_comma (c # cs) =
     (case split_comma cs of
        [] \<Rightarrow> [[c]]
      | p # ps \<Rightarrow> if c = CHR '','' then [] # p # ps else (c # p) # ps)"

definition digits_value :: "string \<Rightarrow> int" where
  "digits_value s = foldl (\<lambda>a c. 10 * a + (char_code c - 48)) 0 s"

text \<open>An underscore may stand only between two digits.\<close>

fun underscores_ok :: "bool \<Rightarrow> string \<Rightarrow> bool" where
  "underscores_ok after_digit [] = True"
| "underscores_ok after_digit [c] = (c \<noteq> CHR ''_'')"
| "underscores_ok after_digit (c # d # cs) =
     ((c = CHR ''_'' \<longrightarrow> after_digit \<and> is_digit d) \<and> underscores_ok (is_digit c) (d # cs))"

definition drop_underscores :: "string \<Rightarrow> string" where
  "drop_underscores s = filter (\<lambda>c. c \<noteq> CHR ''_'') s"

fun split_sign :: "string \<Rightarrow> bool \<times> string" where
  "split_sign [] = (False, [])"
| "split_sign (c # cs) =
     (if c = CHR ''-'' then (True, cs) else if c = CHR ''+'' then (False, cs) else (False, c # cs))"

definition parse_int :: "string \<Rightarrow> int option" where
  "parse_int s0 =
     (let (neg, s) = split_sign (strip s0); ds = drop_underscores s in
      if ds = [] \<or> \<not> underscores_ok False s \<or> \<not> list_all is_digit ds \<or> 4300 < int (length ds)
      then None
      else Some (if neg then - digits_value ds else digits_value ds))"

definition parse_exponent :: "string \<Rightarrow> int option" where
  "parse_exponent s =
     (case s of
        [] \<Rightarrow> Some 0
      | c # cs \<Rightarrow>
          if c \<noteq> CHR ''e'' then None
          else let (neg, ds) = split_sign cs in
               if ds = [] \<or> \<not> list_all is_digit ds then None
               else Some (if neg then - digits_value ds else digits_value ds))"

definition parse_float :: "string \<Rightarrow> float64 option" where
  "parse_float s0 =
     (let (neg, s1) = split_sign (lower (strip s0));
          signed = (\<lambda>x. if neg then - x else x) in
      if s1 = ''inf'' \<or> s1 = ''infinity'' then Some (signed PosInf)
      else if s1 = ''nan'' then Some NaN
      else if \<not> underscores_ok False s1 then None
      else
        let s = drop_underscores s1;
            whole = takeWhile is_digit s; r1 = dropWhile is_digit s;
            (frac, r2) = (case r1 of
                            [] \<Rightarrow> ([], [])
                          | c # cs \<Rightarrow> if c = CHR ''.'' then (takeWhile is_digit cs, dropWhile is_digit cs)
                                     else ([], r1)) in
        if whole = [] \<and> frac = [] then None
        else case parse_exponent r2 of
               None \<Rightarrow> None
             | Some e \<Rightarrow>
                 Some (signed (rnd (of_int (digits_value (whole @ frac)) *
                                    10 powi (e - int (length frac))))))"

text \<open>\<open>float(n)\<close> of an \<open>int\<close> raises \<open>OverflowError\<close> when no finite double is near it.\<close>

definition int_to_float :: "int \<Rightarrow> float64 res" where
  "int_to_float n = (if isfinite (rnd (of_int n)) then Inr (rnd (of_int n)) else Inl OverflowError)"

type_synonym environ = "(string \<times> string) list"

text \<open>\<open>os.getenv(name, default).lower() not in ("false", "0", "no")\<close> and its kin.\<close>

definition getenv :: "environ \<Rightarrow> string \<Rightarrow> string \<Rightarrow> string" where
  "getenv env name dflt = dict_get env name dflt"

definition getenv_float :: "environ \<Rightarrow> string \<Rightarrow> float64 \<Rightarrow> float64 res" where
  "getenv_float env name dflt =
     (case map_of env name of
        None \<Rightarrow> Inr dflt
      | Some s \<Rightarrow> (case parse_float s of None \<Rightarrow> Inl ValueError | Some x \<Rightarrow> Inr x))"

definition getenv_int :: "environ \<Rightarrow> string \<Rightarrow> int \<Rightarrow> int res" where
  "getenv_int env name dflt =
     (case map_of env name of
        None \<Rightarrow> Inr dflt
      | Some s \<Rightarrow> (case parse_int s of None \<Rightarrow> Inl ValueError | Some n \<Rightarrow> Inr n))"

end
