(* ===== verification/Ports.thy ===== *)
theory Ports
  imports PyFloat
begin

text \<open>
  \<open>domain/ports.py\<close>: what the services tell the outside.

  An f-string is the list of its literal and interpolated parts (\<open>fstring\<close>), with the
  number of decimals of a \<open>:.nf\<close> specification kept beside the value, so a message is
  compared part by part instead of character by character.  The audit, metrics and
  notification ports are logs of the calls made to them.
\<close>

datatype fpart = L string | F float64 | FX nat float64 | Z int

type_synonym fstring = "fpart list"

record audit_event =
  ae_action :: string
  ae_actor :: string
  ae_resource :: string
  ae_detail :: fstring

type_synonym audit_log = "audit_event list option"

type_synonym metrics_log = "(string \<times> float64) list option"

definition audit_rec :: "string \<Rightarrow> string \<Rightarrow> string \<Rightarrow> fstring \<Rightarrow> audit_log \<Rightarrow> audit_log" where
  "audit_rec action actor resource detail l =
     log_to \<lparr>ae_action = action, ae_actor = actor, ae_resource = resource, ae_detail = detail\<rparr> l"

definition counter :: "string \<Rightarrow> float64 \<Rightarrow> metrics_log \<Rightarrow> metrics_log" where
  "counter name delta l = log_to (name, delta) l"

datatype level = INFO | WARNING | ERROR | CRITICAL

type_synonym notification = "level \<times> string \<times> fstring"

lemma audit_rec_None [simp]: "audit_rec a b c d None = None"
  by (simp add: audit_rec_def)

lemma audit_rec_Some [simp]: "audit_rec a b c d (Some l) =
    Some (l @ [\<lparr>ae_action = a, ae_actor = b, ae_resource = c, ae_detail = d\<rparr>])"
  by (simp add: audit_rec_def)

text \<open>
  \<open>str(id)\<close> of an order id: the literal parts and the counters; an id has no float part.
\<close>

fun nat_text :: "nat \<Rightarrow> string" where
  "nat_text n = (if n < 10 then [char_of (48 + n)] else nat_text (n div 10) @ [char_of (48 + n mod 10)])"

declare nat_text.simps [simp del]

fun part_text :: "fpart \<Rightarrow> string" where
  "part_text (L s) = s"
| "part_text (Z n) = (if n < 0 then [CHR 0x2D] else []) @ nat_text (nat \<bar>n\<bar>)"
| "part_text (F x) = []"
| "part_text (FX k x) = []"

definition order_id_text :: "fstring \<Rightarrow> string" where
  "order_id_text parts = concat (map part_text parts)"

text \<open>The verdict of a risk gate.\<close>

record trade_verdict =
  allowed :: bool
  v_reason :: fstring

abbreviation allow :: trade_verdict where
  "allow \<equiv> \<lparr>allowed = True, v_reason = []\<rparr>"

abbreviation refuse :: "fstring \<Rightarrow> trade_verdict" where
  "refuse r \<equiv> \<lparr>allowed = False, v_reason = r\<rparr>"

end
