(* ===== verification/Accounts.thy ===== *)
theory Accounts
  imports PyText Ports "HOL-Library.AList"
begin

text \<open>
  \<open>domain/entities/user.py\<close>, \<open>domain/services/account_service.py\<close> and the user tables of
  \<open>infrastructure/repositories/sqlite/users.py\<close>.

  The two hash functions are parameters (\<open>crypto\<close>); nothing is assumed of them.  A stored
  password hash is its four fields, or text that does not split into them.  Drawn salts,
  tokens and ids and the instants read are arguments; a row of a table is a list element in
  insertion order, and an insert that violates a key raises.
\<close>

subsection \<open>Users, sessions and keys\<close>

datatype user_role = AdminRole | OperatorRole | ViewerRole

datatype user_status = ActiveUser | DisabledUser

datatype password_hash = Pbkdf2 string int string string | Unreadable

record user =
  us_id :: uuid
  us_username :: string
  us_password_hash :: password_hash
  us_role :: user_role
  us_status :: user_status
  us_created_at :: datetime

record user_session =
  ss_token_hash :: string
  ss_user_id :: uuid
  ss_expires_at :: datetime
  ss_created_at :: datetime

record user_api_key =
  uk_id :: uuid
  uk_user_id :: uuid
  uk_label :: string
  uk_key_hash :: string
  uk_prefix :: string
  uk_created_at :: datetime
  uk_revoked_at :: "datetime option"

subsection \<open>The tables\<close>

record user_tables =
  ut_users :: "user list"
  ut_sessions :: "user_session list"
  ut_keys :: "user_api_key list"

definition insert_user :: "user \<Rightarrow> user_tables \<Rightarrow> unit res \<times> user_tables" where
  "insert_user u t =
     (if list_ex (\<lambda>v. us_id v = us_id u \<or> us_username v = us_username u) (ut_users t) then (Inl IntegrityError, t)
      else (Inr (), t\<lparr>ut_users := ut_users t @ [u]\<rparr>))"

definition get_user :: "uuid \<Rightarrow> user_tables \<Rightarrow> user option" where
  "get_user i t = find (\<lambda>u. us_id u = i) (ut_users t)"

definition get_user_by_username :: "string \<Rightarrow> user_tables \<Rightarrow> user option" where
  "get_user_by_username n t = find (\<lambda>u. us_username u = n) (ut_users t)"

definition list_users :: "user_tables \<Rightarrow> user list" where
  "list_users t = sort_key us_created_at (ut_users t)"

definition insert_session :: "user_session \<Rightarrow> user_tables \<Rightarrow> unit res \<times> user_tables" where
  "insert_session s t =
     (if list_ex (\<lambda>r. ss_token_hash r = ss_token_hash s) (ut_sessions t) then (Inl IntegrityError, t)
      else (Inr (), t\<lparr>ut_sessions := ut_sessions t @ [s]\<rparr>))"

definition get_user_session :: "string \<Rightarrow> user_tables \<Rightarrow> user_session option" where
  "get_user_session h t = find (\<lambda>s. ss_token_hash s = h) (ut_sessions t)"

definition delete_session :: "string \<Rightarrow> user_tables \<Rightarrow> user_tables" where
  "delete_session h t = t\<lparr>ut_sessions := filter (\<lambda>s. ss_token_hash s \<noteq> h) (ut_sessions t)\<rparr>"

definition insert_api_key :: "user_api_key \<Rightarrow> user_tables \<Rightarrow> unit res \<times> user_tables" where
  "insert_api_key k t =
     (if list_ex (\<lambda>r. uk_id r = uk_id k) (ut_keys t) then (Inl IntegrityError, t)
      else (Inr (), t\<lparr>ut_keys := ut_keys t @ [k]\<rparr>))"

definition get_api_key :: "string \<Rightarrow> user_tables \<Rightarrow> user_api_key option" where
  "get_api_key h t = find (\<lambda>k. uk_key_hash k = h) (ut_keys t)"

definition list_api_keys :: "uuid \<Rightarrow> user_tables \<Rightarrow> user_api_key list" where
  "list_api_keys i t = sort_key uk_created_at (filter (\<lambda>k. uk_user_id k = i) (ut_keys t))"

definition revoke_api_key :: "datetime \<Rightarrow> uuid \<Rightarrow> user_tables \<Rightarrow> user_tables" where
  "revoke_api_key now i t =
     t\<lparr>ut_keys := map (\<lambda>k. if uk_id k = i then k\<lparr>uk_revoked_at := Some now\<rparr> else k) (ut_keys t)\<rparr>"

subsection \<open>The account service\<close>

record crypto =
  cr_pbkdf2 :: "string \<Rightarrow> string \<Rightarrow> int \<Rightarrow> string"
  cr_sha256 :: "string \<Rightarrow> string"

record accounts =
  ac_tables :: user_tables
  ac_ttl :: int
  ac_iterations :: int
  ac_crypto :: crypto
  ac_audit :: audit_log

definition new_accounts :: "crypto \<Rightarrow> audit_log \<Rightarrow> accounts" where
  "new_accounts cr audit =
     \<lparr>ac_tables = \<lparr>ut_users = [], ut_sessions = [], ut_keys = []\<rparr>, ac_ttl = 43200, ac_iterations = 100000,
      ac_crypto = cr, ac_audit = audit\<rparr>"

definition hash_password :: "string \<Rightarrow> string \<Rightarrow> accounts \<Rightarrow> password_hash" where
  "hash_password salt password ac =
     Pbkdf2 ''pbkdf2_sha256'' (ac_iterations ac) salt (cr_pbkdf2 (ac_crypto ac) password salt (ac_iterations ac))"

definition verify_password :: "string \<Rightarrow> password_hash \<Rightarrow> accounts \<Rightarrow> bool" where
  "verify_password password stored ac =
     (case stored of
        Unreadable \<Rightarrow> False
      | Pbkdf2 scheme iterations salt digest \<Rightarrow>
          scheme = ''pbkdf2_sha256'' \<and> 0 < iterations \<and> cr_pbkdf2 (ac_crypto ac) password salt iterations = digest)"

fun role_value :: "user_role \<Rightarrow> string" where
  "role_value AdminRole = ''admin''"
| "role_value OperatorRole = ''operator''"
| "role_value ViewerRole = ''viewer''"

text \<open>The instant, the id and the salt a new account draws.\<close>

record draw =
  dw_now :: datetime
  dw_id :: uuid
  dw_salt :: string

definition create_user :: "draw \<Rightarrow> string \<Rightarrow> string \<Rightarrow> user_role \<Rightarrow> accounts \<Rightarrow> user option res \<times> accounts" where
  "create_user dw username password role ac =
     (let name = strip username in
      if name = [] \<or> password = [] then (Inr None, ac)
      else if get_user_by_username name (ac_tables ac) \<noteq> None then (Inr None, ac)
      else
      let u = \<lparr>us_id = dw_id dw, us_username = name, us_password_hash = hash_password (dw_salt dw) password ac,
               us_role = role, us_status = ActiveUser, us_created_at = dw_now dw\<rparr> in
      case insert_user u (ac_tables ac) of
        (Inl e, t) \<Rightarrow> (Inl e, ac)
      | (Inr _, t) \<Rightarrow>
          (Inr (Some u), ac\<lparr>ac_tables := t,
             ac_audit := audit_rec ''user.created'' ''account-service'' name [L (role_value role)] (ac_audit ac)\<rparr>))"

definition authenticate :: "string \<Rightarrow> string \<Rightarrow> accounts \<Rightarrow> (user option \<times> bool) \<times> accounts" where
  "authenticate username password ac =
     (case get_user_by_username username (ac_tables ac) of
        None \<Rightarrow> ((None, False), ac)
      | Some u \<Rightarrow>
          if us_status u \<noteq> ActiveUser then ((Some u, False), ac)
          else
          let ok = verify_password password (us_password_hash u) ac in
          ((Some u, ok), ac\<lparr>ac_audit := audit_rec ''user.login'' username ''account-service''
             [L (if ok then ''ok'' else ''denied'')] (ac_audit ac)\<rparr>))"

definition create_user_session :: "datetime \<Rightarrow> string \<Rightarrow> user \<Rightarrow> accounts \<Rightarrow> user_session res \<times> accounts" where
  "create_user_session now raw u ac =
     (let s = \<lparr>ss_token_hash = cr_sha256 (ac_crypto ac) raw, ss_user_id = us_id u,
               ss_expires_at = now + ac_ttl ac * 1000000, ss_created_at = now\<rparr> in
      case insert_session s (ac_tables ac) of
        (Inl e, t) \<Rightarrow> (Inl e, ac)
      | (Inr _, t) \<Rightarrow> (Inr s, ac\<lparr>ac_tables := t\<rparr>))"

definition validate_session :: "datetime \<Rightarrow> string \<Rightarrow> accounts \<Rightarrow> user option \<times> accounts" where
  "validate_session now raw ac =
     (if raw = [] then (None, ac)
      else case get_user_session (cr_sha256 (ac_crypto ac) raw) (ac_tables ac) of
        None \<Rightarrow> (None, ac)
      | Some s \<Rightarrow>
          if ss_expires_at s < now then (None, ac\<lparr>ac_tables := delete_session (ss_token_hash s) (ac_tables ac)\<rparr>)
          else (get_user (ss_user_id s) (ac_tables ac), ac))"

definition revoke_session :: "string \<Rightarrow> accounts \<Rightarrow> accounts" where
  "revoke_session raw ac =
     (if raw = [] then ac
      else case get_user_session (cr_sha256 (ac_crypto ac) raw) (ac_tables ac) of
        None \<Rightarrow> ac
      | Some s \<Rightarrow> ac\<lparr>ac_tables := delete_session (ss_token_hash s) (ac_tables ac)\<rparr>)"

definition issue_api_key ::
  "datetime \<Rightarrow> uuid \<Rightarrow> string \<Rightarrow> user \<Rightarrow> string \<Rightarrow> accounts \<Rightarrow> (string \<times> user_api_key) option res \<times> accounts" where
  "issue_api_key now i drawn u label ac =
     (if us_status u \<noteq> ActiveUser then (Inr None, ac)
      else
      let raw = ''trd_'' @ drawn;
          k = \<lparr>uk_id = i, uk_user_id = us_id u, uk_label = label, uk_key_hash = cr_sha256 (ac_crypto ac) raw,
               uk_prefix = take 10 raw, uk_created_at = now, uk_revoked_at = None\<rparr> in
      case insert_api_key k (ac_tables ac) of
        (Inl e, t) \<Rightarrow> (Inl e, ac)
      | (Inr _, t) \<Rightarrow> (Inr (Some (raw, k)), ac\<lparr>ac_tables := t\<rparr>))"

definition validate_api_key :: "string \<Rightarrow> accounts \<Rightarrow> user option" where
  "validate_api_key raw ac =
     (if raw = [] then None
      else case get_api_key (cr_sha256 (ac_crypto ac) raw) (ac_tables ac) of
        None \<Rightarrow> None
      | Some k \<Rightarrow> if uk_revoked_at k \<noteq> None then None else get_user (uk_user_id k) (ac_tables ac))"

definition bootstrap_admin_from_env :: "environ \<Rightarrow> draw \<Rightarrow> accounts \<Rightarrow> user option res \<times> accounts" where
  "bootstrap_admin_from_env env dw ac =
     (let username = strip (getenv env ''TRADEROS_ADMIN_USERNAME'' []);
          password = getenv env ''TRADEROS_ADMIN_PASSWORD'' [] in
      if username = [] \<or> password = [] then (Inr None, ac)
      else if get_user_by_username username (ac_tables ac) \<noteq> None then (Inr None, ac)
      else create_user dw username password AdminRole ac)"

subsection \<open>Usernames are unique and stripped\<close>

definition tables_ok :: "user_tables \<Rightarrow> bool" where
  "tables_ok t \<longleftrightarrow> distinct (map us_id (ut_users t)) \<and> distinct (map us_username (ut_users t)) \<and>
     distinct (map ss_token_hash (ut_sessions t)) \<and> distinct (map uk_id (ut_keys t))"

text \<open>The calls of the service and of its repository, as a client makes them.\<close>

datatype account_call =
    CreateUser draw string string user_role
  | Login string string
  | OpenSession datetime string user
  | ValidateSession datetime string
  | RevokeSession string
  | IssueKey datetime uuid string user string
  | RevokeKey datetime uuid
  | Bootstrap environ draw

fun account_do :: "account_call \<Rightarrow> accounts \<Rightarrow> accounts" where
  "account_do (CreateUser dw n p r) ac = snd (create_user dw n p r ac)"
| "account_do (Login n p) ac = snd (authenticate n p ac)"
| "account_do (OpenSession now raw u) ac = snd (create_user_session now raw u ac)"
| "account_do (ValidateSession now raw) ac = snd (validate_session now raw ac)"
| "account_do (RevokeSession raw) ac = revoke_session raw ac"
| "account_do (IssueKey now i drawn u label) ac = snd (issue_api_key now i drawn u label ac)"
| "account_do (RevokeKey now i) ac = ac\<lparr>ac_tables := revoke_api_key now i (ac_tables ac)\<rparr>"
| "account_do (Bootstrap env dw) ac = snd (bootstrap_admin_from_env env dw ac)"

definition account_run :: "account_call list \<Rightarrow> accounts \<Rightarrow> accounts" where
  "account_run cs ac = foldl (\<lambda>ac c. account_do c ac) ac cs"

lemma find_append: "find P (xs @ ys) = (case find P xs of None \<Rightarrow> find P ys | Some x \<Rightarrow> Some x)"
  by (induction xs) auto

lemma find_None_filter: "find P (filter (\<lambda>x. \<not> P x) xs) = None"
  by (simp add: find_None_iff)

lemma create_user_cases:
  "create_user dw n p r ac = (q, ac') \<Longrightarrow> ac' = ac \<or>
     (\<exists>u. q = Inr (Some u) \<and> us_username u = strip n \<and> us_username u \<noteq> [] \<and> us_role u = r \<and> us_status u = ActiveUser \<and>
        us_password_hash u = hash_password (dw_salt dw) p ac \<and> us_id u = dw_id dw \<and> p \<noteq> [] \<and>
        insert_user u (ac_tables ac) = (Inr (), ac_tables ac') \<and> ac_crypto ac' = ac_crypto ac \<and> ac_ttl ac' = ac_ttl ac)"
  by (auto simp: create_user_def Let_def split: if_splits prod.splits sum.splits)

lemma tables_ok_insert_user: "tables_ok t \<Longrightarrow> tables_ok (snd (insert_user u t))"
  by (auto simp: tables_ok_def insert_user_def list_ex_iff)

lemma tables_ok_insert_session: "tables_ok t \<Longrightarrow> tables_ok (snd (insert_session u t))"
  by (auto simp: tables_ok_def insert_session_def list_ex_iff)

lemma tables_ok_insert_key: "tables_ok t \<Longrightarrow> tables_ok (snd (insert_api_key u t))"
  by (auto simp: tables_ok_def insert_api_key_def list_ex_iff)

lemma tables_ok_delete: "tables_ok t \<Longrightarrow> tables_ok (delete_session h t)"
  by (auto simp: tables_ok_def delete_session_def distinct_map_filter)

lemma tables_ok_revoke: "tables_ok t \<Longrightarrow> tables_ok (revoke_api_key now i t)"
proof -
  have ids: "map (uk_id \<circ> (\<lambda>k. if uk_id k = i then k\<lparr>uk_revoked_at := Some now\<rparr> else k)) ks = map uk_id ks" for ks
    by (induction ks) auto
  show "tables_ok t \<Longrightarrow> tables_ok (revoke_api_key now i t)"
    by (simp add: tables_ok_def revoke_api_key_def ids)
qed

lemma tables_ok_do: "tables_ok (ac_tables ac) \<Longrightarrow> tables_ok (ac_tables (account_do c ac))"
proof (cases c)
  case (CreateUser dw n p r)
  then show "tables_ok (ac_tables ac) \<Longrightarrow> tables_ok (ac_tables (account_do c ac))"
    using create_user_cases [of dw n p r ac "fst (create_user dw n p r ac)" "snd (create_user dw n p r ac)"]
      tables_ok_insert_user [of "ac_tables ac"]
    by (auto) (metis snd_conv)
next
  case (Bootstrap env dw)
  then show "tables_ok (ac_tables ac) \<Longrightarrow> tables_ok (ac_tables (account_do c ac))"
    using create_user_cases [of dw "strip (getenv env ''TRADEROS_ADMIN_USERNAME'' [])" "getenv env ''TRADEROS_ADMIN_PASSWORD'' []" AdminRole ac]
      tables_ok_insert_user [of "ac_tables ac"]
    by (auto simp: bootstrap_admin_from_env_def Let_def) (metis prod.collapse snd_conv)
next
  case (OpenSession now raw u)
  then show "tables_ok (ac_tables ac) \<Longrightarrow> tables_ok (ac_tables (account_do c ac))"
    using tables_ok_insert_session [of "ac_tables ac"]
    by (auto simp: create_user_session_def Let_def split: prod.split sum.split) (metis snd_conv)
next
  case (IssueKey now i drawn u label)
  then show "tables_ok (ac_tables ac) \<Longrightarrow> tables_ok (ac_tables (account_do c ac))"
    using tables_ok_insert_key [of "ac_tables ac"]
    by (auto simp: issue_api_key_def Let_def split: prod.split sum.split) (metis snd_conv)
qed (auto simp: authenticate_def validate_session_def revoke_session_def tables_ok_delete tables_ok_revoke Let_def
      split: option.split)

text \<open>
  Account integrity: whatever calls are made, in whatever order, ids, usernames, session
  hashes and key ids stay unique in their tables.
\<close>

theorem accounts_stay_unique:
  "tables_ok (ac_tables (account_run cs (new_accounts cr audit)))"
proof -
  have "tables_ok (ac_tables ac) \<Longrightarrow> tables_ok (ac_tables (account_run cs ac))" for ac
    by (induction cs arbitrary: ac) (simp_all add: account_run_def tables_ok_do)
  then show ?thesis by (simp add: new_accounts_def tables_ok_def)
qed

subsection \<open>Logging in, and out\<close>

lemma get_inserted_user:
  "insert_user u t = (Inr (), t') \<Longrightarrow> get_user (us_id u) t' = Some u \<and> get_user_by_username (us_username u) t' = Some u"
proof -
  assume ins: "insert_user u t = (Inr (), t')"
  then have t': "t' = t\<lparr>ut_users := ut_users t @ [u]\<rparr>"
    and new: "\<forall>v \<in> set (ut_users t). us_id v \<noteq> us_id u \<and> us_username v \<noteq> us_username u"
    by (auto simp: insert_user_def list_ex_iff split: if_splits)
  have "find (\<lambda>v. us_id v = us_id u) (ut_users t) = None" "find (\<lambda>v. us_username v = us_username u) (ut_users t) = None"
    using new by (auto simp: find_None_iff)
  then show ?thesis by (simp add: t' get_user_def get_user_by_username_def find_append)
qed

lemma get_inserted_session: "insert_session s t = (Inr (), t') \<Longrightarrow> get_user_session (ss_token_hash s) t' = Some s \<and> ut_users t' = ut_users t"
proof -
  assume ins: "insert_session s t = (Inr (), t')"
  then have t': "t' = t\<lparr>ut_sessions := ut_sessions t @ [s]\<rparr>" and "find (\<lambda>r. ss_token_hash r = ss_token_hash s) (ut_sessions t) = None"
    by (auto simp: insert_session_def list_ex_iff find_None_iff split: if_splits)
  then show ?thesis by (simp add: get_user_session_def find_append)
qed

lemma get_user_cong: "ut_users t' = ut_users t \<Longrightarrow> get_user i t' = get_user i t"
  by (simp add: get_user_def)

lemma verify_hashed: "0 < ac_iterations ac \<Longrightarrow> ac_crypto ac' = ac_crypto ac \<Longrightarrow> verify_password p (hash_password salt p ac) ac'"
  by (simp add: verify_password_def hash_password_def)

text \<open>
  C18. A new account can log in with its password and its session works until it expires: after a
  successful registration, authentication with the stripped name and the same password
  succeeds; a session opened then gives back the very user at every instant up to its expiry,
  is refused and deleted after it, and is refused at once when it was revoked.
\<close>

theorem registration_login_session_round_trip:
  assumes "create_user dw name password role ac = (Inr (Some u), ac1)" and "0 < ac_iterations ac"
    and "authenticate (strip name) password ac1 = ((who, ok), ac2)"
    and "create_user_session now raw u ac2 = (Inr s, ac3)" and "raw \<noteq> []"
  shows "who = Some u \<and> ok \<and> us_role u = role \<and> ss_expires_at s = now + ac_ttl ac * 1000000 \<and>
     (if later \<le> ss_expires_at s then fst (validate_session later raw ac3) = Some u
      else fst (validate_session later raw ac3) = None \<and>
        get_user_session (ss_token_hash s) (ac_tables (snd (validate_session later raw ac3))) = None) \<and>
     fst (validate_session later raw (revoke_session raw ac3)) = None"
proof -
  have u: "insert_user u (ac_tables ac) = (Inr (), ac_tables ac1)" "us_username u = strip name" "us_role u = role"
    "us_status u = ActiveUser" "us_password_hash u = hash_password (dw_salt dw) password ac" "ac_crypto ac1 = ac_crypto ac"
    "ac_ttl ac1 = ac_ttl ac"
    using assms(1) by (auto simp: create_user_def Let_def split: if_splits prod.splits sum.splits)
  note got = get_inserted_user [OF u(1)]
  have auth: "who = Some u" "ok" "ac_tables ac2 = ac_tables ac1" "ac_crypto ac2 = ac_crypto ac" "ac_ttl ac2 = ac_ttl ac"
    using assms(3) got u verify_hashed [OF assms(2) u(6)] by (auto simp: authenticate_def Let_def)
  have s: "insert_session s (ac_tables ac1) = (Inr (), ac_tables ac3)" "ss_token_hash s = cr_sha256 (ac_crypto ac) raw"
    "ss_user_id s = us_id u" "ss_expires_at s = now + ac_ttl ac * 1000000" "ac_crypto ac3 = ac_crypto ac"
    using assms(4) auth by (auto simp: create_user_session_def Let_def split: prod.splits sum.splits)
  note sess = get_inserted_session [OF s(1)]
  have user: "get_user (us_id u) (ac_tables ac3) = Some u" using got sess get_user_cong by metis
  have gone: "get_user_session h (delete_session h t) = None" for h t
    by (auto simp: get_user_session_def delete_session_def find_None_iff)
  have rev: "revoke_session raw ac3 = ac3\<lparr>ac_tables := delete_session (ss_token_hash s) (ac_tables ac3)\<rparr>"
    using sess s assms(5) by (simp add: revoke_session_def)
  show ?thesis
    using auth u s sess user gone [of "cr_sha256 (ac_crypto ac) raw" "ac_tables ac3"] rev assms(5)
    by (auto simp: validate_session_def)
qed

definition plain_crypto :: crypto where
  "plain_crypto = \<lparr>cr_pbkdf2 = (\<lambda>p s n. p @ s), cr_sha256 = (\<lambda>t. t)\<rparr>"

definition sample_draw :: draw where
  "sample_draw = \<lparr>dw_now = 0, dw_id = ''u1'', dw_salt = ''salt''\<rparr>"

theorem registration_login_session_round_trip_witness:
  "\<exists>ac. fst (validate_session 5 ''tok'' ac) \<noteq> None \<and> fst (validate_session 5 ''tok'' (revoke_session ''tok'' ac)) = None"
proof -
  let ?ac = "new_accounts plain_crypto None"
  have strip: "strip ''bob'' = ''bob''" by (simp add: strip_def is_space_def char_code_def)
  obtain u ac1 where c: "create_user sample_draw ''bob'' ''pw'' OperatorRole ?ac = (Inr (Some u), ac1)" "ac_tables ac1 = (ac_tables ?ac)\<lparr>ut_users := [u]\<rparr>"
    by (simp add: create_user_def strip new_accounts_def get_user_by_username_def insert_user_def Let_def)
  obtain who ok ac2 where a: "authenticate (strip ''bob'') ''pw'' ac1 = ((who, ok), ac2)" by (metis prod.collapse)
  have "ac_tables ac2 = ac_tables ac1" using a by (auto simp: authenticate_def Let_def split: option.splits if_splits)
  then obtain s ac3 where s: "create_user_session 0 ''tok'' u ac2 = (Inr s, ac3)"
    using c by (simp add: create_user_session_def insert_session_def new_accounts_def Let_def)
  have exp: "ss_expires_at s = 43200000000"
    using registration_login_session_round_trip [OF c(1) _ a s] by (simp add: new_accounts_def)
  have "fst (validate_session 5 ''tok'' ac3) = Some u \<and> fst (validate_session 5 ''tok'' (revoke_session ''tok'' ac3)) = None"
    using registration_login_session_round_trip [OF c(1) _ a s, of 5] exp by (simp add: new_accounts_def)
  then show ?thesis by (intro exI [of _ ac3]) simp
qed

text \<open>
  A live session outlives the account: the status of a user is read when logging in and when a
  key is issued, and never again, so an open session and an unrevoked key of a user who was
  disabled since are honoured like before, while logging in is refused.
\<close>

theorem disabled_user_keeps_credentials:
  assumes "get_user i (ac_tables ac) = Some u" and "us_status u = DisabledUser"
    and "get_user_session (cr_sha256 (ac_crypto ac) raw) (ac_tables ac) = Some s" and "ss_user_id s = i" and "now \<le> ss_expires_at s"
    and "get_api_key (cr_sha256 (ac_crypto ac) key) (ac_tables ac) = Some k" and "uk_user_id k = i" and "uk_revoked_at k = None"
    and "raw \<noteq> []" and "key \<noteq> []" and "get_user_by_username (us_username u) (ac_tables ac) = Some u"
  shows "fst (validate_session now raw ac) = Some u \<and> validate_api_key key ac = Some u \<and>
     fst (authenticate (us_username u) password ac) = (Some u, False)"
  using assms by (simp add: validate_session_def validate_api_key_def authenticate_def)

definition disabled_accounts :: accounts where
  "disabled_accounts = (new_accounts plain_crypto None)\<lparr>ac_tables := \<lparr>ut_users =
     [\<lparr>us_id = ''u1'', us_username = ''bob'', us_password_hash = Unreadable, us_role = AdminRole, us_status = DisabledUser,
       us_created_at = 0\<rparr>],
     ut_sessions = [\<lparr>ss_token_hash = ''tok'', ss_user_id = ''u1'', ss_expires_at = 10, ss_created_at = 0\<rparr>],
     ut_keys = [\<lparr>uk_id = ''k'', uk_user_id = ''u1'', uk_label = ''l'', uk_key_hash = ''key'', uk_prefix = ''key'', uk_created_at = 0,
       uk_revoked_at = None\<rparr>]\<rparr>\<rparr>"

theorem disabled_user_keeps_credentials_witness:
  "\<exists>u. fst (validate_session 5 ''tok'' disabled_accounts) = Some u \<and> us_status u = DisabledUser \<and> us_role u = AdminRole"
  using disabled_user_keeps_credentials [of "''u1''" disabled_accounts _ "''tok''" _ 5 "''key''"]
  by (auto simp: disabled_accounts_def new_accounts_def plain_crypto_def get_user_def get_user_session_def get_api_key_def
      get_user_by_username_def)

end
