(* ===== verification/Journal.thy ===== *)
theory Journal
  imports Ports
begin

text \<open>
  \<open>infrastructure/journal.py\<close>: the durable order-event journal, one SQL table.

  The table is the list of its rows in \<open>rowid\<close> order; a key is a text, kept as an
  f-string when the code builds it from numbers.  Three writers share the table: the
  broker wrapper's intents and outcomes and the event engine's envelopes, so the
  payload is a sum of the three dictionaries.  What the clients rely on is the locale
  \<open>durable_journal\<close>, interpreted on the table.
\<close>

record fill_result =
  fr_filled :: bool
  fr_fill_quantity :: float64
  fr_fill_price :: float64
  fr_remaining :: float64
  fr_status :: string
  fr_order_id :: fstring

record order_status_payload =
  os_trade_id :: uuid
  os_external_order_id :: "string option"
  os_from :: string
  os_to :: string
  os_filled_quantity :: float64
  os_filled_price :: float64
  os_event_id :: fstring

record event =
  ev_event_type :: string
  ev_payload :: order_status_payload
  ev_event_id :: uuid
  ev_timestamp :: datetime
  ev_correlation_id :: string
  ev_trace_id :: string
  ev_market :: string
  ev_strategy :: string
  ev_execution_context :: "(string \<times> datetime) list"

text \<open>The envelope of an event: its fields without the event's own id.\<close>

record envelope =
  en_event_type :: string
  en_payload :: order_status_payload
  en_correlation_id :: string
  en_trace_id :: string
  en_market :: string
  en_strategy :: string
  en_execution_context :: "(string \<times> datetime) list"
  en_timestamp :: datetime

record intent =
  in_method :: string
  in_market_id :: uuid
  in_side :: string
  in_quantity :: float64
  in_client_order_id :: string

datatype payload = Intent intent | Outcome fill_result | Envelope envelope

record journal_row =
  jr_trade_id :: fstring
  jr_status :: string
  jr_payload :: payload
  jr_published :: bool
  jr_applied_at :: datetime

type_synonym journal = "(fstring \<times> journal_row) list"

subsection \<open>Operations\<close>

definition journal_contains :: "fstring \<Rightarrow> journal \<Rightarrow> bool" where
  "journal_contains k j = (map_of j k \<noteq> None)"

definition load_event_ids :: "journal \<Rightarrow> fstring list" where
  "load_event_ids j = map fst j"

definition journal_get :: "fstring \<Rightarrow> journal \<Rightarrow> (string \<times> payload) option" where
  "journal_get k j = map_option (\<lambda>r. (jr_status r, jr_payload r)) (map_of j k)"

definition journal_update :: "fstring \<Rightarrow> string \<Rightarrow> payload \<Rightarrow> journal \<Rightarrow> journal" where
  "journal_update k status p j =
     map (\<lambda>(k', r). (k', if k' = k then r\<lparr>jr_status := status, jr_payload := p\<rparr> else r)) j"

definition journal_record ::
  "datetime \<Rightarrow> fstring \<Rightarrow> fstring \<Rightarrow> string \<Rightarrow> payload \<Rightarrow> journal \<Rightarrow> journal res" where
  "journal_record now k trade_id status p j =
     (if map_of j k \<noteq> None then Inl IntegrityError
      else Inr (j @ [(k, \<lparr>jr_trade_id = trade_id, jr_status = status, jr_payload = p,
                          jr_published = False, jr_applied_at = now\<rparr>)]))"

definition journal_mark_published :: "fstring \<Rightarrow> journal \<Rightarrow> journal" where
  "journal_mark_published k j = map (\<lambda>(k', r). (k', if k' = k then r\<lparr>jr_published := True\<rparr> else r)) j"

definition pending_events :: "journal \<Rightarrow> (fstring \<times> string \<times> payload) list" where
  "pending_events j =
     map (\<lambda>(k, r). (k, jr_status r, jr_payload r)) (filter (\<lambda>(k, r). \<not> jr_published r) j)"

definition journal_count :: "journal \<Rightarrow> int" where
  "journal_count j = int (length j)"

definition pending_count :: "journal \<Rightarrow> int" where
  "pending_count j = int (length (filter (\<lambda>(k, r). \<not> jr_published r) j))"

definition encode :: "event \<Rightarrow> payload" where
  "encode e = Envelope
     \<lparr>en_event_type = ev_event_type e, en_payload = ev_payload e,
      en_correlation_id = ev_correlation_id e, en_trace_id = ev_trace_id e, en_market = ev_market e,
      en_strategy = ev_strategy e, en_execution_context = ev_execution_context e,
      en_timestamp = ev_timestamp e\<rparr>"

text \<open>Neither an intent nor an outcome has an \<open>event_type\<close>; the decoded event gets a new id.\<close>

definition decode :: "uuid \<Rightarrow> payload \<Rightarrow> event res" where
  "decode fresh p =
     (case p of
        Envelope n \<Rightarrow> Inr \<lparr>ev_event_type = en_event_type n, ev_payload = en_payload n,
          ev_event_id = fresh, ev_timestamp = en_timestamp n,
          ev_correlation_id = en_correlation_id n, ev_trace_id = en_trace_id n,
          ev_market = en_market n, ev_strategy = en_strategy n,
          ev_execution_context = en_execution_context n\<rparr>
      | _ \<Rightarrow> Inl KeyError)"

lemma decode_encode [simp]: "decode fresh (encode e) = Inr (e\<lparr>ev_event_id := fresh\<rparr>)"
  by (simp add: decode_def encode_def)

subsection \<open>The contract of a durable journal\<close>

text \<open>
  \<open>lookup\<close> is what a client reads under a key, \<open>add\<close> inserts and refuses a known key,
  \<open>change\<close> overwrites, \<open>publish\<close> takes a key off the \<open>pending\<close> outbox.
\<close>

locale durable_journal =
  fixes lookup :: "'k \<Rightarrow> 'j \<Rightarrow> 'v option"
    and add :: "'k \<Rightarrow> 'v \<Rightarrow> 'j \<Rightarrow> exc + 'j"
    and change :: "'k \<Rightarrow> 'v \<Rightarrow> 'j \<Rightarrow> 'j"
    and publish :: "'k \<Rightarrow> 'j \<Rightarrow> 'j"
    and pending :: "'j \<Rightarrow> 'k list"
    and inv :: "'j \<Rightarrow> bool"
  assumes add_known: "lookup k j \<noteq> None \<Longrightarrow> add k v j = Inl IntegrityError"
    and add_new: "lookup k j = None \<Longrightarrow> \<exists>j'. add k v j = Inr j'"
    and add_inv: "inv j \<Longrightarrow> add k v j = Inr j' \<Longrightarrow> inv j'"
    and add_lookup: "add k v j = Inr j' \<Longrightarrow> lookup k' j' = (if k' = k then Some v else lookup k' j)"
    and add_pending: "add k v j = Inr j' \<Longrightarrow> pending j' = pending j @ [k]"
    and change_inv: "inv j \<Longrightarrow> inv (change k v j)"
    and change_lookup: "lookup k' (change k v j) = (if k' = k \<and> lookup k j \<noteq> None then Some v else lookup k' j)"
    and change_pending: "pending (change k v j) = pending j"
    and publish_inv: "inv j \<Longrightarrow> inv (publish k j)"
    and publish_lookup: "lookup k' (publish k j) = lookup k' j"
    and publish_pending: "inv j \<Longrightarrow> pending (publish k j) = filter (\<lambda>k'. k' \<noteq> k) (pending j)"
    and pending_known: "inv j \<Longrightarrow> k \<in> set (pending j) \<Longrightarrow> lookup k j \<noteq> None"
begin

lemma known_stays_known:
  assumes "lookup k j \<noteq> None"
  shows "lookup k (change k' v j) \<noteq> None" and "lookup k (publish k' j) \<noteq> None"
    and "add k' v j = Inr j' \<Longrightarrow> lookup k j' \<noteq> None"
  using assms by (simp_all add: change_lookup publish_lookup add_lookup)

lemma add_Inr_iff: "(\<exists>j'. add k v j = Inr j') \<longleftrightarrow> lookup k j = None"
  using add_new [of k j v] add_known [of k j v] by fastforce

text \<open>Write, change and publish one fresh key: the outbox is as before.\<close>

lemma write_ahead_then_publish:
  assumes "inv j" and "add k v j = Inr j'"
  shows "pending (publish k (change k w j')) = pending j \<and> lookup k (publish k (change k w j')) = Some w"
proof -
  have "lookup k j = None" using assms(2) add_known [of k j v] by (cases "lookup k j") auto
  then have "k \<notin> set (pending j)" using pending_known [OF assms(1)] by blast
  then have "filter (\<lambda>k'. k' \<noteq> k) (pending j) = pending j"
    by (induction "pending j") (auto simp: filter_id_conv)
  then show ?thesis
    using assms by (simp add: publish_pending change_inv add_inv change_pending add_pending
        publish_lookup change_lookup add_lookup)
qed

lemma publish_all_inv: "inv j \<Longrightarrow> inv (fold publish ks j)"
  by (induction ks arbitrary: j) (simp_all add: publish_inv)

lemma publish_all: "inv j \<Longrightarrow> pending (fold publish ks j) = filter (\<lambda>k. k \<notin> set ks) (pending j)"
proof (induction ks arbitrary: j)
  case Nil
  then show ?case by simp
next
  case (Cons k ks)
  then show ?case by (simp add: publish_inv publish_pending conj_commute)
qed

lemma publish_all_lookup: "lookup k (fold publish ks j) = lookup k j"
  by (induction ks arbitrary: j) (simp_all add: publish_lookup)

lemma outbox_drains: "inv j \<Longrightarrow> pending (fold publish (pending j) j) = []"
  by (simp add: publish_all)

end

subsection \<open>The SQL table is such a journal\<close>

definition journal_inv :: "journal \<Rightarrow> bool" where
  "journal_inv j = distinct (dict_keys j)"

definition journal_pending :: "journal \<Rightarrow> fstring list" where
  "journal_pending j = map fst (pending_events j)"

lemma map_of_map_row:
  "map_of (map (\<lambda>(k', r). (k', if k' = k then f r else r)) j) k'' =
     (if k'' = k then map_option f (map_of j k) else map_of j k'')"
  by (induction j) auto

lemma keys_map_row: "map fst (map (\<lambda>(k', r). (k', if k' = k then f r else r)) j) = map fst j"
  by (induction j) auto

lemma filter_pending_update:
  "journal_pending (journal_update k st p j) = journal_pending j"
  unfolding journal_pending_def pending_events_def journal_update_def
  by (induction j) (auto split: if_splits)

lemma filter_pending_publish:
  "journal_pending (journal_mark_published k j) = filter (\<lambda>k'. k' \<noteq> k) (journal_pending j)"
  unfolding journal_pending_def pending_events_def journal_mark_published_def
  by (induction j) (auto split: if_splits)

lemma pending_in_table: "k \<in> set (journal_pending j) \<Longrightarrow> map_of j k \<noteq> None"
  unfolding journal_pending_def pending_events_def
  by (auto simp: map_of_eq_None_iff image_iff) force

interpretation sql: durable_journal journal_get
  "\<lambda>k (st, p). journal_record now k tid st p" "\<lambda>k (st, p). journal_update k st p"
  journal_mark_published journal_pending journal_inv for now tid
proof unfold_locales
  fix k k' :: fstring and v :: "string \<times> payload" and j j' :: journal
  let ?rec = "\<lambda>k (st, p). journal_record now k tid st p"
  let ?upd = "\<lambda>k (st, p). journal_update k st p"
  show "journal_get k j \<noteq> None \<Longrightarrow> ?rec k v j = Inl IntegrityError"
    and "journal_get k j = None \<Longrightarrow> \<exists>j'. ?rec k v j = Inr j'"
    by (auto simp: journal_get_def journal_record_def split: prod.splits)
  show "?rec k v j = Inr j' \<Longrightarrow> journal_get k' j' = (if k' = k then Some v else journal_get k' j)"
    by (auto simp: journal_get_def journal_record_def map_add_def split: prod.splits if_splits option.splits)
  show "journal_inv j \<Longrightarrow> ?rec k v j = Inr j' \<Longrightarrow> journal_inv j'"
    by (auto simp: journal_inv_def journal_record_def map_of_eq_None_iff split: prod.splits if_splits)
  show "?rec k v j = Inr j' \<Longrightarrow> journal_pending j' = journal_pending j @ [k]"
    by (auto simp: journal_pending_def pending_events_def journal_record_def split: prod.splits if_splits)
  show "journal_inv j \<Longrightarrow> journal_inv (?upd k v j)"
    by (cases v) (simp add: journal_inv_def journal_update_def keys_map_row del: map_map)
  show "journal_get k' (?upd k v j) = (if k' = k \<and> journal_get k j \<noteq> None then Some v else journal_get k' j)"
    by (auto simp: journal_get_def journal_update_def map_of_map_row split: prod.splits option.splits)
  show "journal_pending (?upd k v j) = journal_pending j"
    by (simp add: filter_pending_update split: prod.splits)
  show "journal_inv j \<Longrightarrow> journal_inv (journal_mark_published k j)"
    by (simp add: journal_inv_def journal_mark_published_def keys_map_row del: map_map)
  show "journal_get k' (journal_mark_published k j) = journal_get k' j"
    by (auto simp: journal_get_def journal_mark_published_def map_of_map_row option.map_comp o_def)
  show "journal_pending (journal_mark_published k j) = filter (\<lambda>k'. k' \<noteq> k) (journal_pending j)"
    by (rule filter_pending_publish)
  show "k \<in> set (journal_pending j) \<Longrightarrow> journal_get k j \<noteq> None"
    using pending_in_table by (auto simp: journal_get_def)
qed

end
