(* ===== verification/BrokerPort.thy ===== *)
theory BrokerPort
  imports Journal PyText
begin

text \<open>
  \<open>domain/adapters/broker_adapter.py\<close>, \<open>infrastructure/rate_limiter.py\<close>,
  \<open>infrastructure/broker_rate_limiter.py\<close> and \<open>infrastructure/order_guardrail.py\<close>.

  A broker adapter is a record of operations on a state of any type: each takes what the
  call reads from outside (\<open>env\<close>: clocks, random
  numbers, a nonce, whether the call hangs) and returns a
  result or an exception with the new state.  A wrapper maps a record of operations to
  another one whose state adds the wrapper's own.  The exchange behind the wrappers is a
  parameter, as in the code.
\<close>

record env =
  env_monotonic :: float64
  env_time :: float64
  env_time_end :: float64
  env_hung :: bool
  env_nonce :: string
  env_now :: datetime
  env_random :: "nat \<Rightarrow> float64"

type_synonym ('s, 'a) io = "env \<Rightarrow> 's \<Rightarrow> 'a res \<times> 's"

record order_args =
  oa_market_id :: uuid
  oa_side :: string
  oa_quantity :: float64
  oa_close_price :: "float64 option"
  oa_client_order_id :: "string option"

record broker_position =
  bp_symbol :: string
  bp_qty :: float64
  bp_entry_price :: "float64 option"
  bp_current_price :: "float64 option"
  bp_market_value :: float64

record broker_order =
  bo_id :: fstring
  bo_symbol :: string
  bo_qty :: float64
  bo_side :: string
  bo_type :: string

record modify_args =
  ma_qty :: "float64 option"
  ma_limit_price :: "float64 option"
  ma_stop_price :: "float64 option"
  ma_trail_percent :: "float64 option"

record 's broker =
  b_market :: "order_args \<Rightarrow> ('s, fill_result) io"
  b_flatten :: "order_args \<Rightarrow> ('s, fill_result) io"
  b_limit :: "uuid \<Rightarrow> string \<Rightarrow> float64 \<Rightarrow> float64 \<Rightarrow> float64 option \<Rightarrow> ('s, fill_result) io"
  b_stop :: "uuid \<Rightarrow> string \<Rightarrow> float64 \<Rightarrow> float64 \<Rightarrow> float64 option \<Rightarrow> ('s, fill_result) io"
  b_trailing :: "uuid \<Rightarrow> string \<Rightarrow> float64 \<Rightarrow> float64 \<Rightarrow> float64 option \<Rightarrow> ('s, fill_result) io"
  b_modify :: "fstring \<Rightarrow> modify_args \<Rightarrow> ('s, fill_result) io"
  b_cancel :: "fstring \<Rightarrow> ('s, fill_result) io"
  b_balance :: "('s, float64) io"
  b_positions :: "('s, broker_position list) io"
  b_open_orders :: "('s, broker_order list) io"

text \<open>The default \<open>place_flatten_order\<close> of the abstract adapter: a market order without the
  client's order id.\<close>

definition default_flatten :: "(order_args \<Rightarrow> ('s, fill_result) io) \<Rightarrow> order_args \<Rightarrow> ('s, fill_result) io" where
  "default_flatten market a = market (a\<lparr>oa_client_order_id := None\<rparr>)"

text \<open>A wrapper that keeps state of its own passes the inner state through.\<close>

definition through :: "('s, 'a) io \<Rightarrow> ('w \<times> 's, 'a) io" where
  "through call env st = (let (r, s') = call env (snd st) in (r, (fst st, s')))"

text \<open>A venue with the list of the market and flatten orders it has seen.\<close>

definition logged :: "'s broker \<Rightarrow> ('s \<times> order_args list) broker" where
  "logged v =
     (let plain = (\<lambda>call env st. (let (r, s) = call env (fst st) in (r, (s, snd st))));
          seen = (\<lambda>a call env st. (let (r, s) = call env (fst st) in
                    (r, (s, snd st @ [a])))) in
      \<lparr>b_market = (\<lambda>a. seen a (b_market v a)), b_flatten = (\<lambda>a. seen a (b_flatten v a)),
       b_limit = (\<lambda>m sd q p c. plain (b_limit v m sd q p c)),
       b_stop = (\<lambda>m sd q p c. plain (b_stop v m sd q p c)),
       b_trailing = (\<lambda>m sd q p c. plain (b_trailing v m sd q p c)),
       b_modify = (\<lambda>i a. plain (b_modify v i a)), b_cancel = (\<lambda>i. plain (b_cancel v i)),
       b_balance = (\<lambda>env st. (let (r, s) = b_balance v env (fst st) in (r, (s, snd st)))),
       b_positions = (\<lambda>env st. (let (r, s) = b_positions v env (fst st) in (r, (s, snd st)))),
       b_open_orders = (\<lambda>env st. (let (r, s) = b_open_orders v env (fst st) in (r, (s, snd st))))\<rparr>)"

subsection \<open>Sliding-window rate limiter\<close>

record rate_limiter =
  rl_max_requests :: int
  rl_window_seconds :: float64
  rl_buckets :: "(string \<times> float64 list) list"

definition new_rate_limiter :: "int \<Rightarrow> float64 \<Rightarrow> rate_limiter" where
  "new_rate_limiter max_requests window =
     \<lparr>rl_max_requests = max_requests, rl_window_seconds = window, rl_buckets = []\<rparr>"

definition rl_recent :: "float64 \<Rightarrow> string \<Rightarrow> rate_limiter \<Rightarrow> float64 list" where
  "rl_recent now key l =
     filter (\<lambda>t. now - rl_window_seconds l < t) (dict_get (rl_buckets l) key [])"

definition rl_set :: "string \<Rightarrow> float64 list \<Rightarrow> rate_limiter \<Rightarrow> rate_limiter" where
  "rl_set key ts l = l\<lparr>rl_buckets := AList.update key ts (rl_buckets l)\<rparr>"

definition rl_check :: "float64 \<Rightarrow> string \<Rightarrow> rate_limiter \<Rightarrow> bool \<times> rate_limiter" where
  "rl_check now key l =
     (let timestamps = rl_recent now key l in
      if rl_max_requests l \<le> int (length timestamps) then (False, rl_set key timestamps l)
      else (True, rl_set key (timestamps @ [now]) l))"

definition rl_remaining :: "float64 \<Rightarrow> string \<Rightarrow> rate_limiter \<Rightarrow> int \<times> rate_limiter" where
  "rl_remaining now key l =
     (let timestamps = rl_recent now key l in
      (max 0 (rl_max_requests l - int (length timestamps)), rl_set key timestamps l))"

text \<open>\<open>RateLimitedBroker.__init__\<close>: the enabled flag and the limiter from the environment.\<close>

definition rate_limit_enabled :: "environ \<Rightarrow> bool" where
  "rate_limit_enabled e =
     (lower (getenv e ''BROKER_RATE_LIMIT_ENABLED'' ''true'') \<notin> set [''false'', ''0'', ''no''])"

definition rate_limit_init :: "environ \<Rightarrow> int option \<Rightarrow> float64 option \<Rightarrow> (bool \<times> rate_limiter) res" where
  "rate_limit_init e max_requests window_seconds =
     rbind (case max_requests of Some n \<Rightarrow> Inr n | None \<Rightarrow> getenv_int e ''BROKER_RATE_LIMIT_MAX'' 10) (\<lambda>n.
     rbind (case window_seconds of Some w \<Rightarrow> Inr w | None \<Rightarrow> getenv_float e ''BROKER_RATE_LIMIT_WINDOW'' 1) (\<lambda>w.
       Inr (rate_limit_enabled e, new_rate_limiter n w)))"

definition rl_guarded :: "bool \<Rightarrow> string \<Rightarrow> ('s, 'a) io \<Rightarrow> (rate_limiter \<times> 's, 'a) io" where
  "rl_guarded enabled method call env st =
     (if \<not> enabled then through call env st
      else let (ok, l) = rl_check (env_monotonic env) method (fst st) in
           if \<not> ok then (Inl RateLimitExceededError, (l, snd st))
           else through call env (l, snd st))"

definition rate_limited :: "bool \<Rightarrow> 's broker \<Rightarrow> (rate_limiter \<times> 's) broker" where
  "rate_limited enabled inner =
     \<lparr>b_market = (\<lambda>a. rl_guarded enabled ''place_market_order'' (b_market inner a)),
      b_flatten = (\<lambda>a. through (b_market inner a)),
      b_limit = (\<lambda>m sd q p c. rl_guarded enabled ''place_limit_order'' (b_limit inner m sd q p c)),
      b_stop = (\<lambda>m sd q p c. rl_guarded enabled ''place_stop_order'' (b_stop inner m sd q p c)),
      b_trailing = (\<lambda>m sd q p c. rl_guarded enabled ''place_trailing_stop_order''
                                  (b_trailing inner m sd q p c)),
      b_modify = (\<lambda>i a. rl_guarded enabled ''modify_order'' (b_modify inner i a)),
      b_cancel = (\<lambda>i. rl_guarded enabled ''cancel_order'' (b_cancel inner i)),
      b_balance = rl_guarded enabled ''get_account_balance'' (b_balance inner),
      b_positions = rl_guarded enabled ''get_positions'' (b_positions inner),
      b_open_orders = rl_guarded enabled ''get_open_orders'' (b_open_orders inner)\<rparr>"

subsection \<open>Order-size guardrails\<close>

record guardrail =
  gr_enabled :: bool
  gr_min_qty :: float64
  gr_max_notional :: float64

definition env_bool :: "environ \<Rightarrow> string \<Rightarrow> bool \<Rightarrow> bool" where
  "env_bool e name dflt =
     (case map_of e name of
        None \<Rightarrow> dflt
      | Some value \<Rightarrow> lower value \<in> set [''true'', ''1'', ''yes'', ''on''])"

definition guardrail_init ::
  "environ \<Rightarrow> float64 option \<Rightarrow> float64 option \<Rightarrow> bool option \<Rightarrow> guardrail res" where
  "guardrail_init e min_order_qty max_order_notional enabled =
     rbind (case min_order_qty of Some q \<Rightarrow> Inr q | None \<Rightarrow> getenv_float e ''TRADEROS_MIN_ORDER_QTY'' 1) (\<lambda>q.
     rbind (case max_order_notional of Some n \<Rightarrow> Inr n
              | None \<Rightarrow> getenv_float e ''TRADEROS_MAX_ORDER_NOTIONAL'' (Fin 500)) (\<lambda>n.
       Inr \<lparr>gr_enabled = (case enabled of Some b \<Rightarrow> b
              | None \<Rightarrow> env_bool e ''TRADEROS_ORDER_GUARDRAIL_ENABLED'' True),
            gr_min_qty = q, gr_max_notional = n\<rparr>))"

definition gr_reject :: "float64 \<Rightarrow> fstring \<Rightarrow> fill_result" where
  "gr_reject quantity reason =
     \<lparr>fr_filled = False, fr_fill_quantity = 0, fr_fill_price = 0, fr_remaining = quantity,
      fr_status = ''rejected'', fr_order_id = reason\<rparr>"

definition gr_guard :: "guardrail \<Rightarrow> float64 \<Rightarrow> float64 option \<Rightarrow> fill_result option" where
  "gr_guard g quantity price =
     (if \<not> gr_enabled g then None
      else if quantity \<le> 0 \<or> quantity < gr_min_qty g
      then Some (gr_reject quantity [L ''Order quantity '', F quantity, L '' below minimum '', F (gr_min_qty g)])
      else case price of
             None \<Rightarrow> None
           | Some p \<Rightarrow>
               if 0 < gr_max_notional g \<and> gr_max_notional g < quantity * p
               then Some (gr_reject quantity [L ''Order notional '', FX 2 (quantity * p),
                      L '' exceeds maximum '', F (gr_max_notional g)])
               else None)"

text \<open>\<open>limit_price or stop_price\<close>\<close>

definition float_or :: "float64 option \<Rightarrow> float64 option \<Rightarrow> float64 option" where
  "float_or a b = (case a of None \<Rightarrow> b | Some x \<Rightarrow> if truthy x then a else b)"

definition gr_guarded ::
  "guardrail \<Rightarrow> float64 \<Rightarrow> float64 option \<Rightarrow> ('s, fill_result) io \<Rightarrow> ('s, fill_result) io" where
  "gr_guarded g quantity price call env s =
     (case gr_guard g quantity price of
        Some rejected \<Rightarrow> (Inr rejected, s)
      | None \<Rightarrow> call env s)"

definition guardrailed :: "guardrail \<Rightarrow> 's broker \<Rightarrow> 's broker" where
  "guardrailed g inner =
     \<lparr>b_market = (\<lambda>a. gr_guarded g (oa_quantity a) (oa_close_price a) (b_market inner a)),
      b_flatten = (\<lambda>a. b_flatten inner a),
      b_limit = (\<lambda>m sd q p c. gr_guarded g q (Some p) (b_limit inner m sd q p c)),
      b_stop = (\<lambda>m sd q p c. gr_guarded g q (Some p) (b_stop inner m sd q p c)),
      b_trailing = (\<lambda>m sd q p c. gr_guarded g q c (b_trailing inner m sd q p c)),
      b_modify = (\<lambda>i a. case ma_qty a of
                     None \<Rightarrow> b_modify inner i a
                   | Some q \<Rightarrow> gr_guarded g q (float_or (ma_limit_price a) (ma_stop_price a))
                                (b_modify inner i a)),
      b_cancel = b_cancel inner,
      b_balance = b_balance inner,
      b_positions = b_positions inner,
      b_open_orders = b_open_orders inner\<rparr>"

subsection \<open>The limiter against its history\<close>

definition rl_step ::
  "(float64 \<times> string) list \<times> rate_limiter \<Rightarrow> float64 \<times> string \<Rightarrow> (float64 \<times> string) list \<times> rate_limiter" where
  "rl_step st ev =
     (let (ok, l) = rl_check (fst ev) (snd ev) (snd st) in (if ok then fst st @ [ev] else fst st, l))"

text \<open>The accepted checks of a run of checks, and the limiter after it.\<close>

definition rl_run ::
  "(float64 \<times> string) list \<Rightarrow> rate_limiter \<Rightarrow> (float64 \<times> string) list \<times> rate_limiter" where
  "rl_run evs l = foldl rl_step ([], l) evs"

definition in_window :: "float64 \<Rightarrow> float64 \<Rightarrow> string \<Rightarrow> float64 \<times> string \<Rightarrow> bool" where
  "in_window now w key ev = (snd ev = key \<and> now - w < fst ev)"

lemma window_start_mono:
  assumes "isfinite w" and "isfinite a" and "isfinite b" and "a \<le> b"
  shows "a - w \<le> b - w"
  using assms rnd_mono by (auto simp: isfinite_iff)

lemma rl_frame [simp]:
  "rl_max_requests (rl_set k ts l) = rl_max_requests l"
  "rl_window_seconds (rl_set k ts l) = rl_window_seconds l"
  "rl_max_requests (snd (rl_check now k l)) = rl_max_requests l"
  "rl_window_seconds (snd (rl_check now k l)) = rl_window_seconds l"
  by (simp_all add: rl_set_def rl_check_def Let_def)

lemma dict_get_rl_set [simp]:
  "dict_get (rl_buckets (rl_set k ts l)) k' [] = (if k' = k then ts else dict_get (rl_buckets l) k' [])"
  by (simp add: rl_set_def dict_get_def)

lemma rl_step_frame [simp]:
  "rl_max_requests (snd (rl_step st e)) = rl_max_requests (snd st)"
  "rl_window_seconds (snd (rl_step st e)) = rl_window_seconds (snd st)"
  by (simp_all add: rl_step_def split_def Let_def)

text \<open>The bucket of a key is a window of the accepted checks, for every later window.\<close>

definition rl_tracks :: "float64 \<Rightarrow> (float64 \<times> string) list \<Rightarrow> rate_limiter \<Rightarrow> bool" where
  "rl_tracks now acc l \<longleftrightarrow>
     (\<forall>key later. isfinite later \<longrightarrow> now \<le> later \<longrightarrow>
        map fst (filter (in_window later (rl_window_seconds l) key) acc) = rl_recent later key l)"

lemma rl_tracks_mono: "rl_tracks now acc l \<Longrightarrow> now \<le> now' \<Longrightarrow> rl_tracks now' acc l"
  unfolding rl_tracks_def by (blast intro: float_le_trans)

lemma filter_later:
  assumes "isfinite w" "isfinite a" "isfinite b" "a \<le> b"
  shows "filter (\<lambda>t. b - w < t) (filter (\<lambda>t. a - w < t) ts) = filter (\<lambda>t. b - w < t) ts"
  using window_start_mono [OF assms]
  by (induction ts) (auto dest: float_le_less_trans)

lemma rl_check_tracks:
  assumes tracks: "rl_tracks now acc l" and fin: "isfinite now" "isfinite (rl_window_seconds l)"
  shows "rl_tracks now (fst (rl_step (acc, l) (now, key))) (snd (rl_step (acc, l) (now, key)))"
proof -
  have recent: "rl_recent later k (snd (rl_check now key l)) =
      rl_recent later k l @ (if fst (rl_check now key l) \<and> k = key then filter (\<lambda>t. later - rl_window_seconds l < t) [now] else [])"
    if "isfinite later" "now \<le> later" for later k
    using filter_later [OF fin(2,1) that] by (simp add: rl_check_def rl_recent_def Let_def)
  show ?thesis
    using tracks recent
    by (auto simp: rl_tracks_def rl_step_def split_def Let_def in_window_def)
qed

definition ascending :: "(float64 \<times> string) list \<Rightarrow> float64 \<Rightarrow> bool" where
  "ascending evs now =
     (sorted_wrt (\<lambda>a b. fst a \<le> fst b) evs \<and> list_all (\<lambda>e. isfinite (fst e) \<and> fst e \<le> now) evs)"

lemma ascending_snoc: "ascending (evs @ [e]) now \<Longrightarrow> ascending evs (fst e) \<and> isfinite (fst e) \<and> fst e \<le> now"
  by (auto simp: ascending_def sorted_wrt_append list_all_iff)

lemma rl_run_snoc: "rl_run (evs @ [e]) l = rl_step (rl_run evs l) e"
  by (simp add: rl_run_def)

lemma rl_run_invariant:
  assumes "isfinite w"
  shows "ascending evs now \<Longrightarrow> isfinite now \<Longrightarrow>
    rl_tracks now (fst (rl_run evs (new_rate_limiter n w))) (snd (rl_run evs (new_rate_limiter n w))) \<and>
    rl_window_seconds (snd (rl_run evs (new_rate_limiter n w))) = w \<and>
    rl_max_requests (snd (rl_run evs (new_rate_limiter n w))) = n"
proof (induction evs arbitrary: now rule: rev_induct)
  case Nil
  then show ?case by (simp add: rl_run_def new_rate_limiter_def rl_tracks_def rl_recent_def dict_get_def)
next
  case (snoc e evs)
  then have asc: "ascending evs (fst e)" "isfinite (fst e)" "fst e \<le> now"
    using ascending_snoc by blast+
  show ?case
    using snoc.IH [OF asc(1,2)] rl_check_tracks [of "fst e" "fst (rl_run evs (new_rate_limiter n w))"
        "snd (rl_run evs (new_rate_limiter n w))" "snd e"] asc assms
    by (auto simp: rl_run_snoc intro: rl_tracks_mono)
qed

text \<open>
  The sliding-window limiter, over any run of checks at non-decreasing finite
  instants: a check is accepted exactly when fewer than the maximum of the accepted
  checks on its key lie in the window that ends now, so that after it no window holds
  more than the maximum.
\<close>

theorem rate_limit_window:
  assumes "ascending evs now" and "isfinite now" and "isfinite w"
    and run: "rl_run evs (new_rate_limiter n w) = (acc, l)"
  shows "(fst (rl_check now key l) \<longleftrightarrow> int (length (filter (in_window now w key) acc)) < n) \<and>
    (fst (rl_check now key l) \<longrightarrow>
       int (length (filter (in_window now w key) (acc @ [(now, key)]))) \<le> n)"
proof -
  have inv: "rl_tracks now acc l" "rl_window_seconds l = w" "rl_max_requests l = n"
    using rl_run_invariant [OF assms(3,1,2), of n] run by simp_all
  have "map fst (filter (in_window now w key) acc) = rl_recent now key l"
    using inv(1,2) assms(2) unfolding rl_tracks_def
    by (metis float_le_refl isfinite.simps(4))
  then have len: "length (rl_recent now key l) = length (filter (in_window now w key) acc)"
    by (metis length_map)
  have eq: "fst (rl_check now key l) \<longleftrightarrow> int (length (filter (in_window now w key) acc)) < n"
    by (simp add: rl_check_def Let_def inv len not_le)
  then show ?thesis by auto
qed

theorem rate_limit_window_witness:
  "fst (rl_check (Fin 3) ''k'' (snd (rl_run [(Fin 0, ''k''), (Fin 2, ''k'')] (new_rate_limiter 2 (Fin 2)))))"
proof -
  have doubles: "rnd 3 = Fin 3" "rnd 2 = Fin 2" "rnd 1 = Fin 1" "rnd (- 2) = Fin (- 2)"
    by (simp_all add: float_eval)
  have run: "rl_run [(Fin 0, ''k''), (Fin 2, ''k'')] (new_rate_limiter 2 (Fin 2)) =
      ([(Fin 0, ''k''), (Fin 2, ''k'')], \<lparr>rl_max_requests = 2, rl_window_seconds = Fin 2, rl_buckets = [(''k'', [Fin 2])]\<rparr>)"
    by (simp add: rl_run_def rl_step_def rl_check_def rl_recent_def rl_set_def new_rate_limiter_def
        dict_get_def Let_def doubles)
  show ?thesis
    using rate_limit_window [OF _ _ _ run, of "Fin 3" "''k''"] unfolding run
    by (simp add: ascending_def in_window_def doubles)
qed

subsection \<open>What the guardrail lets through\<close>

lemma gr_guard_None:
  assumes "gr_enabled g"
  shows "gr_guard g q price = None \<longleftrightarrow>
    \<not> q \<le> 0 \<and> \<not> q < gr_min_qty g \<and>
    (case price of None \<Rightarrow> True | Some p \<Rightarrow> \<not> (0 < gr_max_notional g \<and> gr_max_notional g < q * p))"
  using assms by (auto simp: gr_guard_def split: option.splits)

text \<open>
  An enabled guardrail hands a priced market order of a numeric size to the inner broker only if its
  quantity is positive and at least the minimum and its notional at most the maximum;
  otherwise the inner broker is not touched and the answer is a rejection.  A quantity that
  is \<open>NaN\<close> passes every one of these tests.
\<close>

theorem guardrail_blocks:
  assumes "gr_enabled g" and "oa_close_price a = Some p"
    and "gr_min_qty g \<noteq> NaN" and "0 < gr_max_notional g"
  shows "(oa_quantity a \<noteq> NaN \<longrightarrow> oa_quantity a * p \<noteq> NaN \<longrightarrow>
      (if 0 < oa_quantity a \<and> gr_min_qty g \<le> oa_quantity a \<and> oa_quantity a * p \<le> gr_max_notional g
       then b_market (guardrailed g inner) a env s = b_market inner a env s
       else \<exists>r. b_market (guardrailed g inner) a env s = (Inr r, s) \<and> \<not> fr_filled r \<and> fr_status r = ''rejected'')) \<and>
    (oa_quantity a = NaN \<longrightarrow> b_market (guardrailed g inner) a env s = b_market inner a env s)"
proof -
  have "gr_guard g (oa_quantity a) (Some p) = None \<longleftrightarrow>
      0 < oa_quantity a \<and> gr_min_qty g \<le> oa_quantity a \<and> oa_quantity a * p \<le> gr_max_notional g"
    if "oa_quantity a \<noteq> NaN" "oa_quantity a * p \<noteq> NaN"
    using that assms by (auto simp: gr_guard_None float_not_le float_not_less zero_eq_Fin
        dest: less_not_NaN float_le_less_trans)
  moreover have "\<not> fr_filled r \<and> fr_status r = ''rejected''" if "gr_guard g q x = Some r" for q x r
    using that by (auto simp: gr_guard_def gr_reject_def split: option.splits if_splits)
  moreover have "gr_guard g NaN (Some p) = None"
    using assms(1) by (simp add: gr_guard_None)
  ultimately show ?thesis
    using assms(2) by (auto simp: guardrailed_def gr_guarded_def split: option.splits)
qed

text \<open>A venue that fills everything at one, for the witnesses; its state counts the calls.\<close>

definition filled_at_one :: "float64 \<Rightarrow> fill_result" where
  "filled_at_one q = \<lparr>fr_filled = True, fr_fill_quantity = q, fr_fill_price = 1, fr_remaining = 0,
     fr_status = ''filled'', fr_order_id = [L ''venue'']\<rparr>"

definition counting_venue :: "int broker" where
  "counting_venue =
     \<lparr>b_market = (\<lambda>a env n. (Inr (filled_at_one (oa_quantity a)), n + 1)),
      b_flatten = default_flatten (\<lambda>a env n. (Inr (filled_at_one (oa_quantity a)), n + 1)),
      b_limit = (\<lambda>m sd q p c env n. (Inr (filled_at_one q), n + 1)),
      b_stop = (\<lambda>m sd q p c env n. (Inr (filled_at_one q), n + 1)),
      b_trailing = (\<lambda>m sd q p c env n. (Inr (filled_at_one q), n + 1)),
      b_modify = (\<lambda>i a env n. (Inr (filled_at_one 0), n)),
      b_cancel = (\<lambda>i env n. (Inr (filled_at_one 0), n)),
      b_balance = (\<lambda>env n. (Inr 0, n)),
      b_positions = (\<lambda>env n. (Inr [], n)),
      b_open_orders = (\<lambda>env n. (Inr [], n))\<rparr>"

definition sample_env :: env where
  "sample_env = \<lparr>env_monotonic = Fin 0, env_time = Fin 0, env_time_end = Fin 0, env_hung = False,
     env_nonce = ''n'', env_now = 0, env_random = (\<lambda>_. 0)\<rparr>"

definition sample_args :: order_args where
  "sample_args = \<lparr>oa_market_id = ''m'', oa_side = ''buy'', oa_quantity = Fin 2,
     oa_close_price = Some (Fin 300), oa_client_order_id = Some ''c1''\<rparr>"

definition sample_guardrail :: guardrail where
  "sample_guardrail = \<lparr>gr_enabled = True, gr_min_qty = Fin 1, gr_max_notional = Fin 500\<rparr>"

theorem guardrail_blocks_witness:
  "\<exists>r. b_market (guardrailed sample_guardrail counting_venue) sample_args sample_env 0 = (Inr r, 0) \<and>
     \<not> fr_filled r \<and> fr_status r = ''rejected''"
  using guardrail_blocks [of sample_guardrail sample_args "Fin 300" counting_venue sample_env 0]
  by (simp add: sample_guardrail_def sample_args_def zero_eq_Fin float_eval)

end
