(* ===== verification/Execution.thy ===== *)
theory Execution
  imports Ports
begin

text \<open>
  \<open>domain/services/execution_service.py\<close>: the cost model of simulated fills.

  An order carries its side as text, as the code does; every comparison with \<open>"buy"\<close>
  and \<open>"sell"\<close> is written out, because a side that is neither behaves differently in
  the three processors.
\<close>

datatype order_type = MARKET | LIMIT | STOP

datatype order_status =
    OrderPending | OrderFilled | OrderPartial | OrderCancelled | OrderRejected | OrderModified

record order =
  o_market_id :: uuid
  o_side :: string
  o_order_type :: order_type
  o_quantity :: float64
  o_price :: "float64 option"
  o_stop_price :: "float64 option"
  o_status :: order_status
  o_id :: uuid
  o_created_at :: datetime
  o_filled_quantity :: float64
  o_avg_fill_price :: "float64 option"

record exec_fill =
  xf_filled :: bool
  xf_fill_quantity :: float64
  xf_fill_price :: float64
  xf_remaining :: float64
  xf_status :: order_status
  xf_fee :: float64

record execution_service =
  ex_slippage_model :: string
  ex_slippage_bps :: float64
  ex_fee_bps :: float64
  ex_min_fee :: float64
  ex_latency_bps :: float64

definition default_execution_service :: execution_service where
  "default_execution_service =
     \<lparr>ex_slippage_model = ''fixed'', ex_slippage_bps = Fin 5, ex_fee_bps = 0, ex_min_fee = 0,
      ex_latency_bps = 0\<rparr>"

subsection \<open>Constructors\<close>

definition new_order ::
  "uuid \<Rightarrow> datetime \<Rightarrow> uuid \<Rightarrow> string \<Rightarrow> order_type \<Rightarrow> float64 \<Rightarrow> float64 option \<Rightarrow> float64 option \<Rightarrow> order" where
  "new_order fresh now market sd ty qty price stop =
     \<lparr>o_market_id = market, o_side = sd, o_order_type = ty, o_quantity = qty, o_price = price,
      o_stop_price = stop, o_status = OrderPending, o_id = fresh, o_created_at = now,
      o_filled_quantity = 0, o_avg_fill_price = None\<rparr>"

definition create_market_order :: "uuid \<Rightarrow> datetime \<Rightarrow> uuid \<Rightarrow> string \<Rightarrow> float64 \<Rightarrow> order" where
  "create_market_order fresh now market sd qty = new_order fresh now market sd MARKET qty None None"

definition create_limit_order :: "uuid \<Rightarrow> datetime \<Rightarrow> uuid \<Rightarrow> string \<Rightarrow> float64 \<Rightarrow> float64 \<Rightarrow> order" where
  "create_limit_order fresh now market sd qty price =
     new_order fresh now market sd LIMIT qty (Some price) None"

definition create_stop_order :: "uuid \<Rightarrow> datetime \<Rightarrow> uuid \<Rightarrow> string \<Rightarrow> float64 \<Rightarrow> float64 \<Rightarrow> order" where
  "create_stop_order fresh now market sd qty stop =
     new_order fresh now market sd STOP qty None (Some stop)"

subsection \<open>Costs\<close>

definition apply_slippage :: "execution_service \<Rightarrow> float64 \<Rightarrow> string \<Rightarrow> float64" where
  "apply_slippage ex price sd =
     (if feq (ex_slippage_bps ex) 0 \<and> feq (ex_latency_bps ex) 0 then price
      else let total_bps = ex_slippage_bps ex + ex_latency_bps ex;
               factor = 1 + fquot total_bps (Fin 10000) in
           if sd = ''buy'' then price * factor else price * (Fin 2 - factor))"

definition apply_fee :: "execution_service \<Rightarrow> float64 \<Rightarrow> float64" where
  "apply_fee ex notional =
     (if ex_fee_bps ex \<le> 0 \<and> ex_min_fee ex \<le> 0 then 0
      else if ex_fee_bps ex \<le> 0 then ex_min_fee ex
      else py_max (fquot (notional * ex_fee_bps ex) (Fin 10000)) (ex_min_fee ex))"

subsection \<open>Processing\<close>

abbreviation no_fill :: "float64 \<Rightarrow> order_status \<Rightarrow> exec_fill" where
  "no_fill qty st \<equiv>
     \<lparr>xf_filled = False, xf_fill_quantity = Fin 0, xf_fill_price = Fin 0, xf_remaining = qty,
      xf_status = st, xf_fee = 0\<rparr>"

abbreviation full_fill :: "float64 \<Rightarrow> float64 \<Rightarrow> float64 \<Rightarrow> exec_fill" where
  "full_fill qty price fee \<equiv>
     \<lparr>xf_filled = True, xf_fill_quantity = qty, xf_fill_price = price, xf_remaining = 0,
      xf_status = OrderFilled, xf_fee = fee\<rparr>"

definition process_market_order :: "execution_service \<Rightarrow> order \<Rightarrow> float64 \<Rightarrow> exec_fill" where
  "process_market_order ex ord market_price =
     (if o_order_type ord \<noteq> MARKET then no_fill (o_quantity ord) OrderRejected
      else let fill_price = apply_slippage ex market_price (o_side ord);
               fee = apply_fee ex (o_quantity ord * fill_price) in
           full_fill (o_quantity ord) fill_price fee)"

definition process_limit_order :: "execution_service \<Rightarrow> order \<Rightarrow> float64 \<Rightarrow> exec_fill" where
  "process_limit_order ex ord market_price =
     (case (o_order_type ord, o_price ord) of
        (LIMIT, Some price) \<Rightarrow>
          (let can_fill = (o_side ord = ''buy'' \<and> market_price \<le> price \<or>
                           o_side ord = ''sell'' \<and> price \<le> market_price) in
           if \<not> can_fill then no_fill (o_quantity ord) OrderPending
           else full_fill (o_quantity ord) price (apply_fee ex (o_quantity ord * price)))
      | _ \<Rightarrow> no_fill (o_quantity ord) OrderRejected)"

definition process_stop_order :: "execution_service \<Rightarrow> order \<Rightarrow> float64 \<Rightarrow> exec_fill" where
  "process_stop_order ex ord market_price =
     (case (o_order_type ord, o_stop_price ord) of
        (STOP, Some stop_price) \<Rightarrow>
          (let triggered = (o_side ord = ''buy'' \<and> stop_price \<le> market_price \<or>
                            o_side ord = ''sell'' \<and> market_price \<le> stop_price) in
           if \<not> triggered then no_fill (o_quantity ord) OrderPending
           else let fill_price = apply_slippage ex market_price (o_side ord);
                    fee = apply_fee ex (o_quantity ord * fill_price) in
                full_fill (o_quantity ord) fill_price fee)
      | _ \<Rightarrow> no_fill (o_quantity ord) OrderRejected)"

definition cancel_order :: "order \<Rightarrow> order" where
  "cancel_order ord =
     \<lparr>o_market_id = o_market_id ord, o_side = o_side ord, o_order_type = o_order_type ord,
      o_quantity = o_quantity ord, o_price = o_price ord, o_stop_price = o_stop_price ord,
      o_status = OrderCancelled, o_id = o_id ord, o_created_at = o_created_at ord,
      o_filled_quantity = o_filled_quantity ord, o_avg_fill_price = o_avg_fill_price ord\<rparr>"

subsection \<open>Costs only ever hurt\<close>

text \<open>A cost model with non-negative, moderate basis points.\<close>

definition sane_costs :: "execution_service \<Rightarrow> bool" where
  "sane_costs ex =
     (0 \<le> ex_slippage_bps ex \<and> ex_slippage_bps ex \<le> Fin 10000 \<and>
      0 \<le> ex_latency_bps ex \<and> ex_latency_bps ex \<le> Fin 10000 \<and>
      0 \<le> ex_fee_bps ex \<and> ex_fee_bps ex \<noteq> PosInf \<and> 0 \<le> ex_min_fee ex)"

lemma rnd_le_int: "\<bar>n\<bar> \<le> 2 ^ 53 \<Longrightarrow> x \<le> of_int n \<Longrightarrow> rnd x \<le> Fin (of_int n)"
  using rnd_mono [of x "of_int n"] rnd_of_int [of n] by simp

lemma rnd_ge_int: "\<bar>n\<bar> \<le> 2 ^ 53 \<Longrightarrow> of_int n \<le> x \<Longrightarrow> Fin (of_int n) \<le> rnd x"
  using rnd_mono [of "of_int n" x] rnd_of_int [of n] by simp

lemma rnd_between:
  assumes "\<bar>m\<bar> \<le> 2 ^ 53" "\<bar>n\<bar> \<le> 2 ^ 53" "of_int m \<le> x" "x \<le> of_int n"
  obtains y where "rnd x = Fin y" "of_int m \<le> y" "y \<le> of_int n"
  using rnd_le_int [OF assms(2,4)] rnd_ge_int [OF assms(1,3)] by (cases "rnd x") auto

lemma slippage_factor:
  assumes "sane_costs ex"
  obtains f where "1 + fquot (ex_slippage_bps ex + ex_latency_bps ex) (Fin 10000) = Fin f"
    and "1 \<le> f" and "f \<le> 3"
proof -
  obtain a where a: "ex_slippage_bps ex = Fin a" "0 \<le> a" "a \<le> 10000"
    using assms by (cases "ex_slippage_bps ex") (auto simp: sane_costs_def zero_eq_Fin)
  obtain b where b: "ex_latency_bps ex = Fin b" "0 \<le> b" "b \<le> 10000"
    using assms by (cases "ex_latency_bps ex") (auto simp: sane_costs_def zero_eq_Fin)
  obtain t where t: "rnd (a + b) = Fin t" "0 \<le> t" "t \<le> 20000"
    using rnd_between [of 0 20000 "a + b"] a b by auto
  obtain q where q: "rnd (t / 10000) = Fin q" "0 \<le> q" "q \<le> 2"
    using rnd_between [of 0 2 "t / 10000"] t by auto
  obtain f where "rnd (1 + q) = Fin f" "1 \<le> f" "f \<le> 3"
    using rnd_between [of 1 3 "1 + q"] q by auto
  then show ?thesis
    using that a b t q by (simp add: one_eq_Fin)
qed

lemma slippage_adverse:
  assumes "sane_costs ex" and p: "is_double (Fin p)" "0 \<le> p"
  shows "if sd = ''buy'' then Fin p \<le> apply_slippage ex (Fin p) sd
         else apply_slippage ex (Fin p) sd \<le> Fin p"
proof -
  obtain f where f: "1 + fquot (ex_slippage_bps ex + ex_latency_bps ex) (Fin 10000) = Fin f"
      "1 \<le> f" "f \<le> 3"
    using assms(1) by (rule slippage_factor)
  obtain g where g: "rnd (2 - f) = Fin g" "g \<le> 1"
    using rnd_between [of "- 1" 1 "2 - f"] f by auto
  show ?thesis
    using mult_ge_self [OF p f(2)] mult_le_self [OF p g(2)] f g
    by (simp add: apply_slippage_def Let_def del: Fin_ops(3))
qed

lemma fquot_pos_not_NaN: "x \<noteq> NaN \<Longrightarrow> c \<noteq> 0 \<Longrightarrow> fquot x (Fin c) \<noteq> NaN"
  by (cases x) auto

lemma mult_pos_not_NaN: "0 < b \<Longrightarrow> b \<noteq> PosInf \<Longrightarrow> x \<noteq> NaN \<Longrightarrow> x * b \<noteq> NaN"
  by (cases x; cases b) (auto simp: zero_eq_Fin times_float64_def)

lemma py_max_ge_right: "a \<noteq> NaN \<Longrightarrow> b \<noteq> NaN \<Longrightarrow> b \<le> py_max a b"
  by (auto simp: py_max_def float_le_refl float_not_less)

lemma fee_at_least_minimum:
  assumes "sane_costs ex" and "notional \<noteq> NaN"
  shows "ex_min_fee ex \<le> apply_fee ex notional \<and> 0 \<le> apply_fee ex notional"
proof -
  have costs: "0 \<le> ex_min_fee ex" "0 \<le> ex_fee_bps ex" "ex_fee_bps ex \<noteq> PosInf"
    using assms(1) by (auto simp: sane_costs_def)
  consider "ex_fee_bps ex \<le> 0" "ex_min_fee ex \<le> 0" | "ex_fee_bps ex \<le> 0" "\<not> ex_min_fee ex \<le> 0"
    | "0 < ex_fee_bps ex"
    using costs(2) float_not_le [of "ex_fee_bps ex" 0]
    by (cases "ex_fee_bps ex \<le> 0") (auto simp: zero_eq_Fin dest: le_not_NaN)
  then show ?thesis
  proof cases
    case 1
    then show ?thesis using costs by (simp add: apply_fee_def zero_eq_Fin)
  next
    case 2
    then show ?thesis using costs by (simp add: apply_fee_def float_le_refl le_not_NaN)
  next
    case 3
    then have "fquot (notional * ex_fee_bps ex) (Fin 10000) \<noteq> NaN"
      using assms(2) costs(3) by (intro fquot_pos_not_NaN mult_pos_not_NaN) auto
    moreover have "\<not> ex_fee_bps ex \<le> 0"
      using 3 by (auto simp: float_not_le less_not_NaN zero_eq_Fin)
    ultimately show ?thesis
      using costs py_max_ge_right [of _ "ex_min_fee ex"]
      by (auto simp: apply_fee_def le_not_NaN intro: float_le_trans)
  qed
qed

text \<open>The three processors behind one name, for statements about every filled order.\<close>

definition processed :: "execution_service \<Rightarrow> order \<Rightarrow> float64 \<Rightarrow> exec_fill" where
  "processed ex ord p =
     (case o_order_type ord of
        MARKET \<Rightarrow> process_market_order ex ord p
      | LIMIT \<Rightarrow> process_limit_order ex ord p
      | STOP \<Rightarrow> process_stop_order ex ord p)"

lemma filledE:
  assumes "xf_filled (processed ex ord p)"
  obtains price where "processed ex ord p = full_fill (o_quantity ord) price (apply_fee ex (o_quantity ord * price))"
    and "o_order_type ord \<noteq> LIMIT \<Longrightarrow> price = apply_slippage ex p (o_side ord)"
    and "o_order_type ord = LIMIT \<Longrightarrow> o_price ord = Some price \<and>
           (o_side ord = ''buy'' \<and> p \<le> price \<or> o_side ord = ''sell'' \<and> price \<le> p)"
  using assms
  by (cases "o_order_type ord")
    (auto simp: processed_def process_market_order_def process_limit_order_def
      process_stop_order_def Let_def split: option.splits if_splits)

text \<open>
  The simulated fills never flatter: whatever the order type, a filled order is
  filled in full, a buy pays at least and a sell receives at most the market price
  (a limit order exactly its limit, which is never better than the market), and the fee
  is at least the configured minimum.
\<close>

theorem fills_never_flatter:
  assumes costs: "sane_costs ex"
    and market: "is_double (Fin p)" "0 \<le> p"
    and qty: "o_quantity ord = Fin q" "0 < q"
    and filled: "xf_filled (processed ex ord (Fin p))"
  shows "xf_fill_quantity (processed ex ord (Fin p)) = Fin q \<and>
    xf_remaining (processed ex ord (Fin p)) = 0 \<and>
    (if o_side ord = ''buy'' then Fin p \<le> xf_fill_price (processed ex ord (Fin p))
     else xf_fill_price (processed ex ord (Fin p)) \<le> Fin p) \<and>
    (o_order_type ord = LIMIT \<longrightarrow> o_price ord = Some (xf_fill_price (processed ex ord (Fin p)))) \<and>
    ex_min_fee ex \<le> xf_fee (processed ex ord (Fin p)) \<and> 0 \<le> xf_fee (processed ex ord (Fin p))"
  using filled
proof (rule filledE)
  fix price
  assume eq: "processed ex ord (Fin p) = full_fill (o_quantity ord) price (apply_fee ex (o_quantity ord * price))"
    and impact: "o_order_type ord \<noteq> LIMIT \<Longrightarrow> price = apply_slippage ex (Fin p) (o_side ord)"
    and limit: "o_order_type ord = LIMIT \<Longrightarrow> o_price ord = Some price \<and>
           (o_side ord = ''buy'' \<and> Fin p \<le> price \<or> o_side ord = ''sell'' \<and> price \<le> Fin p)"
  have adverse: "if o_side ord = ''buy'' then Fin p \<le> price else price \<le> Fin p"
    using slippage_adverse [OF costs market] impact limit by (cases "o_order_type ord = LIMIT") auto
  then have "price \<noteq> NaN"
    by (auto split: if_splits)
  then have "Fin q * price \<noteq> NaN"
    using qty(2) by (cases price) (auto simp: times_float64_def)
  then show ?thesis
    using fee_at_least_minimum [OF costs] adverse limit by (auto simp: eq qty)
qed

definition sample_sell :: order where
  "sample_sell = create_stop_order ''o'' 0 ''m'' ''sell'' (Fin 2) (Fin 110)"

theorem fills_never_flatter_witness:
  "xf_fill_price (processed default_execution_service sample_sell (Fin 100)) \<le> Fin 100"
proof -
  have "xf_filled (processed default_execution_service sample_sell (Fin 100))"
    by (simp add: processed_def process_stop_order_def sample_sell_def create_stop_order_def
        new_order_def Let_def)
  then show ?thesis
    using fills_never_flatter [of default_execution_service 100 sample_sell 2]
    by (simp add: sane_costs_def default_execution_service_def zero_eq_Fin float_eval
        sample_sell_def create_stop_order_def new_order_def)
qed

end
