(* ===== verification/PaperBroker.thy ===== *)
theory PaperBroker
  imports BrokerPort Execution
begin

text \<open>
  \<open>PaperBrokerAdapter\<close> of \<open>domain/services/paper_trading_service.py\<close>: the simulated venue.

  \<open>random.random()\<close> is the stream \<open>env_random\<close> of the call; \<open>random.uniform(a, b)\<close> is
  \<open>a + (b - a) * random()\<close>, as in the standard library.  Positions and open orders are
  dictionaries.
\<close>

record paper_broker =
  pb_slippage_bps :: float64
  pb_fill_probability :: float64
  pb_partial_fill_probability :: float64
  pb_account_balance :: float64
  pb_positions :: "(string \<times> broker_position) list"
  pb_open_orders :: "(fstring \<times> broker_order) list"
  pb_order_seq :: int

definition new_paper_broker :: "float64 \<Rightarrow> paper_broker" where
  "new_paper_broker cash =
     \<lparr>pb_slippage_bps = Fin 5, pb_fill_probability = 1, pb_partial_fill_probability = 0,
      pb_account_balance = cash, pb_positions = [], pb_open_orders = [], pb_order_seq = 0\<rparr>"

fun order_status_value :: "order_status \<Rightarrow> string" where
  "order_status_value OrderPending = ''pending''"
| "order_status_value OrderFilled = ''filled''"
| "order_status_value OrderPartial = ''partial''"
| "order_status_value OrderCancelled = ''cancelled''"
| "order_status_value OrderRejected = ''rejected''"
| "order_status_value OrderModified = ''modified''"

definition paper_result :: "bool \<Rightarrow> float64 \<Rightarrow> float64 \<Rightarrow> float64 \<Rightarrow> order_status \<Rightarrow> fstring \<Rightarrow> fill_result" where
  "paper_result filled qty price remaining st oid =
     \<lparr>fr_filled = filled, fr_fill_quantity = qty, fr_fill_price = price, fr_remaining = remaining,
      fr_status = order_status_value st, fr_order_id = oid\<rparr>"

definition paper_order_id :: "int \<Rightarrow> fstring" where
  "paper_order_id n = [L ''paper-'', Z n]"

definition next_order_id :: "paper_broker \<Rightarrow> fstring \<times> paper_broker" where
  "next_order_id pb =
     (let n = pb_order_seq pb + 1 in (paper_order_id n, pb\<lparr>pb_order_seq := n\<rparr>))"

text \<open>Every position the paper broker stores has an entry price.\<close>

definition entry_of :: "broker_position \<Rightarrow> float64" where
  "entry_of p = (case bp_entry_price p of Some x \<Rightarrow> x | None \<Rightarrow> 0)"

definition apply_fill :: "string \<Rightarrow> string \<Rightarrow> float64 \<Rightarrow> float64 \<Rightarrow> paper_broker \<Rightarrow> paper_broker" where
  "apply_fill symbol sd qty price pb0 =
     (let signed = (if sd = ''buy'' then qty else - qty);
          pb = (if sd = ''buy''
                then pb0\<lparr>pb_account_balance := pb_account_balance pb0 - qty * price\<rparr>
                else pb0\<lparr>pb_account_balance := pb_account_balance pb0 + qty * price\<rparr>) in
      case map_of (pb_positions pb) symbol of
        None \<Rightarrow>
          (if 0 < signed
           then pb\<lparr>pb_positions := AList.update symbol
                  \<lparr>bp_symbol = symbol, bp_qty = qty, bp_entry_price = Some price, bp_current_price = Some price,
                   bp_market_value = qty * price\<rparr> (pb_positions pb)\<rparr>
           else pb)
      | Some current \<Rightarrow>
          (let new_qty = bp_qty current + signed in
           if new_qty \<le> 0 then pb\<lparr>pb_positions := AList.delete symbol (pb_positions pb)\<rparr>
           else let moved = current\<lparr>bp_qty := new_qty, bp_market_value := \<bar>new_qty\<bar> * price,
                              bp_current_price := Some price\<rparr>;
                    old_qty = bp_qty moved - qty;
                    entered = (if 0 < signed
                               then moved\<lparr>bp_entry_price :=
                                      Some (fquot (old_qty * entry_of current + qty * price) new_qty)\<rparr>
                               else moved) in
                pb\<lparr>pb_positions := AList.update symbol entered (pb_positions pb)\<rparr>))"

definition record_order :: "fstring \<Rightarrow> string \<Rightarrow> string \<Rightarrow> float64 \<Rightarrow> string \<Rightarrow> paper_broker \<Rightarrow> paper_broker" where
  "record_order oid symbol sd quantity ty pb =
     pb\<lparr>pb_open_orders := AList.update oid
          \<lparr>bo_id = oid, bo_symbol = symbol, bo_qty = quantity, bo_side = sd, bo_type = ty\<rparr>
          (pb_open_orders pb)\<rparr>"

definition slip_multiplier :: "string \<Rightarrow> paper_broker \<Rightarrow> float64" where
  "slip_multiplier sd pb =
     (if sd = ''buy'' then 1 + fquot (pb_slippage_bps pb) (Fin 10000)
      else 1 - fquot (pb_slippage_bps pb) (Fin 10000))"

definition paper_market :: "order_args \<Rightarrow> (paper_broker, fill_result) io" where
  "paper_market a env pb =
     (let symbol = oa_market_id a; sd = oa_side a; quantity = oa_quantity a in
      if pb_fill_probability pb < env_random env 0
      then (Inr (paper_result False 0 0 quantity OrderRejected []), pb)
      else
      let ref_price = (case oa_close_price a of Some p \<Rightarrow> p | None \<Rightarrow> 1);
          fill_price = ref_price * slip_multiplier sd pb;
          (order_id, pb1) = next_order_id pb in
      if env_random env 1 < pb_partial_fill_probability pb
      then let fill_qty = quantity * (lit 0.1 + (lit 0.9 - lit 0.1) * env_random env 2);
               remaining = quantity - fill_qty;
               pb2 = apply_fill symbol sd (py_round fill_qty 8) (py_round fill_price 8) pb1;
               pb3 = (if 0 < remaining
                      then record_order order_id symbol sd (py_round remaining 8) ''market'' pb2 else pb2) in
           (Inr (paper_result True (py_round fill_qty 8) (py_round fill_price 8) (py_round remaining 8)
                   OrderPartial order_id), pb3)
      else (Inr (paper_result True quantity (py_round fill_price 8) 0 OrderFilled order_id),
            apply_fill symbol sd quantity (py_round fill_price 8) pb1))"

definition rest_order :: "fstring \<Rightarrow> string \<Rightarrow> string \<Rightarrow> float64 \<Rightarrow> string \<Rightarrow> paper_broker \<Rightarrow> fill_result res \<times> paper_broker" where
  "rest_order oid symbol sd quantity ty pb =
     (Inr (paper_result False 0 0 quantity OrderPending oid), record_order oid symbol sd quantity ty pb)"

definition paper_limit ::
  "uuid \<Rightarrow> string \<Rightarrow> float64 \<Rightarrow> float64 \<Rightarrow> float64 option \<Rightarrow> (paper_broker, fill_result) io" where
  "paper_limit market sd quantity price close_price env pb =
     (let (order_id, pb1) = next_order_id pb in
      case close_price of
        None \<Rightarrow> rest_order order_id market sd quantity ''limit'' pb1
      | Some c \<Rightarrow>
          if sd = ''buy'' \<and> c \<le> price \<or> sd = ''sell'' \<and> price \<le> c
          then let fill_price = c * slip_multiplier sd pb1 in
               (Inr (paper_result True quantity (py_round fill_price 8) 0 OrderFilled order_id),
                apply_fill market sd quantity (py_round fill_price 8) pb1)
          else rest_order order_id market sd quantity ''limit'' pb1)"

abbreviation market_args :: "uuid \<Rightarrow> string \<Rightarrow> float64 \<Rightarrow> float64 option \<Rightarrow> order_args" where
  "market_args market sd quantity close_price \<equiv>
     \<lparr>oa_market_id = market, oa_side = sd, oa_quantity = quantity, oa_close_price = close_price,
      oa_client_order_id = None\<rparr>"

definition paper_stop ::
  "uuid \<Rightarrow> string \<Rightarrow> float64 \<Rightarrow> float64 \<Rightarrow> float64 option \<Rightarrow> (paper_broker, fill_result) io" where
  "paper_stop market sd quantity stop_price market_price env pb =
     (let (order_id, pb1) = next_order_id pb;
          triggered = (case market_price of None \<Rightarrow> False | Some m \<Rightarrow>
            sd = ''buy'' \<and> stop_price \<le> m \<or> sd = ''sell'' \<and> m \<le> stop_price) in
      if \<not> triggered then rest_order order_id market sd quantity ''stop'' pb1
      else paper_market (market_args market sd quantity market_price) env pb1)"

definition paper_trailing ::
  "uuid \<Rightarrow> string \<Rightarrow> float64 \<Rightarrow> float64 \<Rightarrow> float64 option \<Rightarrow> (paper_broker, fill_result) io" where
  "paper_trailing market sd quantity trail_percent market_price env pb =
     (let (order_id, pb1) = next_order_id pb in
      case market_price of
        None \<Rightarrow> rest_order order_id market sd quantity ''trailing_stop'' pb1
      | Some m \<Rightarrow>
          (let stop_price = (if sd = ''buy'' then m * (1 + trail_percent) else m * (1 - trail_percent));
               triggered = (sd = ''buy'' \<and> stop_price \<le> m \<or> sd = ''sell'' \<and> m \<le> stop_price) in
           if \<not> triggered then rest_order order_id market sd quantity ''trailing_stop'' pb1
           else paper_market (market_args market sd quantity market_price) env pb1))"

definition paper_modify :: "fstring \<Rightarrow> modify_args \<Rightarrow> (paper_broker, fill_result) io" where
  "paper_modify oid a env pb =
     (case map_of (pb_open_orders pb) oid of
        None \<Rightarrow> (Inr (paper_result False 0 0 0 OrderRejected oid), pb)
      | Some ord \<Rightarrow>
          (Inr (paper_result True 0 0 0 OrderModified oid),
           (case ma_qty a of
              None \<Rightarrow> pb
            | Some q \<Rightarrow> pb\<lparr>pb_open_orders := AList.update oid (ord\<lparr>bo_qty := q\<rparr>) (pb_open_orders pb)\<rparr>)))"

definition paper_cancel :: "fstring \<Rightarrow> (paper_broker, fill_result) io" where
  "paper_cancel oid env pb =
     (case map_of (pb_open_orders pb) oid of
        None \<Rightarrow> (Inr (paper_result False 0 0 0 OrderRejected oid), pb)
      | Some _ \<Rightarrow> (Inr (paper_result True 0 0 0 OrderCancelled oid),
                  pb\<lparr>pb_open_orders := AList.delete oid (pb_open_orders pb)\<rparr>))"

definition paper_adapter :: "paper_broker broker" where
  "paper_adapter =
     \<lparr>b_market = paper_market, b_flatten = default_flatten paper_market, b_limit = paper_limit,
      b_stop = paper_stop, b_trailing = paper_trailing, b_modify = paper_modify,
      b_cancel = paper_cancel, b_balance = (\<lambda>env pb. (Inr (pb_account_balance pb), pb)),
      b_positions = (\<lambda>env pb. (Inr (dict_values (pb_positions pb)), pb)),
      b_open_orders = (\<lambda>env pb. (Inr (dict_values (pb_open_orders pb)), pb))\<rparr>"

subsection \<open>Invariant\<close>

text \<open>
  No position is non-positive (a \<open>NaN\<close> quantity compares false), each is stored under its
  own symbol, and every open order carries an id the adapter has handed out.
\<close>

definition paper_ok :: "paper_broker \<Rightarrow> bool" where
  "paper_ok pb =
     (0 \<le> pb_order_seq pb \<and> distinct (dict_keys (pb_positions pb)) \<and> distinct (dict_keys (pb_open_orders pb)) \<and>
      list_all (\<lambda>(k, p). bp_symbol p = k \<and> \<not> bp_qty p \<le> 0) (pb_positions pb) \<and>
      list_all (\<lambda>(k, ord). bo_id ord = k \<and> (\<exists>n. k = paper_order_id n \<and> 1 \<le> n \<and> n \<le> pb_order_seq pb))
        (pb_open_orders pb))"

lemma list_all_update_dict: "list_all P d \<Longrightarrow> P (k, v) \<Longrightarrow> list_all P (AList.update k v d)"
  by (induction d) auto

lemma list_all_delete_dict: "list_all P d \<Longrightarrow> list_all P (AList.delete k d)"
  by (induction d) auto

lemma list_all_map_of: "list_all P d \<Longrightarrow> map_of d k = Some v \<Longrightarrow> P (k, v)"
  by (auto simp: list_all_iff dest: map_of_SomeD)

lemma float_pos_not_le: "0 < (x :: float64) \<Longrightarrow> \<not> x \<le> 0"
  by (cases x) (auto simp: zero_eq_Fin)

lemma apply_fill_frame [simp]:
  "pb_order_seq (apply_fill smb sd q p pb) = pb_order_seq pb"
  "pb_open_orders (apply_fill smb sd q p pb) = pb_open_orders pb"
  by (simp_all add: apply_fill_def Let_def split: option.split)

lemma nonneg_not_neg: "0 \<le> (x :: float64) \<Longrightarrow> \<not> 0 < - x"
  by (cases x) (auto simp: zero_eq_Fin)

lemma apply_fill_ok:
  assumes "paper_ok pb" and "0 \<le> q"
  shows "paper_ok (apply_fill smb sd q p pb)"
proof -
  have pos: "list_all (\<lambda>(k, p). bp_symbol p = k \<and> \<not> bp_qty p \<le> 0) (pb_positions pb)"
    using assms by (simp add: paper_ok_def)
  have "distinct (dict_keys (pb_positions (apply_fill smb sd q p pb))) \<and>
      list_all (\<lambda>(k, p). bp_symbol p = k \<and> \<not> bp_qty p \<le> 0) (pb_positions (apply_fill smb sd q p pb))"
  proof (cases "map_of (pb_positions pb) smb")
    case None
    then show ?thesis
      using assms(1) pos nonneg_not_neg [OF assms(2)]
      by (auto simp: apply_fill_def paper_ok_def float_pos_not_le Let_def intro!: list_all_update_dict)
  next
    case (Some c)
    then show ?thesis
      using assms(1) pos list_all_map_of [OF pos Some]
      by (auto simp: apply_fill_def paper_ok_def Let_def intro!: list_all_update_dict list_all_delete_dict)
  qed
  then show ?thesis
    using assms(1) by (simp add: paper_ok_def)
qed

lemma record_order_ok:
  assumes "paper_ok pb" and "1 \<le> n" and "n \<le> pb_order_seq pb"
  shows "paper_ok (record_order (paper_order_id n) smb sd q ty pb)"
  using assms by (auto simp: paper_ok_def record_order_def intro!: list_all_update_dict)

lemma paper_ok_later: "paper_ok pb \<Longrightarrow> pb_order_seq pb \<le> n \<Longrightarrow> paper_ok (pb\<lparr>pb_order_seq := n\<rparr>)"
  by (fastforce simp: paper_ok_def list_all_iff)

lemma fresh_order_id: "paper_ok pb \<Longrightarrow> map_of (pb_open_orders pb) (paper_order_id (pb_order_seq pb + 1)) = None"
  by (fastforce simp: paper_ok_def list_all_iff paper_order_id_def map_of_eq_None_iff)

lemma next_order_id_ok:
  assumes "paper_ok pb"
  shows "next_order_id pb = (paper_order_id (pb_order_seq pb + 1), pb\<lparr>pb_order_seq := pb_order_seq pb + 1\<rparr>)"
    and "paper_ok (pb\<lparr>pb_order_seq := pb_order_seq pb + 1\<rparr>)" and "1 \<le> pb_order_seq pb + 1"
  using assms paper_ok_later [OF assms] by (simp_all add: next_order_id_def Let_def) (simp add: paper_ok_def)

lemma rest_order_ok:
  assumes "paper_ok pb" and "1 \<le> n" and "n \<le> pb_order_seq pb"
  shows "paper_ok (snd (rest_order (paper_order_id n) smb sd q ty pb))"
  using record_order_ok [OF assms] by (simp add: rest_order_def)

lemma round_half_even_nonneg: "0 \<le> x \<Longrightarrow> 0 \<le> round_half_even x"
  using round_half_even_mono [of 0 x] round_half_even_of_int [of 0] by simp

lemma py_round_nonneg: "0 \<le> x \<Longrightarrow> 0 \<le> py_round x n"
  by (cases x) (auto simp: zero_eq_Fin intro!: rnd_nonneg divide_nonneg_pos round_half_even_nonneg)

lemma partial_quantity_nonneg:
  assumes "0 \<le> q" and "0 \<le> r" and "r \<le> 1" and "isfinite q"
  shows "0 \<le> py_round (q * (lit 0.1 + (lit 0.9 - lit 0.1) * r)) 8"
proof -
  define a :: rat where "a = 3602879701896397 / 36028797018963968"
  define b :: rat where "b = 3602879701896397 / 4503599627370496"
  have ab: "lit (1 / 10) = Fin a" "lit (9 / 10) - lit (1 / 10) = Fin b" "0 \<le> a" "0 \<le> b"
    by (simp_all add: float_eval a_def b_def)
  obtain x where x: "r = Fin x" "0 \<le> x" "x \<le> 1"
    using assms(2,3) by (cases r) (auto simp: zero_eq_Fin one_eq_Fin)
  obtain y where y: "q = Fin y" "0 \<le> y"
    using assms(1,4) by (cases q) (auto simp: zero_eq_Fin)
  have "rnd (b * x) \<le> rnd b"
    using ab x by (intro rnd_mono) (simp add: mult_left_le)
  moreover have "rnd b = Fin b"
    using ab(2) rnd_idem by (metis Fin_ops(2) is_double.simps(1) is_double_ops(2))
  moreover have "Fin 0 \<le> rnd (b * x)"
    using ab x by (intro rnd_nonneg) simp
  ultimately obtain z where z: "rnd (b * x) = Fin z" "0 \<le> z" "z \<le> b"
    by (cases "rnd (b * x)") auto
  have "rnd (a + z) \<le> rnd 2"
    using z(3) by (intro rnd_mono) (simp add: a_def b_def)
  then have bound: "rnd (a + z) \<noteq> PosInf"
    using rnd_of_int [of 2] by auto
  have "0 \<le> q * (Fin a + Fin b * r)"
  proof (cases "rnd (a + z)")
    case (Fin w)
    then have "0 \<le> w" using rnd_nonneg [of "a + z"] ab z by simp
    then show ?thesis using x y z Fin by (simp add: zero_eq_Fin rnd_nonneg)
  next
    case PosInf
    then show ?thesis using bound by simp
  qed (use rnd_nonneg [of "a + z"] ab z in auto)
  then show ?thesis
    using ab by (simp add: py_round_nonneg)
qed

lemma paper_market_ok:
  assumes ok: "paper_ok pb" and q: "0 \<le> oa_quantity a" "isfinite (oa_quantity a)"
    and r: "0 \<le> env_random env 2" "env_random env 2 \<le> 1"
  shows "paper_ok (snd (paper_market a env pb))"
proof -
  let ?pb1 = "pb\<lparr>pb_order_seq := pb_order_seq pb + 1\<rparr>"
  note ids = next_order_id_ok [OF ok]
  have part: "0 \<le> py_round (oa_quantity a * (lit 0.1 + (lit 0.9 - lit 0.1) * env_random env 2)) 8"
    using partial_quantity_nonneg [OF q(1) r q(2)] .
  have "paper_ok (record_order (paper_order_id (pb_order_seq pb + 1)) m sd x ty (apply_fill m sd y p ?pb1))"
    if "0 \<le> y" for m sd x ty y p
    using apply_fill_ok [OF ids(2) that] ids(3) by (intro record_order_ok) simp_all
  then show ?thesis
    using ok q(1) part apply_fill_ok [OF ids(2)] by (simp add: paper_market_def ids(1) Let_def)
qed

subsection \<open>Every run of the adapter\<close>

datatype paper_op =
    PMarket order_args
  | PLimit uuid string float64 float64 "float64 option"
  | PStop uuid string float64 float64 "float64 option"
  | PTrailing uuid string float64 float64 "float64 option"
  | PModify fstring modify_args
  | PCancel fstring

fun paper_do :: "paper_op \<Rightarrow> env \<Rightarrow> paper_broker \<Rightarrow> fill_result res \<times> paper_broker" where
  "paper_do (PMarket a) env pb = b_market paper_adapter a env pb"
| "paper_do (PLimit m sd q p c) env pb = b_limit paper_adapter m sd q p c env pb"
| "paper_do (PStop m sd q p c) env pb = b_stop paper_adapter m sd q p c env pb"
| "paper_do (PTrailing m sd q p c) env pb = b_trailing paper_adapter m sd q p c env pb"
| "paper_do (PModify i a) env pb = b_modify paper_adapter i a env pb"
| "paper_do (PCancel i) env pb = b_cancel paper_adapter i env pb"

fun op_quantity :: "paper_op \<Rightarrow> float64" where
  "op_quantity (PMarket a) = oa_quantity a"
| "op_quantity (PLimit m sd q p c) = q"
| "op_quantity (PStop m sd q p c) = q"
| "op_quantity (PTrailing m sd q p c) = q"
| "op_quantity (PModify i a) = 0"
| "op_quantity (PCancel i) = 0"

definition plausible :: "paper_op \<times> env \<Rightarrow> bool" where
  "plausible oe =
     (0 \<le> op_quantity (fst oe) \<and> isfinite (op_quantity (fst oe)) \<and>
      0 \<le> env_random (snd oe) 2 \<and> env_random (snd oe) 2 \<le> 1)"

definition paper_run :: "(paper_op \<times> env) list \<Rightarrow> paper_broker \<Rightarrow> paper_broker" where
  "paper_run ops pb = foldl (\<lambda>pb (op, env). snd (paper_do op env pb)) pb ops"

lemmas paper_ops = paper_limit_def paper_stop_def paper_trailing_def paper_modify_def paper_cancel_def

lemma paper_modify_ok: "paper_ok pb \<Longrightarrow> paper_ok (snd (paper_modify i a env pb))"
  by (auto simp: paper_modify_def paper_ok_def intro!: list_all_update_dict
      dest: list_all_map_of split: option.splits)

lemma paper_cancel_ok: "paper_ok pb \<Longrightarrow> paper_ok (snd (paper_cancel i env pb))"
  by (auto simp: paper_cancel_def paper_ok_def intro!: list_all_delete_dict split: option.splits)

lemma paper_do_ok:
  assumes ok: "paper_ok pb" and "plausible (op, env)"
  shows "paper_ok (snd (paper_do op env pb))"
proof -
  let ?pb1 = "pb\<lparr>pb_order_seq := pb_order_seq pb + 1\<rparr>"
  note ids = next_order_id_ok [OF ok]
  have rest: "paper_ok (snd (rest_order (paper_order_id (pb_order_seq pb + 1)) m sd q ty ?pb1))" for m sd q ty
    using ids by (intro rest_order_ok) simp_all
  have q: "0 \<le> op_quantity op" "isfinite (op_quantity op)" "0 \<le> env_random env 2" "env_random env 2 \<le> 1"
    using assms(2) by (simp_all add: plausible_def)
  show ?thesis
  proof (cases op)
    case (PMarket a)
    then show ?thesis using paper_market_ok [OF ok] q by (simp add: paper_adapter_def)
  next
    case (PLimit m sd x p c)
    then show ?thesis
      using rest apply_fill_ok [OF ids(2)] q
      by (cases c) (simp_all add: paper_adapter_def paper_limit_def ids(1) Let_def)
  next
    case (PStop m sd x p c)
    then show ?thesis
      using rest paper_market_ok [OF ids(2), of "market_args m sd x c" env] q
      by (simp add: paper_adapter_def paper_stop_def ids(1) Let_def)
  next
    case (PTrailing m sd x p c)
    then show ?thesis
      using rest paper_market_ok [OF ids(2), of "market_args m sd x c" env] q
      by (cases c) (simp_all add: paper_adapter_def paper_trailing_def ids(1) Let_def)
  next
    case (PModify i a)
    then show ?thesis using paper_modify_ok [OF ok] by (simp add: paper_adapter_def)
  next
    case (PCancel i)
    then show ?thesis using paper_cancel_ok [OF ok] by (simp add: paper_adapter_def)
  qed
qed

text \<open>
  C36. Whatever orders, modifications and cancellations the paper broker is sent, with
  finite non-negative sizes, it never holds a position that is zero or short, keeps each
  position under its own symbol, and every open order it lists carries a distinct id that
  it has handed out itself.
\<close>

theorem paper_broker_invariant:
  assumes "list_all plausible ops"
  shows "paper_ok (paper_run ops (new_paper_broker cash))"
proof -
  have "paper_ok pb \<Longrightarrow> paper_ok (paper_run ops pb)" for pb
    using assms
  proof (induction ops arbitrary: pb)
    case Nil
    then show ?case by (simp add: paper_run_def)
  next
    case (Cons oe ops)
    then show ?case
      using paper_do_ok [of pb "fst oe" "snd oe"] by (simp add: paper_run_def split_def)
  qed
  then show ?thesis
    by (simp add: paper_ok_def new_paper_broker_def)
qed

definition sample_ops :: "(paper_op \<times> env) list" where
  "sample_ops = [(PMarket (market_args ''m1'' ''buy'' (Fin 2) (Some (Fin 50))), sample_env),
     (PLimit ''m2'' ''buy'' (Fin 1) (Fin 10) None, sample_env)]"

theorem paper_broker_invariant_witness:
  "paper_ok (paper_run sample_ops (new_paper_broker (Fin 10000)))"
  by (rule paper_broker_invariant)
    (simp add: sample_ops_def plausible_def sample_env_def zero_eq_Fin one_eq_Fin)

text \<open>
  The paper broker pays for shares it does not hold: selling a market it holds nothing
  of, or more than it holds, is filled in full, credits the whole proceeds to the cash
  balance, and leaves no position behind.
\<close>

theorem naked_sell_credits_cash:
  assumes "oa_side a = ''sell''" and "oa_close_price a = Some c" and "0 \<le> oa_quantity a"
    and "\<not> pb_fill_probability pb < env_random env 0"
    and "\<not> env_random env 1 < pb_partial_fill_probability pb"
    and "case map_of (pb_positions pb) (oa_market_id a) of
           None \<Rightarrow> True | Some p \<Rightarrow> bp_qty p + - oa_quantity a \<le> 0"
  shows "\<exists>r pb'. b_market paper_adapter a env pb = (Inr r, pb') \<and> fr_filled r \<and>
    fr_fill_quantity r = oa_quantity a \<and>
    pb_account_balance pb' = pb_account_balance pb + oa_quantity a * fr_fill_price r \<and>
    map_of (pb_positions pb') (oa_market_id a) = None"
  using assms nonneg_not_neg [OF assms(3)]
  by (auto simp: paper_adapter_def paper_market_def next_order_id_def paper_result_def apply_fill_def
      Let_def split: option.splits)

theorem naked_sell_credits_cash_witness:
  "\<exists>r pb'. b_market paper_adapter (market_args ''m1'' ''sell'' (Fin 3) (Some (Fin 50))) sample_env
      (new_paper_broker (Fin 10000)) = (Inr r, pb') \<and> fr_filled r \<and>
    pb_account_balance pb' = Fin 10000 + Fin 3 * fr_fill_price r \<and> map_of (pb_positions pb') ''m1'' = None"
  using naked_sell_credits_cash [of "market_args ''m1'' ''sell'' (Fin 3) (Some (Fin 50))" "Fin 50"
      "new_paper_broker (Fin 10000)" sample_env]
  by (auto simp: new_paper_broker_def sample_env_def zero_eq_Fin one_eq_Fin)

end
