(* ===== verification/Resilience.thy ===== *)
theory Resilience
  imports BrokerPort
begin

text \<open>
  \<open>infrastructure/{resilience,broker_circuit_breaker,retry}.py\<close>.

  A circuit breaker is a record and a wrapped call is a function on the breaker's and
  the callee's state.  The lock makes each access to the breaker atomic; the model runs
  one call at a time.  \<open>run_bounded\<close> raises \<open>TimeoutError\<close> for a call that outlives its
  bound (\<open>env_hung\<close>): the worker thread goes on, so the callee's effect is kept.
  A retry loop takes its attempts from the callee's state, its jitter from a stream of
  random numbers, and records the delays it slept.
\<close>

subsection \<open>Circuit breaker\<close>

datatype cb_state = Closed | Open | HalfOpen

record cb_config =
  cbc_name :: string
  cbc_failure_threshold :: int
  cbc_recovery_timeout :: int
  cbc_expected :: "exc \<Rightarrow> bool"
  cbc_non_failure :: "exc \<Rightarrow> bool"

record breaker =
  cb_state :: cb_state
  cb_failures :: int
  cb_successes :: int
  cb_last_failure :: float64

definition new_breaker :: breaker where
  "new_breaker = \<lparr>cb_state = Closed, cb_failures = 0, cb_successes = 0, cb_last_failure = 0\<rparr>"

text \<open>The \<open>state\<close> property: reading it may move an open breaker to half-open.\<close>

definition cb_observe :: "cb_config \<Rightarrow> float64 \<Rightarrow> breaker \<Rightarrow> breaker" where
  "cb_observe cfg now b =
     (if cb_state b = Open \<and> Fin (of_int (cbc_recovery_timeout cfg)) \<le> now - cb_last_failure b
      then b\<lparr>cb_state := HalfOpen\<rparr> else b)"

definition cb_on_success :: "breaker \<Rightarrow> breaker" where
  "cb_on_success b =
     (if cb_state b = HalfOpen
      then (if 2 \<le> cb_successes b + 1
            then b\<lparr>cb_state := Closed, cb_failures := 0, cb_successes := 0\<rparr>
            else b\<lparr>cb_successes := cb_successes b + 1\<rparr>)
      else b\<lparr>cb_failures := 0\<rparr>)"

definition cb_on_failure :: "cb_config \<Rightarrow> float64 \<Rightarrow> breaker \<Rightarrow> breaker" where
  "cb_on_failure cfg now b =
     (let b1 = b\<lparr>cb_failures := cb_failures b + 1, cb_successes := 0, cb_last_failure := now\<rparr> in
      if cb_state b1 = HalfOpen \<or> cbc_failure_threshold cfg \<le> cb_failures b1
      then b1\<lparr>cb_state := Open\<rparr> else b1)"

definition cb_reset :: "breaker \<Rightarrow> breaker" where
  "cb_reset b = b\<lparr>cb_state := Closed, cb_failures := 0, cb_successes := 0, cb_last_failure := 0\<rparr>"

definition cb_call :: "cb_config \<Rightarrow> ('s, 'a) io \<Rightarrow> (breaker \<times> 's, 'a) io" where
  "cb_call cfg fn env st =
     (let b = cb_observe cfg (env_time env) (fst st) in
      if cb_state b = Open then (Inl CircuitOpenError, (b, snd st))
      else case fn env (snd st) of
             (Inr r, s) \<Rightarrow> (Inr r, (cb_on_success b, s))
           | (Inl e, s) \<Rightarrow>
               if cbc_non_failure cfg e then (Inl e, (b, s))
               else if cbc_expected cfg e then (Inl e, (cb_on_failure cfg (env_time_end env) b, s))
               else (Inl e, (b, s)))"

definition run_bounded :: "('s, 'a) io \<Rightarrow> ('s, 'a) io" where
  "run_bounded fn env s =
     (let (r, s') = fn env s in if env_hung env then (Inl TimeoutError, s') else (r, s'))"

definition with_circuit_breaker ::
  "cb_config \<Rightarrow> float64 option \<Rightarrow> ('s, 'a) io \<Rightarrow> (breaker \<times> 's, 'a) io" where
  "with_circuit_breaker cfg timeout fn =
     cb_call cfg (case timeout of None \<Rightarrow> fn | Some _ \<Rightarrow> run_bounded fn)"

definition BROKER_CB :: cb_config where
  "BROKER_CB = \<lparr>cbc_name = ''broker'', cbc_failure_threshold = 5, cbc_recovery_timeout = 30,
     cbc_expected = (\<lambda>e. True), cbc_non_failure = (\<lambda>e. e = RateLimitExceededError)\<rparr>"

definition VAULT_CB :: cb_config where
  "VAULT_CB = \<lparr>cbc_name = ''vault'', cbc_failure_threshold = 3, cbc_recovery_timeout = 60,
     cbc_expected = (\<lambda>e. True), cbc_non_failure = (\<lambda>e. False)\<rparr>"

definition PG_CB :: cb_config where
  "PG_CB = \<lparr>cbc_name = ''postgres'', cbc_failure_threshold = 10, cbc_recovery_timeout = 15,
     cbc_expected = (\<lambda>e. True), cbc_non_failure = (\<lambda>e. False)\<rparr>"

text \<open>The process-wide breakers, for probes and operators.\<close>

type_synonym breakers = "(string \<times> (cb_config \<times> breaker)) list"

definition ALL_BREAKERS :: breakers where
  "ALL_BREAKERS = [(''broker'', BROKER_CB, new_breaker), (''vault'', VAULT_CB, new_breaker),
     (''postgres'', PG_CB, new_breaker)]"

definition get_breaker_status :: "float64 \<Rightarrow> breakers \<Rightarrow> (string \<times> cb_state \<times> int \<times> int \<times> int) list \<times> breakers" where
  "get_breaker_status now bs =
     (let bs' = map (\<lambda>(name, cfg, b). (name, cfg, cb_observe cfg now b)) bs in
      (map (\<lambda>(name, cfg, b). (name, cb_state b, cb_failures b, cbc_failure_threshold cfg,
                              cbc_recovery_timeout cfg)) bs', bs'))"

definition reset_all_breakers :: "breakers \<Rightarrow> breakers" where
  "reset_all_breakers bs = map (\<lambda>(name, cfg, b). (name, cfg, cb_reset b)) bs"

subsection \<open>The broker behind the breaker\<close>

definition protected :: "('s, 'a) io \<Rightarrow> (breaker \<times> 's, 'a) io" where
  "protected call = with_circuit_breaker BROKER_CB (Some (Fin 5)) call"

definition circuit_breakered :: "'s broker \<Rightarrow> (breaker \<times> 's) broker" where
  "circuit_breakered inner =
     \<lparr>b_market = (\<lambda>a. protected (b_market inner a)),
      b_flatten = (\<lambda>a. protected (b_flatten inner a)),
      b_limit = (\<lambda>m sd q p c. protected (b_limit inner m sd q p c)),
      b_stop = (\<lambda>m sd q p c. protected (b_stop inner m sd q p c)),
      b_trailing = (\<lambda>m sd q p c. protected (b_trailing inner m sd q p c)),
      b_modify = (\<lambda>i a. protected (b_modify inner i a)),
      b_cancel = (\<lambda>i. protected (b_cancel inner i)),
      b_balance = through (b_balance inner),
      b_positions = through (b_positions inner),
      b_open_orders = through (b_open_orders inner)\<rparr>"

subsection \<open>Retry with backoff\<close>

text \<open>\<open>MoneyPrecisionError\<close> is a \<open>ValueError\<close>, \<open>TimeoutError\<close> an \<open>OSError\<close>.\<close>

definition base_retryable :: "exc \<Rightarrow> bool" where
  "base_retryable e =
     (e \<in> {ValueError, MoneyPrecisionError, RuntimeError, OSError, TimeoutError, ServiceError})"

record retry_policy =
  rp_max_retries :: nat
  rp_base_delay :: float64
  rp_max_delay :: float64
  rp_jitter :: bool
  rp_should_retry :: "(exc \<Rightarrow> bool) option"

definition default_retry_policy :: retry_policy where
  "default_retry_policy = \<lparr>rp_max_retries = 3, rp_base_delay = 1, rp_max_delay = Fin 60,
     rp_jitter = True, rp_should_retry = None\<rparr>"

text \<open>\<open>2**attempt\<close> is an unbounded integer; multiplying a float by it converts it first.\<close>

definition backoff_delay :: "retry_policy \<Rightarrow> float64 \<Rightarrow> nat \<Rightarrow> float64 res" where
  "backoff_delay rp random attempt =
     rbind (int_to_float (2 ^ attempt)) (\<lambda>factor.
       let delay = py_min (rp_base_delay rp * factor) (rp_max_delay rp) in
       Inr (if rp_jitter rp then delay * (lit 0.5 + random * lit 0.5) else delay))"

definition retryable :: "retry_policy \<Rightarrow> exc \<Rightarrow> bool" where
  "retryable rp e =
     (base_retryable e \<or> (case rp_should_retry rp of None \<Rightarrow> False | Some p \<Rightarrow> p e))"

text \<open>\<open>left\<close> counts the attempts still allowed: the loop variable is
  \<open>rp_max_retries rp + 1 - left\<close>.\<close>

fun retry_loop ::
  "retry_policy \<Rightarrow> (nat \<Rightarrow> float64) \<Rightarrow> nat \<Rightarrow> ('s \<Rightarrow> 'a res \<times> 's) \<Rightarrow> 's \<Rightarrow> float64 list \<Rightarrow>
   'a res \<times> 's \<times> float64 list" where
  "retry_loop rp random 0 fn s slept = (Inl ServiceError, s, slept)"
| "retry_loop rp random (Suc left) fn s slept =
     (case fn s of
        (Inr r, s') \<Rightarrow> (Inr r, s', slept)
      | (Inl e, s') \<Rightarrow>
          if \<not> retryable rp e then (Inl e, s', slept)
          else if left = 0 then (Inl ServiceError, s', slept)
          else let attempt = rp_max_retries rp - left in
               case backoff_delay rp (random attempt) attempt of
                 Inl err \<Rightarrow> (Inl err, s', slept)
               | Inr d \<Rightarrow> retry_loop rp random left fn s' (slept @ [d]))"

definition retry_with_backoff ::
  "retry_policy \<Rightarrow> (nat \<Rightarrow> float64) \<Rightarrow> ('s \<Rightarrow> 'a res \<times> 's) \<Rightarrow> 's \<Rightarrow> 'a res \<times> 's \<times> float64 list" where
  "retry_with_backoff rp random fn s = retry_loop rp random (rp_max_retries rp + 1) fn s []"

subsection \<open>The breaker under any interleaving\<close>

text \<open>
  Each access takes the lock, so concurrent callers interleave whole accesses: a step is
  one observation, one recorded success, one recorded failure or a reset.
\<close>

inductive cb_step :: "cb_config \<Rightarrow> breaker \<Rightarrow> breaker \<Rightarrow> bool" for cfg where
  observe: "cb_step cfg b (cb_observe cfg now b)"
| success: "cb_step cfg b (cb_on_success b)"
| failure: "cb_step cfg b (cb_on_failure cfg now b)"
| reset: "cb_step cfg b (cb_reset b)"

definition cb_wf :: "cb_config \<Rightarrow> breaker \<Rightarrow> bool" where
  "cb_wf cfg b =
     (0 \<le> cb_failures b \<and> 0 \<le> cb_successes b \<and>
      (cb_state b = Closed \<longrightarrow> cb_failures b < cbc_failure_threshold cfg) \<and>
      (if cb_state b = HalfOpen then cb_successes b \<le> 1 else cb_successes b = 0))"

lemma cb_observe_cases:
  obtains "cb_observe cfg now b = b"
  | "cb_state b = Open" and "Fin (of_int (cbc_recovery_timeout cfg)) \<le> now - cb_last_failure b"
    and "cb_observe cfg now b = b\<lparr>cb_state := HalfOpen\<rparr>"
  by (cases "cb_state b = Open \<and> Fin (of_int (cbc_recovery_timeout cfg)) \<le> now - cb_last_failure b")
    (auto simp: cb_observe_def)

lemma cb_wf_step:
  assumes "0 < cbc_failure_threshold cfg" and "cb_wf cfg b" and "cb_step cfg b b'"
  shows "cb_wf cfg b'"
  using assms(3)
proof (cases rule: cb_step.cases)
  case (observe now)
  then show ?thesis using assms(1,2) by (auto simp: cb_observe_def cb_wf_def)
next
  case success
  then show ?thesis using assms(1,2) by (auto simp: cb_on_success_def cb_wf_def)
next
  case (failure now)
  then show ?thesis using assms(1,2) by (auto simp: cb_on_failure_def cb_wf_def Let_def)
next
  case reset
  then show ?thesis using assms(1,2) by (auto simp: cb_reset_def cb_wf_def)
qed

lemma cb_wf_reachable:
  assumes "0 < cbc_failure_threshold cfg" and "(cb_step cfg)\<^sup>*\<^sup>* b b'" and "cb_wf cfg b"
  shows "cb_wf cfg b'"
  using assms(2,3) by (induction rule: rtranclp_induct) (auto intro: cb_wf_step [OF assms(1)])

lemma new_breaker_wf: "0 < cbc_failure_threshold cfg \<Longrightarrow> cb_wf cfg new_breaker"
  by (simp add: cb_wf_def new_breaker_def)



lemma cb_failing_call:
  assumes "cb_state (fst st) = Closed" and "fn env (snd st) = (Inl e, s')"
    and "cbc_expected cfg e" and "\<not> cbc_non_failure cfg e"
  shows "snd (cb_call cfg fn env st) = (cb_on_failure cfg (env_time_end env) (fst st), s')"
  using assms by (simp add: cb_call_def cb_observe_def)

text \<open>A sequence of calls, one after the other.\<close>

definition cb_calls :: "cb_config \<Rightarrow> ('s, 'a) io \<Rightarrow> env list \<Rightarrow> breaker \<times> 's \<Rightarrow> breaker \<times> 's" where
  "cb_calls cfg fn envs st = foldl (\<lambda>st env. snd (cb_call cfg fn env st)) st envs"

definition always_fails :: "cb_config \<Rightarrow> ('s, 'a) io \<Rightarrow> env list \<Rightarrow> bool" where
  "always_fails cfg fn envs \<longleftrightarrow> (\<forall>env\<in>set envs. \<forall>s. \<exists>e s'. fn env s = (Inl e, s') \<and>
     cbc_expected cfg e \<and> \<not> cbc_non_failure cfg e)"

lemma failing_calls_count:
  assumes "always_fails cfg fn envs" and "cb_state b = Closed" and "cb_failures b = 0"
    and "int (length envs) < cbc_failure_threshold cfg"
  shows "cb_state (fst (cb_calls cfg fn envs (b, s))) = Closed \<and>
    cb_failures (fst (cb_calls cfg fn envs (b, s))) = int (length envs)"
  using assms
proof (induction envs rule: rev_induct)
  case Nil
  then show ?case by (simp add: cb_calls_def)
next
  case (snoc env envs)
  let ?st = "cb_calls cfg fn envs (b, s)"
  obtain e s' where fails: "fn env (snd ?st) = (Inl e, s')" "cbc_expected cfg e" "\<not> cbc_non_failure cfg e"
    using snoc.prems(1) unfolding always_fails_def by (metis in_set_conv_decomp)
  have IH: "cb_state (fst ?st) = Closed" "cb_failures (fst ?st) = int (length envs)"
    using snoc by (auto simp: always_fails_def)
  have "cb_calls cfg fn (envs @ [env]) (b, s) = (cb_on_failure cfg (env_time_end env) (fst ?st), s')"
    using cb_failing_call [of ?st fn env e s' cfg] IH(1) fails by (simp add: cb_calls_def)
  then show ?case
    using IH snoc.prems(4) by (simp add: cb_on_failure_def Let_def)
qed

text \<open>
  After as many consecutive failing calls as the threshold the breaker is open, and
  every later call that starts before the recovery timeout has passed is refused with
  \<open>CircuitOpenError\<close> without touching the protected dependency or the breaker.
\<close>

theorem breaker_fails_fast:
  assumes fails: "always_fails cfg fn (envs @ [env])" and closed: "cb_state b = Closed" "cb_failures b = 0"
    and threshold: "int (length envs) + 1 = cbc_failure_threshold cfg"
    and early: "\<not> Fin (of_int (cbc_recovery_timeout cfg)) \<le> env_time later - env_time_end env"
  shows "cb_call cfg fn' later (cb_calls cfg fn (envs @ [env]) (b, s)) =
    (Inl CircuitOpenError, cb_calls cfg fn (envs @ [env]) (b, s))"
proof -
  let ?st = "cb_calls cfg fn envs (b, s)"
  have closed': "cb_state (fst ?st) = Closed" "cb_failures (fst ?st) = int (length envs)"
    using failing_calls_count [of cfg fn envs b s] fails closed threshold
    by (auto simp: always_fails_def)
  obtain e s' where "fn env (snd ?st) = (Inl e, s')" "cbc_expected cfg e" "\<not> cbc_non_failure cfg e"
    using fails unfolding always_fails_def by (metis in_set_conv_decomp)
  then have "snd (cb_call cfg fn env ?st) = (cb_on_failure cfg (env_time_end env) (fst ?st), s')"
    using cb_failing_call [of ?st fn env e s' cfg] closed'(1) by simp
  then have "cb_calls cfg fn (envs @ [env]) (b, s) = (cb_on_failure cfg (env_time_end env) (fst ?st), s')"
    by (simp add: cb_calls_def)
  then show ?thesis
    using closed' threshold early by (simp add: cb_call_def cb_observe_def cb_on_failure_def Let_def)
qed

definition failing_call :: "(int, unit) io" where
  "failing_call env s = (Inl OSError, s)"

theorem breaker_fails_fast_witness:
  "cb_call BROKER_CB failing_call (sample_env\<lparr>env_time := Fin 29\<rparr>)
     (cb_calls BROKER_CB failing_call (replicate 4 sample_env @ [sample_env]) (new_breaker, 0)) =
   (Inl CircuitOpenError, cb_calls BROKER_CB failing_call (replicate 4 sample_env @ [sample_env]) (new_breaker, 0))"
  by (rule breaker_fails_fast)
    (simp_all add: always_fails_def failing_call_def BROKER_CB_def new_breaker_def sample_env_def
      float_eval)

text \<open>
  C38. Once the recovery timeout has passed, one successful call leaves the breaker
  half-open and reaches the dependency, a second one closes it with no failure
  counted, and a counted failure in place of the second opens it again at once.
\<close>

theorem breaker_recovery:
  assumes open_b: "cb_state b = Open" "cb_successes b = 0"
    and late: "Fin (of_int (cbc_recovery_timeout cfg)) \<le> env_time e1 - cb_last_failure b"
    and first: "fn e1 s = (Inr r1, s1)"
  shows "\<exists>b1. cb_call cfg fn e1 (b, s) = (Inr r1, (b1, s1)) \<and> cb_state b1 = HalfOpen \<and>
    (\<forall>e2 r2 s2. fn e2 s1 = (Inr r2, s2) \<longrightarrow>
       (\<exists>b2. cb_call cfg fn e2 (b1, s1) = (Inr r2, (b2, s2)) \<and> cb_state b2 = Closed \<and> cb_failures b2 = 0)) \<and>
    (\<forall>e2 x s2. fn e2 s1 = (Inl x, s2) \<longrightarrow> cbc_expected cfg x \<longrightarrow> \<not> cbc_non_failure cfg x \<longrightarrow>
       (\<exists>b2. cb_call cfg fn e2 (b1, s1) = (Inl x, (b2, s2)) \<and> cb_state b2 = Open))"
proof -
  let ?b1 = "b\<lparr>cb_state := HalfOpen, cb_successes := 1\<rparr>"
  have "cb_call cfg fn e1 (b, s) = (Inr r1, (?b1, s1))"
    using assms by (simp add: cb_call_def cb_observe_def cb_on_success_def)
  then show ?thesis
    by (intro exI [of _ ?b1]) (simp add: cb_call_def cb_observe_def cb_on_success_def cb_on_failure_def Let_def)
qed

theorem breaker_recovery_witness:
  "\<exists>b1. cb_call BROKER_CB (\<lambda>env s. (Inr s, s + 1)) (sample_env\<lparr>env_time := Fin 30\<rparr>)
      (new_breaker\<lparr>cb_state := Open\<rparr>, 0 :: int) = (Inr 0, (b1, 1)) \<and> cb_state b1 = HalfOpen"
proof -
  have "Fin (of_int (cbc_recovery_timeout BROKER_CB)) \<le>
      env_time (sample_env\<lparr>env_time := Fin 30\<rparr>) - cb_last_failure (new_breaker\<lparr>cb_state := Open\<rparr>)"
    by (simp add: new_breaker_def BROKER_CB_def zero_eq_Fin float_eval)
  from breaker_recovery [OF _ _ this, of "\<lambda>env s. (Inr s, s + 1)" "0 :: int" 0 1]
  show ?thesis by (auto simp: new_breaker_def)
qed

subsection \<open>What the retry loop does\<close>

text \<open>The outcomes of the first calls of an operation, and the state after them.\<close>

fun outcomes :: "nat \<Rightarrow> ('s \<Rightarrow> 'a res \<times> 's) \<Rightarrow> 's \<Rightarrow> 'a res list \<times> 's" where
  "outcomes 0 fn s = ([], s)"
| "outcomes (Suc n) fn s =
     (fst (fn s) # fst (outcomes n fn (snd (fn s))), snd (outcomes n fn (snd (fn s))))"

definition transient :: "retry_policy \<Rightarrow> 'a res \<Rightarrow> bool" where
  "transient rp r = (case r of Inl e \<Rightarrow> retryable rp e | Inr _ \<Rightarrow> False)"

lemma power_two_double: "a \<le> 1023 \<Longrightarrow> rnd (2 ^ a) = Fin (2 ^ a)"
proof -
  assume a: "a \<le> 1023"
  then have "(2 :: rat) ^ a < 2 ^ 1024"
    by (intro power_strict_increasing) simp_all
  moreover have "- (2 ^ 1024) < (2 :: rat) ^ a"
    by (rule less_le_trans [of _ 0]) simp_all
  moreover have "round_grid (2 ^ a) = 2 ^ a"
    using round_grid_exact [of 1 "int a"] by simp
  ultimately show "rnd (2 ^ a) = Fin (2 ^ a)"
    by (simp add: rnd_def Let_def not_le del: power_numeral)
qed

lemma backoff_delay_total: "a \<le> 1023 \<Longrightarrow> \<exists>d. backoff_delay rp x a = Inr d"
  by (simp add: backoff_delay_def int_to_float_def power_two_double Let_def)

lemma retry_loop_outcomes:
  assumes "rp_max_retries rp \<le> 1023" and "left \<le> rp_max_retries rp"
    and "retry_loop rp random (Suc left) fn s slept = (r, s', slept')"
  shows "\<exists>k \<le> left. \<exists>rs x. outcomes (Suc k) fn s = (rs @ [x], s') \<and> length slept' = length slept + k \<and>
    list_all (transient rp) rs \<and>
    (if transient rp x then k = left \<and> r = Inl ServiceError else r = x)"
  using assms(2,3)
proof (induction left arbitrary: s slept)
  case 0
  then show ?case
    by (cases "fn s") (auto simp: transient_def split: sum.splits if_splits)
next
  case (Suc left)
  obtain x s1 where fn: "fn s = (x, s1)" by (cases "fn s")
  show ?case
  proof (cases "transient rp x")
    case False
    then show ?thesis
      using Suc.prems fn
      by (intro exI [of _ 0]) (auto simp: transient_def split: sum.splits)
  next
    case True
    let ?a = "rp_max_retries rp - Suc left"
    obtain d where d: "backoff_delay rp (random ?a) ?a = Inr d"
      using backoff_delay_total [of ?a] assms(1) by (meson diff_le_self le_trans)
    have "retry_loop rp random (Suc left) fn s1 (slept @ [d]) = (r, s', slept')"
      using Suc.prems fn True d by (auto simp: transient_def Let_def split: sum.splits)
    then obtain k rs y where "k \<le> left" "outcomes (Suc k) fn s1 = (rs @ [y], s')"
        "length slept' = length slept + Suc k" "list_all (transient rp) rs"
        "if transient rp y then k = left \<and> r = Inl ServiceError else r = y"
      using Suc.IH [of s1 "slept @ [d]"] Suc.prems(1) by auto
    then show ?thesis
      using fn True by (intro exI [of _ "Suc k"] conjI) (auto intro!: exI [of _ "x # rs"])
  qed
qed

text \<open>
  The retry loop calls the operation at least once and at most one time more than the
  retries allowed, sleeps exactly between the calls, and goes on only after a transient
  failure: its result is the first success or the first permanent exception, unchanged,
  or \<open>ServiceError\<close> when the last allowed call failed transiently too.
\<close>

theorem retry_is_bounded:
  assumes "rp_max_retries rp \<le> 1023"
    and "retry_with_backoff rp random fn s = (r, s', slept)"
  shows "\<exists>k \<le> rp_max_retries rp. \<exists>rs x. outcomes (Suc k) fn s = (rs @ [x], s') \<and> length slept = k \<and>
    list_all (transient rp) rs \<and>
    (if transient rp x then k = rp_max_retries rp \<and> r = Inl ServiceError else r = x)"
  using retry_loop_outcomes [OF assms(1) order_refl, of random fn s "[]"] assms(2)
  by (simp add: retry_with_backoff_def)

theorem retry_is_bounded_witness:
  "\<exists>k \<le> 0. \<exists>rs x. outcomes (Suc k) (failing_call sample_env) 0 = (rs @ [x], 0) \<and>
     transient default_retry_policy x"
proof -
  let ?rp = "default_retry_policy\<lparr>rp_max_retries := 0\<rparr>"
  have run: "retry_with_backoff ?rp (\<lambda>_. 0) (failing_call sample_env) 0 = (Inl ServiceError, 0, [])"
    by (simp add: retry_with_backoff_def failing_call_def retryable_def base_retryable_def)
  have "rp_max_retries ?rp \<le> 1023" by simp
  from retry_is_bounded [OF this run] show ?thesis
    by (auto simp: failing_call_def transient_def retryable_def base_retryable_def default_retry_policy_def)
qed

end
