(* ===== verification/Alerting.thy ===== *)
theory Alerting
  imports PaperBroker Resilience
begin

text \<open>
  \<open>infrastructure/notifiers/oncall_router.py\<close>, \<open>infrastructure/probe_scheduler.py\<close> and
  \<open>domain/services/notification_service.py\<close>: how an alert leaves the process.

  The network is the parameter \<open>urlopen\<close>, a function of the request and of the state of the
  outside that answers a status and a body or raises.  An alert's text is kept, the encoding
  of the payload as JSON is not.  Threads are not modelled: a tick of the scheduler is one
  call of \<open>run_once\<close>.
\<close>

subsection \<open>Transports\<close>

definition OnCallDeliveryError :: exc where
  "OnCallDeliveryError = OtherException ''OnCallDeliveryError''"

fun severity_rank :: "level \<Rightarrow> nat" where
  "severity_rank INFO = 0"
| "severity_rank WARNING = 1"
| "severity_rank ERROR = 2"
| "severity_rank CRITICAL = 3"

datatype meta_value = MNone | MText string | MNumber float64

record alert =
  al_level :: level
  al_title :: string
  al_message :: fstring
  al_metadata :: "(string \<times> meta_value) list"

datatype transport =
    HttpTransport (tp_url: string) (tp_bearer: "string option")
  | PagerDuty (tp_routing_key: string) (tp_source: string)
  | Slack (tp_webhook: string) (tp_channel: "string option")

text \<open>A provider without its credential is refused at construction.\<close>

definition new_pagerduty :: "string \<Rightarrow> string \<Rightarrow> transport res" where
  "new_pagerduty key source = (if key = [] then Inl OnCallDeliveryError else Inr (PagerDuty key source))"

definition new_slack :: "string \<Rightarrow> string \<Rightarrow> transport res" where
  "new_slack url channel =
     (if url = [] then Inl OnCallDeliveryError else Inr (Slack url (if channel = [] then None else Some channel)))"

text \<open>The deduplication key: the first truthy one of two metadata entries, or the title.\<close>

fun truthy_meta :: "meta_value option \<Rightarrow> fstring option" where
  "truthy_meta (Some (MText s)) = (if s = [] then None else Some [L s])"
| "truthy_meta (Some (MNumber x)) = (if x = 0 then None else Some [F x])"
| "truthy_meta _ = None"

definition dedup_key :: "alert \<Rightarrow> fstring" where
  "dedup_key a =
     (case truthy_meta (map_of (al_metadata a) ''dedup_key'') of
        Some k \<Rightarrow> k
      | None \<Rightarrow> (case truthy_meta (map_of (al_metadata a) ''alert_id'') of
                  Some k \<Rightarrow> k
                | None \<Rightarrow> [L ''traderos-'', L (al_title a)]))"

datatype page_request =
    WebhookRequest string "string option" alert
  | PagerDutyRequest string string fstring string level alert
  | SlackRequest string "string option" alert

fun request_of :: "transport \<Rightarrow> alert \<Rightarrow> page_request" where
  "request_of (HttpTransport url bearer) a = WebhookRequest url bearer a"
| "request_of (PagerDuty key source) a = PagerDutyRequest key ''trigger'' (dedup_key a) source (al_level a) a"
| "request_of (Slack url channel) a = SlackRequest url channel a"

text \<open>A response body: not JSON, JSON that is no object, or an object.\<close>

datatype reply_json = JNull | JBool bool | JText string | JOther

datatype reply_body = NotJson | NotObject | Object "(string \<times> reply_json) list"

type_synonym reply = "int \<times> reply_body"

fun accept_body :: "transport \<Rightarrow> reply_body \<Rightarrow> unit res" where
  "accept_body (HttpTransport _ _) body = Inr ()"
| "accept_body (PagerDuty _ _) body =
     (case body of
        NotJson \<Rightarrow> Inr ()
      | NotObject \<Rightarrow> Inl (OtherException ''AttributeError'')
      | Object fs \<Rightarrow>
          if map_of fs ''status'' \<in> {None, Some JNull, Some (JText ''success''), Some (JText ''triggered''), Some (JText ''deduplicated'')}
          then Inr () else Inl RuntimeError)"
| "accept_body (Slack _ _) body =
     (case body of
        NotJson \<Rightarrow> Inr ()
      | NotObject \<Rightarrow> Inl (OtherException ''AttributeError'')
      | Object fs \<Rightarrow> if map_of fs ''ok'' = Some (JBool False) then Inl RuntimeError else Inr ())"

definition accept_reply :: "transport \<Rightarrow> reply \<Rightarrow> unit res" where
  "accept_reply t rep = (if 200 \<le> fst rep \<and> fst rep < 300 then accept_body t (snd rep) else Inl RuntimeError)"

definition post :: "(page_request \<Rightarrow> 'w \<Rightarrow> reply res \<times> 'w) \<Rightarrow> transport \<Rightarrow> alert \<Rightarrow> 'w \<Rightarrow> unit res \<times> 'w" where
  "post urlopen t a w = (case urlopen (request_of t a) w of (r, w1) \<Rightarrow> (rbind r (accept_reply t), w1))"

definition oncall_retry :: retry_policy where
  "oncall_retry = \<lparr>rp_max_retries = 3, rp_base_delay = lit 0.2, rp_max_delay = Fin 2, rp_jitter = True, rp_should_retry = None\<rparr>"

definition deliver ::
  "(page_request \<Rightarrow> 'w \<Rightarrow> reply res \<times> 'w) \<Rightarrow> (nat \<Rightarrow> float64) \<Rightarrow> transport \<Rightarrow> alert \<Rightarrow> 'w \<Rightarrow> unit res \<times> 'w" where
  "deliver urlopen random t a w =
     (case retry_with_backoff oncall_retry random (post urlopen t a) w of
        (r, w1, _) \<Rightarrow> (if r = Inl ServiceError then Inl OnCallDeliveryError else r, w1))"

subsection \<open>The router\<close>

record 'w oncall =
  oc_audit :: audit_log
  oc_metrics :: metrics_log
  oc_world :: 'w

text \<open>Every transport is tried; only a delivery error is caught.\<close>

fun fan_out :: "('t \<Rightarrow> alert \<Rightarrow> 'w \<Rightarrow> unit res \<times> 'w) \<Rightarrow> 't list \<Rightarrow> alert \<Rightarrow> bool \<Rightarrow> 'w \<Rightarrow> bool res \<times> 'w" where
  "fan_out dv [] a delivered w = (Inr delivered, w)"
| "fan_out dv (t # ts) a delivered w =
     (case dv t a w of
        (Inr _, w1) \<Rightarrow> fan_out dv ts a True w1
      | (Inl e, w1) \<Rightarrow> if e = OnCallDeliveryError then fan_out dv ts a delivered w1 else (Inl e, w1))"

fun level_value :: "level \<Rightarrow> string" where
  "level_value INFO = ''info''"
| "level_value WARNING = ''warning''"
| "level_value ERROR = ''error''"
| "level_value CRITICAL = ''critical''"

definition note_delivered :: "alert \<Rightarrow> 'w oncall \<Rightarrow> 'w oncall" where
  "note_delivered a st = st\<lparr>
     oc_audit := audit_rec ''oncall.delivered'' ''oncall-router'' (al_title a) [L ''level='', L (level_value (al_level a))] (oc_audit st),
     oc_metrics := counter ''oncall.delivered'' 1 (oc_metrics st)\<rparr>"

definition note_failed :: "alert \<Rightarrow> 'w oncall \<Rightarrow> 'w oncall" where
  "note_failed a st = st\<lparr>
     oc_audit := audit_rec ''oncall.delivery_failed'' ''oncall-router'' (al_title a)
       [L ''no on-call transport delivered level='', L (level_value (al_level a)), L '' alert '', L (al_title a)] (oc_audit st),
     oc_metrics := counter ''oncall.delivery_failed'' 1 (oc_metrics st)\<rparr>"

definition route ::
  "('t \<Rightarrow> alert \<Rightarrow> 'w \<Rightarrow> unit res \<times> 'w) \<Rightarrow> 't list \<Rightarrow> level \<Rightarrow> alert \<Rightarrow> 'w oncall \<Rightarrow> bool res \<times> 'w oncall" where
  "route dv ts min_severity a st =
     (if severity_rank (al_level a) < severity_rank min_severity then (Inr True, st)
      else case fan_out dv ts a False (oc_world st) of
             (Inl e, w) \<Rightarrow> (Inl e, st\<lparr>oc_world := w\<rparr>)
           | (Inr True, w) \<Rightarrow> (Inr True, note_delivered a (st\<lparr>oc_world := w\<rparr>))
           | (Inr False, w) \<Rightarrow>
               (if al_level a = CRITICAL then Inl OnCallDeliveryError else Inr False, note_failed a (st\<lparr>oc_world := w\<rparr>)))"

subsection \<open>What a delivery means\<close>

text \<open>A network that answers from a script, one entry per request.\<close>

definition scripted :: "page_request \<Rightarrow> reply res list \<Rightarrow> reply res \<times> reply res list" where
  "scripted rq script = (case script of [] \<Rightarrow> (Inl OSError, []) | r # rest \<Rightarrow> (r, rest))"

definition acked :: "transport \<Rightarrow> reply res \<Rightarrow> bool" where
  "acked t r = (rbind r (accept_reply t) = Inr ())"

lemma post_scripted: "post scripted t a (r # rest) = (rbind r (accept_reply t), rest)"
  by (simp add: post_def scripted_def)

lemma outcomes_scripted:
  "n \<le> length script \<Longrightarrow>
     outcomes n (post scripted t a) script = (map (\<lambda>r. rbind r (accept_reply t)) (take n script), drop n script)"
proof (induction n arbitrary: script)
  case 0
  then show ?case by simp
next
  case (Suc n)
  then obtain r rest where "script = r # rest" "n \<le> length rest" by (cases script) auto
  then show ?case using Suc.IH by (simp add: post_scripted)
qed

lemma transient_not_acked: "list_all (transient rp) (map (\<lambda>r. rbind r (accept_reply t)) rs) \<Longrightarrow> list_all (\<lambda>r. \<not> acked t r) rs"
  by (auto simp: list_all_iff transient_def acked_def split: sum.splits)

lemma acked_2xx: "acked t (Inr rep) \<Longrightarrow> 200 \<le> fst rep \<and> fst rep < 300"
  by (simp add: acked_def accept_reply_def split: if_splits)

text \<open>
  Delivered means acknowledged: a transport makes at most four requests, and returns normally
  exactly when the last one was answered with a status of the 200 range and a body the
  provider accepts, every earlier one having failed.
\<close>

theorem delivered_means_acknowledged:
  assumes "4 \<le> length script"
  shows "case deliver scripted random t a script of (r, rest) \<Rightarrow>
    \<exists>k. 1 \<le> k \<and> k \<le> 4 \<and> rest = drop k script \<and> list_all (\<lambda>x. \<not> acked t x) (take (k - 1) script) \<and>
      (r = Inr () \<longleftrightarrow> acked t (script ! (k - 1)))"
proof -
  obtain r w slept where run: "retry_with_backoff oncall_retry random (post scripted t a) script = (r, w, slept)"
    by (cases "retry_with_backoff oncall_retry random (post scripted t a) script")
  have "rp_max_retries oncall_retry = 3" by (simp add: oncall_retry_def)
  then obtain k rs x where k: "k \<le> 3" and outs: "outcomes (Suc k) (post scripted t a) script = (rs @ [x], w)"
    and rs: "list_all (transient oncall_retry) rs"
    and last: "if transient oncall_retry x then k = 3 \<and> r = Inl ServiceError else r = x"
    using retry_loop_outcomes [of oncall_retry 3 random "post scripted t a" script "[]" r w slept] run
    by (auto simp: retry_with_backoff_def)
  have len: "k < length script" using k assms by linarith
  have outs': "rs @ [x] = map (\<lambda>r. rbind r (accept_reply t)) (take (Suc k) script)" "w = drop (Suc k) script"
    using outs outcomes_scripted [of "Suc k" script t a] len by auto
  then have split: "rs = map (\<lambda>r. rbind r (accept_reply t)) (take k script)" "x = rbind (script ! k) (accept_reply t)"
    using len by (simp_all add: take_Suc_conv_app_nth)
  have early: "list_all (\<lambda>y. \<not> acked t y) (take k script)" using rs split(1) transient_not_acked by blast
  have "(if r = Inl ServiceError then Inl OnCallDeliveryError else r) = Inr () \<longleftrightarrow> acked t (script ! k)"
    using last split(2) by (auto simp: acked_def transient_def split: if_splits sum.splits)
  with k early outs'(2) show ?thesis
    by (intro case_prodI2) (auto simp: deliver_def run intro!: exI [of _ "Suc k"])
qed

theorem delivered_means_acknowledged_witness:
  "case deliver scripted (\<lambda>_. 0) (Slack ''u'' None) \<lparr>al_level = CRITICAL, al_title = ''t'', al_message = [], al_metadata = []\<rparr>
      [Inl OSError, Inr (200, Object []), Inl OSError, Inl OSError] of (r, rest) \<Rightarrow>
    \<exists>k. 1 \<le> k \<and> k \<le> 4 \<and> rest = drop k [Inl OSError, Inr (200, Object []), Inl OSError, Inl OSError] \<and>
      list_all (\<lambda>x. \<not> acked (Slack ''u'' None) x) (take (k - 1) [Inl OSError, Inr (200, Object []), Inl OSError, Inl OSError]) \<and>
      (r = Inr () \<longleftrightarrow> acked (Slack ''u'' None) ([Inl OSError, Inr (200, Object []), Inl OSError, Inl OSError] ! (k - 1)))"
  by (rule delivered_means_acknowledged) simp

text \<open>The outcomes of the transports, up to the first exception that escapes.\<close>

fun attempts :: "('t \<Rightarrow> alert \<Rightarrow> 'w \<Rightarrow> unit res \<times> 'w) \<Rightarrow> 't list \<Rightarrow> alert \<Rightarrow> 'w \<Rightarrow> unit res list" where
  "attempts dv [] a w = []"
| "attempts dv (t # ts) a w =
     (case dv t a w of (r, w1) \<Rightarrow> r # (if r = Inr () \<or> r = Inl OnCallDeliveryError then attempts dv ts a w1 else []))"

lemma fan_out_attempts:
  "case fst (fan_out dv ts a d w) of
     Inr b \<Rightarrow> length (attempts dv ts a w) = length ts \<and> (b \<longleftrightarrow> d \<or> Inr () \<in> set (attempts dv ts a w))
   | Inl e \<Rightarrow> e \<noteq> OnCallDeliveryError \<and> Inl e \<in> set (attempts dv ts a w)"
proof (induction ts arbitrary: d w)
  case Nil
  then show ?case by simp
next
  case (Cons t ts)
  obtain r w1 where "dv t a w = (r, w1)" by fastforce
  then show ?case
    using Cons.IH [where d = True and w = w1] Cons.IH [where d = d and w = w1] by (cases r) (auto split: sum.splits)
qed

text \<open>
  C21. A critical alert is never dropped in silence: routing it returns normally only if every
  transport was tried and one delivered, which is audited once; it raises the delivery error
  only if every transport failed, which is audited once; any other exception is one a
  transport let through, and then nothing is recorded and the rest of the transports is
  skipped.
\<close>

theorem critical_never_silent:
  "case route dv ts min_severity \<lparr>al_level = CRITICAL, al_title = title, al_message = msg, al_metadata = meta\<rparr> st of (r, st') \<Rightarrow>
     let a = \<lparr>al_level = CRITICAL, al_title = title, al_message = msg, al_metadata = meta\<rparr>;
         tried = attempts dv ts a (oc_world st) in
     (case r of
        Inr b \<Rightarrow> b \<and> length tried = length ts \<and> Inr () \<in> set tried \<and> oc_audit st' = oc_audit (note_delivered a st)
      | Inl e \<Rightarrow> if e = OnCallDeliveryError
                then length tried = length ts \<and> Inr () \<notin> set tried \<and> oc_audit st' = oc_audit (note_failed a st)
                else Inl e \<in> set tried \<and> oc_audit st' = oc_audit st)"
proof -
  let ?a = "\<lparr>al_level = CRITICAL, al_title = title, al_message = msg, al_metadata = meta\<rparr>"
  have above: "\<not> 3 < severity_rank min_severity" by (cases min_severity) simp_all
  obtain r w where fan: "fan_out dv ts ?a False (oc_world st) = (r, w)" by fastforce
  show ?thesis
    using fan_out_attempts [where dv = dv and ts = ts and a = ?a and d = False and w = "oc_world st"]
    by (cases r) (auto simp: route_def fan above note_delivered_def note_failed_def Let_def split: bool.splits)
qed

subsection \<open>Notifications\<close>

datatype channel = Console | File | Webhook

text \<open>
  The service's effects on the outside: the lines of the log and of the file, and the calls
  of the webhook notifier, which swallows its failures; the file may not be writable.
\<close>

record 'w notifier =
  nf_console :: "alert list"
  nf_file :: "alert list"
  nf_file_fails :: bool
  nf_webhook :: "alert list option"
  nf_oncall :: "'w oncall"

definition send_console :: "alert \<Rightarrow> 'w notifier \<Rightarrow> unit res \<times> 'w notifier" where
  "send_console a n = (Inr (), n\<lparr>nf_console := nf_console n @ [a]\<rparr>)"

definition send_file :: "alert \<Rightarrow> 'w notifier \<Rightarrow> unit res \<times> 'w notifier" where
  "send_file a n = (if nf_file_fails n then (Inl OSError, n) else (Inr (), n\<lparr>nf_file := nf_file n @ [a]\<rparr>))"

definition send_webhook :: "alert \<Rightarrow> 'w notifier \<Rightarrow> unit res \<times> 'w notifier" where
  "send_webhook a n = (Inr (), n\<lparr>nf_webhook := log_to a (nf_webhook n)\<rparr>)"

definition send ::
  "(alert \<Rightarrow> 'w oncall \<Rightarrow> bool res \<times> 'w oncall) option \<Rightarrow> bool \<Rightarrow> channel \<Rightarrow> alert \<Rightarrow> 'w notifier \<Rightarrow> unit res \<times> 'w notifier" where
  "send oncall webhook_on_critical ch a n =
     (case (case ch of Console \<Rightarrow> send_console a n | File \<Rightarrow> send_file a n | Webhook \<Rightarrow> send_webhook a n) of
        (Inl e, n1) \<Rightarrow> (Inl e, n1)
      | (Inr _, n1) \<Rightarrow>
          let n2 = (if webhook_on_critical \<and> al_level a = CRITICAL \<and> ch \<noteq> Webhook then snd (send_webhook a n1) else n1) in
          case oncall of
            None \<Rightarrow> (Inr (), n2)
          | Some rt \<Rightarrow> (case rt a (nf_oncall n2) of (r, oc) \<Rightarrow> (rbind r (\<lambda>_. Inr ()), n2\<lparr>nf_oncall := oc\<rparr>)))"

text \<open>
  A critical notification that returns normally was delivered by a transport and audited; a
  file that cannot be written keeps it from every transport.
\<close>

theorem notified_means_paged:
  "case send (Some (route dv ts min_severity)) wh ch
      \<lparr>al_level = CRITICAL, al_title = title, al_message = msg, al_metadata = meta\<rparr> n of (r, n') \<Rightarrow>
     let a = \<lparr>al_level = CRITICAL, al_title = title, al_message = msg, al_metadata = meta\<rparr> in
     if ch = File \<and> nf_file_fails n then r = Inl OSError \<and> n' = n
     else r = Inr () \<longrightarrow> Inr () \<in> set (attempts dv ts a (oc_world (nf_oncall n))) \<and>
            oc_audit (nf_oncall n') = oc_audit (note_delivered a (nf_oncall n))"
proof -
  let ?a = "\<lparr>al_level = CRITICAL, al_title = title, al_message = msg, al_metadata = meta\<rparr>"
  obtain r oc where rt: "route dv ts min_severity ?a (nf_oncall n) = (r, oc)" by fastforce
  show ?thesis
    using critical_never_silent [where dv = dv and ts = ts and min_severity = min_severity and title = title and msg = msg and meta = meta and st = "nf_oncall n"]
    by (cases r; cases ch) (auto simp: send_def send_console_def send_file_def send_webhook_def rt Let_def)
qed

theorem notified_means_paged_witness:
  "let ok = (\<lambda>(t :: unit) (a :: alert) w. (Inr (), w));
       n = \<lparr>nf_console = [], nf_file = [], nf_file_fails = False, nf_webhook = None,
            nf_oncall = \<lparr>oc_audit = Some [], oc_metrics = None, oc_world = (0 :: nat)\<rparr>\<rparr>;
       a = \<lparr>al_level = CRITICAL, al_title = ''t'', al_message = [], al_metadata = []\<rparr> in
   oc_audit (nf_oncall (snd (send (Some (route ok [()] CRITICAL)) True Console a n))) = oc_audit (note_delivered a (nf_oncall n))"
proof -
  let ?ok = "\<lambda>(t :: unit) (a :: alert) w. (Inr (), w)"
  let ?n = "\<lparr>nf_console = [], nf_file = [], nf_file_fails = False, nf_webhook = None,
            nf_oncall = \<lparr>oc_audit = Some [], oc_metrics = None, oc_world = (0 :: nat)\<rparr>\<rparr>"
  let ?a = "\<lparr>al_level = CRITICAL, al_title = ''t'', al_message = [], al_metadata = []\<rparr>"
  have "fst (send (Some (route ?ok [()] CRITICAL)) True Console ?a ?n) = Inr ()"
    by (simp add: send_def send_console_def send_webhook_def route_def Let_def)
  then show ?thesis
    using notified_means_paged [where dv = ?ok and ts = "[()]" and min_severity = CRITICAL and wh = True and ch = Console and
        title = "''t''" and msg = "[]" and meta = "[]" and n = ?n]
    by (cases "send (Some (route ?ok [()] CRITICAL)) True Console ?a ?n") (simp add: Let_def)
qed

subsection \<open>Probes\<close>

record probe_result =
  pr_name :: string
  pr_ok :: bool
  pr_latency_ms :: float64
  pr_detail :: fstring

text \<open>A probe has the name of its function, under which a probe that raises is reported.\<close>

type_synonym 'w probe = "string \<times> ('w \<Rightarrow> probe_result res \<times> 'w)"

record 'w probe_scheduler =
  ps_last :: "(string \<times> probe_result) list"
  ps_oncall :: "'w oncall"

definition page_alert :: "bool \<Rightarrow> probe_result \<Rightarrow> alert" where
  "page_alert resolved r =
     \<lparr>al_level = CRITICAL,
      al_title = (if resolved then ''[RESOLVED] probe recovered: '' @ pr_name r else ''Probe failed: '' @ pr_name r),
      al_message = pr_detail r,
      al_metadata = [(''probe'', MText (pr_name r)), (''latency_ms'', MNumber (py_round (pr_latency_ms r) 1))]\<rparr>"

definition page_name :: "bool \<Rightarrow> string" where
  "page_name resolved = (if resolved then ''probe.recovered'' else ''probe.failed'')"

text \<open>\<open>rt\<close> is the \<open>route\<close> method of the wired router, when one is wired.\<close>

definition page ::
  "(alert \<Rightarrow> 'w oncall \<Rightarrow> bool res \<times> 'w oncall) option \<Rightarrow> bool \<Rightarrow> probe_result \<Rightarrow> 'w oncall \<Rightarrow> unit res \<times> 'w oncall" where
  "page rt resolved r st =
     (let st1 = st\<lparr>oc_audit := audit_rec (page_name resolved) ''probe-scheduler'' (pr_name r) (pr_detail r) (oc_audit st),
                   oc_metrics := counter (page_name resolved) 1 (oc_metrics st)\<rparr> in
      case rt of
        None \<Rightarrow> (Inr (), st1)
      | Some f \<Rightarrow> (case f (page_alert resolved r) st1 of
                    (Inl e, st2) \<Rightarrow> (if e = OnCallDeliveryError then Inr () else Inl e, st2)
                  | (Inr _, st2) \<Rightarrow> (Inr (), st2)))"

text \<open>The edge decides the page; the gauge is set unless paging raised.\<close>

definition edge_page ::
  "(alert \<Rightarrow> 'w oncall \<Rightarrow> bool res \<times> 'w oncall) option \<Rightarrow> probe_result option \<Rightarrow> probe_result \<Rightarrow> 'w oncall \<Rightarrow> unit res \<times> 'w oncall" where
  "edge_page rt previous r oc =
     (if \<not> pr_ok r \<and> (case previous of None \<Rightarrow> True | Some p \<Rightarrow> pr_ok p) then page rt False r oc
      else if pr_ok r \<and> (case previous of None \<Rightarrow> False | Some p \<Rightarrow> \<not> pr_ok p) then page rt True r oc
      else (Inr (), oc))"

definition note_result ::
  "(alert \<Rightarrow> 'w oncall \<Rightarrow> bool res \<times> 'w oncall) option \<Rightarrow> probe_result \<Rightarrow> 'w probe_scheduler \<Rightarrow> unit res \<times> 'w probe_scheduler" where
  "note_result rt r st =
     (let st1 = st\<lparr>ps_last := AList.update (pr_name r) r (ps_last st)\<rparr> in
      case edge_page rt (map_of (ps_last st) (pr_name r)) r (ps_oncall st1) of
        (Inl e, oc) \<Rightarrow> (Inl e, st1\<lparr>ps_oncall := oc\<rparr>)
      | (Inr _, oc) \<Rightarrow>
          (Inr (), st1\<lparr>ps_oncall := oc\<lparr>oc_metrics := counter (''probe.ok.'' @ pr_name r) (if pr_ok r then 1 else 0) (oc_metrics oc)\<rparr>\<rparr>))"

definition probe_outcome :: "string \<Rightarrow> float64 \<Rightarrow> probe_result res \<Rightarrow> probe_result" where
  "probe_outcome name ms r =
     (case r of
        Inr p \<Rightarrow> p
      | Inl e \<Rightarrow> \<lparr>pr_name = name, pr_ok = False, pr_latency_ms = py_round ms 1, pr_detail = [L ''ERROR: '']\<rparr>)"

text \<open>One tick (\<open>ms\<close>: how long a raising probe took).\<close>

fun run_once ::
  "(alert \<Rightarrow> 'w oncall \<Rightarrow> bool res \<times> 'w oncall) option \<Rightarrow> float64 \<Rightarrow> 'w probe list \<Rightarrow> 'w probe_scheduler \<Rightarrow> unit res \<times> 'w probe_scheduler" where
  "run_once rt ms [] st = (Inr (), st)"
| "run_once rt ms ((name, probe) # ps) st =
     (case probe (oc_world (ps_oncall st)) of (r, w) \<Rightarrow>
       (case note_result rt (probe_outcome name ms r) (st\<lparr>ps_oncall := (ps_oncall st)\<lparr>oc_world := w\<rparr>\<rparr>) of
          (Inl e, st1) \<Rightarrow> (Inl e, st1)
        | (Inr _, st1) \<Rightarrow> run_once rt ms ps st1))"

subsection \<open>Pages are edges\<close>

text \<open>The pages of one probe: what the sequence of its verdicts asks for.\<close>

fun edges :: "bool option \<Rightarrow> bool list \<Rightarrow> string list" where
  "edges previous [] = []"
| "edges previous (ok # oks) =
     (if \<not> ok \<and> previous \<noteq> Some False then [''probe.failed'']
      else if ok \<and> previous = Some False then [''probe.recovered''] else []) @ edges (Some ok) oks"

definition pages_of :: "string \<Rightarrow> audit_event list \<Rightarrow> string list" where
  "pages_of name es = map ae_action (filter (\<lambda>e. ae_actor e = ''probe-scheduler'' \<and> ae_resource e = name) es)"

text \<open>The router writes to the trail under its own name only.\<close>

definition audit_text :: "'w oncall \<Rightarrow> audit_event list" where
  "audit_text oc = (case oc_audit oc of None \<Rightarrow> [] | Some es \<Rightarrow> es)"

lemma route_writes_apart:
  "pages_of name (audit_text (snd (route dv ts min_severity a oc))) = pages_of name (audit_text oc) \<and>
   (oc_audit (snd (route dv ts min_severity a oc)) = None \<longleftrightarrow> oc_audit oc = None)"
  by (cases "oc_audit oc")
    (auto simp: route_def note_delivered_def note_failed_def audit_text_def pages_of_def split: prod.splits sum.splits bool.splits)

lemma page_writes_one:
  assumes "oc_audit oc \<noteq> None" and "page (Some (route dv ts min_severity)) resolved r oc = (q, oc')"
  shows "pages_of name (audit_text oc') = pages_of name (audit_text oc) @ (if name = pr_name r then [page_name resolved] else []) \<and>
    oc_audit oc' \<noteq> None"
proof -
  let ?oc = "oc\<lparr>oc_audit := audit_rec (page_name resolved) ''probe-scheduler'' (pr_name r) (pr_detail r) (oc_audit oc),
                oc_metrics := counter (page_name resolved) 1 (oc_metrics oc)\<rparr>"
  have "pages_of name (audit_text ?oc) = pages_of name (audit_text oc) @ (if name = pr_name r then [page_name resolved] else [])"
    using assms(1) by (auto simp: audit_text_def pages_of_def)
  moreover have "oc' = snd (route dv ts min_severity (page_alert resolved r) ?oc)"
    using assms(2) by (auto simp: page_def Let_def split: prod.splits sum.splits)
  ultimately show ?thesis
    using assms(1) route_writes_apart [of name dv ts min_severity "page_alert resolved r" ?oc] by auto
qed

definition verdict_of :: "string \<Rightarrow> 'w probe_scheduler \<Rightarrow> bool option" where
  "verdict_of name st = map_option pr_ok (map_of (ps_last st) name)"

lemma edge_page_cases:
  obtains (same) "edge_page rt p r oc = (Inr (), oc)" and "edges (map_option pr_ok p) [pr_ok r] = []"
  | (edge) resolved where "edge_page rt p r oc = page rt resolved r oc"
      and "edges (map_option pr_ok p) [pr_ok r] = [page_name resolved]"
  by (cases "pr_ok r"; cases p; cases "map_option pr_ok p = Some True") (auto simp: edge_page_def page_name_def)

lemma note_result_effect:
  assumes "oc_audit (ps_oncall st) \<noteq> None" and "note_result (Some (route dv ts min_severity)) r st = (q, st')"
  shows "pages_of name (audit_text (ps_oncall st')) = pages_of name (audit_text (ps_oncall st)) @
      (if name = pr_name r then edges (verdict_of name st) [pr_ok r] else []) \<and>
    oc_audit (ps_oncall st') \<noteq> None \<and>
    verdict_of name st' = (if name = pr_name r then Some (pr_ok r) else verdict_of name st)"
proof -
  obtain x oc where paged: "edge_page (Some (route dv ts min_severity)) (map_of (ps_last st) (pr_name r)) r (ps_oncall st) = (x, oc)"
    by fastforce
  have st': "audit_text (ps_oncall st') = audit_text oc" "oc_audit (ps_oncall st') = oc_audit oc"
    "ps_last st' = AList.update (pr_name r) r (ps_last st)"
    using assms(2) by (cases x; auto simp: note_result_def paged audit_text_def)+
  have "pages_of name (audit_text oc) = pages_of name (audit_text (ps_oncall st)) @
      (if name = pr_name r then edges (verdict_of name st) [pr_ok r] else []) \<and> oc_audit oc \<noteq> None"
  proof (cases rule: edge_page_cases [of "Some (route dv ts min_severity)" "map_of (ps_last st) (pr_name r)" r "ps_oncall st"])
    case same
    then show ?thesis using paged assms(1) by (auto simp: verdict_of_def)
  next
    case (edge resolved)
    then show ?thesis
      using page_writes_one [OF assms(1), of dv ts min_severity resolved r x oc name] paged by (auto simp: verdict_of_def)
  qed
  then show ?thesis using st' by (simp add: verdict_of_def)
qed

definition note_all ::
  "(alert \<Rightarrow> 'w oncall \<Rightarrow> bool res \<times> 'w oncall) option \<Rightarrow> probe_result list \<Rightarrow> 'w probe_scheduler \<Rightarrow> 'w probe_scheduler" where
  "note_all rt rs st = foldl (\<lambda>st r. snd (note_result rt r st)) st rs"

lemma edges_append: "edges p (xs @ ys) = edges p xs @ edges (if xs = [] then p else Some (last xs)) ys"
  by (induction xs arbitrary: p) auto

lemma note_all_effect:
  assumes "oc_audit (ps_oncall st) \<noteq> None"
  shows "pages_of name (audit_text (ps_oncall (note_all (Some (route dv ts min_severity)) rs st))) =
      pages_of name (audit_text (ps_oncall st)) @ edges (verdict_of name st) (map pr_ok (filter (\<lambda>r. pr_name r = name) rs))"
  using assms
proof (induction rs arbitrary: st)
  case Nil
  then show ?case by (simp add: note_all_def)
next
  case (Cons r rs)
  obtain q st1 where run: "note_result (Some (route dv ts min_severity)) r st = (q, st1)" by fastforce
  have "note_all (Some (route dv ts min_severity)) (r # rs) st = note_all (Some (route dv ts min_severity)) rs st1"
    by (simp add: note_all_def run)
  then show ?case
    using Cons.IH [of st1] note_result_effect [OF Cons.prems run, of name]
    by (cases "name = pr_name r") (auto simp: eq_commute)
qed

text \<open>
  C25. Pages are edges: whatever results the ticks bring, in whatever order the probes run and
  whether or not a page could be delivered, the pages recorded for a probe are one for each
  change of its verdict, starting with a failure.  So a dependency that stays down pages
  once, and a page that no transport delivered is not repeated.
\<close>

theorem pages_are_edges:
  "pages_of name (audit_text (ps_oncall (note_all (Some (route dv ts min_severity)) rs
       \<lparr>ps_last = [], ps_oncall = \<lparr>oc_audit = Some [], oc_metrics = m, oc_world = w\<rparr>\<rparr>))) =
   edges None (map pr_ok (filter (\<lambda>r. pr_name r = name) rs))"
  by (subst note_all_effect) (simp_all add: audit_text_def pages_of_def verdict_of_def)

text \<open>
  A recovery opens a second incident: its page carries the trigger action of a new incident,
  under a deduplication key other than the one of the failure it resolves.
\<close>

theorem recovery_opens_an_incident:
  "\<exists>k1 k2 a1 a2.
     request_of (PagerDuty key source) (page_alert False r) = PagerDutyRequest key ''trigger'' k1 source CRITICAL a1 \<and>
     request_of (PagerDuty key source) (page_alert True r') = PagerDutyRequest key ''trigger'' k2 source CRITICAL a2 \<and>
     (pr_name r = pr_name r' \<longrightarrow> k1 \<noteq> k2)"
  by (simp add: page_alert_def dedup_key_def)

theorem recovery_opens_an_incident_witness:
  "let r = \<lparr>pr_name = ''broker'', pr_ok = False, pr_latency_ms = 0, pr_detail = []\<rparr> in
   \<exists>k1 k2. k1 \<noteq> k2 \<and> (\<exists>a. request_of (PagerDuty ''k'' ''s'') (page_alert False r) = PagerDutyRequest ''k'' ''trigger'' k1 ''s'' CRITICAL a) \<and>
     (\<exists>a. request_of (PagerDuty ''k'' ''s'') (page_alert True r) = PagerDutyRequest ''k'' ''trigger'' k2 ''s'' CRITICAL a)"
proof -
  let ?r = "\<lparr>pr_name = ''broker'', pr_ok = False, pr_latency_ms = 0, pr_detail = []\<rparr>"
  show ?thesis
    using recovery_opens_an_incident [where key = "''k''" and source = "''s''" and r = ?r and r' = ?r]
    unfolding Let_def by blast
qed

subsection \<open>The probes\<close>

text \<open>Each probe turns every exception into a failed result.  The latencies it measures are
  arguments.\<close>

definition probe_report :: "string \<Rightarrow> bool \<Rightarrow> float64 \<Rightarrow> fstring \<Rightarrow> probe_result" where
  "probe_report name ok ms detail = \<lparr>pr_name = name, pr_ok = ok, pr_latency_ms = ms, pr_detail = detail\<rparr>"

definition health_probe :: "float64 \<Rightarrow> int res \<Rightarrow> float64 \<Rightarrow> probe_result" where
  "health_probe budget_ms response ms =
     (case response of
        Inr status \<Rightarrow>
          let ok = (status = 200 \<and> ms < budget_ms);
              detail = [L ''status='', Z status, L '' in '', FX 1 ms, L ''ms''] in
          probe_report ''health'' ok (py_round ms 1)
            (if ok then detail
             else [L ''BAD: ''] @ detail @ (if budget_ms \<le> ms then [L '' (over '', FX 0 budget_ms, L ''ms budget)''] else []))
      | Inl e \<Rightarrow> probe_report ''health'' False (py_round ms 1) [L ''ERROR: ''])"

definition vault_probe :: "float64 \<Rightarrow> string \<Rightarrow> string option res \<Rightarrow> float64 \<Rightarrow> probe_result" where
  "vault_probe budget_ms key read ms =
     (case read of
        Inr v \<Rightarrow>
          let detail = [L ''read in '', FX 1 ms, L ''ms''] in
          probe_report ''vault'' (v \<noteq> None \<and> ms < budget_ms) (py_round ms 1)
            (if v = None then [L ''BAD: read returned no value for '', L key]
             else if budget_ms \<le> ms then [L ''BAD: ''] @ detail @ [L '' (over '', FX 0 budget_ms, L ''ms budget)''] else detail)
      | Inl e \<Rightarrow> probe_report ''vault'' False (py_round ms 1) [L ''ERROR: ''])"

text \<open>The loop of \<open>rate_limit_probe\<close>: at most \<open>left\<close> checks, at the times of the clock.\<close>

fun hammer :: "(nat \<Rightarrow> float64) \<Rightarrow> string \<Rightarrow> nat \<Rightarrow> nat \<Rightarrow> rate_limiter \<Rightarrow> nat \<times> bool" where
  "hammer clock key 0 accepted l = (accepted, False)"
| "hammer clock key (Suc left) accepted l =
     (case rl_check (clock accepted) key l of
        (True, l1) \<Rightarrow> hammer clock key left (accepted + 1) l1
      | (False, l1) \<Rightarrow> (accepted, True))"

definition rate_limit_probe :: "nat \<Rightarrow> (nat \<Rightarrow> float64) \<Rightarrow> uuid \<Rightarrow> rate_limiter \<Rightarrow> float64 \<Rightarrow> probe_result" where
  "rate_limit_probe budget clock fresh l ms =
     (case hammer clock (''probe:'' @ fresh) (budget + 2) 0 l of (accepted, refused) \<Rightarrow>
        if refused \<and> int budget - 1 \<le> int accepted \<and> accepted \<le> budget
        then probe_report ''rate_limit'' True (py_round ms 1)
          [L ''budget '', Z (int accepted), L ''/'', Z (int budget), L '' enforced in '', FX 1 ms, L ''ms'']
        else probe_report ''rate_limit'' False (py_round ms 1)
          (if \<not> refused then [L ''BAD: never refused within '', Z (int budget + 1), L '' requests'']
           else [L ''BAD: refused at '', Z (int accepted), L '' (budget '', Z (int budget), L '')'']))"

definition broker_health_probe :: "'s broker \<Rightarrow> bool \<Rightarrow> uuid list \<Rightarrow> uuid \<Rightarrow> float64 \<Rightarrow> float64 \<Rightarrow> env \<Rightarrow> 's \<Rightarrow> probe_result \<times> 's" where
  "broker_health_probe b live market_ids fresh place_ms total_ms env s =
     (let market = (case market_ids of m # _ \<Rightarrow> m | [] \<Rightarrow> fresh);
          failed = probe_report ''broker'' False (- 1) [L ''ERROR: ''];
          timed = (\<lambda>detail. if total_ms < Fin 1000 then probe_report ''broker'' True (py_round total_ms 1) detail
                           else probe_report ''broker'' False (py_round total_ms 1) (L ''SLOW: '' # detail)) in
      if live
      then (case b_balance b env s of
              (Inl e, s1) \<Rightarrow> (failed, s1)
            | (Inr balance, s1) \<Rightarrow>
                (case b_open_orders b env s1 of
                   (Inl e, s2) \<Rightarrow> (failed, s2)
                 | (Inr _, s2) \<Rightarrow> (timed [L ''balance='', FX 2 balance, L '' total='', FX 1 total_ms, L ''ms (live read-only)''], s2)))
      else (case b_limit b market ''buy'' 1 (lit 0.01) None env s of
              (Inl e, s1) \<Rightarrow> (failed, s1)
            | (Inr placed, s1) \<Rightarrow>
                if \<not> fr_filled placed \<and> fr_status placed \<noteq> ''pending''
                then (probe_report ''broker'' False (py_round place_ms 1) [L ''order rejected by broker: '', L (fr_status placed)], s1)
                else let detail = [L ''place='', FX 1 place_ms, L ''ms total='', FX 1 total_ms, L ''ms''] in
                  if fr_order_id placed = [] then (timed detail, s1)
                  else (case b_cancel b (fr_order_id placed) env s1 of
                          (Inl e, s2) \<Rightarrow> (failed, s2)
                        | (Inr _, s2) \<Rightarrow> (timed detail, s2))))"

lemma hammer_fresh:
  assumes "dict_get (rl_buckets l) key [] = map clock [0..<i]" and "rl_max_requests l = int n" and "i \<le> n"
    and "\<forall>j k. clock k - rl_window_seconds l < clock j"
  shows "hammer clock key left i l = (if left \<le> n - i then (i + left, False) else (n, True))"
  using assms
proof (induction left arbitrary: i l)
  case 0
  then show ?case by simp
next
  case (Suc left)
  have recent: "rl_recent (clock i) key l = map clock [0..<i]"
    using Suc.prems(1,4) by (auto simp: rl_recent_def filter_id_conv)
  show ?case
  proof (cases "i < n")
    case True
    let ?l = "rl_set key (map clock [0..<i] @ [clock i]) l"
    have "rl_check (clock i) key l = (True, ?l)"
      using True Suc.prems(2) by (simp add: rl_check_def recent)
    moreover have "hammer clock key left (i + 1) ?l = (if left \<le> n - (i + 1) then (i + 1 + left, False) else (n, True))"
      using Suc.prems True by (intro Suc.IH) (simp_all add: rl_set_def dict_get_def)
    ultimately show ?thesis using True by auto
  next
    case False
    then have "\<not> fst (rl_check (clock i) key l)" and "i = n"
      using Suc.prems(2,3) recent by (simp_all add: rl_check_def)
    then show ?thesis by (auto split: prod.splits bool.splits)
  qed
qed

text \<open>
  The rate-limit probe judges the limiter it is handed, which the factory makes for it alone:
  it passes exactly when that limiter's configured maximum is the probe's own budget or one
  less, so a deployment configured otherwise pages for ever.
\<close>

theorem rate_limit_probe_judges_the_setting:
  assumes "\<forall>j k. clock k - window < clock j" and "1 \<le> budget"
  shows "pr_ok (rate_limit_probe budget clock fresh (new_rate_limiter (int n) window) ms) \<longleftrightarrow> n = budget \<or> n + 1 = budget"
proof -
  have "hammer clock (''probe:'' @ fresh) (budget + 2) 0 (new_rate_limiter (int n) window) =
      (if budget + 2 \<le> n then (budget + 2, False) else (n, True))"
    using hammer_fresh [of "new_rate_limiter (int n) window" "''probe:'' @ fresh" clock 0 n "budget + 2"] assms(1)
    by (simp add: new_rate_limiter_def dict_get_def)
  then show ?thesis using assms(2) by (auto simp: rate_limit_probe_def probe_report_def)
qed

theorem rate_limit_probe_judges_the_setting_witness:
  "\<not> pr_ok (rate_limit_probe 100 (\<lambda>_. 0) ''u'' (new_rate_limiter 60 (Fin 60)) 0)"
proof -
  have "\<forall>j k. (\<lambda>_ :: nat. 0 :: float64) k - Fin 60 < (\<lambda>_. 0) j" by (simp add: zero_eq_Fin float_eval)
  from rate_limit_probe_judges_the_setting [OF this, of 100 "''u''" 60 0] show ?thesis by simp
qed

text \<open>The probe of the paper venue leaves its books as they were: only the order counter moves.\<close>

lemma delete_fresh: "k \<notin> set (dict_keys d) \<Longrightarrow> AList.delete k (AList.update k v d) = d"
  by (induction d) auto

theorem paper_probe_leaves_no_trace:
  assumes "paper_ok pb"
  shows "broker_health_probe paper_adapter False ms fresh place_ms total_ms env pb =
    (if total_ms < Fin 1000
     then probe_report ''broker'' True (py_round total_ms 1) [L ''place='', FX 1 place_ms, L ''ms total='', FX 1 total_ms, L ''ms'']
     else probe_report ''broker'' False (py_round total_ms 1)
       [L ''SLOW: '', L ''place='', FX 1 place_ms, L ''ms total='', FX 1 total_ms, L ''ms''],
     pb\<lparr>pb_order_seq := pb_order_seq pb + 1\<rparr>)"
proof -
  have new: "paper_order_id (pb_order_seq pb + 1) \<notin> set (dict_keys (pb_open_orders pb))"
    using fresh_order_id [OF assms] by (simp add: map_of_eq_None_iff)
  have "paper_order_id (pb_order_seq pb + 1) \<noteq> []" by (simp add: paper_order_id_def)
  then show ?thesis
    using new
    by (simp add: broker_health_probe_def paper_adapter_def paper_limit_def next_order_id_ok(1) [OF assms] rest_order_def
        record_order_def paper_result_def paper_cancel_def delete_fresh Let_def)
qed

theorem paper_probe_leaves_no_trace_witness:
  "snd (broker_health_probe paper_adapter False [''m''] ''u'' (Fin 1) (Fin 2) sample_env (new_paper_broker (Fin 1000))) =
   (new_paper_broker (Fin 1000))\<lparr>pb_order_seq := 1\<rparr>"
proof -
  have "paper_ok (new_paper_broker (Fin 1000))" by (simp add: paper_ok_def new_paper_broker_def)
  from paper_probe_leaves_no_trace [OF this, of "[''m'']" "''u''" "Fin 1" "Fin 2" sample_env]
  show ?thesis by (simp add: new_paper_broker_def)
qed

end
