(* ===== verification/Entities.thy ===== *)
theory Entities
  imports PyFloat
begin

text \<open>
  \<open>domain/entities/{trade,position,signal,value_objects,candle}.py\<close>.

  A dataclass is a record whose methods take the clock reading as an argument where the
  code calls \<open>datetime.now\<close>; a method that mutates \<open>self\<close> returns the new record, a
  method that may raise returns a sum.  The lifecycle lemmas say that the transition
  table is acyclic: every accepted operation raises the status strictly in \<open>status_rank\<close>,
  so a trade is open exactly when a transition is left and no run accepts more than four.
\<close>

subsection \<open>Trades\<close>

datatype trade_side = BUY | SELL

datatype trade_status =
    PENDING | SUBMITTED | ACKNOWLEDGED | PARTIALLY_FILLED | FILLED | CANCELLED | REJECTED | EXPIRED

fun status_value :: "trade_status \<Rightarrow> string" where
  "status_value PENDING = ''pending''"
| "status_value SUBMITTED = ''submitted''"
| "status_value ACKNOWLEDGED = ''acknowledged''"
| "status_value PARTIALLY_FILLED = ''partially_filled''"
| "status_value FILLED = ''filled''"
| "status_value CANCELLED = ''cancelled''"
| "status_value REJECTED = ''rejected''"
| "status_value EXPIRED = ''expired''"

fun valid_transitions :: "trade_status \<Rightarrow> trade_status list" where
  "valid_transitions PENDING = [SUBMITTED, CANCELLED, REJECTED]"
| "valid_transitions SUBMITTED = [ACKNOWLEDGED, PARTIALLY_FILLED, FILLED, CANCELLED, REJECTED]"
| "valid_transitions ACKNOWLEDGED = [PARTIALLY_FILLED, FILLED, CANCELLED, REJECTED, EXPIRED]"
| "valid_transitions PARTIALLY_FILLED = [FILLED, CANCELLED, REJECTED, EXPIRED]"
| "valid_transitions FILLED = []"
| "valid_transitions CANCELLED = []"
| "valid_transitions REJECTED = []"
| "valid_transitions EXPIRED = []"

definition OPEN_TRADE_STATUSES :: "trade_status list" where
  "OPEN_TRADE_STATUSES = [PENDING, SUBMITTED, ACKNOWLEDGED, PARTIALLY_FILLED]"

definition guard_transition :: "trade_status \<Rightarrow> trade_status \<Rightarrow> unit res" where
  "guard_transition current target =
     (if target \<notin> set (valid_transitions current)
      then Inl (InvalidTradeTransitionError (status_value current) (status_value target))
      else Inr ())"

record trade =
  t_signal_id :: uuid
  t_market_id :: uuid
  t_side :: trade_side
  t_quantity :: float64
  t_price :: float64
  t_status :: trade_status
  t_filled_quantity :: float64
  t_filled_price :: float64
  t_filled_at :: "datetime option"
  t_external_order_id :: "string option"
  t_id :: uuid
  t_created_at :: datetime
  t_updated_at :: datetime

text \<open>The constructor call \<open>Trade(signal_id=..., market_id=..., side=..., quantity=..., price=...)\<close>.\<close>

definition new_trade :: "uuid \<Rightarrow> datetime \<Rightarrow> uuid \<Rightarrow> uuid \<Rightarrow> trade_side \<Rightarrow> float64 \<Rightarrow> float64 \<Rightarrow> trade" where
  "new_trade fresh now signal market sd qty price =
     \<lparr>t_signal_id = signal, t_market_id = market, t_side = sd, t_quantity = qty,
      t_price = price, t_status = PENDING, t_filled_quantity = 0, t_filled_price = 0,
      t_filled_at = None, t_external_order_id = None, t_id = fresh,
      t_created_at = now, t_updated_at = now\<rparr>"

definition submit :: "datetime \<Rightarrow> string \<Rightarrow> trade \<Rightarrow> trade res" where
  "submit now oid t = rbind (guard_transition (t_status t) SUBMITTED) (\<lambda>_.
     Inr (t\<lparr>t_status := SUBMITTED, t_external_order_id := Some oid, t_updated_at := now\<rparr>))"

definition partial_fill :: "datetime \<Rightarrow> float64 \<Rightarrow> float64 \<Rightarrow> trade \<Rightarrow> trade res" where
  "partial_fill now qty price t = rbind (guard_transition (t_status t) PARTIALLY_FILLED) (\<lambda>_.
     Inr (t\<lparr>t_status := PARTIALLY_FILLED, t_filled_quantity := qty, t_filled_price := price,
            t_updated_at := now\<rparr>))"

definition acknowledge :: "datetime \<Rightarrow> trade \<Rightarrow> trade res" where
  "acknowledge now t = rbind (guard_transition (t_status t) ACKNOWLEDGED) (\<lambda>_.
     Inr (t\<lparr>t_status := ACKNOWLEDGED, t_updated_at := now\<rparr>))"

definition fill :: "datetime \<Rightarrow> float64 \<Rightarrow> float64 \<Rightarrow> trade \<Rightarrow> trade res" where
  "fill now qty price t = rbind (guard_transition (t_status t) FILLED) (\<lambda>_.
     Inr (t\<lparr>t_status := FILLED, t_filled_quantity := qty, t_filled_price := price,
            t_filled_at := Some now, t_updated_at := now\<rparr>))"

definition cancel :: "datetime \<Rightarrow> trade \<Rightarrow> trade res" where
  "cancel now t = rbind (guard_transition (t_status t) CANCELLED) (\<lambda>_.
     Inr (t\<lparr>t_status := CANCELLED, t_updated_at := now\<rparr>))"

definition reject :: "datetime \<Rightarrow> trade \<Rightarrow> trade res" where
  "reject now t = rbind (guard_transition (t_status t) REJECTED) (\<lambda>_.
     Inr (t\<lparr>t_status := REJECTED, t_updated_at := now\<rparr>))"

definition expire :: "datetime \<Rightarrow> trade \<Rightarrow> trade res" where
  "expire now t = rbind (guard_transition (t_status t) EXPIRED) (\<lambda>_.
     Inr (t\<lparr>t_status := EXPIRED, t_updated_at := now\<rparr>))"

lemmas trade_ops = submit_def partial_fill_def acknowledge_def fill_def cancel_def reject_def
  expire_def

lemma guard_transition_Inr [simp]:
  "guard_transition s s' = Inr u \<longleftrightarrow> s' \<in> set (valid_transitions s)"
  by (simp add: guard_transition_def)

lemma guard_transition_Inl:
  "guard_transition s s' = Inl e \<longleftrightarrow>
     s' \<notin> set (valid_transitions s) \<and> e = InvalidTradeTransitionError (status_value s) (status_value s')"
  by (auto simp: guard_transition_def)

lemma guarded_Inr [guard_simps]:
  "rbind (guard_transition s s') (\<lambda>_. Inr x) = Inr y \<longleftrightarrow> s' \<in> set (valid_transitions s) \<and> x = y"
  by (simp add: guard_transition_def)

subsection \<open>Positions\<close>

record position =
  p_market_id :: uuid
  p_quantity :: float64
  p_entry_price :: float64
  p_current_price :: float64
  p_pnl :: float64
  p_realized_pnl :: float64
  p_id :: uuid
  p_created_at :: datetime
  p_updated_at :: datetime

definition update_price :: "datetime \<Rightarrow> float64 \<Rightarrow> position \<Rightarrow> position" where
  "update_price now price p =
     p\<lparr>p_current_price := price, p_pnl := p_quantity p * (price - p_entry_price p),
       p_updated_at := now\<rparr>"

definition close_pos :: "datetime \<Rightarrow> float64 \<Rightarrow> position \<Rightarrow> position \<times> float64" where
  "close_pos now close_price p =
     (let realized = p_quantity p * (close_price - p_entry_price p) in
      (p\<lparr>p_realized_pnl := p_realized_pnl p + realized, p_quantity := 0,
         p_current_price := close_price, p_pnl := 0, p_updated_at := now\<rparr>, realized))"

subsection \<open>Signals and candles\<close>

datatype signal_direction = LONG | SHORT | NEUTRAL

record signal =
  s_market_id :: uuid
  s_strategy_id :: uuid
  s_direction :: signal_direction
  s_confidence :: float64
  s_generated_at :: datetime
  s_expires_at :: datetime
  s_id :: uuid

text \<open>\<open>__post_init__\<close>: the chained comparison is false on \<open>NaN\<close>, which is refused.\<close>

definition signal_post_init :: "signal \<Rightarrow> signal res" where
  "signal_post_init s =
     (if \<not> (0 \<le> s_confidence s \<and> s_confidence s \<le> 1) then Inl ValueError
      else if s_expires_at s \<le> s_generated_at s then Inl ValueError else Inr s)"

lemma signal_post_init_confidence:
  "signal_post_init s = Inr s' \<Longrightarrow>
     s' = s \<and> isfinite (s_confidence s) \<and> 0 \<le> s_confidence s \<and> s_confidence s \<le> 1"
  by (cases "s_confidence s") (auto simp: signal_post_init_def zero_eq_Fin one_eq_Fin split: if_splits)

subsection \<open>The lifecycle of a trade\<close>

datatype trade_op =
    Submit string | PartialFill float64 float64 | Acknowledge | Fill float64 float64
  | Cancel | Reject | Expire

fun apply_op :: "datetime \<Rightarrow> trade_op \<Rightarrow> trade \<Rightarrow> trade res" where
  "apply_op now (Submit oid) t = submit now oid t"
| "apply_op now (PartialFill q p) t = partial_fill now q p t"
| "apply_op now Acknowledge t = acknowledge now t"
| "apply_op now (Fill q p) t = fill now q p t"
| "apply_op now Cancel t = cancel now t"
| "apply_op now Reject t = reject now t"
| "apply_op now Expire t = expire now t"

text \<open>
  A caller that drives a trade through a list of operations and survives the refusals;
  the second component counts the operations that were accepted.
\<close>

fun run_ops :: "(datetime \<times> trade_op) list \<Rightarrow> trade \<Rightarrow> trade \<times> nat" where
  "run_ops [] t = (t, 0)"
| "run_ops ((now, x) # xs) t =
     (case apply_op now x t of
        Inl _ \<Rightarrow> run_ops xs t
      | Inr t' \<Rightarrow> (let (u, n) = run_ops xs t' in (u, Suc n)))"

fun status_rank :: "trade_status \<Rightarrow> nat" where
  "status_rank PENDING = 0"
| "status_rank SUBMITTED = 1"
| "status_rank ACKNOWLEDGED = 2"
| "status_rank PARTIALLY_FILLED = 3"
| "status_rank _ = 4"

lemma status_rank_le: "status_rank s \<le> 4"
  by (cases s) simp_all

lemma transition_raises_rank: "s' \<in> set (valid_transitions s) \<Longrightarrow> status_rank s < status_rank s'"
  by (cases s) auto

lemma open_iff_transition_left:
  "s \<in> set OPEN_TRADE_STATUSES \<longleftrightarrow> valid_transitions s \<noteq> []"
  by (cases s) (simp_all add: OPEN_TRADE_STATUSES_def)

lemma apply_op_transition:
  "apply_op now x t = Inr t' \<Longrightarrow> t_status t' \<in> set (valid_transitions (t_status t))"
  by (cases x) (auto simp: trade_ops guard_simps)

lemma apply_op_frame [frame_simps]:
  assumes "apply_op now x t = Inr t'"
  shows "t_id t' = t_id t" and "t_market_id t' = t_market_id t" and "t_side t' = t_side t"
    and "t_quantity t' = t_quantity t" and "t_signal_id t' = t_signal_id t"
    and "t_created_at t' = t_created_at t" and "t_price t' = t_price t"
  using assms by (cases x; auto simp: trade_ops guard_simps)+

lemma apply_op_terminal:
  "t_status t \<notin> set OPEN_TRADE_STATUSES \<Longrightarrow> \<exists>e. apply_op now x t = Inl e"
  using apply_op_transition [of now x t] open_iff_transition_left [of "t_status t"]
  by (cases "apply_op now x t") auto

lemma run_ops_rank: "status_rank (t_status t) + snd (run_ops xs t) \<le> status_rank (t_status (fst (run_ops xs t)))"
proof (induction xs arbitrary: t)
  case Nil
  then show ?case by simp
next
  case (Cons x xs)
  obtain now y where x: "x = (now, y)" by (cases x)
  show ?case
  proof (cases "apply_op now y t")
    case (Inl e)
    with Cons.IH [of t] show ?thesis by (simp add: x)
  next
    case (Inr t')
    then have "status_rank (t_status t) < status_rank (t_status t')"
      by (intro transition_raises_rank apply_op_transition)
    with Cons.IH [of t'] Inr show ?thesis by (cases "run_ops xs t'") (simp add: x)
  qed
qed

lemma run_ops_terminal:
  "t_status t \<notin> set OPEN_TRADE_STATUSES \<Longrightarrow> run_ops xs t = (t, 0)"
proof (induction xs)
  case Nil
  then show ?case by simp
next
  case (Cons x xs)
  obtain now y where "x = (now, y)" by (cases x)
  with Cons apply_op_terminal [OF Cons.prems, of now y] show ?case by auto
qed

text \<open>
  C34. The lifecycle is a short one-way street: however a trade is driven, at most four
  operations are ever accepted, and once it has left the open statuses nothing changes it
  again, so it is filled at most once.
\<close>

theorem trade_lifecycle:
  "snd (run_ops xs t) \<le> 4 \<and>
   (fst (run_ops xs t) = t \<or> t_status t \<in> set OPEN_TRADE_STATUSES) \<and>
   (let u = fst (run_ops xs t) in
      t_status u \<in> set OPEN_TRADE_STATUSES \<or> run_ops ys u = (u, 0))"
  using run_ops_rank [of t xs] status_rank_le [of "t_status (fst (run_ops xs t))"]
    run_ops_terminal [of t xs] run_ops_terminal [of "fst (run_ops xs t)" ys]
  by (auto simp: Let_def)

subsection \<open>Well-formed trades\<close>

text \<open>
  What the fields of a trade say about its status: it has a fill time exactly when it is
  filled, and that is the time of its last change; before any fill both fill amounts are
  zero; only a trade that was never submitted has no broker order id.
\<close>

definition well_formed :: "trade \<Rightarrow> bool" where
  "well_formed t =
     ((t_filled_at t = (if t_status t = FILLED then Some (t_updated_at t) else None)) \<and>
      (t_status t \<in> {PENDING, SUBMITTED, ACKNOWLEDGED} \<longrightarrow> t_filled_quantity t = 0 \<and> t_filled_price t = 0) \<and>
      (t_external_order_id t = None \<longrightarrow> t_status t \<in> {PENDING, CANCELLED, REJECTED}) \<and>
      (t_status t = PENDING \<longrightarrow> t_external_order_id t = None))"

lemma apply_op_well_formed: "apply_op now x t = Inr t' \<Longrightarrow> well_formed t \<Longrightarrow> well_formed t'"
  by (cases x; cases "t_status t") (auto simp: trade_ops guard_simps well_formed_def)

lemma run_ops_well_formed: "well_formed t \<Longrightarrow> well_formed (fst (run_ops xs t))"
proof (induction xs arbitrary: t)
  case Nil
  then show ?case by simp
next
  case (Cons x xs)
  obtain now y where x: "x = (now, y)" by (cases x)
  show ?case
  proof (cases "apply_op now y t")
    case (Inl e)
    with Cons show ?thesis by (simp add: x)
  next
    case (Inr t')
    with Cons.IH [of t'] Cons.prems apply_op_well_formed [OF Inr] show ?thesis
      by (simp add: x split_def Let_def)
  qed
qed

lemma run_ops_frame:
  "t_id (fst (run_ops xs t)) = t_id t \<and> t_market_id (fst (run_ops xs t)) = t_market_id t \<and>
   t_side (fst (run_ops xs t)) = t_side t \<and> t_quantity (fst (run_ops xs t)) = t_quantity t \<and>
   t_price (fst (run_ops xs t)) = t_price t"
proof (induction xs arbitrary: t)
  case Nil
  then show ?case by simp
next
  case (Cons x xs)
  obtain now y where x: "x = (now, y)" by (cases x)
  from Cons show ?case
    by (auto simp: x split_def Let_def apply_op_frame split: sum.splits)
qed

text \<open>
  C35. Whatever sequence of operations a new trade is driven through, accepted or refused, it
  stays well formed and keeps the identity, market, side, quantity and price it was ordered
  with.
\<close>

theorem trade_stays_well_formed:
  "let u = fst (run_ops xs (new_trade fresh now signal market sd qty price)) in
     well_formed u \<and> t_id u = fresh \<and> t_market_id u = market \<and> t_side u = sd \<and>
     t_quantity u = qty \<and> t_price u = price"
proof -
  let ?t = "new_trade fresh now signal market sd qty price"
  have "well_formed ?t" by (simp add: well_formed_def new_trade_def)
  then show ?thesis
    using run_ops_well_formed [of ?t xs] run_ops_frame [of xs ?t] by (simp add: Let_def new_trade_def)
qed

end
