(* ===== verification/Reconciliation.thy ===== *)
theory Reconciliation
  imports BrokerPort Entities
begin

text \<open>
  \<open>OrderReconciliationService\<close> of \<open>domain/services/reconciliation_service.py\<close> and
  \<open>domain/services/broker_state_reconciliation_service.py\<close>.

  A local trade object that the service mutates is a place in the caller's list, so the
  new list is returned.  A raw broker or local entry is a dictionary of which the code
  reads a few keys, each present or not.  The order in which a Python set is walked only
  decides the order of the reported mismatches; the model walks the broker's keys first.
\<close>

subsection \<open>Orders against the broker's\<close>

record recon_result =
  rc_matched :: int
  rc_reconciled :: int
  rc_orphaned_local :: int
  rc_orphaned_broker :: int
  rc_errors :: "fstring list"

abbreviation no_recon :: recon_result where
  "no_recon \<equiv> \<lparr>rc_matched = 0, rc_reconciled = 0, rc_orphaned_local = 0, rc_orphaned_broker = 0, rc_errors = []\<rparr>"

record order_state =
  ost_order_id :: string
  ost_status :: string
  ost_filled_qty :: float64
  ost_filled_price :: float64
  ost_remaining_qty :: float64
  ost_symbol :: string

record position_state =
  pst_symbol :: string
  pst_quantity :: float64
  pst_market_value :: float64
  pst_entry_price :: float64

text \<open>\<open>{o.order_id: o for o in orders}\<close> and \<open>{t.external_order_id: t for t in trades if ...}\<close>;
  the second maps to the place of the trade.\<close>

definition index_broker :: "order_state list \<Rightarrow> (string \<times> order_state) list" where
  "index_broker orders = foldl (\<lambda>d ord. AList.update (ost_order_id ord) ord d) [] orders"

definition index_local :: "trade list \<Rightarrow> (string \<times> nat) list" where
  "index_local trades =
     foldl (\<lambda>d (n, t). (case t_external_order_id t of
              Some i \<Rightarrow> if i \<noteq> [] then AList.update i n d else d | None \<Rightarrow> d)) []
       (enumerate 0 trades)"

definition reconcile_one ::
  "datetime \<Rightarrow> (string \<times> order_state) list \<Rightarrow> recon_result \<times> trade list \<Rightarrow> string \<times> nat \<Rightarrow>
   (recon_result \<times> trade list) res" where
  "reconcile_one now broker_by_id st item =
     (case st of (result, trades) \<Rightarrow> case item of (ext_id, n) \<Rightarrow>
        (let t = trades ! n in
         case map_of broker_by_id ext_id of
           None \<Rightarrow>
             (let r1 = result\<lparr>rc_orphaned_local := rc_orphaned_local result + 1\<rparr> in
              if t_status t = SUBMITTED \<or> t_status t = PENDING
              then rbind (cancel now t) (\<lambda>t'. Inr (r1\<lparr>rc_reconciled := rc_reconciled r1 + 1\<rparr>, trades[n := t']))
              else Inr (r1, trades))
         | Some ord \<Rightarrow>
             (let r1 = result\<lparr>rc_matched := rc_matched result + 1\<rparr> in
              if t_status t = SUBMITTED \<and> (0 < ost_filled_qty ord \<or> ost_status ord = ''filled'') \<or>
                 t_status t = PARTIALLY_FILLED \<and> lit 0.0001 < \<bar>ost_filled_qty ord - t_filled_quantity t\<bar>
              then rbind (fill now (ost_filled_qty ord) (ost_filled_price ord) t)
                     (\<lambda>t'. Inr (r1\<lparr>rc_reconciled := rc_reconciled r1 + 1\<rparr>, trades[n := t']))
              else Inr (r1, trades))))"

fun reconcile_locals ::
  "datetime \<Rightarrow> (string \<times> order_state) list \<Rightarrow> (string \<times> nat) list \<Rightarrow> recon_result \<times> trade list \<Rightarrow>
   (recon_result \<times> trade list) res" where
  "reconcile_locals now broker [] st = Inr st"
| "reconcile_locals now broker (item # items) st =
     rbind (reconcile_one now broker st item) (\<lambda>st'. reconcile_locals now broker items st')"

definition reconcile_orders ::
  "datetime \<Rightarrow> trade list \<Rightarrow> order_state list \<Rightarrow> (recon_result \<times> trade list) res" where
  "reconcile_orders now local_trades broker_orders =
     (let broker_by_id = index_broker broker_orders; local_by_ext_id = index_local local_trades in
      rbind (reconcile_locals now broker_by_id local_by_ext_id (no_recon, local_trades)) (\<lambda>(r, trades).
        Inr (r\<lparr>rc_orphaned_broker := rc_orphaned_broker r +
               int (length (filter (\<lambda>k. map_of local_by_ext_id k = None) (dict_keys broker_by_id)))\<rparr>, trades)))"

definition reconcile_positions :: "position list \<Rightarrow> position_state list \<Rightarrow> recon_result" where
  "reconcile_positions local_positions broker_positions =
     (let differing = filter (\<lambda>(lp, bp). lit 0.0001 < \<bar>p_quantity lp - pst_quantity bp\<bar>)
            (zip local_positions broker_positions) in
      no_recon\<lparr>rc_reconciled := int (length differing),
        rc_matched := min (int (length local_positions)) (int (length broker_positions)),
        rc_errors := (if length local_positions \<noteq> length broker_positions
          then [[L ''Local/broker position count mismatch: '', Z (int (length local_positions)), L '' vs '',
                 Z (int (length broker_positions))]]
          else [])\<rparr>)"

subsection \<open>The broker's whole state\<close>

datatype mismatch_type =
    BROKER_ONLY_POSITION | LOCAL_ONLY_POSITION | QUANTITY_MISMATCH | PRICE_MISMATCH
  | BROKER_ONLY_ORDER | LOCAL_ONLY_ORDER | STALE_SNAPSHOT | DUPLICATE_BROKER_STATE
  | BROKER_FAILURE | UNKNOWN_STATE | UNCONFIRMED_INTENT

record mismatch =
  mm_type :: mismatch_type
  mm_subject :: string
  mm_severity :: int

record broker_recon =
  br_matched_positions :: int
  br_reconciled_positions :: int
  br_errors :: "exc list"
  br_mismatches :: "mismatch list"
  br_timestamp :: datetime

definition br_failed :: "broker_recon \<Rightarrow> bool" where
  "br_failed r = (br_errors r \<noteq> [] \<or> list_ex (\<lambda>m. 2 \<le> mm_severity m) (br_mismatches r))"

definition STALE_THRESHOLD_SECONDS :: float64 where "STALE_THRESHOLD_SECONDS = Fin 300"

definition BLOCKING_SEVERITY :: int where "BLOCKING_SEVERITY = 2"

record broker_recon_service =
  bs_startup_reconciled :: bool
  bs_reconciled_at :: "datetime option"
  bs_consecutive_failures :: int
  bs_notes :: "notification list option"
  bs_audit :: audit_log
  bs_metrics :: metrics_log

definition new_broker_recon_service ::
  "notification list option \<Rightarrow> audit_log \<Rightarrow> metrics_log \<Rightarrow> broker_recon_service" where
  "new_broker_recon_service notes audit metrics =
     \<lparr>bs_startup_reconciled = False, bs_reconciled_at = None, bs_consecutive_failures = 0,
      bs_notes = notes, bs_audit = audit, bs_metrics = metrics\<rparr>"

definition can_accept_orders :: "broker_recon_service \<Rightarrow> bool" where
  "can_accept_orders s = bs_startup_reconciled s"

text \<open>The alert; its text is reduced to the two counts.\<close>

definition deliver_failure_alert :: "broker_recon \<Rightarrow> broker_recon_service \<Rightarrow> broker_recon_service" where
  "deliver_failure_alert r s =
     (let detail = [L ''Broker reconciliation failed: '', Z (int (length (br_errors r))), L '' error(s), '',
                    Z (int (length (br_mismatches r))), L '' mismatch(es)''] in
      s\<lparr>bs_notes := log_to (CRITICAL, ''Reconciliation Failure'', detail) (bs_notes s),
        bs_audit := audit_rec ''reconciliation.failed'' ''system'' ''broker-state'' detail (bs_audit s),
        bs_metrics := counter ''reconciliation.failed'' 1 (bs_metrics s)\<rparr>)"

record raw_position =
  rp_symbol :: "string option"
  rp_market_id :: "string option"
  rp_id :: "string option"
  rp_qty :: "float64 option"
  rp_quantity :: "float64 option"
  rp_entry_price :: "float64 option"
  rp_current_price :: "float64 option"

record raw_order =
  ro_id :: "fstring option"
  ro_order_id :: "fstring option"

definition first_of :: "'a option \<Rightarrow> 'a option \<Rightarrow> 'a option" where
  "first_of a b = (case a of None \<Rightarrow> b | Some _ \<Rightarrow> a)"

definition position_key :: "raw_position \<Rightarrow> string" where
  "position_key p =
     (case first_of (rp_symbol p) (first_of (rp_market_id p) (rp_id p)) of None \<Rightarrow> [] | Some k \<Rightarrow> k)"

definition order_key :: "raw_order \<Rightarrow> fstring" where
  "order_key ord = (case first_of (ro_id ord) (ro_order_id ord) of None \<Rightarrow> [] | Some k \<Rightarrow> k)"

definition raw_qty :: "raw_position \<Rightarrow> float64" where
  "raw_qty p = (case first_of (rp_qty p) (rp_quantity p) of None \<Rightarrow> 0 | Some q \<Rightarrow> q)"

definition raw_price :: "raw_position \<Rightarrow> float64" where
  "raw_price p = (case first_of (rp_entry_price p) (rp_current_price p) of None \<Rightarrow> 0 | Some q \<Rightarrow> q)"

text \<open>\<open>_index_positions\<close> and \<open>_index_orders\<close>: the first entry of a key stays.\<close>

definition index_first :: "('a \<Rightarrow> 'k) \<Rightarrow> 'a list \<Rightarrow> ('k \<times> 'a) list" where
  "index_first key xs =
     foldl (\<lambda>d x. if map_of d (key x) = None then AList.update (key x) x d else d) [] xs"

definition all_keys :: "('k \<times> 'a) list \<Rightarrow> ('k \<times> 'b) list \<Rightarrow> 'k list" where
  "all_keys b l = remdups (dict_keys b @ dict_keys l)"

abbreviation mm :: "mismatch_type \<Rightarrow> string \<Rightarrow> mismatch" where
  "mm ty subject \<equiv> \<lparr>mm_type = ty, mm_subject = subject, mm_severity = 2\<rparr>"

definition price_differs :: "float64 \<Rightarrow> float64 \<Rightarrow> bool" where
  "price_differs bp lp =
     (0 < bp \<and> 0 < lp \<and> lit 0.01 < fquot \<bar>bp - lp\<bar> (py_max bp lp))"

definition position_mismatches ::
  "(string \<times> raw_position) list \<Rightarrow> (string \<times> raw_position) list \<Rightarrow> string \<Rightarrow> mismatch list" where
  "position_mismatches broker locl key =
     (case (map_of broker key, map_of locl key) of
        (Some b, None) \<Rightarrow> [mm BROKER_ONLY_POSITION key]
      | (None, Some l) \<Rightarrow> [mm LOCAL_ONLY_POSITION key]
      | (Some b, Some l) \<Rightarrow>
          (if lit 0.0001 < \<bar>raw_qty b - raw_qty l\<bar> then [mm QUANTITY_MISMATCH key] else []) @
          (if price_differs (raw_price b) (raw_price l) then [mm PRICE_MISMATCH key] else [])
      | (None, None) \<Rightarrow> [])"

definition order_mismatches ::
  "(fstring \<times> raw_order) list \<Rightarrow> (fstring \<times> raw_order) list \<Rightarrow> fstring \<Rightarrow> mismatch list" where
  "order_mismatches broker locl oid =
     (case (map_of broker oid, map_of locl oid) of
        (Some _, None) \<Rightarrow> [mm BROKER_ONLY_ORDER []]
      | (None, Some _) \<Rightarrow> [mm LOCAL_ONLY_ORDER []]
      | _ \<Rightarrow> [])"

fun duplicate_keys :: "'k list \<Rightarrow> 'k list \<Rightarrow> 'k list" where
  "duplicate_keys seen [] = []"
| "duplicate_keys seen (k # ks) = (if k \<in> set seen then [k] else []) @ duplicate_keys (k # seen) ks"

definition raw_of_position :: "broker_position \<Rightarrow> raw_position" where
  "raw_of_position p = \<lparr>rp_symbol = Some (bp_symbol p), rp_market_id = None, rp_id = None,
     rp_qty = Some (bp_qty p), rp_quantity = None, rp_entry_price = bp_entry_price p,
     rp_current_price = bp_current_price p\<rparr>"

definition raw_of_order :: "broker_order \<Rightarrow> raw_order" where
  "raw_of_order ord = \<lparr>ro_id = Some (bo_id ord), ro_order_id = None\<rparr>"

text \<open>\<open>except (RuntimeError, ValueError, OSError, ServiceError, InfrastructureError)\<close> with the
  subclasses the code base has.\<close>

definition broker_failure_caught :: "exc \<Rightarrow> bool" where
  "broker_failure_caught e =
     (e \<in> {RuntimeError, ValueError, MoneyPrecisionError, OSError, TimeoutError, ServiceError,
           InfrastructureError, ConfigError})"

definition fetch_broker_state ::
  "'s broker \<Rightarrow> env \<Rightarrow> 's \<Rightarrow> (raw_position list \<times> raw_order list) res \<times> 's" where
  "fetch_broker_state b env s =
     (case b_positions b env s of
        (Inl e, s1) \<Rightarrow> (Inl e, s1)
      | (Inr ps, s1) \<Rightarrow>
          (case b_open_orders b env s1 of
             (Inl e, s2) \<Rightarrow> (Inl e, s2)
           | (Inr os, s2) \<Rightarrow> (Inr (map raw_of_position ps, map raw_of_order os), s2)))"

definition drift ::
  "raw_position list \<Rightarrow> raw_order list \<Rightarrow> raw_position list \<Rightarrow> raw_order list \<Rightarrow> string list \<Rightarrow>
   datetime \<Rightarrow> datetime option \<Rightarrow> mismatch list" where
  "drift bpos bord lpos lord intents now reconciled_at =
     (let bp = index_first position_key bpos; lp = index_first position_key lpos;
          bo = index_first order_key bord; lo = index_first order_key lord in
      concat (map (position_mismatches bp lp) (all_keys bp lp)) @
      concat (map (order_mismatches bo lo) (all_keys bo lo)) @
      map (mm DUPLICATE_BROKER_STATE) (duplicate_keys [] (map position_key bpos)) @
      map (\<lambda>_. mm DUPLICATE_BROKER_STATE []) (duplicate_keys [] (map order_key bord)) @
      map (mm UNCONFIRMED_INTENT) intents @
      (case reconciled_at of
         None \<Rightarrow> []
       | Some at0 \<Rightarrow> if STALE_THRESHOLD_SECONDS < total_seconds (now - at0) then [mm STALE_SNAPSHOT []] else []))"

definition reconcile ::
  "'s broker \<Rightarrow> env \<Rightarrow> datetime \<Rightarrow> datetime \<Rightarrow> raw_position list \<Rightarrow> raw_order list \<Rightarrow> string list \<Rightarrow>
   broker_recon_service \<times> 's \<Rightarrow> broker_recon res \<times> broker_recon_service \<times> 's" where
  "reconcile b env now now' local_positions local_orders intents st =
     (case st of (s, x) \<Rightarrow>
        (case fetch_broker_state b env x of
           (Inl e, x1) \<Rightarrow>
             if \<not> broker_failure_caught e then (Inl e, s, x1)
             else let s1 = s\<lparr>bs_consecutive_failures := bs_consecutive_failures s + 1,
                             bs_startup_reconciled := False\<rparr>;
                      r = \<lparr>br_matched_positions = 0, br_reconciled_positions = 0, br_errors = [e],
                           br_mismatches = [\<lparr>mm_type = BROKER_FAILURE, mm_subject = [], mm_severity = 3\<rparr>],
                           br_timestamp = now'\<rparr> in
                  (Inr r, deliver_failure_alert r s1, x1)
         | (Inr (bpos, bord), x1) \<Rightarrow>
             (let mismatches = drift bpos bord local_positions local_orders intents now (bs_reconciled_at s);
                  matched = min (int (length bpos)) (int (length local_positions));
                  severe = filter (\<lambda>m. BLOCKING_SEVERITY \<le> mm_severity m) mismatches;
                  s1 = (if severe = []
                        then s\<lparr>bs_startup_reconciled := True, bs_reconciled_at := Some now',
                               bs_consecutive_failures := 0\<rparr>
                        else s\<lparr>bs_startup_reconciled := False,
                               bs_consecutive_failures := (if mismatches \<noteq> []
                                 then bs_consecutive_failures s + 1 else bs_consecutive_failures s)\<rparr>);
                  r = \<lparr>br_matched_positions = matched, br_reconciled_positions = matched, br_errors = [],
                       br_mismatches = mismatches, br_timestamp = now'\<rparr> in
              (Inr r, (if br_failed r then deliver_failure_alert r s1 else s1), x1))))"

subsection \<open>The gate reflects the drift\<close>

lemma alert_frame [simp]:
  "bs_startup_reconciled (deliver_failure_alert r s) = bs_startup_reconciled s"
  "bs_reconciled_at (deliver_failure_alert r s) = bs_reconciled_at s"
  by (simp_all add: deliver_failure_alert_def Let_def)

lemma map_of_index_fold:
  "map_of (foldl (\<lambda>d x. if map_of d (key x) = None then AList.update (key x) x d else d) d xs) k =
     (case map_of d k of Some v \<Rightarrow> Some v | None \<Rightarrow> List.find (\<lambda>x. key x = k) xs)"
  by (induction xs arbitrary: d) (auto split: option.splits)

lemma map_of_index_first: "map_of (index_first key xs) k = List.find (\<lambda>x. key x = k) xs"
  by (simp add: index_first_def map_of_index_fold)

lemma index_first_None: "map_of (index_first key xs) k = None \<longleftrightarrow> k \<notin> key ` set xs"
  by (auto simp: map_of_index_first find_None_iff)

lemma in_all_keys: "k \<in> set (all_keys b l) \<longleftrightarrow> map_of b k \<noteq> None \<or> map_of l k \<noteq> None"
  by (auto simp: all_keys_def map_of_eq_None_iff)

lemma duplicate_keys_empty: "duplicate_keys seen ks = [] \<longleftrightarrow> distinct ks \<and> set seen \<inter> set ks = {}"
  by (induction ks arbitrary: seen) auto

lemma position_mismatches_empty:
  "position_mismatches b l k = [] \<longleftrightarrow>
     (map_of b k = None \<longleftrightarrow> map_of l k = None) \<and>
     (\<forall>x y. map_of b k = Some x \<longrightarrow> map_of l k = Some y \<longrightarrow>
        \<not> lit 0.0001 < \<bar>raw_qty x - raw_qty y\<bar> \<and> \<not> price_differs (raw_price x) (raw_price y))"
  by (auto simp: position_mismatches_def split: option.splits)

lemma order_mismatches_empty: "order_mismatches b l k = [] \<longleftrightarrow> (map_of b k = None \<longleftrightarrow> map_of l k = None)"
  by (auto simp: order_mismatches_def split: option.splits)

lemma position_mismatches_severity: "m \<in> set (position_mismatches b l k) \<Longrightarrow> mm_severity m = 2"
  by (cases "map_of b k"; cases "map_of l k") (auto simp: position_mismatches_def split: if_splits)

lemma order_mismatches_severity: "m \<in> set (order_mismatches b l k) \<Longrightarrow> mm_severity m = 2"
  by (cases "map_of b k"; cases "map_of l k") (auto simp: order_mismatches_def)

lemma drift_severity: "m \<in> set (drift bpos bord lpos lord intents now at0) \<Longrightarrow> mm_severity m = 2"
  unfolding drift_def Let_def
  by (cases at0) (auto dest: position_mismatches_severity order_mismatches_severity split: if_splits)

lemma drift_severe [simp]:
  "filter (\<lambda>m. BLOCKING_SEVERITY \<le> mm_severity m) (drift bpos bord lpos lord intents now at0) =
     drift bpos bord lpos lord intents now at0"
  by (auto simp: filter_id_conv BLOCKING_SEVERITY_def dest!: drift_severity)

text \<open>The two books agree: same keys, quantities and prices within tolerance, no key twice
  at the broker.\<close>

definition books_agree ::
  "raw_position list \<Rightarrow> raw_order list \<Rightarrow> raw_position list \<Rightarrow> raw_order list \<Rightarrow> bool" where
  "books_agree bpos bord lpos lord =
     (position_key ` set bpos = position_key ` set lpos \<and> order_key ` set bord = order_key ` set lord \<and>
      distinct (map position_key bpos) \<and> distinct (map order_key bord) \<and>
      (\<forall>k x y. List.find (\<lambda>p. position_key p = k) bpos = Some x \<longrightarrow>
               List.find (\<lambda>p. position_key p = k) lpos = Some y \<longrightarrow>
         \<not> lit 0.0001 < \<bar>raw_qty x - raw_qty y\<bar> \<and> \<not> price_differs (raw_price x) (raw_price y)))"

definition fresh_enough :: "datetime \<Rightarrow> datetime option \<Rightarrow> bool" where
  "fresh_enough now at0 = (case at0 of None \<Rightarrow> True | Some t \<Rightarrow> \<not> Fin 300 < total_seconds (now - t))"

lemma ball_all_keys:
  assumes "\<And>k. map_of b k = None \<Longrightarrow> map_of l k = None \<Longrightarrow> P k"
  shows "(\<forall>k \<in> set (all_keys b l). P k) \<longleftrightarrow> (\<forall>k. P k)"
  using assms in_all_keys [of _ b l] by blast

lemma position_walk_empty:
  fixes bpos lpos :: "raw_position list"
  defines "b \<equiv> index_first position_key bpos" and "l \<equiv> index_first position_key lpos"
  shows "concat (map (position_mismatches b l) (all_keys b l)) = [] \<longleftrightarrow>
    position_key ` set bpos = position_key ` set lpos \<and> 
    (\<forall>k x y. List.find (\<lambda>p. position_key p = k) bpos = Some x \<longrightarrow>
             List.find (\<lambda>p. position_key p = k) lpos = Some y \<longrightarrow>
       \<not> lit 0.0001 < \<bar>raw_qty x - raw_qty y\<bar> \<and> \<not> price_differs (raw_price x) (raw_price y))"
proof -
  have "concat (map (position_mismatches b l) (all_keys b l)) = [] \<longleftrightarrow>
      (\<forall>k. position_mismatches b l k = [])"
    using ball_all_keys [of b l "\<lambda>k. position_mismatches b l k = []"]
    by (simp add: concat_eq_Nil_conv position_mismatches_def)
  also have "\<dots> \<longleftrightarrow> (\<forall>k. map_of b k = None \<longleftrightarrow> map_of l k = None) \<and>
      (\<forall>k x y. map_of b k = Some x \<longrightarrow> map_of l k = Some y \<longrightarrow>
         \<not> lit 0.0001 < \<bar>raw_qty x - raw_qty y\<bar> \<and> \<not> price_differs (raw_price x) (raw_price y))"
    unfolding position_mismatches_empty by blast
  also have "(\<forall>k. map_of b k = None \<longleftrightarrow> map_of l k = None) \<longleftrightarrow>
      position_key ` set bpos = position_key ` set lpos"
    unfolding b_def l_def index_first_None by blast
  finally show ?thesis by (simp only: b_def l_def map_of_index_first)
qed

lemma order_walk_empty:
  fixes bord lord :: "raw_order list"
  defines "b \<equiv> index_first order_key bord" and "l \<equiv> index_first order_key lord"
  shows "concat (map (order_mismatches b l) (all_keys b l)) = [] \<longleftrightarrow>
    order_key ` set bord = order_key ` set lord"
proof -
  have "concat (map (order_mismatches b l) (all_keys b l)) = [] \<longleftrightarrow> (\<forall>k. order_mismatches b l k = [])"
    using ball_all_keys [of b l "\<lambda>k. order_mismatches b l k = []"]
    by (simp add: concat_eq_Nil_conv order_mismatches_def)
  also have "\<dots> \<longleftrightarrow> order_key ` set bord = order_key ` set lord"
    unfolding order_mismatches_empty b_def l_def index_first_None by blast
  finally show ?thesis .
qed

lemma drift_empty:
  "drift bpos bord lpos lord intents now at0 = [] \<longleftrightarrow>
     books_agree bpos bord lpos lord \<and> intents = [] \<and> fresh_enough now at0"
  unfolding drift_def Let_def append_is_Nil_conv position_walk_empty order_walk_empty books_agree_def
    fresh_enough_def
  by (cases at0) (auto simp: duplicate_keys_empty STALE_THRESHOLD_SECONDS_def)

lemma br_failed_drift:
  "br_errors r = [] \<Longrightarrow> br_mismatches r = drift bpos bord lpos lord intents now at0 \<Longrightarrow>
     br_failed r \<longleftrightarrow> drift bpos bord lpos lord intents now at0 \<noteq> []"
  using drift_severity [of _ bpos bord lpos lord intents now at0]
  by (cases "drift bpos bord lpos lord intents now at0") (auto simp: br_failed_def)

text \<open>
  C7. After a reconciliation that read the broker, orders are accepted exactly when the
  books agree, the journal holds no unconfirmed intent and the last clean reconciliation
  is not older than five minutes, and exactly when the result does not report a failure.
\<close>

theorem gate_reflects_drift:
  assumes "fetch_broker_state b env x = (Inr (bpos, bord), x')"
  shows "\<exists>r s'. reconcile b env now now' lpos lord intents (s, x) = (Inr r, s', x') \<and>
    (can_accept_orders s' \<longleftrightarrow>
       books_agree bpos bord lpos lord \<and> intents = [] \<and> fresh_enough now (bs_reconciled_at s)) \<and>
    (can_accept_orders s' \<longleftrightarrow> \<not> br_failed r)"
  unfolding drift_empty [symmetric]
  using assms by (auto simp: reconcile_def can_accept_orders_def Let_def br_failed_drift)

lemma gate_reflects_drift_witness:
  "\<exists>r s' x'. reconcile counting_venue sample_env 0 0 [] [] []
       (new_broker_recon_service None None None, 0) = (Inr r, s', x') \<and> can_accept_orders s' \<and> \<not> br_failed r"
proof -
  have "fetch_broker_state counting_venue sample_env 0 = (Inr ([], []), 0)"
    by (simp add: fetch_broker_state_def counting_venue_def)
  from gate_reflects_drift [OF this, of 0 0 "[]" "[]" "[]" "new_broker_recon_service None None None"]
  show ?thesis
    by (auto simp: books_agree_def fresh_enough_def new_broker_recon_service_def)
qed

subsection \<open>Staleness never clears\<close>

record recon_call =
  rcl_env :: env
  rcl_now :: datetime
  rcl_now_end :: datetime
  rcl_positions :: "raw_position list"
  rcl_orders :: "raw_order list"
  rcl_intents :: "string list"

fun reconcile_calls ::
  "'s broker \<Rightarrow> recon_call list \<Rightarrow> broker_recon_service \<times> 's \<Rightarrow> broker_recon_service \<times> 's" where
  "reconcile_calls b [] st = st"
| "reconcile_calls b (c # cs) st =
     reconcile_calls b cs
       (snd (reconcile b (rcl_env c) (rcl_now c) (rcl_now_end c) (rcl_positions c) (rcl_orders c) (rcl_intents c) st))"

lemma stale_drift:
  "Fin 300 < total_seconds (now - t) \<Longrightarrow> drift bpos bord lpos lord intents now (Some t) \<noteq> []"
  by (simp add: drift_empty fresh_enough_def)

lemma reconcile_stale:
  assumes "reconcile b env now now' lpos lord intents (s, x) = (r, s', x')"
      and "\<not> can_accept_orders s" "bs_reconciled_at s = Some t" "Fin 300 < total_seconds (now - t)"
  shows "\<not> can_accept_orders s' \<and> bs_reconciled_at s' = Some t"
  using assms stale_drift [OF assms(4)]
  by (auto simp: reconcile_def can_accept_orders_def Let_def split: prod.splits sum.splits if_splits)

lemma total_seconds_301: "t + 301000000 \<le> now \<Longrightarrow> Fin 300 < total_seconds (now - t)"
proof -
  assume "t + 301000000 \<le> now"
  then have "rnd (301 :: rat) \<le> total_seconds (now - t)"
    unfolding total_seconds_def by (intro rnd_mono) simp
  moreover have "rnd (301 :: rat) = Fin 301"
    using rnd_of_int [of 301] by simp
  ultimately show ?thesis by (cases "total_seconds (now - t)") auto
qed

text \<open>
  A gate that is closed and whose last clean reconciliation is over five minutes old
  stays closed through every later call of reconcile, however clean the books and the
  journal are: the age is measured from a timestamp that only a clean call moves, and the
  age itself makes the call not clean.
\<close>

theorem stale_gate_never_reopens:
  assumes "\<not> can_accept_orders s"
      and "bs_reconciled_at s = Some t"
      and "\<forall>c \<in> set calls. t + 301000000 \<le> rcl_now c"
  shows "\<not> can_accept_orders (fst (reconcile_calls b calls (s, x)))"
  using assms
proof (induction calls arbitrary: s x)
  case (Cons c cs)
  obtain r s' x' where step: "reconcile b (rcl_env c) (rcl_now c) (rcl_now_end c) (rcl_positions c)
      (rcl_orders c) (rcl_intents c) (s, x) = (r, s', x')"
    by (metis prod_cases3)
  have "\<not> can_accept_orders s' \<and> bs_reconciled_at s' = Some t"
    using reconcile_stale [OF step] Cons.prems total_seconds_301 by simp
  then show ?case using Cons step by simp
qed simp

lemma stale_gate_never_reopens_witness:
  "\<not> can_accept_orders (fst (reconcile_calls counting_venue
      [\<lparr>rcl_env = sample_env, rcl_now = 301000000, rcl_now_end = 301000000, rcl_positions = [],
        rcl_orders = [], rcl_intents = []\<rparr>]
      ((new_broker_recon_service None None None)\<lparr>bs_reconciled_at := Some 0\<rparr>, 0)))"
  by (rule stale_gate_never_reopens [where t = 0])
    (simp_all add: new_broker_recon_service_def can_accept_orders_def)

text \<open>
  A broker read that the rate limiter refuses leaves the gate as it was: the limiter's
  exception is outside the caught classes, so it reaches the caller before the acceptance
  flag is revoked.
\<close>

theorem throttled_read_keeps_gate:
  assumes "rl_max_requests l \<le> int (length (rl_recent (env_monotonic env) ''get_positions'' l))"
  shows "\<exists>l'. reconcile (rate_limited True b) env now now' lpos lord intents (s, (l, x)) =
    (Inl RateLimitExceededError, s, (l', x))"
  using assms
  by (simp add: reconcile_def fetch_broker_state_def broker_failure_caught_def rate_limited_def
      rl_guarded_def rl_check_def Let_def)

lemma throttled_read_keeps_gate_witness:
  "\<exists>l'. reconcile (rate_limited True counting_venue) sample_env 0 0 [] [] []
       ((new_broker_recon_service None None None)\<lparr>bs_startup_reconciled := True\<rparr>,
        (new_rate_limiter 0 1, 0)) =
     (Inl RateLimitExceededError,
      (new_broker_recon_service None None None)\<lparr>bs_startup_reconciled := True\<rparr>, (l', 0))"
  by (rule throttled_read_keeps_gate) (simp add: new_rate_limiter_def)

subsection \<open>What reconciling does to each order\<close>

definition reconciled_trade :: "datetime \<Rightarrow> order_state option \<Rightarrow> trade \<Rightarrow> trade" where
  "reconciled_trade now bo t =
     (case bo of
        None \<Rightarrow> if t_status t = SUBMITTED \<or> t_status t = PENDING
                then t\<lparr>t_status := CANCELLED, t_updated_at := now\<rparr> else t
      | Some ord \<Rightarrow>
          if t_status t = SUBMITTED \<and> (0 < ost_filled_qty ord \<or> ost_status ord = ''filled'') \<or>
             t_status t = PARTIALLY_FILLED \<and> lit 0.0001 < \<bar>ost_filled_qty ord - t_filled_quantity t\<bar>
          then t\<lparr>t_status := FILLED, t_filled_quantity := ost_filled_qty ord,
                 t_filled_price := ost_filled_price ord, t_filled_at := Some now, t_updated_at := now\<rparr>
          else t)"

lemma reconcile_one_spec:
  "\<exists>r'. reconcile_one now b (r, trades) (e, n) =
     Inr (r', trades[n := reconciled_trade now (map_of b e) (trades ! n)])"
  by (cases "map_of b e"; cases "t_status (trades ! n)")
    (auto simp: reconcile_one_def reconciled_trade_def Let_def cancel_def fill_def guard_transition_def)

lemma reconcile_locals_spec:
  assumes "distinct (map snd items)" and "\<forall>(e, n) \<in> set items. n < length trades"
  shows "\<exists>r' trades'. reconcile_locals now b items (r, trades) = Inr (r', trades') \<and>
    length trades' = length trades \<and>
    (\<forall>e n. (e, n) \<in> set items \<longrightarrow> trades' ! n = reconciled_trade now (map_of b e) (trades ! n)) \<and>
    (\<forall>n. n \<notin> snd ` set items \<longrightarrow> trades' ! n = trades ! n)"
  using assms
proof (induction items arbitrary: r trades)
  case (Cons item items)
  obtain e n where item: "item = (e, n)" by (cases item)
  obtain r1 where one: "reconcile_one now b (r, trades) (e, n) =
      Inr (r1, trades[n := reconciled_trade now (map_of b e) (trades ! n)])"
    using reconcile_one_spec by blast
  let ?t1 = "trades[n := reconciled_trade now (map_of b e) (trades ! n)]"
  have n: "n < length trades" and fresh: "n \<notin> snd ` set items"
    using Cons.prems by (auto simp: item)
  obtain r' trades' where IH: "reconcile_locals now b items (r1, ?t1) = Inr (r', trades')"
      "length trades' = length ?t1"
      "\<forall>e n. (e, n) \<in> set items \<longrightarrow> trades' ! n = reconciled_trade now (map_of b e) (?t1 ! n)"
      "\<forall>n. n \<notin> snd ` set items \<longrightarrow> trades' ! n = ?t1 ! n"
    using Cons.IH [of ?t1 r1] Cons.prems by auto
  have "trades' ! m = reconciled_trade now (map_of b e') (trades ! m)" if "(e', m) \<in> set items" for e' m
  proof -
    have "m \<noteq> n" using that fresh by force
    then show ?thesis using IH(3) that by simp
  qed
  then show ?case using IH one n fresh by (auto simp: item nth_list_update split: if_splits)
qed auto

text \<open>The trade at place n answers for its external id when no later trade has the same id.\<close>

definition answers_for :: "trade list \<Rightarrow> string \<Rightarrow> nat \<Rightarrow> bool" where
  "answers_for trades e n =
     (n < length trades \<and> e \<noteq> [] \<and> t_external_order_id (trades ! n) = Some e \<and>
      (\<forall>m < length trades. n < m \<longrightarrow> t_external_order_id (trades ! m) \<noteq> Some e))"

lemma index_local_snoc:
  "index_local (ts @ [t]) =
     (case t_external_order_id t of
        Some i \<Rightarrow> if i \<noteq> [] then AList.update i (length ts) (index_local ts) else index_local ts
      | None \<Rightarrow> index_local ts)"
  by (cases "t_external_order_id t") (simp_all add: index_local_def enumerate_append_eq)

lemma index_local_spec:
  "distinct (map fst (index_local ts)) \<and> (\<forall>e n. map_of (index_local ts) e = Some n \<longleftrightarrow> answers_for ts e n)"
proof (induction ts rule: rev_induct)
  case Nil
  then show ?case by (simp add: index_local_def answers_for_def)
next
  case (snoc t ts)
  have "answers_for (ts @ [t]) e n \<longleftrightarrow>
      (if e \<noteq> [] \<and> t_external_order_id t = Some e then n = length ts else answers_for ts e n)" for e n
    by (auto simp: answers_for_def nth_append less_Suc_eq)
  with snoc show ?case
    by (cases "t_external_order_id t") (auto simp: index_local_snoc update_conv' distinct_update simp del: map_of_eq_Some_iff)
qed

lemma index_broker_spec:
  "map_of (index_broker orders) e = List.find (\<lambda>ord. ost_order_id ord = e) (rev orders)"
  by (induction orders rule: rev_induct) (auto simp: index_broker_def update_conv')

text \<open>
  C37. Reconciling orders never raises, keeps the trades in place, and does to each trade
  exactly this: a trade that answers for its external id is compared with the broker's
  last order of that id, and cancelled, filled or left; every other trade is untouched.
\<close>

theorem reconcile_orders_spec:
  "\<exists>r trades'. reconcile_orders now trades orders = Inr (r, trades') \<and>
     length trades' = length trades \<and>
     (\<forall>n < length trades. \<forall>e. t_external_order_id (trades ! n) = Some e \<longrightarrow> trades' ! n =
        (if answers_for trades e n
         then reconciled_trade now (List.find (\<lambda>ord. ost_order_id ord = e) (rev orders)) (trades ! n)
         else trades ! n)) \<and>
     (\<forall>n < length trades. t_external_order_id (trades ! n) = None \<longrightarrow> trades' ! n = trades ! n)"
proof -
  let ?items = "index_local trades"
  have d: "distinct (map fst ?items)" and m: "\<And>e n. map_of ?items e = Some n \<longleftrightarrow> answers_for trades e n"
    using index_local_spec [of trades] by auto
  have mem: "(e, n) \<in> set ?items \<longleftrightarrow> answers_for trades e n" for e n
    using m [of e n] map_of_eq_Some_iff [OF d] by metis
  have places: "distinct (map snd ?items)"
    unfolding distinct_map
    using d mem by (fastforce simp: distinct_map inj_on_def answers_for_def)
  have bound: "\<forall>(e, n) \<in> set ?items. n < length trades"
    using mem by (auto simp: answers_for_def)
  obtain r trades' where *: "reconcile_locals now (index_broker orders) ?items (no_recon, trades) = Inr (r, trades')"
    "length trades' = length trades"
    "\<forall>e n. (e, n) \<in> set ?items \<longrightarrow> trades' ! n = reconciled_trade now (map_of (index_broker orders) e) (trades ! n)"
    "\<forall>n. n \<notin> snd ` set ?items \<longrightarrow> trades' ! n = trades ! n"
    using reconcile_locals_spec [OF places bound, of now "index_broker orders" no_recon] by metis
  have "n \<notin> snd ` set ?items" if "\<And>e. \<not> answers_for trades e n" for n
    using that mem by force
  moreover have "answers_for trades e n \<Longrightarrow> answers_for trades e' n \<Longrightarrow> e' = e" for e e' n
    by (simp add: answers_for_def)
  ultimately show ?thesis
    using * mem unfolding reconcile_orders_def Let_def
    by (auto simp: index_broker_spec) (metis answers_for_def option.inject option.distinct(1))+
qed

lemma reconcile_orders_spec_witness:
  "\<exists>r t. reconcile_orders 5
       [(new_trade ''t'' 0 ''s'' ''m'' BUY (Fin 10) (Fin 1))\<lparr>t_status := SUBMITTED,
          t_external_order_id := Some ''x''\<rparr>] [] = Inr (r, [t]) \<and> t_status t = CANCELLED"
proof -
  let ?t = "(new_trade ''t'' 0 ''s'' ''m'' BUY (Fin 10) (Fin 1))\<lparr>t_status := SUBMITTED,
      t_external_order_id := Some ''x''\<rparr>"
  have "answers_for [?t] ''x'' 0" by (simp add: answers_for_def new_trade_def)
  moreover have "t_status (reconciled_trade 5 None ?t) = CANCELLED"
    by (simp add: reconciled_trade_def)
  moreover obtain r ts where "reconcile_orders 5 [?t] [] = Inr (r, ts)" and "length ts = 1"
      and "ts ! 0 = (if answers_for [?t] ''x'' 0 then reconciled_trade 5 None ?t else ?t)"
    using reconcile_orders_spec [of 5 "[?t]" "[]"] by (auto simp: new_trade_def)
  ultimately show ?thesis
    by (cases ts) auto
qed

text \<open>
  A submitted order that the broker reports as filled in any positive part, however
  small, is closed as FILLED for that part, and no later operation on the trade is
  accepted: the broker's remaining quantity is not looked at.
\<close>

theorem partial_broker_fill_closes_trade:
  assumes "t_status t = SUBMITTED" and "t_external_order_id t = Some e" and "e \<noteq> []"
      and "ost_order_id ord = e" and "0 < ost_filled_qty ord"
  shows "\<exists>r t'. reconcile_orders now [t] [ord] = Inr (r, [t']) \<and>
    t_status t' = FILLED \<and> t_filled_quantity t' = ost_filled_qty ord \<and> t_quantity t' = t_quantity t \<and>
    run_ops later t' = (t', 0)"
  using assms
  by (auto simp: reconcile_orders_def index_local_def index_broker_def reconcile_one_def Let_def fill_def
      guard_transition_def OPEN_TRADE_STATUSES_def intro!: run_ops_terminal)

lemma partial_broker_fill_closes_trade_witness:
  "\<exists>r t'. reconcile_orders 1
       [(new_trade ''t'' 0 ''s'' ''m'' BUY (Fin 10) (Fin 1))\<lparr>t_status := SUBMITTED,
          t_external_order_id := Some ''x''\<rparr>]
       [\<lparr>ost_order_id = ''x'', ost_status = ''partially_filled'', ost_filled_qty = Fin 1,
          ost_filled_price = Fin 1, ost_remaining_qty = Fin 9, ost_symbol = ''m''\<rparr>] = Inr (r, [t']) \<and>
     t_status t' = FILLED \<and> t_filled_quantity t' = Fin 1 \<and> t_quantity t' = Fin 10 \<and>
     run_ops [(2, Fill (Fin 10) (Fin 1))] t' = (t', 0)"
  using partial_broker_fill_closes_trade
    [of "(new_trade ''t'' 0 ''s'' ''m'' BUY (Fin 10) (Fin 1))\<lparr>t_status := SUBMITTED,
          t_external_order_id := Some ''x''\<rparr>" "''x''"
       "\<lparr>ost_order_id = ''x'', ost_status = ''partially_filled'', ost_filled_qty = Fin 1,
          ost_filled_price = Fin 1, ost_remaining_qty = Fin 9, ost_symbol = ''m''\<rparr>" 1
       "[(2, Fill (Fin 10) (Fin 1))]"]
  by (simp add: new_trade_def zero_eq_Fin)

end
