(* ===== verification/KillSwitch.thy ===== *)
theory KillSwitch
  imports Ports
begin

text \<open>
  The two kill switches: \<open>KillSwitch\<close> of \<open>domain/services/risk_service.py\<close> and
  \<open>PersistentKillSwitch\<close> of \<open>domain/services/reconciliation_service.py\<close>.

  Both count consecutive failures and latch a circuit when the count reaches its limit.
  The locale \<open>failure_latch\<close> states that contract and derives what the callers rely on
  (a latched switch stays latched under any further traffic); each class is an
  interpretation.  Dates are days since the epoch.
\<close>

subsection \<open>The contract of a failure latch\<close>

locale failure_latch =
  fixes fail :: "'s \<Rightarrow> 's"
    and succ :: "'s \<Rightarrow> 's"
    and may_trade :: "'s \<Rightarrow> bool"
    and failures :: "'s \<Rightarrow> int"
    and threshold :: "'s \<Rightarrow> int"
    and latched :: "'s \<Rightarrow> bool"
  assumes failures_fail: "failures (fail s) = failures s + 1"
    and latched_fail: "latched (fail s) \<longleftrightarrow> latched s \<or> threshold s \<le> failures s + 1"
    and threshold_fail: "threshold (fail s) = threshold s"
    and failures_succ: "failures (succ s) = 0"
    and latched_succ: "latched (succ s) = latched s"
    and threshold_succ: "threshold (succ s) = threshold s"
    and latched_blocks: "latched s \<Longrightarrow> \<not> may_trade s"
    and count_blocks: "threshold s \<le> failures s \<Longrightarrow> \<not> may_trade s"
begin

text \<open>Traffic through the switch: \<open>True\<close> is a reported success, \<open>False\<close> a failure.\<close>

definition traffic :: "bool list \<Rightarrow> 's \<Rightarrow> 's" where
  "traffic evs s = foldl (\<lambda>s ok. if ok then succ s else fail s) s evs"

lemma traffic_simps [simp]:
  "traffic [] s = s"
  "traffic (e # es) s = traffic es (if e then succ s else fail s)"
  by (simp_all add: traffic_def)

lemma traffic_append: "traffic (xs @ ys) s = traffic ys (traffic xs s)"
  by (simp add: traffic_def)

lemma latched_traffic: "latched s \<Longrightarrow> latched (traffic evs s)"
  by (induction evs arbitrary: s) (auto simp: latched_fail latched_succ)

lemma threshold_traffic: "threshold (traffic evs s) = threshold s"
  by (induction evs arbitrary: s) (auto simp: threshold_fail threshold_succ)

lemma failures_run: "failures (traffic (replicate n False) s) = failures s + int n"
  by (induction n arbitrary: s) (auto simp: failures_fail)

lemma failure_run_latches:
  assumes "0 < n" and "threshold s \<le> failures s + int n"
  shows "latched (traffic (replicate n False) s)"
proof -
  obtain m where m: "n = Suc m" using assms(1) by (cases n) auto
  have "replicate n False = replicate m False @ [False]"
    by (simp add: m replicate_append_same)
  then have "traffic (replicate n False) s = fail (traffic (replicate m False) s)"
    by (simp only: traffic_append) simp
  then show ?thesis
    using assms(2) by (simp add: latched_fail failures_run threshold_traffic m)
qed

lemma failure_run_blocks_forever:
  assumes "0 < n" and "threshold s \<le> int n" and "0 \<le> failures s"
  shows "\<not> may_trade (traffic (pre @ replicate n False @ post) s)"
proof -
  have nonneg: "0 \<le> failures (traffic pre s)"
    using assms(3) by (induction pre arbitrary: s) (auto simp: failures_fail failures_succ)
  have "latched (traffic (replicate n False) (traffic pre s))"
    by (rule failure_run_latches) (use assms nonneg in \<open>auto simp: threshold_traffic\<close>)
  then show ?thesis by (auto simp: traffic_append intro!: latched_blocks latched_traffic)
qed

end

subsection \<open>The in-memory switch of the risk service\<close>

record kill_switch =
  ks_failures :: int
  ks_max_failures :: int
  ks_daily_loss_limit :: "float64 option"
  ks_daily_pnl :: float64
  ks_day :: int
  ks_circuit_open :: bool

definition new_kill_switch :: "int \<Rightarrow> kill_switch" where
  "new_kill_switch today = \<lparr>ks_failures = 0, ks_max_failures = 5, ks_daily_loss_limit = None,
     ks_daily_pnl = 0, ks_day = today, ks_circuit_open = False\<rparr>"

definition ks_record_failure :: "kill_switch \<Rightarrow> kill_switch" where
  "ks_record_failure k =
     (let k' = k\<lparr>ks_failures := ks_failures k + 1\<rparr> in
      if ks_max_failures k' \<le> ks_failures k' then k'\<lparr>ks_circuit_open := True\<rparr> else k')"

definition ks_record_success :: "kill_switch \<Rightarrow> kill_switch" where
  "ks_record_success k = k\<lparr>ks_failures := 0\<rparr>"

definition ks_record_realized_pnl :: "int \<Rightarrow> float64 \<Rightarrow> kill_switch \<Rightarrow> kill_switch" where
  "ks_record_realized_pnl today pnl k =
     (let k' = (if today \<noteq> ks_day k then k\<lparr>ks_day := today, ks_daily_pnl := 0\<rparr> else k)
      in k'\<lparr>ks_daily_pnl := ks_daily_pnl k' + pnl\<rparr>)"

definition ks_can_trade :: "kill_switch \<Rightarrow> trade_verdict" where
  "ks_can_trade k =
     (if ks_circuit_open k then refuse [L ''Circuit breaker open'']
      else if ks_max_failures k \<le> ks_failures k
      then refuse [Z (ks_failures k), L '' consecutive failures'']
      else if (case ks_daily_loss_limit k of None \<Rightarrow> False | Some l \<Rightarrow> l \<le> \<bar>ks_daily_pnl k\<bar>)
      then refuse [L ''Daily loss limit reached: '', FX 2 (ks_daily_pnl k)]
      else allow)"

definition ks_engage :: "kill_switch \<Rightarrow> kill_switch" where
  "ks_engage k = k\<lparr>ks_circuit_open := True\<rparr>"

definition ks_disengage :: "kill_switch \<Rightarrow> kill_switch" where
  "ks_disengage k = k\<lparr>ks_circuit_open := False, ks_failures := 0\<rparr>"

definition ks_reset :: "kill_switch \<Rightarrow> kill_switch" where
  "ks_reset k = k\<lparr>ks_failures := 0, ks_daily_pnl := 0, ks_circuit_open := False\<rparr>"

interpretation ks: failure_latch ks_record_failure ks_record_success "\<lambda>k. allowed (ks_can_trade k)"
    ks_failures ks_max_failures ks_circuit_open
  by unfold_locales
    (auto simp: ks_record_failure_def ks_record_success_def ks_can_trade_def Let_def)

subsection \<open>The persistent switch\<close>

record kill_switch_state =
  st_failures :: int
  st_daily_loss :: float64
  st_circuit_open :: bool
  st_last_reset :: "datetime option"

record persistent_kill_switch =
  pk_max_failures :: int
  pk_daily_loss_limit :: "float64 option"
  pk_state :: kill_switch_state

definition new_persistent_kill_switch :: "int \<Rightarrow> float64 option \<Rightarrow> persistent_kill_switch" where
  "new_persistent_kill_switch max_failures limit =
     \<lparr>pk_max_failures = max_failures, pk_daily_loss_limit = limit,
      pk_state = \<lparr>st_failures = 0, st_daily_loss = 0, st_circuit_open = False,
                  st_last_reset = None\<rparr>\<rparr>"

definition pk_restore_state :: "kill_switch_state \<Rightarrow> persistent_kill_switch \<Rightarrow> persistent_kill_switch" where
  "pk_restore_state st k = k\<lparr>pk_state := st\<rparr>"

definition pk_record_failure :: "persistent_kill_switch \<Rightarrow> persistent_kill_switch" where
  "pk_record_failure k =
     (let st = (pk_state k)\<lparr>st_failures := st_failures (pk_state k) + 1\<rparr> in
      k\<lparr>pk_state := if pk_max_failures k \<le> st_failures st then st\<lparr>st_circuit_open := True\<rparr> else st\<rparr>)"

definition pk_record_success :: "persistent_kill_switch \<Rightarrow> persistent_kill_switch" where
  "pk_record_success k = k\<lparr>pk_state := (pk_state k)\<lparr>st_failures := 0\<rparr>\<rparr>"

definition pk_record_realized_pnl :: "float64 \<Rightarrow> persistent_kill_switch \<Rightarrow> persistent_kill_switch" where
  "pk_record_realized_pnl pnl k =
     k\<lparr>pk_state := (pk_state k)\<lparr>st_daily_loss := st_daily_loss (pk_state k) + pnl\<rparr>\<rparr>"

definition pk_can_trade :: "persistent_kill_switch \<Rightarrow> bool" where
  "pk_can_trade k =
     (let loss_under_limit =
        (case pk_daily_loss_limit k of None \<Rightarrow> True | Some l \<Rightarrow> \<bar>st_daily_loss (pk_state k)\<bar> < l)
      in \<not> st_circuit_open (pk_state k) \<and> st_failures (pk_state k) < pk_max_failures k \<and>
         loss_under_limit)"

definition pk_reset :: "datetime \<Rightarrow> persistent_kill_switch \<Rightarrow> persistent_kill_switch" where
  "pk_reset now k = k\<lparr>pk_state := \<lparr>st_failures = 0, st_daily_loss = 0, st_circuit_open = False,
     st_last_reset = Some now\<rparr>\<rparr>"

interpretation pk: failure_latch pk_record_failure pk_record_success pk_can_trade
    "\<lambda>k. st_failures (pk_state k)" pk_max_failures "\<lambda>k. st_circuit_open (pk_state k)"
  by unfold_locales
    (auto simp: pk_record_failure_def pk_record_success_def pk_can_trade_def Let_def)

lemmas ks_defs = ks_record_failure_def ks_record_success_def ks_record_realized_pnl_def
  ks_can_trade_def ks_engage_def ks_disengage_def ks_reset_def

lemma ks_limits_frame [frame_simps]:
  "ks_daily_loss_limit (ks_record_failure k) = ks_daily_loss_limit k"
  "ks_daily_loss_limit (ks_record_success k) = ks_daily_loss_limit k"
  "ks_daily_loss_limit (ks_record_realized_pnl d x k) = ks_daily_loss_limit k"
  "ks_max_failures (ks_record_realized_pnl d x k) = ks_max_failures k"
  "ks_circuit_open (ks_record_realized_pnl d x k) = ks_circuit_open k"
  "ks_failures (ks_record_realized_pnl d x k) = ks_failures k"
  by (simp_all add: ks_defs Let_def)

text \<open>
  C15. Fail-closed latch, for both switches: after a run of failures as long as the limit,
  no later sequence of successes and failures lets a trade through again (only an explicit
  reset does).
\<close>

theorem kill_switch_latches:
  assumes "0 < n" and "0 \<le> ks_failures k" and "ks_max_failures k \<le> int n"
    and "0 \<le> st_failures (pk_state p)" and "pk_max_failures p \<le> int n"
  shows "\<not> allowed (ks_can_trade (foldl (\<lambda>s ok. if ok then ks_record_success s else ks_record_failure s)
           k (pre @ replicate n False @ post))) \<and>
         \<not> pk_can_trade (foldl (\<lambda>s ok. if ok then pk_record_success s else pk_record_failure s)
           p (pre @ replicate n False @ post))"
  using ks.failure_run_blocks_forever [of n k pre post] pk.failure_run_blocks_forever [of n p pre post]
    assms by (simp only: ks.traffic_def pk.traffic_def simp_thms)

theorem kill_switch_latches_witness:
  "\<not> allowed (ks_can_trade (foldl (\<lambda>s ok. if ok then ks_record_success s else ks_record_failure s)
      (new_kill_switch 0) ([True] @ replicate 5 False @ [True, True])))"
  using kill_switch_latches [of 5 "new_kill_switch 0" "new_persistent_kill_switch 5 None" "[True]" "[True, True]"]
  by (simp add: new_kill_switch_def new_persistent_kill_switch_def)

text \<open>
  The daily loss limit does not look at the sign: recording a profit of the size of
  the limit on a fresh day stops trading with the reason ``Daily loss limit reached''.
\<close>

theorem profit_trips_daily_loss_limit:
  assumes "ks_daily_loss_limit k = Some (Fin l)" and "l \<le> g" and "0 < g" and "is_double (Fin g)"
    and "\<not> ks_circuit_open k" and "ks_failures k < ks_max_failures k" and "today \<noteq> ks_day k"
  shows "ks_can_trade (ks_record_realized_pnl today (Fin g) k) =
    refuse [L ''Daily loss limit reached: '', FX 2 (Fin g)]"
  using assms by (simp add: ks_defs Let_def zero_eq_Fin)

theorem profit_trips_daily_loss_limit_witness:
  "ks_can_trade (ks_record_realized_pnl 1 (Fin 250) ((new_kill_switch 0)\<lparr>ks_daily_loss_limit := Some (Fin 200)\<rparr>)) =
    refuse [L ''Daily loss limit reached: '', FX 2 (Fin 250)]"
  by (rule profit_trips_daily_loss_limit [where l = 200])
    (simp_all add: new_kill_switch_def rnd_of_int [of 250, simplified])

end
