(* ===== verification/Preflight.thy ===== *)
theory Preflight
  imports Reconciliation KillSwitch
begin

text \<open>
  \<open>domain/services/preflight_service.py\<close>: the checks in front of every submission.

  The audit port answers \<open>verify_chain\<close> with a boolean, \<open>None\<close> when no port is wired.
  The reconciliation service and the kill switch are shared objects in the code; the
  caller passes their current value.
\<close>

record preflight_verdict =
  pv_passed :: bool
  pv_checks :: "(string \<times> bool) list"
  pv_failures :: "fstring list"

record preflight_service =
  pf_recon :: "broker_recon_service option"
  pf_kill_switch :: "kill_switch option"
  pf_allowed_markets :: "uuid list option"
  pf_require_allowlist :: bool

definition LIVE_CONFIRM_ENV :: string where "LIVE_CONFIRM_ENV = ''LIVE_TRADING_CONFIRMED''"

text \<open>One check: its name, its outcome and the failure it adds.\<close>

type_synonym preflight_item = "string \<times> bool \<times> fstring"

definition audit_item :: "bool option \<Rightarrow> preflight_item" where
  "audit_item chain_ok =
     (''audit_chain'', (case chain_ok of None \<Rightarrow> True | Some ok \<Rightarrow> ok),
      [L ''Audit chain verification failed''])"

definition recon_item :: "preflight_service \<Rightarrow> preflight_item" where
  "recon_item pf =
     (''broker_reconciliation'', (case pf_recon pf of None \<Rightarrow> True | Some r \<Rightarrow> can_accept_orders r),
      [L ''Broker state reconciliation incomplete - order acceptance blocked''])"

definition kill_switch_item :: "preflight_service \<Rightarrow> preflight_item" where
  "kill_switch_item pf =
     (case pf_kill_switch pf of
        None \<Rightarrow> (''kill_switch'', True, [])
      | Some k \<Rightarrow> (''kill_switch'', allowed (ks_can_trade k),
                  [L ''Kill switch engaged: ''] @ v_reason (ks_can_trade k)))"

definition live_confirmed :: "environ \<Rightarrow> bool" where
  "live_confirmed en = (lower (getenv en LIVE_CONFIRM_ENV []) \<in> set [''true'', ''1'', ''yes''])"

definition allowlist_missing :: "preflight_service \<Rightarrow> bool" where
  "allowlist_missing pf =
     (pf_require_allowlist pf \<and> (case pf_allowed_markets pf of None \<Rightarrow> True | Some ms \<Rightarrow> ms = []))"

definition live_items :: "environ \<Rightarrow> preflight_service \<Rightarrow> preflight_item list" where
  "live_items en pf =
     [(''live_trading_confirmed'', live_confirmed en,
       [L ''Live mode requires LIVE_TRADING_CONFIRMED=true (explicit confirmation beyond env-var presence)'']),
      (''market_allowlist'', \<not> allowlist_missing pf,
       [L ''Live mode requires a non-empty market allowlist (risk.allowed_markets) - fail-closed''])]"

definition preflight_check ::
  "environ \<Rightarrow> bool option \<Rightarrow> bool \<Rightarrow> preflight_service \<Rightarrow> preflight_verdict" where
  "preflight_check en chain_ok live_mode pf =
     (let items = [audit_item chain_ok, recon_item pf, kill_switch_item pf] @
            (if live_mode then live_items en pf else [(''live_trading_confirmed'', True, [])]);
          failures = map (\<lambda>(n, ok, why). why) (filter (\<lambda>(n, ok, why). \<not> ok) items) in
      \<lparr>pv_passed = (length failures = 0), pv_checks = map (\<lambda>(n, ok, why). (n, ok)) items,
       pv_failures = failures\<rparr>)"

lemma preflight_passed:
  "pv_passed (preflight_check en chain_ok live pf) \<longleftrightarrow>
     chain_ok \<noteq> Some False \<and>
     (\<forall>r. pf_recon pf = Some r \<longrightarrow> can_accept_orders r) \<and>
     (\<forall>k. pf_kill_switch pf = Some k \<longrightarrow> allowed (ks_can_trade k)) \<and>
     (live \<longrightarrow> live_confirmed en \<and> \<not> allowlist_missing pf)"
  by (cases chain_ok; cases "pf_recon pf"; cases "pf_kill_switch pf")
    (auto simp: preflight_check_def audit_item_def recon_item_def kill_switch_item_def live_items_def Let_def)

lemma preflight_verdict_consistent:
  "pv_passed (preflight_check en chain_ok live pf) \<longleftrightarrow>
     list_all snd (pv_checks (preflight_check en chain_ok live pf))"
  by (auto simp: preflight_check_def Let_def list_all_iff filter_empty_conv)

end
