(* ===== verification/Repositories.thy ===== *)
theory Repositories
  imports Entities
begin

text \<open>
  \<open>infrastructure/repositories/in_memory/{base,trades}.py\<close> behind the interface of
  \<open>domain/repositories/base.py\<close>.

  The store is a dictionary from ids to entities in insertion order.  Every access copies
  the entity (\<open>deepcopy\<close>), so a caller's entity and the stored one never alias and the
  model can treat entities as values.  What services rely on is the locale
  \<open>repository\<close>.
\<close>

type_synonym 'e store = "(uuid \<times> 'e) list"

definition repo_add :: "('e \<Rightarrow> uuid) \<Rightarrow> 'e \<Rightarrow> 'e store \<Rightarrow> 'e \<times> 'e store" where
  "repo_add ident e r = (e, AList.update (ident e) e r)"

definition repo_get :: "uuid \<Rightarrow> 'e store \<Rightarrow> 'e option" where
  "repo_get k r = map_of r k"

definition repo_list :: "'e store \<Rightarrow> 'e list" where
  "repo_list r = dict_values r"

definition repo_update :: "('e \<Rightarrow> uuid) \<Rightarrow> 'e \<Rightarrow> 'e store \<Rightarrow> 'e \<times> 'e store" where
  "repo_update ident e r = (e, AList.update (ident e) e r)"

definition repo_delete :: "uuid \<Rightarrow> 'e store \<Rightarrow> 'e store" where
  "repo_delete k r = AList.delete k r"

definition trades_get_by_signal :: "uuid \<Rightarrow> trade store \<Rightarrow> trade list" where
  "trades_get_by_signal s r = filter (\<lambda>t. t_signal_id t = s) (repo_list r)"

definition trades_get_by_market :: "uuid \<Rightarrow> trade store \<Rightarrow> trade list" where
  "trades_get_by_market m r = filter (\<lambda>t. t_market_id t = m) (repo_list r)"

definition trades_get_open :: "trade store \<Rightarrow> trade list" where
  "trades_get_open r = filter (\<lambda>t. t_status t \<in> set OPEN_TRADE_STATUSES) (repo_list r)"

definition positions_get_by_market :: "uuid \<Rightarrow> position store \<Rightarrow> position option" where
  "positions_get_by_market m r = List.find (\<lambda>p. p_market_id p = m) (repo_list r)"

definition positions_list_open :: "position store \<Rightarrow> position list" where
  "positions_list_open r = filter (\<lambda>p. 0 < \<bar>p_quantity p\<bar>) (repo_list r)"

subsection \<open>The contract of a repository\<close>


locale repository =
  fixes ident :: "'e \<Rightarrow> uuid"
    and put :: "'e \<Rightarrow> 'r \<Rightarrow> 'r"
    and fetch :: "uuid \<Rightarrow> 'r \<Rightarrow> 'e option"
    and remove :: "uuid \<Rightarrow> 'r \<Rightarrow> 'r"
    and entities :: "'r \<Rightarrow> 'e list"
    and inv :: "'r \<Rightarrow> bool"
  assumes put_inv: "inv r \<Longrightarrow> inv (put e r)"
    and remove_inv: "inv r \<Longrightarrow> inv (remove k r)"
    and fetch_put: "fetch k (put e r) = (if k = ident e then Some e else fetch k r)"
    and fetch_remove: "fetch k (remove k' r) = (if k = k' then None else fetch k r)"
    and entities_iff: "inv r \<Longrightarrow> e \<in> set (entities r) \<longleftrightarrow> fetch (ident e) r = Some e"
    and entities_distinct: "inv r \<Longrightarrow> distinct (map ident (entities r))"
begin

lemma entities_put:
  "inv r \<Longrightarrow> x \<in> set (entities (put e r)) \<longleftrightarrow> x = e \<or> x \<in> set (entities r) \<and> ident x \<noteq> ident e"
  by (auto simp: entities_iff put_inv fetch_put)

lemma entities_remove:
  "inv r \<Longrightarrow> x \<in> set (entities (remove k r)) \<longleftrightarrow> x \<in> set (entities r) \<and> ident x \<noteq> k"
  by (auto simp: entities_iff remove_inv fetch_remove)

lemma put_put_same: "ident e = ident e' \<Longrightarrow> fetch k (put e (put e' r)) = fetch k (put e r)"
  by (simp add: fetch_put)

text \<open>Putting changes only the entity with that id: every other one stays listed.\<close>

lemma put_others: "inv r \<Longrightarrow> x \<in> set (entities r) \<Longrightarrow> ident x \<noteq> ident e \<Longrightarrow> x \<in> set (entities (put e r))"
  by (simp add: entities_put)

lemma all_put: "inv r \<Longrightarrow> list_all P (entities r) \<Longrightarrow> P e \<Longrightarrow> list_all P (entities (put e r))"
  by (auto simp: list_all_iff entities_put)

end

definition store_inv :: "('e \<Rightarrow> uuid) \<Rightarrow> 'e store \<Rightarrow> bool" where
  "store_inv ident r = (distinct (dict_keys r) \<and> list_all (\<lambda>(k, e). ident e = k) r)"

definition store_put :: "('e \<Rightarrow> uuid) \<Rightarrow> 'e \<Rightarrow> 'e store \<Rightarrow> 'e store" where
  "store_put ident e r = AList.update (ident e) e r"

lemma list_all_update:
  "list_all P r \<Longrightarrow> P (k, e) \<Longrightarrow> list_all P (AList.update k e r)"
  by (induction r) auto

lemma list_all_delete: "list_all P r \<Longrightarrow> list_all P (AList.delete k r)"
  by (induction r) auto

lemma store_keys: "list_all (\<lambda>(k, e). ident e = k) r \<Longrightarrow> map (ident \<circ> snd) r = dict_keys r"
  by (induction r) auto

interpretation mem: repository ident "store_put ident" repo_get repo_delete repo_list "store_inv ident" for ident :: "'e \<Rightarrow> uuid"
proof
  fix r :: "'e store" and e :: 'e and k k' :: uuid
  show "store_inv ident r \<Longrightarrow> store_inv ident (store_put ident e r)"
    by (auto simp: store_inv_def store_put_def intro: list_all_update)
  show "store_inv ident r \<Longrightarrow> store_inv ident (repo_delete k r)"
    by (auto simp: store_inv_def repo_delete_def intro: list_all_delete)
  show "repo_get k (store_put ident e r) = (if k = ident e then Some e else repo_get k r)"
    by (simp add: repo_get_def store_put_def)
  show "repo_get k (repo_delete k' r) = (if k = k' then None else repo_get k r)"
    by (simp add: repo_get_def repo_delete_def)
  show "store_inv ident r \<Longrightarrow> e \<in> set (repo_list r) \<longleftrightarrow> repo_get (ident e) r = Some e"
    by (force simp: store_inv_def repo_list_def repo_get_def list_all_iff dest: map_of_SomeD)
  show "store_inv ident r \<Longrightarrow> distinct (map ident (repo_list r))"
    by (simp add: store_inv_def repo_list_def store_keys)
qed

lemma repo_add_put: "repo_add ident e r = (e, store_put ident e r)"
  and repo_update_put: "repo_update ident e r = (e, store_put ident e r)"
  by (simp_all add: repo_add_def repo_update_def store_put_def)

text \<open>Where a put entity stands in the listing: in the place of its predecessor, or last.\<close>

lemma list_put_existing:
  assumes "store_inv ident r" and "repo_get (ident e) r = Some e0"
  shows "repo_list (store_put ident e r) = map (\<lambda>x. if ident x = ident e then e else x) (repo_list r)"
  using assms unfolding store_inv_def repo_get_def repo_list_def store_put_def
proof (induction r)
  case Nil
  then show ?case by simp
next
  case (Cons p r)
  obtain k x where p: "p = (k, x)" by (cases p)
  show ?case
  proof (cases "k = ident e")
    case True
    have "set (map (ident \<circ> snd) r) = set (dict_keys r)"
      using Cons.prems(1) store_keys [of ident r] by (simp add: p)
    then have "ident y \<noteq> ident e" if "y \<in> set (dict_values r)" for y
      using Cons.prems(1) that True by (simp add: p) (metis imageI image_image)
    then show ?thesis
      using Cons.prems True by (auto simp: p intro: map_idI [symmetric])
  next
    case False
    then show ?thesis
      using Cons by (auto simp: p)
  qed
qed

lemma list_put_new: "repo_get (ident e) r = None \<Longrightarrow> repo_list (store_put ident e r) = repo_list r @ [e]"
  by (simp add: repo_get_def repo_list_def store_put_def map_of_eq_None_iff update_new)

lemma find_replace_same:
  assumes "List.find P xs = Some x" and "ident e = ident x" and "P e" and "distinct (map ident xs)"
  shows "List.find P (map (\<lambda>y. if ident y = ident e then e else y) xs) = Some e"
  using assms by (induction xs) (auto split: if_splits)

lemma find_replace_other:
  assumes "\<not> Q e" and "\<And>y. y \<in> set xs \<Longrightarrow> ident y = ident e \<Longrightarrow> \<not> Q y"
  shows "List.find Q (map (\<lambda>y. if ident y = ident e then e else y) xs) = List.find Q xs"
  using assms by (induction xs) auto

lemma find_SomeD: "List.find P xs = Some x \<Longrightarrow> x \<in> set xs \<and> P x"
  by (induction xs) (auto split: if_splits)

lemma find_append_one: "List.find P (xs @ [x]) =
    (case List.find P xs of None \<Rightarrow> if P x then Some x else None | Some y \<Rightarrow> Some y)"
  by (induction xs) auto

end
