(* ===== verification/Risk.thy ===== *)
theory Risk
  imports KillSwitch Entities
begin

text \<open>
  \<open>domain/services/risk_service.py\<close>: the risk gate in front of every order.

  \<open>can_trade\<close> and \<open>authorize_order\<close> are modelled branch by branch in the order of
  the code, with the audit and metrics calls of each branch; the sizing and portfolio
  measures follow, with the division by zero each of them can raise.  The properties say
  that an authorised order is within every configured rail, that a chain of authorised
  orders cannot push the exposure over its cap, what the gate does with an unknown trader
  and with an equity that is not a number, and that sizing is total and bounded.
\<close>

subsection \<open>State\<close>

record risk_assessment =
  kelly_fraction :: float64
  suggested_stop_loss :: float64
  suggested_take_profit :: float64
  risk_per_unit :: float64
  max_risk_amount :: float64
  ra_reason :: fstring

record portfolio_risk =
  var_95 :: float64
  max_drawdown :: float64
  concentration_risk :: "(uuid \<times> float64) list"
  num_over_limit :: int

record risk_profile =
  pr_user_id :: string
  pr_max_gross_exposure :: float64
  pr_max_position_size :: float64
  pr_max_positions_total :: int
  pr_daily_loss_pct :: float64
  pr_allowed_markets :: "uuid list"
  pr_engaged :: bool

definition DEFAULT_DAILY_LOSS_PCT :: float64 where
  "DEFAULT_DAILY_LOSS_PCT = lit 0.02"

type_synonym user_resolver = "(string \<times> risk_profile) list"

definition resolver_resolve :: "user_resolver \<Rightarrow> string \<Rightarrow> risk_profile option" where
  "resolver_resolve profiles user_id = map_of profiles user_id"

record risk_service =
  rs_max_position_size :: float64
  rs_max_leverage :: float64
  rs_max_drawdown_limit :: float64
  rs_var_confidence :: float64
  rs_kill_switch :: kill_switch
  rs_persistent :: "persistent_kill_switch option"
  rs_max_positions_total :: int
  rs_daily_loss_pct :: float64
  rs_max_gross_exposure :: float64
  rs_allowed_markets :: "uuid list"
  rs_max_data_staleness_seconds :: float64
  rs_audit :: audit_log
  rs_metrics :: metrics_log
  rs_user_resolver :: "user_resolver option"

text \<open>The dataclass defaults.\<close>

definition new_risk_service :: "int \<Rightarrow> risk_service" where
  "new_risk_service today =
     \<lparr>rs_max_position_size = lit 0.25, rs_max_leverage = lit 2, rs_max_drawdown_limit = lit 0.2,
      rs_var_confidence = lit 1.645, rs_kill_switch = new_kill_switch today, rs_persistent = None,
      rs_max_positions_total = 10, rs_daily_loss_pct = DEFAULT_DAILY_LOSS_PCT,
      rs_max_gross_exposure = 1, rs_allowed_markets = [], rs_max_data_staleness_seconds = lit 300,
      rs_audit = None, rs_metrics = None, rs_user_resolver = None\<rparr>"

subsection \<open>The gate on new trades\<close>

definition resolve_user :: "risk_service \<Rightarrow> string option \<Rightarrow> risk_profile option" where
  "resolve_user rs user_id =
     (case rs_user_resolver rs of
        None \<Rightarrow> None
      | Some r \<Rightarrow> (case user_id of None \<Rightarrow> None | Some u \<Rightarrow> resolver_resolve r u))"

text \<open>\<open>user_id or "system"\<close>: the empty string is falsy.\<close>

definition actor_of :: "string option \<Rightarrow> string" where
  "actor_of user_id = (case user_id of None \<Rightarrow> ''system'' | Some u \<Rightarrow> if u = [] then ''system'' else u)"

definition rs_log :: "string \<Rightarrow> string \<Rightarrow> fstring \<Rightarrow> string option \<Rightarrow> risk_service \<Rightarrow> risk_service" where
  "rs_log action actor detail metric rs =
     rs\<lparr>rs_audit := audit_rec action actor ''trading'' detail (rs_audit rs),
        rs_metrics := (case metric of None \<Rightarrow> rs_metrics rs | Some m \<Rightarrow> counter m 1 (rs_metrics rs))\<rparr>"

definition audit_user :: "bool \<Rightarrow> string option \<Rightarrow> fstring \<Rightarrow> risk_service \<Rightarrow> risk_service" where
  "audit_user blocked user_id reason rs =
     (let action = (if blocked then ''risk.user_order_blocked'' else ''risk.user_allow'') in
      rs_log action (actor_of user_id) reason
        (Some (if blocked then action else ''risk.order_allowed'')) rs)"

definition unknown_user :: "risk_service \<Rightarrow> string option \<Rightarrow> bool" where
  "unknown_user rs user_id =
     (user_id \<noteq> None \<and> rs_user_resolver rs \<noteq> None \<and> resolve_user rs user_id = None)"

abbreviation no_profile_reason :: fstring where
  "no_profile_reason \<equiv> [L ''No per-user risk profile configured for this trader'']"

abbreviation user_engaged_reason :: fstring where
  "user_engaged_reason \<equiv> [L ''Kill switch engaged for this trader'']"

definition rs_can_trade :: "position list \<Rightarrow> string option \<Rightarrow> risk_service \<Rightarrow> trade_verdict \<times> risk_service" where
  "rs_can_trade positions user_id rs =
     (let profile = resolve_user rs user_id in
      if unknown_user rs user_id
      then (refuse no_profile_reason, audit_user True user_id no_profile_reason rs)
      else if (case profile of None \<Rightarrow> False | Some p \<Rightarrow> pr_engaged p)
      then (refuse user_engaged_reason, audit_user True user_id user_engaged_reason rs)
      else
        let effective_max_positions =
              (case profile of None \<Rightarrow> rs_max_positions_total rs | Some p \<Rightarrow> pr_max_positions_total p);
            verdict = ks_can_trade (rs_kill_switch rs)
        in if \<not> allowed verdict
           then (verdict, rs_log ''risk.kill_switch'' ''system'' (v_reason verdict)
                            (Some ''circuit_breaker.tripped'') rs)
           else if (case rs_persistent rs of None \<Rightarrow> False | Some p \<Rightarrow> \<not> pk_can_trade p)
           then let reason = [L ''Persistent kill switch engaged''] in
                (refuse reason, rs_log ''risk.kill_switch'' ''system'' reason
                                  (Some ''circuit_breaker.tripped'') rs)
           else if effective_max_positions \<le> int (length positions)
           then let reason = [L ''Max positions ('', Z effective_max_positions, L '') reached''] in
                (refuse reason, rs_log ''risk.position_limit'' ''system'' reason None rs)
           else (allow, rs))"

definition rs_record_realized_pnl :: "int \<Rightarrow> float64 \<Rightarrow> risk_service \<Rightarrow> risk_service" where
  "rs_record_realized_pnl today pnl rs =
     rs\<lparr>rs_kill_switch := ks_record_realized_pnl today pnl (rs_kill_switch rs),
        rs_persistent := map_option (pk_record_realized_pnl pnl) (rs_persistent rs)\<rparr>"

subsection \<open>The per-order gate\<close>

definition block_order :: "uuid \<Rightarrow> string \<Rightarrow> fstring \<Rightarrow> string option \<Rightarrow> risk_service
    \<Rightarrow> trade_verdict \<times> risk_service" where
  "block_order market_id side reason user_id rs =
     (refuse reason,
      rs_log ''risk.order_blocked'' (actor_of user_id)
        ([L ''side='', L side, L '' market='', L market_id, L '' reason=''] @ reason)
        (Some ''risk.order_blocked'') rs)"

record order_request =
  or_market_id :: uuid
  or_side :: string
  or_quantity :: float64
  or_price :: float64
  or_equity :: float64
  or_existing_gross :: float64
  or_last_candle_at :: "datetime option"
  or_now :: "datetime option"
  or_user_id :: "string option"

definition eff_daily_limit :: "risk_service \<Rightarrow> order_request \<Rightarrow> float64" where
  "eff_daily_limit rs r =
     (case ks_daily_loss_limit (rs_kill_switch rs) of
        Some l \<Rightarrow> l
      | None \<Rightarrow> or_equity r * (case resolve_user rs (or_user_id r) of
                   None \<Rightarrow> rs_daily_loss_pct rs | Some p \<Rightarrow> pr_daily_loss_pct p))"

definition eff_allowed :: "risk_service \<Rightarrow> order_request \<Rightarrow> uuid list" where
  "eff_allowed rs r = (case resolve_user rs (or_user_id r) of
     None \<Rightarrow> rs_allowed_markets rs | Some p \<Rightarrow> pr_allowed_markets p)"

definition eff_max_pos :: "risk_service \<Rightarrow> order_request \<Rightarrow> float64" where
  "eff_max_pos rs r = (case resolve_user rs (or_user_id r) of
     None \<Rightarrow> rs_max_position_size rs | Some p \<Rightarrow> pr_max_position_size p)"

definition eff_gross :: "risk_service \<Rightarrow> order_request \<Rightarrow> float64" where
  "eff_gross rs r = (case resolve_user rs (or_user_id r) of
     None \<Rightarrow> rs_max_gross_exposure rs | Some p \<Rightarrow> pr_max_gross_exposure p)"

text \<open>The staleness of the data in seconds, when both instants are known.\<close>

definition staleness :: "order_request \<Rightarrow> float64 option" where
  "staleness r = (case (or_last_candle_at r, or_now r) of
     (Some seen, Some now) \<Rightarrow> Some (total_seconds (now - seen)) | _ \<Rightarrow> None)"

definition authorize_order :: "order_request \<Rightarrow> risk_service \<Rightarrow> trade_verdict \<times> risk_service" where
  "authorize_order r rs =
     (let user_id = or_user_id r; profile = resolve_user rs user_id;
          block = (\<lambda>reason. block_order (or_market_id r) (or_side r) reason user_id rs) in
      if unknown_user rs user_id
      then (refuse no_profile_reason, audit_user True user_id no_profile_reason rs)
      else if (case profile of None \<Rightarrow> False | Some p \<Rightarrow> pr_engaged p)
      then (refuse user_engaged_reason, audit_user True user_id user_engaged_reason rs)
      else if or_equity r \<le> 0
      then block [L ''Cannot size order against non-positive equity: '', F (or_equity r)]
      else
      let daily_limit = eff_daily_limit rs r; realized = \<bar>ks_daily_pnl (rs_kill_switch rs)\<bar> in
      if daily_limit \<le> realized
      then block [L ''Daily loss limit reached: '', FX 2 realized, L '' >= '', FX 2 daily_limit]
      else if eff_allowed rs r \<noteq> [] \<and> or_market_id r \<notin> set (eff_allowed rs r)
      then block [L ''Market '', L (or_market_id r), L '' is not on the configured allowlist'']
      else if (case staleness r of None \<Rightarrow> False | Some s \<Rightarrow> rs_max_data_staleness_seconds rs < s)
      then block [L ''Market data stale: last candle '', FX 0 (the (staleness r)),
                  L ''s old (threshold '', FX 0 (rs_max_data_staleness_seconds rs), L ''s)'']
      else
      let notional = or_quantity r * or_price r; cap = or_equity r * eff_max_pos rs r in
      if cap < notional
      then block [L ''Order notional '', FX 2 notional, L '' exceeds max_position_size ('',
                  F (eff_max_pos rs r), L '' of equity = '', FX 2 cap, L '')'']
      else
      let gross_cap = or_equity r * eff_gross rs r;
          total_exposure = or_existing_gross r + notional in
      if gross_cap < or_existing_gross r
      then block [L ''Portfolio gross exposure '', FX 2 (or_existing_gross r),
                  L '' already exceeds cap ('', F (eff_gross rs r), L '' of equity = '',
                  FX 2 gross_cap, L '')'']
      else if gross_cap < total_exposure
      then block [L ''Order would push gross exposure to '', FX 2 total_exposure,
                  L '', over cap ('', F (eff_gross rs r), L '' of equity = '', FX 2 gross_cap, L '')'']
      else
      let verdict = ks_can_trade (rs_kill_switch rs) in
      if \<not> allowed verdict then (verdict, rs)
      else (allow,
            if user_id \<noteq> None \<and> rs_user_resolver rs \<noteq> None
            then audit_user False user_id [L ''order '', L (or_market_id r), L '' allowed''] rs
            else rs))"

subsection \<open>Sizing and portfolio measures\<close>

definition assess_trade :: "float64 \<Rightarrow> float64 \<Rightarrow> float64 \<Rightarrow> float64 \<Rightarrow> float64 option
    \<Rightarrow> risk_service \<Rightarrow> risk_assessment res" where
  "assess_trade price confidence atr account_equity win_rate rs =
     (let stop_loss = price - atr * lit 2; take_profit = price + atr * lit 3;
          risk = price - stop_loss; max_risk = account_equity * lit 0.02;
          mk = (\<lambda>k why. \<lparr>kelly_fraction = k, suggested_stop_loss = stop_loss,
                 suggested_take_profit = take_profit, risk_per_unit = risk,
                 max_risk_amount = max_risk, ra_reason = why\<rparr>) in
      case win_rate of
        None \<Rightarrow> Inr (mk 0 [L ''no measured win rate is available for this strategy; a Kelly size cannot be computed and none is invented''])
      | Some w \<Rightarrow>
          if w \<le> 0 \<or> 1 \<le> w
          then Inr (mk 0 [L ''win_rate='', F w,
                 L '' is not a usable probability in (0, 1); no position size is asserted''])
          else rbind (py_div w (1 - w)) (\<lambda>b.
               rbind (py_div (b * confidence - (1 - confidence)) b) (\<lambda>kelly.
               Inr (mk (py_max 0 (py_min kelly (rs_max_position_size rs))) []))))"

definition pos_value :: "position \<Rightarrow> float64" where
  "pos_value p = p_quantity p * p_current_price p"

definition pos_return :: "position \<Rightarrow> float64 res" where
  "pos_return p = (if truthy (p_entry_price p)
     then py_div (p_current_price p - p_entry_price p) (p_entry_price p) else Inr 0)"

text \<open>\<open>x ** 2\<close> of a float is the rounded square.\<close>

definition compute_var :: "position list \<Rightarrow> risk_service \<Rightarrow> float64 res" where
  "compute_var positions rs =
     (if positions = [] then Inr 0
      else let total_value = py_sum (map pos_value positions) in
        if feq total_value 0 then Inr 0
        else rbind (mapr (\<lambda>p. py_div (pos_value p) total_value) positions) (\<lambda>weights.
             rbind (mapr pos_return positions) (\<lambda>returns.
             let mean = py_sum (map2 (\<lambda>w r. w * r) weights returns);
                 variance = py_sum (map2 (\<lambda>w r. w * ((r - mean) * (r - mean))) weights returns) in
             rbind (if 0 < variance then py_sqrt variance else Inr 0) (\<lambda>std.
             Inr (rs_var_confidence rs * std * total_value)))))"

fun drawdown_loop :: "float64 \<Rightarrow> float64 \<Rightarrow> float64 list \<Rightarrow> float64 res" where
  "drawdown_loop peak max_dd [] = Inr max_dd"
| "drawdown_loop peak max_dd (v # vs) =
     (let peak' = py_max peak v in
      rbind (py_div (peak' - v) peak') (\<lambda>dd. drawdown_loop peak' (py_max max_dd dd) vs))"

definition compute_max_drawdown :: "float64 list \<Rightarrow> float64 res" where
  "compute_max_drawdown curve =
     (case curve of [] \<Rightarrow> Inr 0 | v # _ \<Rightarrow> drawdown_loop v 0 curve)"

definition check_concentration :: "position list \<Rightarrow> risk_service \<Rightarrow> portfolio_risk res" where
  "check_concentration positions rs =
     (if positions = []
      then Inr \<lparr>var_95 = 0, max_drawdown = 0, concentration_risk = [], num_over_limit = 0\<rparr>
      else let total = py_sum (map pos_value positions) in
        rbind (mapr (\<lambda>p. rbind (py_div (pos_value p) total) (\<lambda>pct. Inr (p_market_id p, pct))) positions)
          (\<lambda>concentrations.
        rbind (compute_var positions rs) (\<lambda>var.
        Inr \<lparr>var_95 = var, max_drawdown = rs_max_drawdown_limit rs,
             concentration_risk = concentrations,
             num_over_limit =
               int (length (filter (\<lambda>(_, pct). rs_max_position_size rs < pct) concentrations))\<rparr>)))"

definition enforce_limits :: "position \<Rightarrow> portfolio_risk \<Rightarrow> risk_service \<Rightarrow> bool" where
  "enforce_limits p risk rs =
     (if 0 < num_over_limit risk then False
      else let drawdown_limit = rs_max_drawdown_limit rs * p_quantity p * p_entry_price p in
        \<not> (p_pnl p < 0 \<and> drawdown_limit < \<bar>p_pnl p\<bar>))"

subsection \<open>What an authorised order satisfies\<close>

text \<open>
  The rails as a specification: each is the negation of a refusal, so on numbers (no
  \<open>NaN\<close>) it is the inequality a reader expects (\<open>rails_on_numbers\<close>).
\<close>

definition order_rails :: "risk_service \<Rightarrow> order_request \<Rightarrow> bool" where
  "order_rails rs r =
     (\<not> unknown_user rs (or_user_id r) \<and>
      (case resolve_user rs (or_user_id r) of None \<Rightarrow> True | Some p \<Rightarrow> \<not> pr_engaged p) \<and>
      \<not> or_equity r \<le> 0 \<and>
      \<not> eff_daily_limit rs r \<le> \<bar>ks_daily_pnl (rs_kill_switch rs)\<bar> \<and>
      (eff_allowed rs r = [] \<or> or_market_id r \<in> set (eff_allowed rs r)) \<and>
      (case staleness r of None \<Rightarrow> True | Some s \<Rightarrow> \<not> rs_max_data_staleness_seconds rs < s) \<and>
      \<not> or_equity r * eff_max_pos rs r < or_quantity r * or_price r \<and>
      \<not> or_equity r * eff_gross rs r < or_existing_gross r \<and>
      \<not> or_equity r * eff_gross rs r < or_existing_gross r + or_quantity r * or_price r \<and>
      allowed (ks_can_trade (rs_kill_switch rs)))"

lemma allowed_block [simp]: "allowed (fst (block_order m s x u rs)) = False"
  by (simp add: block_order_def)

lemma authorize_order_iff: "allowed (fst (authorize_order r rs)) \<longleftrightarrow> order_rails rs r"
  unfolding authorize_order_def order_rails_def Let_def
  by (auto simp del: NaN_ops split: option.splits)

lemma rs_log_frame [simp]:
  "rs_kill_switch (rs_log a b c d rs) = rs_kill_switch rs"
  "rs_persistent (rs_log a b c d rs) = rs_persistent rs"
  "rs_user_resolver (rs_log a b c d rs) = rs_user_resolver rs"
  "rs_max_gross_exposure (rs_log a b c d rs) = rs_max_gross_exposure rs"
  "rs_max_position_size (rs_log a b c d rs) = rs_max_position_size rs"
  "rs_allowed_markets (rs_log a b c d rs) = rs_allowed_markets rs"
  "rs_daily_loss_pct (rs_log a b c d rs) = rs_daily_loss_pct rs"
  "rs_max_data_staleness_seconds (rs_log a b c d rs) = rs_max_data_staleness_seconds rs"
  by (simp_all add: rs_log_def)

text \<open>The gate writes to its ports only: no rail and no switch changes.\<close>

lemma authorize_order_frame [frame_simps]:
  "rs_kill_switch (snd (authorize_order r rs)) = rs_kill_switch rs"
  "rs_persistent (snd (authorize_order r rs)) = rs_persistent rs"
  "rs_user_resolver (snd (authorize_order r rs)) = rs_user_resolver rs"
  "rs_max_gross_exposure (snd (authorize_order r rs)) = rs_max_gross_exposure rs"
  by (simp_all add: authorize_order_def block_order_def audit_user_def Let_def split: option.split)

text \<open>Requests whose numbers are finite, and what the rails say of them.\<close>

definition finite_request :: "risk_service \<Rightarrow> order_request \<Rightarrow> bool" where
  "finite_request rs r = list_all isfinite
     [or_equity r, or_quantity r, or_price r, or_existing_gross r, eff_max_pos rs r, eff_gross rs r,
      eff_daily_limit rs r, ks_daily_pnl (rs_kill_switch rs), rs_max_data_staleness_seconds rs]"

lemma mult_not_NaN: "isfinite x \<Longrightarrow> isfinite y \<Longrightarrow> x * y \<noteq> NaN"
  by (auto simp: isfinite_iff)

lemma add_not_NaN: "isfinite x \<Longrightarrow> y \<noteq> NaN \<Longrightarrow> x + y \<noteq> NaN"
  by (cases y) (auto simp: isfinite_iff plus_float64_def)

lemma isfinite_not_NaN: "isfinite x \<Longrightarrow> x \<noteq> NaN \<and> \<bar>x\<bar> \<noteq> NaN"
  by (auto simp: isfinite_iff)

lemma rails_on_numbers:
  assumes "order_rails rs r" and "finite_request rs r"
  shows "0 < or_equity r"
    and "or_quantity r * or_price r \<le> or_equity r * eff_max_pos rs r"
    and "or_existing_gross r + or_quantity r * or_price r \<le> or_equity r * eff_gross rs r"
    and "\<bar>ks_daily_pnl (rs_kill_switch rs)\<bar> < eff_daily_limit rs r"
    and "\<And>s. staleness r = Some s \<Longrightarrow> s \<le> rs_max_data_staleness_seconds rs"
proof -
  note fin = assms(2) [unfolded finite_request_def list.pred_inject]
  show "0 < or_equity r"
    using assms(1) fin by (simp add: order_rails_def zero_eq_Fin float_not_le isfinite_not_NaN)
  show "or_quantity r * or_price r \<le> or_equity r * eff_max_pos rs r"
    using assms(1) fin by (simp add: order_rails_def float_not_less mult_not_NaN)
  show "or_existing_gross r + or_quantity r * or_price r \<le> or_equity r * eff_gross rs r"
    using assms(1) fin by (simp add: order_rails_def float_not_less mult_not_NaN add_not_NaN)
  show "\<bar>ks_daily_pnl (rs_kill_switch rs)\<bar> < eff_daily_limit rs r"
    using assms(1) fin by (simp add: order_rails_def float_not_le isfinite_not_NaN)
  show "s \<le> rs_max_data_staleness_seconds rs" if "staleness r = Some s" for s
  proof -
    have "s \<noteq> NaN" using that by (auto simp: staleness_def total_seconds_def split: option.splits)
    then show ?thesis
      using assms(1) fin that by (simp add: order_rails_def float_not_less isfinite_not_NaN)
  qed
qed


definition sample_request :: order_request where
  "sample_request = \<lparr>or_market_id = ''m'', or_side = ''buy'', or_quantity = Fin 2, or_price = Fin 50,
     or_equity = Fin 1000, or_existing_gross = Fin 100, or_last_candle_at = Some 0,
     or_now = Some 60000000, or_user_id = None\<rparr>"

lemmas sample_simps = sample_request_def new_risk_service_def new_kill_switch_def
  resolve_user_def eff_max_pos_def eff_gross_def eff_daily_limit_def eff_allowed_def
  DEFAULT_DAILY_LOSS_PCT_def unknown_user_def

lemma sample_float_eval:
  "rnd (1/4) = Fin (1/4)" "rnd 300 = Fin 300" "rnd 60 = Fin 60" "rnd 100 = Fin 100"
  "rnd 200 = Fin 200" "rnd 250 = Fin 250" "rnd 1000 = Fin 1000" "isfinite (rnd (1/50))"
  "isfinite (Fin 1000 * rnd (1/50))" "Fin 0 < Fin 1000 * rnd (1/50)"
  by (simp_all add: float_eval)


text \<open>
  A sequence of submissions at one equity: each request meets the exposure the accepted
  ones before it have built up.
\<close>

fun submit_chain :: "order_request list \<Rightarrow> float64 \<Rightarrow> risk_service \<Rightarrow> float64 \<times> risk_service" where
  "submit_chain [] gross rs = (gross, rs)"
| "submit_chain (r # rest) gross rs =
     (let (v, rs') = authorize_order (r\<lparr>or_existing_gross := gross\<rparr>) rs in
      submit_chain rest (if allowed v then gross + or_quantity r * or_price r else gross) rs')"

lemma add_nonneg_float: "0 \<le> x \<Longrightarrow> 0 \<le> y \<Longrightarrow> 0 \<le> x + (y :: float64)"
  by (cases x; cases y) (auto simp: zero_eq_Fin plus_float64_def intro: rnd_nonneg)

lemma eff_gross_frame: "eff_gross (snd (authorize_order r rs)) q = eff_gross rs q"
  unfolding eff_gross_def resolve_user_def authorize_order_frame ..

lemma eff_gross_user: "or_user_id q = or_user_id r \<Longrightarrow> eff_gross rs q = eff_gross rs r"
  by (simp add: eff_gross_def)

lemma authorised_step_within_cap:
  assumes "allowed (fst (authorize_order (r\<lparr>or_existing_gross := g\<rparr>) rs))"
    and "0 \<le> g" and "0 \<le> or_quantity r * or_price r"
    and "or_equity r * eff_gross rs r \<noteq> NaN"
  shows "g + or_quantity r * or_price r \<le> or_equity r * eff_gross rs r"
proof -
  have "g + or_quantity r * or_price r \<noteq> NaN"
    using add_nonneg_float [OF assms(2,3)] by auto
  moreover have "\<not> or_equity r * eff_gross rs r < g + or_quantity r * or_price r"
    using assms(1) by (simp add: authorize_order_iff order_rails_def eff_gross_def)
  ultimately show ?thesis using assms(4) by (simp add: float_not_less)
qed

text \<open>
  C14. Exposure cap as an invariant: whatever non-negative orders a trader submits, in any
  order and however many are refused, the exposure built up by the authorised ones never
  exceeds the gross cap.
\<close>

theorem gross_cap_invariant:
  assumes "\<forall>r \<in> set rs'. or_equity r = E \<and> or_user_id r = u \<and> 0 \<le> or_quantity r * or_price r"
    and "0 \<le> g" and "g \<le> E * eff_gross s (q\<lparr>or_user_id := u\<rparr>)"
  shows "fst (submit_chain rs' g s) \<le> E * eff_gross s (q\<lparr>or_user_id := u\<rparr>)"
  using assms
proof (induction rs' arbitrary: g s)
  case Nil
  then show ?case by simp
next
  case (Cons r rest)
  let ?cap = "E * eff_gross s (q\<lparr>or_user_id := u\<rparr>)"
  obtain v s' where v: "authorize_order (r\<lparr>or_existing_gross := g\<rparr>) s = (v, s')" by fastforce
  let ?g' = "if allowed v then g + or_quantity r * or_price r else g"
  have r: "or_equity r = E" "or_user_id r = u" "0 \<le> or_quantity r * or_price r"
    using Cons.prems(1) by auto
  have cap: "or_equity r * eff_gross s r = ?cap"
    using r eff_gross_user [of "q\<lparr>or_user_id := u\<rparr>" r s] by simp
  have "allowed v \<Longrightarrow> g + or_quantity r * or_price r \<le> ?cap"
    using authorised_step_within_cap [of g r s] v r Cons.prems(2,3) le_not_NaN cap by fastforce
  then have "?g' \<le> ?cap" and "0 \<le> ?g'"
    using Cons.prems r add_nonneg_float by auto
  moreover have "eff_gross s' (q\<lparr>or_user_id := u\<rparr>) = eff_gross s (q\<lparr>or_user_id := u\<rparr>)"
    by (metis eff_gross_frame snd_conv v)
  ultimately have "fst (submit_chain rest ?g' s') \<le> E * eff_gross s' (q\<lparr>or_user_id := u\<rparr>)"
    using Cons.prems(1) by (intro Cons.IH) auto
  then show ?case
    using v \<open>eff_gross s' _ = eff_gross s _\<close> by simp
qed

theorem gross_cap_invariant_witness:
  "fst (submit_chain [sample_request, sample_request, sample_request] (Fin 100) (new_risk_service 0))
     \<le> Fin 1000 * eff_gross (new_risk_service 0) (sample_request\<lparr>or_user_id := None\<rparr>)"
  by (rule gross_cap_invariant)
    (simp_all add: sample_simps zero_eq_Fin one_eq_Fin sample_float_eval)

text \<open>
  The gate is open to a \<open>NaN\<close> equity: every comparison against it is false, so with
  the default (equity-relative) limits an order of any size passes all of the rails, on any
  exposure.
\<close>

theorem nan_equity_is_authorised:
  assumes "or_equity r = NaN" and "or_user_id r = None"
    and "ks_daily_loss_limit (rs_kill_switch rs) = None" and "allowed (ks_can_trade (rs_kill_switch rs))"
    and "rs_allowed_markets rs = []" and "or_last_candle_at r = None"
  shows "authorize_order r rs = (allow, rs)"
  using assms by (simp add: authorize_order_def unknown_user_def resolve_user_def eff_daily_limit_def
      eff_allowed_def staleness_def Let_def split: option.split)

theorem nan_equity_is_authorised_witness:
  "authorize_order (sample_request\<lparr>or_equity := NaN, or_quantity := PosInf, or_last_candle_at := None\<rparr>)
     (new_risk_service 0) = (allow, new_risk_service 0)"
  by (rule nan_equity_is_authorised) (simp_all add: sample_simps ks_can_trade_def)

subsection \<open>Sizing\<close>

lemma py_max_ge: "a \<noteq> NaN \<Longrightarrow> a \<le> py_max a b"
  by (auto simp: py_max_def float_le_refl intro: float_less_imp_le)

lemma py_max_le: "a \<le> c \<Longrightarrow> b \<le> c \<or> b = NaN \<Longrightarrow> py_max a b \<le> c"
  by (auto simp: py_max_def)

lemma py_min_le: "b \<noteq> NaN \<Longrightarrow> py_min a b \<le> b \<or> py_min a b = NaN"
  by (cases "a = NaN") (auto simp: py_min_def float_not_less float_le_refl)

lemma quotient_not_smaller:
  assumes "is_double (Fin w)" and "0 < w" and "0 < d" and "d \<le> 1"
  shows "Fin w \<le> rnd (w / d)"
proof -
  have "w \<le> w / d" using assms by (simp add: field_simps mult_le_cancel_left1)
  then have "rnd w \<le> rnd (w / d)" by (rule rnd_mono)
  then show ?thesis using assms(1) by simp
qed

lemma rnd_1 [simp]: "rnd 1 = Fin 1"
  using rnd_of_int [of 1] by simp

lemma kelly_odds:
  assumes "is_double w" and "\<not> (w \<le> 0 \<or> 1 \<le> w)" and "w \<noteq> NaN"
  shows "\<exists>b. py_div w (1 - w) = Inr b \<and> \<not> feq b 0"
proof -
  obtain a where a: "w = Fin a" "0 < a" "a < 1"
    using assms(2,3) by (cases w) (auto simp: zero_eq_Fin one_eq_Fin)
  have pos: "Fin 0 < rnd (1 - a)"
    using rnd_diff_pos_iff [of 1 a] assms(1) a by simp
  moreover have "rnd (1 - a) \<le> rnd 1" by (rule rnd_mono) (use a in simp)
  ultimately obtain d where d: "rnd (1 - a) = Fin d" "0 < d" "d \<le> 1"
    by (cases "rnd (1 - a)") auto
  have "Fin a \<le> rnd (a / d)"
    by (rule quotient_not_smaller) (use assms(1) a d in auto)
  then have "\<not> feq (rnd (a / d)) 0"
    using a by (auto simp: feq_iff zero_eq_Fin)
  then show ?thesis using d by (simp add: a one_eq_Fin zero_eq_Fin py_div_def)
qed

text \<open>
  Sizing is total and bounded: for a double win rate that is a number (or none at
  all) \<open>assess_trade\<close> never raises, whatever the prices and the confidence, the Kelly
  fraction lies between zero and \<open>max_position_size\<close>, it is zero when no win rate was
  measured, and a zero for such a reason always says why.
\<close>

theorem assess_trade_total_bounded:
  assumes "case w of None \<Rightarrow> True | Some x \<Rightarrow> is_double x \<and> x \<noteq> NaN"
    and "0 \<le> rs_max_position_size rs"
  shows "\<exists>a. assess_trade price confidence atr equity w rs = Inr a \<and>
    0 \<le> kelly_fraction a \<and> kelly_fraction a \<le> rs_max_position_size rs \<and>
    (case w of None \<Rightarrow> kelly_fraction a = 0 \<and> ra_reason a \<noteq> []
     | Some x \<Rightarrow> x \<le> 0 \<or> 1 \<le> x \<longrightarrow> kelly_fraction a = 0 \<and> ra_reason a \<noteq> [])"
proof (cases w)
  case None
  with assms show ?thesis by (simp add: assess_trade_def Let_def zero_eq_Fin)
next
  case (Some x)
  show ?thesis
  proof (cases "x \<le> 0 \<or> 1 \<le> x")
    case True
    with Some assms show ?thesis by (simp add: assess_trade_def Let_def zero_eq_Fin)
  next
    case False
    with Some assms obtain b where b: "py_div x (1 - x) = Inr b" "\<not> feq b 0"
      using kelly_odds by auto
    have "py_div (b * confidence - (1 - confidence)) b =
        Inr (fquot (b * confidence - (1 - confidence)) b)"
      using b(2) by (simp add: py_div_def)
    moreover have "0 \<le> py_max 0 (py_min k (rs_max_position_size rs))"
      and "py_max 0 (py_min k (rs_max_position_size rs)) \<le> rs_max_position_size rs" for k
      using assms(2) py_min_le [of "rs_max_position_size rs" k] le_not_NaN
      by (auto intro!: py_max_ge py_max_le simp: zero_eq_Fin)
    ultimately show ?thesis
      using Some False b(1) by (simp add: assess_trade_def Let_def)
  qed
qed

theorem assess_trade_total_bounded_witness:
  "\<exists>a. assess_trade (Fin 100) (Fin (3/4)) (Fin 1) (Fin 10000) (Some (Fin (1/2))) (new_risk_service 0) = Inr a \<and>
     kelly_fraction a \<le> rs_max_position_size (new_risk_service 0)"
  using assess_trade_total_bounded [of "Some (Fin (1/2))" "new_risk_service 0" "Fin 100" "Fin (3/4)"
      "Fin 1" "Fin 10000"]
  by (auto simp: new_risk_service_def sample_float_eval zero_eq_Fin float_eval)

subsection \<open>Drawdown and concentration\<close>

lemma drawdown_step_bounds:
  assumes "is_double (Fin p)" and "0 < p" and "0 \<le> v" and "v \<le> p"
  shows "\<exists>d. py_div (Fin p - Fin v) (Fin p) = Inr d \<and> 0 \<le> d \<and> d \<le> 1"
proof -
  have "Fin 0 \<le> rnd (p - v)" using assms by (intro rnd_nonneg) simp
  moreover have "rnd (p - v) \<le> rnd p" using assms by (intro rnd_mono) simp
  ultimately obtain x where x: "rnd (p - v) = Fin x" "0 \<le> x" "x \<le> p"
    using assms(1) by (cases "rnd (p - v)") auto
  have "rnd (x / p) \<le> rnd 1" using x assms by (intro rnd_mono) simp
  moreover have "Fin 0 \<le> rnd (x / p)" using x assms by (intro rnd_nonneg) simp
  ultimately show ?thesis using x assms(2) by (simp add: py_div_def zero_eq_Fin one_eq_Fin)
qed

lemma drawdown_loop_bounds:
  assumes "is_double (Fin p)" and "0 < p" and "0 \<le> m" and "m \<le> 1"
    and "\<forall>x \<in> set vs. \<exists>v. x = Fin v \<and> 0 \<le> v \<and> is_double x"
  shows "\<exists>d. drawdown_loop (Fin p) m vs = Inr d \<and> m \<le> d \<and> d \<le> 1"
  using assms
proof (induction vs arbitrary: p m)
  case Nil
  then show ?case using le_not_NaN float_le_refl by auto
next
  case (Cons x vs)
  obtain v where v: "x = Fin v" "0 \<le> v" "is_double (Fin v)" using Cons.prems(5) by auto
  define q where "q = max p v"
  have q: "py_max (Fin p) x = Fin q" "is_double (Fin q)" "0 < q" "v \<le> q"
    using Cons.prems(1,2) v by (auto simp: py_max_def q_def max_def)
  obtain d where d: "py_div (Fin q - Fin v) (Fin q) = Inr d" "0 \<le> d" "d \<le> 1"
    using drawdown_step_bounds [OF q(2,3) v(2) q(4)] by blast
  have m: "m \<le> py_max m d" "py_max m d \<le> 1"
    using Cons.prems(3,4) d le_not_NaN by (auto intro!: py_max_ge py_max_le)
  obtain r where "drawdown_loop (Fin q) (py_max m d) vs = Inr r" "py_max m d \<le> r" "r \<le> 1"
    using Cons.IH [OF q(2,3) _ m(2)] Cons.prems(3,5) m(1) float_le_trans by fastforce
  with q(1) d(1) m(1) v(1) show ?case by (auto simp: Let_def intro: float_le_trans)
qed

text \<open>
  On an equity curve of non-negative doubles that starts above zero the maximum
  drawdown is computed without an exception and is a fraction between 0 and 1.
\<close>

theorem max_drawdown_bounds:
  assumes "Fin 0 < v" and "\<forall>x \<in> set (v # vs). isfinite x \<and> is_double x \<and> 0 \<le> x"
  shows "\<exists>d. compute_max_drawdown (v # vs) = Inr d \<and> 0 \<le> d \<and> d \<le> 1"
proof -
  obtain p where p: "v = Fin p" "0 < p" "is_double (Fin p)"
    using assms by (auto simp: isfinite_iff)
  have "\<forall>x \<in> set (v # vs). \<exists>u. x = Fin u \<and> 0 \<le> u \<and> is_double x"
    using assms(2) by (auto simp: isfinite_iff zero_eq_Fin)
  then show ?thesis
    using drawdown_loop_bounds [OF p(3,2), of 0 "v # vs"]
    by (simp add: compute_max_drawdown_def p(1) zero_eq_Fin one_eq_Fin del: drawdown_loop.simps)
qed

theorem max_drawdown_bounds_witness:
  "\<exists>d. compute_max_drawdown [Fin 100, Fin 50, Fin 200] = Inr d \<and> 0 \<le> d \<and> d \<le> 1"
  by (rule max_drawdown_bounds) (auto simp: zero_eq_Fin sample_float_eval float_eval)

text \<open>
  A book whose values cancel: \<open>compute_var\<close> guards the zero total and returns 0,
  while \<open>check_concentration\<close> divides by it and raises \<open>ZeroDivisionError\<close>.
\<close>

theorem offset_book_raises:
  assumes "positions \<noteq> []" and "feq (py_sum (map pos_value positions)) 0"
  shows "compute_var positions rs = Inr 0 \<and>
    check_concentration positions rs = Inl ZeroDivisionError"
proof -
  obtain p ps where "positions = p # ps" using assms(1) by (cases positions) auto
  then show ?thesis using assms by (simp add: compute_var_def check_concentration_def py_div_def Let_def)
qed

definition sample_position :: "float64 \<Rightarrow> position" where
  "sample_position q = \<lparr>p_market_id = ''m'', p_quantity = q, p_entry_price = Fin 1,
     p_current_price = Fin 1, p_pnl = 0, p_realized_pnl = 0, p_id = ''p'', p_created_at = 0,
     p_updated_at = 0\<rparr>"

theorem offset_book_raises_witness:
  "check_concentration [sample_position (Fin 1), sample_position (Fin (- 1))] (new_risk_service 0)
     = Inl ZeroDivisionError"
  using offset_book_raises [of "[sample_position (Fin 1), sample_position (Fin (- 1))]"
      "new_risk_service 0"]
  by (simp add: sample_position_def pos_value_def py_sum_def zero_eq_Fin rnd_uminus Let_def truthy_def)

end
