(* ===== verification/Portfolio.thy ===== *)
theory Portfolio
  imports Repositories Risk
begin

text \<open>
  \<open>domain/services/portfolio_service.py\<close>: sizing, opening, filling and closing over the
  repositories.

  A method that may raise half-way returns the service it leaves behind together with the
  exception, because the repositories it has already written to keep the writes.
\<close>

record portfolio_service =
  ps_trades :: "trade store"
  ps_positions :: "position store"
  ps_audit :: audit_log
  ps_risk :: "risk_service option"

record portfolio_summary =
  sm_total_equity :: float64
  sm_cash :: float64
  sm_positions_value :: float64
  sm_open_positions :: "position list"
  sm_total_pnl :: float64
  sm_position_count :: int

definition get_summary :: "float64 \<Rightarrow> portfolio_service \<Rightarrow> portfolio_summary" where
  "get_summary cash ps =
     (let positions = positions_list_open (ps_positions ps);
          positions_value = py_sum (map (\<lambda>p. p_quantity p * p_current_price p) positions);
          total_pnl = py_sum (map p_pnl positions) in
      \<lparr>sm_total_equity = cash + positions_value, sm_cash = cash, sm_positions_value = positions_value,
       sm_open_positions = positions, sm_total_pnl = total_pnl,
       sm_position_count = int (length positions)\<rparr>)"

definition size_position :: "float64 \<Rightarrow> float64 \<Rightarrow> float64 \<Rightarrow> float64 \<Rightarrow> float64 \<Rightarrow> float64 res" where
  "size_position cash confidence price risk_per_trade max_allocation =
     (let allocation = py_min (risk_per_trade * confidence * Fin 10) max_allocation in
      if price \<le> 0 then Inr 0
      else rbind (py_div (cash * allocation) price) (\<lambda>q. Inr (py_round q 8)))"

definition compute_pnl :: "position \<Rightarrow> float64 \<Rightarrow> float64" where
  "compute_pnl p market_price = p_quantity p * (market_price - p_entry_price p)"

definition put_position :: "position \<Rightarrow> portfolio_service \<Rightarrow> portfolio_service" where
  "put_position p ps = ps\<lparr>ps_positions := snd (repo_update p_id p (ps_positions ps))\<rparr>"

definition put_trade :: "trade \<Rightarrow> portfolio_service \<Rightarrow> portfolio_service" where
  "put_trade t ps = ps\<lparr>ps_trades := snd (repo_update t_id t (ps_trades ps))\<rparr>"

definition update_position ::
  "datetime \<Rightarrow> position \<Rightarrow> float64 \<Rightarrow> portfolio_service \<Rightarrow> position \<times> portfolio_service" where
  "update_position now p market_price ps =
     (let p' = update_price now market_price p in (p', put_position p' ps))"

definition side_value :: "trade_side \<Rightarrow> string" where
  "side_value sd = (case sd of BUY \<Rightarrow> ''buy'' | SELL \<Rightarrow> ''sell'')"

definition ps_log :: "string \<Rightarrow> string \<Rightarrow> fstring \<Rightarrow> portfolio_service \<Rightarrow> portfolio_service" where
  "ps_log action resource detail ps =
     ps\<lparr>ps_audit := audit_rec action ''system'' resource detail (ps_audit ps)\<rparr>"

definition open_trade ::
  "uuid \<Rightarrow> datetime \<Rightarrow> uuid \<Rightarrow> uuid \<Rightarrow> trade_side \<Rightarrow> float64 \<Rightarrow> float64 \<Rightarrow> portfolio_service \<Rightarrow>
   trade \<times> portfolio_service" where
  "open_trade fresh now signal market sd quantity price ps =
     (let t = new_trade fresh now signal market sd quantity price;
          (result, trades) = repo_add t_id t (ps_trades ps) in
      (result, ps_log ''trade.open'' market
         [L ''side='', L (side_value sd), L '' qty='', F quantity, L '' price='', F price,
          L '' trade_id='', L (t_id result)]
         (ps\<lparr>ps_trades := trades\<rparr>)))"

definition update_trade :: "trade \<Rightarrow> portfolio_service \<Rightarrow> trade \<times> portfolio_service" where
  "update_trade t ps = (t, put_trade t ps)"

text \<open>\<open>trade.external_order_id\<close> as a condition: neither \<open>None\<close> nor empty.\<close>

definition has_order_id :: "trade \<Rightarrow> bool" where
  "has_order_id t = (case t_external_order_id t of None \<Rightarrow> False | Some i \<Rightarrow> i \<noteq> [])"

definition new_position :: "uuid \<Rightarrow> datetime \<Rightarrow> uuid \<Rightarrow> float64 \<Rightarrow> float64 \<Rightarrow> position" where
  "new_position fresh now market quantity price =
     \<lparr>p_market_id = market, p_quantity = quantity, p_entry_price = price, p_current_price = price,
      p_pnl = 0, p_realized_pnl = 0, p_id = fresh, p_created_at = now, p_updated_at = now\<rparr>"

text \<open>The effect of a fill on the book, after the trade is stored.\<close>

definition book_fill ::
  "uuid \<Rightarrow> datetime \<Rightarrow> trade \<Rightarrow> float64 \<Rightarrow> portfolio_service \<Rightarrow> unit res \<times> portfolio_service" where
  "book_fill fresh now t price ps =
     (let direction = (if t_side t = BUY then Fin 1 else Fin (- 1)) in
      case positions_get_by_market (t_market_id t) (ps_positions ps) of
        Some existing \<Rightarrow>
          (let new_qty = p_quantity existing + direction * t_quantity t;
               avg_price = (if t_side t = BUY
                            then py_div (p_entry_price existing * p_quantity existing + price * t_quantity t)
                                        (p_quantity existing + t_quantity t)
                            else Inr (p_entry_price existing)) in
           case avg_price of
             Inl e \<Rightarrow> (Inl e, ps)
           | Inr avg \<Rightarrow>
               (Inr (), put_position
                  (existing\<lparr>p_quantity := new_qty, p_entry_price := avg, p_current_price := price,
                     p_updated_at := (case t_filled_at t of Some when \<Rightarrow> when | None \<Rightarrow> t_updated_at t)\<rparr>) ps))
      | None \<Rightarrow>
          (Inr (), ps\<lparr>ps_positions := snd (repo_add p_id
             (new_position fresh now (t_market_id t) (direction * t_quantity t) price)
             (ps_positions ps))\<rparr>))"

definition fill_trade ::
  "uuid \<Rightarrow> datetime \<Rightarrow> trade \<Rightarrow> float64 option \<Rightarrow> portfolio_service \<Rightarrow> trade res \<times> portfolio_service" where
  "fill_trade fresh now t fill_price ps =
     (let price = (case fill_price of Some p \<Rightarrow> if truthy p then p else t_price t | None \<Rightarrow> t_price t);
          submitted = (if t_status t = PENDING \<and> \<not> has_order_id t
                       then submit now (''auto-'' @ t_id t) t else Inr t) in
      case rbind submitted (\<lambda>t1. fill now (t_quantity t1) price t1) of
        Inl e \<Rightarrow> (Inl e, ps)
      | Inr t2 \<Rightarrow>
          (case book_fill fresh now t2 price
                  (ps_log ''trade.fill'' (t_market_id t2)
                     [L ''trade_id='', L (t_id t2), L '' side='', L (side_value (t_side t2)), L '' qty='',
                      F (t_quantity t2), L '' price='', F price] (put_trade t2 ps)) of
             (Inl e, ps2) \<Rightarrow> (Inl e, ps2)
           | (Inr _, ps2) \<Rightarrow> (Inr t2, ps2)))"

definition close_position ::
  "int \<Rightarrow> datetime \<Rightarrow> position \<Rightarrow> float64 \<Rightarrow> portfolio_service \<Rightarrow> float64 \<times> position \<times> portfolio_service" where
  "close_position today now p close_price ps =
     (let (p', realized) = close_pos now close_price p;
          ps1 = put_position p' ps;
          ps2 = ps1\<lparr>ps_risk := map_option (rs_record_realized_pnl today realized) (ps_risk ps1)\<rparr> in
      (realized, p',
       ps_log ''position.close'' (p_market_id p')
         [L ''pnl='', FX 2 realized, L '' close_price='', F close_price, L '' qty='', F (p_quantity p')] ps2))"

text \<open>One target of a rebalance; \<open>fresh\<close> names the new signal and the new trade.\<close>

definition rebalance_step ::
  "(nat \<Rightarrow> uuid) \<Rightarrow> datetime \<Rightarrow> float64 \<Rightarrow> (uuid \<times> float64) list \<Rightarrow> uuid \<times> float64 \<Rightarrow> nat \<Rightarrow>
   portfolio_service \<Rightarrow> trade option res \<times> portfolio_service" where
  "rebalance_step fresh now total_value market_prices target n ps =
     (case target of (market, target_pct) \<Rightarrow>
        (let target_value = total_value * target_pct;
             current_qty = (case positions_get_by_market market (ps_positions ps) of
                              None \<Rightarrow> 0 | Some p \<Rightarrow> p_quantity p);
             current_value = current_qty * dict_get market_prices market 0;
             diff = target_value - current_value in
         if \<bar>diff\<bar> < 1 then (Inr None, ps)
         else let sd = (if 0 < diff then BUY else SELL) in
              case py_div \<bar>diff\<bar> (dict_get market_prices market 1) of
                Inl e \<Rightarrow> (Inl e, ps)
              | Inr qty \<Rightarrow>
                  (let (t, ps1) = open_trade (fresh (2 * n + 1)) now (fresh (2 * n)) market sd
                         (py_round qty 4) (dict_get market_prices market 0) ps in
                   (Inr (Some t), ps1))))"

fun rebalance_loop ::
  "(nat \<Rightarrow> uuid) \<Rightarrow> datetime \<Rightarrow> float64 \<Rightarrow> (uuid \<times> float64) list \<Rightarrow> (uuid \<times> float64) list \<Rightarrow> nat \<Rightarrow>
   trade list \<Rightarrow> portfolio_service \<Rightarrow> trade list res \<times> portfolio_service" where
  "rebalance_loop fresh now total_value prices [] n acc ps = (Inr acc, ps)"
| "rebalance_loop fresh now total_value prices (target # targets) n acc ps =
     (case rebalance_step fresh now total_value prices target n ps of
        (Inl e, ps1) \<Rightarrow> (Inl e, ps1)
      | (Inr None, ps1) \<Rightarrow> rebalance_loop fresh now total_value prices targets (n + 1) acc ps1
      | (Inr (Some t), ps1) \<Rightarrow> rebalance_loop fresh now total_value prices targets (n + 1) (acc @ [t]) ps1)"

text \<open>\<open>{p.market_id: p.quantity for p in ...}\<close>: a later position of the same market wins.\<close>

definition held :: "position list \<Rightarrow> (uuid \<times> float64) list" where
  "held ps = foldl (\<lambda>d p. AList.update (p_market_id p) (p_quantity p) d) [] ps"

definition rebalance ::
  "(nat \<Rightarrow> uuid) \<Rightarrow> datetime \<Rightarrow> (uuid \<times> float64) list \<Rightarrow> float64 \<Rightarrow> (uuid \<times> float64) list \<Rightarrow>
   portfolio_service \<Rightarrow> trade list res \<times> portfolio_service" where
  "rebalance fresh now target_allocations cash market_prices ps =
     (let total_value = cash + py_sum (map (\<lambda>(k, v). v * dict_get market_prices k 0)
                                        (held (positions_list_open (ps_positions ps)))) in
      rebalance_loop fresh now total_value market_prices target_allocations 0 [] ps)"

subsection \<open>Fills move exactly one position\<close>

lemma put_position_store: "ps_positions (put_position p ps) = store_put p_id p (ps_positions ps)"
  by (simp add: put_position_def repo_update_put)

lemma put_trade_store [simp]:
  "ps_trades (put_trade t ps) = store_put t_id t (ps_trades ps)"
  "ps_positions (put_trade t ps) = ps_positions ps"
  by (simp_all add: put_trade_def repo_update_put)

lemma ps_log_frame [simp]:
  "ps_trades (ps_log a r d ps) = ps_trades ps" "ps_positions (ps_log a r d ps) = ps_positions ps"
  "ps_risk (ps_log a r d ps) = ps_risk ps"
  by (simp_all add: ps_log_def)

lemma put_position_trades [simp]: "ps_trades (put_position p ps) = ps_trades ps"
  by (simp add: put_position_def)

lemma market_of_put:
  assumes inv: "store_inv p_id r" and found: "positions_get_by_market m r = Some q"
    and same: "p_id p = p_id q" "p_market_id p = m"
  shows "positions_get_by_market m (store_put p_id p r) = Some p"
    and "m' \<noteq> m \<Longrightarrow> positions_get_by_market m' (store_put p_id p r) = positions_get_by_market m' r"
proof -
  have q: "q \<in> set (repo_list r)" "p_market_id q = m"
    using find_SomeD [of _ "repo_list r" q] found by (auto simp: positions_get_by_market_def)
  then have "repo_get (p_id p) r = Some q"
    using mem.entities_iff [OF inv] same(1) by simp
  note list = list_put_existing [OF inv this]
  show "positions_get_by_market m (store_put p_id p r) = Some p"
    using found find_replace_same [of "\<lambda>p. p_market_id p = m" "repo_list r" q p_id p] same
      mem.entities_distinct [OF inv]
    by (simp add: positions_get_by_market_def list)
  have "\<not> p_market_id y = m'" if "y \<in> set (repo_list r)" "p_id y = p_id p" "m' \<noteq> m" for y
  proof -
    have "y = q"
      using that(1,2) q(1) same(1) mem.entities_iff [OF inv, of y] mem.entities_iff [OF inv, of q] by simp
    then show ?thesis using q(2) that(3) by simp
  qed
  then show "m' \<noteq> m \<Longrightarrow> positions_get_by_market m' (store_put p_id p r) = positions_get_by_market m' r"
    using same(2) by (simp add: positions_get_by_market_def list find_replace_other)
qed

lemma market_of_add:
  assumes "positions_get_by_market (p_market_id p) r = None" and "repo_get (p_id p) r = None"
  shows "positions_get_by_market m (store_put p_id p r) =
    (if m = p_market_id p then Some p else positions_get_by_market m r)"
  using assms by (auto simp: positions_get_by_market_def list_put_new find_append_one split: option.splits)

definition signed_quantity :: "trade \<Rightarrow> float64" where
  "signed_quantity t = (if t_side t = BUY then Fin 1 else Fin (- 1)) * t_quantity t"

lemma fill_trade_Inr:
  assumes "fill_trade fresh now t fp ps = (Inr t2, ps2)"
  obtains price ps1 where "t_status t2 = FILLED" and "t_id t2 = t_id t" and "t_market_id t2 = t_market_id t"
    and "t_side t2 = t_side t" and "t_quantity t2 = t_quantity t"
    and "ps_trades ps1 = store_put t_id t2 (ps_trades ps)" and "ps_positions ps1 = ps_positions ps"
    and "book_fill fresh now t2 price ps1 = (Inr (), ps2)"
proof -
  obtain t1 where t1: "(if t_status t = PENDING \<and> \<not> has_order_id t
        then submit now (''auto-'' @ t_id t) t else Inr t) = Inr t1"
    "fill now (t_quantity t1) (case fp of Some p \<Rightarrow> if truthy p then p else t_price t | None \<Rightarrow> t_price t) t1 = Inr t2"
    using assms unfolding fill_trade_def Let_def
    by (auto split: sum.splits prod.splits if_splits elim!: rbind_eq_InrE)
  have "t_id t1 = t_id t \<and> t_market_id t1 = t_market_id t \<and> t_side t1 = t_side t \<and> t_quantity t1 = t_quantity t"
    using t1(1) by (auto simp: submit_def guard_simps split: if_splits)
  moreover have "t_status t2 = FILLED \<and> t_id t2 = t_id t1 \<and> t_market_id t2 = t_market_id t1 \<and>
      t_side t2 = t_side t1 \<and> t_quantity t2 = t_quantity t1"
    using t1(2) by (auto simp: fill_def guard_simps)
  ultimately show ?thesis
    using assms t1 that [of "ps_log _ _ _ (put_trade t2 ps)"]
    unfolding fill_trade_def Let_def by (auto split: sum.splits prod.splits)
qed

lemma book_fill_Inr:
  assumes "book_fill fresh now t price ps = (Inr (), ps2)"
    and inv: "store_inv p_id (ps_positions ps)" and new: "repo_get fresh (ps_positions ps) = None"
  shows "ps_trades ps2 = ps_trades ps \<and> store_inv p_id (ps_positions ps2) \<and>
    (\<exists>p. positions_get_by_market (t_market_id t) (ps_positions ps2) = Some p \<and> p_current_price p = price \<and>
       p_quantity p = (case positions_get_by_market (t_market_id t) (ps_positions ps) of
                         None \<Rightarrow> signed_quantity t | Some q \<Rightarrow> p_quantity q + signed_quantity t)) \<and>
    (\<forall>m. m \<noteq> t_market_id t \<longrightarrow>
       positions_get_by_market m (ps_positions ps2) = positions_get_by_market m (ps_positions ps))"
proof (cases "positions_get_by_market (t_market_id t) (ps_positions ps)")
  case None
  let ?p = "new_position fresh now (t_market_id t) (signed_quantity t) price"
  have ps2: "ps2 = ps\<lparr>ps_positions := store_put p_id ?p (ps_positions ps)\<rparr>"
    using assms(1) None by (auto simp: book_fill_def repo_add_put signed_quantity_def Let_def)
  have "positions_get_by_market m (store_put p_id ?p (ps_positions ps)) =
      (if m = t_market_id t then Some ?p else positions_get_by_market m (ps_positions ps))" for m
    using market_of_add [of ?p "ps_positions ps" m] None new by (simp add: new_position_def)
  then show ?thesis
    using None inv by (simp add: ps2 mem.put_inv new_position_def)
next
  case (Some q)
  obtain p where p: "ps2 = put_position p ps" "p_id p = p_id q" "p_market_id p = p_market_id q"
      "p_current_price p = price" "p_quantity p = p_quantity q + signed_quantity t"
    using assms(1) Some by (auto simp: book_fill_def signed_quantity_def Let_def split: sum.splits if_splits)
  have "p_market_id q = t_market_id t"
    using Some find_SomeD unfolding positions_get_by_market_def by fast
  then show ?thesis
    using market_of_put [OF inv Some, of p] p inv Some by (auto simp: put_position_store mem.put_inv)
qed

text \<open>
  A fill is booked exactly once and on one market: a trade filled by the service is
  stored as \<open>FILLED\<close>, the position of its market moves by exactly the signed quantity of
  the trade and is marked at the fill price, and the position of every other market is
  the one it was.
\<close>

theorem fill_books_one_market:
  assumes "fill_trade fresh now t fp ps = (Inr t2, ps2)"
    and "store_inv p_id (ps_positions ps)" and "repo_get fresh (ps_positions ps) = None"
  shows "t_status t2 = FILLED \<and> repo_get (t_id t) (ps_trades ps2) = Some t2 \<and>
    (\<exists>p. positions_get_by_market (t_market_id t) (ps_positions ps2) = Some p \<and>
       p_quantity p = (case positions_get_by_market (t_market_id t) (ps_positions ps) of
                         None \<Rightarrow> signed_quantity t | Some q \<Rightarrow> p_quantity q + signed_quantity t)) \<and>
    (\<forall>m. m \<noteq> t_market_id t \<longrightarrow>
       positions_get_by_market m (ps_positions ps2) = positions_get_by_market m (ps_positions ps))"
  using assms(1)
proof (rule fill_trade_Inr)
  fix price ps1
  assume t2: "t_status t2 = FILLED" "t_id t2 = t_id t" "t_market_id t2 = t_market_id t"
      "t_side t2 = t_side t" "t_quantity t2 = t_quantity t"
    and ps1: "ps_trades ps1 = store_put t_id t2 (ps_trades ps)" "ps_positions ps1 = ps_positions ps"
    and book: "book_fill fresh now t2 price ps1 = (Inr (), ps2)"
  have signed: "signed_quantity t2 = signed_quantity t"
    using t2 by (simp add: signed_quantity_def)
  show ?thesis
    using book_fill_Inr [OF book, unfolded ps1(2) t2(3) signed] assms(2,3) t2 ps1 by (auto simp: mem.fetch_put)
qed

definition empty_portfolio :: portfolio_service where
  "empty_portfolio = \<lparr>ps_trades = [], ps_positions = [], ps_audit = None, ps_risk = None\<rparr>"

definition sample_buy :: trade where
  "sample_buy = new_trade ''t1'' 0 ''s1'' ''m1'' BUY (Fin 2) (Fin 50)"

theorem fill_books_one_market_witness:
  "\<exists>t2 ps2 p. fill_trade ''p1'' 1 sample_buy None empty_portfolio = (Inr t2, ps2) \<and>
     positions_get_by_market ''m1'' (ps_positions ps2) = Some p \<and> p_quantity p = signed_quantity sample_buy"
proof -
  obtain t2 ps2 where run: "fill_trade ''p1'' 1 sample_buy None empty_portfolio = (Inr t2, ps2)"
    by (simp add: fill_trade_def sample_buy_def new_trade_def has_order_id_def submit_def fill_def
        guard_transition_def book_fill_def positions_get_by_market_def repo_list_def empty_portfolio_def
        put_trade_def ps_log_def repo_update_def Let_def)
  then show ?thesis
    using fill_books_one_market [OF run]
    by (simp add: empty_portfolio_def store_inv_def repo_get_def sample_buy_def new_trade_def
        positions_get_by_market_def repo_list_def)
qed

text \<open>
  Buying back exactly a short position tears the book: the trade is stored as
  \<open>FILLED\<close>, then the average price divides by zero, so the caller gets
  \<open>ZeroDivisionError\<close> and the short position stays as it was.
\<close>

theorem covering_a_short_raises:
  assumes "positions_get_by_market (t_market_id t) (ps_positions ps) = Some q"
    and "p_quantity q = Fin (- a)" and "t_quantity t = Fin a" and "t_side t = BUY"
    and "t_status t = PENDING" and "\<not> has_order_id t"
  shows "\<exists>t2 ps2. fill_trade fresh now t fp ps = (Inl ZeroDivisionError, ps2) \<and>
    ps_positions ps2 = ps_positions ps \<and> repo_get (t_id t) (ps_trades ps2) = Some t2 \<and> t_status t2 = FILLED"
proof -
  let ?price = "case fp of Some p \<Rightarrow> if truthy p then p else t_price t | None \<Rightarrow> t_price t"
  let ?t1 = "t\<lparr>t_status := SUBMITTED, t_external_order_id := Some (''auto-'' @ t_id t), t_updated_at := now\<rparr>"
  let ?t2 = "?t1\<lparr>t_status := FILLED, t_filled_quantity := Fin a, t_filled_price := ?price,
      t_filled_at := Some now, t_updated_at := now\<rparr>"
  have filled: "rbind (if t_status t = PENDING \<and> \<not> has_order_id t then submit now (''auto-'' @ t_id t) t else Inr t)
      (\<lambda>t1. fill now (t_quantity t1) ?price t1) = Inr ?t2"
    using assms by (simp add: submit_def fill_def guard_transition_def)
  have "py_div x (p_quantity q + t_quantity t) = Inl ZeroDivisionError" for x
    using assms by (simp add: py_div_def zero_eq_Fin)
  then have "book_fill fresh now ?t2 ?price ps' = (Inl ZeroDivisionError, ps')"
    if "ps_positions ps' = ps_positions ps" for ps'
    using assms that by (simp add: book_fill_def Let_def)
  then have "\<exists>ps'. fill_trade fresh now t fp ps = (Inl ZeroDivisionError, ps') \<and>
      ps_positions ps' = ps_positions ps \<and> ps_trades ps' = store_put t_id ?t2 (ps_trades ps)"
    unfolding fill_trade_def Let_def filled by (simp split: sum.splits prod.splits)
  then show ?thesis
    by (auto simp: mem.fetch_put)
qed

definition short_portfolio :: portfolio_service where
  "short_portfolio = empty_portfolio
     \<lparr>ps_positions := [(''p1'', new_position ''p1'' 0 ''m1'' (Fin (- 2)) (Fin 60))]\<rparr>"

theorem covering_a_short_raises_witness:
  "\<exists>t2 ps2. fill_trade ''p2'' 1 sample_buy None short_portfolio = (Inl ZeroDivisionError, ps2) \<and>
     ps_positions ps2 = ps_positions short_portfolio \<and>
     repo_get ''t1'' (ps_trades ps2) = Some t2 \<and> t_status t2 = FILLED"
  using covering_a_short_raises [of sample_buy short_portfolio
      "new_position ''p1'' 0 ''m1'' (Fin (- 2)) (Fin 60)" 2 "''p2''" 1 None]
  by (simp add: short_portfolio_def empty_portfolio_def sample_buy_def new_trade_def new_position_def
      positions_get_by_market_def repo_list_def has_order_id_def)

end
