(* ===== verification/Flatten.thy ===== *)
theory Flatten
  imports BrokerPort Portfolio
begin

text \<open>
  \<open>domain/services/flatten_service.py\<close>: the kill switch closes every position once.

  The broker is any adapter; each close reads its own surroundings.  The notification,
  audit and metrics ports are logs.
\<close>

record flatten_result =
  fl_flattened :: bool
  fl_close_orders :: int
  fl_failed_orders :: int
  fl_errors :: "(uuid \<times> fstring) list"
  fl_reason :: fstring

record flatten_service =
  fs_audit :: audit_log
  fs_metrics :: metrics_log
  fs_notes :: "notification list"
  fs_flattened :: "flatten_result option"

definition new_flatten_service :: "audit_log \<Rightarrow> metrics_log \<Rightarrow> flatten_service" where
  "new_flatten_service audit metrics =
     \<lparr>fs_audit = audit, fs_metrics = metrics, fs_notes = [], fs_flattened = None\<rparr>"

definition is_flattened :: "flatten_service \<Rightarrow> bool" where
  "is_flattened fs = (fs_flattened fs \<noteq> None)"

definition flatten_args :: "string \<Rightarrow> position \<Rightarrow> float64 \<Rightarrow> order_args" where
  "flatten_args intent_id p price =
     \<lparr>oa_market_id = p_market_id p, oa_side = (if 0 < p_quantity p then ''sell'' else ''buy''),
      oa_quantity = \<bar>p_quantity p\<bar>, oa_close_price = Some price,
      oa_client_order_id = Some (intent_id @ '':'' @ p_market_id p)\<rparr>"

text \<open>One position of the loop; a price lookup may raise, and is not caught.\<close>

definition flatten_one ::
  "'s broker \<Rightarrow> (uuid \<Rightarrow> float64 res) option \<Rightarrow> string \<Rightarrow> fstring \<Rightarrow> env \<Rightarrow> position \<Rightarrow>
   flatten_result \<times> flatten_service \<times> 's \<Rightarrow> unit res \<times> flatten_result \<times> flatten_service \<times> 's" where
  "flatten_one b market_prices intent_id reason env p st =
     (case st of (result, fs, s) \<Rightarrow>
        if \<bar>p_quantity p\<bar> \<le> 0 then (Inr (), result, fs, s)
        else
        case (case market_prices of Some f \<Rightarrow> f (p_market_id p) | None \<Rightarrow> Inr (p_current_price p)) of
          Inl e \<Rightarrow> (Inl e, result, fs, s)
        | Inr price \<Rightarrow>
            (let a = flatten_args intent_id p price;
                 failed = (\<lambda>msg. result\<lparr>fl_failed_orders := fl_failed_orders result + 1,
                            fl_errors := fl_errors result @ [(p_market_id p, msg)]\<rparr>) in
             case b_flatten b a env s of
               (Inl e, s') \<Rightarrow> (Inr (), failed [L '': flatten close failed''], fs, s')
             | (Inr r, s') \<Rightarrow>
                 if fr_filled r
                 then (Inr (), result\<lparr>fl_close_orders := fl_close_orders result + 1\<rparr>,
                       fs\<lparr>fs_audit := audit_rec ''risk.flatten'' ''system'' (p_market_id p)
                            ([L ''side='', L (oa_side a), L '' qty='', F (oa_quantity a), L '' price='', F price,
                             L '' reason=''] @ reason) (fs_audit fs)\<rparr>, s')
                 else (Inr (), failed [L '': flatten close not filled ('', L (fr_status r), L '')''], fs, s')))"

fun flatten_loop ::
  "'s broker \<Rightarrow> (uuid \<Rightarrow> float64 res) option \<Rightarrow> string \<Rightarrow> fstring \<Rightarrow> (nat \<Rightarrow> env) \<Rightarrow> nat \<Rightarrow> position list \<Rightarrow>
   flatten_result \<times> flatten_service \<times> 's \<Rightarrow> unit res \<times> flatten_result \<times> flatten_service \<times> 's" where
  "flatten_loop b mp intent reason envs n [] st = (Inr (), st)"
| "flatten_loop b mp intent reason envs n (p # ps) st =
     (case flatten_one b mp intent reason (envs n) p st of
        (Inl e, st') \<Rightarrow> (Inl e, st')
      | (Inr _, st') \<Rightarrow> flatten_loop b mp intent reason envs (n + 1) ps st')"

definition flatten ::
  "'s broker \<Rightarrow> (uuid \<Rightarrow> float64 res) option \<Rightarrow> string \<Rightarrow> (nat \<Rightarrow> env) \<Rightarrow> fstring \<Rightarrow> portfolio_service \<Rightarrow>
   flatten_service \<times> 's \<Rightarrow> flatten_result res \<times> flatten_service \<times> 's" where
  "flatten b market_prices nonce envs reason ps st =
     (case fs_flattened (fst st) of
        Some r \<Rightarrow> (Inr r, st)
      | None \<Rightarrow>
          (let positions = sm_open_positions (get_summary 0 ps);
               r0 = \<lparr>fl_flattened = True, fl_close_orders = 0, fl_failed_orders = 0, fl_errors = [],
                     fl_reason = reason\<rparr> in
           case flatten_loop b market_prices (''flatten-'' @ nonce) reason envs 0 positions (r0, st) of
             (Inl e, _, fs, s) \<Rightarrow> (Inl e, fs, s)
           | (Inr _, r, fs, s) \<Rightarrow>
               (Inr r, fs\<lparr>fs_metrics := counter ''risk.flatten.close_orders'' (rnd (of_int (fl_close_orders r)))
                            (counter ''risk.flatten'' 1 (fs_metrics fs)),
                          fs_notes := fs_notes fs @ [(CRITICAL, ''Kill Switch Flatten'',
                            [Z (fl_close_orders r), L '' positions closed, '', Z (fl_failed_orders r),
                             L '' failed - reason: ''] @ reason)],
                          fs_flattened := Some r\<rparr>, s)))"

subsection \<open>Every position exactly once\<close>

definition total_prices :: "(uuid \<Rightarrow> float64 res) option \<Rightarrow> bool" where
  "total_prices mp = (case mp of None \<Rightarrow> True | Some f \<Rightarrow> (\<forall>m. \<exists>x. f m = Inr x))"

definition close_price_of :: "(uuid \<Rightarrow> float64 res) option \<Rightarrow> position \<Rightarrow> float64" where
  "close_price_of mp p = (case mp of None \<Rightarrow> p_current_price p
     | Some f \<Rightarrow> (case f (p_market_id p) of Inr x \<Rightarrow> x | Inl e \<Rightarrow> 0))"

lemma flatten_one_logged:
  assumes "total_prices mp" and "0 < \<bar>p_quantity p\<bar>"
  shows "\<exists>r' fs' s'. flatten_one (logged b) mp intent reason env p (r, fs, s, orders) =
      (Inr (), r', fs', s', orders @ [flatten_args intent p (close_price_of mp p)]) \<and>
    fl_close_orders r' + fl_failed_orders r' = fl_close_orders r + fl_failed_orders r + 1 \<and>
    fl_failed_orders r' - fl_failed_orders r = int (length (fl_errors r')) - int (length (fl_errors r)) \<and>
    fs_flattened fs' = fs_flattened fs"
proof -
  have pos: "\<not> \<bar>p_quantity p\<bar> \<le> 0"
    using assms(2) by (cases "p_quantity p") (auto simp: zero_eq_Fin)
  have price: "(case mp of Some f \<Rightarrow> f (p_market_id p) | None \<Rightarrow> Inr (p_current_price p)) =
      Inr (close_price_of mp p)"
    using assms(1) by (auto simp: total_prices_def close_price_of_def split: option.splits sum.splits)
      (metis Inl_Inr_False)
  obtain x s' where call: "b_flatten b (flatten_args intent p (close_price_of mp p)) env s = (x, s')"
    by (cases "b_flatten b (flatten_args intent p (close_price_of mp p)) env s")
  show ?thesis
    using pos by (cases x) (simp_all add: flatten_one_def price Let_def logged_def call)
qed

lemma flatten_loop_logged:
  assumes "total_prices mp" and "list_all (\<lambda>p. 0 < \<bar>p_quantity p\<bar>) ps"
  shows "\<exists>r' fs' s'. flatten_loop (logged b) mp intent reason envs n ps (r, fs, s, orders) =
      (Inr (), r', fs', s', orders @ map (\<lambda>p. flatten_args intent p (close_price_of mp p)) ps) \<and>
    fl_close_orders r' + fl_failed_orders r' = fl_close_orders r + fl_failed_orders r + int (length ps) \<and>
    fl_failed_orders r' - fl_failed_orders r = int (length (fl_errors r')) - int (length (fl_errors r)) \<and>
    fs_flattened fs' = fs_flattened fs"
  using assms(2)
proof (induction ps arbitrary: n r fs s orders)
  case Nil
  then show ?case by simp
next
  case (Cons p ps)
  obtain r1 fs1 s1 where one: "flatten_one (logged b) mp intent reason (envs n) p (r, fs, s, orders) =
      (Inr (), r1, fs1, s1, orders @ [flatten_args intent p (close_price_of mp p)])"
    "fl_close_orders r1 + fl_failed_orders r1 = fl_close_orders r + fl_failed_orders r + 1"
    "fl_failed_orders r1 - fl_failed_orders r = int (length (fl_errors r1)) - int (length (fl_errors r))"
    "fs_flattened fs1 = fs_flattened fs"
    using flatten_one_logged [OF assms(1), of p b intent reason "envs n" r fs s orders] Cons.prems by auto
  show ?case
    using Cons.IH [of "n + 1" r1 fs1 s1 "orders @ [flatten_args intent p (close_price_of mp p)]"]
      Cons.prems one by auto
qed

text \<open>
  The first flatten submits one emergency order per open position, for its whole
  quantity, on the closing side and with a client order id of its own, whatever the broker
  answers or raises; the closed and failed counts add up to the number of positions with
  one error text per failure; and no later flatten submits anything or changes the result,
  even for a close that failed.
\<close>

theorem flatten_each_position_once:
  assumes "fs_flattened fs = None" and "total_prices mp"
  shows "\<exists>r fs' s'. flatten (logged b) mp nonce envs reason ps (fs, s, []) =
      (Inr r, fs', s', map (\<lambda>p. flatten_args (''flatten-'' @ nonce) p (close_price_of mp p))
                         (positions_list_open (ps_positions ps))) \<and>
    fl_close_orders r + fl_failed_orders r = int (length (positions_list_open (ps_positions ps))) \<and>
    fl_failed_orders r = int (length (fl_errors r)) \<and>
    (\<forall>b' mp' nonce' envs' reason' ps' st. flatten b' mp' nonce' envs' reason' ps' (fs', st) = (Inr r, fs', st))"
proof -
  let ?ps = "positions_list_open (ps_positions ps)"
  let ?r0 = "\<lparr>fl_flattened = True, fl_close_orders = 0, fl_failed_orders = 0, fl_errors = [], fl_reason = reason\<rparr>"
  have "list_all (\<lambda>p. 0 < \<bar>p_quantity p\<bar>) ?ps"
    by (simp add: positions_list_open_def list_all_iff)
  from flatten_loop_logged [OF assms(2) this, of b "''flatten-'' @ nonce" reason envs 0 ?r0 fs s "[]"]
  show ?thesis
    using assms(1) by (auto simp: flatten_def get_summary_def Let_def)
qed

theorem flatten_each_position_once_witness:
  "\<exists>r fs' s'. flatten (logged counting_venue) None ''n'' (\<lambda>_. sample_env) [L ''stop'']
      (short_portfolio) (new_flatten_service None None, 0, []) = (Inr r, fs', s') \<and>
    fl_close_orders r + fl_failed_orders r = int (length (positions_list_open (ps_positions short_portfolio)))"
  using flatten_each_position_once [of "new_flatten_service None None" None counting_venue "''n''"
      "\<lambda>_. sample_env" "[L ''stop'']" short_portfolio 0]
  by (auto simp: new_flatten_service_def total_prices_def)

end
