(* ===== verification/PaperTrading.thy ===== *)
theory PaperTrading
  imports PaperBroker Portfolio
begin

text \<open>
  \<open>PaperTradingService\<close> of \<open>domain/services/paper_trading_service.py\<close> with the signals it
  reads (\<open>domain/services/signal_service.py\<close> over the in-memory repository).

  A session is a record in the service's dictionary; the broker is any adapter and its
  state is threaded through.  The defaults of the sizing call are the ones of
  \<open>size_position\<close>.
\<close>

subsection \<open>Signals\<close>

definition signals_get_active :: "datetime \<Rightarrow> uuid \<Rightarrow> signal store \<Rightarrow> signal list" where
  "signals_get_active now market r =
     filter (\<lambda>s. s_market_id s = market \<and> now < s_expires_at s) (repo_list r)"

definition signals_get_by_strategy :: "uuid \<Rightarrow> signal store \<Rightarrow> signal list" where
  "signals_get_by_strategy strategy r = filter (\<lambda>s. s_strategy_id s = strategy) (repo_list r)"

definition validate_signal :: "datetime \<Rightarrow> signal \<Rightarrow> bool" where
  "validate_signal now s = (now < s_expires_at s)"

text \<open>Two clock readings: the repository's and the validation's.\<close>

definition get_active_signals :: "datetime \<Rightarrow> datetime \<Rightarrow> uuid \<Rightarrow> signal store \<Rightarrow> signal list" where
  "get_active_signals now now' market r = filter (validate_signal now') (signals_get_active now market r)"

subsection \<open>Sessions\<close>

datatype session_status = Created | Running | Paused | Stopped

record paper_session =
  se_id :: uuid
  se_strategy_id :: uuid
  se_market_ids :: "uuid list"
  se_status :: session_status
  se_start_time :: "datetime option"
  se_end_time :: "datetime option"
  se_initial_capital :: float64
  se_current_capital :: float64
  se_open_orders :: "order list"
  se_filled_orders :: "order list"
  se_trades :: "trade list"
  se_positions :: "(uuid \<times> position) list"
  se_equity_curve :: "(datetime \<times> float64) list"
  se_sizing_refusals :: "fstring list"
  se_created_at :: datetime

record paper_trading =
  pt_signals :: "signal store"
  pt_risk :: risk_service
  pt_execution :: execution_service
  pt_sessions :: "(uuid \<times> paper_session) list"

definition create_session ::
  "uuid \<Rightarrow> datetime \<Rightarrow> float64 \<Rightarrow> uuid \<Rightarrow> uuid list \<Rightarrow> float64 option \<Rightarrow> paper_trading \<Rightarrow> paper_session \<times> paper_trading" where
  "create_session fresh now default_cash strategy markets initial_capital pt =
     (let cash = (case initial_capital of Some c \<Rightarrow> c | None \<Rightarrow> default_cash);
          session = \<lparr>se_id = fresh, se_strategy_id = strategy, se_market_ids = markets,
             se_status = Created, se_start_time = None, se_end_time = None,
             se_initial_capital = cash, se_current_capital = cash, se_open_orders = [],
             se_filled_orders = [], se_trades = [], se_positions = [], se_equity_curve = [],
             se_sizing_refusals = [], se_created_at = now\<rparr> in
      (session, pt\<lparr>pt_sessions := AList.update fresh session (pt_sessions pt)\<rparr>))"

definition require_session :: "uuid \<Rightarrow> paper_trading \<Rightarrow> paper_session res" where
  "require_session sid pt =
     (case map_of (pt_sessions pt) sid of None \<Rightarrow> Inl ValueError | Some se \<Rightarrow> Inr se)"

definition store_session :: "uuid \<Rightarrow> paper_session \<Rightarrow> paper_trading \<Rightarrow> paper_trading" where
  "store_session sid se pt = pt\<lparr>pt_sessions := AList.update sid se (pt_sessions pt)\<rparr>"

definition start_session :: "datetime \<Rightarrow> uuid \<Rightarrow> paper_trading \<Rightarrow> (paper_session \<times> paper_trading) res" where
  "start_session now sid pt = rbind (require_session sid pt) (\<lambda>se.
     let se' = se\<lparr>se_status := Running, se_start_time := Some now\<rparr> in Inr (se', store_session sid se' pt))"

definition pause_session :: "uuid \<Rightarrow> paper_trading \<Rightarrow> (paper_session \<times> paper_trading) res" where
  "pause_session sid pt = rbind (require_session sid pt) (\<lambda>se.
     let se' = se\<lparr>se_status := Paused\<rparr> in Inr (se', store_session sid se' pt))"

definition stop_session :: "datetime \<Rightarrow> uuid \<Rightarrow> paper_trading \<Rightarrow> (paper_session \<times> paper_trading) res" where
  "stop_session now sid pt = rbind (require_session sid pt) (\<lambda>se.
     let capital = foldl (\<lambda>c p. c + compute_pnl p (p_current_price p)) (se_current_capital se)
                     (dict_values (se_positions se));
         se' = se\<lparr>se_status := Stopped, se_end_time := Some now, se_current_capital := capital\<rparr> in
     Inr (se', store_session sid se' pt))"

definition get_session :: "uuid \<Rightarrow> paper_trading \<Rightarrow> paper_session option" where
  "get_session sid pt = map_of (pt_sessions pt) sid"

definition list_sessions :: "paper_trading \<Rightarrow> paper_session list" where
  "list_sessions pt = dict_values (pt_sessions pt)"

text \<open>What one fill adds to the session; \<open>ids\<close> are the new ids of the order, the trade and
  the position.\<close>

definition book_session_fill ::
  "uuid \<times> uuid \<times> uuid \<Rightarrow> datetime \<Rightarrow> signal \<Rightarrow> uuid \<Rightarrow> string \<Rightarrow> float64 \<Rightarrow> float64 \<Rightarrow> fill_result \<Rightarrow>
   paper_session \<Rightarrow> paper_session" where
  "book_session_fill ids now s market sd qty close_price r se =
     (case ids of (oid, tid, pid) \<Rightarrow>
        (let ord = create_market_order oid now market sd qty;
             t = new_trade tid now (s_id s) market (if sd = ''buy'' then BUY else SELL)
                   (fr_fill_quantity r) (fr_fill_price r);
             pos = \<lparr>p_market_id = market,
                    p_quantity = (if sd = ''buy'' then fr_fill_quantity r else - fr_fill_quantity r),
                    p_entry_price = fr_fill_price r, p_current_price = close_price, p_pnl = 0,
                    p_realized_pnl = 0, p_id = pid, p_created_at = now, p_updated_at = now\<rparr>;
             se1 = se\<lparr>se_trades := se_trades se @ [t],
                      se_positions := AList.update market pos (se_positions se)\<rparr> in
         if fr_status r = ''partial'' then se1\<lparr>se_open_orders := se_open_orders se1 @ [ord]\<rparr>
         else se1\<lparr>se_filled_orders := se_filled_orders se1 @ [ord]\<rparr>))"

definition process_signal ::
  "'s broker \<Rightarrow> (uuid \<times> uuid \<times> uuid) \<Rightarrow> env \<Rightarrow> risk_service \<Rightarrow> uuid \<Rightarrow> float64 \<Rightarrow> signal \<Rightarrow>
   paper_session \<times> 's \<Rightarrow> unit res \<times> paper_session \<times> 's" where
  "process_signal b ids env risk_service market close_price s st =
     (case st of (se, bs) \<Rightarrow>
        if s_strategy_id s \<noteq> se_strategy_id se then (Inr (), se, bs)
        else
        case assess_trade close_price (s_confidence s) (close_price * lit 0.01) (se_current_capital se)
               None risk_service of
          Inl e \<Rightarrow> (Inl e, se, bs)
        | Inr risk \<Rightarrow>
            if kelly_fraction risk \<le> 0
            then (Inr (), se\<lparr>se_sizing_refusals := se_sizing_refusals se @
                    [if ra_reason risk \<noteq> [] then ra_reason risk
                     else [L ''position size refused without a stated reason'']]\<rparr>, bs)
            else
            case size_position (se_current_capital se) (s_confidence s) close_price (lit 0.02) (lit 0.25) of
              Inl e \<Rightarrow> (Inl e, se, bs)
            | Inr qty \<Rightarrow>
                if qty \<le> 0 then (Inr (), se, bs)
                else let sd = (if s_direction s = LONG then ''buy'' else ''sell'') in
                  case b_market b \<lparr>oa_market_id = market, oa_side = sd, oa_quantity = qty,
                         oa_close_price = Some close_price, oa_client_order_id = None\<rparr> env bs of
                    (Inl e, bs') \<Rightarrow> (Inl e, se, bs')
                  | (Inr r, bs') \<Rightarrow>
                      (Inr (), (if fr_filled r
                                then book_session_fill ids (env_now env) s market sd qty close_price r se
                                else se), bs'))"

fun process_signals ::
  "'s broker \<Rightarrow> (nat \<Rightarrow> uuid \<times> uuid \<times> uuid) \<Rightarrow> (nat \<Rightarrow> env) \<Rightarrow> risk_service \<Rightarrow> uuid \<Rightarrow> float64 \<Rightarrow> nat \<Rightarrow>
   signal list \<Rightarrow> paper_session \<times> 's \<Rightarrow> unit res \<times> paper_session \<times> 's" where
  "process_signals b ids envs rs market price n [] st = (Inr (), st)"
| "process_signals b ids envs rs market price n (s # ss) st =
     (case process_signal b (ids n) (envs n) rs market price s st of
        (Inl e, st') \<Rightarrow> (Inl e, st')
      | (Inr _, st') \<Rightarrow> process_signals b ids envs rs market price (n + 1) ss st')"

definition process_candle ::
  "'s broker \<Rightarrow> (nat \<Rightarrow> uuid \<times> uuid \<times> uuid) \<Rightarrow> (nat \<Rightarrow> env) \<Rightarrow> datetime \<Rightarrow> datetime \<Rightarrow> uuid \<Rightarrow> uuid \<Rightarrow>
   float64 \<Rightarrow> datetime \<Rightarrow> paper_trading \<times> 's \<Rightarrow> paper_session res \<times> paper_trading \<times> 's" where
  "process_candle b ids envs now now' sid market close_price candle_time st =
     (case st of (pt, bs) \<Rightarrow>
        (case require_session sid pt of
           Inl e \<Rightarrow> (Inl e, pt, bs)
         | Inr se \<Rightarrow>
             if se_status se \<noteq> Running then (Inr se, pt, bs)
             else
             case process_signals b ids envs (pt_risk pt) market close_price 0
                    (get_active_signals now now' market (pt_signals pt)) (se, bs) of
               (Inl e, se1, bs1) \<Rightarrow> (Inl e, store_session sid se1 pt, bs1)
             | (Inr _, se1, bs1) \<Rightarrow>
                 (let equity = foldl (\<lambda>q p. q + compute_pnl p close_price) (se_current_capital se1)
                                 (dict_values (se_positions se1));
                      se2 = se1\<lparr>se_equity_curve := se_equity_curve se1 @ [(candle_time, equity)]\<rparr> in
                  (Inr se2, store_session sid se2 pt, bs1))))"

subsection \<open>A paper session never trades\<close>

lemma process_signal_refuses:
  "process_signal b ids env rs market price s (se, bs) =
     (Inr (), (if s_strategy_id s \<noteq> se_strategy_id se then se
               else se\<lparr>se_sizing_refusals := se_sizing_refusals se @
                      [[L ''no measured win rate is available for this strategy; a Kelly size cannot be computed and none is invented'']]\<rparr>),
      bs)"
  by (simp add: process_signal_def assess_trade_def Let_def zero_eq_Fin)

definition refusal_count :: "uuid \<Rightarrow> signal list \<Rightarrow> nat" where
  "refusal_count strategy ss = length (filter (\<lambda>s. s_strategy_id s = strategy) ss)"

lemma process_signals_refuse:
  "\<exists>se'. process_signals b ids envs rs market price n ss (se, bs) = (Inr (), se', bs) \<and>
     se_trades se' = se_trades se \<and> se_positions se' = se_positions se \<and>
     se_current_capital se' = se_current_capital se \<and> se_equity_curve se' = se_equity_curve se \<and>
     se_strategy_id se' = se_strategy_id se \<and>
     length (se_sizing_refusals se') = length (se_sizing_refusals se) + refusal_count (se_strategy_id se) ss"
proof (induction ss arbitrary: n se)
  case Nil
  then show ?case by (simp add: refusal_count_def)
next
  case (Cons s ss)
  let ?se = "if s_strategy_id s \<noteq> se_strategy_id se then se
      else se\<lparr>se_sizing_refusals := se_sizing_refusals se @
          [[L ''no measured win rate is available for this strategy; a Kelly size cannot be computed and none is invented'']]\<rparr>"
  show ?case
    using Cons.IH [of "n + 1" ?se]
    by (cases "s_strategy_id s = se_strategy_id se")
      (simp_all add: process_signal_refuses refusal_count_def)
qed

text \<open>
  A running paper session never places an order: whatever the broker, the risk rails
  and the signals, processing a candle leaves the broker, the trades, the positions and
  the capital as they are, records one refusal per signal of the strategy, and appends
  one point to the equity curve.
\<close>

theorem paper_session_never_trades:
  assumes "map_of (pt_sessions pt) sid = Some se" and "se_status se = Running"
  shows "\<exists>se' pt'. process_candle b ids envs now now' sid market price candle_time (pt, bs) = (Inr se', pt', bs) \<and>
    get_session sid pt' = Some se' \<and> se_trades se' = se_trades se \<and> se_positions se' = se_positions se \<and>
    se_current_capital se' = se_current_capital se \<and>
    length (se_equity_curve se') = length (se_equity_curve se) + 1 \<and>
    length (se_sizing_refusals se') = length (se_sizing_refusals se) +
      refusal_count (se_strategy_id se) (get_active_signals now now' market (pt_signals pt))"
  using assms process_signals_refuse [of b ids envs "pt_risk pt" market price 0
      "get_active_signals now now' market (pt_signals pt)" se bs]
  by (auto simp: process_candle_def require_session_def store_session_def get_session_def Let_def)

definition sample_paper_trading :: paper_trading where
  "sample_paper_trading =
     (let pt = snd (create_session ''se1'' 0 (Fin 10000) ''st1'' [''m1''] None
                 \<lparr>pt_signals = [(''sg1'', \<lparr>s_market_id = ''m1'', s_strategy_id = ''st1'', s_direction = LONG,
                     s_confidence = 1, s_generated_at = 0, s_expires_at = 100, s_id = ''sg1''\<rparr>)],
                  pt_risk = new_risk_service 0, pt_execution = default_execution_service, pt_sessions = []\<rparr>) in
      (case start_session 1 ''se1'' pt of Inr (_, pt') \<Rightarrow> pt' | Inl _ \<Rightarrow> pt))"

theorem paper_session_never_trades_witness:
  "\<exists>se' pt'. process_candle counting_venue (\<lambda>_. (''o'', ''t'', ''p'')) (\<lambda>_. sample_env) 2 2 ''se1'' ''m1''
      (Fin 50) 2 (sample_paper_trading, 0) = (Inr se', pt', 0) \<and> length (se_sizing_refusals se') = 1"
proof -
  obtain se where "map_of (pt_sessions sample_paper_trading) ''se1'' = Some se" "se_status se = Running"
      "se_strategy_id se = ''st1''" "se_sizing_refusals se = []"
    by (simp add: sample_paper_trading_def create_session_def start_session_def require_session_def
        store_session_def Let_def)
  moreover have "refusal_count ''st1'' (get_active_signals 2 2 ''m1'' (pt_signals sample_paper_trading)) = 1"
    by (simp add: refusal_count_def get_active_signals_def signals_get_active_def validate_signal_def
        repo_list_def sample_paper_trading_def create_session_def start_session_def require_session_def
        store_session_def Let_def)
  ultimately show ?thesis
    using paper_session_never_trades [of sample_paper_trading "''se1''" se counting_venue
        "\<lambda>_. (''o'', ''t'', ''p'')" "\<lambda>_. sample_env" 2 2 "''m1''" "Fin 50" 2 0] by auto
qed

end
