(* ===== verification/Cycle.thy ===== *)
theory Cycle
  imports Preflight Flatten PaperTrading
begin

text \<open>
  \<open>application/cycle_executor.py\<close>: the trading cycle and the retail order entry, from a
  strategy's evaluation to the booked fill.

  The executor's collaborators are one record, the desk; the broker is any adapter whose
  state runs beside it.  What the strategies return for the market state of the cycle, the
  measured win rate, the age of the data, the answer of the audit port and the new ids are
  inputs of a step.  \<open>sbind\<close> sequences steps that may raise and keep their writes.
  The backtest branch of \<open>run\<close> is not modelled.
\<close>

subsection \<open>The desk\<close>

datatype trading_mode = PAPER | LIVE | BACKTEST

record desk =
  dk_mode :: trading_mode
  dk_risk :: risk_service
  dk_portfolio :: portfolio_service
  dk_signals :: "signal store"
  dk_flatten :: "flatten_service option"
  dk_prices :: "(uuid \<Rightarrow> float64 res) option"
  dk_preflight :: "preflight_service option"
  dk_default_cash :: float64
  dk_user :: "string option"
  dk_audit :: "audit_event list"
  dk_metrics :: "(string \<times> float64) list"
  dk_events :: "(string \<times> fstring) list"
  dk_health :: "(string \<times> bool \<times> fstring) list"
  dk_notes :: "notification list"
  dk_errors :: "fstring list"
  dk_signals_count :: int
  dk_trades_count :: int

text \<open>What one pass over a signal reads from outside.\<close>

record step_input =
  si_env :: env
  si_environ :: environ
  si_chain_ok :: "bool option"
  si_chain_ok_again :: "bool option"
  si_win_rate :: "float64 option"
  si_now :: datetime
  si_signal_id :: uuid
  si_client_order_id :: uuid
  si_trade_id :: uuid
  si_position_id :: uuid
  si_flatten_nonce :: string
  si_flatten_envs :: "nat \<Rightarrow> env"
  si_evidence :: "exc option"

text \<open>The market and the instant of a cycle.\<close>

record tick =
  tk_market :: uuid
  tk_price :: float64
  tk_atr :: float64
  tk_candle_time :: "datetime option"
  tk_feed :: bool
  tk_last_candle :: "datetime option"

type_synonym 's floor = "desk \<times> 's"

definition sbind :: "'a res \<times> 'd \<Rightarrow> ('a \<Rightarrow> 'd \<Rightarrow> 'b res \<times> 'd) \<Rightarrow> 'b res \<times> 'd" where
  "sbind m f = (case m of (Inl e, d) \<Rightarrow> (Inl e, d) | (Inr a, d) \<Rightarrow> f a d)"

definition at_time :: "tick \<Rightarrow> step_input \<Rightarrow> datetime" where
  "at_time tk si = (case tk_candle_time tk of Some t \<Rightarrow> t | None \<Rightarrow> si_now si)"

text \<open>\<open>_record_causal\<close>: the payload is its keys and values in order.\<close>

definition record_causal ::
  "string \<Rightarrow> uuid \<Rightarrow> string \<Rightarrow> string \<Rightarrow> fstring \<Rightarrow> desk \<Rightarrow> desk" where
  "record_causal action market actor signal_id payload d =
     d\<lparr>dk_audit := dk_audit d @ [\<lparr>ae_action = action, ae_actor = actor, ae_resource = ''strategy'',
         ae_detail = [L ''market_id'', L market] @
           (if signal_id \<noteq> [] then [L ''signal_id'', L signal_id] else []) @ payload\<rparr>]\<rparr>"

definition dk_count :: "string \<Rightarrow> desk \<Rightarrow> desk" where
  "dk_count name d = d\<lparr>dk_metrics := dk_metrics d @ [(name, 1)]\<rparr>"

definition dk_publish :: "string \<Rightarrow> fstring \<Rightarrow> desk \<Rightarrow> desk" where
  "dk_publish name payload d = d\<lparr>dk_events := dk_events d @ [(name, payload)]\<rparr>"

definition dk_error :: "fstring \<Rightarrow> desk \<Rightarrow> desk" where
  "dk_error msg d = d\<lparr>dk_errors := dk_errors d @ [msg]\<rparr>"

definition ks_update :: "(kill_switch \<Rightarrow> kill_switch) \<Rightarrow> desk \<Rightarrow> desk" where
  "ks_update f d = d\<lparr>dk_risk := (dk_risk d)\<lparr>rs_kill_switch := f (rs_kill_switch (dk_risk d))\<rparr>\<rparr>"

definition cash_balance :: "'s broker \<Rightarrow> env \<Rightarrow> 's floor \<Rightarrow> float64 res \<times> 's floor" where
  "cash_balance b env st =
     (if dk_mode (fst st) = LIVE
      then let (r, x) = b_balance b env (snd st) in (r, (fst st, x))
      else (Inr (dk_default_cash (fst st)), st))"

subsection \<open>Booking a fill\<close>

text \<open>\<open>if fill.filled\<close>: the trade is opened, given the broker's id, and filled.\<close>

definition book_order ::
  "step_input \<Rightarrow> uuid \<Rightarrow> uuid \<Rightarrow> trade_side \<Rightarrow> fill_result \<Rightarrow> portfolio_service \<Rightarrow>
   trade res \<times> portfolio_service" where
  "book_order si signal_id market sd r ps =
     (let now = si_now si;
          (t, ps1) = open_trade (si_trade_id si) now signal_id market sd
                       (fr_fill_quantity r) (fr_fill_price r) ps in
      case (if fr_order_id r \<noteq> [] then submit now (order_id_text (fr_order_id r)) t else Inr t) of
        Inl e \<Rightarrow> (Inl e, ps1)
      | Inr t1 \<Rightarrow>
          (let ps2 = (if fr_order_id r \<noteq> [] then snd (update_trade t1 ps1) else ps1) in
           fill_trade (si_position_id si) now t1 (Some (fr_fill_price r)) ps2))"

definition order_placed_fields ::
  "string \<Rightarrow> float64 \<Rightarrow> float64 \<Rightarrow> uuid \<Rightarrow> fill_result \<Rightarrow> fstring" where
  "order_placed_fields sd qty price cid r =
     [L ''side'', L sd, L ''qty'', F qty, L ''price'', F price,
      L ''status'', L (if fr_filled r then ''filled'' else ''not_filled''),
      L ''order_id''] @ fr_order_id r @
     [L ''client_order_id'', L cid, L ''broker_filled_quantity'', F (fr_fill_quantity r),
      L ''broker_filled_price'', F (fr_fill_price r)]"

subsection \<open>One signal\<close>

definition preflight_gate :: "string \<Rightarrow> string \<Rightarrow> step_input \<Rightarrow> bool option \<Rightarrow> desk \<Rightarrow> bool \<times> desk" where
  "preflight_gate name lbl si chain_ok d =
     (case dk_preflight d of
        None \<Rightarrow> (True, d)
      | Some pf \<Rightarrow>
          (let pf = pf\<lparr>pf_kill_switch := map_option (\<lambda>_. rs_kill_switch (dk_risk d)) (pf_kill_switch pf)\<rparr>;
               v = preflight_check (si_environ si) chain_ok (dk_mode d = LIVE) pf in
           if pv_passed v then (True, d)
           else (False, d\<lparr>dk_errors := dk_errors d @
                          map (\<lambda>f. [L name, L lbl] @ f) (pv_failures v)\<rparr>)))"

definition risk_gate ::
  "'s broker \<Rightarrow> string \<Rightarrow> step_input \<Rightarrow> position list \<Rightarrow> 's floor \<Rightarrow> bool res \<times> 's floor" where
  "risk_gate b name si positions st =
     (case st of (d, x) \<Rightarrow>
        (let (verdict, rs) = rs_can_trade positions (dk_user d) (dk_risk d);
             d1 = d\<lparr>dk_risk := rs\<rparr>;
             refused = (Inr False, (dk_error ([L name, L '': ''] @ v_reason verdict) d1, x)) in
         if allowed verdict then (Inr True, (d1, x))
         else
         case dk_flatten d1 of
           None \<Rightarrow> refused
         | Some fs \<Rightarrow>
             if ks_circuit_open (rs_kill_switch rs) \<and> \<not> is_flattened fs
             then (case flatten b (dk_prices d1) (si_flatten_nonce si) (si_flatten_envs si) (v_reason verdict)
                          (dk_portfolio d1) (fs, x) of
                     (Inl e, fs1, x1) \<Rightarrow> (Inl e, (d1\<lparr>dk_flatten := Some fs1\<rparr>, x1))
                   | (Inr r, fs1, x1) \<Rightarrow>
                       (Inr False,
                        (dk_error [L name, L '': kill switch engaged - flattened '', Z (fl_close_orders r),
                                   L '' positions, '', Z (fl_failed_orders r), L '' failed'']
                           (d1\<lparr>dk_flatten := Some fs1\<rparr>), x1)))
             else refused))"

definition record_sizing_refusal :: "signal \<Rightarrow> fstring \<Rightarrow> desk \<Rightarrow> desk" where
  "record_sizing_refusal s reason d =
     (let detail = (if reason \<noteq> [] then reason else [L ''position size refused without a stated reason'']) in
      record_causal ''risk.sizing_refused'' (s_market_id s) ''risk'' (s_id s)
        ([L ''confidence'', F (s_confidence s), L ''reason''] @ detail) (dk_count ''risk.sizing_refused'' d))"

text \<open>The equity and the quantity of the order, when the signal deserves one.\<close>

definition size_signal ::
  "'s broker \<Rightarrow> tick \<Rightarrow> step_input \<Rightarrow> signal \<Rightarrow> 's floor \<Rightarrow> (float64 \<times> float64) option res \<times> 's floor" where
  "size_signal b tk si s st =
     sbind (cash_balance b (si_env si) st) (\<lambda>cash st1. case st1 of (d, x) \<Rightarrow>
       (let eq = sm_total_equity (get_summary cash (dk_portfolio d)) in
        case assess_trade (tk_price tk) (s_confidence s) (tk_atr tk) eq (si_win_rate si) (dk_risk d) of
          Inl e \<Rightarrow> (Inl e, (d, x))
        | Inr risk \<Rightarrow>
            if kelly_fraction risk \<le> 0 then (Inr None, (record_sizing_refusal s (ra_reason risk) d, x))
            else
            case size_position cash (s_confidence s) (tk_price tk) (lit 0.02) (lit 0.25) of
              Inl e \<Rightarrow> (Inl e, (d, x))
            | Inr qty \<Rightarrow> (Inr (if qty \<le> 0 then None else Some (eq, qty)), (d, x))))"

definition gross_exposure :: "position list \<Rightarrow> float64" where
  "gross_exposure ps = py_sum (map (\<lambda>p. \<bar>p_quantity p\<bar> * p_current_price p) ps)"

definition signal_side :: "signal \<Rightarrow> string" where
  "signal_side s = (if s_direction s = LONG then ''buy'' else ''sell'')"

definition cycle_request ::
  "tick \<Rightarrow> step_input \<Rightarrow> signal \<Rightarrow> position list \<Rightarrow> float64 \<Rightarrow> float64 \<Rightarrow> desk \<Rightarrow> order_request" where
  "cycle_request tk si s positions eq qty d =
     \<lparr>or_market_id = tk_market tk, or_side = signal_side s, or_quantity = qty, or_price = tk_price tk,
      or_equity = eq, or_existing_gross = gross_exposure positions,
      or_last_candle_at = tk_last_candle tk, or_now = Some (at_time tk si), or_user_id = dk_user d\<rparr>"

definition cycle_order :: "tick \<Rightarrow> step_input \<Rightarrow> string \<Rightarrow> float64 \<Rightarrow> order_args" where
  "cycle_order tk si sd qty =
     \<lparr>oa_market_id = tk_market tk, oa_side = sd, oa_quantity = qty, oa_close_price = Some (tk_price tk),
      oa_client_order_id = Some (si_client_order_id si)\<rparr>"

text \<open>The broker's answer: booked when filled, a failure of the switch otherwise.  The
  recording of the evidence afterwards is an input, an exception or nothing.\<close>

definition settle_signal ::
  "string \<Rightarrow> tick \<Rightarrow> step_input \<Rightarrow> signal \<Rightarrow> float64 \<Rightarrow> fill_result \<Rightarrow> desk \<Rightarrow> unit res \<times> desk" where
  "settle_signal name tk si s qty r d0 =
     (let sd = signal_side s;
          d = record_causal ''order.placed'' (tk_market tk) name (s_id s)
                (order_placed_fields sd qty (tk_price tk) (si_client_order_id si) r) d0 in
      if \<not> fr_filled r then (Inr (), ks_update ks_record_failure d)
      else
      case book_order si (s_id s) (tk_market tk) (if s_direction s = LONG then BUY else SELL) r
             (dk_portfolio d) of
        (Inl e, ps) \<Rightarrow> (Inl e, d\<lparr>dk_portfolio := ps\<rparr>)
      | (Inr t, ps) \<Rightarrow>
          (let d1 = d\<lparr>dk_portfolio := ps, dk_trades_count := dk_trades_count d + 1\<rparr>;
               d2 = record_causal ''trade.fill'' (tk_market tk) name (s_id s)
                      [L ''trade_id'', L (t_id t), L ''side'', L sd, L ''qty'', F (fr_fill_quantity r),
                       L ''price'', F (fr_fill_price r)] d1;
               d3 = dk_publish ''trade.executed''
                      [L (tk_market tk), L sd, F (fr_fill_quantity r), F (fr_fill_price r), L (t_id t)] d2;
               d4 = dk_count ''trades.executed'' (ks_update ks_record_success d3) in
           case si_evidence si of None \<Rightarrow> (Inr (), d4) | Some e \<Rightarrow> (Inl e, d4)))"

definition authorize_and_submit ::
  "'s broker \<Rightarrow> string \<Rightarrow> tick \<Rightarrow> step_input \<Rightarrow> signal \<Rightarrow> position list \<Rightarrow> float64 \<Rightarrow> float64 \<Rightarrow>
   's floor \<Rightarrow> unit res \<times> 's floor" where
  "authorize_and_submit b name tk si s positions eq qty st =
     (case st of (d, x) \<Rightarrow>
        (let (go, d1) = preflight_gate name '': preflight (re-check): '' si (si_chain_ok_again si) d in
         if \<not> go then (Inr (), (d1, x))
         else
         let (verdict, rs) = authorize_order (cycle_request tk si s positions eq qty d1) (dk_risk d1);
             d2 = d1\<lparr>dk_risk := rs\<rparr> in
         if \<not> allowed verdict
         then (Inr (), (record_causal ''decision.made'' (tk_market tk) name (s_id s)
                 ([L ''outcome'', L ''blocked'', L ''reason''] @ v_reason verdict @
                  [L ''qty'', F qty, L ''price'', F (tk_price tk)])
                 (dk_error ([L name, L '': order blocked: ''] @ v_reason verdict) d2), x))
         else
         let d3 = record_causal ''decision.made'' (tk_market tk) name (s_id s)
               [L ''outcome'', L ''allowed'', L ''side'', L (signal_side s), L ''qty'', F qty,
                L ''price'', F (tk_price tk), L ''strategy'', L name,
                L ''client_order_id'', L (si_client_order_id si)] d2 in
         case b_market b (cycle_order tk si (signal_side s) qty) (si_env si) x of
           (Inl e, x1) \<Rightarrow> (Inl e, (d3, x1))
         | (Inr r, x1) \<Rightarrow> (let (u, d4) = settle_signal name tk si s qty r d3 in (u, (d4, x1)))))"

definition cycle_signal ::
  "'s broker \<Rightarrow> bool \<Rightarrow> string \<Rightarrow> tick \<Rightarrow> step_input \<Rightarrow> signal \<Rightarrow> 's floor \<Rightarrow> unit res \<times> 's floor" where
  "cycle_signal b data_gap name tk si s st =
     (if data_gap then (Inr (), st)
      else
      let (go, d) = preflight_gate name '': preflight: '' si (si_chain_ok si) (fst st) in
      if \<not> go then (Inr (), (d, snd st))
      else
      let positions = sm_open_positions (get_summary 0 (dk_portfolio d)) in
      sbind (risk_gate b name si positions (d, snd st)) (\<lambda>allowed_now st1.
        if \<not> allowed_now then (Inr (), st1)
        else sbind (size_signal b tk si s st1) (\<lambda>size st2.
          case size of
            None \<Rightarrow> (Inr (), st2)
          | Some (eq, qty) \<Rightarrow> authorize_and_submit b name tk si s positions eq qty st2)))"

subsection \<open>One strategy and the whole cycle\<close>

text \<open>\<open>_CYCLE_EXCEPTIONS\<close> with the subclasses the code base has.\<close>

definition cycle_caught :: "exc \<Rightarrow> bool" where
  "cycle_caught e =
     (e \<in> {ValueError, MoneyPrecisionError, RuntimeError, OSError, TimeoutError, ServiceError,
           InfrastructureError, ConfigError, RateLimitExceededError})"

record signal_result =
  sr_direction :: string
  sr_confidence :: float64

fun parse_direction :: "string \<Rightarrow> signal_direction res" where
  "parse_direction s =
     (if s = ''long'' then Inr LONG else if s = ''short'' then Inr SHORT
      else if s = ''neutral'' then Inr NEUTRAL else Inl ValueError)"

definition process_evaluation ::
  "uuid \<Rightarrow> datetime \<Rightarrow> uuid \<Rightarrow> uuid \<Rightarrow> signal_result \<Rightarrow> int \<Rightarrow> signal store \<Rightarrow> signal res \<times> signal store" where
  "process_evaluation fresh now market strategy r ttl_minutes store =
     (case rbind (parse_direction (sr_direction r)) (\<lambda>dir.
             signal_post_init \<lparr>s_market_id = market, s_strategy_id = strategy, s_direction = dir,
               s_confidence = sr_confidence r, s_generated_at = now,
               s_expires_at = now + ttl_minutes * 60000000, s_id = fresh\<rparr>) of
        Inl e \<Rightarrow> (Inl e, store)
      | Inr s \<Rightarrow> (let (stored, store1) = repo_add s_id s store in (Inr stored, store1)))"

text \<open>What \<open>strategy.evaluate\<close> of an enabled strategy did, with the strategy's name and id.\<close>

type_synonym evaluation = "string \<times> uuid \<times> signal_result option res \<times> step_input"

definition cycle_evaluated ::
  "'s broker \<Rightarrow> bool \<Rightarrow> tick \<Rightarrow> evaluation \<Rightarrow> 's floor \<Rightarrow> unit res \<times> 's floor" where
  "cycle_evaluated b data_gap tk ev st =
     (case ev of (name, strategy, outcome, si) \<Rightarrow> case st of (d, x) \<Rightarrow>
        (case outcome of
           Inl e \<Rightarrow> (Inl e, st)
         | Inr None \<Rightarrow> (Inr (), st)
         | Inr (Some r) \<Rightarrow>
             (case process_evaluation (si_signal_id si) (si_now si) (tk_market tk) strategy r 60 (dk_signals d) of
                (Inl e, store) \<Rightarrow> (Inl e, (d\<lparr>dk_signals := store\<rparr>, x))
              | (Inr s, store) \<Rightarrow>
                  (let d1 = d\<lparr>dk_signals := store, dk_signals_count := dk_signals_count d + 1\<rparr>;
                       told = [L name, L (sr_direction r), F (sr_confidence r)];
                       d2 = dk_publish ''signal.generated'' ([L (tk_market tk)] @ told)
                              (record_causal ''signal.generated'' (tk_market tk) name (s_id s) told d1) in
                   cycle_signal b data_gap name tk si s (d2, x)))))"

definition cycle_strategy ::
  "'s broker \<Rightarrow> bool \<Rightarrow> tick \<Rightarrow> evaluation \<Rightarrow> 's floor \<Rightarrow> unit res \<times> 's floor" where
  "cycle_strategy b data_gap tk ev st =
     (case cycle_evaluated b data_gap tk ev st of
        (Inr u, st1) \<Rightarrow> (Inr u, st1)
      | (Inl e, (d, x)) \<Rightarrow>
          if \<not> cycle_caught e then (Inl e, (d, x))
          else (Inr (), (dk_publish ''cycle.error'' [L (tk_market tk), L (fst ev)]
                           (dk_error [L (fst ev), L '': error''] d), x)))"

fun cycle_strategies ::
  "'s broker \<Rightarrow> bool \<Rightarrow> tick \<Rightarrow> evaluation list \<Rightarrow> 's floor \<Rightarrow> unit res \<times> 's floor" where
  "cycle_strategies b data_gap tk [] st = (Inr (), st)"
| "cycle_strategies b data_gap tk (ev # evs) st =
     sbind (cycle_strategy b data_gap tk ev st) (\<lambda>_ st1. cycle_strategies b data_gap tk evs st1)"

text \<open>The data-gap breaker of \<open>run\<close>: only with a feed and in live mode.\<close>

definition data_gap_error :: "tick \<Rightarrow> datetime \<Rightarrow> desk \<Rightarrow> fstring option" where
  "data_gap_error tk now d =
     (if dk_mode d = LIVE \<and> tk_feed tk
      then (case tk_last_candle tk of
              None \<Rightarrow> Some [L (tk_market tk), L '': no market data - trading blocked'']
            | Some last_ts \<Rightarrow>
                (let stale_seconds = total_seconds (now - last_ts);
                     threshold = rs_max_data_staleness_seconds (dk_risk d) in
                 if threshold < stale_seconds
                 then Some [L (tk_market tk), L '': market data stale '', FX 0 stale_seconds,
                            L ''s (threshold '', FX 0 threshold, L ''s) - trading blocked'']
                 else None))
      else None)"

definition report_gap :: "tick \<Rightarrow> fstring option \<Rightarrow> desk \<Rightarrow> desk" where
  "report_gap tk gap d =
     (case gap of
        None \<Rightarrow> d
      | Some msg \<Rightarrow>
          dk_publish ''risk.data_gap_blocked'' ([L (tk_market tk)] @ msg)
            (dk_count ''risk.data_gap_blocked''
              ((dk_error msg d)\<lparr>dk_health := dk_health d @ [(''market.'' @ tk_market tk, False, msg)],
                 dk_notes := dk_notes d @ [(CRITICAL, ''Market Data Gap'', msg)]\<rparr>)))"

text \<open>\<open>run\<close> in paper and live mode, from the data-gap check to the end of the loop over the
  strategies.\<close>

definition cycle_run ::
  "'s broker \<Rightarrow> tick \<Rightarrow> datetime \<Rightarrow> evaluation list \<Rightarrow> 's floor \<Rightarrow> unit res \<times> 's floor" where
  "cycle_run b tk now evs st =
     (case st of (d, x) \<Rightarrow>
        (let gap = data_gap_error tk (case tk_candle_time tk of Some t \<Rightarrow> t | None \<Rightarrow> now) d;
             d1 = report_gap tk gap (d\<lparr>dk_errors := [], dk_signals_count := 0, dk_trades_count := 0\<rparr>) in
         sbind (cycle_strategies b (gap \<noteq> None) tk evs (d1, x)) (\<lambda>_ st1. case st1 of (d2, x2) \<Rightarrow>
           (Inr (), (d2\<lparr>dk_health := dk_health d2 @ [(''market.'' @ tk_market tk, True, [])]\<rparr>, x2)))))"

subsection \<open>Retail order entry\<close>

record retail_result =
  rr_allowed :: bool
  rr_reason :: fstring
  rr_order_id :: "fstring option"
  rr_signal_id :: string

definition retail_request ::
  "step_input \<Rightarrow> uuid \<Rightarrow> string \<Rightarrow> float64 \<Rightarrow> float64 \<Rightarrow> string option \<Rightarrow> portfolio_summary \<Rightarrow> order_request" where
  "retail_request si market sd qty price user summary =
     \<lparr>or_market_id = market, or_side = sd, or_quantity = qty, or_price = price,
      or_equity = sm_total_equity summary, or_existing_gross = gross_exposure (sm_open_positions summary),
      or_last_candle_at = None, or_now = Some (si_now si), or_user_id = user\<rparr>"

definition retail_blocked ::
  "step_input \<Rightarrow> uuid \<Rightarrow> string \<Rightarrow> float64 \<Rightarrow> float64 \<Rightarrow> string option \<Rightarrow> fstring \<Rightarrow> desk \<Rightarrow> desk" where
  "retail_blocked si market sd qty price user reason d =
     (let d1 = dk_count ''retail.orders.blocked''
            (record_causal ''decision.made'' market ''retail'' (si_signal_id si)
              ([L ''outcome'', L ''blocked'', L ''reason''] @ reason @
               [L ''side'', L sd, L ''qty'', F qty, L ''price'', F price]) d) in
      d1\<lparr>dk_audit := dk_audit d1 @ [\<lparr>ae_action = ''retail.order.blocked'', ae_actor = ''retail'',
          ae_resource = ''strategy'',
          ae_detail = [L ''market_id'', L market, L ''side'', L sd, L ''qty'', F qty, L ''user_id'',
                       L (case user of None \<Rightarrow> ''null'' | Some u \<Rightarrow> u), L ''reason''] @ reason @
                      [L ''signal_id'', L (si_signal_id si), L ''now'', Z (si_now si)]\<rparr>]\<rparr>)"

definition settle_retail ::
  "step_input \<Rightarrow> uuid \<Rightarrow> string \<Rightarrow> float64 \<Rightarrow> float64 \<Rightarrow> uuid \<Rightarrow> string option \<Rightarrow> fill_result \<Rightarrow> desk \<Rightarrow>
   fstring option res \<times> desk" where
  "settle_retail si market sd qty price cid user r d0 =
     (let d = record_causal ''order.placed'' market ''retail'' (si_signal_id si)
                (order_placed_fields sd qty price cid r) d0 in
      if \<not> fr_filled r
      then (Inr None, dk_count ''retail.orders.rejected'' (ks_update ks_record_failure d))
      else
      case book_order si (si_signal_id si) market (if sd = ''buy'' then BUY else SELL) r (dk_portfolio d) of
        (Inl e, ps) \<Rightarrow> (Inl e, d\<lparr>dk_portfolio := ps\<rparr>)
      | (Inr t, ps) \<Rightarrow>
          (let d1 = record_causal ''trade.fill'' market ''retail'' (si_signal_id si)
                      [L ''trade_id'', L (t_id t), L ''side'', L sd, L ''qty'', F (fr_fill_quantity r),
                       L ''price'', F (fr_fill_price r), L ''user_id'', L (case user of None \<Rightarrow> [] | Some u \<Rightarrow> u),
                       L ''strategy'', L ''retail-manual''] (d\<lparr>dk_portfolio := ps\<rparr>);
               d2 = dk_publish ''trade.executed''
                      [L market, L sd, F (fr_fill_quantity r), F (fr_fill_price r), L ''retail''] d1 in
           (Inr (Some (if fr_order_id r \<noteq> [] then fr_order_id r else [L (t_id t)])),
            dk_count ''retail.orders.filled'' (ks_update ks_record_success d2))))"

text \<open>Everything after the cash balance is known.\<close>

definition retail_decide ::
  "'s broker \<Rightarrow> step_input \<Rightarrow> uuid \<Rightarrow> string \<Rightarrow> float64 \<Rightarrow> float64 \<Rightarrow> string option \<Rightarrow> uuid option \<Rightarrow>
   float64 \<Rightarrow> 's floor \<Rightarrow> retail_result res \<times> 's floor" where
  "retail_decide b si market sd qty price user client_order_id cash st1 =
     (case st1 of (d, x) \<Rightarrow>
       (let summary = get_summary cash (dk_portfolio d);
            (verdict, rs) = authorize_order (retail_request si market sd qty price user summary) (dk_risk d);
            d1 = d\<lparr>dk_risk := rs\<rparr> in
        if \<not> allowed verdict
        then (Inr \<lparr>rr_allowed = False, rr_reason = v_reason verdict, rr_order_id = None,
                   rr_signal_id = si_signal_id si\<rparr>,
              (retail_blocked si market sd qty price user (v_reason verdict) d1, x))
        else
        let final_id = (case client_order_id of Some c \<Rightarrow> if c \<noteq> [] then c else si_client_order_id si
                        | None \<Rightarrow> si_client_order_id si);
            d2 = record_causal ''decision.made'' market ''retail'' (si_signal_id si)
                   [L ''outcome'', L ''allowed'', L ''side'', L sd, L ''qty'', F qty, L ''price'', F price,
                    L ''user_id'', L (case user of None \<Rightarrow> [] | Some u \<Rightarrow> u), L ''client_order_id'', L final_id] d1 in
        case b_market b \<lparr>oa_market_id = market, oa_side = sd, oa_quantity = qty, oa_close_price = Some price,
               oa_client_order_id = Some final_id\<rparr> (si_env si) x of
          (Inl e, x1) \<Rightarrow> (Inl e, (d2, x1))
        | (Inr r, x1) \<Rightarrow>
            (case settle_retail si market sd qty price final_id user r d2 of
               (Inl e, d3) \<Rightarrow> (Inl e, (d3, x1))
             | (Inr oid, d3) \<Rightarrow> (Inr \<lparr>rr_allowed = True, rr_reason = v_reason verdict, rr_order_id = oid,
                                     rr_signal_id = []\<rparr>, (d3, x1)))))"

definition submit_retail_order ::
  "'s broker \<Rightarrow> step_input \<Rightarrow> uuid \<Rightarrow> string \<Rightarrow> float64 \<Rightarrow> float64 \<Rightarrow> string option \<Rightarrow> uuid option \<Rightarrow>
   's floor \<Rightarrow> retail_result res \<times> 's floor" where
  "submit_retail_order b si market sd qty price user client_order_id st =
     sbind (cash_balance b (si_env si) st)
       (\<lambda>cash st1. retail_decide b si market sd qty price user client_order_id cash st1)"

end
