(* ===== verification/CycleSafety.thy ===== *)
theory CycleSafety
  imports Cycle
begin

text \<open>
  What the cycle executor of \<open>Cycle\<close> guarantees: a closed gate or stale data keep the
  broker out of reach, every order of a signal and of the retail seam went through every
  gate, and no operation of the desk ever records a realised profit or loss.
\<close>

subsection \<open>Frames\<close>

lemmas desk_ops = record_causal_def dk_count_def dk_publish_def dk_error_def ks_update_def
  record_sizing_refusal_def retail_blocked_def report_gap_def Let_def

lemma sbind_simps [simp]: "sbind (Inl e, d) f = (Inl e, d)" "sbind (Inr a, d) f = f a d"
  by (simp_all add: sbind_def)

lemma desk_frame [simp]:
  "dk_portfolio (record_causal a m c i p d) = dk_portfolio d" "dk_risk (record_causal a m c i p d) = dk_risk d"
  "dk_preflight (record_causal a m c i p d) = dk_preflight d" "dk_mode (record_causal a m c i p d) = dk_mode d"
  "dk_portfolio (dk_count n d) = dk_portfolio d" "dk_risk (dk_count n d) = dk_risk d"
  "dk_preflight (dk_count n d) = dk_preflight d" "dk_mode (dk_count n d) = dk_mode d"
  "dk_portfolio (dk_publish n p d) = dk_portfolio d" "dk_risk (dk_publish n p d) = dk_risk d"
  "dk_preflight (dk_publish n p d) = dk_preflight d" "dk_mode (dk_publish n p d) = dk_mode d"
  "dk_portfolio (dk_error msg d) = dk_portfolio d" "dk_risk (dk_error msg d) = dk_risk d"
  "dk_preflight (dk_error msg d) = dk_preflight d" "dk_mode (dk_error msg d) = dk_mode d"
  "dk_portfolio (ks_update f d) = dk_portfolio d" "dk_preflight (ks_update f d) = dk_preflight d"
  "dk_trades_count (record_causal a m c i p d) = dk_trades_count d"
  "dk_trades_count (dk_publish n p d) = dk_trades_count d" "dk_trades_count (dk_error msg d) = dk_trades_count d"
  "dk_trades_count (dk_count n d) = dk_trades_count d"
  by (simp_all add: desk_ops)

lemma preflight_gate_passed: "preflight_gate name lbl si c d = (True, d') \<Longrightarrow> d' = d"
  by (auto simp: preflight_gate_def Let_def split: option.splits if_splits)

lemma preflight_gate_frame:
  "preflight_gate name lbl si c d = (go, d') \<Longrightarrow>
     dk_portfolio d' = dk_portfolio d \<and> dk_risk d' = dk_risk d \<and> dk_preflight d' = dk_preflight d \<and>
     dk_trades_count d' = dk_trades_count d \<and> dk_mode d' = dk_mode d"
  by (auto simp: preflight_gate_def Let_def split: option.splits if_splits)

subsection \<open>A closed gate keeps the broker out of reach\<close>

definition gate_closed :: "desk \<Rightarrow> bool" where
  "gate_closed d =
     (case dk_preflight d of None \<Rightarrow> False
      | Some pf \<Rightarrow> (case pf_recon pf of None \<Rightarrow> False | Some r \<Rightarrow> \<not> can_accept_orders r))"

lemma closed_preflight: "gate_closed d \<Longrightarrow> \<not> fst (preflight_gate name lbl si c d)"
  by (auto simp: gate_closed_def preflight_gate_def preflight_passed Let_def split: option.splits)

definition untouched :: "desk \<times> 's \<Rightarrow> desk \<times> 's \<Rightarrow> bool" where
  "untouched st st' =
     (snd st' = snd st \<and> dk_portfolio (fst st') = dk_portfolio (fst st) \<and>
      dk_preflight (fst st') = dk_preflight (fst st) \<and> dk_trades_count (fst st') = dk_trades_count (fst st))"

lemma cycle_signal_closed:
  assumes "gap \<or> gate_closed d"
  shows "\<exists>d'. cycle_signal b gap name tk si s (d, x) = (Inr (), (d', x)) \<and> untouched (d, x) (d', x)"
proof (cases gap)
  case False
  obtain go d' where gate: "preflight_gate name '': preflight: '' si (si_chain_ok si) d = (go, d')"
    by fastforce
  with closed_preflight [of d name "'': preflight: ''" si "si_chain_ok si"] assms False have "\<not> go" by simp
  with gate False preflight_gate_frame [OF gate] show ?thesis
    by (simp add: cycle_signal_def untouched_def Let_def)
qed (simp add: cycle_signal_def untouched_def)

lemma cycle_strategy_closed:
  assumes "gap \<or> gate_closed d"
  shows "untouched (d, x) (snd (cycle_strategy b gap tk ev (d, x)))"
proof -
  obtain name strategy outcome si where ev: "ev = (name, strategy, outcome, si)" by (cases ev)
  have "untouched (d, x) (snd (cycle_evaluated b gap tk ev (d, x)))"
  proof (cases outcome)
    case (Inr ro)
    show ?thesis
    proof (cases ro)
      case (Some r)
      obtain q store where p: "process_evaluation (si_signal_id si) (si_now si) (tk_market tk) strategy r 60
          (dk_signals d) = (q, store)" by fastforce
      show ?thesis
      proof (cases q)
        case (Inr s)
        define d2 where "d2 = dk_publish ''signal.generated''
          ([L (tk_market tk)] @ [L name, L (sr_direction r), F (sr_confidence r)])
          (record_causal ''signal.generated'' (tk_market tk) name (s_id s)
             [L name, L (sr_direction r), F (sr_confidence r)]
             (d\<lparr>dk_signals := store, dk_signals_count := dk_signals_count d + 1\<rparr>))"
        have "gap \<or> gate_closed d2" using assms by (simp add: d2_def gate_closed_def)
        from cycle_signal_closed [OF this, of b name tk si s x]
        show ?thesis
          using ev \<open>outcome = Inr ro\<close> Some p Inr
          by (auto simp: cycle_evaluated_def untouched_def d2_def)
      qed (use ev \<open>outcome = Inr ro\<close> Some p in \<open>simp add: cycle_evaluated_def untouched_def\<close>)
    qed (use ev Inr in \<open>simp add: cycle_evaluated_def untouched_def\<close>)
  qed (use ev in \<open>simp add: cycle_evaluated_def untouched_def\<close>)
  then show ?thesis
    by (auto simp: cycle_strategy_def untouched_def split: prod.splits sum.splits)
qed

lemma untouched_trans: "untouched s t \<Longrightarrow> untouched t u \<Longrightarrow> untouched s u"
  by (simp add: untouched_def)

lemma cycle_strategies_closed:
  "gap \<or> gate_closed (fst st) \<Longrightarrow> untouched st (snd (cycle_strategies b gap tk evs st))"
proof (induction evs arbitrary: st)
  case (Cons ev evs)
  obtain r st1 where one: "cycle_strategy b gap tk ev st = (r, st1)"
    by (cases "cycle_strategy b gap tk ev st")
  have step: "untouched st st1"
    using cycle_strategy_closed [of gap "fst st" "snd st" b tk ev] Cons.prems one by simp
  then have "gap \<or> gate_closed (fst st1)"
    using Cons.prems by (simp add: untouched_def gate_closed_def)
  then show ?case
    using Cons.IH [of st1] step one by (cases r) (auto intro: untouched_trans)
qed (simp add: untouched_def)

text \<open>
  C2. While the data feed of a live cycle is stale or silent, or the wired reconciliation
  gate is closed, a whole cycle over any strategies leaves the broker and the portfolio
  exactly as they were and executes no trade; when it completes it still reports the
  market healthy, after any gap it reported.
\<close>

theorem closed_gate_blocks_cycle:
  assumes "data_gap_error tk (case tk_candle_time tk of Some t \<Rightarrow> t | None \<Rightarrow> now) d \<noteq> None \<or> gate_closed d"
    and "cycle_run b tk now evs (d, x) = (u, (d', x'))"
  shows "x' = x \<and> dk_portfolio d' = dk_portfolio d \<and> dk_trades_count d' = 0 \<and>
    (u = Inr () \<longrightarrow> last (dk_health d') = (''market.'' @ tk_market tk, True, []))"
proof -
  let ?gap = "data_gap_error tk (case tk_candle_time tk of Some t \<Rightarrow> t | None \<Rightarrow> now) d"
  define d1 where "d1 = report_gap tk ?gap (d\<lparr>dk_errors := [], dk_signals_count := 0, dk_trades_count := 0\<rparr>)"
  have d1: "dk_portfolio d1 = dk_portfolio d \<and> dk_preflight d1 = dk_preflight d \<and> dk_trades_count d1 = 0"
    by (simp add: d1_def desk_ops split: option.splits)
  obtain r d2 x2 where all: "cycle_strategies b (?gap \<noteq> None) tk evs (d1, x) = (r, (d2, x2))"
    by (metis prod_cases3)
  have "?gap \<noteq> None \<or> gate_closed d1" using assms(1) d1 by (simp add: gate_closed_def)
  then have "untouched (d1, x) (d2, x2)"
    using cycle_strategies_closed [of "?gap \<noteq> None" "(d1, x)" b tk evs] all by simp
  then show ?thesis
    using assms(2) all d1 by (cases r) (auto simp: cycle_run_def Let_def d1_def untouched_def)
qed

definition sample_input :: step_input where
  "sample_input = \<lparr>si_env = sample_env, si_environ = [], si_chain_ok = None, si_chain_ok_again = None,
     si_win_rate = Some (Fin (3/4)), si_now = 0, si_signal_id = ''s1'', si_client_order_id = ''c1'',
     si_trade_id = ''t1'', si_position_id = ''p1'', si_flatten_nonce = ''n'',
     si_flatten_envs = (\<lambda>_. sample_env), si_evidence = None\<rparr>"

definition sample_desk :: desk where
  "sample_desk = \<lparr>dk_mode = PAPER, dk_risk = new_risk_service 0, dk_portfolio = empty_portfolio,
     dk_signals = [], dk_flatten = None, dk_prices = None, dk_preflight = None, dk_default_cash = Fin 1000,
     dk_user = None, dk_audit = [], dk_metrics = [], dk_events = [], dk_health = [], dk_notes = [],
     dk_errors = [], dk_signals_count = 0, dk_trades_count = 0\<rparr>"

definition sample_tick :: tick where
  "sample_tick = \<lparr>tk_market = ''m'', tk_price = Fin 1, tk_atr = 0, tk_candle_time = None,
     tk_feed = False, tk_last_candle = None\<rparr>"

definition closed_preflight_service :: preflight_service where
  "closed_preflight_service = \<lparr>pf_recon = Some (new_broker_recon_service None None None),
     pf_kill_switch = None, pf_allowed_markets = None, pf_require_allowlist = False\<rparr>"

theorem closed_gate_blocks_cycle_witness:
  "\<exists>u d'. cycle_run counting_venue sample_tick 0
       [(''momentum'', ''id'', Inr (Some \<lparr>sr_direction = ''long'', sr_confidence = 1\<rparr>), sample_input)]
       (sample_desk\<lparr>dk_preflight := Some closed_preflight_service\<rparr>, 0) = (u, (d', 0)) \<and>
     dk_trades_count d' = 0"
proof -
  let ?d = "sample_desk\<lparr>dk_preflight := Some closed_preflight_service\<rparr>"
  let ?evs = "[(''momentum'', ''id'', Inr (Some \<lparr>sr_direction = ''long'', sr_confidence = 1\<rparr>), sample_input)]"
  obtain u d' x' where run: "cycle_run counting_venue sample_tick 0 ?evs (?d, 0) = (u, (d', x'))"
    by (metis prod_cases3)
  have "gate_closed ?d"
    by (simp add: gate_closed_def closed_preflight_service_def new_broker_recon_service_def can_accept_orders_def)
  then show ?thesis
    using closed_gate_blocks_cycle [OF disjI2 run] run by simp
qed

subsection \<open>Every order of a signal went through every gate\<close>

definition flatten_due :: "desk \<Rightarrow> bool" where
  "flatten_due d =
     (ks_circuit_open (rs_kill_switch (dk_risk d)) \<and>
      (case dk_flatten d of None \<Rightarrow> False | Some fs \<Rightarrow> \<not> is_flattened fs))"

definition passes_preflight :: "step_input \<Rightarrow> bool option \<Rightarrow> desk \<Rightarrow> bool" where
  "passes_preflight si chain_ok d = fst (preflight_gate [] [] si chain_ok d)"

lemma passes_preflight: "fst (preflight_gate name lbl si c d) = passes_preflight si c d"
  by (simp add: passes_preflight_def preflight_gate_def Let_def split: option.splits)

lemma can_trade_allowed: "rs_can_trade ps u rs = (v, rs') \<Longrightarrow> allowed v \<Longrightarrow> rs' = rs"
  by (auto simp: rs_can_trade_def Let_def split: if_splits)

lemma can_trade_kill_switch:
  "rs_can_trade ps u rs = (v, rs') \<Longrightarrow> rs_kill_switch rs' = rs_kill_switch rs \<and> rs_persistent rs' = rs_persistent rs"
  by (auto simp: rs_can_trade_def audit_user_def Let_def split: if_splits)

lemma risk_gate_quiet:
  assumes "risk_gate b name si ps (d, x) = (r, (d', x'))" and "\<not> flatten_due d"
  shows "x' = x \<and> (r = Inr True \<longrightarrow> d' = d \<and> allowed (fst (rs_can_trade ps (dk_user d) (dk_risk d))))"
  using assms can_trade_kill_switch [of ps "dk_user d" "dk_risk d"]
    can_trade_allowed [of ps "dk_user d" "dk_risk d"]
  by (cases "rs_can_trade ps (dk_user d) (dk_risk d)")
    (auto simp: risk_gate_def flatten_due_def Let_def split: if_splits option.splits)

lemma size_signal_quiet:
  assumes "size_signal (logged b) tk si s (d, (y, orders)) = (r, (d', (y', orders')))"
  shows "orders' = orders \<and> (r \<noteq> Inr None \<longrightarrow> d' = d)"
  using assms
  by (auto simp: size_signal_def cash_balance_def logged_def sbind_def Let_def
      split: if_splits prod.splits sum.splits)

lemma submit_orders:
  assumes "authorize_and_submit (logged b) name tk si s ps eq qty (d, (y, orders)) = (u, (d', (y', orders')))"
  shows "orders' = orders \<or>
    orders' = orders @ [cycle_order tk si (signal_side s) qty] \<and>
    passes_preflight si (si_chain_ok_again si) d \<and> order_rails (dk_risk d) (cycle_request tk si s ps eq qty d)"
proof (cases "preflight_gate name '': preflight (re-check): '' si (si_chain_ok_again si) d")
  case (Pair go d1)
  show ?thesis
  proof (cases "go \<and> allowed (fst (authorize_order (cycle_request tk si s ps eq qty d) (dk_risk d)))")
    case True
    then have "d1 = d" using Pair by (auto dest: preflight_gate_passed)
    moreover have "passes_preflight si (si_chain_ok_again si) d"
      using True Pair passes_preflight by (metis fst_conv)
    ultimately show ?thesis
      using assms Pair True authorize_order_iff [of "cycle_request tk si s ps eq qty d" "dk_risk d"]
      by (auto simp: authorize_and_submit_def logged_def Let_def split: prod.splits sum.splits)
  next
    case False
    then show ?thesis
      using assms Pair preflight_gate_passed [of name "'': preflight (re-check): ''" si "si_chain_ok_again si" d d1]
      by (cases go; cases "authorize_order (cycle_request tk si s ps eq qty d) (dk_risk d)")
        (simp_all add: authorize_and_submit_def)
  qed
qed



subsection \<open>Retail orders\<close>

definition retail_order :: "step_input \<Rightarrow> uuid \<Rightarrow> string \<Rightarrow> float64 \<Rightarrow> float64 \<Rightarrow> uuid option \<Rightarrow> order_args" where
  "retail_order si market sd qty price cid =
     \<lparr>oa_market_id = market, oa_side = sd, oa_quantity = qty, oa_close_price = Some price,
      oa_client_order_id = Some (case cid of Some c \<Rightarrow> if c \<noteq> [] then c else si_client_order_id si
        | None \<Rightarrow> si_client_order_id si)\<rparr>"

lemma retail_blocked_portfolio [simp]:
  "dk_portfolio (retail_blocked si m sd q p u r d) = dk_portfolio d"
  by (simp add: desk_ops)

lemma cash_balance_quiet:
  "\<exists>r y1. cash_balance (logged b) env (d, (y, orders)) = (r, (d, (y1, orders)))"
  by (auto simp: cash_balance_def logged_def Let_def split: prod.splits)

lemma retail_submission:
  assumes "submit_retail_order (logged b) si market sd qty price user cid (d, (y, orders)) =
      (res, (d', (y', orders')))"
    and "cash_balance (logged b) (si_env si) (d, (y, orders)) = (Inr cash, st1)"
  defines "rq \<equiv> retail_request si market sd qty price user (get_summary cash (dk_portfolio d))"
  shows "if order_rails (dk_risk d) rq then orders' = orders @ [retail_order si market sd qty price cid]
     else orders' = orders \<and> dk_portfolio d' = dk_portfolio d \<and> (\<exists>r. res = Inr r \<and> \<not> rr_allowed r)"
proof -
  obtain y1 where cash: "st1 = (d, (y1, orders))"
    using cash_balance_quiet [of b "si_env si" d y orders] assms(2) by auto
  obtain v rs where auth: "authorize_order rq (dk_risk d) = (v, rs)" by fastforce
  have "allowed v \<longleftrightarrow> order_rails (dk_risk d) rq"
    using authorize_order_iff [of rq "dk_risk d"] auth by simp
  then show ?thesis
    using assms(1,2) auth unfolding cash rq_def
    by (cases "allowed v")
      (auto simp: submit_retail_order_def retail_decide_def logged_def retail_order_def Let_def split: prod.splits sum.splits)
qed



subsection \<open>Profit and loss are never recorded\<close>

text \<open>What the daily loss limit looks at, in the risk service and in the portfolio service's
  reference to it.\<close>

definition pnl_of :: "desk \<Rightarrow> float64 \<times> int \<times> persistent_kill_switch option \<times> risk_service option" where
  "pnl_of d = (ks_daily_pnl (rs_kill_switch (dk_risk d)), ks_day (rs_kill_switch (dk_risk d)),
     rs_persistent (dk_risk d), ps_risk (dk_portfolio d))"

definition keeps_pnl :: "desk \<Rightarrow> 'a res \<times> desk \<times> 's \<Rightarrow> bool" where
  "keeps_pnl d m = (pnl_of (fst (snd m)) = pnl_of d)"

lemma keeps_pnl_sbind:
  assumes "keeps_pnl d m" and "\<And>a d1 x. pnl_of d1 = pnl_of d \<Longrightarrow> keeps_pnl d (f a (d1, x))"
  shows "keeps_pnl d (sbind m f)"
  using assms by (cases m) (auto simp: sbind_def keeps_pnl_def split: sum.splits)

lemma pnl_of_ops [simp]:
  "pnl_of (record_causal a m c i p d) = pnl_of d" "pnl_of (dk_count n d) = pnl_of d"
  "pnl_of (dk_publish n p d) = pnl_of d" "pnl_of (dk_error msg d) = pnl_of d"
  "pnl_of (record_sizing_refusal s r d) = pnl_of d" "pnl_of (retail_blocked si m sd q pr u r d) = pnl_of d"
  "pnl_of (report_gap tk gap d) = pnl_of d" "pnl_of (ks_update ks_record_success d) = pnl_of d"
  "pnl_of (ks_update ks_record_failure d) = pnl_of d"
  by (simp_all add: pnl_of_def desk_ops ks_record_success_def ks_record_failure_def split: option.splits)

lemma pnl_of_updates [simp]:
  "pnl_of (d\<lparr>dk_signals := x1\<rparr>) = pnl_of d" "pnl_of (d\<lparr>dk_flatten := x2\<rparr>) = pnl_of d"
  "pnl_of (d\<lparr>dk_errors := x3\<rparr>) = pnl_of d" "pnl_of (d\<lparr>dk_signals_count := x4\<rparr>) = pnl_of d"
  "pnl_of (d\<lparr>dk_trades_count := x4\<rparr>) = pnl_of d" "pnl_of (d\<lparr>dk_health := x5\<rparr>) = pnl_of d"
  by (simp_all add: pnl_of_def)

lemma pnl_of_risk:
  "rs_kill_switch rs = rs_kill_switch (dk_risk d) \<Longrightarrow> rs_persistent rs = rs_persistent (dk_risk d) \<Longrightarrow>
     pnl_of (d\<lparr>dk_risk := rs\<rparr>) = pnl_of d"
  by (simp add: pnl_of_def)

lemma pnl_of_portfolio: "ps_risk ps = ps_risk (dk_portfolio d) \<Longrightarrow> pnl_of (d\<lparr>dk_portfolio := ps\<rparr>) = pnl_of d"
  by (simp add: pnl_of_def)

lemma authorize_frame:
  "rs_kill_switch (snd (authorize_order r rs)) = rs_kill_switch rs \<and>
   rs_persistent (snd (authorize_order r rs)) = rs_persistent rs"
  by (simp add: authorize_order_def block_order_def audit_user_def Let_def)

lemma book_fill_risk: "ps_risk (snd (book_fill fresh now t price ps)) = ps_risk ps"
  by (simp add: book_fill_def put_position_def Let_def split: option.splits sum.splits)

lemma fill_trade_risk: "ps_risk (snd (fill_trade fresh now t fp ps)) = ps_risk ps"
proof -
  have "ps_risk (snd (case book_fill fresh now t2 p (ps_log a r e (put_trade t2 ps)) of
      (Inl e, ps2) \<Rightarrow> (Inl e, ps2) | (Inr _, ps2) \<Rightarrow> (Inr t2, ps2))) = ps_risk ps" for t2 p a r e
    using book_fill_risk [of fresh now t2 p "ps_log a r e (put_trade t2 ps)"]
    by (auto simp: put_trade_def split: prod.splits sum.splits)
  then show ?thesis
    unfolding fill_trade_def Let_def by (simp split: sum.split)
qed

lemma book_order_risk: "ps_risk (snd (book_order si i m sd r ps)) = ps_risk ps"
  by (auto simp: book_order_def open_trade_def update_trade_def put_trade_def fill_trade_risk Let_def
      split: prod.splits sum.splits)

lemma preflight_pnl: "pnl_of (snd (preflight_gate name lbl si c d)) = pnl_of d"
  by (simp add: preflight_gate_def Let_def split: option.splits)

lemma risk_gate_pnl: "pnl_of d1 = pnl_of d \<Longrightarrow> keeps_pnl d (risk_gate b name si ps (d1, x))"
  using can_trade_kill_switch [of ps "dk_user d1" "dk_risk d1"] pnl_of_risk [of _ d1]
  by (cases "rs_can_trade ps (dk_user d1) (dk_risk d1)")
    (auto simp: keeps_pnl_def risk_gate_def Let_def split: option.splits prod.splits sum.splits)

lemma cash_balance_pnl: "pnl_of d1 = pnl_of d \<Longrightarrow> keeps_pnl d (cash_balance b env (d1, x))"
  by (auto simp: keeps_pnl_def cash_balance_def Let_def split: prod.splits)

lemma size_signal_pnl: "pnl_of d1 = pnl_of d \<Longrightarrow> keeps_pnl d (size_signal b tk si s (d1, x))"
  unfolding size_signal_def
  by (intro keeps_pnl_sbind cash_balance_pnl) (auto simp: keeps_pnl_def Let_def split: sum.splits)

lemma settle_signal_pnl: "pnl_of (snd (settle_signal name tk si s qty r d)) = pnl_of d"
  using book_order_risk [of si "s_id s" "tk_market tk" "if s_direction s = LONG then BUY else SELL" r "dk_portfolio d"]
  by (auto simp: settle_signal_def Let_def pnl_of_portfolio split: prod.splits sum.splits option.splits)

lemma authorize_and_submit_pnl:
  assumes "pnl_of d1 = pnl_of d"
  shows "keeps_pnl d (authorize_and_submit b name tk si s ps eq qty (d1, x))"
proof -
  obtain go d2 where gate: "preflight_gate name '': preflight (re-check): '' si (si_chain_ok_again si) d1 = (go, d2)"
    by fastforce
  obtain v rs where auth: "authorize_order (cycle_request tk si s ps eq qty d2) (dk_risk d2) = (v, rs)"
    by fastforce
  have d2: "pnl_of d2 = pnl_of d" "pnl_of (d2\<lparr>dk_risk := rs\<rparr>) = pnl_of d"
    using preflight_pnl [of name "'': preflight (re-check): ''" si "si_chain_ok_again si" d1] gate assms
      authorize_frame [of "cycle_request tk si s ps eq qty d2" "dk_risk d2"] auth
    by (auto simp: pnl_of_risk)
  define d3 where "d3 = record_causal ''decision.made'' (tk_market tk) name (s_id s)
    [L ''outcome'', L ''allowed'', L ''side'', L (signal_side s), L ''qty'', F qty,
     L ''price'', F (tk_price tk), L ''strategy'', L name,
     L ''client_order_id'', L (si_client_order_id si)] (d2\<lparr>dk_risk := rs\<rparr>)"
  have "pnl_of d3 = pnl_of d" using d2 by (simp add: d3_def)
  then have "keeps_pnl d (case b_market b a env x of (Inl e, x1) \<Rightarrow> (Inl e, (d3, x1))
      | (Inr r, x1) \<Rightarrow> (let (u, d4) = settle_signal name tk si s qty r d3 in (u, (d4, x1))))" for a env
    using settle_signal_pnl [of name tk si s qty _ d3]
    by (auto simp: keeps_pnl_def Let_def split: prod.splits sum.splits) (metis snd_conv)
  then show ?thesis
    using gate auth d2
    by (auto simp: authorize_and_submit_def d3_def [symmetric] Let_def keeps_pnl_def)
qed

lemma cycle_signal_pnl:
  assumes "pnl_of d1 = pnl_of d"
  shows "keeps_pnl d (cycle_signal b gap name tk si s (d1, x))"
proof -
  obtain go d2 where gate: "preflight_gate name '': preflight: '' si (si_chain_ok si) d1 = (go, d2)"
    by fastforce
  have d2: "pnl_of d2 = pnl_of d"
    using preflight_pnl [of name "'': preflight: ''" si "si_chain_ok si" d1] gate assms by simp
  have "keeps_pnl d (sbind (risk_gate b name si ps (d2, x)) (\<lambda>ok st1.
        if \<not> ok then (Inr (), st1)
        else sbind (size_signal b tk si s st1) (\<lambda>size st2.
          case size of None \<Rightarrow> (Inr (), st2)
          | Some (eq, qty) \<Rightarrow> authorize_and_submit b name tk si s ps eq qty st2)))" for ps
    by (intro keeps_pnl_sbind risk_gate_pnl d2)
      (auto simp: keeps_pnl_def [of _ "(Inr (), _)"] split: option.split
        intro!: keeps_pnl_sbind size_signal_pnl authorize_and_submit_pnl)
  then show ?thesis
    using gate d2 assms by (auto simp: cycle_signal_def keeps_pnl_def Let_def)
qed

lemma cycle_strategy_pnl: "pnl_of (fst (snd (cycle_strategy b gap tk ev (d, x)))) = pnl_of d"
proof -
  have "keeps_pnl d (cycle_evaluated b gap tk ev (d, x))"
    by (auto simp: cycle_evaluated_def keeps_pnl_def [of _ "(Inl _, _)"] keeps_pnl_def [of _ "(Inr (), _)"] Let_def
        split: prod.split sum.split option.split intro!: cycle_signal_pnl)
  then show ?thesis
    by (auto simp: cycle_strategy_def keeps_pnl_def split: prod.splits sum.splits)
qed

lemma cycle_strategies_pnl: "pnl_of (fst (snd (cycle_strategies b gap tk evs st))) = pnl_of (fst st)"
proof (induction evs arbitrary: st)
  case (Cons ev evs)
  obtain r st1 where one: "cycle_strategy b gap tk ev st = (r, st1)"
    by (cases "cycle_strategy b gap tk ev st")
  have "pnl_of (fst st1) = pnl_of (fst st)"
    using cycle_strategy_pnl [of b gap tk ev "fst st" "snd st"] one by simp
  then show ?case using Cons.IH [of st1] one by (cases r) simp_all
qed simp

lemma cycle_run_pnl: "pnl_of (fst (snd (cycle_run b tk now evs (d, x)))) = pnl_of d"
proof -
  let ?gap = "data_gap_error tk (case tk_candle_time tk of Some t \<Rightarrow> t | None \<Rightarrow> now) d"
  let ?d1 = "report_gap tk ?gap (d\<lparr>dk_errors := [], dk_signals_count := 0, dk_trades_count := 0\<rparr>)"
  have "pnl_of (fst (snd (cycle_strategies b (?gap \<noteq> None) tk evs (?d1, x)))) = pnl_of d"
    using cycle_strategies_pnl [of b "?gap \<noteq> None" tk evs "(?d1, x)"] by simp
  then show ?thesis
    by (auto simp: cycle_run_def sbind_def Let_def split: prod.splits sum.splits)
qed

lemma settle_retail_pnl: "pnl_of (snd (settle_retail si m sd q pr c u r d)) = pnl_of d"
  using book_order_risk [of si "si_signal_id si" m "if sd = ''buy'' then BUY else SELL" r "dk_portfolio d"]
  by (auto simp: settle_retail_def Let_def pnl_of_portfolio split: prod.splits sum.splits)

lemma retail_decide_pnl:
  assumes "pnl_of d1 = pnl_of d"
  shows "keeps_pnl d (retail_decide b si m sd q pr u c cash (d1, x))"
proof -
  obtain v rs where auth: "authorize_order (retail_request si m sd q pr u (get_summary cash (dk_portfolio d1)))
      (dk_risk d1) = (v, rs)" by fastforce
  have risk: "pnl_of (d1\<lparr>dk_risk := rs\<rparr>) = pnl_of d"
    using authorize_frame [of "retail_request si m sd q pr u (get_summary cash (dk_portfolio d1))" "dk_risk d1"]
      auth assms by (simp add: pnl_of_risk)
  have settled: "pnl_of d4 = pnl_of d3" if "settle_retail si m sd q pr c' u r d3 = (z, d4)" for c' r d3 z d4
    using settle_retail_pnl [of si m sd q pr c' u r d3] that by simp
  show ?thesis
    using auth risk
    by (auto simp: retail_decide_def keeps_pnl_def Let_def dest!: settled split: prod.splits sum.splits)
qed

lemma submit_retail_pnl: "pnl_of (fst (snd (submit_retail_order b si m sd q pr u c (d, x)))) = pnl_of d"
proof -
  have "keeps_pnl d (submit_retail_order b si m sd q pr u c (d, x))"
    unfolding submit_retail_order_def
    by (intro keeps_pnl_sbind cash_balance_pnl retail_decide_pnl) simp_all
  then show ?thesis by (simp add: keeps_pnl_def)
qed

text \<open>Everything the desk does to trade, in any order.\<close>

datatype desk_op =
    TradeCycle tick datetime "evaluation list"
  | RetailOrder step_input uuid string float64 float64 "string option" "uuid option"

fun desk_step :: "'s broker \<Rightarrow> desk_op \<Rightarrow> 's floor \<Rightarrow> 's floor" where
  "desk_step b (TradeCycle tk now evs) st = snd (cycle_run b tk now evs st)"
| "desk_step b (RetailOrder si m sd q pr u c) st = snd (submit_retail_order b si m sd q pr u c st)"

definition desk_day :: "'s broker \<Rightarrow> desk_op list \<Rightarrow> 's floor \<Rightarrow> 's floor" where
  "desk_day b ops st = foldl (\<lambda>st x. desk_step b x st) st ops"

text \<open>
  No sequence of cycles and retail orders ever records a realised profit or loss: what
  the daily loss limit measures, in the kill switch, in the persistent switch and in the
  portfolio's risk service, is at the end what it was at the start.
\<close>

theorem trading_never_records_pnl: "pnl_of (fst (desk_day b ops st)) = pnl_of (fst st)"
proof (induction ops arbitrary: st)
  case (Cons x ops)
  have "pnl_of (fst (desk_step b x st)) = pnl_of (fst st)"
    by (cases x; cases st) (simp_all add: cycle_run_pnl submit_retail_pnl)
  with Cons.IH [of "desk_step b x st"] show ?case by (simp add: desk_day_def)
qed (simp add: desk_day_def)

end
