(* ===== verification/Alpaca.thy ===== *)
theory Alpaca
  imports Resilience Reconciliation CycleSafety
begin

text \<open>
  \<open>infrastructure/alpaca_broker.py\<close>: the adapter of the live venue.

  The Alpaca client is a parameter, a record of its calls.  It answers with texts where
  the real client does (quantities and prices), and raises \<open>APIError\<close> with the HTTP status.
  What the code stores as the order id of a rejected order, the text of the exception, is
  the single word error.
\<close>

datatype alpaca_side = AlpacaBuy | AlpacaSell

datatype alpaca_request =
    MarketRequest string float64 alpaca_side string
  | LimitRequest string float64 alpaca_side float64 string
  | StopRequest string float64 alpaca_side float64 string
  | TrailingRequest string float64 alpaca_side float64 string

fun request_id :: "alpaca_request \<Rightarrow> string" where
  "request_id (MarketRequest _ _ _ c) = c"
| "request_id (LimitRequest _ _ _ _ c) = c"
| "request_id (StopRequest _ _ _ _ c) = c"
| "request_id (TrailingRequest _ _ _ _ c) = c"

record replace_request =
  rr_qty :: "int option"
  rr_limit_price :: "float64 option"
  rr_stop_price :: "float64 option"
  rr_trail :: "float64 option"

record alpaca_order =
  ao_id :: string
  ao_symbol :: string
  ao_qty :: "string option"
  ao_filled_qty :: "string option"
  ao_filled_avg_price :: "string option"
  ao_side :: string
  ao_type :: string

record alpaca_position =
  ap_symbol :: string
  ap_qty :: "string option"
  ap_market_value :: "string option"

record 's alpaca_client =
  ac_submit :: "alpaca_request \<Rightarrow> ('s, alpaca_order) io"
  ac_replace :: "fstring \<Rightarrow> replace_request \<Rightarrow> ('s, unit) io"
  ac_cancel :: "fstring \<Rightarrow> ('s, unit) io"
  ac_equity :: "('s, string option) io"
  ac_positions :: "('s, alpaca_position list) io"
  ac_open_orders :: "('s, alpaca_order list) io"

subsection \<open>Helpers\<close>

definition transient_status_codes :: "int list" where
  "transient_status_codes = [429, 500, 502, 503, 504]"

fun is_transient_api_error :: "exc \<Rightarrow> bool" where
  "is_transient_api_error (APIError (Some status)) = (status \<in> set transient_status_codes)"
| "is_transient_api_error _ = False"

fun broker_error :: "exc \<Rightarrow> bool" where
  "broker_error (APIError _) = True"
| "broker_error e = broker_failure_caught e"

definition alpaca_retry :: retry_policy where
  "alpaca_retry = \<lparr>rp_max_retries = 2, rp_base_delay = 1, rp_max_delay = Fin 60, rp_jitter = True,
     rp_should_retry = Some is_transient_api_error\<rparr>"

definition retried :: "('s, 'a) io \<Rightarrow> ('s, 'a) io" where
  "retried call env s = (let (r, s', _) = retry_with_backoff alpaca_retry (env_random env) (call env) s in (r, s'))"

text \<open>\<open>float(text)\<close> and \<open>_qty\<close>.\<close>

definition text_float :: "string \<Rightarrow> float64 res" where
  "text_float s = (case parse_float s of None \<Rightarrow> Inl ValueError | Some x \<Rightarrow> Inr x)"

definition text_or :: "float64 \<Rightarrow> string option \<Rightarrow> float64 res" where
  "text_or dflt v = (case v of None \<Rightarrow> Inr dflt | Some s \<Rightarrow> if s = [] then Inr dflt else text_float s)"

definition alpaca_qty :: "string option \<Rightarrow> float64 res" where
  "alpaca_qty v = text_or 0 v"

definition required_float :: "string option \<Rightarrow> float64 res" where
  "required_float v = (case v of None \<Rightarrow> Inl TypeError | Some s \<Rightarrow> text_float s)"

definition alpaca_side_of :: "string \<Rightarrow> alpaca_side" where
  "alpaca_side_of sd = (if sd = ''buy'' then AlpacaBuy else AlpacaSell)"

definition alpaca_symbol :: "(uuid \<times> string) list \<Rightarrow> uuid \<Rightarrow> string" where
  "alpaca_symbol symbols m = dict_get symbols m m"

definition order_key_of :: "env \<Rightarrow> string option \<Rightarrow> string" where
  "order_key_of env cid = (case cid of Some c \<Rightarrow> if c = [] then env_nonce env else c | None \<Rightarrow> env_nonce env)"

definition rejected_fill :: "float64 \<Rightarrow> fill_result" where
  "rejected_fill q = \<lparr>fr_filled = False, fr_fill_quantity = 0, fr_fill_price = 0, fr_remaining = q,
     fr_status = ''rejected'', fr_order_id = [L ''error'']\<rparr>"

text \<open>The \<open>except\<close> clause every order call ends with.\<close>

definition or_rejected :: "float64 \<Rightarrow> fill_result res \<times> 's \<Rightarrow> fill_result res \<times> 's" where
  "or_rejected q out = (case out of
     (Inl e, s) \<Rightarrow> if broker_error e then (Inr (rejected_fill q), s) else (Inl e, s)
   | (Inr r, s) \<Rightarrow> (Inr r, s))"

definition on_answer :: "'a res \<times> 's \<Rightarrow> ('a \<Rightarrow> 'b res) \<Rightarrow> 'b res \<times> 's" where
  "on_answer out f = (case out of (Inl e, s) \<Rightarrow> (Inl e, s) | (Inr a, s) \<Rightarrow> (f a, s))"

subsection \<open>Orders\<close>

text \<open>The answer to a market or limit order; \<open>dflt\<close> stands for a missing average price.\<close>

definition fill_of_order :: "float64 \<Rightarrow> alpaca_order \<Rightarrow> fill_result res" where
  "fill_of_order dflt ord =
     rbind (alpaca_qty (ao_filled_qty ord)) (\<lambda>filled_qty.
     rbind (alpaca_qty (ao_qty ord)) (\<lambda>total_qty.
     let filled = 0 < filled_qty in
     rbind (text_or dflt (ao_filled_avg_price ord)) (\<lambda>price.
       Inr \<lparr>fr_filled = filled, fr_fill_quantity = filled_qty, fr_fill_price = price,
            fr_remaining = total_qty - filled_qty,
            fr_status = (if filled \<and> total_qty \<le> filled_qty then ''filled''
                         else if filled then ''partially_filled'' else ''pending''),
            fr_order_id = [L (ao_id ord)]\<rparr>)))"

text \<open>The answer to a stop order compares the texts of the two quantities.\<close>

definition fill_of_stop :: "alpaca_order \<Rightarrow> fill_result res" where
  "fill_of_stop ord =
     rbind (alpaca_qty (ao_filled_qty ord)) (\<lambda>filled_qty.
     rbind (alpaca_qty (ao_qty ord)) (\<lambda>total_qty.
     rbind (text_or 0 (ao_filled_avg_price ord)) (\<lambda>price.
       Inr \<lparr>fr_filled = 0 < filled_qty, fr_fill_quantity = filled_qty, fr_fill_price = price,
            fr_remaining = total_qty - filled_qty,
            fr_status = (if ao_filled_qty ord = ao_qty ord then ''filled'' else ''pending''),
            fr_order_id = [L (ao_id ord)]\<rparr>)))"

definition alpaca_market :: "'s alpaca_client \<Rightarrow> (uuid \<times> string) list \<Rightarrow> order_args \<Rightarrow> ('s, fill_result) io" where
  "alpaca_market c symbols a env s =
     (let req = MarketRequest (alpaca_symbol symbols (oa_market_id a)) (oa_quantity a) (alpaca_side_of (oa_side a))
                  (order_key_of env (oa_client_order_id a)) in
      or_rejected (oa_quantity a) (on_answer (retried (ac_submit c req) env s) (fill_of_order 0)))"

definition alpaca_limit ::
  "'s alpaca_client \<Rightarrow> (uuid \<times> string) list \<Rightarrow> uuid \<Rightarrow> string \<Rightarrow> float64 \<Rightarrow> float64 \<Rightarrow> string option \<Rightarrow> ('s, fill_result) io" where
  "alpaca_limit c symbols m sd q price cid env s =
     (let req = LimitRequest (alpaca_symbol symbols m) q (alpaca_side_of sd) (py_round price 2) (order_key_of env cid) in
      or_rejected q (on_answer (retried (ac_submit c req) env s) (fill_of_order price)))"

definition alpaca_stop ::
  "'s alpaca_client \<Rightarrow> (uuid \<times> string) list \<Rightarrow> uuid \<Rightarrow> string \<Rightarrow> float64 \<Rightarrow> float64 \<Rightarrow> string option \<Rightarrow> ('s, fill_result) io" where
  "alpaca_stop c symbols m sd q stop cid env s =
     (let req = StopRequest (alpaca_symbol symbols m) q (alpaca_side_of sd) (py_round stop 2) (order_key_of env cid) in
      or_rejected q (on_answer (retried (ac_submit c req) env s) fill_of_stop))"

definition alpaca_trailing ::
  "'s alpaca_client \<Rightarrow> (uuid \<times> string) list \<Rightarrow> uuid \<Rightarrow> string \<Rightarrow> float64 \<Rightarrow> float64 \<Rightarrow> string option \<Rightarrow> ('s, fill_result) io" where
  "alpaca_trailing c symbols m sd q trail cid env s =
     (let req = TrailingRequest (alpaca_symbol symbols m) q (alpaca_side_of sd) (py_round trail 4) (order_key_of env cid) in
      or_rejected q (on_answer (retried (ac_submit c req) env s) fill_of_stop))"

text \<open>\<open>int(qty)\<close> truncates towards zero and raises for a quantity that is not finite.\<close>

fun int_of_float :: "float64 \<Rightarrow> int res" where
  "int_of_float (Fin a) = Inr (if a < 0 then - \<lfloor>- a\<rfloor> else \<lfloor>a\<rfloor>)"
| "int_of_float NaN = Inl ValueError"
| "int_of_float _ = Inl OverflowError"

definition replace_request_of :: "modify_args \<Rightarrow> replace_request res" where
  "replace_request_of a =
     rbind (case ma_qty a of None \<Rightarrow> Inr None | Some q \<Rightarrow> rbind (int_of_float q) (\<lambda>n. Inr (Some n))) (\<lambda>q.
     let req = \<lparr>rr_qty = q, rr_limit_price = map_option (\<lambda>p. py_round p 2) (ma_limit_price a),
                rr_stop_price = map_option (\<lambda>p. py_round p 2) (ma_stop_price a),
                rr_trail = map_option (\<lambda>p. py_round p 4) (ma_trail_percent a)\<rparr> in
     if req = \<lparr>rr_qty = None, rr_limit_price = None, rr_stop_price = None, rr_trail = None\<rparr>
     then Inl InfrastructureError else Inr req)"

definition done_fill :: "string \<Rightarrow> fstring \<Rightarrow> fill_result" where
  "done_fill status oid = \<lparr>fr_filled = True, fr_fill_quantity = 0, fr_fill_price = 0, fr_remaining = 0,
     fr_status = status, fr_order_id = oid\<rparr>"

definition alpaca_modify :: "'s alpaca_client \<Rightarrow> fstring \<Rightarrow> modify_args \<Rightarrow> ('s, fill_result) io" where
  "alpaca_modify c oid a env s =
     or_rejected 0 (on_answer
       (retried (\<lambda>env s. case replace_request_of a of Inl e \<Rightarrow> (Inl e, s) | Inr req \<Rightarrow> ac_replace c oid req env s) env s)
       (\<lambda>_. Inr (done_fill ''modified'' oid)))"

definition alpaca_cancel :: "'s alpaca_client \<Rightarrow> fstring \<Rightarrow> ('s, fill_result) io" where
  "alpaca_cancel c oid env s =
     or_rejected 0 (on_answer (retried (ac_cancel c oid) env s) (\<lambda>_. Inr (done_fill ''cancelled'' oid)))"

subsection \<open>Queries\<close>

definition as_service_error :: "'a res \<times> 's \<Rightarrow> 'a res \<times> 's" where
  "as_service_error out = (case out of
     (Inl e, s) \<Rightarrow> (Inl (if broker_error e then ServiceError else e), s)
   | (Inr r, s) \<Rightarrow> (Inr r, s))"

definition alpaca_balance :: "'s alpaca_client \<Rightarrow> ('s, float64) io" where
  "alpaca_balance c env s = as_service_error (on_answer (retried (ac_equity c) env s) required_float)"

definition position_of :: "alpaca_position \<Rightarrow> broker_position res" where
  "position_of p =
     rbind (required_float (ap_qty p)) (\<lambda>q.
     rbind (required_float (ap_market_value p)) (\<lambda>v.
       Inr \<lparr>bp_symbol = ap_symbol p, bp_qty = q, bp_entry_price = None, bp_current_price = None, bp_market_value = v\<rparr>))"

definition alpaca_positions :: "'s alpaca_client \<Rightarrow> ('s, broker_position list) io" where
  "alpaca_positions c env s = as_service_error (on_answer (retried (ac_positions c) env s) (mapr position_of))"

definition open_order_of :: "alpaca_order \<Rightarrow> broker_order res" where
  "open_order_of ord =
     rbind (required_float (ao_qty ord)) (\<lambda>q.
       Inr \<lparr>bo_id = [L (ao_id ord)], bo_symbol = ao_symbol ord, bo_qty = q, bo_side = ao_side ord, bo_type = ao_type ord\<rparr>)"

definition alpaca_open_orders :: "'s alpaca_client \<Rightarrow> ('s, broker_order list) io" where
  "alpaca_open_orders c env s = as_service_error (on_answer (retried (ac_open_orders c) env s) (mapr open_order_of))"

definition alpaca_broker :: "'s alpaca_client \<Rightarrow> (uuid \<times> string) list \<Rightarrow> 's broker" where
  "alpaca_broker c symbols =
     \<lparr>b_market = alpaca_market c symbols,
      b_flatten = default_flatten (alpaca_market c symbols),
      b_limit = (\<lambda>m sd q p _. alpaca_limit c symbols m sd q p None),
      b_stop = (\<lambda>m sd q p _. alpaca_stop c symbols m sd q p None),
      b_trailing = (\<lambda>m sd q p _. alpaca_trailing c symbols m sd q p None),
      b_modify = alpaca_modify c, b_cancel = alpaca_cancel c, b_balance = alpaca_balance c,
      b_positions = alpaca_positions c, b_open_orders = alpaca_open_orders c\<rparr>"

subsection \<open>One request per order\<close>

text \<open>A client that remembers the requests it was sent.\<close>

definition recorded :: "'s alpaca_client \<Rightarrow> ('s \<times> alpaca_request list) alpaca_client" where
  "recorded c =
     (let plain = (\<lambda>call env st. (let (r, s) = call env (fst st) in (r, (s, snd st)))) in
      \<lparr>ac_submit = (\<lambda>req env st. (let (r, s) = ac_submit c req env (fst st) in (r, (s, snd st @ [req])))),
       ac_replace = (\<lambda>i req. plain (ac_replace c i req)), ac_cancel = (\<lambda>i. plain (ac_cancel c i)),
       ac_equity = (\<lambda>env st. (let (r, s) = ac_equity c env (fst st) in (r, (s, snd st)))),
       ac_positions = (\<lambda>env st. (let (r, s) = ac_positions c env (fst st) in (r, (s, snd st)))),
       ac_open_orders = (\<lambda>env st. (let (r, s) = ac_open_orders c env (fst st) in (r, (s, snd st))))\<rparr>)"

lemma retry_loop_log:
  assumes fn: "\<And>st. \<exists>r s. fn st = (r, (s, snd st @ [req]))"
    and run: "retry_loop rp random left fn st slept = (r, st', slept')"
  shows "\<exists>n. n \<le> left \<and> (left \<noteq> 0 \<longrightarrow> 1 \<le> n) \<and> snd st' = snd st @ replicate n req"
  using run
proof (induction left arbitrary: st slept)
  case (Suc left)
  obtain q s where one: "fn st = (q, (s, snd st @ [req]))" using fn by blast
  have stop: "\<exists>n. n \<le> Suc left \<and> (Suc left \<noteq> 0 \<longrightarrow> 1 \<le> n) \<and> snd (s, snd st @ [req]) = snd st @ replicate n req"
    by (rule exI [of _ 1]) simp
  show ?case
  proof (cases "\<exists>e d. q = Inl e \<and> retryable rp e \<and> left \<noteq> 0 \<and>
      backoff_delay rp (random (rp_max_retries rp - left)) (rp_max_retries rp - left) = Inr d")
    case True
    then obtain d where "retry_loop rp random left fn (s, snd st @ [req]) (slept @ [d]) = (r, st', slept')" "left \<noteq> 0"
      using Suc.prems one by (auto simp: Let_def)
    from Suc.IH [OF this(1)] this(2) obtain n where
      "n \<le> left" "snd st' = snd (s, snd st @ [req]) @ replicate n req" by blast
    then show ?thesis by (intro exI [of _ "Suc n"]) simp
  next
    case False
    then have "st' = (s, snd st @ [req])"
      using Suc.prems one by (auto simp: Let_def split: sum.splits if_splits)
    then show ?thesis using stop by simp
  qed
qed simp

text \<open>
  Every attempt of one order carries one and the same request: placing a market order
  sends the client at least one and at most three requests, all of them equal, with the
  caller's client order id, so a venue that refuses a second order of an id takes the
  order at most once.
\<close>

theorem alpaca_attempts_agree:
  assumes "alpaca_market (recorded c) symbols a env (s, sent) = (r, (s', sent'))"
    and "oa_client_order_id a = Some cid" and "cid \<noteq> []"
  shows "\<exists>n req. 1 \<le> n \<and> n \<le> 3 \<and> sent' = sent @ replicate n req \<and> request_id req = cid"
proof -
  let ?req = "MarketRequest (alpaca_symbol symbols (oa_market_id a)) (oa_quantity a) (alpaca_side_of (oa_side a)) cid"
  let ?fn = "ac_submit (recorded c) ?req env"
  have key: "order_key_of env (oa_client_order_id a) = cid" using assms(2,3) by (simp add: order_key_of_def)
  obtain q st' slept where run: "retry_loop alpaca_retry (env_random env) 3 ?fn (s, sent) [] = (q, st', slept)"
    by (metis prod_cases3)
  have "retried (ac_submit (recorded c) ?req) env (s, sent) = (q, st')"
    using run by (simp add: retried_def retry_with_backoff_def alpaca_retry_def numeral_3_eq_3)
  then have "(s', sent') = st'"
    using assms(1) by (cases q) (auto simp: alpaca_market_def key or_rejected_def on_answer_def
        split: sum.splits if_splits)
  moreover have "\<exists>n. n \<le> 3 \<and> ((3 :: nat) \<noteq> 0 \<longrightarrow> 1 \<le> n) \<and> snd st' = snd (s, sent) @ replicate n ?req"
    by (rule retry_loop_log [OF _ run]) (auto simp: recorded_def split_def Let_def)
  ultimately show ?thesis by auto
qed

subsection \<open>What the adapter hides\<close>

text \<open>
  An order the venue has accepted but not filled yet looks like a failure to the
  trading cycle: the adapter answers pending and not filled, and settling that answer
  books no trade, leaves the portfolio as it is and counts a failure, while the order
  stays live at the venue.
\<close>

theorem accepted_order_counts_as_failure:
  assumes "ac_submit c (MarketRequest (alpaca_symbol symbols (oa_market_id a)) (oa_quantity a)
      (alpaca_side_of (oa_side a)) (order_key_of env (oa_client_order_id a))) env x = (Inr ord, x')"
    and "alpaca_qty (ao_filled_qty ord) = Inr 0" and "alpaca_qty (ao_qty ord) = Inr q"
    and "ao_filled_avg_price ord = None"
  shows "\<exists>r d'. alpaca_market c symbols a env x = (Inr r, x') \<and> fr_status r = ''pending'' \<and>
    fr_order_id r = [L (ao_id ord)] \<and> settle_signal name tk si s qty r d = (Inr (), d') \<and>
    dk_portfolio d' = dk_portfolio d \<and> dk_trades_count d' = dk_trades_count d \<and>
    rs_kill_switch (dk_risk d') = ks_record_failure (rs_kill_switch (dk_risk d))"
proof -
  have "\<exists>slept. retry_with_backoff alpaca_retry (env_random env) (ac_submit c (MarketRequest
      (alpaca_symbol symbols (oa_market_id a)) (oa_quantity a) (alpaca_side_of (oa_side a))
      (order_key_of env (oa_client_order_id a))) env) x = (Inr ord, x', slept)"
    using assms(1) by (simp add: retry_with_backoff_def alpaca_retry_def numeral_3_eq_3)
  then show ?thesis
    using assms(2-4)
    by (auto simp: alpaca_market_def retried_def on_answer_def or_rejected_def fill_of_order_def text_or_def
        settle_signal_def ks_update_def record_causal_def Let_def)
qed

text \<open>
  The price check of the reconciliation cannot fail on the live adapter: its positions
  carry no price, so whatever the local books say no price mismatch is found.
\<close>

theorem alpaca_prices_never_differ:
  assumes "position_of p = Inr bp" and "map_of locl key = Some l"
  shows "map mm_type (position_mismatches [(key, raw_of_position bp)] locl key) \<in> {[], [QUANTITY_MISMATCH]}"
  using assms
  by (auto simp: position_of_def position_mismatches_def raw_of_position_def raw_price_def first_of_def
      price_differs_def zero_eq_Fin elim!: rbind_eq_InrE)

definition quiet_client :: "int alpaca_client" where
  "quiet_client = \<lparr>ac_submit = (\<lambda>req env n. (Inr \<lparr>ao_id = ''v1'', ao_symbol = ''m'', ao_qty = Some ''2'',
       ao_filled_qty = Some ''0'', ao_filled_avg_price = None, ao_side = ''buy'', ao_type = ''market''\<rparr>, n + 1)),
     ac_replace = (\<lambda>i req env n. (Inr (), n)), ac_cancel = (\<lambda>i env n. (Inr (), n)),
     ac_equity = (\<lambda>env n. (Inr (Some ''1''), n)), ac_positions = (\<lambda>env n. (Inr [], n)),
     ac_open_orders = (\<lambda>env n. (Inr [], n))\<rparr>"

theorem alpaca_attempts_agree_witness:
  "\<exists>r s' sent' n req. alpaca_market (recorded quiet_client) [] sample_args sample_env (0, []) = (r, (s', sent')) \<and>
     1 \<le> n \<and> n \<le> 3 \<and> sent' = replicate n req \<and> request_id req = ''c1''"
proof -
  obtain r s' sent' where "alpaca_market (recorded quiet_client) [] sample_args sample_env (0, []) = (r, (s', sent'))"
    by (metis prod_cases3)
  from this alpaca_attempts_agree [OF this, of "''c1''"] show ?thesis by (auto simp: sample_args_def)
qed

lemma parsed_texts: "text_float ''0'' = Inr (Fin 0)" "text_float ''2'' = Inr (Fin 2)"
  by (simp_all add: text_float_def parse_float_def strip_def lower_def is_space_def lower_char_def split_sign.simps
      is_digit_def digits_value_def drop_underscores_def parse_exponent_def char_code_def float_eval)

definition quiet_signal :: signal where
  "quiet_signal = \<lparr>s_market_id = ''m'', s_strategy_id = ''g'', s_direction = LONG, s_confidence = Fin 1,
     s_generated_at = 0, s_expires_at = 1, s_id = ''s''\<rparr>"

theorem accepted_order_counts_as_failure_witness:
  "\<exists>r d'. alpaca_market quiet_client [] sample_args sample_env 0 = (Inr r, 1) \<and> fr_status r = ''pending'' \<and>
     settle_signal ''n'' sample_tick sample_input quiet_signal (Fin 2) r sample_desk = (Inr (), d') \<and>
     dk_portfolio d' = dk_portfolio sample_desk"
proof -
  have "alpaca_qty (Some ''0'') = Inr 0" "alpaca_qty (Some ''2'') = Inr (Fin 2)"
    by (simp_all add: alpaca_qty_def text_or_def parsed_texts zero_eq_Fin)
  then show ?thesis
    using accepted_order_counts_as_failure [of quiet_client "[]" sample_args sample_env 0
        "\<lparr>ao_id = ''v1'', ao_symbol = ''m'', ao_qty = Some ''2'', ao_filled_qty = Some ''0'',
          ao_filled_avg_price = None, ao_side = ''buy'', ao_type = ''market''\<rparr>" 1 "Fin 2" "''n''" sample_tick
        sample_input quiet_signal "Fin 2" sample_desk]
    by (auto simp: quiet_client_def)
qed

theorem alpaca_prices_never_differ_witness:
  "\<exists>bp. position_of \<lparr>ap_symbol = ''m'', ap_qty = Some ''2'', ap_market_value = Some ''2''\<rparr> = Inr bp \<and>
     map mm_type (position_mismatches [(''m'', raw_of_position bp)]
       [(''m'', \<lparr>rp_symbol = Some ''m'', rp_market_id = None, rp_id = None, rp_qty = Some (Fin 2), rp_quantity = None,
          rp_entry_price = Some (Fin 100), rp_current_price = Some (Fin 100)\<rparr>)] ''m'') \<in> {[], [QUANTITY_MISMATCH]}"
proof -
  let ?p = "\<lparr>ap_symbol = ''m'', ap_qty = Some ''2'', ap_market_value = Some ''2''\<rparr>"
  obtain bp where bp: "position_of ?p = Inr bp"
    by (simp add: position_of_def required_float_def parsed_texts)
  show ?thesis
    by (rule exI [of _ bp], rule conjI, rule bp, rule alpaca_prices_never_differ [OF bp]) simp
qed

end
