(* ===== verification/Framework.thy ===== *)
theory Framework
  imports Cycle
begin

text \<open>
  \<open>domain/services/strategy_framework.py\<close>: the registry of strategy classes, the three
  built-in strategies and the service that evaluates catalog entries.

  The registry is a dictionary from names to classes; a class is its \<open>evaluate\<close> as a
  function of the parameters and the indicators.  The metadata of a result (the numbers
  that led to it) and the candles of the market state are left out: no strategy here
  reads the candles, and nothing reads the metadata.
\<close>

datatype param_value = PFloat float64 | PInt int | PText string | PNone

type_synonym params = "(string \<times> param_value) list"
type_synonym indicators = "(string \<times> float64) list"
type_synonym strategy_class = "params \<Rightarrow> indicators \<Rightarrow> signal_result option res"
type_synonym registry = "(string \<times> strategy_class) list"

fun float_of_param :: "param_value \<Rightarrow> float64 res" where
  "float_of_param (PFloat x) = Inr x"
| "float_of_param (PInt n) = int_to_float n"
| "float_of_param (PText s) = (case parse_float s of None \<Rightarrow> Inl ValueError | Some x \<Rightarrow> Inr x)"
| "float_of_param PNone = Inl TypeError"

text \<open>\<open>StrategyBase._param\<close>\<close>

definition get_param :: "params \<Rightarrow> string \<Rightarrow> float64 \<Rightarrow> float64 res" where
  "get_param ps key dflt = (case map_of ps key of None \<Rightarrow> Inr dflt | Some v \<Rightarrow> float_of_param v)"

subsection \<open>The registry\<close>

definition register :: "string \<Rightarrow> strategy_class \<Rightarrow> registry \<Rightarrow> registry" where
  "register name cls r = AList.update name cls r"

definition unregister :: "string \<Rightarrow> registry \<Rightarrow> registry" where
  "unregister name r = AList.delete name r"

definition registry_get :: "string \<Rightarrow> registry \<Rightarrow> strategy_class option" where
  "registry_get name r = map_of r name"

definition registry_list :: "registry \<Rightarrow> string list" where
  "registry_list r = dict_keys r"

subsection \<open>The built-in strategies\<close>

abbreviation fires :: "string \<Rightarrow> float64 \<Rightarrow> signal_result option res" where
  "fires direction c \<equiv> Inr (Some \<lparr>sr_direction = direction, sr_confidence = c\<rparr>)"

definition moving_average_trend :: strategy_class where
  "moving_average_trend ps ind =
     (case (map_of ind ''sma_20'', map_of ind ''sma_50'') of
        (Some fast, Some slow) \<Rightarrow>
          if feq slow 0 then Inr None
          else
          rbind (py_div (fast - slow) slow) (\<lambda>ratio.
          rbind (get_param ps ''trend_threshold'' (lit (2 / 100))) (\<lambda>threshold.
          rbind (get_param ps ''confidence_multiplier'' (Fin 10)) (\<lambda>multiplier.
            if threshold < ratio then fires ''long'' (py_min (ratio * multiplier) 1)
            else if ratio < - threshold then fires ''short'' (py_min (\<bar>ratio\<bar> * multiplier) 1)
            else Inr None)))
      | _ \<Rightarrow> Inr None)"

definition volatility_breakout :: strategy_class where
  "volatility_breakout ps ind =
     (case (map_of ind ''atr_14'', map_of ind ''close'') of
        (Some atr, Some close) \<Rightarrow>
          if feq close 0 then Inr None
          else
          rbind (get_param ps ''volatility_threshold'' (lit (2 / 100))) (\<lambda>threshold.
          rbind (get_param ps ''confidence_multiplier'' (Fin 5)) (\<lambda>multiplier.
          rbind (py_div atr close) (\<lambda>move.
            if threshold < move
            then fires (if close < dict_get ind ''sma_20'' 0 then ''long'' else ''short'')
                   (py_min (move * multiplier) 1)
            else Inr None)))
      | _ \<Rightarrow> Inr None)"

definition mean_reversion :: strategy_class where
  "mean_reversion ps ind =
     (case (map_of ind ''bb_upper_20'', map_of ind ''bb_lower_20'', map_of ind ''close'') of
        (Some band_hi, Some band_lo, Some close) \<Rightarrow>
          if feq band_hi 0 \<or> feq band_lo 0 then Inr None
          else
          rbind (get_param ps ''confidence_multiplier'' (Fin 5)) (\<lambda>multiplier.
            if band_hi < close
            then rbind (py_div (close - band_hi) band_hi) (\<lambda>distance.
                   fires ''short'' (py_min (distance * multiplier) 1))
            else if close < band_lo
            then rbind (py_div (band_lo - close) band_lo) (\<lambda>distance.
                   fires ''long'' (py_min (distance * multiplier) 1))
            else Inr None)
      | _ \<Rightarrow> Inr None)"

definition default_registry :: registry where
  "default_registry =
     register ''mean_reversion'' mean_reversion
       (register ''volatility_breakout'' volatility_breakout
          (register ''moving_average_trend'' moving_average_trend []))"

subsection \<open>Evaluating every registered strategy\<close>

text \<open>\<open>StrategyEvaluationService.evaluate_all\<close>: each class with its default parameters.\<close>

fun evaluate_all_loop :: "(string \<times> strategy_class) list \<Rightarrow> indicators \<Rightarrow> (string \<times> signal_result) list res" where
  "evaluate_all_loop [] ind = Inr []"
| "evaluate_all_loop ((name, cls) # rest) ind =
     rbind (cls [] ind) (\<lambda>r.
     rbind (evaluate_all_loop rest ind) (\<lambda>rs.
       Inr (case r of None \<Rightarrow> rs | Some s \<Rightarrow> (name, s) # rs)))"

definition evaluate_all :: "registry \<Rightarrow> indicators \<Rightarrow> (string \<times> signal_result) list res" where
  "evaluate_all r ind = evaluate_all_loop r ind"

subsection \<open>What the built-in strategies emit\<close>

definition plain_indicators :: "indicators \<Rightarrow> bool" where
  "plain_indicators ind = list_all (\<lambda>(k, v). isfinite v \<and> 0 \<le> v) ind"

definition proper_result :: "signal_result option res \<Rightarrow> bool" where
  "proper_result o' = (case o' of Inl e \<Rightarrow> False | Inr None \<Rightarrow> True
     | Inr (Some r) \<Rightarrow> (sr_direction r = ''long'' \<or> sr_direction r = ''short'') \<and>
         0 \<le> sr_confidence r \<and> sr_confidence r \<le> 1)"

lemma plain_lookup: "plain_indicators ind \<Longrightarrow> map_of ind k = Some v \<Longrightarrow> \<exists>a. v = Fin a \<and> 0 \<le> a"
  by (auto simp: plain_indicators_def list_all_iff isfinite_iff zero_eq_Fin dest!: map_of_SomeD)

lemma rnd_confidence: "Fin 0 \<le> x \<Longrightarrow> Fin 0 \<le> py_min x (Fin 1) \<and> py_min x (Fin 1) \<le> Fin 1"
  by (cases x) (auto simp: py_min_def)

lemma confidence_range:
  assumes "Fin 0 \<le> x" and "0 < k"
  shows "Fin 0 \<le> py_min (x * Fin k) (Fin 1) \<and> py_min (x * Fin k) (Fin 1) \<le> Fin 1"
proof (rule rnd_confidence)
  show "Fin 0 \<le> x * Fin k"
    using assms by (cases x) (auto simp: times_float64_def rnd_nonneg)
qed

lemma Fin_less_not_NaN: "Fin a < x \<Longrightarrow> 0 \<le> a \<Longrightarrow> Fin 0 \<le> x"
  by (cases x) auto

lemma rnd_quot_nonneg: "Fin 0 \<le> x \<Longrightarrow> 0 \<le> b \<Longrightarrow> Fin 0 \<le> fquot x (Fin b)"
  by (cases x) (auto simp: rnd_nonneg)

lemma default_param [simp]: "get_param [] key dflt = Inr dflt"
  by (simp add: get_param_def)

lemma two_percent: "\<exists>t. lit (2 / 100) = Fin t \<and> 0 \<le> t"
proof -
  have "lit (2 / 100) \<noteq> PosInf \<and> lit (2 / 100) \<noteq> NegInf" and "Fin 0 \<le> lit (2 / 100)"
    by (simp_all add: float_eval)
  then show ?thesis by (cases "lit (2 / 100)") auto
qed

lemma above_confident:
  assumes "Fin t < r" and "0 \<le> t" and "0 < k"
  shows "Fin 0 \<le> py_min (r * Fin k) (Fin 1) \<and> py_min (r * Fin k) (Fin 1) \<le> Fin 1"
  using assms by (intro confidence_range Fin_less_not_NaN)

lemma below_confident:
  assumes "r < Fin (- t)" and "0 < k"
  shows "Fin 0 \<le> py_min (\<bar>r\<bar> * Fin k) (Fin 1) \<and> py_min (\<bar>r\<bar> * Fin k) (Fin 1) \<le> Fin 1"
  using assms by (intro confidence_range) (cases r; auto)

lemma moving_average_proper: "proper_result (moving_average_trend [] ind)"
proof (cases "\<exists>fast slow. map_of ind ''sma_20'' = Some fast \<and> map_of ind ''sma_50'' = Some slow \<and> \<not> feq slow 0")
  case True
  then obtain fast slow where at: "map_of ind ''sma_20'' = Some fast" "map_of ind ''sma_50'' = Some slow"
    and nz: "\<not> feq slow 0" by blast
  obtain t where t: "lit (2 / 100) = Fin t" "0 \<le> t" using two_percent by blast
  show ?thesis
    using at nz t(1)
    by (auto simp: moving_average_trend_def py_div_def proper_result_def zero_eq_Fin one_eq_Fin
        above_confident [OF _ t(2)] below_confident)
qed (auto simp: moving_average_trend_def proper_result_def split: option.splits)

lemma volatility_proper: "proper_result (volatility_breakout [] ind)"
proof (cases "\<exists>atr close. map_of ind ''atr_14'' = Some atr \<and> map_of ind ''close'' = Some close \<and> \<not> feq close 0")
  case True
  then obtain atr close where at: "map_of ind ''atr_14'' = Some atr" "map_of ind ''close'' = Some close"
    and nz: "\<not> feq close 0" by blast
  obtain t where t: "lit (2 / 100) = Fin t" "0 \<le> t" using two_percent by blast
  show ?thesis
    using at nz t(1)
    by (auto simp: volatility_breakout_def py_div_def proper_result_def zero_eq_Fin one_eq_Fin
        above_confident [OF _ t(2)])
qed (auto simp: volatility_breakout_def proper_result_def split: option.splits)

lemma mean_reversion_proper:
  assumes "plain_indicators ind"
  shows "proper_result (mean_reversion [] ind)"
proof (cases "\<exists>hi lo close. map_of ind ''bb_upper_20'' = Some hi \<and> map_of ind ''bb_lower_20'' = Some lo \<and>
    map_of ind ''close'' = Some close")
  case True
  then obtain hi lo close where at: "map_of ind ''bb_upper_20'' = Some (Fin hi)"
    "map_of ind ''bb_lower_20'' = Some (Fin lo)" "map_of ind ''close'' = Some (Fin close)"
    and nonneg: "0 \<le> hi" "0 \<le> lo"
    using plain_lookup [OF assms] by blast
  have dist: "Fin 0 \<le> fquot (rnd (a - b)) (Fin c)" if "b < a" "0 \<le> c" for a b c
    using that by (intro rnd_quot_nonneg rnd_nonneg) simp_all
  show ?thesis
    using at nonneg
    by (auto simp: mean_reversion_def py_div_def proper_result_def zero_eq_Fin one_eq_Fin
        confidence_range dist)
qed (auto simp: mean_reversion_def proper_result_def split: option.splits)

lemma default_registry_eq:
  "default_registry = [(''moving_average_trend'', moving_average_trend), (''volatility_breakout'', volatility_breakout),
     (''mean_reversion'', mean_reversion)]"
  by (simp add: default_registry_def register_def)

lemma proper_result_Inr: "proper_result out \<Longrightarrow> \<exists>r. out = Inr r"
  by (cases out) (simp_all add: proper_result_def)

lemma evaluate_all_proper:
  "\<forall>(name, cls) \<in> set r. proper_result (cls [] ind) \<Longrightarrow>
     \<exists>rs. evaluate_all_loop r ind = Inr rs \<and> (\<forall>(name, s) \<in> set rs. proper_result (Inr (Some s)))"
proof (induction r ind rule: evaluate_all_loop.induct)
  case (2 name cls rest ind)
  then obtain o' where o': "cls [] ind = Inr o'" using proper_result_Inr by fastforce
  with 2 show ?case by (auto split: option.splits)
qed simp

lemma proper_recorded:
  assumes "proper_result (Inr (Some r))" and "0 < ttl"
  shows "\<exists>sig store'. process_evaluation fresh now market strategy r ttl store = (Inr sig, store')"
  using assms by (auto simp: proper_result_def process_evaluation_def signal_post_init_def repo_add_def)

text \<open>
  On indicators that are finite and not negative the built-in strategies never raise,
  and everything they emit is accepted as a signal: its direction is one the signal service
  knows and its confidence passes the validation of Signal.
\<close>

theorem builtin_signals_recorded:
  assumes "plain_indicators ind" and "0 < ttl"
  shows "\<exists>rs. evaluate_all default_registry ind = Inr rs \<and>
    (\<forall>(name, r) \<in> set rs. \<exists>sig store'. process_evaluation fresh now market strategy r ttl store = (Inr sig, store'))"
proof -
  have "\<forall>(name, cls) \<in> set default_registry. proper_result (cls [] ind)"
    using moving_average_proper volatility_proper mean_reversion_proper [OF assms(1)]
    by (simp add: default_registry_eq)
  from evaluate_all_proper [OF this] show ?thesis
    using proper_recorded [OF _ assms(2)] by (fastforce simp: evaluate_all_def)
qed

theorem builtin_signals_recorded_witness:
  "\<exists>rs. evaluate_all default_registry [(''close'', Fin 110), (''sma_20'', Fin 100), (''sma_50'', Fin 90),
      (''bb_upper_20'', Fin 105), (''bb_lower_20'', Fin 95), (''atr_14'', Fin 5)] = Inr rs \<and>
    (\<forall>(name, r) \<in> set rs. \<exists>sig store'. process_evaluation ''s'' 0 ''m'' ''g'' r 60 [] = (Inr sig, store'))"
  by (rule builtin_signals_recorded) (simp_all add: plain_indicators_def zero_eq_Fin)

end
