(* ===== verification/Backtest.thy ===== *)
theory Backtest
  imports Framework Execution
begin

text \<open>
  \<open>domain/services/backtesting_service.py\<close>: the candle-by-candle simulation of a strategy,
  its performance metrics and the walk-forward evaluation.

  A candle carries the floats the code reads off its Decimals.  A strategy is a function
  of the candles seen so far and the indicators.  The monotonic clock, the fresh order ids
  and their creation times are functions of the bar number.  \<open>x ** 2\<close> is the correctly
  rounded square, \<open>x ** 0.5\<close> the correctly rounded root.
\<close>

record candle =
  cn_open :: float64
  cn_high :: float64
  cn_low :: float64
  cn_close :: float64
  cn_volume :: float64
  cn_timestamp :: datetime

record metrics =
  mt_total_return :: float64
  mt_sharpe_ratio :: float64
  mt_sortino_ratio :: float64
  mt_calmar_ratio :: float64
  mt_max_drawdown :: float64
  mt_win_rate :: float64
  mt_profit_factor :: float64
  mt_total_trades :: int
  mt_expectancy :: float64
  mt_recovery_factor :: float64

definition no_metrics :: metrics where
  "no_metrics = \<lparr>mt_total_return = 0, mt_sharpe_ratio = 0, mt_sortino_ratio = 0, mt_calmar_ratio = 0,
     mt_max_drawdown = 0, mt_win_rate = 0, mt_profit_factor = 0, mt_total_trades = 0, mt_expectancy = 0,
     mt_recovery_factor = 0\<rparr>"

record backtest_step =
  bs_timestamp :: datetime
  bs_equity :: float64
  bs_order :: "order option"
  bs_fill_price :: "float64 option"

type_synonym strategy_fn = "candle list \<Rightarrow> indicators \<Rightarrow> signal_result option res"

definition instance_of :: "strategy_class \<Rightarrow> params \<Rightarrow> strategy_fn" where
  "instance_of cls ps seen ind = cls ps ind"

text \<open>\<open>Decimal(str(round(x, 4)))\<close> read back as a float is the rounded value itself.\<close>

definition synthetic_candles :: "nat \<Rightarrow> float64 \<Rightarrow> candle list" where
  "synthetic_candles count start_price =
     map (\<lambda>i. let x = start_price + rnd (of_nat i) in
       \<lparr>cn_open = py_round x 4, cn_high = py_round (x + 1) 4, cn_low = py_round (x - 1) 4,
        cn_close = py_round x 4, cn_volume = Fin 1000, cn_timestamp = 1704067200000000\<rparr>) [0..<count]"

subsection \<open>Indicators of a bar\<close>

definition last_n :: "nat \<Rightarrow> 'a list \<Rightarrow> 'a list" where
  "last_n n xs = drop (length xs - n) xs"

definition mean_of :: "float64 list \<Rightarrow> float64" where
  "mean_of xs = fquot (py_sum xs) (rnd (of_nat (length xs)))"

text \<open>\<open>x ** 2\<close> of a float raises when the square of a finite number is not finite.\<close>

fun py_square :: "float64 \<Rightarrow> float64 res" where
  "py_square (Fin a) = (if isfinite (rnd (a * a)) then Inr (rnd (a * a)) else Inl OverflowError)"
| "py_square NaN = Inr NaN"
| "py_square _ = Inr PosInf"

definition sum_squares :: "float64 list \<Rightarrow> float64 res" where
  "sum_squares xs = rbind (mapr py_square xs) (\<lambda>ys. Inr (py_sum ys))"

text \<open>The true ranges as the code pairs them: the bar \<open>j\<close> of the long window with the close
  \<open>j - 1\<close> of the short one.\<close>

definition true_range :: "float64 list \<Rightarrow> float64 list \<Rightarrow> float64 list \<Rightarrow> nat \<Rightarrow> float64" where
  "true_range highs lows closes j =
     (let hl = highs ! j - lows ! j;
          hpc = (if 0 < j then \<bar>highs ! j - closes ! (j - 1)\<bar> else 0);
          lpc = (if 0 < j then \<bar>lows ! j - closes ! (j - 1)\<bar> else 0) in
      py_max (py_max hl hpc) lpc)"

definition atr_14 :: "candle list \<Rightarrow> float64" where
  "atr_14 seen =
     (let highs = map cn_high (last_n 50 seen); lows = map cn_low (last_n 50 seen);
          closes = map cn_close (last_n 20 seen) in
      if 14 \<le> length closes then mean_of (map (true_range highs lows closes) [0..<length closes - 1]) else 0)"

definition bar_indicators :: "candle list \<Rightarrow> indicators res" where
  "bar_indicators seen =
     (let c = last seen; closes = map cn_close (last_n 20 seen); sma20 = mean_of closes in
      if length seen \<le> 1
      then Inr [(''close'', cn_close c), (''high'', cn_high c), (''low'', cn_low c), (''volume'', cn_volume c),
                (''sma_20'', 0), (''sma_50'', 0), (''bb_upper_20'', 0), (''bb_mid_20'', 0), (''bb_lower_20'', 0),
                (''atr_14'', 0)]
      else rbind (sum_squares (map (\<lambda>x. x - sma20) closes)) (\<lambda>ss.
           rbind (py_sqrt (fquot ss (rnd (of_nat (length closes))))) (\<lambda>std.
           Inr [(''close'', cn_close c), (''high'', cn_high c), (''low'', cn_low c), (''volume'', cn_volume c),
                (''sma_20'', sma20), (''sma_50'', mean_of (map cn_close (last_n 50 seen))),
                (''bb_upper_20'', sma20 + Fin 2 * std), (''bb_mid_20'', sma20), (''bb_lower_20'', sma20 - Fin 2 * std),
                (''atr_14'', atr_14 seen)])))"

subsection \<open>One bar\<close>

record bt_state =
  bt_cash :: float64
  bt_position_qty :: float64
  bt_pending :: "order list"
  bt_filled_orders :: int
  bt_steps :: "backtest_step list"

definition bt_init :: "float64 \<Rightarrow> bt_state" where
  "bt_init capital = \<lparr>bt_cash = capital, bt_position_qty = 0, bt_pending = [], bt_filled_orders = 0, bt_steps = []\<rparr>"

definition fill_one :: "execution_service \<Rightarrow> float64 \<Rightarrow> order \<Rightarrow> bt_state \<times> float64 list \<Rightarrow> bt_state \<times> float64 list" where
  "fill_one ex open_price ord st =
     (let (b, executed) = st; r = process_market_order ex ord open_price in
      if \<not> xf_filled r then (b, executed)
      else let amount = xf_fill_quantity r * xf_fill_price r;
               b1 = (if o_side ord = ''buy''
                     then b\<lparr>bt_position_qty := bt_position_qty b + xf_fill_quantity r, bt_cash := bt_cash b - amount\<rparr>
                     else b\<lparr>bt_position_qty := bt_position_qty b - xf_fill_quantity r, bt_cash := bt_cash b + amount\<rparr>) in
           (b1\<lparr>bt_cash := bt_cash b1 - xf_fee r, bt_filled_orders := bt_filled_orders b + 1\<rparr>,
            executed @ [xf_fill_price r]))"

definition fill_pending :: "execution_service \<Rightarrow> float64 \<Rightarrow> bt_state \<Rightarrow> bt_state \<times> float64 list" where
  "fill_pending ex open_price b =
     (let (b1, executed) = fold (fill_one ex open_price) (bt_pending b) (b, []) in
      (b1\<lparr>bt_pending := []\<rparr>, executed))"

definition order_of :: "uuid \<Rightarrow> uuid \<Rightarrow> datetime \<Rightarrow> signal_result option \<Rightarrow> order option" where
  "order_of market fresh now r =
     (case r of None \<Rightarrow> None
      | Some s \<Rightarrow> Some (create_market_order fresh now market
          (if sr_direction s = ''long'' then ''buy'' else ''sell'') (sr_confidence s * Fin 10)))"

definition bt_step ::
  "execution_service \<Rightarrow> strategy_fn \<Rightarrow> uuid \<Rightarrow> uuid \<Rightarrow> datetime \<Rightarrow> candle list \<Rightarrow> bt_state \<Rightarrow> bt_state res" where
  "bt_step ex strategy market fresh now seen b =
     (let c = last seen; (b1, executed) = fill_pending ex (cn_open c) b in
      rbind (bar_indicators seen) (\<lambda>ind.
      rbind (strategy seen ind) (\<lambda>signal.
        let ord = order_of market fresh now signal;
            v = bt_cash b1 + bt_position_qty b1 * cn_close c in
        Inr (b1\<lparr>bt_pending := (case ord of None \<Rightarrow> [] | Some o' \<Rightarrow> [o']),
               bt_steps := bt_steps b1 @ [\<lparr>bs_timestamp = cn_timestamp c, bs_equity = v, bs_order = ord,
                 bs_fill_price = (case executed of [] \<Rightarrow> None | p # _ \<Rightarrow> Some p)\<rparr>]\<rparr>))))"

record bt_env =
  be_clock :: "nat \<Rightarrow> float64"
  be_started :: float64
  be_fresh :: "nat \<Rightarrow> uuid"
  be_now :: "nat \<Rightarrow> datetime"

fun bt_loop ::
  "execution_service \<Rightarrow> strategy_fn \<Rightarrow> uuid \<Rightarrow> bt_env \<Rightarrow> float64 \<Rightarrow> candle list \<Rightarrow> candle list \<Rightarrow> bt_state \<Rightarrow>
   bt_state res" where
  "bt_loop ex strategy market e limit seen [] b = Inr b"
| "bt_loop ex strategy market e limit seen (c # cs) b =
     (let i = length seen in
      if limit < be_clock e i - be_started e then Inl TimeoutError
      else rbind (bt_step ex strategy market (be_fresh e i) (be_now e i) (seen @ [c]) b)
             (bt_loop ex strategy market e limit (seen @ [c]) cs))"

definition backtest_steps ::
  "execution_service \<Rightarrow> strategy_fn \<Rightarrow> uuid \<Rightarrow> bt_env \<Rightarrow> float64 \<Rightarrow> float64 \<Rightarrow> candle list \<Rightarrow> bt_state res" where
  "backtest_steps ex strategy market e limit capital candles =
     bt_loop ex strategy market e limit [] candles (bt_init capital)"

subsection \<open>Metrics\<close>

fun step_returns :: "float64 list \<Rightarrow> float64 list res" where
  "step_returns (x # y # ys) = rbind (py_div (y - x) x) (\<lambda>r. rbind (step_returns (y # ys)) (\<lambda>rs. Inr (r # rs)))"
| "step_returns _ = Inr []"

fun drawdown_from :: "float64 \<Rightarrow> float64 \<Rightarrow> float64 list \<Rightarrow> float64 res" where
  "drawdown_from peak max_dd [] = Inr max_dd"
| "drawdown_from peak max_dd (v # vs) =
     (let peak' = py_max peak v in
      rbind (py_div (peak' - v) peak') (\<lambda>dd. drawdown_from peak' (py_max max_dd dd) vs))"

definition std_over :: "float64 list \<Rightarrow> nat \<Rightarrow> float64 res" where
  "std_over xs n = rbind (sum_squares xs) (\<lambda>ss. py_sqrt (fquot ss (rnd (of_nat (n - 1)))))"

text \<open>\<open>a / std * math.sqrt(252)\<close> where the deviation is positive.\<close>

definition annualised :: "float64 \<Rightarrow> float64 \<Rightarrow> float64 res" where
  "annualised a std =
     (if 0 < std then rbind (py_div a std) (\<lambda>q. rbind (py_sqrt (Fin 252)) (\<lambda>w. Inr (q * w))) else Inr 0)"

definition compute_metrics :: "float64 list \<Rightarrow> metrics res" where
  "compute_metrics vs =
     (if length vs < 2 then Inr no_metrics
      else
      rbind (step_returns vs) (\<lambda>returns.
      rbind (py_div (last vs - hd vs) (hd vs)) (\<lambda>total_return.
      let n = length returns; avg = mean_of returns in
      rbind (if 1 < n then std_over (map (\<lambda>r. r - avg) returns) n else Inr 0) (\<lambda>std.
      rbind (annualised avg std) (\<lambda>sharpe.
      let negative = filter (\<lambda>r. r < 0) returns in
      rbind (if negative \<noteq> [] \<and> 1 < n then std_over negative n else Inr 0) (\<lambda>downside.
      rbind (annualised avg downside) (\<lambda>sortino.
      rbind (drawdown_from (hd vs) 0 vs) (\<lambda>max_dd.
      rbind (if 0 < max_dd then py_div total_return max_dd else Inr 0) (\<lambda>calmar.
      let profit = py_sum (filter (\<lambda>r. 0 < r) returns); loss = \<bar>py_sum negative\<bar> in
      rbind (if 0 < loss then py_div profit loss else Inr PosInf) (\<lambda>profit_factor.
      Inr \<lparr>mt_total_return = total_return, mt_sharpe_ratio = py_round sharpe 4,
           mt_sortino_ratio = py_round sortino 4, mt_calmar_ratio = py_round calmar 4,
           mt_max_drawdown = py_round max_dd 4,
           mt_win_rate = py_round (fquot (rnd (of_nat (length (filter (\<lambda>r. 0 < r) returns)))) (rnd (of_nat n))) 4,
           mt_profit_factor = (if profit_factor = PosInf then 0 else py_round profit_factor 4),
           mt_total_trades = 0, mt_expectancy = py_round avg 4,
           mt_recovery_factor = (if 0 < max_dd then py_round calmar 4 else 0)\<rparr>))))))))))"

record backtest_result =
  br_metrics :: metrics
  br_equity_curve :: "(datetime \<times> float64) list"
  br_period_start :: datetime
  br_period_end :: datetime

definition backtest_run ::
  "execution_service \<Rightarrow> strategy_fn \<Rightarrow> uuid \<Rightarrow> bt_env \<Rightarrow> float64 \<Rightarrow> float64 \<Rightarrow> candle list \<Rightarrow>
   (backtest_result \<times> backtest_step list) res" where
  "backtest_run ex strategy market e limit capital candles =
     rbind (backtest_steps ex strategy market e limit capital candles) (\<lambda>b.
     rbind (compute_metrics (map bs_equity (bt_steps b))) (\<lambda>m.
     if candles = [] then Inl IndexError
     else Inr (\<lparr>br_metrics = m\<lparr>mt_total_trades := bt_filled_orders b\<rparr>,
                br_equity_curve = map (\<lambda>s. (bs_timestamp s, bs_equity s)) (bt_steps b),
                br_period_start = cn_timestamp (hd candles), br_period_end = cn_timestamp (last candles)\<rparr>,
               bt_steps b)))"

subsection \<open>Walk-forward evaluation\<close>

record walk_forward_report =
  wf_fold_returns :: "float64 list"
  wf_sharpe :: "float64 list"
  wf_max_drawdowns :: "float64 list"
  wf_trades :: "int list"
  wf_mean_fold_return :: float64
  wf_positive_folds :: float64
  wf_mean_sharpe :: float64
  wf_mean_max_drawdown :: float64

definition fold_bounds :: "nat \<Rightarrow> nat \<Rightarrow> nat \<Rightarrow> nat \<times> nat" where
  "fold_bounds len n_splits k =
     (let size = len div n_splits; lo = k * size in (lo, if k < n_splits - 1 then lo + size else len))"

definition slice :: "nat \<Rightarrow> nat \<Rightarrow> 'a list \<Rightarrow> 'a list" where
  "slice lo hi xs = drop lo (take hi xs)"

definition scored_steps :: "datetime \<Rightarrow> backtest_step list \<Rightarrow> backtest_step list" where
  "scored_steps fold_start steps = filter (\<lambda>s. fold_start \<le> bs_timestamp s) steps"

definition evaluate_fold ::
  "execution_service \<Rightarrow> strategy_fn \<Rightarrow> uuid \<Rightarrow> bt_env \<Rightarrow> float64 \<Rightarrow> float64 \<Rightarrow> nat \<Rightarrow> nat \<Rightarrow> candle list \<Rightarrow> nat \<Rightarrow>
   (metrics \<times> int) res" where
  "evaluate_fold ex strategy market e limit capital n_splits warmup candles k =
     (let (lo, hi) = fold_bounds (length candles) n_splits k in
      rbind (backtest_run ex strategy market e limit capital (slice (lo - warmup) hi candles)) (\<lambda>(_, steps).
      let scored = scored_steps (cn_timestamp (candles ! lo)) steps in
      rbind (compute_metrics (map bs_equity scored)) (\<lambda>m.
      Inr (m, int (length (filter (\<lambda>s. bs_fill_price s \<noteq> None) scored))))))"

definition walk_forward ::
  "execution_service \<Rightarrow> strategy_fn \<Rightarrow> uuid \<Rightarrow> bt_env \<Rightarrow> float64 \<Rightarrow> float64 \<Rightarrow> nat \<Rightarrow> nat \<Rightarrow> candle list \<Rightarrow>
   walk_forward_report res" where
  "walk_forward ex strategy market e limit capital n_splits warmup candles =
     (if length candles < n_splits * 2 then Inl ValueError
      else if n_splits = 0 then Inl ZeroDivisionError
      else rbind (mapr (evaluate_fold ex strategy market e limit capital n_splits warmup candles) [0..<n_splits])
        (\<lambda>folds.
         let totals = map (mt_total_return \<circ> fst) folds; sharpe = map (mt_sharpe_ratio \<circ> fst) folds;
             draws = map (mt_max_drawdown \<circ> fst) folds in
         Inr \<lparr>wf_fold_returns = totals, wf_sharpe = sharpe, wf_max_drawdowns = draws, wf_trades = map snd folds,
              wf_mean_fold_return = mean_of totals,
              wf_positive_folds = rnd (of_nat (length (filter (\<lambda>t. 0 < t) totals))),
              wf_mean_sharpe = mean_of sharpe, wf_mean_max_drawdown = mean_of draws\<rparr>))"

subsection \<open>No look-ahead\<close>

lemma order_of_MARKET: "order_of market fresh now r = Some ord \<Longrightarrow> o_order_type ord = MARKET"
  by (auto simp: order_of_def create_market_order_def new_order_def split: option.splits)

lemma fill_pending_none: "bt_pending b = [] \<Longrightarrow> fill_pending ex p b = (b, [])"
  by (simp add: fill_pending_def)

lemma fill_pending_one:
  assumes "bt_pending b = [ord]" and "o_order_type ord = MARKET"
  shows "\<exists>b1. fill_pending ex p b = (b1, [apply_slippage ex p (o_side ord)]) \<and>
    bt_filled_orders b1 = bt_filled_orders b + 1"
  using assms by (auto simp: fill_pending_def fill_one_def process_market_order_def Let_def)

lemma fill_one_steps: "bt_steps (fst (fill_one ex p ord st)) = bt_steps (fst st)"
  by (auto simp: fill_one_def Let_def split: prod.splits)

lemma fill_pending_steps:
  assumes "fill_pending ex p b = (b1, executed)"
  shows "bt_steps b1 = bt_steps b"
proof -
  have "bt_steps (fst (fold (fill_one ex p) os st)) = bt_steps (fst st)" for os st
    by (induction os arbitrary: st) (simp_all add: fill_one_steps)
  from this [of "bt_pending b" "(b, [])"] show ?thesis
    using assms by (auto simp: fill_pending_def split: prod.splits)
qed

definition fill_spec :: "execution_service \<Rightarrow> candle list \<Rightarrow> backtest_step list \<Rightarrow> nat \<Rightarrow> bool" where
  "fill_spec ex candles steps i =
     (bs_fill_price (steps ! i) =
        (if i = 0 then None
         else map_option (\<lambda>ord. apply_slippage ex (cn_open (candles ! i)) (o_side ord)) (bs_order (steps ! (i - 1)))))"

definition bt_inv :: "execution_service \<Rightarrow> candle list \<Rightarrow> bt_state \<Rightarrow> bool" where
  "bt_inv ex seen b =
     (length (bt_steps b) = length seen \<and> map bs_timestamp (bt_steps b) = map cn_timestamp seen \<and>
      bt_pending b = (if seen = [] then [] else case bs_order (last (bt_steps b)) of None \<Rightarrow> [] | Some ord \<Rightarrow> [ord]) \<and>
      (\<forall>ord \<in> set (bt_pending b). o_order_type ord = MARKET) \<and>
      (\<forall>i < length seen. fill_spec ex seen (bt_steps b) i) \<and>
      bt_filled_orders b = int (length (filter (\<lambda>s. bs_fill_price s \<noteq> None) (bt_steps b))))"

lemma bt_inv_init: "bt_inv ex [] (bt_init capital)"
  by (simp add: bt_inv_def bt_init_def)

lemma bt_step_fields:
  assumes "bt_step ex strategy market fresh now (seen @ [c]) b = Inr b'"
    and "fill_pending ex (cn_open c) b = (b1, executed)"
  shows "\<exists>ind r s. bar_indicators (seen @ [c]) = Inr ind \<and> strategy (seen @ [c]) ind = Inr r \<and>
    bt_steps b' = bt_steps b1 @ [s] \<and> bs_order s = order_of market fresh now r \<and>
    bs_timestamp s = cn_timestamp c \<and>
    bs_fill_price s = (case executed of [] \<Rightarrow> None | p # _ \<Rightarrow> Some p) \<and>
    bt_pending b' = (case bs_order s of None \<Rightarrow> [] | Some ord \<Rightarrow> [ord]) \<and>
    bt_filled_orders b' = bt_filled_orders b1"
  using assms by (auto simp: bt_step_def Let_def elim!: rbind_eq_InrE)

lemma fill_spec_old:
  "i < length seen \<Longrightarrow> length steps = length seen \<Longrightarrow>
     fill_spec ex (seen @ [c]) (steps @ [s]) i = fill_spec ex seen steps i"
  by (cases i) (simp_all add: fill_spec_def nth_append)

lemma bt_step_inv:
  assumes inv: "bt_inv ex seen b" and step: "bt_step ex strategy market fresh now (seen @ [c]) b = Inr b'"
  shows "bt_inv ex (seen @ [c]) b'"
proof -
  obtain b1 executed where fills: "fill_pending ex (cn_open c) b = (b1, executed)"
    by (cases "fill_pending ex (cn_open c) b")
  obtain ind r s where s: "bt_steps b' = bt_steps b1 @ [s]" "bs_order s = order_of market fresh now r"
      "bs_fill_price s = (case executed of [] \<Rightarrow> None | p # _ \<Rightarrow> Some p)"
      "bt_pending b' = (case bs_order s of None \<Rightarrow> [] | Some ord \<Rightarrow> [ord])"
      "bt_filled_orders b' = bt_filled_orders b1" "bs_timestamp s = cn_timestamp c"
    using bt_step_fields [OF step fills] by (elim exE conjE) (rule that)
  have old: "length (bt_steps b) = length seen" "map bs_timestamp (bt_steps b) = map cn_timestamp seen"
      "\<forall>i < length seen. fill_spec ex seen (bt_steps b) i"
    using inv by (simp_all add: bt_inv_def)
  note steps = fill_pending_steps [OF fills]
  have last_step: "last (bt_steps b) = bt_steps b ! (length seen - Suc 0)" if "seen \<noteq> []"
    using that old(1) by (metis One_nat_def last_conv_nth length_0_conv)
  have new: "bt_steps b1 = bt_steps b \<and> fill_spec ex (seen @ [c]) (bt_steps b @ [s]) (length seen) \<and>
      bt_filled_orders b1 = bt_filled_orders b + (if executed = [] then 0 else 1)"
  proof (cases "bt_pending b")
    case Nil
    then have "seen = [] \<or> bs_order (last (bt_steps b)) = None"
      using inv by (auto simp: bt_inv_def split: option.splits if_splits)
    then show ?thesis
      using fills s(3) old(1) Nil last_step
      by (auto simp: fill_pending_none fill_spec_def nth_append split: if_splits)
  next
    case (Cons ord rest)
    then have ord: "bt_pending b = [ord]" "seen \<noteq> []" "bs_order (last (bt_steps b)) = Some ord"
        "o_order_type ord = MARKET"
      using inv by (auto simp: bt_inv_def split: option.splits if_splits)
    obtain b2 where "fill_pending ex (cn_open c) b = (b2, [apply_slippage ex (cn_open c) (o_side ord)])"
        "bt_filled_orders b2 = bt_filled_orders b + 1"
      using fill_pending_one [OF ord(1,4)] by blast
    then show ?thesis
      using fills s(3) old(1) ord steps by (auto simp: fill_spec_def nth_append last_step)
  qed
  show ?thesis
    unfolding bt_inv_def
  proof (intro conjI)
    show "\<forall>i < length (seen @ [c]). fill_spec ex (seen @ [c]) (bt_steps b') i"
      using new old s(1) by (auto simp: less_Suc_eq fill_spec_old)
    show "\<forall>ord \<in> set (bt_pending b'). o_order_type ord = MARKET"
      using s(2,4) by (auto split: option.splits dest: order_of_MARKET)
    show "bt_filled_orders b' = int (length (filter (\<lambda>s. bs_fill_price s \<noteq> None) (bt_steps b')))"
      using inv new s by (auto simp: bt_inv_def split: list.splits)
  qed (use new old s in auto)
qed

lemma bt_loop_inv:
  "bt_inv ex seen b \<Longrightarrow> bt_loop ex strategy market e limit seen cs b = Inr b' \<Longrightarrow> bt_inv ex (seen @ cs) b'"
proof (induction cs arbitrary: seen b)
  case (Cons c cs)
  then obtain b1 where step: "bt_step ex strategy market (be_fresh e (length seen)) (be_now e (length seen))
      (seen @ [c]) b = Inr b1" and rest: "bt_loop ex strategy market e limit (seen @ [c]) cs b1 = Inr b'"
    by (auto simp: Let_def split: if_splits elim!: rbind_eq_InrE)
  show ?case using Cons.IH [OF bt_step_inv [OF Cons.prems(1) step] rest] by simp
qed simp

lemma bt_loop_append:
  "bt_loop ex strategy market e limit seen (cs @ ds) b =
     rbind (bt_loop ex strategy market e limit seen cs b) (bt_loop ex strategy market e limit (seen @ cs) ds)"
proof (induction cs arbitrary: seen b)
  case (Cons c cs)
  have "bt_loop ex strategy market e limit (seen @ [c]) (cs @ ds) =
      (\<lambda>b. rbind (bt_loop ex strategy market e limit (seen @ [c]) cs b)
        (bt_loop ex strategy market e limit ((seen @ [c]) @ cs) ds))"
    by (rule ext) (rule Cons.IH)
  then show ?case
    by (simp add: Let_def rbind_assoc)
qed simp

lemma bt_loop_prefix:
  "bt_loop ex strategy market e limit seen cs b = Inr b' \<Longrightarrow>
     \<exists>ss. bt_steps b' = bt_steps b @ ss \<and> length ss = length cs"
proof (induction cs arbitrary: seen b)
  case (Cons c cs)
  then obtain b1 where step: "bt_step ex strategy market (be_fresh e (length seen)) (be_now e (length seen))
      (seen @ [c]) b = Inr b1" and rest: "bt_loop ex strategy market e limit (seen @ [c]) cs b1 = Inr b'"
    by (auto simp: Let_def split: if_splits elim!: rbind_eq_InrE)
  obtain b2 executed where fills: "fill_pending ex (cn_open c) b = (b2, executed)"
    by (cases "fill_pending ex (cn_open c) b")
  obtain s where "bt_steps b1 = bt_steps b @ [s]"
    using bt_step_fields [OF step fills] fill_pending_steps [OF fills] by auto
  then show ?case using Cons.IH [OF rest] by auto
qed simp


text \<open>
  A signal is filled at the open of the next candle, at the slipped price of its side,
  and nowhere else: nothing fills on the first candle, the order of the last candle is
  dropped, and the filled orders are counted.
\<close>

theorem next_open_fill:
  assumes "backtest_steps ex strategy market e limit capital candles = Inr b"
  shows "length (bt_steps b) = length candles \<and> (\<forall>i < length candles. fill_spec ex candles (bt_steps b) i) \<and>
    bt_filled_orders b = int (length (filter (\<lambda>s. bs_fill_price s \<noteq> None) (bt_steps b)))"
  using bt_loop_inv [OF bt_inv_init assms [unfolded backtest_steps_def]] by (simp add: bt_inv_def)

definition flat_candle :: "float64 \<Rightarrow> float64 \<Rightarrow> candle" where
  "flat_candle p w = \<lparr>cn_open = p, cn_high = p + w, cn_low = p - w, cn_close = p, cn_volume = Fin 1000, cn_timestamp = 0\<rparr>"

definition always_long :: strategy_fn where
  "always_long seen ind = Inr (Some \<lparr>sr_direction = ''long'', sr_confidence = Fin 1\<rparr>)"

definition sample_bt_env :: bt_env where
  "sample_bt_env = \<lparr>be_clock = (\<lambda>_. Fin 0), be_started = Fin 0, be_fresh = (\<lambda>_. ''o''), be_now = (\<lambda>_. 0)\<rparr>"

lemma flat_indicators: "\<exists>ind. bar_indicators [flat_candle (Fin 100) 0, flat_candle (Fin 100) 0] = Inr ind"
proof -
  have mean: "mean_of [Fin 100, Fin 100] = Fin 100"
    by (simp add: mean_of_def py_sum_def zero_eq_Fin truthy_def float_eval)
  have squares: "sum_squares [Fin 0, Fin 0] = Inr (Fin 0)"
    by (simp add: sum_squares_def py_sum_def zero_eq_Fin truthy_def Let_def)
  have quot: "fquot (Fin 0) x = Fin 0 \<or> fquot (Fin 0) x = NaN" for x
    by (cases x) auto
  show ?thesis
    using quot [of "rnd 2"]
    by (auto simp: bar_indicators_def last_n_def flat_candle_def mean squares Let_def)
qed

lemma always_long_step:
  "bar_indicators seen = Inr ind \<Longrightarrow> \<exists>b'. bt_step ex always_long market fresh now seen b = Inr b'"
  by (simp add: bt_step_def always_long_def split_def Let_def)

lemma sample_run:
  "\<exists>b. backtest_steps default_execution_service always_long ''m'' sample_bt_env (Fin 300) (Fin 10000)
     [flat_candle (Fin 100) 0, flat_candle (Fin 100) 0] = Inr b"
proof -
  let ?c = "flat_candle (Fin 100) 0" and ?ex = default_execution_service
  obtain ind where "bar_indicators [?c] = Inr ind" by (simp add: bar_indicators_def Let_def)
  then obtain b1 where "bt_step ?ex always_long ''m'' ''o'' 0 [?c] (bt_init (Fin 10000)) = Inr b1"
    using always_long_step by blast
  moreover obtain b2 where "bt_step ?ex always_long ''m'' ''o'' 0 [?c, ?c] b1 = Inr b2"
    using flat_indicators always_long_step by blast
  ultimately show ?thesis by (simp add: backtest_steps_def sample_bt_env_def)
qed


theorem next_open_fill_witness:
  "\<exists>b. backtest_steps default_execution_service always_long ''m'' sample_bt_env (Fin 300) (Fin 10000)
       [flat_candle (Fin 100) 0, flat_candle (Fin 100) 0] = Inr b \<and> length (bt_steps b) = 2 \<and>
     fill_spec default_execution_service [flat_candle (Fin 100) 0, flat_candle (Fin 100) 0] (bt_steps b) 1"
proof -
  obtain b where "backtest_steps default_execution_service always_long ''m'' sample_bt_env (Fin 300) (Fin 10000)
       [flat_candle (Fin 100) 0, flat_candle (Fin 100) 0] = Inr b"
    using sample_run by auto
  with next_open_fill [OF this] show ?thesis by auto
qed

subsection \<open>Two flaws of the evaluation\<close>

lemma last_n_append: "length ys \<le> n \<Longrightarrow> last_n n (xs @ ys) = last_n (n - length ys) xs @ ys"
  by (simp add: last_n_def)

lemma last_n_append_short: "n \<le> length ys \<Longrightarrow> last_n n (xs @ ys) = last_n n ys"
  by (simp add: last_n_def)

lemma last_n_map: "map f (last_n n xs) = last_n n (map f xs)"
  by (simp add: last_n_def drop_map)

lemma true_range_cong:
  assumes "j < length hs" and "length hs = length ls"
  shows "true_range (hs @ hs1) (ls @ ls1) cs j = true_range (hs @ hs2) (ls @ ls2) cs j"
  using assms by (simp add: true_range_def nth_append)

text \<open>
  Once there are fifty candles the average true range ignores the ranges of the last
  thirty-one: their highs and lows may be anything, because the true ranges pair the start
  of the fifty-candle window with the closes of the twenty-candle one.
\<close>

theorem atr_ignores_recent_ranges:
  assumes "19 \<le> length old" and "length recent = 31" and "length recent' = 31"
    and "map cn_close recent = map cn_close recent'"
  shows "atr_14 (old @ recent) = atr_14 (old @ recent')"
proof -
  let ?o = "last_n 19 old" and ?cs = "map cn_close (last_n 20 recent)"
  have closes: "map cn_close (last_n 20 recent') = ?cs"
    using assms(4) by (simp add: last_n_map)
  have len: "length ?cs = 20" "length ?o = 19"
    using assms by (simp_all add: last_n_def)
  have atr: "atr_14 (old @ rs) = mean_of (map (true_range (map cn_high ?o @ map cn_high rs)
      (map cn_low ?o @ map cn_low rs) ?cs) [0..<19])"
    if "length rs = 31" "map cn_close (last_n 20 rs) = ?cs" for rs
    using that len by (simp add: atr_14_def last_n_append last_n_append_short)
  have "map (true_range (map cn_high ?o @ map cn_high recent) (map cn_low ?o @ map cn_low recent) ?cs) [0..<19] =
      map (true_range (map cn_high ?o @ map cn_high recent') (map cn_low ?o @ map cn_low recent') ?cs) [0..<19]"
    using len(2) by (intro map_cong true_range_cong) auto
  then show ?thesis
    unfolding atr [OF assms(2) refl] atr [OF assms(3) closes] by (rule arg_cong)
qed

theorem atr_ignores_recent_ranges_witness:
  "atr_14 (replicate 19 (flat_candle (Fin 100) (Fin 1)) @ replicate 31 (flat_candle (Fin 100) (Fin 1))) =
   atr_14 (replicate 19 (flat_candle (Fin 100) (Fin 1)) @ replicate 31 (flat_candle (Fin 100) (Fin 50)))"
  by (rule atr_ignores_recent_ranges) (simp_all add: flat_candle_def)

lemma synthetic_timestamps:
  "x \<in> set (synthetic_candles n p) \<Longrightarrow> cn_timestamp x = 1704067200000000"
  by (auto simp: synthetic_candles_def Let_def)

lemma slice_subset: "set (slice lo hi xs) \<subseteq> set xs"
  unfolding slice_def by (meson order_trans set_drop_subset set_take_subset)

text \<open>
  On the synthetic candles of the operator's tools the warm-up is scored: all of them
  carry one timestamp, so the filter that should keep the fold keeps every step of the
  window.
\<close>

theorem synthetic_warmup_is_scored:
  assumes "lo < n"
    and "backtest_run ex strategy market e limit capital (slice (lo - warmup) hi (synthetic_candles n p)) = Inr (r, steps)"
  shows "scored_steps (cn_timestamp (synthetic_candles n p ! lo)) steps = steps \<and>
    length steps = length (slice (lo - warmup) hi (synthetic_candles n p))"
proof -
  let ?w = "slice (lo - warmup) hi (synthetic_candles n p)"
  obtain b where b: "backtest_steps ex strategy market e limit capital ?w = Inr b" "steps = bt_steps b"
    using assms(2) by (auto simp: backtest_run_def elim!: rbind_eq_InrE split: if_splits)
  have "bt_inv ex ?w b"
    using bt_loop_inv [OF bt_inv_init b(1) [unfolded backtest_steps_def]] by simp
  then have len: "length steps = length ?w" and times: "map bs_timestamp steps = map cn_timestamp ?w"
    using b(2) by (simp_all add: bt_inv_def)
  have "bs_timestamp s = 1704067200000000" if "s \<in> set steps" for s
  proof -
    have "bs_timestamp s \<in> set (map cn_timestamp ?w)"
      using that times [symmetric] by simp
    then show ?thesis
      using slice_subset [of "lo - warmup" hi "synthetic_candles n p"] by (auto dest!: synthetic_timestamps)
  qed
  moreover have "cn_timestamp (synthetic_candles n p ! lo) = 1704067200000000"
    using assms(1) by (simp add: synthetic_candles_def Let_def)
  ultimately show ?thesis using len by (simp add: scored_steps_def)
qed

definition never_fires :: strategy_fn where
  "never_fires seen ind = Inr None"

lemma two_synthetic:
  "synthetic_candles 2 (Fin 100) = map (\<lambda>p. \<lparr>cn_open = Fin p, cn_high = Fin (p + 1), cn_low = Fin (p - 1),
     cn_close = Fin p, cn_volume = Fin 1000, cn_timestamp = 1704067200000000\<rparr>) [100, 101]"
  by (simp add: synthetic_candles_def upt_rec zero_eq_Fin one_eq_Fin float_eval)

lemma rising_indicators: "\<exists>ind. bar_indicators (synthetic_candles 2 (Fin 100)) = Inr ind"
proof -
  have mean: "mean_of [Fin 100, Fin 101] = Fin (201 / 2)"
    by (simp add: mean_of_def py_sum_def zero_eq_Fin truthy_def float_eval)
  have squares: "sum_squares [Fin (- (1 / 2)), Fin (1 / 2)] = Inr (Fin (1 / 2))"
    by (simp add: sum_squares_def py_sum_def zero_eq_Fin truthy_def float_eval)
  have diffs: "Fin 100 - Fin (201 / 2) = Fin (- (1 / 2))" "Fin 101 - Fin (201 / 2) = Fin (1 / 2)"
    by (simp_all add: float_eval)
  have quot: "fquot (Fin (1 / 2)) (rnd 2) = Fin (1 / 4)" by (simp add: float_eval)
  show ?thesis
    by (simp add: two_synthetic bar_indicators_def last_n_def mean diffs squares quot Let_def del: Fin_ops)
qed

lemma never_step:
  "bar_indicators seen = Inr ind \<Longrightarrow> bt_pending b = [] \<Longrightarrow>
     bt_step ex never_fires market fresh now seen b =
       Inr (b\<lparr>bt_pending := [], bt_steps := bt_steps b @ [\<lparr>bs_timestamp = cn_timestamp (last seen),
         bs_equity = bt_cash b + bt_position_qty b * cn_close (last seen), bs_order = None, bs_fill_price = None\<rparr>]\<rparr>)"
  by (simp add: bt_step_def never_fires_def fill_pending_none order_of_def Let_def)

theorem synthetic_warmup_is_scored_witness:
  "\<exists>r steps. backtest_run default_execution_service never_fires ''m'' sample_bt_env (Fin 300) (Fin 10000)
      (slice (1 - 1) 2 (synthetic_candles 2 (Fin 100))) = Inr (r, steps) \<and>
     scored_steps (cn_timestamp (synthetic_candles 2 (Fin 100) ! 1)) steps = steps \<and> length steps = 2"
proof -
  let ?w = "slice (1 - 1) 2 (synthetic_candles 2 (Fin 100))"
  have "\<exists>r steps. backtest_run default_execution_service never_fires ''m'' sample_bt_env (Fin 300) (Fin 10000) ?w =
      Inr (r, steps)"
  proof -
    obtain ind where ind: "bar_indicators (synthetic_candles 2 (Fin 100)) = Inr ind"
      using rising_indicators by blast
    have metrics: "\<exists>m. compute_metrics [Fin 10000, Fin 10000] = Inr m"
            by (auto simp: compute_metrics_def py_div_def zero_eq_Fin py_max_def annualised_def feq_iff Let_def)
    obtain c1 c2 where two: "synthetic_candles 2 (Fin 100) = [c1, c2]" "cn_close c1 = Fin 100" "cn_close c2 = Fin 101"
      by (simp add: two_synthetic)
    obtain ind1 where ind1: "bar_indicators [c1] = Inr ind1" by (simp add: bar_indicators_def Let_def)
    have equity: "Fin 10000 + 0 * Fin 100 = Fin 10000" "Fin 10000 + 0 * Fin 101 = Fin 10000"
      by (simp_all add: zero_eq_Fin float_eval)
    obtain b where steps: "backtest_steps default_execution_service never_fires ''m'' sample_bt_env (Fin 300)
        (Fin 10000) (synthetic_candles 2 (Fin 100)) = Inr b" and eqs: "map bs_equity (bt_steps b) = [Fin 10000, Fin 10000]"
      using ind [unfolded two(1)] ind1 two(2,3) equity
      by (simp add: two(1) backtest_steps_def sample_bt_env_def bt_init_def never_step)
    have "slice (1 - 1) 2 (synthetic_candles 2 (Fin 100)) = synthetic_candles 2 (Fin 100)"
      by (simp add: slice_def synthetic_candles_def)
    then show ?thesis
      using metrics steps eqs by (auto simp: backtest_run_def two(1))
  qed
  moreover have "length ?w = 2" by (simp add: slice_def synthetic_candles_def)
  ultimately show ?thesis
    using synthetic_warmup_is_scored [of 1 2 default_execution_service never_fires "''m''" sample_bt_env "Fin 300"
        "Fin 10000" 1 2 "Fin 100"]
    by auto
qed

end
