(* ===== verification/Analysis.thy ===== *)
theory Analysis
  imports Backtest "HOL-Library.Sublist"
begin

text \<open>
  \<open>domain/services/{analysis_service,regime_detection}.py\<close>: the technical indicators over
  a series of candles and the regime derived from two of them.

  An indicator value keeps the market, instant, name and number of the dataclass (its
  random id is read nowhere).  The code loops over the indices of the series and reads a
  window of each; here a series is the map of a function of the window over the same
  indices, which makes it plain that no value depends on a later candle.
\<close>

record indicator =
  id_market :: uuid
  id_timestamp :: datetime
  id_name :: fstring
  id_value :: float64

text \<open>\<open>candles[i - n + 1 .. i]\<close>\<close>

definition window_at :: "nat \<Rightarrow> nat \<Rightarrow> candle list \<Rightarrow> candle list" where
  "window_at n i cs = take n (drop (i + 1 - n) cs)"

abbreviation windowed :: "string \<Rightarrow> nat \<Rightarrow> fstring" where
  "windowed base n \<equiv> [L base, Z (int n)]"

text \<open>One value per index from \<open>first\<close> on, \<open>value i\<close> being the number at \<open>i\<close>.\<close>

definition series :: "uuid \<Rightarrow> fstring \<Rightarrow> nat \<Rightarrow> (nat \<Rightarrow> float64) \<Rightarrow> candle list \<Rightarrow> indicator list" where
  "series market name start value cs =
     map (\<lambda>i. \<lparr>id_market = market, id_timestamp = cn_timestamp (cs ! i), id_name = name, id_value = value i\<rparr>)
       [start..<length cs]"

subsection \<open>Averages\<close>

text \<open>\<open>sum(...) / window\<close>\<close>

definition over :: "nat \<Rightarrow> float64 list \<Rightarrow> float64" where
  "over n xs = fquot (py_sum xs) (rnd (of_nat n))"

definition compute_sma :: "uuid \<Rightarrow> candle list \<Rightarrow> nat \<Rightarrow> indicator list" where
  "compute_sma market cs n =
     (if cs = [] \<or> n < 1 then []
      else series market (windowed ''sma_'' n) (n - 1) (\<lambda>i. over n (map cn_close (window_at n i cs))) cs)"

fun ema_from :: "float64 \<Rightarrow> float64 \<Rightarrow> float64 list \<Rightarrow> float64" where
  "ema_from multiplier ema [] = ema"
| "ema_from multiplier ema (close # closes) = ema_from multiplier ((close - ema) * multiplier + ema) closes"

text \<open>The average at \<open>i\<close>: seeded with the mean of the first window, then updated up to \<open>i\<close>.\<close>

definition ema_at :: "nat \<Rightarrow> candle list \<Rightarrow> nat \<Rightarrow> float64" where
  "ema_at n cs i =
     ema_from (fquot (Fin 2) (rnd (of_nat (n + 1)))) (over n (map cn_close (take n cs)))
       (map cn_close (drop n (take (i + 1) cs)))"

definition compute_ema :: "uuid \<Rightarrow> candle list \<Rightarrow> nat \<Rightarrow> indicator list" where
  "compute_ema market cs n =
     (if cs = [] \<or> n < 1 then [] else series market (windowed ''ema_'' n) (n - 1) (ema_at n cs) cs)"

subsection \<open>Relative strength and range\<close>

text \<open>The running gains and losses over consecutive closes.\<close>

fun gains_losses :: "float64 list \<Rightarrow> float64 \<times> float64 \<Rightarrow> float64 \<times> float64" where
  "gains_losses (a # b # closes) (gains, losses) =
     (let change = b - a in
      gains_losses (b # closes) (if 0 < change then (gains + change, losses) else (gains, losses - change)))"
| "gains_losses _ gl = gl"

definition rsi_of :: "nat \<Rightarrow> float64 \<times> float64 \<Rightarrow> float64" where
  "rsi_of n gl =
     (let avg_gain = fquot (fst gl) (rnd (of_nat n)); avg_loss = fquot (snd gl) (rnd (of_nat n)) in
      if feq avg_loss 0 then Fin 100
      else let rs = fquot avg_gain avg_loss in Fin 100 - fquot (Fin 100) (1 + rs))"

definition compute_rsi :: "uuid \<Rightarrow> candle list \<Rightarrow> nat \<Rightarrow> indicator list" where
  "compute_rsi market cs n =
     (if cs = [] \<or> n < 1 then []
      else series market (windowed ''rsi_'' n) n
             (\<lambda>i. rsi_of n (gains_losses (map cn_close (window_at (n + 1) i cs)) (0, 0))) cs)"

fun true_ranges :: "candle list \<Rightarrow> float64 list" where
  "true_ranges (p # c # cs) =
     py_max (py_max (cn_high c - cn_low c) \<bar>cn_high c - cn_close p\<bar>) \<bar>cn_low c - cn_close p\<bar> # true_ranges (c # cs)"
| "true_ranges _ = []"

definition compute_atr :: "uuid \<Rightarrow> candle list \<Rightarrow> nat \<Rightarrow> indicator list" where
  "compute_atr market cs n =
     (if cs = [] \<or> n < 1 then []
      else series market (windowed ''atr_'' n) n (\<lambda>i. over n (true_ranges (window_at (n + 1) i cs))) cs)"

subsection \<open>Bands and the stochastic oscillator\<close>

record bollinger =
  bb_middle :: "indicator list"
  bb_upper :: "indicator list"
  bb_lower :: "indicator list"

text \<open>Mean and standard deviation of a window; the square of a huge deviation raises.\<close>

definition mean_std :: "nat \<Rightarrow> float64 list \<Rightarrow> (float64 \<times> float64) res" where
  "mean_std n closes =
     (let mean = over n closes in
      rbind (sum_squares (map (\<lambda>c. c - mean) closes)) (\<lambda>ss.
      rbind (py_sqrt (fquot ss (rnd (of_nat n)))) (\<lambda>std. Inr (mean, std))))"

definition compute_bollinger_bands :: "uuid \<Rightarrow> candle list \<Rightarrow> nat \<Rightarrow> float64 \<Rightarrow> bollinger res" where
  "compute_bollinger_bands market cs n num_std =
     (if cs = [] \<or> n < 1 then Inr \<lparr>bb_middle = [], bb_upper = [], bb_lower = []\<rparr>
      else
      rbind (mapr (\<lambda>i. mean_std n (map cn_close (window_at n i cs))) [n - 1..<length cs]) (\<lambda>ms.
      let value = (\<lambda>f i. f (ms ! (i + 1 - n))) in
      Inr \<lparr>bb_middle = series market (windowed ''bb_middle_'' n) (n - 1) (value fst) cs,
           bb_upper = series market (windowed ''bb_upper_'' n) (n - 1) (value (\<lambda>(m, s). m + num_std * s)) cs,
           bb_lower = series market (windowed ''bb_lower_'' n) (n - 1) (value (\<lambda>(m, s). m - num_std * s)) cs\<rparr>))"

text \<open>\<open>max(...)\<close> and \<open>min(...)\<close> of a sequence.\<close>

fun max_of :: "float64 list \<Rightarrow> float64" where
  "max_of [] = NaN"
| "max_of (x # xs) = foldl py_max x xs"

fun min_of :: "float64 list \<Rightarrow> float64" where
  "min_of [] = NaN"
| "min_of (x # xs) = foldl py_min x xs"

definition stoch_k :: "candle list \<Rightarrow> float64" where
  "stoch_k win =
     (let hi = max_of (map cn_high win); lo = min_of (map cn_low win); close = cn_close (last win) in
      if feq hi lo then Fin 50 else fquot (close - lo) (hi - lo) * Fin 100)"

record stochastic =
  st_k :: "indicator list"
  st_d :: "indicator list"

definition compute_stochastics :: "uuid \<Rightarrow> candle list \<Rightarrow> nat \<Rightarrow> nat \<Rightarrow> stochastic" where
  "compute_stochastics market cs kn dn =
     (if cs = [] \<or> kn < 1 \<or> dn < 1 then \<lparr>st_k = [], st_d = []\<rparr>
      else let ks = map (\<lambda>i. stoch_k (window_at kn i cs)) [kn - 1..<length cs] in
      \<lparr>st_k = series market (windowed ''stoch_k_'' kn) (kn - 1) (\<lambda>i. ks ! (i + 1 - kn)) cs,
       st_d = map (\<lambda>j. \<lparr>id_market = market, id_timestamp = cn_timestamp (cs ! (j + kn - 1)),
                  id_name = [L ''stoch_d_'', Z (int kn), L ''_'', Z (int dn)],
                  id_value = over dn (take dn (drop (j + 1 - dn) ks))\<rparr>) [dn - 1..<length ks]\<rparr>)"

subsection \<open>Regimes\<close>

datatype regime = TRENDING_BULLISH | TRENDING_BEARISH | RANGING | HIGH_VOLATILITY | UNKNOWN_REGIME

fun regime_value :: "regime \<Rightarrow> string" where
  "regime_value TRENDING_BULLISH = ''trending_bullish''"
| "regime_value TRENDING_BEARISH = ''trending_bearish''"
| "regime_value RANGING = ''ranging''"
| "regime_value HIGH_VOLATILITY = ''high_volatility''"
| "regime_value UNKNOWN_REGIME = ''unknown''"

definition classify :: "float64 \<Rightarrow> float64 \<Rightarrow> float64 \<Rightarrow> regime" where
  "classify close fast slow =
     (if fast < close \<and> slow < fast then TRENDING_BULLISH
      else if close < fast \<and> fast < slow then TRENDING_BEARISH
      else RANGING)"

text \<open>A dictionary comprehension: a later item of the same key replaces the value.\<close>

definition dict_of :: "('a \<Rightarrow> 'k) \<Rightarrow> ('a \<Rightarrow> 'v) \<Rightarrow> 'a list \<Rightarrow> ('k \<times> 'v) list" where
  "dict_of key val xs = fold (\<lambda>x d. AList.update (key x) (val x) d) xs []"

definition detect_regimes :: "uuid \<Rightarrow> nat \<Rightarrow> nat \<Rightarrow> candle list \<Rightarrow> (datetime \<times> regime) list" where
  "detect_regimes market fast_window slow_window cs =
     (if cs = [] \<or> length cs < slow_window then []
      else
      let fast = dict_of id_timestamp id_value (compute_sma market cs fast_window);
          slow = dict_of id_timestamp id_value (compute_sma market cs slow_window);
          closes = dict_of cn_timestamp cn_close cs;
          common = sort (filter (\<lambda>ts. ts \<in> set (dict_keys slow) \<and> ts \<in> set (dict_keys closes)) (dict_keys fast)) in
      map (\<lambda>ts. (ts, classify (dict_get closes ts NaN) (dict_get fast ts NaN) (dict_get slow ts NaN))) common)"

definition detect_with_volatility ::
  "uuid \<Rightarrow> nat \<Rightarrow> nat \<Rightarrow> nat \<Rightarrow> float64 \<Rightarrow> candle list \<Rightarrow> ((datetime \<times> regime) \<times> bool) list" where
  "detect_with_volatility market fast_window slow_window vol_window vol_multiplier cs =
     (let rs = detect_regimes market fast_window slow_window cs;
          atrs = compute_atr market cs vol_window in
      if rs = [] then []
      else if atrs = [] then map (\<lambda>r. (r, False)) rs
      else
      let atr_mean = fquot (py_sum (map id_value atrs)) (rnd (of_nat (length atrs)));
          by_ts = dict_of id_timestamp id_value atrs in
      map (\<lambda>r. (r, atr_mean * vol_multiplier < dict_get by_ts (fst r) 0))
        (filter (\<lambda>r. fst r \<in> set (dict_keys by_ts)) rs))"

subsection \<open>No indicator repaints\<close>

lemma window_at_append:
  "i < length cs \<Longrightarrow> n - 1 \<le> i \<Longrightarrow> window_at n i (cs @ ds) = window_at n i cs"
  by (auto simp: window_at_def)

lemma length_window_at: "i < length cs \<Longrightarrow> n \<le> i + 1 \<Longrightarrow> length (window_at n i cs) = n"
  by (simp add: window_at_def)

lemma prefix_map_upt: "(\<And>i. k \<le> i \<Longrightarrow> i < a \<Longrightarrow> f i = g i) \<Longrightarrow> prefix (map f [k..<a]) (map g [k..<a + b])"
proof (cases "k \<le> a")
  case True
  assume "\<And>i. k \<le> i \<Longrightarrow> i < a \<Longrightarrow> f i = g i"
  then have "map f [k..<a] = map g [k..<a]" by simp
  then show ?thesis by (metis upt_add_eq_append [OF True] map_append prefixI)
qed simp

lemma series_prefix:
  assumes "\<And>i. k \<le> i \<Longrightarrow> i < length cs \<Longrightarrow> v' i = v i"
  shows "prefix (series m nm k v cs) (series m nm k v' (cs @ ds))"
  unfolding series_def length_append using assms by (intro prefix_map_upt) (simp add: nth_append)

lemma sma_prefix: "prefix (compute_sma m cs n) (compute_sma m (cs @ ds) n)"
  by (auto simp: compute_sma_def window_at_append intro!: series_prefix)

lemma ema_prefix: "prefix (compute_ema m cs n) (compute_ema m (cs @ ds) n)"
  by (auto simp: compute_ema_def ema_at_def intro!: series_prefix)

lemma rsi_prefix: "prefix (compute_rsi m cs n) (compute_rsi m (cs @ ds) n)"
  by (auto simp: compute_rsi_def window_at_append intro!: series_prefix)

lemma atr_prefix: "prefix (compute_atr m cs n) (compute_atr m (cs @ ds) n)"
  by (auto simp: compute_atr_def window_at_append intro!: series_prefix)

lemma mapr_append: "mapr f (xs @ ys) = rbind (mapr f xs) (\<lambda>a. rbind (mapr f ys) (\<lambda>b. Inr (a @ b)))"
proof (induction xs)
  case Nil
  show ?case by (cases "mapr f ys") simp_all
next
  case (Cons x xs)
  then show ?case by (cases "f x"; cases "mapr f xs"; cases "mapr f ys") simp_all
qed

lemma mapr_cong: "(\<And>x. x \<in> set xs \<Longrightarrow> f x = g x) \<Longrightarrow> mapr f xs = mapr g xs"
  by (induction xs) auto

lemma mapr_prefix:
  assumes "mapr g (xs @ ys) = Inr zs" and "\<And>x. x \<in> set xs \<Longrightarrow> f x = g x"
  obtains as bs where "mapr f xs = Inr as" and "zs = as @ bs"
  using assms mapr_cong [of xs f g] by (auto simp: mapr_append elim!: rbind_eq_InrE)

lemma mapr_length: "mapr f xs = Inr ys \<Longrightarrow> length ys = length xs"
  using mapr_InrD list_all2_lengthD by fastforce

lemma bollinger_prefix:
  assumes "compute_bollinger_bands m (cs @ ds) n k = Inr b"
  shows "\<exists>b'. compute_bollinger_bands m cs n k = Inr b' \<and> prefix (bb_middle b') (bb_middle b) \<and>
           prefix (bb_upper b') (bb_upper b) \<and> prefix (bb_lower b') (bb_lower b)"
proof (cases "cs = [] \<or> n < 1")
  case True
  then show ?thesis using assms by (auto simp: compute_bollinger_bands_def)
next
  case False
  let ?f = "\<lambda>cs i. mean_std n (map cn_close (window_at n i cs))"
  let ?I = "[n - 1..<length cs]"
  obtain js where js: "[n - 1..<length cs + length ds] = ?I @ js"
    using upt_add_eq_append [of "n - 1" "length cs" "length ds"] by (cases "n - 1 \<le> length cs") auto
  from assms False obtain zs where zs: "mapr (?f (cs @ ds)) [n - 1..<length cs + length ds] = Inr zs"
    and b: "b = \<lparr>bb_middle = series m (windowed ''bb_middle_'' n) (n - 1) (\<lambda>i. fst (zs ! (i + 1 - n))) (cs @ ds),
      bb_upper = series m (windowed ''bb_upper_'' n) (n - 1) (\<lambda>i. (\<lambda>(m, s). m + k * s) (zs ! (i + 1 - n))) (cs @ ds),
      bb_lower = series m (windowed ''bb_lower_'' n) (n - 1) (\<lambda>i. (\<lambda>(m, s). m - k * s) (zs ! (i + 1 - n))) (cs @ ds)\<rparr>"
    by (auto simp: compute_bollinger_bands_def elim!: rbind_eq_InrE)
  from zs [unfolded js] obtain as bs where as: "mapr (?f cs) ?I = Inr as" "zs = as @ bs"
    by (rule mapr_prefix) (auto simp: window_at_append)
  have "length as = length cs + 1 - n" using mapr_length [OF as(1)] False by auto
  with as False show ?thesis
    by (auto simp: b compute_bollinger_bands_def Let_def nth_append intro!: series_prefix)
qed

lemma stochastics_prefix:
  "prefix (st_k (compute_stochastics m cs kn dn)) (st_k (compute_stochastics m (cs @ ds) kn dn)) \<and>
   prefix (st_d (compute_stochastics m cs kn dn)) (st_d (compute_stochastics m (cs @ ds) kn dn))"
proof (cases "cs = [] \<or> kn < 1 \<or> dn < 1")
  case True
  then show ?thesis by (auto simp: compute_stochastics_def)
next
  case False
  let ?ks = "\<lambda>cs. map (\<lambda>i. stoch_k (window_at kn i cs)) [kn - 1..<length cs]"
  have "prefix (?ks cs) (?ks (cs @ ds))"
    unfolding length_append by (rule prefix_map_upt) (simp add: window_at_append)
  then obtain zs where zs: "?ks (cs @ ds) = ?ks cs @ zs" by (auto elim: prefixE)
  have k: "prefix (series m nm (kn - 1) (\<lambda>i. ?ks cs ! (i + 1 - kn)) cs)
      (series m nm (kn - 1) (\<lambda>i. ?ks (cs @ ds) ! (i + 1 - kn)) (cs @ ds))" for nm
    unfolding zs using False by (intro series_prefix) (auto simp: nth_append)
  have "length (?ks cs) = length cs + 1 - kn" using False by auto
  with False have d: "prefix (map (\<lambda>j. \<lparr>id_market = m, id_timestamp = cn_timestamp (cs ! (j + kn - 1)), id_name = nm,
        id_value = over dn (take dn (drop (j + 1 - dn) (?ks cs)))\<rparr>) [dn - 1..<length (?ks cs)])
      (map (\<lambda>j. \<lparr>id_market = m, id_timestamp = cn_timestamp ((cs @ ds) ! (j + kn - 1)), id_name = nm,
        id_value = over dn (take dn (drop (j + 1 - dn) (?ks cs @ zs)))\<rparr>) [dn - 1..<length (?ks cs) + length zs])" for nm
    by (intro prefix_map_upt) (auto simp: nth_append)
  from k d [folded length_append, folded zs] False show ?thesis by (simp add: compute_stochastics_def Let_def)
qed

text \<open>
  No indicator repaints: whatever candles follow, the values of a shorter series are exactly
  the first values of the longer one, for every average, oscillator and band.
\<close>

theorem indicators_never_repaint:
  "prefix (compute_sma m cs n) (compute_sma m (cs @ ds) n) \<and>
   prefix (compute_ema m cs n) (compute_ema m (cs @ ds) n) \<and>
   prefix (compute_rsi m cs n) (compute_rsi m (cs @ ds) n) \<and>
   prefix (compute_atr m cs n) (compute_atr m (cs @ ds) n) \<and>
   prefix (st_k (compute_stochastics m cs n d)) (st_k (compute_stochastics m (cs @ ds) n d)) \<and>
   prefix (st_d (compute_stochastics m cs n d)) (st_d (compute_stochastics m (cs @ ds) n d)) \<and>
   (case (compute_bollinger_bands m cs n k, compute_bollinger_bands m (cs @ ds) n k) of
      (Inr b, Inr b') \<Rightarrow> prefix (bb_middle b) (bb_middle b') \<and> prefix (bb_upper b) (bb_upper b') \<and>
        prefix (bb_lower b) (bb_lower b')
    | (Inl _, Inr _) \<Rightarrow> False
    | _ \<Rightarrow> True)"
  using sma_prefix [of m cs n ds] ema_prefix [of m cs n ds] rsi_prefix [of m cs n ds] atr_prefix [of m cs n ds]
    stochastics_prefix [of m cs n d ds] bollinger_prefix [of m cs ds n k]
  by (auto split: sum.split)

subsection \<open>The relative strength index is a percentage\<close>

text \<open>A price far below the overflow threshold, so that a window of them cannot overflow.\<close>

definition big :: rat where "big = 2 ^ 1000"

definition plain_price :: "float64 \<Rightarrow> bool" where
  "plain_price x = (0 \<le> x \<and> x \<le> Fin big)"

lemma big_pos: "0 < big" by (simp add: big_def)

lemma rnd_multiple: "\<bar>k\<bar> \<le> 2 ^ 23 \<Longrightarrow> rnd (of_int k * big) = Fin (of_int k * big)"
proof -
  assume k: "\<bar>k\<bar> \<le> 2 ^ 23"
  have r: "round_grid (of_int k * big) = of_int k * big"
    using round_grid_exact [of k 1000] k by (simp add: big_def)
  have "(of_int \<bar>k\<bar> :: rat) \<le> of_int (2 ^ 23)" using k by (simp only: of_int_le_iff)
  then have "\<bar>of_int k\<bar> * big \<le> 2 ^ 23 * big" by (intro mult_right_mono) (simp_all add: big_def)
  moreover have "(2 :: rat) ^ 23 * big < 2 ^ 1024" by (simp add: big_def)
  ultimately have "\<bar>of_int k * big\<bar> < 2 ^ 1024" by (simp add: abs_mult big_def)
  then show ?thesis by (auto simp: rnd_def Let_def r)
qed

lemma change_bounds:
  assumes "plain_price a" and "plain_price b"
  obtains c where "b - a = Fin c" and "\<bar>c\<bar> \<le> big"
proof -
  obtain r s where rs: "a = Fin r" "b = Fin s" "0 \<le> r" "r \<le> big" "0 \<le> s" "s \<le> big"
    using assms by (cases a; cases b) (auto simp: plain_price_def zero_eq_Fin)
  then have "rnd (of_int (- 1) * big) \<le> rnd (s - r)" "rnd (s - r) \<le> rnd (of_int 1 * big)"
    by (intro rnd_mono; simp)+
  then have "Fin (- big) \<le> rnd (s - r)" "rnd (s - r) \<le> Fin big"
    using rnd_multiple [of 1] rnd_multiple [of "- 1"] by simp_all
  with rs that show thesis by (cases "rnd (s - r)") auto
qed

lemma gain_bound:
  assumes "x = Fin a" "0 \<le> a" "a \<le> of_nat k * big" "0 \<le> c" "c \<le> big" "Suc k \<le> 2 ^ 23"
  obtains a' where "x + Fin c = Fin a'" "0 \<le> a'" "a' \<le> of_nat (Suc k) * big"
proof -
  have "rnd 0 \<le> rnd (a + c)" "rnd (a + c) \<le> rnd (of_int (int (Suc k)) * big)"
    using assms by (intro rnd_mono; simp add: algebra_simps)+
  then show thesis
    using rnd_multiple [of "int (Suc k)"] assms(1,6) that by (cases "rnd (a + c)") auto
qed

lemma count_le: "k \<le> 2 ^ 23 \<Longrightarrow> x \<le> of_nat k * big \<Longrightarrow> x \<le> 2 ^ 23 * big"
proof -
  assume k: "k \<le> 2 ^ 23" and x: "x \<le> of_nat k * big"
  have "(of_nat k :: rat) \<le> of_nat (2 ^ 23)" using k by (simp only: of_nat_le_iff)
  then have "of_nat k * big \<le> 2 ^ 23 * big" using big_pos by (intro mult_right_mono) simp_all
  with x show ?thesis by (rule order_trans)
qed

lemma gains_losses_bounds:
  assumes "list_all plain_price closes" and "k + length closes \<le> 2 ^ 23"
    and "gl = (Fin g, Fin l)" "0 \<le> g" "g \<le> of_nat k * big" "0 \<le> l" "l \<le> of_nat k * big"
  shows "\<exists>g' l'. gains_losses closes gl = (Fin g', Fin l') \<and> 0 \<le> g' \<and> g' \<le> 2 ^ 23 * big \<and> 0 \<le> l' \<and> l' \<le> 2 ^ 23 * big"
  using assms
proof (induction closes arbitrary: k g l gl rule: induct_list012)
  case (3 a b closes)
  obtain c where c: "b - a = Fin c" "\<bar>c\<bar> \<le> big" using "3.prems"(1) change_bounds [of a b] by auto
  have step: "x \<le> of_nat (Suc k) * big" if "x \<le> of_nat k * big" for x
    using that big_pos by (simp add: algebra_simps)
  show ?case
  proof (cases "0 < c")
    case True
    obtain g' where g': "Fin g + Fin c = Fin g'" "0 \<le> g'" "g' \<le> of_nat (Suc k) * big"
      using gain_bound [of "Fin g" g k c] "3.prems" c True by auto
    show ?thesis
      using "3.IH"(2) [of "Suc k" "(Fin g', Fin l)" g' l] "3.prems" True c g' step [of l] by (simp add: zero_eq_Fin)
  next
    case False
    obtain l' where l': "Fin l + Fin (- c) = Fin l'" "0 \<le> l'" "l' \<le> of_nat (Suc k) * big"
      using gain_bound [of "Fin l" l k "- c"] "3.prems" c False by auto
    then have "Fin l - Fin c = Fin l'" by simp
    with l' show ?thesis
      using "3.IH"(2) [of "Suc k" "(Fin g, Fin l')" g l'] "3.prems" False c step [of g] by (simp add: zero_eq_Fin)
  qed
next
  case 1
  then show ?case using count_le [of k] by simp
next
  case (2 a)
  then show ?case using count_le [of k] by simp
qed

lemma rnd_hundred: "0 \<le> x \<Longrightarrow> x \<le> 100 \<Longrightarrow> \<exists>q. rnd x = Fin q \<and> 0 \<le> q \<and> q \<le> 100"
  using rnd_mono [of 0 x] rnd_mono [of x 100] rnd_of_int [of 100] by (cases "rnd x") auto

lemma average_bounds:
  assumes "0 \<le> x" "x \<le> 2 ^ 23 * big" "1 \<le> n" "n \<le> 2 ^ 23"
  obtains q where "fquot (Fin x) (rnd (of_nat n)) = Fin q" "0 \<le> q"
proof -
  have "x / of_nat n \<le> x" using mult_left_mono [of 1 "of_nat n" x] assms by (simp add: divide_le_eq)
  then have "rnd 0 \<le> rnd (x / of_nat n)" "rnd (x / of_nat n) \<le> rnd (of_int (2 ^ 23) * big)"
    using assms by (intro rnd_mono; simp)+
  then show thesis
    using rnd_multiple [of "2 ^ 23"] rnd_of_nat [of n] assms(4) that by (cases "rnd (x / of_nat n)") auto
qed

lemma rsi_of_bounds:
  assumes "0 \<le> g" "g \<le> 2 ^ 23 * big" "0 \<le> l" "l \<le> 2 ^ 23 * big" "1 \<le> n" "n \<le> 2 ^ 23"
  shows "Fin 0 \<le> rsi_of n (Fin g, Fin l) \<and> rsi_of n (Fin g, Fin l) \<le> Fin 100"
proof -
  obtain ag where ag: "fquot (Fin g) (rnd (of_nat n)) = Fin ag" "0 \<le> ag"
    using assms(1,2,5,6) by (rule average_bounds)
  obtain al where al: "fquot (Fin l) (rnd (of_nat n)) = Fin al" "0 \<le> al"
    using assms(3,4,5,6) by (rule average_bounds)
  show ?thesis
  proof (cases "al = 0")
    case True
    then show ?thesis by (simp add: rsi_of_def ag al zero_eq_Fin)
  next
    case False
    have "rnd 0 \<le> rnd (ag / al)" using ag al by (intro rnd_mono) simp
    then have sum: "(\<exists>y. 1 + rnd (ag / al) = Fin y \<and> 1 \<le> y) \<or> 1 + rnd (ag / al) = PosInf"
    proof (cases "rnd (ag / al)")
      case (Fin rs)
      with \<open>rnd 0 \<le> _\<close> have "rnd 1 \<le> rnd (1 + rs)" by (intro rnd_mono) simp
      then show ?thesis by (cases "rnd (1 + rs)") (auto simp: Fin one_eq_Fin)
    qed (auto simp: plus_float64_def one_eq_Fin)
    have "\<exists>q. fquot (Fin 100) (1 + rnd (ag / al)) = Fin q \<and> 0 \<le> q \<and> q \<le> 100"
      using sum
    proof
      assume "\<exists>y. 1 + rnd (ag / al) = Fin y \<and> 1 \<le> y"
      then show ?thesis using rnd_hundred [of "100 / y" for y] by (auto simp: field_simps)
    qed simp
    then obtain q where q: "fquot (Fin 100) (1 + rnd (ag / al)) = Fin q" "0 \<le> q" "q \<le> 100" by blast
    then show ?thesis using rnd_hundred [of "100 - q"] False by (auto simp: rsi_of_def ag al zero_eq_Fin Let_def)
  qed
qed

lemma list_all_window: "list_all P (map f cs) \<Longrightarrow> list_all P (map f (window_at n i cs))"
  by (auto simp: window_at_def list_all_iff dest!: in_set_takeD in_set_dropD)

text \<open>
  The relative strength index is a percentage: for closes that are prices (not negative, and
  at most 2 to the 1000) and a window of at most eight million bars, every value lies
  between 0 and 100 and none is NaN.
\<close>

theorem rsi_is_a_percentage:
  assumes "list_all (\<lambda>c. plain_price (cn_close c)) cs" and "n < 2 ^ 23"
  shows "list_all (\<lambda>x. Fin 0 \<le> id_value x \<and> id_value x \<le> Fin 100) (compute_rsi m cs n)"
proof (cases "cs = [] \<or> n < 1")
  case True
  then show ?thesis by (auto simp: compute_rsi_def)
next
  case False
  have "Fin 0 \<le> rsi_of n (gains_losses (map cn_close (window_at (n + 1) i cs)) (0, 0)) \<and>
      rsi_of n (gains_losses (map cn_close (window_at (n + 1) i cs)) (0, 0)) \<le> Fin 100" for i
  proof -
    have "list_all plain_price (map cn_close (window_at (n + 1) i cs))"
      using assms(1) by (intro list_all_window) (simp add: list.pred_map comp_def)
    moreover have "length (map cn_close (window_at (n + 1) i cs)) \<le> n + 1" by (simp add: window_at_def)
    ultimately obtain g l where "gains_losses (map cn_close (window_at (n + 1) i cs)) (0, 0) = (Fin g, Fin l)"
      "0 \<le> g" "g \<le> 2 ^ 23 * big" "0 \<le> l" "l \<le> 2 ^ 23 * big"
      using gains_losses_bounds [of _ 0 "(0, 0)" 0 0] assms(2) by (force simp: zero_eq_Fin)
    then show ?thesis using rsi_of_bounds [of g l n] False assms(2) by simp
  qed
  then show ?thesis using False by (simp add: compute_rsi_def series_def list_all_iff)
qed

definition two_closes :: "candle list" where
  "two_closes = [\<lparr>cn_open = 1, cn_high = 1, cn_low = 1, cn_close = 1, cn_volume = 1, cn_timestamp = 1\<rparr>,
     \<lparr>cn_open = 1, cn_high = 1, cn_low = 1, cn_close = 1, cn_volume = 1, cn_timestamp = 2\<rparr>]"

theorem rsi_is_a_percentage_witness:
  "list_all (\<lambda>x. Fin 0 \<le> id_value x \<and> id_value x \<le> Fin 100) (compute_rsi ''m'' two_closes 1) \<and>
   length (compute_rsi ''m'' two_closes 1) = 1"
proof -
  have "plain_price 1" by (simp add: plain_price_def one_eq_Fin zero_eq_Fin big_def)
  then have "list_all (\<lambda>c. plain_price (cn_close c)) two_closes" by (simp add: two_closes_def)
  from rsi_is_a_percentage [OF this, of 1 "''m''"] show ?thesis
    by (simp add: compute_rsi_def series_def two_closes_def)
qed

subsection \<open>The dictionaries of the regime detection are transparent on distinct instants\<close>

lemma dict_of_snoc: "dict_of key val (xs @ [x]) = AList.update (key x) (val x) (dict_of key val xs)"
  by (simp add: dict_of_def)

lemma dict_of_distinct: "distinct (map key xs) \<Longrightarrow> dict_of key val xs = map (\<lambda>x. (key x, val x)) xs"
proof (induction xs rule: rev_induct)
  case Nil
  then show ?case by (simp add: dict_of_def)
next
  case (snoc x xs)
  then have "key x \<notin> set (dict_keys (map (\<lambda>x. (key x, val x)) xs))" by (simp add: image_image)
  with snoc show ?case by (simp add: dict_of_snoc update_new)
qed

lemma dict_get_upt:
  assumes "distinct (map ts [a..<n])" and "a \<le> i" and "i < n"
  shows "dict_get (map (\<lambda>i. (ts i, v i)) [a..<n]) (ts i) d = v i"
proof -
  have "map_of (map (\<lambda>i. (ts i, v i)) [a..<n]) (ts i) = Some (v i)"
    using assms by (intro map_of_is_SomeI) (auto simp: comp_def)
  then show ?thesis by (simp add: dict_get_def)
qed

lemma series_dict:
  assumes "distinct (map cn_timestamp cs)"
  shows "dict_of id_timestamp id_value (series m nm a v cs) = map (\<lambda>i. (cn_timestamp (cs ! i), v i)) [a..<length cs]"
proof -
  have "distinct (map (\<lambda>i. cn_timestamp (cs ! i)) [a..<length cs])"
    using assms by (auto simp: distinct_map inj_on_def distinct_conv_nth)
  then show ?thesis by (subst dict_of_distinct) (simp_all add: series_def comp_def)
qed

lemma close_dict:
  assumes "distinct (map cn_timestamp cs)"
  shows "dict_of cn_timestamp cn_close cs = map (\<lambda>i. (cn_timestamp (cs ! i), cn_close (cs ! i))) [0..<length cs]"
  unfolding dict_of_distinct [OF assms] by (rule nth_equalityI) simp_all

definition regime_at :: "nat \<Rightarrow> nat \<Rightarrow> candle list \<Rightarrow> nat \<Rightarrow> regime" where
  "regime_at f s cs i =
     classify (cn_close (cs ! i)) (over f (map cn_close (window_at f i cs))) (over s (map cn_close (window_at s i cs)))"

lemma filter_upt: "a \<le> n \<Longrightarrow> filter (\<lambda>i. b \<le> i) [a..<n] = [max a b..<n]"
  by (induction n) (auto simp: max_def le_Suc_eq)

text \<open>
  The regime detection is what it looks like: on candles with increasing instants the three
  dictionaries and the sorting are transparent, and the result at each bar is the
  classification of its close and its two averages, from the first bar where both exist.
\<close>

theorem detect_regimes_direct:
  assumes inc: "sorted_wrt (<) (map cn_timestamp cs)" and f: "1 \<le> f" and s: "1 \<le> s" "s \<le> length cs"
  shows "detect_regimes m f s cs =
           map (\<lambda>i. (cn_timestamp (cs ! i), regime_at f s cs i)) [max f s - 1..<length cs]"
proof -
  let ?ts = "\<lambda>i. cn_timestamp (cs ! i)" and ?n = "length cs"
  have inj: "?ts i = ?ts j \<longleftrightarrow> i = j" if "i < ?n" "j < ?n" for i j
    using inc that by (metis (no_types, lifting) length_map less_irrefl linorder_neqE_nat nth_map sorted_wrt_iff_nth_less)
  have dist: "distinct (map ?ts [a..<?n])" for a by (auto simp: distinct_map inj_on_def inj)
  have dcs: "distinct (map cn_timestamp cs)" using inj by (simp add: distinct_conv_nth)
  have ne: "cs \<noteq> []" using s by auto
  define F where "F = map (\<lambda>i. (?ts i, over f (map cn_close (window_at f i cs)))) [f - 1..<?n]"
  define S where "S = map (\<lambda>i. (?ts i, over s (map cn_close (window_at s i cs)))) [s - 1..<?n]"
  define C where "C = map (\<lambda>i. (?ts i, cn_close (cs ! i))) [0..<?n]"
  have "filter (\<lambda>ts. ts \<in> set (dict_keys S) \<and> ts \<in> set (dict_keys C)) (dict_keys F) = map ?ts (filter (\<lambda>i. s - 1 \<le> i) [f - 1..<?n])"
    by (auto simp: F_def S_def C_def filter_map comp_def inj image_iff intro!: arg_cong [where f = "map ?ts"] filter_cong)
  also have "\<dots> = map ?ts [max f s - 1..<?n]"
  proof (cases "f - 1 \<le> ?n")
    case True
    then show ?thesis using filter_upt [OF True, of "s - 1"] f s by (simp add: max_def)
  qed auto
  finally have common: "filter (\<lambda>ts. ts \<in> set (dict_keys S) \<and> ts \<in> set (dict_keys C)) (dict_keys F) = map ?ts [max f s - 1..<?n]" .
  have "sorted_wrt (<) (map ?ts [max f s - 1..<?n])"
    using inc by (auto simp: sorted_wrt_iff_nth_less)
  then have sorted: "sort (map ?ts [max f s - 1..<?n]) = map ?ts [max f s - 1..<?n]"
    by (intro sorted_sort_id) (simp add: strict_sorted_iff)
  have look: "dict_get F (?ts i) NaN = over f (map cn_close (window_at f i cs))"
    "dict_get S (?ts i) NaN = over s (map cn_close (window_at s i cs))" "dict_get C (?ts i) NaN = cn_close (cs ! i)"
    if "max f s - 1 \<le> i" "i < ?n" for i
    using that unfolding F_def S_def C_def
    by (intro dict_get_upt [OF dist, where v = "\<lambda>i. over f (map cn_close (window_at f i cs))"]
        dict_get_upt [OF dist, where v = "\<lambda>i. over s (map cn_close (window_at s i cs))"]
        dict_get_upt [OF dist, where v = "\<lambda>i. cn_close (cs ! i)"]; simp)+
  have dicts: "dict_of id_timestamp id_value (compute_sma m cs f) = F"
    "dict_of id_timestamp id_value (compute_sma m cs s) = S" "dict_of cn_timestamp cn_close cs = C"
    using ne f s by (simp_all add: compute_sma_def series_dict [OF dcs] close_dict [OF dcs] F_def S_def C_def)
  have "detect_regimes m f s cs =
      map (\<lambda>ts. (ts, classify (dict_get C ts NaN) (dict_get F ts NaN) (dict_get S ts NaN))) (map ?ts [max f s - 1..<?n])"
    unfolding detect_regimes_def Let_def dicts common sorted using ne s by simp
  then show ?thesis by (auto simp: look regime_at_def)
qed

theorem detect_regimes_direct_witness:
  "detect_regimes ''m'' 1 2 two_closes = [(2, regime_at 1 2 two_closes 1)]"
  using detect_regimes_direct [of two_closes 1 2 "''m''"] by (simp add: two_closes_def upt_rec)

end
