(* ===== verification/ApiAuth.thy ===== *)
theory ApiAuth
  imports Accounts
begin

text \<open>
  Who may call the API: \<open>infrastructure/auth.py\<close> (keys and roles),
  \<open>interfaces/api/security.py\<close> (the boundary and the permission dependencies),
  \<open>interfaces/api/sse_tokens.py\<close> (event-stream tokens), and the
  login, logout and registration handlers of \<open>interfaces/api/server.py\<close> and \<open>retail.py\<close>.

  A request is its path and its three credentials.  The signature function of the tokens is a
  parameter.  An HTTP error is its status code; another exception becomes status 500.
\<close>

subsection \<open>Keys and roles\<close>

datatype role = VIEWER | OPERATOR | ADMIN

datatype permission = READ | OPERATE | ADMINISTER

fun role_rank :: "role \<Rightarrow> nat" where
  "role_rank VIEWER = 0"
| "role_rank OPERATOR = 1"
| "role_rank ADMIN = 2"

fun permission_rank :: "permission \<Rightarrow> nat" where
  "permission_rank READ = 0"
| "permission_rank OPERATE = 1"
| "permission_rank ADMINISTER = 2"

definition role_grants :: "role option \<Rightarrow> permission \<Rightarrow> role option" where
  "role_grants r p = (case r of None \<Rightarrow> None | Some x \<Rightarrow> if permission_rank p \<le> role_rank x then Some x else None)"

definition split_keys :: "string \<Rightarrow> string list" where
  "split_keys v = filter (\<lambda>k. k \<noteq> [] \<and> 8 \<le> length k) (map strip (split_comma v))"

record authenticator =
  au_admin :: "string list"
  au_operator :: "string list"
  au_viewer :: "string list"

definition authenticator_from_env :: "environ \<Rightarrow> authenticator" where
  "authenticator_from_env env =
     (let admin = getenv env ''TRADEROS_ADMIN_API_KEY'' [];
          legacy = getenv env ''TRADEROS_API_KEY'' [] in
      \<lparr>au_admin = split_keys (if admin = [] then legacy else admin),
       au_operator = split_keys (getenv env ''TRADEROS_OPERATOR_API_KEY'' []),
       au_viewer = split_keys (getenv env ''TRADEROS_VIEWER_API_KEY'' [])\<rparr>)"

definition auth_enabled :: "authenticator \<Rightarrow> bool" where
  "auth_enabled au = (au_admin au \<noteq> [] \<or> au_operator au \<noteq> [] \<or> au_viewer au \<noteq> [])"

text \<open>\<open>hmac.compare_digest\<close> on text raises for characters that are not ASCII.\<close>

definition is_ascii :: "string \<Rightarrow> bool" where
  "is_ascii s = list_all (\<lambda>c. char_code c < 128) s"

definition compare_digest :: "string \<Rightarrow> string \<Rightarrow> bool res" where
  "compare_digest a b = (if is_ascii a \<and> is_ascii b then Inr (a = b) else Inl TypeError)"

fun first_match :: "string \<Rightarrow> (role \<times> string) list \<Rightarrow> role option res" where
  "first_match key [] = Inr None"
| "first_match key ((r, candidate) # rest) =
     rbind (compare_digest key candidate) (\<lambda>same. if same then Inr (Some r) else first_match key rest)"

definition role_for_key :: "string option \<Rightarrow> authenticator \<Rightarrow> role option res" where
  "role_for_key key au =
     (case key of
        None \<Rightarrow> Inr None
      | Some k \<Rightarrow>
          if k = [] then Inr None
          else first_match k (map (Pair ADMIN) (au_admin au) @ map (Pair OPERATOR) (au_operator au) @ map (Pair VIEWER) (au_viewer au)))"

definition authorize_key :: "string option \<Rightarrow> permission \<Rightarrow> authenticator \<Rightarrow> role option res" where
  "authorize_key key p au =
     (if \<not> auth_enabled au then Inr (Some ADMIN)
      else rbind (role_for_key key au) (\<lambda>r. Inr (role_grants r p)))"

subsection \<open>Event-stream tokens\<close>

fun split_colon :: "string \<Rightarrow> string list" where
  "split_colon [] = [[]]"
| "split_colon (c # cs) =
     (case split_colon cs of
        [] \<Rightarrow> [[c]]
      | p # ps \<Rightarrow> if c = CHR '':'' then [] # p # ps else (c # p) # ps)"

definition int_text :: "int \<Rightarrow> string" where
  "int_text n = part_text (Z n)"

definition token_payload :: "string \<Rightarrow> int \<Rightarrow> string" where
  "token_payload nonce expiry = ''events'' @ [CHR 0x1F] @ nonce @ [CHR 0x1F] @ int_text expiry"

definition make_token :: "(string \<Rightarrow> string) \<Rightarrow> string \<Rightarrow> int \<Rightarrow> string" where
  "make_token sign nonce expiry =
     ''events:'' @ nonce @ '':'' @ int_text expiry @ '':'' @ sign (token_payload nonce expiry)"

text \<open>\<open>_sweep\<close> drops a quarter of the consumed nonces; which ones is the iteration order of a
  Python set, here the order \<open>pick\<close> lists them in.\<close>

definition sweep :: "(string list \<Rightarrow> string list) \<Rightarrow> string list \<Rightarrow> string list" where
  "sweep pick consumed =
     (let victims = take (min (length consumed div 4) 1024) (pick consumed) in filter (\<lambda>n. n \<notin> set victims) consumed)"

definition mint_token ::
  "(string \<Rightarrow> string) \<Rightarrow> (string list \<Rightarrow> string list) \<Rightarrow> int option \<Rightarrow> int \<Rightarrow> string \<Rightarrow> string list \<Rightarrow> (string \<times> int) \<times> string list" where
  "mint_token sign pick ttl now nonce consumed =
     (let expiry = now + (case ttl of None \<Rightarrow> 60 | Some s \<Rightarrow> max 1 s) in
      ((make_token sign nonce expiry, expiry), sweep pick consumed))"

text \<open>What \<open>peek\<close> and \<open>validate\<close> both read of a token: the nonce when it is signed and fresh.\<close>

definition token_nonce :: "(string \<Rightarrow> string) \<Rightarrow> int \<Rightarrow> string option \<Rightarrow> string option" where
  "token_nonce sign now token =
     (case token of
        None \<Rightarrow> None
      | Some t \<Rightarrow>
          (case split_colon t of
             [scope, nonce, expiry_raw, signature] \<Rightarrow>
               if scope \<noteq> ''events'' \<or> nonce = [] \<or> expiry_raw = [] \<or> signature = [] then None
               else (case parse_int expiry_raw of
                 None \<Rightarrow> None
               | Some expiry \<Rightarrow>
                   if expiry \<le> now then None
                   else if signature = sign (token_payload nonce expiry) then Some nonce else None)
           | _ \<Rightarrow> None))"

definition peek_token :: "(string \<Rightarrow> string) \<Rightarrow> int \<Rightarrow> string option \<Rightarrow> bool" where
  "peek_token sign now token = (token_nonce sign now token \<noteq> None)"

definition validate_token :: "(string \<Rightarrow> string) \<Rightarrow> int \<Rightarrow> string option \<Rightarrow> string list \<Rightarrow> bool \<times> string list" where
  "validate_token sign now token consumed =
     (case token_nonce sign now token of
        None \<Rightarrow> (False, consumed)
      | Some nonce \<Rightarrow> if nonce \<in> set consumed then (False, consumed) else (True, consumed @ [nonce]))"

subsection \<open>The boundary and the dependencies\<close>

record api_state =
  as_accounts :: "accounts option"
  as_authenticator :: authenticator
  as_environ :: environ
  as_sign :: "string \<Rightarrow> string"
  as_consumed :: "string list"

record request =
  rq_path :: string
  rq_session :: "string option"
  rq_key :: "string option"
  rq_token :: "string option"
  rq_now :: datetime
  rq_unix :: int

type_synonym 'a http = "nat + 'a"

definition http_of :: "'a res \<Rightarrow> 'a http" where
  "http_of r = (case r of Inl e \<Rightarrow> Inl 500 | Inr a \<Rightarrow> Inr a)"

fun role_of_user :: "user_role \<Rightarrow> role" where
  "role_of_user AdminRole = ADMIN"
| "role_of_user OperatorRole = OPERATOR"
| "role_of_user ViewerRole = VIEWER"

text \<open>The session resolver of the server; reading an expired session deletes it.\<close>

definition session_role :: "request \<Rightarrow> api_state \<Rightarrow> role option \<times> api_state" where
  "session_role rq st =
     (case rq_session rq of
        None \<Rightarrow> (None, st)
      | Some token \<Rightarrow>
          if token = [] then (None, st)
          else (case as_accounts st of
            None \<Rightarrow> (None, st)
          | Some ac \<Rightarrow>
              (case validate_session (rq_now rq) token ac of
                 (u, ac1) \<Rightarrow> (map_option (role_of_user \<circ> us_role) u, st\<lparr>as_accounts := Some ac1\<rparr>))))"

definition resolve_role :: "request \<Rightarrow> api_state \<Rightarrow> role option http \<times> api_state" where
  "resolve_role rq st =
     (if rq_session rq = None then (Inr None, st)
      else case session_role rq st of (r, st1) \<Rightarrow> (case r of None \<Rightarrow> (Inl 401, st1) | Some x \<Rightarrow> (Inr (Some x), st1)))"

definition current_role :: "request \<Rightarrow> api_state \<Rightarrow> role option http \<times> api_state" where
  "current_role rq st =
     (case resolve_role rq st of
        (Inl s, st1) \<Rightarrow> (Inl s, st1)
      | (Inr (Some r), st1) \<Rightarrow> (Inr (Some r), st1)
      | (Inr None, st1) \<Rightarrow>
          if \<not> auth_enabled (as_authenticator st1) then (Inr None, st1)
          else (rbind (http_of (role_for_key (rq_key rq) (as_authenticator st1)))
                  (\<lambda>r. case r of None \<Rightarrow> Inl 401 | Some x \<Rightarrow> Inr (Some x)), st1))"

definition require_permission :: "permission \<Rightarrow> request \<Rightarrow> api_state \<Rightarrow> role option http \<times> api_state" where
  "require_permission p rq st =
     (case current_role rq st of
        (Inl s, st1) \<Rightarrow> (Inl s, st1)
      | (Inr r, st1) \<Rightarrow>
          (case resolve_role rq st1 of
             (Inl s, st2) \<Rightarrow> (Inl s, st2)
           | (Inr (Some x), st2) \<Rightarrow> ((if role_grants (Some x) p = None then Inl 403 else Inr (Some x)), st2)
           | (Inr None, st2) \<Rightarrow>
               if \<not> auth_enabled (as_authenticator st2) then (Inr None, st2)
               else (rbind (http_of (authorize_key (rq_key rq) p (as_authenticator st2)))
                       (\<lambda>g. if g = None then Inl 403 else Inr r), st2)))"

definition require_sse :: "request \<Rightarrow> api_state \<Rightarrow> unit http \<times> api_state" where
  "require_sse rq st =
     (if rq_token rq \<noteq> None
      then (case validate_token (as_sign st) (rq_unix rq) (rq_token rq) (as_consumed st) of
              (ok, consumed) \<Rightarrow> ((if ok then Inr () else Inl 401), st\<lparr>as_consumed := consumed\<rparr>))
      else case session_role rq st of (r, st1) \<Rightarrow>
        if \<not> auth_enabled (as_authenticator st1) \<and> r = None then (Inr (), st1)
        else (case r of
            Some x \<Rightarrow> ((if role_grants (Some x) READ = None then Inl 403 else Inr ()), st1)
          | None \<Rightarrow>
              (rbind (http_of (role_for_key (rq_key rq) (as_authenticator st1))) (\<lambda>k.
                 if k = None then Inl 401
                 else rbind (http_of (authorize_key (rq_key rq) READ (as_authenticator st1)))
                        (\<lambda>g. if g = None then Inl 403 else Inr ())), st1)))"

definition public_prefixes :: "string list" where
  "public_prefixes = [''/v1/healthz'', ''/v1/auth/me'', ''/v1/auth/login'', ''/v1/health'', ''/v1/retail'']"

definition starts_with :: "string \<Rightarrow> string \<Rightarrow> bool" where
  "starts_with p s = (take (length p) s = p)"

definition public_path :: "string \<Rightarrow> bool" where
  "public_path path = list_ex (\<lambda>p. starts_with p path) public_prefixes"

definition auth_required :: "api_state \<Rightarrow> bool" where
  "auth_required st =
     (auth_enabled (as_authenticator st) \<or> lower (strip (getenv (as_environ st) ''TRADING_MODE'' [])) \<in> {''live'', ''paper''})"

definition enforce_auth_boundary :: "request \<Rightarrow> api_state \<Rightarrow> unit http \<times> api_state" where
  "enforce_auth_boundary rq st =
     (if \<not> auth_required st \<or> \<not> starts_with ''/v1'' (rq_path rq) \<or> public_path (rq_path rq) then (Inr (), st)
      else if rq_path rq = ''/v1/events'' \<and> peek_token (as_sign st) (rq_unix rq) (rq_token rq) then (Inr (), st)
      else case session_role rq st of (r, st1) \<Rightarrow>
        if r \<noteq> None then (Inr (), st1)
        else (rbind (http_of (role_for_key (rq_key rq) (as_authenticator st1))) (\<lambda>k. if k = None then Inl 401 else Inr ()), st1))"

subsection \<open>The credential handlers\<close>

definition parse_role :: "string \<Rightarrow> user_role http" where
  "parse_role r =
     (if r = ''admin'' then Inr AdminRole else if r = ''operator'' then Inr OperatorRole
      else if r = ''viewer'' then Inr ViewerRole else Inl 422)"

definition retail_register :: "draw \<Rightarrow> string \<Rightarrow> string \<Rightarrow> string \<Rightarrow> api_state \<Rightarrow> user http \<times> api_state" where
  "retail_register dw username password role st =
     (case as_accounts st of
        None \<Rightarrow> (Inl 501, st)
      | Some ac \<Rightarrow>
          (case parse_role role of
             Inl s \<Rightarrow> (Inl s, st)
           | Inr r \<Rightarrow>
               (case create_user dw username password r ac of
                  (Inl e, ac1) \<Rightarrow> (Inl 500, st\<lparr>as_accounts := Some ac1\<rparr>)
                | (Inr None, ac1) \<Rightarrow> (Inl 409, st\<lparr>as_accounts := Some ac1\<rparr>)
                | (Inr (Some u), ac1) \<Rightarrow> (Inr u, st\<lparr>as_accounts := Some ac1\<rparr>))))"

text \<open>\<open>retail_login\<close> and \<open>post_auth_login\<close>, which also writes to the orchestrator's audit trail.\<close>

definition api_login :: "datetime \<Rightarrow> string \<Rightarrow> string \<Rightarrow> string \<Rightarrow> api_state \<Rightarrow> string http \<times> api_state" where
  "api_login now raw username password st =
     (case as_accounts st of
        None \<Rightarrow> (Inl 501, st)
      | Some ac \<Rightarrow>
          (case authenticate username password ac of
             ((Some u, True), ac1) \<Rightarrow>
               (case create_user_session now raw u ac1 of
                  (Inl e, ac2) \<Rightarrow> (Inl 500, st\<lparr>as_accounts := Some ac2\<rparr>)
                | (Inr s, ac2) \<Rightarrow> (Inr raw, st\<lparr>as_accounts := Some ac2\<rparr>))
           | (_, ac1) \<Rightarrow> (Inl 401, st\<lparr>as_accounts := Some ac1\<rparr>)))"

definition operator_logout :: "request \<Rightarrow> api_state \<Rightarrow> api_state" where
  "operator_logout rq st =
     (case (as_accounts st, rq_session rq) of
        (Some ac, Some token) \<Rightarrow>
          if token = [] then st
          else st\<lparr>as_accounts := Some (revoke_session token (snd (validate_session (rq_now rq) token ac)))\<rparr>
      | _ \<Rightarrow> st)"

text \<open>A guarded request: the boundary, then the dependency of its route.\<close>

definition guarded :: "permission \<Rightarrow> request \<Rightarrow> api_state \<Rightarrow> role option http \<times> api_state" where
  "guarded p rq st =
     (case enforce_auth_boundary rq st of
        (Inl s, st1) \<Rightarrow> (Inl s, st1)
      | (Inr _, st1) \<Rightarrow> require_permission p rq st1)"

subsection \<open>The boundary fails closed\<close>

lemma first_match_in: "first_match k cs = Inr (Some r) \<Longrightarrow> (r, k) \<in> set cs"
  by (induction k cs rule: first_match.induct) (auto simp: compare_digest_def elim!: rbind_eq_InrE split: if_splits)

lemma key_role_configured:
  "role_for_key key au = Inr (Some r) \<Longrightarrow> auth_enabled au \<and> (\<exists>k. key = Some k \<and> k \<noteq> [] \<and>
     k \<in> set (case r of ADMIN \<Rightarrow> au_admin au | OPERATOR \<Rightarrow> au_operator au | VIEWER \<Rightarrow> au_viewer au))"
  by (auto simp: role_for_key_def auth_enabled_def dest!: first_match_in split: option.splits if_splits)

lemma session_role_Some:
  "session_role rq st = (Some r, st1) \<Longrightarrow> st1 = st \<and> (\<exists>raw. rq_session rq = Some raw \<and> raw \<noteq> [])"
  by (auto simp: session_role_def validate_session_def split: option.splits if_splits prod.splits)

lemma session_role_auth: "as_authenticator (snd (session_role rq st)) = as_authenticator st"
  by (auto simp: session_role_def split: option.splits prod.splits)

lemma resolve_role_cases:
  "resolve_role rq st = (q, st1) \<Longrightarrow>
     (rq_session rq = None \<and> q = Inr None \<and> st1 = st) \<or> (q = Inl 401) \<or>
     (\<exists>r. q = Inr (Some r) \<and> session_role rq st = (Some r, st) \<and> st1 = st)"
  by (auto simp: resolve_role_def dest: session_role_Some split: if_splits prod.splits option.splits)

text \<open>What a permitted request has: a session of a role, or a configured key of a role, that is high enough.\<close>

definition holds_permission :: "permission \<Rightarrow> request \<Rightarrow> api_state \<Rightarrow> role \<Rightarrow> bool" where
  "holds_permission p rq st r \<longleftrightarrow> permission_rank p \<le> role_rank r \<and>
     (session_role rq st = (Some r, st) \<or>
      rq_session rq = None \<and> role_for_key (rq_key rq) (as_authenticator st) = Inr (Some r))"

lemma require_permission_grants:
  assumes "fst (require_permission p rq st) = Inr g" and "auth_enabled (as_authenticator st) \<or> rq_session rq \<noteq> None"
  shows "\<exists>r. g = Some r \<and> holds_permission p rq st r"
proof -
  obtain q st1 where res: "resolve_role rq st = (q, st1)" by fastforce
  from resolve_role_cases [OF res] show ?thesis
  proof (elim disjE exE conjE)
    assume none: "rq_session rq = None" "q = Inr None" "st1 = st"
    with assms res show ?thesis
      by (auto simp: require_permission_def current_role_def http_of_def authorize_key_def holds_permission_def role_grants_def
          elim!: rbind_eq_InrE split: sum.splits option.splits if_splits)
  next
    assume "q = Inl 401"
    with assms res show ?thesis by (simp add: require_permission_def current_role_def)
  next
    fix r assume r: "q = Inr (Some r)" "session_role rq st = (Some r, st)" "st1 = st"
    with assms res show ?thesis
      by (auto simp: require_permission_def current_role_def holds_permission_def role_grants_def split: if_splits)
  qed
qed

lemma boundary_cases:
  assumes "auth_required st" and "starts_with ''/v1'' (rq_path rq)" and "\<not> public_path (rq_path rq)" and "rq_path rq \<noteq> ''/v1/events''"
    and "enforce_auth_boundary rq st = (Inr (), st1)"
  shows "(\<exists>r. session_role rq st = (Some r, st) \<and> st1 = st) \<or>
    (\<exists>r. role_for_key (rq_key rq) (as_authenticator st) = Inr (Some r) \<and> fst (session_role rq st) = None \<and> st1 = snd (session_role rq st))"
proof -
  obtain r st2 where sr: "session_role rq st = (r, st2)" by fastforce
  show ?thesis
  proof (cases r)
    case None
    have "as_authenticator st2 = as_authenticator st" using session_role_auth [of rq st] sr by simp
    then show ?thesis using assms sr None
      by (auto simp: enforce_auth_boundary_def http_of_def elim!: rbind_eq_InrE split: sum.splits if_splits option.splits)
  next
    case (Some x)
    with sr session_role_Some [of rq st x st2] assms show ?thesis by (auto simp: enforce_auth_boundary_def)
  qed
qed

lemma validate_session_stays_None:
  assumes "validate_session now raw ac = (None, ac1)"
  shows "fst (validate_session now raw ac1) = None"
proof (cases "raw = [] \<or> get_user_session (cr_sha256 (ac_crypto ac) raw) (ac_tables ac) = None")
  case True
  with assms show ?thesis by (auto simp: validate_session_def)
next
  case False
  then obtain s where s: "get_user_session (cr_sha256 (ac_crypto ac) raw) (ac_tables ac) = Some s" "raw \<noteq> []" by auto
  then have h: "ss_token_hash s = cr_sha256 (ac_crypto ac) raw" by (auto simp: get_user_session_def find_Some_iff)
  show ?thesis
  proof (cases "ss_expires_at s < now")
    case True
    with assms s h have "ac1 = ac\<lparr>ac_tables := delete_session (cr_sha256 (ac_crypto ac) raw) (ac_tables ac)\<rparr>"
      by (simp add: validate_session_def)
    moreover have "get_user_session k (delete_session k t) = None" for k t
      by (auto simp: get_user_session_def delete_session_def find_None_iff)
    ultimately show ?thesis by (simp add: validate_session_def)
  next
    case False
    with assms s show ?thesis by (auto simp: validate_session_def)
  qed
qed

lemma session_role_stays_None: "session_role rq st = (None, st1) \<Longrightarrow> fst (session_role rq st1) = None"
  by (auto simp: session_role_def dest: validate_session_stays_None split: option.splits if_splits prod.splits)

lemma guarded_grants:
  assumes "auth_required st" and "starts_with ''/v1'' (rq_path rq)" and "\<not> public_path (rq_path rq)" and "rq_path rq \<noteq> ''/v1/events''"
    and "fst (guarded p rq st) = Inr g"
  shows "\<exists>r. g = Some r \<and> holds_permission p rq st r"
proof -
  obtain q st1 where b: "enforce_auth_boundary rq st = (q, st1)" by fastforce
  with assms(5) obtain u where "q = Inr u" by (cases q) (auto simp: guarded_def)
  with b have bb: "enforce_auth_boundary rq st = (Inr (), st1)" by simp
  from boundary_cases [OF assms(1-4) bb] show ?thesis
  proof (elim disjE exE conjE)
    fix r assume s: "session_role rq st = (Some r, st)" "st1 = st"
    then have "rq_session rq \<noteq> None" using session_role_Some [of rq st r st] by auto
    with require_permission_grants [of p rq st g] assms(5) bb s show ?thesis by (simp add: guarded_def)
  next
    fix r assume k: "role_for_key (rq_key rq) (as_authenticator st) = Inr (Some r)" "fst (session_role rq st) = None"
      "st1 = snd (session_role rq st)"
    show ?thesis
    proof (cases "rq_session rq")
      case None
      then have "st1 = st" using k(3) by (simp add: session_role_def)
      with require_permission_grants [of p rq st g] assms(5) bb key_role_configured [OF k(1)] show ?thesis
        by (simp add: guarded_def)
    next
      case (Some tok)
      obtain st2 where st2: "session_role rq st = (None, st2)" using k(2) by (metis prod.collapse)
      have "fst (session_role rq st2) = None" by (rule session_role_stays_None [OF st2])
      then have "resolve_role rq st1 = (Inl 401, snd (session_role rq st1))"
        using st2 k(3) Some by (auto simp: resolve_role_def split: prod.splits)
      with assms(5) bb show ?thesis by (simp add: guarded_def require_permission_def current_role_def)
    qed
  qed
qed

lemma rbind_eq_InlE: "rbind a f = Inl e \<Longrightarrow> (a = Inl e \<Longrightarrow> R) \<Longrightarrow> (\<And>x. a = Inr x \<Longrightarrow> f x = Inl e \<Longrightarrow> R) \<Longrightarrow> R"
  by (cases a) simp_all

lemma http_of_Inl: "http_of a = Inl s \<Longrightarrow> s = 500"
  by (cases a) (simp_all add: http_of_def)

lemma current_role_error: "fst (current_role rq st) = Inl s \<Longrightarrow> s = 401 \<or> s = 500"
  by (auto simp: current_role_def resolve_role_def dest: http_of_Inl elim!: rbind_eq_InlE
      split: if_splits prod.splits sum.splits option.splits)

lemma resolve_role_error: "resolve_role rq st = (Inl s, st1) \<Longrightarrow> s = 401"
  by (auto simp: resolve_role_def split: if_splits prod.splits option.splits)

lemma require_permission_error: "fst (require_permission p rq st) = Inl s \<Longrightarrow> s = 401 \<or> s = 403 \<or> s = 500"
  using current_role_error [of rq st]
  by (auto simp: require_permission_def dest: http_of_Inl resolve_role_error elim!: rbind_eq_InlE
      split: if_splits prod.splits sum.splits option.splits)

lemma boundary_error: "fst (enforce_auth_boundary rq st) = Inl s \<Longrightarrow> s = 401 \<or> s = 500"
  by (auto simp: enforce_auth_boundary_def dest: http_of_Inl elim!: rbind_eq_InlE split: if_splits prod.splits option.splits)

lemma guarded_error_status: "fst (guarded p rq st) = Inl s \<Longrightarrow> s = 401 \<or> s = 403 \<or> s = 500"
  using boundary_error [of rq st] require_permission_error [of p rq]
  by (auto simp: guarded_def split: prod.splits sum.splits)

text \<open>
  C9. The operator surface fails closed: whenever authentication is required (a key is configured,
  or the mode is live or paper), a request to any path under \<open>/v1\<close> outside the public prefixes
  and the event stream gets past the boundary and its route's dependency only with a role that
  has the permission, taken from a valid session or from a configured key.
\<close>

theorem operator_surface_fails_closed:
  assumes "auth_required st" and "starts_with ''/v1'' (rq_path rq)" and "\<not> public_path (rq_path rq)" and "rq_path rq \<noteq> ''/v1/events''"
  shows "case fst (guarded p rq st) of
      Inl s \<Rightarrow> s = 401 \<or> s = 403 \<or> s = 500
    | Inr None \<Rightarrow> False
    | Inr (Some r) \<Rightarrow> holds_permission p rq st r"
  using guarded_grants [OF assms] guarded_error_status [of p rq st] by (auto split: sum.splits option.splits)

definition sample_api :: api_state where
  "sample_api = \<lparr>as_accounts = None, as_authenticator = \<lparr>au_admin = [], au_operator = [''operator1''], au_viewer = [''viewer01'']\<rparr>,
     as_environ = [], as_sign = (\<lambda>t. ''5f''), as_consumed = []\<rparr>"

definition key_request :: "string \<Rightarrow> request" where
  "key_request key = \<lparr>rq_path = ''/v1/orders'', rq_session = None, rq_key = Some key, rq_token = None, rq_now = 0, rq_unix = 0\<rparr>"

lemma sample_guarded:
  "guarded OPERATE (key_request ''operator1'') sample_api = (Inr (Some OPERATOR), sample_api)"
  "guarded OPERATE (key_request ''viewer01'') sample_api = (Inl 403, sample_api)"
  by (simp_all add: guarded_def enforce_auth_boundary_def require_permission_def current_role_def resolve_role_def session_role_def
      role_for_key_def compare_digest_def is_ascii_def char_code_def authorize_key_def role_grants_def http_of_def
      sample_api_def key_request_def auth_required_def auth_enabled_def starts_with_def public_path_def public_prefixes_def)

theorem operator_surface_fails_closed_witness:
  "holds_permission OPERATE (key_request ''operator1'') sample_api OPERATOR \<and>
   fst (guarded OPERATE (key_request ''viewer01'') sample_api) = Inl 403"
  using operator_surface_fails_closed [of sample_api "key_request ''operator1''" OPERATE] sample_guarded
  by (simp add: auth_required_def auth_enabled_def starts_with_def public_path_def public_prefixes_def)
     (simp add: sample_api_def key_request_def)

subsection \<open>Who can become an operator\<close>

text \<open>
  The permissions are self-service: the registration route lies under a public prefix, needs no
  credential and takes the role from its body, so any caller registers as an administrator, logs
  in and is an administrator on every guarded route of the operator surface.
\<close>

theorem anyone_registers_as_admin:
  assumes "as_accounts st = Some ac" and "0 < ac_iterations ac" and "raw \<noteq> []"
    and "strip name = name" and "retail_register dw name password ''admin'' st = (Inr u, st1)"
    and "api_login now raw name password st1 = (Inr token, st2)"
    and "rq_session rq = Some token" and "rq_now rq \<le> now + ac_ttl ac * 1000000"
  shows "public_path ''/v1/retail/register'' \<and> public_path ''/v1/retail/login'' \<and>
     fst (guarded p rq st2) = Inr (Some ADMIN)"
proof -
  obtain ac1 where c: "create_user dw name password AdminRole ac = (Inr (Some u), ac1)" and st1: "as_accounts st1 = Some ac1"
    using assms(1,5) by (auto simp: retail_register_def parse_role_def split: prod.splits sum.splits option.splits)
  obtain v ac2 s ac3 where a: "authenticate name password ac1 = ((Some v, True), ac2)"
    and s: "create_user_session now raw v ac2 = (Inr s, ac3)" and st2: "as_accounts st2 = Some ac3" "token = raw"
    using assms(6) st1 by (auto simp: api_login_def split: prod.splits option.splits sum.splits if_splits bool.splits)
  have "insert_user u (ac_tables ac) = (Inr (), ac_tables ac1)" "us_username u = name" "us_role u = AdminRole"
    using c assms(4) by (auto simp: create_user_def Let_def split: if_splits prod.splits sum.splits)
  then have "get_user_by_username name (ac_tables ac1) = Some u" and role: "us_role u = AdminRole"
    using get_inserted_user by fastforce+
  then have v: "v = u" using a by (auto simp: authenticate_def Let_def split: if_splits)
  have "fst (validate_session (rq_now rq) raw ac3) = Some u"
    using registration_login_session_round_trip [OF c assms(2), of "Some v" True ac2 now raw s ac3 "rq_now rq"] a s v assms
    by auto
  then have "session_role rq st2 = (Some ADMIN, st2)"
    using st2 assms(3,7) role session_role_Some [of rq st2 ADMIN "snd (session_role rq st2)"]
    by (auto simp: session_role_def split: prod.splits)
  then show ?thesis
    using assms(7) by (auto simp: guarded_def enforce_auth_boundary_def require_permission_def current_role_def resolve_role_def
        role_grants_def public_path_def public_prefixes_def starts_with_def; cases p; simp)
qed

definition open_api :: api_state where
  "open_api = sample_api\<lparr>as_accounts := Some (new_accounts plain_crypto None)\<rparr>"

definition token_request :: "string \<Rightarrow> request" where
  "token_request token = \<lparr>rq_path = ''/v1/flatten'', rq_session = Some token, rq_key = None, rq_token = None, rq_now = 5, rq_unix = 0\<rparr>"

theorem anyone_registers_as_admin_witness:
  "\<exists>st2. fst (guarded ADMINISTER (token_request ''tok'') st2) = Inr (Some ADMIN) \<and> auth_required st2 \<and>
     as_authenticator st2 = as_authenticator open_api"
proof -
  have strip: "strip ''eve'' = ''eve''" by (simp add: strip_def is_space_def char_code_def)
  have ac: "as_accounts open_api = Some (new_accounts plain_crypto None)" by (simp add: open_api_def)
  obtain u st1 where r: "retail_register sample_draw ''eve'' ''pw'' ''admin'' open_api = (Inr u, st1)"
    by (simp add: retail_register_def parse_role_def ac create_user_def strip new_accounts_def get_user_by_username_def
        insert_user_def Let_def)
  obtain token st2 where l: "api_login 0 ''tok'' ''eve'' ''pw'' st1 = (Inr token, st2)"
    using r by (auto simp: retail_register_def parse_role_def ac create_user_def strip new_accounts_def get_user_by_username_def
        insert_user_def Let_def api_login_def authenticate_def verify_password_def hash_password_def plain_crypto_def
        create_user_session_def insert_session_def)
  have t: "token = ''tok''" using l by (auto simp: api_login_def split: option.splits prod.splits sum.splits bool.splits)
  have "fst (guarded ADMINISTER (token_request ''tok'') st2) = Inr (Some ADMIN)"
    using anyone_registers_as_admin [OF ac _ _ strip r l, of "token_request ''tok''" ADMINISTER] t
    by (simp add: new_accounts_def token_request_def)
  moreover have "as_authenticator st2 = as_authenticator open_api" "as_environ st2 = as_environ open_api"
    using r l by (auto simp: retail_register_def api_login_def split: option.splits prod.splits sum.splits bool.splits)
  moreover have "auth_enabled (as_authenticator open_api)" by (simp add: open_api_def sample_api_def auth_enabled_def)
  ultimately show ?thesis by (intro exI [of _ st2]) (simp add: auth_required_def)
qed

subsection \<open>Event-stream tokens\<close>

lemma char_code_digit:
  assumes "n < 10"
  shows "char_code (char_of (48 + n)) = 48 + int n"
proof -
  have "n = 0 \<or> n = 1 \<or> n = 2 \<or> n = 3 \<or> n = 4 \<or> n = 5 \<or> n = 6 \<or> n = 7 \<or> n = 8 \<or> n = 9" using assms by arith
  then show ?thesis by (elim disjE) (simp_all add: char_code_def char_of_def bit_0)
qed

lemma nat_text_digits: "nat_text n \<noteq> [] \<and> list_all is_digit (nat_text n) \<and> digits_value (nat_text n) = int n"
proof (induction n rule: nat_text.induct)
  case (1 n)
  show ?case
  proof (cases "n < 10")
    case True
    then show ?thesis
      using char_code_digit [OF True] by (simp add: nat_text.simps [of n] is_digit_def digits_value_def)
  next
    case False
    have "digits_value (s @ [c]) = 10 * digits_value s + (char_code c - 48)" for s c by (simp add: digits_value_def)
    with 1 [OF False] False char_code_digit [of "n mod 10"] show ?thesis
      by (simp add: nat_text.simps [of n] is_digit_def) (simp add: zdiv_int zmod_int)
  qed
qed

lemma digit_plain: "is_digit c \<Longrightarrow> \<not> is_space c \<and> c \<noteq> CHR ''_'' \<and> c \<noteq> CHR ''-'' \<and> c \<noteq> CHR ''+'' \<and> c \<noteq> CHR '':''"
  by (auto simp: is_digit_def is_space_def char_code_def)

lemma strip_digits:
  assumes "list_all is_digit s"
  shows "strip s = s"
proof -
  have "dropWhile is_space t = t" if "list_all is_digit t" for t
    using that digit_plain by (cases t) auto
  then show ?thesis using assms by (simp add: strip_def list_all_rev)
qed

lemma underscores_digits: "list_all is_digit s \<Longrightarrow> underscores_ok b s"
  by (induction b s rule: underscores_ok.induct) (auto dest: digit_plain)

lemma drop_underscores_digits: "list_all is_digit s \<Longrightarrow> drop_underscores s = s"
  by (induction s) (auto simp: drop_underscores_def dest: digit_plain)

lemma parse_int_nat_text: "length (nat_text n) \<le> 4300 \<Longrightarrow> parse_int (nat_text n) = Some (int n)"
proof -
  assume len: "length (nat_text n) \<le> 4300"
  have "split_sign (nat_text n) = (False, nat_text n)"
    using nat_text_digits [of n] digit_plain by (cases "nat_text n") auto
  then show ?thesis
    using nat_text_digits [of n] len
    by (simp add: parse_int_def strip_digits underscores_digits drop_underscores_digits)
qed

definition colon_free :: "string \<Rightarrow> bool" where
  "colon_free s = list_all (\<lambda>c. c \<noteq> CHR '':'') s"

lemma split_colon_plain: "colon_free s \<Longrightarrow> split_colon s = [s]"
  by (induction s) (auto simp: colon_free_def)

lemma split_colon_nonempty: "split_colon s \<noteq> []"
  by (induction s) (auto split: list.splits)

lemma split_colon_step: "colon_free s \<Longrightarrow> split_colon (s @ CHR '':'' # r) = s # split_colon r"
  by (induction s) (auto simp: colon_free_def split_colon_nonempty split: list.splits)

lemma digits_colon_free: "list_all is_digit s \<Longrightarrow> colon_free s"
  by (auto simp: colon_free_def list_all_iff dest: digit_plain)

lemma token_nonce_made:
  assumes "colon_free nonce" "nonce \<noteq> []" "colon_free (sign (token_payload nonce expiry))" "sign (token_payload nonce expiry) \<noteq> []"
    and "0 \<le> expiry" "length (nat_text (nat expiry)) \<le> 4300"
  shows "token_nonce sign now (Some (make_token sign nonce expiry)) = (if expiry \<le> now then None else Some nonce)"
proof -
  have ex: "int_text expiry = nat_text (nat expiry)" using assms(5) by (simp add: int_text_def)
  have dig: "colon_free (nat_text (nat expiry))" "nat_text (nat expiry) \<noteq> []" "parse_int (nat_text (nat expiry)) = Some expiry"
    using nat_text_digits [of "nat expiry"] digits_colon_free parse_int_nat_text [OF assms(6)] assms(5) by auto
  have "make_token sign nonce expiry = ''events'' @ CHR '':'' # (nonce @ CHR '':'' # (nat_text (nat expiry) @ CHR '':'' # sign (token_payload nonce expiry)))"
    by (simp add: make_token_def ex)
  then have "split_colon (make_token sign nonce expiry) = [''events'', nonce, nat_text (nat expiry), sign (token_payload nonce expiry)]"
    using split_colon_step [of "''events''"] split_colon_step [OF assms(1)] split_colon_step [OF dig(1)] split_colon_plain [OF assms(3)]
    by (simp add: colon_free_def)
  then show ?thesis using dig assms by (simp add: token_nonce_def)
qed

text \<open>
  A minted token opens the stream once: it lives at least a second, is accepted at any
  instant before its expiry, is refused at any instant after it was accepted, and is refused
  without being spent once it has expired.
\<close>

theorem minted_token_works_once:
  assumes "mint_token sign pick ttl now nonce consumed = ((token, expiry), consumed1)" and "nonce \<notin> set consumed"
    and "nonce \<noteq> []" and "colon_free nonce"
    and "sign (token_payload nonce expiry) \<noteq> []" and "colon_free (sign (token_payload nonce expiry))"
    and "0 \<le> now" and "length (nat_text (nat expiry)) \<le> 4300"
  shows "now < expiry \<and>
    (if at1 < expiry
     then validate_token sign at1 (Some token) consumed1 = (True, consumed1 @ [nonce]) \<and>
       validate_token sign at2 (Some token) (consumed1 @ [nonce]) = (False, consumed1 @ [nonce])
     else validate_token sign at1 (Some token) consumed1 = (False, consumed1))"
proof -
  have m: "token = make_token sign nonce expiry" "consumed1 = sweep pick consumed" "now < expiry"
    using assms(1) by (auto simp: mint_token_def Let_def split: option.splits)
  have "nonce \<notin> set consumed1" using assms(2) m by (auto simp: sweep_def Let_def)
  then show ?thesis
    using token_nonce_made [of nonce sign expiry] assms m by (simp add: validate_token_def)
qed

lemma short_expiry: "parse_int (nat_text 60) = Some 60 \<and> length (nat_text 60) = 2"
  by code_simp

theorem minted_token_works_once_witness:
  "\<exists>token. fst (validate_token (\<lambda>t. ''5f'') 59 (Some token) []) \<and> \<not> fst (validate_token (\<lambda>t. ''5f'') 60 (Some token) [])"
  using minted_token_works_once [of "\<lambda>t. ''5f''" id None 0 "''ab''" "[]" _ 60 "[]" 59]
    minted_token_works_once [of "\<lambda>t. ''5f''" id None 0 "''ab''" "[]" _ 60 "[]" 60] short_expiry
  by (intro exI [of _ "make_token (\<lambda>t. ''5f'') ''ab'' 60"]) (simp add: mint_token_def sweep_def colon_free_def)

text \<open>
  Single use lasts until the next sweep: minting drops a quarter of the spent nonces whether
  they have expired or not, so a spent token whose nonce is among the victims is accepted a
  second time after any other token was minted.
\<close>

theorem sweep_allows_replay:
  assumes "token_nonce sign now (Some token) = Some nonce" and "nonce \<in> set consumed"
    and "nonce \<in> set (take (min (length consumed div 4) 1024) (pick consumed))"
  shows "validate_token sign now (Some token) consumed = (False, consumed) \<and>
     fst (validate_token sign now (Some token) (snd (mint_token sign pick ttl now fresh consumed)))"
  using assms by (simp add: validate_token_def mint_token_def sweep_def Let_def)

theorem sweep_allows_replay_witness:
  "fst (validate_token (\<lambda>t. ''5f'') 1 (Some (make_token (\<lambda>t. ''5f'') ''a'' 60))
     (snd (mint_token (\<lambda>t. ''5f'') id None 1 ''e'' [''a'', ''b'', ''c'', ''d''])))"
  using sweep_allows_replay [of "\<lambda>t. ''5f''" 1 "make_token (\<lambda>t. ''5f'') ''a'' 60" "''a''" "[''a'', ''b'', ''c'', ''d'']" id None "''e''"]
    token_nonce_made [of "''a''" "\<lambda>t. ''5f''" 60 1] short_expiry
  by (simp add: colon_free_def)

end
