(* ===== verification/Brain.thy ===== *)
theory Brain
  imports Analysis
begin

text \<open>
  \<open>domain/services/market_brain_service.py\<close>: the market brain, which aggregates ticks into
  bars, reads the state of a market from its bars and advises a move.

  A bar is a candle with its timeframe, and is its own identity (the merge key holds every
  field the code reads).  Instants are microseconds, so the start of an interval is an exact
  division.  The durable store is a function from a market and a limit to bars; what is
  saved to it is logged.  A bar whose OHLCV does not validate raises; comparing a NaN of the
  decimal module raises \<open>InvalidOperation\<close>.
\<close>

subsection \<open>Bars and ticks\<close>

type_synonym bar = "string \<times> candle"

record price_tick =
  pk_price :: float64
  pk_quantity :: float64
  pk_exchange_ts :: datetime

record brain_view =
  bv_bars :: "bar list"
  bv_ticks :: "price_tick list"

record brain =
  br_min_candles :: nat
  br_action_threshold :: float64
  br_max_risk_fraction :: float64
  br_momentum_window :: nat
  br_candle_seconds :: int
  br_store :: "(uuid \<Rightarrow> nat \<Rightarrow> bar list) option"
  br_saved :: "(uuid \<times> bar list) list"
  br_views :: "(uuid \<times> brain_view) list"

definition new_brain :: "(uuid \<Rightarrow> nat \<Rightarrow> bar list) option \<Rightarrow> brain" where
  "new_brain store =
     \<lparr>br_min_candles = 60, br_action_threshold = lit (55 / 100), br_max_risk_fraction = lit (1 / 100),
      br_momentum_window = 10, br_candle_seconds = 60, br_store = store, br_saved = [], br_views = []\<rparr>"

definition empty_view :: brain_view where
  "empty_view = \<lparr>bv_bars = [], bv_ticks = []\<rparr>"

definition view_of :: "uuid \<Rightarrow> brain \<Rightarrow> brain_view" where
  "view_of m br = dict_get (br_views br) m empty_view"

definition put_view :: "uuid \<Rightarrow> brain_view \<Rightarrow> brain \<Rightarrow> brain" where
  "put_view m v br = br\<lparr>br_views := AList.update m v (br_views br)\<rparr>"

definition bar_time :: "bar \<Rightarrow> datetime" where
  "bar_time b = cn_timestamp (snd b)"

definition merged_bars :: "bar list \<Rightarrow> bar list \<Rightarrow> bar list" where
  "merged_bars old new = sort_key bar_time (dict_values (dict_of (\<lambda>b. b) (\<lambda>b. b) (old @ new)))"

definition merge_candles :: "uuid \<Rightarrow> bar list \<Rightarrow> brain \<Rightarrow> brain" where
  "merge_candles m bars br =
     (let v = view_of m br in put_view m (v\<lparr>bv_bars := merged_bars (bv_bars v) bars\<rparr>) br)"

definition save_bars :: "uuid \<Rightarrow> bar list \<Rightarrow> brain \<Rightarrow> brain" where
  "save_bars m bars br = (if br_store br = None then br else br\<lparr>br_saved := br_saved br @ [(m, bars)]\<rparr>)"

definition seed_candles :: "uuid \<Rightarrow> bar list \<Rightarrow> brain \<Rightarrow> brain" where
  "seed_candles m bars br = (let br1 = merge_candles m bars br in save_bars m (bv_bars (view_of m br1)) br1)"

definition warm_from_store :: "uuid \<Rightarrow> nat \<Rightarrow> brain \<Rightarrow> bool \<times> brain" where
  "warm_from_store m limit br =
     (case br_store br of
        None \<Rightarrow> (False, br)
      | Some load \<Rightarrow> (let bars = load m limit in if bars = [] then (False, br) else (True, merge_candles m bars br)))"

definition interval_start :: "int \<Rightarrow> datetime \<Rightarrow> datetime" where
  "interval_start seconds ts =
     (let us = (if seconds = 0 then 60 else seconds) * 1000000 in (ts div us) * us)"

text \<open>\<open>OHLCV.validate\<close>: \<open>below a b\<close> is a decimal comparison, which raises on NaN.\<close>

definition dec_less :: "float64 \<Rightarrow> float64 \<Rightarrow> bool res" where
  "dec_less a b = (if a = NaN \<or> b = NaN then Inl InvalidOperation else Inr (a < b))"

fun any_negative :: "float64 list \<Rightarrow> bool res" where
  "any_negative [] = Inr False"
| "any_negative (x # xs) = rbind (dec_less x 0) (\<lambda>neg. if neg then Inr True else any_negative xs)"

definition validate_ohlcv :: "candle \<Rightarrow> unit res" where
  "validate_ohlcv c =
     rbind (dec_less (cn_high c) (cn_low c)) (\<lambda>inverted.
     if inverted then Inl ValueError
     else rbind (any_negative [cn_open c, cn_high c, cn_low c, cn_close c]) (\<lambda>neg.
     if neg then Inl ValueError
     else rbind (dec_less (cn_volume c) 0) (\<lambda>neg. if neg then Inl ValueError else Inr ())))"

definition candle_from_ticks :: "int \<Rightarrow> datetime \<Rightarrow> price_tick list \<Rightarrow> bar res" where
  "candle_from_ticks seconds start ticks =
     (let in_interval = filter (\<lambda>t. interval_start seconds (pk_exchange_ts t) = start) ticks;
          prices = map pk_price in_interval;
          price = py_round (fquot (py_sum prices) (rnd (of_nat (length in_interval)))) 6;
          c = \<lparr>cn_open = price, cn_high = max_of prices, cn_low = min_of prices, cn_close = price,
               cn_volume = py_sum (map pk_quantity in_interval), cn_timestamp = start\<rparr> in
      rbind (validate_ohlcv c) (\<lambda>_. Inr (''1m'', c)))"

definition update_tick :: "uuid \<Rightarrow> price_tick \<Rightarrow> brain \<Rightarrow> unit res \<times> brain" where
  "update_tick m t br =
     (let v = view_of m br;
          ticks = last_n 512 (bv_ticks v @ [t]);
          start = interval_start (br_candle_seconds br) (pk_exchange_ts t);
          br1 = put_view m (v\<lparr>bv_ticks := ticks\<rparr>) br in
      if bv_bars v \<noteq> [] \<and> bar_time (last (bv_bars v)) < start
      then case candle_from_ticks (br_candle_seconds br) start ticks of
             Inl e \<Rightarrow> (Inl e, br1)
           | Inr b \<Rightarrow> (Inr (), save_bars m [b] (put_view m \<lparr>bv_bars = bv_bars v @ [b], bv_ticks = ticks\<rparr> br))
      else (Inr (), br1))"

subsection \<open>The state of a market\<close>

datatype trend_stage = ACCUMULATION | MARKUP | DISTRIBUTION | MARKDOWN | UNKNOWN_STAGE

record snapshot =
  sn_timestamp :: datetime
  sn_known :: bool
  sn_regime :: regime
  sn_stage :: trend_stage
  sn_volatility :: float64
  sn_momentum :: float64
  sn_rsi :: float64
  sn_liquidity :: nat
  sn_indicators :: indicators

definition unknown_snapshot :: "datetime \<Rightarrow> snapshot" where
  "unknown_snapshot now =
     \<lparr>sn_timestamp = now, sn_known = False, sn_regime = UNKNOWN_REGIME, sn_stage = UNKNOWN_STAGE, sn_volatility = 0,
      sn_momentum = 0, sn_rsi = 0, sn_liquidity = 0, sn_indicators = []\<rparr>"

definition last_value :: "indicator list \<Rightarrow> float64 option" where
  "last_value xs = (if xs = [] then None else Some (id_value (last xs)))"

definition percentile_rank :: "float64 list \<Rightarrow> float64" where
  "percentile_rank xs =
     (if length xs < 2 then 0
      else if feq (max_of xs) (min_of xs) then 0
      else let current = last xs; prior = butlast xs in
        fquot (rnd (of_nat (length (filter (\<lambda>v. v \<le> current) prior)))) (rnd (of_nat (length prior))))"

definition trend_stage_of :: "float64 \<Rightarrow> float64 option \<Rightarrow> float64 option \<Rightarrow> trend_stage" where
  "trend_stage_of close ema_20 ema_50 =
     (case (ema_20, ema_50) of
        (Some fast, Some slow) \<Rightarrow>
          if fast < close \<and> slow < fast then MARKUP
          else if close < fast \<and> fast < slow then MARKDOWN
          else if fast < close then ACCUMULATION
          else if close < fast then DISTRIBUTION
          else UNKNOWN_STAGE
      | _ \<Rightarrow> UNKNOWN_STAGE)"

definition derive_regime :: "trend_stage \<Rightarrow> float64 \<Rightarrow> regime" where
  "derive_regime stage vol_pct =
     (if stage \<in> {MARKUP, ACCUMULATION} then TRENDING_BULLISH
      else if stage \<in> {MARKDOWN, DISTRIBUTION} then TRENDING_BEARISH
      else if lit (8 / 10) \<le> vol_pct then HIGH_VOLATILITY
      else RANGING)"

definition momentum_of :: "nat \<Rightarrow> float64 list \<Rightarrow> float64" where
  "momentum_of window closes =
     (let n = min window (length closes - 1) in
      if n = 0 then 0
      else let prev = closes ! (length closes - 1 - n) in
        if truthy prev then fquot (last closes - prev) prev else 0)"

definition optional :: "string \<Rightarrow> float64 option \<Rightarrow> indicators" where
  "optional key v = (case v of None \<Rightarrow> [] | Some x \<Rightarrow> [(key, x)])"

definition snapshot_of :: "datetime \<Rightarrow> uuid \<Rightarrow> brain \<Rightarrow> snapshot res" where
  "snapshot_of now m br =
     (let v = view_of m br; cs = map snd (sort_key bar_time (bv_bars v)) in
      if bv_bars v = [] \<or> length cs < br_min_candles br then Inr (unknown_snapshot now)
      else
      let close = cn_close (last cs);
          ema_20 = last_value (compute_ema m cs 20); ema_50 = last_value (compute_ema m cs 50);
          atrs = compute_atr m cs 14; rsi_14 = last_value (compute_rsi m cs 14) in
      rbind (compute_bollinger_bands m cs 20 (Fin 2)) (\<lambda>bands.
      let momentum = momentum_of (br_momentum_window br) (map cn_close cs);
          vol_pct = percentile_rank (map id_value atrs);
          stage = trend_stage_of close ema_20 ema_50 in
      Inr \<lparr>sn_timestamp = cn_timestamp (last cs), sn_known = True, sn_regime = derive_regime stage vol_pct,
           sn_stage = stage, sn_volatility = vol_pct, sn_momentum = momentum,
           sn_rsi = (case rsi_14 of None \<Rightarrow> 0 | Some r \<Rightarrow> r), sn_liquidity = length (bv_ticks v),
           sn_indicators = [(''close'', close)] @ optional ''ema_20'' ema_20 @ optional ''ema_50'' ema_50 @
             optional ''atr_14'' (last_value atrs) @ optional ''rsi_14'' rsi_14 @
             (if bb_upper bands \<noteq> [] \<and> bb_lower bands \<noteq> []
              then [(''bb_upper_20'', id_value (last (bb_upper bands))), (''bb_lower_20'', id_value (last (bb_lower bands)))]
              else []) @
             [(''momentum'', momentum), (''volatility_percentile'', vol_pct)]\<rparr>))"

subsection \<open>Advice\<close>

record move =
  mv_direction :: string
  mv_confidence :: float64
  mv_risk_fraction :: float64

datatype advice_reason = WarmingUp | RangeBound regime trend_stage | BelowThreshold regime trend_stage float64 | Advised

record advice =
  ad_allowed :: bool
  ad_moves :: "move list"
  ad_reason :: advice_reason
  ad_snapshot :: snapshot

definition candidate_direction :: "regime \<Rightarrow> trend_stage \<Rightarrow> string option" where
  "candidate_direction r s =
     (if r \<in> {TRENDING_BULLISH, HIGH_VOLATILITY} \<and> s \<in> {MARKUP, ACCUMULATION} then Some ''long''
      else if r \<in> {TRENDING_BEARISH, HIGH_VOLATILITY} \<and> s \<in> {MARKDOWN, DISTRIBUTION} then Some ''short''
      else None)"

definition confidence_of :: "string \<Rightarrow> float64 \<Rightarrow> float64 \<Rightarrow> float64" where
  "confidence_of direction momentum rsi =
     (let strength = lit (1 / 2) + \<bar>momentum\<bar> * Fin 4;
          strength' =
            (if direction = ''long''
             then if Fin 75 \<le> rsi then strength - lit (15 / 100)
                  else if Fin 40 \<le> rsi \<and> rsi \<le> Fin 70 then strength + lit (5 / 100) else strength
             else if rsi \<le> Fin 25 then strength - lit (15 / 100)
                  else if Fin 30 \<le> rsi \<and> rsi \<le> Fin 60 then strength + lit (5 / 100) else strength) in
      py_min (py_max strength' (lit (5 / 100))) (lit (98 / 100)))"

definition risk_fraction_of :: "float64 \<Rightarrow> float64 \<Rightarrow> float64 \<Rightarrow> float64" where
  "risk_fraction_of cap confidence vol = py_min cap (cap * confidence * (1 - lit (3 / 10) * vol))"

definition advise :: "datetime \<Rightarrow> uuid \<Rightarrow> brain \<Rightarrow> advice res" where
  "advise now m br =
     rbind (snapshot_of now m br) (\<lambda>sn.
     let refuse = (\<lambda>why. Inr \<lparr>ad_allowed = False, ad_moves = [], ad_reason = why, ad_snapshot = sn\<rparr>) in
     if \<not> sn_known sn then refuse WarmingUp
     else case candidate_direction (sn_regime sn) (sn_stage sn) of
       None \<Rightarrow> refuse (RangeBound (sn_regime sn) (sn_stage sn))
     | Some dir \<Rightarrow>
         (let confidence = confidence_of dir (sn_momentum sn) (sn_rsi sn) in
          if confidence < br_action_threshold br
          then refuse (BelowThreshold (sn_regime sn) (sn_stage sn) confidence)
          else
          let mv = \<lparr>mv_direction = dir, mv_confidence = py_round confidence 4,
                    mv_risk_fraction = py_round (risk_fraction_of (br_max_risk_fraction br) confidence (sn_volatility sn)) 6\<rparr> in
          Inr \<lparr>ad_allowed = True, ad_moves = [mv], ad_reason = Advised, ad_snapshot = sn\<rparr>))"

subsection \<open>Advice is bounded\<close>

lemma py_round_mono: "Fin a \<le> Fin b \<Longrightarrow> py_round (Fin a) n \<le> py_round (Fin b) n"
  by (auto intro!: rnd_mono divide_right_mono round_half_even_mono mult_right_mono)

lemma NegInf_le [simp]: "y \<noteq> NaN \<Longrightarrow> NegInf \<le> y"
  by (cases y) simp_all

lemma py_round_le: "x \<le> Fin b \<Longrightarrow> py_round x n \<le> py_round (Fin b) n"
  by (cases x) (simp_all add: py_round_mono del: py_round.simps(1), simp)

lemma py_min_cap: "py_min (Fin cap) x \<le> Fin cap"
  by (auto simp: py_min_def dest: float_less_imp_le)

lemma snapshot_known:
  assumes "snapshot_of now m br = Inr sn" and "sn_known sn"
  shows "br_min_candles br \<le> length (bv_bars (view_of m br)) \<and> bv_bars (view_of m br) \<noteq> [] \<and>
         sn_regime sn = derive_regime (sn_stage sn) (sn_volatility sn)"
  using assms by (auto simp: snapshot_of_def Let_def unknown_snapshot_def split: if_splits elim!: rbind_eq_InrE)

lemma candidate_of_derived:
  "candidate_direction (derive_regime s v) s =
     (if s \<in> {MARKUP, ACCUMULATION} then Some ''long''
      else if s \<in> {MARKDOWN, DISTRIBUTION} then Some ''short'' else None)"
  by (cases s) (auto simp: candidate_direction_def derive_regime_def)

lemma advise_allowed:
  assumes "advise now m br = Inr a" and "ad_allowed a"
  shows "\<exists>sn dir conf. snapshot_of now m br = Inr sn \<and> sn_known sn \<and> ad_snapshot a = sn \<and>
           candidate_direction (sn_regime sn) (sn_stage sn) = Some dir \<and>
           conf = confidence_of dir (sn_momentum sn) (sn_rsi sn) \<and> \<not> conf < br_action_threshold br \<and>
           ad_moves a = [\<lparr>mv_direction = dir, mv_confidence = py_round conf 4,
             mv_risk_fraction = py_round (risk_fraction_of (br_max_risk_fraction br) conf (sn_volatility sn)) 6\<rparr>]"
  using assms by (auto simp: advise_def Let_def elim!: rbind_eq_InrE split: if_splits option.splits)

lemma advise_refused: "advise now m br = Inr a \<Longrightarrow> \<not> ad_allowed a \<Longrightarrow> ad_moves a = []"
  by (auto simp: advise_def Let_def elim!: rbind_eq_InrE split: if_splits option.splits)

lemma allowed_move_bounded:
  assumes "advise now m br = Inr a" and "ad_allowed a" and "br_max_risk_fraction br = Fin cap"
  shows "\<exists>mv. ad_moves a = [mv] \<and> sn_known (ad_snapshot a) \<and>
      br_min_candles br \<le> length (bv_bars (view_of m br)) \<and> sn_stage (ad_snapshot a) \<noteq> UNKNOWN_STAGE \<and>
      mv_direction mv = (if sn_stage (ad_snapshot a) \<in> {MARKUP, ACCUMULATION} then ''long'' else ''short'') \<and>
      mv_risk_fraction mv \<le> py_round (Fin cap) 6"
proof -
  obtain sn dir conf where *: "snapshot_of now m br = Inr sn" "sn_known sn" "ad_snapshot a = sn"
    "candidate_direction (sn_regime sn) (sn_stage sn) = Some dir"
    "ad_moves a = [\<lparr>mv_direction = dir, mv_confidence = py_round conf 4,
       mv_risk_fraction = py_round (risk_fraction_of (br_max_risk_fraction br) conf (sn_volatility sn)) 6\<rparr>]"
    using advise_allowed [OF assms(1,2)] by blast
  note s = snapshot_known [OF *(1,2)]
  have "py_round (risk_fraction_of (Fin cap) conf (sn_volatility sn)) 6 \<le> py_round (Fin cap) 6"
    by (intro py_round_le) (simp only: risk_fraction_of_def py_min_cap)
  with * s assms(3) show ?thesis
    by (auto simp: candidate_of_derived simp del: py_round.simps split: if_splits)
qed

text \<open>
  The advice of the brain, under a configured risk cap: a refusal carries no move; a grant
  carries exactly one, in the direction of the trend stage, read from at least
  \<open>min_candles\<close> bars, and its risk fraction never exceeds the cap (rounded to the six digits
  the advice is reported with), whatever the volatility, momentum and confidence were.
\<close>

theorem advice_is_capped:
  "case advise now m (br\<lparr>br_max_risk_fraction := Fin cap\<rparr>) of
     Inl _ \<Rightarrow> True
   | Inr a \<Rightarrow>
       if ad_allowed a
       then \<exists>mv. ad_moves a = [mv] \<and> sn_known (ad_snapshot a) \<and>
              br_min_candles br \<le> length (bv_bars (view_of m br)) \<and> sn_stage (ad_snapshot a) \<noteq> UNKNOWN_STAGE \<and>
              mv_direction mv = (if sn_stage (ad_snapshot a) \<in> {MARKUP, ACCUMULATION} then ''long'' else ''short'') \<and>
              mv_risk_fraction mv \<le> py_round (Fin cap) 6
       else ad_moves a = []"
  using allowed_move_bounded [of now m "br\<lparr>br_max_risk_fraction := Fin cap\<rparr>" _ cap]
    advise_refused [of now m "br\<lparr>br_max_risk_fraction := Fin cap\<rparr>"]
  by (auto simp: view_of_def simp del: py_round.simps split: sum.split)

subsection \<open>Live bars\<close>

lemma view_put [simp]: "view_of m (put_view m v br) = v"
  by (simp add: view_of_def put_view_def dict_get_def update_conv)

lemma put_view_simps [simp]:
  "br_candle_seconds (put_view m v br) = br_candle_seconds br"
  "br_store (put_view m v br) = br_store br"
  by (simp_all add: put_view_def)

lemma save_bars_simps [simp]:
  "br_candle_seconds (save_bars m bs br) = br_candle_seconds br"
  "view_of m' (save_bars m bs br) = view_of m' br"
  by (simp_all add: save_bars_def view_of_def)

text \<open>
  The interval and last-bar readings of a view; a view is settled when every queued tick is of
  an interval that already has its bar (in particular when no tick is queued).
\<close>

definition tick_interval :: "brain \<Rightarrow> price_tick \<Rightarrow> datetime" where
  "tick_interval br t = interval_start (br_candle_seconds br) (pk_exchange_ts t)"

definition settled :: "uuid \<Rightarrow> brain \<Rightarrow> bool" where
  "settled m br \<longleftrightarrow> bv_bars (view_of m br) \<noteq> [] \<and>
     list_all (\<lambda>t. tick_interval br t \<le> bar_time (last (bv_bars (view_of m br)))) (bv_ticks (view_of m br))"

text \<open>A tick as the feed validates it, and the bar of a single tick.\<close>

fun sane_tick :: "price_tick \<Rightarrow> bool" where
  "sane_tick t = (is_double (pk_price t) \<and> is_double (pk_quantity t) \<and> isfinite (pk_price t) \<and> isfinite (pk_quantity t) \<and>
     Fin 0 \<le> pk_price t \<and> Fin 0 \<le> pk_quantity t)"

definition opening_bar :: "int \<Rightarrow> price_tick \<Rightarrow> bar" where
  "opening_bar seconds t =
     (''1m'', \<lparr>cn_open = py_round (pk_price t) 6, cn_high = pk_price t, cn_low = pk_price t,
        cn_close = py_round (pk_price t) 6, cn_volume = pk_quantity t,
        cn_timestamp = interval_start seconds (pk_exchange_ts t)\<rparr>)"

definition feed_ticks :: "uuid \<Rightarrow> price_tick list \<Rightarrow> brain \<Rightarrow> brain" where
  "feed_ticks m ts br = foldl (\<lambda>br t. snd (update_tick m t br)) br ts"

lemma py_sum_single: "is_double (Fin a) \<Longrightarrow> py_sum [Fin a] = Fin a"
  by (simp add: py_sum_def zero_eq_Fin truthy_def Let_def)

lemma py_round_Fin_nonneg: "Fin 0 \<le> Fin a \<Longrightarrow> Fin 0 \<le> py_round (Fin a) n"
  using py_round_mono [of 0 a n] round_half_even_of_int [of 0] by simp

lemma dec_less_nonneg [simp]: "Fin 0 \<le> x \<Longrightarrow> dec_less x (Fin 0) = Inr False"
  by (cases x) (simp_all add: dec_less_def)

lemma opening_bar_valid: "sane_tick t \<Longrightarrow> validate_ohlcv (snd (opening_bar sec t)) = Inr ()"
  by (cases "pk_price t"; cases "pk_quantity t")
    (simp_all add: opening_bar_def validate_ohlcv_def zero_eq_Fin py_round_Fin_nonneg
      dec_less_def [of x x for x] del: py_round.simps)

lemma candle_from_one_tick:
  assumes "sane_tick t" and "filter (\<lambda>t. interval_start sec (pk_exchange_ts t) = start) ticks = [t]"
  shows "candle_from_ticks sec start ticks = Inr (opening_bar sec t)"
proof -
  obtain p q where pq: "pk_price t = Fin p" "pk_quantity t = Fin q" "is_double (Fin p)" "is_double (Fin q)"
    using assms(1) by (auto simp: isfinite_iff)
  have start: "interval_start sec (pk_exchange_ts t) = start"
    using assms(2) by (metis (mono_tags, lifting) filter_eq_ConsD)
  have quot: "fquot (Fin p) (rnd (of_nat 1)) = Fin p"
    using rnd_of_nat [of 1] pq(3) by simp
  have "candle_from_ticks sec start ticks =
      rbind (validate_ohlcv (snd (opening_bar sec t))) (\<lambda>_. Inr (opening_bar sec t))"
    using assms(2) pq quot start
    by (simp add: candle_from_ticks_def opening_bar_def py_sum_single Let_def del: py_round.simps of_nat_1)
  then show ?thesis by (simp add: opening_bar_valid [OF assms(1)])
qed

lemma last_n_snoc: "0 < n \<Longrightarrow> \<exists>k. last_n n (xs @ [x]) = drop k xs @ [x]"
  by (auto simp: last_n_def)

lemma settled_step:
  assumes "settled m br" and "sane_tick t"
  shows "settled m (snd (update_tick m t br)) \<and>
         bv_bars (view_of m (snd (update_tick m t br))) =
           bv_bars (view_of m br) @
           (if bar_time (last (bv_bars (view_of m br))) < tick_interval br t
            then [opening_bar (br_candle_seconds br) t] else [])"
proof -
  let ?v = "view_of m br" and ?sec = "br_candle_seconds br"
  let ?start = "tick_interval br t"
  obtain k where k: "last_n 512 (bv_ticks ?v @ [t]) = drop k (bv_ticks ?v) @ [t]"
    using last_n_snoc [of 512] by force
  have old: "\<And>u. u \<in> set (drop k (bv_ticks ?v)) \<Longrightarrow> tick_interval br u \<le> bar_time (last (bv_bars ?v))"
    using assms(1) by (auto simp: settled_def list_all_iff dest: in_set_dropD)
  show ?thesis
  proof (cases "bar_time (last (bv_bars ?v)) < ?start")
    case True
    then have "filter (\<lambda>u. interval_start ?sec (pk_exchange_ts u) = ?start) (drop k (bv_ticks ?v) @ [t]) = [t]"
      using old by (fastforce simp: tick_interval_def filter_empty_conv)
    note c = candle_from_one_tick [OF assms(2) this]
    have "\<And>u. u \<in> set (drop k (bv_ticks ?v)) \<Longrightarrow> tick_interval br u \<le> ?start"
      using old True by fastforce
    with assms(1) True c k show ?thesis
      by (auto simp: settled_def update_tick_def tick_interval_def Let_def list_all_iff bar_time_def opening_bar_def)
  next
    case False
    then show ?thesis
      using assms(1) old k by (auto simp: settled_def update_tick_def tick_interval_def Let_def list_all_iff)
  qed
qed

lemma feed_ticks_Cons: "feed_ticks m (t # ts) br = feed_ticks m ts (snd (update_tick m t br))"
  by (simp add: feed_ticks_def)

lemma update_tick_seconds [simp]: "br_candle_seconds (snd (update_tick m t br)) = br_candle_seconds br"
  by (auto simp: update_tick_def Let_def split: sum.split)

lemma opening_bar_time: "bar_time (opening_bar (br_candle_seconds br) t) = tick_interval br t"
  by (simp add: bar_time_def opening_bar_def tick_interval_def)

text \<open>
  What the code does with a live minute: for a run of validated ticks from a settled view, every
  bar it appends is \<open>opening_bar\<close> of one tick, the first one of its interval; the later ticks of
  the interval are queued and never change the bar.  So a live bar has a range of zero and
  carries the quantity of a single tick; times are strictly increasing.
\<close>

theorem live_bars_are_opening_ticks:
  assumes "settled m br" and "list_all sane_tick ts"
  shows "\<exists>opening. subseq opening ts \<and> settled m (feed_ticks m ts br) \<and>
           bv_bars (view_of m (feed_ticks m ts br)) = bv_bars (view_of m br) @ map (opening_bar (br_candle_seconds br)) opening \<and>
           sorted_wrt (<) (bar_time (last (bv_bars (view_of m br))) # map (tick_interval br) opening)"
  using assms
proof (induction ts arbitrary: br)
  case Nil
  then show ?case by (auto simp: feed_ticks_def intro!: exI [of _ "[]"])
next
  case (Cons t ts)
  let ?b = "snd (update_tick m t br)"
  have step: "settled m ?b" "bv_bars (view_of m ?b) = bv_bars (view_of m br) @
      (if bar_time (last (bv_bars (view_of m br))) < tick_interval br t then [opening_bar (br_candle_seconds br) t] else [])"
    using settled_step [of m br t] Cons.prems by simp_all
  obtain op where op: "subseq op ts" "settled m (feed_ticks m ts ?b)"
    "bv_bars (view_of m (feed_ticks m ts ?b)) = bv_bars (view_of m ?b) @ map (opening_bar (br_candle_seconds ?b)) op"
    "sorted_wrt (<) (bar_time (last (bv_bars (view_of m ?b))) # map (tick_interval ?b) op)"
    using Cons.IH [OF step(1)] Cons.prems by auto
  have ti: "tick_interval ?b = tick_interval br" by (simp add: fun_eq_iff tick_interval_def)
  show ?case
  proof (cases "bar_time (last (bv_bars (view_of m br))) < tick_interval br t")
    case True
    then show ?thesis
      using op step(2) by (intro exI [of _ "t # op"])
        (auto simp: feed_ticks_Cons ti opening_bar_time)
  next
    case False
    then show ?thesis
      using op step(2) by (intro exI [of _ op]) (auto simp: feed_ticks_Cons ti)
  qed
qed

definition sample_bar :: bar where
  "sample_bar = (''1m'', \<lparr>cn_open = Fin 1, cn_high = Fin 1, cn_low = Fin 1, cn_close = Fin 1, cn_volume = Fin 1,
     cn_timestamp = 0\<rparr>)"

definition tick_at :: "datetime \<Rightarrow> rat \<Rightarrow> price_tick" where
  "tick_at ts price = \<lparr>pk_price = Fin price, pk_quantity = Fin 1, pk_exchange_ts = ts\<rparr>"

definition seeded_brain :: brain where
  "seeded_brain = (new_brain None)\<lparr>br_views := [(''m'', \<lparr>bv_bars = [sample_bar], bv_ticks = []\<rparr>)]\<rparr>"

definition sample_ticks :: "price_tick list" where
  "sample_ticks = [tick_at 60000000 1, tick_at 90000000 3, tick_at 120000000 2]"

lemma opening_bar_prices:
  assumes "map (opening_bar sec) xs = map (opening_bar sec) ys"
  shows "map pk_price xs = map pk_price ys"
proof -
  have price: "cn_high (snd (opening_bar sec t)) = pk_price t" for t by (simp add: opening_bar_def)
  have "map (\<lambda>b. cn_high (snd b)) (map (opening_bar sec) xs) = map (\<lambda>b. cn_high (snd b)) (map (opening_bar sec) ys)"
    using assms by (rule arg_cong)
  then show ?thesis by (simp add: o_def price)
qed

theorem live_bars_are_opening_ticks_witness:
  "\<exists>opening. subseq opening sample_ticks \<and>
     bv_bars (view_of ''m'' (feed_ticks ''m'' sample_ticks seeded_brain)) = sample_bar # map (opening_bar 60) opening \<and>
     map pk_price opening = [Fin 1, Fin 2]"
proof -
  have start: "settled ''m'' seeded_brain"
    by (simp add: settled_def seeded_brain_def view_of_def dict_get_def)
  moreover have sane: "list_all sane_tick sample_ticks"
    using rnd_of_int [of 1] rnd_of_int [of 2] rnd_of_int [of 3] by (simp add: sample_ticks_def tick_at_def)
  ultimately obtain op where op: "subseq op sample_ticks"
    "bv_bars (view_of ''m'' (feed_ticks ''m'' sample_ticks seeded_brain)) = sample_bar # map (opening_bar 60) op"
    using live_bars_are_opening_ticks [of "''m''" seeded_brain sample_ticks]
    by (auto simp: seeded_brain_def new_brain_def view_of_def dict_get_def)
  have "bv_bars (view_of ''m'' (feed_ticks ''m'' sample_ticks seeded_brain)) =
      [sample_bar, opening_bar 60 (tick_at 60000000 1), opening_bar 60 (tick_at 120000000 2)]"
  proof -
    let ?b1 = "snd (update_tick ''m'' (tick_at 60000000 1) seeded_brain)"
    let ?b2 = "snd (update_tick ''m'' (tick_at 90000000 3) ?b1)"
    have sec: "br_candle_seconds seeded_brain = 60" by (simp add: seeded_brain_def new_brain_def)
    have s0: "bv_bars (view_of ''m'' seeded_brain) = [sample_bar]"
      by (simp add: seeded_brain_def view_of_def dict_get_def)
    note eval = tick_interval_def sec interval_start_def tick_at_def sample_bar_def bar_time_def opening_bar_def
    have s1: "settled ''m'' ?b1" "bv_bars (view_of ''m'' ?b1) = [sample_bar, opening_bar 60 (tick_at 60000000 1)]"
      using settled_step [OF start, of "tick_at 60000000 1"] sane s0 by (simp_all add: sample_ticks_def eval)
    have s2: "settled ''m'' ?b2" "bv_bars (view_of ''m'' ?b2) = [sample_bar, opening_bar 60 (tick_at 60000000 1)]"
      using settled_step [OF s1(1), of "tick_at 90000000 3"] sane s1(2) by (simp_all add: sample_ticks_def eval)
    show ?thesis
      using settled_step [OF s2(1), of "tick_at 120000000 2"] sane s2(2)
      by (simp add: sample_ticks_def feed_ticks_def eval)
  qed
  then have "map (opening_bar 60) op = map (opening_bar 60) [tick_at 60000000 1, tick_at 120000000 2]"
    using op(2) by simp
  then have "map pk_price op = map pk_price [tick_at 60000000 1, tick_at 120000000 2]"
    by (rule opening_bar_prices)
  then have "map pk_price op = [Fin 1, Fin 2]"
    by (simp add: tick_at_def)
  then show ?thesis using op by (intro exI [of _ op]) simp
qed

subsection \<open>Seeding\<close>

lemma update_identity:
  "distinct ys \<Longrightarrow> AList.update x x (map (\<lambda>b. (b, b)) ys) = map (\<lambda>b. (b, b)) (if x \<in> set ys then ys else ys @ [x])"
  by (induction ys) auto

lemma values_identity: "dict_values (map (\<lambda>b. (b, b)) ys) = ys"
  by (induction ys) auto

lemma dict_of_identity:
  "\<exists>ys. dict_of (\<lambda>b. b) (\<lambda>b. b) xs = map (\<lambda>b. (b, b)) ys \<and> distinct ys \<and> set ys = set xs"
proof (induction xs rule: rev_induct)
  case Nil
  then show ?case by (auto simp: dict_of_def)
next
  case (snoc x xs)
  then obtain ys where "dict_of (\<lambda>b. b) (\<lambda>b. b) xs = map (\<lambda>b. (b, b)) ys" "distinct ys" "set ys = set xs"
    by (elim exE conjE) (rule that)
  then show ?case
    by (intro exI [of _ "if x \<in> set ys then ys else ys @ [x]"]) (auto simp: dict_of_snoc update_identity)
qed

lemma dict_of_known:
  "distinct ys \<Longrightarrow> set cs \<subseteq> set ys \<Longrightarrow> dict_of (\<lambda>b. b) (\<lambda>b. b) (ys @ cs) = map (\<lambda>b. (b, b)) ys"
proof (induction cs rule: rev_induct)
  case Nil
  then show ?case by (simp add: dict_of_distinct)
next
  case (snoc c cs)
  then have "dict_of (\<lambda>b. b) (\<lambda>b. b) ((ys @ cs) @ [c]) = map (\<lambda>b. (b, b)) ys"
    by (simp only: dict_of_snoc) (simp add: update_identity)
  then show ?case by simp
qed

lemma merged_bars_form: "distinct (merged_bars old cs) \<and> set (merged_bars old cs) = set old \<union> set cs \<and>
   sorted (map bar_time (merged_bars old cs))"
proof -
  obtain ys where ys: "dict_of (\<lambda>b. b) (\<lambda>b. b) (old @ cs) = map (\<lambda>b. (b, b)) ys" "distinct ys" "set ys = set (old @ cs)"
    using dict_of_identity [of "old @ cs"] by (elim exE conjE) (rule that)
  then have "merged_bars old cs = sort_key bar_time ys" by (simp only: merged_bars_def values_identity)
  with ys show ?thesis by simp
qed

lemma merged_bars_again: "merged_bars (merged_bars old cs) cs = merged_bars old cs"
proof -
  have "dict_of (\<lambda>b. b) (\<lambda>b. b) (merged_bars old cs @ cs) = map (\<lambda>b. (b, b)) (merged_bars old cs)"
    using merged_bars_form [of old cs] by (intro dict_of_known) auto
  then show ?thesis
    by (simp only: merged_bars_def [of "merged_bars old cs"] values_identity)
      (simp add: merged_bars_form sort_key_id_if_sorted)
qed

text \<open>
  Seeding the same history twice leaves the bars of the market as the first seeding left them,
  sorted by time, whatever was there before; so a restart or a repeated fetch cannot duplicate bars.
\<close>

theorem reseeding_changes_nothing:
  "bv_bars (view_of m (seed_candles m cs (seed_candles m cs br))) = bv_bars (view_of m (seed_candles m cs br)) \<and>
   sorted (map bar_time (bv_bars (view_of m (seed_candles m cs br)))) \<and>
   distinct (bv_bars (view_of m (seed_candles m cs br)))"
  by (simp add: seed_candles_def merge_candles_def Let_def merged_bars_again merged_bars_form)

subsection \<open>Volatility and size\<close>

lemma lit_three_tenths: "\<exists>a. lit (3 / 10) = Fin a \<and> 0 \<le> a \<and> a \<le> 1"
  by (intro exI [of _ "5404319552844595 / 18014398509481984"]) (simp add: float_eval)

lemma risk_factor_antitone:
  assumes "0 \<le> v" "v \<le> w" "w \<le> 1"
  shows "\<exists>a b. 1 - lit (3 / 10) * Fin v = Fin a \<and> 1 - lit (3 / 10) * Fin w = Fin b \<and> 0 \<le> b \<and> b \<le> a"
proof -
  obtain k where k: "lit (3 / 10) = Fin k" "0 \<le> k" "k \<le> 1" using lit_three_tenths by blast
  have fin: "\<exists>y. rnd x = Fin y \<and> 0 \<le> y \<and> y \<le> 1" if "0 \<le> x" "x \<le> 1" for x :: rat
    using rnd_mono [OF that(1)] rnd_mono [OF that(2)] rnd_of_int [of 1] by (cases "rnd x") auto
  have "k * v \<le> 1" "k * w \<le> 1" using assms k mult_mono [of k 1 v 1] mult_mono [of k 1 w 1] by auto
  then obtain x y where x: "rnd (k * v) = Fin x" "0 \<le> x" "x \<le> 1" and y: "rnd (k * w) = Fin y" "0 \<le> y" "y \<le> 1"
    using fin [of "k * v"] fin [of "k * w"] assms k by auto
  have xy: "x \<le> y" using rnd_mono [of "k * v" "k * w"] assms k x y by (simp add: mult_left_mono)
  obtain a b where "rnd (1 - x) = Fin a" "rnd (1 - y) = Fin b" "0 \<le> b"
    using fin [of "1 - x"] fin [of "1 - y"] x y by auto
  then show ?thesis
    using k x y xy rnd_mono [of "1 - y" "1 - x"] by (simp add: one_eq_Fin)
qed

lemma py_min_mono: "x \<le> y \<Longrightarrow> py_min (Fin c) x \<le> py_min (Fin c) y"
  by (cases x; cases y) (auto simp: py_min_def)

text \<open>
  Volatility only ever reduces the advised size: for a finite cap, a confidence and two
  volatility percentiles in the unit interval, the higher percentile gets at most the risk
  fraction of the lower one, and both lie between zero and the cap.
\<close>

theorem volatility_only_shrinks_risk:
  assumes "is_double (Fin cap)" "0 \<le> cap" "0 \<le> conf" "conf \<le> 1" "0 \<le> v" "v \<le> w" "w \<le> 1"
  shows "Fin 0 \<le> risk_fraction_of (Fin cap) (Fin conf) (Fin w) \<and>
         risk_fraction_of (Fin cap) (Fin conf) (Fin w) \<le> risk_fraction_of (Fin cap) (Fin conf) (Fin v) \<and>
         risk_fraction_of (Fin cap) (Fin conf) (Fin v) \<le> Fin cap"
proof -
  obtain a b where ab: "1 - lit (3 / 10) * Fin v = Fin a" "1 - lit (3 / 10) * Fin w = Fin b" "0 \<le> b" "b \<le> a"
    using risk_factor_antitone assms by blast
  have le: "Fin cap * Fin conf \<le> Fin cap" by (rule mult_le_self) (use assms in auto)
  have "rnd 0 \<le> rnd (cap * conf)" by (rule rnd_mono) (use assms in simp)
  with le obtain c where c: "Fin cap * Fin conf = Fin c" "0 \<le> c" by (cases "rnd (cap * conf)") auto
  have "Fin c * Fin b \<le> Fin c * Fin a" "Fin 0 \<le> Fin c * Fin b"
    using mult_le_mult [OF c(2) ab(4)] rnd_nonneg [of "c * b"] c ab by simp_all
  moreover have "Fin 0 \<le> py_min (Fin cap) (Fin c * Fin b)"
    using calculation(2) assms(2) by (simp add: py_min_def)
  ultimately show ?thesis
    by (simp only: risk_fraction_of_def ab c py_min_mono py_min_cap simp_thms)
qed

theorem volatility_only_shrinks_risk_witness:
  "risk_fraction_of (Fin 1) (Fin (1 / 2)) (Fin 1) \<le> risk_fraction_of (Fin 1) (Fin (1 / 2)) (Fin 0)"
  using volatility_only_shrinks_risk [of 1 "1 / 2" 0 1] rnd_of_int [of 1] by simp

end
