(* ===== verification/Failover.thy ===== *)
theory Failover
  imports Ports
begin

text \<open>
  \<open>infrastructure/ha_failover.py\<close>: lease-based leadership of the trading daemon.

  The lease file is the list of its non-blank lines, each a record or text that does not
  parse (a line cut off by a crash).  \<open>now_fn\<close> is read once per use, so a call takes its
  instants as arguments.  Every call runs alone here; the properties are about calls of
  several processes in any order.
\<close>

subsection \<open>The lease store\<close>

datatype lease_action = Acquired | Renewed | Released

record lease_record =
  lr_ts :: datetime
  lr_pid :: int
  lr_owner :: string
  lr_action :: lease_action

datatype lease_line = Lease lease_record | Corrupt

type_synonym lease_file = "lease_line list"

definition lease_append :: "lease_record \<Rightarrow> lease_file \<Rightarrow> lease_file" where
  "lease_append r f = f @ [Lease r]"

definition lease_last :: "lease_file \<Rightarrow> lease_record option" where
  "lease_last f =
     (if f = [] then None else case last f of Lease r \<Rightarrow> Some r | Corrupt \<Rightarrow> None)"

subsection \<open>The manager\<close>

record failover =
  fo_pid :: int
  fo_owner :: string
  fo_stale_after :: float64
  fo_leading :: bool
  fo_audit :: audit_log
  fo_notes :: "notification list"

definition new_failover :: "int \<Rightarrow> string \<Rightarrow> float64 \<Rightarrow> failover" where
  "new_failover pid owner stale =
     \<lparr>fo_pid = pid, fo_owner = owner, fo_stale_after = stale, fo_leading = False, fo_audit = None, fo_notes = []\<rparr>"

definition lease_is_valid :: "datetime \<Rightarrow> lease_record \<Rightarrow> failover \<Rightarrow> bool" where
  "lease_is_valid now r m =
     (if lr_action r = Released then False
      else let age = total_seconds (now - lr_ts r) in age \<le> fo_stale_after m)"

definition lease_of :: "datetime \<Rightarrow> lease_action \<Rightarrow> failover \<Rightarrow> lease_record" where
  "lease_of now action m = \<lparr>lr_ts = now, lr_pid = fo_pid m, lr_owner = fo_owner m, lr_action = action\<rparr>"

definition fo_renew :: "datetime \<Rightarrow> failover \<times> lease_file \<Rightarrow> failover \<times> lease_file" where
  "fo_renew now st =
     (case st of (m, f) \<Rightarrow> if \<not> fo_leading m then (m, f) else (m, lease_append (lease_of now Renewed m) f))"

definition try_acquire ::
  "datetime \<Rightarrow> datetime \<Rightarrow> failover \<times> lease_file \<Rightarrow> bool \<times> failover \<times> lease_file" where
  "try_acquire now now' st =
     (case st of (m, f) \<Rightarrow>
        if fo_leading m then (True, fo_renew now (m, f))
        else if (case lease_last f of None \<Rightarrow> False | Some r \<Rightarrow> lease_is_valid now r m) then (False, (m, f))
        else (True,
              (m\<lparr>fo_leading := True,
                 fo_audit := audit_rec ''ha.leadership'' ''system'' (fo_owner m) [L ''acquired''] (fo_audit m),
                 fo_notes := fo_notes m @ [(WARNING, ''Leadership Acquired'',
                   [L ''daemon '', L (fo_owner m), L '' is now leader''])]\<rparr>,
               lease_append (lease_of now' Acquired m) f)))"

definition fo_release :: "datetime \<Rightarrow> failover \<times> lease_file \<Rightarrow> failover \<times> lease_file" where
  "fo_release now st =
     (case st of (m, f) \<Rightarrow>
        if \<not> fo_leading m then (m, f)
        else (m\<lparr>fo_leading := False,
                fo_audit := audit_rec ''ha.leadership'' ''system'' (fo_owner m) [L ''released''] (fo_audit m)\<rparr>,
              lease_append (lease_of now Released m) f))"

definition poll_takeover ::
  "datetime \<Rightarrow> datetime \<Rightarrow> failover \<times> lease_file \<Rightarrow> bool \<times> failover \<times> lease_file" where
  "poll_takeover now now' st =
     (case st of (m, f) \<Rightarrow>
        if fo_leading m then (True, (m, f))
        else try_acquire now now'
               (m\<lparr>fo_notes := fo_notes m @ [(WARNING, ''Standby'',
                    [L ''daemon '', L (fo_owner m), L '' is standby - another daemon leads''])]\<rparr>, f))"

record failover_status =
  fos_leading :: bool
  fos_owner :: string
  fos_pid :: int
  fos_stale_after :: float64
  fos_last :: "lease_record option"

definition fo_status :: "failover \<times> lease_file \<Rightarrow> failover_status" where
  "fo_status st = \<lparr>fos_leading = fo_leading (fst st), fos_owner = fo_owner (fst st), fos_pid = fo_pid (fst st),
     fos_stale_after = fo_stale_after (fst st), fos_last = lease_last (snd st)\<rparr>"

subsection \<open>Several processes over one file\<close>

datatype fo_call = TryAcquire nat datetime datetime | Poll nat datetime datetime | Renew nat datetime | Release nat datetime

type_synonym cluster = "failover list \<times> lease_file"

definition on_process :: "nat \<Rightarrow> (failover \<times> lease_file \<Rightarrow> failover \<times> lease_file) \<Rightarrow> cluster \<Rightarrow> cluster" where
  "on_process n op c = (let (m, f) = op (fst c ! n, snd c) in ((fst c)[n := m], f))"

fun fo_do :: "fo_call \<Rightarrow> cluster \<Rightarrow> cluster" where
  "fo_do (TryAcquire n now now') c = on_process n (\<lambda>st. snd (try_acquire now now' st)) c"
| "fo_do (Poll n now now') c = on_process n (\<lambda>st. snd (poll_takeover now now' st)) c"
| "fo_do (Renew n now) c = on_process n (fo_renew now) c"
| "fo_do (Release n now) c = on_process n (fo_release now) c"

fun call_instant :: "fo_call \<Rightarrow> datetime" where
  "call_instant (TryAcquire n now now') = now"
| "call_instant (Poll n now now') = now"
| "call_instant (Renew n now) = now"
| "call_instant (Release n now) = now"

definition leaders :: "failover list \<Rightarrow> nat set" where
  "leaders ms = {n. n < length ms \<and> fo_leading (ms ! n)}"

text \<open>A run in which no call happens while the lease of a leader is older than any
  process's window: every leader renews in time.\<close>

fun timely :: "fo_call list \<Rightarrow> cluster \<Rightarrow> bool" where
  "timely [] c = True"
| "timely (x # xs) c =
     ((leaders (fst c) \<noteq> {} \<longrightarrow>
         (\<forall>r m. lease_last (snd c) = Some r \<longrightarrow> m \<in> set (fst c) \<longrightarrow>
            total_seconds (call_instant x - lr_ts r) \<le> fo_stale_after m)) \<and>
      timely xs (fo_do x c))"

definition fo_run :: "fo_call list \<Rightarrow> cluster \<Rightarrow> cluster" where
  "fo_run xs c = foldl (\<lambda>c x. fo_do x c) c xs"

text \<open>The last line is the live lease of the only leader.\<close>

definition led :: "cluster \<Rightarrow> bool" where
  "led c = (leaders (fst c) = {} \<or>
     (\<exists>n r. leaders (fst c) = {n} \<and> lease_last (snd c) = Some r \<and> lr_action r \<noteq> Released \<and>
        lr_owner r = fo_owner (fst c ! n)))"

lemma lease_last_append [simp]: "lease_last (lease_append r f) = Some r"
  by (simp add: lease_last_def lease_append_def)

lemma leaders_update:
  "n < length ms \<Longrightarrow> leaders (ms[n := m]) = (if fo_leading m then insert n (leaders ms) else leaders ms - {n})"
  by (auto simp: leaders_def nth_list_update split: if_splits)

lemma leaders_member: "n < length ms \<Longrightarrow> fo_leading (ms ! n) \<longleftrightarrow> n \<in> leaders ms"
  by (simp add: leaders_def)

lemma fo_ops_simps:
  "fo_renew now (m, f) = (if fo_leading m then (m, lease_append (lease_of now Renewed m) f) else (m, f))"
  "fo_leading m \<Longrightarrow> try_acquire now now' (m, f) = (True, (m, lease_append (lease_of now Renewed m) f))"
  "fo_leading m \<Longrightarrow> poll_takeover now now' (m, f) = (True, (m, f))"
  "\<not> fo_leading m \<Longrightarrow> fo_release now (m, f) = (m, f)"
  by (simp_all add: fo_renew_def try_acquire_def poll_takeover_def fo_release_def)

lemma led_leader_acts:
  assumes "led (ms, f)" and "n < length ms" and "fo_leading (ms ! n)"
    and "fo_leading m" and "fo_owner m = fo_owner (ms ! n)" and "action \<noteq> Released"
  shows "led (ms[n := m], lease_append (lease_of now action m) f)"
  using assms by (auto simp: led_def leaders_update leaders_member lease_of_def)

text \<open>What a call of a process that does not lead can do.\<close>

lemma led_acquire:
  assumes "led (ms, f)" and "n < length ms" and "\<not> fo_leading m0" and "\<not> fo_leading (ms ! n)"
    and timely: "leaders ms \<noteq> {} \<longrightarrow> (\<forall>r. lease_last f = Some r \<longrightarrow> total_seconds (now - lr_ts r) \<le> fo_stale_after m0)"
    and "try_acquire now now' (m0, f) = (b, (m, f'))"
  shows "led (ms[n := m], f')"
proof (cases "leaders ms = {}")
  case True
  have "\<not> fo_leading m \<or> fo_leading m \<and> f' = lease_append (lease_of now' Acquired m0) f \<and> fo_owner m = fo_owner m0"
    using assms(3,6) by (auto simp: try_acquire_def split: if_splits)
  then show ?thesis
    using True assms(2) by (auto simp: led_def leaders_update lease_of_def)
next
  case False
  then obtain k r where k: "leaders ms = {k}" "lease_last f = Some r" "lr_action r \<noteq> Released"
      "lr_owner r = fo_owner (ms ! k)"
    using assms(1) by (auto simp: led_def)
  have "lease_is_valid now r m0"
    using timely False k by (simp add: lease_is_valid_def)
  then have "m = m0 \<and> f' = f" using assms(3,6) k by (simp add: try_acquire_def)
  moreover have "k \<noteq> n" using k assms(2,4) leaders_member by blast
  ultimately show ?thesis
    using k assms(2,3) by (auto simp: led_def leaders_update)
qed

fun call_process :: "fo_call \<Rightarrow> nat" where
  "call_process (TryAcquire n now now') = n"
| "call_process (Poll n now now') = n"
| "call_process (Renew n now) = n"
| "call_process (Release n now) = n"

lemma led_step:
  assumes "led (ms, f)" and "timely [x] (ms, f)" and "call_process x < length ms"
  shows "led (fo_do x (ms, f))"
proof -
  let ?n = "call_process x" and ?now = "call_instant x"
  let ?m = "ms ! ?n"
  have window: "leaders ms \<noteq> {} \<longrightarrow> (\<forall>r. lease_last f = Some r \<longrightarrow>
      total_seconds (?now - lr_ts r) \<le> fo_stale_after ?m)"
    using assms(2,3) by auto
  show ?thesis
  proof (cases "fo_leading ?m")
    case True
    have renewed: "led (ms[?n := ?m], lease_append (lease_of t Renewed ?m) f)" for t
      by (rule led_leader_acts [OF assms(1,3) True]) (simp_all add: True)
    have released: "leaders (ms[?n := m']) = {}" if "\<not> fo_leading m'" for m'
      using assms(1,3) True that by (auto simp: led_def leaders_update leaders_member)
    show ?thesis
      using assms(1,3) True renewed released
      by (cases x) (auto simp: on_process_def fo_ops_simps fo_release_def led_def)
  next
    case False
    have acquire: "led (ms[?n := fst (snd (try_acquire ?now now' (m, f)))], snd (snd (try_acquire ?now now' (m, f))))"
      if "\<not> fo_leading m" "fo_stale_after m = fo_stale_after ?m" for m now'
      using led_acquire [OF assms(1,3) that(1) False, of ?now now'] window that(2)
      by (cases "try_acquire ?now now' (m, f)") auto
    show ?thesis
      using assms(1) False acquire
      by (cases x) (auto simp: on_process_def fo_ops_simps poll_takeover_def split_def Let_def)
  qed
qed

lemma fo_do_length [simp]: "length (fst (fo_do x c)) = length (fst c)"
  by (cases x) (simp_all add: on_process_def split_def Let_def)

lemma led_run:
  "led c \<Longrightarrow> timely xs c \<Longrightarrow> \<forall>x \<in> set xs. call_process x < length (fst c) \<Longrightarrow> led (fo_run xs c)"
proof (induction xs arbitrary: c)
  case (Cons x xs)
  have "led (fo_do x c)"
    using led_step [of "fst c" "snd c" x] Cons.prems by simp
  then show ?case using Cons.IH [of "fo_do x c"] Cons.prems by (simp add: fo_run_def)
qed (simp add: fo_run_def)



text \<open>
  A leader that stalls past the window splits the brain: a standby then acquires the
  lease, and the old leader's next call answers True as well, without reading the file,
  and writes its own lease over the new one, so both lead.
\<close>

theorem stalled_leader_splits_brain:
  assumes "fo_leading m1" and "\<not> fo_leading m2"
    and "lease_last f = Some r" and "\<not> lease_is_valid now r m2"
  shows "\<exists>m2' f2 f3. try_acquire now now' (m2, f) = (True, (m2', f2)) \<and> fo_leading m2' \<and>
    try_acquire later later' (m1, f2) = (True, (m1, f3)) \<and>
    lease_last f3 = Some (lease_of later Renewed m1)"
  using assms by (simp add: try_acquire_def fo_renew_def)

theorem stalled_leader_splits_brain_witness:
  "\<exists>m2' f2 f3. try_acquire 91000000 91000000
       (new_failover 2 ''b'' (Fin 90), [Lease (lease_of 0 Acquired (new_failover 1 ''a'' (Fin 90)))]) =
       (True, (m2', f2)) \<and> fo_leading m2' \<and>
     try_acquire 92000000 92000000 ((new_failover 1 ''a'' (Fin 90))\<lparr>fo_leading := True\<rparr>, f2) =
       (True, ((new_failover 1 ''a'' (Fin 90))\<lparr>fo_leading := True\<rparr>, f3))"
proof -
  let ?m1 = "(new_failover 1 ''a'' (Fin 90))\<lparr>fo_leading := True\<rparr>" and ?m2 = "new_failover 2 ''b'' (Fin 90)"
  let ?r = "lease_of 0 Acquired (new_failover 1 ''a'' (Fin 90))"
  have "total_seconds 91000000 = Fin 91" by (simp add: total_seconds_def float_eval)
  then have "\<not> lease_is_valid 91000000 ?r ?m2"
    by (simp add: lease_is_valid_def lease_of_def new_failover_def)
  then show ?thesis
    using stalled_leader_splits_brain [of ?m1 ?m2 "[Lease ?r]" ?r 91000000 91000000 92000000 92000000]
    by (auto simp: new_failover_def lease_last_def)
qed

end
