(* ===== verification/BrokerStack.thy ===== *)
theory BrokerStack
  imports Resilience
begin

text \<open>
  \<open>infrastructure/journaled_broker.py\<close> and the composition of \<open>application/factory.py\<close>.

  \<open>_submit\<close> writes an intent under the idempotency key before the inner broker is called
  and the outcome after it.  A call that raises leaves the intent; a process that dies in
  between leaves the same table, so every later submission starts from an arbitrary
  table.  \<open>uuid5\<close> is a parameter.  The contract of the layers below, that one call hands
  at most one order to the venue and with the client's order id, is the locale
  \<open>one_order_per_call\<close>.
\<close>

definition INTENT :: string where "INTENT = ''intent''"

definition CONFIRMED :: string where "CONFIRMED = ''confirmed''"

definition client_key :: "(fstring \<Rightarrow> string) \<Rightarrow> string \<Rightarrow> uuid \<Rightarrow> string \<Rightarrow> float64 \<Rightarrow> string \<Rightarrow> string" where
  "client_key uuid5 nonce market sd quantity method =
     uuid5 [L ''order:'', L market, L '':'', L sd, L '':'', F quantity, L '':'', L method, L '':'', L nonce]"

text \<open>Neither an intent nor an envelope has the keys of an outcome, so the defaults apply.\<close>

definition to_result :: "payload \<Rightarrow> fill_result" where
  "to_result p =
     (case p of
        Outcome r \<Rightarrow> r
      | _ \<Rightarrow> \<lparr>fr_filled = False, fr_fill_quantity = 0, fr_fill_price = 0, fr_remaining = 0,
              fr_status = ''rejected'', fr_order_id = []\<rparr>)"

abbreviation needs_reconcile :: "float64 \<Rightarrow> fill_result" where
  "needs_reconcile quantity \<equiv>
     \<lparr>fr_filled = False, fr_fill_quantity = 0, fr_fill_price = 0, fr_remaining = quantity,
      fr_status = ''needs_reconcile'', fr_order_id = []\<rparr>"

text \<open>\<open>cid or _client_key(...)\<close>: an empty client order id counts as none.\<close>

definition submit_key ::
  "(fstring \<Rightarrow> string) \<Rightarrow> env \<Rightarrow> string \<Rightarrow> uuid \<Rightarrow> string \<Rightarrow> float64 \<Rightarrow> string option \<Rightarrow> fstring" where
  "submit_key uuid5 env method market sd quantity cid =
     (case cid of
        Some c \<Rightarrow> if c \<noteq> [] then [L c] else [L (client_key uuid5 (env_nonce env) market sd quantity method)]
      | None \<Rightarrow> [L (client_key uuid5 (env_nonce env) market sd quantity method)])"

definition journaled_submit ::
  "(fstring \<Rightarrow> string) \<Rightarrow> string \<Rightarrow> uuid \<Rightarrow> string \<Rightarrow> float64 \<Rightarrow> string option \<Rightarrow> ('s, fill_result) io \<Rightarrow>
   (journal option \<times> 's, fill_result) io" where
  "journaled_submit uuid5 method market sd quantity cid call env st =
     (case fst st of
        None \<Rightarrow> through call env st
      | Some j \<Rightarrow>
          (let key = submit_key uuid5 env method market sd quantity cid in
           case journal_get key j of
             Some (status, p) \<Rightarrow>
               (if status = CONFIRMED then (Inr (to_result p), st)
                else (Inr (needs_reconcile quantity), st))
           | None \<Rightarrow>
               (case journal_record (env_now env) key key INTENT
                       (Intent \<lparr>in_method = method, in_market_id = market, in_side = sd,
                          in_quantity = quantity,
                          in_client_order_id = (case cid of None \<Rightarrow> '''' | Some c \<Rightarrow> c)\<rparr>) j of
                  Inl e \<Rightarrow> (Inl e, st)
                | Inr j1 \<Rightarrow>
                    (case call env (snd st) of
                       (Inl e, s) \<Rightarrow> (Inl e, (Some j1, s))
                     | (Inr r, s) \<Rightarrow>
                         (Inr r, (Some (journal_mark_published key
                                    (journal_update key CONFIRMED (Outcome r) j1)), s))))))"

text \<open>Intents that were never confirmed.\<close>

definition journaled_pending :: "journal option \<Rightarrow> (fstring \<times> string \<times> intent) list" where
  "journaled_pending jo =
     (case jo of
        None \<Rightarrow> []
      | Some j \<Rightarrow> List.map_filter (\<lambda>(k, status, p).
          (case p of Intent i \<Rightarrow> if in_method i \<noteq> '''' then Some (k, status, i) else None | _ \<Rightarrow> None))
          (pending_events j))"

definition journaled :: "(fstring \<Rightarrow> string) \<Rightarrow> 's broker \<Rightarrow> (journal option \<times> 's) broker" where
  "journaled uuid5 inner =
     \<lparr>b_market = (\<lambda>a. journaled_submit uuid5 ''place_market_order'' (oa_market_id a) (oa_side a)
                        (oa_quantity a) (oa_client_order_id a) (b_market inner a)),
      b_flatten = (\<lambda>a. journaled_submit uuid5 ''place_flatten_order'' (oa_market_id a) (oa_side a)
                        (oa_quantity a) (oa_client_order_id a) (b_flatten inner a)),
      b_limit = (\<lambda>m sd q p c. journaled_submit uuid5 ''place_limit_order'' m sd q None
                                (b_limit inner m sd q p c)),
      b_stop = (\<lambda>m sd q p c. journaled_submit uuid5 ''place_stop_order'' m sd q None
                               (b_stop inner m sd q p c)),
      b_trailing = (\<lambda>m sd q p c. journaled_submit uuid5 ''place_trailing_stop_order'' m sd q None
                                   (b_trailing inner m sd q p c)),
      b_modify = (\<lambda>i a. through (b_modify inner i a)),
      b_cancel = (\<lambda>i. through (b_cancel inner i)),
      b_balance = through (b_balance inner),
      b_positions = through (b_positions inner),
      b_open_orders = through (b_open_orders inner)\<rparr>"

text \<open>The broker of a live process: the venue under the limiter, the guardrail, the breaker
  and the journal.\<close>

definition guarded_stack :: "bool \<Rightarrow> guardrail \<Rightarrow> 's broker \<Rightarrow> (breaker \<times> rate_limiter \<times> 's) broker" where
  "guarded_stack enabled g venue = circuit_breakered (guardrailed g (rate_limited enabled venue))"

definition live_stack ::
  "(fstring \<Rightarrow> string) \<Rightarrow> bool \<Rightarrow> guardrail \<Rightarrow> 's broker \<Rightarrow>
   (journal option \<times> breaker \<times> rate_limiter \<times> 's) broker" where
  "live_stack uuid5 enabled g venue = journaled uuid5 (guarded_stack enabled g venue)"

subsection \<open>Idempotent submission\<close>

text \<open>
  A layer whose market and flatten calls hand the venue at most one order each, with the
  order id they were given.  \<open>sent\<close> lists the ids of the orders the venue has seen.
\<close>

locale one_order_per_call =
  fixes place :: "bool \<Rightarrow> order_args \<Rightarrow> ('s, fill_result) io"
    and sent :: "'s \<Rightarrow> string option list"
  assumes forwards: "sent (snd (place fl a env s)) = sent s \<or>
    sent (snd (place fl a env s)) = sent s @ [oa_client_order_id a]"

text \<open>A request to the journaled broker: flatten or market, its arguments, the call's surroundings.\<close>

type_synonym submission = "bool \<times> order_args \<times> env"

definition submit_to :: "'s broker \<Rightarrow> submission \<Rightarrow> 's \<Rightarrow> fill_result res \<times> 's" where
  "submit_to b sub s =
     (case sub of (fl, a, env) \<Rightarrow> (if fl then b_flatten b a env s else b_market b a env s))"

definition submit_all :: "'s broker \<Rightarrow> submission list \<Rightarrow> 's \<Rightarrow> 's" where
  "submit_all b subs s = foldl (\<lambda>s sub. snd (submit_to b sub s)) s subs"

text \<open>How often the venue saw an order id.\<close>

definition times_sent :: "string \<Rightarrow> string option list \<Rightarrow> nat" where
  "times_sent c xs = length (filter (\<lambda>x. x = Some c) xs)"

lemma submit_key_given: "c \<noteq> [] \<Longrightarrow> submit_key u env m mk sd q (Some c) = [L c]"
  by (simp add: submit_key_def)

lemma journaled_submit_known:
  assumes "c \<noteq> []" and "journal_get [L c] j = Some (status, p)"
  shows "journaled_submit u m mk sd q (Some c) call env (Some j, s) =
    (Inr (if status = CONFIRMED then to_result p else needs_reconcile q), (Some j, s))"
  using assms by (simp add: journaled_submit_def submit_key_given)

lemma journaled_submit_new:
  assumes "journal_get (submit_key u env m mk sd q cid) j = None"
  shows "\<exists>j'. snd (journaled_submit u m mk sd q cid call env (Some j, s)) = (Some j', snd (call env s)) \<and>
    fst (journaled_submit u m mk sd q cid call env (Some j, s)) = fst (call env s) \<and>
    journal_get (submit_key u env m mk sd q cid) j' \<noteq> None \<and>
    (\<forall>k. journal_get k j \<noteq> None \<longrightarrow> journal_get k j' \<noteq> None) \<and>
    (\<forall>r. fst (call env s) = Inr r \<longrightarrow>
       journal_get (submit_key u env m mk sd q cid) j' = Some (CONFIRMED, Outcome r)) \<and>
    (\<forall>e. fst (call env s) = Inl e \<longrightarrow>
       (\<exists>p. journal_get (submit_key u env m mk sd q cid) j' = Some (INTENT, p)))"
proof -
  let ?k = "submit_key u env m mk sd q cid"
  let ?p = "Intent \<lparr>in_method = m, in_market_id = mk, in_side = sd, in_quantity = q,
              in_client_order_id = (case cid of None \<Rightarrow> '''' | Some c \<Rightarrow> c)\<rparr>"
  obtain j1 where rec: "journal_record (env_now env) ?k ?k INTENT ?p j = Inr j1"
    using assms sql.add_new [where k = ?k and j = j and v = "(INTENT, ?p)" and now = "env_now env" and tid = ?k]
    by auto
  have get1: "journal_get k j1 = (if k = ?k then Some (INTENT, ?p) else journal_get k j)" for k
    using sql.add_lookup [where k = ?k and v = "(INTENT, ?p)" and j = j and j' = j1 and now = "env_now env" and tid = ?k]
      rec by simp
  obtain x s' where call: "call env s = (x, s')" by (cases "call env s")
  show ?thesis
  proof (cases x)
    case (Inl e)
    show ?thesis
      by (rule exI [of _ j1])
        (use assms rec call Inl get1 in \<open>simp_all add: journaled_submit_def Let_def\<close>)
  next
    case (Inr r)
    let ?j2 = "journal_mark_published ?k (journal_update ?k CONFIRMED (Outcome r) j1)"
    have get2: "journal_get k ?j2 = (if k = ?k then Some (CONFIRMED, Outcome r) else journal_get k j)" for k
      using sql.change_lookup [where k' = k and k = ?k and v = "(CONFIRMED, Outcome r)" and j = j1] get1 by (simp add: sql.publish_lookup)
    show ?thesis
      by (rule exI [of _ ?j2])
        (use assms rec call Inr get2 in \<open>simp_all add: journaled_submit_def Let_def\<close>)
  qed
qed

lemma journaled_submit_confirmed:
  assumes "journal_get (submit_key u env m mk sd q cid) j = None"
    and "journaled_submit u m mk sd q cid call env (Some j, s) = (Inr r, st)"
  shows "\<exists>j'. st = (Some j', snd (call env s)) \<and>
    journal_get (submit_key u env m mk sd q cid) j' = Some (CONFIRMED, Outcome r)"
proof (rule exE [OF journaled_submit_new [OF assms(1), of call s]])
  fix j'
  assume "snd (journaled_submit u m mk sd q cid call env (Some j, s)) = (Some j', snd (call env s)) \<and>
    fst (journaled_submit u m mk sd q cid call env (Some j, s)) = fst (call env s) \<and>
    journal_get (submit_key u env m mk sd q cid) j' \<noteq> None \<and>
    (\<forall>k. journal_get k j \<noteq> None \<longrightarrow> journal_get k j' \<noteq> None) \<and>
    (\<forall>r. fst (call env s) = Inr r \<longrightarrow>
       journal_get (submit_key u env m mk sd q cid) j' = Some (CONFIRMED, Outcome r)) \<and>
    (\<forall>e. fst (call env s) = Inl e \<longrightarrow>
       (\<exists>p. journal_get (submit_key u env m mk sd q cid) j' = Some (INTENT, p)))"
  then show ?thesis
    unfolding assms(2) by (elim conjE) (rule exI [of _ j'], simp)
qed

text \<open>The journaled broker in terms of a layer's calls.\<close>

definition method_name :: "bool \<Rightarrow> string" where
  "method_name fl = (if fl then ''place_flatten_order'' else ''place_market_order'')"

definition place_of :: "'s broker \<Rightarrow> bool \<Rightarrow> order_args \<Rightarrow> ('s, fill_result) io" where
  "place_of b fl a = (if fl then b_flatten b a else b_market b a)"

definition journaled_place ::
  "(fstring \<Rightarrow> string) \<Rightarrow> (bool \<Rightarrow> order_args \<Rightarrow> ('s, fill_result) io) \<Rightarrow> bool \<Rightarrow> order_args \<Rightarrow>
   (journal option \<times> 's, fill_result) io" where
  "journaled_place u place fl a =
     journaled_submit u (method_name fl) (oa_market_id a) (oa_side a) (oa_quantity a)
       (oa_client_order_id a) (place fl a)"

lemma place_of_journaled: "place_of (journaled u b) = journaled_place u (place_of b)"
  by (intro ext) (simp add: place_of_def journaled_place_def journaled_def method_name_def)

lemma submit_to_place: "submit_to b (fl, a, env) s = place_of b fl a env s"
  by (simp add: submit_to_def place_of_def)

definition place_all ::
  "(bool \<Rightarrow> order_args \<Rightarrow> ('s, fill_result) io) \<Rightarrow> submission list \<Rightarrow> 's \<Rightarrow> 's" where
  "place_all place subs s = foldl (\<lambda>s (fl, a, env). snd (place fl a env s)) s subs"

lemma submit_all_place: "submit_all b subs s = place_all (place_of b) subs s"
  unfolding submit_all_def place_all_def
  by (induction subs arbitrary: s) (auto simp: submit_to_place)

context one_order_per_call
begin

lemma sent_grows:
  "times_sent c (sent (snd (place fl a env s))) \<le>
     times_sent c (sent s) + (if oa_client_order_id a = Some c then 1 else 0)"
  using forwards [of fl a env s]
  by (elim disjE) (simp_all add: times_sent_def)

lemma journaled_step:
  shows "\<exists>j' s'. snd (journaled_place u place fl a env (Some j, s)) = (Some j', s') \<and>
    (\<forall>k. journal_get k j \<noteq> None \<longrightarrow> journal_get k j' \<noteq> None) \<and>
    (\<forall>c. c \<noteq> [] \<longrightarrow> oa_client_order_id a = Some c \<longrightarrow> journal_get [L c] j' \<noteq> None) \<and>
    (\<forall>c. c \<noteq> [] \<longrightarrow> times_sent c (sent s') \<le> times_sent c (sent s) +
       (if oa_client_order_id a = Some c \<and> journal_get [L c] j = None then 1 else 0))"
proof -
  let ?k = "submit_key u env (method_name fl) (oa_market_id a) (oa_side a) (oa_quantity a) (oa_client_order_id a)"
  have key: "?k = [L c]" if "c \<noteq> []" "oa_client_order_id a = Some c" for c
    using that by (simp add: submit_key_given)
  show ?thesis
  proof (cases "journal_get ?k j")
    case None
    obtain j' where j': "snd (journaled_place u place fl a env (Some j, s)) = (Some j', snd (place fl a env s))"
      "journal_get ?k j' \<noteq> None" "\<forall>k. journal_get k j \<noteq> None \<longrightarrow> journal_get k j' \<noteq> None"
      unfolding journaled_place_def
      using journaled_submit_new [OF None, of "place fl a" s] by (elim exE conjE) simp
    have "times_sent c (sent (snd (place fl a env s))) \<le> times_sent c (sent s) +
          (if oa_client_order_id a = Some c \<and> journal_get [L c] j = None then 1 else 0)" if "c \<noteq> []" for c
      using sent_grows [of c fl a env s] key [OF that] None
      by (cases "oa_client_order_id a = Some c") auto
    moreover have "journal_get [L c] j' \<noteq> None" if "c \<noteq> []" "oa_client_order_id a = Some c" for c
      using j'(2) key [OF that] by simp
    ultimately show ?thesis
      using j' by blast
  next
    case (Some sp)
    obtain status p where "sp = (status, p)" by (cases sp)
    then have same: "snd (journaled_place u place fl a env (Some j, s)) = (Some j, s)"
      using Some by (simp add: journaled_place_def journaled_submit_def Let_def)
    show ?thesis
      by (rule exI [of _ j], rule exI [of _ s]) (use Some key same in auto)
  qed
qed

text \<open>From any table and any venue state, each order id reaches the venue at most once, and
  not at all when the table knows it already.\<close>

lemma journaled_at_most_once:
  assumes "c \<noteq> []"
  shows "times_sent c (sent (snd (place_all (journaled_place u place) subs (Some j, s)))) \<le>
    times_sent c (sent s) + (if journal_get [L c] j = None then 1 else 0)"
proof (induction subs arbitrary: j s)
  case Nil
  then show ?case by (simp add: place_all_def)
next
  case (Cons sub subs)
  obtain fl a env where sub: "sub = (fl, a, env)" by (cases sub)
  obtain j' s' where step: "snd (journaled_place u place fl a env (Some j, s)) = (Some j', s')"
    "journal_get [L c] j \<noteq> None \<longrightarrow> journal_get [L c] j' \<noteq> None"
    "oa_client_order_id a = Some c \<longrightarrow> journal_get [L c] j' \<noteq> None"
    "times_sent c (sent s') \<le> times_sent c (sent s) +
       (if oa_client_order_id a = Some c \<and> journal_get [L c] j = None then 1 else 0)"
    using journaled_step [of u fl a env j s] assms by (elim exE conjE) simp
  have "place_all (journaled_place u place) (sub # subs) (Some j, s) =
      place_all (journaled_place u place) subs (Some j', s')"
    by (simp add: place_all_def sub step(1))
  then show ?case
    using Cons.IH [of j' s'] step(2-4)
    by (auto split: if_splits)
qed

end

subsection \<open>The layers of the stack forward at most one order\<close>

definition forwards_one :: "('s \<Rightarrow> string option list) \<Rightarrow> string option \<Rightarrow> ('s, 'a) io \<Rightarrow> bool" where
  "forwards_one sent cid call \<longleftrightarrow>
     (\<forall>env s. sent (snd (call env s)) = sent s \<or> sent (snd (call env s)) = sent s @ [cid])"

lemma forwards_oneI:
  "(\<And>env s r s'. call env s = (r, s') \<Longrightarrow> sent s' = sent s \<or> sent s' = sent s @ [cid]) \<Longrightarrow>
   forwards_one sent cid call"
  by (simp add: forwards_one_def prod_eq_iff)

lemma forwards_oneD:
  "forwards_one sent cid call \<Longrightarrow> call env s = (r, s') \<Longrightarrow> sent s' \<noteq> sent s @ [cid] \<Longrightarrow> sent s' = sent s"
  by (metis forwards_one_def snd_conv)

lemma forwards_through: "forwards_one sent cid call \<Longrightarrow> forwards_one (\<lambda>st. sent (snd st)) cid (through call)"
  by (rule forwards_oneI) (auto simp: through_def dest: forwards_oneD split: prod.splits)

lemma forwards_rl: "forwards_one sent cid call \<Longrightarrow> forwards_one (\<lambda>st. sent (snd st)) cid (rl_guarded en m call)"
  by (rule forwards_oneI)
    (auto simp: rl_guarded_def through_def dest: forwards_oneD split: prod.splits if_splits)

lemma forwards_gr: "forwards_one sent cid call \<Longrightarrow> forwards_one sent cid (gr_guarded g q p call)"
  by (rule forwards_oneI) (auto simp: gr_guarded_def dest: forwards_oneD split: option.splits)

lemma forwards_bounded: "forwards_one sent cid call \<Longrightarrow> forwards_one sent cid (run_bounded call)"
  by (rule forwards_oneI)
    (auto simp: run_bounded_def dest: forwards_oneD split: prod.splits if_splits)

lemma forwards_protected:
  assumes "forwards_one sent cid call"
  shows "forwards_one (\<lambda>st. sent (snd st)) cid (protected call)"
  using forwards_bounded [OF assms]
  by (intro forwards_oneI)
    (auto simp: protected_def with_circuit_breaker_def cb_call_def Let_def dest: forwards_oneD
      split: prod.splits sum.splits if_splits)

lemma forwards_logged: "forwards_one (\<lambda>st. map oa_client_order_id (snd st)) (oa_client_order_id a) (b_market (logged v) a)"
  by (auto simp: forwards_one_def logged_def Let_def split: prod.splits)

lemma stack_market:
  "b_market (guarded_stack en g v) a =
     protected (gr_guarded g (oa_quantity a) (oa_close_price a)
       (rl_guarded en ''place_market_order'' (b_market v a)))"
  by (simp add: guarded_stack_def circuit_breakered_def guardrailed_def rate_limited_def)

lemma stack_flatten: "b_flatten (guarded_stack en g v) a = protected (through (b_market v a))"
  by (simp add: guarded_stack_def circuit_breakered_def guardrailed_def rate_limited_def)

definition venue_ids :: "breaker \<times> rate_limiter \<times> 's \<times> order_args list \<Rightarrow> string option list" where
  "venue_ids st = map oa_client_order_id (snd (snd (snd st)))"

interpretation stack: one_order_per_call "place_of (guarded_stack en g (logged v))" venue_ids for en g v
proof
  fix fl a env st
  let ?ids = "\<lambda>st. map oa_client_order_id (snd st)"
  have market: "forwards_one (\<lambda>st. ?ids (snd (snd st))) (oa_client_order_id a) (b_market (guarded_stack en g (logged v)) a)"
    unfolding stack_market
    by (intro forwards_protected [where sent = "\<lambda>st. ?ids (snd st)"] forwards_gr
        forwards_rl [where sent = ?ids] forwards_logged)
  have flatten: "forwards_one (\<lambda>st. ?ids (snd (snd st))) (oa_client_order_id a) (b_flatten (guarded_stack en g (logged v)) a)"
    unfolding stack_flatten
    by (intro forwards_protected [where sent = "\<lambda>st. ?ids (snd st)"]
        forwards_through [where sent = ?ids] forwards_logged)
  show "venue_ids (snd (place_of (guarded_stack en g (logged v)) fl a env st)) = venue_ids st \<or>
      venue_ids (snd (place_of (guarded_stack en g (logged v)) fl a env st)) =
        venue_ids st @ [oa_client_order_id a]"
    using market flatten unfolding place_of_def forwards_one_def venue_ids_def by presburger
qed


subsection \<open>Properties of the live broker\<close>

text \<open>
  C3. Whatever market and flatten orders are submitted to the live broker, in whatever order,
  with whatever failures, timeouts and clocks, and from whatever table a previous process
  left, the venue sees each client order id at most once, and never again once the table
  holds it.
\<close>

theorem client_order_id_sent_once:
  assumes "c \<noteq> []"
  shows "times_sent c (venue_ids (snd
      (submit_all (live_stack uuid5 enabled g (logged venue)) subs (Some j, b, l, v, []))))
    \<le> (if journal_get [L c] j = None then 1 else 0)"
  using stack.journaled_at_most_once [OF assms, of uuid5 enabled g venue subs j "(b, l, v, [])"]
  by (simp add: submit_all_place live_stack_def place_of_journaled times_sent_def venue_ids_def)

definition sample_limiter :: rate_limiter where
  "sample_limiter = new_rate_limiter 10 (Fin 1)"

theorem client_order_id_sent_once_witness:
  "times_sent ''c1'' (venue_ids (snd
      (submit_all (live_stack (\<lambda>_. ''k'') True sample_guardrail (logged counting_venue))
         [(True, sample_args, sample_env), (True, sample_args, sample_env)]
         (Some [], new_breaker, sample_limiter, 0, [])))) \<le> 1"
  using client_order_id_sent_once [of "''c1''" "\<lambda>_. ''k''" True sample_guardrail counting_venue
      "[(True, sample_args, sample_env), (True, sample_args, sample_env)]" "[]" new_breaker sample_limiter 0]
  by (simp add: journal_get_def)

text \<open>The answer to a call that the breaker lets through, bounded by its timeout.\<close>

lemma protected_call:
  assumes "cb_state (cb_observe BROKER_CB (env_time env) b) \<noteq> Open"
  shows "\<exists>b'. protected call env (b, s) =
    ((if env_hung env then Inl TimeoutError else fst (call env s)), (b', snd (call env s)))"
  using assms
  by (auto simp: protected_def with_circuit_breaker_def cb_call_def run_bounded_def Let_def split_def
      BROKER_CB_def split: prod.splits sum.splits)

text \<open>
  An emergency close is never throttled and never refused for its size: unless the
  circuit is open, a flatten order on the guarded stack reaches the venue as a market
  order with the same arguments, whatever the limiter has counted and whatever the
  guardrail's bounds, and its answer comes back unchanged unless the call hangs.
\<close>

theorem flatten_is_never_throttled:
  assumes "cb_state (cb_observe BROKER_CB (env_time env) b) \<noteq> Open"
  shows "\<exists>b'. b_flatten (guarded_stack enabled g venue) a env (b, l, v) =
    ((if env_hung env then Inl TimeoutError else fst (b_market venue a env v)),
     (b', l, snd (b_market venue a env v)))"
proof -
  have "through (b_market venue a) env (l, v) =
      (fst (b_market venue a env v), (l, snd (b_market venue a env v)))"
    by (simp add: through_def split_def Let_def)
  then show ?thesis
    using protected_call [OF assms, of "through (b_market venue a)" "(l, v)"]
    by (cases "env_hung env") (simp_all add: stack_flatten)
qed

theorem flatten_is_never_throttled_witness:
  "\<exists>b'. b_flatten (guarded_stack True sample_guardrail counting_venue) sample_args sample_env
     (new_breaker, new_rate_limiter 0 (Fin 1), 0) =
   (Inr (filled_at_one (Fin 2)), (b', new_rate_limiter 0 (Fin 1), 1))"
proof -
  have "cb_state (cb_observe BROKER_CB (env_time sample_env) new_breaker) \<noteq> Open"
    by (simp add: cb_observe_def new_breaker_def)
  from flatten_is_never_throttled [OF this, of True sample_guardrail counting_venue sample_args
      "new_rate_limiter 0 (Fin 1)" 0]
  show ?thesis by (simp add: counting_venue_def sample_args_def sample_env_def)
qed

text \<open>
  A confirmed submission is replayed: after a call with a fresh client order id that
  returned \<open>r\<close>, any later market order with that id returns exactly \<open>r\<close>, and neither
  the journal nor anything below it changes.
\<close>

theorem confirmed_submission_replayed:
  assumes "oa_client_order_id a = Some c" and "c \<noteq> []" and "journal_get [L c] j = None"
    and first: "b_market (journaled uuid5 inner) a env (Some j, s) = (Inr r, st)"
    and "oa_client_order_id a' = Some c"
  shows "b_market (journaled uuid5 inner) a' env' st = (Inr r, st) \<and> snd st = snd (b_market inner a env s)"
proof -
  let ?sub = "\<lambda>a. journaled_submit uuid5 ''place_market_order'' (oa_market_id a) (oa_side a) (oa_quantity a)
      (Some c) (b_market inner a)"
  have key: "submit_key uuid5 e m mk sd q (Some c) = [L c]" for e m mk sd q
    using assms(2) by (rule submit_key_given)
  have sub: "?sub a env (Some j, s) = (Inr r, st)"
    using first assms(1) by (simp add: journaled_def)
  have "\<exists>j'. st = (Some j', snd (b_market inner a env s)) \<and> journal_get [L c] j' = Some (CONFIRMED, Outcome r)"
    using journaled_submit_confirmed [OF _ sub] assms(3) unfolding key by simp
  then obtain j' where j': "st = (Some j', snd (b_market inner a env s))"
    "journal_get [L c] j' = Some (CONFIRMED, Outcome r)"
    by blast
  then show ?thesis
    by (simp add: journaled_def assms(5) journaled_submit_known [OF assms(2) j'(2)] to_result_def)
qed

theorem confirmed_submission_replayed_witness:
  "\<exists>j'. b_market (journaled (\<lambda>_. ''k'') counting_venue) sample_args sample_env (Some j', 1) =
     (Inr (filled_at_one (Fin 2)), (Some j', 1))"
proof -
  obtain st where run: "b_market (journaled (\<lambda>_. ''k'') counting_venue) sample_args sample_env (Some [], 0) =
      (Inr (filled_at_one (Fin 2)), st)" "snd st = 1" "\<exists>j'. fst st = Some j'"
    by (simp add: journaled_def journaled_submit_def journal_get_def journal_record_def counting_venue_def
        sample_args_def Let_def)
  have "oa_client_order_id sample_args = Some ''c1''" "''c1'' \<noteq> ([] :: string)" "journal_get [L ''c1''] [] = None"
    by (simp_all add: sample_args_def journal_get_def)
  from confirmed_submission_replayed [OF this run(1) this(1), of sample_env] run(2,3) show ?thesis
    by (metis prod.collapse)
qed

text \<open>
  A flatten refused by the open circuit leaves its intent behind although nothing was
  sent: every later market or flatten order with the same client order id is answered
  \<open>needs_reconcile\<close> and never reaches the venue, even when the circuit is closed again.
\<close>

theorem refused_flatten_is_stuck:
  assumes "oa_client_order_id a = Some c" and "c \<noteq> []" and "journal_get [L c] j = None"
    and open_cb: "cb_state (cb_observe BROKER_CB (env_time env) b) = Open"
  shows "\<exists>j' b'. b_flatten (live_stack uuid5 enabled g venue) a env (Some j, b, l, v) =
      (Inl CircuitOpenError, (Some j', b', l, v)) \<and>
    (\<forall>fl a' env' b'' l' v'. oa_client_order_id a' = Some c \<longrightarrow>
       submit_to (live_stack uuid5 enabled g venue) (fl, a', env') (Some j', b'', l', v') =
         (Inr (needs_reconcile (oa_quantity a')), (Some j', b'', l', v')))"
proof -
  let ?inner = "guarded_stack enabled g venue"
  have key: "submit_key uuid5 e m mk sd q (Some c) = [L c]" for e m mk sd q
    using assms(2) by (rule submit_key_given)
  have refused: "b_flatten ?inner a env (b, l, v) =
      (Inl CircuitOpenError, (cb_observe BROKER_CB (env_time env) b, l, v))"
    using open_cb by (simp add: stack_flatten protected_def with_circuit_breaker_def cb_call_def Let_def)
  obtain j' p where j': "snd (b_flatten (live_stack uuid5 enabled g venue) a env (Some j, b, l, v)) =
      (Some j', cb_observe BROKER_CB (env_time env) b, l, v)"
    "fst (b_flatten (live_stack uuid5 enabled g venue) a env (Some j, b, l, v)) = Inl CircuitOpenError"
    "journal_get [L c] j' = Some (INTENT, p)"
    using journaled_submit_new [of uuid5 env "''place_flatten_order''" "oa_market_id a" "oa_side a" "oa_quantity a"
        "Some c" j "b_flatten ?inner a" "(b, l, v)"] assms(1,3) refused
    unfolding key by (auto simp: live_stack_def journaled_def)
  have "submit_to (live_stack uuid5 enabled g venue) (fl, a', env') (Some j', st) =
      (Inr (needs_reconcile (oa_quantity a')), (Some j', st))"
    if "oa_client_order_id a' = Some c" for fl a' env' st
    using that by (simp add: submit_to_def live_stack_def journaled_def
        journaled_submit_known [OF assms(2) j'(3)] INTENT_def CONFIRMED_def)
  then show ?thesis
    using j'(1,2) by (metis prod.collapse)
qed

theorem refused_flatten_is_stuck_witness:
  "\<exists>j'. submit_to (live_stack (\<lambda>_. ''k'') True sample_guardrail counting_venue) (True, sample_args, sample_env)
       (Some j', new_breaker, sample_limiter, 0) =
     (Inr (needs_reconcile (Fin 2)), (Some j', new_breaker, sample_limiter, 0))"
proof -
  have "oa_client_order_id sample_args = Some ''c1''" "''c1'' \<noteq> ([] :: string)" "journal_get [L ''c1''] [] = None"
    by (simp_all add: sample_args_def journal_get_def)
  moreover have "cb_state (cb_observe BROKER_CB (env_time sample_env) (new_breaker\<lparr>cb_state := Open\<rparr>)) = Open"
    by (simp add: cb_observe_def new_breaker_def BROKER_CB_def sample_env_def zero_eq_Fin)
  ultimately obtain j' where "\<forall>fl a' env' b'' l' v'. oa_client_order_id a' = Some ''c1'' \<longrightarrow>
       submit_to (live_stack (\<lambda>_. ''k'') True sample_guardrail counting_venue) (fl, a', env') (Some j', b'', l', v') =
         (Inr (needs_reconcile (oa_quantity a')), (Some j', b'', l', v'))"
    using refused_flatten_is_stuck [of sample_args "''c1''" "[]" sample_env "new_breaker\<lparr>cb_state := Open\<rparr>"
        "\<lambda>_. ''k''" True sample_guardrail counting_venue sample_limiter 0] by blast
  then have "submit_to (live_stack (\<lambda>_. ''k'') True sample_guardrail counting_venue) (True, sample_args, sample_env)
       (Some j', new_breaker, sample_limiter, 0) =
     (Inr (needs_reconcile (oa_quantity sample_args)), (Some j', new_breaker, sample_limiter, 0))"
    by (simp only: sample_args_def order_args.select_convs simp_thms)
  then show ?thesis by (auto simp: sample_args_def)
qed

end
