(* ===== verification/OrderEvents.thy ===== *)
theory OrderEvents
  imports Journal Entities
begin

text \<open>
  \<open>application/order_event_engine.py\<close>: broker events applied to trades.

  The engine's callbacks (\<open>persist\<close>, \<open>portfolio_update\<close>) and the event bus are code of
  the caller: each is a function that says whether its call raises, and the calls made
  are logged.  \<open>apply\<close> returns the result with the trade and the engine it leaves
  behind, because an exception after the transition does not undo it.  The per-trade
  lock serialises the events of a trade, so a run is a sequence of whole calls.
\<close>

record engine_ports =
  ep_publish :: "event \<Rightarrow> exc option"
  ep_persist :: "(trade \<Rightarrow> exc option) option"
  ep_portfolio :: "(trade \<Rightarrow> exc option) option"

record event_engine =
  en_seen :: "fstring list"
  en_journal :: "journal option"
  en_audit :: audit_log
  en_metrics :: metrics_log
  en_published :: "event list"
  en_persisted :: "trade list"
  en_updated :: "trade list"

definition new_engine :: "journal option \<Rightarrow> audit_log \<Rightarrow> metrics_log \<Rightarrow> event_engine" where
  "new_engine journal audit metrics =
     \<lparr>en_seen = (case journal of None \<Rightarrow> [] | Some j \<Rightarrow> load_event_ids j), en_journal = journal,
      en_audit = audit, en_metrics = metrics, en_published = [], en_persisted = [], en_updated = []\<rparr>"

record broker_event =
  be_status :: trade_status
  be_event_id :: string
  be_fill_quantity :: "float64 option"
  be_fill_price :: "float64 option"
  be_trace_id :: string

definition opt_text :: "float64 option \<Rightarrow> fpart" where
  "opt_text x = (case x of None \<Rightarrow> L ''None'' | Some v \<Rightarrow> F v)"

definition event_key :: "trade \<Rightarrow> broker_event \<Rightarrow> fstring" where
  "event_key t e =
     (if be_event_id e \<noteq> [] then [L (be_event_id e)]
      else [L (t_id t), L '':'', L (status_value (be_status e)), L '':'', opt_text (be_fill_quantity e),
            L '':'', opt_text (be_fill_price e)])"

definition validate_fill :: "trade_status \<Rightarrow> trade \<Rightarrow> float64 option \<Rightarrow> float64 option \<Rightarrow> unit res" where
  "validate_fill status t fill_quantity fill_price =
     (if status \<noteq> PARTIALLY_FILLED \<and> status \<noteq> FILLED then Inr ()
      else let qty = (case fill_quantity of Some q \<Rightarrow> q | None \<Rightarrow> t_quantity t);
               price = (case fill_price of Some p \<Rightarrow> p | None \<Rightarrow> t_price t) in
      if \<not> isfinite qty \<or> qty \<le> 0 then Inl ValueError
      else if t_quantity t < qty then Inl ValueError
      else if \<not> isfinite price \<or> price \<le> 0 then Inl ValueError
      else Inr ())"

text \<open>\<open>x or d\<close> on an optional float.\<close>

definition or_else :: "float64 option \<Rightarrow> float64 \<Rightarrow> float64" where
  "or_else x d = (case x of None \<Rightarrow> d | Some v \<Rightarrow> if truthy v then v else d)"

definition transition :: "datetime \<Rightarrow> broker_event \<Rightarrow> trade \<Rightarrow> trade res" where
  "transition now e t =
     (case be_status e of
        ACKNOWLEDGED \<Rightarrow> acknowledge now t
      | PARTIALLY_FILLED \<Rightarrow> partial_fill now (or_else (be_fill_quantity e) 0) (or_else (be_fill_price e) 0) t
      | FILLED \<Rightarrow> fill now (or_else (be_fill_quantity e) (t_quantity t)) (or_else (be_fill_price e) (t_price t)) t
      | CANCELLED \<Rightarrow> cancel now t
      | REJECTED \<Rightarrow> reject now t
      | EXPIRED \<Rightarrow> expire now t
      | status \<Rightarrow> if status \<noteq> t_status t then Inl ValueError else Inr t)"

definition status_event :: "uuid \<Rightarrow> datetime \<Rightarrow> fstring \<Rightarrow> broker_event \<Rightarrow> trade \<Rightarrow> trade \<Rightarrow> event" where
  "status_event fresh now key e old t =
     \<lparr>ev_event_type = ''execution.order_status'',
      ev_payload = \<lparr>os_trade_id = t_id t, os_external_order_id = t_external_order_id t,
        os_from = status_value (t_status old), os_to = status_value (t_status t),
        os_filled_quantity = t_filled_quantity t, os_filled_price = t_filled_price t, os_event_id = key\<rparr>,
      ev_event_id = fresh, ev_timestamp = now, ev_correlation_id = t_id t, ev_trace_id = be_trace_id e,
      ev_market = t_market_id t, ev_strategy = '''', ev_execution_context = [(''received_at'', now)]\<rparr>"

text \<open>An optional callback: logged, then its exception if it raises one.\<close>

definition run_callback ::
  "(trade \<Rightarrow> exc option) option \<Rightarrow> trade \<Rightarrow> (event_engine \<Rightarrow> event_engine) \<Rightarrow> event_engine \<Rightarrow> unit res \<times> event_engine" where
  "run_callback cb t log_call en =
     (case cb of
        None \<Rightarrow> (Inr (), en)
      | Some f \<Rightarrow> ((case f t of None \<Rightarrow> Inr () | Some x \<Rightarrow> Inl x), log_call en))"

definition publish_event :: "engine_ports \<Rightarrow> event \<Rightarrow> event_engine \<Rightarrow> unit res \<times> event_engine" where
  "publish_event p ev en =
     (case ep_publish p ev of
        Some x \<Rightarrow> (Inl x, en)
      | None \<Rightarrow> (Inr (), en\<lparr>en_published := en_published en @ [ev]\<rparr>))"

text \<open>The steps after the transition: journal, persist, publish, portfolio, audit, metrics.\<close>

definition commit_event ::
  "engine_ports \<Rightarrow> datetime \<Rightarrow> fstring \<Rightarrow> event \<Rightarrow> trade \<Rightarrow> trade \<Rightarrow> event_engine \<Rightarrow> bool res \<times> event_engine" where
  "commit_event p now key ev old t en0 =
     (let en1 = en0\<lparr>en_seen := List.insert key (en_seen en0)\<rparr> in
      case (case en_journal en1 of
              None \<Rightarrow> Inr en1
            | Some j \<Rightarrow> rbind (journal_record now key [L (t_id t)] (status_value (t_status t)) (encode ev) j)
                         (\<lambda>j'. Inr (en1\<lparr>en_journal := Some j'\<rparr>))) of
        Inl x \<Rightarrow> (Inl x, en1)
      | Inr en2 \<Rightarrow>
          (case run_callback (ep_persist p) t (\<lambda>e. e\<lparr>en_persisted := en_persisted e @ [t]\<rparr>) en2 of
             (Inl x, en3) \<Rightarrow> (Inl x, en3)
           | (Inr _, en3) \<Rightarrow>
               (case publish_event p ev en3 of
                  (Inl x, en4) \<Rightarrow> (Inl x, en4)
                | (Inr _, en4) \<Rightarrow>
                    (let en5 = en4\<lparr>en_journal := map_option (journal_mark_published key) (en_journal en4)\<rparr> in
                     case run_callback (ep_portfolio p) t (\<lambda>e. e\<lparr>en_updated := en_updated e @ [t]\<rparr>) en5 of
                       (Inl x, en6) \<Rightarrow> (Inl x, en6)
                     | (Inr _, en6) \<Rightarrow>
                         (Inr True, en6\<lparr>
                            en_audit := audit_rec ''order.status_transition'' ''order-event-engine'' (t_id t)
                              ([L (status_value (t_status old)), L ''->'', L (status_value (t_status t)),
                                L '' event=''] @ key) (en_audit en6),
                            en_metrics := counter (''orders.transition.'' @ status_value (t_status t)) 1
                              (en_metrics en6)\<rparr>)))))"

definition is_duplicate :: "fstring \<Rightarrow> event_engine \<Rightarrow> bool" where
  "is_duplicate key en =
     (key \<in> set (en_seen en) \<or> (case en_journal en of None \<Rightarrow> False | Some j \<Rightarrow> journal_contains key j))"

definition apply_event ::
  "engine_ports \<Rightarrow> uuid \<Rightarrow> datetime \<Rightarrow> broker_event \<Rightarrow> trade \<Rightarrow> event_engine \<Rightarrow>
   bool res \<times> trade \<times> event_engine" where
  "apply_event p fresh now e t en =
     (let key = event_key t e in
      if is_duplicate key en then (Inr False, t, en)
      else
      case rbind (validate_fill (be_status e) t (be_fill_quantity e) (be_fill_price e)) (\<lambda>_. transition now e t) of
        Inl x \<Rightarrow> (Inl x, t, en)
      | Inr t' \<Rightarrow>
          (let (r, en') = commit_event p now key (status_event fresh now key e t t') t t' en in
           (r, t', en')))"

text \<open>The outbox replay; \<open>ids\<close> are the ids of the decoded events.\<close>

fun replay_loop ::
  "engine_ports \<Rightarrow> (nat \<Rightarrow> uuid) \<Rightarrow> (fstring \<times> string \<times> payload) list \<Rightarrow> nat \<Rightarrow> event_engine \<Rightarrow>
   int res \<times> event_engine" where
  "replay_loop p ids [] n en = (Inr (int n), en)"
| "replay_loop p ids ((key, status, envelope) # rest) n en =
     (case decode (ids n) envelope of
        Inl x \<Rightarrow> (Inl x, en)
      | Inr ev \<Rightarrow>
          (case publish_event p ev en of
             (Inl x, en1) \<Rightarrow> (Inl x, en1)
           | (Inr _, en1) \<Rightarrow>
               replay_loop p ids rest (n + 1)
                 (en1\<lparr>en_journal := map_option (journal_mark_published key) (en_journal en1)\<rparr>)))"

definition replay :: "engine_ports \<Rightarrow> (nat \<Rightarrow> uuid) \<Rightarrow> event_engine \<Rightarrow> int res \<times> event_engine" where
  "replay p ids en =
     (case en_journal en of
        None \<Rightarrow> (Inr 0, en)
      | Some j \<Rightarrow> replay_loop p ids (pending_events j) 0 en)"

definition seen_count :: "event_engine \<Rightarrow> int" where
  "seen_count en = int (length (en_seen en))"

subsection \<open>Every event is published at most once\<close>

text \<open>A run of the engine: applications and replays with any callbacks, in any order.\<close>

datatype engine_call =
    Apply engine_ports uuid datetime broker_event trade
  | Replay engine_ports "nat \<Rightarrow> uuid"

fun engine_do :: "engine_call \<Rightarrow> event_engine \<Rightarrow> event_engine" where
  "engine_do (Apply p fresh now e t) en = snd (snd (apply_event p fresh now e t en))"
| "engine_do (Replay p ids) en = snd (replay p ids en)"

definition engine_run :: "engine_call list \<Rightarrow> event_engine \<Rightarrow> event_engine" where
  "engine_run calls en = foldl (\<lambda>en c. engine_do c en) en calls"

definition key_of :: "event \<Rightarrow> fstring" where
  "key_of ev = os_event_id (ev_payload ev)"

definition published_keys :: "event_engine \<Rightarrow> fstring list" where
  "published_keys en = map key_of (en_published en)"

text \<open>An envelope in the table belongs to the key of its row.\<close>

definition keyed :: "fstring \<Rightarrow> payload \<Rightarrow> bool" where
  "keyed k p = (case p of Envelope n \<Rightarrow> os_event_id (en_payload n) = k | _ \<Rightarrow> True)"

definition journal_keys :: "event_engine \<Rightarrow> fstring set" where
  "journal_keys en = (case en_journal en of None \<Rightarrow> {} | Some j \<Rightarrow> set (dict_keys j))"

definition outbox_ok :: "event_engine \<Rightarrow> bool" where
  "outbox_ok en =
     (distinct (published_keys en) \<and> set (published_keys en) \<subseteq> set (en_seen en) \<union> journal_keys en \<and>
      (case en_journal en of
         None \<Rightarrow> True
       | Some j \<Rightarrow> journal_inv j \<and> (\<forall>(k, r) \<in> set j. keyed k (jr_payload r)) \<and>
           (\<forall>k \<in> set (journal_pending j). k \<notin> set (published_keys en))))"

lemma journal_pending_iff:
  "k \<in> set (journal_pending j) \<longleftrightarrow> (\<exists>r. (k, r) \<in> set j \<and> \<not> jr_published r)"
  unfolding journal_pending_def pending_events_def by force

lemma keyed_mark: "(\<forall>(k, r) \<in> set j. keyed k (jr_payload r)) \<Longrightarrow>
    (\<forall>(k, r) \<in> set (journal_mark_published key j). keyed k (jr_payload r))"
  by (auto simp: journal_mark_published_def split: if_splits)

lemma keys_mark [simp]: "dict_keys (journal_mark_published key j) = dict_keys j"
  by (simp add: journal_mark_published_def keys_map_row del: map_map)

lemma outbox_frame:
  assumes "en_published en' = en_published en" and "en_journal en' = en_journal en"
    and "set (en_seen en) \<subseteq> set (en_seen en')"
  shows "outbox_ok en \<Longrightarrow> outbox_ok en'"
proof -
  have "published_keys en' = published_keys en" and "journal_keys en' = journal_keys en"
    using assms by (simp_all add: published_keys_def journal_keys_def)
  then show "outbox_ok en \<Longrightarrow> outbox_ok en'"
    using assms unfolding outbox_ok_def by (cases "en_journal en") auto
qed

lemma outbox_logs [simp]: "outbox_ok (en\<lparr>en_audit := a, en_metrics := m\<rparr>) = outbox_ok en"
  by (cases "en_journal en") (simp_all add: outbox_ok_def published_keys_def journal_keys_def)

lemma outbox_publish_mark:
  assumes ok: "outbox_ok en" and new: "key \<notin> set (published_keys en)" and "key_of ev = key"
    and known: "key \<in> set (en_seen en) \<union> journal_keys en"
  shows "outbox_ok (en\<lparr>en_published := en_published en @ [ev],
    en_journal := map_option (journal_mark_published key) (en_journal en)\<rparr>)"
proof (cases "en_journal en")
  case None
  then show ?thesis
    using assms by (auto simp: outbox_ok_def published_keys_def journal_keys_def)
next
  case (Some j)
  have "journal_inv (journal_mark_published key j)"
    using ok Some by (auto simp: outbox_ok_def intro: sql.publish_inv)
  then show ?thesis
    using assms Some keyed_mark [of j key]
    by (auto simp: outbox_ok_def published_keys_def journal_keys_def filter_pending_publish)
qed

lemma outbox_record:
  assumes ok: "outbox_ok en" and j: "en_journal en = Some j"
    and rec: "journal_record now key tid st (encode ev) j = Inr j'" and "key_of ev = key"
    and new: "key \<notin> set (published_keys en)"
  shows "outbox_ok (en\<lparr>en_journal := Some j'\<rparr>)"
proof -
  have j': "j' = j @ [(key, \<lparr>jr_trade_id = tid, jr_status = st, jr_payload = encode ev,
      jr_published = False, jr_applied_at = now\<rparr>)]" and fresh: "map_of j key = None"
    using rec by (auto simp: journal_record_def split: if_splits)
  have "keyed key (encode ev)"
    using assms(4) by (simp add: keyed_def encode_def key_of_def)
  moreover have "journal_inv j'"
    using ok j fresh by (auto simp: outbox_ok_def journal_inv_def j' map_of_eq_None_iff)
  moreover have "journal_pending j' = journal_pending j @ [key]"
    by (simp add: j' journal_pending_def pending_events_def)
  ultimately show ?thesis
    using ok j new by (auto simp: outbox_ok_def published_keys_def journal_keys_def j')
qed

lemma run_callback_frame:
  assumes "run_callback cb t f en = (r, en')"
  shows "en' = en \<or> en' = f en"
  using assms by (auto simp: run_callback_def split: option.splits)

lemma commit_outbox:
  assumes ok: "outbox_ok en" and fresh: "\<not> is_duplicate key en" and key: "key_of ev = key"
  shows "outbox_ok (snd (commit_event p now key ev old t en))"
proof -
  let ?en1 = "en\<lparr>en_seen := List.insert key (en_seen en)\<rparr>"
  have new: "key \<notin> set (published_keys en)" "key \<notin> journal_keys en"
    using ok fresh by (auto simp: outbox_ok_def is_duplicate_def journal_keys_def journal_contains_def
        map_of_eq_None_iff split: option.splits)
  have ok1: "outbox_ok ?en1"
    using ok by (rule outbox_frame [rotated 3]) auto
  obtain en2 where en2: "(case en_journal ?en1 of None \<Rightarrow> Inr ?en1
      | Some j \<Rightarrow> rbind (journal_record now key [L (t_id t)] (status_value (t_status t)) (encode ev) j)
                     (\<lambda>j'. Inr (?en1\<lparr>en_journal := Some j'\<rparr>))) = Inr en2"
    and ok2: "outbox_ok en2" and seen2: "key \<in> set (en_seen en2)" and pub2: "en_published en2 = en_published en"
  proof (cases "en_journal en")
    case None
    then show ?thesis using ok1 that by simp
  next
    case (Some j)
    then have "map_of j key = None"
      using new(2) by (simp add: journal_keys_def map_of_eq_None_iff)
    then obtain j' where rec: "journal_record now key [L (t_id t)] (status_value (t_status t)) (encode ev) j = Inr j'"
      by (simp add: journal_record_def)
    have "outbox_ok (?en1\<lparr>en_journal := Some j'\<rparr>)"
      using outbox_record [OF ok1 _ rec key] new(1) Some by (simp add: published_keys_def)
    then show ?thesis using that Some rec by simp
  qed
  obtain r3 en3 where cb3: "run_callback (ep_persist p) t (\<lambda>e. e\<lparr>en_persisted := en_persisted e @ [t]\<rparr>) en2 = (r3, en3)"
    by (cases "run_callback (ep_persist p) t (\<lambda>e. e\<lparr>en_persisted := en_persisted e @ [t]\<rparr>) en2")
  have frame3: "en_published en3 = en_published en" "en_seen en3 = en_seen en2" "en_journal en3 = en_journal en2"
    using run_callback_frame [OF cb3] pub2 by auto
  have ok3: "outbox_ok en3"
    using ok2 by (rule outbox_frame [rotated 3]) (simp_all add: frame3 pub2)
  let ?en5 = "en3\<lparr>en_published := en_published en3 @ [ev],
      en_journal := map_option (journal_mark_published key) (en_journal en3)\<rparr>"
  have ok5: "outbox_ok ?en5"
    using outbox_publish_mark [OF ok3 _ key] new(1) seen2 frame3 by (simp add: published_keys_def)
  have after: "outbox_ok en6" if "run_callback cb t (\<lambda>e. e\<lparr>en_updated := en_updated e @ [t]\<rparr>) ?en5 = (r6, en6)" for cb r6 en6
    using ok5 by (rule outbox_frame [rotated 3]) (use run_callback_frame [OF that] in auto)
  show ?thesis
    unfolding commit_event_def Let_def en2
    using ok3 after by (auto simp: cb3 publish_event_def split: sum.splits prod.splits option.splits)
qed

lemma apply_outbox: "outbox_ok en \<Longrightarrow> outbox_ok (snd (snd (apply_event p fresh now e t en)))"
proof -
  assume ok: "outbox_ok en"
  have "outbox_ok en'" if "\<not> is_duplicate (event_key t e) en"
    "commit_event p now (event_key t e) (status_event fresh now (event_key t e) e t t') t t' en = (r, en')" for t' r en'
    using commit_outbox [OF ok that(1), of "status_event fresh now (event_key t e) e t t'" p now t t'] that(2)
    by (simp add: status_event_def key_of_def)
  then show ?thesis
    using ok by (auto simp: apply_event_def Let_def split: sum.splits prod.splits)
qed

text \<open>The replay walks a snapshot of the outbox, whose keys it has not yet marked.\<close>

lemma replay_outbox:
  assumes "outbox_ok en" and "en_journal en = Some j"
    and "distinct (map fst rest)" and "set (map fst rest) \<subseteq> set (journal_pending j)"
    and "\<forall>(k, st, pl) \<in> set rest. keyed k pl"
  shows "outbox_ok (snd (replay_loop p ids rest n en))"
  using assms
proof (induction p ids rest n en arbitrary: j rule: replay_loop.induct)
  case (1 p ids n en)
  then show ?case by simp
next
  case (2 p ids key st envelope rest n en)
  show ?case
  proof (cases "decode (ids n) envelope")
    case (Inl x)
    then show ?thesis using "2.prems" by simp
  next
    case (Inr ev)
    show ?thesis
    proof (cases "ep_publish p ev")
      case (Some x)
      then show ?thesis using "2.prems" Inr by (simp add: publish_event_def)
    next
      case None
      let ?en1 = "en\<lparr>en_published := en_published en @ [ev]\<rparr>"
      let ?en2 = "?en1\<lparr>en_journal := map_option (journal_mark_published key) (en_journal ?en1)\<rparr>"
      have pub: "publish_event p ev en = (Inr (), ?en1)"
        using None by (simp add: publish_event_def)
      have key: "key_of ev = key"
        using "2.prems"(5) Inr by (auto simp: keyed_def decode_def key_of_def split: payload.splits)
      have pending: "key \<in> set (journal_pending j)"
        using "2.prems"(4) by simp
      then have "key \<notin> set (published_keys en)" "key \<in> journal_keys en"
        using "2.prems"(1,2) pending_in_table [OF pending]
        by (auto simp: outbox_ok_def journal_keys_def map_of_eq_None_iff)
      then have ok2: "outbox_ok ?en2"
        using outbox_publish_mark [OF "2.prems"(1) _ key] by simp
      have "set (map fst rest) \<subseteq> set (journal_pending (journal_mark_published key j))"
        using "2.prems"(3,4) by (auto simp: filter_pending_publish)
      then show ?thesis
        using "2.IH" [OF Inr pub [symmetric] refl, of "journal_mark_published key j"] ok2 "2.prems" Inr pub
        by simp
    qed
  qed
qed

lemma replay_keeps_outbox: "outbox_ok en \<Longrightarrow> outbox_ok (snd (replay p ids en))"
proof (cases "en_journal en")
  case None
  then show "outbox_ok en \<Longrightarrow> ?thesis" by (simp add: replay_def)
next
  case (Some j)
  assume ok: "outbox_ok en"
  then have "distinct (map fst (filter (\<lambda>(k, r). \<not> jr_published r) j))"
    using Some by (simp add: outbox_ok_def journal_inv_def distinct_map_filter)
  moreover have keys: "map fst (pending_events j) = map fst (filter (\<lambda>(k, r). \<not> jr_published r) j)"
    by (induction j) (auto simp: pending_events_def)
  moreover have "\<forall>(k, st, pl) \<in> set (pending_events j). keyed k pl"
    using ok Some by (fastforce simp: outbox_ok_def pending_events_def)
  ultimately show ?thesis
    using replay_outbox [OF ok Some, of "pending_events j"] Some
    by (simp add: replay_def journal_pending_def)
qed


lemma new_engine_ok: "outbox_ok (new_engine (Some []) a m)"
  by (simp add: outbox_ok_def new_engine_def published_keys_def journal_inv_def journal_pending_def
      pending_events_def)

definition good_ports :: engine_ports where
  "good_ports = \<lparr>ep_publish = (\<lambda>_. None), ep_persist = None, ep_portfolio = None\<rparr>"


lemma replay_loop_all:
  assumes "\<forall>ev. ep_publish p ev = None" and "list_all (\<lambda>(k, st, pl). \<exists>ev. pl = encode ev) rest"
    and "en_journal en = Some j"
  shows "\<exists>evs. replay_loop p ids rest n en =
      (Inr (int n + int (length rest)),
       en\<lparr>en_published := en_published en @ evs, en_journal := Some (fold journal_mark_published (map fst rest) j)\<rparr>) \<and>
    map encode evs = map (\<lambda>(k, st, pl). pl) rest"
  using assms(2,3)
proof (induction rest arbitrary: n en j)
  case Nil
  then show ?case by simp
next
  case (Cons row rest)
  obtain key st ev where row: "row = (key, st, encode ev)"
    using Cons.prems(1) by (cases row) auto
  let ?ev = "ev\<lparr>ev_event_id := ids n\<rparr>"
  let ?en = "en\<lparr>en_published := en_published en @ [?ev], en_journal := Some (journal_mark_published key j)\<rparr>"
  obtain evs where "replay_loop p ids rest (n + 1) ?en =
      (Inr (int (n + 1) + int (length rest)),
       ?en\<lparr>en_published := en_published ?en @ evs,
          en_journal := Some (fold journal_mark_published (map fst rest) (journal_mark_published key j))\<rparr>)"
    "map encode evs = map (\<lambda>(k, st, pl). pl) rest"
    using Cons.IH [of ?en "journal_mark_published key j" "n + 1"] Cons.prems by auto
  moreover have "encode ?ev = encode ev" by (simp add: encode_def)
  ultimately show ?case
    using assms(1) Cons.prems(2)
    by (intro exI [of _ "?ev # evs"]) (simp add: row publish_event_def)
qed

text \<open>
  A replay in which the bus accepts everything and every pending row is an envelope
  publishes the pending events in the order of the table, empties the outbox, and returns
  their number.
\<close>

theorem replay_drains_outbox:
  assumes "\<forall>ev. ep_publish p ev = None" and "en_journal en = Some j" and "journal_inv j"
    and "list_all (\<lambda>(k, st, pl). \<exists>ev. pl = encode ev) (pending_events j)"
  shows "\<exists>evs j'. replay p ids en = (Inr (pending_count j), en\<lparr>en_published := en_published en @ evs, en_journal := Some j'\<rparr>) \<and>
    map encode evs = map (\<lambda>(k, st, pl). pl) (pending_events j) \<and> journal_pending j' = []"
proof -
  have "int (length (pending_events j)) = pending_count j"
    by (simp add: pending_events_def pending_count_def)
  then show ?thesis
    using replay_loop_all [OF assms(1,4,2), of ids 0] sql.outbox_drains [OF assms(3)] assms(2)
    by (auto simp: replay_def journal_pending_def)
qed

definition pending_row :: "payload \<Rightarrow> journal_row" where
  "pending_row pl = \<lparr>jr_trade_id = [L ''t''], jr_status = ''filled'', jr_payload = pl, jr_published = False,
     jr_applied_at = 0\<rparr>"

definition sample_event :: event where
  "sample_event = status_event ''i'' 0 [L ''k''] \<lparr>be_status = FILLED, be_event_id = ''k'', be_fill_quantity = None,
     be_fill_price = None, be_trace_id = []\<rparr>
     (new_trade ''t'' 0 ''s'' ''m'' BUY 1 1) (new_trade ''t'' 0 ''s'' ''m'' BUY 1 1)"

theorem replay_drains_outbox_witness:
  "\<exists>en'. replay good_ports (\<lambda>_. ''i'') (new_engine (Some [([L ''k''], pending_row (encode sample_event))]) None None) =
     (Inr 1, en') \<and> length (en_published en') = 1"
proof -
  let ?j = "[([L ''k''], pending_row (encode sample_event))]"
  have pending: "pending_events ?j = [([L ''k''], ''filled'', encode sample_event)]"
    by (simp add: pending_events_def pending_row_def)
  have "list_all (\<lambda>(k, st, pl). \<exists>ev. pl = encode ev) (pending_events ?j)"
    unfolding pending by auto
  moreover have "journal_inv ?j" by (simp add: journal_inv_def)
  moreover have "pending_count ?j = 1" by (simp add: pending_count_def pending_row_def)
  ultimately show ?thesis
    using replay_drains_outbox [of good_ports "new_engine (Some ?j) None None" ?j "\<lambda>_. ''i''"]
    by (auto simp: good_ports_def new_engine_def pending dest: map_eq_imp_length_eq)
qed

text \<open>
  The broker wrapper's intents live in the same table: a replay that meets one raises
  \<open>KeyError\<close> after publishing the envelopes before it, and the events behind it stay
  unpublished.
\<close>

theorem replay_raises_on_intent:
  assumes "\<forall>ev. ep_publish p ev = None" and "en_journal en = Some j"
    and "list_all (\<lambda>(k, st, pl). \<exists>ev. pl = encode ev) before"
    and "pending_events j = before @ (k, st, Intent i) # after"
  shows "\<exists>evs j'. replay p ids en =
      (Inl KeyError, en\<lparr>en_published := en_published en @ evs, en_journal := Some j'\<rparr>) \<and>
    map encode evs = map (\<lambda>(k, st, pl). pl) before"
proof -
  have "\<exists>evs j'. replay_loop p ids (before @ (k, st, Intent i) # after) n e =
      (Inl KeyError, e\<lparr>en_published := en_published e @ evs, en_journal := Some j'\<rparr>) \<and>
    map encode evs = map (\<lambda>(k, st, pl). pl) before" if "en_journal e = Some j0" for n e j0
    using assms(3) that
  proof (induction before arbitrary: n e j0)
    case Nil
    then show ?case
      by (intro exI [of _ "[]"] exI [of _ j0]) (simp add: decode_def)
  next
    case (Cons row before)
    obtain key status ev where row: "row = (key, status, encode ev)"
      using Cons.prems(1) by (cases row) auto
    let ?ev = "ev\<lparr>ev_event_id := ids n\<rparr>"
    let ?e = "e\<lparr>en_published := en_published e @ [?ev], en_journal := Some (journal_mark_published key j0)\<rparr>"
    obtain evs j' where "replay_loop p ids (before @ (k, st, Intent i) # after) (n + 1) ?e =
        (Inl KeyError, ?e\<lparr>en_published := en_published ?e @ evs, en_journal := Some j'\<rparr>)"
      "map encode evs = map (\<lambda>(k, st, pl). pl) before"
      using Cons.IH [of ?e "journal_mark_published key j0" "n + 1"] Cons.prems by auto
    moreover have "encode ?ev = encode ev" by (simp add: encode_def)
    ultimately show ?case
      using assms(1) Cons.prems(2)
      by (intro exI [of _ "?ev # evs"] exI [of _ j']) (simp add: row publish_event_def)
  qed
  from this [OF assms(2), of 0] show ?thesis
    by (simp add: replay_def assms(2,4))
qed

theorem replay_raises_on_intent_witness:
  "fst (replay good_ports (\<lambda>_. ''i'') (new_engine (Some [([L ''k''], pending_row (Intent
      \<lparr>in_method = ''m'', in_market_id = ''x'', in_side = ''buy'', in_quantity = 1, in_client_order_id = ''k''\<rparr>))]) None None)) =
   Inl KeyError"
proof -
  let ?i = "\<lparr>in_method = ''m'', in_market_id = ''x'', in_side = ''buy'', in_quantity = 1, in_client_order_id = ''k''\<rparr>"
  let ?j = "[([L ''k''], pending_row (Intent ?i))]"
  have "pending_events ?j = [] @ ([L ''k''], ''filled'', Intent ?i) # []"
    by (simp add: pending_events_def pending_row_def)
  from replay_raises_on_intent [OF _ _ _ this, of good_ports "new_engine (Some ?j) None None" "\<lambda>_. ''i''"]
  show ?thesis by (auto simp: good_ports_def new_engine_def)
qed

text \<open>
  An applied fill event leaves a filled quantity within the order: positive and at most the order's
  when the event names a quantity or fills the order.  A partial fill that names none is
  checked against the whole order and then recorded as zero filled at price zero.
\<close>

theorem applied_fill_bounds:
  assumes "apply_event p fresh now e t en = (Inr True, t', en')"
    and "be_status e = FILLED \<or> be_status e = PARTIALLY_FILLED" and "t_quantity t \<noteq> NaN"
  shows "(be_status e = FILLED \<or> be_fill_quantity e \<noteq> None \<longrightarrow>
      0 < t_filled_quantity t' \<and> t_filled_quantity t' \<le> t_quantity t) \<and>
    (be_status e = PARTIALLY_FILLED \<and> be_fill_quantity e = None \<and> be_fill_price e = None \<longrightarrow>
      t_filled_quantity t' = 0 \<and> t_filled_price t' = 0 \<and> t_status t' = PARTIALLY_FILLED)"
proof -
  have valid: "validate_fill (be_status e) t (be_fill_quantity e) (be_fill_price e) = Inr ()"
    and trans: "transition now e t = Inr t'"
    using assms(1) by (auto simp: apply_event_def Let_def elim!: rbind_eq_InrE
        split: if_splits sum.splits prod.splits)
  let ?q = "case be_fill_quantity e of Some q \<Rightarrow> q | None \<Rightarrow> t_quantity t"
  have q: "isfinite ?q" "\<not> ?q \<le> 0" "\<not> t_quantity t < ?q"
    using valid assms(2) by (auto simp: validate_fill_def Let_def split: if_splits)
  then obtain x where x: "?q = Fin x" "0 < x" by (auto simp: isfinite_iff zero_eq_Fin)
  have bound: "?q \<le> t_quantity t"
    using q(3) x assms(3) by (cases "t_quantity t") auto
  have filled: "t_filled_quantity t' = ?q" if "be_status e = FILLED \<or> be_fill_quantity e \<noteq> None"
    using that trans assms(2) x
    by (cases "be_fill_quantity e")
      (auto simp: transition_def fill_def partial_fill_def guard_simps or_else_def truthy_def zero_eq_Fin)
  have "t_filled_quantity t' = 0 \<and> t_filled_price t' = 0 \<and> t_status t' = PARTIALLY_FILLED"
    if "be_status e = PARTIALLY_FILLED" "be_fill_quantity e = None" "be_fill_price e = None"
    using that trans by (auto simp: transition_def partial_fill_def guard_simps or_else_def)
  then show ?thesis
    using filled bound x by (auto simp: zero_eq_Fin)
qed

theorem applied_fill_bounds_witness:
  "\<exists>t' en'. apply_event good_ports ''i'' 1
      \<lparr>be_status = PARTIALLY_FILLED, be_event_id = ''k'', be_fill_quantity = None, be_fill_price = None, be_trace_id = []\<rparr>
      ((new_trade ''t'' 0 ''s'' ''m'' BUY 1 1)\<lparr>t_status := SUBMITTED\<rparr>) (new_engine None None None) = (Inr True, t', en') \<and>
    t_filled_quantity t' = 0 \<and> t_status t' = PARTIALLY_FILLED"
proof -
  let ?e = "\<lparr>be_status = PARTIALLY_FILLED, be_event_id = ''k'', be_fill_quantity = None, be_fill_price = None, be_trace_id = []\<rparr>"
  let ?t = "(new_trade ''t'' 0 ''s'' ''m'' BUY 1 1)\<lparr>t_status := SUBMITTED\<rparr>"
  obtain t' en' where run: "apply_event good_ports ''i'' 1 ?e ?t (new_engine None None None) = (Inr True, t', en')"
    by (simp add: apply_event_def is_duplicate_def new_engine_def validate_fill_def transition_def
        partial_fill_def guard_transition_def commit_event_def run_callback_def publish_event_def
        good_ports_def new_trade_def zero_eq_Fin one_eq_Fin Let_def)
  then show ?thesis
    using applied_fill_bounds [OF run] by (auto simp: new_trade_def one_eq_Fin)
qed

end
