(* ===== verification/Daemon.thy ===== *)
theory Daemon
  imports CycleSafety Failover BrokerStack OrderEvents
begin

text \<open>
  \<open>application/daemon_controller.py\<close> with the parts of \<open>orchestrator.py\<close> it is wired to and
  the hook of \<open>infrastructure/fatal_handler.py\<close>: startup, the trading loop and the
  reconciliation of the broker's state.

  A run is a finite list of rounds, each with what it reads from outside; stop signals,
  the Brain's gate and the supervision heartbeat are left out.  The reconciliation service
  of the daemon and the one the preflight asks are one object, so its current value is
  put into the desk's preflight before every cycle.
\<close>

record daemon =
  dm_desk :: desk
  dm_recon :: "broker_recon_service option"
  dm_failover :: "(failover \<times> lease_file) option"
  dm_symbols :: "(uuid \<Rightarrow> string) option"
  dm_running :: bool
  dm_crash_recovered :: bool
  dm_fatal_handler :: bool
  dm_hook_installed :: bool

record round =
  rd_lease_now :: datetime
  rd_lease_now' :: datetime
  rd_renew_now :: datetime
  rd_markets :: "(tick \<times> float64 option res \<times> datetime \<times> evaluation list) list"
  rd_env :: env
  rd_now :: datetime
  rd_now' :: datetime

type_synonym 's site = "daemon \<times> 's"

definition on_desk :: "(desk \<Rightarrow> desk) \<Rightarrow> daemon \<Rightarrow> daemon" where
  "on_desk f dm = dm\<lparr>dm_desk := f (dm_desk dm)\<rparr>"

definition notify :: "level \<Rightarrow> string \<Rightarrow> fstring \<Rightarrow> desk \<Rightarrow> desk" where
  "notify l title msg d = d\<lparr>dk_notes := dk_notes d @ [(l, title, msg)]\<rparr>"

definition report :: "bool \<Rightarrow> string \<Rightarrow> fstring \<Rightarrow> desk \<Rightarrow> desk" where
  "report ok name msg d = d\<lparr>dk_health := dk_health d @ [(name, ok, msg)]\<rparr>"

definition dk_log :: "string \<Rightarrow> string \<Rightarrow> fstring \<Rightarrow> desk \<Rightarrow> desk" where
  "dk_log action resource detail d =
     d\<lparr>dk_audit := dk_audit d @ [\<lparr>ae_action = action, ae_actor = ''system'', ae_resource = resource,
        ae_detail = detail\<rparr>]\<rparr>"

subsection \<open>Reconciling the broker's state\<close>

text \<open>\<open>_journal_pending\<close> asks \<open>getattr(self, "_broker", None)\<close>; the class never sets the
  attribute, so the answer is always None.\<close>

definition daemon_journal_pending :: "string list option" where
  "daemon_journal_pending = None"

text \<open>\<open>_local_reconciliation_state\<close> of the orchestrator.\<close>

definition local_reconciliation_state ::
  "(uuid \<Rightarrow> string) option \<Rightarrow> portfolio_service \<Rightarrow> raw_position list \<times> raw_order list" where
  "local_reconciliation_state symbols ps =
     (let sy = (\<lambda>m. case symbols of None \<Rightarrow> m | Some f \<Rightarrow> f m) in
      (map (\<lambda>p. \<lparr>rp_symbol = Some (sy (p_market_id p)), rp_market_id = None, rp_id = None,
                 rp_qty = Some (p_quantity p), rp_quantity = None, rp_entry_price = Some (p_entry_price p),
                 rp_current_price = Some (p_current_price p)\<rparr>)
         (positions_list_open (ps_positions ps)),
       List.map_filter (\<lambda>t. if has_order_id t
           then map_option (\<lambda>i. \<lparr>ro_id = Some [L i], ro_order_id = None\<rparr>) (t_external_order_id t) else None)
         (trades_get_open (ps_trades ps))))"

fun mismatch_value :: "mismatch_type \<Rightarrow> string" where
  "mismatch_value BROKER_ONLY_POSITION = ''broker_only_position''"
| "mismatch_value LOCAL_ONLY_POSITION = ''local_only_position''"
| "mismatch_value QUANTITY_MISMATCH = ''quantity_mismatch''"
| "mismatch_value PRICE_MISMATCH = ''price_mismatch''"
| "mismatch_value BROKER_ONLY_ORDER = ''broker_only_order''"
| "mismatch_value LOCAL_ONLY_ORDER = ''local_only_order''"
| "mismatch_value STALE_SNAPSHOT = ''stale_snapshot''"
| "mismatch_value DUPLICATE_BROKER_STATE = ''duplicate_broker_state''"
| "mismatch_value BROKER_FAILURE = ''broker_failure''"
| "mismatch_value UNKNOWN_STATE = ''unknown_state''"
| "mismatch_value UNCONFIRMED_INTENT = ''unconfirmed_intent''"

definition mismatch_text :: "mismatch \<Rightarrow> fstring" where
  "mismatch_text m = [L (mismatch_value (mm_type m)), L '': '', L (mm_subject m)]"

fun join_parts :: "fstring \<Rightarrow> fstring list \<Rightarrow> fstring" where
  "join_parts sep [] = []"
| "join_parts sep [x] = x"
| "join_parts sep (x # xs) = x @ sep @ join_parts sep xs"

definition report_mismatch :: "mismatch \<Rightarrow> desk \<Rightarrow> desk" where
  "report_mismatch m d =
     (let d1 = report False ''broker_reconciliation'' (mismatch_text m)
                 (notify WARNING ''Reconciliation Mismatch'' (mismatch_text m) d);
          d2 = (if 2 \<le> mm_severity m then ks_update ks_record_failure d1 else d1) in
      if 2 \<le> mm_severity m then dk_count (''reconciliation.'' @ mismatch_value (mm_type m)) d2 else d2)"

definition handle_reconciliation_result :: "broker_recon \<Rightarrow> desk \<Rightarrow> bool \<times> desk" where
  "handle_reconciliation_result r d =
     (if br_errors r \<noteq> [] then
        (let d1 = fold (\<lambda>e d. report False ''broker_reconciliation'' [L ''error'']
                      (notify WARNING ''Reconciliation'' [L ''error''] d)) (br_errors r) d;
             d2 = fold (\<lambda>e d. ks_update ks_record_failure d) (br_errors r) d1;
             d3 = dk_log ''reconciliation.error'' ''broker_reconciliation''
                   (join_parts [L ''; ''] (map (\<lambda>e. [L ''error'']) (br_errors r))) d2 in
         (False, d3\<lparr>dk_metrics := dk_metrics d3 @
            [(''reconciliation.errors'', rnd (of_nat (length (br_errors r))))]\<rparr>))
      else if br_mismatches r \<noteq> [] then
        (let d1 = fold report_mismatch (br_mismatches r) d;
             d2 = dk_log ''reconciliation.mismatch'' ''broker_reconciliation''
                   (join_parts [L ''; ''] (map mismatch_text (br_mismatches r))) d1 in
         (False, d2\<lparr>dk_metrics := dk_metrics d2 @
            [(''reconciliation.mismatches'', rnd (of_nat (length (br_mismatches r))))]\<rparr>))
      else
        (True, report True ''broker_reconciliation'' [L ''matched='', Z (br_matched_positions r)]
           (d\<lparr>dk_metrics := dk_metrics d @
               [(''reconciliation.matched_positions'', rnd (of_int (br_matched_positions r))),
                (''reconciliation.reconciled_positions'', rnd (of_int (br_reconciled_positions r)))]\<rparr>)))"

text \<open>\<open>_run_periodic_reconciliation\<close> on the fetched local state, and what the startup
  reconciliation does after its notification; the loop ignores the answer.\<close>

definition daemon_reconcile ::
  "'s broker \<Rightarrow> env \<Rightarrow> datetime \<Rightarrow> datetime \<Rightarrow> 's site \<Rightarrow> bool res \<times> 's site" where
  "daemon_reconcile b env now now' st =
     (case st of (dm, x) \<Rightarrow>
        (case dm_recon dm of
           None \<Rightarrow> (Inr True, (dm, x))
         | Some s \<Rightarrow>
             (let (lpos, lord) = local_reconciliation_state (dm_symbols dm) (dk_portfolio (dm_desk dm));
                  pending = (case daemon_journal_pending of None \<Rightarrow> [] | Some is \<Rightarrow> is) in
              case reconcile b env now now' lpos lord pending (s, x) of
                (Inl e, s1, x1) \<Rightarrow> (Inl e, (dm\<lparr>dm_recon := Some s1\<rparr>, x1))
              | (Inr r, s1, x1) \<Rightarrow>
                  (let (ok, d1) = handle_reconciliation_result r (dm_desk dm) in
                   (Inr ok, (dm\<lparr>dm_recon := Some s1, dm_desk := d1\<rparr>, x1))))))"

text \<open>\<open>_run_startup_reconciliation\<close>\<close>

definition startup_reconcile ::
  "'s broker \<Rightarrow> env \<Rightarrow> datetime \<Rightarrow> datetime \<Rightarrow> 's site \<Rightarrow> bool res \<times> 's site" where
  "startup_reconcile b env now now' st =
     (if dm_recon (fst st) = None then (Inr True, st)
      else daemon_reconcile b env now now'
        (on_desk (notify INFO ''Startup Reconciliation'' [L ''Reconciling broker state'']) (fst st), snd st))"

subsection \<open>One round of the loop\<close>

definition share_recon :: "broker_recon_service option \<Rightarrow> desk \<Rightarrow> desk" where
  "share_recon r d = d\<lparr>dk_preflight :=
     map_option (\<lambda>pf. pf\<lparr>pf_recon := (case r of None \<Rightarrow> pf_recon pf | Some s \<Rightarrow> Some s)\<rparr>) (dk_preflight d)\<rparr>"

definition market_turn ::
  "'s broker \<Rightarrow> tick \<times> float64 option res \<times> datetime \<times> evaluation list \<Rightarrow> 's floor \<Rightarrow> unit res \<times> 's floor" where
  "market_turn b m st =
     (case m of (tk, price, now, evs) \<Rightarrow>
        (let turn = (case price of
               Inl e \<Rightarrow> (Inl e, st)
             | Inr None \<Rightarrow>
                 (Inr (), (report False (''market.'' @ tk_market tk) [L ''no price data'']
                    (notify WARNING ''No Data'' [L (tk_market tk), L '': cannot fetch price, skipping cycle''] (fst st)),
                  snd st))
             | Inr (Some p) \<Rightarrow>
                 (case cycle_run b (tk\<lparr>tk_price := p\<rparr>) now evs st of
                    (Inl e, st1) \<Rightarrow> (Inl e, st1)
                  | (Inr _, (d1, x1)) \<Rightarrow>
                      (Inr (), (fold (\<lambda>err. notify WARNING ''Cycle Error'' ([L (tk_market tk), L '': ''] @ err))
                                  (dk_errors d1) d1, x1)))) in
         case turn of
           (Inr _, st1) \<Rightarrow> (Inr (), st1)
         | (Inl e, (d1, x1)) \<Rightarrow>
             if \<not> cycle_caught e then (Inl e, (d1, x1))
             else (Inr (), (report False (''market.'' @ tk_market tk) [L ''error'']
                      (notify WARNING ''Cycle Panic'' [L (tk_market tk), L '': error''] d1), x1))))"

fun market_turns ::
  "'s broker \<Rightarrow> (tick \<times> float64 option res \<times> datetime \<times> evaluation list) list \<Rightarrow> 's floor \<Rightarrow> unit res \<times> 's floor" where
  "market_turns b [] st = (Inr (), st)"
| "market_turns b (m # ms) st = sbind (market_turn b m st) (\<lambda>_ st1. market_turns b ms st1)"

definition take_lead :: "round \<Rightarrow> daemon \<Rightarrow> bool \<times> daemon" where
  "take_lead rd dm =
     (case dm_failover dm of
        None \<Rightarrow> (True, dm)
      | Some fo \<Rightarrow>
          (case try_acquire (rd_lease_now rd) (rd_lease_now' rd) fo of
             (False, fo1) \<Rightarrow>
               (False, on_desk (report False ''ha_leadership'' [L ''standby - another daemon holds the lease''])
                         (dm\<lparr>dm_failover := Some fo1\<rparr>))
           | (True, fo1) \<Rightarrow>
               (True, on_desk (report True ''ha_leadership'' [L ''leader''])
                        (dm\<lparr>dm_failover := Some (fo_renew (rd_renew_now rd) fo1)\<rparr>))))"

definition daemon_round :: "'s broker \<Rightarrow> round \<Rightarrow> 's site \<Rightarrow> unit res \<times> 's site" where
  "daemon_round b rd st =
     (case st of (dm0, x) \<Rightarrow>
        (let (leads, dm) = take_lead rd dm0 in
         if \<not> leads then (Inr (), (dm, x))
         else if (case dm_recon dm of None \<Rightarrow> False | Some s \<Rightarrow> \<not> can_accept_orders s)
         then (Inr (), (on_desk (report False ''broker_reconciliation''
                 [L ''Startup reconciliation incomplete - order acceptance blocked'']) dm, x))
         else
         (case market_turns b (rd_markets rd) (share_recon (dm_recon dm) (dm_desk dm), x) of
            (Inl e, (d1, x1)) \<Rightarrow> (Inl e, (dm\<lparr>dm_desk := d1\<rparr>, x1))
          | (Inr _, (d1, x1)) \<Rightarrow>
              sbind (daemon_reconcile b (rd_env rd) (rd_now rd) (rd_now' rd) (dm\<lparr>dm_desk := d1\<rparr>, x1))
                (\<lambda>_ st1. (Inr (), st1)))))"

fun daemon_rounds :: "'s broker \<Rightarrow> round list \<Rightarrow> 's site \<Rightarrow> unit res \<times> 's site" where
  "daemon_rounds b [] st = (Inr (), st)"
| "daemon_rounds b (rd # rds) st = sbind (daemon_round b rd st) (\<lambda>_ st1. daemon_rounds b rds st1)"

subsection \<open>Startup, crash recovery and the fatal hook\<close>

definition daemon_start :: "daemon \<Rightarrow> daemon" where
  "daemon_start dm = on_desk (\<lambda>d. notify INFO ''Orchestrator Started'' [L ''Trading mode'']
       (dk_log ''orchestrator.start'' ''orchestrator'' [L ''mode''] (report True ''orchestrator'' [L ''started''] d)))
     (dm\<lparr>dm_running := True\<rparr>)"

definition daemon_stop :: "datetime \<Rightarrow> daemon \<Rightarrow> daemon" where
  "daemon_stop now dm = on_desk (\<lambda>d. notify INFO ''Orchestrator Stopped'' []
       (dk_log ''orchestrator.stop'' ''orchestrator'' [] (report True ''orchestrator'' [L ''stopped''] d)))
     (dm\<lparr>dm_running := False, dm_failover := map_option (fo_release now) (dm_failover dm)\<rparr>)"

definition recover_from_crash ::
  "datetime \<Rightarrow> trade list \<Rightarrow> order_state list \<Rightarrow> daemon \<Rightarrow> recon_result res \<times> daemon" where
  "recover_from_crash now local_trades broker_orders dm =
     (if dm_crash_recovered dm then (Inr no_recon, dm)
      else
      let dm1 = on_desk (\<lambda>d. dk_log ''crash.recovery'' ''orchestrator'' [L ''post-crash reconciliation'']
                  (notify WARNING ''Crash Recovery'' [L ''Running post-crash reconciliation''] d))
                (dm\<lparr>dm_crash_recovered := True\<rparr>) in
      case reconcile_orders now local_trades broker_orders of
        Inl e \<Rightarrow> (Inl e, dm1)
      | Inr (r, _) \<Rightarrow>
          (Inr r, on_desk (\<lambda>d. dk_count ''crash.recovered''
                    (report True ''crash_recovery'' [L ''reconciled='', Z (rc_reconciled r)] d)) dm1))"

text \<open>\<open>_recover_from_crash()\<close> as \<open>run_forever\<close> calls it: without trades and without orders.\<close>

definition startup_recovery :: "datetime \<Rightarrow> bool \<Rightarrow> daemon \<Rightarrow> recon_result res \<times> daemon" where
  "startup_recovery now crashed dm =
     (if dm_crash_recovered dm \<or> \<not> crashed then (Inr no_recon, dm) else recover_from_crash now [] [] dm)"

definition run_forever ::
  "'s broker \<Rightarrow> bool \<Rightarrow> env \<Rightarrow> datetime \<Rightarrow> datetime \<Rightarrow> round list \<Rightarrow> 's site \<Rightarrow> unit res \<times> 's site" where
  "run_forever b crashed env now now' rds st =
     (case startup_recovery now crashed (fst st) of
        (Inl e, dm) \<Rightarrow> (Inl e, (dm, snd st))
      | (Inr _, dm) \<Rightarrow>
          sbind (startup_reconcile b env now now' (dm, snd st)) (\<lambda>ok st1. case st1 of (dm1, x1) \<Rightarrow>
            (let dm2 = (if ok then dm1 else on_desk (notify CRITICAL ''Startup Reconciliation Failed''
                          [L ''Broker state reconciliation failed at startup. Trading blocked.'']) dm1);
                 dm3 = (daemon_start dm2)\<lparr>dm_hook_installed := dm_fatal_handler dm2\<rparr> in
             case daemon_rounds b rds (dm3, x1) of
               (r, (dm4, x4)) \<Rightarrow>
                 (r, (if dm_fatal_handler dm4 then dm4\<lparr>dm_hook_installed := False\<rparr> else dm4, x4)))))"

text \<open>\<open>FatalExceptionHandler._freeze\<close>: the alert, the audit entry, the counter and the flatten.\<close>

definition freeze ::
  "'s broker \<Rightarrow> string \<Rightarrow> (nat \<Rightarrow> env) \<Rightarrow> string \<Rightarrow> fstring \<Rightarrow> fstring \<Rightarrow> 's floor \<Rightarrow> 's floor" where
  "freeze b nonce envs exc_name detail trace st =
     (let d1 = dk_count ''fatal.exception'' (dk_log ''fatal.exception'' ''daemon'' trace
                 (notify CRITICAL ''Fatal Error - Trading Frozen'' detail (fst st))) in
      case dk_flatten d1 of
        None \<Rightarrow> (d1, snd st)
      | Some fs \<Rightarrow>
          (case flatten b (dk_prices d1) nonce envs [L ''fatal exception: '', L exc_name] (dk_portfolio d1) (fs, snd st) of
             (Inl e, fs1, x1) \<Rightarrow> (d1\<lparr>dk_flatten := Some fs1\<rparr>, x1)
           | (Inr r, fs1, x1) \<Rightarrow>
               (notify CRITICAL ''Fatal Flatten Result'' [Z (fl_close_orders r), L '' positions closed, '',
                  Z (fl_failed_orders r), L '' failed''] (d1\<lparr>dk_flatten := Some fs1\<rparr>), x1)))"

text \<open>What the interpreter does with an exception that leaves run_forever.\<close>

definition uncaught ::
  "'s broker \<Rightarrow> string \<Rightarrow> (nat \<Rightarrow> env) \<Rightarrow> string \<Rightarrow> fstring \<Rightarrow> fstring \<Rightarrow> 's site \<Rightarrow> 's site" where
  "uncaught b nonce envs exc_name detail trace st =
     (if dm_hook_installed (fst st)
      then (case freeze b nonce envs exc_name detail trace (dm_desk (fst st), snd st) of
              (d1, x1) \<Rightarrow> ((fst st)\<lparr>dm_desk := d1\<rparr>, x1))
      else st)"

subsection \<open>A closed gate is never tried again\<close>

lemma on_desk_frame [simp]:
  "dm_recon (on_desk f dm) = dm_recon dm" "dm_fatal_handler (on_desk f dm) = dm_fatal_handler dm"
  "dm_hook_installed (on_desk f dm) = dm_hook_installed dm" "dm_desk (on_desk f dm) = f (dm_desk dm)"
  by (simp_all add: on_desk_def)

lemma desk_log_frame [simp]:
  "dk_portfolio (report ok n m d) = dk_portfolio d" "dk_portfolio (notify l n m d) = dk_portfolio d"
  by (simp_all add: report_def notify_def)

lemma daemon_start_frame [simp]: "dm_fatal_handler (daemon_start dm) = dm_fatal_handler dm"
  by (simp add: daemon_start_def)

lemma take_lead_frame:
  "take_lead rd dm = (l, dm') \<Longrightarrow> dm_recon dm' = dm_recon dm \<and> dk_portfolio (dm_desk dm') = dk_portfolio (dm_desk dm) \<and>
     dm_fatal_handler dm' = dm_fatal_handler dm \<and> dm_hook_installed dm' = dm_hook_installed dm"
  by (auto simp: take_lead_def on_desk_def report_def split: option.splits prod.splits bool.splits)

lemma closed_round:
  assumes "dm_recon dm = Some s" and "\<not> can_accept_orders s"
  shows "\<exists>dm'. daemon_round b rd (dm, x) = (Inr (), (dm', x)) \<and> dm_recon dm' = Some s \<and>
    dk_portfolio (dm_desk dm') = dk_portfolio (dm_desk dm)"
proof -
  obtain l dm1 where lead: "take_lead rd dm = (l, dm1)" by (cases "take_lead rd dm")
  from take_lead_frame [OF lead] assms show ?thesis
    by (simp add: daemon_round_def lead on_desk_def report_def)
qed

text \<open>
  Once the gate is closed the daemon never reconciles again: whatever the rounds that
  follow, the broker is never called, no order is sent, the reconciliation service and its
  closed gate stay as they are, and so does the portfolio.
\<close>

theorem closed_gate_never_retried:
  assumes "dm_recon dm = Some s" and "\<not> can_accept_orders s"
  shows "\<exists>dm'. daemon_rounds b rds (dm, x) = (Inr (), (dm', x)) \<and> dm_recon dm' = Some s \<and>
    dk_portfolio (dm_desk dm') = dk_portfolio (dm_desk dm)"
  using assms
proof (induction rds arbitrary: dm)
  case (Cons rd rds)
  obtain dm1 where one: "daemon_round b rd (dm, x) = (Inr (), (dm1, x))" "dm_recon dm1 = Some s"
      "dk_portfolio (dm_desk dm1) = dk_portfolio (dm_desk dm)"
    using closed_round [OF Cons.prems, of b rd x] by (elim exE conjE) (rule that)
  obtain dm2 where rest: "daemon_rounds b rds (dm1, x) = (Inr (), (dm2, x))" "dm_recon dm2 = Some s"
      "dk_portfolio (dm_desk dm2) = dk_portfolio (dm_desk dm1)"
    using Cons.IH [OF one(2) Cons.prems(2)] by (elim exE conjE) (rule that)
  show ?case
    by (rule exI [of _ dm2]) (simp add: one(1,3) rest sbind_def)
qed simp

definition sample_round :: round where
  "sample_round = \<lparr>rd_lease_now = 0, rd_lease_now' = 0, rd_renew_now = 0, rd_markets = [],
     rd_env = sample_env, rd_now = 0, rd_now' = 0\<rparr>"

definition sample_daemon :: daemon where
  "sample_daemon = \<lparr>dm_desk = sample_desk, dm_recon = Some (new_broker_recon_service None None None),
     dm_failover = None, dm_symbols = None, dm_running = True, dm_crash_recovered = False,
     dm_fatal_handler = True, dm_hook_installed = False\<rparr>"

theorem closed_gate_never_retried_witness:
  "\<exists>dm'. daemon_rounds counting_venue [sample_round, sample_round] (sample_daemon, 0) = (Inr (), (dm', 0)) \<and>
     dm_recon dm' = Some (new_broker_recon_service None None None)"
  using closed_gate_never_retried [of sample_daemon "new_broker_recon_service None None None" counting_venue
      "[sample_round, sample_round]" 0]
  by (auto simp: sample_daemon_def new_broker_recon_service_def can_accept_orders_def)

subsection \<open>Unconfirmed intents are never looked at\<close>

lemma daemon_reconcile_clean:
  assumes "dm_recon dm = Some s"
    and "local_reconciliation_state (dm_symbols dm) (dk_portfolio (dm_desk dm)) = (lpos, lord)"
    and "fetch_broker_state b env x = (Inr (bpos, bord), x')"
    and "books_agree bpos bord lpos lord" and "fresh_enough now (bs_reconciled_at s)"
  shows "\<exists>s' d1. daemon_reconcile b env now now' (dm, x) = (Inr True, (dm\<lparr>dm_recon := Some s', dm_desk := d1\<rparr>, x')) \<and>
    can_accept_orders s' \<and> dk_portfolio d1 = dk_portfolio (dm_desk dm)"
proof -
  have "drift bpos bord lpos lord [] now (bs_reconciled_at s) = []"
    using assms(4,5) by (simp add: drift_empty)
  then show ?thesis
    using assms(1-3)
    by (simp add: daemon_reconcile_def daemon_journal_pending_def reconcile_def handle_reconciliation_result_def
        can_accept_orders_def br_failed_def Let_def report_def)
      (rule exI, rule exI, rule conjI, rule refl, simp)
qed

text \<open>
  The daemon opens the gate over unconfirmed intents: with the journaled broker of the
  live stack, books that agree and a fresh last run, its reconciliation succeeds and accepts
  orders however many intents the journal still lists as pending.
\<close>

theorem daemon_ignores_unconfirmed_intents:
  assumes "dm_recon dm = Some s" and "journaled_pending jo \<noteq> []"
    and "local_reconciliation_state (dm_symbols dm) (dk_portfolio (dm_desk dm)) = (lpos, lord)"
    and "fetch_broker_state (journaled u v) env (jo, y) = (Inr (bpos, bord), x')"
    and "books_agree bpos bord lpos lord" and "fresh_enough now (bs_reconciled_at s)"
  shows "\<exists>dm' s'. daemon_reconcile (journaled u v) env now now' (dm, (jo, y)) = (Inr True, (dm', x')) \<and>
    dm_recon dm' = Some s' \<and> can_accept_orders s'"
  using daemon_reconcile_clean [OF assms(1,3-6), of now'] by (elim exE conjE) simp

text \<open>A journal whose only row is an intent that was never confirmed.\<close>

definition stuck_intent_journal :: journal where
  "stuck_intent_journal = [([L ''c1''], pending_row (Intent \<lparr>in_method = ''place_market_order'', in_market_id = ''m'',
     in_side = ''buy'', in_quantity = Fin 1, in_client_order_id = ''c1''\<rparr>))]"

theorem daemon_ignores_unconfirmed_intents_witness:
  "\<exists>dm' s' x'. daemon_reconcile (journaled (\<lambda>_. ''k'') counting_venue) sample_env 0 0
       (sample_daemon, (Some stuck_intent_journal, 0)) = (Inr True, (dm', x')) \<and>
     dm_recon dm' = Some s' \<and> can_accept_orders s'"
proof -
  have fetch: "fetch_broker_state (journaled (\<lambda>_. ''k'') counting_venue) sample_env (Some stuck_intent_journal, 0) =
      (Inr ([], []), (Some stuck_intent_journal, 0))"
    by (simp add: fetch_broker_state_def journaled_def through_def counting_venue_def)
  have pending: "journaled_pending (Some stuck_intent_journal) \<noteq> []"
    by (simp add: journaled_pending_def stuck_intent_journal_def pending_row_def pending_events_def map_filter_def)
  have locals: "local_reconciliation_state (dm_symbols sample_daemon) (dk_portfolio (dm_desk sample_daemon)) = ([], [])"
    by (simp add: local_reconciliation_state_def sample_daemon_def sample_desk_def empty_portfolio_def
        positions_list_open_def trades_get_open_def repo_list_def map_filter_def)
  show ?thesis
    using daemon_ignores_unconfirmed_intents [OF _ pending locals fetch,
        of "new_broker_recon_service None None None" 0 0]
    by (auto simp: sample_daemon_def books_agree_def fresh_enough_def new_broker_recon_service_def)
qed

subsection \<open>The fatal hook is gone when it is needed\<close>

lemma daemon_reconcile_frame:
  "daemon_reconcile b env now now' (dm, x) = (r, (dm', x')) \<Longrightarrow>
     dm_fatal_handler dm' = dm_fatal_handler dm \<and> dm_hook_installed dm' = dm_hook_installed dm"
  by (auto simp: daemon_reconcile_def Let_def split: option.splits prod.splits sum.splits)

lemma startup_reconcile_frame:
  "startup_reconcile b env now now' (dm, x) = (r, (dm', x')) \<Longrightarrow>
     dm_fatal_handler dm' = dm_fatal_handler dm \<and> dm_hook_installed dm' = dm_hook_installed dm"
  by (auto simp: startup_reconcile_def split: if_splits dest: daemon_reconcile_frame)

lemma daemon_round_frame:
  assumes "daemon_round b rd (dm, x) = (r, (dm', x'))"
  shows "dm_fatal_handler dm' = dm_fatal_handler dm \<and> dm_hook_installed dm' = dm_hook_installed dm"
proof -
  obtain l dm1 where lead: "take_lead rd dm = (l, dm1)" by (cases "take_lead rd dm")
  note frame = take_lead_frame [OF lead]
  show ?thesis
    using assms frame lead
    by (auto simp: daemon_round_def on_desk_def sbind_def Let_def dest!: daemon_reconcile_frame
        split: if_splits prod.splits sum.splits)
qed

lemma daemon_rounds_frame:
  "daemon_rounds b rds st = (r, st') \<Longrightarrow>
     dm_fatal_handler (fst st') = dm_fatal_handler (fst st) \<and> dm_hook_installed (fst st') = dm_hook_installed (fst st)"
proof (induction rds arbitrary: st)
  case (Cons rd rds)
  obtain q st1 where one: "daemon_round b rd st = (q, st1)" by (cases "daemon_round b rd st")
  then have "dm_fatal_handler (fst st1) = dm_fatal_handler (fst st) \<and> dm_hook_installed (fst st1) = dm_hook_installed (fst st)"
    using daemon_round_frame [of b rd "fst st" "snd st" q "fst st1" "snd st1"] by simp
  then show ?case
    using Cons.IH [of st1] Cons.prems one by (cases q) auto
qed simp

lemma startup_recovery_frame:
  "startup_recovery now crashed dm = (r, dm') \<Longrightarrow>
     dm_fatal_handler dm' = dm_fatal_handler dm \<and> dm_hook_installed dm' = dm_hook_installed dm"
  by (auto simp: startup_recovery_def recover_from_crash_def on_desk_def Let_def
      split: if_splits sum.splits prod.splits)

lemma run_forever_no_hook:
  assumes "run_forever b crashed env now now' rds (dm, x) = (r, (dm', x'))" and "\<not> dm_hook_installed dm"
  shows "\<not> dm_hook_installed dm'"
proof -
  obtain q dm1 where rec: "startup_recovery now crashed dm = (q, dm1)"
    by (cases "startup_recovery now crashed dm")
  note f1 = startup_recovery_frame [OF rec]
  show ?thesis
  proof (cases q)
    case (Inr u)
    obtain ok dm2 x2 where recon: "startup_reconcile b env now now' (dm1, x) = (ok, (dm2, x2))"
      by (metis prod_cases3)
    note f2 = startup_reconcile_frame [OF recon]
    show ?thesis
      using assms rec Inr recon f1 f2
      by (cases ok) (auto simp: run_forever_def Let_def dest!: daemon_rounds_frame
          split: prod.splits if_splits)
  qed (use assms rec f1 in \<open>auto simp: run_forever_def\<close>)
qed

text \<open>
  The fatal-exception handler never sees an exception of the daemon: whenever
  run_forever raises, the hook is uninstalled by the time the exception reaches the
  interpreter, so nothing of the freeze happens: no alert, no audit entry and no flatten.
\<close>

theorem escaping_exception_finds_no_hook:
  assumes "run_forever b crashed env now now' rds (dm, x) = (Inl e, (dm', x'))" and "\<not> dm_hook_installed dm"
  shows "uncaught b nonce envs exc_name detail trace (dm', x') = (dm', x')"
  using run_forever_no_hook [OF assms] by (simp add: uncaught_def)

text \<open>A venue that answers one position read per window: the startup reconciliation passes,
  and the periodic one of the first round raises.\<close>

definition throttled_site :: "daemon \<times> rate_limiter \<times> int" where
  "throttled_site = (sample_daemon, (new_rate_limiter 1 (Fin 1), 0))"

definition read_limiter :: rate_limiter where
  "read_limiter = \<lparr>rl_max_requests = 1, rl_window_seconds = Fin 1,
     rl_buckets = [(''get_positions'', [Fin 0]), (''get_open_orders'', [Fin 0])]\<rparr>"

lemma first_read:
  "fetch_broker_state (rate_limited True counting_venue) sample_env (new_rate_limiter 1 (Fin 1), 0) =
     (Inr ([], []), (read_limiter, 0))"
  by (simp add: fetch_broker_state_def rate_limited_def rl_guarded_def rl_check_def new_rate_limiter_def
      rl_recent_def rl_set_def dict_get_def through_def counting_venue_def sample_env_def read_limiter_def)

lemma second_read:
  "fetch_broker_state (rate_limited True counting_venue) sample_env (read_limiter, 0) =
     (Inl RateLimitExceededError, (read_limiter, 0))"
  by (simp add: fetch_broker_state_def rate_limited_def rl_guarded_def rl_check_def
      rl_recent_def rl_set_def dict_get_def sample_env_def read_limiter_def float_eval)

lemma sample_locals:
  "local_reconciliation_state (dm_symbols sample_daemon) (dk_portfolio (dm_desk sample_daemon)) = ([], [])"
  by (simp add: local_reconciliation_state_def sample_daemon_def sample_desk_def empty_portfolio_def
      positions_list_open_def trades_get_open_def repo_list_def map_filter_def)

lemma throttled_run:
  "fst (run_forever (rate_limited True counting_venue) False sample_env 0 0 [sample_round] throttled_site) =
     Inl RateLimitExceededError"
proof -
  let ?b = "rate_limited True counting_venue"
  define dm0 where "dm0 = on_desk (notify INFO ''Startup Reconciliation'' [L ''Reconciling broker state'']) sample_daemon"
  have dm0: "dm_recon dm0 = Some (new_broker_recon_service None None None)" "dm_failover dm0 = None"
    and locals: "local_reconciliation_state (dm_symbols dm0) (dk_portfolio (dm_desk dm0)) = ([], [])"
    using sample_locals by (simp_all add: dm0_def on_desk_def sample_daemon_def notify_def)
  have agree: "books_agree [] [] [] []" "fresh_enough 0 (bs_reconciled_at (new_broker_recon_service None None None))"
    by (simp_all add: books_agree_def fresh_enough_def new_broker_recon_service_def)
  obtain s' d1 where first: "daemon_reconcile ?b sample_env 0 0 (dm0, (new_rate_limiter 1 (Fin 1), 0)) =
      (Inr True, (dm0\<lparr>dm_recon := Some s', dm_desk := d1\<rparr>, (read_limiter, 0)))" and opened: "can_accept_orders s'"
    using daemon_reconcile_clean [OF dm0(1) locals first_read agree, of 0] by (elim exE conjE) (rule that)
  have "startup_reconcile ?b sample_env 0 0 throttled_site = daemon_reconcile ?b sample_env 0 0
      (dm0, (new_rate_limiter 1 (Fin 1), 0))"
    by (simp add: startup_reconcile_def throttled_site_def dm0_def) (simp add: sample_daemon_def)
  note start = this [unfolded first]
  have recovered: "startup_recovery 0 False (fst throttled_site) = (Inr no_recon, fst throttled_site)"
    by (simp add: startup_recovery_def)
  have periodic: "\<exists>st. daemon_reconcile ?b sample_env 0 0 (dm, (read_limiter, 0)) = (Inl RateLimitExceededError, st)"
    if "dm_recon dm \<noteq> None" for dm
    using that by (auto simp: daemon_reconcile_def reconcile_def second_read broker_failure_caught_def split_def)
  let ?dm = "(daemon_start (dm0\<lparr>dm_recon := Some s', dm_desk := d1\<rparr>))\<lparr>dm_hook_installed := dm_fatal_handler dm0\<rparr>"
  have lead: "take_lead sample_round ?dm = (True, ?dm)"
    using dm0(2) by (simp add: take_lead_def daemon_start_def on_desk_def)
  obtain st where "daemon_reconcile ?b sample_env 0 0
      (?dm\<lparr>dm_desk := share_recon (Some s') (dm_desk ?dm)\<rparr>, (read_limiter, 0)) = (Inl RateLimitExceededError, st)"
    using periodic [of "?dm\<lparr>dm_desk := share_recon (Some s') (dm_desk ?dm)\<rparr>"] by (auto simp: daemon_start_def)
  then have "daemon_round ?b sample_round (?dm, (read_limiter, 0)) = (Inl RateLimitExceededError, st)"
    using lead opened by (simp add: daemon_round_def sample_round_def daemon_start_def sbind_def)
  then show ?thesis
    using start recovered by (simp add: run_forever_def sbind_def split_def Let_def)
qed

theorem escaping_exception_finds_no_hook_witness:
  "case run_forever (rate_limited True counting_venue) False sample_env 0 0 [sample_round] throttled_site of
     (r, st) \<Rightarrow> r = Inl RateLimitExceededError \<and>
       uncaught (rate_limited True counting_venue) ''n'' (\<lambda>_. sample_env) ''RateLimitExceededError'' [] [] st = st"
proof -
  have "fst (run_forever (rate_limited True counting_venue) False sample_env 0 0 [sample_round] throttled_site) =
      Inl RateLimitExceededError"
    using throttled_run by simp
  moreover have "\<not> dm_hook_installed (fst throttled_site)" by (simp add: throttled_site_def sample_daemon_def)
  ultimately show ?thesis
    using escaping_exception_finds_no_hook [of "rate_limited True counting_venue" False sample_env 0 0 "[sample_round]"
        "fst throttled_site" "snd throttled_site" RateLimitExceededError]
    by (auto split: prod.splits)
qed

end
