(* ===== verification/BrainGate.thy ===== *)
theory BrainGate
  imports Brain Daemon
begin

text \<open>
  The gate the Brain puts before a cycle: \<open>_brain_gate\<close> of
  \<open>application/daemon_controller.py\<close> and its place in the loop over the markets, and
  \<open>_warm_brain_from_store\<close> of \<open>application/async_daemon.py\<close>, which does the same warming.

  A gatekeeper is what a daemon keeps of its Brain; the feed of history is a parameter.
\<close>

record gatekeeper =
  gk_brain :: brain
  gk_history :: nat
  gk_feed :: "(uuid \<Rightarrow> nat \<Rightarrow> bar list res) option"
  gk_warmed :: "uuid list"
  gk_advised :: int

definition warm_brain :: "uuid \<Rightarrow> gatekeeper \<Rightarrow> unit res \<times> gatekeeper" where
  "warm_brain m gk =
     (if m \<in> set (gk_warmed gk) then (Inr (), gk)
      else
      let done = (\<lambda>br. (Inr (), gk\<lparr>gk_brain := br, gk_warmed := m # gk_warmed gk\<rparr>)) in
      case warm_from_store m (gk_history gk) (gk_brain gk) of
        (True, br) \<Rightarrow> done br
      | (False, br) \<Rightarrow>
          (case gk_feed gk of
             None \<Rightarrow> done br
           | Some feed \<Rightarrow>
               (case feed m (gk_history gk) of
                  Inl e \<Rightarrow> (Inl e, gk\<lparr>gk_brain := br\<rparr>)
                | Inr bars \<Rightarrow> done (if bars = [] then br else seed_candles m bars br))))"

text \<open>The reason of an advice, as the audit trail and the event carry it.\<close>

fun stage_value :: "trend_stage \<Rightarrow> string" where
  "stage_value ACCUMULATION = ''accumulation''"
| "stage_value MARKUP = ''markup''"
| "stage_value DISTRIBUTION = ''distribution''"
| "stage_value MARKDOWN = ''markdown''"
| "stage_value UNKNOWN_STAGE = ''unknown''"

definition rationale_text :: "snapshot \<Rightarrow> fstring" where
  "rationale_text sn =
     [L ''regime='', L (regime_value (sn_regime sn)), L '' stage='', L (stage_value (sn_stage sn)),
      L '' momentum='', FX 4 (sn_momentum sn), L '' rsi='', FX 1 (sn_rsi sn), L '' vol_pct='', FX 2 (sn_volatility sn)]"

definition reason_text :: "advice \<Rightarrow> fstring" where
  "reason_text a =
     (case ad_reason a of
        WarmingUp \<Rightarrow> [L ''brain warming up: insufficient data'']
      | RangeBound r s \<Rightarrow>
          [L ''range-bound ('', L (regime_value r), L '' / '', L (stage_value s), L ''): no directional edge'']
      | BelowThreshold r s c \<Rightarrow>
          [L ''trend present ('', L (regime_value r), L '' / '', L (stage_value s), L '') but confidence '',
           FX 2 c, L '' below action threshold'']
      | Advised \<Rightarrow> rationale_text (ad_snapshot a))"

definition move_text :: "uuid \<Rightarrow> advice \<Rightarrow> move \<Rightarrow> fstring" where
  "move_text m a mv =
     [L ''market='', L m, L '' direction='', L (mv_direction mv), L '' confidence='', F (mv_confidence mv),
      L '' risk='', F (mv_risk_fraction mv), L '' ''] @ rationale_text (ad_snapshot a)"

text \<open>
  What either daemon does with an advice: the names of its counters, audit entries and
  resource differ by a prefix.
\<close>

definition announce_advice :: "string \<Rightarrow> uuid \<Rightarrow> advice \<Rightarrow> desk \<Rightarrow> bool res \<times> desk" where
  "announce_advice who m a d =
     (if ad_allowed a
      then (let d1 = dk_count (who @ ''_daemon.brain_advised'') d in
        case ad_moves a of
          [] \<Rightarrow> (Inl IndexError, d1)
        | best # _ \<Rightarrow>
            (Inr True,
             dk_publish ''brain.advice''
               ([L m, L ''True'', L (mv_direction best), F (mv_confidence best), F (mv_risk_fraction best)] @ reason_text a)
               (dk_log (who @ ''.brain.advice'') (who @ ''_daemon'') (move_text m a best) d1)))
      else
        (Inr False,
         dk_publish ''brain.advice'' ([L m, L ''False''] @ reason_text a)
           (dk_log (who @ ''.brain.blocked'') (who @ ''_daemon'') ([L ''market='', L m, L '' reason=''] @ reason_text a)
             (dk_count (who @ ''_daemon.brain_blocks'') d))))"

definition brain_gate :: "datetime \<Rightarrow> uuid \<Rightarrow> gatekeeper \<times> desk \<Rightarrow> bool res \<times> gatekeeper \<times> desk" where
  "brain_gate now m st =
     (case st of (gk, d) \<Rightarrow>
      case warm_brain m gk of
        (Inl e, gk1) \<Rightarrow> (Inl e, (gk1, d))
      | (Inr _, gk1) \<Rightarrow>
          (case advise now m (gk_brain gk1) of
             Inl e \<Rightarrow> (Inl e, (gk1, d))
           | Inr a \<Rightarrow>
               (case announce_advice ''sync'' m a d of
                  (r, d1) \<Rightarrow>
                    (r, ((if ad_allowed a then gk1\<lparr>gk_advised := gk_advised gk1 + 1\<rparr> else gk1), d1)))))"

text \<open>
  One market of the loop with the gate: between the price and the cycle, inside the same
  \<open>try\<close>, and absent when no Brain is wired.
\<close>

type_synonym turn = "tick \<times> float64 option res \<times> datetime \<times> evaluation list"

definition turn_market :: "turn \<Rightarrow> uuid" where
  "turn_market t = tk_market (fst t)"

definition panic :: "uuid \<Rightarrow> desk \<Rightarrow> desk" where
  "panic m d = report False (''market.'' @ m) [L ''error''] (notify WARNING ''Cycle Panic'' [L m, L '': error''] d)"

definition gated_turn ::
  "'s broker \<Rightarrow> datetime \<Rightarrow> turn \<Rightarrow> gatekeeper option \<times> 's floor \<Rightarrow> unit res \<times> gatekeeper option \<times> 's floor" where
  "gated_turn b now t st =
     (case st of (gk, (d, x)) \<Rightarrow>
      let go = (\<lambda>gk' d'. case market_turn b t (d', x) of (r, st') \<Rightarrow> (r, (gk', st'))) in
      case (gk, fst (snd t)) of
        (Some g, Inr (Some _)) \<Rightarrow>
          (case brain_gate now (turn_market t) (g, d) of
             (Inl e, (g1, d1)) \<Rightarrow>
               if \<not> cycle_caught e then (Inl e, (Some g1, (d1, x)))
               else (Inr (), (Some g1, (panic (turn_market t) d1, x)))
           | (Inr False, (g1, d1)) \<Rightarrow> (Inr (), (Some g1, (d1, x)))
           | (Inr True, (g1, d1)) \<Rightarrow> go (Some g1) d1)
      | _ \<Rightarrow> go gk d)"

fun gated_turns ::
  "'s broker \<Rightarrow> datetime \<Rightarrow> turn list \<Rightarrow> gatekeeper option \<times> 's floor \<Rightarrow> unit res \<times> gatekeeper option \<times> 's floor" where
  "gated_turns b now [] st = (Inr (), st)"
| "gated_turns b now (t # ts) st = sbind (gated_turn b now t st) (\<lambda>_ st1. gated_turns b now ts st1)"

subsection \<open>The gate is closed until there is enough history\<close>

lemma warm_once: "m \<in> set (gk_warmed gk) \<Longrightarrow> warm_brain m gk = (Inr (), gk)"
  by (simp add: warm_brain_def)

lemma warm_brain_warmed: "warm_brain m gk = (Inr (), gk') \<Longrightarrow> m \<in> set (gk_warmed gk')"
  by (auto simp: warm_brain_def Let_def split: if_splits prod.splits bool.splits option.splits sum.splits)

lemma announce_advice_decision:
  "announce_advice p m a d = (r, d') \<Longrightarrow> r = (if ad_allowed a then if ad_moves a = [] then Inl IndexError else Inr True else Inr False)
     \<and> dk_portfolio d' = dk_portfolio d"
  by (auto simp: announce_advice_def dk_log_def Let_def split: if_splits list.splits)

lemma brain_gate_open:
  assumes "brain_gate now m (gk, d) = (Inr True, (gk', d'))"
  shows "\<exists>a mv. advise now m (gk_brain gk') = Inr a \<and> ad_allowed a \<and> ad_moves a = [mv] \<and>
           br_min_candles (gk_brain gk') \<le> length (bv_bars (view_of m (gk_brain gk')))"
proof -
  obtain gk1 a where g: "warm_brain m gk = (Inr (), gk1)" "advise now m (gk_brain gk1) = Inr a" "ad_allowed a"
      "gk_brain gk' = gk_brain gk1"
    using assms by (auto simp: brain_gate_def split: prod.splits sum.splits if_splits dest: announce_advice_decision)
  from advise_allowed [OF g(2,3)] snapshot_known show ?thesis using g by fastforce
qed

lemma brain_gate_frame:
  "brain_gate now m (gk, d) = (r, (gk', d')) \<Longrightarrow> dk_portfolio d' = dk_portfolio d"
  by (auto simp: brain_gate_def split: prod.splits sum.splits dest: announce_advice_decision)


lemma market_turn_no_price:
  "market_turn b (tk, Inl e, now, evs) (d, x) = (r, (d', x')) \<Longrightarrow> x' = x \<and> dk_portfolio d' = dk_portfolio d"
  "market_turn b (tk, Inr None, now, evs) (d, x) = (r, (d', x')) \<Longrightarrow> x' = x \<and> dk_portfolio d' = dk_portfolio d"
  by (auto simp: market_turn_def split: if_splits)

text \<open>
  C33. With a Brain wired, a turn of the daemon's loop reaches the broker or changes the portfolio
  only when the market has a price and the Brain, warmed for it, holds at least
  \<open>min_candles\<close> bars and grants exactly one move; in every other case (no price, a failing
  history feed, an error of the read, too few bars, no trend, low confidence) both stay as
  they were, whatever the strategies would have done.
\<close>

theorem brain_guards_every_turn:
  assumes "gated_turn b now t (Some gk, (d, x)) = (r, (gk', (d', x')))"
  shows "(x' = x \<and> dk_portfolio d' = dk_portfolio d) \<or>
    (\<exists>g a mv p. gk' = Some g \<and> fst (snd t) = Inr (Some p) \<and> advise now (turn_market t) (gk_brain g) = Inr a \<and>
       ad_allowed a \<and> ad_moves a = [mv] \<and> br_min_candles (gk_brain g) \<le> length (bv_bars (view_of (turn_market t) (gk_brain g))))"
proof -
  obtain tk price at_now evs where t: "t = (tk, price, at_now, evs)" by (cases t)
  consider (e) e where "price = Inl e" | (none) "price = Inr None" | (p) p where "price = Inr (Some p)"
    by (metis sum.exhaust option.exhaust)
  then show ?thesis
  proof cases
    case e
    then show ?thesis using assms t market_turn_no_price(1) [of b tk e at_now evs d x]
      by (auto simp: gated_turn_def Let_def split: prod.splits)
  next
    case none
    then show ?thesis using assms t market_turn_no_price(2) [of b tk at_now evs d x]
      by (auto simp: gated_turn_def Let_def split: prod.splits)
  next
    case p
    obtain q g1 d1 where gate: "brain_gate now (turn_market t) (gk, d) = (q, (g1, d1))" by (metis prod_cases3)
    note frame = brain_gate_frame [OF gate]
    show ?thesis
    proof (cases "q = Inr True")
      case True
      then have "gk' = Some g1" using assms gate p t by (auto simp: gated_turn_def Let_def split: prod.splits)
      with brain_gate_open [of now "turn_market t" gk d g1 d1] gate True p t show ?thesis by auto
    next
      case False
      then show ?thesis
        using assms gate p t frame
        by (auto simp: gated_turn_def panic_def Let_def split: sum.splits bool.splits if_splits)
    qed
  qed
qed

text \<open>A Brain that has seen nothing: its gate refuses, so the market is not traded.\<close>

definition blind_gatekeeper :: gatekeeper where
  "blind_gatekeeper = \<lparr>gk_brain = new_brain None, gk_history = 300, gk_feed = None, gk_warmed = [], gk_advised = 0\<rparr>"

definition sample_turn :: turn where
  "sample_turn = (sample_tick, Inr (Some 1), 0, [])"

theorem brain_guards_every_turn_witness:
  "\<exists>r gk' d'. gated_turn counting_venue 0 sample_turn (Some blind_gatekeeper, (sample_desk, 0)) = (r, (gk', (d', 0))) \<and>
     dk_portfolio d' = dk_portfolio sample_desk"
proof -
  obtain r gk' d' x' where run:
    "gated_turn counting_venue 0 sample_turn (Some blind_gatekeeper, (sample_desk, 0)) = (r, (gk', (d', x')))"
    by (metis prod_cases4)
  have "x' = 0 \<and> dk_portfolio d' = dk_portfolio sample_desk"
  proof (rule ccontr)
    assume "\<not> ?thesis"
    then obtain g where g: "gk' = Some g"
        "br_min_candles (gk_brain g) \<le> length (bv_bars (view_of (turn_market sample_turn) (gk_brain g)))"
      using brain_guards_every_turn [OF run] by blast
    moreover have "gk_brain g = new_brain None"
      using run g(1) by (auto simp: gated_turn_def sample_turn_def blind_gatekeeper_def brain_gate_def warm_brain_def
          warm_from_store_def new_brain_def advise_def snapshot_of_def view_of_def dict_get_def empty_view_def
          unknown_snapshot_def announce_advice_def Let_def split: if_splits)
    ultimately show False
      by (simp add: new_brain_def view_of_def dict_get_def empty_view_def)
  qed
  with run show ?thesis by blast
qed

end
