(* ===== verification/AsyncDaemon.thy ===== *)
theory AsyncDaemon
  imports BrainGate
begin

text \<open>
  \<open>application/async_daemon.py\<close>: the tick-driven daemon.

  The event loop runs one piece of Python at a time: the body of \<open>handle_tick\<close> up to its only
  \<open>await\<close> is one step, the wait for the worker thread lets every other task run, and what
  follows the \<open>await\<close> is another step.  Tasks start in the order they were scheduled.  A run
  is the sequence of these steps; a cycle is known by its market, its price and the result
  the worker thread ends with.
\<close>

record feed_tick =
  ft_symbol :: string
  ft_source :: string
  ft_received :: datetime
  ft_tick :: price_tick

record async_daemon =
  ad_symbols :: "(uuid \<times> string) list"
  ad_routes :: "(string \<times> uuid) list"
  ad_gate :: "gatekeeper option"
  ad_desk :: desk
  ad_running :: bool
  ad_last_seen :: "(uuid \<times> datetime) list"
  ad_cycles_run :: int

text \<open>The constructor refuses a symbol that routes to two markets.\<close>

fun tick_routes :: "(uuid \<times> string) list \<Rightarrow> (string \<times> uuid) list \<Rightarrow> (string \<times> uuid) list res" where
  "tick_routes [] routes = Inr routes"
| "tick_routes ((m, sy) # rest) routes =
     (if map_of routes sy \<noteq> None then Inl ValueError else tick_routes rest (routes @ [(sy, m)]))"

definition new_async_daemon :: "(uuid \<times> string) list \<Rightarrow> gatekeeper option \<Rightarrow> desk \<Rightarrow> async_daemon res" where
  "new_async_daemon symbols gate d =
     rbind (tick_routes symbols []) (\<lambda>routes.
       Inr \<lparr>ad_symbols = symbols, ad_routes = routes, ad_gate = gate, ad_desk = d, ad_running = False,
            ad_last_seen = [], ad_cycles_run = 0\<rparr>)"

definition at_desk :: "(desk \<Rightarrow> desk) \<Rightarrow> async_daemon \<Rightarrow> async_daemon" where
  "at_desk f ad = ad\<lparr>ad_desk := f (ad_desk ad)\<rparr>"

definition async_start :: "async_daemon \<Rightarrow> async_daemon" where
  "async_start ad = at_desk (\<lambda>d. notify INFO ''Orchestrator Started'' [L ''Trading mode (async)'']
       (dk_log ''orchestrator.start'' ''orchestrator'' [L ''mode async''] (report True ''orchestrator'' [L ''started (async)''] d)))
     (ad\<lparr>ad_running := True\<rparr>)"

definition async_stop :: "async_daemon \<Rightarrow> async_daemon" where
  "async_stop ad = at_desk (\<lambda>d. notify INFO ''Orchestrator Stopped'' []
       (dk_log ''orchestrator.stop'' ''orchestrator'' [] (report True ''orchestrator'' [L ''stopped (async)''] d)))
     (ad\<lparr>ad_running := False\<rparr>)"

subsection \<open>Deciding on a tick\<close>

text \<open>The part of the decision that asks the Brain: the answer is whether the cycle may go.\<close>

definition async_gate :: "datetime \<Rightarrow> uuid \<Rightarrow> price_tick \<Rightarrow> gatekeeper \<times> desk \<Rightarrow> bool res \<times> gatekeeper \<times> desk" where
  "async_gate now m t st =
     (case st of (gk, d) \<Rightarrow>
      case warm_brain m gk of
        (Inl e, gk1) \<Rightarrow> (Inl e, (gk1, d))
      | (Inr _, gk1) \<Rightarrow>
          (case update_tick m t (gk_brain gk1) of
             (Inl e, br) \<Rightarrow> (Inl e, (gk1\<lparr>gk_brain := br\<rparr>, d))
           | (Inr _, br) \<Rightarrow>
               (case advise now m br of
                  Inl e \<Rightarrow> (Inl e, (gk1\<lparr>gk_brain := br\<rparr>, d))
                | Inr a \<Rightarrow>
                    (case announce_advice ''async'' m a (dk_count ''async_daemon.brain_cycles'' d) of
                       (r, d1) \<Rightarrow>
                         (r, (gk1\<lparr>gk_brain := br,
                                  gk_advised := gk_advised gk1 + (if ad_allowed a then 1 else 0)\<rparr>, d1))))))"

text \<open>\<open>handle_tick\<close> up to its \<open>await\<close>: the market whose cycle is handed to a worker, if any.\<close>

definition tick_decision :: "datetime \<Rightarrow> feed_tick \<Rightarrow> async_daemon \<Rightarrow> uuid option res \<times> async_daemon" where
  "tick_decision now t ad =
     (case map_of (ad_routes ad) (ft_symbol t) of
        None \<Rightarrow>
          (Inr None, at_desk (\<lambda>d. notify WARNING ''Async Daemon'' [L ''tick for unwired symbol '', L (ft_symbol t), L '' ignored'']
             (dk_count ''async_daemon.unknown_symbol''
               (dk_log ''async.tick.unmapped'' ''async_daemon''
                 [L ''symbol='', L (ft_symbol t), L '' source='', L (ft_source t)] d))) ad)
      | Some m \<Rightarrow>
          if (case map_of (ad_last_seen ad) m of None \<Rightarrow> False | Some seen \<Rightarrow> ft_received t \<le> seen)
          then (Inr None, at_desk (dk_count ''async_daemon.stale_skipped'') ad)
          else
          let ad1 = at_desk (\<lambda>d. dk_log ''async.tick'' ''async_daemon''
                 [L ''market='', L m, L '' symbol='', L (ft_symbol t), L '' price='', F (pk_price (ft_tick t))]
                 (dk_count ''async_daemon.ticks'' d))
               (ad\<lparr>ad_last_seen := AList.update m (ft_received t) (ad_last_seen ad)\<rparr>) in
          (case ad_gate ad1 of
             None \<Rightarrow> (Inr (Some m), ad1)
           | Some gk \<Rightarrow>
               (case async_gate now m (ft_tick t) (gk, ad_desk ad1) of
                  (q, (gk1, d1)) \<Rightarrow>
                    (rbind q (\<lambda>ok. Inr (if ok then Some m else None)), ad1\<lparr>ad_gate := Some gk1, ad_desk := d1\<rparr>))))"

text \<open>\<open>handle_tick\<close> after its \<open>await\<close>, on what the worker thread ended with.\<close>

definition cycle_ended :: "uuid \<Rightarrow> unit res \<Rightarrow> async_daemon \<Rightarrow> unit res \<times> async_daemon" where
  "cycle_ended m r ad =
     (case r of
        Inl e \<Rightarrow>
          if cycle_caught e
          then (Inr (), at_desk (\<lambda>d. dk_count ''async_daemon.cycle_panics'' (panic m d)) ad)
          else (Inl e, ad)
      | Inr _ \<Rightarrow>
          (let n = ad_cycles_run ad + 1 in
           (Inr (), at_desk (\<lambda>d. report True (''market.'' @ m) [L ''cycle #'', Z n] (dk_count ''async_daemon.cycles'' d))
              (ad\<lparr>ad_cycles_run := n\<rparr>))))"

subsection \<open>The event loop\<close>

text \<open>
  The loop keeps the tasks not yet started, the cycles a worker thread is running (with the
  tick that started each and whether its task is still awaiting it) and, for the statements,
  every launch in order.
\<close>

record worker =
  wk_market :: uuid
  wk_received :: datetime
  wk_price :: float64
  wk_awaited :: bool

record event_loop =
  el_daemon :: async_daemon
  el_tasks :: "feed_tick list"
  el_workers :: "worker list"
  el_launches :: "worker list"

datatype loop_event = TickIn feed_tick | Turn datetime | Ended nat "unit res" | StopLoop | Cancel

definition launch :: "feed_tick \<Rightarrow> uuid \<Rightarrow> worker" where
  "launch t m = \<lparr>wk_market = m, wk_received = ft_received t, wk_price = pk_price (ft_tick t), wk_awaited = True\<rparr>"

definition drop_nth :: "nat \<Rightarrow> 'a list \<Rightarrow> 'a list" where
  "drop_nth i xs = take i xs @ drop (Suc i) xs"

fun loop_step :: "loop_event \<Rightarrow> event_loop \<Rightarrow> event_loop" where
  "loop_step (TickIn t) el = el\<lparr>el_tasks := el_tasks el @ [t]\<rparr>"
| "loop_step (Turn now) el =
     (case el_tasks el of
        [] \<Rightarrow> el
      | t # ts \<Rightarrow>
          (case tick_decision now t (el_daemon el) of
             (Inr (Some m), ad) \<Rightarrow>
               el\<lparr>el_daemon := ad, el_tasks := ts, el_workers := el_workers el @ [launch t m],
                  el_launches := el_launches el @ [launch t m]\<rparr>
           | (_, ad) \<Rightarrow> el\<lparr>el_daemon := ad, el_tasks := ts\<rparr>))"
| "loop_step (Ended i r) el =
     (if i < length (el_workers el)
      then (let w = el_workers el ! i; rest = drop_nth i (el_workers el) in
            if wk_awaited w
            then el\<lparr>el_daemon := snd (cycle_ended (wk_market w) r (el_daemon el)), el_workers := rest\<rparr>
            else el\<lparr>el_workers := rest\<rparr>)
      else el)"
| "loop_step StopLoop el = el\<lparr>el_daemon := async_stop (el_daemon el)\<rparr>"
| "loop_step Cancel el =
     el\<lparr>el_tasks := [], el_workers := map (\<lambda>w. w\<lparr>wk_awaited := False\<rparr>) (el_workers el)\<rparr>"

definition loop_run :: "loop_event list \<Rightarrow> event_loop \<Rightarrow> event_loop" where
  "loop_run steps el = foldl (\<lambda>el s. loop_step s el) el steps"

definition fresh_loop :: "async_daemon \<Rightarrow> event_loop" where
  "fresh_loop ad = \<lparr>el_daemon = ad, el_tasks = [], el_workers = [], el_launches = []\<rparr>"

text \<open>\<open>run_forever\<close>: no ingestor, no loop; then the pipeline's steps, the stop, and the drain,
  whose timeout cancels the tasks that are still pending.\<close>

definition async_run_forever :: "bool \<Rightarrow> loop_event list \<Rightarrow> loop_event list \<Rightarrow> async_daemon \<Rightarrow> unit res \<times> event_loop" where
  "async_run_forever ingestor pipeline drain ad =
     (if \<not> ingestor then (Inl ServiceError, fresh_loop ad)
      else (Inr (), loop_step Cancel (loop_run drain (loop_step StopLoop (loop_run pipeline (fresh_loop (async_start ad)))))))"


subsection \<open>Cycles are launched by fresh ticks of wired markets\<close>

lemma at_desk_frame [simp]:
  "ad_routes (at_desk f ad) = ad_routes ad" "ad_last_seen (at_desk f ad) = ad_last_seen ad"
  "ad_gate (at_desk f ad) = ad_gate ad"
  by (simp_all add: at_desk_def)

text \<open>A decision keeps the routes, and the instant last seen of every market never goes back.\<close>

definition seen_before :: "uuid \<Rightarrow> datetime \<Rightarrow> async_daemon \<Rightarrow> bool" where
  "seen_before m ts ad = (case map_of (ad_last_seen ad) m of None \<Rightarrow> False | Some seen \<Rightarrow> ts \<le> seen)"

lemma tick_decision_cases:
  assumes "tick_decision now t ad = (q, ad')"
  shows "ad_routes ad' = ad_routes ad \<and>
    (ad_last_seen ad' = ad_last_seen ad \<and> q = Inr None \<or>
     (\<exists>m. map_of (ad_routes ad) (ft_symbol t) = Some m \<and> \<not> seen_before m (ft_received t) ad \<and>
        ad_last_seen ad' = AList.update m (ft_received t) (ad_last_seen ad) \<and> q \<in> {Inr (Some m), Inr None} \<union> range Inl))"
proof (cases "map_of (ad_routes ad) (ft_symbol t)")
  case None
  then show ?thesis using assms by (auto simp: tick_decision_def)
next
  case (Some m)
  show ?thesis
  proof (cases "seen_before m (ft_received t) ad")
    case True
    then show ?thesis using assms Some by (auto simp: tick_decision_def seen_before_def)
  next
    case False
    have q: "rbind r (\<lambda>ok. Inr (if ok then Some m else None)) \<in> {Inr (Some m), Inr None} \<union> range Inl" for r :: "bool res"
      by (cases r) auto
    show ?thesis
      using assms Some False q by (auto simp: tick_decision_def seen_before_def [symmetric] Let_def split: option.splits prod.splits)
  qed
qed

definition launches_of :: "uuid \<Rightarrow> event_loop \<Rightarrow> datetime list" where
  "launches_of m el = map wk_received (filter (\<lambda>w. wk_market w = m) (el_launches el))"

definition routed :: "(string \<times> uuid) list \<Rightarrow> uuid \<Rightarrow> bool" where
  "routed routes m \<longleftrightarrow> m \<in> set (dict_values routes)"

definition loop_inv :: "(string \<times> uuid) list \<Rightarrow> event_loop \<Rightarrow> bool" where
  "loop_inv routes el \<longleftrightarrow> ad_routes (el_daemon el) = routes \<and>
     (\<forall>w \<in> set (el_launches el). routed routes (wk_market w) \<and> seen_before (wk_market w) (wk_received w) (el_daemon el)) \<and>
     (\<forall>m. sorted_wrt (<) (launches_of m el))"

lemma seen_before_update:
  "seen_before m ts ad \<Longrightarrow> \<not> seen_before m' ts' ad \<Longrightarrow> ad_last_seen ad' = AList.update m' ts' (ad_last_seen ad) \<Longrightarrow>
     seen_before m ts ad'"
  by (auto simp: seen_before_def update_conv split: option.splits)

lemma seen_before_now: "ad_last_seen ad' = AList.update m ts (ad_last_seen ad) \<Longrightarrow> seen_before m ts ad'"
  by (simp add: seen_before_def update_conv)

lemma seen_before_less: "seen_before m ts ad \<Longrightarrow> \<not> seen_before m ts' ad \<Longrightarrow> ts < ts'"
  by (auto simp: seen_before_def split: option.splits)

lemma cycle_ended_frame:
  "ad_routes (snd (cycle_ended m r ad)) = ad_routes ad" "ad_last_seen (snd (cycle_ended m r ad)) = ad_last_seen ad"
  by (auto simp: cycle_ended_def Let_def split: sum.splits)

lemma loop_inv_same:
  assumes "loop_inv routes el" and "ad_routes (el_daemon el') = ad_routes (el_daemon el)"
    and "ad_last_seen (el_daemon el') = ad_last_seen (el_daemon el)" and "el_launches el' = el_launches el"
  shows "loop_inv routes el'"
  using assms by (auto simp: loop_inv_def seen_before_def launches_of_def)

lemma loop_step_inv:
  assumes "loop_inv routes el"
  shows "loop_inv routes (loop_step s el)"
proof (cases s)
  case (Turn now)
  show ?thesis
  proof (cases "el_tasks el")
    case Nil
    then show ?thesis using assms Turn by simp
  next
    case (Cons t ts)
    obtain q ad where dec: "tick_decision now t (el_daemon el) = (q, ad)" by fastforce
    consider "ad_last_seen ad = ad_last_seen (el_daemon el)" "q = Inr None"
      | m where "map_of (ad_routes (el_daemon el)) (ft_symbol t) = Some m" "\<not> seen_before m (ft_received t) (el_daemon el)"
          "ad_last_seen ad = AList.update m (ft_received t) (ad_last_seen (el_daemon el))"
          "q \<in> {Inr (Some m), Inr None} \<union> range Inl"
      using tick_decision_cases [OF dec] by blast
    then show ?thesis
    proof cases
      case 1
      then show ?thesis
        using tick_decision_cases [OF dec] assms Turn Cons dec by (intro loop_inv_same [OF assms]) auto
    next
      case 2
      have routes: "ad_routes ad = routes" using tick_decision_cases [OF dec] assms by (simp add: loop_inv_def)
      have m: "routed routes m"
        using 2(1) assms by (auto simp: loop_inv_def routed_def dest!: map_of_SomeD intro!: image_eqI [of _ snd])
      have old: "\<forall>w \<in> set (el_launches el). seen_before (wk_market w) (wk_received w) ad"
        using assms seen_before_update [OF _ 2(2,3)] by (auto simp: loop_inv_def)
      have fresh: "w \<in> set (el_launches el) \<Longrightarrow> wk_market w = m \<Longrightarrow> wk_received w < ft_received t" for w
        using assms seen_before_less [OF _ 2(2)] by (auto simp: loop_inv_def)
      show ?thesis
        using assms Turn Cons dec routes m old fresh seen_before_now [OF 2(3)] 2(4)
        by (auto simp: loop_inv_def launches_of_def launch_def sorted_wrt_append)
    qed
  qed
next
  case (Ended i r)
  then show ?thesis
    using assms by (intro loop_inv_same [OF assms]) (auto simp: Let_def cycle_ended_frame)
qed (auto intro: loop_inv_same [OF assms] simp: async_stop_def)

lemma loop_run_inv: "loop_inv routes el \<Longrightarrow> loop_inv routes (loop_run steps el)"
  unfolding loop_run_def by (induction steps arbitrary: el) (simp_all add: loop_step_inv)

lemma tick_routes_markets:
  "tick_routes symbols acc = Inr routes \<Longrightarrow> snd ` set routes \<subseteq> snd ` set acc \<union> set (dict_keys symbols)"
  by (induction symbols acc rule: tick_routes.induct) (auto split: if_splits)

text \<open>
  Whatever ticks arrive, in whatever order the tasks start, the worker threads end and the
  loop is stopped: a cycle is only ever launched for a wired market, and the launches of one
  market carry strictly increasing reception times, so no stale or repeated tick trades.
\<close>

theorem launches_are_fresh_and_wired:
  "case new_async_daemon symbols gate d of
     Inl _ \<Rightarrow> True
   | Inr ad \<Rightarrow>
       (let el = loop_run steps (fresh_loop ad) in
        list_all (\<lambda>w. wk_market w \<in> set (dict_keys symbols)) (el_launches el) \<and>
        sorted_wrt (<) (launches_of m el))"
proof (cases "new_async_daemon symbols gate d")
  case (Inr ad)
  then obtain routes where routes: "tick_routes symbols [] = Inr routes" "ad_routes ad = routes" "ad_last_seen ad = []"
    by (auto simp: new_async_daemon_def elim!: rbind_eq_InrE)
  have "loop_inv routes (fresh_loop ad)"
    using routes by (simp add: loop_inv_def fresh_loop_def launches_of_def)
  then have inv: "loop_inv routes (loop_run steps (fresh_loop ad))" by (rule loop_run_inv)
  have known: "routed routes m \<Longrightarrow> m \<in> set (dict_keys symbols)" for m
    using tick_routes_markets [OF routes(1)] by (auto simp: routed_def)
  with inv show ?thesis using Inr by (simp add: loop_inv_def list_all_iff Let_def)
qed simp


subsection \<open>What the loop does not prevent\<close>

text \<open>
  What the loop does not prevent, for a daemon without a Brain and any wired symbol not seen
  yet: two ticks received one after the other put two cycles of the same market in flight at
  once, the second one launched after \<open>stop\<close>; and the cancellation that ends the drain
  leaves both worker threads running, only their tasks no longer wait for them.
\<close>

theorem cycles_overlap_and_outlive_the_loop:
  assumes "map_of (ad_routes ad) (ft_symbol t1) = Some m" and "ft_symbol t2 = ft_symbol t1"
    and "ft_received t1 < ft_received t2" and "map_of (ad_last_seen ad) m = None" and "ad_gate ad = None"
  shows "let el = loop_run [TickIn t1, TickIn t2, Turn now, StopLoop, Turn now', Cancel] (fresh_loop ad) in
     \<not> ad_running (el_daemon el) \<and> ad_cycles_run (el_daemon el) = ad_cycles_run ad \<and>
     el_workers el = [(launch t1 m)\<lparr>wk_awaited := False\<rparr>, (launch t2 m)\<lparr>wk_awaited := False\<rparr>]"
proof -
  obtain ad1 where d1: "tick_decision now t1 ad = (Inr (Some m), ad1)" and
    f1: "map_of (ad_routes ad1) (ft_symbol t1) = Some m" "map_of (ad_last_seen ad1) m = Some (ft_received t1)"
      "ad_gate ad1 = None" "ad_cycles_run ad1 = ad_cycles_run ad"
    using assms by (simp add: tick_decision_def at_desk_def update_conv Let_def)
  obtain ad2 where d2: "tick_decision now' t2 (async_stop ad1) = (Inr (Some m), ad2)" and
    f2: "ad_running ad2 = False" "ad_cycles_run ad2 = ad_cycles_run ad"
    using assms(2,3) f1 by (simp add: tick_decision_def async_stop_def at_desk_def Let_def)
  show ?thesis using d1 d2 f2 by (simp add: loop_run_def fresh_loop_def)
qed

definition sample_feed_tick :: "datetime \<Rightarrow> feed_tick" where
  "sample_feed_tick ts = \<lparr>ft_symbol = ''BTC'', ft_source = ''feed'', ft_received = ts, ft_tick = tick_at ts 1\<rparr>"

definition sample_async :: async_daemon where
  "sample_async = \<lparr>ad_symbols = [(''m'', ''BTC'')], ad_routes = [(''BTC'', ''m'')], ad_gate = None, ad_desk = sample_desk,
     ad_running = True, ad_last_seen = [], ad_cycles_run = 0\<rparr>"

theorem cycles_overlap_and_outlive_the_loop_witness:
  "length (el_workers (loop_run [TickIn (sample_feed_tick 1), TickIn (sample_feed_tick 2), Turn 0, StopLoop, Turn 0, Cancel]
     (fresh_loop sample_async))) = 2"
  using cycles_overlap_and_outlive_the_loop [of sample_async "sample_feed_tick 1" "''m''" "sample_feed_tick 2" 0 0]
  by (simp add: sample_async_def sample_feed_tick_def Let_def)

subsection \<open>The Brain guards every launch\<close>

lemma brain_guards_launch:
  assumes "tick_decision now t ad = (Inr (Some m), ad')" and "ad_gate ad = Some gk"
  shows "\<exists>gk' a mv. ad_gate ad' = Some gk' \<and> advise now m (gk_brain gk') = Inr a \<and> ad_allowed a \<and> ad_moves a = [mv] \<and>
     map_of (ad_routes ad) (ft_symbol t) = Some m \<and>
     br_min_candles (gk_brain gk') \<le> length (bv_bars (view_of m (gk_brain gk')))"
proof -
  from tick_decision_cases [OF assms(1)] have m: "map_of (ad_routes ad) (ft_symbol t) = Some m" by auto
  obtain d0 q gk1 d1 where g: "async_gate now m (ft_tick t) (gk, d0) = (q, (gk1, d1))" "q = Inr True" "ad_gate ad' = Some gk1"
    using assms m
    by (auto simp: tick_decision_def Let_def split: if_splits prod.splits option.splits elim!: rbind_eq_InrE)
  from g(1,2) obtain a where a: "advise now m (gk_brain gk1) = Inr a" "ad_allowed a"
    by (auto simp: async_gate_def split: prod.splits sum.splits if_splits dest!: announce_advice_decision)
  from advise_allowed [OF a] snapshot_known show ?thesis using a g(3) m by fastforce
qed

text \<open>
  With a Brain wired, a tick launches a cycle only when the Brain, having read that very tick,
  grants exactly one move on at least \<open>min_candles\<close> bars of the market the symbol routes to.
\<close>

theorem brain_guards_every_launch:
  "case tick_decision now t (ad\<lparr>ad_gate := Some gk\<rparr>) of
     (Inr (Some m), ad') \<Rightarrow>
       (\<exists>gk' a mv. ad_gate ad' = Some gk' \<and> advise now m (gk_brain gk') = Inr a \<and> ad_allowed a \<and> ad_moves a = [mv] \<and>
          map_of (ad_routes ad) (ft_symbol t) = Some m \<and>
          br_min_candles (gk_brain gk') \<le> length (bv_bars (view_of m (gk_brain gk'))))
   | _ \<Rightarrow> True"
  using brain_guards_launch [of now t "ad\<lparr>ad_gate := Some gk\<rparr>"] by (auto split: prod.split sum.split option.split)

end
