(* ===== verification/AuditChain.thy ===== *)
theory AuditChain
  imports Ports "HOL-Library.Sublist"
begin

text \<open>
  \<open>infrastructure/audit.py\<close>: the hash-chained audit trail.

  A timestamp is its \<open>isoformat()\<close> text and a character is a code point below 256.  The
  digest (\<open>hashlib.sha256(...).hexdigest()\<close>) is a parameter, and nothing is assumed of
  it: the theorem about tampering returns a collision when it fails.  The canonical text
  is modelled in full, as \<open>json.dumps\<close> writes a tuple of strings with
  \<open>ensure_ascii\<close>.
\<close>

subsection \<open>The canonical text\<close>

definition hex_digit :: "nat \<Rightarrow> char" where
  "hex_digit n = ''0123456789abcdef'' ! n"

abbreviation backslash :: char where "backslash \<equiv> CHR 0x5C"

abbreviation quote :: char where "quote \<equiv> CHR 0x22"

definition json_char :: "char \<Rightarrow> string" where
  "json_char c =
     (let n = of_char c :: nat in
      if c = quote then [backslash, quote]
      else if c = backslash then [backslash, backslash]
      else if c = CHR 0x0A then [backslash, CHR ''n'']
      else if c = CHR 0x0D then [backslash, CHR ''r'']
      else if c = CHR 0x09 then [backslash, CHR ''t'']
      else if c = CHR 0x0C then [backslash, CHR ''f'']
      else if c = CHR 0x08 then [backslash, CHR ''b'']
      else if 32 \<le> n \<and> n \<le> 126 then [c]
      else [backslash, CHR ''u'', CHR ''0'', CHR ''0'', hex_digit (n div 16), hex_digit (n mod 16)])"

definition json_string :: "string \<Rightarrow> string" where
  "json_string s = [quote] @ concat (map json_char s) @ [quote]"

fun json_items :: "string list \<Rightarrow> string" where
  "json_items [] = '']''"
| "json_items [s] = json_string s @ '']''"
| "json_items (s # t # ss) = json_string s @ '','' @ json_items (t # ss)"

definition canonical_json :: "string list \<Rightarrow> string" where
  "canonical_json xs = ''['' @ json_items xs"

subsection \<open>Entries and the chain\<close>

record chain_entry =
  ce_id :: uuid
  ce_action :: string
  ce_actor :: string
  ce_resource :: string
  ce_detail :: string
  ce_timestamp :: string
  ce_previous_hash :: string
  ce_hash :: string

type_synonym digest = "string \<Rightarrow> string"

definition compute_audit_hash ::
  "digest \<Rightarrow> string \<Rightarrow> string \<Rightarrow> string \<Rightarrow> string \<Rightarrow> string \<Rightarrow> string \<Rightarrow> string \<Rightarrow> string" where
  "compute_audit_hash dg entry_id action actor resource detail timestamp_iso previous_hash =
     dg (canonical_json [entry_id, action, actor, resource, detail, timestamp_iso, previous_hash])"

definition compute_hash :: "digest \<Rightarrow> chain_entry \<Rightarrow> string" where
  "compute_hash dg e = compute_audit_hash dg (ce_id e) (ce_action e) (ce_actor e) (ce_resource e)
     (ce_detail e) (ce_timestamp e) (ce_previous_hash e)"

definition chain_record ::
  "digest \<Rightarrow> uuid \<Rightarrow> string \<Rightarrow> string \<Rightarrow> string \<Rightarrow> string \<Rightarrow> string \<Rightarrow> chain_entry list \<Rightarrow>
   chain_entry \<times> chain_entry list" where
  "chain_record dg fresh now action actor resource detail entries =
     (let prev_hash = (if entries \<noteq> [] then ce_hash (last entries) else ''genesis'');
          entry = \<lparr>ce_id = fresh, ce_action = action, ce_actor = actor, ce_resource = resource,
                   ce_detail = detail, ce_timestamp = now, ce_previous_hash = prev_hash, ce_hash = []\<rparr>;
          entry = entry\<lparr>ce_hash := compute_hash dg entry\<rparr> in
      (entry, entries @ [entry]))"

text \<open>\<open>xs[a:b]\<close> with Python's treatment of negative and too large bounds.\<close>

definition slice_bound :: "int \<Rightarrow> 'a list \<Rightarrow> nat" where
  "slice_bound i xs = nat (if i < 0 then max 0 (i + int (length xs)) else min i (int (length xs)))"

definition get_entries :: "int \<Rightarrow> int \<Rightarrow> chain_entry list \<Rightarrow> chain_entry list" where
  "get_entries limit offset entries =
     (let a = slice_bound offset entries; b = slice_bound (offset + limit) entries in
      take (b - a) (drop a entries))"

fun verify_from :: "digest \<Rightarrow> chain_entry option \<Rightarrow> chain_entry list \<Rightarrow> bool" where
  "verify_from dg prev [] = True"
| "verify_from dg prev (e # es) =
     (if ce_hash e \<noteq> compute_hash dg e then False
      else if (case prev of None \<Rightarrow> False | Some p \<Rightarrow> ce_previous_hash e \<noteq> ce_hash p) then False
      else verify_from dg (Some e) es)"

definition verify_chain :: "digest \<Rightarrow> chain_entry list \<Rightarrow> bool" where
  "verify_chain dg entries = verify_from dg None entries"

definition chain_find :: "string option \<Rightarrow> string option \<Rightarrow> chain_entry list \<Rightarrow> chain_entry list" where
  "chain_find action actor entries =
     (let given = (\<lambda>x. x \<noteq> None \<and> x \<noteq> Some []);
          results = (if given action then filter (\<lambda>e. Some (ce_action e) = action) entries else entries) in
      if given actor then filter (\<lambda>e. Some (ce_actor e) = actor) results else results)"

definition chain_clear :: "chain_entry list \<Rightarrow> chain_entry list" where
  "chain_clear entries = []"

subsection \<open>The canonical text names its fields\<close>

lemma hex_digit_inj: "m < 16 \<Longrightarrow> n < 16 \<Longrightarrow> hex_digit m = hex_digit n \<longleftrightarrow> m = n"
  unfolding hex_digit_def by (subst nth_eq_iff_index_eq) auto

lemma code_bound: "(of_char c :: nat) < 256"
  by simp

lemma hex_pair:
  "hex_digit ((of_char c :: nat) div 16) = hex_digit (of_char d div 16) \<Longrightarrow>
   hex_digit ((of_char c :: nat) mod 16) = hex_digit (of_char d mod 16) \<Longrightarrow> c = d"
proof -
  assume "hex_digit ((of_char c :: nat) div 16) = hex_digit (of_char d div 16)"
    and "hex_digit ((of_char c :: nat) mod 16) = hex_digit (of_char d mod 16)"
  then have "(of_char c :: nat) div 16 = of_char d div 16" "(of_char c :: nat) mod 16 = of_char d mod 16"
    using code_bound [of c] code_bound [of d] by (simp_all add: hex_digit_inj)
  then have "(of_char c :: nat) = of_char d" by (metis div_mult_mod_eq)
  then show ?thesis by (simp add: of_char_eq_iff)
qed

lemma json_char_decodes: "json_char c @ r = json_char d @ r' \<Longrightarrow> c = d \<and> r = r'"
  unfolding json_char_def Let_def by (auto split: if_splits dest: hex_pair)

lemma json_char_start: "json_char c @ r \<noteq> quote # r'"
  unfolding json_char_def Let_def by auto

lemma json_body_decodes:
  "concat (map json_char s) @ quote # r = concat (map json_char t) @ quote # r' \<Longrightarrow> s = t \<and> r = r'"
proof (induction s arbitrary: t)
  case Nil
  then show ?case
    using json_char_start [of "hd t" "concat (map json_char (tl t)) @ quote # r'", THEN not_sym]
    by (cases t) auto
next
  case (Cons c s)
  then obtain d t' where t: "t = d # t'"
    using json_char_start [of c "concat (map json_char s) @ quote # r"] by (cases t) auto
  with Cons.prems json_char_decodes [of c "concat (map json_char s) @ quote # r" d
      "concat (map json_char t') @ quote # r'"] Cons.IH [of t']
  show ?case by simp
qed

lemma json_string_decodes: "json_string s @ r = json_string t @ r' \<Longrightarrow> s = t \<and> r = r'"
  using json_body_decodes [of s r t r'] by (simp add: json_string_def)

lemma json_string_inj [simp]: "json_string s = json_string t \<longleftrightarrow> s = t"
  using json_string_decodes [of s "[]" t "[]"] by auto

lemma json_items_inj: "json_items xs = json_items ys \<Longrightarrow> xs = ys"
proof (induction xs arbitrary: ys rule: json_items.induct)
  case 1
  then show ?case by (cases ys rule: json_items.cases) (auto simp: json_string_def)
next
  case (2 s)
  then show ?case
    by (cases ys rule: json_items.cases) (auto dest!: json_string_decodes, simp add: json_string_def)
next
  case (3 s t ss)
  then show ?case
    by (cases ys rule: json_items.cases) (auto dest!: json_string_decodes, simp add: json_string_def)
qed

lemma canonical_json_inj: "canonical_json xs = canonical_json ys \<longleftrightarrow> xs = ys"
  by (auto simp: canonical_json_def dest: json_items_inj)

subsection \<open>Tampering\<close>

definition entry_text :: "chain_entry \<Rightarrow> string" where
  "entry_text e = canonical_json [ce_id e, ce_action e, ce_actor e, ce_resource e, ce_detail e,
     ce_timestamp e, ce_previous_hash e]"

lemma compute_hash_text: "compute_hash dg e = dg (entry_text e)"
  by (simp add: compute_hash_def compute_audit_hash_def entry_text_def)

lemma entry_text_inj: "entry_text e = entry_text e' \<Longrightarrow> ce_hash e = ce_hash e' \<Longrightarrow> e = e'"
  by (simp add: entry_text_def canonical_json_inj)

lemma verify_from_snoc:
  "verify_from dg prev (es @ [e]) \<longleftrightarrow>
     verify_from dg prev es \<and> ce_hash e = compute_hash dg e \<and>
     (case if es = [] then prev else Some (last es) of
        None \<Rightarrow> True | Some p \<Rightarrow> ce_previous_hash e = ce_hash p)"
  by (induction dg prev es rule: verify_from.induct) (auto split: option.splits)

lemma verify_chain_snoc:
  "verify_chain dg (es @ [e]) \<longleftrightarrow> verify_chain dg es \<and> ce_hash e = dg (entry_text e) \<and>
     (es = [] \<or> ce_previous_hash e = ce_hash (last es))"
  by (auto simp: verify_chain_def verify_from_snoc compute_hash_text)

lemma verify_chain_record: "verify_chain dg es \<Longrightarrow> verify_chain dg (snd (chain_record dg i n a b c d es))"
  by (auto simp: chain_record_def Let_def verify_chain_snoc compute_hash_text entry_text_def)

text \<open>Calls of \<open>record\<close> from an empty trail.\<close>

fun record_all :: "digest \<Rightarrow> (uuid \<times> string \<times> string \<times> string \<times> string \<times> string) list \<Rightarrow>
    chain_entry list \<Rightarrow> chain_entry list" where
  "record_all dg [] es = es"
| "record_all dg ((i, n, a, b, c, d) # xs) es = record_all dg xs (snd (chain_record dg i n a b c d es))"

lemma verify_record_all: "verify_chain dg es \<Longrightarrow> verify_chain dg (record_all dg xs es)"
  by (induction dg xs es rule: record_all.induct) (auto intro: verify_chain_record)

definition collision :: "digest \<Rightarrow> chain_entry list \<Rightarrow> chain_entry list \<Rightarrow> bool" where
  "collision dg xs ys =
     (\<exists>x \<in> set xs. \<exists>y \<in> set ys. entry_text x \<noteq> entry_text y \<and> dg (entry_text x) = dg (entry_text y))"

lemma same_last_hash_suffix:
  assumes "verify_chain dg xs" "verify_chain dg ys" "xs \<noteq> []" "ys \<noteq> []"
      and "ce_hash (last xs) = ce_hash (last ys)" and "\<not> collision dg xs ys"
  shows "suffix xs ys \<or> suffix ys xs"
  using assms
proof (induction xs arbitrary: ys rule: rev_induct)
  case (snoc x xs)
  obtain zs y where ys: "ys = zs @ [y]"
    using snoc.prems(4) by (cases ys rule: rev_cases) auto
  have "dg (entry_text x) = dg (entry_text y)" and same: "ce_hash x = ce_hash y"
    using snoc.prems by (auto simp: ys verify_chain_snoc)
  then have "entry_text x = entry_text y"
    using snoc.prems(6) by (auto simp: ys collision_def)
  then have xy: "x = y" using same by (rule entry_text_inj)
  show ?case
  proof (cases "xs = [] \<or> zs = []")
    case True
    then show ?thesis by (auto simp: ys xy suffix_def)
  next
    case False
    have "ce_hash (last xs) = ce_hash (last zs)"
      using snoc.prems(1,2) False by (auto simp: ys xy verify_chain_snoc)
    then have "suffix xs zs \<or> suffix zs xs"
      using snoc.IH [of zs] snoc.prems False by (auto simp: ys verify_chain_snoc collision_def)
    then show ?thesis by (simp add: ys xy)
  qed
qed simp

text \<open>
  C6. The trail is tamper-evident: every recorded trail verifies, and a verifying trail
  that ends in the same hash as the recorded one is either the recorded trail, a longer
  one that ends in it, or one with oldest entries missing - unless two entries exhibit a
  collision of the digest.
\<close>

theorem last_hash_commits_history:
  assumes "verify_chain dg ys" and "ys \<noteq> []" and "calls \<noteq> []"
      and "ce_hash (last ys) = ce_hash (last (record_all dg calls []))"
  shows "verify_chain dg (record_all dg calls []) \<and>
    (suffix (record_all dg calls []) ys \<or> suffix ys (record_all dg calls []) \<or>
     collision dg (record_all dg calls []) ys)"
proof -
  have "record_all dg xs es \<noteq> []" if "xs \<noteq> [] \<or> es \<noteq> []" for xs es
    using that by (induction dg xs es rule: record_all.induct) (auto simp: chain_record_def Let_def)
  moreover have "verify_chain dg (record_all dg calls [])"
    by (rule verify_record_all) (simp add: verify_chain_def)
  ultimately show ?thesis
    using same_last_hash_suffix [of dg "record_all dg calls []" ys] assms by metis
qed

definition sample_calls :: "(uuid \<times> string \<times> string \<times> string \<times> string \<times> string) list" where
  "sample_calls = [(''1'', ''t1'', ''order.placed'', ''s'', ''m'', ''d''),
     (''2'', ''t2'', ''trade.fill'', ''s'', ''m'', ''d'')]"

theorem last_hash_commits_history_witness:
  "suffix (record_all (\<lambda>s. s) sample_calls []) (record_all (\<lambda>s. s) sample_calls []) \<or>
   collision (\<lambda>s. s) (record_all (\<lambda>s. s) sample_calls []) (record_all (\<lambda>s. s) sample_calls [])"
  using last_hash_commits_history [of "\<lambda>s. s" "record_all (\<lambda>s. s) sample_calls []" sample_calls]
    verify_record_all [of "\<lambda>s. s" "[]" sample_calls]
  by (simp add: sample_calls_def verify_chain_def chain_record_def Let_def)

text \<open>
  Deleting the oldest entries is not detected: every suffix of a verifying trail
  verifies, because the first entry's previous hash is never compared with anything.
\<close>

theorem dropped_prefix_verifies:
  "verify_chain dg (record_all dg calls []) \<and> verify_chain dg (drop n (record_all dg calls []))"
proof -
  have weaken: "verify_from dg prev es \<Longrightarrow> verify_from dg None es" for prev es
    by (cases es) (auto split: if_splits)
  have "verify_from dg prev es \<Longrightarrow> verify_from dg None (drop n es)" for prev es
    by (induction es arbitrary: n prev) (auto simp: drop_Cons split: nat.splits if_splits dest: weaken)
  then show ?thesis
    using verify_record_all [of dg "[]" calls] by (simp add: verify_chain_def)
qed

end
