(* ===== verification/SafetyGuard.thy ===== *)
theory SafetyGuard
  imports PyText Prelude
begin

text \<open>
  \<open>infrastructure/database/safety_guard.py\<close>: the interlock before destructive SQL.

  The two regular expressions are written out as the scanners they describe; \<open>\s\<close> and \<open>\w\<close>
  are Python's on characters below 256 and letters are compared in lower case.  What a
  connection says of its host is a value of \<open>dsn\<close>.  The host parser of URLs (on the standard
  library's \<open>urlparse\<close>) and the test-suite check that uses it are left out.
\<close>

subsection \<open>Scanning a statement\<close>

definition word_char :: "char \<Rightarrow> bool" where
  "word_char c = (let n = char_code c in
     48 \<le> n \<and> n \<le> 57 \<or> 65 \<le> n \<and> n \<le> 90 \<or> 97 \<le> n \<and> n \<le> 122 \<or> n = 95 \<or>
     n \<in> {170, 178, 179, 181, 185, 186, 188, 189, 190} \<or> 192 \<le> n \<and> n \<le> 255 \<and> n \<noteq> 215 \<and> n \<noteq> 247)"

text \<open>What follows the first occurrence of \<open>*/\<close>, and what follows the first line break.\<close>

fun after_close :: "string \<Rightarrow> string option" where
  "after_close (a # b # cs) = (if a = CHR ''*'' \<and> b = CHR ''/'' then Some cs else after_close (b # cs))"
| "after_close _ = None"

fun after_line :: "string \<Rightarrow> string option" where
  "after_line [] = None"
| "after_line (c # cs) = (if c = CHR 0x0A then Some cs else after_line cs)"

lemma after_close_length: "after_close s = Some r \<Longrightarrow> length r < length s"
  by (induction s rule: after_close.induct) (auto split: if_splits)

lemma after_line_length: "after_line s = Some r \<Longrightarrow> length r < length s"
  by (induction s) (auto split: if_splits)

text \<open>\<open>_strip_noise\<close>: leading whitespace, closed line comments and closed block comments.\<close>

function strip_noise :: "string \<Rightarrow> string" where
  "strip_noise s =
     (case s of
        [] \<Rightarrow> []
      | c # cs \<Rightarrow>
          if is_space c then strip_noise cs
          else if take 2 s = ''--'' then (case after_line (drop 2 s) of None \<Rightarrow> s | Some r \<Rightarrow> strip_noise r)
          else if take 2 s = ''/*'' then (case after_close (drop 2 s) of None \<Rightarrow> s | Some r \<Rightarrow> strip_noise r)
          else s)"
  by pat_completeness auto
termination
  by (relation "measure length") (auto dest!: after_close_length after_line_length)

declare strip_noise.simps [simp del]

text \<open>\<open>WORD\b\<close>: what follows the keyword.\<close>

definition after_word :: "string \<Rightarrow> string \<Rightarrow> string option" where
  "after_word w s =
     (let rest = drop (length w) s in
      if lower (take (length w) s) = w \<and> (rest = [] \<or> \<not> word_char (hd rest)) then Some rest else None)"

text \<open>\<open>(?!\s*\w+\s+WHERE)\<close>: the tail does not start with one plain name and \<open>WHERE\<close>.\<close>

definition named_where :: "string \<Rightarrow> bool" where
  "named_where s =
     (let t = dropWhile is_space s; name = takeWhile word_char t; u = dropWhile word_char t in
      name \<noteq> [] \<and> u \<noteq> [] \<and> is_space (hd u) \<and> lower (take 5 (dropWhile is_space u)) = ''where'')"

definition destructive_keyword :: "string \<Rightarrow> bool" where
  "destructive_keyword s =
     (after_word ''drop'' s \<noteq> None \<or> after_word ''truncate'' s \<noteq> None \<or>
      (if lower (take 6 s) = ''delete''
       then let gap = drop 6 s; t = dropWhile is_space gap in
            gap \<noteq> [] \<and> is_space (hd gap) \<and>
            (case after_word ''from'' t of None \<Rightarrow> False | Some r \<Rightarrow> \<not> named_where r)
       else False))"

definition is_destructive :: "string \<Rightarrow> bool" where
  "is_destructive sql = destructive_keyword (dropWhile is_space (strip_noise sql))"

subsection \<open>The interlock\<close>

definition loopback_hosts :: "string list" where
  "loopback_hosts = [''localhost'', ''127.0.0.1'', ''::1'', ''0.0.0.0'', ''host.docker.internal'']"

definition strip_brackets :: "string \<Rightarrow> string" where
  "strip_brackets s =
     (let bracket = (\<lambda>c. c = CHR ''['' \<or> c = CHR '']'') in rev (dropWhile bracket (rev (dropWhile bracket s))))"

definition is_loopback :: "string \<Rightarrow> bool" where
  "is_loopback host0 =
     (if host0 = [] then True
      else let host = strip_brackets (lower host0) in host \<in> set loopback_hosts \<or> take 4 host = ''127.'')"

text \<open>What \<open>get_dsn_parameters\<close> is on a connection: absent, raising, or a dictionary with or
  without a host.\<close>

datatype dsn = NoParameters | ParametersRaise | HostParameter "string option"

definition host_for_conn :: "dsn \<Rightarrow> string" where
  "host_for_conn d = (case d of HostParameter (Some h) \<Rightarrow> lower h | _ \<Rightarrow> [])"

definition opted_in :: "string \<Rightarrow> bool" where
  "opted_in v = (lower (strip v) \<in> {''1'', ''true'', ''yes'', ''on''})"

definition guard_destructive_sql :: "string \<Rightarrow> dsn \<Rightarrow> string \<Rightarrow> unit res" where
  "guard_destructive_sql opt_in conn sql =
     (if \<not> is_destructive sql \<or> opted_in opt_in then Inr ()
      else if is_loopback (host_for_conn conn) then Inr ()
      else Inl RuntimeError)"

subsection \<open>Comments do not hide a statement\<close>

text \<open>Noise before a statement: white space, a line comment, a block comment that is closed.\<close>

datatype noise = Blank char | LineComment string | BlockComment string

fun noise_text :: "noise \<Rightarrow> string" where
  "noise_text (Blank c) = [c]"
| "noise_text (LineComment s) = ''--'' @ s @ [CHR 0x0A]"
| "noise_text (BlockComment s) = ''/*'' @ s @ ''*/''"

fun proper_noise :: "noise \<Rightarrow> bool" where
  "proper_noise (Blank c) = is_space c"
| "proper_noise (LineComment s) = list_all (\<lambda>c. c \<noteq> CHR 0x0A) s"
| "proper_noise (BlockComment s) = (after_close (s @ ''*'') = None)"

lemma after_line_plain: "list_all (\<lambda>c. c \<noteq> CHR 0x0A) s \<Longrightarrow> after_line (s @ CHR 0x0A # r) = Some r"
  by (induction s) auto

lemma after_close_plain: "after_close (s @ ''*'') = None \<Longrightarrow> after_close (s @ ''*/'' @ r) = Some r"
proof (induction s)
  case Nil
  then show ?case by simp
next
  case (Cons a s)
  then show ?case by (cases s) (auto split: if_splits)
qed

lemma strip_noise_item: "proper_noise n \<Longrightarrow> strip_noise (noise_text n @ sql) = strip_noise sql"
proof (cases n)
  case (Blank c)
  then show "proper_noise n \<Longrightarrow> ?thesis" by (subst strip_noise.simps) simp
next
  case (LineComment s)
  then show "proper_noise n \<Longrightarrow> ?thesis"
    by (subst strip_noise.simps) (simp add: after_line_plain is_space_def char_code_def)
next
  case (BlockComment s)
  then show "proper_noise n \<Longrightarrow> ?thesis"
    using after_close_plain [of s sql] by (subst strip_noise.simps) (simp add: is_space_def char_code_def)
qed

lemma strip_noise_items: "list_all proper_noise ns \<Longrightarrow> strip_noise (concat (map noise_text ns) @ sql) = strip_noise sql"
  by (induction ns) (simp_all add: strip_noise_item)

text \<open>
  No comment smuggles a statement past the guard, and none makes it refuse one: whatever white
  space and closed comments stand before a statement, the guard decides as without them.
\<close>

theorem comments_never_decide:
  assumes "list_all proper_noise ns"
  shows "guard_destructive_sql opt_in conn (concat (map noise_text ns) @ sql) = guard_destructive_sql opt_in conn sql"
  by (simp add: guard_destructive_sql_def is_destructive_def strip_noise_items [OF assms])

lemma drop_is_destructive: "is_destructive (''DROP TABLE IF EXISTS '' @ t)"
  by (simp add: is_destructive_def strip_noise.simps [of "CHR ''D'' # _"] destructive_keyword_def after_word_def
      is_space_def char_code_def lower_def lower_char_def char_of_def word_char_def)

theorem comments_never_decide_witness:
  "guard_destructive_sql [] (HostParameter (Some ''db'')) (''/* x */ '' @ ''DROP TABLE IF EXISTS users'') = Inl RuntimeError"
  using comments_never_decide [of "[BlockComment '' x '', Blank (CHR '' '')]" "[]" "HostParameter (Some ''db'')"
      "''DROP TABLE IF EXISTS users''"] drop_is_destructive [of "''users''"]
  by (simp add: is_space_def char_code_def guard_destructive_sql_def opted_in_def strip_def lower_def lower_char_def
      host_for_conn_def is_loopback_def loopback_hosts_def strip_brackets_def)

text \<open>
  What the guard lets through: only the first keyword counts, so a statement that starts with
  any other letter passes, whatever follows it (a second statement, an \<open>ALTER\<close> that drops a
  column, a \<open>WITH\<close> that deletes); and a connection that does not name its host counts as
  local, so on it everything passes.
\<close>

theorem guard_lets_through:
  assumes "\<not> is_space c" and "lower_char c \<notin> {CHR ''d'', CHR ''t''}" and "c \<noteq> CHR ''-''" and "c \<noteq> CHR ''/''"
  shows "guard_destructive_sql opt_in conn (c # rest) = Inr () \<and>
     guard_destructive_sql opt_in ParametersRaise sql = Inr () \<and> guard_destructive_sql opt_in (HostParameter None) sql = Inr ()"
  using assms
  by (auto simp: guard_destructive_sql_def is_destructive_def strip_noise.simps [of "c # rest"] destructive_keyword_def
      after_word_def lower_def host_for_conn_def is_loopback_def)

theorem guard_lets_through_witness:
  "guard_destructive_sql [] (HostParameter (Some ''prod'')) ''SELECT 1; DROP TABLE users'' = Inr ()"
  using guard_lets_through [of "CHR ''S''" "[]" "HostParameter (Some ''prod'')" "''ELECT 1; DROP TABLE users''"]
  by (simp add: is_space_def char_code_def lower_char_def char_of_def)

end
