(* ===== verification/Migrations.thy ===== *)
theory Migrations
  imports SafetyGuard
begin

text \<open>
  \<open>infrastructure/database/{migration_manager,migration_utils}.py\<close>, the migration files
  under \<open>migrations/\<close>, and the two commands of \<open>interfaces/cli/main.py\<close> that migrate.

  The schema is the list of the tables and of the recorded versions.  It is kept twice: what
  is durable and what the open connection sees.  SQLite makes a table definition durable at
  once, Postgres at the commit.  Every statement and commit may fail (\<open>cx_faults\<close> says which
  do); work that is not durable when an exception leaves \<open>migrate\<close> is lost.  Statements that
  neither create nor drop a table (columns, indexes, seed rows, and the rebuild of tables
  with the legacy shape) are left out, as is the second creation of the version table, which
  finds it there.
\<close>

subsection \<open>Connections and statements\<close>

datatype backend = Sqlite | Postgres

record schema =
  sm_tables :: "string list"
  sm_versions :: "nat list"

record connection =
  cx_backend :: backend
  cx_dsn :: dsn
  cx_opt_in :: string
  cx_durable :: schema
  cx_work :: schema
  cx_faults :: "bool list"

definition take_fault :: "connection \<Rightarrow> bool \<times> connection" where
  "take_fault cx = (case cx_faults cx of [] \<Rightarrow> (False, cx) | b # bs \<Rightarrow> (b, cx\<lparr>cx_faults := bs\<rparr>))"

text \<open>A table definition, a version row, and a commit.\<close>

definition run_ddl :: "(string list \<Rightarrow> string list) \<Rightarrow> connection \<Rightarrow> unit res \<times> connection" where
  "run_ddl f cx =
     (case take_fault cx of (failed, cx1) \<Rightarrow>
        if failed then (Inl OSError, cx1)
        else let w = (cx_work cx1)\<lparr>sm_tables := f (sm_tables (cx_work cx1))\<rparr>; cx2 = cx1\<lparr>cx_work := w\<rparr> in
             (Inr (), if cx_backend cx2 = Sqlite
                      then cx2\<lparr>cx_durable := (cx_durable cx2)\<lparr>sm_tables := f (sm_tables (cx_durable cx2))\<rparr>\<rparr> else cx2))"

definition run_dml :: "(nat list \<Rightarrow> nat list) \<Rightarrow> connection \<Rightarrow> unit res \<times> connection" where
  "run_dml f cx =
     (case take_fault cx of (failed, cx1) \<Rightarrow>
        if failed then (Inl OSError, cx1)
        else (Inr (), cx1\<lparr>cx_work := (cx_work cx1)\<lparr>sm_versions := f (sm_versions (cx_work cx1))\<rparr>\<rparr>))"

definition commit :: "connection \<Rightarrow> unit res \<times> connection" where
  "commit cx =
     (case take_fault cx of (failed, cx1) \<Rightarrow>
        if failed then (Inl OSError, cx1) else (Inr (), cx1\<lparr>cx_durable := cx_work cx1\<rparr>))"

text \<open>Sequencing: an exception skips the rest.\<close>

definition cthen :: "unit res \<times> connection \<Rightarrow> (connection \<Rightarrow> unit res \<times> connection) \<Rightarrow> unit res \<times> connection" where
  "cthen p k = (case p of (Inl e, cx) \<Rightarrow> (Inl e, cx) | (Inr _, cx) \<Rightarrow> k cx)"

definition create_table :: "string \<Rightarrow> connection \<Rightarrow> unit res \<times> connection" where
  "create_table t = run_ddl (\<lambda>ts. if t \<in> set ts then ts else ts @ [t])"

text \<open>\<open>execute\<close> asks the guard before every statement; only a drop is destructive here.\<close>

definition drop_table :: "bool \<Rightarrow> string \<Rightarrow> connection \<Rightarrow> unit res \<times> connection" where
  "drop_table guarded t cx =
     (case (if guarded then guard_destructive_sql (cx_opt_in cx) (cx_dsn cx) (''DROP TABLE IF EXISTS '' @ t) else Inr ()) of
        Inl e \<Rightarrow> (Inl e, cx)
      | Inr _ \<Rightarrow> run_ddl (filter (\<lambda>u. u \<noteq> t)) cx)"

fun each :: "('a \<Rightarrow> connection \<Rightarrow> unit res \<times> connection) \<Rightarrow> 'a list \<Rightarrow> connection \<Rightarrow> unit res \<times> connection" where
  "each f [] cx = (Inr (), cx)"
| "each f (x # xs) cx = cthen (f x cx) (each f xs)"

subsection \<open>The chain of migrations\<close>

text \<open>The tables a migration declares, creates and drops; the first one's \<open>down\<close> uses a cursor
  of its own and not the guarded \<open>execute\<close>.\<close>

record migration =
  mi_version :: nat
  mi_tables :: "string list"
  mi_creates :: "string list"
  mi_drops :: "string list"
  mi_guarded :: bool

definition v001_tables :: "string list" where
  "v001_tables = [''market_data'', ''features'', ''correlations'', ''journal_entries'', ''liquidity_zones'',
     ''market_structure_events'', ''session_statistics'', ''observations'', ''hypotheses'', ''research_tests'',
     ''research_results'', ''lessons'', ''risk_limits'']"

definition discover_migrations :: "migration list" where
  "discover_migrations =
    [\<lparr>mi_version = 1, mi_tables = v001_tables, mi_creates = v001_tables, mi_drops = v001_tables, mi_guarded = False\<rparr>,
     \<lparr>mi_version = 2, mi_tables = [''audit_log'', ''metrics_history'', ''health_history'', ''run_manifest''],
      mi_creates = [''audit_log'', ''metrics_history'', ''health_history'', ''run_manifest''],
      mi_drops = [''run_manifest'', ''health_history'', ''metrics_history'', ''audit_log''], mi_guarded = True\<rparr>,
     \<lparr>mi_version = 3, mi_tables = [''strategy_registry''], mi_creates = [''strategy_registry''],
      mi_drops = [''strategy_registry''], mi_guarded = True\<rparr>,
     \<lparr>mi_version = 4, mi_tables = [], mi_creates = [], mi_drops = [], mi_guarded = True\<rparr>,
     \<lparr>mi_version = 5, mi_tables = [''order_events''], mi_creates = [''order_events''], mi_drops = [''order_events''],
      mi_guarded = True\<rparr>,
     \<lparr>mi_version = 6, mi_tables = [''strategies'', ''operator_workflow'', ''workflow_transitions''],
      mi_creates = [''operator_workflow'', ''workflow_transitions'', ''strategies''],
      mi_drops = [''workflow_transitions'', ''operator_workflow''], mi_guarded = True\<rparr>,
     \<lparr>mi_version = 7, mi_tables = [''historical_candles''], mi_creates = [''historical_candles''],
      mi_drops = [''historical_candles''], mi_guarded = True\<rparr>,
     \<lparr>mi_version = 8, mi_tables = [''users'', ''user_sessions'', ''user_api_keys''],
      mi_creates = [''users'', ''user_sessions'', ''user_api_keys''],
      mi_drops = [''user_api_keys'', ''user_sessions'', ''users''], mi_guarded = True\<rparr>,
     \<lparr>mi_version = 9, mi_tables = [''experiments'', ''experiment_results'', ''knowledge_nodes'', ''knowledge_edges''],
      mi_creates = [''experiments'', ''experiment_results'', ''knowledge_nodes'', ''knowledge_edges''],
      mi_drops = [''knowledge_edges'', ''knowledge_nodes'', ''experiment_results'', ''experiments''], mi_guarded = True\<rparr>,
     \<lparr>mi_version = 12, mi_tables = [], mi_creates = [], mi_drops = [], mi_guarded = True\<rparr>]"

definition mi_up :: "migration \<Rightarrow> connection \<Rightarrow> unit res \<times> connection" where
  "mi_up m = each create_table (mi_creates m)"

definition mi_down :: "migration \<Rightarrow> connection \<Rightarrow> unit res \<times> connection" where
  "mi_down m = each (drop_table (mi_guarded m)) (mi_drops m)"

definition latest_version :: "migration list \<Rightarrow> nat" where
  "latest_version ms = fold max (map mi_version ms) 0"

subsection \<open>The migration manager\<close>

definition get_current_version :: "schema \<Rightarrow> nat" where
  "get_current_version s = fold max (sm_versions s) 0"

definition missing_tables :: "schema \<Rightarrow> migration \<Rightarrow> string list" where
  "missing_tables s m = filter (\<lambda>t. t \<notin> set (sm_tables s)) (mi_tables m)"

definition drift_for :: "migration list \<Rightarrow> nat \<Rightarrow> schema \<Rightarrow> migration list" where
  "drift_for ms current s = filter (\<lambda>m. mi_version m \<le> current \<and> missing_tables s m \<noteq> []) ms"

definition schema_drift :: "migration list \<Rightarrow> schema \<Rightarrow> (nat \<times> string list) list" where
  "schema_drift ms s =
     (if get_current_version s = 0 then []
      else map (\<lambda>m. (mi_version m, missing_tables s m)) (drift_for ms (get_current_version s) s))"

definition repair_one :: "migration \<Rightarrow> connection \<Rightarrow> unit res \<times> connection" where
  "repair_one m cx = cthen (mi_up m cx) commit"

definition upgrade_one :: "migration \<Rightarrow> connection \<Rightarrow> unit res \<times> connection" where
  "upgrade_one m cx = cthen (mi_up m cx) (\<lambda>cx1. cthen (run_dml (\<lambda>vs. vs @ [mi_version m]) cx1) commit)"

definition downgrade_one :: "migration \<Rightarrow> connection \<Rightarrow> unit res \<times> connection" where
  "downgrade_one m cx =
     cthen (run_dml (filter (\<lambda>v. v \<noteq> mi_version m)) cx) (\<lambda>cx1.
     cthen (commit cx1) (\<lambda>cx2. cthen (mi_down m cx2) commit))"

definition ensure_version_table :: "connection \<Rightarrow> unit res \<times> connection" where
  "ensure_version_table cx = cthen (create_table ''_schema_version'' cx) commit"

definition migrate :: "migration list \<Rightarrow> nat option \<Rightarrow> bool \<Rightarrow> connection \<Rightarrow> unit res \<times> connection" where
  "migrate ms target_version repair cx0 =
     cthen (ensure_version_table cx0) (\<lambda>cx.
       let target = (case target_version of None \<Rightarrow> latest_version ms | Some v \<Rightarrow> v);
           current = get_current_version (cx_work cx);
           drift = sort_key mi_version (drift_for ms current (cx_work cx)) in
       if drift \<noteq> [] \<and> \<not> repair then (Inl RuntimeError, cx)
       else cthen (each repair_one drift cx) (\<lambda>cx1.
         if current < target
         then each upgrade_one (filter (\<lambda>m. current < mi_version m \<and> mi_version m \<le> target) ms) cx1
         else if target < current
         then each downgrade_one (filter (\<lambda>m. mi_version m \<le> current \<and> target < mi_version m) (rev ms)) cx1
         else (Inr (), cx1)))"

subsection \<open>The commands\<close>

text \<open>\<open>_historical_candles_for_backtest\<close> pins the version of the candle table and swallows every
  exception; \<open>db rollback\<close> takes the version from its argument.\<close>

definition backtest_cache :: "connection \<Rightarrow> bool \<times> connection" where
  "backtest_cache cx =
     (case cthen (migrate discover_migrations (Some 7) True cx) commit of
        (Inl e, cx1) \<Rightarrow> (False, cx1)
      | (Inr _, cx1) \<Rightarrow> (True, cx1))"

definition db_migrate :: "connection \<Rightarrow> unit res \<times> connection" where
  "db_migrate = migrate discover_migrations None True"

definition db_rollback :: "nat \<Rightarrow> connection \<Rightarrow> unit res \<times> connection" where
  "db_rollback target = migrate discover_migrations (Some target) True"

subsection \<open>The marker never runs ahead of the schema\<close>

text \<open>A schema is honest when every recorded version has the tables its migration declares.\<close>

definition honest :: "migration list \<Rightarrow> schema \<Rightarrow> bool" where
  "honest ms s \<longleftrightarrow> (\<forall>m \<in> set ms. mi_version m \<in> set (sm_versions s) \<longrightarrow> set (mi_tables m) \<subseteq> set (sm_tables s))"

definition honest_conn :: "migration list \<Rightarrow> connection \<Rightarrow> bool" where
  "honest_conn ms cx \<longleftrightarrow> honest ms (cx_durable cx) \<and> honest ms (cx_work cx)"

text \<open>What a migration file must be for its chain: it creates what it declares, and drops nothing
  another one declares.\<close>

definition chain_ok :: "migration list \<Rightarrow> bool" where
  "chain_ok ms \<longleftrightarrow> list_all (\<lambda>m. set (mi_tables m) \<subseteq> set (mi_creates m)) ms \<and>
     list_all (\<lambda>m. list_all (\<lambda>n. mi_version m = mi_version n \<or> set (mi_drops m) \<inter> set (mi_tables n) = {}) ms) ms"

lemma chain_is_ok: "chain_ok discover_migrations"
  by (simp add: chain_ok_def discover_migrations_def v001_tables_def)

lemma cthen_simps [simp]: "cthen (Inl e, cx) k = (Inl e, cx)" "cthen (Inr u, cx) k = k cx"
  by (simp_all add: cthen_def)

lemma cthenE:
  assumes "cthen p k = (r, cx')"
  obtains (raised) e where "p = (Inl e, cx')" and "r = Inl e" | (went) u cx1 where "p = (Inr u, cx1)" and "k cx1 = (r, cx')"
  using assms by (cases p; cases "fst p") (auto simp: cthen_def)

text \<open>What each statement does to the two schemas.\<close>

lemma ddl_effect: "run_ddl f cx = (r, cx') \<Longrightarrow>
    (if isl r then cx_work cx' = cx_work cx \<and> cx_durable cx' = cx_durable cx
     else cx_work cx' = (cx_work cx)\<lparr>sm_tables := f (sm_tables (cx_work cx))\<rparr> \<and>
       (cx_durable cx' = cx_durable cx \<or> cx_durable cx' = (cx_durable cx)\<lparr>sm_tables := f (sm_tables (cx_durable cx))\<rparr>))"
  by (auto simp: run_ddl_def take_fault_def Let_def split: list.splits if_splits)

lemma dml_effect: "run_dml f cx = (r, cx') \<Longrightarrow> cx_durable cx' = cx_durable cx \<and>
    cx_work cx' = (if isl r then cx_work cx else (cx_work cx)\<lparr>sm_versions := f (sm_versions (cx_work cx))\<rparr>)"
  by (auto simp: run_dml_def take_fault_def split: list.splits if_splits)

lemma commit_effect: "commit cx = (r, cx') \<Longrightarrow> cx_work cx' = cx_work cx \<and>
    cx_durable cx' = (if isl r then cx_durable cx else cx_work cx)"
  by (auto simp: commit_def take_fault_def split: list.splits if_splits)

lemma honest_mono:
  "honest ms s \<Longrightarrow> set (sm_versions s') \<subseteq> set (sm_versions s) \<Longrightarrow> set (sm_tables s) \<subseteq> set (sm_tables s') \<Longrightarrow> honest ms s'"
  by (simp add: honest_def) blast

text \<open>Growing: no table and no version is lost on either side.\<close>

definition grows :: "connection \<Rightarrow> connection \<Rightarrow> bool" where
  "grows cx cx' \<longleftrightarrow> set (sm_tables (cx_work cx)) \<subseteq> set (sm_tables (cx_work cx')) \<and>
     set (sm_tables (cx_durable cx)) \<subseteq> set (sm_tables (cx_durable cx')) \<and>
     sm_versions (cx_work cx') = sm_versions (cx_work cx) \<and> sm_versions (cx_durable cx') = sm_versions (cx_durable cx)"

lemma grows_refl: "grows cx cx" by (simp add: grows_def)

lemma grows_trans: "grows a b \<Longrightarrow> grows b c \<Longrightarrow> grows a c" by (auto simp: grows_def)

lemma grows_honest: "grows cx cx' \<Longrightarrow> honest_conn ms cx \<Longrightarrow> honest_conn ms cx'"
  unfolding grows_def honest_conn_def by (metis honest_mono order_refl)

lemma create_grows:
  assumes "create_table t cx = (r, cx')"
  shows "grows cx cx' \<and> (isl r \<or> t \<in> set (sm_tables (cx_work cx')))"
  using ddl_effect [OF assms [unfolded create_table_def]] by (auto simp: grows_def split: if_splits)

lemma creates_grow: "each create_table ts cx = (r, cx') \<Longrightarrow> grows cx cx' \<and> (isl r \<or> set ts \<subseteq> set (sm_tables (cx_work cx')))"
proof (induction ts arbitrary: cx)
  case Nil
  then show ?case by (simp add: grows_refl)
next
  case (Cons t ts)
  from Cons.prems show ?case
  proof (simp, elim cthenE)
    fix e assume "create_table t cx = (Inl e, cx')" "r = Inl e"
    then show "grows cx cx' \<and> (isl r \<or> t \<in> set (sm_tables (cx_work cx')) \<and> set ts \<subseteq> set (sm_tables (cx_work cx')))"
      using create_grows by fastforce
  next
    fix u cx1 assume a: "create_table t cx = (Inr u, cx1)" "each create_table ts cx1 = (r, cx')"
    then have "t \<in> set (sm_tables (cx_work cx1))" "grows cx cx1" using create_grows [OF a(1)] by auto
    with Cons.IH [OF a(2)] show "grows cx cx' \<and> (isl r \<or> t \<in> set (sm_tables (cx_work cx')) \<and> set ts \<subseteq> set (sm_tables (cx_work cx')))"
      using grows_trans [of cx cx1 cx'] by (auto simp: grows_def)
  qed
qed

lemma commit_honest: "commit cx = (r, cx') \<Longrightarrow> honest_conn ms cx \<Longrightarrow> honest_conn ms cx'"
  by (drule commit_effect) (simp add: honest_conn_def)

lemma repair_honest:
  assumes "repair_one m cx = (r, cx')" and "honest_conn ms cx"
  shows "honest_conn ms cx'"
  using assms(1) unfolding repair_one_def mi_up_def
  by (elim cthenE) (use creates_grow grows_honest commit_honest assms(2) in blast)+

lemma add_version_honest:
  assumes "run_dml (\<lambda>vs. vs @ [v]) cx = (r, cx')" and "honest_conn ms cx"
    and "\<forall>m \<in> set ms. mi_version m = v \<longrightarrow> set (mi_tables m) \<subseteq> set (sm_tables (cx_work cx))"
  shows "honest_conn ms cx'"
  using dml_effect [OF assms(1)] assms(2,3)
  by (simp add: honest_conn_def honest_def)

lemma tables_covered:
  assumes "set (mi_tables m) \<subseteq> set ts" and "\<forall>n \<in> set ms. mi_version n = mi_version m \<longrightarrow> n = m"
  shows "\<forall>n \<in> set ms. mi_version n = mi_version m \<longrightarrow> set (mi_tables n) \<subseteq> set ts"
  using assms by blast

lemma upgrade_honest:
  assumes "upgrade_one m cx = (r, cx')" and "honest_conn ms cx" and "set (mi_tables m) \<subseteq> set (mi_creates m)"
    and "\<forall>n \<in> set ms. mi_version n = mi_version m \<longrightarrow> n = m"
  shows "honest_conn ms cx'"
  using assms(1) unfolding upgrade_one_def mi_up_def
proof (elim cthenE)
  fix e assume "each create_table (mi_creates m) cx = (Inl e, cx')"
  then show ?thesis using creates_grow grows_honest assms(2) by blast
next
  fix u cx1 e assume a: "each create_table (mi_creates m) cx = (Inr u, cx1)" "run_dml (\<lambda>vs. vs @ [mi_version m]) cx1 = (Inl e, cx')"
  show ?thesis
    using creates_grow [OF a(1)] grows_honest assms(2,3)
    by (intro add_version_honest [OF a(2)] tables_covered [OF _ assms(4)]) auto
next
  fix u cx1 w cx2 assume a: "each create_table (mi_creates m) cx = (Inr u, cx1)" "run_dml (\<lambda>vs. vs @ [mi_version m]) cx1 = (Inr w, cx2)"
    and c: "commit cx2 = (r, cx')"
  have "honest_conn ms cx2"
    using creates_grow [OF a(1)] grows_honest assms(2,3)
    by (intro add_version_honest [OF a(2)] tables_covered [OF _ assms(4)]) auto
  then show ?thesis using c commit_honest by blast
qed

lemma drop_version_honest:
  assumes "run_dml (filter (\<lambda>v. v \<noteq> k)) cx = (r, cx')" and "honest_conn ms cx"
  shows "honest_conn ms cx' \<and> (isl r \<or> k \<notin> set (sm_versions (cx_work cx')))"
  using dml_effect [OF assms(1)] assms(2) honest_mono [of ms "cx_work cx" "cx_work cx'"] by (auto simp: honest_conn_def)

text \<open>Once a version is off both records, its own tables may go.\<close>

definition unmarked :: "nat \<Rightarrow> connection \<Rightarrow> bool" where
  "unmarked k cx \<longleftrightarrow> k \<notin> set (sm_versions (cx_work cx)) \<and> k \<notin> set (sm_versions (cx_durable cx))"

lemma honest_drop:
  assumes "honest ms s" and "k \<notin> set (sm_versions s)" and "\<forall>n \<in> set ms. mi_version n = k \<or> t \<notin> set (mi_tables n)"
  shows "honest ms (s\<lparr>sm_tables := filter (\<lambda>u. u \<noteq> t) (sm_tables s)\<rparr>)"
  unfolding honest_def
proof (intro ballI impI)
  fix m assume m: "m \<in> set ms" "mi_version m \<in> set (sm_versions (s\<lparr>sm_tables := filter (\<lambda>u. u \<noteq> t) (sm_tables s)\<rparr>))"
  then have "t \<notin> set (mi_tables m)" using assms(2,3) by auto
  moreover have "set (mi_tables m) \<subseteq> set (sm_tables s)" using assms(1) m by (simp add: honest_def)
  ultimately show "set (mi_tables m) \<subseteq> set (sm_tables (s\<lparr>sm_tables := filter (\<lambda>u. u \<noteq> t) (sm_tables s)\<rparr>))" by auto
qed

lemma drop_honest:
  assumes "drop_table g t cx = (r, cx')" and "honest_conn ms cx" and "unmarked k cx"
    and "\<forall>n \<in> set ms. mi_version n = k \<or> t \<notin> set (mi_tables n)"
  shows "honest_conn ms cx' \<and> unmarked k cx'"
proof (cases "cx' = cx")
  case False
  with assms(1) have "run_ddl (filter (\<lambda>u. u \<noteq> t)) cx = (r, cx')"
    by (auto simp: drop_table_def split: sum.splits if_splits)
  then show ?thesis
    using ddl_effect honest_drop [OF _ _ assms(4)] assms(2,3) unfolding honest_conn_def unmarked_def
    by (auto dest!: ddl_effect split: if_splits)
qed (use assms in simp)

lemma drops_honest:
  assumes "each (drop_table g) ts cx = (r, cx')" and "honest_conn ms cx" and "unmarked k cx"
    and "\<forall>n \<in> set ms. mi_version n = k \<or> set ts \<inter> set (mi_tables n) = {}"
  shows "honest_conn ms cx' \<and> unmarked k cx'"
  using assms
proof (induction ts arbitrary: cx)
  case Nil
  then show ?case by simp
next
  case (Cons t ts)
  have own: "\<forall>n \<in> set ms. mi_version n = k \<or> t \<notin> set (mi_tables n)"
    "\<forall>n \<in> set ms. mi_version n = k \<or> set ts \<inter> set (mi_tables n) = {}"
    using Cons.prems(4) by (auto simp: list_all_iff)
  from Cons.prems(1) have "cthen (drop_table g t cx) (each (drop_table g) ts) = (r, cx')" by simp
  then show ?case
    by (elim cthenE) (use drop_honest Cons.prems(2,3) Cons.IH own in blast)+
qed

lemma downgrade_honest:
  assumes "downgrade_one m cx = (r, cx')" and "honest_conn ms cx"
    and "\<forall>n \<in> set ms. mi_version m = mi_version n \<or> set (mi_drops m) \<inter> set (mi_tables n) = {}"
  shows "honest_conn ms cx'"
proof -
  have own: "\<forall>n \<in> set ms. mi_version n = mi_version m \<or> set (mi_drops m) \<inter> set (mi_tables n) = {}"
    using assms(3) by (auto simp: list_all_iff)
  have off: "unmarked (mi_version m) cx2" if "commit cx1 = (Inr u, cx2)" "mi_version m \<notin> set (sm_versions (cx_work cx1))" for cx1 cx2 u
    using commit_effect [OF that(1)] that(2) by (simp add: unmarked_def)
  from assms(1) show ?thesis unfolding downgrade_one_def mi_down_def
  proof (elim cthenE)
    fix e assume "run_dml (filter (\<lambda>v. v \<noteq> mi_version m)) cx = (Inl e, cx')"
    then show ?thesis using drop_version_honest assms(2) by blast
  next
    fix u cx1 e assume "run_dml (filter (\<lambda>v. v \<noteq> mi_version m)) cx = (Inr u, cx1)" "commit cx1 = (Inl e, cx')"
    then show ?thesis using drop_version_honest commit_honest assms(2) by blast
  next
    fix u cx1 w cx2 e
    assume a: "run_dml (filter (\<lambda>v. v \<noteq> mi_version m)) cx = (Inr u, cx1)" "commit cx1 = (Inr w, cx2)"
      and d: "each (drop_table (mi_guarded m)) (mi_drops m) cx2 = (Inl e, cx')"
    have "honest_conn ms cx1" "mi_version m \<notin> set (sm_versions (cx_work cx1))" using drop_version_honest [OF a(1) assms(2)] by auto
    then show ?thesis using drops_honest [OF d _ _ own] commit_honest a(2) off by blast
  next
    fix u cx1 w cx2 v cx3
    assume a: "run_dml (filter (\<lambda>v. v \<noteq> mi_version m)) cx = (Inr u, cx1)" "commit cx1 = (Inr w, cx2)"
      and d: "each (drop_table (mi_guarded m)) (mi_drops m) cx2 = (Inr v, cx3)" and c: "commit cx3 = (r, cx')"
    have "honest_conn ms cx1" "mi_version m \<notin> set (sm_versions (cx_work cx1))" using drop_version_honest [OF a(1) assms(2)] by auto
    then have "honest_conn ms cx3" using drops_honest [OF d _ _ own] commit_honest a(2) off by blast
    then show ?thesis using c commit_honest by blast
  qed
qed

lemma each_honest:
  assumes "each f xs cx = (r, cx')" and "honest_conn ms cx"
    and "\<And>x cx r cx'. x \<in> set xs \<Longrightarrow> f x cx = (r, cx') \<Longrightarrow> honest_conn ms cx \<Longrightarrow> honest_conn ms cx'"
  shows "honest_conn ms cx'"
  using assms
proof (induction xs arbitrary: cx)
  case Nil
  then show ?case by simp
next
  case (Cons x xs)
  from Cons.prems(1) have "cthen (f x cx) (each f xs) = (r, cx')" by simp
  then show ?case
  proof (elim cthenE)
    fix e assume "f x cx = (Inl e, cx')"
    then show ?thesis using Cons.prems(2,3) by (meson list.set_intros(1))
  next
    fix u cx1 assume "f x cx = (Inr u, cx1)" "each f xs cx1 = (r, cx')"
    then show ?thesis using Cons.IH Cons.prems(2,3) by (meson list.set_intros)
  qed
qed

lemma distinct_versions: "distinct (map mi_version discover_migrations)"
  by (simp add: discover_migrations_def)

lemma chain_versions: "m \<in> set discover_migrations \<Longrightarrow>
    \<forall>n \<in> set discover_migrations. mi_version n = mi_version m \<longrightarrow> n = m"
  using inj_onD [of mi_version "set discover_migrations"] distinct_versions by (auto simp: distinct_map)

lemma migrate_honest:
  assumes "migrate discover_migrations target repair cx = (r, cx')" and "honest_conn discover_migrations cx"
  shows "honest_conn discover_migrations cx'"
proof -
  let ?ms = discover_migrations
  have ok: "set (mi_tables m) \<subseteq> set (mi_creates m)"
    "\<forall>n \<in> set ?ms. mi_version m = mi_version n \<or> set (mi_drops m) \<inter> set (mi_tables n) = {}" if "m \<in> set ?ms" for m
    using chain_is_ok that by (auto simp: chain_ok_def list_all_iff)
  have ensure: "honest_conn ?ms cx2" if "ensure_version_table cx1 = (q, cx2)" "honest_conn ?ms cx1" for cx1 q cx2
    using that(1) unfolding ensure_version_table_def
    by (elim cthenE) (use create_grows grows_honest commit_honest that(2) in blast)+
  have repair_all: "honest_conn ?ms cx2" if "each repair_one xs cx1 = (q, cx2)" "honest_conn ?ms cx1" for xs cx1 q cx2
    using that by (rule each_honest) (use repair_honest in blast)
  have upgrade_all: "honest_conn ?ms cx2" if "each upgrade_one (filter P ?ms) cx1 = (q, cx2)" "honest_conn ?ms cx1" for P cx1 q cx2
    using that by (rule each_honest) (use upgrade_honest ok(1) chain_versions in auto)
  have downgrade_all: "honest_conn ?ms cx2" if "each downgrade_one (filter P (rev ?ms)) cx1 = (q, cx2)" "honest_conn ?ms cx1" for P cx1 q cx2
    using that by (rule each_honest) (use downgrade_honest ok(2) in auto)
  from assms(1) obtain q cx1 where en: "ensure_version_table cx = (q, cx1)" "isl q \<Longrightarrow> cx' = cx1"
    and step: "\<not> isl q \<Longrightarrow> migrate ?ms target repair cx = (r, cx')"
    by (cases "ensure_version_table cx"; cases "fst (ensure_version_table cx)") (auto simp: migrate_def)
  have h1: "honest_conn ?ms cx1" using ensure [OF en(1) assms(2)] .
  show ?thesis
  proof (cases q)
    case (Inl e)
    then show ?thesis using en(2) h1 by simp
  next
    case (Inr u)
    let ?drift = "sort_key mi_version (drift_for ?ms (get_current_version (cx_work cx1)) (cx_work cx1))"
    obtain q2 cx2 where rep: "each repair_one ?drift cx1 = (q2, cx2)" by fastforce
    have h2: "honest_conn ?ms cx2" using repair_all [OF rep h1] .
    have run: "migrate ?ms target repair cx = (r, cx')" using step Inr by simp
    show ?thesis
      using run en(1) Inr rep h1 h2
      by (cases q2) (auto simp: migrate_def Let_def split: if_splits dest: upgrade_all downgrade_all)
  qed
qed


subsection \<open>A command that goes back\<close>

text \<open>A connection with nothing open, on which a drop is or is not permitted.\<close>

definition synced :: "schema \<Rightarrow> connection \<Rightarrow> connection" where
  "synced s cx = cx\<lparr>cx_durable := s, cx_work := s, cx_faults := []\<rparr>"

definition permits_drops :: "connection \<Rightarrow> bool" where
  "permits_drops cx \<longleftrightarrow> opted_in (cx_opt_in cx) \<or> is_loopback (host_for_conn (cx_dsn cx))"

definition without_tables :: "string list \<Rightarrow> schema \<Rightarrow> schema" where
  "without_tables ts s = s\<lparr>sm_tables := filter (\<lambda>t. t \<notin> set ts) (sm_tables s)\<rparr>"

definition without_version :: "nat \<Rightarrow> schema \<Rightarrow> schema" where
  "without_version v s = s\<lparr>sm_versions := filter (\<lambda>w. w \<noteq> v) (sm_versions s)\<rparr>"

lemma guard_drop: "guard_destructive_sql opt d (''DROP TABLE IF EXISTS '' @ t) =
    (if opted_in opt \<or> is_loopback (host_for_conn d) then Inr () else Inl RuntimeError)"
  using drop_is_destructive [of t] by (auto simp: guard_destructive_sql_def)

lemma guarded_drop: "drop_table True t cx =
    (if permits_drops cx then run_ddl (filter (\<lambda>u. u \<noteq> t)) cx else (Inl RuntimeError, cx))"
  unfolding drop_table_def if_True guard_drop permits_drops_def by (simp split: if_splits)

lemma free_drop: "drop_table False t cx = run_ddl (filter (\<lambda>u. u \<noteq> t)) cx"
  by (simp add: drop_table_def)

lemma ddl_clean: "cx_faults cx = [] \<Longrightarrow> run_ddl f cx = (Inr (), cx\<lparr>
    cx_durable := (if cx_backend cx = Sqlite then (cx_durable cx)\<lparr>sm_tables := f (sm_tables (cx_durable cx))\<rparr> else cx_durable cx),
    cx_work := (cx_work cx)\<lparr>sm_tables := f (sm_tables (cx_work cx))\<rparr>\<rparr>)"
  by (cases cx) (simp add: run_ddl_def take_fault_def Let_def)

lemma commit_clean: "cx_faults cx = [] \<Longrightarrow> commit cx = (Inr (), cx\<lparr>cx_durable := cx_work cx\<rparr>)"
  by (simp add: commit_def take_fault_def)

lemma drops_clean:
  "cx_faults cx = [] \<Longrightarrow> permits_drops cx \<or> \<not> g \<Longrightarrow>
     \<exists>d. each (drop_table g) ts cx = (Inr (), cx\<lparr>cx_durable := d, cx_work := without_tables ts (cx_work cx)\<rparr>)"
proof (induction ts arbitrary: cx)
  case Nil
  show ?case by (rule exI [of _ "cx_durable cx"]) (simp add: without_tables_def)
next
  case (Cons t ts)
  let ?w = "(cx_work cx)\<lparr>sm_tables := filter (\<lambda>u. u \<noteq> t) (sm_tables (cx_work cx))\<rparr>"
  obtain d where d: "drop_table g t cx = (Inr (), cx\<lparr>cx_durable := d, cx_work := ?w\<rparr>)"
    using Cons.prems by (cases g) (simp_all add: guarded_drop free_drop ddl_clean)
  have "\<exists>d'. each (drop_table g) ts (cx\<lparr>cx_durable := d, cx_work := ?w\<rparr>) =
      (Inr (), cx\<lparr>cx_durable := d', cx_work := without_tables ts ?w\<rparr>)"
    using Cons.IH [of "cx\<lparr>cx_durable := d, cx_work := ?w\<rparr>"] Cons.prems by (simp add: permits_drops_def)
  then show ?case using d by (simp add: without_tables_def conj_commute)
qed

text \<open>The first two steps of a downgrade: the version off the record, and a commit.\<close>

lemma mark_off:
  "cthen (run_dml (filter (\<lambda>v. v \<noteq> k)) (synced s cx)) (\<lambda>cx1. cthen (commit cx1) f) = f (synced (without_version k s) cx)"
  by (cases cx) (simp add: run_dml_def commit_def take_fault_def synced_def without_version_def)

lemma downgrade_clean:
  assumes "permits_drops cx"
  shows "downgrade_one m (synced s cx) = (Inr (), synced (without_tables (mi_drops m) (without_version (mi_version m) s)) cx)"
proof -
  let ?s = "without_version (mi_version m) s"
  have "permits_drops (synced ?s cx)" "cx_faults (synced ?s cx) = []" using assms by (simp_all add: synced_def permits_drops_def)
  then obtain d where "each (drop_table (mi_guarded m)) (mi_drops m) (synced ?s cx) =
      (Inr (), (synced ?s cx)\<lparr>cx_durable := d, cx_work := without_tables (mi_drops m) ?s\<rparr>)"
    using drops_clean [of "synced ?s cx" "mi_guarded m" "mi_drops m"] by (auto simp: synced_def)
  then have drops: "mi_down m (synced ?s cx) =
      (Inr (), (synced ?s cx)\<lparr>cx_durable := d, cx_work := without_tables (mi_drops m) ?s\<rparr>)"
    by (simp add: mi_down_def)
  show ?thesis
    by (simp add: downgrade_one_def mark_off drops commit_clean) (simp add: synced_def commit_def take_fault_def)
qed

lemma downgrade_refused:
  assumes "\<not> permits_drops cx" and "mi_guarded m" and "mi_drops m = t # ts"
  shows "downgrade_one m (synced s cx) = (Inl RuntimeError, synced (without_version (mi_version m) s) cx)"
  using assms by (simp add: downgrade_one_def mark_off mi_down_def guarded_drop) (simp add: synced_def permits_drops_def)

text \<open>A database at the head of the chain, with every declared table.\<close>

definition at_head :: "schema \<Rightarrow> bool" where
  "at_head s \<longleftrightarrow> sm_versions s = map mi_version discover_migrations \<and> ''_schema_version'' \<in> set (sm_tables s) \<and>
     (\<forall>m \<in> set discover_migrations. set (mi_tables m) \<subseteq> set (sm_tables s))"

lemma ensure_clean: "''_schema_version'' \<in> set (sm_tables s) \<Longrightarrow> ensure_version_table (synced s cx) = (Inr (), synced s cx)"
  by (simp add: ensure_version_table_def create_table_def run_ddl_def commit_def take_fault_def synced_def Let_def)

lemma no_drift: "at_head s \<Longrightarrow> drift_for discover_migrations v s = []"
  by (auto simp: at_head_def drift_for_def missing_tables_def filter_empty_conv)

lemma migrate_from_head:
  assumes "at_head s" and "target < 12"
  shows "migrate discover_migrations (Some target) True (synced s cx) =
     each downgrade_one (filter (\<lambda>m. mi_version m \<le> 12 \<and> target < mi_version m) (rev discover_migrations)) (synced s cx)"
proof -
  have "get_current_version s = 12" using assms(1) by (simp add: at_head_def get_current_version_def discover_migrations_def)
  then have cur: "get_current_version (cx_work (synced s cx)) = 12" by (simp add: synced_def)
  have dr: "drift_for discover_migrations 12 (cx_work (synced s cx)) = []" using no_drift [OF assms(1)] by (simp add: synced_def)
  have en: "ensure_version_table (synced s cx) = (Inr (), synced s cx)" using assms(1) by (simp add: at_head_def ensure_clean)
  show ?thesis using assms(2) by (simp add: migrate_def en cur dr)
qed

definition lost_tables :: "string list" where
  "lost_tables = [''users'', ''user_sessions'', ''user_api_keys'',
     ''experiments'', ''experiment_results'', ''knowledge_nodes'', ''knowledge_edges'']"


definition head_schema :: schema where
  "head_schema = \<lparr>sm_tables = ''_schema_version'' # concat (map mi_tables discover_migrations),
     sm_versions = map mi_version discover_migrations\<rparr>"

definition local_connection :: connection where
  "local_connection = \<lparr>cx_backend = Sqlite, cx_dsn = NoParameters, cx_opt_in = [], cx_durable = head_schema,
     cx_work = head_schema, cx_faults = []\<rparr>"



end
