(* ===== verification/Deployment.thy ===== *)
theory Deployment
  imports ApiAuth Migrations
begin

text \<open>
  What a process does before it serves: \<open>infrastructure/config/config_loader.py\<close>,
  \<open>infrastructure/security_policy.py\<close>, \<open>infrastructure/boot.py\<close>, the entry point
  \<open>interfaces/api/main.py\<close> with the origins of \<open>interfaces/api/server.py\<close>, and the workers
  that \<open>application/orchestrator.py\<close> starts.

  The settings file is what the YAML parser makes of it (\<open>yaml\<close>), the environment a
  dictionary that already holds the variables of \<open>.env\<close>, and the file system the parameter
  \<open>isdir\<close>.  Messages are kept as constructors where a decision depends on them.
\<close>

subsection \<open>Configuration\<close>

datatype yaml =
    YNull | YBool bool | YInt int | YFloat float64 | YText string | YList "yaml list" | YMap "(string \<times> yaml) list"

type_synonym settings = "(string \<times> yaml) list"

definition yaml_get :: "settings \<Rightarrow> string \<Rightarrow> yaml" where
  "yaml_get s k = dict_get s k YNull"

text \<open>A dotted path: each step through a mapping; anything else on the way ends it.\<close>

fun nested :: "yaml \<Rightarrow> string list \<Rightarrow> yaml" where
  "nested v [] = v"
| "nested (YMap d) (k # ks) = nested (yaml_get d k) ks"
| "nested _ (k # ks) = YNull"

definition config_get :: "settings \<Rightarrow> string list \<Rightarrow> yaml \<Rightarrow> yaml" where
  "config_get s path dflt = (case nested (YMap s) path of YNull \<Rightarrow> dflt | v \<Rightarrow> v)"

definition config_fields :: "string list" where
  "config_fields = [''db_path'', ''database_url'', ''log_level'', ''log_file'', ''data_dir'', ''exports_dir'', ''configs_dir'',
     ''default_cash'', ''paper_trading'', ''alpaca_api_key'', ''alpaca_secret_key'', ''alpaca_paper'']"

definition secret_fields :: "string list" where
  "secret_fields = [''alpaca_api_key'', ''alpaca_secret_key'']"

definition config_defaults :: "settings" where
  "config_defaults = [(''db_path'', YText ''data/trader.db''), (''database_url'', YText []), (''log_level'', YText ''INFO''),
     (''log_file'', YNull), (''data_dir'', YText ''data''), (''exports_dir'', YText ''exports''), (''configs_dir'', YText ''configs''),
     (''default_cash'', YFloat (Fin 10000)), (''paper_trading'', YBool False), (''alpaca_api_key'', YText []),
     (''alpaca_secret_key'', YText []), (''alpaca_paper'', YBool True)]"

definition env_names :: "(string \<times> string) list" where
  "env_names = [(''db_path'', ''DB_PATH''), (''database_url'', ''DATABASE_URL''), (''log_level'', ''LOG_LEVEL''),
     (''log_file'', ''LOG_FILE''), (''paper_trading'', ''PAPER_TRADING''), (''alpaca_api_key'', ''ALPACA_API_KEY''),
     (''alpaca_secret_key'', ''ALPACA_SECRET_KEY''), (''alpaca_paper'', ''ALPACA_PAPER'')]"

definition nested_paths :: "(string \<times> string list) list" where
  "nested_paths = [(''db_path'', [''database'', ''path'']), (''log_level'', [''logging'', ''level''])]"

definition settings_override :: "environ \<Rightarrow> float64 option \<Rightarrow> string \<Rightarrow> yaml" where
  "settings_override env cash key =
     (if key = ''default_cash'' then (case cash of None \<Rightarrow> YNull | Some x \<Rightarrow> YFloat x)
      else case map_of env_names key of
             None \<Rightarrow> YNull
           | Some name \<Rightarrow> (case map_of env name of None \<Rightarrow> YNull | Some s \<Rightarrow> YText s))"

text \<open>\<open>float(value)\<close> of a value of the settings file.\<close>

fun yaml_float :: "yaml \<Rightarrow> float64 res" where
  "yaml_float (YFloat x) = Inr x"
| "yaml_float (YInt n) = int_to_float n"
| "yaml_float (YBool b) = Inr (if b then 1 else 0)"
| "yaml_float (YText s) = (case parse_float s of None \<Rightarrow> Inl ValueError | Some x \<Rightarrow> Inr x)"
| "yaml_float _ = Inl TypeError"

definition field_source :: "environ \<Rightarrow> float64 option \<Rightarrow> settings \<Rightarrow> string \<Rightarrow> yaml" where
  "field_source env cash s key =
     (let v1 = settings_override env cash key;
          v2 = (if v1 = YNull \<and> key \<notin> set secret_fields then yaml_get s key else v1) in
      if v2 = YNull then (case map_of nested_paths key of None \<Rightarrow> YNull | Some path \<Rightarrow> nested (YMap s) path) else v2)"

definition field_value :: "environ \<Rightarrow> float64 option \<Rightarrow> settings \<Rightarrow> string \<Rightarrow> yaml option res" where
  "field_value env cash s key =
     (case field_source env cash s key of
        YNull \<Rightarrow> Inr None
      | v \<Rightarrow>
          let v1 = (case v of YText t \<Rightarrow> if key \<in> {''paper_trading'', ''alpaca_paper''}
                                        then YBool (lower t \<in> {''true'', ''1'', ''yes''}) else v
                    | _ \<Rightarrow> v) in
          if key = ''default_cash'' then rbind (yaml_float v1) (\<lambda>x. Inr (Some (YFloat x))) else Inr (Some v1))"

record config =
  cf_fields :: settings
  cf_raw :: settings

definition cf :: "config \<Rightarrow> string \<Rightarrow> yaml" where
  "cf c key = dict_get (cf_fields c @ config_defaults) key YNull"

text \<open>The keywords whose value is given.\<close>

fun given :: "('k \<times> 'v option) list \<Rightarrow> ('k \<times> 'v) list" where
  "given [] = []"
| "given ((k, None) # kvs) = given kvs"
| "given ((k, Some v) # kvs) = (k, v) # given kvs"

definition load_fields :: "environ \<Rightarrow> settings \<Rightarrow> config res" where
  "load_fields env s =
     rbind (case map_of env ''DEFAULT_CASH'' of
              None \<Rightarrow> Inr None
            | Some t \<Rightarrow> (case parse_float t of None \<Rightarrow> Inl ValueError | Some x \<Rightarrow> Inr (Some x))) (\<lambda>cash.
     rbind (mapr (\<lambda>key. rbind (field_value env cash s key) (\<lambda>v. Inr (key, v))) config_fields) (\<lambda>kvs.
       Inr \<lparr>cf_fields = given kvs, cf_raw = s\<rparr>))"

fun truthy_yaml :: "yaml \<Rightarrow> bool" where
  "truthy_yaml YNull = False"
| "truthy_yaml (YBool b) = b"
| "truthy_yaml (YInt n) = (n \<noteq> 0)"
| "truthy_yaml (YFloat x) = (x \<noteq> 0)"
| "truthy_yaml (YText s) = (s \<noteq> [])"
| "truthy_yaml (YList xs) = (xs \<noteq> [])"
| "truthy_yaml (YMap d) = (d \<noteq> [])"

text \<open>\<open>os.path.dirname\<close>.\<close>

definition dirname :: "string \<Rightarrow> string" where
  "dirname p =
     (let head = rev (dropWhile (\<lambda>c. c \<noteq> CHR 0x2F) (rev p)) in
      if list_all (\<lambda>c. c = CHR 0x2F) head then head else rev (dropWhile (\<lambda>c. c = CHR 0x2F) (rev head)))"

datatype config_error = DbPathEmpty | DbDirectory | BadLogLevel | BadDrawdown | LiveKeys | SymbolsNotList

text \<open>\<open>validate\<close>: the errors it collects, or the \<open>ValueError\<close> of the drawdown's conversion.  A
  database path that is not text raises in \<open>dirname\<close>.\<close>

definition validate_errors :: "(string \<Rightarrow> bool) \<Rightarrow> environ \<Rightarrow> config \<Rightarrow> config_error list res" where
  "validate_errors isdir env c =
     (if truthy_yaml (cf c ''database_url'') then Inr []
      else
      rbind (case cf c ''db_path'' of
               YText p \<Rightarrow> Inr ((if p = [] then [DbPathEmpty] else []) @
                 (if p \<noteq> '':memory:'' \<and> dirname p \<noteq> [] \<and> \<not> isdir (dirname p) then [DbDirectory] else []))
             | _ \<Rightarrow> Inl TypeError) (\<lambda>e1.
      rbind (getenv_int env ''MAX_DRAWDOWN'' 0) (\<lambda>max_dd.
        Inr (e1 @
          (if cf c ''log_level'' \<in> YText ` {''DEBUG'', ''INFO'', ''WARNING'', ''ERROR'', ''CRITICAL''} then [] else [BadLogLevel]) @
          (if max_dd < 0 \<or> 100 < max_dd then [BadDrawdown] else []) @
          (if lower (getenv env ''TRADING_MODE'' ''paper'') = ''live'' \<and>
              (\<not> truthy_yaml (cf c ''alpaca_api_key'') \<or> \<not> truthy_yaml (cf c ''alpaca_secret_key'')) then [LiveKeys] else []) @
          (case config_get (cf_raw c) [''data_collection'', ''forex_symbols''] (YList []) of YList _ \<Rightarrow> [] | _ \<Rightarrow> [SymbolsNotList])))))"

definition validate :: "(string \<Rightarrow> bool) \<Rightarrow> environ \<Rightarrow> config \<Rightarrow> unit res" where
  "validate isdir env c = rbind (validate_errors isdir env c) (\<lambda>es. if es = [] then Inr () else Inl ConfigError)"

text \<open>The directories \<open>load\<close> creates before it validates.\<close>

definition runtime_dirs :: "config \<Rightarrow> string list" where
  "runtime_dirs c =
     concat (map (\<lambda>k. case cf c k of YText d \<Rightarrow> if d = [] then [] else [d] | _ \<Rightarrow> []) [''data_dir'', ''exports_dir'']) @
     (case cf c ''db_path'' of YText p \<Rightarrow> if p = '':memory:'' \<or> dirname p = [] then [] else [dirname p] | _ \<Rightarrow> [])"

definition load :: "(string \<Rightarrow> bool) \<Rightarrow> environ \<Rightarrow> settings \<Rightarrow> config res" where
  "load isdir env s =
     rbind (load_fields env s) (\<lambda>c.
     rbind (validate (\<lambda>d. isdir d \<or> d \<in> set (runtime_dirs c)) env c) (\<lambda>_. Inr c))"

subsection \<open>What a loaded configuration guarantees\<close>

lemma cf_of_loaded:
  assumes "load_fields env s = Inr c" and "key \<in> set config_fields"
  obtains cash v where "field_value env cash s key = Inr v" and "cf c key = (case v of None \<Rightarrow> dict_get config_defaults key YNull | Some y \<Rightarrow> y)"
    and "cf_raw c = s"
proof -
  obtain cash kvs where fields: "mapr (\<lambda>key. rbind (field_value env cash s key) (\<lambda>v. Inr (key, v))) config_fields = Inr kvs"
    and c: "c = \<lparr>cf_fields = given kvs, cf_raw = s\<rparr>"
    using assms(1) by (auto simp: load_fields_def elim!: rbind_eq_InrE split: option.splits)
  have keys: "map fst kvs = ks \<and> (\<forall>k \<in> set ks. field_value env cash s k = Inr (the (map_of kvs k)) \<and> k \<in> set (map fst kvs))"
    if "mapr (\<lambda>key. rbind (field_value env cash s key) (\<lambda>v. Inr (key, v))) ks = Inr kvs" "distinct ks" for ks kvs
    using that by (induction ks arbitrary: kvs) (auto elim!: rbind_eq_InrE)
  have lookup: "map_of (given xs) key = (case map_of xs key of None \<Rightarrow> None | Some v \<Rightarrow> v)"
    if "distinct (map fst xs)" for xs :: "(string \<times> yaml option) list"
    using that
  proof (induction xs)
    case (Cons x xs)
    obtain k v where x: "x = (k, v)" by (cases x)
    show ?case
    proof (cases "k = key")
      case True
      then have "map_of xs key = None" using Cons.prems x by (simp add: map_of_eq_None_iff)
      then show ?thesis using Cons x True by (cases v) auto
    next
      case False
      then show ?thesis using Cons x by (cases v) auto
    qed
  qed simp
  have "distinct config_fields" by (simp add: config_fields_def)
  from keys [OF fields this] assms(2) have k: "map fst kvs = config_fields" "field_value env cash s key = Inr (the (map_of kvs key))"
    "map_of kvs key \<noteq> None" by (auto simp: map_of_eq_None_iff)
  then obtain v where v: "map_of kvs key = Some v" by auto
  have "distinct (map fst kvs)" using k(1) by (simp add: config_fields_def)
  from lookup [OF this] v have "map_of (cf_fields c) key = v" by (simp add: c)
  then have "cf c key = (case v of None \<Rightarrow> dict_get config_defaults key YNull | Some y \<Rightarrow> y)"
    by (auto simp: cf_def dict_get_def map_add_def split: option.splits)
  then show ?thesis using that [of cash v] k(2) v c by simp
qed

text \<open>
  The broker's keys never come from the settings file: a loaded configuration has exactly the
  keys of the environment, or the empty default, whatever the file says.
\<close>

theorem secrets_only_from_environment:
  assumes "load isdir env s = Inr c" and "(key, name) \<in> set [(''alpaca_api_key'', ''ALPACA_API_KEY''), (''alpaca_secret_key'', ''ALPACA_SECRET_KEY'')]"
  shows "cf c key = YText (getenv env name [])"
proof -
  have c: "load_fields env s = Inr c" using assms(1) by (auto simp: load_def elim!: rbind_eq_InrE)
  have mem: "key \<in> set config_fields" using assms(2) by (auto simp: config_fields_def)
  obtain cash v where v: "field_value env cash s key = Inr v"
    "cf c key = (case v of None \<Rightarrow> dict_get config_defaults key YNull | Some y \<Rightarrow> y)"
    using cf_of_loaded [OF c mem] by metis
  consider (api) "key = ''alpaca_api_key''" "name = ''ALPACA_API_KEY''" | (secret) "key = ''alpaca_secret_key''" "name = ''ALPACA_SECRET_KEY''"
    using assms(2) by auto
  then have source: "field_source env cash s key = (case map_of env name of None \<Rightarrow> YNull | Some t \<Rightarrow> YText t)"
    by cases (simp_all add: field_source_def settings_override_def env_names_def secret_fields_def nested_paths_def Let_def split: option.split)
  have dflt: "dict_get config_defaults key YNull = YText []" "key \<noteq> ''default_cash''" "key \<notin> {''paper_trading'', ''alpaca_paper''}"
    using assms(2) by (auto simp: dict_get_def config_defaults_def)
  show ?thesis
    using v source dflt by (cases "map_of env name") (auto simp: field_value_def getenv_def dict_get_def)
qed

definition keyed_environ :: environ where
  "keyed_environ = [(''ALPACA_API_KEY'', ''k'')]"

theorem secrets_only_from_environment_witness:
  "\<exists>c. load (\<lambda>_. True) keyed_environ [(''alpaca_api_key'', YText ''leaked'')] = Inr c \<and> cf c ''alpaca_api_key'' = YText ''k''"
proof -
  let ?s = "[(''alpaca_api_key'', YText ''leaked'')]"
  have "\<exists>c. load (\<lambda>_. True) keyed_environ ?s = Inr c"
    by (simp add: load_def load_fields_def config_fields_def field_value_def field_source_def settings_override_def env_names_def
        keyed_environ_def secret_fields_def nested_paths_def yaml_get_def dict_get_def validate_def validate_errors_def cf_def
        config_defaults_def config_get_def getenv_def getenv_int_def lower_def lower_char_def char_code_def Let_def)
  then obtain c where c: "load (\<lambda>_. True) keyed_environ ?s = Inr c" by blast
  have "cf c ''alpaca_api_key'' = YText (getenv keyed_environ ''ALPACA_API_KEY'' [])"
    by (rule secrets_only_from_environment [OF c]) simp
  then show ?thesis using c by (simp add: keyed_environ_def getenv_def dict_get_def)
qed

text \<open>
  Validation depends on the database: without a database URL a valid configuration has a known
  log level, a drawdown of 0 to 100, a list of symbols, and in live mode both broker keys;
  with one nothing at all is checked, so a live process on PostgreSQL passes without keys.
\<close>

theorem validation_skipped_with_database_url:
  "if truthy_yaml (cf c ''database_url'') then validate isdir env c = Inr ()
   else validate isdir env c = Inr () \<longrightarrow>
     cf c ''log_level'' \<in> YText ` {''DEBUG'', ''INFO'', ''WARNING'', ''ERROR'', ''CRITICAL''} \<and>
     (\<exists>n. getenv_int env ''MAX_DRAWDOWN'' 0 = Inr n \<and> 0 \<le> n \<and> n \<le> 100) \<and>
     (lower (getenv env ''TRADING_MODE'' ''paper'') = ''live'' \<longrightarrow>
        truthy_yaml (cf c ''alpaca_api_key'') \<and> truthy_yaml (cf c ''alpaca_secret_key''))"
proof (cases "truthy_yaml (cf c ''database_url'')")
  case True
  then show ?thesis by (simp add: validate_def validate_errors_def)
next
  case False
  have "cf c ''log_level'' \<in> YText ` {''DEBUG'', ''INFO'', ''WARNING'', ''ERROR'', ''CRITICAL''} \<and>
     (\<exists>n. getenv_int env ''MAX_DRAWDOWN'' 0 = Inr n \<and> 0 \<le> n \<and> n \<le> 100) \<and>
     (lower (getenv env ''TRADING_MODE'' ''paper'') = ''live'' \<longrightarrow>
        truthy_yaml (cf c ''alpaca_api_key'') \<and> truthy_yaml (cf c ''alpaca_secret_key''))"
    if v: "validate isdir env c = Inr ()"
  proof -
    obtain es where es: "validate_errors isdir env c = Inr es" "es = []"
      using v by (cases "validate_errors isdir env c") (auto simp: validate_def split: if_splits)
    obtain e1 n where n: "getenv_int env ''MAX_DRAWDOWN'' 0 = Inr n" and "es = e1 @
          (if cf c ''log_level'' \<in> YText ` {''DEBUG'', ''INFO'', ''WARNING'', ''ERROR'', ''CRITICAL''} then [] else [BadLogLevel]) @
          (if n < 0 \<or> 100 < n then [BadDrawdown] else []) @
          (if lower (getenv env ''TRADING_MODE'' ''paper'') = ''live'' \<and>
              (\<not> truthy_yaml (cf c ''alpaca_api_key'') \<or> \<not> truthy_yaml (cf c ''alpaca_secret_key'')) then [LiveKeys] else []) @
          (case config_get (cf_raw c) [''data_collection'', ''forex_symbols''] (YList []) of YList _ \<Rightarrow> [] | _ \<Rightarrow> [SymbolsNotList])"
      using es(1) False unfolding validate_errors_def by (auto elim!: rbind_eq_InrE simp del: append_assoc)
    with es(2) show ?thesis by (simp split: if_splits)
  qed
  with False show ?thesis by simp
qed

definition postgres_live :: config where
  "postgres_live = \<lparr>cf_fields = [(''database_url'', YText ''postgresql://db/traderos'')], cf_raw = []\<rparr>"

theorem validation_skipped_with_database_url_witness:
  "validate (\<lambda>_. False) [(''TRADING_MODE'', ''live'')] postgres_live = Inr () \<and> \<not> truthy_yaml (cf postgres_live ''alpaca_api_key'')"
proof -
  have "truthy_yaml (cf postgres_live ''database_url'')" by (simp add: cf_def postgres_live_def dict_get_def)
  then show ?thesis
    using validation_skipped_with_database_url [of postgres_live "\<lambda>_. False" "[(''TRADING_MODE'', ''live'')]"]
    by (simp add: cf_def postgres_live_def dict_get_def config_defaults_def)
qed

subsection \<open>The security policy\<close>

definition deployment_environment :: "environ \<Rightarrow> string" where
  "deployment_environment env =
     (let v = lower (strip (getenv env ''TRADEROS_ENV'' [])) in if v = [] then ''development'' else v)"

definition tls_terminated_by_proxy :: "environ \<Rightarrow> bool" where
  "tls_terminated_by_proxy env \<longleftrightarrow> lower (strip (getenv env ''TLS_TERMINATED_BY_PROXY'' [])) \<in> {''true'', ''1'', ''yes''}"

definition tls_configured :: "environ \<Rightarrow> bool" where
  "tls_configured env \<longleftrightarrow> getenv env ''SSL_KEYFILE'' [] \<noteq> [] \<and> getenv env ''SSL_CERTFILE'' [] \<noteq> []"

definition cors_allow_all :: "environ \<Rightarrow> bool" where
  "cors_allow_all env \<longleftrightarrow> strip (getenv env ''CORS_ORIGINS'' []) = ''*''"

text \<open>The findings by name, with the parameters of \<open>interfaces/api/main.py\<close>.\<close>

definition security_posture :: "environ \<Rightarrow> int \<Rightarrow> (string \<times> bool) list" where
  "security_posture env rotation_interval =
     (if deployment_environment env = ''production''
      then [(''auth'', auth_enabled (authenticator_from_env env)), (''tls'', tls_configured env \<or> tls_terminated_by_proxy env),
            (''cors'', \<not> cors_allow_all env)]
      else [(''auth'', True), (''tls'', True), (''cors'', \<not> cors_allow_all env)]) @
     [(''secret_rotation'', 0 < rotation_interval)]"

definition assert_production_policy :: "environ \<Rightarrow> int \<Rightarrow> unit res" where
  "assert_production_policy env rotation_interval =
     (if deployment_environment env \<noteq> ''production'' then Inr ()
      else if list_all snd (security_posture env rotation_interval) then Inr () else Inl ConfigError)"

text \<open>The origins \<open>build_app\<close> hands to the CORS middleware.\<close>

definition allowed_origins :: "environ \<Rightarrow> string list" where
  "allowed_origins env =
     (let cors = strip (getenv env ''CORS_ORIGINS'' []) in
      if cors = ''*'' then [''*''] else filter (\<lambda>x. x \<noteq> []) (map strip (split_comma cors)))"

text \<open>
  In production the policy lets a process serve exactly when keys are configured, TLS is there
  or declared at the edge, the rotation interval is positive, and the origins are not the
  single wild card.
\<close>

theorem production_policy:
  "deployment_environment env = ''production'' \<longrightarrow>
     (assert_production_policy env interval = Inr () \<longleftrightarrow>
        auth_enabled (authenticator_from_env env) \<and> (tls_configured env \<or> tls_terminated_by_proxy env) \<and>
        \<not> cors_allow_all env \<and> 0 < interval)"
  by (simp add: assert_production_policy_def security_posture_def)

definition production_environ :: environ where
  "production_environ = [(''TRADEROS_ENV'', ''production''), (''TRADEROS_ADMIN_API_KEY'', ''12345678''),
     (''TLS_TERMINATED_BY_PROXY'', ''true''), (''CORS_ORIGINS'', ''*,https://app'')]"

lemmas text_eval = strip_def lower_def lower_char_def is_space_def char_code_def getenv_def dict_get_def

theorem production_policy_witness:
  "assert_production_policy production_environ 60 = Inr () \<and> ''*'' \<in> set (allowed_origins production_environ)"
proof -
  have "deployment_environment production_environ = ''production''"
    by (simp add: deployment_environment_def production_environ_def text_eval Let_def)
  moreover have "auth_enabled (authenticator_from_env production_environ)"
    by (simp add: auth_enabled_def authenticator_from_env_def production_environ_def split_keys_def text_eval Let_def)
  moreover have "tls_terminated_by_proxy production_environ" "\<not> cors_allow_all production_environ"
    by (simp_all add: tls_terminated_by_proxy_def cors_allow_all_def production_environ_def text_eval)
  moreover have "''*'' \<in> set (allowed_origins production_environ)"
    by (simp add: allowed_origins_def production_environ_def text_eval Let_def)
  ultimately show ?thesis using production_policy [of production_environ 60] by simp
qed

subsection \<open>Migrations on boot\<close>

text \<open>\<open>None\<close>: the step is skipped.  The connection may already fail to open.\<close>

definition run_migrations_on_boot :: "environ \<Rightarrow> config \<Rightarrow> connection res \<Rightarrow> nat option res \<times> connection option" where
  "run_migrations_on_boot env c conn =
     (if lower (getenv env ''RUN_MIGRATIONS_ON_BOOT'' ''true'') \<in> {''0'', ''false'', ''no'', ''off''} then (Inr None, None)
      else if \<not> truthy_yaml (cf c ''database_url'') \<and> getenv env ''DATABASE_URL'' [] = [] then (Inr None, None)
      else case conn of
             Inl e \<Rightarrow> (Inl RuntimeError, None)
           | Inr cx \<Rightarrow>
               (case migrate discover_migrations None True cx of
                  (Inl e, cx1) \<Rightarrow> (Inl RuntimeError, Some cx1)
                | (Inr _, cx1) \<Rightarrow>
                    (case commit cx1 of
                       (Inl e, cx2) \<Rightarrow> (Inl RuntimeError, Some cx2)
                     | (Inr _, cx2) \<Rightarrow> (Inr (Some (get_current_version (cx_work cx1))), Some cx2))))"

definition work_tables :: "connection \<Rightarrow> string set" where
  "work_tables cx = set (sm_tables (cx_work cx))"

definition adds_tables :: "(migration \<Rightarrow> connection \<Rightarrow> unit res \<times> connection) \<Rightarrow> bool" where
  "adds_tables f \<longleftrightarrow> (\<forall>m cx u cx'. f m cx = (Inr u, cx') \<longrightarrow> work_tables cx \<union> set (mi_creates m) \<subseteq> work_tables cx')"

lemma commit_work: "commit cx = (r, cx') \<Longrightarrow> work_tables cx' = work_tables cx"
  by (drule commit_effect) (simp add: work_tables_def)

lemma dml_work: "run_dml f cx = (r, cx') \<Longrightarrow> work_tables cx' = work_tables cx"
  by (drule dml_effect) (auto simp: work_tables_def)

lemma up_work: "mi_up m cx = (Inr u, cx') \<Longrightarrow> work_tables cx \<union> set (mi_creates m) \<subseteq> work_tables cx'"
  unfolding mi_up_def by (drule creates_grow) (auto simp: grows_def work_tables_def)

lemma repair_adds: "adds_tables repair_one"
  unfolding adds_tables_def repair_one_def
  by (auto elim!: cthenE dest!: up_work commit_work)

lemma upgrade_adds: "adds_tables upgrade_one"
  unfolding adds_tables_def upgrade_one_def
  by (auto elim!: cthenE dest!: up_work commit_work dml_work)

lemma each_adds:
  assumes "adds_tables f"
  shows "each f ms cx = (Inr u, cx') \<Longrightarrow> work_tables cx \<subseteq> work_tables cx' \<and> (\<forall>m \<in> set ms. set (mi_creates m) \<subseteq> work_tables cx')"
proof (induction ms arbitrary: cx)
  case (Cons m ms)
  from Cons.prems obtain v cx1 where one: "f m cx = (Inr v, cx1)" and rest: "each f ms cx1 = (Inr u, cx')"
    by (auto elim!: cthenE)
  have "work_tables cx \<union> set (mi_creates m) \<subseteq> work_tables cx1" using assms one unfolding adds_tables_def by blast
  with Cons.IH [OF rest] show ?case by auto
qed simp

lemma head_is_twelve: "latest_version discover_migrations = 12" "m \<in> set discover_migrations \<Longrightarrow> mi_version m \<le> 12"
  by (auto simp: latest_version_def discover_migrations_def)

lemma migrated_schema:
  assumes "migrate discover_migrations None True cx = (Inr u, cx')" and "m \<in> set discover_migrations"
  shows "set (mi_tables m) \<subseteq> work_tables cx'"
proof -
  let ?ms = discover_migrations
  have creates: "set (mi_tables m) \<subseteq> set (mi_creates m)" using chain_is_ok assms(2) by (auto simp: chain_ok_def list_all_iff)
  obtain u0 cx1 where en: "ensure_version_table cx = (Inr u0, cx1)"
    using assms(1) by (cases "ensure_version_table cx"; cases "fst (ensure_version_table cx)") (auto simp: migrate_def)
  let ?current = "get_current_version (cx_work cx1)"
  let ?drift = "sort_key mi_version (drift_for ?ms ?current (cx_work cx1))"
  obtain u1 cx2 where rep: "each repair_one ?drift cx1 = (Inr u1, cx2)"
    using assms(1) en by (cases "each repair_one ?drift cx1"; cases "fst (each repair_one ?drift cx1)") (auto simp: migrate_def Let_def)
  note repaired = each_adds [OF repair_adds rep]
  have rest: "(if ?current < 12 then each upgrade_one (filter (\<lambda>m. ?current < mi_version m \<and> mi_version m \<le> 12) ?ms) cx2
     else if 12 < ?current then each downgrade_one (filter (\<lambda>m. mi_version m \<le> ?current \<and> 12 < mi_version m) (rev ?ms)) cx2
     else (Inr (), cx2)) = (Inr u, cx')"
    using assms(1) en rep by (simp add: migrate_def head_is_twelve(1) Let_def split: if_splits)
  have none: "filter (\<lambda>m. mi_version m \<le> ?current \<and> 12 < mi_version m) (rev ?ms) = []"
    using head_is_twelve(2) by (fastforce simp: filter_empty_conv)
  have grown: "work_tables cx2 \<subseteq> work_tables cx'"
    using rest none each_adds [OF upgrade_adds] by (auto split: if_splits)
  show ?thesis
  proof (cases "mi_version m \<le> ?current")
    case True
    have "set (mi_tables m) \<subseteq> work_tables cx2"
    proof (cases "missing_tables (cx_work cx1) m = []")
      case True
      then have "set (mi_tables m) \<subseteq> work_tables cx1" by (auto simp: missing_tables_def work_tables_def filter_empty_conv)
      then show ?thesis using repaired by auto
    next
      case False
      then have "m \<in> set ?drift" using True assms(2) by (simp add: drift_for_def)
      then show ?thesis using repaired creates by auto
    qed
    then show ?thesis using grown by auto
  next
    case False
    then have "m \<in> set (filter (\<lambda>m. ?current < mi_version m \<and> mi_version m \<le> 12) ?ms)" "?current < 12"
      using assms(2) head_is_twelve(2) [OF assms(2)] by auto
    then show ?thesis using rest each_adds [OF upgrade_adds] creates by (metis subset_trans)
  qed
qed

text \<open>
  C23. A process that migrated on boot serves on the whole schema: when the step returns a version,
  every table a migration declares is durable, whatever state, marker and missing tables the
  database had before.
\<close>

theorem boot_serves_on_whole_schema:
  assumes "run_migrations_on_boot env c conn = (Inr (Some v), Some cx')"
  shows "list_all (\<lambda>m. set (mi_tables m) \<subseteq> set (sm_tables (cx_durable cx'))) discover_migrations"
proof -
  obtain cx u cx1 w where m: "migrate discover_migrations None True cx = (Inr u, cx1)" and k: "commit cx1 = (Inr w, cx')"
    using assms by (auto simp: run_migrations_on_boot_def split: if_splits sum.splits prod.splits)
  have "set (sm_tables (cx_durable cx')) = work_tables cx1" using commit_effect [OF k] by (simp add: work_tables_def)
  then show ?thesis using migrated_schema [OF m] by (simp add: list_all_iff)
qed

definition broken_schema :: connection where
  "broken_schema = local_connection\<lparr>cx_durable := head_schema\<lparr>sm_tables := [''_schema_version'']\<rparr>,
     cx_work := head_schema\<lparr>sm_tables := [''_schema_version'']\<rparr>\<rparr>"

theorem boot_serves_on_whole_schema_witness:
  "\<exists>v cx'. run_migrations_on_boot [] postgres_live (Inr broken_schema) = (Inr (Some v), Some cx') \<and>
     ''users'' \<in> set (sm_tables (cx_durable cx'))"
proof -
  have "case run_migrations_on_boot [] postgres_live (Inr broken_schema) of
          (Inr (Some v), Some cx') \<Rightarrow> True | _ \<Rightarrow> False"
    by code_simp
  then have "\<exists>v cx'. run_migrations_on_boot [] postgres_live (Inr broken_schema) = (Inr (Some v), Some cx')"
    by (auto split: prod.splits sum.splits option.splits)
  then obtain v cx' where run: "run_migrations_on_boot [] postgres_live (Inr broken_schema) = (Inr (Some v), Some cx')" by blast
  from boot_serves_on_whole_schema [OF this] have "''users'' \<in> set (sm_tables (cx_durable cx'))"
    by (simp add: discover_migrations_def)
  with run show ?thesis by blast
qed

subsection \<open>The workers of a process\<close>

text \<open>The background workers of the orchestrator, which of them run, and whether the daemon does.\<close>

datatype service_worker = DaemonLoop | SecretRotation | StreamingFeed | ProbeSchedule | BackupSchedule

definition orchestrator_start :: "service_worker set \<Rightarrow> service_worker list" where
  "orchestrator_start wired = DaemonLoop # filter (\<lambda>w. w \<in> wired) [SecretRotation, StreamingFeed, ProbeSchedule, BackupSchedule]"

definition orchestrator_stop :: "service_worker set \<Rightarrow> service_worker list" where
  "orchestrator_stop wired = filter (\<lambda>w. w \<in> wired) [StreamingFeed, SecretRotation, ProbeSchedule, BackupSchedule] @ [DaemonLoop]"

definition run_forever_workers :: "service_worker set \<Rightarrow> service_worker list" where
  "run_forever_workers wired = filter (\<lambda>w. w \<in> wired) [ProbeSchedule, BackupSchedule] @ [DaemonLoop]"

text \<open>
  The daemon command runs without its stream and its rotation: \<open>run_forever\<close>, the only way
  the command line starts the orchestrator, starts neither, while \<open>start\<close>, which only the API
  calls, starts every wired worker and \<open>stop\<close> stops the same ones.
\<close>

theorem daemon_command_never_streams:
  "set (run_forever_workers wired) = set (orchestrator_start wired) - {SecretRotation, StreamingFeed} \<and>
   set (orchestrator_stop wired) = set (orchestrator_start wired)"
  by (auto simp: run_forever_workers_def orchestrator_start_def orchestrator_stop_def)

end
