(* ===== verification/Connections.thy ===== *)
theory Connections
  imports Deployment
begin

text \<open>
  \<open>infrastructure/database/connection.py\<close>: which database a caller gets, the connection that
  refuses statements once it is closed, and the connection pool.

  A connection is the number of its dial, as the pool compares connections by identity; what
  the driver does is the parameter \<open>driver\<close>: the exception of a dial, if any, and the answer
  of a probe.  The stack of idle connections has its top at the head.  The lock makes every
  operation of the pool one step.
\<close>

subsection \<open>Which database\<close>

definition is_postgres_url :: "string \<Rightarrow> bool" where
  "is_postgres_url url = (starts_with ''postgresql://'' url \<or> starts_with ''postgres://'' url)"

definition resolve_backend :: "environ \<Rightarrow> string option \<Rightarrow> string" where
  "resolve_backend env url =
     (if is_postgres_url (case url of None \<Rightarrow> getenv env ''DATABASE_URL'' [] | Some u \<Rightarrow> u) then ''postgres'' else ''sqlite'')"

datatype target = PostgresAt string | SqliteAt yaml

text \<open>A database URL that is no text has no \<open>startswith\<close>.\<close>

definition config_url :: "environ \<Rightarrow> config \<Rightarrow> string res" where
  "config_url env c =
     (case cf c ''database_url'' of
        YNull \<Rightarrow> Inr (getenv env ''DATABASE_URL'' [])
      | YText u \<Rightarrow> Inr u
      | _ \<Rightarrow> Inl (OtherException ''AttributeError''))"

definition target_of :: "config \<Rightarrow> string \<Rightarrow> target" where
  "target_of c url = (if is_postgres_url url then PostgresAt url else SqliteAt (cf c ''db_path''))"

definition connection_target :: "environ \<Rightarrow> config res \<Rightarrow> config option \<Rightarrow> target res" where
  "connection_target env loaded given_config =
     (case given_config of
        Some c \<Rightarrow> rbind (config_url env c) (\<lambda>url. Inr (target_of c url))
      | None \<Rightarrow>
          rbind loaded (\<lambda>c.
            (case cf c ''database_url'' of
               YText u \<Rightarrow> Inr (target_of c (if u = [] then getenv env ''DATABASE_URL'' [] else u))
             | v \<Rightarrow> if truthy_yaml v then Inl (OtherException ''AttributeError'')
                     else Inr (target_of c (getenv env ''DATABASE_URL'' [])))))"

text \<open>
  An explicit database wins over the environment, which the boot does not follow: a configuration with
  an explicit empty URL connects to its SQLite file whatever the environment says, while the
  boot takes the URL of the environment as its reason to migrate: it goes on to that connection
  and refuses to serve when it fails.
\<close>

theorem explicit_database_wins:
  assumes "cf c ''database_url'' = YText u"
  shows "connection_target env loaded (Some c) = Inr (target_of c u) \<and>
     (if u = [] \<and> getenv env ''DATABASE_URL'' [] \<noteq> [] \<and> getenv env ''RUN_MIGRATIONS_ON_BOOT'' ''true'' = ''true''
      then connection_target env loaded (Some c) = Inr (SqliteAt (cf c ''db_path'')) \<and>
           run_migrations_on_boot env c (Inl e) = (Inl RuntimeError, None)
      else True)"
  using assms
  by (simp add: connection_target_def config_url_def target_of_def is_postgres_url_def starts_with_def
      run_migrations_on_boot_def lower_def lower_char_def char_code_def)

definition sqlite_config :: config where
  "sqlite_config = \<lparr>cf_fields = [(''database_url'', YText []), (''db_path'', YText ''t.db'')], cf_raw = []\<rparr>"

theorem explicit_database_wins_witness:
  "connection_target [(''DATABASE_URL'', ''postgresql://db'')] (Inl ConfigError) (Some sqlite_config) = Inr (SqliteAt (YText ''t.db''))"
  using explicit_database_wins [of sqlite_config "[]" "[(''DATABASE_URL'', ''postgresql://db'')]" "Inl ConfigError"]
  by (auto simp: sqlite_config_def cf_def dict_get_def target_of_def is_postgres_url_def starts_with_def)

subsection \<open>A connection that knows it is closed\<close>

record 'c safe_connection =
  sc_inner :: 'c
  sc_closed :: bool

definition ConnectionClosedError :: exc where
  "ConnectionClosedError = OtherException ''ConnectionClosedError''"

text \<open>\<open>execute\<close>, \<open>executemany\<close>, \<open>executescript\<close>, \<open>cursor\<close>, \<open>commit\<close> and \<open>rollback\<close> are the
  inner statement under the guard.\<close>

definition safe_call :: "('c \<Rightarrow> 'a res \<times> 'c) \<Rightarrow> 'c safe_connection \<Rightarrow> 'a res \<times> 'c safe_connection" where
  "safe_call f sc =
     (if sc_closed sc then (Inl ConnectionClosedError, sc)
      else case f (sc_inner sc) of (r, c) \<Rightarrow> (r, sc\<lparr>sc_inner := c\<rparr>))"

definition safe_close :: "('c \<Rightarrow> 'c) \<Rightarrow> 'c safe_connection \<Rightarrow> 'c safe_connection" where
  "safe_close close sc = (if sc_closed sc then sc else sc\<lparr>sc_closed := True, sc_inner := close (sc_inner sc)\<rparr>)"

lemma closed_connection_is_inert:
  "safe_call f (safe_close close sc) = (Inl ConnectionClosedError, safe_close close sc) \<and>
   safe_close close' (safe_close close sc) = safe_close close sc"
  by (simp add: safe_call_def safe_close_def)

subsection \<open>The pool\<close>

record driver =
  dr_dial :: "nat \<Rightarrow> exc option"
  dr_healthy :: "nat \<Rightarrow> nat \<Rightarrow> bool"

record pool =
  pl_min :: int
  pl_max :: int
  pl_idle :: "nat list"
  pl_in_use :: "nat list"
  pl_closed :: bool
  pl_dials :: nat
  pl_probes :: nat
  pl_dropped :: "nat list"

definition create_connection :: "driver \<Rightarrow> pool \<Rightarrow> nat res \<times> pool" where
  "create_connection dr p =
     (case dr_dial dr (pl_dials p) of
        Some e \<Rightarrow> (Inl e, p\<lparr>pl_dials := pl_dials p + 1\<rparr>)
      | None \<Rightarrow> (Inr (pl_dials p), p\<lparr>pl_dials := pl_dials p + 1\<rparr>))"

definition pool_probe :: "driver \<Rightarrow> nat \<Rightarrow> pool \<Rightarrow> bool \<times> pool" where
  "pool_probe dr c p = (dr_healthy dr c (pl_probes p), p\<lparr>pl_probes := pl_probes p + 1\<rparr>)"

definition drop_connection :: "nat \<Rightarrow> pool \<Rightarrow> pool" where
  "drop_connection c p = p\<lparr>pl_dropped := pl_dropped p @ [c]\<rparr>"

fun fill_pool :: "driver \<Rightarrow> nat \<Rightarrow> pool \<Rightarrow> unit res \<times> pool" where
  "fill_pool dr 0 p = (Inr (), p)"
| "fill_pool dr (Suc n) p =
     (case create_connection dr p of
        (Inl e, p1) \<Rightarrow> (Inl e, p1)
      | (Inr c, p1) \<Rightarrow> fill_pool dr n (p1\<lparr>pl_idle := c # pl_idle p1\<rparr>))"

definition new_pool :: "driver \<Rightarrow> int \<Rightarrow> int \<Rightarrow> unit res \<times> pool" where
  "new_pool dr mn mx = fill_pool dr (nat mn)
     \<lparr>pl_min = mn, pl_max = mx, pl_idle = [], pl_in_use = [], pl_closed = False, pl_dials = 0, pl_probes = 0, pl_dropped = []\<rparr>"

text \<open>The loop over the idle connections: the first healthy one, the others dropped.\<close>

fun reuse :: "driver \<Rightarrow> nat list \<Rightarrow> pool \<Rightarrow> nat option \<times> pool" where
  "reuse dr [] p = (None, p\<lparr>pl_idle := []\<rparr>)"
| "reuse dr (c # cs) p =
     (case pool_probe dr c p of
        (True, p1) \<Rightarrow> (Some c, p1\<lparr>pl_idle := cs, pl_in_use := List.insert c (pl_in_use p1)\<rparr>)
      | (False, p1) \<Rightarrow> reuse dr cs (drop_connection c p1))"

definition acquire :: "driver \<Rightarrow> pool \<Rightarrow> nat res \<times> pool" where
  "acquire dr p =
     (if pl_closed p then (Inl RuntimeError, p)
      else case reuse dr (pl_idle p) p of
        (Some c, p1) \<Rightarrow> (Inr c, p1)
      | (None, p1) \<Rightarrow>
          if int (length (pl_in_use p1)) < pl_max p1
          then (case create_connection dr p1 of
                  (Inl e, p2) \<Rightarrow> (Inl e, p2)
                | (Inr c, p2) \<Rightarrow> (Inr c, p2\<lparr>pl_in_use := List.insert c (pl_in_use p2)\<rparr>))
          else (Inl RuntimeError, p1))"

definition release_connection :: "driver \<Rightarrow> nat \<Rightarrow> pool \<Rightarrow> pool" where
  "release_connection dr c p =
     (let p1 = p\<lparr>pl_in_use := removeAll c (pl_in_use p)\<rparr> in
      if pl_closed p then drop_connection c p1
      else case pool_probe dr c p1 of
        (True, p2) \<Rightarrow> p2\<lparr>pl_idle := c # pl_idle p2\<rparr>
      | (False, p2) \<Rightarrow> drop_connection c p2)"

definition close_all :: "pool \<Rightarrow> pool" where
  "close_all p = p\<lparr>pl_closed := True, pl_dropped := pl_dropped p @ rev (pl_idle p) @ pl_in_use p, pl_idle := [], pl_in_use := []\<rparr>"

text \<open>\<open>pooled_connection\<close>: the body and the commit may raise, and so may the rollback.\<close>

definition pooled_connection :: "driver \<Rightarrow> (nat \<Rightarrow> exc option) \<Rightarrow> (nat \<Rightarrow> exc option) \<Rightarrow> (nat \<Rightarrow> exc option) \<Rightarrow> pool \<Rightarrow> unit res \<times> pool" where
  "pooled_connection dr body commit_it rollback_it p =
     (case acquire dr p of
        (Inl e, p1) \<Rightarrow> (Inl e, p1)
      | (Inr c, p1) \<Rightarrow>
          (case (case body c of None \<Rightarrow> commit_it c | Some e \<Rightarrow> Some e) of
             None \<Rightarrow> Inr ()
           | Some e \<Rightarrow> (case rollback_it c of None \<Rightarrow> Inl e | Some e2 \<Rightarrow> Inl e2),
           release_connection dr c p1))"

subsection \<open>A connection has one holder\<close>

definition pool_ok :: "pool \<Rightarrow> bool" where
  "pool_ok p \<longleftrightarrow>
     distinct (pl_idle p @ pl_in_use p) \<and> (\<forall>c \<in> set (pl_idle p @ pl_in_use p). c < pl_dials p \<and> c \<notin> set (pl_dropped p)) \<and>
     (\<forall>c \<in> set (pl_dropped p). c < pl_dials p) \<and> int (length (pl_idle p @ pl_in_use p)) \<le> max 0 (pl_max p)"

datatype pool_op = Acquire | Release nat | CloseAll

fun pool_do :: "driver \<Rightarrow> pool_op \<Rightarrow> pool \<Rightarrow> pool" where
  "pool_do dr Acquire p = snd (acquire dr p)"
| "pool_do dr (Release c) p = release_connection dr c p"
| "pool_do dr CloseAll p = close_all p"

text \<open>Callers that release only what they hold, each once.\<close>

fun fair_calls :: "driver \<Rightarrow> pool_op list \<Rightarrow> pool \<Rightarrow> bool" where
  "fair_calls dr [] p = True"
| "fair_calls dr (x # xs) p =
     ((case x of Release c \<Rightarrow> c \<in> set (pl_in_use p) | _ \<Rightarrow> True) \<and> fair_calls dr xs (pool_do dr x p))"

lemma create_ok:
  assumes "pool_ok p" and "create_connection dr p = (r, p')"
  shows "pl_idle p' = pl_idle p \<and> pl_in_use p' = pl_in_use p \<and> pl_max p' = pl_max p \<and> pl_dropped p' = pl_dropped p \<and>
     pl_dials p' = pl_dials p + 1 \<and> (case r of Inl e \<Rightarrow> True | Inr c \<Rightarrow> c = pl_dials p) \<and> pool_ok p'"
  using assms by (auto simp: create_connection_def pool_ok_def less_SucI split: option.splits)

lemma fill_ok:
  assumes "pool_ok p" and "pl_in_use p = []" and "int (length (pl_idle p)) + int n \<le> max 0 (pl_max p)"
  shows "pool_ok (snd (fill_pool dr n p))"
  using assms
proof (induction n arbitrary: p)
  case (Suc n)
  obtain r p1 where c: "create_connection dr p = (r, p1)" by fastforce
  note f = create_ok [OF Suc.prems(1) c]
  show ?case
  proof (cases r)
    case (Inr k)
    then have k: "k = pl_dials p" using f by simp
    have "pool_ok (p1\<lparr>pl_idle := k # pl_idle p1\<rparr>)"
      using f Suc.prems k by (auto simp: pool_ok_def)
    then show ?thesis using Suc.IH [of "p1\<lparr>pl_idle := k # pl_idle p1\<rparr>"] Suc.prems f by (simp add: c Inr)
  qed (use f in \<open>simp add: c\<close>)
qed simp

lemma reuse_literal:
  "reuse dr cs \<lparr>pl_min = a, pl_max = b, pl_idle = x, pl_in_use = u, pl_closed = k, pl_dials = d, pl_probes = n, pl_dropped = f\<rparr> =
   reuse dr cs \<lparr>pl_min = a, pl_max = b, pl_idle = y, pl_in_use = u, pl_closed = k, pl_dials = d, pl_probes = n, pl_dropped = f\<rparr>"
  by (induction cs arbitrary: n f) (simp_all add: pool_probe_def drop_connection_def split: bool.split)

lemma reuse_idle: "reuse dr cs (p\<lparr>pl_idle := y\<rparr>) = reuse dr cs p"
  by (cases p) (simp add: reuse_literal [of dr cs _ _ y])

lemma reuse_ok:
  assumes "pool_ok p" and "pl_idle p = cs" and "reuse dr cs p = (r, p')"
  shows "pool_ok p' \<and> pl_max p' = pl_max p \<and> (r = None \<longrightarrow> pl_idle p' = [])"
  using assms
proof (induction cs arbitrary: p)
  case Nil
  then show ?case by (cases p) auto
next
  case (Cons c cs)
  show ?case
  proof (cases "dr_healthy dr c (pl_probes p)")
    case True
    then show ?thesis using Cons.prems by (auto simp: pool_probe_def pool_ok_def List.insert_def)
  next
    case False
    let ?p = "drop_connection c (p\<lparr>pl_probes := pl_probes p + 1\<rparr>)"
    have shape: "reuse dr cs ?p = reuse dr cs (?p\<lparr>pl_idle := cs\<rparr>)"
      by (rule reuse_idle [symmetric])
    have "pool_ok (?p\<lparr>pl_idle := cs\<rparr>)"
      using Cons.prems by (auto simp: pool_ok_def drop_connection_def)
    then show ?thesis
      using Cons.IH [of "?p\<lparr>pl_idle := cs\<rparr>"] Cons.prems(3) False shape by (simp add: pool_probe_def drop_connection_def)
  qed
qed

lemma acquire_ok:
  assumes "pool_ok p"
  shows "pool_ok (snd (acquire dr p)) \<and> pl_max (snd (acquire dr p)) = pl_max p"
proof (cases "pl_closed p")
  case True
  then show ?thesis using assms by (simp add: acquire_def)
next
  case False
  obtain r p1 where re: "reuse dr (pl_idle p) p = (r, p1)" by fastforce
  note ok = reuse_ok [OF assms refl re]
  show ?thesis
  proof (cases r)
    case (Some c)
    then show ?thesis using False re ok by (simp add: acquire_def)
  next
    case None
    obtain r2 p2 where c: "create_connection dr p1 = (r2, p2)" by fastforce
    have made: "pl_idle p2 = []" "pl_in_use p2 = pl_in_use p1" "pl_max p2 = pl_max p1" "pl_dropped p2 = pl_dropped p1"
      "pl_dials p2 = pl_dials p1 + 1" "pool_ok p2" and k: "\<And>k. r2 = Inr k \<Longrightarrow> k = pl_dials p1"
      using create_ok [OF conjunct1 [OF ok] c] ok None by auto
    have fresh: "pl_dials p1 \<notin> set (pl_in_use p1)" "pl_dials p1 \<notin> set (pl_dropped p1)"
      using ok by (auto simp: pool_ok_def)
    have "pool_ok (p2\<lparr>pl_in_use := List.insert (pl_dials p1) (pl_in_use p2)\<rparr>)" if "int (length (pl_in_use p1)) < pl_max p1"
      using made fresh that by (auto simp: pool_ok_def List.insert_def)
    then show ?thesis using False re None ok c made k by (auto simp: acquire_def split: sum.split)
  qed
qed

lemma release_ok:
  assumes "pool_ok p" and "c \<in> set (pl_in_use p)"
  shows "pool_ok (release_connection dr c p) \<and> pl_max (release_connection dr c p) = pl_max p"
proof -
  have "int (length (removeAll c (pl_in_use p))) + 1 = int (length (pl_in_use p))"
    using assms by (simp add: pool_ok_def distinct_remove1_removeAll [symmetric] length_remove1)
      (metis One_nat_def Suc_pred length_pos_if_in_set of_nat_Suc add.commute)
  then show ?thesis
    using assms by (auto simp: release_connection_def drop_connection_def pool_probe_def pool_ok_def Let_def distinct_removeAll split: bool.split)
qed

lemma close_all_ok: "pool_ok p \<Longrightarrow> pool_ok (close_all p)"
  by (auto simp: close_all_def pool_ok_def)


definition steady_driver :: driver where
  "steady_driver = \<lparr>dr_dial = (\<lambda>_. None), dr_healthy = (\<lambda>_ _. True)\<rparr>"


text \<open>
  A connection released twice is handed out twice: the pool never checks that it lent what it
  takes back, so after a second release the next two callers share one connection.
\<close>

theorem double_release_shares_connection:
  assumes "\<not> pl_closed p" and "\<forall>n. dr_healthy dr c n"
  shows "case acquire dr (release_connection dr c (release_connection dr c p)) of (r1, p1) \<Rightarrow>
     r1 = Inr c \<and> fst (acquire dr p1) = Inr c"
  using assms by (simp add: acquire_def release_connection_def pool_probe_def Let_def)

theorem double_release_shares_connection_witness:
  "fst (acquire steady_driver (release_connection steady_driver 0 (release_connection steady_driver 0 (snd (new_pool steady_driver 0 1))))) = Inr 0"
  using double_release_shares_connection [of "snd (new_pool steady_driver 0 1)" steady_driver 0]
  by (auto simp: new_pool_def steady_driver_def split: prod.splits)

text \<open>Whatever the body, the commit and the rollback do, the connection goes back.\<close>

lemma pooled_connection_returns_it:
  "case acquire dr p of (Inl e, p1) \<Rightarrow> pooled_connection dr body cm rb p = (Inl e, p1)
     | (Inr c, p1) \<Rightarrow> snd (pooled_connection dr body cm rb p) = release_connection dr c p1 \<and>
         (fst (pooled_connection dr body cm rb p) = Inr () \<longleftrightarrow> body c = None \<and> cm c = None)"
  by (simp add: pooled_connection_def split: prod.split sum.split option.split)

end
