(* ===== verification/Backups.thy ===== *)
theory Backups
  imports Connections "HOL-Library.List_Lexorder" "HOL-Library.Char_ord"
begin

text \<open>
  \<open>infrastructure/database/backup.py\<close>: making, rotating, listing and restoring backups, with the choice of
  the backup that \<open>db restore\<close> of \<open>interfaces/cli/main.py\<close> hands over.

  The disk is the backup directory and the other files by path.  What \<open>pg_dump\<close> and
  \<open>pg_restore\<close> do is a parameter; an I/O failure of the disk itself is left out, as is the text of an error.
\<close>

subsection \<open>The disk\<close>

datatype 'b content = Raw 'b | Gzipped "'b content"

record 'b backup_file =
  bf_mtime :: datetime
  bf_content :: "'b content"

record 'b disk =
  ds_backups :: "(string \<times> 'b backup_file) list"
  ds_files :: "(string \<times> 'b content) list"

definition BackupError :: exc where
  "BackupError = OtherException ''BackupError''"

text \<open>\<open>Path.suffix\<close> of a file name.\<close>

definition suffix_of :: "string \<Rightarrow> string" where
  "suffix_of name =
     (let ext = rev (takeWhile (\<lambda>c. c \<noteq> CHR ''.'') (rev name)) in
      if ext = [] \<or> length name \<le> Suc (length ext) then [] else CHR ''.'' # ext)"

text \<open>\<open>glob(prefix_*.sqlite.gz)\<close>.\<close>

definition SQLITE_GZ :: string where
  "SQLITE_GZ = ''.sqlite.gz''"

definition backup_glob :: "string \<Rightarrow> string \<Rightarrow> bool" where
  "backup_glob prefix name =
     (length prefix + 1 + length SQLITE_GZ \<le> length name \<and> starts_with (prefix @ ''_'') name \<and>
      starts_with (rev SQLITE_GZ) (rev name))"

definition backup_names :: "string \<Rightarrow> 'b disk \<Rightarrow> string list" where
  "backup_names prefix d = filter (backup_glob prefix) (map fst (ds_backups d))"

subsection \<open>Making and rotating backups\<close>

fun rotate_loop :: "int \<Rightarrow> string list \<Rightarrow> 'b disk \<Rightarrow> unit res \<times> 'b disk" where
  "rotate_loop mx [] d = (if mx < 0 then Inl IndexError else Inr (), d)"
| "rotate_loop mx (n # ns) d =
     (if mx < int (length (n # ns)) then rotate_loop mx ns (d\<lparr>ds_backups := AList.delete n (ds_backups d)\<rparr>) else (Inr (), d))"

definition rotate_backups :: "string \<Rightarrow> int \<Rightarrow> 'b disk \<Rightarrow> unit res \<times> 'b disk" where
  "rotate_backups prefix mx d = rotate_loop mx (sort (backup_names prefix d)) d"

definition sqlite_backup_name :: "string \<Rightarrow> string" where
  "sqlite_backup_name ts = ''sqlite_'' @ ts @ SQLITE_GZ"

text \<open>The last line of \<open>backup_sqlite\<close> asks for the size of the new file, which the rotation may have removed.\<close>

definition backup_sqlite :: "int \<Rightarrow> string \<Rightarrow> string \<Rightarrow> datetime \<Rightarrow> 'b disk \<Rightarrow> string res \<times> 'b disk" where
  "backup_sqlite mx db_path ts now d =
     (case map_of (ds_files d) db_path of
        None \<Rightarrow> (Inl BackupError, d)
      | Some c \<Rightarrow>
          (let name = sqlite_backup_name ts;
               d1 = d\<lparr>ds_backups := AList.update name \<lparr>bf_mtime = now, bf_content = Gzipped c\<rparr>
                        (AList.delete (''sqlite_'' @ ts @ ''.sqlite'') (ds_backups d))\<rparr> in
           (case rotate_backups ''sqlite'' mx d1 of
              (Inl e, d2) \<Rightarrow> (Inl e, d2)
            | (Inr _, d2) \<Rightarrow> (if map_of (ds_backups d2) name = None then Inl OSError else Inr name, d2))))"

datatype 'b tool = Ran 'b | NotInstalled | CalledProcessError

definition dump_name :: "string \<Rightarrow> string" where
  "dump_name ts = ''postgres_'' @ ts @ ''.dump''"

definition backup_postgres :: "int \<Rightarrow> string \<Rightarrow> datetime \<Rightarrow> 'b tool \<Rightarrow> 'b disk \<Rightarrow> string res \<times> 'b disk" where
  "backup_postgres mx ts now dump d =
     (case dump of
        Ran b \<Rightarrow>
          (let name = dump_name ts;
               d1 = d\<lparr>ds_backups := AList.update name \<lparr>bf_mtime = now, bf_content = Raw b\<rparr> (ds_backups d)\<rparr> in
           (case rotate_backups ''postgres'' mx d1 of (Inl e, d2) \<Rightarrow> (Inl e, d2) | (Inr _, d2) \<Rightarrow> (Inr name, d2)))
      | _ \<Rightarrow> (Inl BackupError, d))"

datatype place = InPostgres string | InFile string

definition or_text :: "string \<Rightarrow> string \<Rightarrow> string" where
  "or_text a b = (if a = [] then b else a)"

definition backup_place :: "environ \<Rightarrow> string \<Rightarrow> string \<Rightarrow> place" where
  "backup_place env database_url db_path =
     (let url = or_text database_url (getenv env ''DATABASE_URL'' []) in
      if is_postgres_url url then InPostgres url else InFile (or_text (getenv env ''DB_PATH'' []) db_path))"

definition create_backup ::
  "environ \<Rightarrow> int \<Rightarrow> string \<Rightarrow> string \<Rightarrow> (string \<Rightarrow> 'b tool) \<Rightarrow> string \<Rightarrow> datetime \<Rightarrow> 'b disk \<Rightarrow> string res \<times> 'b disk" where
  "create_backup env mx database_url db_path pg_dump ts now d =
     (case backup_place env database_url db_path of
        InPostgres url \<Rightarrow> backup_postgres mx ts now (pg_dump url) d
      | InFile p \<Rightarrow> backup_sqlite mx p ts now d)"

subsection \<open>Listing and restoring\<close>

text \<open>\<open>sorted(..., reverse=True)\<close> keeps the order of equal keys.\<close>

definition list_backups :: "'b disk \<Rightarrow> (string \<times> 'b backup_file) list" where
  "list_backups d =
     filter (\<lambda>(n, _). suffix_of n \<in> {''.gz'', ''.dump''}) (rev (sort_key (\<lambda>(_, f). bf_mtime f) (rev (ds_backups d))))"

definition restore_sqlite :: "string \<Rightarrow> string \<Rightarrow> 'b disk \<Rightarrow> string res \<times> 'b disk" where
  "restore_sqlite name target_path d =
     (case map_of (ds_backups d) name of
        None \<Rightarrow> (Inl OSError, d)
      | Some f \<Rightarrow>
          (if suffix_of name = ''.gz''
           then (case bf_content f of
                   Raw b \<Rightarrow> (Inl OSError, d)
                 | Gzipped c \<Rightarrow> (Inr target_path, d\<lparr>ds_files := AList.update target_path c (ds_files d)\<rparr>))
           else (Inr target_path, d\<lparr>ds_files := AList.update target_path (bf_content f) (ds_files d)\<rparr>)))"

definition restore_postgres :: "unit tool \<Rightarrow> unit res" where
  "restore_postgres outcome = (case outcome of Ran _ \<Rightarrow> Inr () | _ \<Rightarrow> Inl BackupError)"

definition restore_backup ::
  "environ \<Rightarrow> string \<Rightarrow> string \<Rightarrow> (string \<Rightarrow> string \<Rightarrow> unit tool) \<Rightarrow> string \<Rightarrow> 'b disk \<Rightarrow> string option res \<times> 'b disk" where
  "restore_backup env database_url db_path pg_restore name d =
     (case backup_place env database_url db_path of
        InPostgres url \<Rightarrow> (rbind (restore_postgres (pg_restore url name)) (\<lambda>_. Inr None), d)
      | InFile p \<Rightarrow> (case restore_sqlite name p d of (r, d1) \<Rightarrow> (rbind r (\<lambda>t. Inr (Some t)), d1)))"

text \<open>Which backup \<open>db restore\<close> takes, and its exit status; a restore with no backups at all is no failure.\<close>

datatype restore_pick = NoBackups | NotSpecified | Restore string

definition restore_choice :: "bool \<Rightarrow> string option \<Rightarrow> string option \<Rightarrow> 'b disk \<Rightarrow> restore_pick" where
  "restore_choice latest flag arg d =
     (if latest then (case list_backups d of [] \<Rightarrow> NoBackups | (n, _) # _ \<Rightarrow> Restore n)
      else case (flag, arg) of
        (Some p, _) \<Rightarrow> if p \<noteq> [] then Restore p else (case arg of Some q \<Rightarrow> if q \<noteq> [] then Restore q else NotSpecified | None \<Rightarrow> NotSpecified)
      | (None, Some q) \<Rightarrow> if q \<noteq> [] then Restore q else NotSpecified
      | (None, None) \<Rightarrow> NotSpecified)"

definition cli_restore ::
  "environ \<Rightarrow> string \<Rightarrow> string \<Rightarrow> (string \<Rightarrow> string \<Rightarrow> unit tool) \<Rightarrow> bool \<Rightarrow> string option \<Rightarrow> string option \<Rightarrow> 'b disk \<Rightarrow>
   nat res \<times> 'b disk" where
  "cli_restore env database_url db_path pg_restore latest flag arg d =
     (case restore_choice latest flag arg d of
        NoBackups \<Rightarrow> (Inr 0, d)
      | NotSpecified \<Rightarrow> (Inr 1, d)
      | Restore n \<Rightarrow> (case restore_backup env database_url db_path pg_restore n d of (r, d1) \<Rightarrow> (rbind r (\<lambda>_. Inr 0), d1)))"

subsection \<open>What the rotation leaves\<close>

lemma map_fst_deletes: "map fst (fold AList.delete ks al) = filter (\<lambda>n. n \<notin> set ks) (map fst al)"
  by (induction ks arbitrary: al) (auto simp: delete_keys removeAll_filter_not_eq intro: filter_cong)

lemma map_of_deletes: "k \<notin> set ks \<Longrightarrow> map_of (fold AList.delete ks al) k = map_of al k"
  by (induction ks arbitrary: al) (simp_all add: delete_conv)

lemma rotate_loop_result:
  "0 \<le> mx \<Longrightarrow> rotate_loop mx ns d =
     (Inr (), d\<lparr>ds_backups := fold AList.delete (take (length ns - nat mx) ns) (ds_backups d)\<rparr>)"
proof (induction ns arbitrary: d)
  case (Cons n ns)
  show ?case
  proof (cases "mx < int (length (n # ns))")
    case True
    then have "length (n # ns) - nat mx = Suc (length ns - nat mx)" using Cons.prems by simp
    then show ?thesis using Cons.IH [OF Cons.prems] True by simp
  qed (use Cons.prems in simp)
qed simp

lemma filter_not_taken:
  assumes "distinct xs" and "distinct ys" and "set xs = set ys"
  shows "length (filter (\<lambda>n. n \<notin> set (take k ys)) xs) = length ys - k"
proof -
  have "set ys = set (take k ys) \<union> set (drop k ys)" by (metis append_take_drop_id set_append)
  moreover have "set (take k ys) \<inter> set (drop k ys) = {}"
    using assms(2) by (simp add: set_take_disj_set_drop_if_distinct)
  ultimately have "set (filter (\<lambda>n. n \<notin> set (take k ys)) xs) = set (drop k ys)"
    using assms(3) by auto
  then show ?thesis
    using assms(1,2) by (metis distinct_card distinct_drop distinct_filter length_drop)
qed

lemma rotate_backups_count:
  assumes "0 \<le> mx" and "distinct (map fst (ds_backups d))"
  shows "length (backup_names prefix (snd (rotate_backups prefix mx d))) = min (length (backup_names prefix d)) (nat mx)"
proof -
  let ?ns = "backup_names prefix d"
  let ?ks = "take (length ?ns - nat mx) (sort ?ns)"
  have "backup_names prefix (snd (rotate_backups prefix mx d)) = filter (\<lambda>n. n \<notin> set ?ks) ?ns"
    using assms(1) by (simp add: rotate_backups_def rotate_loop_result backup_names_def map_fst_deletes conj_commute)
  moreover have "distinct ?ns" using assms(2) by (simp add: backup_names_def)
  ultimately show ?thesis using filter_not_taken [of ?ns "sort ?ns" "length ?ns - nat mx"] by (simp add: min_def)
qed

text \<open>The newest name outlives the rotation.\<close>

lemma rotate_keeps_newest:
  assumes "1 \<le> mx" and "list_all (\<lambda>n. n \<le> newest) (backup_names prefix d)" and "distinct (map fst (ds_backups d))"
  shows "map_of (ds_backups (snd (rotate_backups prefix mx d))) newest = map_of (ds_backups d) newest"
proof -
  let ?ns = "backup_names prefix d"
  let ?ks = "take (length ?ns - nat mx) (sort ?ns)"
  have "newest \<notin> set ?ks"
  proof
    assume "newest \<in> set ?ks"
    then obtain i where i: "i < length ?ns - nat mx" "i < length (sort ?ns)" "sort ?ns ! i = newest"
      by (auto simp: in_set_conv_nth)
    let ?j = "length ?ns - 1"
    have j: "i < ?j" "?j < length (sort ?ns)" using i(1) assms(1) by auto
    have "sort ?ns ! ?j \<le> newest" using assms(2) j(2) nth_mem [of ?j "sort ?ns"] by (auto simp: list_all_iff)
    moreover have "newest \<le> sort ?ns ! ?j"
      using sorted_nth_mono [of "sort ?ns" i ?j] i(3) j by simp
    ultimately have "sort ?ns ! i = sort ?ns ! ?j" using i(3) by simp
    moreover have "distinct (sort ?ns)" using assms(3) by (simp add: backup_names_def)
    ultimately show False using nth_eq_iff_index_eq [of "sort ?ns" i ?j] i(2) j by simp
  qed
  then show ?thesis
    using assms(1) by (simp add: rotate_backups_def rotate_loop_result map_of_deletes)
qed

text \<open>A disk on which the next backup is the newest by name and by time.\<close>

definition newest_next :: "string \<Rightarrow> datetime \<Rightarrow> 'b disk \<Rightarrow> bool" where
  "newest_next name now d =
     (distinct (map fst (ds_backups d)) \<and>
      list_all (\<lambda>(n, f). bf_mtime f < now \<and> (backup_glob ''sqlite'' n \<longrightarrow> n < name)) (ds_backups d))"

lemma sqlite_name_glob: "backup_glob ''sqlite'' (sqlite_backup_name ts)" "suffix_of (sqlite_backup_name ts) = ''.gz''"
  by (simp_all add: backup_glob_def sqlite_backup_name_def SQLITE_GZ_def starts_with_def suffix_of_def)

lemma last_sort_key:
  assumes "x \<in> set xs" and "list_all (\<lambda>y. y = x \<or> f y < f x) xs" and "distinct xs"
  shows "hd (rev (sort_key f (rev xs))) = x" "rev (sort_key f (rev xs)) \<noteq> []"
proof -
  let ?s = "sort_key f (rev xs)"
  have ne: "?s \<noteq> []" using assms(1) by (metis in_set_conv_nth length_0_conv length_rev length_sort not_less_zero)
  obtain i where i: "i < length ?s" "?s ! i = x"
    using assms(1) by (metis in_set_conv_nth set_rev set_sort)
  have "f x \<le> f (last ?s)"
    using sorted_nth_mono [of "map f ?s" i "length ?s - 1"] i ne by (simp add: last_conv_nth)
  moreover have "last ?s \<in> set xs" using last_in_set [OF ne] by simp
  ultimately have "last ?s = x" using assms(2) by (auto simp: list_all_iff)
  then show "hd (rev ?s) = x" "rev ?s \<noteq> []" using ne by (simp_all add: hd_rev)
qed

lemma newest_listed_first:
  assumes "distinct (map fst (ds_backups d))" and "map_of (ds_backups d) name = Some f" and "suffix_of name = ''.gz''"
    and "list_all (\<lambda>(n, g). n = name \<or> bf_mtime g < bf_mtime f) (ds_backups d)"
  shows "restore_choice True flag arg d = Restore name"
proof -
  let ?l = "rev (sort_key (\<lambda>(_, f). bf_mtime f) (rev (ds_backups d)))"
  have mem: "(name, f) \<in> set (ds_backups d)" using assms(2) by (rule map_of_SomeD)
  have only: "g = f" if "(name, g) \<in> set (ds_backups d)" for g
    using that assms(1,2) by (simp add: map_of_is_SomeI [OF assms(1)])
  have "hd ?l = (name, f)" "?l \<noteq> []"
    using last_sort_key [OF mem, of "\<lambda>(_, f). bf_mtime f"] assms(1,4) only
    by (fastforce simp: list_all_iff distinct_map)+
  then obtain rest where "?l = (name, f) # rest" by (metis list.collapse)
  then show ?thesis using assms(3) by (simp add: restore_choice_def list_backups_def)
qed

lemma rotate_files: "ds_files (snd (rotate_loop mx ns d)) = ds_files d"
  by (induction mx ns d rule: rotate_loop.induct) simp_all

lemma rotate_entries: "set (ds_backups (snd (rotate_loop mx ns d))) \<subseteq> set (ds_backups d)"
proof (induction mx ns d rule: rotate_loop.induct)
  case (2 mx n ns d)
  then show ?case by (auto simp: AList.delete_eq)
qed simp

lemma rotate_distinct: "distinct (map fst (ds_backups d)) \<Longrightarrow> distinct (map fst (ds_backups (snd (rotate_loop mx ns d))))"
  by (induction mx ns d rule: rotate_loop.induct) (simp_all add: distinct_delete)

lemma update_entries: "x \<in> set (AList.update k v al) \<Longrightarrow> x = (k, v) \<or> x \<in> set al"
  by (induction al) (auto split: if_splits)

lemma backup_sqlite_result:
  assumes "1 \<le> mx" and "map_of (ds_files d) p = Some c" and "newest_next (sqlite_backup_name ts) now d"
  obtains d1 where "backup_sqlite mx p ts now d = (Inr (sqlite_backup_name ts), d1)" "ds_files d1 = ds_files d"
    "distinct (map fst (ds_backups d1))" "length (backup_names ''sqlite'' d1) \<le> nat mx"
    "map_of (ds_backups d1) (sqlite_backup_name ts) = Some \<lparr>bf_mtime = now, bf_content = Gzipped c\<rparr>"
    "list_all (\<lambda>(n, g). n = sqlite_backup_name ts \<or> bf_mtime g < now) (ds_backups d1)"
proof -
  let ?n = "sqlite_backup_name ts" and ?f = "\<lparr>bf_mtime = now, bf_content = Gzipped c\<rparr>"
  let ?d0 = "d\<lparr>ds_backups := AList.update ?n ?f (AList.delete (''sqlite_'' @ ts @ ''.sqlite'') (ds_backups d))\<rparr>"
  obtain d1 where ok: "rotate_backups ''sqlite'' mx ?d0 = (Inr (), d1)"
    using assms(1) by (simp add: rotate_backups_def rotate_loop_result)
  then have d1: "d1 = snd (rotate_backups ''sqlite'' mx ?d0)" by simp
  have dist: "distinct (map fst (ds_backups ?d0))"
    using assms(3) by (simp add: newest_next_def distinct_update distinct_delete)
  have old: "(n, g) \<in> set (ds_backups ?d0) \<Longrightarrow> (n, g) = (?n, ?f) \<or> bf_mtime g < now \<and> (backup_glob ''sqlite'' n \<longrightarrow> n < ?n)" for n g
    using assms(3) update_entries [of "(n, g)" ?n ?f "AList.delete (''sqlite_'' @ ts @ ''.sqlite'') (ds_backups d)"]
    by (auto simp: newest_next_def list_all_iff AList.delete_eq)
  have top: "list_all (\<lambda>n. n \<le> ?n) (backup_names ''sqlite'' ?d0)"
    using old by (fastforce simp: list_all_iff backup_names_def)
  have kept: "map_of (ds_backups d1) ?n = Some ?f"
    using rotate_keeps_newest [OF assms(1) top dist] by (simp add: d1 update_conv)
  show thesis
  proof
    show "backup_sqlite mx p ts now d = (Inr ?n, d1)"
      using assms(2) ok kept by (simp add: backup_sqlite_def Let_def)
    show "ds_files d1 = ds_files d" by (simp add: d1 rotate_backups_def rotate_files)
    show "distinct (map fst (ds_backups d1))"
      unfolding d1 rotate_backups_def by (rule rotate_distinct [OF dist])
    show "length (backup_names ''sqlite'' d1) \<le> nat mx"
      unfolding d1 using rotate_backups_count [OF _ dist, of mx "''sqlite''"] assms(1) by simp
    show "list_all (\<lambda>(n, g). n = ?n \<or> bf_mtime g < now) (ds_backups d1)"
      using rotate_entries [of mx "sort (backup_names ''sqlite'' ?d0)" ?d0] old
      unfolding d1 rotate_backups_def list_all_iff by fastforce
  qed (rule kept)
qed

text \<open>
  C31. A backup can be restored: the compressed copy that \<open>db backup\<close> makes of an SQLite database is within the
  rotation's limit, is the one \<open>db restore --latest\<close> takes, and restores the database file byte for byte,
  whatever happened to the live file in between.
\<close>

theorem backup_then_restore:
  assumes "1 \<le> mx" and "map_of (ds_files d) p = Some c" and "newest_next (sqlite_backup_name ts) now d"
    and "backup_place env url path = InFile p"
  shows "case create_backup env mx url path pg_dump ts now d of
      (Inl e, d1) \<Rightarrow> False
    | (Inr name, d1) \<Rightarrow> length (backup_names ''sqlite'' d1) \<le> nat mx \<and>
        (case cli_restore env url path pg_restore True flag arg (d1\<lparr>ds_files := later\<rparr>) of
           (r, d2) \<Rightarrow> r = Inr 0 \<and> map_of (ds_files d2) p = Some c \<and> ds_backups d2 = ds_backups d1)"
proof -
  obtain d1 where d1: "backup_sqlite mx p ts now d = (Inr (sqlite_backup_name ts), d1)"
    "distinct (map fst (ds_backups d1))" "length (backup_names ''sqlite'' d1) \<le> nat mx"
    "map_of (ds_backups d1) (sqlite_backup_name ts) = Some \<lparr>bf_mtime = now, bf_content = Gzipped c\<rparr>"
    "list_all (\<lambda>(n, g). n = sqlite_backup_name ts \<or> bf_mtime g < now) (ds_backups d1)"
    using backup_sqlite_result [OF assms(1-3)] .
  have "restore_choice True flag arg (d1\<lparr>ds_files := later\<rparr>) = Restore (sqlite_backup_name ts)"
    using newest_listed_first [of "d1\<lparr>ds_files := later\<rparr>", OF _ _ sqlite_name_glob(2)] d1(2,4,5) by simp
  then show ?thesis
    using assms(4) d1(1,3,4) by (simp add: create_backup_def cli_restore_def restore_backup_def restore_sqlite_def
        sqlite_name_glob(2) update_conv)
qed

definition sample_disk :: "nat disk" where
  "sample_disk = \<lparr>ds_backups = [(''sqlite_1.sqlite.gz'', \<lparr>bf_mtime = 1, bf_content = Gzipped (Raw 1)\<rparr>),
     (''postgres_9.dump'', \<lparr>bf_mtime = 2, bf_content = Raw 9\<rparr>)], ds_files = [(''t.db'', Raw 7)]\<rparr>"

theorem backup_then_restore_witness:
  "case create_backup [] 1 [] ''t.db'' (\<lambda>_. NotInstalled) ''2'' 3 sample_disk of
      (Inl e, d1) \<Rightarrow> False
    | (Inr name, d1) \<Rightarrow> length (backup_names ''sqlite'' d1) \<le> nat 1 \<and>
        (case cli_restore [] [] ''t.db'' (\<lambda>_ _. NotInstalled) True None None (d1\<lparr>ds_files := []\<rparr>) of
           (r, d2) \<Rightarrow> r = Inr 0 \<and> map_of (ds_files d2) ''t.db'' = Some (Raw 7) \<and> ds_backups d2 = ds_backups d1)"
proof -
  have "newest_next (sqlite_backup_name ''2'') 3 sample_disk" by code_simp
  moreover have "map_of (ds_files sample_disk) ''t.db'' = Some (Raw 7)" by (simp add: sample_disk_def)
  moreover have "backup_place [] [] ''t.db'' = InFile ''t.db''" by code_simp
  ultimately show ?thesis by (intro backup_then_restore) auto
qed

subsection \<open>What a backup leaves out\<close>

lemma rotate_loop_files:
  "rotate_loop mx ns (d\<lparr>ds_files := fs\<rparr>) = apsnd (\<lambda>d1. d1\<lparr>ds_files := fs\<rparr>) (rotate_loop mx ns d)"
proof (induction mx ns d rule: rotate_loop.induct)
  case (2 mx n ns d)
  then show ?case by (cases d) simp
qed simp

text \<open>
  A backup of a running database misses its newest transactions: the connections of the code base write
  ahead to the file next to the database, and no backup depends on that file, whatever it holds; nor
  does a restore touch it, so it stays beside the restored file.
\<close>

theorem backup_ignores_write_ahead_log:
  "backup_sqlite mx p ts now (d\<lparr>ds_files := AList.update (p @ ''-wal'') w (ds_files d)\<rparr>) =
     apsnd (\<lambda>d1. d1\<lparr>ds_files := AList.update (p @ ''-wal'') w (ds_files d)\<rparr>) (backup_sqlite mx p ts now d) \<and>
   map_of (ds_files (snd (restore_sqlite name p d))) (p @ ''-wal'') = map_of (ds_files d) (p @ ''-wal'')"
proof -
  have other: "p @ ''-wal'' \<noteq> p" by simp
  have names: "backup_names prefix (e\<lparr>ds_files := fs\<rparr>) = backup_names prefix e" for prefix fs and e :: "'a disk"
    by (simp add: backup_names_def)
  show ?thesis
  proof
    show "map_of (ds_files (snd (restore_sqlite name p d))) (p @ ''-wal'') = map_of (ds_files d) (p @ ''-wal'')"
      using other by (auto simp: restore_sqlite_def update_conv split: option.splits content.splits)
    show "backup_sqlite mx p ts now (d\<lparr>ds_files := AList.update (p @ ''-wal'') w (ds_files d)\<rparr>) =
        apsnd (\<lambda>d1. d1\<lparr>ds_files := AList.update (p @ ''-wal'') w (ds_files d)\<rparr>) (backup_sqlite mx p ts now d)"
    proof (cases "map_of (ds_files d) p")
      case (Some c)
      let ?fs = "AList.update (p @ ''-wal'') w (ds_files d)"
      let ?al = "AList.update (sqlite_backup_name ts) \<lparr>bf_mtime = now, bf_content = Gzipped c\<rparr>
                   (AList.delete (''sqlite_'' @ ts @ ''.sqlite'') (ds_backups d))"
      have moved: "rotate_backups ''sqlite'' mx (d\<lparr>ds_files := ?fs, ds_backups := al\<rparr>) =
          apsnd (\<lambda>d1. d1\<lparr>ds_files := ?fs\<rparr>) (rotate_backups ''sqlite'' mx (d\<lparr>ds_backups := al\<rparr>))" for al
      proof -
        have "d\<lparr>ds_files := ?fs, ds_backups := al\<rparr> = (d\<lparr>ds_backups := al\<rparr>)\<lparr>ds_files := ?fs\<rparr>" by (cases d) simp
        then show ?thesis unfolding rotate_backups_def by (simp only: names rotate_loop_files)
      qed
      obtain r e where rot: "rotate_backups ''sqlite'' mx (d\<lparr>ds_backups := ?al\<rparr>) = (r, e)"
        by (cases "rotate_backups ''sqlite'' mx (d\<lparr>ds_backups := ?al\<rparr>)")
      show ?thesis
        using Some other rot moved [of ?al] by (cases r) (simp_all add: backup_sqlite_def update_conv Let_def)
    qed (use other in \<open>simp add: backup_sqlite_def update_conv\<close>)
  qed
qed

lemma rotate_loop_keeps:
  "n \<notin> set ns \<Longrightarrow> map_of (ds_backups (snd (rotate_loop mx ns d))) n = map_of (ds_backups d) n"
  by (induction mx ns d rule: rotate_loop.induct) (auto simp: delete_conv)

lemma dump_not_globbed: "dump_name n \<notin> set (sort (backup_names prefix d))"
  by (simp add: backup_names_def dump_name_def backup_glob_def starts_with_def SQLITE_GZ_def)

lemma dump_name_inj: "dump_name a = dump_name b \<longleftrightarrow> a = b"
  by (simp add: dump_name_def)

definition dump_run :: "int \<Rightarrow> (string \<times> datetime \<times> 'b) list \<Rightarrow> 'b disk \<Rightarrow> 'b disk" where
  "dump_run mx runs d = foldl (\<lambda>d (ts, now, b). snd (backup_postgres mx ts now (Ran b) d)) d runs"

text \<open>
  The dumps of a PostgreSQL database are never rotated: the rotation looks for names that end in
  \<open>.sqlite.gz\<close>, which no dump has, so after any number of backups every dump ever made is still on the disk,
  whatever the limit.
\<close>

theorem dumps_pile_up:
  "list_all (\<lambda>(ts, _). map_of (ds_backups (dump_run mx runs d)) (dump_name ts) \<noteq> None) runs"
proof -
  have step: "map_of (ds_backups (snd (backup_postgres mx ts now (Ran b) d))) (dump_name n) =
      (if n = ts then Some \<lparr>bf_mtime = now, bf_content = Raw b\<rparr> else map_of (ds_backups d) (dump_name n))"
    for ts now b n and d :: "'a disk"
  proof -
    have "snd (backup_postgres mx ts now (Ran b) d) = snd (rotate_backups ''postgres'' mx
        (d\<lparr>ds_backups := AList.update (dump_name ts) \<lparr>bf_mtime = now, bf_content = Raw b\<rparr> (ds_backups d)\<rparr>))"
      by (auto simp: backup_postgres_def Let_def split: prod.splits sum.splits)
    then show ?thesis
      by (simp add: rotate_backups_def rotate_loop_keeps dump_not_globbed update_conv dump_name_inj del: set_sort)
  qed
  have kept: "map_of (ds_backups d) (dump_name ts) \<noteq> None \<Longrightarrow>
      map_of (ds_backups (dump_run mx runs d)) (dump_name ts) \<noteq> None" for ts runs and d :: "'a disk"
  proof (induction runs arbitrary: d)
    case (Cons r runs)
    obtain t now b where r: "r = (t, now, b)" by (cases r)
    show ?case
      using Cons.IH [of "snd (backup_postgres mx t now (Ran b) d)"] Cons.prems
      by (simp add: dump_run_def r step)
  qed (simp add: dump_run_def)
  show ?thesis
  proof (induction runs arbitrary: d)
    case (Cons r runs)
    obtain t now b where r: "r = (t, now, b)" by (cases r)
    let ?d = "snd (backup_postgres mx t now (Ran b) d)"
    have run: "dump_run mx (r # runs) d = dump_run mx runs ?d" by (simp add: dump_run_def r)
    have "map_of (ds_backups (dump_run mx runs ?d)) (dump_name t) \<noteq> None"
      by (rule kept) (simp add: step)
    then show ?case unfolding run using Cons.IH [of ?d] by (simp add: r)
  qed simp
qed

end
