(* ===== verification/Catalog.thy ===== *)
theory Catalog
  imports Framework Repositories "HOL-Library.List_Lexorder" "HOL-Library.Char_ord"
begin

text \<open>
  \<open>domain/services/strategy_management.py\<close> on \<open>domain/entities/strategy.py\<close> and the
  in-memory strategy repository: the operator's catalog of strategies and its lifecycle.

  An operation is a function of the catalog (its repository) to a result and the new
  catalog; fresh ids and the clock are arguments.  The texts of the errors are kept
  without the names they quote.
\<close>

datatype strategy_status = DRAFT | ACTIVE | DISABLED | PROMOTED | DEPRECATED | RETIRED

definition ENABLED_STRATEGY_STATUSES :: "strategy_status list" where
  "ENABLED_STRATEGY_STATUSES = [ACTIVE, PROMOTED]"

record strategy =
  sg_name :: string
  sg_params :: params
  sg_version :: string
  sg_status :: strategy_status
  sg_id :: uuid
  sg_template :: "string option"
  sg_created_at :: datetime

type_synonym catalog = "strategy store"

record catalog_config =
  cg_registry :: registry
  cg_version :: string

abbreviation lifecycle_error :: "string \<Rightarrow> 'a res" where
  "lifecycle_error msg \<equiv> Inl (StrategyLifecycleError msg)"

definition get_by_name :: "string \<Rightarrow> catalog \<Rightarrow> strategy option" where
  "get_by_name name c = List.find (\<lambda>s. sg_name s = name) (repo_list c)"

definition with_status :: "strategy_status \<Rightarrow> strategy \<Rightarrow> strategy" where
  "with_status st s =
     \<lparr>sg_name = sg_name s, sg_params = sg_params s, sg_version = sg_version s, sg_status = st,
      sg_id = sg_id s, sg_template = sg_template s, sg_created_at = sg_created_at s\<rparr>"

abbreviation put :: "strategy \<Rightarrow> catalog \<Rightarrow> catalog" where
  "put s c \<equiv> store_put sg_id s c"

subsection \<open>The catalog\<close>

fun seed_templates ::
  "catalog_config \<Rightarrow> (string \<Rightarrow> uuid) \<Rightarrow> datetime \<Rightarrow> string list \<Rightarrow> catalog \<Rightarrow> int \<times> catalog" where
  "seed_templates cfg fresh now [] c = (0, c)"
| "seed_templates cfg fresh now (t # ts) c =
     (if get_by_name t c = None
      then (let s = \<lparr>sg_name = t, sg_params = [], sg_version = cg_version cfg, sg_status = ACTIVE,
                     sg_id = fresh t, sg_template = Some t, sg_created_at = now\<rparr>;
                (n, c') = seed_templates cfg fresh now ts (put s c) in
            (n + 1, c'))
      else seed_templates cfg fresh now ts c)"

definition ensure_seeded :: "catalog_config \<Rightarrow> (string \<Rightarrow> uuid) \<Rightarrow> datetime \<Rightarrow> catalog \<Rightarrow> int \<times> catalog" where
  "ensure_seeded cfg fresh now c = seed_templates cfg fresh now (registry_list (cg_registry cfg)) c"

definition catalog_list :: "catalog \<Rightarrow> strategy list" where
  "catalog_list c = sort_key sg_name (repo_list c)"

definition get_enabled :: "catalog \<Rightarrow> strategy list" where
  "get_enabled c = filter (\<lambda>s. sg_status s \<in> set ENABLED_STRATEGY_STATUSES) (catalog_list c)"

subsection \<open>The lifecycle\<close>

definition create ::
  "catalog_config \<Rightarrow> uuid \<Rightarrow> datetime \<Rightarrow> string \<Rightarrow> string \<Rightarrow> params option \<Rightarrow> catalog \<Rightarrow> strategy res \<times> catalog" where
  "create cfg fresh now name template ps c =
     (if name = [] \<or> strip name = [] then (lifecycle_error ''Strategy name must not be empty'', c)
      else if get_by_name name c \<noteq> None then (lifecycle_error ''already exists'', c)
      else if registry_get template (cg_registry cfg) = None then (lifecycle_error ''Unknown template'', c)
      else let s = \<lparr>sg_name = strip name, sg_params = (case ps of None \<Rightarrow> [] | Some p \<Rightarrow> p),
                    sg_version = cg_version cfg, sg_status = DRAFT, sg_id = fresh,
                    sg_template = Some template, sg_created_at = now\<rparr> in
           (Inr s, put s c))"

definition clone ::
  "uuid \<Rightarrow> datetime \<Rightarrow> string \<Rightarrow> string \<Rightarrow> params option \<Rightarrow> catalog \<Rightarrow> strategy res \<times> catalog" where
  "clone fresh now source_name new_name ps c =
     (case get_by_name source_name c of
        None \<Rightarrow> (lifecycle_error ''not found'', c)
      | Some source \<Rightarrow>
          if get_by_name new_name c \<noteq> None then (lifecycle_error ''already exists'', c)
          else let s = \<lparr>sg_name = strip new_name,
                        sg_params = (case ps of None \<Rightarrow> sg_params source | Some p \<Rightarrow> p),
                        sg_version = sg_version source, sg_status = DRAFT, sg_id = fresh,
                        sg_template = (case sg_template source of
                            Some t \<Rightarrow> if t = [] then Some (sg_name source) else Some t
                          | None \<Rightarrow> Some (sg_name source)),
                        sg_created_at = now\<rparr> in
               (Inr s, put s c))"

text \<open>\<open>_require\<close> and the operation on what it finds.\<close>

definition required ::
  "string \<Rightarrow> catalog \<Rightarrow> (strategy \<Rightarrow> strategy res \<times> catalog) \<Rightarrow> strategy res \<times> catalog" where
  "required name c f = (case get_by_name name c of None \<Rightarrow> (lifecycle_error ''not found'', c) | Some s \<Rightarrow> f s)"

definition enable :: "string \<Rightarrow> catalog \<Rightarrow> strategy res \<times> catalog" where
  "enable name c = required name c (\<lambda>s.
     if sg_status s = ACTIVE \<or> sg_status s = PROMOTED then (Inr s, c)
     else if sg_status s = RETIRED then (lifecycle_error ''Cannot enable retired strategy'', c)
     else let u = with_status ACTIVE s in (Inr u, put u c))"

definition disable :: "string \<Rightarrow> catalog \<Rightarrow> strategy res \<times> catalog" where
  "disable name c = required name c (\<lambda>s.
     if sg_status s = RETIRED then (lifecycle_error ''Cannot disable retired strategy'', c)
     else if sg_status s = DISABLED then (Inr s, c)
     else let u = with_status DISABLED s in (Inr u, put u c))"

definition demote_one :: "uuid \<Rightarrow> strategy \<Rightarrow> catalog \<Rightarrow> catalog" where
  "demote_one keep e c =
     (if sg_status e = PROMOTED \<and> sg_id e \<noteq> keep then put (with_status ACTIVE e) c else c)"

definition promote :: "string \<Rightarrow> catalog \<Rightarrow> strategy res \<times> catalog" where
  "promote name c = required name c (\<lambda>s.
     if sg_status s = RETIRED then (lifecycle_error ''Cannot promote retired strategy'', c)
     else if sg_status s \<noteq> ACTIVE then (lifecycle_error ''Only active strategies can be promoted'', c)
     else let u = with_status PROMOTED s in (Inr u, put u (fold (demote_one (sg_id s)) (repo_list c) c)))"

definition archive :: "string \<Rightarrow> catalog \<Rightarrow> strategy res \<times> catalog" where
  "archive name c = required name c (\<lambda>s.
     if sg_status s = PROMOTED then (lifecycle_error ''Cannot archive promoted strategy'', c)
     else let u = with_status RETIRED s in (Inr u, put u c))"

subsection \<open>At most one promoted strategy\<close>

datatype catalog_op =
    Seed "string \<Rightarrow> uuid" datetime | Create uuid datetime string string "params option"
  | Clone uuid datetime string string "params option" | Enable string | Disable string | Promote string
  | Archive string

fun catalog_do :: "catalog_config \<Rightarrow> catalog_op \<Rightarrow> catalog \<Rightarrow> catalog" where
  "catalog_do cfg (Seed fresh now) c = snd (ensure_seeded cfg fresh now c)"
| "catalog_do cfg (Create fresh now name t ps) c = snd (create cfg fresh now name t ps c)"
| "catalog_do cfg (Clone fresh now src name ps) c = snd (clone fresh now src name ps c)"
| "catalog_do cfg (Enable name) c = snd (enable name c)"
| "catalog_do cfg (Disable name) c = snd (disable name c)"
| "catalog_do cfg (Promote name) c = snd (promote name c)"
| "catalog_do cfg (Archive name) c = snd (archive name c)"

definition catalog_run :: "catalog_config \<Rightarrow> catalog_op list \<Rightarrow> catalog \<Rightarrow> catalog" where
  "catalog_run cfg ops c = fold (catalog_do cfg) ops c"

definition single_promoted :: "catalog \<Rightarrow> bool" where
  "single_promoted c = (store_inv sg_id c \<and>
     (\<exists>k. \<forall>s. s \<in> set (repo_list c) \<and> sg_status s = PROMOTED \<longrightarrow> sg_id s = k))"

lemma with_status_simps [simp]:
  "sg_status (with_status st s) = st" "sg_id (with_status st s) = sg_id s" "sg_name (with_status st s) = sg_name s"
  by (simp_all add: with_status_def)

lemma put_plain:
  assumes "single_promoted c" and "sg_status s \<noteq> PROMOTED"
  shows "single_promoted (put s c)"
proof -
  have inv: "store_inv sg_id c" using assms by (simp add: single_promoted_def)
  show ?thesis
    using assms by (auto simp: single_promoted_def mem.put_inv [OF inv] mem.entities_put [OF inv])
qed

lemma put_same_promoted:
  assumes inv: "store_inv sg_id c"
    and "\<And>t. t \<in> set (repo_list c) \<Longrightarrow> sg_status t = PROMOTED \<Longrightarrow> sg_id t = sg_id s"
  shows "single_promoted (put s c)"
  using assms(2) by (auto simp: single_promoted_def mem.put_inv [OF inv] mem.entities_put [OF inv])

lemma seed_single: "single_promoted c \<Longrightarrow> single_promoted (snd (seed_templates cfg fresh now ts c))"
  by (induction ts arbitrary: c) (simp_all add: Let_def split_def put_plain)

lemma demote_one_clears:
  assumes "store_inv sg_id c"
  shows "store_inv sg_id (demote_one keep x c)"
    and "t \<in> set (repo_list (demote_one keep x c)) \<and> sg_status t = PROMOTED \<longrightarrow>
      t \<in> set (repo_list c) \<and> (t \<noteq> x \<or> sg_id t = keep)"
  using assms by (auto simp: demote_one_def mem.put_inv mem.entities_put [OF assms] dest: arg_cong [where f = sg_status])

lemma demote_clears:
  assumes "store_inv sg_id c"
  shows "store_inv sg_id (fold (demote_one keep) xs c) \<and>
    (\<forall>t. t \<in> set (repo_list (fold (demote_one keep) xs c)) \<and> sg_status t = PROMOTED \<longrightarrow>
      t \<in> set (repo_list c) \<and> (t \<notin> set xs \<or> sg_id t = keep))"
  using assms
proof (induction xs arbitrary: c)
  case (Cons x xs)
  from Cons.IH [OF demote_one_clears(1) [OF Cons.prems]] demote_one_clears(2) [OF Cons.prems]
  show ?case by (metis fold_simps(2) set_ConsD)
qed simp

lemma promote_single:
  assumes "single_promoted c"
  shows "single_promoted (snd (promote name c))"
proof -
  have inv: "store_inv sg_id c" using assms by (simp add: single_promoted_def)
  have "single_promoted (put u (fold (demote_one (sg_id s)) (repo_list c) c))" if "sg_id u = sg_id s" for u s :: strategy
    using demote_clears [OF inv, of "sg_id s" "repo_list c"] that
    by (intro put_same_promoted) auto
  then show ?thesis
    using assms by (auto simp: promote_def required_def Let_def split: option.splits)
qed

lemma catalog_do_single: "single_promoted c \<Longrightarrow> single_promoted (catalog_do cfg op c)"
  by (cases op) (auto simp: ensure_seeded_def create_def clone_def enable_def disable_def archive_def required_def
      Let_def intro!: seed_single put_plain promote_single split: option.splits)

lemma empty_single: "single_promoted []"
  by (simp add: single_promoted_def store_inv_def repo_list_def)

text \<open>
  Whatever the operator does, in any order, at most one catalog entry is promoted to
  controlled live at a time.
\<close>

theorem at_most_one_promoted:
  "length (filter (\<lambda>s. sg_status s = PROMOTED) (repo_list (catalog_run cfg ops []))) \<le> 1"
proof -
  have "single_promoted (catalog_run cfg ops c)" if "single_promoted c" for c
    using that unfolding catalog_run_def
    by (induction ops arbitrary: c) (auto intro: catalog_do_single)
  then have single: "single_promoted (catalog_run cfg ops [])"
    using empty_single by blast
  let ?ps = "filter (\<lambda>s. sg_status s = PROMOTED) (repo_list (catalog_run cfg ops []))"
  have "distinct (map sg_id (repo_list (catalog_run cfg ops [])))"
    using single by (intro mem.entities_distinct) (simp add: single_promoted_def)
  then have distinct: "distinct (map sg_id ?ps)" by (rule distinct_map_filter)
  obtain k where "\<forall>s. s \<in> set (repo_list (catalog_run cfg ops [])) \<and> sg_status s = PROMOTED \<longrightarrow> sg_id s = k"
    using single unfolding single_promoted_def by (elim exE conjE) (rule that)
  then have same: "\<forall>s \<in> set ?ps. sg_id s = k" by simp
  show ?thesis
  proof (cases ?ps)
    case (Cons s rest)
    then show ?thesis
      using same distinct by (cases rest) auto
  qed simp
qed

subsection \<open>Retired strategies stay retired\<close>

text \<open>The ids an operation draws.\<close>

fun fresh_ids :: "catalog_config \<Rightarrow> catalog_op \<Rightarrow> uuid set" where
  "fresh_ids cfg (Seed fresh now) = fresh ` set (registry_list (cg_registry cfg))"
| "fresh_ids cfg (Create fresh now name t ps) = {fresh}"
| "fresh_ids cfg (Clone fresh now src name ps) = {fresh}"
| "fresh_ids cfg _ = {}"

definition retired_at :: "uuid \<Rightarrow> catalog \<Rightarrow> bool" where
  "retired_at k c = (store_inv sg_id c \<and> (\<exists>s. repo_get k c = Some s \<and> sg_status s = RETIRED))"

lemma retired_put:
  "retired_at k c \<Longrightarrow> sg_id s \<noteq> k \<or> sg_status s = RETIRED \<Longrightarrow> retired_at k (put s c)"
  by (auto simp: retired_at_def mem.put_inv mem.fetch_put)

lemma found_stored:
  assumes "store_inv sg_id c" and "get_by_name name c = Some s"
  shows "repo_get (sg_id s) c = Some s"
  using assms find_SomeD [of "\<lambda>s. sg_name s = name" "repo_list c" s]
  by (simp add: get_by_name_def mem.entities_iff)

lemma retired_put_found:
  assumes "retired_at k c" and "get_by_name name c = Some s" and "sg_status s \<noteq> RETIRED \<or> sg_status u = RETIRED"
    and "sg_id u = sg_id s"
  shows "retired_at k (put u c)"
  using assms found_stored [of c name s] by (intro retired_put) (auto simp: retired_at_def)

lemma retired_seed:
  "retired_at k c \<Longrightarrow> k \<notin> fresh ` set ts \<Longrightarrow> retired_at k (snd (seed_templates cfg fresh now ts c))"
proof (induction ts arbitrary: c)
  case (Cons t ts)
  show ?case
    using Cons.prems by (auto simp: Let_def split_def intro!: Cons.IH retired_put)
qed simp

lemma retired_demote:
  assumes "retired_at k c" and "\<forall>x \<in> set xs. sg_id x = k \<longrightarrow> sg_status x = RETIRED"
  shows "retired_at k (fold (demote_one keep) xs c)"
  using assms
proof (induction xs arbitrary: c)
  case (Cons x xs)
  have "retired_at k (demote_one keep x c)"
    using Cons.prems by (auto simp: demote_one_def intro!: retired_put)
  then show ?case using Cons.IH Cons.prems by simp
qed simp

lemma retired_promote:
  assumes "retired_at k c"
  shows "retired_at k (snd (promote name c))"
proof (cases "get_by_name name c")
  case (Some s)
  have inv: "store_inv sg_id c" using assms by (simp add: retired_at_def)
  have "\<forall>x \<in> set (repo_list c). sg_id x = k \<longrightarrow> sg_status x = RETIRED"
    using assms by (auto simp: retired_at_def mem.entities_iff)
  from retired_demote [OF assms this]
  have demoted: "retired_at k (fold (demote_one (sg_id s)) (repo_list c) c)" .
  have "sg_id s \<noteq> k" if "sg_status s = ACTIVE"
    using assms found_stored [OF inv Some] that by (auto simp: retired_at_def)
  then show ?thesis
    using assms Some demoted by (auto simp: promote_def required_def Let_def intro!: retired_put)
qed (use assms in \<open>simp add: promote_def required_def\<close>)

lemma retired_step:
  assumes "retired_at k c" and "k \<notin> fresh_ids cfg op"
  shows "retired_at k (catalog_do cfg op c)"
proof (cases op)
  case (Promote name)
  then show ?thesis using retired_promote [OF assms(1)] by simp
qed (use assms in \<open>auto simp: ensure_seeded_def create_def clone_def enable_def disable_def archive_def
      required_def Let_def intro: retired_seed retired_put retired_put_found split: option.splits\<close>)

text \<open>
  Archiving is final: a retired strategy stays retired whatever the operator does
  afterwards, provided the ids drawn for new entries are new.
\<close>

theorem retired_is_final:
  assumes "retired_at k c" and "\<forall>op \<in> set ops. k \<notin> fresh_ids cfg op"
  shows "\<exists>s. repo_get k (catalog_run cfg ops c) = Some s \<and> sg_status s = RETIRED"
proof -
  have "retired_at k (catalog_run cfg ops c)"
    using assms unfolding catalog_run_def
  proof (induction ops arbitrary: c)
    case (Cons op ops)
    then show ?case using retired_step [of k c cfg op] by simp
  qed simp
  then show ?thesis by (simp add: retired_at_def)
qed

definition sample_config :: catalog_config where
  "sample_config = \<lparr>cg_registry = default_registry, cg_version = ''1.0.0''\<rparr>"

definition archived_catalog :: catalog where
  "archived_catalog = [(''k'', \<lparr>sg_name = ''old'', sg_params = [], sg_version = ''1.0.0'', sg_status = RETIRED,
     sg_id = ''k'', sg_template = None, sg_created_at = 0\<rparr>)]"

theorem retired_is_final_witness:
  "\<exists>s. repo_get ''k'' (catalog_run sample_config [Enable ''old'', Promote ''old'', Create ''n'' 0 ''x'' ''mean_reversion'' None]
     archived_catalog) = Some s \<and> sg_status s = RETIRED"
  by (rule retired_is_final) (simp_all add: retired_at_def archived_catalog_def store_inv_def repo_get_def)

subsection \<open>Names are not unique\<close>

text \<open>
  Creating checks the name as given and stores it without its surrounding blanks, so
  a name with a blank makes a second entry of a name that is taken; that entry cannot be
  reached by its name any more.
\<close>

theorem padded_name_duplicates:
  assumes "get_by_name name c = None" and "get_by_name (strip name) c = Some s"
    and "strip name \<noteq> []" and "registry_get template (cg_registry cfg) \<noteq> None"
    and "store_inv sg_id c" and "repo_get fresh c = None"
  shows "\<exists>t c'. create cfg fresh now name template ps c = (Inr t, c') \<and> repo_get fresh c' = Some t \<and>
    sg_name t = sg_name s \<and> sg_id t \<noteq> sg_id s \<and> get_by_name (sg_name t) c' = Some s"
proof -
  have "sg_name s = strip name" "repo_get (sg_id s) c = Some s"
    using find_SomeD [OF assms(2) [unfolded get_by_name_def]] found_stored [OF assms(5,2)] by auto
  moreover have "strip [] = []" by (simp add: strip_def)
  ultimately show ?thesis
    using assms by (auto simp: create_def Let_def get_by_name_def list_put_new find_append_one mem.fetch_put)
qed

theorem padded_name_duplicates_witness:
  "\<exists>t c'. create sample_config ''n'' 0 '' old'' ''mean_reversion'' None archived_catalog = (Inr t, c') \<and>
    repo_get ''n'' c' = Some t \<and> sg_name t = ''old'' \<and> get_by_name (sg_name t) c' \<noteq> Some t"
proof -
  have strip: "strip '' old'' = ''old''" by code_simp
  show ?thesis
    using padded_name_duplicates [of "'' old''" archived_catalog "snd (hd archived_catalog)" "''mean_reversion''"
        sample_config "''n''" 0 None]
    by (auto simp: strip archived_catalog_def get_by_name_def repo_list_def repo_get_def store_inv_def
        sample_config_def default_registry_eq registry_get_def)
qed

end
