(* ===== verification/RiskConfig.thy ===== *)
theory RiskConfig
  imports Risk PyText
begin

text \<open>
  \<open>application/risk_config.py\<close>: which risk rails are armed.

  A value of the settings file is a \<open>yval\<close>; the environment is a list of name/value pairs.
  A configuration problem is a
  \<open>rail_problem\<close> (the message of the \<open>ConfigError\<close> without its formatting); every other
  exception that escapes is \<open>Raised\<close>.
\<close>

subsection \<open>Settings values and errors\<close>

datatype yval =
    YNone
  | YBool bool
  | YInt int
  | YFloat float64
  | YStr string
  | YList "yval list"
  | YDict "(string \<times> yval) list"
  | YOther string

datatype rail_problem =
    MustBeNumber string
  | IsNotANumber string
  | OutsideRange string
  | MustBeInteger string
  | IsNotAnInteger string
  | MustBeSymbolList string
  | NonSymbolEntries string
  | MustBeBoolean string
  | MissingRails "string list"
  | NeedsAllowlist

datatype rail_err = Problem rail_problem | Raised exc

definition EXPLICIT_LIVE_FIELDS :: "string list" where
  "EXPLICIT_LIVE_FIELDS =
     [''daily_loss_pct'', ''max_gross_exposure'', ''max_position_size'', ''max_positions_total'']"

definition ENV_MAP :: "(string \<times> string) list" where
  "ENV_MAP =
     [(''daily_loss_pct'', ''RISK_DAILY_LOSS_PCT''),
      (''max_gross_exposure'', ''RISK_MAX_GROSS_EXPOSURE''),
      (''max_position_size'', ''RISK_MAX_POSITION_SIZE''),
      (''max_positions_total'', ''RISK_MAX_POSITIONS_TOTAL''),
      (''max_data_staleness_seconds'', ''RISK_MAX_DATA_STALENESS_SECONDS''),
      (''allowed_markets'', ''RISK_ALLOWED_MARKETS''),
      (''require_allowlist'', ''RISK_REQUIRE_ALLOWLIST'')]"

definition RANGES :: "(string \<times> (float64 \<times> float64)) list" where
  "RANGES =
     [(''daily_loss_pct'', (Fin 0, Fin 1)),
      (''max_position_size'', (Fin 0, Fin 1)),
      (''max_gross_exposure'', (Fin 0, Fin 10)),
      (''max_data_staleness_seconds'', (Fin 0, Fin 86400))]"

record risk_rail_settings =
  rr_daily_loss_pct :: float64
  rr_max_gross_exposure :: float64
  rr_max_position_size :: float64
  rr_max_positions_total :: int
  rr_max_data_staleness_seconds :: float64
  rr_allowed_markets :: "string list"
  rr_require_allowlist :: bool
  rr_explicit_fields :: "string list"

subsection \<open>Converters\<close>

definition env_override :: "environ \<Rightarrow> string \<Rightarrow> string option res" where
  "env_override env name =
     (case map_of ENV_MAP name of
        None \<Rightarrow> Inl KeyError
      | Some var \<Rightarrow>
          (case map_of env var of
             None \<Rightarrow> Inr None
           | Some value \<Rightarrow> Inr (if strip value = [] then None else Some (strip value))))"

definition check_range :: "string \<Rightarrow> float64 \<Rightarrow> rail_err + float64" where
  "check_range name value =
     (case map_of RANGES name of
        None \<Rightarrow> Inl (Raised KeyError)
      | Some (lo, hi) \<Rightarrow>
          if \<not> (lo < value \<and> value \<le> hi) then Inl (Problem (OutsideRange name)) else Inr value)"

definition to_float :: "yval \<Rightarrow> string \<Rightarrow> rail_err + float64" where
  "to_float raw name =
     (case raw of
        YInt n \<Rightarrow> (case int_to_float n of Inl e \<Rightarrow> Inl (Raised e) | Inr x \<Rightarrow> check_range name x)
      | YFloat x \<Rightarrow> check_range name x
      | YStr s \<Rightarrow> (case parse_float s of
                   None \<Rightarrow> Inl (Problem (IsNotANumber name))
                 | Some x \<Rightarrow> check_range name x)
      | _ \<Rightarrow> Inl (Problem (MustBeNumber name)))"

definition to_int :: "yval \<Rightarrow> string \<Rightarrow> rail_err + int" where
  "to_int raw name =
     (let check = (\<lambda>n. if \<not> (1 \<le> n \<and> n \<le> 1000) then Inl (Problem (OutsideRange name)) else Inr n) in
      case raw of
        YInt n \<Rightarrow> check n
      | YStr s \<Rightarrow> (case parse_int s of
                   None \<Rightarrow> Inl (Problem (IsNotAnInteger name))
                 | Some n \<Rightarrow> check n)
      | _ \<Rightarrow> Inl (Problem (MustBeInteger name)))"

fun symbol_of :: "yval \<Rightarrow> string option" where
  "symbol_of (YStr s) = (if s = [] then None else Some s)"
| "symbol_of _ = None"

definition to_symbols :: "yval \<Rightarrow> string \<Rightarrow> rail_err + string list" where
  "to_symbols raw0 name =
     (let raw = (case raw0 of YStr s \<Rightarrow> YList (map (YStr \<circ> strip) (split_comma s)) | _ \<Rightarrow> raw0) in
      case raw of
        YList entries \<Rightarrow>
          (let symbols = List.map_filter symbol_of entries in
           if length symbols \<noteq> length entries then Inl (Problem (NonSymbolEntries name))
           else Inr symbols)
      | _ \<Rightarrow> Inl (Problem (MustBeSymbolList name)))"

definition to_bool :: "yval \<Rightarrow> string \<Rightarrow> rail_err + bool" where
  "to_bool raw name =
     (case raw of
        YBool b \<Rightarrow> Inr b
      | YStr s \<Rightarrow>
          if lower (strip s) \<in> set [''true'', ''1'', ''yes''] then Inr True
          else if lower (strip s) \<in> set [''false'', ''0'', ''no''] then Inr False
          else Inl (Problem (MustBeBoolean name))
      | _ \<Rightarrow> Inl (Problem (MustBeBoolean name)))"

subsection \<open>Resolution\<close>

definition merged :: "environ \<Rightarrow> yval \<Rightarrow> string \<Rightarrow> rail_err + yval" where
  "merged env risk_section name =
     (case env_override env name of
        Inl e \<Rightarrow> Inl (Raised e)
      | Inr (Some s) \<Rightarrow> Inr (YStr s)
      | Inr None \<Rightarrow>
          (case risk_section of
             YDict section \<Rightarrow> Inr (dict_get section name YNone)
           | _ \<Rightarrow> Inr YNone))"

text \<open>One rail: its default when nothing is configured, its converted value and its name
  otherwise.\<close>

definition resolve_field ::
  "environ \<Rightarrow> yval \<Rightarrow> (yval \<Rightarrow> string \<Rightarrow> rail_err + 'a) \<Rightarrow> 'a \<Rightarrow> string \<Rightarrow> rail_err + ('a \<times> string list)" where
  "resolve_field env section convert dflt name =
     rbind (merged env section name) (\<lambda>raw.
       if raw = YNone then Inr (dflt, [])
       else rbind (convert raw name) (\<lambda>v. Inr (v, [name])))"

definition resolve_risk_rails :: "environ \<Rightarrow> yval \<Rightarrow> bool \<Rightarrow> rail_err + risk_rail_settings" where
  "resolve_risk_rails env section live =
     rbind (resolve_field env section to_float DEFAULT_DAILY_LOSS_PCT ''daily_loss_pct'') (\<lambda>(daily, x1).
     rbind (resolve_field env section to_float (Fin 1) ''max_gross_exposure'') (\<lambda>(gross, x2).
     rbind (resolve_field env section to_float (lit 0.25) ''max_position_size'') (\<lambda>(size, x3).
     rbind (resolve_field env section to_int 10 ''max_positions_total'') (\<lambda>(total, x4).
     rbind (resolve_field env section to_float (Fin 300) ''max_data_staleness_seconds'') (\<lambda>(stale, x5).
     rbind (resolve_field env section to_symbols [] ''allowed_markets'') (\<lambda>(symbols, x6).
     rbind (resolve_field env section to_bool False ''require_allowlist'') (\<lambda>(require, x7).
       let explicit = x1 @ x2 @ x3 @ x4 @ x5 @ x6 @ x7;
           missing = filter (\<lambda>name. name \<notin> set explicit) EXPLICIT_LIVE_FIELDS in
       if live \<and> missing \<noteq> [] then Inl (Problem (MissingRails missing))
       else if live \<and> (\<not> require \<or> symbols = []) then Inl (Problem NeedsAllowlist)
       else Inr \<lparr>rr_daily_loss_pct = daily, rr_max_gross_exposure = gross,
                 rr_max_position_size = size, rr_max_positions_total = total,
                 rr_max_data_staleness_seconds = stale, rr_allowed_markets = symbols,
                 rr_require_allowlist = require, rr_explicit_fields = explicit\<rparr>)))))))"

definition validate_production_risk_settings :: "environ \<Rightarrow> yval \<Rightarrow> rail_problem list res" where
  "validate_production_risk_settings env section =
     (case resolve_risk_rails env section True of
        Inl (Problem p) \<Rightarrow> Inr [p]
      | Inl (Raised e) \<Rightarrow> Inl e
      | Inr _ \<Rightarrow> Inr [])"

text \<open>\<open>application/factory.py\<close>: the rails arm the risk service of the process;
  \<open>market_uuid\<close> is \<open>uuid5("traderos/{symbol}")\<close>.\<close>

definition resolve_allowed_markets :: "(string \<Rightarrow> uuid) \<Rightarrow> string list \<Rightarrow> uuid list" where
  "resolve_allowed_markets market_uuid symbols = map market_uuid symbols"

definition armed_risk_service ::
  "(string \<Rightarrow> uuid) \<Rightarrow> int \<Rightarrow> persistent_kill_switch option \<Rightarrow> metrics_log \<Rightarrow> audit_log \<Rightarrow>
   user_resolver option \<Rightarrow> risk_rail_settings \<Rightarrow> risk_service" where
  "armed_risk_service market_uuid today persistent metrics audit resolver rails =
     (new_risk_service today)
       \<lparr>rs_persistent := persistent, rs_metrics := metrics, rs_audit := audit,
        rs_daily_loss_pct := rr_daily_loss_pct rails,
        rs_max_position_size := rr_max_position_size rails,
        rs_max_positions_total := rr_max_positions_total rails,
        rs_max_gross_exposure := rr_max_gross_exposure rails,
        rs_max_data_staleness_seconds := rr_max_data_staleness_seconds rails,
        rs_allowed_markets := resolve_allowed_markets market_uuid (rr_allowed_markets rails),
        rs_user_resolver := resolver\<rparr>"

subsection \<open>What a resolved setting satisfies\<close>

lemma check_range_Inr:
  "check_range name value = Inr x \<longleftrightarrow>
     x = value \<and> (\<exists>lo hi. map_of RANGES name = Some (lo, hi) \<and> lo < value \<and> value \<le> hi)"
  by (auto simp: check_range_def split: option.splits if_splits)

lemma to_float_range:
  assumes "to_float raw name = Inr x"
  obtains lo hi where "map_of RANGES name = Some (lo, hi)" and "lo < x" and "x \<le> hi"
  using assms unfolding to_float_def
  by (cases raw) (auto simp: check_range_Inr split: option.splits sum.splits)

lemma to_int_range: "to_int raw name = Inr n \<Longrightarrow> 1 \<le> n \<and> n \<le> 1000"
  unfolding to_int_def Let_def by (cases raw) (auto split: option.splits if_splits)

lemma map_filter_symbols: "s \<in> set (List.map_filter symbol_of entries) \<Longrightarrow> s \<noteq> []"
proof (induction entries)
  case Nil
  then show ?case by (simp add: List.map_filter_simps)
next
  case (Cons e entries)
  then show ?case
    by (cases e) (auto simp: List.map_filter_simps split: if_splits option.splits)
qed

lemma to_symbols_nonempty: "to_symbols raw name = Inr symbols \<Longrightarrow> s \<in> set symbols \<Longrightarrow> s \<noteq> []"
  unfolding to_symbols_def Let_def
  by (cases raw) (auto split: if_splits dest: map_filter_symbols)

lemma resolve_field_Inr:
  assumes "resolve_field env section convert dflt name = Inr (v, x)"
  obtains "x = []" and "v = dflt" | raw where "x = [name]" and "convert raw name = Inr v"
  using assms unfolding resolve_field_def
  by (auto elim!: rbind_eq_InrE split: if_splits)

lemma resolve_field_explicit:
  assumes "resolve_field env section convert dflt name = Inr (v, x)" and "name \<in> set x"
  obtains raw where "convert raw name = Inr v"
  using assms(1) by (rule resolve_field_Inr) (use assms(2) in auto)

lemma resolve_field_names:
  "resolve_field env section convert dflt name = Inr (v, x) \<Longrightarrow> set x \<subseteq> {name}"
  by (auto elim!: resolve_field_Inr)

lemma float_field_range:
  assumes "resolve_field env section to_float dflt name = Inr (v, x)"
    and "map_of RANGES name = Some (lo, hi)" and "lo < dflt" and "dflt \<le> hi"
  shows "lo < v \<and> v \<le> hi"
  using assms(1) by (rule resolve_field_Inr) (use assms(2-4) in \<open>auto elim!: to_float_range\<close>)

lemma resolve_fieldE:
  assumes "rbind (resolve_field env section convert dflt name) (\<lambda>(v, x). f v x) = Inr r"
  obtains v x where "resolve_field env section convert dflt name = Inr (v, x)" and "f v x = Inr r"
  using assms by (auto elim!: rbind_eq_InrE)

lemma RANGES_simps [simp]:
  "map_of RANGES ''daily_loss_pct'' = Some (Fin 0, Fin 1)"
  "map_of RANGES ''max_gross_exposure'' = Some (Fin 0, Fin 10)"
  "map_of RANGES ''max_position_size'' = Some (Fin 0, Fin 1)"
  "map_of RANGES ''max_data_staleness_seconds'' = Some (Fin 0, Fin 86400)"
  by (simp_all add: RANGES_def)

lemma quarter_double: "lit (1 / 4) = Fin (1 / 4)"
  by (simp add: float_eval)

lemma daily_default: "Fin 0 < DEFAULT_DAILY_LOSS_PCT \<and> DEFAULT_DAILY_LOSS_PCT \<le> Fin 1"
  by (simp add: DEFAULT_DAILY_LOSS_PCT_def float_eval)

definition sane_rails :: "risk_rail_settings \<Rightarrow> bool" where
  "sane_rails s =
     (Fin 0 < rr_daily_loss_pct s \<and> rr_daily_loss_pct s \<le> Fin 1 \<and>
      Fin 0 < rr_max_gross_exposure s \<and> rr_max_gross_exposure s \<le> Fin 10 \<and>
      Fin 0 < rr_max_position_size s \<and> rr_max_position_size s \<le> Fin 1 \<and>
      1 \<le> rr_max_positions_total s \<and> rr_max_positions_total s \<le> 1000 \<and>
      Fin 0 < rr_max_data_staleness_seconds s \<and> rr_max_data_staleness_seconds s \<le> Fin 86400 \<and>
      [] \<notin> set (rr_allowed_markets s))"

lemma resolve_risk_rails_Inr:
  assumes "resolve_risk_rails env section live = Inr s"
  obtains x1 x2 x3 x4 x5 x6 x7 where
      "resolve_field env section to_float DEFAULT_DAILY_LOSS_PCT ''daily_loss_pct'' = Inr (rr_daily_loss_pct s, x1)"
    and "resolve_field env section to_float (Fin 1) ''max_gross_exposure'' = Inr (rr_max_gross_exposure s, x2)"
    and "resolve_field env section to_float (lit 0.25) ''max_position_size'' = Inr (rr_max_position_size s, x3)"
    and "resolve_field env section to_int 10 ''max_positions_total'' = Inr (rr_max_positions_total s, x4)"
    and "resolve_field env section to_float (Fin 300) ''max_data_staleness_seconds'' =
           Inr (rr_max_data_staleness_seconds s, x5)"
    and "resolve_field env section to_symbols [] ''allowed_markets'' = Inr (rr_allowed_markets s, x6)"
    and "resolve_field env section to_bool False ''require_allowlist'' = Inr (rr_require_allowlist s, x7)"
    and "rr_explicit_fields s = x1 @ x2 @ x3 @ x4 @ x5 @ x6 @ x7"
    and "live \<Longrightarrow> set EXPLICIT_LIVE_FIELDS \<subseteq> set (rr_explicit_fields s)"
    and "live \<Longrightarrow> rr_require_allowlist s \<and> rr_allowed_markets s \<noteq> []"
proof -
  have step: "set EXPLICIT_LIVE_FIELDS \<subseteq> set xs"
    if "filter (\<lambda>n. n \<notin> set xs) EXPLICIT_LIVE_FIELDS = []" for xs
    using that by (auto simp: filter_empty_conv)
  show ?thesis
    using assms unfolding resolve_risk_rails_def Let_def
    apply (elim resolve_fieldE)
    apply (simp only: guard_Inr sum.inject(2))
    apply (elim conjE)
    apply (rule that)
             apply (hypsubst_thin, unfold risk_rail_settings.select_convs, assumption)+
      apply (hypsubst_thin, simp)
     apply (hypsubst_thin, unfold risk_rail_settings.select_convs, rule step, simp)
    apply (hypsubst_thin, simp)
    done
qed

lemma resolve_sane:
  assumes "resolve_risk_rails env section live = Inr s"
  shows "sane_rails s"
  using assms
proof (rule resolve_risk_rails_Inr)
  fix x1 x2 x3 x4 x5 x6 x7
  assume daily: "resolve_field env section to_float DEFAULT_DAILY_LOSS_PCT ''daily_loss_pct'' = Inr (rr_daily_loss_pct s, x1)"
    and gross: "resolve_field env section to_float (Fin 1) ''max_gross_exposure'' = Inr (rr_max_gross_exposure s, x2)"
    and size: "resolve_field env section to_float (lit 0.25) ''max_position_size'' = Inr (rr_max_position_size s, x3)"
    and total: "resolve_field env section to_int 10 ''max_positions_total'' = Inr (rr_max_positions_total s, x4)"
    and stale: "resolve_field env section to_float (Fin 300) ''max_data_staleness_seconds'' =
           Inr (rr_max_data_staleness_seconds s, x5)"
    and symbols: "resolve_field env section to_symbols [] ''allowed_markets'' = Inr (rr_allowed_markets s, x6)"
  have "1 \<le> rr_max_positions_total s \<and> rr_max_positions_total s \<le> 1000"
    using total by (rule resolve_field_Inr) (auto dest: to_int_range)
  moreover have "[] \<notin> set (rr_allowed_markets s)"
    using symbols by (rule resolve_field_Inr) (auto dest: to_symbols_nonempty)
  ultimately show ?thesis
    using float_field_range [OF daily RANGES_simps(1)] float_field_range [OF gross RANGES_simps(2)]
      float_field_range [OF size RANGES_simps(3)] float_field_range [OF stale RANGES_simps(4)]
    by (simp add: sane_rails_def quarter_double daily_default)
qed

lemma resolve_field_configured:
  assumes "resolve_field env section convert dflt name = Inr (v, x)" and "n \<in> set x"
  shows "n = name \<and> (\<exists>raw. merged env section n = Inr raw \<and> raw \<noteq> YNone)"
  using assms unfolding resolve_field_def by (auto elim!: rbind_eq_InrE split: if_splits)

lemma explicit_configured:
  assumes "resolve_risk_rails env section live = Inr s" and "n \<in> set (rr_explicit_fields s)"
  shows "\<exists>raw. merged env section n = Inr raw \<and> raw \<noteq> YNone"
  using assms(1) by (rule resolve_risk_rails_Inr) (use assms(2) in \<open>auto dest: resolve_field_configured\<close>)

text \<open>
  If live mode resolves its rails at all, every rail lies in its documented range, the
  allowlist is required and non-empty with no empty symbol in it, and each of the four
  production rails was given explicitly, by the settings file or by the environment: no
  default is ever armed in live mode.
\<close>

theorem live_rails_explicit:
  assumes "resolve_risk_rails env section True = Inr s"
  shows "sane_rails s \<and> rr_require_allowlist s \<and> rr_allowed_markets s \<noteq> [] \<and>
    list_all (\<lambda>name. \<exists>raw. merged env section name = Inr raw \<and> raw \<noteq> YNone) EXPLICIT_LIVE_FIELDS"
proof -
  have "set EXPLICIT_LIVE_FIELDS \<subseteq> set (rr_explicit_fields s) \<and> rr_require_allowlist s \<and>
      rr_allowed_markets s \<noteq> []"
    using assms by (rule resolve_risk_rails_Inr) simp
  then show ?thesis
    using explicit_configured [OF assms] resolve_sane [OF assms] by (auto simp: list_all_iff)
qed

definition sample_section :: yval where
  "sample_section = YDict
     [(''daily_loss_pct'', YFloat (Fin (1 / 2))), (''max_gross_exposure'', YInt 2),
      (''max_position_size'', YFloat (Fin (1 / 4))), (''require_allowlist'', YBool True),
      (''allowed_markets'', YList [YStr ''AAPL'', YStr ''MSFT''])]"

definition sample_environ :: environ where
  "sample_environ = [(''RISK_MAX_POSITIONS_TOTAL'', '' 5 '')]"

definition sample_rails :: risk_rail_settings where
  "sample_rails =
     \<lparr>rr_daily_loss_pct = Fin (1 / 2), rr_max_gross_exposure = Fin 2,
      rr_max_position_size = Fin (1 / 4), rr_max_positions_total = 5,
      rr_max_data_staleness_seconds = Fin 300, rr_allowed_markets = [''AAPL'', ''MSFT''],
      rr_require_allowlist = True,
      rr_explicit_fields = [''daily_loss_pct'', ''max_gross_exposure'', ''max_position_size'',
        ''max_positions_total'', ''allowed_markets'', ''require_allowlist'']\<rparr>"

lemma sample_merged:
  "merged sample_environ sample_section ''daily_loss_pct'' = Inr (YFloat (Fin (1 / 2)))"
  "merged sample_environ sample_section ''max_gross_exposure'' = Inr (YInt 2)"
  "merged sample_environ sample_section ''max_position_size'' = Inr (YFloat (Fin (1 / 4)))"
  "merged sample_environ sample_section ''max_positions_total'' = Inr (YStr ''5'')"
  "merged sample_environ sample_section ''max_data_staleness_seconds'' = Inr YNone"
  "merged sample_environ sample_section ''allowed_markets'' = Inr (YList [YStr ''AAPL'', YStr ''MSFT''])"
  "merged sample_environ sample_section ''require_allowlist'' = Inr (YBool True)"
  by (simp_all add: merged_def env_override_def sample_environ_def sample_section_def ENV_MAP_def
      dict_get_def strip_def is_space_def char_code_def)

lemma parse_five: "parse_int ''5'' = Some 5"
  by code_simp

lemma sample_rails_resolve: "resolve_risk_rails sample_environ sample_section True = Inr sample_rails"
proof -
  have "rnd 2 = Fin 2" by (simp add: float_eval)
  then show ?thesis
    by (simp add: resolve_risk_rails_def resolve_field_def sample_merged to_float_def check_range_Inr
        check_range_def int_to_float_def to_int_def parse_five to_symbols_def to_bool_def
        List.map_filter_simps EXPLICIT_LIVE_FIELDS_def sample_rails_def)
qed

theorem live_rails_explicit_witness:
  "sane_rails sample_rails \<and> rr_require_allowlist sample_rails"
  using live_rails_explicit [OF sample_rails_resolve] by simp

lemma armed_simps [simp]:
  "rs_allowed_markets (armed_risk_service u day p m a z rails) = map u (rr_allowed_markets rails)"
  "rs_max_position_size (armed_risk_service u day p m a z rails) = rr_max_position_size rails"
  "rs_max_gross_exposure (armed_risk_service u day p m a z rails) = rr_max_gross_exposure rails"
  "rs_user_resolver (armed_risk_service u day p m a z rails) = z"
  by (simp_all add: armed_risk_service_def resolve_allowed_markets_def)

lemma float_between: "Fin a < x \<Longrightarrow> x \<le> Fin b \<Longrightarrow> \<exists>s. x = Fin s \<and> a < s \<and> s \<le> b"
  by (cases x) auto

text \<open>
  A live process that booted with its resolved rails authorises a user-less order only
  for a market of its allowlist, for a notional of at most the whole equity, and with a
  resulting gross exposure of at most ten times the equity.
\<close>

theorem live_boot_caps_orders:
  assumes rails: "resolve_risk_rails env section True = Inr rails"
    and ok: "allowed (fst (authorize_order r (armed_risk_service market_uuid day p m a z rails)))"
    and user: "or_user_id r = None"
    and equity: "or_equity r = Fin e" "is_double (Fin e)"
    and notional: "or_quantity r * or_price r = Fin n" "or_existing_gross r + Fin n = Fin g"
  shows "or_market_id r \<in> market_uuid ` set (rr_allowed_markets rails) \<and> Fin n \<le> Fin e \<and>
    Fin g \<le> Fin e * Fin 10"
proof -
  let ?rs = "armed_risk_service market_uuid day p m a z rails"
  have live: "sane_rails rails" "rr_allowed_markets rails \<noteq> []"
    using resolve_sane [OF rails] rails by (auto elim: resolve_risk_rails_Inr)
  obtain s where s: "rr_max_position_size rails = Fin s" "s \<le> 1" "0 < s"
    using live(1) float_between unfolding sane_rails_def by blast
  obtain t where t: "rr_max_gross_exposure rails = Fin t" "t \<le> 10"
    using live(1) float_between unfolding sane_rails_def by blast
  have eff: "eff_allowed ?rs r = map market_uuid (rr_allowed_markets rails)"
    "eff_max_pos ?rs r = Fin s" "eff_gross ?rs r = Fin t"
    using user s t by (simp_all add: eff_allowed_def eff_max_pos_def eff_gross_def resolve_user_def
        split: option.splits)
  have rails_hold: "order_rails ?rs r"
    using ok authorize_order_iff by blast
  then have "\<not> Fin e \<le> 0" and mkt: "or_market_id r \<in> set (map market_uuid (rr_allowed_markets rails))"
    and cap: "\<not> Fin e * Fin s < Fin n" and gross: "\<not> Fin e * Fin t < Fin g"
    using equity notional live(2) unfolding order_rails_def eff by (simp_all del: Fin_ops)
  then have pos: "0 < e" by (simp add: zero_eq_Fin)
  have "Fin n \<le> Fin e * Fin s" and "Fin g \<le> Fin e * Fin t"
    using cap gross by (simp_all add: float_not_less)
  then show ?thesis
    using mkt mult_le_self [OF equity(2) _ s(2)] mult_le_mult [of e t 10] pos t(2)
    by (auto intro: float_le_trans simp del: Fin_ops)
qed

theorem live_boot_caps_orders_witness:
  "or_market_id (sample_request\<lparr>or_market_id := ''AAPL''\<rparr>) \<in> id ` {''AAPL'', ''MSFT''}"
proof -
  let ?r = "sample_request\<lparr>or_market_id := ''AAPL''\<rparr>"
  let ?rs = "armed_risk_service id 0 None None None None sample_rails"
  have evals: "rnd 500 = Fin 500" "rnd 2000 = Fin 2000" "rnd 60 = Fin 60"
    by (simp_all add: float_eval)
  have "order_rails ?rs ?r"
    unfolding order_rails_def using sample_float_eval evals
    by (simp add: sample_simps staleness_def total_seconds_def ks_can_trade_def zero_eq_Fin
        one_eq_Fin armed_risk_service_def resolve_allowed_markets_def sample_rails_def)
  then have "allowed (fst (authorize_order ?r ?rs))"
    by (simp add: authorize_order_iff)
  moreover have "is_double (Fin 1000)" by (simp add: sample_float_eval)
  ultimately show ?thesis
    using live_boot_caps_orders [OF sample_rails_resolve, of ?r id 0 None None None None 1000 100 200]
      sample_float_eval
    by (simp add: sample_request_def sample_rails_def)
qed

text \<open>
  The live-posture validation, documented never to raise, lets \<open>OverflowError\<close>
  escape when a rail is an integer too large for a double.
\<close>

theorem validate_huge_integer_raises:
  assumes "2 ^ 1024 \<le> n"
  shows "validate_production_risk_settings [] (YDict [(''daily_loss_pct'', YInt n)]) = Inl OverflowError"
proof -
  have double: "rnd (2 ^ 1024) = PosInf"
    by (rule rnd_overflow)
  have "rnd (2 ^ 1024) \<le> rnd (of_int n)"
    using assms by (intro rnd_mono) (metis of_int_le_iff of_int_numeral of_int_power)
  then have "rnd (of_int n) = PosInf"
    unfolding double by (cases "rnd (of_int n)") simp_all
  then show ?thesis
    by (simp add: validate_production_risk_settings_def resolve_risk_rails_def resolve_field_def
        merged_def env_override_def ENV_MAP_def dict_get_def to_float_def int_to_float_def)
qed

theorem validate_huge_integer_raises_witness:
  "validate_production_risk_settings [] (YDict [(''daily_loss_pct'', YInt (2 ^ 1024))]) = Inl OverflowError"
  by (rule validate_huge_integer_raises) simp

end
