(* ===== verification/Workflow.thy ===== *)
theory Workflow
  imports Catalog Backtest Preflight PaperTrading
begin

text \<open>
  \<open>domain/services/operator_workflow.py\<close> and \<open>operator_session.py\<close>: the ten steps of an
  operator session, strictly in order, and the gate each step has to pass; with
  \<open>compare\<close> of \<open>strategy_management.py\<close>, which the performance review runs.

  The detail dictionary of an outcome, which nothing reads back, is left out; its result is
  kept without the numbers it quotes.
\<close>

subsection \<open>The state machine\<close>

datatype operator_step =
    START | PREFLIGHT | BROKER_CHECK | MARKET_DATA_CHECK | PAPER_TRADING | PERFORMANCE_REVIEW
  | STRATEGY_PROMOTION | CONTROLLED_LIVE | SHUTDOWN | SESSION_REPORT

definition OPERATOR_STEPS :: "operator_step list" where
  "OPERATOR_STEPS = [START, PREFLIGHT, BROKER_CHECK, MARKET_DATA_CHECK, PAPER_TRADING, PERFORMANCE_REVIEW,
     STRATEGY_PROMOTION, CONTROLLED_LIVE, SHUTDOWN, SESSION_REPORT]"

fun position_in :: "operator_step \<Rightarrow> operator_step list \<Rightarrow> nat" where
  "position_in s [] = 0"
| "position_in s (x # xs) = (if x = s then 0 else Suc (position_in s xs))"

definition step_index :: "operator_step \<Rightarrow> nat" where
  "step_index s = position_in s OPERATOR_STEPS"

definition non_repeatable :: "operator_step list" where
  "non_repeatable = [START, SESSION_REPORT]"

datatype workflow_status = Idle | InProgress | Completed

record workflow_transition =
  tr_from :: "operator_step option"
  tr_to :: operator_step
  tr_actor :: string
  tr_result :: string
  tr_timestamp :: datetime

record operator_workflow =
  ow_current :: "operator_step option"
  ow_status :: workflow_status
  ow_session_id :: "string option"
  ow_transitions :: "workflow_transition list"
  ow_started_at :: "datetime option"
  ow_completed_at :: "datetime option"

definition new_workflow :: operator_workflow where
  "new_workflow = \<lparr>ow_current = None, ow_status = Idle, ow_session_id = None, ow_transitions = [],
     ow_started_at = None, ow_completed_at = None\<rparr>"

definition next_step :: "operator_workflow \<Rightarrow> operator_step option" where
  "next_step w =
     (case ow_current w of
        None \<Rightarrow> Some START
      | Some s \<Rightarrow> let idx = step_index s in
          if length OPERATOR_STEPS \<le> idx + 1 then None else Some (OPERATOR_STEPS ! (idx + 1)))"

definition can_advance_to :: "operator_step option \<Rightarrow> operator_workflow \<Rightarrow> bool" where
  "can_advance_to s w =
     (if s = None \<or> ow_status w = Completed then False
      else if s = ow_current w then the s \<notin> set non_repeatable
      else s = next_step w)"

definition WorkflowError :: exc where
  "WorkflowError = OtherException ''WorkflowError''"

definition advance ::
  "datetime \<Rightarrow> operator_step \<Rightarrow> string \<Rightarrow> string \<Rightarrow> operator_workflow \<Rightarrow> unit res \<times> operator_workflow" where
  "advance now s actor result w =
     (if \<not> can_advance_to (Some s) w then (Inl WorkflowError, w)
      else
      let w1 = (if ow_status w = Idle then w\<lparr>ow_status := InProgress, ow_started_at := Some now\<rparr> else w);
          w2 = w1\<lparr>ow_transitions := ow_transitions w1 @ [\<lparr>tr_from = ow_current w1, tr_to = s, tr_actor = actor,
                   tr_result = result, tr_timestamp = now\<rparr>], ow_current := Some s\<rparr>;
          w3 = (if s = SESSION_REPORT then w2\<lparr>ow_status := Completed, ow_completed_at := Some now\<rparr> else w2) in
      (Inr (), w3))"

definition bind_session :: "string \<Rightarrow> operator_workflow \<Rightarrow> operator_workflow" where
  "bind_session sid w = w\<lparr>ow_session_id := Some sid\<rparr>"

definition reset_workflow :: "operator_workflow \<Rightarrow> operator_workflow" where
  "reset_workflow w = w\<lparr>ow_current := None, ow_status := Idle, ow_session_id := None, ow_transitions := [],
     ow_started_at := None, ow_completed_at := None\<rparr>"

subsection \<open>Comparing strategies\<close>

text \<open>\<open>sorted(..., reverse=True)\<close> keeps the order of equal keys.\<close>

fun insert_desc :: "('a \<Rightarrow> float64) \<Rightarrow> 'a \<Rightarrow> 'a list \<Rightarrow> 'a list" where
  "insert_desc key x [] = [x]"
| "insert_desc key x (y # ys) = (if key y < key x then x # y # ys else y # insert_desc key x ys)"

definition sort_desc :: "('a \<Rightarrow> float64) \<Rightarrow> 'a list \<Rightarrow> 'a list" where
  "sort_desc key xs = foldl (\<lambda>ys x. insert_desc key x ys) [] xs"

record backtest_setup =
  bu_execution :: execution_service
  bu_env :: bt_env
  bu_capital :: float64

fun compare_metrics ::
  "catalog_config \<Rightarrow> backtest_setup \<Rightarrow> uuid \<Rightarrow> candle list \<Rightarrow> string list \<Rightarrow> (string \<times> metrics) list \<Rightarrow> catalog \<Rightarrow>
   (string \<times> metrics) list res" where
  "compare_metrics cfg bu market series [] acc c = Inr acc"
| "compare_metrics cfg bu market series (name # names) acc c =
     (case get_by_name name c of
        None \<Rightarrow> lifecycle_error ''not found''
      | Some s \<Rightarrow>
          (let template = (case sg_template s of Some t \<Rightarrow> if t = [] then sg_name s else t | None \<Rightarrow> sg_name s) in
           case registry_get template (cg_registry cfg) of
             None \<Rightarrow> lifecycle_error ''unknown template''
           | Some cls \<Rightarrow>
               rbind (backtest_run (bu_execution bu) (instance_of cls (sg_params s)) market (bu_env bu) (Fin 300)
                        (bu_capital bu) series) (\<lambda>(r, _).
               compare_metrics cfg bu market series names (AList.update name (br_metrics r) acc) c)))"

definition compare_strategies ::
  "catalog_config \<Rightarrow> backtest_setup option \<Rightarrow> uuid \<Rightarrow> string list \<Rightarrow> nat \<Rightarrow> catalog \<Rightarrow>
   (string list \<times> (string \<times> metrics) list \<times> string list) res" where
  "compare_strategies cfg bu market names candles c =
     (case bu of
        None \<Rightarrow> lifecycle_error ''Backtesting not configured''
      | Some b \<Rightarrow>
          if names = [] then lifecycle_error ''Provide at least one strategy name''
          else rbind (compare_metrics cfg b market (synthetic_candles candles (Fin 100)) names [] c) (\<lambda>ms.
            Inr (names, ms, sort_desc (\<lambda>n. case map_of ms n of None \<Rightarrow> 0 | Some m \<Rightarrow> mt_sharpe_ratio m) (dict_keys ms))))"

subsection \<open>The session and its gates\<close>

record operator_session =
  os_workflow :: operator_workflow
  os_saved :: "operator_workflow option option"
  os_preflight :: "preflight_service option"
  os_has_broker :: bool
  os_recon :: "broker_recon_service option"
  os_feeds :: "string list option"
  os_paper :: "paper_trading option"
  os_catalog :: "catalog option"
  os_live_mode :: bool

text \<open>The keywords of a step, with what the step reads from outside.\<close>

record step_context =
  sx_session_id :: "string option"
  sx_live_mode :: "bool option"
  sx_strategy :: "string option"
  sx_name :: "string option"
  sx_dry_run :: bool
  sx_fresh :: uuid
  sx_now :: datetime
  sx_environ :: environ
  sx_chain_ok :: "bool option"
  sx_balance :: "float64 res"
  sx_config :: catalog_config
  sx_backtest :: "backtest_setup option"
  sx_market :: uuid

record outcome =
  oc_step :: operator_step
  oc_ok :: bool
  oc_result :: string

abbreviation outcome_of :: "operator_step \<Rightarrow> bool \<Rightarrow> string \<Rightarrow> outcome" where
  "outcome_of s ok msg \<equiv> \<lparr>oc_step = s, oc_ok = ok, oc_result = msg\<rparr>"

text \<open>\<open>a or b\<close> of two keywords.\<close>

definition text_or_else :: "string option \<Rightarrow> string option \<Rightarrow> string option" where
  "text_or_else a b = (case a of Some x \<Rightarrow> if x = [] then b else Some x | None \<Rightarrow> b)"

definition gate_start :: "step_context \<Rightarrow> operator_session \<Rightarrow> outcome res \<times> operator_session" where
  "gate_start sx os =
     (let w = os_workflow os;
          sid = (case text_or_else (sx_session_id sx) None of Some i \<Rightarrow> i | None \<Rightarrow> sx_fresh sx) in
      (Inr (outcome_of START True ''operator session started''),
       if ow_session_id w = None then os\<lparr>os_workflow := bind_session sid w\<rparr> else os))"

definition gate_preflight :: "step_context \<Rightarrow> operator_session \<Rightarrow> outcome res" where
  "gate_preflight sx os =
     (let live = (case sx_live_mode sx of Some b \<Rightarrow> b | None \<Rightarrow> os_live_mode os) in
      case os_preflight os of
        None \<Rightarrow> Inr (outcome_of PREFLIGHT True ''preflight not configured'')
      | Some pf \<Rightarrow>
          if pv_passed (preflight_check (sx_environ sx) (sx_chain_ok sx) live pf)
          then Inr (outcome_of PREFLIGHT True ''passed'') else Inr (outcome_of PREFLIGHT False ''failed''))"

definition gate_broker_check :: "step_context \<Rightarrow> operator_session \<Rightarrow> outcome res" where
  "gate_broker_check sx os =
     (if \<not> os_has_broker os then Inr (outcome_of BROKER_CHECK True ''broker not configured'')
      else case sx_balance sx of
        Inl e \<Rightarrow> Inr (outcome_of BROKER_CHECK False ''broker unreachable'')
      | Inr balance \<Rightarrow>
          if (case os_recon os of None \<Rightarrow> False | Some r \<Rightarrow> \<not> can_accept_orders r)
          then Inr (outcome_of BROKER_CHECK False ''broker state reconciliation incomplete'')
          else Inr (outcome_of BROKER_CHECK True ''broker connected''))"

definition gate_market_data_check :: "operator_session \<Rightarrow> outcome res" where
  "gate_market_data_check os =
     (case os_feeds os of
        None \<Rightarrow> Inr (outcome_of MARKET_DATA_CHECK True ''market data not configured'')
      | Some fs \<Rightarrow>
          if fs = [] then Inr (outcome_of MARKET_DATA_CHECK False ''no market data sources configured'')
          else Inr (outcome_of MARKET_DATA_CHECK True ''feeds active''))"

definition gate_paper_trading :: "operator_session \<Rightarrow> outcome res" where
  "gate_paper_trading os =
     (case os_paper os of
        None \<Rightarrow> Inr (outcome_of PAPER_TRADING False ''paper trading engine unavailable'')
      | Some _ \<Rightarrow> Inr (outcome_of PAPER_TRADING True ''paper trading ready''))"

definition gate_performance_review :: "step_context \<Rightarrow> operator_session \<Rightarrow> outcome res" where
  "gate_performance_review sx os =
     (case os_catalog os of
        None \<Rightarrow> Inr (outcome_of PERFORMANCE_REVIEW True ''catalog not configured'')
      | Some c \<Rightarrow>
          (let names = map sg_name (get_enabled c) in
           if names = [] then Inr (outcome_of PERFORMANCE_REVIEW False ''no enabled strategies to review'')
           else rbind (compare_strategies (sx_config sx) (sx_backtest sx) (sx_market sx) names 50 c) (\<lambda>_.
             Inr (outcome_of PERFORMANCE_REVIEW True ''reviewed''))))"

definition gate_strategy_promotion :: "step_context \<Rightarrow> operator_session \<Rightarrow> outcome res \<times> operator_session" where
  "gate_strategy_promotion sx os =
     (case text_or_else (sx_strategy sx) (text_or_else (sx_name sx) None) of
        None \<Rightarrow> (Inr (outcome_of STRATEGY_PROMOTION False ''no strategy name provided''), os)
      | Some name \<Rightarrow>
          (case os_catalog os of
             None \<Rightarrow> (Inr (outcome_of STRATEGY_PROMOTION False ''strategy catalog unavailable''), os)
           | Some c \<Rightarrow>
               (case promote name c of
                  (Inl e, c1) \<Rightarrow> (Inr (outcome_of STRATEGY_PROMOTION False ''promotion rejected''), os\<lparr>os_catalog := Some c1\<rparr>)
                | (Inr s, c1) \<Rightarrow> (Inr (outcome_of STRATEGY_PROMOTION True ''promoted''), os\<lparr>os_catalog := Some c1\<rparr>))))"

definition gate_controlled_live :: "step_context \<Rightarrow> operator_session \<Rightarrow> outcome res" where
  "gate_controlled_live sx os =
     (case os_preflight os of
        None \<Rightarrow> Inr (outcome_of CONTROLLED_LIVE True ''preflight not configured'')
      | Some pf \<Rightarrow>
          if pv_passed (preflight_check (sx_environ sx) (sx_chain_ok sx) True pf)
          then Inr (outcome_of CONTROLLED_LIVE True
                 (if sx_dry_run sx then ''live preflight passed (dry-run)'' else ''live preflight passed''))
          else Inr (outcome_of CONTROLLED_LIVE False ''live preflight failed''))"

fun stop_running :: "datetime \<Rightarrow> paper_session list \<Rightarrow> paper_trading \<Rightarrow> unit res \<times> paper_trading" where
  "stop_running now [] pt = (Inr (), pt)"
| "stop_running now (se # ses) pt =
     (if se_status se = Running
      then (case stop_session now (se_id se) pt of
              Inl e \<Rightarrow> (Inl e, pt)
            | Inr (_, pt1) \<Rightarrow> stop_running now ses pt1)
      else stop_running now ses pt)"

definition gate_shutdown :: "step_context \<Rightarrow> operator_session \<Rightarrow> outcome res \<times> operator_session" where
  "gate_shutdown sx os =
     (case os_paper os of
        None \<Rightarrow> (Inr (outcome_of SHUTDOWN True ''shutdown complete''), os)
      | Some pt \<Rightarrow>
          (case stop_running (sx_now sx) (list_sessions pt) pt of
             (Inl e, pt1) \<Rightarrow> (Inl e, os\<lparr>os_paper := Some pt1\<rparr>)
           | (Inr _, pt1) \<Rightarrow> (Inr (outcome_of SHUTDOWN True ''shutdown complete''), os\<lparr>os_paper := Some pt1\<rparr>)))"

definition execute_gate ::
  "operator_step \<Rightarrow> step_context \<Rightarrow> operator_session \<Rightarrow> outcome res \<times> operator_session" where
  "execute_gate s sx os =
     (case s of
        START \<Rightarrow> gate_start sx os
      | PREFLIGHT \<Rightarrow> (gate_preflight sx os, os)
      | BROKER_CHECK \<Rightarrow> (gate_broker_check sx os, os)
      | MARKET_DATA_CHECK \<Rightarrow> (gate_market_data_check os, os)
      | PAPER_TRADING \<Rightarrow> (gate_paper_trading os, os)
      | PERFORMANCE_REVIEW \<Rightarrow> (gate_performance_review sx os, os)
      | STRATEGY_PROMOTION \<Rightarrow> gate_strategy_promotion sx os
      | CONTROLLED_LIVE \<Rightarrow> (gate_controlled_live sx os, os)
      | SHUTDOWN \<Rightarrow> gate_shutdown sx os
      | SESSION_REPORT \<Rightarrow> (Inr (outcome_of SESSION_REPORT True ''session report generated''), os))"

definition perform ::
  "operator_step \<Rightarrow> string \<Rightarrow> step_context \<Rightarrow> operator_session \<Rightarrow> outcome res \<times> operator_session" where
  "perform s actor sx os =
     (case execute_gate s sx os of
        (Inl e, os1) \<Rightarrow> (Inl e, os1)
      | (Inr oc, os1) \<Rightarrow>
          if \<not> oc_ok oc then (Inr oc, os1)
          else
          (case advance (sx_now sx) s actor (oc_result oc) (os_workflow os1) of
             (Inl e, w) \<Rightarrow> (Inl e, os1\<lparr>os_workflow := w\<rparr>)
           | (Inr _, w) \<Rightarrow>
               (Inr oc, os1\<lparr>os_workflow := w, os_saved := map_option (\<lambda>_. Some w) (os_saved os1)\<rparr>)))"

subsection \<open>Strictly in order\<close>

lemma remdups_adj_snoc:
  "xs \<noteq> [] \<Longrightarrow> remdups_adj (xs @ [x]) = (if last xs = x then remdups_adj xs else remdups_adj xs @ [x])"
  by (induction xs rule: remdups_adj.induct) auto

lemma step_index_eval:
  "step_index START = 0" "step_index PREFLIGHT = 1" "step_index BROKER_CHECK = 2" "step_index MARKET_DATA_CHECK = 3"
  "step_index PAPER_TRADING = 4" "step_index PERFORMANCE_REVIEW = 5" "step_index STRATEGY_PROMOTION = 6"
  "step_index CONTROLLED_LIVE = 7" "step_index SHUTDOWN = 8" "step_index SESSION_REPORT = 9"
  by (simp_all add: step_index_def OPERATOR_STEPS_def)

lemma nth_step_index: "OPERATOR_STEPS ! step_index s = s" "step_index s < length OPERATOR_STEPS"
  by (cases s; simp add: step_index_eval OPERATOR_STEPS_def)+

lemma next_step_index:
  assumes "ow_current w = Some s" and "next_step w = Some t"
  shows "step_index t = Suc (step_index s)"
  using assms by (cases s) (auto simp: next_step_def step_index_eval OPERATOR_STEPS_def Let_def)

definition in_order :: "operator_workflow \<Rightarrow> bool" where
  "in_order w = (case ow_current w of
     None \<Rightarrow> ow_transitions w = []
   | Some s \<Rightarrow> ow_transitions w \<noteq> [] \<and> tr_to (last (ow_transitions w)) = s \<and>
       remdups_adj (map tr_to (ow_transitions w)) = take (Suc (step_index s)) OPERATOR_STEPS)"

lemma in_order_reached:
  assumes "in_order w"
  shows "\<exists>n. remdups_adj (map tr_to (ow_transitions w)) = take n OPERATOR_STEPS"
  using assms by (cases "ow_current w") (auto simp: in_order_def intro: exI [of _ 0])

lemma in_order_advance:
  assumes "in_order w"
  shows "in_order (snd (advance now s actor result w))"
proof (cases "can_advance_to (Some s) w")
  case True
  have trans: "ow_transitions (snd (advance now s actor result w)) = ow_transitions w @
      [\<lparr>tr_from = ow_current w, tr_to = s, tr_actor = actor, tr_result = result, tr_timestamp = now\<rparr>]"
    "ow_current (snd (advance now s actor result w)) = Some s"
    using True by (simp_all add: advance_def Let_def)
  show ?thesis
  proof (cases "ow_current w")
    case None
    then have "s = START" "ow_transitions w = []"
      using True assms by (simp_all add: can_advance_to_def next_step_def in_order_def split: if_splits)
    then show ?thesis
      using trans by (simp add: in_order_def step_index_eval OPERATOR_STEPS_def)
  next
    case (Some t)
    note old = assms [unfolded in_order_def Some, simplified]
    consider "s = t" | "s \<noteq> t" "next_step w = Some s"
      using True Some by (auto simp: can_advance_to_def split: if_splits)
    then show ?thesis
    proof cases
      case 1
      then show ?thesis
        using old trans by (simp add: in_order_def remdups_adj_snoc last_map)
    next
      case 2
      have idx: "step_index s = Suc (step_index t)" using next_step_index [OF Some 2(2)] .
      have "take (Suc (step_index s)) OPERATOR_STEPS = take (Suc (step_index t)) OPERATOR_STEPS @ [s]"
        using nth_step_index [of s] idx by (simp add: take_Suc_conv_app_nth)
      then show ?thesis
        using old trans 2(1) by (simp add: in_order_def remdups_adj_snoc last_map)
    qed
  qed
qed (use assms in \<open>simp add: advance_def\<close>)

lemma in_order_advanced: "in_order w \<Longrightarrow> advance now s actor result w = (q, w') \<Longrightarrow> in_order w'"
  using in_order_advance [of w now s actor result] by simp

lemma gate_keeps_order:
  "in_order (os_workflow os) \<Longrightarrow> in_order (os_workflow (snd (execute_gate s sx os)))"
  by (cases s) (auto simp: execute_gate_def gate_start_def gate_strategy_promotion_def gate_shutdown_def Let_def
      in_order_def bind_session_def split: option.splits prod.splits sum.splits)

lemma perform_in_order:
  assumes "in_order (os_workflow os)"
  shows "in_order (os_workflow (snd (perform s actor sx os)))"
proof -
  obtain q os1 where gate: "execute_gate s sx os = (q, os1)" by (cases "execute_gate s sx os")
  have kept: "in_order (os_workflow os1)"
    using gate_keeps_order [OF assms, of s sx] gate by simp
  show ?thesis
    using kept by (cases q) (auto simp: perform_def gate split: sum.splits prod.splits dest: in_order_advanced [OF kept])
qed

definition session_run :: "(operator_step \<times> string \<times> step_context) list \<Rightarrow> operator_session \<Rightarrow> operator_session" where
  "session_run calls os = fold (\<lambda>(s, actor, sx) os. snd (perform s actor sx os)) calls os"

text \<open>
  The operator workflow cannot be executed out of order: whatever steps an operator
  attempts, in any order and with any outcome of their gates, the recorded transitions are
  the first steps of the canonical order, each repeated at most in place.
\<close>

theorem workflow_in_order:
  assumes "os_workflow os = new_workflow"
  shows "\<exists>n. remdups_adj (map tr_to (ow_transitions (os_workflow (session_run calls os)))) = take n OPERATOR_STEPS"
proof -
  have "in_order (os_workflow os')" if "in_order (os_workflow os)" "os' = session_run calls os" for os os'
    using that unfolding session_run_def
    by (induction calls arbitrary: os) (auto simp: perform_in_order split: prod.splits)
  moreover have "in_order (os_workflow os)" using assms by (simp add: in_order_def new_workflow_def)
  ultimately show ?thesis using in_order_reached by blast
qed

definition sample_session :: operator_session where
  "sample_session = \<lparr>os_workflow = new_workflow, os_saved = None, os_preflight = None, os_has_broker = False,
     os_recon = None, os_feeds = None, os_paper = None, os_catalog = None, os_live_mode = False\<rparr>"

definition sample_context :: step_context where
  "sample_context = \<lparr>sx_session_id = None, sx_live_mode = None, sx_strategy = Some ''old'', sx_name = None,
     sx_dry_run = False, sx_fresh = ''f'', sx_now = 0, sx_environ = [], sx_chain_ok = None, sx_balance = Inr 0,
     sx_config = sample_config, sx_backtest = None, sx_market = ''m''\<rparr>"

theorem workflow_in_order_witness:
  "\<exists>n. remdups_adj (map tr_to (ow_transitions (os_workflow (session_run
      [(START, ''op'', sample_context), (SHUTDOWN, ''op'', sample_context), (PREFLIGHT, ''op'', sample_context),
       (PREFLIGHT, ''op'', sample_context)] sample_session)))) = take n OPERATOR_STEPS"
  by (rule workflow_in_order) (simp add: sample_session_def)

text \<open>
  A step that the workflow refuses has happened all the same: the gate runs before the
  order is checked, so promoting a strategy out of order promotes it in the catalog, leaves
  the workflow where it was, and then raises.
\<close>

theorem refused_promotion_is_done:
  assumes "\<not> can_advance_to (Some STRATEGY_PROMOTION) (os_workflow os)"
    and "os_catalog os = Some c" and "sx_strategy sx = Some name" and "name \<noteq> []"
    and "promote name c = (Inr s, c1)"
  shows "perform STRATEGY_PROMOTION actor sx os = (Inl WorkflowError, os\<lparr>os_catalog := Some c1\<rparr>) \<and>
    sg_status s = PROMOTED \<and> repo_get (sg_id s) c1 = Some s"
proof -
  have "sg_status s = PROMOTED \<and> repo_get (sg_id s) c1 = Some s"
    using assms(5) by (auto simp: promote_def required_def mem.fetch_put Let_def split: option.splits if_splits)
  moreover have "text_or_else (sx_strategy sx) (text_or_else (sx_name sx) None) = Some name"
    using assms(3,4) by (simp add: text_or_else_def)
  ultimately show ?thesis
    using assms(1,2,5) by (simp add: perform_def execute_gate_def gate_strategy_promotion_def advance_def)
qed

definition active_catalog :: catalog where
  "active_catalog = [(''k'', \<lparr>sg_name = ''old'', sg_params = [], sg_version = ''1.0.0'', sg_status = ACTIVE,
     sg_id = ''k'', sg_template = None, sg_created_at = 0\<rparr>)]"

theorem refused_promotion_is_done_witness:
  "\<exists>s c1. perform STRATEGY_PROMOTION ''op'' sample_context (sample_session\<lparr>os_catalog := Some active_catalog\<rparr>) =
      (Inl WorkflowError, sample_session\<lparr>os_catalog := Some c1\<rparr>) \<and> repo_get ''k'' c1 = Some s \<and> sg_status s = PROMOTED"
proof -
  let ?u = "with_status PROMOTED (snd (hd active_catalog))"
  have "promote ''old'' active_catalog = (Inr ?u, [(''k'', ?u)])"
    by (simp add: promote_def required_def get_by_name_def active_catalog_def repo_list_def demote_one_def
        store_put_def with_status_def Let_def)
  then show ?thesis
    using refused_promotion_is_done [of "sample_session\<lparr>os_catalog := Some active_catalog\<rparr>" active_catalog
        sample_context "''old''" ?u "[(''k'', ?u)]" "''op''"]
    by (auto simp: sample_session_def sample_context_def can_advance_to_def next_step_def new_workflow_def
        active_catalog_def)
qed

end
