(* ===== verification/Observability.thy ===== *)
theory Observability
  imports AuditChain "HOL-Library.AList"
begin

text \<open>
  \<open>infrastructure/{observability,observability_postgres,health,metrics,run_manifest}.py\<close>: the
  durable audit trail, metrics, health history and run manifest, beside the in-memory ones.

  A table is the list of its rows.  SQLite orders by \<open>rowid\<close>, the order of insertion; the
  Postgres audit table orders by a sequence number drawn at the insert.  An id that repeats
  violates the primary key.  The statements of both backends are otherwise the same text.
\<close>

subsection \<open>The durable audit trail\<close>

text \<open>One recording reads the newest hash, builds the entry and inserts it.\<close>

definition previous_hash :: "chain_entry option \<Rightarrow> string" where
  "previous_hash newest = (case newest of None \<Rightarrow> ''genesis'' | Some e \<Rightarrow> ce_hash e)"

record audit_call =
  ar_id :: uuid
  ar_now :: string
  ar_action :: string
  ar_actor :: string
  ar_resource :: string
  ar_detail :: string

definition prepare_entry :: "digest \<Rightarrow> audit_call \<Rightarrow> chain_entry option \<Rightarrow> chain_entry" where
  "prepare_entry dg a newest =
     (let raw = \<lparr>ce_id = ar_id a, ce_action = ar_action a, ce_actor = ar_actor a, ce_resource = ar_resource a,
                 ce_detail = ar_detail a, ce_timestamp = ar_now a, ce_previous_hash = previous_hash newest, ce_hash = []\<rparr> in
      raw\<lparr>ce_hash := compute_hash dg raw\<rparr>)"

definition first_row :: "'a list \<Rightarrow> 'a option" where
  "first_row rows = (case rows of [] \<Rightarrow> None | e # _ \<Rightarrow> Some e)"

definition sqlite_newest :: "chain_entry list \<Rightarrow> chain_entry option" where
  "sqlite_newest rows = first_row (rev rows)"

definition sqlite_insert :: "chain_entry \<Rightarrow> chain_entry list \<Rightarrow> chain_entry list res" where
  "sqlite_insert e rows = (if list_ex (\<lambda>r. ce_id r = ce_id e) rows then Inl IntegrityError else Inr (rows @ [e]))"

definition sqlite_record :: "digest \<Rightarrow> audit_call \<Rightarrow> chain_entry list \<Rightarrow> chain_entry list res" where
  "sqlite_record dg a rows = sqlite_insert (prepare_entry dg a (sqlite_newest rows)) rows"

definition sqlite_find :: "string option \<Rightarrow> string option \<Rightarrow> chain_entry list \<Rightarrow> chain_entry list" where
  "sqlite_find action actor rows =
     (let clause = (\<lambda>v got. case v of None \<Rightarrow> True | Some s \<Rightarrow> s = [] \<or> got = s) in
      filter (\<lambda>e. clause action (ce_action e) \<and> clause actor (ce_actor e)) rows)"

definition sqlite_entries :: "nat \<Rightarrow> nat \<Rightarrow> chain_entry list \<Rightarrow> chain_entry list" where
  "sqlite_entries limit offset rows = take limit (drop offset (rev rows))"

record pg_audit =
  pg_rows :: "(int \<times> chain_entry) list"
  pg_sequence :: int

definition pg_by_seq :: "pg_audit \<Rightarrow> chain_entry list" where
  "pg_by_seq t = map snd (sort_key fst (pg_rows t))"

definition pg_newest :: "pg_audit \<Rightarrow> chain_entry option" where
  "pg_newest t = first_row (rev (pg_by_seq t))"

text \<open>A failed insert has drawn its sequence number all the same; the caller sees the exception.\<close>

definition pg_insert :: "chain_entry \<Rightarrow> pg_audit \<Rightarrow> pg_audit res" where
  "pg_insert e t =
     (if list_ex (\<lambda>(_, r). ce_id r = ce_id e) (pg_rows t) then Inl IntegrityError
      else Inr \<lparr>pg_rows = pg_rows t @ [(pg_sequence t, e)], pg_sequence = pg_sequence t + 1\<rparr>)"

definition pg_record :: "digest \<Rightarrow> audit_call \<Rightarrow> pg_audit \<Rightarrow> pg_audit res" where
  "pg_record dg a t = pg_insert (prepare_entry dg a (pg_newest t)) t"

definition pg_verify_chain :: "digest \<Rightarrow> pg_audit \<Rightarrow> bool" where
  "pg_verify_chain dg t = verify_from dg None (pg_by_seq t)"

definition pg_entries :: "nat \<Rightarrow> nat \<Rightarrow> pg_audit \<Rightarrow> chain_entry list" where
  "pg_entries limit offset t = take limit (drop offset (rev (pg_by_seq t)))"

definition pg_find :: "string option \<Rightarrow> string option \<Rightarrow> pg_audit \<Rightarrow> chain_entry list" where
  "pg_find action actor t = sqlite_find action actor (pg_by_seq t)"

subsection \<open>What every audit store promises\<close>

text \<open>
  The contract of a store: its trail is a list, the newest entry it reads is the last of the
  trail, and an insert that succeeds appends.
\<close>

locale audit_store =
  fixes trail :: "'s \<Rightarrow> chain_entry list"
    and newest :: "'s \<Rightarrow> chain_entry option"
    and insert_row :: "chain_entry \<Rightarrow> 's \<Rightarrow> 's res"
    and sound :: "'s \<Rightarrow> bool"
  assumes newest_last: "sound s \<Longrightarrow> newest s = (if trail s = [] then None else Some (last (trail s)))"
    and insert_appends: "sound s \<Longrightarrow> insert_row e s = Inr s' \<Longrightarrow> sound s' \<and> trail s' = trail s @ [e]"
begin

lemma failed_run: "foldl (\<lambda>r a. rbind r (f a)) (Inl e) as = Inl e"
  by (induction as) simp_all

lemma record_appends:
  assumes "sound s" and "foldl (\<lambda>r a. rbind r (\<lambda>s. insert_row (prepare_entry dg a (newest s)) s)) (Inr s) as = Inr s'"
  shows "sound s' \<and> trail s' =
     fold (\<lambda>a es. snd (chain_record dg (ar_id a) (ar_now a) (ar_action a) (ar_actor a) (ar_resource a) (ar_detail a) es)) as (trail s)"
  using assms
proof (induction as arbitrary: s)
  case Nil
  then show ?case by simp
next
  case (Cons a as)
  let ?e = "prepare_entry dg a (newest s)"
  from Cons.prems(2) obtain s1 where s1: "insert_row ?e s = Inr s1"
    by (cases "insert_row ?e s") (simp_all add: failed_run)
  have "snd (chain_record dg (ar_id a) (ar_now a) (ar_action a) (ar_actor a) (ar_resource a) (ar_detail a) (trail s)) = trail s @ [?e]"
    using newest_last [OF Cons.prems(1)] by (simp add: chain_record_def prepare_entry_def previous_hash_def Let_def)
  then show ?case using Cons.IH [of s1] s1 Cons.prems(2) insert_appends [OF Cons.prems(1) s1] by simp
qed

end

lemma first_row_rev: "first_row (rev xs) = (if xs = [] then None else Some (last xs))"
  by (cases xs rule: rev_cases) (simp_all add: first_row_def)

lemma sorted_wrt_keys: "sorted_wrt (<) (map fst rows) \<Longrightarrow> sort_key fst rows = (rows :: (int \<times> 'a) list)"
  by (rule sort_key_id_if_sorted) (simp add: strict_sorted_imp_sorted)

definition pg_sound :: "pg_audit \<Rightarrow> bool" where
  "pg_sound t \<longleftrightarrow> sorted_wrt (<) (map fst (pg_rows t)) \<and> list_all (\<lambda>k. k < pg_sequence t) (map fst (pg_rows t))"

lemma pg_insert_appends:
  assumes "pg_sound t" and "pg_insert e t = Inr t'"
  shows "pg_sound t' \<and> pg_by_seq t' = pg_by_seq t @ [e]"
proof -
  have t': "t' = \<lparr>pg_rows = pg_rows t @ [(pg_sequence t, e)], pg_sequence = pg_sequence t + 1\<rparr>"
    using assms(2) by (auto simp: pg_insert_def split: if_splits)
  have "pg_sound t'" using assms(1) by (auto simp: t' pg_sound_def sorted_wrt_append list_all_iff)
  then show ?thesis using assms(1) by (simp add: pg_by_seq_def pg_sound_def sorted_wrt_keys) (simp add: t')
qed

interpretation sqlite_trail: audit_store "\<lambda>rows. rows" sqlite_newest sqlite_insert "\<lambda>_. True"
  by unfold_locales (auto simp: sqlite_newest_def first_row_rev sqlite_insert_def split: if_splits)

interpretation pg_trail: audit_store pg_by_seq pg_newest pg_insert pg_sound
  by unfold_locales (auto simp: pg_newest_def first_row_rev dest: pg_insert_appends)

text \<open>The calls as a client makes them on each backend.\<close>

definition sqlite_run :: "digest \<Rightarrow> audit_call list \<Rightarrow> chain_entry list \<Rightarrow> chain_entry list res" where
  "sqlite_run dg as rows = foldl (\<lambda>r a. rbind r (sqlite_record dg a)) (Inr rows) as"

definition pg_run :: "digest \<Rightarrow> audit_call list \<Rightarrow> pg_audit \<Rightarrow> pg_audit res" where
  "pg_run dg as t = foldl (\<lambda>r a. rbind r (pg_record dg a)) (Inr t) as"

definition memory_run :: "digest \<Rightarrow> audit_call list \<Rightarrow> chain_entry list \<Rightarrow> chain_entry list" where
  "memory_run dg as es =
     fold (\<lambda>a es. snd (chain_record dg (ar_id a) (ar_now a) (ar_action a) (ar_actor a) (ar_resource a) (ar_detail a) es)) as es"

text \<open>
  C22. The durable trails refine the in-memory one: when no insert of a sequence of recordings
  fails, the SQLite trail and the Postgres trail (ordered by its sequence) are the very
  entries, hashes included, that the in-memory trail holds after the same recordings; so
  both verify exactly when it does, and the three answer a search alike.
\<close>

theorem durable_trails_agree:
  assumes "sqlite_run dg as [] = Inr rows" and "pg_run dg as \<lparr>pg_rows = [], pg_sequence = n\<rparr> = Inr t"
  shows "rows = memory_run dg as [] \<and> pg_by_seq t = memory_run dg as [] \<and>
     verify_chain dg rows \<and> pg_verify_chain dg t \<and>
     sqlite_find action actor rows = chain_find action actor rows \<and> pg_find action actor t = chain_find action actor rows"
proof -
  have rows: "rows = memory_run dg as []"
    using sqlite_trail.record_appends [where s = "[]" and s' = rows] assms(1)
    by (simp add: sqlite_run_def sqlite_record_def [abs_def] memory_run_def)
  have pg: "pg_by_seq t = memory_run dg as []"
    using pg_trail.record_appends [where s = "\<lparr>pg_rows = [], pg_sequence = n\<rparr>" and s' = t] assms(2)
    by (simp add: pg_run_def pg_record_def [abs_def] memory_run_def pg_sound_def pg_by_seq_def)
  have find: "sqlite_find action actor es = chain_find action actor es" for es
    by (auto simp: sqlite_find_def chain_find_def Let_def intro!: filter_cong split: option.splits)
  have "verify_chain dg (memory_run dg as es)" if "verify_chain dg es" for es
    using that by (induction as arbitrary: es) (simp_all add: memory_run_def verify_chain_record)
  then have "verify_chain dg (memory_run dg as [])" by (simp add: verify_chain_def)
  then show ?thesis using rows pg find by (simp add: pg_find_def pg_verify_chain_def verify_chain_def)
qed

definition plain_digest :: digest where
  "plain_digest s = s"

definition audit_of :: "string \<Rightarrow> audit_call" where
  "audit_of i = \<lparr>ar_id = i, ar_now = ''t'', ar_action = ''a'', ar_actor = ''u'', ar_resource = ''r'', ar_detail = []\<rparr>"

theorem durable_trails_agree_witness:
  "\<exists>rows t. sqlite_run plain_digest [audit_of ''1'', audit_of ''2''] [] = Inr rows \<and> length rows = 2 \<and>
     pg_by_seq t = rows \<and> pg_verify_chain plain_digest t"
proof -
  let ?as = "[audit_of ''1'', audit_of ''2'']"
  obtain rows where rows: "sqlite_run plain_digest ?as [] = Inr rows" "length rows = 2"
    by (simp add: sqlite_run_def sqlite_record_def sqlite_insert_def sqlite_newest_def prepare_entry_def audit_of_def Let_def)
  obtain t where t: "pg_run plain_digest ?as \<lparr>pg_rows = [], pg_sequence = 1\<rparr> = Inr t"
    by (simp add: pg_run_def pg_record_def pg_insert_def prepare_entry_def audit_of_def Let_def)
  show ?thesis
    using durable_trails_agree [OF rows(1) t, of None None] rows t by (intro exI [of _ rows] exI [of _ t]) simp
qed

text \<open>
  Recording is not atomic: two recorders (the daemon and the API process, or two worker
  threads) that both read the newest hash before either inserts fork the chain, and from then
  on the trail does not verify, although nobody tampered with it.
\<close>

theorem concurrent_recordings_fork_the_chain:
  assumes "verify_chain dg rows" and "a = prepare_entry dg x (sqlite_newest rows)" and "b = prepare_entry dg y (sqlite_newest rows)"
    and "sqlite_insert a rows = Inr rows1" and "sqlite_insert b rows1 = Inr rows2"
    and "ce_hash a \<noteq> previous_hash (sqlite_newest rows)"
  shows "verify_chain dg rows1 \<and> \<not> verify_chain dg (rows2 @ later)"
proof -
  have r: "rows1 = rows @ [a]" "rows2 = rows @ [a, b]"
    using assms(4,5) by (auto simp: sqlite_insert_def split: if_splits)
  have fork: "\<not> verify_from dg q (es @ [a, b] @ later)" for q es
    using assms(2,3,6) by (induction es arbitrary: q) (auto simp: prepare_entry_def Let_def)
  have "verify_chain dg (rows @ [a])"
    using assms(1) verify_chain_record [of dg rows "ar_id x" "ar_now x" "ar_action x" "ar_actor x" "ar_resource x" "ar_detail x"] assms(2)
    by (auto simp: chain_record_def prepare_entry_def previous_hash_def sqlite_newest_def first_row_rev Let_def split: if_splits)
  then show ?thesis using fork [of None rows] by (simp add: r verify_chain_def)
qed

theorem concurrent_recordings_fork_the_chain_witness:
  "let a = prepare_entry plain_digest (audit_of ''1'') None; b = prepare_entry plain_digest (audit_of ''2'') None in
     verify_chain plain_digest [a] \<and> \<not> verify_chain plain_digest [a, b]"
  using concurrent_recordings_fork_the_chain [of plain_digest "[]" "prepare_entry plain_digest (audit_of ''1'') None" "audit_of ''1''"
      "prepare_entry plain_digest (audit_of ''2'') None" "audit_of ''2''" _ _ "[]"]
  by (simp add: verify_chain_def sqlite_newest_def sqlite_insert_def prepare_entry_def audit_of_def previous_hash_def
      plain_digest_def compute_hash_def compute_audit_hash_def canonical_json_def Let_def)

subsection \<open>Metrics\<close>

record metric_store =
  mx_counters :: "(string \<times> float64) list"
  mx_gauges :: "(string \<times> float64) list"
  mx_samples :: "(string \<times> float64) list"

definition metric_counter :: "string \<Rightarrow> float64 \<Rightarrow> metric_store \<Rightarrow> float64 \<times> metric_store" where
  "metric_counter name delta mx =
     (let v = dict_get (mx_counters mx) name 0 + delta in
      (v, mx\<lparr>mx_counters := AList.update name v (mx_counters mx), mx_samples := mx_samples mx @ [(name, v)]\<rparr>))"

definition metric_gauge :: "string \<Rightarrow> float64 \<Rightarrow> metric_store \<Rightarrow> metric_store" where
  "metric_gauge name v mx =
     mx\<lparr>mx_gauges := AList.update name v (mx_gauges mx), mx_samples := mx_samples mx @ [(name, v)]\<rparr>"

definition metric_snapshot :: "metric_store \<Rightarrow> (string \<times> float64) list" where
  "metric_snapshot mx = fold (\<lambda>(k, v). AList.update k v) (mx_gauges mx) (mx_counters mx)"

text \<open>\<open>matching[-limit:]\<close>: a limit of zero is the whole list.\<close>

definition tail_slice :: "int \<Rightarrow> 'a list \<Rightarrow> 'a list" where
  "tail_slice limit xs = drop (slice_bound (- limit) xs) xs"

definition metric_query :: "string \<Rightarrow> int \<Rightarrow> metric_store \<Rightarrow> (string \<times> float64) list" where
  "metric_query name limit mx = tail_slice limit (filter (\<lambda>s. fst s = name) (mx_samples mx))"

definition metric_clear :: "metric_store \<Rightarrow> metric_store" where
  "metric_clear mx = \<lparr>mx_counters = [], mx_gauges = [], mx_samples = []\<rparr>"

text \<open>The durable service: the same two dictionaries in memory, the samples in a table that a
  restart keeps.  A negative SQL limit is no limit.\<close>

definition sql_metric_query :: "string \<Rightarrow> int \<Rightarrow> metric_store \<Rightarrow> (string \<times> float64) list" where
  "sql_metric_query name limit mx =
     (let rows = rev (filter (\<lambda>s. fst s = name) (mx_samples mx)) in if limit < 0 then rows else take (nat limit) rows)"

definition sql_metric_restart :: "metric_store \<Rightarrow> metric_store" where
  "sql_metric_restart mx = mx\<lparr>mx_counters := [], mx_gauges := []\<rparr>"

lemma tail_slice_rev: "0 < limit \<Longrightarrow> rev (tail_slice limit xs) = take (nat limit) (rev xs)"
  by (auto simp: tail_slice_def slice_bound_def rev_drop nat_diff_distrib' max_def intro!: arg_cong2 [of _ _ _ _ take])

text \<open>
  The durable metrics answer a positive limit with the samples of the in-memory ones, newest
  first.  A counter does not survive a restart: the first count after it is its own delta,
  whatever the history says, so a stored counter is not monotone.
\<close>

theorem metric_histories_reversed:
  "(if 0 < limit then sql_metric_query name limit mx = rev (metric_query name limit mx) else True) \<and>
   fst (metric_counter name delta (sql_metric_restart mx)) = 0 + delta \<and>
   sql_metric_query name 1 (snd (metric_counter name delta (sql_metric_restart mx))) = [(name, 0 + delta)]"
  by (simp add: sql_metric_query_def metric_query_def tail_slice_rev metric_counter_def sql_metric_restart_def dict_get_def Let_def)

subsection \<open>Health\<close>

datatype check_outcome = Answers bool | Raises exc | Hangs

definition run_with_timeout :: "check_outcome \<Rightarrow> bool res" where
  "run_with_timeout c = (case c of Answers b \<Rightarrow> Inr b | Raises e \<Rightarrow> Inl e | Hangs \<Rightarrow> Inl TimeoutError)"

definition health_caught :: "exc \<Rightarrow> bool" where
  "health_caught e = (e \<in> {RuntimeError, ValueError, MoneyPrecisionError, OSError, TimeoutError})"

text \<open>A history row is the service and its verdict; the connection of the durable service may
  have been closed, and then the write is counted and skipped.\<close>

record health_store =
  hs_services :: "(string \<times> bool) list"
  hs_history :: "(string \<times> bool) list"
  hs_closed :: bool
  hs_skipped :: nat

definition health_register :: "string \<Rightarrow> bool \<Rightarrow> health_store \<Rightarrow> health_store" where
  "health_register name initial hs = hs\<lparr>hs_services := AList.update name initial (hs_services hs)\<rparr>"

definition health_save :: "string \<Rightarrow> bool \<Rightarrow> health_store \<Rightarrow> health_store" where
  "health_save name ok hs =
     (if hs_closed hs then hs\<lparr>hs_skipped := hs_skipped hs + 1\<rparr> else hs\<lparr>hs_history := hs_history hs @ [(name, ok)]\<rparr>)"

definition health_report :: "bool \<Rightarrow> string \<Rightarrow> health_store \<Rightarrow> health_store" where
  "health_report ok name hs = health_save name ok (hs\<lparr>hs_services := AList.update name ok (hs_services hs)\<rparr>)"

definition health_check :: "string \<Rightarrow> check_outcome \<Rightarrow> health_store \<Rightarrow> bool res \<times> health_store" where
  "health_check name c hs =
     (case run_with_timeout c of
        Inr ok \<Rightarrow> (Inr ok, health_report ok name hs)
      | Inl e \<Rightarrow> if health_caught e then (Inr False, health_report False name hs) else (Inl e, hs))"

text \<open>The Postgres service calls the check itself (\<open>None\<close>: the call does not return) and lets a
  failing write through.\<close>

definition pg_health_check :: "string \<Rightarrow> check_outcome \<Rightarrow> health_store \<Rightarrow> (bool res \<times> health_store) option" where
  "pg_health_check name c hs =
     (let report = (\<lambda>ok. let hs1 = hs\<lparr>hs_services := AList.update name ok (hs_services hs)\<rparr> in
                      if hs_closed hs then (Inl OSError, hs1) else (Inr ok, hs1\<lparr>hs_history := hs_history hs @ [(name, ok)]\<rparr>)) in
      case c of
        Hangs \<Rightarrow> None
      | Answers b \<Rightarrow> Some (report b)
      | Raises e \<Rightarrow> Some (if health_caught e then report False else (Inl e, hs)))"

definition all_healthy :: "health_store \<Rightarrow> bool" where
  "all_healthy hs = (if hs_services hs = [] then True else list_all snd (hs_services hs))"

definition health_recent :: "int \<Rightarrow> health_store \<Rightarrow> (string \<times> bool) list" where
  "health_recent limit hs = tail_slice limit (hs_history hs)"

text \<open>
  A check always ends, its verdict is the one stored, and no verdict vanishes: whether the
  check answers, raises what the service expects or hangs, the service is marked with the
  verdict and the verdict is either in the history or counted as skipped; any other exception
  changes nothing.
\<close>

theorem health_check_accounts:
  "case health_check name c hs of
     (Inr ok, hs') \<Rightarrow> map_of (hs_services hs') name = Some ok \<and> (ok = (c = Answers True)) \<and>
       length (hs_history hs') + hs_skipped hs' = length (hs_history hs) + hs_skipped hs + 1 \<and>
       (if all_healthy hs' then ok else True)
   | (Inl e, hs') \<Rightarrow> c = Raises e \<and> \<not> health_caught e \<and> hs' = hs"
proof -
  have marked: "list_all snd (AList.update name b d) \<Longrightarrow> b" for b and d :: "(string \<times> bool) list"
  proof -
    have "(name, b) \<in> set (AList.update name b d)" by (metis map_of_SomeD map_of_update)
    then show "list_all snd (AList.update name b d) \<Longrightarrow> b" by (force simp: list_all_iff)
  qed
  have ne: "AList.update name b d \<noteq> []" for b and d :: "(string \<times> bool) list" by (cases d) auto
  show ?thesis
    by (cases c) (auto simp: health_check_def run_with_timeout_def health_report_def health_save_def all_healthy_def
        health_caught_def ne dest: marked split: if_splits)
qed

end
