(* ===== verification/Governance.thy ===== *)
theory Governance
  imports RiskConfig AuditChain Preflight BrokerPort Workflow "HOL-Library.Char_ord" "HOL-Library.List_Lexorder"
begin

text \<open>
  What lets a process trade live: \<open>scripts/governance/sign_release.py\<close>,
  \<open>scripts/governance/operator_ack.py\<close>, \<open>scripts/governance/live_gate.py\<close> and
  \<open>domain/services/live_readiness.py\<close>.

  The digest \<open>sha\<close> and the keyed digest \<open>mac\<close> (a function of the key and of the text) are
  parameters, and nothing is assumed of them but that their answers are hexadecimal where a
  round trip needs it.  The exit status of a script is a number; an exception that ends it,
  \<open>SystemExit\<close> among them, is the error.  A file is its content, when there is one.
\<close>

subsection \<open>Release signatures\<close>

definition SystemExit :: exc where "SystemExit = OtherException ''SystemExit''"

definition AttributeError :: exc where "AttributeError = OtherException ''AttributeError''"

text \<open>\<open>hmac.compare_digest\<close> of two texts, which have to be ASCII.\<close>

definition ascii :: "string \<Rightarrow> bool" where
  "ascii s = list_all (\<lambda>c. char_code c < 128) s"

definition compare_texts :: "string \<Rightarrow> string \<Rightarrow> bool res" where
  "compare_texts a b = (if ascii a \<and> ascii b then Inr (a = b) else Inl TypeError)"

definition PAPER_KEY :: string where "PAPER_KEY = ''paper-signing-key-for-drills-only''"

definition signing_key :: "environ \<Rightarrow> string \<Rightarrow> bool \<Rightarrow> string res" where
  "signing_key env key_var must =
     (let key = getenv env key_var [] in
      if key \<noteq> [] then Inr key else if must then Inl SystemExit else Inr PAPER_KEY)"

text \<open>\<open>split(":", 1)\<close> into two parts, when there is a colon.\<close>

definition split_once :: "string \<Rightarrow> (string \<times> string) option" where
  "split_once s =
     (case dropWhile (\<lambda>c. c \<noteq> CHR '':'') s of
        [] \<Rightarrow> None
      | _ # rest \<Rightarrow> Some (takeWhile (\<lambda>c. c \<noteq> CHR '':'') s, rest))"

definition sign_artifact ::
  "(string \<Rightarrow> string) \<Rightarrow> (string \<Rightarrow> string \<Rightarrow> string) \<Rightarrow> environ \<Rightarrow> string \<Rightarrow> string option \<Rightarrow> string option \<Rightarrow> int res \<times> string option" where
  "sign_artifact sha mac env key_var artifact sig =
     (case artifact of
        None \<Rightarrow> (Inr 1, sig)
      | Some bytes \<Rightarrow>
          (case signing_key env key_var False of
             Inl e \<Rightarrow> (Inl e, sig)
           | Inr key \<Rightarrow> (Inr 0, Some (sha bytes @ '':'' @ mac key (sha bytes) @ [CHR 0x0A]))))"

definition verify_artifact ::
  "(string \<Rightarrow> string) \<Rightarrow> (string \<Rightarrow> string \<Rightarrow> string) \<Rightarrow> environ \<Rightarrow> string \<Rightarrow> string option \<Rightarrow> string option \<Rightarrow> int res" where
  "verify_artifact sha mac env key_var artifact sig =
     (case sig of
        None \<Rightarrow> Inr 1
      | Some text \<Rightarrow>
          (case split_once (strip text) of
             None \<Rightarrow> Inr 1
           | Some (stored_digest, stored_mac) \<Rightarrow>
               rbind (signing_key env key_var True) (\<lambda>key.
                 (case artifact of
                    None \<Rightarrow> Inl OSError
                  | Some bytes \<Rightarrow>
                      if sha bytes \<noteq> stored_digest then Inr 1
                      else rbind (compare_texts (mac key (sha bytes)) stored_mac) (\<lambda>ok. Inr (if ok then 0 else 1))))))"

subsection \<open>The operator's acknowledgment\<close>

definition RED_LINES :: "string list" where
  "RED_LINES =
     [''any unplanned order -> stop and reconcile before re-arm'',
      ''kill-switch trip or daily-loss cap -> flatten, zero exposure, no auto re-arm'',
      ''data-gap breaker -> trading blocked while feed is absent/stale'',
      ''gross exposure breach -> new orders refused + alert'',
      ''supervision unclean-death -> do not resume until broker truth reconciled'',
      ''unreconciled startup -> order acceptance blocked (fail-closed)'',
      ''only an operator can re-arm, after clean reconciliation + fresh readiness pass'']"

text \<open>The values a record has, and what the file may hold.\<close>

datatype ack_value = AText string | AInt int | ATexts "string list"

type_synonym ack_items = "(string \<times> ack_value) list"

datatype ack_file = NoAck | BadJson | NotDict | Ack ack_items

fun ack_value_json :: "ack_value \<Rightarrow> string" where
  "ack_value_json (AText s) = json_string s"
| "ack_value_json (AInt n) = part_text (Z n)"
| "ack_value_json (ATexts ss) = canonical_json ss"

fun ack_items_json :: "ack_items \<Rightarrow> string" where
  "ack_items_json [] = ''}''"
| "ack_items_json [(k, v)] = json_string k @ '':'' @ ack_value_json v @ ''}''"
| "ack_items_json ((k, v) # i # is) = json_string k @ '':'' @ ack_value_json v @ '','' @ ack_items_json (i # is)"

text \<open>\<open>json.dumps\<close> of the record without its signature, with sorted keys and no spaces.\<close>

definition ack_body :: "ack_items \<Rightarrow> string" where
  "ack_body rec = ''{'' @ ack_items_json (sort_key fst (filter (\<lambda>(k, v). k \<noteq> ''signature'') rec))"

definition ack_record :: "string \<Rightarrow> string \<Rightarrow> string \<Rightarrow> string \<Rightarrow> ack_items" where
  "ack_record name role now digest =
     [(''schema_version'', AInt 1), (''policy'', AText ''LIVE_RUN_POLICY.md''), (''operator_name'', AText name),
      (''operator_role'', AText role), (''red_lines_acknowledged'', ATexts RED_LINES), (''acknowledged_at'', AText now),
      (''policy_sha256'', AText digest)]"

definition ack_policy ::
  "(string \<Rightarrow> string) \<Rightarrow> (string \<Rightarrow> string \<Rightarrow> string) \<Rightarrow> environ \<Rightarrow> string \<Rightarrow> string option \<Rightarrow> ack_file \<Rightarrow> int res \<times> ack_file" where
  "ack_policy sha mac env now policy file =
     (case policy of
        None \<Rightarrow> (Inr 1, file)
      | Some bytes \<Rightarrow>
          let name = strip (getenv env ''OPERATOR_NAME'' []); role = strip (getenv env ''OPERATOR_ROLE'' []) in
          if name = [] \<or> role = [] then (Inr 1, file)
          else let rec = ack_record name role now (sha bytes) in
            (case signing_key env ''RELEASE_SIGNING_KEY'' True of
               Inl e \<Rightarrow> (Inl e, file)
             | Inr key \<Rightarrow> (Inr 0, Ack (rec @ [(''signature'', AText (mac key (ack_body rec)))]))))"

text \<open>\<open>str\<close> of the signature; the text of a list, which starts with a bracket, is kept as the
  bracket.\<close>

fun ack_text :: "ack_value option \<Rightarrow> string" where
  "ack_text None = []"
| "ack_text (Some (AText s)) = s"
| "ack_text (Some (AInt n)) = part_text (Z n)"
| "ack_text (Some (ATexts ss)) = ''[''"

fun ack_truthy :: "ack_value option \<Rightarrow> bool" where
  "ack_truthy None = False"
| "ack_truthy (Some (AText s)) = (s \<noteq> [])"
| "ack_truthy (Some (AInt n)) = (n \<noteq> 0)"
| "ack_truthy (Some (ATexts ss)) = (ss \<noteq> [])"

definition verify_ack ::
  "(string \<Rightarrow> string) \<Rightarrow> (string \<Rightarrow> string \<Rightarrow> string) \<Rightarrow> environ \<Rightarrow> string option \<Rightarrow> ack_file \<Rightarrow> int res" where
  "verify_ack sha mac env policy file =
     (case file of
        NoAck \<Rightarrow> Inr 1
      | BadJson \<Rightarrow> Inl ValueError
      | NotDict \<Rightarrow> Inl AttributeError
      | Ack rec \<Rightarrow>
          rbind (signing_key env ''RELEASE_SIGNING_KEY'' True) (\<lambda>key.
          rbind (compare_texts (ack_text (map_of rec ''signature'')) (mac key (ack_body rec))) (\<lambda>ok.
            if \<not> ok then Inr 1
            else case policy of
              None \<Rightarrow> Inl OSError
            | Some bytes \<Rightarrow>
                if map_of rec ''policy_sha256'' \<noteq> Some (AText (sha bytes)) then Inr 1
                else if \<not> ack_truthy (map_of rec ''operator_name'') \<or> \<not> ack_truthy (map_of rec ''operator_role'') then Inr 1
                else Inr 0)))"

subsection \<open>The live gate\<close>

text \<open>\<open>\bPK[0-9A-Z]{20,}\b\<close> on ASCII text: the run of capitals and digits after \<open>PK\<close> is long
  enough and no word character touches it on either side.\<close>

definition key_char :: "char \<Rightarrow> bool" where
  "key_char c = (is_digit c \<or> 65 \<le> char_code c \<and> char_code c \<le> 90)"

definition ident_char :: "char \<Rightarrow> bool" where
  "ident_char c = (key_char c \<or> 97 \<le> char_code c \<and> char_code c \<le> 122 \<or> c = CHR ''_'')"

definition key_here :: "string \<Rightarrow> bool" where
  "key_here s =
     (take 2 s = ''PK'' \<and> 20 \<le> length (takeWhile key_char (drop 2 s)) \<and>
      (case dropWhile key_char (drop 2 s) of [] \<Rightarrow> True | c # _ \<Rightarrow> \<not> ident_char c))"

fun key_from :: "bool \<Rightarrow> string \<Rightarrow> bool" where
  "key_from boundary [] = False"
| "key_from boundary (c # cs) = (boundary \<and> key_here (c # cs) \<or> key_from (\<not> ident_char c) cs)"

definition key_literal :: "string \<Rightarrow> bool" where
  "key_literal s = key_from True s"

definition scanned :: "string \<Rightarrow> bool" where
  "scanned rel = list_ex (\<lambda>ext. drop (length rel - length ext) rel = ext \<and> length ext \<le> length rel)
     [''.py'', ''.yaml'', ''.yml'', ''.json'', ''.toml'', ''.sh'', ''.md'']"

text \<open>The tracked files with their content; one that is gone from the work tree cannot be read.\<close>

fun offenders :: "(string \<times> string option) list \<Rightarrow> string list res" where
  "offenders [] = Inr []"
| "offenders ((rel, content) # fs) =
     (if \<not> scanned rel then offenders fs
      else case content of
        None \<Rightarrow> Inl OSError
      | Some s \<Rightarrow> rbind (offenders fs) (\<lambda>rest. Inr (if key_literal s then rel # rest else rest)))"

fun truthy_yval :: "yval \<Rightarrow> bool" where
  "truthy_yval YNone = False"
| "truthy_yval (YBool b) = b"
| "truthy_yval (YInt n) = (n \<noteq> 0)"
| "truthy_yval (YFloat x) = (x \<noteq> 0)"
| "truthy_yval (YStr s) = (s \<noteq> [])"
| "truthy_yval (YList xs) = (xs \<noteq> [])"
| "truthy_yval (YDict d) = (d \<noteq> [])"
| "truthy_yval (YOther s) = True"

definition gate_settings :: "yval option \<Rightarrow> (string \<times> yval) list res" where
  "gate_settings settings =
     (case settings of
        None \<Rightarrow> Inr []
      | Some y \<Rightarrow> if \<not> truthy_yval y then Inr [] else (case y of YDict d \<Rightarrow> Inr d | _ \<Rightarrow> Inl AttributeError))"

definition gate_risk :: "yval option \<Rightarrow> (string \<times> yval) list res" where
  "gate_risk settings =
     rbind (gate_settings settings) (\<lambda>d.
       (case map_of d ''risk'' of None \<Rightarrow> Inr [] | Some (YDict r) \<Rightarrow> Inr r | Some _ \<Rightarrow> Inl AttributeError))"

record gate_files =
  gf_tracked :: "(string \<times> string option) list res"
  gf_settings :: "yval option"
  gf_artifact :: "string option"
  gf_signature :: "string option"
  gf_ack :: ack_file

definition allowlist_ok :: "(string \<times> yval) list \<Rightarrow> bool" where
  "allowlist_ok risk =
     (\<not> truthy_yval (dict_get risk ''require_allowlist'' (YBool False)) \<or>
      truthy_yval (dict_get risk ''allowed_markets'' (YList [])))"

definition env_flag :: "environ \<Rightarrow> string \<Rightarrow> bool" where
  "env_flag env name = (lower (getenv env name []) = ''true'')"

definition gate_checks ::
  "(string \<Rightarrow> string) \<Rightarrow> (string \<Rightarrow> string \<Rightarrow> string) \<Rightarrow> environ \<Rightarrow> string \<Rightarrow> gate_files \<Rightarrow> (string \<times> bool) list res" where
  "gate_checks sha mac env key_var gf =
     rbind (rbind (gf_tracked gf) offenders) (\<lambda>found.
     rbind (gate_risk (gf_settings gf)) (\<lambda>risk.
     rbind (validate_production_risk_settings env (YDict risk)) (\<lambda>problems.
     rbind (verify_artifact sha mac env key_var (gf_artifact gf) (gf_signature gf)) (\<lambda>signed.
     rbind (verify_ack sha mac env (gf_artifact gf) (gf_ack gf)) (\<lambda>acked.
       Inr [(''secrets conformance'', found = []),
            (''live credentials present'', getenv env ''ALPACA_API_KEY'' [] \<noteq> [] \<and> getenv env ''ALPACA_SECRET_KEY'' [] \<noteq> []),
            (''live confirmation'', env_flag env ''LIVE_TRADING_CONFIRMED''),
            (''allowlist gate'', allowlist_ok risk),
            (''production risk rails configured (WP11)'', problems = []),
            (''signed release artifact'', signed = 0),
            (''operator acknowledgment of red-lines'', acked = 0),
            (''GO declared by documented review'', env_flag env ''GO_CONDITIONS_MET'')])))))"

definition live_gate ::
  "(string \<Rightarrow> string) \<Rightarrow> (string \<Rightarrow> string \<Rightarrow> string) \<Rightarrow> environ \<Rightarrow> string \<Rightarrow> gate_files \<Rightarrow> int res" where
  "live_gate sha mac env key_var gf =
     (if lower (getenv env ''TRADING_MODE'' ''paper'') \<noteq> ''live'' then Inr 0
      else rbind (gate_checks sha mac env key_var gf) (\<lambda>cs. Inr (if list_all snd cs then 0 else 1)))"


subsection \<open>Signing and acknowledging\<close>

definition hex_text :: "string \<Rightarrow> bool" where
  "hex_text s = list_all (\<lambda>c. c \<in> set ''0123456789abcdef'') s"

lemma hex_char_plain:
  assumes "c \<in> set ''0123456789abcdef''"
  shows "\<not> is_space c \<and> c \<noteq> CHR '':'' \<and> char_code c < 128"
  using assms by (auto simp: is_space_def char_code_def)

lemma hex_plain: "hex_text s \<Longrightarrow> c \<in> set s \<Longrightarrow> \<not> is_space c \<and> c \<noteq> CHR '':'' \<and> char_code c < 128"
  using hex_char_plain by (auto simp: hex_text_def list_all_iff simp del: set_simps)

lemma ascii_hex: "hex_text s \<Longrightarrow> ascii s"
  using hex_plain by (auto simp: ascii_def list_all_iff)

lemma strip_plain: "\<forall>c \<in> set s. \<not> is_space c \<Longrightarrow> strip (s @ [CHR 0x0A]) = s"
proof -
  assume plain: "\<forall>c \<in> set s. \<not> is_space c"
  have keep: "dropWhile is_space xs = xs" if "\<forall>c \<in> set xs. \<not> is_space c" for xs
    using that by (cases xs) simp_all
  have newline: "is_space (CHR 0x0A)" by (simp add: is_space_def char_code_def)
  have "dropWhile is_space (s @ [CHR 0x0A]) = (if s = [] then [] else s @ [CHR 0x0A])"
    using plain newline by (cases s) simp_all
  then show ?thesis using plain newline keep [of "rev s"] by (simp add: strip_def)
qed

lemma split_once_plain: "\<forall>c \<in> set a. c \<noteq> CHR '':'' \<Longrightarrow> split_once (a @ '':'' @ b) = Some (a, b)"
  by (simp add: split_once_def dropWhile_append takeWhile_append)

lemma signing_key_given: "getenv env v [] \<noteq> [] \<Longrightarrow> signing_key env v must = Inr (getenv env v [])"
  by (simp add: signing_key_def Let_def)

lemma compare_hex: "hex_text a \<Longrightarrow> hex_text b \<Longrightarrow> compare_texts a b = Inr (a = b)"
  by (simp add: compare_texts_def ascii_hex)

text \<open>
  A signature verifies for the artifact it was made of: signed with a key, an artifact of any
  content verifies with that key; one with another digest does not; and a signature made with
  the built-in paper key, when no key was set, never verifies without one.
\<close>

theorem release_signature_roundtrip:
  assumes "hex_text (sha bytes)" and "hex_text (mac (getenv env v []) (sha bytes))" and "hex_text (mac PAPER_KEY (sha bytes))"
  shows "case sign_artifact sha mac env v (Some bytes) old of (r, sig) \<Rightarrow>
     r = Inr 0 \<and>
     verify_artifact sha mac env v (Some bytes) sig = (if getenv env v [] = [] then Inl SystemExit else Inr 0) \<and>
     (sha other = sha bytes \<or> verify_artifact sha mac env v (Some other) sig \<noteq> Inr 0)"
proof -
  obtain key where key: "signing_key env v False = Inr key" "hex_text (mac key (sha bytes))"
    "getenv env v [] = [] \<or> key = getenv env v []"
    using assms(2,3) that by (cases "getenv env v [] = []") (simp_all add: signing_key_def Let_def)
  have "strip ((sha bytes @ '':'' @ mac key (sha bytes)) @ [CHR 0x0A]) = sha bytes @ '':'' @ mac key (sha bytes)"
    by (rule strip_plain) (use assms(1) key(2) hex_plain in \<open>auto simp: is_space_def char_code_def\<close>)
  moreover have "split_once (sha bytes @ '':'' @ mac key (sha bytes)) = Some (sha bytes, mac key (sha bytes))"
    by (rule split_once_plain) (use assms(1) hex_plain in auto)
  ultimately show ?thesis
    using key by (auto simp: sign_artifact_def verify_artifact_def signing_key_def compare_hex Let_def)
qed

theorem release_signature_roundtrip_witness:
  "verify_artifact (\<lambda>_. ''ab'') (\<lambda>_ _. ''cd'') [(''K'', ''k'')] ''K'' (Some ''policy'')
     (snd (sign_artifact (\<lambda>_. ''ab'') (\<lambda>_ _. ''cd'') [(''K'', ''k'')] ''K'' (Some ''policy'') None)) = Inr 0"
  using release_signature_roundtrip [of "\<lambda>_. ''ab''" "''policy''" "\<lambda>_ _. ''cd''" "[(''K'', ''k'')]" "''K''" "''policy''" None]
  by (simp add: hex_text_def getenv_def dict_get_def split: prod.splits)

definition with_red_lines :: "string list \<Rightarrow> ack_items \<Rightarrow> ack_items" where
  "with_red_lines lines rec = map (\<lambda>(k, v). (k, if k = ''red_lines_acknowledged'' then ATexts lines else v)) rec"

definition signed_ack :: "(string \<Rightarrow> string \<Rightarrow> string) \<Rightarrow> string \<Rightarrow> ack_items \<Rightarrow> ack_file" where
  "signed_ack mac key rec = Ack (rec @ [(''signature'', AText (mac key (ack_body rec)))])"

lemma ack_body_signed: "ack_body (rec @ [(''signature'', s)]) = ack_body rec"
  by (simp add: ack_body_def)

lemma verify_signed_ack:
  assumes "getenv env ''RELEASE_SIGNING_KEY'' [] = key" and "key \<noteq> []" and "name \<noteq> []" and "role \<noteq> []"
    and "ascii (mac key (ack_body (with_red_lines lines (ack_record name role now (sha bytes)))))"
  shows "verify_ack sha mac env (Some bytes) (signed_ack mac key (with_red_lines lines (ack_record name role now (sha bytes)))) = Inr 0"
proof -
  have maps: "map_of (with_red_lines lines (ack_record name role now (sha bytes)) @ [(''signature'', s)]) ''signature'' = Some s"
    "map_of (with_red_lines lines (ack_record name role now (sha bytes)) @ [(''signature'', s)]) ''policy_sha256'' = Some (AText (sha bytes))"
    "map_of (with_red_lines lines (ack_record name role now (sha bytes)) @ [(''signature'', s)]) ''operator_name'' = Some (AText name)"
    "map_of (with_red_lines lines (ack_record name role now (sha bytes)) @ [(''signature'', s)]) ''operator_role'' = Some (AText role)" for s
    by (simp_all add: with_red_lines_def ack_record_def)
  show ?thesis
    using assms
    by (simp add: signed_ack_def verify_ack_def signing_key_given compare_texts_def ack_body_signed maps del: map_of_append)
qed

lemma record_red_lines: "with_red_lines RED_LINES (ack_record name role now d) = ack_record name role now d"
  by (simp add: with_red_lines_def ack_record_def)

text \<open>
  An acknowledgment verifies against the policy it was made of, and its red lines are never
  compared with the ones of the program: the record the operator wrote passes, and so does
  any record with the same key and any other list of red lines, the empty one included.
\<close>

theorem acknowledged_red_lines_never_compared:
  assumes "getenv env ''RELEASE_SIGNING_KEY'' [] = key" and "key \<noteq> []" and "\<forall>body. ascii (mac key body)"
    and "strip (getenv env ''OPERATOR_NAME'' []) = name" and "name \<noteq> []"
    and "strip (getenv env ''OPERATOR_ROLE'' []) = role" and "role \<noteq> []"
  shows "ack_policy sha mac env now (Some bytes) old =
       (Inr 0, signed_ack mac key (ack_record name role now (sha bytes))) \<and>
     verify_ack sha mac env (Some bytes) (signed_ack mac key (ack_record name role now (sha bytes))) = Inr 0 \<and>
     verify_ack sha mac env (Some bytes) (signed_ack mac key (with_red_lines lines (ack_record name role now (sha bytes)))) = Inr 0"
proof -
  have "ack_policy sha mac env now (Some bytes) old = (Inr 0, signed_ack mac key (ack_record name role now (sha bytes)))"
    using assms by (simp add: ack_policy_def signing_key_given signed_ack_def Let_def)
  moreover have "verify_ack sha mac env (Some bytes) (signed_ack mac key (with_red_lines ls (ack_record name role now (sha bytes)))) = Inr 0" for ls
    using assms by (intro verify_signed_ack) auto
  ultimately show ?thesis using record_red_lines by metis
qed

theorem acknowledged_red_lines_never_compared_witness:
  "verify_ack (\<lambda>_. ''ab'') (\<lambda>_ _. ''cd'') [(''RELEASE_SIGNING_KEY'', ''k''), (''OPERATOR_NAME'', ''J''), (''OPERATOR_ROLE'', ''r'')]
     (Some ''policy'') (signed_ack (\<lambda>_ _. ''cd'') ''k'' (with_red_lines [] (ack_record ''J'' ''r'' ''t'' ''ab''))) = Inr 0"
proof -
  let ?env = "[(''RELEASE_SIGNING_KEY'', ''k''), (''OPERATOR_NAME'', ''J''), (''OPERATOR_ROLE'', ''r'')]"
  have "getenv ?env ''RELEASE_SIGNING_KEY'' [] = ''k''" "strip (getenv ?env ''OPERATOR_NAME'' []) = ''J''"
    "strip (getenv ?env ''OPERATOR_ROLE'' []) = ''r''" "ascii ''cd''"
    by code_simp+
  then show ?thesis
    using acknowledged_red_lines_never_compared [where env = ?env and key = "''k''" and mac = "\<lambda>_ _. ''cd''" and name = "''J''"
        and role = "''r''" and sha = "\<lambda>_. ''ab''" and now = "''t''" and bytes = "''policy''" and lines = "[]"]
    by simp
qed

subsection \<open>What the gate lets through\<close>

lemma live_gate_checks:
  assumes "lower (getenv env ''TRADING_MODE'' ''paper'') = ''live''" and "live_gate sha mac env v gf = Inr 0"
  obtains found risk problems where
    "rbind (gf_tracked gf) offenders = Inr found" "gate_risk (gf_settings gf) = Inr risk"
    "validate_production_risk_settings env (YDict risk) = Inr problems"
    "verify_artifact sha mac env v (gf_artifact gf) (gf_signature gf) = Inr 0"
    "verify_ack sha mac env (gf_artifact gf) (gf_ack gf) = Inr 0"
    "found = []" "problems = []" "allowlist_ok risk"
    "getenv env ''ALPACA_API_KEY'' [] \<noteq> []" "getenv env ''ALPACA_SECRET_KEY'' [] \<noteq> []"
    "env_flag env ''LIVE_TRADING_CONFIRMED''" "env_flag env ''GO_CONDITIONS_MET''"
  using assms that by (auto simp: live_gate_def gate_checks_def elim!: rbind_eq_InrE split: if_splits)

lemma verified_artifact:
  assumes "verify_artifact sha mac env v artifact sig = Inr 0"
  obtains bytes content where "artifact = Some bytes" "sig = Some content"
    "split_once (strip content) = Some (sha bytes, mac (getenv env v []) (sha bytes))" "getenv env v [] \<noteq> []"
  using assms that
  by (auto simp: verify_artifact_def signing_key_def compare_texts_def Let_def elim!: rbind_eq_InrE
      split: option.splits if_splits prod.splits)

lemma verified_ack:
  assumes "verify_ack sha mac env (Some bytes) file = Inr 0"
  obtains rec where "file = Ack rec" "map_of rec ''policy_sha256'' = Some (AText (sha bytes))"
    "ack_text (map_of rec ''signature'') = mac (getenv env ''RELEASE_SIGNING_KEY'' []) (ack_body rec)"
    "ack_truthy (map_of rec ''operator_name'')" "ack_truthy (map_of rec ''operator_role'')"
  using assms that
  by (auto simp: verify_ack_def signing_key_def compare_texts_def Let_def elim!: rbind_eq_InrE
      split: ack_file.splits if_splits)

lemma valid_rails: "validate_production_risk_settings env section = Inr [] \<Longrightarrow> \<exists>rails. resolve_risk_rails env section True = Inr rails"
  by (simp add: validate_production_risk_settings_def split: sum.splits rail_err.splits)

text \<open>
  C29. In live mode the gate opens only on a signed and acknowledged policy: it exits with zero
  only if the policy file carries the digest and the keyed digest of its own content, an
  operator's acknowledgment signed with the release key names that digest, the rails of the
  settings resolve for a live process, and both confirmations and both broker keys are set.
\<close>

theorem live_gate_opens_on_signed_policy:
  assumes "lower (getenv env ''TRADING_MODE'' ''paper'') = ''live''" and "live_gate sha mac env v gf = Inr 0"
  shows "\<exists>bytes content rec risk rails.
     gf_artifact gf = Some bytes \<and> gf_signature gf = Some content \<and> gf_ack gf = Ack rec \<and>
     split_once (strip content) = Some (sha bytes, mac (getenv env v []) (sha bytes)) \<and>
     map_of rec ''policy_sha256'' = Some (AText (sha bytes)) \<and>
     ack_text (map_of rec ''signature'') = mac (getenv env ''RELEASE_SIGNING_KEY'' []) (ack_body rec) \<and>
     gate_risk (gf_settings gf) = Inr risk \<and> resolve_risk_rails env (YDict risk) True = Inr rails \<and>
     env_flag env ''LIVE_TRADING_CONFIRMED'' \<and> env_flag env ''GO_CONDITIONS_MET'' \<and>
     getenv env ''ALPACA_API_KEY'' [] \<noteq> [] \<and> getenv env ''ALPACA_SECRET_KEY'' [] \<noteq> []"
proof -
  obtain found risk problems where g: "gate_risk (gf_settings gf) = Inr risk"
    "validate_production_risk_settings env (YDict risk) = Inr problems" "problems = []"
    "verify_artifact sha mac env v (gf_artifact gf) (gf_signature gf) = Inr 0"
    "verify_ack sha mac env (gf_artifact gf) (gf_ack gf) = Inr 0"
    "getenv env ''ALPACA_API_KEY'' [] \<noteq> []" "getenv env ''ALPACA_SECRET_KEY'' [] \<noteq> []"
    "env_flag env ''LIVE_TRADING_CONFIRMED''" "env_flag env ''GO_CONDITIONS_MET''"
    by (rule live_gate_checks [OF assms])
  obtain bytes content where a: "gf_artifact gf = Some bytes" "gf_signature gf = Some content"
    "split_once (strip content) = Some (sha bytes, mac (getenv env v []) (sha bytes))"
    by (rule verified_artifact [OF g(4)])
  obtain rec where r: "gf_ack gf = Ack rec" "map_of rec ''policy_sha256'' = Some (AText (sha bytes))"
    "ack_text (map_of rec ''signature'') = mac (getenv env ''RELEASE_SIGNING_KEY'' []) (ack_body rec)"
    by (rule verified_ack [OF g(5) [unfolded a(1)]])
  obtain rails where "resolve_risk_rails env (YDict risk) True = Inr rails" using valid_rails g(2,3) by blast
  with g a r show ?thesis by blast
qed


definition gate_environ :: environ where
  "gate_environ = [(''TRADING_MODE'', ''LIVE''), (''ALPACA_API_KEY'', ''k''), (''ALPACA_SECRET_KEY'', ''s''),
     (''LIVE_TRADING_CONFIRMED'', ''true''), (''GO_CONDITIONS_MET'', ''True''), (''RELEASE_SIGNING_KEY'', ''key''),
     (''RISK_MAX_POSITIONS_TOTAL'', '' 5 '')]"

definition gate_sample :: gate_files where
  "gate_sample =
     \<lparr>gf_tracked = Inr [(''a.py'', Some ''x = PKABC''), (''.env'', Some ''PKABCDEFGHIJKLMNOPQRSTUV'')],
      gf_settings = Some (YDict [(''risk'', sample_section)]), gf_artifact = Some ''policy'',
      gf_signature = Some ''ab:cd'', gf_ack = signed_ack (\<lambda>_ _. ''cd'') ''key'' (ack_record ''J'' ''r'' ''t'' ''ab'')\<rparr>"

lemma gate_rails: "resolve_risk_rails gate_environ sample_section True = Inr sample_rails"
proof -
  have "merged gate_environ sample_section n = merged sample_environ sample_section n" for n
    by (simp add: merged_def env_override_def gate_environ_def sample_environ_def ENV_MAP_def dict_get_def)
  then show ?thesis using sample_rails_resolve by (simp add: resolve_risk_rails_def resolve_field_def)
qed

lemma gate_sample_opens: "live_gate (\<lambda>_. ''ab'') (\<lambda>_ _. ''cd'') gate_environ ''RELEASE_SIGNING_KEY'' gate_sample = Inr 0"
proof -
  let ?sha = "\<lambda>_. ''ab''" and ?mac = "\<lambda>_ _. ''cd''"
  have found: "offenders [(''a.py'', Some ''x = PKABC''), (''.env'', Some ''PKABCDEFGHIJKLMNOPQRSTUV'')] = Inr []" by code_simp
  have risk: "gate_risk (Some (YDict [(''risk'', sample_section)])) = Inr r" "YDict r = sample_section" if "sample_section = YDict r" for r
    unfolding that by (simp_all add: gate_risk_def gate_settings_def)
  obtain r where r: "sample_section = YDict r" by (simp add: sample_section_def)
  have rails: "validate_production_risk_settings gate_environ (YDict r) = Inr []"
    using gate_rails r by (simp add: validate_production_risk_settings_def)
  have allow: "allowlist_ok r" using r [symmetric] by (auto simp: sample_section_def allowlist_ok_def dict_get_def)
  have env: "getenv gate_environ ''ALPACA_API_KEY'' [] = ''k''" "getenv gate_environ ''ALPACA_SECRET_KEY'' [] = ''s''"
    "env_flag gate_environ ''LIVE_TRADING_CONFIRMED''" "env_flag gate_environ ''GO_CONDITIONS_MET''"
    "lower (getenv gate_environ ''TRADING_MODE'' ''paper'') = ''live''" "getenv gate_environ ''RELEASE_SIGNING_KEY'' [] = ''key''"
    "ascii ''cd''" "split_once (strip ''ab:cd'') = Some (''ab'', ''cd'')"
    by code_simp+
  have "verify_artifact ?sha ?mac gate_environ ''RELEASE_SIGNING_KEY'' (Some ''policy'') (Some ''ab:cd'') = Inr 0"
    using env by (simp add: verify_artifact_def signing_key_given compare_texts_def)
  moreover have "verify_ack ?sha ?mac gate_environ (Some ''policy'') (signed_ack ?mac ''key'' (ack_record ''J'' ''r'' ''t'' ''ab'')) = Inr 0"
    using verify_signed_ack [where env = gate_environ and key = "''key''" and name = "''J''" and role = "''r''" and mac = ?mac
        and lines = RED_LINES and now = "''t''" and sha = ?sha and bytes = "''policy''"] env
    by (simp add: record_red_lines)
  ultimately show ?thesis
    using env rails allow risk [OF r] found by (simp add: live_gate_def gate_checks_def gate_sample_def)
qed

theorem live_gate_opens_on_signed_policy_witness:
  "\<exists>rec. gf_ack gate_sample = Ack rec \<and> map_of rec ''policy_sha256'' = Some (AText ''ab'')"
proof -
  have "lower (getenv gate_environ ''TRADING_MODE'' ''paper'') = ''live''" by code_simp
  from live_gate_opens_on_signed_policy [OF this gate_sample_opens] show ?thesis by auto
qed

subsection \<open>Live readiness\<close>

record 's readiness =
  rd_broker :: "'s broker option"
  rd_sources :: "nat option"
  rd_kill_switch :: "kill_switch option"
  rd_preflight :: "preflight_service option"
  rd_workflow :: "operator_workflow option"
  rd_live :: bool
  rd_allowed_markets :: "uuid list option"
  rd_require_allowlist :: bool
  rd_recon :: "bool res option"

record live_verdict =
  lv_ready :: bool
  lv_live :: bool
  lv_checks :: "(string \<times> bool) list"
  lv_reasons :: "fstring list"

text \<open>One check: its name, its outcome and the reasons it adds.  The text of an exception is
  left out of a reason.\<close>

type_synonym readiness_item = "string \<times> bool \<times> fstring list"

definition broker_item :: "'s readiness \<Rightarrow> env \<Rightarrow> 's \<Rightarrow> readiness_item \<times> 's" where
  "broker_item rd en s =
     (case rd_broker rd of
        None \<Rightarrow> ((''broker_connected'', False, [[L ''broker not configured'']]), s)
      | Some b \<Rightarrow>
          (case b_balance b en s of
             (Inl e, s1) \<Rightarrow> ((''broker_connected'', False, [[L ''broker unreachable: '']]), s1)
           | (Inr balance, s1) \<Rightarrow>
               ((''broker_connected'', 0 < balance, if 0 < balance then [] else [[L ''broker balance unavailable or non-positive'']]), s1)))"

definition sources_item :: "'s readiness \<Rightarrow> readiness_item" where
  "sources_item rd =
     (case rd_sources rd of
        None \<Rightarrow> (''data_feeds'', False, [[L ''market data not configured'']])
      | Some n \<Rightarrow> (''data_feeds'', 0 < n, if 0 < n then [] else [[L ''no market data sources configured'']]))"

definition switch_item :: "'s readiness \<Rightarrow> readiness_item" where
  "switch_item rd =
     (case rd_kill_switch rd of
        None \<Rightarrow> (''kill_switch_closed'', True, [])
      | Some k \<Rightarrow>
          (''kill_switch_closed'', allowed (ks_can_trade k),
           if allowed (ks_can_trade k) then [] else [L ''kill switch engaged: '' # v_reason (ks_can_trade k)]))"

definition preflight_item_of :: "environ \<Rightarrow> bool option \<Rightarrow> 's readiness \<Rightarrow> readiness_item" where
  "preflight_item_of env chain_ok rd =
     (case rd_preflight rd of
        None \<Rightarrow> (''live_preflight'', True, [])
      | Some pf \<Rightarrow> (let v = preflight_check env chain_ok True pf in (''live_preflight'', pv_passed v, pv_failures v)))"

definition session_item :: "'s readiness \<Rightarrow> readiness_item" where
  "session_item rd =
     (case rd_workflow rd of
        None \<Rightarrow> (''operator_session'', True, [])
      | Some w \<Rightarrow>
          (''operator_session'', ow_session_id w \<noteq> None,
           if ow_session_id w \<noteq> None then [] else [[L ''no operator session started (begin the workflow at start)'']]))"

definition allowlist_item :: "'s readiness \<Rightarrow> readiness_item" where
  "allowlist_item rd =
     (let ok = (\<not> rd_require_allowlist rd \<or> (case rd_allowed_markets rd of None \<Rightarrow> False | Some ms \<Rightarrow> ms \<noteq> [])) in
      (''allowlist_configured'', ok, if ok then [] else [[L ''require_allowlist is set but allowed_markets is empty'']]))"

definition reconcile_item :: "'s readiness \<Rightarrow> readiness_item" where
  "reconcile_item rd =
     (case rd_recon rd of
        None \<Rightarrow> (''broker_reconcile_clean'', True, [])
      | Some (Inl e) \<Rightarrow> (''broker_reconcile_clean'', False, [[L ''reconciliation state unavailable: '']])
      | Some (Inr ok) \<Rightarrow>
          (''broker_reconcile_clean'', ok, if ok then [] else [[L ''broker-state reconciliation not clean; order acceptance blocked'']]))"

definition readiness_check :: "environ \<Rightarrow> bool option \<Rightarrow> 's readiness \<Rightarrow> env \<Rightarrow> 's \<Rightarrow> live_verdict \<times> 's" where
  "readiness_check env chain_ok rd en s =
     (case broker_item rd en s of (b, s1) \<Rightarrow>
        let items = [b, sources_item rd, switch_item rd, preflight_item_of env chain_ok rd, session_item rd,
                     allowlist_item rd, reconcile_item rd];
            reasons = concat (map (\<lambda>(n, ok, why). why) items) in
        (\<lparr>lv_ready = (length reasons = 0), lv_live = rd_live rd, lv_checks = map (\<lambda>(n, ok, why). (n, ok)) items,
          lv_reasons = reasons\<rparr>, s1))"

definition item_fair :: "readiness_item \<Rightarrow> bool" where
  "item_fair i = (case i of (n, ok, why) \<Rightarrow> ok = (why = []))"

lemma preflight_failures: "pv_passed v \<longleftrightarrow> pv_failures v = []" if "v = preflight_check env chain_ok live pf"
  using that by (simp add: preflight_check_def Let_def)

lemma items_fair:
  "item_fair (fst (broker_item rd en s))" "item_fair (sources_item rd)" "item_fair (switch_item rd)"
  "item_fair (preflight_item_of env chain_ok rd)" "item_fair (session_item rd)" "item_fair (allowlist_item rd)"
  "item_fair (reconcile_item rd)"
  by (simp_all add: item_fair_def broker_item_def sources_item_def switch_item_def preflight_item_of_def session_item_def
      allowlist_item_def reconcile_item_def Let_def preflight_failures [OF refl] split: option.split prod.split sum.split)

definition passes :: "readiness_item \<Rightarrow> bool" where
  "passes i = fst (snd i)"

lemma fair_items: "list_all item_fair is \<Longrightarrow> concat (map (\<lambda>(n, ok, why). why) is) = [] \<longleftrightarrow> list_all passes is"
  by (induction "is") (auto simp: item_fair_def passes_def)

lemma items_pass:
  "passes (fst (broker_item rd en s)) \<longleftrightarrow>
     (\<exists>b balance. rd_broker rd = Some b \<and> fst (b_balance b en s) = Inr balance \<and> 0 < balance)"
  "passes (sources_item rd) \<longleftrightarrow> (\<exists>n. rd_sources rd = Some n \<and> 0 < n)"
  "passes (switch_item rd) \<longleftrightarrow> pred_option (\<lambda>k. allowed (ks_can_trade k)) (rd_kill_switch rd)"
  "passes (preflight_item_of env chain_ok rd) \<longleftrightarrow>
     pred_option (\<lambda>pf. pv_passed (preflight_check env chain_ok True pf)) (rd_preflight rd)"
  "passes (session_item rd) \<longleftrightarrow> pred_option (\<lambda>w. ow_session_id w \<noteq> None) (rd_workflow rd)"
  "passes (allowlist_item rd) \<longleftrightarrow> \<not> rd_require_allowlist rd \<or> rd_allowed_markets rd \<notin> {None, Some []}"
  "passes (reconcile_item rd) \<longleftrightarrow> rd_recon rd \<in> {None, Some (Inr True)}"
  by (auto simp: passes_def broker_item_def sources_item_def switch_item_def preflight_item_of_def session_item_def
      allowlist_item_def reconcile_item_def Let_def split: option.split prod.split sum.split)

text \<open>
  The readiness verdict is its checks: it is ready exactly when every check holds, it asks the
  broker for its balance and nothing else, and a ready pilot has a positive balance, a market
  source, an allowing kill switch, a live preflight that passes, a bound session, an allowlist
  where one is required and a clean reconciliation, for each of these that is wired.
\<close>

theorem readiness_is_its_checks:
  "case readiness_check env chain_ok rd en s of (v, s') \<Rightarrow>
     (lv_ready v \<longleftrightarrow> list_all snd (lv_checks v)) \<and>
     s' = (case rd_broker rd of None \<Rightarrow> s | Some b \<Rightarrow> snd (b_balance b en s)) \<and>
     (if lv_ready v
      then (\<exists>b balance. rd_broker rd = Some b \<and> fst (b_balance b en s) = Inr balance \<and> 0 < balance) \<and>
           (\<exists>n. rd_sources rd = Some n \<and> 0 < n) \<and>
           pred_option (\<lambda>k. allowed (ks_can_trade k)) (rd_kill_switch rd) \<and>
           pred_option (\<lambda>pf. pv_passed (preflight_check env chain_ok True pf)) (rd_preflight rd) \<and>
           pred_option (\<lambda>w. ow_session_id w \<noteq> None) (rd_workflow rd) \<and>
           (\<not> rd_require_allowlist rd \<or> rd_allowed_markets rd \<notin> {None, Some []}) \<and>
           rd_recon rd \<in> {None, Some (Inr True)}
      else True)"
proof -
  let ?items = "[fst (broker_item rd en s), sources_item rd, switch_item rd, preflight_item_of env chain_ok rd, session_item rd,
      allowlist_item rd, reconcile_item rd]"
  have run: "readiness_check env chain_ok rd en s =
      (\<lparr>lv_ready = (concat (map (\<lambda>(n, ok, why). why) ?items) = []), lv_live = rd_live rd,
        lv_checks = map (\<lambda>(n, ok, why). (n, ok)) ?items, lv_reasons = concat (map (\<lambda>(n, ok, why). why) ?items)\<rparr>,
       snd (broker_item rd en s))"
    unfolding readiness_check_def Let_def by (cases "broker_item rd en s") (simp only: fst_conv snd_conv length_0_conv prod.case)
  have "list_all item_fair ?items" using items_fair [where rd = rd] by (simp only: list.pred_inject simp_thms)
  note fair = fair_items [OF this]
  have snds: "list_all snd (map (\<lambda>(n, ok, why). (n, ok)) is) \<longleftrightarrow> list_all passes is" for "is" :: "readiness_item list"
    by (induction "is") (auto simp: passes_def)
  have "snd (broker_item rd en s) = (case rd_broker rd of None \<Rightarrow> s | Some b \<Rightarrow> snd (b_balance b en s))"
    by (simp add: broker_item_def split: option.split prod.split sum.split)
  note state = this
  show ?thesis
    unfolding run prod.case live_verdict.simps snds fair state list.pred_inject items_pass by simp
qed

end
