(* ===== verification/Cli.thy ===== *)
theory Cli
  imports RiskConfig Workflow Reconciliation Observability Governance "HOL-Library.Sublist"
begin

text \<open>
  \<open>interfaces/cli/main.py\<close>: the commands with a decision or an effect of their own.  Every command builds
  its own orchestrator, so \<open>risk\<close> acts on a kill switch of this process and never on the
  daemon's.  A command's result is its exit status; printing and the parsing of the arguments are left out.
\<close>

subsection \<open>The risk commands\<close>

definition cli_risk_status :: "broker_recon_service option \<Rightarrow> risk_service \<Rightarrow> (bool \<times> bool) \<times> risk_service" where
  "cli_risk_status recon rs =
     (let (verdict, rs1) = rs_can_trade [] None rs;
          acc = (case recon of None \<Rightarrow> False | Some r \<Rightarrow> can_accept_orders r) in
      ((\<not> allowed verdict, acc), rs1))"

definition cli_risk_check :: "risk_service \<Rightarrow> nat \<times> risk_service" where
  "cli_risk_check rs =
     (let (verdict, rs1) = rs_can_trade [] None rs in (if allowed verdict then 0 else 1, rs1))"

definition cli_risk_reset :: "risk_service \<Rightarrow> nat \<times> risk_service" where
  "cli_risk_reset rs = (0, rs\<lparr>rs_kill_switch := ks_reset (rs_kill_switch rs)\<rparr>)"

definition cli_risk_kill :: "risk_service \<Rightarrow> nat \<times> risk_service" where
  "cli_risk_kill rs = (0, rs\<lparr>rs_kill_switch := ks_record_failure (rs_kill_switch rs)\<rparr>)"

text \<open>\<open>risk reconcile\<close> hands over no local position and no local order.\<close>

definition cli_reconcile_status :: "broker_recon_service option \<Rightarrow> nat" where
  "cli_reconcile_status recon =
     (case recon of None \<Rightarrow> 1 | Some r \<Rightarrow> if can_accept_orders r then 0 else 1)"

definition cli_reconcile ::
  "'s broker \<Rightarrow> env \<Rightarrow> datetime \<Rightarrow> datetime \<Rightarrow> string list option \<Rightarrow> broker_recon_service option \<Rightarrow> 's \<Rightarrow>
   nat res \<times> broker_recon_service option \<times> 's" where
  "cli_reconcile b env now now' pending recon x =
     (case recon of
        None \<Rightarrow> (Inr 1, None, x)
      | Some r \<Rightarrow>
          (case reconcile b env now now' [] [] (case pending of None \<Rightarrow> [] | Some is \<Rightarrow> is) (r, x) of
             (Inl e, r1, x1) \<Rightarrow> (Inl e, Some r1, x1)
           | (Inr _, r1, x1) \<Rightarrow> (Inr (if can_accept_orders r1 then 0 else 1), Some r1, x1)))"

text \<open>
  C40. The command line's emergency stop does not stop: on the risk service any process builds, with
  whatever rails, \<open>risk kill\<close> reports the switch engaged, and up to four of them in a row leave
  \<open>risk check\<close> passing and an authorisation gate that still lets orders through.
\<close>

theorem cli_kill_leaves_trading_allowed:
  assumes "n < 5" and "0 < rr_max_positions_total rails"
    and "case persistent of None \<Rightarrow> True | Some p \<Rightarrow> pk_can_trade p"
  shows "let rs = armed_risk_service market_uuid today persistent metrics audit resolver rails;
             rs' = ((\<lambda>r. snd (cli_risk_kill r)) ^^ n) rs in
         fst (cli_risk_kill rs) = 0 \<and> fst (cli_risk_check rs') = 0 \<and>
         \<not> fst (fst (cli_risk_status recon rs')) \<and> ks_failures (rs_kill_switch rs') = int n"
proof -
  let ?rs = "armed_risk_service market_uuid today persistent metrics audit resolver rails"
  have engaged: "((\<lambda>r. snd (cli_risk_kill r)) ^^ m) ?rs =
      ?rs\<lparr>rs_kill_switch := (new_kill_switch today)\<lparr>ks_failures := int m\<rparr>\<rparr>" if "m \<le> n" for m
    using that
  proof (induction m)
    case 0
    show ?case by (simp add: armed_risk_service_def new_risk_service_def new_kill_switch_def)
  next
    case (Suc m)
    then show ?case using assms(1) by (simp add: cli_risk_kill_def ks_record_failure_def new_kill_switch_def Let_def)
  qed
  have open_gate: "allowed (fst (rs_can_trade [] None (?rs\<lparr>rs_kill_switch := (new_kill_switch today)\<lparr>ks_failures := int n\<rparr>\<rparr>)))"
    using assms by (auto simp: rs_can_trade_def unknown_user_def resolve_user_def ks_can_trade_def new_kill_switch_def
        armed_risk_service_def new_risk_service_def Let_def split: option.splits)
  show ?thesis
    using open_gate unfolding Let_def engaged [OF order_refl]
    by (auto simp: cli_risk_kill_def cli_risk_check_def cli_risk_status_def split: prod.splits)
qed

theorem cli_kill_leaves_trading_allowed_witness:
  "fst (cli_risk_check (snd (cli_risk_kill
     (armed_risk_service id 0 (Some (new_persistent_kill_switch 5 None)) None None None sample_rails)))) = 0"
proof -
  have "case Some (new_persistent_kill_switch 5 None) of None \<Rightarrow> True | Some p \<Rightarrow> pk_can_trade p"
    by (simp add: pk_can_trade_def new_persistent_kill_switch_def)
  moreover have "0 < rr_max_positions_total sample_rails" by (simp add: sample_rails_def)
  ultimately show ?thesis
    using cli_kill_leaves_trading_allowed [of 1 sample_rails "Some (new_persistent_kill_switch 5 None)" id 0 None None None]
    by (simp add: Let_def)
qed

text \<open>
  The reconciliation of the command line cannot pass while a position or an order is open: it compares the
  broker with an empty book, so any position or open order the broker reports closes the gate and the exit
  status is 1.
\<close>

theorem cli_reconcile_needs_flat_book:
  assumes "b_positions b env x = (Inr ps, x1)" and "b_open_orders b env x1 = (Inr os, x2)"
  shows "\<exists>r'. cli_reconcile b env now now' pending (Some r) x =
     (Inr (if ps = [] \<and> os = [] \<and> fresh_enough now (bs_reconciled_at r) \<and>
              (case pending of None \<Rightarrow> True | Some is \<Rightarrow> is = []) then 0 else 1), Some r', x2)"
proof -
  let ?is = "case pending of None \<Rightarrow> [] | Some is \<Rightarrow> is"
  have fetch: "fetch_broker_state b env x = (Inr (map raw_of_position ps, map raw_of_order os), x2)"
    using assms by (simp add: fetch_broker_state_def)
  have clean: "drift (map raw_of_position ps) (map raw_of_order os) [] [] ?is now (bs_reconciled_at r) = [] \<longleftrightarrow>
      ps = [] \<and> os = [] \<and> fresh_enough now (bs_reconciled_at r) \<and> (case pending of None \<Rightarrow> True | Some is \<Rightarrow> is = [])"
    unfolding drift_empty by (cases pending) (auto simp: books_agree_def)
  show ?thesis
    unfolding clean [symmetric]
    by (auto simp: cli_reconcile_def reconcile_def fetch can_accept_orders_def Let_def)
qed

theorem cli_reconcile_needs_flat_book_witness:
  "\<exists>r'. cli_reconcile counting_venue sample_env 0 0 None (Some (new_broker_recon_service None None None)) 0 =
     (Inr 0, Some r', 0)"
proof -
  have "b_positions counting_venue sample_env 0 = (Inr [], 0)" "b_open_orders counting_venue sample_env 0 = (Inr [], 0)"
    by (simp_all add: counting_venue_def)
  from cli_reconcile_needs_flat_book [OF this, of 0 0 None "new_broker_recon_service None None None"]
  show ?thesis by (simp add: fresh_enough_def new_broker_recon_service_def)
qed

subsection \<open>Querying the audit trail\<close>

text \<open>\<open>token.partition("=")\<close>: the text before the first \<open>=\<close>, whether there is one, and the text after it.\<close>

definition partition_eq :: "string \<Rightarrow> string \<times> bool \<times> string" where
  "partition_eq s =
     (takeWhile (\<lambda>c. c \<noteq> CHR ''='') s, CHR ''='' \<in> set s, tl (dropWhile (\<lambda>c. c \<noteq> CHR ''='') s))"

definition AUDIT_FILTER_FIELDS :: "string list" where
  "AUDIT_FILTER_FIELDS = [''action'', ''actor'', ''resource'', ''detail'']"

definition add_filter :: "(string \<times> string) list \<Rightarrow> string \<Rightarrow> (string \<times> string) list" where
  "add_filter filters token =
     (case partition_eq token of
        (key0, sep, v) \<Rightarrow>
          let key = lower (strip key0) in
          if sep \<and> key \<in> set AUDIT_FILTER_FIELDS \<and> v \<noteq> [] then AList.update key (strip v) filters else filters)"

definition audit_filters :: "string option \<Rightarrow> (string \<times> string) list" where
  "audit_filters arg = foldl add_filter [] (split_comma (case arg of None \<Rightarrow> [] | Some t \<Rightarrow> t))"

definition entry_field :: "string \<Rightarrow> chain_entry \<Rightarrow> string" where
  "entry_field f e =
     (if f = ''action'' then ce_action e else if f = ''actor'' then ce_actor e
      else if f = ''resource'' then ce_resource e else if f = ''detail'' then ce_detail e else [])"

definition matches_filters :: "(string \<times> string) list \<Rightarrow> chain_entry \<Rightarrow> bool" where
  "matches_filters filters e = list_all (\<lambda>(f, needle). sublist needle (entry_field f e)) filters"

definition audit_query :: "nat \<Rightarrow> string option \<Rightarrow> chain_entry list \<Rightarrow> chain_entry list" where
  "audit_query limit arg rows = filter (matches_filters (audit_filters arg)) (sqlite_entries limit 0 rows)"

lemma take_rev_append: "take n (rev (xs @ ys)) = take n (rev ys) @ take (n - length ys) (rev xs)"
  by simp

text \<open>
  A query sees only the newest entries: the limit is applied before the filter, so a query for a crash
  recovery of the trail finds nothing once \<open>limit\<close> entries of anything else came after it, however
  many matching entries the trail holds.
\<close>

theorem audit_query_misses_older_entries:
  assumes "limit \<le> length later" and "\<not> list_ex (matches_filters (audit_filters arg)) later"
  shows "audit_query limit arg (earlier @ later) = []"
  using assms unfolding audit_query_def sqlite_entries_def drop_0 take_rev_append
  by (auto simp: filter_empty_conv list_ex_iff dest: in_set_takeD)

text \<open>
  A misspelt filter is no filter: a token whose key is none of the four fields is dropped, and a query
  with nothing else lists every entry it read.
\<close>

theorem misspelt_filter_lists_everything:
  assumes "partition_eq token = (key, sep, v)" and "lower (strip key) \<notin> set AUDIT_FILTER_FIELDS"
    and "split_comma token = [token]"
  shows "audit_query limit (Some token) rows = take limit (rev rows)"
  using assms by (simp add: audit_query_def audit_filters_def add_filter_def Let_def matches_filters_def
      sqlite_entries_def split: prod.splits)

definition audit_row :: "string \<Rightarrow> string \<Rightarrow> chain_entry" where
  "audit_row i action = prepare_entry plain_digest ((audit_of i)\<lparr>ar_action := action\<rparr>) None"

lemma crash_filter: "audit_filters (Some ''Action = crash'') = [(''action'', ''crash'')]"
  by code_simp

theorem audit_query_misses_older_entries_witness:
  "audit_query 1 (Some ''Action = crash'') ([audit_row ''1'' ''crash.recovery''] @ [audit_row ''2'' ''signal'']) = [] \<and>
   matches_filters (audit_filters (Some ''Action = crash'')) (audit_row ''1'' ''crash.recovery'')"
proof -
  have row: "matches_filters (audit_filters (Some ''Action = crash'')) (audit_row i a) = sublist ''crash'' a" for i a
    by (simp add: crash_filter matches_filters_def entry_field_def audit_row_def prepare_entry_def Let_def)
  have signal: "\<not> sublist ''crash'' ''signal''" by code_simp
  have "\<not> list_ex (matches_filters (audit_filters (Some ''Action = crash''))) [audit_row ''2'' ''signal'']"
    using signal by (simp add: row)
  from audit_query_misses_older_entries [OF _ this, of 1 "[audit_row ''1'' ''crash.recovery'']"]
  show ?thesis by (simp add: row)
qed

theorem misspelt_filter_lists_everything_witness:
  "audit_query 2 (Some ''actoin=x'') [audit_row ''1'' ''a'', audit_row ''2'' ''b''] = take 2 (rev [audit_row ''1'' ''a'', audit_row ''2'' ''b''])"
proof -
  have "partition_eq ''actoin=x'' = (''actoin'', True, ''x'')" by code_simp
  moreover have "lower (strip ''actoin'') \<notin> set AUDIT_FILTER_FIELDS" by code_simp
  moreover have "split_comma ''actoin=x'' = [''actoin=x'']" by code_simp
  ultimately show ?thesis by (rule misspelt_filter_lists_everything)
qed

subsection \<open>Further commands\<close>

text \<open>\<open>backtest\<close>: a source of real data has a symbol of its own.\<close>

definition backtest_symbol :: "string \<Rightarrow> string \<Rightarrow> string" where
  "backtest_symbol source symbol =
     (if symbol = [] \<and> source \<noteq> ''synthetic''
      then (if source = ''binance'' then ''BTCUSDT'' else if source = ''alpaca'' then ''BTC/USD'' else symbol)
      else symbol)"

text \<open>\<open>metrics watch\<close>: the market and price of every cycle it runs; \<open>latest n m\<close> is the close of market \<open>m\<close>
  when cycle \<open>n\<close> reaches it.\<close>

definition watch_price :: "float64 option \<Rightarrow> float64" where
  "watch_price close = (case close of None \<Rightarrow> Fin 100 | Some c \<Rightarrow> if c = 0 then Fin 100 else c)"

definition watch_cycles :: "int \<Rightarrow> uuid list option \<Rightarrow> (nat \<Rightarrow> uuid \<Rightarrow> float64 option) option \<Rightarrow> (uuid \<times> float64) list" where
  "watch_cycles cycles markets latest =
     concat (map (\<lambda>n. map (\<lambda>m. (m, watch_price (case latest of None \<Rightarrow> None | Some f \<Rightarrow> f n m)))
                    (case markets of None \<Rightarrow> [] | Some ms \<Rightarrow> ms)) [0..<nat (max 1 cycles)])"

definition cli_validate :: "unit res \<Rightarrow> nat res" where
  "cli_validate checked = (case checked of Inr _ \<Rightarrow> Inr 0 | Inl e \<Rightarrow> if e = ConfigError then Inr 1 else Inl e)"

definition cli_audit_verify :: "bool res \<Rightarrow> nat" where
  "cli_audit_verify checked = (case checked of Inl e \<Rightarrow> 1 | Inr ok \<Rightarrow> if ok then 0 else 1)"

lemma watch_cycles_length:
  "length (watch_cycles cycles (Some ms) latest) = nat (max 1 cycles) * length ms"
  by (simp add: watch_cycles_def length_concat comp_def sum_list_triv)

lemma watch_prices_truthy: "p \<in> snd ` set (watch_cycles cycles ms latest) \<Longrightarrow> p \<noteq> 0"
  by (auto simp: watch_cycles_def watch_price_def zero_eq_Fin split: option.splits if_splits)

subsection \<open>The pilot rehearsal\<close>

text \<open>
  What the rehearsal keeps of a step: the outcome of a gate, or the skipped promotion, which is \<open>None\<close>
  with \<open>--json\<close> and a line of text without it.
\<close>

datatype rehearsed = Gate outcome | SkipNone | SkipText

definition rehearse_keywords :: "step_context \<Rightarrow> step_context" where
  "rehearse_keywords sx = sx\<lparr>sx_session_id := None, sx_live_mode := None, sx_strategy := None, sx_name := None, sx_dry_run := True\<rparr>"

definition save_workflow :: "operator_workflow \<Rightarrow> operator_session \<Rightarrow> operator_session" where
  "save_workflow w os = os\<lparr>os_workflow := w, os_saved := map_option (\<lambda>_. Some w) (os_saved os)\<rparr>"

text \<open>One turn of the loop: the next state, or how the loop ends.\<close>

definition rehearse_step ::
  "bool \<Rightarrow> (operator_step \<Rightarrow> step_context) \<Rightarrow> operator_step \<Rightarrow> operator_session \<Rightarrow>
   (rehearsed \<times> bool) res \<times> operator_session" where
  "rehearse_step json sx s os =
     (if s = STRATEGY_PROMOTION
      then (case advance (sx_now (sx s)) s ''pilot-dry-run'' ''skipped (operator decision)'' (os_workflow os) of
              (Inl e, w) \<Rightarrow> (Inl e, os\<lparr>os_workflow := w\<rparr>)
            | (Inr _, w) \<Rightarrow> (Inr (if json then SkipNone else SkipText, True), save_workflow w os))
      else (case perform s ''pilot-dry-run'' (rehearse_keywords (sx s)) os of
              (Inl e, os1) \<Rightarrow> (Inl e, os1)
            | (Inr oc, os1) \<Rightarrow> (Inr (Gate oc, oc_ok oc), os1)))"

definition steps_left :: "operator_session \<Rightarrow> nat" where
  "steps_left os = (case ow_current (os_workflow os) of None \<Rightarrow> 10 | Some s \<Rightarrow> 9 - step_index s)"

lemma advance_current: "advance now s actor msg w = (Inr (), w') \<Longrightarrow> ow_current w' = Some s"
  by (auto simp: advance_def Let_def split: if_splits)

lemma gate_keeps_current:
  "execute_gate s sx os = (q, os1) \<Longrightarrow> ow_current (os_workflow os1) = ow_current (os_workflow os) \<and>
     ow_status (os_workflow os1) = ow_status (os_workflow os)"
  by (cases s) (auto simp: execute_gate_def gate_start_def gate_strategy_promotion_def gate_shutdown_def Let_def
      bind_session_def split: option.splits prod.splits sum.splits if_splits)

lemma perform_current:
  assumes "perform s actor sx os = (Inr oc, os1)" and "oc_ok oc"
  shows "ow_current (os_workflow os1) = Some s"
  using assms by (auto simp: perform_def split: prod.splits sum.splits if_splits dest: advance_current)

lemma rehearse_current:
  assumes "rehearse_step json sx s os = (Inr (r, True), os1)"
  shows "ow_current (os_workflow os1) = Some s"
  using assms by (auto simp: rehearse_step_def save_workflow_def split: if_splits prod.splits sum.splits
      dest: advance_current intro: perform_current)

lemma next_steps_left:
  assumes "next_step (os_workflow os) = Some s" and "ow_current (os_workflow os1) = Some s"
  shows "steps_left os1 < steps_left os"
proof (cases "ow_current (os_workflow os)")
  case None
  then show ?thesis using assms by (simp add: next_step_def steps_left_def step_index_eval)
next
  case (Some t)
  then show ?thesis
    using next_step_index [OF Some assms(1)] assms(2) nth_step_index(2) [of s]
    by (simp add: steps_left_def OPERATOR_STEPS_def)
qed

function rehearse ::
  "bool \<Rightarrow> (operator_step \<Rightarrow> step_context) \<Rightarrow> rehearsed list \<Rightarrow> operator_session \<Rightarrow>
   (bool \<times> rehearsed list) res \<times> operator_session" where
  "rehearse json sx outs os =
     (case next_step (os_workflow os) of
        None \<Rightarrow> (Inr (False, outs), os)
      | Some s \<Rightarrow>
          (case rehearse_step json sx s os of
             (Inl e, os1) \<Rightarrow> (Inl e, os1)
           | (Inr (r, continue), os1) \<Rightarrow>
               if continue then rehearse json sx (outs @ [r]) os1 else (Inr (True, outs @ [r]), os1)))"
  by pat_completeness auto
termination
  by (relation "measure (\<lambda>(_, _, _, os). steps_left os)") (auto intro: next_steps_left rehearse_current [OF sym])

declare rehearse.simps [simp del]

text \<open>\<open>all(o is None or o.ok for o in outcomes)\<close>: a line of text has no \<open>ok\<close>.\<close>

fun all_ok :: "rehearsed list \<Rightarrow> bool res" where
  "all_ok [] = Inr True"
| "all_ok (SkipNone # rs) = all_ok rs"
| "all_ok (SkipText # rs) = Inl (OtherException ''AttributeError'')"
| "all_ok (Gate oc # rs) = (if oc_ok oc then all_ok rs else Inr False)"

definition pilot_dry_run ::
  "bool \<Rightarrow> (operator_step \<Rightarrow> step_context) \<Rightarrow> operator_session option \<Rightarrow> nat res \<times> operator_session option" where
  "pilot_dry_run json sx session =
     (case session of
        None \<Rightarrow> (Inr 1, None)
      | Some os \<Rightarrow>
          (case rehearse json sx [] os of
             (Inl e, os1) \<Rightarrow> (Inl e, Some os1)
           | (Inr (blocked, outs), os1) \<Rightarrow>
               (if blocked then Inr 1 else rbind (all_ok outs) (\<lambda>ok. Inr (if ok then 0 else 1)), Some os1)))"

definition pilot_readiness :: "live_verdict option \<Rightarrow> nat" where
  "pilot_readiness verdict = (case verdict of None \<Rightarrow> 1 | Some v \<Rightarrow> if lv_ready v then 0 else 1)"

text \<open>What a turn of the loop keeps: the order of the steps, that a reported session is completed, and that
  the repository holds the workflow.\<close>

definition rehearsing :: "operator_session \<Rightarrow> bool" where
  "rehearsing os = (in_order (os_workflow os) \<and>
     (ow_current (os_workflow os) = Some SESSION_REPORT \<longrightarrow> ow_status (os_workflow os) = Completed))"

lemma advance_rehearsing:
  assumes "advance now s actor msg w = (Inr (), w')" and "in_order w"
  shows "rehearsing (save_workflow w' os)"
  using assms(1) in_order_advanced [OF assms(2,1)]
  by (auto simp: rehearsing_def save_workflow_def advance_def Let_def split: if_splits)

lemma perform_saves:
  assumes "perform s actor sx os = (Inr oc, os1)" and "oc_ok oc"
  obtains os2 w msg where "execute_gate s sx os = (Inr oc, os2)" "advance (sx_now sx) s actor msg (os_workflow os2) = (Inr (), w)"
    "os1 = save_workflow w os2"
proof -
  obtain q os2 where gate: "execute_gate s sx os = (q, os2)" by (cases "execute_gate s sx os")
  have q: "q = Inr oc" using assms gate by (auto simp: perform_def split: sum.splits prod.splits if_splits)
  obtain a w where adv: "advance (sx_now sx) s actor (oc_result oc) (os_workflow os2) = (a, w)"
    by (cases "advance (sx_now sx) s actor (oc_result oc) (os_workflow os2)")
  have "a = Inr ()" "os1 = save_workflow w os2"
    using assms gate adv by (simp_all add: q perform_def save_workflow_def split: sum.splits)
  then show thesis using that gate adv q by simp
qed

lemma gate_saved: "execute_gate s sx os = (q, os1) \<Longrightarrow> os_saved os1 = os_saved os"
  by (cases s) (auto simp: execute_gate_def gate_start_def gate_strategy_promotion_def gate_shutdown_def Let_def
      split: option.splits prod.splits sum.splits if_splits)

lemma rehearse_step_keeps:
  assumes "rehearse_step json sx s os = (Inr (r, True), os1)" and "rehearsing os"
  shows "rehearsing os1 \<and> os_saved os1 = map_option (\<lambda>_. Some (os_workflow os1)) (os_saved os)"
proof (cases "s = STRATEGY_PROMOTION")
  case True
  then show ?thesis
    using assms by (auto simp: rehearse_step_def save_workflow_def rehearsing_def
        split: prod.splits sum.splits dest!: advance_rehearsing [where os = os])
next
  case False
  then obtain oc where done_step: "perform s ''pilot-dry-run'' (rehearse_keywords (sx s)) os = (Inr oc, os1)" "oc_ok oc"
    using assms(1) by (auto simp: rehearse_step_def split: prod.splits sum.splits)
  obtain os2 w msg where parts: "execute_gate s (rehearse_keywords (sx s)) os = (Inr oc, os2)"
      "advance (sx_now (rehearse_keywords (sx s))) s ''pilot-dry-run'' msg (os_workflow os2) = (Inr (), w)"
      "os1 = save_workflow w os2"
    using perform_saves [OF done_step] .
  have "in_order (os_workflow os2)"
    using gate_keeps_order [of os s "rehearse_keywords (sx s)"] assms(2) parts(1) by (simp add: rehearsing_def)
  from advance_rehearsing [OF parts(2) this, of os2] show ?thesis
    using gate_saved [OF parts(1)] by (simp add: parts(3) save_workflow_def)
qed

lemma no_next_step: "next_step w = None \<Longrightarrow> ow_current w = Some SESSION_REPORT"
proof (cases "ow_current w")
  case (Some s)
  assume "next_step w = None"
  then show ?thesis using Some by (cases s) (simp_all add: next_step_def step_index_eval OPERATOR_STEPS_def Let_def)
qed (simp add: next_step_def)

lemma rehearse_completes:
  assumes "rehearse json sx outs os = (Inr (False, outs'), os1)" and "rehearsing os"
    and "os_saved os = map_option (\<lambda>_. Some (os_workflow os)) saved \<or> next_step (os_workflow os) \<noteq> None \<and> os_saved os = saved"
  shows "ow_current (os_workflow os1) = Some SESSION_REPORT \<and> rehearsing os1 \<and>
     os_saved os1 = map_option (\<lambda>_. Some (os_workflow os1)) saved"
  using assms
proof (induction json sx outs os rule: rehearse.induct)
  case (1 json sx outs os)
  show ?case
  proof (cases "next_step (os_workflow os)")
    case None
    then show ?thesis using "1.prems" no_next_step by (auto simp: rehearse.simps)
  next
    case (Some s)
    then obtain r os2 where turn: "rehearse_step json sx s os = (Inr (r, True), os2)"
      "rehearse json sx (outs @ [r]) os2 = (Inr (False, outs'), os1)"
      using "1.prems"(1) by (auto simp: rehearse.simps [of json sx outs os] split: prod.splits sum.splits if_splits)
    have kept: "rehearsing os2" "os_saved os2 = map_option (\<lambda>_. Some (os_workflow os2)) saved"
      using rehearse_step_keeps [OF turn(1) "1.prems"(2)] "1.prems"(3) by (auto simp: option.map_comp comp_def)
    show ?thesis using "1.IH" [OF Some turn(1) [symmetric] refl refl TrueI turn(2) kept(1)] kept(2) by blast
  qed
qed

text \<open>
  C32. A rehearsal that passes uses up the operator workflow: \<open>pilot dry-run\<close> runs on the real
  workflow of the orchestrator, so exit status 0 means that all ten steps are recorded in order,
  the workflow is completed and stored as such, and no step of it can be taken ever again.
\<close>

theorem passed_rehearsal_ends_the_workflow:
  assumes "os_workflow os = new_workflow" and "pilot_dry_run json sx (Some os) = (Inr 0, Some os1)"
  shows "remdups_adj (map tr_to (ow_transitions (os_workflow os1))) = OPERATOR_STEPS \<and>
     os_saved os1 = map_option (\<lambda>_. Some (os_workflow os1)) (os_saved os) \<and>
     advance now s actor msg (os_workflow os1) = (Inl WorkflowError, os_workflow os1)"
proof -
  obtain outs where "rehearse json sx [] os = (Inr (False, outs), os1)"
    using assms(2) by (auto simp: pilot_dry_run_def split: prod.splits sum.splits if_splits)
  moreover have "rehearsing os" "next_step (os_workflow os) \<noteq> None"
    using assms(1) by (simp_all add: rehearsing_def in_order_def new_workflow_def next_step_def)
  ultimately have "ow_current (os_workflow os1) = Some SESSION_REPORT" "rehearsing os1"
      "os_saved os1 = map_option (\<lambda>_. Some (os_workflow os1)) (os_saved os)"
    using rehearse_completes by blast+
  then show ?thesis
    by (auto simp: rehearsing_def in_order_def step_index_eval OPERATOR_STEPS_def advance_def can_advance_to_def)
qed

lemma all_ok_text: "SkipText \<in> set outs \<Longrightarrow> all_ok outs \<noteq> Inr True"
  by (induction outs rule: all_ok.induct) auto

fun passed :: "rehearsed \<Rightarrow> bool" where
  "passed (Gate oc) = oc_ok oc"
| "passed _ = True"

lemma all_ok_no_failure: "list_all passed outs \<Longrightarrow>
    all_ok outs = (if SkipText \<in> set outs then Inl (OtherException ''AttributeError'') else Inr True)"
  by (induction outs rule: all_ok.induct) simp_all

lemma rehearse_outs:
  assumes "rehearse json sx outs os = (Inr (False, outs'), os1)" and "list_all passed outs"
  shows "list_all passed outs' \<and> set outs \<subseteq> set outs' \<and>
     (\<not> json \<and> 3 < steps_left os \<longrightarrow> SkipText \<in> set outs')"
  using assms
proof (induction json sx outs os rule: rehearse.induct)
  case (1 json sx outs os)
  show ?case
  proof (cases "next_step (os_workflow os)")
    case None
    then have "steps_left os = 0" using no_next_step [of "os_workflow os"] by (simp add: steps_left_def step_index_eval)
    then show ?thesis using None "1.prems" by (simp add: rehearse.simps)
  next
    case (Some s)
    then obtain r os2 where turn: "rehearse_step json sx s os = (Inr (r, True), os2)"
      "rehearse json sx (outs @ [r]) os2 = (Inr (False, outs'), os1)"
      using "1.prems"(1) by (auto simp: rehearse.simps [of json sx outs os] split: prod.splits sum.splits if_splits)
    have r: "passed r" "s = STRATEGY_PROMOTION \<Longrightarrow> \<not> json \<Longrightarrow> r = SkipText"
      using turn(1) by (auto simp: rehearse_step_def split: if_splits prod.splits sum.splits)
    have left: "steps_left os2 = 9 - step_index s"
      using rehearse_current [OF turn(1)] by (simp add: steps_left_def)
    have "3 < steps_left os \<Longrightarrow> s = STRATEGY_PROMOTION \<or> 3 < steps_left os2"
      using Some next_step_index [of "os_workflow os" _ s] unfolding left
      by (cases s; cases "ow_current (os_workflow os)") (auto simp: steps_left_def next_step_def step_index_eval)
    then show ?thesis
      using "1.IH" [OF Some turn(1) [symmetric] refl refl TrueI turn(2)] r "1.prems"(2) by auto
  qed
qed

text \<open>
  Without \<open>--json\<close> no rehearsal can succeed: from any workflow that has yet to skip the promotion,
  the command ends in a status 1 or in an exception, and a rehearsal that no gate stopped always ends in an
  \<open>AttributeError\<close>, after the workflow has been completed and stored.
\<close>

theorem text_rehearsal_never_succeeds:
  assumes "3 < steps_left os"
  shows "case rehearse False sx [] os of
      (Inl e, os1) \<Rightarrow> pilot_dry_run False sx (Some os) = (Inl e, Some os1)
    | (Inr (blocked, _), os1) \<Rightarrow> pilot_dry_run False sx (Some os) =
        (if blocked then Inr 1 else Inl (OtherException ''AttributeError''), Some os1)"
proof -
  have "all_ok outs = Inl (OtherException ''AttributeError'')"
    if "rehearse False sx [] os = (Inr (False, outs), os1)" for outs os1
    using rehearse_outs [OF that] assms by (simp add: all_ok_no_failure)
  then show ?thesis by (auto simp: pilot_dry_run_def split: prod.splits sum.splits)
qed

definition ready_session :: operator_session where
  "ready_session = sample_session\<lparr>os_saved := Some None, os_paper := Some
     \<lparr>pt_signals = [], pt_risk = new_risk_service 0, pt_execution = default_execution_service, pt_sessions = []\<rparr>\<rparr>"

lemmas rehearse_eval = rehearse.simps rehearse_step_def perform_def execute_gate_def gate_start_def gate_preflight_def
  gate_broker_check_def gate_market_data_check_def gate_paper_trading_def gate_performance_review_def
  gate_controlled_live_def gate_shutdown_def list_sessions_def next_step_def advance_def can_advance_to_def
  non_repeatable_def step_index_eval OPERATOR_STEPS_def save_workflow_def rehearse_keywords_def bind_session_def

lemma ready_rehearsal:
  "\<exists>outs os1. rehearse json (\<lambda>_. sample_context) [] ready_session = (Inr (False, outs), os1) \<and>
     (json \<longrightarrow> all_ok outs = Inr True)"
  by (simp add: rehearse_eval ready_session_def sample_session_def new_workflow_def)

theorem passed_rehearsal_ends_the_workflow_witness:
  "\<exists>os1. pilot_dry_run True (\<lambda>_. sample_context) (Some ready_session) = (Inr 0, Some os1) \<and>
     os_saved os1 = Some (Some (os_workflow os1)) \<and>
     advance 7 START ''op'' ''again'' (os_workflow os1) = (Inl WorkflowError, os_workflow os1)"
proof -
  obtain os1 where run: "pilot_dry_run True (\<lambda>_. sample_context) (Some ready_session) = (Inr 0, Some os1)"
    using ready_rehearsal [of True]
    by (cases "rehearse True (\<lambda>_. sample_context) [] ready_session")
      (auto simp: pilot_dry_run_def split: sum.splits prod.splits)
  have "os_workflow ready_session = new_workflow" "os_saved ready_session = Some None"
    by (simp_all add: ready_session_def sample_session_def)
  then show ?thesis
    using passed_rehearsal_ends_the_workflow [OF _ run, of 7 START "''op''" "''again''"] run by auto
qed

theorem text_rehearsal_never_succeeds_witness:
  "fst (pilot_dry_run False (\<lambda>_. sample_context) (Some ready_session)) = Inl (OtherException ''AttributeError'')"
proof -
  have "3 < steps_left ready_session"
    by (simp add: steps_left_def ready_session_def sample_session_def new_workflow_def)
  from text_rehearsal_never_succeeds [OF this, of "\<lambda>_. sample_context"] show ?thesis
    using ready_rehearsal [of False] by auto
qed

end
