(* ===== verification/Election.thy ===== *)
theory Election
  imports Prelude
begin

text \<open>
  \<open>infrastructure/leader_election.py\<close>: leader election over a PostgreSQL advisory lock and
  over a locked file.

  A process is a number.  The lock server keeps what PostgreSQL documents of a session-level
  advisory lock: a session that holds it is granted it again and has to release it as often
  as it was granted, and it ends with the session.  An \<open>flock\<close> lock belongs to an open file
  and so to its inode, and ends when that file is closed.  The callbacks are recorded; an
  elected callback may raise.  The heartbeat thread is a list of calls.
\<close>

subsection \<open>The advisory lock\<close>

record lock_server =
  ls_holder :: "nat option"
  ls_count :: nat

definition pg_try_advisory_lock :: "nat \<Rightarrow> lock_server \<Rightarrow> bool \<times> lock_server" where
  "pg_try_advisory_lock p ls =
     (if ls_holder ls \<in> {None, Some p}
      then (True, \<lparr>ls_holder = Some p, ls_count = (if ls_holder ls = None then 1 else ls_count ls + 1)\<rparr>)
      else (False, ls))"

definition pg_advisory_unlock :: "nat \<Rightarrow> lock_server \<Rightarrow> lock_server" where
  "pg_advisory_unlock p ls =
     (if ls_holder ls \<noteq> Some p then ls
      else if ls_count ls \<le> 1 then \<lparr>ls_holder = None, ls_count = 0\<rparr>
      else ls\<lparr>ls_count := ls_count ls - 1\<rparr>)"

definition session_ended :: "nat \<Rightarrow> lock_server \<Rightarrow> lock_server" where
  "session_ended p ls = (if ls_holder ls = Some p then \<lparr>ls_holder = None, ls_count = 0\<rparr> else ls)"

datatype election_event = Elected nat | Deposed nat

record election =
  el_server :: lock_server
  el_leaders :: "nat list"
  el_events :: "election_event list"

definition is_leader :: "nat \<Rightarrow> election \<Rightarrow> bool" where
  "is_leader p st \<longleftrightarrow> p \<in> set (el_leaders st)"

definition lead :: "nat \<Rightarrow> election \<Rightarrow> election" where
  "lead p st = st\<lparr>el_leaders := List.insert p (el_leaders st), el_events := el_events st @ [Elected p]\<rparr>"

definition step_down :: "nat \<Rightarrow> election \<Rightarrow> election" where
  "step_down p st = st\<lparr>el_leaders := removeAll p (el_leaders st), el_events := el_events st @ [Deposed p]\<rparr>"

text \<open>\<open>try_acquire\<close> on a connection that is up or not; \<open>callback_raises\<close> says whether the
  elected callback raises, which the code takes for a lost connection.\<close>

definition try_acquire_lock :: "bool \<Rightarrow> bool \<Rightarrow> nat \<Rightarrow> election \<Rightarrow> bool \<times> election" where
  "try_acquire_lock up callback_raises p st =
     (if \<not> up
      then (False, if is_leader p st then step_down p st else st)
      else case pg_try_advisory_lock p (el_server st) of
        (True, ls) \<Rightarrow>
          let st1 = st\<lparr>el_server := ls\<rparr> in
          if is_leader p st then (True, st1)
          else if callback_raises then (False, step_down p (lead p st1)) else (True, lead p st1)
      | (False, ls) \<Rightarrow> (False, if is_leader p st then step_down p st else st))"

definition release_lock :: "bool \<Rightarrow> nat \<Rightarrow> election \<Rightarrow> election" where
  "release_lock up p st =
     st\<lparr>el_server := (if up then pg_advisory_unlock p (el_server st) else el_server st),
        el_leaders := removeAll p (el_leaders st)\<rparr>"

datatype election_call = Beat bool bool nat | ReleaseLock bool nat | SessionLost nat

fun election_do :: "election_call \<Rightarrow> election \<Rightarrow> election" where
  "election_do (Beat up raises p) st = snd (try_acquire_lock up raises p st)"
| "election_do (ReleaseLock up p) st = release_lock up p st"
| "election_do (SessionLost p) st = st\<lparr>el_server := session_ended p (el_server st)\<rparr>"

definition no_election :: election where
  "no_election = \<lparr>el_server = \<lparr>ls_holder = None, ls_count = 0\<rparr>, el_leaders = [], el_events = []\<rparr>"

definition leader_holds :: "election \<Rightarrow> bool" where
  "leader_holds st \<longleftrightarrow> (\<forall>p. is_leader p st \<longrightarrow> ls_holder (el_server st) = Some p)"

lemma leaders_simps [simp]:
  "is_leader q (lead p st) \<longleftrightarrow> q = p \<or> is_leader q st" "is_leader q (step_down p st) \<longleftrightarrow> q \<noteq> p \<and> is_leader q st"
  "is_leader q (release_lock c p st) \<longleftrightarrow> q \<noteq> p \<and> is_leader q st" "el_server (lead p st) = el_server st"
  "el_server (step_down p st) = el_server st" "is_leader q (st\<lparr>el_server := ls\<rparr>) \<longleftrightarrow> is_leader q st"
  by (auto simp: is_leader_def lead_def step_down_def release_lock_def)

lemma beat_holds: "leader_holds st \<Longrightarrow> leader_holds (election_do (Beat c r p) st)"
  by (auto simp: leader_holds_def try_acquire_lock_def pg_try_advisory_lock_def Let_def split: if_splits)

lemma release_holds: "leader_holds st \<Longrightarrow> leader_holds (election_do (ReleaseLock c p) st)"
  by (auto simp: leader_holds_def pg_advisory_unlock_def release_lock_def is_leader_def)

definition loses_session :: "election_call \<Rightarrow> bool" where
  "loses_session x = (case x of SessionLost p \<Rightarrow> True | _ \<Rightarrow> False)"

text \<open>
  One leader at a time: as long as no session is lost, whatever beats and releases the
  processes make, with connections that fail and callbacks that raise, a process that counts
  itself leader holds the lock, so no two do.
\<close>

theorem one_leader_while_sessions_live:
  "if list_ex loses_session xs then True
   else leader_holds (fold election_do xs no_election) \<and>
        (is_leader p (fold election_do xs no_election) \<and> is_leader q (fold election_do xs no_election)) \<le> (p = q)"
proof -
  have "leader_holds (fold election_do xs st)" if "leader_holds st" "\<not> list_ex loses_session xs" for st
    using that
  proof (induction xs arbitrary: st)
    case (Cons x xs)
    have "leader_holds (election_do x st)"
    proof (cases x)
      case (Beat c r p)
      then show ?thesis using beat_holds Cons.prems(1) by simp
    next
      case (ReleaseLock c p)
      then show ?thesis using release_holds [of st c p] Cons.prems(1) by simp
    qed (use Cons.prems(2) in \<open>simp add: loses_session_def\<close>)
    then show ?case using Cons by simp
  qed simp
  from this [of no_election] have "leader_holds (fold election_do xs no_election)" if "\<not> list_ex loses_session xs"
    using that by (simp add: leader_holds_def is_leader_def no_election_def)
  moreover have "p = q" if "leader_holds st" "is_leader p st" "is_leader q st" for st
    using that by (metis leader_holds_def option.inject)
  ultimately show ?thesis by auto
qed

lemma held_beats:
  "ls_holder (el_server st) = Some p \<Longrightarrow> is_leader p st \<Longrightarrow>
     fold election_do (replicate n (Beat True r p)) st = st\<lparr>el_server := \<lparr>ls_holder = Some p, ls_count = ls_count (el_server st) + n\<rparr>\<rparr>"
proof (induction n arbitrary: st)
  case 0
  then show ?case by (cases st; cases "el_server st") simp
next
  case (Suc n)
  let ?st = "st\<lparr>el_server := \<lparr>ls_holder = Some p, ls_count = ls_count (el_server st) + 1\<rparr>\<rparr>"
  have "election_do (Beat True r p) st = ?st"
    using Suc.prems by (simp add: try_acquire_lock_def pg_try_advisory_lock_def Let_def)
  then show ?case using Suc.IH [of ?st] Suc.prems by (simp del: election_do.simps)
qed

text \<open>
  A release that keeps the lock: every heartbeat of the leader is granted the lock once more,
  and a release gives back one grant, so after two heartbeats or more a leader that stops
  leaves the lock with its open session, nobody leads, and no beat of another process is ever
  granted it.
\<close>

theorem release_keeps_the_lock:
  "case fold election_do (replicate (Suc (Suc n)) (Beat True False p) @ [ReleaseLock True p]) no_election of st \<Rightarrow>
     el_leaders st = [] \<and> ls_holder (el_server st) = Some p \<and> ls_count (el_server st) = Suc n \<and>
     (q = p \<or> try_acquire_lock True r q st = (False, st))"
proof -
  let ?one = "lead p (no_election\<lparr>el_server := \<lparr>ls_holder = Some p, ls_count = 1\<rparr>\<rparr>)"
  have "election_do (Beat True False p) no_election = ?one"
    by (simp add: try_acquire_lock_def pg_try_advisory_lock_def no_election_def is_leader_def Let_def)
  moreover have "fold election_do (replicate (Suc n) (Beat True False p)) ?one =
      ?one\<lparr>el_server := \<lparr>ls_holder = Some p, ls_count = 1 + Suc n\<rparr>\<rparr>"
    using held_beats [of ?one p "Suc n" False] by (simp del: replicate.simps election_do.simps)
  ultimately have "fold election_do (replicate (Suc (Suc n)) (Beat True False p)) no_election =
      ?one\<lparr>el_server := \<lparr>ls_holder = Some p, ls_count = 1 + Suc n\<rparr>\<rparr>"
    by (simp del: election_do.simps)
  then show ?thesis
    by (simp add: release_lock_def pg_advisory_unlock_def lead_def no_election_def try_acquire_lock_def
        pg_try_advisory_lock_def is_leader_def del: replicate.simps)
qed

subsection \<open>The locked file\<close>

text \<open>
  The path names an inode or nothing; an inode's lock has one holder, and a process has at
  most one open file.
\<close>

record lock_files =
  lf_path :: "nat option"
  lf_next :: nat
  lf_locks :: "(nat \<times> nat) list"
  lf_open :: "(nat \<times> nat) list"
  lf_leaders :: "nat list"

definition close_file :: "nat \<Rightarrow> lock_files \<Rightarrow> lock_files" where
  "close_file p fs = fs\<lparr>lf_locks := filter (\<lambda>(i, q). q \<noteq> p) (lf_locks fs), lf_open := AList.delete p (lf_open fs)\<rparr>"

text \<open>Opening replaces the process's file, which closes the old one.\<close>

definition open_lock_file :: "nat \<Rightarrow> lock_files \<Rightarrow> lock_files" where
  "open_lock_file p fs =
     (let fs1 = close_file p fs;
          i = (case lf_path fs of Some i \<Rightarrow> i | None \<Rightarrow> lf_next fs) in
      fs1\<lparr>lf_path := Some i, lf_next := (if lf_path fs = None then lf_next fs + 1 else lf_next fs),
          lf_open := AList.update p i (lf_open fs1)\<rparr>)"

definition flock :: "nat \<Rightarrow> lock_files \<Rightarrow> bool \<times> lock_files" where
  "flock p fs =
     (case map_of (lf_open fs) p of
        None \<Rightarrow> (False, fs)
      | Some i \<Rightarrow>
          if i \<in> fst ` set (lf_locks fs) \<and> map_of (lf_locks fs) i \<noteq> Some p then (False, fs)
          else (True, fs\<lparr>lf_locks := AList.update i p (lf_locks fs)\<rparr>))"

definition file_try_acquire :: "nat \<Rightarrow> lock_files \<Rightarrow> bool \<times> lock_files" where
  "file_try_acquire p fs =
     (case flock p (open_lock_file p fs) of
        (True, fs1) \<Rightarrow> (True, fs1\<lparr>lf_leaders := List.insert p (lf_leaders fs1)\<rparr>)
      | (False, fs1) \<Rightarrow> (False, close_file p (fs1\<lparr>lf_leaders := removeAll p (lf_leaders fs1)\<rparr>)))"

definition file_release :: "nat \<Rightarrow> lock_files \<Rightarrow> lock_files" where
  "file_release p fs = close_file p (fs\<lparr>lf_leaders := removeAll p (lf_leaders fs)\<rparr>)"

text \<open>\<open>stop\<close> is a release and then the removal of the path.\<close>

definition file_unlink :: "lock_files \<Rightarrow> lock_files" where
  "file_unlink fs = fs\<lparr>lf_path := None\<rparr>"

definition no_lock_files :: lock_files where
  "no_lock_files = \<lparr>lf_path = None, lf_next = 0, lf_locks = [], lf_open = [], lf_leaders = []\<rparr>"

text \<open>
  Two leaders of one file: a process that acquires between the release and the unlink of a
  stopping leader leads on an inode that has lost its name, so the next process creates the
  file anew and leads as well.
\<close>

theorem unlink_race_elects_two:
  "if p \<noteq> q \<and> q \<noteq> r \<and> p \<noteq> r
   then (case file_try_acquire r (file_unlink (snd (file_try_acquire q (file_release p (snd (file_try_acquire p no_lock_files)))))) of
           (won, fs) \<Rightarrow> won \<and> set (lf_leaders fs) = {q, r})
   else True"
  by (auto simp: file_try_acquire_def file_release_def file_unlink_def flock_def open_lock_file_def close_file_def
      no_lock_files_def Let_def)

end
