(* ===== verification/MarketStream.thy ===== *)
theory MarketStream
  imports Backtest PyText
begin

text \<open>
  \<open>infrastructure/market_stream.py\<close>: ticks from a provider's frames, candles from ticks, the
  replay recorder and the service that consumes a transport with reconnections.

  A raw field is what Python's parsers make of it (\<open>raw_number\<close>).  Decimal prices and
  quantities are rationals; their sums are exact, as they are within the 28 digits of the
  default decimal context.  Instants are microseconds.  A transport is the list of the
  connections it will give: the frames each delivers and whether it then breaks.
\<close>

subsection \<open>Validating a tick\<close>

datatype raw_number = Missing | NotANumber | NotFinite | Num rat

record raw_tick =
  rw_symbol :: "string option"
  rw_price :: raw_number
  rw_quantity :: raw_number
  rw_timestamp :: raw_number
  rw_source :: "string option"
  rw_event_id :: "string option"

record market_tick =
  mk_symbol :: string
  mk_price :: rat
  mk_quantity :: rat
  mk_exchange :: datetime
  mk_received :: datetime
  mk_source :: string
  mk_event_id :: string

text \<open>\<open>normalize_timestamp\<close>: seconds or milliseconds by size, rounded to a microsecond, within
  the years a \<open>datetime\<close> can hold.\<close>

definition normalize_timestamp :: "raw_number \<Rightarrow> datetime res" where
  "normalize_timestamp v =
     (case v of
        Num q \<Rightarrow>
          (case rnd q of
             Fin ts \<Rightarrow>
               (let us = round_half_even ((if 10000000000 < \<bar>ts\<bar> then (case rnd (ts / 1000) of Fin x \<Rightarrow> x | _ \<Rightarrow> 0) else ts) * 1000000) in
                if - 62135596800000000 \<le> us \<and> us < 253402300800000000 then Inr us else Inl ValueError)
           | _ \<Rightarrow> Inl ValueError)
      | _ \<Rightarrow> Inl ValueError)"

definition plain_symbol :: "string option \<Rightarrow> string option" where
  "plain_symbol s = (case s of None \<Rightarrow> None
     | Some x \<Rightarrow> if x = [] \<or> list_ex is_space x then None else Some x)"

text \<open>\<open>validate_tick\<close>, with the limits in seconds and the id drawn when the payload has none.\<close>

definition validate_tick :: "float64 \<Rightarrow> int \<Rightarrow> datetime \<Rightarrow> string \<Rightarrow> raw_tick \<Rightarrow> market_tick res" where
  "validate_tick max_stale max_future now drawn raw =
     (case plain_symbol (rw_symbol raw) of
        None \<Rightarrow> Inl ValueError
      | Some sy \<Rightarrow>
          (case rw_price raw of
             Num price \<Rightarrow>
               if price \<le> 0 then Inl ValueError
               else (case (case rw_quantity raw of Missing \<Rightarrow> Num 0 | q \<Rightarrow> q) of
                 Num quantity \<Rightarrow>
                   if quantity < 0 then Inl ValueError
                   else rbind (case rw_timestamp raw of Missing \<Rightarrow> Inr now | v \<Rightarrow> normalize_timestamp v) (\<lambda>exchange.
                     if now + max_future * 1000000 < exchange then Inl ValueError
                     else if max_stale < total_seconds (now - exchange) then Inl ValueError
                     else Inr \<lparr>mk_symbol = sy, mk_price = price, mk_quantity = quantity, mk_exchange = exchange,
                            mk_received = now,
                            mk_source = (case rw_source raw of None \<Rightarrow> ''binance'' | Some x \<Rightarrow> x),
                            mk_event_id = (case rw_event_id raw of None \<Rightarrow> drawn | Some x \<Rightarrow> x)\<rparr>)
               | _ \<Rightarrow> Inl ValueError)
           | _ \<Rightarrow> Inl ValueError))"

definition latency_ms :: "market_tick \<Rightarrow> float64" where
  "latency_ms t = py_max 0 (total_seconds (mk_received t - mk_exchange t) * Fin 1000)"

record clock_monitor =
  cl_max_drift_ms :: float64
  cl_last_drift_ms :: float64

definition clock_observe :: "datetime \<Rightarrow> datetime \<Rightarrow> clock_monitor \<Rightarrow> bool \<times> clock_monitor" where
  "clock_observe exchange now cl =
     (let drift = total_seconds (now - exchange) * Fin 1000 in
      (\<bar>drift\<bar> \<le> cl_max_drift_ms cl, cl\<lparr>cl_last_drift_ms := drift\<rparr>))"

subsection \<open>Aggregating ticks into candles\<close>

record stream_candle =
  sc_symbol :: string
  sc_start :: int
  sc_end :: int
  sc_open :: rat
  sc_high :: rat
  sc_low :: rat
  sc_close :: rat
  sc_volume :: rat
  sc_ticks :: nat

text \<open>The open bucket of a symbol is its start in seconds and its ticks; the closed starts of a
  symbol are a bounded queue.\<close>

record aggregator =
  ag_interval :: int
  ag_max_idle :: float64
  ag_closed_limit :: nat
  ag_current :: "(string \<times> int \<times> market_tick list) list"
  ag_closed :: "(string \<times> int list) list"
  ag_late :: nat

definition new_aggregator :: "int \<Rightarrow> aggregator" where
  "new_aggregator interval =
     \<lparr>ag_interval = interval, ag_max_idle = rnd (of_int (interval * 10)), ag_closed_limit = 4096, ag_current = [],
      ag_closed = [], ag_late = 0\<rparr>"

definition epoch_seconds :: "datetime \<Rightarrow> int" where
  "epoch_seconds us = (if 0 \<le> us then us div 1000000 else - ((- us) div 1000000))"

definition bucket_start :: "datetime \<Rightarrow> int \<Rightarrow> int" where
  "bucket_start exchange interval = (let epoch = epoch_seconds exchange in epoch - epoch mod interval)"

definition make_candle :: "int \<Rightarrow> int \<Rightarrow> market_tick list \<Rightarrow> stream_candle" where
  "make_candle interval start ticks =
     \<lparr>sc_symbol = mk_symbol (hd ticks), sc_start = start, sc_end = start + interval, sc_open = mk_price (hd ticks),
      sc_high = Max (set (map mk_price ticks)), sc_low = Min (set (map mk_price ticks)),
      sc_close = mk_price (last ticks), sc_volume = sum_list (map mk_quantity ticks), sc_ticks = length ticks\<rparr>"

definition closed_starts :: "string \<Rightarrow> aggregator \<Rightarrow> int list" where
  "closed_starts sy ag = dict_get (ag_closed ag) sy []"

definition mark_closed :: "string \<Rightarrow> int \<Rightarrow> aggregator \<Rightarrow> aggregator" where
  "mark_closed sy start ag =
     (let closed = closed_starts sy ag in
      ag\<lparr>ag_closed := AList.update sy (if start \<in> set closed then closed else last_n (ag_closed_limit ag) (closed @ [start]))
                       (ag_closed ag)\<rparr>)"

definition put_bucket :: "string \<Rightarrow> int \<Rightarrow> market_tick list \<Rightarrow> aggregator \<Rightarrow> aggregator" where
  "put_bucket sy start ticks ag = ag\<lparr>ag_current := AList.update sy (start, ticks) (ag_current ag)\<rparr>"

definition agg_add :: "market_tick \<Rightarrow> aggregator \<Rightarrow> stream_candle option \<times> aggregator" where
  "agg_add t ag =
     (let sy = mk_symbol t; start = bucket_start (mk_exchange t) (ag_interval ag); closed = closed_starts sy ag;
          late = (None, ag\<lparr>ag_late := ag_late ag + 1\<rparr>) in
      case map_of (ag_current ag) sy of
        Some (open_start, ticks) \<Rightarrow>
          if open_start \<noteq> start
          then if start < open_start \<or> start \<in> set closed then late
               else (Some (make_candle (ag_interval ag) open_start ticks),
                     put_bucket sy start [t] (mark_closed sy open_start ag))
          else if start \<in> set closed then late
          else (None, put_bucket sy start (ticks @ [t]) ag)
      | None \<Rightarrow> if start \<in> set closed then late else (None, put_bucket sy start [t] ag))"

definition agg_flush :: "string \<Rightarrow> aggregator \<Rightarrow> stream_candle option \<times> aggregator" where
  "agg_flush sy ag =
     (case map_of (ag_current ag) sy of
        None \<Rightarrow> (None, ag)
      | Some (start, ticks) \<Rightarrow>
          (Some (make_candle (ag_interval ag) start ticks),
           mark_closed sy start (ag\<lparr>ag_current := AList.delete sy (ag_current ag)\<rparr>)))"

fun flush_each :: "string list \<Rightarrow> aggregator \<Rightarrow> stream_candle list \<times> aggregator" where
  "flush_each [] ag = ([], ag)"
| "flush_each (sy # sys) ag =
     (case agg_flush sy ag of (c, ag1) \<Rightarrow>
      (case flush_each sys ag1 of (cs, ag2) \<Rightarrow> ((case c of None \<Rightarrow> cs | Some x \<Rightarrow> x # cs), ag2)))"

definition flush_all :: "aggregator \<Rightarrow> stream_candle list \<times> aggregator" where
  "flush_all ag = flush_each (dict_keys (ag_current ag)) ag"

definition flush_stale :: "datetime \<Rightarrow> aggregator \<Rightarrow> stream_candle list \<times> aggregator" where
  "flush_stale now ag =
     flush_each (dict_keys (filter (\<lambda>(sy, start, ticks). ag_max_idle ag < total_seconds (now - mk_exchange (last ticks)))
       (ag_current ag))) ag"

datatype agg_call = Add market_tick | Flush string | FlushAll | FlushStale datetime

fun agg_do :: "agg_call \<Rightarrow> aggregator \<Rightarrow> stream_candle list \<times> aggregator" where
  "agg_do (Add t) ag = (case agg_add t ag of (c, ag1) \<Rightarrow> ((case c of None \<Rightarrow> [] | Some x \<Rightarrow> [x]), ag1))"
| "agg_do (Flush sy) ag = (case agg_flush sy ag of (c, ag1) \<Rightarrow> ((case c of None \<Rightarrow> [] | Some x \<Rightarrow> [x]), ag1))"
| "agg_do FlushAll ag = flush_all ag"
| "agg_do (FlushStale now) ag = flush_stale now ag"

fun agg_run :: "agg_call list \<Rightarrow> aggregator \<Rightarrow> stream_candle list \<times> aggregator" where
  "agg_run [] ag = ([], ag)"
| "agg_run (x # xs) ag =
     (case agg_do x ag of (cs, ag1) \<Rightarrow> (case agg_run xs ag1 of (ds, ag2) \<Rightarrow> (cs @ ds, ag2)))"

subsection \<open>No tick is lost\<close>

lemma sum_update_new: "map_of d k = None \<Longrightarrow> (\<Sum>(_, v)\<leftarrow>AList.update k v' d. f v) = (\<Sum>(_, v)\<leftarrow>d. f v) + (f v' :: nat)"
  by (induction d) (auto split: if_splits)

lemma sum_update_old:
  "distinct (dict_keys d) \<Longrightarrow> map_of d k = Some v \<Longrightarrow>
     (\<Sum>(_, v)\<leftarrow>AList.update k v' d. f v) + f v = (\<Sum>(_, v)\<leftarrow>d. f v) + (f v' :: nat)"
  by (induction d) (auto split: if_splits)

lemma sum_delete:
  "distinct (dict_keys d) \<Longrightarrow> map_of d k = Some v \<Longrightarrow>
     (\<Sum>(_, v)\<leftarrow>AList.delete k d. f v) + f v = (\<Sum>(_, v)\<leftarrow>d. (f v :: nat))"
proof (induction d)
  case (Cons kv d)
  have "k \<notin> set (dict_keys d) \<Longrightarrow> AList.delete k d = d" by (induction d) auto
  with Cons show ?case by (cases kv) (auto split: if_splits)
qed simp

definition held_ticks :: "aggregator \<Rightarrow> nat" where
  "held_ticks ag = ag_late ag + (\<Sum>(_, v)\<leftarrow>ag_current ag. length (snd v))"

definition emitted_ticks :: "stream_candle list \<Rightarrow> nat" where
  "emitted_ticks cs = (\<Sum>c\<leftarrow>cs. sc_ticks c)"

text \<open>An aggregator as the operations leave it: one open bucket per symbol, none of them empty.\<close>

definition agg_ok :: "aggregator \<Rightarrow> bool" where
  "agg_ok ag \<longleftrightarrow> distinct (dict_keys (ag_current ag)) \<and>
     list_all (\<lambda>(sy, start, ts). ts \<noteq> [] \<and> start mod ag_interval ag = 0 \<and>
       list_all (\<lambda>t. mk_symbol t = sy \<and> bucket_start (mk_exchange t) (ag_interval ag) = start) ts) (ag_current ag)"

definition candle_ok :: "int \<Rightarrow> stream_candle \<Rightarrow> bool" where
  "candle_ok interval c \<longleftrightarrow> sc_low c \<le> sc_open c \<and> sc_open c \<le> sc_high c \<and> sc_low c \<le> sc_close c \<and> sc_close c \<le> sc_high c \<and>
     0 < sc_ticks c \<and> sc_start c mod interval = 0 \<and> sc_end c = sc_start c + interval"

lemma bucket_start_mod: "bucket_start t i mod i = 0"
  by (simp add: bucket_start_def Let_def minus_mod_eq_mult_div [symmetric] mod_diff_left_eq)

lemma make_candle_ok: "ts \<noteq> [] \<Longrightarrow> start mod i = 0 \<Longrightarrow> candle_ok i (make_candle i start ts)"
  by (auto simp: candle_ok_def make_candle_def intro!: Max_ge Min_le)

lemma mark_closed_frame [simp]:
  "ag_current (mark_closed sy start ag) = ag_current ag" "ag_late (mark_closed sy start ag) = ag_late ag"
  "ag_interval (mark_closed sy start ag) = ag_interval ag" "ag_closed_limit (mark_closed sy start ag) = ag_closed_limit ag"
  by (simp_all add: mark_closed_def Let_def)

lemma put_bucket_frame [simp]:
  "ag_late (put_bucket sy start ts ag) = ag_late ag" "ag_interval (put_bucket sy start ts ag) = ag_interval ag"
  "ag_closed (put_bucket sy start ts ag) = ag_closed ag" "ag_closed_limit (put_bucket sy start ts ag) = ag_closed_limit ag"
  by (simp_all add: put_bucket_def)

lemma agg_ok_bucket:
  "agg_ok ag \<Longrightarrow> map_of (ag_current ag) sy = Some (start, ts) \<Longrightarrow>
     ts \<noteq> [] \<and> start mod ag_interval ag = 0 \<and>
     list_all (\<lambda>t. mk_symbol t = sy \<and> bucket_start (mk_exchange t) (ag_interval ag) = start) ts"
  by (auto simp: agg_ok_def list_all_iff dest!: map_of_SomeD)

lemma agg_ok_put:
  assumes "agg_ok ag" and "ts \<noteq> []" and "start mod ag_interval ag = 0"
    and "list_all (\<lambda>t. mk_symbol t = sy \<and> bucket_start (mk_exchange t) (ag_interval ag) = start) ts"
  shows "agg_ok (put_bucket sy start ts ag)"
proof -
  have "set (AList.update sy (start, ts) d) \<subseteq> insert (sy, start, ts) (set d)" for d
    by (induction d) auto
  then show ?thesis
    using assms by (fastforce simp: agg_ok_def put_bucket_def list_all_iff distinct_update)
qed

lemma agg_ok_mark [simp]: "agg_ok (mark_closed sy start ag) = agg_ok ag"
  by (simp add: agg_ok_def)

lemma agg_add_step:
  assumes "agg_ok ag" and "agg_add t ag = (c, ag')"
  shows "agg_ok ag' \<and> ag_interval ag' = ag_interval ag \<and>
     held_ticks ag' + emitted_ticks (case c of None \<Rightarrow> [] | Some x \<Rightarrow> [x]) = held_ticks ag + 1 \<and>
     (case c of None \<Rightarrow> True | Some x \<Rightarrow> candle_ok (ag_interval ag) x)"
proof (cases "map_of (ag_current ag) (mk_symbol t)")
  case None
  then show ?thesis
    using assms agg_ok_put [of ag "[t]" "bucket_start (mk_exchange t) (ag_interval ag)" "mk_symbol t"]
    by (auto simp: agg_add_def Let_def held_ticks_def emitted_ticks_def put_bucket_def sum_update_new bucket_start_mod agg_ok_def
        split: if_splits)
next
  case (Some b)
  obtain os ts where b: "b = (os, ts)" by (cases b)
  note old = agg_ok_bucket [OF assms(1) Some [unfolded b]]
  have d: "distinct (dict_keys (ag_current ag))" using assms(1) by (simp add: agg_ok_def)
  note upd = sum_update_old [OF d Some [unfolded b], where f = "\<lambda>v. length (snd v)"]
  let ?start = "bucket_start (mk_exchange t) (ag_interval ag)"
  have ok1: "agg_ok (put_bucket (mk_symbol t) ?start [t] (mark_closed (mk_symbol t) os ag))"
    by (rule agg_ok_put) (simp_all add: assms(1) bucket_start_mod)
  have ok2: "agg_ok (put_bucket (mk_symbol t) ?start (ts @ [t]) ag)" if "os = ?start"
    by (rule agg_ok_put) (use assms(1) old that in \<open>simp_all add: bucket_start_mod\<close>)
  have late: "agg_ok (ag\<lparr>ag_late := ag_late ag + 1\<rparr>)" using assms(1) by (simp add: agg_ok_def)
  show ?thesis
    using assms(2) Some b ok1 ok2 late old upd [where v' = "(?start, [t])"] upd [where v' = "(?start, ts @ [t])"]
      make_candle_ok [of ts os "ag_interval ag"]
    by (auto simp: agg_add_def Let_def held_ticks_def emitted_ticks_def put_bucket_def make_candle_def split: if_splits)
qed


definition cands :: "'a option \<Rightarrow> 'a list" where
  "cands c = (case c of None \<Rightarrow> [] | Some x \<Rightarrow> [x])"

lemma cands_simps [simp]: "cands None = []" "cands (Some x) = [x]"
  by (simp_all add: cands_def)

lemma agg_flush_step:
  assumes "agg_ok ag" and "agg_flush sy ag = (c, ag')"
  shows "agg_ok ag' \<and> ag_interval ag' = ag_interval ag \<and> held_ticks ag' + emitted_ticks (cands c) = held_ticks ag \<and>
     list_all (candle_ok (ag_interval ag)) (cands c)"
proof (cases "map_of (ag_current ag) sy")
  case None
  then show ?thesis using assms by (auto simp: agg_flush_def emitted_ticks_def)
next
  case (Some b)
  obtain os ts where b: "b = (os, ts)" by (cases b)
  note old = agg_ok_bucket [OF assms(1) Some [unfolded b]]
  have d: "distinct (dict_keys (ag_current ag))" using assms(1) by (simp add: agg_ok_def)
  have "set (AList.delete sy (ag_current ag)) \<subseteq> set (ag_current ag)" by (auto simp: AList.delete_eq)
  then have ok: "agg_ok (ag\<lparr>ag_current := AList.delete sy (ag_current ag)\<rparr>)"
    using assms(1) by (fastforce simp: agg_ok_def list_all_iff distinct_delete)
  show ?thesis
    using assms(2) Some b old ok sum_delete [OF d Some [unfolded b], where f = "\<lambda>v. length (snd v)"]
      make_candle_ok [of ts os "ag_interval ag"]
    by (auto simp: agg_flush_def held_ticks_def emitted_ticks_def make_candle_def)
qed

lemma emitted_append [simp]: "emitted_ticks (cs @ ds) = emitted_ticks cs + emitted_ticks ds" "emitted_ticks [] = 0"
  by (simp_all add: emitted_ticks_def)

lemma flush_each_Cons: "flush_each (sy # sys) ag =
   (cands (fst (agg_flush sy ag)) @ fst (flush_each sys (snd (agg_flush sy ag))), snd (flush_each sys (snd (agg_flush sy ag))))"
  by (auto simp: cands_def split: prod.split option.split)

lemma flush_each_step:
  "agg_ok ag \<Longrightarrow> flush_each sys ag = (cs, ag') \<Longrightarrow> agg_ok ag' \<and> ag_interval ag' = ag_interval ag \<and>
     held_ticks ag' + emitted_ticks cs = held_ticks ag \<and> list_all (candle_ok (ag_interval ag)) cs"
proof (induction sys arbitrary: ag cs ag')
  case (Cons sy sys)
  obtain c ag1 where one: "agg_flush sy ag = (c, ag1)" by fastforce
  obtain ds ag2 where rest: "flush_each sys ag1 = (ds, ag2)" by fastforce
  note s1 = agg_flush_step [OF Cons.prems(1) one]
  with Cons.IH [OF _ rest] Cons.prems(2) one rest show ?case by (auto simp: flush_each_Cons simp del: flush_each.simps)
qed simp

fun is_add :: "agg_call \<Rightarrow> bool" where
  "is_add (Add _) = True"
| "is_add _ = False"

lemma agg_do_step:
  assumes "agg_ok ag" and "agg_do x ag = (cs, ag')"
  shows "agg_ok ag' \<and> ag_interval ag' = ag_interval ag \<and>
     held_ticks ag' + emitted_ticks cs = held_ticks ag + (if is_add x then 1 else 0) \<and> list_all (candle_ok (ag_interval ag)) cs"
proof (cases x)
  case (Add t)
  obtain c ag1 where "agg_add t ag = (c, ag1)" by fastforce
  with agg_add_step [OF assms(1) this] assms(2) Add show ?thesis by (auto split: option.splits)
next
  case (Flush sy)
  obtain c ag1 where "agg_flush sy ag = (c, ag1)" by fastforce
  with agg_flush_step [OF assms(1) this] assms(2) Flush show ?thesis by (auto simp: cands_def split: option.splits)
next
  case FlushAll
  then show ?thesis using assms flush_each_step by (simp add: flush_all_def)
next
  case (FlushStale now)
  then show ?thesis using assms flush_each_step by (simp add: flush_stale_def)
qed

lemma agg_run_step:
  "agg_ok ag \<Longrightarrow> agg_run xs ag = (cs, ag') \<Longrightarrow> agg_ok ag' \<and> ag_interval ag' = ag_interval ag \<and>
     held_ticks ag' + emitted_ticks cs = held_ticks ag + length (filter is_add xs) \<and> list_all (candle_ok (ag_interval ag)) cs"
proof (induction xs arbitrary: ag cs ag')
  case (Cons x xs)
  obtain ds ag1 where one: "agg_do x ag = (ds, ag1)" by fastforce
  obtain es ag2 where rest: "agg_run xs ag1 = (es, ag2)" by fastforce
  note s1 = agg_do_step [OF Cons.prems(1) one]
  with Cons.IH [OF _ rest] Cons.prems(2) one rest show ?case by auto
qed simp

text \<open>
  C13. The aggregator loses no tick and emits only well-formed candles: for any sequence of added
  ticks and flushes, the ticks added are exactly the late ones it counted, the ones still in an
  open bucket and the ones of the emitted candles; every emitted candle has its low and high
  around its open and close, at least one tick, and an aligned interval.
\<close>

theorem no_tick_is_lost:
  "case agg_run xs (new_aggregator interval) of (cs, ag) \<Rightarrow>
     length (filter is_add xs) = ag_late ag + (\<Sum>(_, b)\<leftarrow>ag_current ag. length (snd b)) + (\<Sum>c\<leftarrow>cs. sc_ticks c) \<and>
     list_all (candle_ok interval) cs"
proof -
  have "agg_ok (new_aggregator interval)" "held_ticks (new_aggregator interval) = 0" "ag_interval (new_aggregator interval) = interval"
    by (simp_all add: agg_ok_def new_aggregator_def held_ticks_def)
  moreover obtain cs ag where "agg_run xs (new_aggregator interval) = (cs, ag)" by fastforce
  ultimately show ?thesis using agg_run_step [of "new_aggregator interval" xs cs ag]
    by (simp add: held_ticks_def emitted_ticks_def)
qed

subsection \<open>No bucket is emitted twice\<close>

definition starts_of :: "string \<Rightarrow> stream_candle list \<Rightarrow> int list" where
  "starts_of sy cs = map sc_start (filter (\<lambda>c. sc_symbol c = sy) cs)"

definition emits_inv :: "stream_candle list \<Rightarrow> aggregator \<Rightarrow> bool" where
  "emits_inv E ag \<longleftrightarrow> agg_ok ag \<and> (\<forall>sy. closed_starts sy ag = starts_of sy E \<and> distinct (starts_of sy E)) \<and>
     (\<forall>sy start ts. map_of (ag_current ag) sy = Some (start, ts) \<longrightarrow> start \<notin> set (starts_of sy E))"

lemma starts_of_append [simp]: "starts_of sy (E @ cs) = starts_of sy E @ starts_of sy cs" "starts_of sy [] = []"
  by (simp_all add: starts_of_def)

lemma starts_of_Cons [simp]: "starts_of sy (c # E) = (if sc_symbol c = sy then sc_start c # starts_of sy E else starts_of sy E)"
  by (simp add: starts_of_def)

lemma length_starts_of: "length (starts_of sy E) \<le> length E"
  by (simp add: starts_of_def)

lemma closed_starts_frame [simp]:
  "closed_starts sy (put_bucket sy' start ts ag) = closed_starts sy ag"
  "closed_starts sy (ag\<lparr>ag_late := n\<rparr>) = closed_starts sy ag"
  "closed_starts sy (ag\<lparr>ag_current := d\<rparr>) = closed_starts sy ag"
  by (simp_all add: closed_starts_def put_bucket_def)

lemma put_bucket_current [simp]:
  "map_of (ag_current (put_bucket sy start ts ag)) sy' = (if sy' = sy then Some (start, ts) else map_of (ag_current ag) sy')"
  by (simp add: put_bucket_def update_conv)

lemma closed_starts_mark:
  assumes "start \<notin> set (closed_starts sy ag)" and "length (closed_starts sy ag) < ag_closed_limit ag"
  shows "closed_starts sy' (mark_closed sy start ag) = closed_starts sy' ag @ (if sy' = sy then [start] else [])"
proof -
  have "closed_starts sy' (mark_closed sy start ag) =
      (if sy' = sy then last_n (ag_closed_limit ag) (closed_starts sy ag @ [start]) else closed_starts sy' ag)"
    using assms(1) by (simp add: mark_closed_def closed_starts_def [of _ "ag_closed_update _ _"] dict_get_def update_conv Let_def)
      (simp add: closed_starts_def dict_get_def)
  then show ?thesis using assms(2) by (simp add: last_n_def)
qed

lemma emits_late: "emits_inv E ag \<Longrightarrow> emits_inv E (ag\<lparr>ag_late := n\<rparr>)"
  by (simp add: emits_inv_def agg_ok_def)

lemma emits_put:
  "emits_inv E ag \<Longrightarrow> agg_ok (put_bucket sy start ts ag) \<Longrightarrow> start \<notin> set (starts_of sy E) \<Longrightarrow>
     emits_inv E (put_bucket sy start ts ag)"
  by (simp add: emits_inv_def)

lemma emits_close:
  assumes "emits_inv E ag" and "length E < ag_closed_limit ag" and "map_of (ag_current ag) sy = Some (os, ts)"
    and "agg_ok ag'" and "ag' = mark_closed sy os (ag\<lparr>ag_current := AList.delete sy (ag_current ag)\<rparr>) \<or>
           (\<exists>start ts'. ag' = put_bucket sy start ts' (mark_closed sy os ag) \<and> start \<noteq> os \<and> start \<notin> set (starts_of sy E))"
  shows "emits_inv (E @ [make_candle i os ts]) ag'"
proof -
  have ok: "agg_ok ag" and closed: "\<And>sy. closed_starts sy ag = starts_of sy E" "\<And>sy. distinct (starts_of sy E)"
    and opened: "\<And>sy start ts. map_of (ag_current ag) sy = Some (start, ts) \<Longrightarrow> start \<notin> set (starts_of sy E)"
    using assms(1) by (auto simp: emits_inv_def)
  from agg_ok_bucket [OF ok assms(3)] have hd: "mk_symbol (hd ts) = sy" by (cases ts) simp_all
  have c: "sc_symbol (make_candle i os ts) = sy" "sc_start (make_candle i os ts) = os"
    by (simp_all add: make_candle_def hd)
  have new: "os \<notin> set (starts_of sy E)" by (rule opened [OF assms(3)])
  have room: "length (starts_of sy E) < ag_closed_limit ag" using length_starts_of [of sy E] assms(2) by simp
  have mark: "closed_starts sy' (mark_closed sy os a) = closed_starts sy' a @ (if sy' = sy then [os] else [])"
    if "closed_starts sy a = starts_of sy E" "ag_closed_limit a = ag_closed_limit ag" for a sy'
    by (rule closed_starts_mark) (simp_all add: that new room)
  from assms(5) show ?thesis
  proof
    assume "ag' = mark_closed sy os (ag\<lparr>ag_current := AList.delete sy (ag_current ag)\<rparr>)"
    with assms(4) c new closed opened show ?thesis
      by (auto simp: emits_inv_def mark delete_conv split: if_splits)
  next
    assume "\<exists>start ts'. ag' = put_bucket sy start ts' (mark_closed sy os ag) \<and> start \<noteq> os \<and> start \<notin> set (starts_of sy E)"
    then obtain start ts' where ag': "ag' = put_bucket sy start ts' (mark_closed sy os ag)" "start \<noteq> os" "start \<notin> set (starts_of sy E)"
      by blast
    have others: "\<forall>sya. sya \<noteq> sy \<longrightarrow> (\<forall>s. (\<exists>ts. map_of (ag_current ag) sya = Some (s, ts)) \<longrightarrow> s \<notin> set (starts_of sya E))"
      using opened by blast
    with ag' assms(4) c new closed show ?thesis
      by (simp add: emits_inv_def mark)
  qed
qed

lemma emits_add:
  assumes "emits_inv E ag" and "length E < ag_closed_limit ag" and "agg_add t ag = (c, ag')"
  shows "emits_inv (E @ cands c) ag'"
proof -
  have ok: "agg_ok ag" using assms(1) by (simp add: emits_inv_def)
  have ok': "agg_ok ag'" using agg_add_step [OF ok assms(3)] by blast
  let ?sy = "mk_symbol t" and ?start = "bucket_start (mk_exchange t) (ag_interval ag)"
  have closed: "closed_starts ?sy ag = starts_of ?sy E" using assms(1) by (simp add: emits_inv_def)
  consider "ag' = ag\<lparr>ag_late := ag_late ag + 1\<rparr>" "c = None"
    | ts where "ag' = put_bucket ?sy ?start ts ag" "c = None" "?start \<notin> set (starts_of ?sy E)"
    | os ts where "map_of (ag_current ag) ?sy = Some (os, ts)" "c = Some (make_candle (ag_interval ag) os ts)"
        "ag' = put_bucket ?sy ?start [t] (mark_closed ?sy os ag)" "?start \<noteq> os" "?start \<notin> set (starts_of ?sy E)"
    using assms(3) closed by (auto simp: agg_add_def Let_def split: option.splits prod.splits if_splits)
  then show ?thesis
  proof cases
    case 1
    then show ?thesis using emits_late [OF assms(1)] by simp
  next
    case 2
    then show ?thesis using emits_put [OF assms(1)] ok' by simp
  next
    case 3
    have "emits_inv (E @ [make_candle (ag_interval ag) os ts]) ag'"
      by (rule emits_close [OF assms(1,2) 3(1) ok']) (use 3(3-5) in blast)
    then show ?thesis using 3(2) by simp
  qed
qed

lemma emits_flush:
  assumes "emits_inv E ag" and "length E < ag_closed_limit ag" and "agg_flush sy ag = (c, ag')"
  shows "emits_inv (E @ cands c) ag'"
proof -
  have ok: "agg_ok ag" using assms(1) by (simp add: emits_inv_def)
  have ok': "agg_ok ag'" using agg_flush_step [OF ok assms(3)] by blast
  show ?thesis
  proof (cases "map_of (ag_current ag) sy")
    case None
    then show ?thesis using assms by (simp add: agg_flush_def)
  next
    case (Some b)
    obtain os ts where b: "b = (os, ts)" by (cases b)
    have c: "c = Some (make_candle (ag_interval ag) os ts)"
      and ag': "ag' = mark_closed sy os (ag\<lparr>ag_current := AList.delete sy (ag_current ag)\<rparr>)"
      using assms(3) Some b by (simp_all add: agg_flush_def)
    have "emits_inv (E @ [make_candle (ag_interval ag) os ts]) ag'"
      by (rule emits_close [OF assms(1,2) Some [unfolded b] ok' disjI1 [OF ag']])
    then show ?thesis using c by simp
  qed
qed

lemma limit_frame:
  "ag_closed_limit (snd (agg_add t ag)) = ag_closed_limit ag" "ag_closed_limit (snd (agg_flush sy ag)) = ag_closed_limit ag"
  by (auto simp: agg_add_def agg_flush_def Let_def split: option.splits)

lemma emits_flush_each:
  "emits_inv E ag \<Longrightarrow> flush_each sys ag = (cs, ag') \<Longrightarrow> length (E @ cs) < ag_closed_limit ag \<Longrightarrow>
     emits_inv (E @ cs) ag' \<and> ag_closed_limit ag' = ag_closed_limit ag"
proof (induction sys arbitrary: E ag cs ag')
  case (Cons sy sys)
  obtain c ag1 where one: "agg_flush sy ag = (c, ag1)" by fastforce
  obtain ds ag2 where rest: "flush_each sys ag1 = (ds, ag2)" by fastforce
  have cs: "cs = cands c @ ds" "ag' = ag2" using Cons.prems(2) one rest by (simp_all add: flush_each_Cons del: flush_each.simps)
  have lim: "ag_closed_limit ag1 = ag_closed_limit ag" using limit_frame(2) [of sy ag] one by simp
  have "emits_inv (E @ cands c) ag1"
    by (rule emits_flush [OF Cons.prems(1) _ one]) (use Cons.prems(3) in simp)
  from Cons.IH [OF this rest] show ?case using Cons.prems(3) cs lim by simp
qed simp

lemma emits_do:
  assumes "emits_inv E ag" and "agg_do x ag = (cs, ag')" and "length (E @ cs) < ag_closed_limit ag"
  shows "emits_inv (E @ cs) ag' \<and> ag_closed_limit ag' = ag_closed_limit ag"
proof (cases x)
  case (Add t)
  obtain c ag1 where "agg_add t ag = (c, ag1)" by fastforce
  with emits_add [OF assms(1) _ this] limit_frame(1) [of t ag] assms(2,3) Add show ?thesis
    by (auto simp: cands_def split: option.splits)
next
  case (Flush sy)
  obtain c ag1 where "agg_flush sy ag = (c, ag1)" by fastforce
  with emits_flush [OF assms(1) _ this] limit_frame(2) [of sy ag] assms(2,3) Flush show ?thesis
    by (auto simp: cands_def split: option.splits)
next
  case FlushAll
  then show ?thesis using assms emits_flush_each by (simp add: flush_all_def)
next
  case (FlushStale now)
  then show ?thesis using assms emits_flush_each by (simp add: flush_stale_def)
qed

lemma emits_run:
  "emits_inv E ag \<Longrightarrow> agg_run xs ag = (cs, ag') \<Longrightarrow> length (E @ cs) < ag_closed_limit ag \<Longrightarrow> emits_inv (E @ cs) ag'"
proof (induction xs arbitrary: E ag cs ag')
  case (Cons x xs)
  obtain ds ag1 where one: "agg_do x ag = (ds, ag1)" by fastforce
  obtain es ag2 where rest: "agg_run xs ag1 = (es, ag2)" by fastforce
  have cs: "cs = ds @ es" "ag' = ag2" using Cons.prems(2) one rest by simp_all
  have s1: "emits_inv (E @ ds) ag1" "ag_closed_limit ag1 = ag_closed_limit ag"
    using emits_do [OF Cons.prems(1) one] Cons.prems(3) cs by simp_all
  have "emits_inv ((E @ ds) @ es) ag2"
    by (rule Cons.IH [OF s1(1) rest]) (use Cons.prems(3) cs s1(2) in simp)
  then show ?case using cs by simp
qed simp

text \<open>
  As long as fewer candles were emitted than closed buckets are remembered (4096), no bucket
  of a symbol is emitted twice, whatever ticks arrive, however late, and whenever buckets are
  flushed by hand or for idleness.
\<close>

theorem no_bucket_emitted_twice:
  assumes "agg_run xs (new_aggregator interval) = (cs, ag)" and "length cs < 4096"
  shows "distinct (map (\<lambda>c. (sc_symbol c, sc_start c)) cs)"
proof -
  have "emits_inv [] (new_aggregator interval)"
    by (simp add: emits_inv_def agg_ok_def new_aggregator_def closed_starts_def dict_get_def)
  from emits_run [OF this assms(1)] assms(2) have inv: "\<And>sy. distinct (starts_of sy cs)"
    by (simp add: emits_inv_def new_aggregator_def)
  have "distinct (map (\<lambda>c. (sc_symbol c, sc_start c)) cs)" if "\<And>sy. distinct (starts_of sy cs)" for cs
    using that
  proof (induction cs)
    case (Cons c cs)
    have "distinct (starts_of sy cs)" for sy using Cons.prems [of sy] by (simp split: if_splits)
    then show ?case using Cons.IH Cons.prems [of "sc_symbol c"] by (auto simp: starts_of_def)
  qed simp
  with inv show ?thesis by blast
qed

definition sample_market_tick :: "datetime \<Rightarrow> rat \<Rightarrow> market_tick" where
  "sample_market_tick ts price = \<lparr>mk_symbol = ''BTC'', mk_price = price, mk_quantity = 1, mk_exchange = ts, mk_received = ts,
     mk_source = ''binance'', mk_event_id = ''e''\<rparr>"

theorem no_bucket_emitted_twice_witness:
  "distinct (map (\<lambda>c. (sc_symbol c, sc_start c)) (fst (agg_run [Add (sample_market_tick 0 1), Add (sample_market_tick 60000000 2),
     Add (sample_market_tick 1000000 3), Flush ''BTC''] (new_aggregator 60))))"
proof -
  let ?run = "agg_run [Add (sample_market_tick 0 1), Add (sample_market_tick 60000000 2),
     Add (sample_market_tick 1000000 3), Flush ''BTC''] (new_aggregator 60)"
  have "length (fst ?run) = 2"
    by (simp add: sample_market_tick_def new_aggregator_def agg_add_def agg_flush_def bucket_start_def epoch_seconds_def
        closed_starts_def dict_get_def put_bucket_def mark_closed_def last_n_def Let_def)
  then show ?thesis
    using no_bucket_emitted_twice [of "[Add (sample_market_tick 0 1), Add (sample_market_tick 60000000 2),
     Add (sample_market_tick 1000000 3), Flush ''BTC'']" 60 "fst ?run" "snd ?run", OF prod.collapse [symmetric]] by linarith
qed

subsection \<open>The recorder\<close>

text \<open>The recorder keeps the last \<open>max_records\<close> ticks; a line decodes to the tick it was
  encoded from (the round trips of \<open>json\<close>, \<open>Decimal\<close> and \<open>isoformat\<close> text), so it is the tick.\<close>

record recorder =
  rr_max :: nat
  rr_records :: "market_tick list"
  rr_dropped :: nat

definition record_tick :: "market_tick \<Rightarrow> recorder \<Rightarrow> recorder" where
  "record_tick t r =
     r\<lparr>rr_records := last_n (rr_max r) (rr_records r @ [t]),
       rr_dropped := rr_dropped r + (if rr_max r \<le> length (rr_records r) then 1 else 0)\<rparr>"

definition replay_ticks :: "recorder \<Rightarrow> market_tick list" where
  "replay_ticks r = rr_records r"

subsection \<open>The streaming service\<close>

text \<open>What a handler did is the list of the ticks it was given; it may raise.\<close>

record stream_service =
  st_max_queue :: nat
  st_reconnect_limit :: nat
  st_heartbeat_timeout :: float64
  st_max_stale :: float64
  st_max_future :: int
  st_clock :: clock_monitor
  st_recorder :: recorder
  st_queue :: "market_tick list"
  st_handler :: "(market_tick \<Rightarrow> unit res) option"
  st_handled :: "market_tick list"
  st_running :: bool
  st_last_tick :: "datetime option"
  st_dropped :: nat
  st_malformed :: nat
  st_latencies :: "float64 list"
  st_resyncs :: nat

definition new_stream_service :: "(market_tick \<Rightarrow> unit res) option \<Rightarrow> stream_service" where
  "new_stream_service handler =
     \<lparr>st_max_queue = 10000, st_reconnect_limit = 3, st_heartbeat_timeout = Fin 30, st_max_stale = Fin 300, st_max_future = 60,
      st_clock = \<lparr>cl_max_drift_ms = Fin 1000, cl_last_drift_ms = 0\<rparr>,
      st_recorder = \<lparr>rr_max = 100000, rr_records = [], rr_dropped = 0\<rparr>,
      st_queue = [], st_handler = handler, st_handled = [], st_running = False, st_last_tick = None, st_dropped = 0,
      st_malformed = 0, st_latencies = [], st_resyncs = 0\<rparr>"

text \<open>A frame is a raw tick, the instant it is received and the id drawn for it.\<close>

type_synonym frame = "raw_tick \<times> datetime \<times> string"

definition keep_latency :: "float64 \<Rightarrow> float64 list \<Rightarrow> float64 list" where
  "keep_latency x xs = (let ys = xs @ [x] in if 2000 < length ys then drop 1000 ys else ys)"

definition ingest :: "frame \<Rightarrow> stream_service \<Rightarrow> market_tick res \<times> stream_service" where
  "ingest fr st =
     (case fr of (raw, now, drawn) \<Rightarrow>
      case validate_tick (st_max_stale st) (st_max_future st) now drawn raw of
        Inl e \<Rightarrow> (Inl e, st\<lparr>st_malformed := st_malformed st + 1\<rparr>)
      | Inr t \<Rightarrow>
          (let st1 = st\<lparr>st_clock := snd (clock_observe (mk_exchange t) now (st_clock st)),
                        st_recorder := record_tick t (st_recorder st), st_last_tick := Some now,
                        st_latencies := keep_latency (latency_ms t) (st_latencies st)\<rparr> in
           (Inr t,
            if st_max_queue st \<noteq> 0 \<and> st_max_queue st \<le> length (st_queue st) then st1\<lparr>st_dropped := st_dropped st + 1\<rparr>
            else st1\<lparr>st_queue := st_queue st @ [t]\<rparr>)))"

fun drain_ticks :: "market_tick list \<Rightarrow> stream_service \<Rightarrow> unit res \<times> stream_service" where
  "drain_ticks [] st = (Inr (), st\<lparr>st_queue := []\<rparr>)"
| "drain_ticks (t # ts) st =
     (case st_handler st of
        None \<Rightarrow> drain_ticks ts st
      | Some h \<Rightarrow>
          (let st1 = st\<lparr>st_handled := st_handled st @ [t], st_queue := ts\<rparr> in
           case h t of Inl e \<Rightarrow> (Inl e, st1) | Inr _ \<Rightarrow> drain_ticks ts st1))"

definition drain_all :: "stream_service \<Rightarrow> unit res \<times> stream_service" where
  "drain_all st = drain_ticks (st_queue st) st"

text \<open>One connection: the frames it delivers, and whether it breaks or ends cleanly.\<close>

type_synonym connection = "frame list \<times> bool"

datatype conn_end = Enough | Ended | Failed

record conn_state =
  cs_service :: stream_service
  cs_attempts :: nat
  cs_received :: nat
  cs_frames :: nat

definition enough :: "nat option \<Rightarrow> nat \<Rightarrow> bool" where
  "enough limit received = (case limit of None \<Rightarrow> False | Some k \<Rightarrow> k \<le> received)"

fun consume :: "nat option \<Rightarrow> bool \<Rightarrow> frame list \<Rightarrow> conn_state \<Rightarrow> conn_end \<times> conn_state" where
  "consume limit breaks [] c = ((if breaks then Failed else Ended), c)"
| "consume limit breaks (fr # frs) c =
     (case ingest fr (cs_service c) of
        (Inl e, st1) \<Rightarrow> consume limit breaks frs (c\<lparr>cs_service := st1\<rparr>)
      | (Inr t, st1) \<Rightarrow>
          (let st2 = (if 0 < cs_attempts c then st1\<lparr>st_resyncs := st_resyncs st1 + 1\<rparr> else st1);
               c1 = c\<lparr>cs_attempts := 0, cs_frames := cs_frames c + 1\<rparr> in
           case drain_all st2 of
             (Inl e, st3) \<Rightarrow> (Failed, c1\<lparr>cs_service := st3\<rparr>)
           | (Inr _, st3) \<Rightarrow>
               (let c2 = c1\<lparr>cs_service := st3, cs_received := cs_received c + 1\<rparr> in
                if enough limit (cs_received c2) then (Enough, c2) else consume limit breaks frs c2)))"

definition backoff :: "nat \<Rightarrow> nat" where
  "backoff attempts = min (2 ^ (attempts - 1)) 30"

text \<open>\<open>run\<close> over the connections the transport gives; the sleeps are listed.\<close>

fun stream_loop :: "nat option \<Rightarrow> connection list \<Rightarrow> conn_state \<Rightarrow> nat list \<times> connection list \<times> conn_state" where
  "stream_loop limit [] c = ([], [], c)"
| "stream_loop limit ((frames, breaks) # conns) c =
     (if \<not> st_running (cs_service c) \<or> enough limit (cs_received c) then ([], (frames, breaks) # conns, c)
      else
      case consume limit breaks frames (c\<lparr>cs_frames := 0\<rparr>) of
        (how, c1) \<Rightarrow>
          if how \<noteq> Failed \<and> cs_frames c1 \<noteq> 0 then stream_loop limit conns (c1\<lparr>cs_attempts := 0\<rparr>)
          else
          let n = cs_attempts c1 + 1; c2 = c1\<lparr>cs_attempts := n\<rparr> in
          if st_reconnect_limit (cs_service c1) < n
          then ([], conns, c2\<lparr>cs_service := (cs_service c1)\<lparr>st_running := False\<rparr>\<rparr>)
          else (case stream_loop limit conns c2 of (sleeps, r) \<Rightarrow> (backoff n # sleeps, r)))"

definition stream_run :: "nat option \<Rightarrow> connection list \<Rightarrow> stream_service \<Rightarrow> nat list \<times> connection list \<times> conn_state" where
  "stream_run limit conns st =
     stream_loop limit conns \<lparr>cs_service = st\<lparr>st_running := True\<rparr>, cs_attempts = 0, cs_received = 0, cs_frames = 0\<rparr>"

definition stream_alive :: "datetime \<Rightarrow> stream_service \<Rightarrow> bool" where
  "stream_alive now st =
     (st_running st \<and> (case st_last_tick st of None \<Rightarrow> True | Some seen \<Rightarrow> total_seconds (now - seen) \<le> st_heartbeat_timeout st))"

text \<open>\<open>health\<close>: whether the stream is alive and the mean of the last hundred latencies.\<close>

definition stream_health :: "datetime \<Rightarrow> stream_service \<Rightarrow> bool \<times> float64" where
  "stream_health now st =
     (stream_alive now st, if st_latencies st = [] then 0 else mean_of (last_n 100 (st_latencies st)))"

subsection \<open>Only validated ticks reach the handler, and every buffer is bounded\<close>

definition sound_tick :: "float64 \<Rightarrow> int \<Rightarrow> market_tick \<Rightarrow> bool" where
  "sound_tick max_stale max_future t \<longleftrightarrow> mk_symbol t \<noteq> [] \<and> 0 < mk_price t \<and> 0 \<le> mk_quantity t \<and>
     mk_exchange t \<le> mk_received t + max_future * 1000000 \<and> \<not> max_stale < total_seconds (mk_received t - mk_exchange t)"

lemma plain_symbol_Some: "plain_symbol s = Some sy \<Longrightarrow> sy \<noteq> []"
  by (auto simp: plain_symbol_def split: option.splits if_splits)

lemma validate_tick_sound:
  assumes "validate_tick ms mf now drawn raw = Inr t"
  shows "sound_tick ms mf t \<and> mk_received t = now"
proof (cases "plain_symbol (rw_symbol raw)")
  case None
  then show ?thesis using assms by (simp add: validate_tick_def)
next
  case (Some sy)
  note sy = plain_symbol_Some [OF Some]
  show ?thesis
  proof (cases "rw_price raw")
    case (Num price)
    note p = Num
    show ?thesis
    proof (cases "case rw_quantity raw of Missing \<Rightarrow> Num 0 | q \<Rightarrow> q")
      case (Num q)
      then show ?thesis
        using assms Some p sy by (auto simp: validate_tick_def sound_tick_def elim!: rbind_eq_InrE split: if_splits)
    qed (use assms Some p in \<open>simp_all add: validate_tick_def split: if_splits\<close>)
  qed (use assms Some in \<open>simp_all add: validate_tick_def\<close>)
qed

definition stream_ok :: "stream_service \<Rightarrow> bool" where
  "stream_ok st \<longleftrightarrow> list_all (sound_tick (st_max_stale st) (st_max_future st)) (st_handled st @ st_queue st) \<and>
     (st_max_queue st \<noteq> 0 \<longrightarrow> length (st_queue st) \<le> st_max_queue st) \<and> length (st_latencies st) \<le> 2000 \<and>
     length (rr_records (st_recorder st)) \<le> rr_max (st_recorder st)"

lemma ingest_ok:
  assumes "stream_ok st"
  shows "stream_ok (snd (ingest fr st))"
proof -
  obtain raw now drawn where fr: "fr = (raw, now, drawn)" by (cases fr)
  show ?thesis
  proof (cases "validate_tick (st_max_stale st) (st_max_future st) now drawn raw")
    case (Inl e)
    then show ?thesis using assms fr by (simp add: ingest_def stream_ok_def)
  next
    case (Inr t)
    then show ?thesis using assms fr validate_tick_sound [OF Inr]
      by (auto simp: ingest_def stream_ok_def Let_def keep_latency_def record_tick_def last_n_def)
  qed
qed

lemma drain_ticks_ok:
  "stream_ok st \<Longrightarrow> list_all (sound_tick (st_max_stale st) (st_max_future st)) ts \<Longrightarrow> length ts \<le> length (st_queue st) \<Longrightarrow>
     stream_ok (snd (drain_ticks ts st))"
proof (induction ts arbitrary: st)
  case Nil
  then show ?case by (simp add: stream_ok_def)
next
  case (Cons t ts)
  show ?case
  proof (cases "st_handler st")
    case None
    then show ?thesis using Cons by simp
  next
    case (Some h)
    let ?st1 = "st\<lparr>st_handled := st_handled st @ [t], st_queue := ts\<rparr>"
    have "stream_ok ?st1" using Cons.prems by (auto simp: stream_ok_def)
    then show ?thesis using Cons.IH [of ?st1] Cons.prems Some by (auto simp: Let_def split: sum.split)
  qed
qed

lemma drain_all_ok: "stream_ok st \<Longrightarrow> stream_ok (snd (drain_all st))"
  unfolding drain_all_def by (rule drain_ticks_ok) (simp_all add: stream_ok_def)

lemma resync_ok [simp]: "stream_ok (st\<lparr>st_resyncs := n\<rparr>) = stream_ok st" "stream_ok (st\<lparr>st_running := b\<rparr>) = stream_ok st"
  by (simp_all add: stream_ok_def)

lemma consume_ok: "stream_ok (cs_service c) \<Longrightarrow> stream_ok (cs_service (snd (consume limit breaks frs c)))"
proof (induction frs arbitrary: c)
  case (Cons fr frs)
  obtain r st1 where ing: "ingest fr (cs_service c) = (r, st1)" by fastforce
  with ingest_ok [OF Cons.prems, of fr] have ok1: "stream_ok st1" by simp
  show ?case
  proof (cases r)
    case (Inl e)
    then show ?thesis using ing ok1 Cons.IH by simp
  next
    case (Inr t)
    let ?st2 = "if 0 < cs_attempts c then st1\<lparr>st_resyncs := st_resyncs st1 + 1\<rparr> else st1"
    obtain q st3 where dr: "drain_all ?st2 = (q, st3)" by fastforce
    have "stream_ok ?st2" using ok1 by simp
    from drain_all_ok [OF this] dr have "stream_ok st3" by simp
    then show ?thesis using ing Inr dr Cons.IH by (auto simp: Let_def split: sum.split)
  qed
qed simp

lemma stream_loop_ok:
  "stream_ok (cs_service c) \<Longrightarrow> stream_ok (cs_service (snd (snd (stream_loop limit conns c))))"
proof (induction limit conns c rule: stream_loop.induct)
  case (2 limit frames breaks conns c)
  obtain how c1 where con: "consume limit breaks frames (c\<lparr>cs_frames := 0\<rparr>) = (how, c1)" by fastforce
  have ok1: "stream_ok (cs_service c1)"
    using consume_ok [of "c\<lparr>cs_frames := 0\<rparr>" limit breaks frames] con "2.prems" by simp
  show ?case
  proof (cases "\<not> st_running (cs_service c) \<or> enough limit (cs_received c)")
    case True
    then show ?thesis using "2.prems" by simp
  next
    case False
    note IH = "2.IH" [OF False con [symmetric]]
    show ?thesis
    proof (cases "how \<noteq> Failed \<and> cs_frames c1 \<noteq> 0")
      case True
      then show ?thesis using IH(1) False con ok1 by simp
    next
      case bad: False
      show ?thesis
      proof (cases "st_reconnect_limit (cs_service c1) < cs_attempts c1 + 1")
        case True
        then show ?thesis using False con bad ok1 by (auto simp: Let_def)
      next
        case more: False
        have "stream_ok (cs_service (snd (snd (stream_loop limit conns (c1\<lparr>cs_attempts := cs_attempts c1 + 1\<rparr>)))))"
          using IH(2) [OF bad refl refl more] ok1 by simp
        then show ?thesis using False con bad more by (auto simp: Let_def split: prod.split)
      qed
    qed
  qed
qed simp

text \<open>
  C19. Whatever a transport delivers, however it breaks and whatever the handler raises: every tick
  the handler is given has a symbol, a positive price, a quantity that is not negative, and is
  neither stale nor from the future by the service's limits; the queue, the latencies and the
  recorder never outgrow their bounds.
\<close>

theorem stream_is_validated_and_bounded:
  "let st = cs_service (snd (snd (stream_run limit conns (new_stream_service h)))) in
   list_all (sound_tick (st_max_stale st) (st_max_future st)) (st_handled st) \<and>
   (st_max_queue st = 0 \<or> length (st_queue st) \<le> st_max_queue st) \<and> length (st_latencies st) \<le> 2000 \<and>
   length (replay_ticks (st_recorder st)) \<le> rr_max (st_recorder st)"
proof -
  let ?c = "\<lparr>cs_service = (new_stream_service h)\<lparr>st_running := True\<rparr>, cs_attempts = 0, cs_received = 0, cs_frames = 0\<rparr>"
  have "stream_ok (cs_service ?c)" by (simp add: stream_ok_def new_stream_service_def)
  then have "stream_ok (cs_service (snd (snd (stream_run limit conns (new_stream_service h)))))"
    unfolding stream_run_def by (rule stream_loop_ok)
  then show ?thesis by (auto simp: stream_ok_def Let_def replay_ticks_def)
qed

subsection \<open>Outages and failing handlers\<close>

text \<open>A connection on which no frame is a valid tick, and one whose first frame is.\<close>

definition rejected :: "stream_service \<Rightarrow> frame \<Rightarrow> bool" where
  "rejected st fr = (case fr of (raw, now, drawn) \<Rightarrow> isl (validate_tick (st_max_stale st) (st_max_future st) now drawn raw))"

definition barren :: "stream_service \<Rightarrow> connection \<Rightarrow> bool" where
  "barren st conn = list_all (rejected st) (fst conn)"

definition lively :: "stream_service \<Rightarrow> connection \<Rightarrow> bool" where
  "lively st conn = (case fst conn of [] \<Rightarrow> False | fr # _ \<Rightarrow> \<not> rejected st fr)"

lemma rejected_frame [simp]:
  "rejected (st\<lparr>st_malformed := n\<rparr>) = rejected st" "rejected (st\<lparr>st_running := b\<rparr>) = rejected st"
  "barren (st\<lparr>st_malformed := n\<rparr>) = barren st" "barren (st\<lparr>st_running := b\<rparr>) = barren st"
  "lively (st\<lparr>st_running := b\<rparr>) = lively st"
proof -
  show r: "rejected (st\<lparr>st_malformed := n\<rparr>) = rejected st" "rejected (st\<lparr>st_running := b\<rparr>) = rejected st"
    by (simp_all add: rejected_def fun_eq_iff)
  show "barren (st\<lparr>st_malformed := n\<rparr>) = barren st" "barren (st\<lparr>st_running := b\<rparr>) = barren st"
    "lively (st\<lparr>st_running := b\<rparr>) = lively st"
    by (rule ext, simp add: barren_def lively_def r split: list.split)+
qed

lemma lively_cong: "st_max_stale st' = st_max_stale st \<Longrightarrow> st_max_future st' = st_max_future st \<Longrightarrow> lively st' conn = lively st conn"
  by (simp add: lively_def rejected_def split: list.split)

lemma ingest_rejected: "rejected st fr \<Longrightarrow> \<exists>e. ingest fr st = (Inl e, st\<lparr>st_malformed := st_malformed st + 1\<rparr>)"
  by (cases fr) (auto simp: rejected_def ingest_def isl_def split: sum.splits)

lemma consume_barren:
  "list_all (rejected (cs_service c)) frs \<Longrightarrow>
     \<exists>how n. consume limit breaks frs c = (how, c\<lparr>cs_service := (cs_service c)\<lparr>st_malformed := n\<rparr>\<rparr>)"
proof (induction frs arbitrary: c)
  case Nil
  show ?case
    by (rule exI [of _ "if breaks then Failed else Ended"], rule exI [of _ "st_malformed (cs_service c)"]) simp
next
  case (Cons fr frs)
  let ?c1 = "c\<lparr>cs_service := (cs_service c)\<lparr>st_malformed := st_malformed (cs_service c) + 1\<rparr>\<rparr>"
  obtain e where e: "ingest fr (cs_service c) = (Inl e, (cs_service c)\<lparr>st_malformed := st_malformed (cs_service c) + 1\<rparr>)"
    using ingest_rejected [of "cs_service c" fr] Cons.prems by auto
  from Cons.IH [of ?c1] Cons.prems obtain how n where "consume limit breaks frs ?c1 = (how, ?c1\<lparr>cs_service := (cs_service ?c1)\<lparr>st_malformed := n\<rparr>\<rparr>)"
    by auto
  then show ?case using e by auto
qed

lemma dead_loop:
  "list_all (barren (cs_service c)) conns \<Longrightarrow> st_running (cs_service c) \<Longrightarrow>
     st_reconnect_limit (cs_service c) - cs_attempts c < length conns \<Longrightarrow>
     cs_attempts c \<le> st_reconnect_limit (cs_service c) \<Longrightarrow>
     \<exists>c'. stream_loop None conns c = (map backoff [cs_attempts c + 1..<st_reconnect_limit (cs_service c) + 1],
        drop (st_reconnect_limit (cs_service c) - cs_attempts c + 1) conns, c') \<and>
       \<not> st_running (cs_service c') \<and> st_handled (cs_service c') = st_handled (cs_service c)"
proof (induction conns arbitrary: c)
  case (Cons conn conns)
  let ?limit = "st_reconnect_limit (cs_service c)"
  obtain frames breaks where conn: "conn = (frames, breaks)" by (cases conn)
  let ?c0 = "c\<lparr>cs_frames := 0\<rparr>"
  obtain how n where con: "consume None breaks frames ?c0 = (how, ?c0\<lparr>cs_service := (cs_service c)\<lparr>st_malformed := n\<rparr>\<rparr>)"
    using consume_barren [of ?c0 frames None breaks] Cons.prems(1) conn by (auto simp: barren_def)
  let ?c2 = "c\<lparr>cs_frames := 0, cs_service := (cs_service c)\<lparr>st_malformed := n\<rparr>, cs_attempts := cs_attempts c + 1\<rparr>"
  show ?case
  proof (cases "?limit < cs_attempts c + 1")
    case True
    then show ?thesis using con conn Cons.prems by (simp add: enough_def Let_def)
  next
    case False
    have lt: "?limit - (cs_attempts c + 1) < length conns" using Cons.prems(3) False by simp
    obtain c' where "stream_loop None conns ?c2 = (map backoff [cs_attempts c + 2..<?limit + 1],
        drop (?limit - (cs_attempts c + 1) + 1) conns, c')" "\<not> st_running (cs_service c')"
        "st_handled (cs_service c') = st_handled (cs_service c)"
      using Cons.IH [of ?c2] Cons.prems False lt by (auto simp del: upt_Suc)
    moreover have "[cs_attempts c + 1..<?limit + 1] = (cs_attempts c + 1) # [cs_attempts c + 2..<?limit + 1]"
      using False by (simp add: upt_conv_Cons del: upt_Suc)
    moreover have "Suc (?limit - Suc (cs_attempts c)) = ?limit - cs_attempts c" using False by linarith
    ultimately show ?thesis using con conn Cons.prems False
      by (simp add: enough_def Let_def del: upt_Suc)
  qed
qed simp

text \<open>
  A transport that never delivers a valid tick is given up after \<open>reconnect_limit\<close> retries,
  with growing pauses, and the handler is never called.  Connections that deliver only
  malformed frames count as outages like the empty ones.
\<close>

theorem dead_transport_gives_up:
  assumes "list_all (barren st) conns" and "st_reconnect_limit st < length conns"
  shows "\<exists>c. stream_run None conns st =
       (map backoff [1..<st_reconnect_limit st + 1], drop (st_reconnect_limit st + 1) conns, c) \<and>
     \<not> st_running (cs_service c) \<and> st_handled (cs_service c) = st_handled st"
proof -
  let ?c = "\<lparr>cs_service = st\<lparr>st_running := True\<rparr>, cs_attempts = 0, cs_received = 0, cs_frames = 0\<rparr>"
  show ?thesis using dead_loop [of ?c conns] assms by (simp add: stream_run_def)
qed

theorem dead_transport_gives_up_witness:
  "\<exists>c. stream_run None [([], True), ([], False), ([], True), ([], True), ([], True)] (new_stream_service None) =
     ([1, 2, 4], [([], True)], c) \<and> \<not> st_running (cs_service c)"
  using dead_transport_gives_up [of "new_stream_service None" "[([], True), ([], False), ([], True), ([], True), ([], True)]"]
  by (auto simp: barren_def new_stream_service_def backoff_def upt_rec)

lemma failing_consume:
  assumes "lively (cs_service c) (frames, breaks)" and "st_handler (cs_service c) = Some h" and "\<And>t. isl (h t)"
    and "st_queue (cs_service c) = []"
  shows "\<exists>c' t. consume None breaks frames c = (Failed, c') \<and> cs_attempts c' = 0 \<and> st_running (cs_service c') = st_running (cs_service c) \<and>
     st_handler (cs_service c') = Some h \<and> st_queue (cs_service c') = [] \<and>
     st_handled (cs_service c') = st_handled (cs_service c) @ [t] \<and>
     st_resyncs (cs_service c') = st_resyncs (cs_service c) + (if 0 < cs_attempts c then 1 else 0) \<and>
     st_max_stale (cs_service c') = st_max_stale (cs_service c) \<and> st_max_future (cs_service c') = st_max_future (cs_service c) \<and>
     st_reconnect_limit (cs_service c') = st_reconnect_limit (cs_service c)"
proof -
  obtain raw now drawn rest where fr: "frames = (raw, now, drawn) # rest" "\<not> rejected (cs_service c) (raw, now, drawn)"
    using assms(1) by (auto simp: lively_def split: list.splits)
  then obtain t where t: "validate_tick (st_max_stale (cs_service c)) (st_max_future (cs_service c)) now drawn raw = Inr t"
    by (auto simp: rejected_def isl_def split: sum.splits) (metis sum.exhaust)
  obtain e where e: "h t = Inl e" using assms(3) [of t] by (auto simp: isl_def)
  show ?thesis
    using assms(2,4) fr t e
    by (cases "st_max_queue (cs_service c) = 0") (simp_all add: ingest_def drain_all_def Let_def)
qed


text \<open>
  A handler that always fails never stops the stream: on a transport whose every connection
  starts with a valid tick, each connection is dropped after that one tick and taken for an
  outage, the next one counts as a successful reconnection and forgets the failures, so the
  service reconnects as often as the transport lets it, always after the shortest pause.
\<close>

theorem failing_handler_reconnects_forever:
  assumes "list_all (lively st) conns" and "st_handler st = Some h" and "\<And>t. isl (h t)" and "st_queue st = []"
    and "1 \<le> st_reconnect_limit st"
  shows "\<exists>c. stream_run None conns st = (replicate (length conns) 1, [], c) \<and> st_running (cs_service c) \<and>
     length (st_handled (cs_service c)) = length (st_handled st) + length conns \<and>
     st_resyncs (cs_service c) = st_resyncs st + (length conns - 1)"
proof -
  have loop: "\<exists>c'. stream_loop None conns c = (replicate (length conns) 1, [], c') \<and> st_running (cs_service c') \<and>
      length (st_handled (cs_service c')) = length (st_handled (cs_service c)) + length conns \<and>
      st_resyncs (cs_service c') = st_resyncs (cs_service c) + (if 0 < cs_attempts c then length conns else length conns - 1)"
    if "list_all (lively (cs_service c)) conns" "st_handler (cs_service c) = Some h" "st_queue (cs_service c) = []"
      "1 \<le> st_reconnect_limit (cs_service c)" "st_running (cs_service c)" for c
    using that
  proof (induction conns arbitrary: c)
    case (Cons conn conns)
    obtain frames breaks where conn: "conn = (frames, breaks)" by (cases conn)
    have l: "lively (cs_service (c\<lparr>cs_frames := 0\<rparr>)) (frames, breaks)" using Cons.prems(1) conn by simp
    obtain c1 t where c1: "consume None breaks frames (c\<lparr>cs_frames := 0\<rparr>) = (Failed, c1)" "cs_attempts c1 = 0"
        "st_running (cs_service c1)" "st_handler (cs_service c1) = Some h" "st_queue (cs_service c1) = []"
        "st_handled (cs_service c1) = st_handled (cs_service c) @ [t]"
        "st_resyncs (cs_service c1) = st_resyncs (cs_service c) + (if 0 < cs_attempts c then 1 else 0)"
        "st_max_stale (cs_service c1) = st_max_stale (cs_service c)" "st_max_future (cs_service c1) = st_max_future (cs_service c)"
        "st_reconnect_limit (cs_service c1) = st_reconnect_limit (cs_service c)"
      using failing_consume [OF l _ assms(3)] Cons.prems by force
    have all: "list_all (lively (cs_service c1)) conns"
      using Cons.prems(1) lively_cong [OF c1(8,9)] by (simp add: list_all_iff)
    obtain c' where c': "stream_loop None conns (c1\<lparr>cs_attempts := 1\<rparr>) = (replicate (length conns) 1, [], c')"
        "st_running (cs_service c')" "length (st_handled (cs_service c')) = length (st_handled (cs_service c1)) + length conns"
        "st_resyncs (cs_service c') = st_resyncs (cs_service c1) + length conns"
      using Cons.IH [of "c1\<lparr>cs_attempts := 1\<rparr>"] all c1 Cons.prems(4) by auto
    have "stream_loop None (conn # conns) c = (replicate (length (conn # conns)) 1, [], c')"
      using c1 c' conn Cons.prems by (simp add: enough_def Let_def backoff_def)
    then show ?case using c1 c' by auto
  qed simp
  show ?thesis
    using loop [of "\<lparr>cs_service = st\<lparr>st_running := True\<rparr>, cs_attempts = 0, cs_received = 0, cs_frames = 0\<rparr>"] assms
    by (simp add: stream_run_def)
qed

definition sample_frame :: frame where
  "sample_frame = (\<lparr>rw_symbol = Some ''BTC'', rw_price = Num 1, rw_quantity = Num 1, rw_timestamp = Missing,
     rw_source = None, rw_event_id = None\<rparr>, 0, ''e'')"

theorem failing_handler_reconnects_forever_witness:
  "\<exists>c. stream_run None (replicate 20 ([sample_frame], False)) (new_stream_service (Some (\<lambda>_. Inl RuntimeError))) =
     (replicate 20 1, [], c) \<and> st_running (cs_service c)"
proof -
  have "lively (new_stream_service (Some (\<lambda>_. Inl RuntimeError))) ([sample_frame], False)"
    by (simp add: lively_def rejected_def sample_frame_def validate_tick_def plain_symbol_def is_space_def char_code_def new_stream_service_def
        total_seconds_def)
  then show ?thesis
    using failing_handler_reconnects_forever [of "new_stream_service (Some (\<lambda>_. Inl RuntimeError))"
        "replicate 20 ([sample_frame], False)" "\<lambda>_. Inl RuntimeError"]
    by (auto simp: list_all_iff new_stream_service_def)
qed

subsection \<open>Replaying a recording\<close>

text \<open>
  The recorder replays exactly the latest ticks it was given, oldest first, up to its
  capacity, and counts the ones that no longer fit.
\<close>

theorem replay_is_latest_ticks:
  "let r = fold record_tick ts \<lparr>rr_max = n, rr_records = [], rr_dropped = 0\<rparr> in
   replay_ticks r = last_n n ts \<and> rr_dropped r = length ts - n"
proof -
  have "fold record_tick ts \<lparr>rr_max = n, rr_records = [], rr_dropped = 0\<rparr> =
      \<lparr>rr_max = n, rr_records = last_n n ts, rr_dropped = length ts - n\<rparr>"
  proof (induction ts rule: rev_induct)
    case (snoc t ts)
    have "last_n n (last_n n ts @ [t]) = last_n n (ts @ [t])"
      by (cases "n \<le> length ts") (simp_all add: last_n_def Suc_diff_le)
    moreover have "(n \<le> length (last_n n ts)) = (n \<le> length ts)"
      by (cases "n \<le> length ts") (simp_all add: last_n_def)
    ultimately show ?case using snoc by (simp add: record_tick_def Suc_diff_le)
  qed (simp add: last_n_def)
  then show ?thesis by (simp add: replay_ticks_def Let_def)
qed

end
