(* ===== verification/Ingestor.thy ===== *)
theory Ingestor
  imports MarketStream Resilience
begin

text \<open>
  \<open>infrastructure/async_streaming.py\<close>: the asyncio task that reads a socket into a bounded
  queue and reconnects with growing delays.

  The socket is the list of what the connection attempts bring; a frame is what the
  transport parses it to, with the instant it is received and the id drawn for it.  The
  event loop interleaves the reader with the consumer of the queue between two frames.  The
  growth factor is the 2.0 of the constructor, which no caller changes: \<open>2.0 ** n\<close> is exact
  up to its overflow, so it is the conversion of the integer power.
\<close>

subsection \<open>The queue\<close>

record ingestor =
  in_max_queue :: nat
  in_base_backoff :: float64
  in_max_backoff :: float64
  in_jitter :: float64
  in_max_reconnects :: "int option"
  in_max_stale :: float64
  in_max_future :: int
  in_heartbeat_timeout :: float64
  in_clock :: clock_monitor
  in_recorder :: recorder
  in_queue :: "market_tick list"
  in_running :: bool
  in_connected :: bool
  in_last_tick :: "datetime option"
  in_latencies :: "float64 list"
  in_dropped :: nat
  in_malformed :: nat
  in_reconnects :: int
  in_messages :: nat
  in_last_delay :: float64

definition new_ingestor :: "nat \<Rightarrow> int option \<Rightarrow> ingestor" where
  "new_ingestor max_queue max_reconnects =
     \<lparr>in_max_queue = max_queue, in_base_backoff = 1, in_max_backoff = Fin 60, in_jitter = lit 0.1,
      in_max_reconnects = max_reconnects, in_max_stale = Fin 300, in_max_future = 60, in_heartbeat_timeout = Fin 30,
      in_clock = \<lparr>cl_max_drift_ms = Fin 1000, cl_last_drift_ms = 0\<rparr>,
      in_recorder = \<lparr>rr_max = 100000, rr_records = [], rr_dropped = 0\<rparr>, in_queue = [], in_running = False,
      in_connected = False, in_last_tick = None, in_latencies = [], in_dropped = 0, in_malformed = 0,
      in_reconnects = 0, in_messages = 0, in_last_delay = 0\<rparr>"

definition ingestor_put :: "frame \<Rightarrow> ingestor \<Rightarrow> unit res \<times> ingestor" where
  "ingestor_put fr st =
     (case fr of (raw, now, drawn) \<Rightarrow>
      case validate_tick (in_max_stale st) (in_max_future st) now drawn raw of
        Inl e \<Rightarrow> (Inl e, st)
      | Inr t \<Rightarrow>
          (let st1 = st\<lparr>in_clock := snd (clock_observe (mk_exchange t) now (in_clock st)),
                        in_recorder := record_tick t (in_recorder st), in_last_tick := Some now,
                        in_latencies := keep_latency (latency_ms t) (in_latencies st)\<rparr> in
           (Inr (),
            if in_max_queue st \<noteq> 0 \<and> in_max_queue st \<le> length (in_queue st) then st1\<lparr>in_dropped := in_dropped st + 1\<rparr>
            else st1\<lparr>in_queue := in_queue st @ [t]\<rparr>)))"

text \<open>One frame of the inner loop; \<open>None\<close> is a frame the transport does not parse to a trade.\<close>

definition ingestor_frame :: "frame option \<Rightarrow> ingestor \<Rightarrow> ingestor" where
  "ingestor_frame f st =
     (case f of
        None \<Rightarrow> st
      | Some fr \<Rightarrow>
          (case ingestor_put fr st of
             (Inr _, st1) \<Rightarrow> st1\<lparr>in_messages := in_messages st1 + 1\<rparr>
           | (Inl _, st1) \<Rightarrow> st1\<lparr>in_malformed := in_malformed st1 + 1\<rparr>))"

text \<open>\<open>drain\<close>: at most \<open>max_items\<close> ticks go to the handler; one that raises has its tick.\<close>

fun ingestor_drain :: "(market_tick \<Rightarrow> unit res) \<Rightarrow> nat option \<Rightarrow> nat \<Rightarrow> market_tick list \<Rightarrow> market_tick list \<times> market_tick list \<times> unit res" where
  "ingestor_drain h max_items count [] = ([], [], Inr ())"
| "ingestor_drain h max_items count (t # ts) =
     (if (case max_items of None \<Rightarrow> True | Some m \<Rightarrow> count < m)
      then (case h t of
              Inl e \<Rightarrow> ([t], ts, Inl e)
            | Inr _ \<Rightarrow> (case ingestor_drain h max_items (count + 1) ts of (given, rest, r) \<Rightarrow> (t # given, rest, r)))
      else ([], t # ts, Inr ()))"

text \<open>The task of the reader and the one of the consumer, interleaved.\<close>

datatype ingest_event = Received "frame option" | Drained "market_tick \<Rightarrow> unit res" "nat option"

fun ingest_step :: "ingest_event \<Rightarrow> market_tick list \<times> ingestor \<Rightarrow> market_tick list \<times> ingestor" where
  "ingest_step (Received f) (handled, st) = (handled, ingestor_frame f st)"
| "ingest_step (Drained h m) (handled, st) =
     (case ingestor_drain h m 0 (in_queue st) of (given, rest, r) \<Rightarrow> (handled @ given, st\<lparr>in_queue := rest\<rparr>))"

definition ingest_run :: "ingest_event list \<Rightarrow> ingestor \<Rightarrow> market_tick list \<times> ingestor" where
  "ingest_run evs st = fold ingest_step evs ([], st)"

lemma drain_splits: "ingestor_drain h m c ts = (given, rest, r) \<Longrightarrow> ts = given @ rest"
  by (induction h m c ts arbitrary: given rest r rule: ingestor_drain.induct) (auto split: if_splits sum.splits prod.splits)

definition accounts_for :: "market_tick list \<times> ingestor \<Rightarrow> bool" where
  "accounts_for x \<longleftrightarrow> in_messages (snd x) = length (fst x) + length (in_queue (snd x)) + in_dropped (snd x) \<and>
     (in_max_queue (snd x) = 0 \<or> length (in_queue (snd x)) \<le> in_max_queue (snd x))"

lemma frame_accounts: "accounts_for (handled, st) \<Longrightarrow>
    accounts_for (handled, ingestor_frame f st) \<and> in_max_queue (ingestor_frame f st) = in_max_queue st"
  by (auto simp: accounts_for_def ingestor_frame_def ingestor_put_def Let_def split: option.splits sum.splits)

lemma step_accounts:
  assumes "accounts_for x"
  shows "accounts_for (ingest_step ev x) \<and> in_max_queue (snd (ingest_step ev x)) = in_max_queue (snd x)"
proof (cases ev)
  case (Received f)
  then show ?thesis using assms frame_accounts by (cases x) auto
next
  case (Drained h m)
  obtain handled st where x: "x = (handled, st)" by (cases x)
  obtain given rest r where d: "ingestor_drain h m 0 (in_queue st) = (given, rest, r)" by (metis prod_cases3)
  have "length (in_queue st) = length given + length rest" using drain_splits [OF d] by simp
  moreover have "ingest_step ev x = (handled @ given, st\<lparr>in_queue := rest\<rparr>)" by (simp add: Drained x d)
  ultimately show ?thesis using assms by (auto simp: x accounts_for_def)
qed

text \<open>
  Every tick is accounted for, and the reader never waits: in every interleaving of received
  frames and drains, with handlers that may raise, the ticks received are those handed to a
  handler, those still queued and those counted as dropped, and the queue stays within its
  bound.
\<close>

theorem ingested_ticks_accounted:
  "case ingest_run evs (new_ingestor max_queue max_reconnects) of (handled, st) \<Rightarrow>
     in_messages st = length handled + length (in_queue st) + in_dropped st \<and>
     (if max_queue = 0 then in_dropped st = 0 else length (in_queue st) \<le> max_queue)"
proof -
  have unbounded: "in_dropped (snd (fold ingest_step evs x)) = in_dropped (snd x)"
    if "in_max_queue (snd x) = 0" for x
    using that
  proof (induction evs arbitrary: x)
    case (Cons ev evs)
    have "in_dropped (snd (ingest_step ev x)) = in_dropped (snd x) \<and> in_max_queue (snd (ingest_step ev x)) = 0"
      using Cons.prems
      by (cases x; cases ev) (auto simp: ingestor_frame_def ingestor_put_def Let_def split: option.splits sum.splits prod.splits)
    then show ?case using Cons.IH by simp
  qed simp
  have "accounts_for (fold ingest_step evs x) \<and> in_max_queue (snd (fold ingest_step evs x)) = in_max_queue (snd x)"
    if "accounts_for x" for x
    using that by (induction evs arbitrary: x) (auto simp: step_accounts)
  moreover have "accounts_for ([], new_ingestor max_queue max_reconnects)" by (simp add: accounts_for_def new_ingestor_def)
  ultimately have "accounts_for (ingest_run evs (new_ingestor max_queue max_reconnects)) \<and>
      in_max_queue (snd (ingest_run evs (new_ingestor max_queue max_reconnects))) = max_queue"
    by (simp add: ingest_run_def) (simp add: new_ingestor_def)
  then show ?thesis
    using unbounded [of "([], new_ingestor max_queue max_reconnects)"]
    by (auto simp: accounts_for_def ingest_run_def new_ingestor_def split: prod.splits)
qed

subsection \<open>Reconnecting\<close>

text \<open>
  One connection attempt: refused, or a session with its frames.  The flags say that the
  process was stopped during the session and during the wait that follows.
\<close>

datatype attempt = Refused bool | Session "frame option list" bool bool

datatype loop_end = GaveUp | Stopped | Raised exc | StillRunning

text \<open>\<open>_backoff\<close>: the exception of the power, or whether to go on.\<close>

definition ingestor_backoff :: "(nat \<Rightarrow> float64) \<Rightarrow> nat \<Rightarrow> bool \<Rightarrow> ingestor \<Rightarrow> bool res \<times> ingestor" where
  "ingestor_backoff random attempts stopped st =
     (if (case in_max_reconnects st of None \<Rightarrow> False | Some m \<Rightarrow> m < in_reconnects st) then (Inr False, st)
      else case int_to_float (2 ^ attempts) of
             Inl e \<Rightarrow> (Inl e, st)
           | Inr factor \<Rightarrow>
               let delay = py_min (in_base_backoff st * factor) (in_max_backoff st);
                   waited = (if 0 < in_jitter st then delay + (0 + (in_jitter st - 0) * random (nat (in_reconnects st))) else delay);
                   st1 = st\<lparr>in_last_delay := waited, in_reconnects := in_reconnects st + 1\<rparr>;
                   st2 = (if stopped then st1\<lparr>in_running := False, in_connected := False\<rparr> else st1) in
               (Inr (in_running st2), st2))"

fun ingest_loop :: "(nat \<Rightarrow> float64) \<Rightarrow> attempt list \<Rightarrow> nat \<Rightarrow> ingestor \<Rightarrow> loop_end \<times> ingestor" where
  "ingest_loop random [] attempts st = (if in_running st then StillRunning else Stopped, st)"
| "ingest_loop random (x # xs) attempts st =
     (if \<not> in_running st then (Stopped, st)
      else case x of
        Refused stopped \<Rightarrow>
          (case ingestor_backoff random attempts stopped (st\<lparr>in_connected := False\<rparr>) of
             (Inl e, st1) \<Rightarrow> (Raised e, st1)
           | (Inr False, st1) \<Rightarrow> (if in_running st1 then GaveUp else Stopped, st1)
           | (Inr True, st1) \<Rightarrow> ingest_loop random xs (attempts + 1) st1)
      | Session frames halted stopped \<Rightarrow>
          (let st1 = (fold ingestor_frame frames (st\<lparr>in_connected := True\<rparr>))\<lparr>in_connected := False\<rparr> in
           if halted then (Stopped, st1\<lparr>in_running := False\<rparr>)
           else (case ingestor_backoff random 1 stopped st1 of
                   (Inl e, st2) \<Rightarrow> (Raised e, st2)
                 | (Inr False, st2) \<Rightarrow> (if in_running st2 then GaveUp else Stopped, st2)
                 | (Inr True, st2) \<Rightarrow> ingest_loop random xs 1 st2)))"

definition ingestor_run :: "(nat \<Rightarrow> float64) \<Rightarrow> attempt list \<Rightarrow> ingestor \<Rightarrow> loop_end \<times> ingestor" where
  "ingestor_run random script st =
     (case ingest_loop random script 0 (st\<lparr>in_running := True\<rparr>) of
        (StillRunning, st1) \<Rightarrow> (StillRunning, st1)
      | (x, st1) \<Rightarrow> (x, st1\<lparr>in_running := False\<rparr>))"

lemma int_to_float_power: "int_to_float (2 ^ a) = (if a \<le> 1023 then Inr (Fin (2 ^ a)) else Inl OverflowError)"
proof (cases "a \<le> 1023")
  case True
  then show ?thesis by (simp add: int_to_float_def power_two_double)
next
  case False
  then have "(2 :: rat) ^ 1024 \<le> 2 ^ a" by (intro power_increasing) simp_all
  moreover have "round_grid (2 ^ a) = (2 :: rat) ^ a" using round_grid_exact [of 1 "int a"] by simp
  moreover have "- (2 ^ 1024) < (2 :: rat) ^ a" by (rule less_le_trans [of _ 0]) simp_all
  ultimately show ?thesis using False by (simp add: int_to_float_def rnd_def Let_def not_less del: power_numeral)
qed

lemma frames_frame_all:
  "in_reconnects (fold ingestor_frame frames st) = in_reconnects st \<and>
   in_max_reconnects (fold ingestor_frame frames st) = in_max_reconnects st \<and>
   in_running (fold ingestor_frame frames st) = in_running st"
proof (induction frames arbitrary: st)
  case (Cons f frames)
  have "in_reconnects (ingestor_frame f st) = in_reconnects st \<and> in_max_reconnects (ingestor_frame f st) = in_max_reconnects st \<and>
      in_running (ingestor_frame f st) = in_running st"
    by (auto simp: ingestor_frame_def ingestor_put_def Let_def split: option.splits sum.splits prod.splits)
  then show ?case using Cons by simp
qed simp

lemmas frames_frame [simp] =
  frames_frame_all [THEN conjunct1] frames_frame_all [THEN conjunct2, THEN conjunct1] frames_frame_all [THEN conjunct2, THEN conjunct2]

text \<open>A wait counts once, and never when the budget is spent.\<close>

definition within_budget :: "int \<Rightarrow> ingestor \<Rightarrow> bool" where
  "within_budget m st \<longleftrightarrow> in_max_reconnects st = Some m \<and> in_reconnects st \<le> max 0 (m + 1)"

lemma backoff_budget:
  "ingestor_backoff random a stopped st = (r, st') \<Longrightarrow> within_budget m st \<Longrightarrow> within_budget m st'"
  by (auto simp: ingestor_backoff_def within_budget_def Let_def split: if_splits sum.splits)

lemma budget_congs [simp]:
  "within_budget m (st\<lparr>in_connected := c\<rparr>) = within_budget m st"
  "within_budget m (st\<lparr>in_running := b\<rparr>) = within_budget m st"
  "within_budget m (fold ingestor_frame frames st) = within_budget m st"
  by (simp_all add: within_budget_def)

lemma loop_budget: "within_budget m st \<Longrightarrow> within_budget m (snd (ingest_loop random script a st))"
proof (induction script arbitrary: a st)
  case Nil
  then show ?case by simp
next
  case (Cons x xs)
  show ?case
  proof (cases x)
    case (Refused stopped)
    obtain r st1 where b: "ingestor_backoff random a stopped (st\<lparr>in_connected := False\<rparr>) = (r, st1)" by fastforce
    have "within_budget m st1" using backoff_budget [OF b] Cons.prems by simp
    then show ?thesis using Cons b Refused by (auto split: sum.splits bool.splits)
  next
    case (Session frames halted stopped)
    let ?st = "(fold ingestor_frame frames (st\<lparr>in_connected := True\<rparr>))\<lparr>in_connected := False\<rparr>"
    obtain r st1 where b: "ingestor_backoff random 1 stopped ?st = (r, st1)" by fastforce
    have "within_budget m st1" using backoff_budget [OF b] Cons.prems by simp
    then show ?thesis using Cons b Session by (auto simp: Let_def split: sum.splits bool.splits)
  qed
qed

text \<open>A socket that refuses every attempt.\<close>

lemma refused_backoff:
  assumes "in_running st" and "case in_max_reconnects st of None \<Rightarrow> True | Some m \<Rightarrow> in_reconnects st \<le> m"
  shows "if a \<le> 1023 then \<exists>st1. ingestor_backoff random a False st = (Inr True, st1) \<and> in_running st1 \<and>
      in_max_reconnects st1 = in_max_reconnects st \<and> in_reconnects st1 = in_reconnects st + 1
    else ingestor_backoff random a False st = (Inl OverflowError, st)"
  using assms by (auto simp: ingestor_backoff_def int_to_float_power Let_def split: option.splits)

lemma refused_loop_step:
  assumes "in_running st" and "case in_max_reconnects st of None \<Rightarrow> True | Some m \<Rightarrow> in_reconnects st \<le> m"
  shows "if a \<le> 1023 then \<exists>st1. ingest_loop random (Refused False # xs) a st = ingest_loop random xs (a + 1) st1 \<and> in_running st1 \<and>
      in_max_reconnects st1 = in_max_reconnects st \<and> in_reconnects st1 = in_reconnects st + 1
    else ingest_loop random (Refused False # xs) a st = (Raised OverflowError, st\<lparr>in_connected := False\<rparr>)"
proof (cases "a \<le> 1023")
  case True
  obtain st1 where st1: "ingestor_backoff random a False (st\<lparr>in_connected := False\<rparr>) = (Inr True, st1)" "in_running st1"
    "in_max_reconnects st1 = in_max_reconnects st" "in_reconnects st1 = in_reconnects st + 1"
    using refused_backoff [of "st\<lparr>in_connected := False\<rparr>" a random] assms True
    by (cases "in_max_reconnects st") auto
  have "ingest_loop random (Refused False # xs) a st = ingest_loop random xs (a + 1) st1" by (simp add: assms(1) st1(1))
  with st1 True show ?thesis by metis
next
  case False
  then show ?thesis using refused_backoff [of "st\<lparr>in_connected := False\<rparr>" a random] assms by (cases "in_max_reconnects st") simp_all
qed

lemma refused_unlimited:
  "in_running st \<Longrightarrow> in_max_reconnects st = None \<Longrightarrow> a \<le> 1024 \<Longrightarrow>
     fst (ingest_loop random (replicate k (Refused False)) a st) = (if a + k \<le> 1024 then StillRunning else Raised OverflowError)"
proof (induction k arbitrary: a st)
  case (Suc k)
  then show ?case
  proof (cases "a \<le> 1023")
    case True
    obtain st1 where st1: "ingest_loop random (Refused False # replicate k (Refused False)) a st =
        ingest_loop random (replicate k (Refused False)) (a + 1) st1" "in_running st1" "in_max_reconnects st1 = None"
      using refused_loop_step [of st a random "replicate k (Refused False)"] Suc.prems(1,2) True by auto
    show ?thesis using Suc.IH [OF st1(2,3), of "a + 1"] st1(1) True by auto
  next
    case False
    then show ?thesis
      using refused_loop_step [of st a random "replicate k (Refused False)"] Suc.prems by (simp del: ingest_loop.simps)
  qed
qed simp

text \<open>
  A long outage ends the task that is meant to survive it: with the unlimited reconnections of
  the deployed ingestor, one thousand and twenty-four refused attempts are waited for and the
  next raises \<open>OverflowError\<close> out of the reconnect loop, about seventeen hours into the outage.
\<close>

theorem long_outage_ends_the_ingestor:
  "fst (ingestor_run random (replicate k (Refused False)) (new_ingestor max_queue None)) =
     (if k \<le> 1024 then StillRunning else Raised OverflowError)"
proof -
  let ?st = "(new_ingestor max_queue None)\<lparr>in_running := True\<rparr>"
  have "in_running ?st" "in_max_reconnects ?st = None" by (simp_all add: new_ingestor_def)
  from refused_unlimited [OF this, of 0 random k]
  have "fst (ingest_loop random (replicate k (Refused False)) 0 ?st) = (if k \<le> 1024 then StillRunning else Raised OverflowError)"
    by simp
  then show ?thesis by (auto simp: ingestor_run_def split: prod.splits loop_end.splits if_splits)
qed

lemma refused_limited:
  "in_running st \<Longrightarrow> in_max_reconnects st = Some m \<Longrightarrow> in_reconnects st + int k = m + 1 \<Longrightarrow> a + k \<le> 1024 \<Longrightarrow>
     \<exists>st1. ingest_loop random (replicate (Suc k) (Refused False)) a st = (GaveUp, st1) \<and> in_reconnects st1 = m + 1"
proof (induction k arbitrary: a st)
  case 0
  then show ?case by (simp add: ingestor_backoff_def)
next
  case (Suc k)
  have small: "a \<le> 1023" "in_reconnects st \<le> m" using Suc.prems by auto
  obtain st1 where st1: "ingest_loop random (Refused False # replicate (Suc k) (Refused False)) a st =
      ingest_loop random (replicate (Suc k) (Refused False)) (a + 1) st1" "in_running st1" "in_max_reconnects st1 = Some m"
    "in_reconnects st1 = in_reconnects st + 1"
    using refused_loop_step [of st a random "replicate (Suc k) (Refused False)"] Suc.prems(1,2) small by (auto simp del: replicate_Suc)
  show ?case using Suc.IH [OF st1(2,3), of "a + 1"] st1(1,4) Suc.prems by (simp del: ingest_loop.simps)
qed

text \<open>
  The reconnection budget holds over the life of the ingestor, one wait above what is
  configured: no script of connections makes more than \<open>m + 1\<close> waits, and a socket that
  refuses every attempt makes that many before the ingestor gives up.
\<close>

theorem reconnect_budget:
  "in_reconnects (snd (ingestor_run random script (new_ingestor max_queue (Some m)))) \<le> max 0 (m + 1) \<and>
   (if 0 \<le> m \<and> m \<le> 1000
    then fst (ingestor_run random (replicate (nat m + 2) (Refused False)) (new_ingestor max_queue (Some m))) = GaveUp \<and>
      in_reconnects (snd (ingestor_run random (replicate (nat m + 2) (Refused False)) (new_ingestor max_queue (Some m)))) = m + 1
    else True)"
proof -
  let ?st = "(new_ingestor max_queue (Some m))\<lparr>in_running := True\<rparr>"
  have start: "within_budget m ?st" "in_running ?st" "in_max_reconnects ?st = Some m" "in_reconnects ?st = 0"
    by (simp_all add: within_budget_def new_ingestor_def)
  have run: "in_reconnects (snd (ingestor_run random xs (new_ingestor max_queue (Some m)))) = in_reconnects (snd (ingest_loop random xs 0 ?st))"
    for xs by (auto simp: ingestor_run_def split: prod.splits loop_end.splits)
  have "in_reconnects (snd (ingest_loop random script 0 ?st)) \<le> max 0 (m + 1)"
    using loop_budget [OF start(1)] by (simp add: within_budget_def)
  moreover have "fst (ingestor_run random (replicate (nat m + 2) (Refused False)) (new_ingestor max_queue (Some m))) = GaveUp \<and>
      in_reconnects (snd (ingest_loop random (replicate (nat m + 2) (Refused False)) 0 ?st)) = m + 1"
    if "0 \<le> m" "m \<le> 1000"
  proof -
    have "in_reconnects ?st + int (nat m + 1) = m + 1" "0 + (nat m + 1) \<le> 1024" using start(4) that by auto
    from refused_limited [OF start(2,3) this, of random] obtain st1
      where "ingest_loop random (replicate (nat m + 2) (Refused False)) 0 ?st = (GaveUp, st1)" "in_reconnects st1 = m + 1"
      by auto
    then show ?thesis by (simp add: ingestor_run_def)
  qed
  ultimately show ?thesis by (simp add: run)
qed

subsection \<open>Health\<close>

definition ingestor_alive :: "datetime \<Rightarrow> ingestor \<Rightarrow> bool" where
  "ingestor_alive now st \<longleftrightarrow> in_running st \<and>
     (case in_last_tick st of None \<Rightarrow> True | Some t \<Rightarrow> total_seconds (now - t) \<le> in_heartbeat_timeout st)"

text \<open>
  An ingestor that never received a tick is healthy as long as it runs: a socket that
  refuses every attempt keeps the health check green.
\<close>

theorem never_connected_is_healthy:
  "ingestor_alive now (snd (ingestor_run random (replicate k (Refused False)) (new_ingestor max_queue None))) \<longleftrightarrow> k \<le> 1024"
proof -
  let ?st = "(new_ingestor max_queue None)\<lparr>in_running := True\<rparr>"
  have keep: "in_last_tick (snd (ingest_loop random (replicate j (Refused False)) a st)) = in_last_tick st" for j a st
    by (induction j arbitrary: a st)
      (auto simp: ingestor_backoff_def Let_def split: sum.splits bool.splits if_splits)
  have runs: "fst (ingest_loop random (replicate j (Refused False)) a st) = StillRunning \<Longrightarrow>
      in_running (snd (ingest_loop random (replicate j (Refused False)) a st))" for j a st
    by (induction j arbitrary: a st) (auto split: prod.splits sum.splits bool.splits if_splits)
  have "fst (ingestor_run random (replicate k (Refused False)) (new_ingestor max_queue None)) =
     (if k \<le> 1024 then StillRunning else Raised OverflowError)" by (rule long_outage_ends_the_ingestor)
  then show ?thesis
    using keep [of k 0 ?st] runs [of k 0 ?st]
    by (auto simp: ingestor_run_def ingestor_alive_def new_ingestor_def split: prod.splits loop_end.splits if_splits)
qed

end
