(* ===== verification/Manifest.thy ===== *)
theory Manifest
  imports Observability
begin

text \<open>
  \<open>infrastructure/run_manifest.py\<close> and the manifest services of \<open>observability.py\<close> and
  \<open>observability_postgres.py\<close>: the record of what the processes ran, and the detection of a
  crash that \<open>application/daemon_controller.py\<close> bases on it.

  A table is the list of its rows in the order of their ids.
\<close>

record manifest_entry =
  mf_run_id :: uuid
  mf_service :: string
  mf_action :: string
  mf_status :: string

definition manifest_record :: "uuid \<Rightarrow> string \<Rightarrow> string \<Rightarrow> string \<Rightarrow> manifest_entry list \<Rightarrow> manifest_entry list" where
  "manifest_record fresh service action status es =
     es @ [\<lparr>mf_run_id = fresh, mf_service = service, mf_action = action, mf_status = status\<rparr>]"

text \<open>The rows of a service; the in-memory and the two durable services take an empty name for none.\<close>

definition of_service :: "string option \<Rightarrow> manifest_entry list \<Rightarrow> manifest_entry list" where
  "of_service service es =
     (case service of None \<Rightarrow> es | Some s \<Rightarrow> if s = [] then es else filter (\<lambda>e. mf_service e = s) es)"

definition memory_runs :: "string option \<Rightarrow> int \<Rightarrow> int \<Rightarrow> manifest_entry list \<Rightarrow> manifest_entry list" where
  "memory_runs service limit offset es =
     (let results = of_service service es; stop = int (length results) - offset; start = max 0 (stop - limit);
          a = slice_bound start results; b = slice_bound stop results in
      take (b - a) (drop a results))"

definition sql_page :: "int \<Rightarrow> int \<Rightarrow> 'a list \<Rightarrow> 'a list" where
  "sql_page limit offset rows =
     (let rest = drop (nat offset) rows in if limit < 0 then rest else take (nat limit) rest)"

text \<open>The services the factory wires, newest first, and the one it does not, oldest first.\<close>

definition sql_runs :: "string option \<Rightarrow> int \<Rightarrow> int \<Rightarrow> manifest_entry list \<Rightarrow> manifest_entry list" where
  "sql_runs service limit offset es = sql_page limit offset (rev (of_service service es))"

definition durable_runs :: "string option \<Rightarrow> int \<Rightarrow> int \<Rightarrow> manifest_entry list \<Rightarrow> manifest_entry list" where
  "durable_runs service limit offset es =
     rev (sql_page limit offset
       (rev (case service of None \<Rightarrow> es | Some s \<Rightarrow> filter (\<lambda>e. mf_service e = s) es)))"

definition manifest_summary :: "manifest_entry list \<Rightarrow> (string \<times> nat) list" where
  "manifest_summary es = fold (\<lambda>e counts. AList.update (mf_service e) (dict_get counts (mf_service e) 0 + 1) counts) es []"

definition detect_unclean_shutdown :: "string \<Rightarrow> int \<Rightarrow> manifest_entry list \<Rightarrow> bool" where
  "detect_unclean_shutdown service lookback es =
     (let runs = durable_runs (Some service) lookback 0 es in
      if runs = [] then False
      else mf_action (last runs) = ''start'' \<and> mf_status (last runs) \<in> {''completed'', ''running''})"

subsection \<open>Crash detection\<close>

text \<open>What \<open>getattr(manifest, "detect_unclean_shutdown", None)\<close> finds on each class, and the class
  the factory wires for each database.\<close>

datatype manifest_class = MemoryManifest | SqliteManifest | PostgresManifest | DurableManifest

definition detector :: "manifest_class \<Rightarrow> (string \<Rightarrow> manifest_entry list \<Rightarrow> bool) option" where
  "detector k = (case k of DurableManifest \<Rightarrow> Some (\<lambda>service es. detect_unclean_shutdown service 50 es) | _ \<Rightarrow> None)"

datatype database = NoDatabase | SqliteDatabase | PostgresDatabase

fun wired_manifest :: "database \<Rightarrow> manifest_class" where
  "wired_manifest NoDatabase = MemoryManifest"
| "wired_manifest SqliteDatabase = SqliteManifest"
| "wired_manifest PostgresDatabase = PostgresManifest"

definition detect_crash :: "manifest_class \<Rightarrow> manifest_entry list \<Rightarrow> bool" where
  "detect_crash k es = (case detector k of None \<Rightarrow> False | Some f \<Rightarrow> f ''orchestrator'' es)"

text \<open>
  The crash recovery is dead code: none of the manifests the factory wires has the detector,
  so the daemon never sees a crash, whatever the manifest says; the class that has it would.
\<close>

theorem crash_is_never_detected:
  "\<not> detect_crash (wired_manifest db) es \<and>
   detect_crash DurableManifest (manifest_record fresh ''orchestrator'' ''start'' ''completed'' es)"
  by (cases db) (simp_all add: detect_crash_def detector_def detect_unclean_shutdown_def durable_runs_def sql_page_def
      manifest_record_def Let_def)

text \<open>The manifest of a daemon's life: it starts, runs backtest cycles, and stops or is killed.\<close>

definition daemon_life :: "nat \<Rightarrow> bool \<Rightarrow> manifest_entry list \<Rightarrow> manifest_entry list" where
  "daemon_life backtests clean es =
     (let note = (\<lambda>action es. manifest_record [] ''orchestrator'' action ''completed'' es);
          ran = (note ''backtest'' ^^ backtests) (note ''start'' es) in
      if clean then note ''stop'' ran else ran)"

text \<open>
  Even with the detector wired, only a death before the first backtest record is seen: the
  last action of a daemon that was killed after one is not the start.
\<close>

theorem backtest_record_masks_crash:
  "detect_crash DurableManifest (daemon_life backtests clean es) \<longleftrightarrow> \<not> clean \<and> backtests = 0"
proof -
  have last: "\<exists>xs e. daemon_life backtests clean es = xs @ [e] \<and> mf_service e = ''orchestrator'' \<and> mf_status e = ''completed'' \<and>
      mf_action e = (if clean then ''stop'' else if backtests = 0 then ''start'' else ''backtest'')"
    by (cases backtests) (auto simp: daemon_life_def manifest_record_def Let_def)
  then obtain xs e where "daemon_life backtests clean es = xs @ [e]" "mf_service e = ''orchestrator''" "mf_status e = ''completed''"
    "mf_action e = (if clean then ''stop'' else if backtests = 0 then ''start'' else ''backtest'')" by blast
  then show ?thesis
    by (simp add: detect_crash_def detector_def detect_unclean_shutdown_def durable_runs_def sql_page_def Let_def)
qed

subsection \<open>Pages\<close>

text \<open>
  The pages of the manifests: for an offset within the history and a limit that is not
  negative the in-memory service answers like the unused durable one, and the SQL services
  give the same entries newest first.  Past the end the in-memory one wraps around: its
  negative end counts from the back, so it answers early entries where the others are empty.
\<close>

theorem manifest_pages:
  "if 0 \<le> limit \<and> 0 \<le> offset \<and> offset \<le> int (length (of_service service es))
   then memory_runs service limit offset es = rev (sql_runs service limit offset es)
   else if 0 \<le> limit \<and> int (length (of_service service es)) < offset
   then sql_runs service limit offset es = [] \<and>
     memory_runs service limit offset es = take (nat (2 * int (length (of_service service es)) - offset)) (of_service service es)
   else True"
proof -
  let ?xs = "of_service service es"
  have inside: "rev (take (nat limit) (drop (nat offset) (rev ?xs))) =
      take (nat (int (length ?xs) - offset) - nat (max 0 (int (length ?xs) - offset - limit)))
        (drop (nat (max 0 (int (length ?xs) - offset - limit))) ?xs)"
    if "0 \<le> limit" "0 \<le> offset" "offset \<le> int (length ?xs)"
  proof -
    have "nat (int (length ?xs) - offset) = length ?xs - nat offset" using that by linarith
    moreover have "nat (max 0 (int (length ?xs) - offset - limit)) = length ?xs - nat offset - nat limit" using that by linarith
    ultimately show ?thesis using that by (simp add: drop_rev take_rev drop_take min_absorb2)
  qed
  have bound: "slice_bound i ?xs = nat i" if "0 \<le> i" "i \<le> int (length ?xs)" for i
    using that by (simp add: slice_bound_def)
  consider (page) "0 \<le> limit" "0 \<le> offset" "offset \<le> int (length ?xs)"
    | (past) "0 \<le> limit" "int (length ?xs) < offset"
    | (other) "\<not> (0 \<le> limit \<and> 0 \<le> offset \<and> offset \<le> int (length ?xs))" "\<not> (0 \<le> limit \<and> int (length ?xs) < offset)"
    by linarith
  then show ?thesis
  proof cases
    case page
    then have "memory_runs service limit offset es =
        take (nat (int (length ?xs) - offset) - nat (max 0 (int (length ?xs) - offset - limit)))
          (drop (nat (max 0 (int (length ?xs) - offset - limit))) ?xs)"
      by (simp add: memory_runs_def Let_def bound)
    then show ?thesis using page inside by (simp add: sql_runs_def sql_page_def)
  next
    case past
    then have "slice_bound (int (length ?xs) - offset) ?xs = nat (2 * int (length ?xs) - offset)"
      and "max 0 (int (length ?xs) - offset - limit) = 0" and "nat offset \<ge> length ?xs"
      by (auto simp: slice_bound_def)
    then show ?thesis using past by (simp add: memory_runs_def sql_runs_def sql_page_def slice_bound_def [of 0] Let_def)
  next
    case other
    then show ?thesis by (simp only: if_False simp_thms)
  qed
qed

end
