(* ===== verification/Patterns.thy ===== *)
theory Patterns
  imports Analysis
begin

text \<open>
  \<open>domain/services/{breakout_detection,swing_detection,sweep_detection,liquidity_zone_service,
  correlation_service}.py\<close>: the chart patterns computed from a series of candles.

  All of them are pure functions of the series.  A description that formats a price keeps the
  price; sets of prices already handled are the prefix of the loop.
\<close>

subsection \<open>Volatility breakouts\<close>

text \<open>Population standard deviation; zero below two values.\<close>

definition std_of :: "float64 list \<Rightarrow> float64 res" where
  "std_of vs =
     (if length vs < 2 then Inr 0
      else let mean = mean_of vs in
      rbind (sum_squares (map (\<lambda>v. v - mean) vs)) (\<lambda>ss. py_sqrt (fquot ss (rnd (of_nat (length vs))))))"

fun bar_returns :: "float64 list \<Rightarrow> float64 list" where
  "bar_returns (p # c # cs) = (if feq p 0 then 0 else fquot (c - p) p) # bar_returns (c # cs)"
| "bar_returns _ = []"

record breakout_event =
  be_timestamp :: datetime
  be_type :: string
  be_close :: "float64 option"

text \<open>One index of the loop: the volatility there, its moving average, the two tests.\<close>

definition breakout_at ::
  "float64 \<Rightarrow> float64 \<Rightarrow> nat \<Rightarrow> nat \<Rightarrow> candle list \<Rightarrow> nat \<Rightarrow> bool \<Rightarrow> (breakout_event list \<times> bool) res" where
  "breakout_at vol_threshold sensitivity vol_window ma_window cs i prev_consolidating =
     (let returns = bar_returns (map cn_close cs);
          vol_at = (\<lambda>j. std_of (take vol_window (drop (j + 1 - vol_window) returns))) in
      rbind (vol_at i) (\<lambda>vol_std.
      rbind (mapr vol_at [i + 1 - ma_window..<i + 1]) (\<lambda>vol_stds.
      let vol_ma = (if vol_stds = [] then 0 else mean_of vol_stds);
          is_consolidating = vol_std < vol_threshold;
          is_breaking_out = vol_ma * sensitivity < vol_std \<and> \<not> prev_consolidating;
          c = cs ! (i + 1) in
      Inr (if is_breaking_out
           then [\<lparr>be_timestamp = cn_timestamp c, be_type = ''Breakout'', be_close = Some (cn_close c)\<rparr>]
           else if is_consolidating \<and> \<not> prev_consolidating
           then [\<lparr>be_timestamp = cn_timestamp c, be_type = ''Consolidation'', be_close = None\<rparr>]
           else [], is_consolidating))))"

fun breakout_loop ::
  "(nat \<Rightarrow> bool \<Rightarrow> (breakout_event list \<times> bool) res) \<Rightarrow> nat list \<Rightarrow> bool \<Rightarrow> breakout_event list res" where
  "breakout_loop f [] prev = Inr []"
| "breakout_loop f (i # is) prev =
     rbind (f i prev) (\<lambda>(evs, now). rbind (breakout_loop f is now) (\<lambda>rest. Inr (evs @ rest)))"

definition analyze_breakouts ::
  "float64 \<Rightarrow> float64 \<Rightarrow> nat \<Rightarrow> nat \<Rightarrow> candle list \<Rightarrow> breakout_event list res" where
  "analyze_breakouts vol_threshold sensitivity vol_window ma_window cs =
     (if cs = [] \<or> length cs < ma_window + vol_window then Inr []
      else breakout_loop (breakout_at vol_threshold sensitivity vol_window ma_window cs)
             [ma_window + vol_window - 2..<length cs - 1] False)"

subsection \<open>Swings and sweeps\<close>

record swings =
  sw_highs :: "indicator list"
  sw_lows :: "indicator list"

definition strict_among :: "(float64 \<Rightarrow> float64 \<Rightarrow> bool) \<Rightarrow> float64 list \<Rightarrow> nat \<Rightarrow> nat \<Rightarrow> bool" where
  "strict_among better xs w i =
     list_all (\<lambda>j. j = i \<or> better (xs ! i) (xs ! j)) [i - w..<i + w + 1]"

definition detect_swings :: "uuid \<Rightarrow> candle list \<Rightarrow> nat \<Rightarrow> swings" where
  "detect_swings m cs w =
     (if cs = [] \<or> w < 1 then \<lparr>sw_highs = [], sw_lows = []\<rparr>
      else
      let at_bar = (\<lambda>nm price i. \<lparr>id_market = m, id_timestamp = cn_timestamp (cs ! i), id_name = [L nm], id_value = price (cs ! i)\<rparr>);
          inner = [w..<length cs - w] in
      \<lparr>sw_highs = map (at_bar ''swing_high'' cn_high) (filter (strict_among (\<lambda>x y. y < x) (map cn_high cs) w) inner),
       sw_lows = map (at_bar ''swing_low'' cn_low) (filter (strict_among (\<lambda>x y. x < y) (map cn_low cs) w) inner)\<rparr>)"

definition recent_swings :: "uuid \<Rightarrow> candle list \<Rightarrow> nat \<Rightarrow> nat \<Rightarrow> swings" where
  "recent_swings m cs w count =
     (let s = detect_swings m cs w;
          recent = (\<lambda>xs. if count = 0 then xs else last_n count xs) in
      \<lparr>sw_highs = recent (sw_highs s), sw_lows = recent (sw_lows s)\<rparr>)"

record sweep_event =
  se_timestamp :: datetime
  se_type :: string
  se_level :: float64

definition sweeps_of_bar :: "float64 option \<Rightarrow> float64 option \<Rightarrow> candle \<Rightarrow> sweep_event list" where
  "sweeps_of_bar last_high last_low c =
     (case last_low of None \<Rightarrow> []
      | Some l \<Rightarrow> if cn_low c < l \<and> l < cn_close c
          then [\<lparr>se_timestamp = cn_timestamp c, se_type = ''Liquidity Sweep (Bullish)'', se_level = l\<rparr>] else []) @
     (case last_high of None \<Rightarrow> []
      | Some h \<Rightarrow> if h < cn_high c \<and> cn_close c < h
          then [\<lparr>se_timestamp = cn_timestamp c, se_type = ''Liquidity Sweep (Bearish)'', se_level = h\<rparr>] else [])"

definition detect_sweeps :: "candle list \<Rightarrow> float64 list \<Rightarrow> float64 list \<Rightarrow> sweep_event list" where
  "detect_sweeps cs highs lows =
     (let last_of = (\<lambda>xs. if xs = [] then None else Some (last xs)) in
      concat (map (sweeps_of_bar (last_of highs) (last_of lows)) cs))"

subsection \<open>Liquidity zones\<close>

datatype zone_type = SUPPORT | RESISTANCE

record zone =
  zn_market :: uuid
  zn_price :: float64
  zn_type :: zone_type
  zn_strength :: nat
  zn_detected_at :: datetime

definition zone_distance :: "float64 \<Rightarrow> float64 \<Rightarrow> float64" where
  "zone_distance from_price price = fquot (price - from_price) (py_max from_price (lit (1 / 1000)))"

definition near :: "float64 \<Rightarrow> float64 \<Rightarrow> float64 \<Rightarrow> bool" where
  "near threshold price h = (fquot \<bar>h - price\<bar> (py_max price (lit (1 / 1000))) < threshold)"

text \<open>Each distinct price once, in order of its first occurrence; \<open>None\<close> when it is lonely.\<close>

definition zone_at :: "zone_type \<Rightarrow> float64 \<Rightarrow> indicator list \<Rightarrow> float64 \<Rightarrow> zone option" where
  "zone_at kind threshold inds price =
     (let close_by = filter (\<lambda>i. near threshold price (id_value i)) inds in
      if 2 \<le> length close_by
      then Some \<lparr>zn_market = id_market (hd inds), zn_price = price, zn_type = kind, zn_strength = length close_by,
                 zn_detected_at = foldl max (id_timestamp (hd close_by)) (map id_timestamp close_by)\<rparr>
      else None)"

fun first_occurrences :: "float64 list \<Rightarrow> float64 list \<Rightarrow> float64 list" where
  "first_occurrences seen [] = []"
| "first_occurrences seen (x # xs) =
     (if list_ex (feq x) seen then first_occurrences seen xs else x # first_occurrences (x # seen) xs)"

definition zones_of :: "zone_type \<Rightarrow> float64 \<Rightarrow> indicator list \<Rightarrow> zone list" where
  "zones_of kind threshold inds = List.map_filter (zone_at kind threshold inds) (first_occurrences [] (map id_value inds))"

text \<open>\<open>sorted(zones, key=price)\<close>: a stable insertion of each zone in front of the first
  dearer one.\<close>

fun insert_zone :: "zone \<Rightarrow> zone list \<Rightarrow> zone list" where
  "insert_zone z [] = [z]"
| "insert_zone z (y # ys) = (if zn_price z < zn_price y then z # y # ys else y # insert_zone z ys)"

definition sort_zones :: "zone list \<Rightarrow> zone list" where
  "sort_zones zs = foldl (\<lambda>acc z. insert_zone z acc) [] zs"

fun merge_zones :: "float64 \<Rightarrow> zone \<Rightarrow> zone list \<Rightarrow> zone list" where
  "merge_zones threshold current [] = [current]"
| "merge_zones threshold current (z # zs) =
     (if zone_distance (zn_price current) (zn_price z) < threshold
      then merge_zones threshold (if zn_strength current < zn_strength z then z else current) zs
      else current # merge_zones threshold z zs)"

definition filter_zones :: "float64 \<Rightarrow> zone list \<Rightarrow> zone list" where
  "filter_zones threshold zs = (case sort_zones zs of [] \<Rightarrow> [] | z # rest \<Rightarrow> merge_zones threshold z rest)"

definition map_zones :: "float64 \<Rightarrow> indicator list \<Rightarrow> indicator list \<Rightarrow> zone list" where
  "map_zones threshold highs lows =
     filter_zones threshold (zones_of RESISTANCE threshold highs @ zones_of SUPPORT threshold lows)"

subsection \<open>Correlation\<close>

text \<open>Returns of consecutive prices; a price of zero raises.\<close>

fun strict_returns :: "float64 list \<Rightarrow> float64 list res" where
  "strict_returns (p # c # cs) = rbind (py_div (c - p) p) (\<lambda>r. rbind (strict_returns (c # cs)) (\<lambda>rs. Inr (r # rs)))"
| "strict_returns _ = Inr []"

definition correlation_of :: "float64 list \<Rightarrow> float64 list \<Rightarrow> float64 option res" where
  "correlation_of ra rb =
     (let mean_a = mean_of ra; mean_b = mean_of rb;
          cov = py_sum (map2 (\<lambda>a b. (a - mean_a) * (b - mean_b)) ra rb) in
      rbind (sum_squares (map (\<lambda>a. a - mean_a) ra)) (\<lambda>var_a.
      rbind (sum_squares (map (\<lambda>b. b - mean_b) rb)) (\<lambda>var_b.
        if feq var_a 0 \<or> feq var_b 0 then Inr None
        else
        rbind (py_sqrt (var_a * var_b)) (\<lambda>root.
        rbind (py_div cov root) (\<lambda>r. Inr (Some (py_max (Fin (- 1)) (py_min 1 r))))))))"

definition compute_correlation :: "candle list \<Rightarrow> candle list \<Rightarrow> (float64 \<times> nat) option res" where
  "compute_correlation as bs =
     (let a_by_ts = dict_of cn_timestamp cn_close as; b_by_ts = dict_of cn_timestamp cn_close bs;
          common = sort (filter (\<lambda>ts. ts \<in> set (dict_keys b_by_ts)) (dict_keys a_by_ts)) in
      if as = [] \<or> bs = [] \<or> length common < 2 then Inr None
      else
      rbind (strict_returns (map (\<lambda>ts. dict_get a_by_ts ts NaN) common)) (\<lambda>ra.
      rbind (strict_returns (map (\<lambda>ts. dict_get b_by_ts ts NaN) common)) (\<lambda>rb.
        if length ra < 2 then Inr None
        else rbind (correlation_of ra rb) (\<lambda>r. Inr (map_option (\<lambda>v. (v, length ra)) r)))))"

fun correlation_row :: "string \<Rightarrow> candle list \<Rightarrow> (string \<times> candle list) list \<Rightarrow> ((string \<times> string) \<times> float64) list res" where
  "correlation_row s cs [] = Inr []"
| "correlation_row s cs ((s', cs') # rest) =
     rbind (compute_correlation cs cs') (\<lambda>r. rbind (correlation_row s cs rest) (\<lambda>row.
       Inr (case r of None \<Rightarrow> row | Some (v, n) \<Rightarrow> ((s, s'), v) # row)))"

fun correlation_matrix :: "(string \<times> candle list) list \<Rightarrow> ((string \<times> string) \<times> float64) list res" where
  "correlation_matrix [] = Inr []"
| "correlation_matrix ((s, cs) # rest) =
     rbind (correlation_row s cs rest) (\<lambda>row. rbind (correlation_matrix rest) (\<lambda>rows. Inr (row @ rows)))"

subsection \<open>What the patterns guarantee\<close>

lemma correlation_clamped:
  assumes "correlation_of ra rb = Inr (Some v)"
  shows "Fin (- 1) \<le> v \<and> v \<le> Fin 1"
proof -
  obtain r where "v = py_max (Fin (- 1)) (py_min 1 r)"
    using assms by (auto simp: correlation_of_def Let_def split: if_splits elim!: rbind_eq_InrE)
  then show ?thesis by (cases r) (auto simp: py_max_def py_min_def one_eq_Fin)
qed

text \<open>A correlation is always within its range, even when an intermediate value is NaN.\<close>

theorem correlation_in_range:
  "case compute_correlation as bs of Inr (Some (v, n)) \<Rightarrow> Fin (- 1) \<le> v \<and> v \<le> Fin 1 \<and> 2 \<le> n | _ \<Rightarrow> True"
proof (cases "compute_correlation as bs")
  case (Inr r)
  show ?thesis
  proof (cases r)
    case (Some vn)
    obtain v n where vn: "vn = (v, n)" by (cases vn)
    obtain ra rb where "correlation_of ra rb = Inr (Some v)" and n: "n = length ra" "2 \<le> n"
      using Inr Some vn by (auto simp: compute_correlation_def Let_def split: if_splits elim!: rbind_eq_InrE)
    from correlation_clamped [OF this(1)] n show ?thesis by (simp add: Inr Some vn)
  qed (simp add: Inr)
qed simp

text \<open>A confirmed swing never disappears: later candles only add swings at the end.\<close>

lemma strict_among_append:
  "i + w < length xs \<Longrightarrow> strict_among better (xs @ ys) w i = strict_among better xs w i"
  unfolding strict_among_def by (rule list.pred_cong [OF refl]) (auto simp: nth_append)

lemma filter_upt_prefix:
  assumes "\<And>i. a \<le> i \<Longrightarrow> i < n \<Longrightarrow> P' i = P i" and "\<And>i. a \<le> i \<Longrightarrow> i < n \<Longrightarrow> f' i = f i"
  shows "prefix (map f (filter P [a..<n])) (map f' (filter P' [a..<n + k]))"
proof (cases "a \<le> n")
  case True
  have "map f (filter P [a..<n]) = map f' (filter P' [a..<n])"
    using assms by (intro map_cong filter_cong) auto
  then show ?thesis by (metis upt_add_eq_append [OF True] filter_append map_append prefixI)
qed simp

theorem swings_never_repaint:
  "prefix (sw_highs (detect_swings m cs w)) (sw_highs (detect_swings m (cs @ ds) w)) \<and>
   prefix (sw_lows (detect_swings m cs w)) (sw_lows (detect_swings m (cs @ ds) w))"
proof -
  show ?thesis
  proof (cases "cs = [] \<or> w < 1 \<or> length cs < w")
    case True
    then show ?thesis by (auto simp: detect_swings_def Let_def)
  next
    case False
    have len: "length (cs @ ds) - w = (length cs - w) + length ds" using False by simp
    have "prefix
      (map (\<lambda>i. \<lparr>id_market = m, id_timestamp = cn_timestamp (cs ! i), id_name = [L nm], id_value = price (cs ! i)\<rparr>)
        (filter (strict_among better (map price cs) w) [w..<length cs - w]))
      (map (\<lambda>i. \<lparr>id_market = m, id_timestamp = cn_timestamp ((cs @ ds) ! i), id_name = [L nm], id_value = price ((cs @ ds) ! i)\<rparr>)
        (filter (strict_among better (map price (cs @ ds)) w) [w..<length (cs @ ds) - w]))" for nm price better
      unfolding len map_append by (rule filter_upt_prefix) (auto simp: nth_append strict_among_append)
    with False show ?thesis unfolding detect_swings_def Let_def by simp
  qed
qed

text \<open>Merging keeps the zones apart.\<close>

fun priced :: "zone list \<Rightarrow> bool" where
  "priced (a # b # zs) = (zn_price a \<le> zn_price b \<and> priced (b # zs))"
| "priced _ = True"

lemma plain_Fin: "plain_price x \<Longrightarrow> \<exists>r. x = Fin r \<and> 0 \<le> r \<and> r \<le> big"
  by (cases x) (auto simp: plain_price_def zero_eq_Fin)

lemma distance_mono:
  assumes "plain_price f" "plain_price p" "plain_price q" "p \<le> q"
  shows "zone_distance f p \<le> zone_distance f q"
proof -
  have "\<exists>d. py_max f (lit (1 / 1000)) = Fin d \<and> 0 < d"
  proof -
    have "\<exists>e. lit (1 / 1000) = Fin e \<and> 0 < e"
      by (auto simp: float_eval intro!: exI [of _ "1152921504606847 / 1152921504606846976"])
    then show ?thesis using assms(1) by (cases f) (auto simp: plain_price_def py_max_def zero_eq_Fin)
  qed
  then obtain d where d: "py_max f (lit (1 / 1000)) = Fin d" "0 < d" by blast
  obtain a b where ab: "p - f = Fin a" "q - f = Fin b"
    using change_bounds [OF assms(1,2)] change_bounds [OF assms(1,3)] by metis
  have "p - f \<le> q - f"
    using plain_Fin [OF assms(1)] plain_Fin [OF assms(2)] plain_Fin [OF assms(3)] assms(4) by (auto intro!: rnd_mono)
  then have "a / d \<le> b / d" using d ab by (simp add: divide_right_mono)
  then show ?thesis by (simp add: zone_distance_def d ab rnd_mono)
qed

lemma plain_refl: "plain_price x \<Longrightarrow> x \<le> x"
  by (cases x) (auto simp: plain_price_def)

lemma hd_merge:
  "priced (cur # zs) \<Longrightarrow> list_all (\<lambda>z. plain_price (zn_price z)) (cur # zs) \<Longrightarrow>
   merge_zones t cur zs \<noteq> [] \<and> zn_price cur \<le> zn_price (hd (merge_zones t cur zs)) \<and>
   plain_price (zn_price (hd (merge_zones t cur zs)))"
proof (induction t cur zs rule: merge_zones.induct)
  case (1 t cur)
  then show ?case by (simp add: plain_refl)
next
  case (2 t cur z zs)
  have refl: "zn_price cur \<le> zn_price cur" using "2.prems" by (auto intro: plain_refl)
  have chain: "priced (cur # zs)"
    using "2.prems"(1) by (cases zs) (auto intro: float_le_trans)
  show ?case
  proof (cases "zone_distance (zn_price cur) (zn_price z) < t")
    case True
    show ?thesis
    proof (cases "zn_strength cur < zn_strength z")
      case True': True
      with "2.IH"(1) True "2.prems" show ?thesis by (auto intro: float_le_trans)
    next
      case False
      with "2.IH"(1) True "2.prems" chain show ?thesis by auto
    qed
  next
    case False
    with "2.prems" refl show ?thesis by auto
  qed
qed

lemma merge_separated:
  "priced (cur # zs) \<Longrightarrow> list_all (\<lambda>z. plain_price (zn_price z)) (cur # zs) \<Longrightarrow>
   successively (\<lambda>a b. zn_price a \<le> zn_price b \<and> \<not> zone_distance (zn_price a) (zn_price b) < t) (merge_zones t cur zs)"
proof (induction t cur zs rule: merge_zones.induct)
  case (1 t cur)
  then show ?case by simp
next
  case (2 t cur z zs)
  have chain: "priced (cur # zs)" "priced (z # zs)"
    using "2.prems"(1) by (cases zs; auto intro: float_le_trans)+
  show ?case
  proof (cases "zone_distance (zn_price cur) (zn_price z) < t")
    case True
    with "2.IH"(1) "2.prems" chain show ?thesis by (cases "zn_strength cur < zn_strength z") auto
  next
    case False
    let ?m = "merge_zones t z zs"
    have hd: "?m \<noteq> []" "zn_price z \<le> zn_price (hd ?m)" "plain_price (zn_price (hd ?m))"
      using hd_merge [of z zs t] chain "2.prems" by auto
    then have "zone_distance (zn_price cur) (zn_price z) \<le> zone_distance (zn_price cur) (zn_price (hd ?m))"
      using "2.prems" by (intro distance_mono) auto
    with False have "\<not> zone_distance (zn_price cur) (zn_price (hd ?m)) < t"
      using float_le_less_trans by blast
    moreover have "zn_price cur \<le> zn_price (hd ?m)" using "2.prems" hd(2) by (auto intro: float_le_trans)
    ultimately show ?thesis using False "2.IH"(2) "2.prems" chain hd by (cases ?m) auto
  qed
qed

lemma plain_order: "plain_price x \<Longrightarrow> plain_price y \<Longrightarrow> \<not> x < y \<Longrightarrow> y \<le> x"
  using plain_Fin [of x] plain_Fin [of y] by auto

lemma insert_zone_priced:
  assumes "plain_price (zn_price z)" "list_all (\<lambda>z. plain_price (zn_price z)) zs" "priced zs"
  shows "priced (insert_zone z zs) \<and> list_all (\<lambda>z. plain_price (zn_price z)) (insert_zone z zs) \<and>
    (\<forall>y. (y # drop 1 (insert_zone z zs)) = insert_zone z zs \<longrightarrow> y = z \<or> zs \<noteq> [] \<and> y = hd zs)"
  using assms
proof (induction zs rule: priced.induct)
  case (1 a b zs)
  have num: "zn_price x \<noteq> NaN" if "plain_price (zn_price x)" for x using that by (auto simp: plain_price_def)
  show ?case using 1 num [of z] num [of a] num [of b] float_not_less [of "zn_price z" "zn_price a"] float_not_less [of "zn_price z" "zn_price b"]
    by (auto intro: float_less_imp_le float_le_trans)
next
  case "2_1"
  then show ?case by simp
next
  case "2_2"
  then show ?case by (auto intro: plain_order float_less_imp_le)
qed

lemma sort_zones_priced:
  "list_all (\<lambda>z. plain_price (zn_price z)) zs \<Longrightarrow>
   priced (sort_zones zs) \<and> list_all (\<lambda>z. plain_price (zn_price z)) (sort_zones zs)"
proof (induction zs rule: rev_induct)
  case Nil
  then show ?case by (simp add: sort_zones_def)
next
  case (snoc z zs)
  then show ?case using insert_zone_priced [of z "sort_zones zs"] by (simp add: sort_zones_def)
qed

text \<open>
  The liquidity zones that are reported are apart: on prices, they come in ascending order
  and no two neighbours are closer than the threshold.
\<close>

theorem zones_are_separated:
  assumes "list_all (\<lambda>z. plain_price (zn_price z)) zs"
  shows "successively (\<lambda>a b. zn_price a \<le> zn_price b \<and> \<not> zone_distance (zn_price a) (zn_price b) < threshold)
           (filter_zones threshold zs)"
  using sort_zones_priced [OF assms] merge_separated by (auto simp: filter_zones_def split: list.split)

theorem zones_are_separated_witness:
  "let z = (\<lambda>p n. \<lparr>zn_market = ''m'', zn_price = Fin p, zn_type = SUPPORT, zn_strength = n, zn_detected_at = 0\<rparr>) in
   successively (\<lambda>a b. zn_price a \<le> zn_price b \<and> \<not> zone_distance (zn_price a) (zn_price b) < 1)
     (filter_zones 1 [z 8 2, z 4 3, z 1 2])"
  unfolding Let_def by (rule zones_are_separated) (simp add: plain_price_def zero_eq_Fin big_def)

end
