(* ===== verification/MarketCycle.thy ===== *)
theory MarketCycle
  imports Patterns CycleSafety
begin

text \<open>
  \<open>application/cycle_executor.py\<close>: \<open>run\<close> from the fetched candles to the completed cycle, in
  all three modes, around the loop over the evaluations of the theory Cycle.

  The feed of candles and the ids derived from the strategy names are parameters, as is what
  each strategy's pass reads from outside (\<open>step_input\<close>).  The duration of a cycle is left
  out of its completion event.  A strategy class evaluates the indicators; its constructor
  only keeps the parameters.
\<close>

text \<open>What the strategies see: the figures of the candles, or defaults around the price.\<close>

definition cycle_indicators :: "uuid \<Rightarrow> float64 \<Rightarrow> candle list \<Rightarrow> indicators res" where
  "cycle_indicators m close cs =
     (let last_or = (\<lambda>xs d. if xs = [] then d else id_value (last xs)) in
      if cs = []
      then Inr [(''close'', close), (''high'', close * lit (101 / 100)), (''low'', close * lit (99 / 100)),
                (''volume'', Fin 1000), (''sma_20'', close), (''sma_50'', close),
                (''atr_14'', close * lit (1 / 100)), (''bb_upper_20'', close), (''bb_lower_20'', close)]
      else
      rbind (compute_bollinger_bands m cs 20 (Fin 2)) (\<lambda>bb.
      Inr [(''close'', close), (''high'', cn_high (last cs)), (''low'', cn_low (last cs)),
           (''volume'', cn_volume (last cs)), (''sma_20'', last_or (compute_sma m cs 20) close),
           (''sma_50'', last_or (compute_sma m cs 50) close),
           (''atr_14'', last_or (compute_atr m cs 14) (close * lit (1 / 100))),
           (''bb_upper_20'', last_or (bb_upper bb) close), (''bb_lower_20'', last_or (bb_lower bb) close)]))"

definition cycle_regime :: "uuid \<Rightarrow> candle list \<Rightarrow> regime" where
  "cycle_regime m cs =
     (let rs = detect_regimes m 50 200 cs in if rs = [] then UNKNOWN_REGIME else snd (last rs))"

text \<open>The analysis event; its breakout events are listed as type and instant.\<close>

definition publish_analysis :: "uuid \<Rightarrow> candle list \<Rightarrow> desk \<Rightarrow> unit res \<times> desk" where
  "publish_analysis m cs d =
     (if cs = [] then (Inr (), d)
      else case analyze_breakouts (lit (1 / 1000)) (Fin 2) 10 20 cs of
        Inl e \<Rightarrow> (Inl e, d)
      | Inr evs \<Rightarrow>
          (Inr (), dk_publish ''cycle.analysis''
             ([L m, L (regime_value (cycle_regime m cs))] @
              concat (map (\<lambda>e. [L (be_type e), Z (be_timestamp e)]) evs)) d))"

text \<open>The enabled strategies as name, template and parameters; an unknown template is skipped.\<close>

type_synonym sources = "(string \<times> string \<times> params) list"

definition evaluations_of ::
  "registry \<Rightarrow> (string \<Rightarrow> uuid) \<Rightarrow> (string \<Rightarrow> step_input) \<Rightarrow> indicators \<Rightarrow> sources \<Rightarrow> evaluation list" where
  "evaluations_of reg strategy_id inputs ind srcs =
     map (\<lambda>(name, template, ps).
       (name, strategy_id name,
        case registry_get template reg of None \<Rightarrow> Inr None | Some cls \<Rightarrow> cls ps ind, inputs name)) srcs"

record cycle_setup =
  cy_registry :: registry
  cy_sources :: sources
  cy_strategy_id :: "string \<Rightarrow> uuid"
  cy_inputs :: "string \<Rightarrow> step_input"
  cy_feed :: "(nat \<Rightarrow> candle list res) option"
  cy_candle_time :: "datetime option"
  cy_now :: datetime
  cy_backtest :: "(execution_service \<times> bt_env \<times> float64) option"

definition fetch_for :: "nat \<Rightarrow> cycle_setup \<Rightarrow> candle list res" where
  "fetch_for limit cy = (case cy_feed cy of None \<Rightarrow> Inr [] | Some feed \<Rightarrow> feed limit)"

definition cycle_tick :: "cycle_setup \<Rightarrow> uuid \<Rightarrow> float64 \<Rightarrow> candle list \<Rightarrow> float64 \<Rightarrow> tick" where
  "cycle_tick cy m close cs atr =
     \<lparr>tk_market = m, tk_price = close, tk_atr = atr, tk_candle_time = cy_candle_time cy,
      tk_feed = (cy_feed cy \<noteq> None),
      tk_last_candle = (if cs = [] then None else Some (cn_timestamp (last cs)))\<rparr>"

text \<open>The body of the \<open>try\<close> in paper and live mode.\<close>

definition market_body ::
  "'s broker \<Rightarrow> cycle_setup \<Rightarrow> uuid \<Rightarrow> float64 \<Rightarrow> 's floor \<Rightarrow> unit res \<times> 's floor" where
  "market_body b cy m close st =
     (case st of (d, x) \<Rightarrow>
      case fetch_for 100 cy of
        Inl e \<Rightarrow> (Inl e, (d, x))
      | Inr cs \<Rightarrow>
          (let tk0 = cycle_tick cy m close cs 0;
               gap = data_gap_error tk0 (case cy_candle_time cy of Some t \<Rightarrow> t | None \<Rightarrow> cy_now cy) d;
               d1 = report_gap tk0 gap d in
           case cycle_indicators m close cs of
             Inl e \<Rightarrow> (Inl e, (d1, x))
           | Inr ind \<Rightarrow>
               (case publish_analysis m cs d1 of
                  (Inl e, d2) \<Rightarrow> (Inl e, (d2, x))
                | (Inr _, d2) \<Rightarrow>
                    (let tk = cycle_tick cy m close cs (dict_get ind ''atr_14'' 0);
                         evs = evaluations_of (cy_registry cy) (cy_strategy_id cy) (cy_inputs cy) ind (cy_sources cy) in
                     sbind (cycle_strategies b (gap \<noteq> None) tk evs (d2, x)) (\<lambda>_ st1. case st1 of (d3, x3) \<Rightarrow>
                       (Inr (), (d3\<lparr>dk_health := dk_health d3 @ [(''market.'' @ m, True, [])]\<rparr>, x3)))))))"

text \<open>The backtest mode: every strategy over the fetched or synthetic candles.\<close>

fun backtest_sources ::
  "cycle_setup \<Rightarrow> uuid \<Rightarrow> candle list \<Rightarrow> (execution_service \<times> bt_env \<times> float64) \<Rightarrow> sources \<Rightarrow> desk \<Rightarrow> unit res \<times> desk" where
  "backtest_sources cy m cs bt [] d = (Inr (), d)"
| "backtest_sources cy m cs bt ((name, template, ps) # srcs) d =
     (case registry_get template (cy_registry cy) of
        None \<Rightarrow> backtest_sources cy m cs bt srcs d
      | Some cls \<Rightarrow>
          (case backtest_run (fst bt) (instance_of cls ps) m (fst (snd bt)) (Fin 300) (snd (snd bt)) cs of
             Inl e \<Rightarrow>
               if cycle_caught e
               then backtest_sources cy m cs bt srcs
                      (dk_publish ''cycle.error'' [L m, L name] (dk_error [L name, L '': backtest: error''] d))
               else (Inl e, d)
           | Inr (r, steps) \<Rightarrow>
               (let signals = int (length (filter (\<lambda>s. bs_order s \<noteq> None) steps));
                    trades = int (length (filter (\<lambda>s. bs_fill_price s \<noteq> None) steps));
                    d1 = d\<lparr>dk_signals_count := dk_signals_count d + signals, dk_trades_count := dk_trades_count d + trades\<rparr> in
                backtest_sources cy m cs bt srcs
                  (dk_publish ''backtest.complete''
                     [L m, L name, Z signals, Z trades, F (mt_total_return (br_metrics r)),
                      F (mt_sharpe_ratio (br_metrics r)), F (mt_max_drawdown (br_metrics r))] d1))))"

definition completed :: "uuid \<Rightarrow> desk \<Rightarrow> desk" where
  "completed m d =
     dk_publish ''cycle.complete'' [L m, Z (dk_signals_count d), Z (dk_trades_count d), Z (int (length (dk_errors d)))] d"

definition backtest_cycle :: "cycle_setup \<Rightarrow> uuid \<Rightarrow> desk \<Rightarrow> unit res \<times> desk" where
  "backtest_cycle cy m d =
     (case cy_backtest cy of
        None \<Rightarrow> (Inl ServiceError, d)
      | Some bt \<Rightarrow>
          (case fetch_for 200 cy of
             Inl e \<Rightarrow> (Inl e, d)
           | Inr fetched \<Rightarrow>
               (let cs = (if fetched = [] then synthetic_candles 50 (Fin 100) else fetched) in
                sbind (backtest_sources cy m cs bt (cy_sources cy) d) (\<lambda>_ d1.
                  (Inr (), completed m (dk_count ''backtests.completed'' (dk_count ''cycles.completed'' d1)))))))"

text \<open>\<open>run\<close>: a backtest returns from inside the \<open>try\<close>, so its own completion is the only one.\<close>

definition run_cycle ::
  "'s broker \<Rightarrow> cycle_setup \<Rightarrow> uuid \<Rightarrow> float64 \<Rightarrow> 's floor \<Rightarrow> unit res \<times> 's floor" where
  "run_cycle b cy m close st =
     (case st of (d0, x0) \<Rightarrow>
      let d = dk_publish ''cycle.start'' [L m] (d0\<lparr>dk_errors := [], dk_signals_count := 0, dk_trades_count := 0\<rparr>);
          out = (if dk_mode d = BACKTEST
                 then (case backtest_cycle cy m d of (r, d') \<Rightarrow> (r, (d', x0)))
                 else market_body b cy m close (d, x0)) in
      case out of
        (Inr _, (d1, x1)) \<Rightarrow>
          if dk_mode d = BACKTEST then (Inr (), (d1, x1))
          else (Inr (), (completed m (dk_count ''cycles.completed'' d1), x1))
      | (Inl e, (d1, x1)) \<Rightarrow>
          if \<not> cycle_caught e then (Inl e, (d1, x1))
          else (Inr (), (completed m (dk_count ''cycles.completed''
                  ((dk_error [L ''error''] d1)\<lparr>dk_health := dk_health d1 @ [(''market.'' @ m, False, [L ''error''])]\<rparr>)), x1)))"

subsection \<open>What a whole cycle guarantees\<close>

text \<open>The instant of the data-gap test, and a feed that is silent, failing or stale.\<close>

definition feed_unusable :: "cycle_setup \<Rightarrow> uuid \<Rightarrow> float64 \<Rightarrow> desk \<Rightarrow> bool" where
  "feed_unusable cy m close d =
     (case fetch_for 100 cy of
        Inl e \<Rightarrow> True
      | Inr cs \<Rightarrow> data_gap_error (cycle_tick cy m close cs 0)
                   (case cy_candle_time cy of Some t \<Rightarrow> t | None \<Rightarrow> cy_now cy) d \<noteq> None)"

lemma publish_analysis_frame:
  "publish_analysis m cs d = (r, d') \<Longrightarrow> dk_portfolio d' = dk_portfolio d \<and> dk_preflight d' = dk_preflight d \<and>
     dk_risk d' = dk_risk d \<and> dk_mode d' = dk_mode d \<and> dk_trades_count d' = dk_trades_count d"
  by (auto simp: publish_analysis_def split: if_splits sum.splits)

lemma report_gap_frame [simp]:
  "dk_portfolio (report_gap tk g d) = dk_portfolio d" "dk_preflight (report_gap tk g d) = dk_preflight d"
  "dk_trades_count (report_gap tk g d) = dk_trades_count d"
  by (auto simp: report_gap_def desk_ops split: option.splits)

lemma market_body_closed:
  assumes "gate_closed d \<or> feed_unusable cy m close d"
  shows "untouched (d, x) (snd (market_body b cy m close (d, x)))"
proof (cases "fetch_for 100 cy")
  case (Inl e)
  then show ?thesis by (simp add: market_body_def untouched_def)
next
  case (Inr cs)
  let ?now = "case cy_candle_time cy of Some t \<Rightarrow> t | None \<Rightarrow> cy_now cy"
  define gap where "gap = data_gap_error (cycle_tick cy m close cs 0) ?now d"
  define d1 where "d1 = report_gap (cycle_tick cy m close cs 0) gap d"
  have d1: "untouched (d, x) (d1, x)" by (simp add: untouched_def d1_def)
  show ?thesis
  proof (cases "cycle_indicators m close cs")
    case (Inl e)
    then show ?thesis using Inr d1 by (simp add: market_body_def Let_def d1_def gap_def)
  next
    case ind: (Inr ind)
    obtain r d2 where pub: "publish_analysis m cs d1 = (r, d2)" by fastforce
    have d2: "untouched (d, x) (d2, x)"
      using d1 publish_analysis_frame [OF pub] by (simp add: untouched_def)
    let ?tk = "cycle_tick cy m close cs (dict_get ind ''atr_14'' 0)"
    let ?evs = "evaluations_of (cy_registry cy) (cy_strategy_id cy) (cy_inputs cy) ind (cy_sources cy)"
    obtain q d3 x3 where all: "cycle_strategies b (gap \<noteq> None) ?tk ?evs (d2, x) = (q, (d3, x3))"
      by (metis prod_cases3)
    have "gap \<noteq> None \<or> gate_closed d2"
      using assms Inr d2 by (auto simp: feed_unusable_def gap_def gate_closed_def untouched_def)
    then have "untouched (d2, x) (d3, x3)"
      using cycle_strategies_closed [of "gap \<noteq> None" "(d2, x)" b ?tk ?evs] all by simp
    then have d3: "untouched (d, x) (d3, x3)" using d2 by (rule untouched_trans [rotated])
    show ?thesis
    proof (cases r)
      case (Inl e)
      then show ?thesis using Inr ind pub d2 by (simp add: market_body_def Let_def d1_def gap_def)
    next
      case rr: (Inr u)
      have body: "market_body b cy m close (d, x) = sbind (q, (d3, x3)) (\<lambda>_ st1. case st1 of (d3, x3) \<Rightarrow>
          (Inr (), (d3\<lparr>dk_health := dk_health d3 @ [(''market.'' @ m, True, [])]\<rparr>, x3)))"
        using all pub by (simp add: market_body_def Let_def Inr ind rr flip: d1_def gap_def)
      show ?thesis unfolding body using d3 by (cases q) (simp_all add: untouched_def)
    qed
  qed
qed

lemma backtest_sources_frame:
  "backtest_sources cy m cs bt srcs d = (r, d') \<Longrightarrow>
     dk_portfolio d' = dk_portfolio d \<and> dk_risk d' = dk_risk d \<and> dk_preflight d' = dk_preflight d"
proof (induction cy m cs bt srcs d arbitrary: r d' rule: backtest_sources.induct)
  case (2 cy m cs bt name template ps srcs d)
  show ?case
  proof (cases "registry_get template (cy_registry cy)")
    case None
    then show ?thesis using "2.IH"(1) "2.prems" by simp
  next
    case (Some cls)
    show ?thesis
    proof (cases "backtest_run (fst bt) (instance_of cls ps) m (fst (snd bt)) (Fin 300) (snd (snd bt)) cs")
      case (Inl e)
      then show ?thesis using "2.IH"(2) [OF Some Inl] "2.prems" Some by (auto split: if_splits)
    next
      case (Inr rs)
      obtain res steps where rs: "rs = (res, steps)" by (cases rs)
      show ?thesis using "2.IH"(3) [OF Some Inr rs [symmetric] refl refl refl] "2.prems" Some Inr rs by (auto simp: Let_def)
    qed
  qed
qed simp

lemma backtest_cycle_frame:
  "backtest_cycle cy m d = (r, d') \<Longrightarrow> dk_portfolio d' = dk_portfolio d \<and> dk_risk d' = dk_risk d"
  by (auto simp: backtest_cycle_def Let_def completed_def sbind_def
      split: option.splits sum.splits prod.splits if_splits dest: backtest_sources_frame)

lemma data_gap_cong:
  assumes "dk_mode d' = dk_mode d" and "dk_risk d' = dk_risk d"
  shows "data_gap_error tk now d' = data_gap_error tk now d"
  unfolding data_gap_error_def assms ..

lemma feed_unusable_cong:
  assumes "dk_mode d' = dk_mode d" and "dk_risk d' = dk_risk d"
  shows "feed_unusable cy m close d' = feed_unusable cy m close d"
  unfolding feed_unusable_def data_gap_cong [OF assms] ..

text \<open>The desk a cycle starts with, and where its broker and portfolio come from.\<close>

definition started :: "uuid \<Rightarrow> desk \<Rightarrow> desk" where
  "started m d = dk_publish ''cycle.start'' [L m] (d\<lparr>dk_errors := [], dk_signals_count := 0, dk_trades_count := 0\<rparr>)"

lemma started_mode [simp]: "dk_mode (started m d) = dk_mode d"
  by (simp add: started_def)

lemma completed_frame [simp]: "dk_portfolio (completed m d) = dk_portfolio d"
  by (simp add: completed_def)

lemma run_backtest:
  assumes "dk_mode d = BACKTEST" and "run_cycle b cy m close (d, x) = (u, (d', x'))"
  shows "x' = x \<and> dk_portfolio d' = dk_portfolio (snd (backtest_cycle cy m (started m d)))"
proof -
  obtain r d1 where bt: "backtest_cycle cy m (started m d) = (r, d1)" by fastforce
  have "run_cycle b cy m close (d, x) = (case (r, (d1, x)) of
      (Inr _, (d1, x1)) \<Rightarrow> (Inr (), (d1, x1))
    | (Inl e, (d1, x1)) \<Rightarrow>
        if \<not> cycle_caught e then (Inl e, (d1, x1))
        else (Inr (), (completed m (dk_count ''cycles.completed''
                ((dk_error [L ''error''] d1)\<lparr>dk_health := dk_health d1 @ [(''market.'' @ m, False, [L ''error''])]\<rparr>)), x1)))"
    using bt assms(1) unfolding run_cycle_def started_def Let_def by (cases r) simp_all
  with assms(2) bt show ?thesis by (cases r) (auto split: if_splits)
qed

lemma run_market:
  assumes "dk_mode d \<noteq> BACKTEST" and "run_cycle b cy m close (d, x) = (u, (d', x'))"
  shows "x' = snd (snd (market_body b cy m close (started m d, x))) \<and>
    dk_portfolio d' = dk_portfolio (fst (snd (market_body b cy m close (started m d, x))))"
proof -
  obtain r d1 x1 where body: "market_body b cy m close (started m d, x) = (r, (d1, x1))" by (metis prod_cases3)
  have "run_cycle b cy m close (d, x) = (case (r, (d1, x1)) of
      (Inr _, (d1, x1)) \<Rightarrow> (Inr (), (completed m (dk_count ''cycles.completed'' d1), x1))
    | (Inl e, (d1, x1)) \<Rightarrow>
        if \<not> cycle_caught e then (Inl e, (d1, x1))
        else (Inr (), (completed m (dk_count ''cycles.completed''
                ((dk_error [L ''error''] d1)\<lparr>dk_health := dk_health d1 @ [(''market.'' @ m, False, [L ''error''])]\<rparr>)), x1)))"
    using body assms(1) unfolding run_cycle_def started_def Let_def by (cases r) simp_all
  with assms(2) body show ?thesis by (cases r) (auto split: if_splits)
qed

text \<open>
  A whole cycle never reaches the broker when it must not: in backtest mode, with a closed
  reconciliation gate, or with live data that is missing, failing or stale, a run of any
  strategies on any market leaves the broker and the portfolio exactly as they were,
  whatever the indicators, the strategies or the analysis raise on the way.
\<close>

theorem unusable_run_leaves_broker_alone:
  assumes "dk_mode d = BACKTEST \<or> gate_closed d \<or> feed_unusable cy m close d"
    and "run_cycle b cy m close (d, x) = (u, (d', x'))"
  shows "x' = x \<and> dk_portfolio d' = dk_portfolio d"
proof -
  have d0: "dk_portfolio (started m d) = dk_portfolio d" "gate_closed (started m d) = gate_closed d"
    by (simp_all add: started_def gate_closed_def)
  have feed: "feed_unusable cy m close (started m d) = feed_unusable cy m close d"
    by (rule feed_unusable_cong) (simp_all add: started_def)
  show ?thesis
  proof (cases "dk_mode d = BACKTEST")
    case True
    then show ?thesis
      using run_backtest [OF True assms(2)] backtest_cycle_frame [of cy m "started m d"] d0
      by (cases "backtest_cycle cy m (started m d)") simp
  next
    case False
    then have "untouched (started m d, x) (snd (market_body b cy m close (started m d, x)))"
      using market_body_closed [of "started m d" cy m close x b] assms(1) d0 feed by simp
    with run_market [OF False assms(2)] d0 show ?thesis by (simp add: untouched_def)
  qed
qed

text \<open>
  The regime of a cycle is never known: a cycle asks its feed for one hundred candles and the
  regime needs two hundred, so whatever they are the published analysis says unknown.
\<close>

theorem cycle_regime_never_known:
  assumes "length cs \<le> 100" and "cs \<noteq> []" and "publish_analysis m cs d = (Inr (), d')"
  shows "\<exists>evs. dk_events d' = dk_events d @ [(''cycle.analysis'', [L m, L ''unknown''] @ evs)]"
proof -
  have "cycle_regime m cs = UNKNOWN_REGIME" using assms(1) by (simp add: cycle_regime_def detect_regimes_def)
  then show ?thesis using assms(2,3) by (auto simp: publish_analysis_def dk_publish_def split: sum.splits)
qed


definition sample_setup :: cycle_setup where
  "sample_setup = \<lparr>cy_registry = default_registry, cy_sources = [(''g'', ''mean_reversion'', [])],
     cy_strategy_id = (\<lambda>n. n), cy_inputs = (\<lambda>_. sample_input), cy_feed = None, cy_candle_time = None, cy_now = 0,
     cy_backtest = None\<rparr>"

theorem unusable_run_leaves_broker_alone_witness:
  "\<exists>u d'. run_cycle counting_venue sample_setup ''m'' 1 (sample_desk\<lparr>dk_preflight := Some closed_preflight_service\<rparr>, 0) =
     (u, (d', 0)) \<and> dk_portfolio d' = empty_portfolio"
proof -
  let ?d = "sample_desk\<lparr>dk_preflight := Some closed_preflight_service\<rparr>"
  obtain u d' x' where run: "run_cycle counting_venue sample_setup ''m'' 1 (?d, 0) = (u, (d', x'))"
    by (metis prod_cases3)
  have "gate_closed ?d"
    by (simp add: gate_closed_def closed_preflight_service_def new_broker_recon_service_def can_accept_orders_def)
  then show ?thesis
    using unusable_run_leaves_broker_alone [OF _ run] run by (auto simp: sample_desk_def)
qed

theorem cycle_regime_never_known_witness:
  "\<exists>evs. dk_events (snd (publish_analysis ''m'' two_closes sample_desk)) = [(''cycle.analysis'', [L ''m'', L ''unknown''] @ evs)]"
proof -
  have "publish_analysis ''m'' two_closes sample_desk = (Inr (), snd (publish_analysis ''m'' two_closes sample_desk))"
    by (simp add: publish_analysis_def two_closes_def analyze_breakouts_def)
  from cycle_regime_never_known [OF _ _ this] show ?thesis by (simp add: two_closes_def sample_desk_def)
qed

end
