(* ===== verification/MarketData.thy ===== *)
theory MarketData
  imports Brain MarketStream
begin

text \<open>
  Historical market data: \<open>domain/services/data_ingestion_service.py\<close>, \<open>data_validator.py\<close>,
  \<open>data_normalizer.py\<close> and \<open>historical_data.py\<close>, the candle table of
  \<open>infrastructure/repositories/sqlite/historical_candles.py\<close>, and its use as the Brain's
  durable store in \<open>brain_candle_store.py\<close>.

  A collector is a parameter.  The table is the association list of its rows in insertion
  order under their primary key; rows of equal \<open>ts\<close> keep that order in a sorted query.
\<close>

subsection \<open>Ingestion\<close>

record data_source =
  ds_market :: uuid
  ds_symbol :: string
  ds_collector :: string
  ds_timeframe :: string

type_synonym collector = "string \<Rightarrow> string \<Rightarrow> nat \<Rightarrow> candle list res"

record ingestion =
  di_registry :: "(string \<times> collector) list"
  di_sources :: "data_source list"

definition add_source :: "uuid \<Rightarrow> string \<Rightarrow> string \<Rightarrow> string \<Rightarrow> ingestion \<Rightarrow> data_source \<times> ingestion" where
  "add_source m sy coll tf di =
     (let s = \<lparr>ds_market = m, ds_symbol = sy, ds_collector = coll, ds_timeframe = tf\<rparr> in
      (s, di\<lparr>di_sources := di_sources di @ [s]\<rparr>))"

definition fetch_latest :: "data_source \<Rightarrow> nat \<Rightarrow> ingestion \<Rightarrow> candle list res" where
  "fetch_latest s limit di =
     (case map_of (di_registry di) (ds_collector s) of
        None \<Rightarrow> Inl ValueError
      | Some c \<Rightarrow> c (ds_symbol s) (ds_timeframe s) limit)"

fun fetch_sources :: "data_source list \<Rightarrow> nat \<Rightarrow> ingestion \<Rightarrow> (string \<times> candle list) list \<Rightarrow> (string \<times> candle list) list res" where
  "fetch_sources [] limit di acc = Inr acc"
| "fetch_sources (s # ss) limit di acc =
     rbind (fetch_latest s limit di) (\<lambda>cs. fetch_sources ss limit di (AList.update (ds_symbol s) cs acc))"

definition fetch_all :: "nat \<Rightarrow> ingestion \<Rightarrow> (string \<times> candle list) list res" where
  "fetch_all limit di = fetch_sources (di_sources di) limit di []"

definition source_of :: "uuid \<Rightarrow> ingestion \<Rightarrow> data_source option" where
  "source_of m di = find (\<lambda>s. ds_market s = m) (di_sources di)"

text \<open>Every fetched candle is labelled one hour, whatever the source's timeframe.\<close>

definition fetch_candles :: "uuid \<Rightarrow> nat \<Rightarrow> ingestion \<Rightarrow> bar list res" where
  "fetch_candles m limit di =
     (case source_of m di of
        None \<Rightarrow> Inr []
      | Some s \<Rightarrow> rbind (fetch_latest s limit di) (\<lambda>cs. Inr (map (Pair ''1h'') cs)))"

definition get_latest_close :: "uuid \<Rightarrow> ingestion \<Rightarrow> float64 option res" where
  "get_latest_close m di =
     (case source_of m di of
        None \<Rightarrow> Inr None
      | Some s \<Rightarrow> rbind (fetch_latest s 1 di) (\<lambda>cs. Inr (if cs = [] then None else Some (cn_close (hd cs)))))"

definition remove_source :: "string \<Rightarrow> ingestion \<Rightarrow> ingestion" where
  "remove_source sy di = di\<lparr>di_sources := filter (\<lambda>s. ds_symbol s \<noteq> sy) (di_sources di)\<rparr>"

subsection \<open>Validation and normalisation\<close>

text \<open>A row of decimals, exact.\<close>

record data_row =
  dr_open :: rat
  dr_high :: rat
  dr_low :: rat
  dr_close :: rat
  dr_volume :: rat
  dr_timestamp :: datetime
  dr_symbol :: string

definition row_errors :: "nat \<Rightarrow> data_row \<Rightarrow> fstring list" where
  "row_errors i r =
     (if dr_high r < dr_low r
      then [[L ''Row '', Z (int i), L '': high ('', F (rnd (dr_high r)), L '') < low ('', F (rnd (dr_low r)), L '')'']] else []) @
     (if dr_open r < 0 \<or> dr_high r < 0 \<or> dr_low r < 0 \<or> dr_close r < 0
      then [[L ''Row '', Z (int i), L '': negative price'']] else []) @
     (if dr_volume r < 0 then [[L ''Row '', Z (int i), L '': negative volume'']] else [])"

definition gap_warning :: "nat \<Rightarrow> data_row \<Rightarrow> data_row \<Rightarrow> fstring list" where
  "gap_warning i prev r =
     (let c = rnd (dr_close r); p = rnd (dr_close prev); avg = fquot (c + p) (Fin 2) in
      if 0 < avg
      then let pct = fquot \<bar>c - p\<bar> avg * Fin 100 in
        if Fin 5 < pct then [[L ''Row '', Z (int i), L '': price gap '', FX 1 pct, L ''% exceeds 5.0%'']] else []
      else [])"

record data_validation =
  dv_is_valid :: bool
  dv_errors :: "fstring list"
  dv_warnings :: "fstring list"

definition validate_data :: "data_row list \<Rightarrow> data_validation" where
  "validate_data rows =
     (if rows = [] then \<lparr>dv_is_valid = False, dv_errors = [[L ''Empty data set'']], dv_warnings = []\<rparr>
      else
      let errors = concat (map (\<lambda>(i, r). row_errors i r) (enumerate 0 rows));
          sorted = sort_key dr_timestamp rows in
      \<lparr>dv_is_valid = (errors = []), dv_errors = errors,
       dv_warnings = concat (map (\<lambda>i. gap_warning i (sorted ! (i - 1)) (sorted ! i)) [1..<length sorted])\<rparr>)"

definition normalize_data :: "data_row list \<Rightarrow> data_row list" where
  "normalize_data rows = sort_key dr_timestamp rows"

text \<open>\<open>to_candle\<close>: an unknown interval is one hour, an empty source is the symbol.\<close>

definition known_timeframes :: "string list" where
  "known_timeframes = [''1m'', ''5m'', ''15m'', ''1h'', ''4h'', ''1d'']"

definition timeframe_of :: "string \<Rightarrow> string" where
  "timeframe_of interval = (if interval \<in> set known_timeframes then interval else ''1h'')"

definition to_candle :: "data_row \<Rightarrow> string \<Rightarrow> string \<Rightarrow> bar \<times> string" where
  "to_candle r interval source =
     ((timeframe_of interval,
       \<lparr>cn_open = rnd (dr_open r), cn_high = rnd (dr_high r), cn_low = rnd (dr_low r), cn_close = rnd (dr_close r),
        cn_volume = rnd (dr_volume r), cn_timestamp = dr_timestamp r\<rparr>),
      if source = [] then dr_symbol r else source)"

subsection \<open>The candle table\<close>

type_synonym candle_key = "string \<times> string \<times> string \<times> int"

type_synonym candle_table = "(candle_key \<times> candle) list"

definition key_ts :: "candle_key \<times> candle \<Rightarrow> int" where
  "key_ts row = snd (snd (snd (fst row)))"

definition table_upsert :: "string \<Rightarrow> string \<Rightarrow> string \<Rightarrow> (int \<times> candle) list \<Rightarrow> candle_table \<Rightarrow> candle_table" where
  "table_upsert src sy tf rows t = fold (\<lambda>(ts, c). AList.update (src, sy, tf, ts) c) rows t"

definition row_matches ::
  "string \<Rightarrow> string \<Rightarrow> string option \<Rightarrow> int option \<Rightarrow> int option \<Rightarrow> candle_key \<times> candle \<Rightarrow> bool" where
  "row_matches src sy tf start_ts end_ts row =
     (case fst row of (s, y, f, ts) \<Rightarrow>
        s = src \<and> y = sy \<and> (case tf of None \<Rightarrow> True | Some x \<Rightarrow> f = x) \<and>
        (case start_ts of None \<Rightarrow> True | Some a \<Rightarrow> a \<le> ts) \<and> (case end_ts of None \<Rightarrow> True | Some b \<Rightarrow> ts \<le> b))"

text \<open>\<open>ORDER BY ts ASC LIMIT ?\<close>\<close>

definition table_load ::
  "string \<Rightarrow> string \<Rightarrow> string option \<Rightarrow> int option \<Rightarrow> int option \<Rightarrow> nat option \<Rightarrow> candle_table \<Rightarrow> candle_table" where
  "table_load src sy tf start_ts end_ts limit t =
     (let rows = sort_key key_ts (filter (row_matches src sy tf start_ts end_ts) t) in
      case limit of None \<Rightarrow> rows | Some n \<Rightarrow> take n rows)"

definition table_count :: "string \<Rightarrow> string \<Rightarrow> string \<Rightarrow> int option \<Rightarrow> int option \<Rightarrow> candle_table \<Rightarrow> nat" where
  "table_count src sy tf start_ts end_ts t = length (filter (row_matches src sy (Some tf) start_ts end_ts) t)"

definition table_last_ts :: "string \<Rightarrow> string \<Rightarrow> string \<Rightarrow> candle_table \<Rightarrow> int option" where
  "table_last_ts src sy tf t =
     (let tss = map key_ts (filter (row_matches src sy (Some tf) None None) t);
          v = (if tss = [] then 0 else Max (set tss)) in
      if 0 < v then Some v else None)"

text \<open>A row read back: the stored instant has whole seconds.\<close>

definition row_candle :: "candle_key \<times> candle \<Rightarrow> candle" where
  "row_candle row = (snd row)\<lparr>cn_timestamp := key_ts row * 1000000\<rparr>"

subsection \<open>The Brain's store\<close>

definition brain_rows :: "bar list \<Rightarrow> ((string \<times> int) \<times> bar) list" where
  "brain_rows bars = dict_of (\<lambda>b. (fst b, epoch_seconds (bar_time b))) (\<lambda>b. b) bars"

definition save_candles :: "uuid \<Rightarrow> bar list \<Rightarrow> candle_table \<Rightarrow> candle_table" where
  "save_candles m bars t =
     fold (\<lambda>(tf, c). table_upsert ''market_brain'' m tf [(epoch_seconds (cn_timestamp c), c)]) (dict_values (brain_rows bars)) t"

definition row_bar :: "candle_key \<times> candle \<Rightarrow> bar" where
  "row_bar row = (fst (snd (snd (fst row))), row_candle row)"

definition load_candles :: "candle_table \<Rightarrow> uuid \<Rightarrow> nat \<Rightarrow> bar list" where
  "load_candles t m limit = map row_bar (table_load ''market_brain'' m None None None (Some limit) t)"

subsection \<open>Historical data with a cache\<close>

text \<open>The table of bucket lengths as it is in the source, and what each name means.\<close>

definition spacing_table :: "(string \<times> int) list" where
  "spacing_table = [(''1m'', 60), (''5m'', 300), (''15m'', 900), (''1h'', 3600), (''4h'', 21600), (''1d'', 86400)]"

definition spacing :: "string \<Rightarrow> int" where
  "spacing tf = dict_get spacing_table tf 3600"

type_synonym history_collector = "string \<Rightarrow> string \<Rightarrow> datetime \<Rightarrow> datetime \<Rightarrow> int \<Rightarrow> candle list res"

record historical =
  hd_collectors :: "(string \<times> history_collector) list"
  hd_cache :: "candle_table option"

definition register_collector :: "string \<Rightarrow> history_collector \<Rightarrow> historical \<Rightarrow> historical" where
  "register_collector source c h = h\<lparr>hd_collectors := AList.update source c (hd_collectors h)\<rparr>"

definition available_sources :: "historical \<Rightarrow> string list" where
  "available_sources h = dict_keys (hd_collectors h)"

definition fetch_history :: "string \<Rightarrow> string \<Rightarrow> string \<Rightarrow> datetime \<Rightarrow> datetime \<Rightarrow> int \<Rightarrow> historical \<Rightarrow> candle list res" where
  "fetch_history source tf sy start stop limit h =
     (case map_of (hd_collectors h) source of None \<Rightarrow> Inl ValueError | Some c \<Rightarrow> c sy tf start stop limit)"

text \<open>\<open>int(expected * 0.8)\<close> on floats, and the number of cached bars that suffices.\<close>

definition trunc_float :: "float64 \<Rightarrow> int" where
  "trunc_float x = (case x of Fin a \<Rightarrow> (if 0 \<le> a then \<lfloor>a\<rfloor> else - \<lfloor>- a\<rfloor>) | _ \<Rightarrow> 0)"

definition cache_floor :: "int \<Rightarrow> int" where
  "cache_floor expected = max 1 (trunc_float (rnd (of_int expected) * lit (8 / 10)))"

definition default_start :: "string \<Rightarrow> int \<Rightarrow> datetime \<Rightarrow> datetime" where
  "default_start tf limit stop = stop - spacing tf * max 1 limit * 1000000"

definition get_candles ::
  "datetime \<Rightarrow> string \<Rightarrow> string \<Rightarrow> string \<Rightarrow> int \<Rightarrow> datetime option \<Rightarrow> datetime option \<Rightarrow> bool \<Rightarrow> historical \<Rightarrow>
   candle list res \<times> historical" where
  "get_candles now source tf sy limit start stop use_cache h =
     (let stop = (case stop of None \<Rightarrow> now | Some e \<Rightarrow> e);
          start = (case start of None \<Rightarrow> default_start tf limit stop | Some s \<Rightarrow> s);
          start_ts = epoch_seconds start; end_ts = epoch_seconds stop;
          expected = min limit ((end_ts - start_ts) div spacing tf + 1);
          cached = (case hd_cache h of None \<Rightarrow> [] | Some t \<Rightarrow> table_load source sy (Some tf) (Some start_ts) (Some end_ts) None t) in
      if use_cache \<and> hd_cache h \<noteq> None \<and> cache_floor expected \<le> int (length cached)
      then (Inr (map row_candle cached), h)
      else
      case fetch_history source tf sy start stop limit h of
        Inl e \<Rightarrow> (Inl e, h)
      | Inr cs \<Rightarrow>
          (Inr cs, h\<lparr>hd_cache := map_option (table_upsert source sy tf
             (map (\<lambda>c. (epoch_seconds (cn_timestamp c), c)) cs)) (hd_cache h)\<rparr>))"

subsection \<open>A restart warms the Brain with the oldest bars\<close>

definition stored_rows :: "uuid \<Rightarrow> candle_table \<Rightarrow> candle_table" where
  "stored_rows m t = table_load ''market_brain'' m None None None None t"

lemma load_candles_take: "load_candles t m limit = map row_bar (take limit (stored_rows m t))"
  by (simp add: load_candles_def stored_rows_def table_load_def Let_def)

lemma stored_rows_sorted: "sorted (map key_ts (stored_rows m t))"
  by (simp add: stored_rows_def table_load_def Let_def)

lemma row_bar_time: "bar_time (row_bar row) = key_ts row * 1000000"
  by (simp add: bar_time_def row_bar_def row_candle_def)

lemma sorted_scaled: "sorted (map f xs) \<Longrightarrow> 0 \<le> (k :: int) \<Longrightarrow> sorted (map (\<lambda>x. f x * k) xs)"
  by (induction xs) (auto simp: mult_right_mono)

lemma merged_bars_fresh:
  assumes "sorted (map bar_time bars)" and "distinct bars"
  shows "merged_bars [] bars = bars"
proof -
  have "dict_of (\<lambda>b. b) (\<lambda>b. b) bars = map (\<lambda>b. (b, b)) bars"
    using dict_of_known [OF assms(2), of "[]"] by simp
  then have "merged_bars [] bars = sort_key bar_time bars"
    by (simp only: merged_bars_def append_Nil values_identity)
  then show ?thesis using assms(1) by (simp add: sort_key_id_if_sorted)
qed

text \<open>
  A restart warms the Brain with the oldest bars: when the durable store holds more bars of a
  market than the limit, a fresh Brain is warmed with exactly the first ones in time; every
  stored bar that was left out is newer than all it holds, so it reads a past state.
\<close>

theorem restart_warms_with_oldest_bars:
  assumes "br_store br = Some (load_candles t)" and "view_of m br = empty_view"
    and "0 < limit" and "limit < length (stored_rows m t)" and "distinct (map key_ts (stored_rows m t))"
  shows "\<exists>br'. warm_from_store m limit br = (True, br') \<and>
     bv_bars (view_of m br') = map row_bar (take limit (stored_rows m t)) \<and>
     list_all (\<lambda>row. bar_time (last (bv_bars (view_of m br'))) < key_ts row * 1000000) (drop limit (stored_rows m t))"
proof -
  let ?rows = "stored_rows m t" and ?old = "take limit (stored_rows m t)"
  let ?bars = "map row_bar ?old"
  have "sorted (map key_ts ?old)" using stored_rows_sorted [of m t] by (simp add: take_map [symmetric])
  then have sorted: "sorted (map bar_time ?bars)" by (simp add: o_def row_bar_time sorted_scaled)
  have "distinct (map bar_time ?bars)"
    using assms(5) by (simp add: o_def row_bar_time distinct_map inj_on_def) (metis distinct_take in_set_takeD)
  then have "distinct ?bars" by (simp only: distinct_map)
  with sorted have merged: "merged_bars [] ?bars = ?bars" by (rule merged_bars_fresh)
  have ne: "?old \<noteq> []" using assms(3,4) by auto
  have strict: "sorted_wrt (<) (map key_ts ?rows)"
    using stored_rows_sorted assms(5) by (simp add: strict_sorted_iff)
  then have "sorted_wrt (<) (map key_ts ?old @ map key_ts (drop limit ?rows))"
    by (metis append_take_drop_id map_append)
  then have newer: "\<forall>a \<in> set ?old. \<forall>b \<in> set (drop limit ?rows). key_ts a < key_ts b"
    by (auto simp: sorted_wrt_append)
  have warm: "warm_from_store m limit br = (True, merge_candles m ?bars br)"
    using assms(1) ne by (simp add: warm_from_store_def load_candles_take Let_def)
  have view: "bv_bars (view_of m (merge_candles m ?bars br)) = ?bars"
    using merged assms(2) by (simp add: merge_candles_def empty_view_def Let_def)
  have "last ?bars = row_bar (last ?old)" using ne by (simp add: last_map)
  then have "list_all (\<lambda>row. bar_time (last ?bars) < key_ts row * 1000000) (drop limit ?rows)"
    using newer last_in_set [OF ne] by (simp add: list_all_iff row_bar_time)
  with warm view show ?thesis by metis
qed

definition two_bar_table :: candle_table where
  "two_bar_table = save_candles ''m'' [sample_bar, (''1m'', (snd sample_bar)\<lparr>cn_timestamp := 60000000\<rparr>)] []"

theorem restart_warms_with_oldest_bars_witness:
  "\<exists>br'. warm_from_store ''m'' 1 (new_brain (Some (load_candles two_bar_table))) = (True, br') \<and>
     length (bv_bars (view_of ''m'' br')) = 1 \<and> bar_time (last (bv_bars (view_of ''m'' br'))) < 60000000"
proof -
  have t: "two_bar_table = [((''market_brain'', ''m'', ''1m'', 0), snd sample_bar),
      ((''market_brain'', ''m'', ''1m'', 60), (snd sample_bar)\<lparr>cn_timestamp := 60000000\<rparr>)]"
    by (simp add: two_bar_table_def save_candles_def brain_rows_def dict_of_def table_upsert_def sample_bar_def bar_time_def
        epoch_seconds_def)
  have rows: "stored_rows ''m'' two_bar_table = two_bar_table"
    by (simp add: stored_rows_def table_load_def t row_matches_def key_ts_def Let_def)
  have two: "(1 :: nat) < length (stored_rows ''m'' two_bar_table)" "distinct (map key_ts (stored_rows ''m'' two_bar_table))"
    unfolding rows by (simp_all add: t key_ts_def)
  have rest: "drop 1 (stored_rows ''m'' two_bar_table) = [((''market_brain'', ''m'', ''1m'', 60), (snd sample_bar)\<lparr>cn_timestamp := 60000000\<rparr>)]"
    unfolding rows by (simp add: t)
  let ?br = "new_brain (Some (load_candles two_bar_table))"
  have br: "br_store ?br = Some (load_candles two_bar_table)" "view_of ''m'' ?br = empty_view"
    by (simp_all add: new_brain_def view_of_def dict_get_def)
  obtain br' where br': "warm_from_store ''m'' 1 ?br = (True, br')"
    "bv_bars (view_of ''m'' br') = map row_bar (take 1 (stored_rows ''m'' two_bar_table))"
    "list_all (\<lambda>row. bar_time (last (bv_bars (view_of ''m'' br'))) < key_ts row * 1000000) (drop 1 (stored_rows ''m'' two_bar_table))"
    using restart_warms_with_oldest_bars [OF br zero_less_one two] by (elim exE conjE) (rule that)
  then show ?thesis using two(1) unfolding rest by (intro exI [of _ br']) (simp add: key_ts_def)
qed

subsection \<open>The cache\<close>

lemma fold_new_rows:
  "distinct (map fst rows) \<Longrightarrow> \<forall>(ts, c) \<in> set rows. (src, sy, tf, ts) \<notin> set (dict_keys t) \<Longrightarrow>
     table_upsert src sy tf rows t = t @ map (\<lambda>(ts, c). ((src, sy, tf, ts), c)) rows"
proof (induction rows arbitrary: t)
  case (Cons r rows)
  obtain ts c where r: "r = (ts, c)" by (cases r)
  have "AList.update (src, sy, tf, ts) c t = t @ [((src, sy, tf, ts), c)]"
    using Cons.prems(2) r by (intro update_new) auto
  with Cons.IH [of "t @ [((src, sy, tf, ts), c)]"] Cons.prems r show ?case
    by (force simp: table_upsert_def)
qed (simp add: table_upsert_def)


lemma whole_second_candle: "cn_timestamp c = ts * 1000000 \<Longrightarrow> row_candle ((src, sy, tf, ts), c) = c"
  by (simp add: row_candle_def key_ts_def)

lemma reload_window:
  assumes "table_load src sy (Some tf) (Some a) (Some b) None t = []"
    and "sorted_wrt (<) (map fst rows)" and "\<forall>(ts, c) \<in> set rows. a \<le> ts \<and> ts \<le> b \<and> cn_timestamp c = ts * 1000000"
  shows "map row_candle (table_load src sy (Some tf) (Some a) (Some b) None (table_upsert src sy tf rows t)) = map snd rows"
proof -
  let ?new = "map (\<lambda>(ts, c). ((src, sy, tf, ts), c)) rows"
  have none: "filter (row_matches src sy (Some tf) (Some a) (Some b)) t = []"
  proof -
    have "set (filter (row_matches src sy (Some tf) (Some a) (Some b)) t) =
        set (table_load src sy (Some tf) (Some a) (Some b) None t)"
      by (simp add: table_load_def Let_def)
    then show ?thesis unfolding assms(1) by (simp only: list.set(1) set_empty)
  qed
  have "\<forall>(ts, c) \<in> set rows. (src, sy, tf, ts) \<notin> set (dict_keys t)"
  proof (clarify)
    fix ts c assume row: "(ts, c) \<in> set rows" and "(src, sy, tf, ts) \<in> set (dict_keys t)"
    then obtain old where old: "((src, sy, tf, ts), old) \<in> set t" by auto
    have "row_matches src sy (Some tf) (Some a) (Some b) ((src, sy, tf, ts), old)"
      using assms(3) row by (auto simp: row_matches_def)
    then show False using none old by (simp add: filter_empty_conv)
  qed
  then have t': "table_upsert src sy tf rows t = t @ ?new"
    using assms(2) by (intro fold_new_rows) (auto simp: strict_sorted_iff)
  have "filter (row_matches src sy (Some tf) (Some a) (Some b)) ?new = ?new"
    using assms(3) by (auto simp: filter_id_conv row_matches_def)
  then have load: "table_load src sy (Some tf) (Some a) (Some b) None (table_upsert src sy tf rows t) = sort_key key_ts ?new"
    by (simp add: table_load_def t' none Let_def)
  have keys: "map key_ts ?new = map fst rows" by (auto simp: key_ts_def)
  have "sorted (map key_ts ?new)" unfolding keys using assms(2) by (simp add: strict_sorted_iff)
  then have "sort_key key_ts ?new = ?new" by (rule sort_key_id_if_sorted)
  with load show ?thesis using assms(3) by (auto simp: whole_second_candle)
qed


text \<open>
  A fetched history is read back from the cache: when the window holds no cached bar yet and
  the collector answers with whole-second bars in time order inside the window, enough of
  them to be trusted, the bars are returned and stored, and the same request made later, with
  any collectors at all, returns the same bars without asking them.
\<close>

theorem fetched_history_is_reused:
  assumes "hd_cache h = Some t"
    and "table_load source sy (Some tf) (Some (epoch_seconds start)) (Some (epoch_seconds stop)) None t = []"
    and "map_of (hd_collectors h) source = Some coll" and "coll sy tf start stop limit = Inr cs"
    and "sorted_wrt (<) (map (\<lambda>c. epoch_seconds (cn_timestamp c)) cs)"
    and "\<forall>c \<in> set cs. epoch_seconds start \<le> epoch_seconds (cn_timestamp c) \<and> epoch_seconds (cn_timestamp c) \<le> epoch_seconds stop \<and>
           cn_timestamp c = epoch_seconds (cn_timestamp c) * 1000000"
    and "cache_floor (min limit ((epoch_seconds stop - epoch_seconds start) div spacing tf + 1)) \<le> int (length cs)"
  shows "case get_candles now source tf sy limit (Some start) (Some stop) True h of
     (r, h') \<Rightarrow> r = Inr cs \<and>
       (let h'' = h'\<lparr>hd_collectors := others\<rparr> in
        get_candles later source tf sy limit (Some start) (Some stop) True h'' = (Inr cs, h''))"
proof -
  let ?rows = "map (\<lambda>c. (epoch_seconds (cn_timestamp c), c)) cs"
  let ?t' = "table_upsert source sy tf ?rows t"
  have pos: "1 \<le> cache_floor n" for n by (simp add: cache_floor_def)
  have first: "get_candles now source tf sy limit (Some start) (Some stop) True h = (Inr cs, h\<lparr>hd_cache := Some ?t'\<rparr>)"
    using assms(1-4) pos [of "min limit ((epoch_seconds stop - epoch_seconds start) div spacing tf + 1)"]
    by (simp add: get_candles_def fetch_history_def Let_def)
  have sorted: "sorted_wrt (<) (map fst ?rows)" using assms(5) by (simp add: o_def)
  have rows: "\<forall>(ts, c) \<in> set ?rows. epoch_seconds start \<le> ts \<and> ts \<le> epoch_seconds stop \<and> cn_timestamp c = ts * 1000000"
    using assms(6) by auto
  have "map row_candle (table_load source sy (Some tf) (Some (epoch_seconds start)) (Some (epoch_seconds stop)) None ?t') = map snd ?rows"
    by (rule reload_window [OF assms(2) sorted rows])
  then have load: "map row_candle (table_load source sy (Some tf) (Some (epoch_seconds start)) (Some (epoch_seconds stop)) None ?t') = cs"
    by (simp add: o_def)
  have "length (table_load source sy (Some tf) (Some (epoch_seconds start)) (Some (epoch_seconds stop)) None ?t') = length cs"
    using arg_cong [OF load, of length] unfolding length_map .
  with load assms(7) show ?thesis
    by (simp add: first) (simp add: get_candles_def Let_def)
qed

definition hourly :: "int \<Rightarrow> candle" where
  "hourly i = \<lparr>cn_open = Fin 1, cn_high = Fin 1, cn_low = Fin 1, cn_close = Fin 1, cn_volume = Fin 1,
     cn_timestamp = i * 3600000000\<rparr>"

theorem fetched_history_is_reused_witness:
  "\<exists>h'. get_candles 0 ''mock'' ''1h'' ''BTC'' 2 (Some 0) (Some 3600000000) True
       \<lparr>hd_collectors = [(''mock'', \<lambda>_ _ _ _ _. Inr [hourly 0, hourly 1])], hd_cache = Some []\<rparr> = (Inr [hourly 0, hourly 1], h') \<and>
     get_candles 0 ''mock'' ''1h'' ''BTC'' 2 (Some 0) (Some 3600000000) True (h'\<lparr>hd_collectors := []\<rparr>) =
       (Inr [hourly 0, hourly 1], h'\<lparr>hd_collectors := []\<rparr>)"
proof -
  let ?h = "\<lparr>hd_collectors = [(''mock'', \<lambda>_ _ _ _ _. Inr [hourly 0, hourly 1])], hd_cache = Some []\<rparr>"
  have floor: "cache_floor 2 = 1"
    by (simp add: cache_floor_def trunc_float_def float_eval)
  have load: "table_load ''mock'' ''BTC'' (Some ''1h'') (Some (epoch_seconds 0)) (Some (epoch_seconds 3600000000)) None [] = []"
    by (simp add: table_load_def Let_def)
  show ?thesis
    using fetched_history_is_reused [where h = ?h and t = "[]" and source = "''mock''" and sy = "''BTC''" and tf = "''1h''" and start = 0
        and stop = 3600000000 and limit = 2 and cs = "[hourly 0, hourly 1]" and now = 0 and later = 0 and others = "[]"] load floor
    by (auto simp: hourly_def epoch_seconds_def spacing_def spacing_table_def dict_get_def Let_def split: prod.splits)
qed

text \<open>
  A cache that holds only the start of the window hides its end: when the bars cached in the
  window are enough by the floor and all are older than some instant, a request for the
  candles up to now gets none from that instant on, whatever the collectors could deliver.
\<close>

theorem stale_cache_hides_newest_bars:
  assumes "hd_cache h = Some t" and "default_start tf limit now = start"
    and "table_load source sy (Some tf) (Some (epoch_seconds start)) (Some (epoch_seconds now)) None t = rows"
    and "cache_floor (min limit ((epoch_seconds now - epoch_seconds start) div spacing tf + 1)) \<le> int (length rows)"
    and "list_all (\<lambda>row. key_ts row < newest) rows"
  shows "\<exists>cs. get_candles now source tf sy limit None None True h = (Inr cs, h) \<and>
     list_all (\<lambda>c. cn_timestamp c < newest * 1000000) cs"
  using assms by (auto simp: get_candles_def Let_def list_all_iff row_candle_def)

theorem stale_cache_hides_newest_bars_witness:
  "\<exists>cs. get_candles 36000000000 ''mock'' ''1h'' ''BTC'' 2 None None True
       \<lparr>hd_collectors = [(''mock'', \<lambda>_ _ _ _ _. Inr [hourly 9, hourly 10])],
        hd_cache = Some [((''mock'', ''BTC'', ''1h'', 28800), hourly 8)]\<rparr> =
       (Inr cs, \<lparr>hd_collectors = [(''mock'', \<lambda>_ _ _ _ _. Inr [hourly 9, hourly 10])],
        hd_cache = Some [((''mock'', ''BTC'', ''1h'', 28800), hourly 8)]\<rparr>) \<and>
     list_all (\<lambda>c. cn_timestamp c < 32400 * 1000000) cs"
proof -
  let ?t = "[((''mock'', ''BTC'', ''1h'', 28800), hourly 8)]"
  have floor: "cache_floor 2 = 1"
    by (simp add: cache_floor_def trunc_float_def float_eval)
  have load: "table_load ''mock'' ''BTC'' (Some ''1h'') (Some 28800) (Some 36000) None ?t = ?t"
    by (simp add: table_load_def row_matches_def Let_def)
  show ?thesis
    by (rule stale_cache_hides_newest_bars [of _ ?t "''1h''" 2 36000000000 28800000000 "''mock''" "''BTC''" ?t 32400])
      (simp_all add: load floor default_start_def spacing_def spacing_table_def dict_get_def epoch_seconds_def key_ts_def)
qed

end
