(* ===== verification/MarketHours.thy ===== *)
theory MarketHours
  imports Prelude
begin

text \<open>
  \<open>domain/services/market_hours_engine.py\<close>: the trading hours of the markets.

  A time of day is its microseconds since midnight; instants are in UTC, as the defaults of
  the engine are.  The two module constants that the code compares by identity are
  constructors, so an equal session that is another object is a \<open>Session\<close>.
\<close>

subsection \<open>Days\<close>

definition DAY :: int where "DAY = 86400000000"

definition weekday :: "datetime \<Rightarrow> int" where
  "weekday t = (t div DAY + 3) mod 7"

definition time_of :: "datetime \<Rightarrow> int" where
  "time_of t = t mod DAY"

definition combine :: "datetime \<Rightarrow> int \<Rightarrow> datetime" where
  "combine t tod = t div DAY * DAY + tod"

subsection \<open>Sessions\<close>

record market_session =
  ms_open :: int
  ms_close :: int

definition hm :: "int \<Rightarrow> int \<Rightarrow> int" where
  "hm h m = (h * 60 + m) * 60000000"

definition contains :: "market_session \<Rightarrow> datetime \<Rightarrow> bool" where
  "contains s t =
     (if ms_open s = ms_close s then True
      else if ms_open s \<le> ms_close s then ms_open s \<le> time_of t \<and> time_of t \<le> ms_close s
      else ms_open s \<le> time_of t \<or> time_of t \<le> ms_close s)"

datatype trading_session = FOREX_24_5 | CRYPTO_24_7 | Session market_session

definition US_EQUITY :: trading_session where
  "US_EQUITY = Session \<lparr>ms_open = hm 9 30, ms_close = hm 16 0\<rparr>"

definition US_FUTURES :: trading_session where
  "US_FUTURES = Session \<lparr>ms_open = hm 18 0, ms_close = hm 17 0\<rparr>"

type_synonym calendar = "(string \<times> trading_session) list"

definition register_market :: "string \<Rightarrow> trading_session \<Rightarrow> calendar \<Rightarrow> calendar" where
  "register_market symbol session cal = AList.update symbol session cal"

definition market_open :: "calendar \<Rightarrow> string \<Rightarrow> datetime \<Rightarrow> bool" where
  "market_open cal symbol now =
     (case map_of cal symbol of
        None \<Rightarrow> True
      | Some CRYPTO_24_7 \<Rightarrow> True
      | Some FOREX_24_5 \<Rightarrow> weekday now < 5
      | Some (Session s) \<Rightarrow> if 5 \<le> weekday now then False else contains s now)"

lemma weekday_next: "weekday (t + DAY) = (weekday t + 1) mod 7"
  by (simp add: weekday_def DAY_def mod_simps algebra_simps)

lemma weekday_range: "0 \<le> weekday t \<and> weekday t < 7"
  by (simp add: weekday_def)

function skip_weekend :: "datetime \<Rightarrow> datetime" where
  "skip_weekend c = (if 5 \<le> weekday c then skip_weekend (c + DAY) else c)"
  by auto
termination
proof (relation "measure (\<lambda>c. nat ((7 - weekday c) mod 7))")
  show "(c + DAY, c) \<in> measure (\<lambda>c. nat ((7 - weekday c) mod 7))" if "5 \<le> weekday c" for c
  proof -
    have "weekday c = 5 \<or> weekday c = 6" using that weekday_range [of c] by linarith
    then show ?thesis by (auto simp: weekday_next)
  qed
qed simp

declare skip_weekend.simps [simp del]

definition next_open :: "calendar \<Rightarrow> string \<Rightarrow> datetime \<Rightarrow> datetime" where
  "next_open cal symbol now =
     (case map_of cal symbol of
        Some (Session s) \<Rightarrow>
          let candidate = combine now (ms_open s) in
          skip_weekend (if candidate < now then candidate + DAY else candidate)
      | _ \<Rightarrow> now)"

definition time_to_close :: "calendar \<Rightarrow> string \<Rightarrow> datetime \<Rightarrow> int" where
  "time_to_close cal symbol now =
     (case map_of cal symbol of
        Some (Session s) \<Rightarrow>
          let close = combine now (ms_close s) in (if close < now then close + DAY else close) - now
      | _ \<Rightarrow> 0)"

definition session_ok :: "market_session \<Rightarrow> bool" where
  "session_ok s \<longleftrightarrow> 0 \<le> ms_open s \<and> ms_open s < DAY \<and> 0 \<le> ms_close s \<and> ms_close s < DAY"

subsection \<open>The next opening\<close>

lemma time_of_day: "time_of (t + DAY) = time_of t"
  by (simp add: time_of_def)

lemma day_pos: "0 < DAY" by (simp add: DAY_def)

lemma time_of_combine: "0 \<le> tod \<Longrightarrow> tod < DAY \<Longrightarrow> time_of (combine t tod) = tod"
  by (simp add: time_of_def combine_def)

lemma combine_div: "0 \<le> tod \<Longrightarrow> tod < DAY \<Longrightarrow> combine t tod div DAY = t div DAY"
  using day_pos by (simp add: combine_def div_add1_eq)

lemma combine_bounds: "0 \<le> tod \<Longrightarrow> tod < DAY \<Longrightarrow> t - DAY < combine t tod \<and> combine t tod < t + DAY"
proof -
  assume b: "0 \<le> tod" "tod < DAY"
  have "t = t div DAY * DAY + t mod DAY" by simp
  moreover have "0 \<le> t mod DAY" "t mod DAY < DAY" using day_pos by simp_all
  ultimately show ?thesis using b unfolding combine_def by linarith
qed

lemma skip_weekend_spec:
  "weekday (skip_weekend c) < 5 \<and> time_of (skip_weekend c) = time_of c \<and> c \<le> skip_weekend c \<and> skip_weekend c \<le> c + 2 * DAY"
proof -
  consider "weekday c < 5" | "weekday c = 5" | "weekday c = 6" using weekday_range [of c] by linarith
  then show ?thesis
  proof cases
    case 1
    then show ?thesis using day_pos by (simp add: skip_weekend.simps [of c])
  next
    case 2
    define d where "d = c + DAY"
    define e where "e = d + DAY"
    have d: "weekday d = 6" using 2 unfolding d_def by (simp add: weekday_next)
    have e: "weekday e = 0" using d unfolding e_def by (simp add: weekday_next)
    have "skip_weekend c = skip_weekend d" using 2 by (simp add: skip_weekend.simps [of c] d_def)
    also have "\<dots> = skip_weekend e" using d by (simp add: skip_weekend.simps [of d] e_def)
    also have "\<dots> = e" using e by (simp add: skip_weekend.simps [of e])
    finally have s: "skip_weekend c = e" .
    have "time_of e = time_of c" unfolding e_def d_def time_of_day by (rule refl)
    moreover have "c \<le> e" "e = c + 2 * DAY" using day_pos by (simp_all add: d_def e_def)
    ultimately show ?thesis using s e by simp
  next
    case 3
    then have "weekday (c + DAY) = 0" by (simp add: weekday_next)
    then have "skip_weekend c = c + DAY"
      using 3 by (simp add: skip_weekend.simps [of c] skip_weekend.simps [of "c + DAY"])
    then show ?thesis using day_pos \<open>weekday (c + DAY) = 0\<close> by (simp add: time_of_day)
  qed
qed

lemma contains_open: "0 \<le> ms_close s \<Longrightarrow> time_of t = ms_open s \<Longrightarrow> contains s t"
  by (simp add: contains_def)

text \<open>
  The next opening is one: for a market with a session it lies within the next three days, on
  a weekday, at the opening time, and the market is open then.
\<close>

theorem next_open_is_open:
  assumes "map_of cal symbol = Some (Session s)" and "session_ok s"
  shows "now \<le> next_open cal symbol now \<and> next_open cal symbol now < now + 3 * DAY \<and>
     weekday (next_open cal symbol now) < 5 \<and> time_of (next_open cal symbol now) = ms_open s \<and>
     market_open cal symbol (next_open cal symbol now)"
proof -
  let ?c = "combine now (ms_open s)"
  let ?d = "if ?c < now then ?c + DAY else ?c"
  have n: "next_open cal symbol now = skip_weekend ?d" using assms(1) by (simp add: next_open_def Let_def)
  have b: "0 \<le> ms_open s" "ms_open s < DAY" "0 \<le> ms_close s" using assms(2) by (simp_all add: session_ok_def)
  have "now \<le> ?d" "?d < now + DAY" using combine_bounds [OF b(1,2), of now] by auto
  moreover have "time_of ?d = ms_open s" using time_of_combine [OF b(1,2)] by (simp add: time_of_day)
  ultimately have m: "now \<le> next_open cal symbol now" "next_open cal symbol now < now + 3 * DAY"
    "weekday (next_open cal symbol now) < 5" "time_of (next_open cal symbol now) = ms_open s"
    using skip_weekend_spec [of ?d] day_pos unfolding n by (auto intro: order_trans)
  then have "market_open cal symbol (next_open cal symbol now)"
    using assms(1) contains_open [OF b(3) m(4)] by (simp add: market_open_def)
  with m show ?thesis by blast
qed

theorem next_open_is_open_witness:
  "market_open [(''SPY'', US_EQUITY)] ''SPY'' (next_open [(''SPY'', US_EQUITY)] ''SPY'' 0)"
  using next_open_is_open [of "[(''SPY'', US_EQUITY)]" "''SPY''" "\<lparr>ms_open = hm 9 30, ms_close = hm 16 0\<rparr>" 0]
  by (simp add: US_EQUITY_def session_ok_def hm_def DAY_def)

text \<open>
  Two answers contradict each other: on a weekend the currency market is closed and its next
  opening is now, and a session over midnight is open at the Monday midnight that precedes
  the next opening it reports.
\<close>

theorem weekend_openings_contradict:
  assumes "map_of cal symbol = Some FOREX_24_5" and "map_of cal night = Some (Session s)"
    and "session_ok s" and "ms_close s < ms_open s" and "weekday now = 6"
  shows "\<not> market_open cal symbol now \<and> next_open cal symbol now = now \<and>
     market_open cal night (combine now 0 + DAY) \<and> now < combine now 0 + DAY \<and>
     combine now 0 + DAY < next_open cal night now"
proof -
  have b: "0 \<le> ms_open s" "ms_open s < DAY" "0 \<le> ms_close s" using assms(3) by (simp_all add: session_ok_def)
  have now: "now = now div DAY * DAY + time_of now" "0 \<le> time_of now" "time_of now < DAY"
    using day_pos by (simp_all add: time_of_def)
  have same_day: "weekday (combine now tod) = 6" if "0 \<le> tod" "tod < DAY" for tod
    using assms(5) combine_div [OF that, of now] by (simp add: weekday_def)
  then have monday: "weekday (combine now tod + DAY) = 0" if "0 \<le> tod" "tod < DAY" for tod
    using that by (simp add: weekday_next)
  have "time_of (combine now 0 + DAY) = 0" using time_of_combine [of 0 now] day_pos by (simp add: time_of_day)
  then have open_at: "market_open cal night (combine now 0 + DAY)"
    using assms(2,4) monday [of 0] b(3) day_pos by (simp add: market_open_def contains_def)
  have "skip_weekend (if combine now (ms_open s) < now then combine now (ms_open s) + DAY else combine now (ms_open s)) =
      combine now (ms_open s) + DAY"
    using same_day [OF b(1,2)] monday [OF b(1,2)]
    by (simp add: skip_weekend.simps [of "combine now (ms_open s)"] skip_weekend.simps [of "combine now (ms_open s) + DAY"])
  then have "next_open cal night now = combine now (ms_open s) + DAY" using assms(2) by (simp add: next_open_def Let_def)
  moreover have "0 < ms_open s" using b(3) assms(4) by simp
  moreover have "now < combine now 0 + DAY" using now unfolding combine_def by linarith
  ultimately show ?thesis using assms(1,5) open_at by (simp add: market_open_def next_open_def combine_def)
qed

theorem weekend_openings_contradict_witness:
  "\<not> market_open [(''EURUSD'', FOREX_24_5), (''ES'', US_FUTURES)] ''EURUSD'' (3 * DAY) \<and>
   next_open [(''EURUSD'', FOREX_24_5), (''ES'', US_FUTURES)] ''EURUSD'' (3 * DAY) = 3 * DAY"
  using weekend_openings_contradict [of "[(''EURUSD'', FOREX_24_5), (''ES'', US_FUTURES)]" "''EURUSD''" "''ES''"
      "\<lparr>ms_open = hm 18 0, ms_close = hm 17 0\<rparr>" "3 * DAY"]
  by (simp add: US_FUTURES_def session_ok_def hm_def DAY_def weekday_def)

end
