(* ===== verification/Messaging.thy ===== *)
theory Messaging
  imports PyFloat "HOL-Library.AList" "HOL-Library.Multiset"
begin

text \<open>
  \<open>infrastructure/message_queue.py\<close>, \<open>infrastructure/events.py\<close> and
  \<open>infrastructure/cache.py\<close>: the in-process queue, event bus and cache.

  A handler is a number, compared as the code compares functions.  The handlers of the queue
  only act outside of it, so a delivery is recorded and its exception, which is caught, has
  no effect; the handlers of the bus may change the bus while it publishes.  One step of the
  dispatch thread is an operation of its own, so its interleavings with the callers are lists
  of operations.  The Redis classes hand every call to the client library and are left out.
\<close>

subsection \<open>The message queue\<close>

type_synonym 'd message = "string \<times> 'd"

record 'd message_queue =
  mq_subscribers :: "(string \<times> nat list) list"
  mq_running :: bool
  mq_buffer :: "'d message list"
  mq_deliveries :: "(nat \<times> 'd message) list"
  mq_dispatched :: "'d message list"

definition new_message_queue :: "'d message_queue" where
  "new_message_queue = \<lparr>mq_subscribers = [], mq_running = False, mq_buffer = [], mq_deliveries = [], mq_dispatched = []\<rparr>"

definition subscribers :: "string \<Rightarrow> (string \<times> nat list) list \<Rightarrow> nat list" where
  "subscribers topic subs = (case map_of subs topic of None \<Rightarrow> [] | Some hs \<Rightarrow> hs)"

definition mq_dispatch :: "'d message \<Rightarrow> 'd message_queue \<Rightarrow> 'd message_queue" where
  "mq_dispatch msg q = q\<lparr>
     mq_deliveries := mq_deliveries q @
       map (\<lambda>h. (h, msg)) (subscribers (fst msg) (mq_subscribers q) @ subscribers ''*'' (mq_subscribers q)),
     mq_dispatched := mq_dispatched q @ [msg]\<rparr>"

definition mq_publish :: "string \<Rightarrow> 'd \<Rightarrow> 'd message_queue \<Rightarrow> 'd message_queue" where
  "mq_publish topic d q =
     (if mq_running q then q\<lparr>mq_buffer := mq_buffer q @ [(topic, d)]\<rparr> else mq_dispatch (topic, d) q)"

definition mq_subscribe :: "string \<Rightarrow> nat \<Rightarrow> 'd message_queue \<Rightarrow> 'd message_queue" where
  "mq_subscribe topic h q = q\<lparr>mq_subscribers := AList.update topic (subscribers topic (mq_subscribers q) @ [h]) (mq_subscribers q)\<rparr>"

definition mq_unsubscribe :: "string \<Rightarrow> nat \<Rightarrow> 'd message_queue \<Rightarrow> 'd message_queue" where
  "mq_unsubscribe topic h q =
     (if h \<in> set (subscribers topic (mq_subscribers q))
      then q\<lparr>mq_subscribers := AList.update topic (remove1 h (subscribers topic (mq_subscribers q))) (mq_subscribers q)\<rparr>
      else q)"

definition mq_start :: "'d message_queue \<Rightarrow> 'd message_queue" where
  "mq_start q = q\<lparr>mq_running := True\<rparr>"

definition mq_stop :: "'d message_queue \<Rightarrow> 'd message_queue" where
  "mq_stop q = q\<lparr>mq_running := False\<rparr>"

text \<open>One iteration of the dispatch loop.\<close>

definition mq_tick :: "'d message_queue \<Rightarrow> 'd message_queue" where
  "mq_tick q =
     (if \<not> mq_running q then q
      else case mq_buffer q of [] \<Rightarrow> q | msg # rest \<Rightarrow> mq_dispatch msg (q\<lparr>mq_buffer := rest\<rparr>))"

datatype 'd mq_op = Publish string 'd | Subscribe string nat | Unsubscribe string nat | Start | Stop | Tick

fun mq_do :: "'d mq_op \<Rightarrow> 'd message_queue \<Rightarrow> 'd message_queue" where
  "mq_do (Publish topic d) q = mq_publish topic d q"
| "mq_do (Subscribe topic h) q = mq_subscribe topic h q"
| "mq_do (Unsubscribe topic h) q = mq_unsubscribe topic h q"
| "mq_do Start q = mq_start q"
| "mq_do Stop q = mq_stop q"
| "mq_do Tick q = mq_tick q"

fun published :: "'d mq_op \<Rightarrow> 'd message list" where
  "published (Publish topic d) = [(topic, d)]"
| "published _ = []"

lemma mq_do_counts:
  "mset (mq_dispatched (mq_do x q)) + mset (mq_buffer (mq_do x q)) =
     mset (mq_dispatched q) + mset (mq_buffer q) + mset (published x)"
  by (cases x) (simp_all add: mq_publish_def mq_dispatch_def mq_subscribe_def mq_unsubscribe_def mq_start_def mq_stop_def
      mq_tick_def split: list.split)

lemma mq_run_counts:
  "mset (mq_dispatched (fold mq_do xs q)) + mset (mq_buffer (fold mq_do xs q)) =
     mset (mq_dispatched q) + mset (mq_buffer q) + mset (concat (map published xs))"
  by (induction xs arbitrary: q) (simp_all add: mq_do_counts)

lemma mq_do_order:
  assumes "mq_running q \<or> mq_buffer q = []" and "x \<noteq> Stop"
  shows "mq_dispatched (mq_do x q) @ mq_buffer (mq_do x q) = mq_dispatched q @ mq_buffer q @ published x \<and>
     (mq_running (mq_do x q) \<or> mq_buffer (mq_do x q) = [])"
  using assms by (cases x) (auto simp: mq_publish_def mq_dispatch_def mq_subscribe_def mq_unsubscribe_def mq_start_def
      mq_tick_def split: list.split)

lemma mq_run_order:
  assumes "mq_running q \<or> mq_buffer q = []" and "Stop \<notin> set xs"
  shows "mq_dispatched (fold mq_do xs q) @ mq_buffer (fold mq_do xs q) = mq_dispatched q @ mq_buffer q @ concat (map published xs)"
  using assms
proof (induction xs arbitrary: q)
  case (Cons x xs)
  then have step: "mq_dispatched (mq_do x q) @ mq_buffer (mq_do x q) = mq_dispatched q @ mq_buffer q @ published x"
    "mq_running (mq_do x q) \<or> mq_buffer (mq_do x q) = []"
    using mq_do_order [of q x] by auto
  have "mq_dispatched (fold mq_do xs (mq_do x q)) @ mq_buffer (fold mq_do xs (mq_do x q)) =
      (mq_dispatched (mq_do x q) @ mq_buffer (mq_do x q)) @ concat (map published xs)"
    using Cons.IH [OF step(2)] Cons.prems(2) by simp
  then show ?case unfolding step(1) by simp
qed simp

text \<open>
  No message is lost or doubled, and without a stop the order is kept: whatever calls and
  dispatch steps are made, in whatever order, the messages dispatched and the ones waiting
  are the ones published; and as long as the queue is not stopped they are dispatched in the
  order in which they were published.
\<close>

theorem queue_keeps_messages_in_order:
  "mset (mq_dispatched (fold mq_do xs new_message_queue)) + mset (mq_buffer (fold mq_do xs new_message_queue)) =
     mset (concat (map published xs)) \<and>
   (if Stop \<in> set xs then True
    else mq_dispatched (fold mq_do xs new_message_queue) @ mq_buffer (fold mq_do xs new_message_queue) = concat (map published xs))"
  using mq_run_counts [of xs new_message_queue] mq_run_order [of new_message_queue xs]
  by (auto simp: new_message_queue_def)

text \<open>
  A stop strands what waits: after it no dispatch step delivers anything, and a message
  published then is delivered at once, ahead of every waiting one.
\<close>

theorem stop_strands_the_buffer:
  "fold mq_do (replicate n Tick) (mq_do Stop q) = mq_do Stop q \<and>
   mq_buffer (mq_do (Publish topic d) (mq_do Stop q)) = mq_buffer q \<and>
   mq_dispatched (mq_do (Publish topic d) (mq_do Stop q)) = mq_dispatched q @ [(topic, d)]"
proof -
  have "fold mq_do (replicate n Tick) q' = q'" if "\<not> mq_running q'" for q' :: "'a message_queue"
    using that by (induction n) (simp_all add: mq_tick_def)
  then show ?thesis by (simp add: mq_stop_def mq_publish_def mq_dispatch_def)
qed

subsection \<open>The event bus\<close>

type_synonym bus = "(string \<times> nat list) list"

definition bus_subscribe :: "string \<Rightarrow> nat \<Rightarrow> bus \<Rightarrow> bus" where
  "bus_subscribe et h b = AList.update et (subscribers et b @ [h]) b"

definition bus_unsubscribe :: "string \<Rightarrow> nat \<Rightarrow> bus \<Rightarrow> bus" where
  "bus_unsubscribe et h b = (if h \<in> set (subscribers et b) then AList.update et (remove1 h (subscribers et b)) b else b)"

text \<open>
  \<open>publish\<close> iterates the live list by position: \<open>react h\<close> is what the handler does to the
  bus, its exception being caught.
\<close>

partial_function (option) publish_from :: "(nat \<Rightarrow> bus \<Rightarrow> bus) \<Rightarrow> string \<Rightarrow> nat \<Rightarrow> bus \<Rightarrow> (nat list \<times> bus) option" where
  "publish_from react et i b =
     (if i < length (subscribers et b)
      then Option.bind (publish_from react et (Suc i) (react (subscribers et b ! i) b))
             (\<lambda>(called, b'). Some (subscribers et b ! i # called, b'))
      else Some ([], b))"

definition bus_publish :: "(nat \<Rightarrow> bus \<Rightarrow> bus) \<Rightarrow> string \<Rightarrow> bus \<Rightarrow> (nat list \<times> bus) option" where
  "bus_publish react et b = publish_from react et 0 b"

lemma publish_passive:
  assumes "\<forall>h \<in> set (drop i (subscribers et b)). react h b = b"
  shows "publish_from react et i b = Some (drop i (subscribers et b), b)"
  using assms
proof (induction "length (subscribers et b) - i" arbitrary: i)
  case 0
  then show ?case by (simp add: publish_from.simps [of react et i b])
next
  case (Suc n)
  have i: "i < length (subscribers et b)" using Suc.hyps(2) by simp
  then have cons: "drop i (subscribers et b) = subscribers et b ! i # drop (Suc i) (subscribers et b)"
    by (simp add: Cons_nth_drop_Suc)
  then have "publish_from react et (Suc i) b = Some (drop (Suc i) (subscribers et b), b)"
    using Suc.hyps(1) [of "Suc i"] Suc.hyps(2) Suc.prems by auto
  then show ?case using i cons Suc.prems by (simp add: publish_from.simps [of react et i b])
qed

lemma publish_growing:
  assumes grow: "\<And>h b. length (subscribers et (react h b)) = Suc (length (subscribers et b))"
  shows "i < length (subscribers et b) \<Longrightarrow> publish_from react et i b \<noteq> Some (called, b')"
proof (induction called arbitrary: i b)
  case Nil
  then show ?case by (auto simp: publish_from.simps [of react et i b] bind_eq_Some_conv split: prod.splits)
next
  case (Cons h called)
  let ?b = "react (subscribers et b ! i) b"
  have "publish_from react et (Suc i) ?b \<noteq> Some (called, b')" using Cons by (simp add: grow)
  then show ?case using Cons.prems by (auto simp: publish_from.simps [of react et i b] bind_eq_Some_conv)
qed

lemma subscribers_update: "subscribers et (AList.update et hs b) = hs"
  by (simp add: subscribers_def update_conv')

text \<open>
  What a publication calls: with handlers that leave the bus alone, each of them once, in
  order.  A handler that unsubscribes itself makes the bus skip the next one, and handlers
  that each subscribe one more keep the publication from ever returning.
\<close>

theorem publication_calls:
  "(if \<forall>h \<in> set (subscribers et b). react h b = b then bus_publish react et b = Some (subscribers et b, b) else True) \<and>
   (if subscribers et b = k # y # ys \<and> k \<notin> set (y # ys)
    then map_option fst (bus_publish (\<lambda>h b. if h = k then bus_unsubscribe et k b else b) et b) = Some (k # ys) else True) \<and>
   (if subscribers et b \<noteq> [] then bus_publish (\<lambda>h b. bus_subscribe et k b) et b = None else True)"
proof (intro conjI)
  show "if \<forall>h \<in> set (subscribers et b). react h b = b then bus_publish react et b = Some (subscribers et b, b) else True"
    using publish_passive [of 0 et b react] by (simp add: bus_publish_def)
next
  let ?react = "\<lambda>h b. if h = k then bus_unsubscribe et k b else b"
  show "if subscribers et b = k # y # ys \<and> k \<notin> set (y # ys)
    then map_option fst (bus_publish ?react et b) = Some (k # ys) else True"
  proof (cases "subscribers et b = k # y # ys \<and> k \<notin> set (y # ys)")
    case True
    then have next_subs: "subscribers et (bus_unsubscribe et k b) = y # ys"
      by (simp add: bus_unsubscribe_def subscribers_update)
    have "publish_from ?react et 1 (bus_unsubscribe et k b) = Some (ys, bus_unsubscribe et k b)"
      using publish_passive [of 1 et "bus_unsubscribe et k b" ?react] next_subs True by auto
    then show ?thesis using True by (simp add: bus_publish_def publish_from.simps [of ?react et 0 b])
  next
    case False
    then show ?thesis by (simp only: if_False simp_thms)
  qed
next
  have "length (subscribers et (bus_subscribe et k b')) = Suc (length (subscribers et b'))" for b'
    by (simp add: bus_subscribe_def subscribers_update)
  then show "if subscribers et b \<noteq> [] then bus_publish (\<lambda>h b. bus_subscribe et k b) et b = None else True"
    using publish_growing [where react = "\<lambda>h b. bus_subscribe et k b" and et = et and i = 0 and b = b]
    by (cases "bus_publish (\<lambda>h b. bus_subscribe et k b) et b") (auto simp: bus_publish_def)
qed

subsection \<open>The cache\<close>

record 'v cache_entry =
  cache_value :: 'v
  expires_at :: float64
  cache_hits :: nat

record 'v cache =
  ca_max_size :: int
  ca_default_ttl :: float64
  ca_data :: "(string \<times> 'v cache_entry) list"

definition is_expired :: "float64 \<Rightarrow> 'v cache_entry \<Rightarrow> bool" where
  "is_expired now e = (expires_at e < now)"

definition cache_get :: "float64 \<Rightarrow> string \<Rightarrow> 'v cache \<Rightarrow> 'v option \<times> 'v cache" where
  "cache_get now key c =
     (case map_of (ca_data c) key of
        None \<Rightarrow> (None, c)
      | Some e \<Rightarrow>
          if is_expired now e then (None, c\<lparr>ca_data := AList.delete key (ca_data c)\<rparr>)
          else (Some (cache_value e), c\<lparr>ca_data := AList.update key (e\<lparr>cache_hits := cache_hits e + 1\<rparr>) (ca_data c)\<rparr>))"

definition cache_has :: "float64 \<Rightarrow> string \<Rightarrow> 'v cache \<Rightarrow> bool \<times> 'v cache" where
  "cache_has now key c =
     (case map_of (ca_data c) key of
        None \<Rightarrow> (False, c)
      | Some e \<Rightarrow> if is_expired now e then (False, c\<lparr>ca_data := AList.delete key (ca_data c)\<rparr>) else (True, c))"

text \<open>\<open>min\<close> of the keys by expiry: the first of the smallest.\<close>

fun earliest :: "(string \<times> 'v cache_entry) \<Rightarrow> (string \<times> 'v cache_entry) list \<Rightarrow> string \<times> 'v cache_entry" where
  "earliest best [] = best"
| "earliest best (x # xs) = earliest (if expires_at (snd x) < expires_at (snd best) then x else best) xs"

definition cache_evict :: "'v cache \<Rightarrow> 'v cache res" where
  "cache_evict c =
     (case ca_data c of
        [] \<Rightarrow> Inl ValueError
      | x # xs \<Rightarrow> Inr (c\<lparr>ca_data := AList.delete (fst (earliest x xs)) (ca_data c)\<rparr>))"

definition cache_set :: "float64 \<Rightarrow> string \<Rightarrow> 'v \<Rightarrow> float64 option \<Rightarrow> 'v cache \<Rightarrow> unit res \<times> 'v cache" where
  "cache_set now key v ttl c =
     (case (if ca_max_size c \<le> int (length (ca_data c)) \<and> map_of (ca_data c) key = None then cache_evict c else Inr c) of
        Inl e \<Rightarrow> (Inl e, c)
      | Inr c1 \<Rightarrow>
          (Inr (), c1\<lparr>ca_data := AList.update key
             \<lparr>cache_value = v, expires_at = now + (case ttl of None \<Rightarrow> ca_default_ttl c | Some t \<Rightarrow> t), cache_hits = 0\<rparr> (ca_data c1)\<rparr>))"

definition cache_delete :: "string \<Rightarrow> 'v cache \<Rightarrow> 'v cache" where
  "cache_delete key c = c\<lparr>ca_data := AList.delete key (ca_data c)\<rparr>"

definition cache_clear :: "'v cache \<Rightarrow> 'v cache" where
  "cache_clear c = c\<lparr>ca_data := []\<rparr>"

lemma earliest_member: "earliest b xs \<in> set (b # xs)"
proof (induction xs arbitrary: b)
  case (Cons x xs)
  show ?case using Cons.IH [of x] Cons.IH [of b] by auto
qed simp

lemma earliest_least:
  assumes "\<forall>z \<in> set (b # xs). expires_at (snd z) \<noteq> NaN" and "y \<in> set (b # xs)"
  shows "expires_at (snd (earliest b xs)) \<le> expires_at (snd y)"
  using assms
proof (induction xs arbitrary: b y)
  case Nil
  then show ?case by (simp add: float_le_refl)
next
  case (Cons x xs)
  let ?best = "if expires_at (snd x) < expires_at (snd b) then x else b"
  have least: "expires_at (snd (earliest ?best xs)) \<le> expires_at (snd z)" if "z \<in> set (?best # xs)" for z
    using Cons.IH [of ?best z] Cons.prems(1) that by auto
  have "expires_at (snd ?best) \<le> expires_at (snd x) \<and> expires_at (snd ?best) \<le> expires_at (snd b)"
    using Cons.prems(1) by (auto simp: float_le_refl float_not_less dest: float_less_imp_le)
  then show ?case using least [of ?best] least [of y] Cons.prems(2) by (auto intro: float_le_trans)
qed

text \<open>The entries of a cache: one per key, with a time of expiry.\<close>

definition cache_ok :: "'v cache \<Rightarrow> bool" where
  "cache_ok c \<longleftrightarrow> distinct (map fst (ca_data c)) \<and> (\<forall>e \<in> snd ` set (ca_data c). expires_at e \<noteq> NaN)"

text \<open>
  Expired entries make room first: when a new key finds the cache full and some entry has
  expired, no entry that has not is evicted.
\<close>

theorem eviction_spares_live_entries:
  assumes "cache_ok c" and "cache_set now key v ttl c = (Inr (), c')"
    and "k0 \<in> set (map fst (ca_data c)) \<and> is_expired now (the (map_of (ca_data c) k0))"
    and "map_of (ca_data c) k = Some e" and "\<not> is_expired now e" and "k \<noteq> key"
  shows "map_of (ca_data c') k = Some e"
proof (cases "ca_max_size c \<le> int (length (ca_data c)) \<and> map_of (ca_data c) key = None")
  case False
  then show ?thesis using assms(2,4,6) by (auto simp: cache_set_def update_conv')
next
  case True
  obtain x xs where data: "ca_data c = x # xs" using assms(4) by (cases "ca_data c") auto
  let ?victim = "earliest x xs"
  obtain e0 where e0: "map_of (ca_data c) k0 = Some e0" "is_expired now e0"
    using assms(3) by (metis domIff dom_map_of_conv_image_fst list.set_map option.collapse)
  have "expires_at (snd ?victim) \<le> expires_at e0"
    using earliest_least [of x xs "(k0, e0)"] assms(1) map_of_SomeD [OF e0(1)] data by (auto simp: cache_ok_def)
  then have expired: "is_expired now (snd ?victim)" using e0(2) by (auto simp: is_expired_def intro: float_le_less_trans)
  have "map_of (ca_data c) (fst ?victim) = Some (snd ?victim)"
    using assms(1) earliest_member [of x xs] data by (intro map_of_is_SomeI) (simp_all add: cache_ok_def)
  then have "fst ?victim \<noteq> k" using assms(4,5) expired by auto
  then show ?thesis
    using True assms(2,4,6) data by (auto simp: cache_set_def cache_evict_def update_conv' delete_conv')
qed

definition full_cache :: "nat cache" where
  "full_cache = \<lparr>ca_max_size = 2, ca_default_ttl = 0,
     ca_data = [(''live'', \<lparr>cache_value = 1, expires_at = 1, cache_hits = 0\<rparr>), (''old'', \<lparr>cache_value = 2, expires_at = 0, cache_hits = 0\<rparr>)]\<rparr>"

theorem eviction_spares_live_entries_witness:
  "map_of (ca_data (snd (cache_set 1 ''new'' 3 None full_cache))) ''live'' = Some \<lparr>cache_value = 1, expires_at = 1, cache_hits = 0\<rparr>"
proof -
  have run: "cache_set 1 ''new'' 3 None full_cache = (Inr (), snd (cache_set 1 ''new'' 3 None full_cache))"
    by (simp add: cache_set_def full_cache_def cache_evict_def)
  show ?thesis
    by (rule eviction_spares_live_entries [OF _ run, of "''old''"])
      (simp_all add: cache_ok_def full_cache_def is_expired_def zero_eq_Fin one_eq_Fin)
qed

datatype 'v cache_op = CacheGet string | CacheHas string | CacheSet string 'v "float64 option" | CacheDelete string | CacheClear

fun cache_do :: "float64 \<times> 'v cache_op \<Rightarrow> 'v cache \<Rightarrow> 'v cache" where
  "cache_do (now, CacheGet key) c = snd (cache_get now key c)"
| "cache_do (now, CacheHas key) c = snd (cache_has now key c)"
| "cache_do (now, CacheSet key v ttl) c = snd (cache_set now key v ttl c)"
| "cache_do (now, CacheDelete key) c = cache_delete key c"
| "cache_do (now, CacheClear) c = cache_clear c"

definition cache_bounded :: "'v cache \<Rightarrow> bool" where
  "cache_bounded c \<longleftrightarrow> distinct (map fst (ca_data c)) \<and> int (length (ca_data c)) \<le> max 0 (ca_max_size c)"

lemma length_update_alist:
  "length (AList.update k v xs) = (if k \<in> fst ` set xs then length xs else length xs + 1)"
  by (induction xs) auto

lemma length_delete_le: "length (AList.delete k xs) \<le> length xs"
  by (simp add: AList.delete_eq)

lemma length_delete_member:
  assumes "k \<in> fst ` set xs"
  shows "length (AList.delete k xs) < length xs"
proof -
  obtain x where "x \<in> set xs" "\<not> fst x \<noteq> k" using assms by auto
  from length_filter_less [of x xs "\<lambda>x. fst x \<noteq> k", OF this] show ?thesis
    by (simp add: AList.delete_eq case_prod_beta' eq_commute [of k])
qed

lemma cache_set_bounded:
  assumes "cache_bounded c"
  shows "cache_bounded (snd (cache_set now key v ttl c)) \<and> ca_max_size (snd (cache_set now key v ttl c)) = ca_max_size c"
proof (cases "ca_max_size c \<le> int (length (ca_data c)) \<and> map_of (ca_data c) key = None")
  case True
  show ?thesis
  proof (cases "ca_data c")
    case Nil
    then show ?thesis using True assms by (simp add: cache_set_def cache_evict_def)
  next
    case (Cons x xs)
    let ?k = "fst (earliest x xs)"
    let ?e = "\<lparr>cache_value = v, expires_at = now + (case ttl of None \<Rightarrow> ca_default_ttl c | Some t \<Rightarrow> t), cache_hits = 0\<rparr>"
    have "?k \<in> fst ` set (ca_data c)" using earliest_member [of x xs] Cons by auto
    note shorter = length_delete_member [OF this]
    have "snd (cache_set now key v ttl c) = c\<lparr>ca_data := AList.update key ?e (AList.delete ?k (ca_data c))\<rparr>"
      using True Cons by (simp add: cache_set_def cache_evict_def del: delete_simps)
    moreover have "length (AList.update key ?e (AList.delete ?k (ca_data c))) \<le> length (ca_data c)"
      using shorter by (simp add: length_update_alist)
    moreover have "distinct (map fst (AList.update key ?e (AList.delete ?k (ca_data c))))"
      using assms by (intro distinct_update distinct_delete) (simp add: cache_bounded_def)
    ultimately show ?thesis using assms by (simp add: cache_bounded_def)
  qed
next
  case False
  then show ?thesis
    using assms by (auto simp: cache_set_def cache_bounded_def length_update_alist distinct_update map_of_eq_None_iff)
qed

lemma cache_do_bounded:
  assumes "cache_bounded c"
  shows "cache_bounded (cache_do x c) \<and> ca_max_size (cache_do x c) = ca_max_size c"
proof -
  obtain now y where x: "x = (now, y)" by fastforce
  have del: "cache_bounded (c\<lparr>ca_data := AList.delete key (ca_data c)\<rparr>)" for key
    using assms length_delete_le [of key "ca_data c"] by (auto simp: cache_bounded_def distinct_delete)
  have upd: "cache_bounded (c\<lparr>ca_data := AList.update key e (ca_data c)\<rparr>)" if "map_of (ca_data c) key = Some e'" for key e e'
  proof -
    have "key \<in> fst ` set (ca_data c)" using map_of_SomeD [OF that] by force
    then show ?thesis using assms by (simp add: cache_bounded_def distinct_update length_update_alist)
  qed
  show ?thesis
    using assms del upd cache_set_bounded [OF assms]
    by (cases y) (auto simp only: x cache_do.simps, auto simp: cache_get_def cache_has_def cache_delete_def cache_clear_def cache_bounded_def [of "c\<lparr>ca_data := []\<rparr>"] split: option.split)
qed

text \<open>
  The cache is bounded: whatever calls are made, at whatever times, it holds at most its
  configured number of entries, one per key; a cache configured for none raises on the first
  entry.
\<close>

theorem cache_stays_bounded:
  "int (length (ca_data (fold cache_do xs \<lparr>ca_max_size = m, ca_default_ttl = t, ca_data = []\<rparr>))) \<le> max 0 m \<and>
   (if m \<le> 0 then fst (cache_set now key v ttl \<lparr>ca_max_size = m, ca_default_ttl = t, ca_data = []\<rparr>) = Inl ValueError else True)"
proof -
  have "cache_bounded (fold cache_do xs c) \<and> ca_max_size (fold cache_do xs c) = ca_max_size c" if "cache_bounded c" for c
    using that by (induction xs arbitrary: c) (auto simp: cache_do_bounded)
  from this [of "\<lparr>ca_max_size = m, ca_default_ttl = t, ca_data = []\<rparr>"] show ?thesis
    by (auto simp: cache_bounded_def cache_set_def cache_evict_def)
qed

text \<open>
  What was stored is read until it expires: after an accepted \<open>set\<close> a read of the key gives
  the value up to and including the instant of expiry, and nothing after it.
\<close>

theorem cache_reads_what_was_set:
  assumes "cache_set t1 key v ttl c = (Inr (), c')"
  shows "fst (cache_get t2 key c') =
     (if t1 + (case ttl of None \<Rightarrow> ca_default_ttl c | Some t \<Rightarrow> t) < t2 then None else Some v)"
  using assms
  by (auto simp: cache_set_def cache_get_def is_expired_def update_conv' split: sum.splits if_splits)

theorem cache_reads_what_was_set_witness:
  "fst (cache_get 1 ''new'' (snd (cache_set 1 ''new'' 3 None full_cache))) = Some 3"
proof -
  have run: "cache_set 1 ''new'' 3 None full_cache = (Inr (), snd (cache_set 1 ''new'' 3 None full_cache))"
    by (simp add: cache_set_def full_cache_def cache_evict_def)
  show ?thesis unfolding cache_reads_what_was_set [OF run] by (simp add: full_cache_def one_eq_Fin zero_eq_Fin float_eval)
qed

end
