(* ===== verification/Money.thy ===== *)
theory Money
  imports PyText
begin

text \<open>
  \<open>domain/entities/money.py\<close>: exact money between \<open>Decimal\<close> and scaled integers.

  The part of Python's \<open>decimal\<close> module the file uses is modelled under the default
  context (28 digits, \<open>ROUND_HALF_EVEN\<close>, exponents within \<open>999999\<close>, traps for
  invalid operations and overflow): the string constructor on ASCII input, \<open>scaleb\<close>
  with its final rounding to the context, \<open>to_integral_value\<close>, comparison and
  \<open>int()\<close>.  The point the theorems turn on is that \<open>scaleb\<close> rounds to 28 digits
  before the file's own exactness test sees the value.
\<close>

subsection \<open>Decimal values\<close>

datatype decimal = Dec (neg: bool) (coeff: int) (dexp: int) | DInf bool | DNaN | DSNaN

fun dec_val :: "decimal \<Rightarrow> rat" where
  "dec_val (Dec s c e) = (if s then - 1 else 1) * of_int c * 10 powi e"
| "dec_val _ = 0"

function ndigits :: "int \<Rightarrow> nat" where
  "ndigits n = (if n < 10 then 1 else Suc (ndigits (n div 10)))"
  by pat_completeness auto
termination
  by (relation "measure nat") auto

declare ndigits.simps [simp del]

definition div_half_even :: "int \<Rightarrow> int \<Rightarrow> int" where
  "div_half_even n d = (let q = n div d; r = n mod d in
     if 2 * r < d then q else if d < 2 * r then q + 1 else if even q then q else q + 1)"

abbreviation dec_prec :: int where "dec_prec \<equiv> 28"
abbreviation dec_emax :: int where "dec_emax \<equiv> 999999"
abbreviation dec_etop :: int where "dec_etop \<equiv> 999972"
abbreviation dec_etiny :: int where "dec_etiny \<equiv> - 1000026"

abbreviation decimal_overflow :: exc where "decimal_overflow \<equiv> OtherException ''Overflow''"

text \<open>The final step of an operation: round to the context's precision and range.\<close>

definition dec_fix :: "bool \<Rightarrow> int \<Rightarrow> int \<Rightarrow> decimal res" where
  "dec_fix s c e =
     (if c = 0 then Inr (Dec s 0 (min (max e dec_etiny) dec_emax))
      else let m = int (ndigits c) + e - dec_prec in
        if dec_etop < m then Inl decimal_overflow
        else let m' = max m dec_etiny in
          if e < m' then
            (let c' = div_half_even c (10 ^ nat (m' - e)) in
             if 28 < ndigits c'
             then (if dec_etop < m' + 1 then Inl decimal_overflow
                   else Inr (Dec s (c' div 10) (m' + 1)))
             else Inr (Dec s c' m'))
          else Inr (Dec s c e))"

fun scaleb :: "decimal \<Rightarrow> int \<Rightarrow> decimal res" where
  "scaleb (Dec s c e) n =
     (if n < - 2000054 \<or> 2000054 < n then Inl InvalidOperation else dec_fix s c (e + n))"
| "scaleb (DInf s) n =
     (if n < - 2000054 \<or> 2000054 < n then Inl InvalidOperation else Inr (DInf s))"
| "scaleb DNaN n = Inr DNaN"
| "scaleb DSNaN n = Inl InvalidOperation"

fun to_integral_half_even :: "decimal \<Rightarrow> decimal" where
  "to_integral_half_even (Dec s c e) =
     (if 0 \<le> e then Dec s c e else Dec s (div_half_even c (10 ^ nat (- e))) 0)"
| "to_integral_half_even d = d"

text \<open>\<open>a != b\<close>, numerically; a NaN differs from everything.\<close>

fun dec_ne :: "decimal \<Rightarrow> decimal \<Rightarrow> bool" where
  "dec_ne (Dec s c e) (Dec s' c' e') = (dec_val (Dec s c e) \<noteq> dec_val (Dec s' c' e'))"
| "dec_ne (DInf s) (DInf s') = (s \<noteq> s')"
| "dec_ne _ _ = True"

fun dec_int :: "decimal \<Rightarrow> int res" where
  "dec_int (Dec s c e) =
     (let m = (if 0 \<le> e then c * 10 ^ nat e else c div 10 ^ nat (- e))
      in Inr (if s then - m else m))"
| "dec_int (DInf s) = Inl OverflowError"
| "dec_int _ = Inl ValueError"

subsection \<open>The string constructor\<close>

fun dec_exponent :: "string \<Rightarrow> int option" where
  "dec_exponent [] = Some 0"
| "dec_exponent (c # cs) =
     (if lower_char c \<noteq> CHR ''e'' then None
      else let (s, ds) = split_sign cs in
        if ds = [] \<or> \<not> list_all is_digit ds then None
        else Some ((if s then - 1 else 1) * digits_value ds))"

definition parse_number :: "bool \<Rightarrow> string \<Rightarrow> decimal option" where
  "parse_number s t =
     (let ip = takeWhile is_digit t; r = dropWhile is_digit t;
          (fp, r') = (case r of
              c # cs \<Rightarrow> if c = CHR ''.'' then (takeWhile is_digit cs, dropWhile is_digit cs)
                       else ([], r)
            | [] \<Rightarrow> ([], []))
      in if ip @ fp = [] then None
         else case dec_exponent r' of
             None \<Rightarrow> None
           | Some e \<Rightarrow> Some (Dec s (digits_value (ip @ fp)) (e - int (length fp))))"

definition parse_decimal :: "string \<Rightarrow> decimal option" where
  "parse_decimal str =
     (let (s, t) = split_sign (filter (\<lambda>c. c \<noteq> CHR ''_'') (strip str)); l = lower t in
      if l = ''inf'' \<or> l = ''infinity'' then Some (DInf s)
      else if take 3 l = ''nan'' \<and> list_all is_digit (drop 3 l) then Some DNaN
      else if take 4 l = ''snan'' \<and> list_all is_digit (drop 4 l) then Some DSNaN
      else parse_number s t)"

subsection \<open>The module\<close>

datatype money_input = MFloat | MDecimal decimal | MInt int | MStr string

definition PRICE_SCALE :: int where "PRICE_SCALE = 8"
definition QTY_SCALE :: int where "QTY_SCALE = 8"

fun as_decimal :: "money_input \<Rightarrow> decimal res" where
  "as_decimal MFloat = Inl MoneyPrecisionError"
| "as_decimal (MDecimal d) = Inr d"
| "as_decimal (MInt n) = Inr (Dec (n < 0) \<bar>n\<bar> 0)"
| "as_decimal (MStr s) =
     (case parse_decimal s of None \<Rightarrow> Inl MoneyPrecisionError | Some d \<Rightarrow> Inr d)"

definition to_minor_units :: "money_input \<Rightarrow> int \<Rightarrow> bool \<Rightarrow> int res" where
  "to_minor_units value scale exact =
     rbind (as_decimal value) (\<lambda>amount.
     rbind (scaleb amount scale) (\<lambda>scaled.
       let integral = to_integral_half_even scaled in
       if exact \<and> dec_ne scaled integral then Inl MoneyPrecisionError
       else dec_int integral))"

text \<open>\<open>from_minor_units\<close>: \<open>None\<close> stands for a float argument, which is refused.\<close>

definition from_minor_units :: "int option \<Rightarrow> int \<Rightarrow> decimal res" where
  "from_minor_units value scale =
     (case value of
        None \<Rightarrow> Inl MoneyPrecisionError
      | Some n \<Rightarrow> scaleb (Dec (n < 0) \<bar>n\<bar> 0) (- scale))"

definition to_price_minor_units :: "money_input \<Rightarrow> bool \<Rightarrow> int res" where
  "to_price_minor_units value exact = to_minor_units value PRICE_SCALE exact"

definition from_price_minor_units :: "int option \<Rightarrow> decimal res" where
  "from_price_minor_units value = from_minor_units value PRICE_SCALE"

definition to_qty_minor_units :: "money_input \<Rightarrow> bool \<Rightarrow> int res" where
  "to_qty_minor_units value exact = to_minor_units value QTY_SCALE exact"

definition from_qty_minor_units :: "int option \<Rightarrow> decimal res" where
  "from_qty_minor_units value = from_minor_units value QTY_SCALE"

subsection \<open>Digits and rounding of coefficients\<close>

lemma ndigits_bounds: "0 < n \<Longrightarrow> 10 ^ (ndigits n - 1) \<le> n \<and> n < 10 ^ ndigits n \<and> 0 < ndigits n"
proof (induction n rule: ndigits.induct)
  case (1 n)
  show ?case
  proof (cases "n < 10")
    case True
    with "1.prems" show ?thesis by (simp add: ndigits.simps)
  next
    case False
    with "1.IH" have IH: "10 ^ (ndigits (n div 10) - 1) \<le> n div 10"
      "n div 10 < 10 ^ ndigits (n div 10)" "0 < ndigits (n div 10)" by auto
    define k where "k = ndigits (n div 10) - 1"
    have k: "ndigits (n div 10) = Suc k" using IH(3) by (simp add: k_def)
    have "ndigits n = Suc (Suc k)" using False by (subst ndigits.simps) (simp add: k)
    moreover have "10 ^ Suc k \<le> n" and "n < 10 ^ Suc (Suc k)"
      using IH(1,2) by (simp_all add: k)
    ultimately show ?thesis by simp
  qed
qed

lemma ndigits_le:
  assumes "0 < n" and "n < 10 ^ k"
  shows "ndigits n \<le> k"
proof (rule ccontr)
  assume "\<not> ndigits n \<le> k"
  then have "(10 :: int) ^ k \<le> 10 ^ (ndigits n - 1)" by (intro power_increasing) auto
  with ndigits_bounds [OF assms(1)] assms(2) show False by linarith
qed

lemma dec_fix_exact:
  assumes "0 \<le> c" and "c < 10 ^ 28" and "- 1000026 \<le> e" and "e \<le> 999972"
  shows "dec_fix s c e = Inr (Dec s c e)"
proof (cases "c = 0")
  case True
  with assms(3,4) show ?thesis by (simp add: dec_fix_def)
next
  case False
  with assms have "ndigits c \<le> 28" by (intro ndigits_le) auto
  then have "\<not> 999972 < int (ndigits c) + e - 28" and "\<not> e < max (int (ndigits c) + e - 28) (- 1000026)"
    using assms(3,4) by linarith+
  with False show ?thesis by (simp only: dec_fix_def Let_def if_False)
qed

lemma div_half_even_exact: "0 < d \<Longrightarrow> d dvd n \<Longrightarrow> div_half_even n d = n div d"
  by (simp add: div_half_even_def)

lemma div_half_even_near:
  assumes "0 < d"
  shows "\<bar>of_int (div_half_even n d) - (of_int n / of_int d :: rat)\<bar> \<le> 1 / 2"
proof -
  have "of_int n = (of_int (n div d) * of_int d + of_int (n mod d) :: rat)"
    by (metis div_mult_mod_eq of_int_add of_int_mult)
  then have q: "(of_int n / of_int d :: rat) = of_int (n div d) + of_int (n mod d) / of_int d"
    using assms by (simp add: field_simps)
  define f where "f = (of_int (n mod d) / of_int d :: rat)"
  have dpos: "(0 :: rat) < of_int d" using assms by simp
  have "of_int (n mod d) < (of_int d :: rat)" using assms by (simp only: of_int_less_iff pos_mod_bound)
  then have f: "0 \<le> f" "f < 1" using assms dpos by (simp_all add: f_def)
  have lo: "f \<le> 1 / 2" if "2 * (n mod d) \<le> d"
  proof -
    have "(of_int (2 * (n mod d)) :: rat) \<le> of_int d" using that by (simp only: of_int_le_iff)
    then show ?thesis using dpos by (simp add: f_def field_simps)
  qed
  have hi: "1 / 2 \<le> f" if "d \<le> 2 * (n mod d)"
  proof -
    have "of_int d \<le> (of_int (2 * (n mod d)) :: rat)" using that by (simp only: of_int_le_iff)
    then show ?thesis using dpos by (simp add: f_def field_simps)
  qed
  have near: "\<bar>a - (a + f)\<bar> \<le> 1 / 2" if "f \<le> 1 / 2" for a
    using that f by (simp add: abs_le_iff)
  have near1: "\<bar>a + 1 - (a + f)\<bar> \<le> 1 / 2" if "1 / 2 \<le> f" for a
    using that f by (simp add: abs_le_iff)
  show ?thesis
    unfolding q f_def [symmetric] div_half_even_def Let_def
    using lo hi near [of "of_int (n div d)"] near1 [of "of_int (n div d)"] by auto
qed

lemma dec_val_shift: "dec_val (Dec s c (e + k)) = dec_val (Dec s c e) * 10 powi k"
  by (simp add: power_int_add)

lemma powi10_neg: "e < 0 \<Longrightarrow> (10 :: rat) powi e = 1 / of_int (10 ^ nat (- e))"
  using power_int_minus [of "10 :: rat" "- e"] by (simp add: power_int_def inverse_eq_divide)

lemma dec_val_neg_exp:
  "e < 0 \<Longrightarrow> dec_val (Dec s c e) = (if s then - 1 else 1) * (of_int c / of_int (10 ^ nat (- e)))"
  by (simp add: powi10_neg)

lemma dec_int_integral:
  assumes "0 \<le> e"
  shows "dec_int (Dec s c e) = Inr (if s then - (c * 10 ^ nat e) else c * 10 ^ nat e)"
    and "dec_val (Dec s c e) = of_int (if s then - (c * 10 ^ nat e) else c * 10 ^ nat e)"
  using assms by (simp_all add: power_int_def)

subsection \<open>What a conversion to minor units computes\<close>

text \<open>The integer a finite scaled decimal is turned into, and how far it is from it.\<close>

definition rounded_int :: "bool \<Rightarrow> int \<Rightarrow> int \<Rightarrow> int" where
  "rounded_int s c e = (let m = (if 0 \<le> e then c * 10 ^ nat e else div_half_even c (10 ^ nat (- e)))
     in if s then - m else m)"

lemma dec_int_to_integral:
  "dec_int (to_integral_half_even (Dec s c e)) = Inr (rounded_int s c e)"
  by (simp add: rounded_int_def Let_def)

lemma dec_val_to_integral:
  "dec_val (to_integral_half_even (Dec s c e)) = of_int (rounded_int s c e)"
  by (auto simp: rounded_int_def Let_def power_int_def)

lemma rounded_int_near: "\<bar>of_int (rounded_int s c e) - dec_val (Dec s c e)\<bar> \<le> 1 / 2"
proof (cases "0 \<le> e")
  case True
  then show ?thesis by (simp add: rounded_int_def power_int_def)
next
  case False
  have "\<bar>of_int (div_half_even c (10 ^ nat (- e))) - (of_int c / of_int (10 ^ nat (- e)) :: rat)\<bar> \<le> 1 / 2"
    by (rule div_half_even_near) simp
  with False show ?thesis
    by (simp only: rounded_int_def dec_val_neg_exp not_le Let_def split: if_split)
      (auto simp: abs_minus_commute)
qed

lemma rounded_int_exact:
  assumes "dec_val (Dec s c e) = of_int n"
  shows "rounded_int s c e = n"
proof -
  have "\<bar>of_int (rounded_int s c e - n) :: rat\<bar> \<le> 1 / 2"
    using rounded_int_near [of s c e] assms by simp
  then have "\<bar>rounded_int s c e - n\<bar> \<le> 0" by linarith
  then show ?thesis by simp
qed

lemma to_minor_units_finite:
  assumes "0 \<le> c" and "c < 10 ^ 28" and "- 1000026 \<le> e + k" and "e + k \<le> 999972"
    and "\<bar>k\<bar> \<le> 2000054"
  shows "to_minor_units (MDecimal (Dec s c e)) k ex =
    (if ex \<and> dec_val (Dec s c (e + k)) \<noteq> of_int (rounded_int s c (e + k))
     then Inl MoneyPrecisionError else Inr (rounded_int s c (e + k)))"
proof -
  have "\<not> (k < - 2000054 \<or> 2000054 < k)" using assms(5) by linarith
  then have "scaleb (Dec s c e) k = Inr (Dec s c (e + k))"
    using assms by (simp only: scaleb.simps dec_fix_exact if_False)
  moreover have "\<exists>s' c' e'. to_integral_half_even (Dec s c (e + k)) = Dec s' c' e'" by simp
  then have "dec_ne (Dec s c (e + k)) (to_integral_half_even (Dec s c (e + k))) \<longleftrightarrow>
      dec_val (Dec s c (e + k)) \<noteq> of_int (rounded_int s c (e + k))"
    by (metis dec_ne.simps(1) dec_val_to_integral)
  ultimately show ?thesis
    by (simp only: to_minor_units_def as_decimal.simps rbind_simps Let_def dec_int_to_integral)
qed

subsection \<open>Properties\<close>

text \<open>
  Exact conversion is decided by integrality: for an amount of at most 28 significant
  digits, \<open>to_minor_units\<close> returns the scaled integer exactly when the scaled amount is
  one, and otherwise raises \<open>MoneyPrecisionError\<close>; it never rounds.
\<close>

theorem to_minor_units_exact:
  assumes "0 \<le> c" and "c < 10 ^ 28" and "- 1000026 \<le> e + k" and "e + k \<le> 999972"
    and "\<bar>k\<bar> \<le> 2000054"
  shows "to_minor_units (MDecimal (Dec s c e)) k True =
    (if dec_val (Dec s c e) * 10 powi k \<in> \<int>
     then Inr \<lfloor>dec_val (Dec s c e) * 10 powi k\<rfloor> else Inl MoneyPrecisionError)"
proof -
  let ?v = "dec_val (Dec s c (e + k))"
  have "?v = of_int (rounded_int s c (e + k)) \<longleftrightarrow> ?v \<in> \<int>"
    by (metis Ints_of_int Ints_cases rounded_int_exact)
  moreover have "?v \<in> \<int> \<Longrightarrow> rounded_int s c (e + k) = \<lfloor>?v\<rfloor>"
    by (metis Ints_cases floor_of_int rounded_int_exact)
  ultimately show ?thesis
    unfolding to_minor_units_finite [OF assms] dec_val_shift [symmetric]
    by (simp del: dec_val.simps)
qed

theorem to_minor_units_exact_witness:
  "to_minor_units (MDecimal (Dec True 125 (- 7))) 8 True = Inr (- 1250)"
  using to_minor_units_exact [of 125 "- 7" 8 True] by (simp add: powi10_neg)

text \<open>
  The lossy mode used for legacy rows is off by at most half a unit.
\<close>

theorem to_minor_units_inexact_near:
  assumes "0 \<le> c" and "c < 10 ^ 28" and "- 1000026 \<le> e + k" and "e + k \<le> 999972"
    and "\<bar>k\<bar> \<le> 2000054"
  shows "\<exists>n. to_minor_units (MDecimal (Dec s c e)) k False = Inr n \<and>
    \<bar>of_int n - dec_val (Dec s c e) * 10 powi k\<bar> \<le> 1 / 2"
  using rounded_int_near [of s c "e + k"] to_minor_units_finite [OF assms, of s False]
  unfolding dec_val_shift [symmetric] by (simp del: dec_val.simps)

theorem to_minor_units_inexact_near_witness:
  "\<exists>n. to_minor_units (MDecimal (Dec True 5 (- 9))) 8 False = Inr n \<and>
    \<bar>of_int n - dec_val (Dec True 5 (- 9)) * 10 powi 8\<bar> \<le> 1 / 2"
  by (rule to_minor_units_inexact_near) simp_all

text \<open>
  Round trip: reading a stored integer of at most 28 digits and writing it back gives
  the same integer, in either mode.
\<close>

theorem minor_units_roundtrip:
  assumes "\<bar>n\<bar> < 10 ^ 28" and "\<bar>k\<bar> \<le> 999972"
  shows "rbind (from_minor_units (Some n) k) (\<lambda>d. to_minor_units (MDecimal d) k ex) = Inr n"
proof -
  have k: "\<not> (- k < - 2000054 \<or> 2000054 < - k)" using assms(2) by linarith
  have "from_minor_units (Some n) k = dec_fix (n < 0) \<bar>n\<bar> (- k)"
    using k by (simp only: from_minor_units_def option.case scaleb.simps if_False) simp
  also have "\<dots> = Inr (Dec (n < 0) \<bar>n\<bar> (- k))"
    by (rule dec_fix_exact) (use assms in auto)
  finally have read: "from_minor_units (Some n) k = Inr (Dec (n < 0) \<bar>n\<bar> (- k))" .
  have v: "dec_val (Dec (n < 0) \<bar>n\<bar> (- k + k)) = of_int n" by simp
  moreover have "rounded_int (n < 0) \<bar>n\<bar> (- k + k) = n" by (rule rounded_int_exact [OF v])
  moreover have "to_minor_units (MDecimal (Dec (n < 0) \<bar>n\<bar> (- k))) k ex =
    (if ex \<and> dec_val (Dec (n < 0) \<bar>n\<bar> (- k + k)) \<noteq> of_int (rounded_int (n < 0) \<bar>n\<bar> (- k + k))
     then Inl MoneyPrecisionError else Inr (rounded_int (n < 0) \<bar>n\<bar> (- k + k)))"
    by (rule to_minor_units_finite) (use assms in auto)
  ultimately show ?thesis by (simp only: read rbind_simps) simp
qed

theorem minor_units_roundtrip_witness:
  "rbind (from_minor_units (Some (- 123456789)) 8) (\<lambda>d. to_minor_units (MDecimal d) 8 True) =
    Inr (- 123456789)"
  by (rule minor_units_roundtrip) simp_all

text \<open>
  Beyond 28 digits the exact mode does round, silently: an amount with eight decimal
  places and 29 significant digits is accepted and stored one unit too large, because
  \<open>scaleb\<close> rounds to the context before the exactness test.
\<close>

theorem exact_mode_rounds_29_digits:
  "to_price_minor_units (MStr ''123456789012345678901.23456789'') True =
     Inr 12345678901234567890123456790 \<and>
   map_option (\<lambda>d. dec_val d * 10 ^ 8) (parse_decimal ''123456789012345678901.23456789'') =
     Some 12345678901234567890123456789"
  by code_simp

end
