(* ===== verification/OperatorApi.thy ===== *)
theory OperatorApi
  imports ApiAuth Workflow Alerting CycleSafety Governance "HOL-Library.Sublist" "HOL-Library.Multiset"
begin

text \<open>
  The operator surface: \<open>interfaces/api/events.py\<close> (the dashboard feed),
  \<open>interfaces/api/operator.py\<close> (the operator's endpoints), the middleware of
  \<open>interfaces/api/server.py\<close> and the order entry of \<open>interfaces/api/retail.py\<close>.

  An endpoint answers with a status above 400 on the left or with its result; an exception
  that is no \<open>HTTPException\<close> is status 500.  The state is an \<open>office\<close>: the desk of
  the trading cycle with the notifier, the feed, the operator session and the catalog.
\<close>

subsection \<open>The dashboard feed\<close>

text \<open>A subscriber is the number of its subscription.  A queue of size 0 or less is unbounded.\<close>

record 'e feed =
  fd_maxlen :: int
  fd_queues :: "(nat \<times> 'e list) list"
  fd_next :: nat

definition new_feed :: "int \<Rightarrow> 'e feed" where
  "new_feed maxlen = \<lparr>fd_maxlen = maxlen, fd_queues = [], fd_next = 0\<rparr>"

definition feed_subscribe :: "'e feed \<Rightarrow> nat \<times> 'e feed" where
  "feed_subscribe f = (fd_next f, f\<lparr>fd_queues := fd_queues f @ [(fd_next f, [])], fd_next := fd_next f + 1\<rparr>)"

definition feed_unsubscribe :: "nat \<Rightarrow> 'e feed \<Rightarrow> 'e feed" where
  "feed_unsubscribe s f = f\<lparr>fd_queues := filter (\<lambda>(k, q). k \<noteq> s) (fd_queues f)\<rparr>"

definition put_nowait :: "int \<Rightarrow> 'e \<Rightarrow> 'e list \<Rightarrow> 'e list option" where
  "put_nowait maxlen e q = (if 0 < maxlen \<and> maxlen \<le> int (length q) then None else Some (q @ [e]))"

text \<open>The oldest event of a full queue makes room.\<close>

definition put_latest :: "int \<Rightarrow> 'e \<Rightarrow> 'e list \<Rightarrow> nat \<times> 'e list" where
  "put_latest maxlen e q =
     (case put_nowait maxlen e q of
        Some q1 \<Rightarrow> (1, q1)
      | None \<Rightarrow> (case put_nowait maxlen e (drop 1 q) of Some q2 \<Rightarrow> (1, q2) | None \<Rightarrow> (0, drop 1 q)))"

definition feed_publish :: "'e \<Rightarrow> 'e feed \<Rightarrow> nat \<times> 'e feed" where
  "feed_publish e f =
     (sum_list (map (\<lambda>(k, q). fst (put_latest (fd_maxlen f) e q)) (fd_queues f)),
      f\<lparr>fd_queues := map (\<lambda>(k, q). (k, snd (put_latest (fd_maxlen f) e q))) (fd_queues f)\<rparr>)"

text \<open>\<open>event_stream\<close>: a desk_snapshot first, then an event or, when the wait times out, a keepalive.\<close>

datatype 'e sse_frame = SnapshotFrame | KeepAlive | EventFrame 'e

definition stream_wake :: "nat \<Rightarrow> 'e feed \<Rightarrow> 'e sse_frame list \<times> 'e feed" where
  "stream_wake s f =
     (case map_of (fd_queues f) s of
        None \<Rightarrow> ([], f)
      | Some [] \<Rightarrow> ([KeepAlive], f)
      | Some (e # q) \<Rightarrow>
          ([EventFrame e], f\<lparr>fd_queues := map (\<lambda>(k, r). (k, if k = s then q else r)) (fd_queues f)\<rparr>))"

datatype 'e feed_op = Emit 'e | Join | Leave nat | Wake nat

text \<open>The frames that were sent, each with its subscriber.\<close>

fun feed_do :: "'e feed_op \<Rightarrow> 'e feed \<times> (nat \<times> 'e sse_frame) list \<Rightarrow> 'e feed \<times> (nat \<times> 'e sse_frame) list" where
  "feed_do (Emit e) (f, out) = (snd (feed_publish e f), out)"
| "feed_do Join (f, out) = (case feed_subscribe f of (s, f1) \<Rightarrow> (f1, out @ [(s, SnapshotFrame)]))"
| "feed_do (Leave s) (f, out) = (feed_unsubscribe s f, out)"
| "feed_do (Wake s) (f, out) = (case stream_wake s f of (frames, f1) \<Rightarrow> (f1, out @ map (Pair s) frames))"

fun emitted :: "'e feed_op \<Rightarrow> 'e list" where
  "emitted (Emit e) = [e]"
| "emitted op = []"

fun frame_events :: "'e sse_frame \<Rightarrow> 'e list" where
  "frame_events (EventFrame e) = [e]"
| "frame_events fr = []"

definition sent_to :: "nat \<Rightarrow> (nat \<times> 'e sse_frame) list \<Rightarrow> 'e list" where
  "sent_to s out = concat (map (\<lambda>(k, fr). if k = s then frame_events fr else []) out)"

text \<open>What a subscriber got and still has to get, against what was emitted.\<close>

definition in_feed :: "int \<Rightarrow> 'e list \<Rightarrow> 'e list \<Rightarrow> 'e list \<Rightarrow> bool" where
  "in_feed maxlen em got q \<longleftrightarrow>
     subseq (got @ q) em \<and> (0 < maxlen \<longrightarrow> int (length q) \<le> maxlen) \<and>
     (maxlen \<le> 0 \<or> int (length em) \<le> maxlen \<longrightarrow> suffix (got @ q) em)"

lemma in_feed_put:
  assumes "in_feed maxlen em got q"
  shows "in_feed maxlen (em @ [e]) got (snd (put_latest maxlen e q))"
proof (cases "0 < maxlen \<and> maxlen \<le> int (length q)")
  case True
  then have full: "snd (put_latest maxlen e q) = drop 1 q @ [e]" "int (length q) = maxlen" "q \<noteq> []"
    using assms by (auto simp: put_latest_def put_nowait_def in_feed_def)
  have "subseq (got @ drop 1 q) (got @ q)" by (rule list_emb_append_mono) (auto intro: suffix_imp_subseq suffix_drop)
  then have "subseq (got @ drop 1 q) em" using assms unfolding in_feed_def by (meson subseq_order.order_trans)
  moreover have "maxlen \<le> int (length em)"
  proof -
    have "length (got @ q) \<le> length em" using assms list_emb_length unfolding in_feed_def by blast
    then show ?thesis using full(2) by simp
  qed
  ultimately show ?thesis using full True by (simp add: in_feed_def flip: append_assoc)
next
  case False
  then have room: "snd (put_latest maxlen e q) = q @ [e]" by (auto simp: put_latest_def put_nowait_def)
  have "subseq ((got @ q) @ [e]) (em @ [e])" by (rule list_emb_append_mono) (use assms in \<open>auto simp: in_feed_def\<close>)
  moreover have "suffix ((got @ q) @ [e]) (em @ [e])" if "suffix (got @ q) em" using that by simp
  ultimately show ?thesis using assms False room by (auto simp: in_feed_def)
qed

definition feed_ok :: "int \<Rightarrow> 'e list \<Rightarrow> 'e feed \<times> (nat \<times> 'e sse_frame) list \<Rightarrow> bool" where
  "feed_ok maxlen em st \<longleftrightarrow>
     fd_maxlen (fst st) = maxlen \<and> distinct (map fst (fd_queues (fst st))) \<and>
     (\<forall>(s, q) \<in> set (fd_queues (fst st)). s < fd_next (fst st) \<and> in_feed maxlen em (sent_to s (snd st)) q) \<and>
     (\<forall>(s, fr) \<in> set (snd st). s < fd_next (fst st))"

lemma sent_to_append [simp]: "sent_to s (out @ out') = sent_to s out @ sent_to s out'"
  by (simp add: sent_to_def)

lemma sent_to_fresh: "\<forall>(k, fr) \<in> set out. k < s \<Longrightarrow> sent_to s out = []"
  by (fastforce simp: sent_to_def)

lemma sent_to_single [simp]: "sent_to s [(k, fr)] = (if k = s then frame_events fr else [])"
  by (simp add: sent_to_def)

lemma keys_of_values [simp]: "map (fst \<circ> (\<lambda>(k, q). (k, h k q))) xs = map fst xs"
  by (rule map_cong) auto

lemma feed_wake_ok:
  assumes "feed_ok maxlen em (f, out)"
  shows "feed_ok maxlen em (feed_do (Wake s) (f, out))"
proof (cases "map_of (fd_queues f) s")
  case None
  then show ?thesis using assms by (simp add: stream_wake_def)
next
  case (Some q)
  then have known: "(s, q) \<in> set (fd_queues f)" by (rule map_of_SomeD)
  then have bound: "s < fd_next f" using assms by (auto simp: feed_ok_def)
  show ?thesis
  proof (cases q)
    case Nil
    then show ?thesis using assms Some bound by (auto simp: stream_wake_def feed_ok_def)
  next
    case (Cons e r)
    have mine: "in_feed maxlen em (sent_to s out) (e # r)" using assms known Cons by (auto simp: feed_ok_def)
    then have "in_feed maxlen em (sent_to s out @ [e]) r" by (auto simp: in_feed_def)
    then show ?thesis
      using assms Some Cons bound by (auto simp: stream_wake_def feed_ok_def)
  qed
qed

lemma feed_do_ok:
  assumes "feed_ok maxlen em st"
  shows "feed_ok maxlen (em @ emitted op) (feed_do op st)"
proof (cases st)
  case (Pair f out)
  show ?thesis
  proof (cases op)
    case (Emit e)
    have "in_feed maxlen (em @ [e]) (sent_to s out) (snd (put_latest maxlen e q))" "s < fd_next f" if "(s, q) \<in> set (fd_queues f)" for s q
      using assms that unfolding Pair feed_ok_def by (auto intro: in_feed_put)
    then show ?thesis using assms Emit Pair by (auto simp: feed_publish_def feed_ok_def)
  next
    case Join
    have "sent_to (fd_next f) out = []" using assms Pair by (intro sent_to_fresh) (simp add: feed_ok_def)
    then show ?thesis using assms Join Pair by (auto simp: feed_subscribe_def feed_ok_def in_feed_def)
  next
    case (Leave s)
    then show ?thesis using assms Pair by (auto simp: feed_unsubscribe_def feed_ok_def distinct_map_filter)
  next
    case (Wake s)
    then show ?thesis using feed_wake_ok assms Pair by simp
  qed
qed

text \<open>
  C27. The dashboard feed keeps order: whatever subscriptions, events and wakes are made, what a
  subscriber was sent and what waits for it are events in the order in which they were
  published, each at most once, its queue never outgrows the feed's size, and as long as no
  more events were published than the queue holds it has missed none since it joined.
\<close>

theorem feed_keeps_order:
  "case fold feed_do ops (new_feed maxlen, []) of (f, out) \<Rightarrow>
     pred_option (\<lambda>q. subseq (sent_to s out @ q) (concat (map emitted ops)) \<and>
         int (length q) \<le> (if 0 < maxlen then maxlen else int (length q)) \<and>
         (if maxlen \<le> 0 \<or> int (length (concat (map emitted ops))) \<le> maxlen
          then suffix (sent_to s out @ q) (concat (map emitted ops)) else True))
       (map_of (fd_queues f) s)"
proof -
  have "feed_ok maxlen (em @ concat (map emitted ops)) (fold feed_do ops st)" if "feed_ok maxlen em st" for em st
    using that
  proof (induction ops arbitrary: em st)
    case (Cons op ops)
    then show ?case using Cons.IH [OF feed_do_ok [OF Cons.prems]] by simp
  qed simp
  from this [of "[]" "(new_feed maxlen, [])"]
  have ok: "feed_ok maxlen (concat (map emitted ops)) (fold feed_do ops (new_feed maxlen, []))"
    by (simp add: feed_ok_def new_feed_def)
  obtain f out where run: "fold feed_do ops (new_feed maxlen, []) = (f, out)" by fastforce
  have "in_feed maxlen (concat (map emitted ops)) (sent_to s out) q" if "map_of (fd_queues f) s = Some q" for q
    using ok map_of_SomeD [OF that] unfolding run feed_ok_def by auto
  then show ?thesis unfolding run by (auto simp: in_feed_def pred_option_def)
qed

subsection \<open>The middleware\<close>

text \<open>
  Starlette runs the middleware that was added last first: the boundary, then the rate limit, then
  the metrics, then the routes.  \<open>now\<close> and \<open>later\<close> are the readings of the clock by the
  two calls of the limiter, whose window is 60 seconds.
\<close>

record front =
  fr_api :: api_state
  fr_limiter :: rate_limiter
  fr_requests :: int

record response =
  rp_status :: nat
  rp_headers :: "(string \<times> int) list"

type_synonym layer = "request \<Rightarrow> front \<Rightarrow> response res \<times> front"

definition route_layer :: "(request \<Rightarrow> api_state \<Rightarrow> nat res \<times> api_state) \<Rightarrow> layer" where
  "route_layer routes rq fr =
     (case routes rq (fr_api fr) of
        (r, st) \<Rightarrow> (rbind r (\<lambda>s. Inr \<lparr>rp_status = s, rp_headers = []\<rparr>), fr\<lparr>fr_api := st\<rparr>))"

definition metrics_layer :: "layer \<Rightarrow> layer" where
  "metrics_layer inner rq fr =
     (if rq_path rq \<in> {''/metrics'', ''/v1/metrics''} then inner rq fr
      else case inner rq fr of
        (Inl e, fr1) \<Rightarrow> (Inl e, fr1)
      | (Inr rp, fr1) \<Rightarrow> (Inr rp, fr1\<lparr>fr_requests := fr_requests fr1 + 1\<rparr>))"

definition rate_limit_layer :: "string \<Rightarrow> float64 \<Rightarrow> float64 \<Rightarrow> layer \<Rightarrow> layer" where
  "rate_limit_layer ip now later inner rq fr =
     (if rq_path rq = ''/metrics'' then inner rq fr
      else case rl_check now ip (fr_limiter fr) of (ok, l) \<Rightarrow>
        let fr1 = fr\<lparr>fr_limiter := l\<rparr> in
        if \<not> ok
        then (Inr \<lparr>rp_status = 429, rp_headers = [(''Retry-After'', 60),
                (''X-RateLimit-Limit'', rl_max_requests l), (''X-RateLimit-Remaining'', 0)]\<rparr>, fr1)
        else case inner rq fr1 of
          (Inl e, fr2) \<Rightarrow> (Inl e, fr2)
        | (Inr rp, fr2) \<Rightarrow>
            (case rl_remaining later ip (fr_limiter fr2) of
               (left, l2) \<Rightarrow>
                 (Inr (rp\<lparr>rp_headers := rp_headers rp @ [(''X-RateLimit-Limit'', rl_max_requests l2), (''X-RateLimit-Remaining'', left)]\<rparr>),
                  fr2\<lparr>fr_limiter := l2\<rparr>)))"

text \<open>Only an \<open>HTTPException\<close>, which is a 401 here, is answered by the boundary itself.\<close>

definition auth_layer :: "layer \<Rightarrow> layer" where
  "auth_layer inner rq fr =
     (case enforce_auth_boundary rq (fr_api fr) of
        (Inl s, st1) \<Rightarrow> ((if s = 401 then Inr \<lparr>rp_status = 401, rp_headers = []\<rparr> else Inl TypeError), fr\<lparr>fr_api := st1\<rparr>)
      | (Inr _, st1) \<Rightarrow> inner rq (fr\<lparr>fr_api := st1\<rparr>))"

definition serve ::
  "(request \<Rightarrow> api_state \<Rightarrow> nat res \<times> api_state) \<Rightarrow> string \<Rightarrow> float64 \<Rightarrow> float64 \<Rightarrow> request \<Rightarrow> front \<Rightarrow> response \<times> front" where
  "serve routes ip now later rq fr =
     (case auth_layer (rate_limit_layer ip now later (metrics_layer (route_layer routes))) rq fr of
        (Inl e, fr1) \<Rightarrow> (\<lparr>rp_status = 500, rp_headers = []\<rparr>, fr1)
      | (Inr rp, fr1) \<Rightarrow> (rp, fr1))"

fun serve_all ::
  "(request \<Rightarrow> api_state \<Rightarrow> nat res \<times> api_state) \<Rightarrow> (string \<times> float64 \<times> float64 \<times> request) list \<Rightarrow> front \<Rightarrow> response list \<times> front" where
  "serve_all routes [] fr = ([], fr)"
| "serve_all routes ((ip, now, later, rq) # vs) fr =
     (case serve routes ip now later rq fr of
        (rp, fr1) \<Rightarrow> (case serve_all routes vs fr1 of (rps, fr2) \<Rightarrow> (rp # rps, fr2)))"

text \<open>A guarded request with a key that is none of the configured ones.\<close>

definition wrong_key :: "front \<Rightarrow> request \<Rightarrow> bool" where
  "wrong_key fr rq \<longleftrightarrow>
     auth_required (fr_api fr) \<and> starts_with ''/v1'' (rq_path rq) \<and> \<not> public_path (rq_path rq) \<and> rq_path rq \<noteq> ''/v1/events'' \<and>
     rq_session rq = None \<and> role_for_key (rq_key rq) (as_authenticator (fr_api fr)) = Inr None"

lemma wrong_key_refused:
  "wrong_key fr rq \<Longrightarrow> serve routes ip now later rq fr = (\<lparr>rp_status = 401, rp_headers = []\<rparr>, fr)"
  by (simp add: wrong_key_def serve_def auth_layer_def enforce_auth_boundary_def session_role_def http_of_def)

text \<open>
  Guessing keys is never limited: the boundary runs in front of the rate limiter, so any number
  of guesses from one address, at any rate, is answered with 401 and never with 429, and the
  guesses leave the limiter and the request counter as they were.
\<close>

theorem guesses_are_never_limited:
  assumes "list_all (\<lambda>(ip, now, later, rq). wrong_key fr rq) vs"
  shows "serve_all routes vs fr = (replicate (length vs) \<lparr>rp_status = 401, rp_headers = []\<rparr>, fr)"
  using assms by (induction vs) (auto simp: wrong_key_refused)

definition guess_front :: front where
  "guess_front = \<lparr>fr_api = sample_api\<lparr>as_authenticator := \<lparr>au_admin = [''0123456789''], au_operator = [], au_viewer = []\<rparr>\<rparr>,
     fr_limiter = new_rate_limiter 1 (Fin 60), fr_requests = 0\<rparr>"

theorem guesses_are_never_limited_witness:
  "serve_all (\<lambda>rq st. (Inr 200, st))
     (replicate 3 (''ip'', Fin 0, Fin 0, \<lparr>rq_path = ''/v1/trades'', rq_session = None, rq_key = Some ''guess'', rq_token = None,
        rq_now = 0, rq_unix = 0\<rparr>)) guess_front =
   (replicate 3 \<lparr>rp_status = 401, rp_headers = []\<rparr>, guess_front)"
proof -
  have "wrong_key guess_front \<lparr>rq_path = ''/v1/trades'', rq_session = None, rq_key = Some ''guess'', rq_token = None,
      rq_now = 0, rq_unix = 0\<rparr>"
    by (simp add: wrong_key_def guess_front_def auth_required_def auth_enabled_def starts_with_def public_path_def public_prefixes_def
        role_for_key_def compare_digest_def is_ascii_def char_code_def)
  then show ?thesis
    using guesses_are_never_limited [where vs = "replicate 3 (''ip'', Fin 0, Fin 0, \<lparr>rq_path = ''/v1/trades'', rq_session = None,
        rq_key = Some ''guess'', rq_token = None, rq_now = 0, rq_unix = 0\<rparr>)" and fr = guess_front and routes = "\<lambda>rq st. (Inr 200, st)"]
    by (simp add: list_all_iff)
qed

subsection \<open>The office\<close>

datatype dash_event =
    KillSwitchEvent bool
  | WorkflowEvent operator_step bool string
  | OrchestratorEvent bool

record 'w office =
  of_desk :: desk
  of_notifier :: "'w notifier"
  of_feed :: "dash_event feed"
  of_session :: "operator_session option"
  of_catalog :: "catalog option"
  of_sources :: "nat option"
  of_running :: bool

definition announce :: "dash_event \<Rightarrow> 'w office \<Rightarrow> 'w office" where
  "announce e ofc = ofc\<lparr>of_feed := snd (feed_publish e (of_feed ofc))\<rparr>"

subsection \<open>The kill switch\<close>

definition operator_audit :: "string \<Rightarrow> desk \<Rightarrow> desk" where
  "operator_audit action d = d\<lparr>dk_audit := dk_audit d @ [\<lparr>ae_action = action, ae_actor = ''operator'', ae_resource = ''trading'',
     ae_detail = [L ''manual operator action'']\<rparr>]\<rparr>"

definition switch_alert :: "bool \<Rightarrow> alert" where
  "switch_alert engaged =
     (if engaged
      then \<lparr>al_level = CRITICAL, al_title = ''Kill switch engaged'', al_message = [L ''Manual operator action - all trading halted.''],
             al_metadata = [(''source'', MText ''operator_api'')]\<rparr>
      else \<lparr>al_level = WARNING, al_title = ''Kill switch disengaged'', al_message = [L ''Circuit cleared - trading may resume.''],
             al_metadata = [(''source'', MText ''operator_api'')]\<rparr>)"

text \<open>\<open>notify\<close> is the \<open>send\<close> method of the notification service.\<close>

definition set_switch ::
  "(alert \<Rightarrow> 'w notifier \<Rightarrow> unit res \<times> 'w notifier) \<Rightarrow> bool \<Rightarrow> desk \<Rightarrow> 'w office \<Rightarrow> bool http \<times> 'w office" where
  "set_switch notify engaged d ofc =
     (case notify (switch_alert engaged) (of_notifier ofc) of
        (Inl e, n) \<Rightarrow> (Inl 500, ofc\<lparr>of_desk := d, of_notifier := n\<rparr>)
      | (Inr _, n) \<Rightarrow> (Inr engaged, announce (KillSwitchEvent engaged) (ofc\<lparr>of_desk := d, of_notifier := n\<rparr>)))"

definition engage_kill_switch ::
  "(alert \<Rightarrow> 'w notifier \<Rightarrow> unit res \<times> 'w notifier) \<Rightarrow> 'w office \<Rightarrow> bool http \<times> 'w office" where
  "engage_kill_switch notify ofc =
     set_switch notify True
       (dk_count ''kill_switch.engaged'' (operator_audit ''risk.kill_switch_engaged'' (ks_update ks_engage (of_desk ofc)))) ofc"

definition disengage_kill_switch ::
  "(alert \<Rightarrow> 'w notifier \<Rightarrow> unit res \<times> 'w notifier) \<Rightarrow> 'w office \<Rightarrow> bool http \<times> 'w office" where
  "disengage_kill_switch notify ofc =
     set_switch notify False
       (dk_count ''kill_switch.disengaged'' (operator_audit ''risk.kill_switch_disengaged'' (ks_update ks_disengage (of_desk ofc)))) ofc"

record switch_view =
  sv_engaged :: bool
  sv_reason :: fstring
  sv_circuit_open :: bool
  sv_failures :: int
  sv_daily_pnl :: float64

definition get_kill_switch :: "'w office \<Rightarrow> switch_view" where
  "get_kill_switch ofc =
     (let ks = rs_kill_switch (dk_risk (of_desk ofc)); verdict = ks_can_trade ks in
      \<lparr>sv_engaged = (\<not> allowed verdict), sv_reason = v_reason verdict, sv_circuit_open = ks_circuit_open ks,
       sv_failures = ks_failures ks, sv_daily_pnl = ks_daily_pnl ks\<rparr>)"

text \<open>
  A manual trip holds even when it is answered with an error: whatever the notification does,
  the switch is open, audited and counted; only when the page went out does the caller get an
  answer and the dashboard its event.
\<close>

theorem manual_trip_is_recorded:
  "case engage_kill_switch notify ofc of (r, ofc') \<Rightarrow>
     sv_engaged (get_kill_switch ofc') \<and> sv_circuit_open (get_kill_switch ofc') \<and>
     dk_audit (of_desk ofc') = dk_audit (operator_audit ''risk.kill_switch_engaged'' (of_desk ofc)) \<and>
     dk_metrics (of_desk ofc') = dk_metrics (of_desk ofc) @ [(''kill_switch.engaged'', 1)] \<and>
     (if fst (notify (switch_alert True) (of_notifier ofc)) = Inr ()
      then r = Inr True \<and> of_feed ofc' = snd (feed_publish (KillSwitchEvent True) (of_feed ofc))
      else r = Inl 500 \<and> of_feed ofc' = of_feed ofc)"
  by (auto simp: engage_kill_switch_def set_switch_def announce_def get_kill_switch_def ks_can_trade_def ks_engage_def
      ks_update_def operator_audit_def dk_count_def Let_def split: prod.split sum.split)

text \<open>
  Disengaging answers that the switch is off although trading stays refused: after a loss at
  the daily limit the answer and the dashboard's event say it is not engaged, and the view of
  the switch and every order say that it is.
\<close>

theorem disengaged_and_still_refusing:
  assumes "ks_daily_loss_limit (rs_kill_switch (dk_risk (of_desk ofc))) = Some cap"
    and "cap \<le> \<bar>ks_daily_pnl (rs_kill_switch (dk_risk (of_desk ofc)))\<bar>"
    and "fst (notify (switch_alert False) (of_notifier ofc)) = Inr ()"
  shows "case disengage_kill_switch notify ofc of (r, ofc') \<Rightarrow>
     r = Inr False \<and> of_feed ofc' = snd (feed_publish (KillSwitchEvent False) (of_feed ofc)) \<and>
     sv_engaged (get_kill_switch ofc') \<and> \<not> sv_circuit_open (get_kill_switch ofc') \<and>
     \<not> order_rails (dk_risk (of_desk ofc')) rq"
  using assms by (auto simp: disengage_kill_switch_def set_switch_def announce_def get_kill_switch_def ks_can_trade_def ks_disengage_def
      ks_update_def operator_audit_def dk_count_def order_rails_def Let_def split: prod.split sum.split)

subsection \<open>Retail order entry\<close>

definition require_user :: "request \<Rightarrow> api_state \<Rightarrow> user http \<times> api_state" where
  "require_user rq st =
     (case rq_session rq of
        None \<Rightarrow> (Inl 401, st)
      | Some token \<Rightarrow>
          if token = [] then (Inl 401, st)
          else case as_accounts st of
            None \<Rightarrow> (Inl 501, st)
          | Some ac \<Rightarrow>
              (case validate_session (rq_now rq) token ac of
                 (u, ac1) \<Rightarrow> ((case u of None \<Rightarrow> Inl 401 | Some x \<Rightarrow> Inr x), st\<lparr>as_accounts := Some ac1\<rparr>)))"

record retail_order_rq =
  ro_market :: string
  ro_side :: string
  ro_quantity :: float64
  ro_price :: float64

text \<open>\<open>parse\<close> is \<open>uuid.UUID\<close> of a text, nothing when it raises.\<close>

definition retail_orders ::
  "'s broker \<Rightarrow> step_input \<Rightarrow> (string \<Rightarrow> uuid option) \<Rightarrow> request \<Rightarrow> retail_order_rq \<Rightarrow> api_state \<times> 's floor \<Rightarrow>
   retail_result http \<times> api_state \<times> 's floor" where
  "retail_orders b si parse rq ro st =
     (case require_user rq (fst st) of
        (Inl s, st1) \<Rightarrow> (Inl s, (st1, snd st))
      | (Inr u, st1) \<Rightarrow>
          if dk_mode (fst (snd st)) \<noteq> PAPER then (Inl 403, (st1, snd st))
          else case parse (ro_market ro) of
            None \<Rightarrow> (Inl 422, (st1, snd st))
          | Some m \<Rightarrow>
              (case submit_retail_order b si m (ro_side ro) (ro_quantity ro) (ro_price ro) (Some (us_id u)) None (snd st) of
                 (Inl e, fl) \<Rightarrow> (Inl 500, (st1, fl))
               | (Inr r, fl) \<Rightarrow> ((if rr_allowed r then Inr r else Inl 400), (st1, fl))))"

lemma paper_cash: "dk_mode d = PAPER \<Longrightarrow> cash_balance b env (d, x) = (Inr (dk_default_cash d), (d, x))"
  by (simp add: cash_balance_def)

lemma retail_surface_gate:
  "case retail_orders (logged b) si parse rq ro (st, (d, (y, orders))) of (r, (st', (d', (y', orders')))) \<Rightarrow>
     (case (fst (require_user rq st), parse (ro_market ro)) of
        (Inr u, Some m) \<Rightarrow>
          if dk_mode d = PAPER \<and>
             order_rails (dk_risk d) (retail_request si m (ro_side ro) (ro_quantity ro) (ro_price ro) (Some (us_id u))
               (get_summary (dk_default_cash d) (dk_portfolio d)))
          then orders' = orders @ [retail_order si m (ro_side ro) (ro_quantity ro) (ro_price ro) None]
          else orders' = orders \<and> dk_portfolio d' = dk_portfolio d \<and> r \<in> {Inl 400, Inl 403}
      | _ \<Rightarrow> orders' = orders \<and> d' = d \<and> r \<in> {Inl 401, Inl 403, Inl 422, Inl 501})"
proof -
  obtain q st1 where user: "require_user rq st = (q, st1)" by fastforce
  have refused: "q = Inl s \<Longrightarrow> s \<in> {401, 501}" for s
    using user by (auto simp: require_user_def split: option.splits if_splits prod.splits)
  show ?thesis
  proof (cases q)
    case (Inl s)
    then show ?thesis using refused user by (auto simp: retail_orders_def)
  next
    case u: (Inr u)
    show ?thesis
    proof (cases "parse (ro_market ro)")
      case None
      then show ?thesis using u user by (simp add: retail_orders_def)
    next
      case m: (Some m)
      show ?thesis
      proof (cases "dk_mode d = PAPER")
        case paper: True
        obtain res d' y' orders' where run: "submit_retail_order (logged b) si m (ro_side ro) (ro_quantity ro) (ro_price ro)
            (Some (us_id u)) None (d, (y, orders)) = (res, (d', (y', orders')))" by (metis prod_cases4)
        note gate = retail_submission [OF run paper_cash [OF paper]]
        show ?thesis using gate paper u m user run by (auto simp: retail_orders_def split: sum.split if_splits)
      qed (use u m user in \<open>simp add: retail_orders_def\<close>)
    qed
  qed
qed

text \<open>
  The retail surface is gated: an order reaches the venue exactly when its session is valid, the
  desk trades on paper, the market is readable and every risk rail of that user holds for it,
  and then once as asked for; otherwise the venue and the portfolio stay as they were and the
  answer is an error.
\<close>

theorem retail_surface_is_gated:
  "case retail_orders (logged b) si parse rq ro (st, (d, (y, orders))) of (r, (st', (d', (y', orders')))) \<Rightarrow>
     (case (fst (require_user rq st), parse (ro_market ro)) of
        (Inr u, Some m) \<Rightarrow>
          if dk_mode d = PAPER \<and>
             order_rails (dk_risk d) (retail_request si m (ro_side ro) (ro_quantity ro) (ro_price ro) (Some (us_id u))
               (get_summary (dk_default_cash d) (dk_portfolio d)))
          then orders' = orders @ [retail_order si m (ro_side ro) (ro_quantity ro) (ro_price ro) None]
          else orders' = orders \<and> dk_portfolio d' = dk_portfolio d \<and> r \<in> {Inl 400, Inl 403}
      | _ \<Rightarrow> orders' = orders \<and> d' = d \<and> r \<in> {Inl 401, Inl 403, Inl 422, Inl 501})"
  by (rule retail_surface_gate)

text \<open>
  C26. A tripped switch stops retail trading at once: after an operator engaged it, with or without
  a page going out, no retail order of anybody reaches the venue.
\<close>

theorem tripped_switch_stops_retail:
  "case retail_orders (logged b) si parse rq ro (st, (of_desk (snd (engage_kill_switch notify ofc)), (y, orders))) of
     (r, (st', (d', (y', orders')))) \<Rightarrow> orders' = orders \<and> (case r of Inl s \<Rightarrow> s \<in> {400, 401, 403, 422, 501} | Inr a \<Rightarrow> False)"
proof -
  let ?d = "of_desk (snd (engage_kill_switch notify ofc))"
  have open_circuit: "ks_circuit_open (rs_kill_switch (dk_risk ?d))"
    by (auto simp: engage_kill_switch_def set_switch_def announce_def ks_engage_def ks_update_def operator_audit_def dk_count_def
        split: prod.split sum.split)
  then have "\<not> order_rails (dk_risk ?d) any" for any by (simp add: order_rails_def ks_can_trade_def)
  then show ?thesis
    using retail_surface_gate [where b = b and si = si and parse = parse and rq = rq and ro = ro and st = st and d = ?d and y = y and orders = orders] by (auto split: prod.splits sum.splits option.splits if_splits)
qed

subsection \<open>The workflow\<close>

fun step_value :: "operator_step \<Rightarrow> string" where
  "step_value START = ''start''"
| "step_value PREFLIGHT = ''preflight''"
| "step_value BROKER_CHECK = ''broker_check''"
| "step_value MARKET_DATA_CHECK = ''market_data_check''"
| "step_value PAPER_TRADING = ''paper_trading''"
| "step_value PERFORMANCE_REVIEW = ''performance_review''"
| "step_value STRATEGY_PROMOTION = ''strategy_promotion''"
| "step_value CONTROLLED_LIVE = ''controlled_live''"
| "step_value SHUTDOWN = ''shutdown''"
| "step_value SESSION_REPORT = ''session_report''"

definition step_of_text :: "string \<Rightarrow> operator_step option" where
  "step_of_text s = List.find (\<lambda>x. step_value x = s) OPERATOR_STEPS"

record advance_rq =
  aq_step :: string
  aq_actor :: string
  aq_strategy :: "string option"
  aq_session_id :: "string option"
  aq_dry_run :: bool

text \<open>The keywords the handler passes on, over what the step reads from outside.\<close>

definition advance_context :: "advance_rq \<Rightarrow> step_context \<Rightarrow> step_context" where
  "advance_context rq sx =
     sx\<lparr>sx_session_id := text_or_else (aq_session_id rq) None, sx_live_mode := None,
        sx_strategy := text_or_else (aq_strategy rq) None, sx_name := None, sx_dry_run := aq_dry_run rq\<rparr>"

record advance_answer =
  aa_step :: operator_step
  aa_ok :: bool
  aa_result :: string
  aa_current :: "operator_step option"

text \<open>The session and the orchestrator share one catalog.\<close>

definition advance_workflow :: "advance_rq \<Rightarrow> step_context \<Rightarrow> 'w office \<Rightarrow> advance_answer http \<times> 'w office" where
  "advance_workflow rq sx ofc =
     (case of_session ofc of
        None \<Rightarrow> (Inl 501, ofc)
      | Some os \<Rightarrow>
          (case step_of_text (aq_step rq) of
             None \<Rightarrow> (Inl 400, ofc)
           | Some step \<Rightarrow>
               (case perform step (aq_actor rq) (advance_context rq sx) (os\<lparr>os_catalog := of_catalog ofc\<rparr>) of
                  (r, os1) \<Rightarrow>
                    let ofc1 = ofc\<lparr>of_session := Some os1, of_catalog := os_catalog os1\<rparr> in
                    case r of
                      Inl e \<Rightarrow> (Inl (if e = WorkflowError then 409 else 500), ofc1)
                    | Inr oc \<Rightarrow>
                        (Inr \<lparr>aa_step = oc_step oc, aa_ok = oc_ok oc, aa_result = oc_result oc, aa_current = ow_current (os_workflow os1)\<rparr>,
                         announce (WorkflowEvent (oc_step oc) (oc_ok oc) (oc_result oc)) ofc1))))"

definition transitions_of :: "'w office \<Rightarrow> workflow_transition list" where
  "transitions_of ofc = (case of_session ofc of None \<Rightarrow> [] | Some os \<Rightarrow> ow_transitions (os_workflow os))"

lemma gate_keeps_transitions:
  "execute_gate s sx os = (r, os1) \<Longrightarrow> ow_transitions (os_workflow os1) = ow_transitions (os_workflow os)"
  by (cases s) (auto simp: execute_gate_def gate_start_def gate_strategy_promotion_def gate_shutdown_def bind_session_def Let_def
      split: option.splits prod.splits sum.splits if_splits)

lemma gate_answers_step: "execute_gate s sx os = (Inr oc, os1) \<Longrightarrow> oc_step oc = s"
  by (cases s) (auto simp: execute_gate_def gate_start_def gate_preflight_def gate_broker_check_def gate_market_data_check_def
      gate_paper_trading_def gate_performance_review_def gate_strategy_promotion_def gate_controlled_live_def gate_shutdown_def Let_def
      elim!: rbind_eq_InrE split: option.splits prod.splits sum.splits if_splits)

lemma perform_records:
  assumes "perform s actor sx os = (r, os1)"
  shows "case r of
     Inl e \<Rightarrow> ow_transitions (os_workflow os1) = ow_transitions (os_workflow os)
   | Inr oc \<Rightarrow> oc_step oc = s \<and>
       (if oc_ok oc
        then \<exists>from_step. ow_transitions (os_workflow os1) = ow_transitions (os_workflow os) @
          [\<lparr>tr_from = from_step, tr_to = s, tr_actor = actor, tr_result = oc_result oc, tr_timestamp = sx_now sx\<rparr>]
        else ow_transitions (os_workflow os1) = ow_transitions (os_workflow os))"
proof -
  obtain q os2 where gate: "execute_gate s sx os = (q, os2)" by fastforce
  note kept = gate_keeps_transitions [OF gate]
  show ?thesis
  proof (cases q)
    case (Inl e)
    then show ?thesis using assms gate kept by (auto simp: perform_def)
  next
    case (Inr oc)
    then show ?thesis using assms gate kept gate_answers_step [of s sx os oc os2]
      by (auto simp: perform_def advance_def Let_def split: if_splits)
  qed
qed

text \<open>
  Advancing the workflow over the API: an answer is announced once and names the requested step;
  the step is recorded exactly when its gate passed, under the actor the request names, whoever
  sent it; an error answer records nothing and announces nothing.
\<close>

theorem advance_recorded_under_named_actor:
  "case advance_workflow rq sx ofc of (r, ofc') \<Rightarrow>
     (case r of
        Inl s \<Rightarrow> s \<in> {400, 409, 500, 501} \<and> transitions_of ofc' = transitions_of ofc \<and> of_feed ofc' = of_feed ofc
      | Inr a \<Rightarrow> step_of_text (aq_step rq) = Some (aa_step a) \<and>
          of_feed ofc' = snd (feed_publish (WorkflowEvent (aa_step a) (aa_ok a) (aa_result a)) (of_feed ofc)) \<and>
          (if aa_ok a
           then length (transitions_of ofc') = Suc (length (transitions_of ofc)) \<and> butlast (transitions_of ofc') = transitions_of ofc \<and>
                tr_to (last (transitions_of ofc')) = aa_step a \<and> tr_actor (last (transitions_of ofc')) = aq_actor rq
           else transitions_of ofc' = transitions_of ofc))"
proof (cases "of_session ofc")
  case None
  then show ?thesis by (simp add: advance_workflow_def)
next
  case session: (Some os)
  show ?thesis
  proof (cases "step_of_text (aq_step rq)")
    case None
    then show ?thesis using session by (simp add: advance_workflow_def)
  next
    case (Some step)
    obtain r os1 where run: "perform step (aq_actor rq) (advance_context rq sx) (os\<lparr>os_catalog := of_catalog ofc\<rparr>) = (r, os1)"
      by fastforce
    then show ?thesis using perform_records [OF run] session Some
      by (cases r) (auto simp: advance_workflow_def transitions_of_def announce_def Let_def split: if_splits)
  qed
qed

subsection \<open>The strategy catalog\<close>

datatype catalog_rq =
    CreateStrategy string string "params option"
  | EnableStrategy string | DisableStrategy string | PromoteStrategy string | ArchiveStrategy string
  | CloneStrategy string string

fun catalog_call :: "catalog_config \<Rightarrow> uuid \<Rightarrow> datetime \<Rightarrow> catalog_rq \<Rightarrow> catalog \<Rightarrow> strategy res \<times> catalog" where
  "catalog_call cfg fresh now (CreateStrategy name template ps) c = create cfg fresh now name template ps c"
| "catalog_call cfg fresh now (EnableStrategy name) c = enable name c"
| "catalog_call cfg fresh now (DisableStrategy name) c = disable name c"
| "catalog_call cfg fresh now (PromoteStrategy name) c = promote name c"
| "catalog_call cfg fresh now (ArchiveStrategy name) c = archive name c"
| "catalog_call cfg fresh now (CloneStrategy name new_name) c = clone fresh now name new_name None c"

fun is_lifecycle_error :: "exc \<Rightarrow> bool" where
  "is_lifecycle_error (StrategyLifecycleError msg) = True"
| "is_lifecycle_error e = False"

definition catalog_endpoint ::
  "catalog_config \<Rightarrow> uuid \<Rightarrow> datetime \<Rightarrow> catalog_rq \<Rightarrow> 'w office \<Rightarrow> strategy http \<times> 'w office" where
  "catalog_endpoint cfg fresh now rq ofc =
     (case of_catalog ofc of
        None \<Rightarrow> (Inl 501, ofc)
      | Some c \<Rightarrow>
          (case catalog_call cfg fresh now rq c of
             (Inl e, c1) \<Rightarrow> (Inl (if is_lifecycle_error e then 400 else 500), ofc\<lparr>of_catalog := Some c1\<rparr>)
           | (Inr s, c1) \<Rightarrow> (Inr s, ofc\<lparr>of_catalog := Some c1\<rparr>)))"

text \<open>The slice of a listing, with its limit and offset.\<close>

definition page_of :: "nat option \<Rightarrow> nat \<Rightarrow> 'a list \<Rightarrow> 'a list" where
  "page_of limit offset xs = (case limit of None \<Rightarrow> drop offset xs | Some n \<Rightarrow> take n (drop offset xs))"

definition list_strategies :: "nat option \<Rightarrow> nat \<Rightarrow> 'w office \<Rightarrow> strategy list http" where
  "list_strategies limit offset ofc =
     (case of_catalog ofc of None \<Rightarrow> Inl 501 | Some c \<Rightarrow> Inr (page_of limit offset (catalog_list c)))"

definition get_strategy :: "string \<Rightarrow> 'w office \<Rightarrow> strategy http" where
  "get_strategy name ofc =
     (case of_catalog ofc of
        None \<Rightarrow> Inl 501
      | Some c \<Rightarrow> (case get_by_name name c of None \<Rightarrow> Inl 404 | Some s \<Rightarrow> Inr s))"

lemma find_listed: "get_by_name name c = Some s \<Longrightarrow> s \<in> set (repo_list c)"
  by (auto simp: get_by_name_def find_Some_iff)

lemma found_is_stored: "store_inv sg_id c \<Longrightarrow> get_by_name name c = Some s \<Longrightarrow> repo_get (sg_id s) c = Some s"
  using mem.entities_iff [of sg_id c s] find_listed [of name c s] by simp

text \<open>
  A catalog request that is refused changes nothing and is answered with 400, or 501 without a
  catalog; one that is accepted has the strategy it answers in the catalog.
\<close>

theorem catalog_answers_are_stored:
  assumes "pred_option (store_inv sg_id) (of_catalog ofc)"
  shows "case catalog_endpoint cfg fresh now rq ofc of (r, ofc') \<Rightarrow>
     (case r of
        Inl s \<Rightarrow> ofc' = ofc \<and> s \<in> {400, 501}
      | Inr s \<Rightarrow> pred_option (\<lambda>c. repo_get (sg_id s) c = Some s) (of_catalog ofc'))"
proof (cases "of_catalog ofc")
  case None
  then show ?thesis by (simp add: catalog_endpoint_def)
next
  case (Some c)
  have inv: "store_inv sg_id c" using assms Some by simp
  have accepted: "fst (catalog_call cfg fresh now rq c) = Inr s \<Longrightarrow> repo_get (sg_id s) (snd (catalog_call cfg fresh now rq c)) = Some s" for s
    by (cases rq) (auto simp: create_def clone_def enable_def disable_def promote_def archive_def required_def
        mem.fetch_put Let_def found_is_stored [OF inv] split: option.splits if_splits)
  have refused: "fst (catalog_call cfg fresh now rq c) = Inl e \<Longrightarrow>
      is_lifecycle_error e \<and> snd (catalog_call cfg fresh now rq c) = c" for e
    by (cases rq) (auto simp: create_def clone_def enable_def disable_def promote_def archive_def required_def
        Let_def split: option.splits if_splits)
  show ?thesis
    using Some accepted refused by (cases "catalog_call cfg fresh now rq c") (auto simp: catalog_endpoint_def split: sum.split)
qed

theorem catalog_answers_are_stored_witness:
  "case catalog_endpoint sample_config ''n'' 0 (PromoteStrategy ''old'')
     \<lparr>of_desk = sample_desk, of_notifier = (undefined :: unit notifier), of_feed = new_feed 50, of_session = None,
      of_catalog = Some archived_catalog, of_sources = None, of_running = False\<rparr> of (r, ofc') \<Rightarrow> of_catalog ofc' = Some archived_catalog"
proof -
  let ?ofc = "\<lparr>of_desk = sample_desk, of_notifier = (undefined :: unit notifier), of_feed = new_feed 50, of_session = None,
      of_catalog = Some archived_catalog, of_sources = None, of_running = False\<rparr>"
  have "fst (catalog_endpoint sample_config ''n'' 0 (PromoteStrategy ''old'') ?ofc) = Inl 400"
    by (simp add: catalog_endpoint_def promote_def required_def get_by_name_def repo_list_def archived_catalog_def)
  then show ?thesis
    using catalog_answers_are_stored [where ofc = ?ofc and cfg = sample_config and fresh = "''n''" and now = 0 and rq = "PromoteStrategy ''old''"]
    by (cases "catalog_endpoint sample_config ''n'' 0 (PromoteStrategy ''old'') ?ofc")
      (simp add: archived_catalog_def store_inv_def)
qed

subsection \<open>The views\<close>

definition operator_cash :: "'s broker \<Rightarrow> env \<Rightarrow> 'w office \<Rightarrow> 's \<Rightarrow> float64 \<times> 's" where
  "operator_cash b en ofc x =
     (if dk_mode (of_desk ofc) = LIVE
      then case b_balance b en x of (Inr v, x1) \<Rightarrow> (v, x1) | (Inl e, x1) \<Rightarrow> (dk_default_cash (of_desk ofc), x1)
      else (dk_default_cash (of_desk ofc), x))"

definition get_positions :: "nat option \<Rightarrow> nat \<Rightarrow> 'w office \<Rightarrow> position list" where
  "get_positions limit offset ofc = page_of limit offset (repo_list (ps_positions (dk_portfolio (of_desk ofc))))"

text \<open>\<open>sorted(..., reverse=True)\<close> keeps the order of equal elements.\<close>

definition newest_first :: "('a \<Rightarrow> int) \<Rightarrow> 'a list \<Rightarrow> 'a list" where
  "newest_first key xs = rev (sort_key key (rev xs))"

definition get_trades :: "nat \<Rightarrow> nat \<Rightarrow> 'w office \<Rightarrow> trade list" where
  "get_trades limit offset ofc =
     page_of (Some limit) offset (newest_first t_created_at (repo_list (ps_trades (dk_portfolio (of_desk ofc)))))"

record pnl_view =
  pl_realized :: float64
  pl_unrealized :: float64
  pl_total :: float64

definition get_pnl :: "'w office \<Rightarrow> pnl_view" where
  "get_pnl ofc =
     (let positions = repo_list (ps_positions (dk_portfolio (of_desk ofc)));
          realized = py_sum (map p_realized_pnl positions);
          unrealized = py_sum (map p_pnl positions) in
      \<lparr>pl_realized = py_round realized 2, pl_unrealized = py_round unrealized 2, pl_total = py_round (realized + unrealized) 2\<rparr>)"

fun curve_points :: "position list \<Rightarrow> float64 \<Rightarrow> position list \<Rightarrow> (datetime \<times> float64) list" where
  "curve_points positions running [] = []"
| "curve_points positions running (p # ps) =
     (let now_running = running + p_realized_pnl p;
          open_unrealized = py_sum (map p_pnl (filter (\<lambda>q. p_updated_at q \<le> p_updated_at p) positions)) in
      (p_updated_at p, py_round (now_running + open_unrealized) 2) # curve_points positions now_running ps)"

definition equity_curve :: "datetime \<Rightarrow> 's broker \<Rightarrow> env \<Rightarrow> 'w office \<Rightarrow> 's \<Rightarrow> (datetime \<times> float64) list \<times> 's" where
  "equity_curve now b en ofc x =
     (case operator_cash b en ofc x of
        (cash, x1) \<Rightarrow>
          let positions = sort_key p_updated_at (repo_list (ps_positions (dk_portfolio (of_desk ofc)))) in
          (curve_points positions cash positions @
             [(now, py_round (sm_total_equity (get_summary cash (dk_portfolio (of_desk ofc)))) 2)], x1))"

record workflow_view =
  wv_current :: "operator_step option"
  wv_next :: "operator_step option"
  wv_status :: workflow_status

record desk_snapshot =
  sn_mode :: trading_mode
  sn_running :: bool
  sn_workflow :: "workflow_view option"
  sn_engaged :: bool
  sn_circuit_open :: bool
  sn_reason :: fstring

text \<open>The desk_snapshot of the stream; nothing when the orchestrator cannot be had.\<close>

definition live_snapshot :: "'w office res \<Rightarrow> desk_snapshot option" where
  "live_snapshot built =
     (case built of
        Inl e \<Rightarrow> None
      | Inr ofc \<Rightarrow>
          (let ks = rs_kill_switch (dk_risk (of_desk ofc)); verdict = ks_can_trade ks in
           Some \<lparr>sn_mode = dk_mode (of_desk ofc), sn_running = of_running ofc,
             sn_workflow = map_option (\<lambda>os. let w = os_workflow os in
                \<lparr>wv_current = ow_current w, wv_next = next_step w, wv_status = ow_status w\<rparr>) (of_session ofc),
             sn_engaged = (\<not> allowed verdict), sn_circuit_open = ks_circuit_open ks, sn_reason = v_reason verdict\<rparr>))"

text \<open>
  The listing of trades is newest first and its pages tile it: the pages of one size, one after
  the other, are the whole listing, and each is in descending order of creation.
\<close>

lemma newest_first_sorted: "sorted_wrt (\<lambda>x y. key y \<le> key x) (newest_first key xs)"
  using sorted_sort_key [of key "rev xs"] by (simp add: newest_first_def sorted_wrt_rev sorted_map)

lemma newest_first_elements: "mset (newest_first key xs) = mset xs" "length (newest_first key xs) = length xs"
  by (simp_all add: newest_first_def)

lemma pages_tile: "0 < n \<Longrightarrow> concat (map (\<lambda>k. page_of (Some n) (k * n) xs) [0..<m]) = take (m * n) xs"
proof (induction m)
  case (Suc m)
  have "take (Suc m * n) xs = take (m * n + n) xs" by (simp add: add.commute)
  with Suc show ?case by (simp add: page_of_def take_add del: mult_Suc)
qed (simp add: page_of_def)

theorem trades_pages_tile:
  "let trades = repo_list (ps_trades (dk_portfolio (of_desk ofc))) in
   if length trades \<le> m * n
   then mset (concat (map (\<lambda>k. get_trades n (k * n) ofc) [0..<m])) = mset trades \<and>
        sorted_wrt (\<lambda>x y. t_created_at y \<le> t_created_at x) (concat (map (\<lambda>k. get_trades n (k * n) ofc) [0..<m]))
   else True"
proof (cases "n = 0")
  case True
  moreover have "concat (map (\<lambda>k. []) [0..<m]) = ([] :: trade list)" by simp
  ultimately show ?thesis by (simp add: get_trades_def page_of_def del: concat_eq_Nil_conv)
next
  case False
  then show ?thesis
    using pages_tile [of n "newest_first t_created_at (repo_list (ps_trades (dk_portfolio (of_desk ofc))))" m]
    by (simp add: get_trades_def newest_first_sorted newest_first_elements Let_def)
qed

subsection \<open>Readiness\<close>

record readiness_view =
  rn_ready :: bool
  rn_preflight :: "bool option"
  rn_feeds :: nat
  rn_broker :: bool

definition get_readiness :: "environ \<Rightarrow> bool option \<Rightarrow> 's broker \<Rightarrow> env \<Rightarrow> 'w office \<Rightarrow> 's \<Rightarrow> readiness_view \<times> 's" where
  "get_readiness env chain_ok b en ofc x =
     (let pre = map_option (\<lambda>pf. pv_passed (preflight_check env chain_ok (dk_mode (of_desk ofc) = LIVE) pf)) (dk_preflight (of_desk ofc));
          feeds = (case of_sources ofc of None \<Rightarrow> 0 | Some n \<Rightarrow> n) in
      case b_balance b en x of (r, x1) \<Rightarrow>
        let connected = (case r of Inl e \<Rightarrow> False | Inr v \<Rightarrow> truthy v) in
        (\<lparr>rn_ready = ((case pre of None \<Rightarrow> True | Some p \<Rightarrow> p) \<and> 0 < feeds \<and> connected), rn_preflight = pre,
          rn_feeds = feeds, rn_broker = connected\<rparr>, x1))"

lemma unready_broker:
  assumes "b_balance b en x = (Inr balance, x1)" and "\<not> 0 < balance" and "rd_broker rd = Some b"
  shows "\<not> lv_ready (fst (readiness_check env chain_ok rd en x))"
  using assms by (simp add: readiness_check_def broker_item_def Let_def)

text \<open>
  Two verdicts on one account: with an overdrawn balance the readiness endpoint says ready and
  the check of the live pilot says it is not, for the same broker at the same instant.
\<close>

theorem readiness_verdicts_disagree:
  assumes "b_balance b en x = (Inr balance, x1)" and "balance < 0" and "rd_broker rd = Some b"
    and "of_sources ofc = Some (Suc n)"
    and "pred_option (\<lambda>pf. pv_passed (preflight_check env chain_ok (dk_mode (of_desk ofc) = LIVE) pf)) (dk_preflight (of_desk ofc))"
  shows "rn_ready (fst (get_readiness env chain_ok b en ofc x)) \<and> \<not> lv_ready (fst (readiness_check env' chain_ok' rd en x))"
proof -
  have "\<not> 0 < balance" "truthy balance" using assms(2) by (cases balance; simp add: zero_eq_Fin truthy_def)+
  then show ?thesis
    using unready_broker [OF assms(1) _ assms(3)] assms by (cases "dk_preflight (of_desk ofc)") (simp_all add: get_readiness_def Let_def)
qed

end
