(* ===== verification/Replay.thy ===== *)
theory Replay
  imports Entities Repositories PyText Ports "HOL-Library.Product_Lexorder"
begin

text \<open>
  \<open>domain/services/replay_service.py\<close>: the causal chains rebuilt from the audit trail and
  the realised profit of each fill by first-in first-out matching.

  An audit entry carries its JSON detail as the dictionary the code parses it to (None when
  it is not a dictionary); values that are lists or dictionaries themselves are left out, as
  no step records one.  \<open>get_entries\<close> is the one of the durable trail
  (\<open>infrastructure/observability.py\<close>), newest first.
\<close>

datatype json = JString string | JNumber float64 | JBool bool | JNull

type_synonym detail = "(string \<times> json) list"

record replay_entry =
  ae_at :: datetime
  ae_act :: string
  ae_who :: string
  ae_parsed :: "detail option"

record causal_step =
  cs_action :: string
  cs_at :: datetime
  cs_actor :: string
  cs_detail :: detail

record replay_fill =
  rf_signal_id :: json
  rf_market_id :: fstring
  rf_trade_id :: fstring
  rf_strategy :: fstring
  rf_direction :: fstring
  rf_confidence :: float64
  rf_decision :: fstring
  rf_decision_reason :: fstring
  rf_order_status :: fstring
  rf_order_id :: fstring
  rf_side :: fstring
  rf_qty :: float64
  rf_price :: float64
  rf_filled_qty :: float64
  rf_filled_price :: float64
  rf_filled_at :: fstring
  rf_realized_pnl :: "float64 option"

record replay_chain =
  ch_signal_id :: json
  ch_market_id :: fstring
  ch_signal_at :: datetime
  ch_strategy :: fstring
  ch_direction :: fstring
  ch_confidence :: float64
  ch_steps :: "causal_step list"
  ch_fill :: "replay_fill option"
  ch_blocked :: bool

record replay_report =
  rp_chains :: "replay_chain list"
  rp_total_realized_pnl :: float64
  rp_total_blocked :: int
  rp_total_unfilled :: int

definition CAUSAL_ACTIONS :: "string list" where
  "CAUSAL_ACTIONS = [''signal.generated'', ''decision.made'', ''order.placed'', ''trade.fill'']"

definition causal_order :: "string \<Rightarrow> int" where
  "causal_order a =
     (if a = ''signal.generated'' then 0 else if a = ''decision.made'' then 1
      else if a = ''order.placed'' then 2 else if a = ''trade.fill'' then 3 else 9)"

text \<open>\<open>bool(v)\<close>, \<open>str(v)\<close> and \<open>float(v)\<close> of a parsed value.\<close>

fun json_truthy :: "json \<Rightarrow> bool" where
  "json_truthy (JString s) = (s \<noteq> [])"
| "json_truthy (JNumber x) = truthy x"
| "json_truthy (JBool b) = b"
| "json_truthy JNull = False"

fun json_str :: "json \<Rightarrow> fstring" where
  "json_str (JString s) = [L s]"
| "json_str (JNumber x) = [F x]"
| "json_str (JBool b) = [L (if b then ''True'' else ''False'')]"
| "json_str JNull = [L ''None'']"

fun json_float :: "json \<Rightarrow> float64 res" where
  "json_float (JString s) = (case parse_float s of None \<Rightarrow> Inl ValueError | Some x \<Rightarrow> Inr x)"
| "json_float (JNumber x) = Inr x"
| "json_float (JBool b) = Inr (if b then 1 else 0)"
| "json_float JNull = Inl TypeError"

definition get_str :: "detail \<Rightarrow> string \<Rightarrow> fstring" where
  "get_str d k = (case map_of d k of None \<Rightarrow> [L []] | Some v \<Rightarrow> json_str v)"

definition get_float :: "detail \<Rightarrow> string \<Rightarrow> float64 res" where
  "get_float d k = (case map_of d k of None \<Rightarrow> Inr 0 | Some v \<Rightarrow> json_float v)"

definition fill_filled :: "replay_fill \<Rightarrow> bool" where
  "fill_filled f = (0 < rf_filled_qty f \<and> rf_order_status f = [L ''filled''])"

definition chain_complete :: "replay_chain \<Rightarrow> bool" where
  "chain_complete c = (case ch_fill c of None \<Rightarrow> False | Some f \<Rightarrow> fill_filled f)"

definition chain_realized_pnl :: "replay_chain \<Rightarrow> float64 option" where
  "chain_realized_pnl c = (case ch_fill c of None \<Rightarrow> None | Some f \<Rightarrow> rf_realized_pnl f)"

subsection \<open>First-in first-out matching\<close>

record lot =
  lt_qty :: float64
  lt_price :: float64
  lt_trade_id :: uuid

definition EPS :: float64 where "EPS = lit (1 / 1000000000)"

definition match_measure :: "float64 \<Rightarrow> lot list \<Rightarrow> nat" where
  "match_measure qty lots = 3 * length lots +
     (case lots of [] \<Rightarrow> 0 | l # _ \<Rightarrow> if lt_qty l = NegInf then 1 else 0) + (if EPS < qty then 1 else 0)"

lemma EPS_Fin: "\<exists>e. EPS = Fin e \<and> 0 \<le> e"
proof -
  have "EPS \<noteq> PosInf \<and> EPS \<noteq> NegInf" and "Fin 0 \<le> EPS" by (simp_all add: EPS_def float_eval)
  then show ?thesis by (metis Fin_ops(6) NaN_ops(10) float64.exhaust)
qed

lemma Inf_minus_Inf [simp]: "PosInf - PosInf = NaN" "NegInf - NegInf = NaN" "PosInf - Fin a = PosInf"
    "Fin a - NegInf = PosInf"
  by (simp_all add: minus_float64_def)

text \<open>Either the lot is used up, or nothing is left to close, or the quantities are not finite.\<close>

lemma match_decreases:
  assumes "EPS < qty" and "\<not> lt_qty l - py_min (lt_qty l) qty \<le> EPS"
  shows "match_measure (qty - py_min (lt_qty l) qty) (l\<lparr>lt_qty := lt_qty l - py_min (lt_qty l) qty\<rparr> # ls)
    < match_measure qty (l # ls)"
proof -
  obtain e where e: "EPS = Fin e" "0 \<le> e" using EPS_Fin by blast
  have pos: "rnd (a - b) \<noteq> NegInf" if "b < a" for a b
    using rnd_nonneg [of "a - b"] that by auto
  note asm = assms [unfolded e(1)] and goal = match_measure_def py_min_def e(1)
  show ?thesis
  proof (cases qty)
    case (Fin q)
    then show ?thesis using asm e(2) by (cases "lt_qty l") (auto simp: goal pos)
  next
    case PosInf
    then show ?thesis using asm e(2) by (cases "lt_qty l") (auto simp: goal)
  qed (use asm in auto)
qed

lemma match_pops: "match_measure qty' ls < match_measure qty (l # ls) \<or> \<not> EPS < qty"
  by (auto simp: match_measure_def split: list.splits)

text \<open>The while loop of one closing trade; \<open>gain lot_price\<close> is the profit per unit.\<close>

function match_lots ::
  "uuid \<Rightarrow> (float64 \<Rightarrow> float64) \<Rightarrow> float64 \<Rightarrow> lot list \<Rightarrow> (uuid \<times> float64) list \<Rightarrow>
   float64 \<times> lot list \<times> (uuid \<times> float64) list" where
  "match_lots tid gain qty [] realized = (qty, [], realized)"
| "match_lots tid gain qty (l # ls) realized =
     (if EPS < qty
      then let take' = py_min (lt_qty l) qty;
               realized' = AList.update tid (dict_get realized tid 0 + take' * gain (lt_price l)) realized;
               left = lt_qty l - take'; qty' = qty - take' in
           if left \<le> EPS then match_lots tid gain qty' ls realized'
           else match_lots tid gain qty' (l\<lparr>lt_qty := left\<rparr> # ls) realized'
      else (qty, l # ls, realized))"
  by pat_completeness auto

termination
proof (relation "measure (\<lambda>(tid, gain, qty, lots, realized). match_measure qty lots)", goal_cases)
  case (2 tid gain qty l ls realized x xa xb xc)
  then show ?case using match_pops [of "qty - py_min (lt_qty l) qty" ls qty l] by simp
next
  case (3 tid gain qty l ls realized x xa xb xc)
  then show ?case using match_decreases [of qty l ls] by simp
qed simp

declare match_lots.simps(2) [simp del]

record book =
  bk_long :: "lot list"
  bk_short :: "lot list"
  bk_realized :: "(uuid \<times> float64) list"

definition match_trade :: "trade \<Rightarrow> book \<Rightarrow> book" where
  "match_trade t b =
     (let price = t_filled_price t; tid = t_id t;
          opened = (\<lambda>qty lots. if EPS < qty then lots @ [\<lparr>lt_qty = qty, lt_price = price, lt_trade_id = tid\<rparr>] else lots) in
      if t_side t = BUY
      then (case match_lots tid (\<lambda>lp. lp - price) (t_filled_quantity t) (bk_short b) (bk_realized b) of
              (qty, shorts, realized) \<Rightarrow> \<lparr>bk_long = opened qty (bk_long b), bk_short = shorts, bk_realized = realized\<rparr>)
      else (case match_lots tid (\<lambda>lp. price - lp) (t_filled_quantity t) (bk_long b) (bk_realized b) of
              (qty, longs, realized) \<Rightarrow> \<lparr>bk_long = longs, bk_short = opened qty (bk_short b), bk_realized = realized\<rparr>))"

definition group_by :: "('a \<Rightarrow> 'k) \<Rightarrow> 'a list \<Rightarrow> ('k \<times> 'a list) list" where
  "group_by key xs = fold (\<lambda>x d. AList.update (key x) (dict_get d (key x) [] @ [x]) d) xs []"

definition match_market :: "trade list \<Rightarrow> (uuid \<times> float64) list \<Rightarrow> book" where
  "match_market ts realized =
     fold match_trade (sort_key t_created_at ts) \<lparr>bk_long = [], bk_short = [], bk_realized = realized\<rparr>"

definition fifo_realized_pnl :: "trade list \<Rightarrow> (uuid \<times> float64) list" where
  "fifo_realized_pnl trades =
     fold (\<lambda>(m, ts) realized. bk_realized (match_market ts realized)) (group_by t_market_id trades) []"

subsection \<open>Chains\<close>

definition first_step :: "string \<Rightarrow> causal_step list \<Rightarrow> causal_step option" where
  "first_step a steps = List.find (\<lambda>s. cs_action s = a) steps"

definition opt_str :: "causal_step option \<Rightarrow> string \<Rightarrow> fstring" where
  "opt_str s k = (case s of None \<Rightarrow> [L []] | Some s \<Rightarrow> get_str (cs_detail s) k)"

definition build_fill ::
  "json \<Rightarrow> replay_chain \<Rightarrow> causal_step option \<Rightarrow> causal_step option \<Rightarrow> causal_step \<Rightarrow> (uuid \<times> float64) list \<Rightarrow>
   replay_fill res" where
  "build_fill signal_id chain dec ord fill_step realized =
     (let d = cs_detail fill_step in
      rbind (get_float d ''qty'') (\<lambda>qty.
      rbind (get_float d ''price'') (\<lambda>price.
      Inr \<lparr>rf_signal_id = signal_id,
           rf_market_id = (case map_of d ''market_id'' of None \<Rightarrow> ch_market_id chain | Some v \<Rightarrow> json_str v),
           rf_trade_id = get_str d ''trade_id'', rf_strategy = ch_strategy chain,
           rf_direction = ch_direction chain, rf_confidence = ch_confidence chain,
           rf_decision = opt_str dec ''outcome'', rf_decision_reason = opt_str dec ''reason'',
           rf_order_status = opt_str ord ''status'', rf_order_id = opt_str ord ''order_id'',
           rf_side = get_str d ''side'', rf_qty = qty, rf_price = price, rf_filled_qty = qty,
           rf_filled_price = price, rf_filled_at = get_str d ''filled_at'',
           rf_realized_pnl = (case get_str d ''trade_id'' of [L k] \<Rightarrow> map_of realized k | _ \<Rightarrow> None)\<rparr>)))"

definition build_chain ::
  "json \<Rightarrow> causal_step list \<Rightarrow> (uuid \<times> float64) list \<Rightarrow> replay_chain res" where
  "build_chain signal_id steps realized =
     (let gen = first_step ''signal.generated'' steps; dec = first_step ''decision.made'' steps;
          ord = first_step ''order.placed'' steps; fill_step = first_step ''trade.fill'' steps;
          blocked = (case dec of None \<Rightarrow> False
                     | Some s \<Rightarrow> map_of (cs_detail s) ''outcome'' = Some (JString ''blocked''));
          anchor = (case gen of Some s \<Rightarrow> Some s | None \<Rightarrow>
                   (case dec of Some s \<Rightarrow> Some s | None \<Rightarrow> (case ord of Some s \<Rightarrow> Some s | None \<Rightarrow> fill_step))) in
      rbind (case gen of None \<Rightarrow> Inr 0 | Some s \<Rightarrow> get_float (cs_detail s) ''confidence'') (\<lambda>confidence.
      let chain = \<lparr>ch_signal_id = signal_id, ch_market_id = opt_str anchor ''market_id'',
                   ch_signal_at = (case gen of Some s \<Rightarrow> cs_at s | None \<Rightarrow> cs_at (hd steps)),
                   ch_strategy = opt_str gen ''strategy'', ch_direction = opt_str gen ''direction'',
                   ch_confidence = confidence, ch_steps = steps, ch_fill = None, ch_blocked = blocked\<rparr> in
      case fill_step of
        None \<Rightarrow> Inr chain
      | Some fs \<Rightarrow> rbind (build_fill signal_id chain dec ord fs realized) (\<lambda>f. Inr (chain\<lparr>ch_fill := Some f\<rparr>))))"

text \<open>\<open>get_entries\<close> of the durable audit trail.\<close>

definition durable_entries :: "nat \<Rightarrow> nat \<Rightarrow> 'e list \<Rightarrow> 'e list" where
  "durable_entries limit offset rows = take limit (drop offset (rev rows))"

definition causal_steps :: "datetime \<Rightarrow> datetime \<Rightarrow> replay_entry list \<Rightarrow> (json \<times> causal_step) list" where
  "causal_steps start end' rows =
     List.map_filter (\<lambda>e. let d = (case ae_parsed e of None \<Rightarrow> [] | Some d \<Rightarrow> d) in
         case map_of d ''signal_id'' of
           Some v \<Rightarrow> if json_truthy v
                     then Some (v, \<lparr>cs_action = ae_act e, cs_at = ae_at e, cs_actor = ae_who e, cs_detail = d\<rparr>)
                     else None
         | None \<Rightarrow> None)
       (filter (\<lambda>e. ae_act e \<in> set CAUSAL_ACTIONS \<and> start \<le> ae_at e \<and> ae_at e \<le> end')
          (durable_entries 5000 0 rows))"

definition window_fills :: "datetime \<Rightarrow> datetime \<Rightarrow> trade store \<Rightarrow> trade list" where
  "window_fills start end' trades =
     filter (\<lambda>t. start \<le> t_created_at t \<and> t_created_at t \<le> end' \<and> t_status t = FILLED) (repo_list trades)"

definition replay_day :: "datetime \<Rightarrow> datetime \<Rightarrow> replay_entry list \<Rightarrow> trade store \<Rightarrow> replay_report res" where
  "replay_day start end' rows trades =
     (let realized = fifo_realized_pnl (window_fills start end' trades) in
      rbind (mapr (\<lambda>(sid, raw). build_chain sid (sort_key (\<lambda>s. (cs_at s, causal_order (cs_action s))) (map snd raw)) realized)
              (group_by fst (causal_steps start end' rows))) (\<lambda>unsorted.
      let chains = sort_key ch_signal_at unsorted in
      Inr \<lparr>rp_chains = chains,
           rp_total_realized_pnl = py_sum (map (\<lambda>c. case chain_realized_pnl c of None \<Rightarrow> 0 | Some x \<Rightarrow> x) chains),
           rp_total_blocked = int (length (filter ch_blocked chains)),
           rp_total_unfilled = int (length (filter (\<lambda>c. \<not> chain_complete c \<and> \<not> ch_blocked c) chains))\<rparr>))"

subsection \<open>A book is long or short\<close>

text \<open>After the loop the trade is closed in full or the lots it closes against are gone.\<close>

lemma match_lots_exhausts:
  "match_lots tid gain qty lots realized = (qty', lots', realized') \<Longrightarrow> \<not> EPS < qty' \<or> lots' = []"
proof (induction tid gain qty lots realized rule: match_lots.induct)
  case (2 tid gain qty l ls realized)
  then show ?case
    by (auto simp: match_lots.simps(2) [of tid gain qty l] Let_def split: if_splits)
qed simp

lemma match_lots_nil: "match_lots tid gain qty [] realized = (qty, [], realized)"
  by simp

definition one_sided :: "book \<Rightarrow> bool" where
  "one_sided b = (bk_long b = [] \<or> bk_short b = [])"

lemma match_trade_one_sided:
  assumes "one_sided b"
  shows "one_sided (match_trade t b)"
proof -
  obtain q ss r where buy: "match_lots (t_id t) (\<lambda>lp. lp - t_filled_price t) (t_filled_quantity t) (bk_short b)
      (bk_realized b) = (q, ss, r)" by (metis prod_cases3)
  obtain q' ls r' where sell: "match_lots (t_id t) (\<lambda>lp. t_filled_price t - lp) (t_filled_quantity t) (bk_long b)
      (bk_realized b) = (q', ls, r')" by (metis prod_cases3)
  show ?thesis
    using assms match_lots_exhausts [OF buy] match_lots_exhausts [OF sell] buy sell
    by (auto simp: one_sided_def match_trade_def Let_def)
qed

text \<open>
  The matching of a market never holds long and short lots at the same time, whatever
  the fills: a trade first closes what the other side holds and opens a lot only with what
  is left.
\<close>

theorem lots_one_sided: "bk_long (match_market ts realized) = [] \<or> bk_short (match_market ts realized) = []"
proof -
  have "one_sided (fold match_trade ts b)" if "one_sided b" for ts b
    using that by (induction ts arbitrary: b) (auto intro: match_trade_one_sided)
  then show ?thesis
    unfolding match_market_def one_sided_def by simp
qed

subsection \<open>What a replay cannot see\<close>

lemma fifo_nil [simp]: "fifo_realized_pnl [] = []"
  by (simp add: fifo_realized_pnl_def group_by_def)

text \<open>
  Five thousand later audit rows hide a day completely: replaying a window reads only
  the newest five thousand entries of the durable trail, so when none of them is in the
  window the report is empty, whatever the trail and the trades hold.
\<close>

theorem busy_trail_hides_the_day:
  assumes "length later = 5000" and "\<forall>e \<in> set later. end' < ae_at e"
  shows "replay_day start end' (rows @ later) trades =
    Inr \<lparr>rp_chains = [], rp_total_realized_pnl = py_sum [], rp_total_blocked = 0, rp_total_unfilled = 0\<rparr>"
proof -
  have "durable_entries 5000 0 (rows @ later) = rev later"
    using assms(1) by (simp add: durable_entries_def)
  then have "causal_steps start end' (rows @ later) = []"
    using assms(2) by (auto simp: causal_steps_def filter_empty_conv map_filter_def not_le)
  then show ?thesis by (simp add: replay_day_def group_by_def)
qed

definition later_entry :: replay_entry where
  "later_entry = \<lparr>ae_at = 11, ae_act = ''trade.fill'', ae_who = ''s'', ae_parsed = None\<rparr>"

theorem busy_trail_hides_the_day_witness:
  "replay_day 0 10 ([later_entry\<lparr>ae_at := 5\<rparr>] @ replicate 5000 later_entry) [] =
    Inr \<lparr>rp_chains = [], rp_total_realized_pnl = py_sum [], rp_total_blocked = 0, rp_total_unfilled = 0\<rparr>"
  by (rule busy_trail_hides_the_day) (simp_all add: later_entry_def)

text \<open>
  A position opened before the window realises nothing in it: when the only fill of a
  window closes a trade of the day before, the replay matches it against nothing and the
  profit of the round trip is not reported.
\<close>

theorem overnight_close_realises_nothing:
  assumes "filter (\<lambda>t. start \<le> t_created_at t \<and> t_created_at t \<le> end' \<and> t_status t = FILLED) (repo_list trades) = [t]"
  shows "fifo_realized_pnl (window_fills start end' trades) = []"
  using assms by (simp add: window_fills_def fifo_realized_pnl_def group_by_def dict_get_def match_market_def
      match_trade_def Let_def)

definition filled_trade :: "uuid \<Rightarrow> trade_side \<Rightarrow> datetime \<Rightarrow> float64 \<Rightarrow> trade" where
  "filled_trade i sd made p = (new_trade i made ''s'' ''m'' sd (Fin 1) p)\<lparr>t_status := FILLED, t_filled_quantity := Fin 1,
     t_filled_price := p\<rparr>"

theorem overnight_close_realises_nothing_witness:
  "fifo_realized_pnl (window_fills 10 20
     [(''a'', filled_trade ''a'' BUY 5 (Fin 100)), (''b'', filled_trade ''b'' SELL 15 (Fin 200))]) = []"
  by (rule overnight_close_realises_nothing [where t = "filled_trade ''b'' SELL 15 (Fin 200)"])
    (simp add: repo_list_def filled_trade_def new_trade_def)

end
