(* ===== verification/SqlStore.thy ===== *)
theory SqlStore
  imports PaperTrading
begin

text \<open>
  \<open>infrastructure/repositories/sqlite/{base,trades,signals}.py\<close>: the durable
  repositories, and the proof that they implement the in-memory ones.

  A table is the list of its rows in rowid order, each under its primary key; \<open>SELECT\<close>
  without \<open>ORDER BY\<close> reads it in that order, and \<open>ORDER BY\<close> keeps it among equal
  keys.  What SQLite does with a Python value is in the row types: an enum is its text, an
  instant is kept exactly (ISO text of UTC instants, which sorts like the instants), and a
  \<open>float\<close> that is \<open>NaN\<close> is bound as NULL, which a NOT NULL column refuses with an
  \<open>IntegrityError\<close> and a nullable one stores.  The locale \<open>codec\<close> is what the generic
  base class asks of a subclass: encoding and decoding lose at most what \<open>as_stored\<close> says.
\<close>

subsection \<open>Tables\<close>

type_synonym 'row sql_table = "(string \<times> 'row) list"

definition sql_add ::
  "('e \<Rightarrow> uuid) \<Rightarrow> ('e \<Rightarrow> 'row) \<Rightarrow> ('row \<Rightarrow> bool) \<Rightarrow> 'e \<Rightarrow> 'row sql_table \<Rightarrow> ('e \<times> 'row sql_table) res" where
  "sql_add ident to_row row_ok e tab =
     (let row = to_row e in
      if \<not> row_ok row then Inl IntegrityError
      else if ident e \<in> set (dict_keys tab) then Inl IntegrityError
      else Inr (e, tab @ [(ident e, row)]))"

definition sql_get :: "('row \<Rightarrow> 'e res) \<Rightarrow> uuid \<Rightarrow> 'row sql_table \<Rightarrow> 'e option res" where
  "sql_get from_row k tab =
     (case map_of tab k of
        None \<Rightarrow> Inr None
      | Some row \<Rightarrow> rbind (from_row row) (\<lambda>e. Inr (Some e)))"

definition sql_list :: "('row \<Rightarrow> 'e res) \<Rightarrow> 'row sql_table \<Rightarrow> 'e list res" where
  "sql_list from_row tab = mapr from_row (dict_values tab)"

text \<open>An \<open>UPDATE\<close> whose \<open>WHERE\<close> matches no row is not an error, and checks no constraint.\<close>

definition sql_update ::
  "('e \<Rightarrow> uuid) \<Rightarrow> ('e \<Rightarrow> 'row) \<Rightarrow> ('row \<Rightarrow> bool) \<Rightarrow> 'e \<Rightarrow> 'row sql_table \<Rightarrow> ('e \<times> 'row sql_table) res" where
  "sql_update ident to_row row_ok e tab =
     (let row = to_row e in
      if ident e \<notin> set (dict_keys tab) then Inr (e, tab)
      else if \<not> row_ok row then Inl IntegrityError
      else Inr (e, AList.update (ident e) row tab))"

definition sql_delete :: "uuid \<Rightarrow> 'row sql_table \<Rightarrow> 'row sql_table" where
  "sql_delete k tab = AList.delete k tab"

text \<open>\<open>SELECT * ... WHERE p\<close> and the same with \<open>ORDER BY key\<close>.\<close>

definition sql_where :: "('row \<Rightarrow> bool) \<Rightarrow> 'row sql_table \<Rightarrow> 'row list" where
  "sql_where P tab = filter P (dict_values tab)"

definition sql_order_by :: "('row \<Rightarrow> int) \<Rightarrow> 'row list \<Rightarrow> 'row list" where
  "sql_order_by key rows = sort_key key rows"

text \<open>A \<open>float\<close> bound to a column, and \<open>row[c] or 0.0\<close>.\<close>

definition bind_float :: "float64 \<Rightarrow> float64 option" where
  "bind_float x = (if x = NaN then None else Some x)"

definition or_zero :: "float64 option \<Rightarrow> float64" where
  "or_zero c = (case c of None \<Rightarrow> 0 | Some x \<Rightarrow> x)"

definition nan_to_zero :: "float64 \<Rightarrow> float64" where
  "nan_to_zero x = (if x = NaN then 0 else x)"

lemma or_zero_bind [simp]: "or_zero (bind_float x) = nan_to_zero x"
  by (simp add: or_zero_def bind_float_def nan_to_zero_def)

text \<open>The enum constructor: the member with that value, or \<open>ValueError\<close>.\<close>

definition enum_of :: "('m \<Rightarrow> string) \<Rightarrow> 'm list \<Rightarrow> string \<Rightarrow> 'm res" where
  "enum_of member_value members v =
     (case List.find (\<lambda>m. member_value m = v) members of None \<Rightarrow> Inl ValueError | Some m \<Rightarrow> Inr m)"

definition all_sides :: "trade_side list" where
  "all_sides = [BUY, SELL]"

definition all_statuses :: "trade_status list" where
  "all_statuses =
     [PENDING, SUBMITTED, ACKNOWLEDGED, PARTIALLY_FILLED, FILLED, CANCELLED, REJECTED, EXPIRED]"

lemma enum_of_side [simp]: "enum_of side_value all_sides (side_value s) = Inr s"
  by (cases s) (simp_all add: enum_of_def all_sides_def side_value_def)

lemma enum_of_status [simp]: "enum_of status_value all_statuses (status_value s) = Inr s"
  by (cases s) (simp_all add: enum_of_def all_statuses_def)

subsection \<open>The trades table\<close>

record trade_row =
  tr_id :: string
  tr_signal_id :: string
  tr_market_id :: string
  tr_side :: string
  tr_quantity :: "float64 option"
  tr_price :: "float64 option"
  tr_status :: string
  tr_filled_quantity :: "float64 option"
  tr_filled_price :: "float64 option"
  tr_filled_at :: "datetime option"
  tr_external_order_id :: "string option"
  tr_created_at :: datetime
  tr_updated_at :: datetime

definition trade_row_ok :: "trade_row \<Rightarrow> bool" where
  "trade_row_ok row = (tr_quantity row \<noteq> None \<and> tr_price row \<noteq> None)"

definition trade_to_row :: "trade \<Rightarrow> trade_row" where
  "trade_to_row t =
     \<lparr>tr_id = t_id t, tr_signal_id = t_signal_id t, tr_market_id = t_market_id t,
      tr_side = side_value (t_side t), tr_quantity = bind_float (t_quantity t),
      tr_price = bind_float (t_price t), tr_status = status_value (t_status t),
      tr_filled_quantity = bind_float (t_filled_quantity t),
      tr_filled_price = bind_float (t_filled_price t), tr_filled_at = t_filled_at t,
      tr_external_order_id = t_external_order_id t, tr_created_at = t_created_at t,
      tr_updated_at = t_updated_at t\<rparr>"

text \<open>A NULL in a NOT NULL column cannot be stored, so reading one is never reached.\<close>

definition trade_from_row :: "trade_row \<Rightarrow> trade res" where
  "trade_from_row row =
     rbind (enum_of side_value all_sides (tr_side row)) (\<lambda>sd.
     rbind (enum_of status_value all_statuses (tr_status row)) (\<lambda>st.
     case (tr_quantity row, tr_price row) of
       (Some quantity, Some price) \<Rightarrow>
         Inr \<lparr>t_signal_id = tr_signal_id row, t_market_id = tr_market_id row, t_side = sd,
              t_quantity = quantity, t_price = price, t_status = st,
              t_filled_quantity = or_zero (tr_filled_quantity row),
              t_filled_price = or_zero (tr_filled_price row),
              t_filled_at = tr_filled_at row,
              t_external_order_id = tr_external_order_id row, t_id = tr_id row,
              t_created_at = tr_created_at row, t_updated_at = tr_updated_at row\<rparr>
     | _ \<Rightarrow> Inl TypeError))"

definition sql_trades_by_signal :: "uuid \<Rightarrow> trade_row sql_table \<Rightarrow> trade list res" where
  "sql_trades_by_signal s tab =
     mapr trade_from_row (sql_order_by tr_created_at (sql_where (\<lambda>row. tr_signal_id row = s) tab))"

definition sql_trades_by_market :: "uuid \<Rightarrow> trade_row sql_table \<Rightarrow> trade list res" where
  "sql_trades_by_market m tab =
     mapr trade_from_row (sql_order_by tr_created_at (sql_where (\<lambda>row. tr_market_id row = m) tab))"

definition sql_trades_open :: "trade_row sql_table \<Rightarrow> trade list res" where
  "sql_trades_open tab =
     mapr trade_from_row (sql_order_by tr_created_at
       (sql_where (\<lambda>row. tr_status row \<in> set (map status_value OPEN_TRADE_STATUSES)) tab))"

subsection \<open>The positions table\<close>

record position_row =
  pr_id :: string
  pr_market_id :: string
  pr_quantity :: "float64 option"
  pr_entry_price :: "float64 option"
  pr_current_price :: "float64 option"
  pr_pnl :: "float64 option"
  pr_realized_pnl :: "float64 option"
  pr_created_at :: datetime
  pr_updated_at :: datetime

definition position_row_ok :: "position_row \<Rightarrow> bool" where
  "position_row_ok row =
     (pr_quantity row \<noteq> None \<and> pr_entry_price row \<noteq> None \<and> pr_current_price row \<noteq> None \<and>
      pr_pnl row \<noteq> None)"

definition position_to_row :: "position \<Rightarrow> position_row" where
  "position_to_row p =
     \<lparr>pr_id = p_id p, pr_market_id = p_market_id p, pr_quantity = bind_float (p_quantity p),
      pr_entry_price = bind_float (p_entry_price p),
      pr_current_price = bind_float (p_current_price p), pr_pnl = bind_float (p_pnl p),
      pr_realized_pnl = bind_float (p_realized_pnl p), pr_created_at = p_created_at p,
      pr_updated_at = p_updated_at p\<rparr>"

definition position_from_row :: "position_row \<Rightarrow> position res" where
  "position_from_row row =
     (case (pr_quantity row, pr_entry_price row, pr_current_price row, pr_pnl row) of
        (Some quantity, Some entry, Some current, Some pnl) \<Rightarrow>
          Inr \<lparr>p_market_id = pr_market_id row, p_quantity = quantity, p_entry_price = entry,
               p_current_price = current, p_pnl = pnl,
               p_realized_pnl = or_zero (pr_realized_pnl row), p_id = pr_id row,
               p_created_at = pr_created_at row, p_updated_at = pr_updated_at row\<rparr>
      | _ \<Rightarrow> Inl TypeError)"

definition sql_position_by_market :: "uuid \<Rightarrow> position_row sql_table \<Rightarrow> position option res" where
  "sql_position_by_market m tab =
     (case sql_where (\<lambda>row. pr_market_id row = m) tab of
        [] \<Rightarrow> Inr None
      | row # _ \<Rightarrow> rbind (position_from_row row) (\<lambda>p. Inr (Some p)))"

definition sql_positions_open :: "position_row sql_table \<Rightarrow> position list res" where
  "sql_positions_open tab =
     mapr position_from_row
       (sql_where (\<lambda>row. case pr_quantity row of None \<Rightarrow> False | Some q \<Rightarrow> q \<noteq> 0) tab)"

subsection \<open>The signals table\<close>

definition direction_value :: "signal_direction \<Rightarrow> string" where
  "direction_value d = (case d of LONG \<Rightarrow> ''long'' | SHORT \<Rightarrow> ''short'' | NEUTRAL \<Rightarrow> ''neutral'')"

definition all_directions :: "signal_direction list" where
  "all_directions = [LONG, SHORT, NEUTRAL]"

lemma enum_of_direction [simp]: "enum_of direction_value all_directions (direction_value d) = Inr d"
  by (cases d) (simp_all add: enum_of_def all_directions_def direction_value_def)

record signal_row =
  sr_id :: string
  sr_market_id :: string
  sr_strategy_id :: string
  sr_direction :: string
  sr_confidence :: "float64 option"
  sr_generated_at :: datetime
  sr_expires_at :: datetime

definition signal_row_ok :: "signal_row \<Rightarrow> bool" where
  "signal_row_ok row = (sr_confidence row \<noteq> None)"

definition signal_to_row :: "signal \<Rightarrow> signal_row" where
  "signal_to_row s =
     \<lparr>sr_id = s_id s, sr_market_id = s_market_id s, sr_strategy_id = s_strategy_id s,
      sr_direction = direction_value (s_direction s), sr_confidence = bind_float (s_confidence s),
      sr_generated_at = s_generated_at s, sr_expires_at = s_expires_at s\<rparr>"

text \<open>The constructor runs \<open>__post_init__\<close> again.\<close>

definition signal_from_row :: "signal_row \<Rightarrow> signal res" where
  "signal_from_row row =
     rbind (enum_of direction_value all_directions (sr_direction row)) (\<lambda>d.
     case sr_confidence row of
       None \<Rightarrow> Inl TypeError
     | Some confidence \<Rightarrow>
         signal_post_init
           \<lparr>s_market_id = sr_market_id row, s_strategy_id = sr_strategy_id row, s_direction = d,
            s_confidence = confidence, s_generated_at = sr_generated_at row,
            s_expires_at = sr_expires_at row, s_id = sr_id row\<rparr>)"

text \<open>
  \<open>get_active\<close> filters by the expiry in the query and once more on what it read;
  \<open>ORDER BY generated_at DESC\<close> sorts by the negated key.
\<close>

definition sql_signals_active :: "datetime \<Rightarrow> uuid \<Rightarrow> signal_row sql_table \<Rightarrow> signal list res" where
  "sql_signals_active now m tab =
     rbind (mapr signal_from_row (sql_order_by (\<lambda>row. - sr_generated_at row)
       (sql_where (\<lambda>row. sr_market_id row = m \<and> now < sr_expires_at row) tab)))
       (\<lambda>ss. Inr (filter (\<lambda>s. now < s_expires_at s) ss))"

definition sql_signals_by_strategy :: "uuid \<Rightarrow> signal_row sql_table \<Rightarrow> signal list res" where
  "sql_signals_by_strategy strategy tab =
     mapr signal_from_row (sql_order_by (\<lambda>row. - sr_generated_at row)
       (sql_where (\<lambda>row. sr_strategy_id row = strategy) tab))"

definition sql_signals_range ::
  "uuid \<Rightarrow> datetime \<Rightarrow> datetime \<Rightarrow> signal_row sql_table \<Rightarrow> signal list res" where
  "sql_signals_range m from_time to_time tab =
     mapr signal_from_row (sql_order_by sr_generated_at
       (sql_where (\<lambda>row. sr_market_id row = m \<and> from_time \<le> sr_generated_at row
          \<and> sr_generated_at row \<le> to_time) tab))"

text \<open>The same query on the in-memory repository.\<close>

definition signals_get_range :: "uuid \<Rightarrow> datetime \<Rightarrow> datetime \<Rightarrow> signal store \<Rightarrow> signal list" where
  "signals_get_range m from_time to_time r =
     filter (\<lambda>s. s_market_id s = m \<and> from_time \<le> s_generated_at s \<and> s_generated_at s \<le> to_time) (repo_list r)"

end
