(* ===== verification/SqlRefinement.thy ===== *)
theory SqlRefinement
  imports SqlStore
begin

text \<open>
  The SQLite repositories implement the in-memory ones.

  Both sides are driven by the same list of calls.  A list \<open>fits\<close> a store when every
  \<open>add\<close> is of a new id, every \<open>update\<close> of a stored one, and every entity written can be
  stored; on such lists the two sides give the same answers, up to what the columns lose
  (\<open>as_stored\<close>), and the table stays the encoded store, row for row.  Outside these lists they
  part, which the last section states.
\<close>

subsection \<open>Driving a repository by calls\<close>

datatype 'e repo_call = RAdd 'e | RGet uuid | RList | RUpdate 'e | RDelete uuid

datatype 'e repo_answer =
  Entity 'e | Found "'e option" | Listing "'e list" | Nothing | Raised exc

fun mem_call :: "('e \<Rightarrow> uuid) \<Rightarrow> 'e repo_call \<Rightarrow> 'e store \<Rightarrow> 'e repo_answer \<times> 'e store" where
  "mem_call ident (RAdd e) r = (let (x, r') = repo_add ident e r in (Entity x, r'))"
| "mem_call ident (RGet k) r = (Found (repo_get k r), r)"
| "mem_call ident RList r = (Listing (repo_list r), r)"
| "mem_call ident (RUpdate e) r = (let (x, r') = repo_update ident e r in (Entity x, r'))"
| "mem_call ident (RDelete k) r = (Nothing, repo_delete k r)"

fun sql_call :: "('e \<Rightarrow> uuid) \<Rightarrow> ('e \<Rightarrow> 'row) \<Rightarrow> ('row \<Rightarrow> bool) \<Rightarrow> ('row \<Rightarrow> 'e res) \<Rightarrow>
    'e repo_call \<Rightarrow> 'row sql_table \<Rightarrow> 'e repo_answer \<times> 'row sql_table" where
  "sql_call ident to_row row_ok from_row (RAdd e) tab =
     (case sql_add ident to_row row_ok e tab of Inl x \<Rightarrow> (Raised x, tab) | Inr (y, tab') \<Rightarrow> (Entity y, tab'))"
| "sql_call ident to_row row_ok from_row (RGet k) tab =
     (case sql_get from_row k tab of Inl x \<Rightarrow> (Raised x, tab) | Inr y \<Rightarrow> (Found y, tab))"
| "sql_call ident to_row row_ok from_row RList tab =
     (case sql_list from_row tab of Inl x \<Rightarrow> (Raised x, tab) | Inr ys \<Rightarrow> (Listing ys, tab))"
| "sql_call ident to_row row_ok from_row (RUpdate e) tab =
     (case sql_update ident to_row row_ok e tab of Inl x \<Rightarrow> (Raised x, tab) | Inr (y, tab') \<Rightarrow> (Entity y, tab'))"
| "sql_call ident to_row row_ok from_row (RDelete k) tab = (Nothing, sql_delete k tab)"

fun run_calls :: "('c \<Rightarrow> 's \<Rightarrow> 'o \<times> 's) \<Rightarrow> 'c list \<Rightarrow> 's \<Rightarrow> 'o list \<times> 's" where
  "run_calls step [] s = ([], s)"
| "run_calls step (c # cs) s =
     (let (x, s') = step c s; (xs, s'') = run_calls step cs s' in (x # xs, s''))"

fun fits :: "('e \<Rightarrow> uuid) \<Rightarrow> ('e \<Rightarrow> bool) \<Rightarrow> 'e repo_call \<Rightarrow> 'e store \<Rightarrow> bool" where
  "fits ident storable (RAdd e) r = (storable e \<and> repo_get (ident e) r = None)"
| "fits ident storable (RUpdate e) r = (storable e \<and> repo_get (ident e) r \<noteq> None)"
| "fits ident storable _ r = True"

fun fits_run :: "('e \<Rightarrow> uuid) \<Rightarrow> ('e \<Rightarrow> bool) \<Rightarrow> 'e repo_call list \<Rightarrow> 'e store \<Rightarrow> bool" where
  "fits_run ident storable [] r = True"
| "fits_run ident storable (c # cs) r =
     (fits ident storable c r \<and> fits_run ident storable cs (snd (mem_call ident c r)))"

text \<open>What a read returns when the values went through the table.\<close>

fun as_read :: "('e \<Rightarrow> 'e) \<Rightarrow> 'e repo_answer \<Rightarrow> 'e repo_answer" where
  "as_read as_stored (Found x) = Found (map_option as_stored x)"
| "as_read as_stored (Listing xs) = Listing (map as_stored xs)"
| "as_read as_stored x = x"

definition rows_of :: "('e \<Rightarrow> 'row) \<Rightarrow> 'e store \<Rightarrow> 'row sql_table" where
  "rows_of to_row r = map (\<lambda>(k, e). (k, to_row e)) r"

lemma keys_rows_of [simp]: "dict_keys (rows_of to_row r) = dict_keys r"
  by (simp add: rows_of_def split_def)

lemma values_rows_of [simp]: "dict_values (rows_of to_row r) = map to_row (repo_list r)"
  by (simp add: rows_of_def repo_list_def split_def)

lemma map_of_rows_of [simp]: "map_of (rows_of to_row r) k = map_option to_row (repo_get k r)"
  by (simp add: rows_of_def repo_get_def map_of_map)

lemma rows_of_update [simp]:
  "AList.update k (to_row e) (rows_of to_row r) = rows_of to_row (AList.update k e r)"
  by (induction r) (auto simp: rows_of_def)

lemma rows_of_delete [simp]: "AList.delete k (rows_of to_row r) = rows_of to_row (AList.delete k r)"
  by (induction r) (auto simp: rows_of_def)

lemma rows_of_append: "rows_of to_row (r @ [(k, e)]) = rows_of to_row r @ [(k, to_row e)]"
  by (simp add: rows_of_def)

lemma in_keys_iff: "k \<in> set (dict_keys r) \<longleftrightarrow> repo_get k r \<noteq> None"
  by (simp add: repo_get_def map_of_eq_None_iff)

lemma repo_get_value: "repo_get k r = Some e \<Longrightarrow> e \<in> set (repo_list r)"
  by (force simp: repo_get_def repo_list_def dest: map_of_SomeD)

lemma mapr_map_total: "list_all (\<lambda>e. f (g e) = Inr (h e)) es \<Longrightarrow> mapr f (map g es) = Inr (map h es)"
  by (induction es) auto

lemma insort_key_map: "insort_key key (g x) (map g es) = map g (insort_key (\<lambda>e. key (g e)) x es)"
  by (induction es) auto

lemma sort_key_map: "sort_key key (map g es) = map g (sort_key (\<lambda>e. key (g e)) es)"
  by (induction es) (simp_all add: insort_key_map)

subsection \<open>The contract of a row codec\<close>

locale codec =
  fixes ident :: "'e \<Rightarrow> uuid"
    and to_row :: "'e \<Rightarrow> 'row"
    and row_ok :: "'row \<Rightarrow> bool"
    and from_row :: "'row \<Rightarrow> 'e res"
    and storable :: "'e \<Rightarrow> bool"
    and as_stored :: "'e \<Rightarrow> 'e"
  assumes storable_ok: "storable e \<Longrightarrow> row_ok (to_row e)"
    and read_back: "storable e \<Longrightarrow> from_row (to_row e) = Inr (as_stored e)"
begin

lemma call_refines:
  assumes "list_all storable (repo_list r)" and "fits ident storable c r"
  shows "sql_call ident to_row row_ok from_row c (rows_of to_row r) =
           (as_read as_stored (fst (mem_call ident c r)), rows_of to_row (snd (mem_call ident c r)))"
proof (cases c)
  case (RAdd e)
  then have "row_ok (to_row e)" and fresh: "ident e \<notin> set (dict_keys r)"
    using assms(2) storable_ok [of e] in_keys_iff [of "ident e" r] by auto
  moreover from fresh have "ident e \<notin> set (dict_keys (rows_of to_row r))"
    unfolding keys_rows_of .
  ultimately show ?thesis
    using update_new [OF fresh] by (simp add: RAdd sql_add_def repo_add_def rows_of_append Let_def del: set_map)
next
  case (RGet k)
  have "from_row (to_row e) = Inr (as_stored e)" if "repo_get k r = Some e" for e
    using assms(1) repo_get_value [OF that] read_back [of e] by (auto simp: list_all_iff)
  with RGet show ?thesis by (auto simp: sql_get_def split: option.splits)
next
  case RList
  have "list_all (\<lambda>e. from_row (to_row e) = Inr (as_stored e)) (repo_list r)"
    using assms(1) read_back by (auto simp: list_all_iff)
  with RList show ?thesis by (simp add: sql_list_def mapr_map_total)
next
  case (RUpdate e)
  then have "row_ok (to_row e)" and "ident e \<in> fst ` set r"
    using assms(2) storable_ok [of e] in_keys_iff [of "ident e" r] by auto
  then show ?thesis by (simp add: RUpdate sql_update_def repo_update_def Let_def)
next
  case (RDelete k)
  then show ?thesis by (simp add: sql_delete_def repo_delete_def)
qed

lemma call_keeps_storable:
  assumes "list_all storable (repo_list r)" and "fits ident storable c r"
  shows "list_all storable (repo_list (snd (mem_call ident c r)))"
  using assms set_values_update [of _ _ r] set_values_delete [of _ r]
  by (cases c) (fastforce simp: repo_list_def repo_add_def repo_update_def repo_delete_def list_all_iff)+

lemma run_refines:
  assumes "list_all storable (repo_list r)" and "fits_run ident storable cs r"
  shows "run_calls (sql_call ident to_row row_ok from_row) cs (rows_of to_row r) =
           (map (as_read as_stored) (fst (run_calls (mem_call ident) cs r)),
            rows_of to_row (snd (run_calls (mem_call ident) cs r))) \<and>
         list_all storable (repo_list (snd (run_calls (mem_call ident) cs r)))"
  using assms
proof (induction cs arbitrary: r)
  case Nil
  then show ?case by simp
next
  case (Cons c cs)
  have "list_all storable (repo_list (snd (mem_call ident c r)))"
    using Cons.prems call_keeps_storable by simp
  with Cons.IH [of "snd (mem_call ident c r)"] Cons.prems show ?case
    by (simp add: call_refines split_def Let_def)
qed

text \<open>A query whose condition reads a column is the filtered listing.\<close>

lemma query_refines:
  assumes "list_all storable (repo_list r)" and "\<And>e. storable e \<Longrightarrow> P (to_row e) = Q e"
  shows "mapr from_row (sql_where P (rows_of to_row r)) = Inr (map as_stored (filter Q (repo_list r)))"
proof -
  have "sql_where P (rows_of to_row r) = map to_row (filter Q (repo_list r))"
    using assms by (auto simp: sql_where_def filter_map comp_def list_all_iff intro!: arg_cong [where f = "map to_row"] filter_cong)
  moreover have "list_all (\<lambda>e. from_row (to_row e) = Inr (as_stored e)) (filter Q (repo_list r))"
    using assms(1) read_back by (auto simp: list_all_iff)
  ultimately show ?thesis by (simp add: mapr_map_total)
qed

lemma ordered_query_refines:
  assumes "list_all storable (repo_list r)" and "\<And>e. storable e \<Longrightarrow> P (to_row e) = Q e"
  shows "mapr from_row (sql_order_by key (sql_where P (rows_of to_row r))) =
           Inr (map as_stored (sort_key (\<lambda>e. key (to_row e)) (filter Q (repo_list r))))"
proof -
  have "sql_where P (rows_of to_row r) = map to_row (filter Q (repo_list r))"
    using assms by (auto simp: sql_where_def filter_map comp_def list_all_iff intro!: arg_cong [where f = "map to_row"] filter_cong)
  moreover have "list_all (\<lambda>e. from_row (to_row e) = Inr (as_stored e))
      (sort_key (\<lambda>e. key (to_row e)) (filter Q (repo_list r)))"
    using assms(1) read_back by (auto simp: list_all_iff)
  ultimately show ?thesis by (simp add: sql_order_by_def sort_key_map comp_def mapr_map_total)
qed

end

subsection \<open>The three tables\<close>

definition trade_storable :: "trade \<Rightarrow> bool" where
  "trade_storable t = (t_quantity t \<noteq> NaN \<and> t_price t \<noteq> NaN)"

definition trade_as_stored :: "trade \<Rightarrow> trade" where
  "trade_as_stored t =
     t\<lparr>t_filled_quantity := nan_to_zero (t_filled_quantity t),
       t_filled_price := nan_to_zero (t_filled_price t)\<rparr>"

definition position_storable :: "position \<Rightarrow> bool" where
  "position_storable p =
     (p_quantity p \<noteq> NaN \<and> p_entry_price p \<noteq> NaN \<and> p_current_price p \<noteq> NaN \<and> p_pnl p \<noteq> NaN)"

definition position_as_stored :: "position \<Rightarrow> position" where
  "position_as_stored p = p\<lparr>p_realized_pnl := nan_to_zero (p_realized_pnl p)\<rparr>"

definition signal_storable :: "signal \<Rightarrow> bool" where
  "signal_storable s = (signal_post_init s = Inr s)"

interpretation trades_db: codec t_id trade_to_row trade_row_ok trade_from_row trade_storable trade_as_stored
  by unfold_locales
    (simp_all add: trade_storable_def trade_row_ok_def trade_to_row_def bind_float_def
      trade_from_row_def trade_as_stored_def or_zero_def nan_to_zero_def)

interpretation positions_db: codec p_id position_to_row position_row_ok position_from_row
  position_storable position_as_stored
  by unfold_locales
    (simp_all add: position_storable_def position_row_ok_def position_to_row_def bind_float_def
      position_from_row_def position_as_stored_def or_zero_def nan_to_zero_def)

lemma storable_signal_confidence: "signal_storable s \<Longrightarrow> s_confidence s \<noteq> NaN"
  using signal_post_init_confidence [of s s] by (auto simp: signal_storable_def)

interpretation signals_db: codec s_id signal_to_row signal_row_ok signal_from_row signal_storable id
proof
  fix s :: signal
  assume s: "signal_storable s"
  then have "bind_float (s_confidence s) = Some (s_confidence s)"
    by (simp add: bind_float_def storable_signal_confidence)
  with s show "signal_row_ok (signal_to_row s)" and "signal_from_row (signal_to_row s) = Inr (id s)"
    by (cases s; simp add: signal_row_ok_def signal_from_row_def signal_to_row_def signal_storable_def)+
qed

lemma trade_row_columns [simp]:
  "tr_signal_id (trade_to_row t) = t_signal_id t" "tr_market_id (trade_to_row t) = t_market_id t"
  "tr_created_at (trade_to_row t) = t_created_at t"
  "tr_status (trade_to_row t) = status_value (t_status t)"
  by (simp_all add: trade_to_row_def)

lemma status_value_eq_iff [simp]: "status_value s = status_value s' \<longleftrightarrow> s = s'"
  by (cases s; cases s'; simp)

lemma status_value_image [simp]: "status_value s \<in> status_value ` A \<longleftrightarrow> s \<in> A"
  by (auto simp: image_iff)

lemma trade_queries:
  assumes "list_all trade_storable (repo_list r)"
  shows "sql_trades_open (rows_of trade_to_row r) =
           Inr (map trade_as_stored (sort_key t_created_at (trades_get_open r)))"
    and "sql_trades_by_signal k (rows_of trade_to_row r) =
           Inr (map trade_as_stored (sort_key t_created_at (trades_get_by_signal k r)))"
    and "sql_trades_by_market m (rows_of trade_to_row r) =
           Inr (map trade_as_stored (sort_key t_created_at (trades_get_by_market m r)))"
  using trades_db.ordered_query_refines [OF assms, of "\<lambda>row. tr_status row \<in> set (map status_value OPEN_TRADE_STATUSES)"
      "\<lambda>t. t_status t \<in> set OPEN_TRADE_STATUSES" tr_created_at]
    trades_db.ordered_query_refines [OF assms, of "\<lambda>row. tr_signal_id row = k" "\<lambda>t. t_signal_id t = k" tr_created_at]
    trades_db.ordered_query_refines [OF assms, of "\<lambda>row. tr_market_id row = m" "\<lambda>t. t_market_id t = m" tr_created_at]
  by (auto simp: sql_trades_open_def sql_trades_by_signal_def sql_trades_by_market_def
      trades_get_open_def trades_get_by_signal_def trades_get_by_market_def)

lemma find_filter: "List.find P xs = (case filter P xs of [] \<Rightarrow> None | x # _ \<Rightarrow> Some x)"
  by (induction xs) auto

lemma position_queries:
  assumes "list_all position_storable (repo_list r)"
  shows "sql_positions_open (rows_of position_to_row r) = Inr (map position_as_stored (positions_list_open r))"
    and "sql_position_by_market m (rows_of position_to_row r) =
           Inr (map_option position_as_stored (positions_get_by_market m r))"
proof -
  have "(case pr_quantity (position_to_row p) of None \<Rightarrow> False | Some q \<Rightarrow> q \<noteq> 0) = (0 < \<bar>p_quantity p\<bar>)"
    if "position_storable p" for p
    using that by (cases "p_quantity p")
      (auto simp: position_storable_def position_to_row_def bind_float_def zero_eq_Fin abs_float64_def less_float64_def)
  from positions_db.query_refines [OF assms, of "\<lambda>row. case pr_quantity row of None \<Rightarrow> False | Some q \<Rightarrow> q \<noteq> 0"
      "\<lambda>p. 0 < \<bar>p_quantity p\<bar>", OF this]
  show "sql_positions_open (rows_of position_to_row r) = Inr (map position_as_stored (positions_list_open r))"
    by (simp add: sql_positions_open_def positions_list_open_def)
  have "mapr position_from_row (sql_where (\<lambda>row. pr_market_id row = m) (rows_of position_to_row r)) =
      Inr (map position_as_stored (filter (\<lambda>p. p_market_id p = m) (repo_list r)))"
    by (rule positions_db.query_refines [OF assms]) (simp add: position_to_row_def)
  then show "sql_position_by_market m (rows_of position_to_row r) =
      Inr (map_option position_as_stored (positions_get_by_market m r))"
    by (cases "sql_where (\<lambda>row. pr_market_id row = m) (rows_of position_to_row r)";
        cases "filter (\<lambda>p. p_market_id p = m) (repo_list r)")
      (auto simp: sql_position_by_market_def positions_get_by_market_def find_filter elim!: rbind_eq_InrE)
qed

lemma filter_sort_key: "filter P (sort_key key es) = sort_key key (filter P es)"
  by (rule filter_sort)

lemma signal_queries:
  assumes "list_all signal_storable (repo_list r)"
  shows "sql_signals_active now m (rows_of signal_to_row r) =
           Inr (sort_key (\<lambda>s. - s_generated_at s) (signals_get_active now m r))"
    and "sql_signals_by_strategy k (rows_of signal_to_row r) =
           Inr (sort_key (\<lambda>s. - s_generated_at s) (signals_get_by_strategy k r))"
    and "sql_signals_range m a b (rows_of signal_to_row r) =
           Inr (sort_key s_generated_at (signals_get_range m a b r))"
  using signals_db.ordered_query_refines [OF assms, of "\<lambda>row. sr_market_id row = m \<and> now < sr_expires_at row"
      "\<lambda>s. s_market_id s = m \<and> now < s_expires_at s" "\<lambda>row. - sr_generated_at row"]
    signals_db.ordered_query_refines [OF assms, of "\<lambda>row. sr_strategy_id row = k" "\<lambda>s. s_strategy_id s = k"
      "\<lambda>row. - sr_generated_at row"]
    signals_db.ordered_query_refines [OF assms, of
      "\<lambda>row. sr_market_id row = m \<and> a \<le> sr_generated_at row \<and> sr_generated_at row \<le> b"
      "\<lambda>s. s_market_id s = m \<and> a \<le> s_generated_at s \<and> s_generated_at s \<le> b" sr_generated_at]
  by (simp_all add: sql_signals_range_def signals_get_range_def sql_signals_active_def sql_signals_by_strategy_def signals_get_active_def
      signals_get_by_strategy_def signal_to_row_def filter_sort conj_commute cong: conj_cong)

subsection \<open>What the services may rely on\<close>

abbreviation sql_trade_call ::
  "trade repo_call \<Rightarrow> trade_row sql_table \<Rightarrow> trade repo_answer \<times> trade_row sql_table" where
  "sql_trade_call \<equiv> sql_call t_id trade_to_row trade_row_ok trade_from_row"

text \<open>
  C5. The durable trade store is a faithful stand-in for the in-memory one.  Take any list of
  calls that adds only new ids, updates only stored ones and writes only trades whose
  quantity and price are numbers: every answer is the in-memory answer as the table keeps it
  (a fill that is not a number reads back as zero), the table is the encoded store, and the
  three queries answer what the in-memory ones do, oldest first.
\<close>

theorem sql_trades_refine_memory:
  assumes "fits_run t_id trade_storable cs []"
  shows "let (answers, r) = run_calls (mem_call t_id) cs [];
             (sql_answers, tab) = run_calls sql_trade_call cs [] in
         sql_answers = map (as_read trade_as_stored) answers \<and>
         tab = rows_of trade_to_row r \<and>
         sql_trades_open tab = Inr (map trade_as_stored (sort_key t_created_at (trades_get_open r))) \<and>
         sql_trades_by_signal k tab = Inr (map trade_as_stored (sort_key t_created_at (trades_get_by_signal k r))) \<and>
         sql_trades_by_market m tab = Inr (map trade_as_stored (sort_key t_created_at (trades_get_by_market m r)))"
  using trades_db.run_refines [of "[]" cs] assms
  by (cases "run_calls (mem_call t_id) cs []") (auto simp: rows_of_def [of _ "[]"] repo_list_def [of "[]"] trade_queries)

definition sample_trade :: trade where
  "sample_trade = new_trade ''t'' 5 ''s'' ''m'' BUY 1 1"

theorem sql_trades_refine_memory_witness:
  "let cs = [RAdd sample_trade, RUpdate (sample_trade\<lparr>t_status := SUBMITTED\<rparr>), RGet ''t''] in
     fits_run t_id trade_storable cs [] \<and>
     fst (run_calls sql_trade_call cs []) = map (as_read trade_as_stored) (fst (run_calls (mem_call t_id) cs []))"
proof -
  let ?cs = "[RAdd sample_trade, RUpdate (sample_trade\<lparr>t_status := SUBMITTED\<rparr>), RGet ''t'']"
  have "fits_run t_id trade_storable ?cs []"
    by (simp add: sample_trade_def new_trade_def trade_storable_def repo_get_def repo_add_def
        repo_update_def one_eq_Fin)
  with sql_trades_refine_memory [of ?cs] show ?thesis by (auto simp: split_def Let_def)
qed

text \<open>
  Where the two implementations part: adding an id that is stored overwrites in memory and is
  an \<open>IntegrityError\<close> in SQLite; updating an id that is not stored inserts in memory, while
  SQLite answers with the entity and keeps nothing, so the next read does not find it.
\<close>

theorem sql_departs_from_memory:
  assumes "tab = rows_of trade_to_row r"
  shows "if repo_get (t_id t) r = None
         then run_calls (mem_call t_id) [RUpdate t, RGet (t_id t)] r =
                ([Entity t, Found (Some t)], store_put t_id t r) \<and>
              run_calls sql_trade_call [RUpdate t, RGet (t_id t)] tab = ([Entity t, Found None], tab)
         else run_calls (mem_call t_id) [RAdd t, RGet (t_id t)] r =
                ([Entity t, Found (Some t)], store_put t_id t r) \<and>
              fst (sql_trade_call (RAdd t) tab) = Raised IntegrityError \<and>
              snd (sql_trade_call (RAdd t) tab) = tab"
proof -
  have keys: "t_id t \<in> set (dict_keys tab) \<longleftrightarrow> repo_get (t_id t) r \<noteq> None"
    unfolding assms keys_rows_of by (rule in_keys_iff)
  have "repo_get (t_id t) (store_put t_id t r) = Some t" by (simp add: mem.fetch_put)
  with keys assms show ?thesis
    by (auto simp: sql_update_def sql_add_def sql_get_def repo_add_put repo_update_put Let_def simp del: set_map)
qed

theorem sql_departs_from_memory_witness:
  "fst (run_calls sql_trade_call [RUpdate sample_trade, RGet ''t''] []) = [Entity sample_trade, Found None]"
  using sql_departs_from_memory [of "[]" "[]" sample_trade]
  by (simp add: rows_of_def sample_trade_def new_trade_def repo_get_def)

end
