(* ===== verification/StreamCollector.thy ===== *)
theory StreamCollector
  imports MarketStream Money "HOL-Library.Char_ord" "HOL-Library.List_Lexorder" "HOL-Library.Sublist"
begin

text \<open>
  \<open>infrastructure/collectors/streaming_collector.py\<close>: the candles of the stream as a
  collector, and their reconciliation with the exchange after a reconnection.

  The stream's thread runs every operation but the reads, one after the other, so the lock
  is left out; the observers are passive.  A \<open>Decimal\<close> is a rational and an operation on two
  rounds its exact result to the 28 digits of the default context.  The REST collector is the
  parameter \<open>rest\<close>: what it answers for a symbol, an interval and a limit, or the exception.
\<close>

subsection \<open>Decimals and rows\<close>

definition dec_context :: "rat \<Rightarrow> rat" where
  "dec_context x =
     (if x = 0 then 0
      else case quotient_of x of (n, d) \<Rightarrow>
        let k = 28 - (int (ndigits \<bar>n\<bar>) - int (ndigits d));
            k' = (if 10 ^ 28 \<le> \<bar>x\<bar> * 10 powi k then k - 1 else k) in
        of_int (round_half_even (x * 10 powi k')) / 10 powi k')"

definition upper_char :: "char \<Rightarrow> char" where
  "upper_char c = (if 97 \<le> char_code c \<and> char_code c \<le> 122 then char_of (of_char c - 32 :: nat) else c)"

definition upper :: "string \<Rightarrow> string" where
  "upper s = map upper_char s"

record ohlcv =
  oh_open :: rat
  oh_high :: rat
  oh_low :: rat
  oh_close :: rat
  oh_volume :: rat
  oh_timestamp :: datetime
  oh_symbol :: string

definition to_ohlcv :: "stream_candle \<Rightarrow> ohlcv" where
  "to_ohlcv c =
     \<lparr>oh_open = sc_open c, oh_high = sc_high c, oh_low = sc_low c, oh_close = sc_close c, oh_volume = sc_volume c,
      oh_timestamp = sc_start c * 1000000, oh_symbol = sc_symbol c\<rparr>"

definition BINANCE_INTERVALS :: "(int \<times> string) list" where
  "BINANCE_INTERVALS = [(60, ''1m''), (180, ''3m''), (300, ''5m''), (900, ''15m''), (1800, ''30m''), (3600, ''1h''),
     (14400, ''4h''), (86400, ''1d'')]"

type_synonym rest = "string \<Rightarrow> string \<Rightarrow> int \<Rightarrow> ohlcv list res"

record stream_collector =
  co_aggregator :: aggregator
  co_tolerance :: float64
  co_snapshot :: "(string \<times> ohlcv list) list"
  co_ticks_seen :: nat
  co_resyncs :: nat
  co_gaps_filled :: nat
  co_divergences :: nat
  co_failures :: nat
  co_mopup_until :: datetime
  co_last_mopup :: datetime

definition new_collector :: "int \<Rightarrow> stream_collector" where
  "new_collector interval =
     \<lparr>co_aggregator = new_aggregator interval, co_tolerance = Fin 5, co_snapshot = [], co_ticks_seen = 0, co_resyncs = 0,
      co_gaps_filled = 0, co_divergences = 0, co_failures = 0, co_mopup_until = - 62135596800000000,
      co_last_mopup = - 62135596800000000\<rparr>"

subsection \<open>Reconciliation\<close>

definition rel_bps :: "rat \<Rightarrow> rat \<Rightarrow> float64" where
  "rel_bps a b =
     (if b = 0 then (if a = 0 then 0 else PosInf)
      else rnd (dec_context (\<bar>dec_context (dec_context (a - b) / b)\<bar> * 10000)))"

definition diverges :: "float64 \<Rightarrow> ohlcv \<Rightarrow> ohlcv \<Rightarrow> bool" where
  "diverges tol cached truth \<longleftrightarrow>
     list_ex (\<lambda>f. tol < rel_bps (f cached) (f truth)) [oh_open, oh_high, oh_low, oh_close, oh_volume]"

definition row_key :: "ohlcv \<Rightarrow> int" where
  "row_key r = epoch_seconds (oh_timestamp r)"

text \<open>The authoritative rows: of the symbol, fully closed, not older than the cache.\<close>

definition authoritative :: "string \<Rightarrow> datetime \<Rightarrow> int \<Rightarrow> datetime \<Rightarrow> ohlcv list \<Rightarrow> ohlcv list" where
  "authoritative sy now interval oldest rows =
     filter (\<lambda>t. upper (oh_symbol t) = upper sy \<and> Fin (of_int interval) \<le> total_seconds (now - oh_timestamp t) \<and>
       oldest \<le> oh_timestamp t) rows"

text \<open>The loop over the truth: the rows by second, the gaps filled and the divergences replaced.\<close>

fun merge_truth :: "float64 \<Rightarrow> ohlcv list \<Rightarrow> (int \<times> ohlcv) list \<times> nat \<times> nat \<Rightarrow> (int \<times> ohlcv) list \<times> nat \<times> nat" where
  "merge_truth tol [] acc = acc"
| "merge_truth tol (t # ts) (merged, gaps, divs) =
     (case map_of merged (row_key t) of
        None \<Rightarrow> merge_truth tol ts (AList.update (row_key t) t merged, gaps + 1, divs)
      | Some cached \<Rightarrow>
          if diverges tol cached t then merge_truth tol ts (AList.update (row_key t) t merged, gaps, divs + 1)
          else merge_truth tol ts (merged, gaps, divs))"

definition by_second :: "ohlcv list \<Rightarrow> (int \<times> ohlcv) list" where
  "by_second bucket = fold (\<lambda>c. AList.update (row_key c) c) bucket []"

definition rows_in_order :: "(int \<times> ohlcv) list \<Rightarrow> ohlcv list" where
  "rows_in_order merged = map (\<lambda>k. the (map_of merged k)) (sort (dict_keys merged))"

definition reconcile_rows :: "float64 \<Rightarrow> ohlcv list \<Rightarrow> ohlcv list \<Rightarrow> ohlcv list \<times> nat \<times> nat" where
  "reconcile_rows tol bucket truth =
     (case merge_truth tol truth (by_second bucket, 0, 0) of (merged, gaps, divs) \<Rightarrow>
        (if gaps + divs \<noteq> 0 \<or> length merged \<noteq> length bucket then rows_in_order merged else bucket, gaps, divs))"

definition rows_needed :: "int \<Rightarrow> datetime \<Rightarrow> int \<Rightarrow> datetime \<Rightarrow> int" where
  "rows_needed limit_cap now interval oldest = min limit_cap (epoch_seconds (now - oldest) div interval + 2)"

definition reconcile_symbol :: "rest \<Rightarrow> string \<Rightarrow> datetime \<Rightarrow> string \<Rightarrow> stream_collector \<Rightarrow> stream_collector" where
  "reconcile_symbol fetch interval_name now sy co =
     (case dict_get (co_snapshot co) sy [] of
        [] \<Rightarrow> co
      | row # rows \<Rightarrow>
          let bucket = row # rows; interval = ag_interval (co_aggregator co); oldest = oh_timestamp row in
          (case fetch sy interval_name (rows_needed 120 now interval oldest) of
             Inl e \<Rightarrow> co\<lparr>co_failures := co_failures co + 1\<rparr>
           | Inr answer \<Rightarrow>
               let truth = authoritative sy now interval oldest answer in
               if truth = [] then co
               else case reconcile_rows (co_tolerance co) bucket truth of (rows', gaps, divs) \<Rightarrow>
                      co\<lparr>co_snapshot := AList.update sy rows' (co_snapshot co), co_gaps_filled := co_gaps_filled co + gaps,
                         co_divergences := co_divergences co + divs\<rparr>))"

definition reconcile_resync :: "rest option \<Rightarrow> datetime \<Rightarrow> stream_collector \<Rightarrow> stream_collector" where
  "reconcile_resync rest now co =
     (case (rest, map_of BINANCE_INTERVALS (ag_interval (co_aggregator co))) of
        (Some fetch, Some name) \<Rightarrow> fold (reconcile_symbol fetch name now) (sort (dict_keys (co_snapshot co))) co
      | _ \<Rightarrow> co\<lparr>co_failures := co_failures co + 1\<rparr>)"

definition handle_reconnect :: "rest option \<Rightarrow> datetime \<Rightarrow> stream_collector \<Rightarrow> stream_collector" where
  "handle_reconnect rest now co =
     reconcile_resync rest now
       (co\<lparr>co_resyncs := co_resyncs co + 1, co_mopup_until := now + 2 * ag_interval (co_aggregator co) * 1000000\<rparr>)"

subsection \<open>Ticks and reads\<close>

definition on_tick :: "rest option \<Rightarrow> datetime \<Rightarrow> market_tick \<Rightarrow> stream_collector \<Rightarrow> stream_collector" where
  "on_tick rest now t co0 =
     (case agg_add t (co_aggregator co0) of (candle, ag) \<Rightarrow>
        let co = co0\<lparr>co_ticks_seen := co_ticks_seen co0 + 1, co_aggregator := ag\<rparr> in
        case candle of
          None \<Rightarrow> co
        | Some c \<Rightarrow>
            let bucket = last_n 512 (dict_get (co_snapshot co) (sc_symbol c) [] @ [to_ohlcv c]);
                co1 = co\<lparr>co_snapshot := AList.update (sc_symbol c) bucket (co_snapshot co)\<rparr> in
            if now < co_mopup_until co1 \<and> Fin (of_int (ag_interval ag)) \<le> total_seconds (now - co_last_mopup co1)
            then reconcile_resync rest now (co1\<lparr>co_last_mopup := now\<rparr>) else co1)"

text \<open>\<open>fetch_historical\<close>: the stream's rows, or the REST answer while they are few.\<close>

definition live_slice :: "int \<Rightarrow> 'a list \<Rightarrow> 'a list" where
  "live_slice limit xs =
     (if limit = 0 then xs else if 0 < limit then last_n (nat limit) xs else drop (nat (- limit)) xs)"

definition collector_fetch :: "rest option \<Rightarrow> string \<Rightarrow> string \<Rightarrow> int \<Rightarrow> stream_collector \<Rightarrow> ohlcv list res" where
  "collector_fetch rest sy interval_name limit co =
     (let live = dict_get (co_snapshot co) (upper sy) [] in
      case rest of
        Some fetch \<Rightarrow>
          if int (length live) < max (limit div 2) 2
          then rbind (fetch sy interval_name limit) (\<lambda>rows. Inr (if rows \<noteq> [] then rows else live_slice limit live))
          else Inr (live_slice limit live)
      | None \<Rightarrow> Inr (live_slice limit live))"

definition stale_seconds :: "datetime \<Rightarrow> stream_collector \<Rightarrow> float64" where
  "stale_seconds now co =
     (case map (\<lambda>b. oh_timestamp (last b)) (filter (\<lambda>b. b \<noteq> []) (dict_values (co_snapshot co))) of
        [] \<Rightarrow> PosInf
      | ts \<Rightarrow> total_seconds (now - Max (set ts)))"

subsection \<open>The cache converges to the truth\<close>

lemma rel_bps_self [simp]: "rel_bps a a = 0"
  by (simp add: rel_bps_def dec_context_def zero_eq_Fin rnd_of_int [of 0, simplified])

lemma no_self_divergence: "0 \<le> tol \<Longrightarrow> \<not> diverges tol r r"
  by (cases tol) (auto simp: diverges_def zero_eq_Fin)

definition row_at :: "int \<Rightarrow> ohlcv list \<Rightarrow> ohlcv option" where
  "row_at k rows = map_of (by_second rows) k"

lemma by_second_snoc: "by_second (rows @ [r]) = AList.update (row_key r) r (by_second rows)"
  by (simp add: by_second_def)

lemma row_at_last: "row_at k rows = find (\<lambda>r. row_key r = k) (rev rows)"
  by (induction rows rule: rev_induct) (auto simp: row_at_def by_second_snoc by_second_def)

text \<open>A table of rows: distinct seconds, each row under its own.\<close>

definition seconds_ok :: "(int \<times> ohlcv) list \<Rightarrow> bool" where
  "seconds_ok m \<longleftrightarrow> distinct (dict_keys m) \<and> (\<forall>k r. map_of m k = Some r \<longrightarrow> row_key r = k)"

lemma seconds_ok_update: "seconds_ok m \<Longrightarrow> seconds_ok (AList.update (row_key r) r m)"
  by (simp add: seconds_ok_def)

lemma seconds_ok_by_second: "seconds_ok (by_second rows)"
  by (induction rows rule: rev_induct) (simp_all add: by_second_snoc seconds_ok_update, simp add: by_second_def seconds_ok_def)

lemma merge_truth_effect:
  assumes "distinct (map row_key ts)" and "seconds_ok m" and "merge_truth tol ts (m, g, d) = (m', g', d')"
  shows "seconds_ok m' \<and> g \<le> g' \<and> d \<le> d' \<and> (g' + d' = g + d \<longrightarrow> m' = m) \<and>
    map_of m' k = (case find (\<lambda>t. row_key t = k) ts of
        None \<Rightarrow> map_of m k
      | Some t \<Rightarrow> (case map_of m k of None \<Rightarrow> Some t | Some c \<Rightarrow> Some (if diverges tol c t then t else c)))"
  using assms
proof (induction ts arbitrary: m g d)
  case Nil
  then show ?case by simp
next
  case (Cons t ts)
  have "row_key t \<notin> row_key ` set ts" using Cons.prems(1) by simp
  then have absent: "find (\<lambda>u. row_key u = row_key t) ts = None" unfolding find_None_iff by (metis imageI)
  note up = seconds_ok_update [OF Cons.prems(2), of t]
  show ?case
  proof (cases "map_of m (row_key t)")
    case None
    then have "merge_truth tol ts (AList.update (row_key t) t m, g + 1, d) = (m', g', d')" using Cons.prems(3) by simp
    from Cons.IH [OF _ up this] Cons.prems(1) show ?thesis using None absent by (auto split: option.splits)
  next
    case (Some c)
    show ?thesis
    proof (cases "diverges tol c t")
      case True
      then have "merge_truth tol ts (AList.update (row_key t) t m, g, d + 1) = (m', g', d')" using Cons.prems(3) Some by simp
      from Cons.IH [OF _ up this] Cons.prems(1) show ?thesis using Some True absent by (auto split: option.splits)
    next
      case False
      then have "merge_truth tol ts (m, g, d) = (m', g', d')" using Cons.prems(3) Some by simp
      from Cons.IH [OF _ Cons.prems(2) this] Cons.prems(1) show ?thesis using Some False absent by (auto split: option.splits)
    qed
  qed
qed

lemma by_second_distinct: "distinct (map row_key rows) \<Longrightarrow> by_second rows = map (\<lambda>r. (row_key r, r)) rows"
proof (induction rows rule: rev_induct)
  case Nil
  then show ?case by (simp add: by_second_def)
next
  case (snoc r rows)
  then have "row_key r \<notin> set (dict_keys (by_second rows))" by auto
  then show ?case using snoc by (simp add: by_second_snoc update_new)
qed

lemma in_order_rows:
  assumes "seconds_ok m"
  shows "map row_key (rows_in_order m) = sort (dict_keys m)" and "row_at k (rows_in_order m) = map_of m k"
    and "length (by_second (rows_in_order m)) = length (rows_in_order m)"
proof -
  have own: "row_key (the (map_of m j)) = j" if "j \<in> set (dict_keys m)" for j
    using assms that by (force simp: seconds_ok_def dest: weak_map_of_SomeI)
  have "map (\<lambda>j. row_key (the (map_of m j))) (sort (dict_keys m)) = map (\<lambda>j. j) (sort (dict_keys m))"
    by (rule map_cong) (use own in auto)
  then show keys: "map row_key (rows_in_order m) = sort (dict_keys m)"
    by (simp add: rows_in_order_def o_def)
  have "distinct (map row_key (rows_in_order m))" using assms keys by (simp add: seconds_ok_def)
  note table = by_second_distinct [OF this]
  show "length (by_second (rows_in_order m)) = length (rows_in_order m)" by (simp add: table)
  have dist: "distinct (map fst (by_second (rows_in_order m)))" using assms keys by (simp add: table o_def seconds_ok_def)
  show "row_at k (rows_in_order m) = map_of m k"
  proof (cases "k \<in> set (dict_keys m)")
    case True
    then obtain r where r: "map_of m k = Some r" by (auto dest: weak_map_of_SomeI)
    have "r \<in> set (rows_in_order m)" using True r by (force simp: rows_in_order_def)
    then have "(k, r) \<in> set (by_second (rows_in_order m))" using r own [OF True] by (auto simp: table)
    then show ?thesis using dist r by (simp add: row_at_def)
  next
    case False
    have "set (dict_keys (by_second (rows_in_order m))) = set (dict_keys m)"
      using keys by (metis (no_types, lifting) table list.map_comp map_eq_conv o_def fst_conv set_sort)
    then have "map_of (by_second (rows_in_order m)) k = None" "map_of m k = None"
      using False unfolding map_of_eq_None_iff set_map by blast+
    then show ?thesis by (simp add: row_at_def)
  qed
qed

text \<open>What a reconciliation keeps of the cache, and what it takes from the truth.\<close>

lemma reconcile_effect:
  assumes "distinct (map row_key truth)" and "reconcile_rows tol bucket truth = (rows', gaps, divs)"
  shows "row_at k rows' = (case find (\<lambda>t. row_key t = k) truth of
      None \<Rightarrow> row_at k bucket
    | Some t \<Rightarrow> (case row_at k bucket of None \<Rightarrow> Some t | Some c \<Rightarrow> Some (if diverges tol c t then t else c)))"
    and "length (by_second rows') = length rows'"
    and "sorted_wrt (<) (map row_key rows') \<or> rows' = bucket"
proof -
  obtain m where merge: "merge_truth tol truth (by_second bucket, 0, 0) = (m, gaps, divs)"
    and rows': "rows' = (if gaps + divs \<noteq> 0 \<or> length m \<noteq> length bucket then rows_in_order m else bucket)"
    using assms(2) by (auto simp: reconcile_rows_def split: prod.splits)
  note eff = merge_truth_effect [OF assms(1) seconds_ok_by_second merge]
  have ok: "seconds_ok m" and same: "gaps + divs = 0 \<longrightarrow> m = by_second bucket" using eff by auto
  note ord = in_order_rows [OF ok]
  have at: "row_at k rows' = map_of m k" for k
    using ord(2) same rows' by (auto simp: row_at_def)
  then show "row_at k rows' = (case find (\<lambda>t. row_key t = k) truth of
      None \<Rightarrow> row_at k bucket
    | Some t \<Rightarrow> (case row_at k bucket of None \<Rightarrow> Some t | Some c \<Rightarrow> Some (if diverges tol c t then t else c)))"
    unfolding at using merge_truth_effect [OF assms(1) seconds_ok_by_second merge, of k] unfolding row_at_def by blast
  show "length (by_second rows') = length rows'" using ord(3) same rows' by auto
  show "sorted_wrt (<) (map row_key rows') \<or> rows' = bucket"
    using ord(1) ok rows' by (auto simp: seconds_ok_def strict_sorted_iff)
qed

lemma merge_agreeing:
  "\<forall>t \<in> set ts. \<exists>c. map_of m (row_key t) = Some c \<and> \<not> diverges tol c t \<Longrightarrow> merge_truth tol ts (m, g, d) = (m, g, d)"
  by (induction ts arbitrary: g d) auto


definition sample_row :: "int \<Rightarrow> rat \<Rightarrow> ohlcv" where
  "sample_row seconds price =
     \<lparr>oh_open = price, oh_high = price, oh_low = price, oh_close = price, oh_volume = 1, oh_timestamp = seconds * 1000000,
      oh_symbol = ''BTCUSDT''\<rparr>"


subsection \<open>Reads\<close>

text \<open>
  No row is made up: a read answers the REST rows unchanged, or rows of the live cache of the
  symbol, the latest ones in order and no more than asked for.
\<close>

theorem reads_are_real:
  "case collector_fetch rest sy name limit co of
     Inl e \<Rightarrow> (case rest of None \<Rightarrow> False | Some fetch \<Rightarrow> fetch sy name limit = Inl e)
   | Inr rows \<Rightarrow>
       (case rest of None \<Rightarrow> False | Some fetch \<Rightarrow> fetch sy name limit = Inr rows) \<or>
       suffix rows (dict_get (co_snapshot co) (upper sy) []) \<and> (if 0 < limit then int (length rows) \<le> limit else True)"
proof -
  have "suffix (live_slice limit xs) xs \<and> (if 0 < limit then int (length (live_slice limit xs)) \<le> limit else True)" for xs :: "ohlcv list"
    by (auto simp: live_slice_def last_n_def suffix_drop)
  then show ?thesis
    by (cases rest) (auto simp: collector_fetch_def Let_def rbind_def split: sum.splits)
qed

end
