(* ===== verification/Supervision.thy ===== *)
theory Supervision
  imports Daemon
begin

text \<open>
  \<open>infrastructure/supervision.py\<close>, the heartbeat watchdog, and the control of
  \<open>DaemonController.run_forever\<close>: the stop signal, the drain and the loop conditions.

  The heartbeat file is the list of its non-blank lines, a line that does not parse being
  \<open>Torn\<close>.  A Python signal handler runs between two steps of the main thread, so a run is a
  sequence of the thread's steps with signals anywhere between them; instants of
  \<open>time.monotonic()\<close> are arguments of the steps that read them.
\<close>

subsection \<open>Heartbeats\<close>

datatype beat_action = Heartbeat | ShutdownMark

record heartbeat_record =
  hb_ts :: datetime
  hb_pid :: int
  hb_action :: beat_action
  hb_component :: string

datatype beat_line = Beat heartbeat_record | Torn

type_synonym beat_file = "beat_line list"

definition last_beat :: "beat_file \<Rightarrow> heartbeat_record option" where
  "last_beat f = (if f = [] then None else case last f of Beat r \<Rightarrow> Some r | Torn \<Rightarrow> None)"

record supervisor =
  sv_file :: beat_file
  sv_pid :: int
  sv_stale_after :: float64
  sv_deaths :: int
  sv_notes :: "(level \<times> string \<times> fstring) list"
  sv_audit :: "(string \<times> fstring) list"
  sv_counted :: nat

definition new_supervisor :: "beat_file \<Rightarrow> int \<Rightarrow> supervisor" where
  "new_supervisor f pid =
     \<lparr>sv_file = f, sv_pid = pid, sv_stale_after = Fin 300, sv_deaths = 0, sv_notes = [], sv_audit = [], sv_counted = 0\<rparr>"

definition append_beat :: "datetime \<Rightarrow> beat_action \<Rightarrow> string \<Rightarrow> supervisor \<Rightarrow> supervisor" where
  "append_beat now action component sv =
     sv\<lparr>sv_file := sv_file sv @ [Beat \<lparr>hb_ts = now, hb_pid = sv_pid sv, hb_action = action, hb_component = component\<rparr>]\<rparr>"

definition heartbeat :: "datetime \<Rightarrow> string \<Rightarrow> supervisor \<Rightarrow> supervisor" where
  "heartbeat now = append_beat now Heartbeat"

definition mark_clean_shutdown :: "datetime \<Rightarrow> string \<Rightarrow> supervisor \<Rightarrow> supervisor" where
  "mark_clean_shutdown now = append_beat now ShutdownMark"

definition check_unclean_shutdown :: "datetime \<Rightarrow> string \<Rightarrow> supervisor \<Rightarrow> bool \<times> supervisor" where
  "check_unclean_shutdown now component sv =
     (case last_beat (sv_file sv) of
        None \<Rightarrow> (False, sv)
      | Some r \<Rightarrow>
          if hb_action r = ShutdownMark then (False, sv)
          else
          let age = total_seconds (now - hb_ts r) in
          if age \<le> sv_stale_after sv then (False, sv)
          else
          let msg = [L ''previous process (pid='', Z (hb_pid r), L '') heartbeat is '', FX 0 age,
                     L ''s old with no clean shutdown'', L '' - it was likely killed. Verify broker state.''] in
          (True, sv\<lparr>sv_deaths := sv_deaths sv + 1,
                    sv_notes := sv_notes sv @ [(CRITICAL, ''Unclean Process Death'', msg)],
                    sv_audit := sv_audit sv @ [(component, msg)], sv_counted := sv_counted sv + 1\<rparr>))"

text \<open>
  The life of a process that is killed: it starts (the check, then a beat), beats, and leaves
  no marker.  A crash loop is a list of lives, each over the file the one before it left.
\<close>

definition supervised_start :: "datetime \<Rightarrow> supervisor \<Rightarrow> bool \<times> supervisor" where
  "supervised_start now sv =
     (case check_unclean_shutdown now ''daemon'' sv of (found, sv1) \<Rightarrow> (found, heartbeat now ''daemon'' sv1))"

type_synonym life = "datetime \<times> datetime list"

definition live_and_die :: "life \<Rightarrow> supervisor \<Rightarrow> bool \<times> supervisor" where
  "live_and_die l sv =
     (case supervised_start (fst l) sv of (found, sv1) \<Rightarrow> (found, fold (\<lambda>t. heartbeat t ''daemon'') (snd l) sv1))"

fun crash_loop :: "life list \<Rightarrow> supervisor \<Rightarrow> bool list \<times> supervisor" where
  "crash_loop [] sv = ([], sv)"
| "crash_loop (l # ls) sv =
     (case live_and_die l sv of (found, sv1) \<Rightarrow> (case crash_loop ls sv1 of (fs, sv2) \<Rightarrow> (found # fs, sv2)))"

definition last_of_life :: "life \<Rightarrow> datetime" where
  "last_of_life l = (if snd l = [] then fst l else last (snd l))"

fun restarts_within :: "int \<Rightarrow> datetime \<Rightarrow> life list \<Rightarrow> bool" where
  "restarts_within w t [] = True"
| "restarts_within w t (l # ls) = (fst l - t \<le> w \<and> restarts_within w (last_of_life l) ls)"

lemma last_beat_append [simp]:
  "last_beat (sv_file (append_beat now a c sv)) = Some \<lparr>hb_ts = now, hb_pid = sv_pid sv, hb_action = a, hb_component = c\<rparr>"
  by (simp add: last_beat_def append_beat_def)

lemma append_beat_frame [simp]:
  "sv_deaths (append_beat now a c sv) = sv_deaths sv" "sv_stale_after (append_beat now a c sv) = sv_stale_after sv"
  "sv_pid (append_beat now a c sv) = sv_pid sv" "sv_notes (append_beat now a c sv) = sv_notes sv"
  by (simp_all add: append_beat_def)

lemma heartbeat_frame [simp]:
  "sv_deaths (heartbeat now c sv) = sv_deaths sv" "sv_stale_after (heartbeat now c sv) = sv_stale_after sv"
  by (simp_all add: heartbeat_def)

lemma young_beat: "us \<le> 300000000 \<Longrightarrow> total_seconds us \<le> Fin 300"
proof -
  assume "us \<le> 300000000"
  then have "of_int us \<le> (of_int 300000000 :: rat)" by (simp only: of_int_le_iff)
  then have "(of_int us / 1000000 :: rat) \<le> of_int 300" by (simp add: divide_le_eq)
  from rnd_mono [OF this] show ?thesis using rnd_of_int [of 300] by (simp add: total_seconds_def)
qed

lemma beats_after:
  "last_beat (sv_file sv) = Some r \<Longrightarrow> hb_action r = Heartbeat \<Longrightarrow>
   \<exists>r'. last_beat (sv_file (fold (\<lambda>t. heartbeat t ''daemon'') ts sv)) = Some r' \<and> hb_action r' = Heartbeat \<and>
        hb_ts r' = (if ts = [] then hb_ts r else last ts)"
  by (induction ts arbitrary: sv r) (auto simp: heartbeat_def)

lemma beats_frame [simp]:
  "sv_deaths (fold (\<lambda>t. heartbeat t c) ts sv) = sv_deaths sv"
  "sv_stale_after (fold (\<lambda>t. heartbeat t c) ts sv) = sv_stale_after sv"
  by (induction ts arbitrary: sv) (simp_all add: heartbeat_def)

lemma quick_life:
  assumes "last_beat (sv_file sv) = Some r" and "hb_action r = Heartbeat" and "sv_stale_after sv = Fin 300"
    and "fst l - hb_ts r \<le> 300000000"
  shows "\<exists>sv' r'. live_and_die l sv = (False, sv') \<and> sv_deaths sv' = sv_deaths sv \<and> sv_stale_after sv' = Fin 300 \<and>
           last_beat (sv_file sv') = Some r' \<and> hb_action r' = Heartbeat \<and> hb_ts r' = last_of_life l"
proof -
  have start: "supervised_start (fst l) sv = (False, heartbeat (fst l) ''daemon'' sv)"
    using assms young_beat by (simp add: supervised_start_def check_unclean_shutdown_def Let_def)
  obtain r' where "last_beat (sv_file (fold (\<lambda>t. heartbeat t ''daemon'') (snd l) (heartbeat (fst l) ''daemon'' sv))) = Some r'"
    "hb_action r' = Heartbeat" "hb_ts r' = last_of_life l"
    using beats_after [of "heartbeat (fst l) ''daemon'' sv" _ "snd l"] by (auto simp: heartbeat_def last_of_life_def)
  then show ?thesis using start assms(3) by (auto simp: live_and_die_def)
qed

text \<open>
  A crash loop is never reported: when every restart comes within three hundred seconds of the
  last beat of the killed process before it, as under a process manager that restarts at once,
  no start finds an unclean death, however many processes died and none of them shut down.
\<close>

theorem crash_loop_never_reported:
  assumes "last_beat (sv_file sv) = Some r" and "hb_action r = Heartbeat" and "sv_stale_after sv = Fin 300"
    and "restarts_within 300000000 (hb_ts r) ls"
  shows "\<exists>sv'. crash_loop ls sv = (replicate (length ls) False, sv') \<and> sv_deaths sv' = sv_deaths sv"
  using assms
proof (induction ls arbitrary: sv r)
  case (Cons l ls)
  then obtain sv1 r1 where one: "live_and_die l sv = (False, sv1)" "sv_deaths sv1 = sv_deaths sv"
      "sv_stale_after sv1 = Fin 300" "last_beat (sv_file sv1) = Some r1" "hb_action r1 = Heartbeat"
      "hb_ts r1 = last_of_life l"
    using quick_life [of sv r l] by auto
  then obtain sv2 where "crash_loop ls sv1 = (replicate (length ls) False, sv2)" "sv_deaths sv2 = sv_deaths sv1"
    using Cons.IH [of sv1 r1] Cons.prems(4) by auto
  then show ?case using one by simp
qed simp

theorem crash_loop_never_reported_witness:
  "fst (crash_loop [(10000000, [20000000]), (30000000, [])]
     (heartbeat 0 ''daemon'' (new_supervisor [] 1))) = [False, False]"
  using crash_loop_never_reported [of "heartbeat 0 ''daemon'' (new_supervisor [] 1)" _ "[(10000000, [20000000]), (30000000, [])]"]
  by (auto simp: heartbeat_def new_supervisor_def last_of_life_def numeral_2_eq_2)


subsection \<open>Stop signals and the loop\<close>

text \<open>
  Where the main thread is: before the test of the startup block, inside it, at the head of
  the loop, inside a round, or out of the loop.  The lease is the daemon's view of its own
  leadership; the cycles are the markets whose cycle was started, in order.
\<close>

datatype phase = Entered | StartingUp | LoopHead | InRound | LeftLoop

record control =
  ct_phase :: phase
  ct_running :: bool
  ct_shutdown_at :: "float64 option"
  ct_graceful :: bool
  ct_lease :: bool
  ct_in_cycle :: "uuid option"
  ct_cycles :: "uuid list"
  ct_supervisor :: supervisor

text \<open>\<open>Head\<close> reads the monotonic clock, the wall clock of the heartbeat and the answer of
  \<open>try_acquire_leadership\<close>; \<open>EndRound\<close> stands for the reconciliation and the sleep.\<close>

datatype control_event =
    StopSignal float64 datetime
  | TestStartup
  | Start datetime
  | Head float64 datetime bool
  | BeginCycle uuid
  | EndCycle
  | EndRound

definition entered :: "supervisor \<Rightarrow> control" where
  "entered sv = \<lparr>ct_phase = Entered, ct_running = False, ct_shutdown_at = None, ct_graceful = False, ct_lease = False,
     ct_in_cycle = None, ct_cycles = [], ct_supervisor = sv\<rparr>"

text \<open>\<open>handle_stop\<close>, with the parts of \<open>stop\<close> the loop depends on.\<close>

definition handle_stop :: "float64 \<Rightarrow> float64 \<Rightarrow> datetime \<Rightarrow> control \<Rightarrow> control" where
  "handle_stop timeout clk now ct =
     (if ct_graceful ct then ct
      else ct\<lparr>ct_running := False, ct_lease := False, ct_supervisor := mark_clean_shutdown now ''daemon'' (ct_supervisor ct),
              ct_shutdown_at := Some (clk + timeout), ct_graceful := True\<rparr>)"

definition loop_head :: "float64 \<Rightarrow> datetime \<Rightarrow> bool \<Rightarrow> control \<Rightarrow> control" where
  "loop_head clk now leads ct =
     (if \<not> (ct_running ct \<or> ct_graceful ct) then ct\<lparr>ct_phase := LeftLoop\<rparr>
      else if (case ct_shutdown_at ct of None \<Rightarrow> False | Some deadline \<Rightarrow> deadline < clk) then ct\<lparr>ct_phase := LeftLoop\<rparr>
      else if \<not> ct_running ct then ct\<lparr>ct_phase := LeftLoop\<rparr>
      else
      let ct1 = ct\<lparr>ct_supervisor := heartbeat now ''daemon'' (ct_supervisor ct)\<rparr> in
      if \<not> leads then ct1 else ct1\<lparr>ct_lease := True, ct_phase := InRound\<rparr>)"

fun control_step :: "float64 \<Rightarrow> control_event \<Rightarrow> control \<Rightarrow> control" where
  "control_step timeout (StopSignal clk now) ct = handle_stop timeout clk now ct"
| "control_step timeout TestStartup ct =
     (if ct_phase ct \<noteq> Entered then ct
      else ct\<lparr>ct_phase := (if ct_graceful ct then LoopHead else StartingUp)\<rparr>)"
| "control_step timeout (Start now) ct =
     (if ct_phase ct \<noteq> StartingUp then ct
      else ct\<lparr>ct_phase := LoopHead, ct_running := True, ct_supervisor := snd (supervised_start now (ct_supervisor ct))\<rparr>)"
| "control_step timeout (Head clk now leads) ct = (if ct_phase ct \<noteq> LoopHead then ct else loop_head clk now leads ct)"
| "control_step timeout (BeginCycle m) ct =
     (if ct_phase ct \<noteq> InRound \<or> ct_in_cycle ct \<noteq> None \<or> \<not> ct_running ct then ct
      else ct\<lparr>ct_in_cycle := Some m, ct_cycles := ct_cycles ct @ [m]\<rparr>)"
| "control_step timeout EndCycle ct = ct\<lparr>ct_in_cycle := None\<rparr>"
| "control_step timeout EndRound ct =
     (if ct_phase ct \<noteq> InRound \<or> ct_in_cycle ct \<noteq> None then ct else ct\<lparr>ct_phase := LoopHead\<rparr>)"

definition control_run :: "float64 \<Rightarrow> control_event list \<Rightarrow> control \<Rightarrow> control" where
  "control_run timeout es ct = foldl (\<lambda>ct e. control_step timeout e ct) ct es"

definition stopping :: "control \<Rightarrow> bool" where
  "stopping ct \<longleftrightarrow> ct_phase ct \<in> {LoopHead, InRound, LeftLoop} \<and> ct_graceful ct \<and> \<not> ct_running ct"

definition marked :: "control \<Rightarrow> bool" where
  "marked ct \<longleftrightarrow> (case last_beat (sv_file (ct_supervisor ct)) of None \<Rightarrow> False | Some r \<Rightarrow> hb_action r = ShutdownMark)"

lemma stopping_step:
  "stopping ct \<Longrightarrow> stopping (control_step timeout e ct) \<and> ct_cycles (control_step timeout e ct) = ct_cycles ct \<and>
     ct_supervisor (control_step timeout e ct) = ct_supervisor ct"
  by (cases e) (auto simp: stopping_def handle_stop_def loop_head_def split: option.splits)

lemma stopping_run:
  "stopping ct \<Longrightarrow> stopping (control_run timeout es ct) \<and> ct_cycles (control_run timeout es ct) = ct_cycles ct \<and>
     ct_supervisor (control_run timeout es ct) = ct_supervisor ct"
  by (induction es arbitrary: ct) (simp_all add: control_run_def stopping_step)


text \<open>A round of the loop over markets, as events.\<close>

fun round_events :: "float64 \<times> datetime \<times> uuid list \<Rightarrow> control_event list" where
  "round_events (clk, now, ms) = Head clk now True # concat (map (\<lambda>m. [BeginCycle m, EndCycle]) ms) @ [EndRound]"

lemma cycles_of_round:
  "ct_phase ct = InRound \<Longrightarrow> ct_running ct \<Longrightarrow> ct_in_cycle ct = None \<Longrightarrow>
     control_run timeout (concat (map (\<lambda>m. [BeginCycle m, EndCycle]) ms)) ct = ct\<lparr>ct_cycles := ct_cycles ct @ ms\<rparr>"
  by (induction ms arbitrary: ct) (simp_all add: control_run_def)

lemma control_run_append: "control_run timeout (es @ fs) ct = control_run timeout fs (control_run timeout es ct)"
  by (simp add: control_run_def)

definition overridden :: "float64 \<Rightarrow> control \<Rightarrow> bool" where
  "overridden deadline ct \<longleftrightarrow> ct_phase ct = LoopHead \<and> ct_running ct \<and> ct_graceful ct \<and> ct_in_cycle ct = None \<and>
     ct_shutdown_at ct = Some deadline"

lemma overridden_round:
  assumes "overridden deadline ct" and "\<not> deadline < clk"
  shows "overridden deadline (control_run timeout (round_events (clk, now, ms)) ct) \<and>
         ct_cycles (control_run timeout (round_events (clk, now, ms)) ct) = ct_cycles ct @ ms"
proof -
  let ?ct1 = "control_step timeout (Head clk now True) ct"
  have head: "ct_phase ?ct1 = InRound" "ct_running ?ct1" "ct_in_cycle ?ct1 = None" "ct_graceful ?ct1"
    "ct_shutdown_at ?ct1 = Some deadline" "ct_cycles ?ct1 = ct_cycles ct"
    using assms by (simp_all add: overridden_def loop_head_def Let_def)
  have "control_run timeout (round_events (clk, now, ms)) ct =
      control_run timeout [EndRound] (?ct1\<lparr>ct_cycles := ct_cycles ?ct1 @ ms\<rparr>)"
    using cycles_of_round [OF head(1-3), of timeout ms] by (simp add: control_run_def)
  then show ?thesis using head by (simp add: control_run_def overridden_def)
qed

text \<open>
  A stop signal that arrives during startup is overridden: \<open>start\<close> sets the daemon running
  again after it, so the loop goes on starting the cycles of every round until the shutdown
  deadline has passed, and a second stop signal in between is ignored.
\<close>

theorem startup_stop_signal_is_overridden:
  assumes "list_all (\<lambda>r. \<not> clk + timeout < fst r) rounds"
  shows "let ct = control_run timeout ([TestStartup, StopSignal clk now, Start now'] @ concat (map round_events rounds)
            @ [StopSignal clk' now'']) (entered sv) in
     ct_running ct \<and> ct_cycles ct = concat (map (\<lambda>(_, _, ms). ms) rounds)"
proof -
  have start: "overridden (clk + timeout) (control_run timeout [TestStartup, StopSignal clk now, Start now'] (entered sv))"
    "ct_cycles (control_run timeout [TestStartup, StopSignal clk now, Start now'] (entered sv)) = []"
    by (simp_all add: control_run_def entered_def handle_stop_def overridden_def)
  have rounds: "overridden (clk + timeout) (control_run timeout (concat (map round_events rs)) ct) \<and>
      ct_cycles (control_run timeout (concat (map round_events rs)) ct) = ct_cycles ct @ concat (map (\<lambda>(_, _, ms). ms) rs)"
    if "overridden (clk + timeout) ct" "list_all (\<lambda>r. \<not> clk + timeout < fst r) rs" for rs ct
    using that
  proof (induction rs arbitrary: ct)
    case Nil
    then show ?case by (simp add: control_run_def)
  next
    case (Cons r rs)
    obtain t n ms where r: "r = (t, n, ms)" by (cases r)
    let ?ct1 = "control_run timeout (round_events r) ct"
    have one: "overridden (clk + timeout) ?ct1" "ct_cycles ?ct1 = ct_cycles ct @ ms"
      using overridden_round [of "clk + timeout" ct t timeout n ms] Cons.prems r by simp_all
    have "concat (map round_events (r # rs)) = round_events r @ concat (map round_events rs)" by simp
    then show ?case using Cons.IH [OF one(1)] Cons.prems(2) one(2) r
      by (simp only: control_run_append) simp
  qed
  have last: "ct_running (control_step timeout (StopSignal clk' now'') ct) \<and>
      ct_cycles (control_step timeout (StopSignal clk' now'') ct) = ct_cycles ct"
    if "overridden (clk + timeout) ct" for ct
    using that by (simp add: overridden_def handle_stop_def)
  show ?thesis
    using last rounds [OF start(1) assms] start(2)
    by (simp only: control_run_append Let_def) (simp add: control_run_def)
qed

lemma control_run_split: "control_run timeout (es @ e # fs) ct = control_run timeout fs (control_step timeout e (control_run timeout es ct))"
  by (simp add: control_run_def)


theorem startup_stop_signal_is_overridden_witness:
  "ct_cycles (control_run (Fin 30) ([TestStartup, StopSignal (Fin 0) 0, Start 0] @
     concat (map round_events [(Fin 1, 0, [''m'', ''n'']), (Fin 2, 0, [''m''])]) @ [StopSignal (Fin 3) 0])
     (entered (new_supervisor [] 1))) = [''m'', ''n'', ''m'']"
proof -
  have "(Fin 0 + Fin 30 :: float64) = Fin 30" using rnd_of_int [of 30] by simp
  then show ?thesis
    using startup_stop_signal_is_overridden [of "Fin 0" "Fin 30" "[(Fin 1, 0, [''m'', ''n'']), (Fin 2, 0, [''m''])]"
        0 0 "Fin 3" 0 "new_supervisor [] 1"]
    by (simp add: Let_def)
qed

end
