(* ===== verification/Workers.thy ===== *)
theory Workers
  imports Alerting
begin

text \<open>
  \<open>infrastructure/secrets.py\<close> and \<open>infrastructure/backup_scheduler.py\<close>: the background workers
  that rotate the secrets and back up the database, and what ends them.

  A worker's thread runs one tick after the other until it is stopped or a tick raises.  The
  secret store and the backup are parameters: a function of the key and of the state of the
  outside, and the outcome of each attempt.
\<close>

subsection \<open>A worker's loop\<close>

fun worker_loop :: "('i \<Rightarrow> 's \<Rightarrow> unit res \<times> 's) \<Rightarrow> 'i list \<Rightarrow> 's \<Rightarrow> exc option \<times> 's" where
  "worker_loop tick [] st = (None, st)"
| "worker_loop tick (x # xs) st =
     (case tick x st of
        (Inl e, st1) \<Rightarrow> (Some e, st1)
      | (Inr _, st1) \<Rightarrow> worker_loop tick xs st1)"

text \<open>A worker whose ticks never raise runs all of them.\<close>

locale steady_worker =
  fixes tick :: "'i \<Rightarrow> 's \<Rightarrow> unit res \<times> 's"
  assumes never_raises: "\<not> isl (fst (tick x st))"
begin

lemma runs_every_tick: "worker_loop tick xs st = (None, fold (\<lambda>x st. snd (tick x st)) xs st)"
proof (induction xs arbitrary: st)
  case (Cons x xs)
  then show ?case using never_raises [of x st] by (cases "tick x st") (auto split: sum.splits)
qed simp

lemma runs_on: "worker_loop tick (xs @ ys) st = worker_loop tick ys (snd (worker_loop tick xs st))"
  by (simp add: runs_every_tick)

end

text \<open>The tick of the probe scheduler's thread: whatever \<open>run_once\<close> raises is logged.\<close>

definition probe_tick ::
  "(alert \<Rightarrow> 'w oncall \<Rightarrow> bool res \<times> 'w oncall) option \<Rightarrow> 'w probe list \<Rightarrow> float64 \<Rightarrow> 'w probe_scheduler \<Rightarrow> unit res \<times> 'w probe_scheduler" where
  "probe_tick rt probes ms st = (Inr (), snd (run_once rt ms probes st))"

interpretation probe_worker: steady_worker "probe_tick rt probes"
  by unfold_locales (simp add: probe_tick_def)

subsection \<open>Secrets\<close>

record secret =
  se_value :: string
  se_version :: nat
  se_rotated_at :: float64

record 'w rotator =
  sr_secrets :: "(string \<times> secret) list"
  sr_audit :: audit_log
  sr_metrics :: metrics_log
  sr_world :: 'w

type_synonym 'w provider = "string \<Rightarrow> 'w \<Rightarrow> string option res \<times> 'w"

text \<open>The first provider with a value; an exception of an earlier one escapes.\<close>

fun first_value :: "'w provider list \<Rightarrow> 'w provider" where
  "first_value [] key w = (Inr None, w)"
| "first_value (p # ps) key w =
     (case p key w of
        (Inl e, w1) \<Rightarrow> (Inl e, w1)
      | (Inr (Some v), w1) \<Rightarrow> (Inr (Some v), w1)
      | (Inr None, w1) \<Rightarrow> first_value ps key w1)"

definition audit_access :: "string \<Rightarrow> nat \<Rightarrow> string \<Rightarrow> 'w rotator \<Rightarrow> 'w rotator" where
  "audit_access key version source st = st\<lparr>
     sr_audit := audit_rec ''secret.accessed'' ''system'' key [L source, Z (int version), L ''value_redacted''] (sr_audit st),
     sr_metrics := counter (''secret.accessed.'' @ source) 1 (sr_metrics st)\<rparr>"

definition audit_rotate :: "string \<Rightarrow> nat \<Rightarrow> 'w rotator \<Rightarrow> 'w rotator" where
  "audit_rotate key version st = st\<lparr>
     sr_audit := audit_rec ''secret.rotated'' ''system'' key [Z (int version), L ''value_redacted''] (sr_audit st),
     sr_metrics := counter ''secret.rotated'' 1 (sr_metrics st)\<rparr>"

definition secret_get :: "'w provider list \<Rightarrow> string \<Rightarrow> 'w rotator \<Rightarrow> string option res \<times> 'w rotator" where
  "secret_get ps key st =
     (case map_of (sr_secrets st) key of
        Some s \<Rightarrow> (Inr (Some (se_value s)), audit_access key (se_version s) ''read.cached'' st)
      | None \<Rightarrow>
          (case first_value ps key (sr_world st) of
             (Inl e, w) \<Rightarrow> (Inl e, st\<lparr>sr_world := w\<rparr>)
           | (Inr None, w) \<Rightarrow> (Inr None, st\<lparr>sr_world := w\<rparr>)
           | (Inr (Some v), w) \<Rightarrow>
               (Inr (Some v),
                audit_access key 1 ''read.provider''
                  (st\<lparr>sr_world := w,
                      sr_secrets := AList.update key \<lparr>se_value = v, se_version = 1, se_rotated_at = 0\<rparr> (sr_secrets st)\<rparr>))))"

definition rotate_secret :: "'w provider list \<Rightarrow> float64 \<Rightarrow> string \<Rightarrow> 'w rotator \<Rightarrow> bool res \<times> 'w rotator" where
  "rotate_secret ps now key st =
     (case first_value ps key (sr_world st) of
        (Inl e, w) \<Rightarrow> (Inl e, st\<lparr>sr_world := w\<rparr>)
      | (Inr None, w) \<Rightarrow> (Inr False, st\<lparr>sr_world := w\<rparr>)
      | (Inr (Some v), w) \<Rightarrow>
          let version = (case map_of (sr_secrets st) key of None \<Rightarrow> 1 | Some s \<Rightarrow> se_version s + 1) in
          (Inr True,
           audit_rotate key version
             (st\<lparr>sr_world := w,
                 sr_secrets := AList.update key \<lparr>se_value = v, se_version = version, se_rotated_at = now\<rparr> (sr_secrets st)\<rparr>)))"

fun rotate_keys :: "'w provider list \<Rightarrow> float64 \<Rightarrow> string list \<Rightarrow> nat \<Rightarrow> 'w rotator \<Rightarrow> nat res \<times> 'w rotator" where
  "rotate_keys ps now [] count st = (Inr count, st)"
| "rotate_keys ps now (k # ks) count st =
     (case rotate_secret ps now k st of
        (Inl e, st1) \<Rightarrow> (Inl e, st1)
      | (Inr b, st1) \<Rightarrow> rotate_keys ps now ks (if b then count + 1 else count) st1)"

definition rotate_all :: "'w provider list \<Rightarrow> float64 \<Rightarrow> 'w rotator \<Rightarrow> nat res \<times> 'w rotator" where
  "rotate_all ps now st = rotate_keys ps now (dict_keys (sr_secrets st)) 0 st"

definition rotation_tick :: "'w provider list \<Rightarrow> float64 \<Rightarrow> 'w rotator \<Rightarrow> unit res \<times> 'w rotator" where
  "rotation_tick ps now st = (case rotate_all ps now st of (r, st1) \<Rightarrow> (rbind r (\<lambda>_. Inr ()), st1))"

text \<open>The Vault provider: the answer of the HTTP session, and the KV-2 envelope it unwraps.\<close>

datatype vault_body = VaultNotJson | VaultShape | VaultValue "reply_json option"

datatype vault_reply = Unreachable | VaultReply int vault_body

definition VaultFetchError :: exc where
  "VaultFetchError = OtherException ''VaultFetchError''"

definition vault_fetch :: "(string \<Rightarrow> 'w \<Rightarrow> vault_reply \<times> 'w) \<Rightarrow> string \<Rightarrow> ('w, vault_body option) io" where
  "vault_fetch session url env w =
     (case session url w of (reply, w1) \<Rightarrow>
        (case reply of
           Unreachable \<Rightarrow> Inl VaultFetchError
         | VaultReply status body \<Rightarrow>
             if 500 \<le> status then Inl VaultFetchError
             else if status \<noteq> 200 then Inr None
             else (case body of VaultNotJson \<Rightarrow> Inl VaultFetchError | _ \<Rightarrow> Inr (Some body)), w1))"

definition vault_path :: "string \<Rightarrow> string \<Rightarrow> string \<Rightarrow> string" where
  "vault_path url mount key =
     url @ ''/v1/'' @ mount @ ''/data/'' @ (case key of CHR 0x2F # rest \<Rightarrow> rest | _ \<Rightarrow> key)"

definition vault_get ::
  "(string \<Rightarrow> 'w \<Rightarrow> vault_reply \<times> 'w) \<Rightarrow> string \<Rightarrow> string \<Rightarrow> env \<Rightarrow> (breaker \<times> 'w) provider" where
  "vault_get session url mount env key st =
     (case with_circuit_breaker VAULT_CB None (vault_fetch session (vault_path url mount key)) env st of
        (Inl e, st1) \<Rightarrow> (Inl e, st1)
      | (Inr None, st1) \<Rightarrow> (Inr None, st1)
      | (Inr (Some body), st1) \<Rightarrow>
          (case body of
             VaultValue (Some (JText v)) \<Rightarrow> Inr (Some v)
           | VaultValue _ \<Rightarrow> Inr None
           | _ \<Rightarrow> Inl (OtherException ''AttributeError''), st1))"

subsection \<open>Versions\<close>

datatype secret_call = Get string | Rotate float64 string | RotateAll float64

fun secret_do :: "'w provider list \<Rightarrow> secret_call \<Rightarrow> 'w rotator \<Rightarrow> 'w rotator" where
  "secret_do ps (Get key) st = snd (secret_get ps key st)"
| "secret_do ps (Rotate now key) st = snd (rotate_secret ps now key st)"
| "secret_do ps (RotateAll now) st = snd (rotate_all ps now st)"

definition version_of :: "string \<Rightarrow> 'w rotator \<Rightarrow> nat" where
  "version_of key st = (case map_of (sr_secrets st) key of None \<Rightarrow> 0 | Some s \<Rightarrow> se_version s)"

text \<open>The rotations of a key that the trail shows.\<close>

definition rotations_of :: "string \<Rightarrow> 'w rotator \<Rightarrow> nat" where
  "rotations_of key st =
     length (filter (\<lambda>e. ae_action e = ''secret.rotated'' \<and> ae_resource e = key) (case sr_audit st of None \<Rightarrow> [] | Some es \<Rightarrow> es))"

definition first_read :: "string \<Rightarrow> 'w rotator \<Rightarrow> nat" where
  "first_read key st =
     length (filter (\<lambda>e. ae_action e = ''secret.accessed'' \<and> ae_resource e = key \<and> hd (ae_detail e) = L ''read.provider'')
       (case sr_audit st of None \<Rightarrow> [] | Some es \<Rightarrow> es))"

definition has_trail :: "'w rotator \<Rightarrow> bool" where
  "has_trail st \<longleftrightarrow> sr_audit st \<noteq> None"

definition versions_audited :: "string \<Rightarrow> 'w rotator \<Rightarrow> bool" where
  "versions_audited key st \<longleftrightarrow> has_trail st \<and> version_of key st = rotations_of key st + first_read key st \<and>
     (map_of (sr_secrets st) key = None \<longrightarrow> version_of key st = 0) \<and> first_read key st \<le> 1"

lemma access_counts:
  assumes "has_trail st"
  shows "rotations_of k (audit_access key v src st) = rotations_of k st"
    and "first_read k (audit_access key v src st) = first_read k st + (if key = k \<and> src = ''read.provider'' then 1 else 0)"
    and "has_trail (audit_access key v src st)" and "sr_secrets (audit_access key v src st) = sr_secrets st"
  using assms by (auto simp: has_trail_def rotations_of_def first_read_def audit_access_def)

lemma rotate_counts:
  assumes "has_trail st"
  shows "rotations_of k (audit_rotate key v st) = rotations_of k st + (if key = k then 1 else 0)"
    and "first_read k (audit_rotate key v st) = first_read k st"
    and "has_trail (audit_rotate key v st)" and "sr_secrets (audit_rotate key v st) = sr_secrets st"
  using assms by (auto simp: has_trail_def rotations_of_def first_read_def audit_rotate_def)

lemma counts_frame [simp]:
  "rotations_of k (st\<lparr>sr_world := w\<rparr>) = rotations_of k st" "first_read k (st\<lparr>sr_world := w\<rparr>) = first_read k st"
  "rotations_of k (st\<lparr>sr_secrets := d\<rparr>) = rotations_of k st" "first_read k (st\<lparr>sr_secrets := d\<rparr>) = first_read k st"
  "has_trail (st\<lparr>sr_world := w\<rparr>) = has_trail st" "has_trail (st\<lparr>sr_secrets := d\<rparr>) = has_trail st"
  by (simp_all add: rotations_of_def first_read_def has_trail_def)

lemma get_audited:
  assumes "versions_audited k st"
  shows "versions_audited k (snd (secret_get ps key st)) \<and> version_of k st \<le> version_of k (snd (secret_get ps key st))"
proof (cases "map_of (sr_secrets st) key")
  case None
  obtain r w where r: "first_value ps key (sr_world st) = (r, w)" by fastforce
  consider e where "r = Inl e" | "r = Inr None" | v where "r = Inr (Some v)" by (metis option.exhaust sum.exhaust)
  then show ?thesis
    by cases (use assms None r in \<open>auto simp: secret_get_def versions_audited_def version_of_def access_counts\<close>)
next
  case (Some s)
  then show ?thesis
    using assms by (auto simp: secret_get_def versions_audited_def version_of_def access_counts)
qed

lemma rotate_audited:
  assumes "versions_audited k st" and "rotate_secret ps now key st = (r, st')"
  shows "versions_audited k st' \<and> version_of k st \<le> version_of k st'"
proof -
  obtain q w where q: "first_value ps key (sr_world st) = (q, w)" by fastforce
  consider e where "q = Inl e" | "q = Inr None" | v where "q = Inr (Some v)" by (metis option.exhaust sum.exhaust)
  then show ?thesis
  proof cases
    case (3 v)
    then show ?thesis
      using assms q
      by (cases "map_of (sr_secrets st) key") (auto simp: rotate_secret_def versions_audited_def version_of_def rotate_counts Let_def)
  qed (use assms q in \<open>auto simp: rotate_secret_def versions_audited_def version_of_def\<close>)
qed

lemma rotate_keys_audited:
  "versions_audited k st \<Longrightarrow> rotate_keys ps now ks c st = (r, st') \<Longrightarrow> versions_audited k st' \<and> version_of k st \<le> version_of k st'"
proof (induction ks arbitrary: c st)
  case (Cons key ks)
  obtain q st1 where q: "rotate_secret ps now key st = (q, st1)" by fastforce
  note one = rotate_audited [OF Cons.prems(1) q]
  show ?case
  proof (cases q)
    case (Inl e)
    then show ?thesis using one q Cons.prems(2) by auto
  next
    case (Inr b)
    then have "rotate_keys ps now ks (if b then c + 1 else c) st1 = (r, st')" using q Cons.prems(2) by simp
    from Cons.IH [OF _ this] one show ?thesis by auto
  qed
qed simp

lemma call_audited:
  assumes "versions_audited k st"
  shows "versions_audited k (secret_do ps c st) \<and> version_of k st \<le> version_of k (secret_do ps c st)"
proof (cases c)
  case (Get key)
  then show ?thesis using get_audited [OF assms, of ps key] by simp
next
  case (Rotate now key)
  then show ?thesis using rotate_audited [OF assms, of ps now key] by (cases "rotate_secret ps now key st") auto
next
  case (RotateAll now)
  then show ?thesis using rotate_keys_audited [OF assms, of ps now] by (cases "rotate_all ps now st") (auto simp: rotate_all_def)
qed

text \<open>
  The version of a secret counts what the trail shows: its one first read from a provider and
  its rotations.  Whatever reads and rotations are made, with providers that may raise, the
  two agree for every key and no version ever falls.
\<close>

theorem versions_are_audited:
  "let run = (\<lambda>cs. fold (secret_do ps) cs \<lparr>sr_secrets = [], sr_audit = Some [], sr_metrics = m, sr_world = w\<rparr>) in
   version_of key (run cs) = rotations_of key (run cs) + first_read key (run cs) \<and> first_read key (run cs) \<le> 1 \<and>
   version_of key (run cs) \<le> version_of key (run (cs @ ds))"
proof -
  have all: "versions_audited key (fold (secret_do ps) xs st) \<and> version_of key st \<le> version_of key (fold (secret_do ps) xs st)"
    if "versions_audited key st" for xs st
    using that
  proof (induction xs arbitrary: st)
    case (Cons x xs)
    show ?case using Cons.IH [of "secret_do ps x st"] call_audited [OF Cons.prems, of ps x] by auto
  qed simp
  let ?st = "\<lparr>sr_secrets = [], sr_audit = Some [], sr_metrics = m, sr_world = w\<rparr>"
  have "versions_audited key ?st" by (simp add: versions_audited_def has_trail_def version_of_def rotations_of_def first_read_def)
  from all [OF this, of cs] have "versions_audited key (fold (secret_do ps) cs ?st)" by blast
  from this all [OF this, of ds] show ?thesis by (simp add: Let_def versions_audited_def)
qed

subsection \<open>The trail shows no value\<close>

text \<open>The same outside with other values: every value a provider gives is renamed.\<close>

definition renamed :: "(string \<Rightarrow> string) \<Rightarrow> 'w provider \<Rightarrow> 'w provider" where
  "renamed f p key w = (case p key w of (r, w1) \<Rightarrow> (rbind r (\<lambda>v. Inr (map_option f v)), w1))"

definition rename_secrets :: "(string \<Rightarrow> string) \<Rightarrow> 'w rotator \<Rightarrow> 'w rotator" where
  "rename_secrets f st = st\<lparr>sr_secrets := map (\<lambda>(k, s). (k, s\<lparr>se_value := f (se_value s)\<rparr>)) (sr_secrets st)\<rparr>"

lemma renamed_first_value: "first_value (map (renamed f) ps) key w = renamed f (first_value ps) key w"
  by (induction ps key w rule: first_value.induct) (auto simp: renamed_def split: prod.splits sum.splits option.splits)

lemma map_of_renamed: "map_of (map (\<lambda>(k, s). (k, g s)) d) key = map_option g (map_of d key)"
  by (induction d) auto

lemma update_renamed: "AList.update key (g s) (map (\<lambda>(k, s). (k, g s)) d) = map (\<lambda>(k, s). (k, g s)) (AList.update key s d)"
  by (induction d) auto

lemma renamed_frame [simp]:
  "sr_world (rename_secrets f st) = sr_world st" "sr_audit (rename_secrets f st) = sr_audit st"
  "sr_metrics (rename_secrets f st) = sr_metrics st" "dict_keys (sr_secrets (rename_secrets f st)) = dict_keys (sr_secrets st)"
  by (auto simp: rename_secrets_def)

lemma renamed_secret: "map_of (sr_secrets (rename_secrets f st)) key = map_option (\<lambda>s. s\<lparr>se_value := f (se_value s)\<rparr>) (map_of (sr_secrets st) key)"
  by (simp add: rename_secrets_def map_of_renamed)

lemma renamed_store:
  "rename_secrets f (audit_access key v src st) = audit_access key v src (rename_secrets f st)"
  "rename_secrets f (audit_rotate key v st) = audit_rotate key v (rename_secrets f st)"
  "rename_secrets f (st\<lparr>sr_world := w\<rparr>) = (rename_secrets f st)\<lparr>sr_world := w\<rparr>"
  "rename_secrets f (st\<lparr>sr_world := w, sr_secrets := AList.update key s (sr_secrets st)\<rparr>) =
     (rename_secrets f st)\<lparr>sr_world := w,
       sr_secrets := AList.update key (s\<lparr>se_value := f (se_value s)\<rparr>) (sr_secrets (rename_secrets f st))\<rparr>"
  by (cases st; simp add: rename_secrets_def audit_access_def audit_rotate_def
      update_renamed [where g = "\<lambda>s. s\<lparr>se_value := f (se_value s)\<rparr>"])+

lemma renamed_get:
  "snd (secret_get (map (renamed f) ps) key (rename_secrets f st)) = rename_secrets f (snd (secret_get ps key st))"
proof (cases "map_of (sr_secrets st) key")
  case None
  obtain r w where r: "first_value ps key (sr_world st) = (r, w)" by fastforce
  consider e where "r = Inl e" | "r = Inr None" | v where "r = Inr (Some v)" by (metis option.exhaust sum.exhaust)
  then show ?thesis
    by cases (simp_all add: secret_get_def renamed_secret None renamed_first_value renamed_def r renamed_store)
next
  case (Some s)
  then show ?thesis by (simp add: secret_get_def renamed_secret renamed_store)
qed

lemma renamed_rotate:
  "rotate_secret (map (renamed f) ps) now key (rename_secrets f st) =
     (case rotate_secret ps now key st of (r, st1) \<Rightarrow> (r, rename_secrets f st1))"
proof -
  obtain r w where r: "first_value ps key (sr_world st) = (r, w)" by fastforce
  consider e where "r = Inl e" | "r = Inr None" | v where "r = Inr (Some v)" by (metis option.exhaust sum.exhaust)
  then show ?thesis
    by cases (simp_all add: rotate_secret_def renamed_secret renamed_first_value renamed_def r renamed_store Let_def split: option.split)
qed

lemma renamed_rotate_keys:
  "rotate_keys (map (renamed f) ps) now ks c (rename_secrets f st) =
     (case rotate_keys ps now ks c st of (r, st1) \<Rightarrow> (r, rename_secrets f st1))"
proof (induction ks arbitrary: c st)
  case (Cons k ks)
  obtain r st1 where "rotate_secret ps now k st = (r, st1)" by fastforce
  then show ?case using Cons.IH by (cases r) (simp_all add: renamed_rotate)
qed simp

lemma renamed_call: "secret_do (map (renamed f) ps) c (rename_secrets f st) = rename_secrets f (secret_do ps c st)"
  by (cases c) (simp_all add: renamed_get renamed_rotate renamed_rotate_keys rotate_all_def split_beta)

text \<open>
  The trail and the metrics show nothing of a value: whatever reads and rotations are made,
  providers that give other values leave exactly the same audit entries and counters.
\<close>

theorem trail_shows_no_value:
  "let st = \<lparr>sr_secrets = [], sr_audit = log0, sr_metrics = m, sr_world = w\<rparr>;
       run = fold (secret_do ps) cs st; run' = fold (secret_do (map (renamed f) ps)) cs st in
   sr_audit run' = sr_audit run \<and> sr_metrics run' = sr_metrics run"
proof -
  have "fold (secret_do (map (renamed f) ps)) cs (rename_secrets f st) = rename_secrets f (fold (secret_do ps) cs st)" for st
    by (induction cs arbitrary: st) (simp_all add: renamed_call)
  from this [of "\<lparr>sr_secrets = [], sr_audit = log0, sr_metrics = m, sr_world = w\<rparr>"]
  show ?thesis by (simp add: Let_def rename_secrets_def)
qed

subsection \<open>Rotation and outages\<close>

text \<open>
  An outage of the store ends the rotation: when the first provider raises on a tick at which
  a secret is held, the exception leaves the loop, and no later tick rotates anything however
  healthy the store is then.  With no secret held the tick does nothing.
\<close>

theorem outage_ends_rotation:
  assumes "fst (p (hd (dict_keys (sr_secrets st))) (sr_world st)) = Inl e"
  shows "worker_loop (rotation_tick (p # ps)) (now # later) st =
    (if sr_secrets st = [] then worker_loop (rotation_tick (p # ps)) later st
     else (Some e, st\<lparr>sr_world := snd (p (hd (dict_keys (sr_secrets st))) (sr_world st))\<rparr>))"
proof (cases "sr_secrets st")
  case Nil
  then show ?thesis by (simp add: rotation_tick_def rotate_all_def)
next
  case (Cons kv d)
  obtain w where "p (hd (dict_keys (sr_secrets st))) (sr_world st) = (Inl e, w)"
    using assms by (cases "p (hd (dict_keys (sr_secrets st))) (sr_world st)") simp
  then show ?thesis using Cons by (simp add: rotation_tick_def rotate_all_def rotate_secret_def)
qed

definition one_secret :: "nat rotator" where
  "one_secret = \<lparr>sr_secrets = [(''K'', \<lparr>se_value = ''v1'', se_version = 1, se_rotated_at = 0\<rparr>)], sr_audit = Some [], sr_metrics = None, sr_world = 0\<rparr>"

text \<open>A store that is down at its first call and answers every later one.\<close>

definition flaky_store :: "nat provider" where
  "flaky_store key n = (if n = 0 then Inl VaultFetchError else Inr (Some ''v2''), n + 1)"

theorem outage_ends_rotation_witness:
  "fst (worker_loop (rotation_tick [flaky_store]) [Fin 1, Fin 2, Fin 3] one_secret) = Some VaultFetchError \<and>
   version_of ''K'' (snd (worker_loop (rotation_tick [flaky_store]) [Fin 1, Fin 2, Fin 3] one_secret)) = 1"
proof -
  have "fst (flaky_store (hd (dict_keys (sr_secrets one_secret))) (sr_world one_secret)) = Inl VaultFetchError"
    by (simp add: flaky_store_def one_secret_def)
  from outage_ends_rotation [where p = flaky_store and st = one_secret and e = VaultFetchError and ps = "[]" and now = "Fin 1" and
      later = "[Fin 2, Fin 3]", OF this] show ?thesis
    by (simp add: one_secret_def version_of_def)
qed

lemma two_values: "first_value [p, q] key w =
   (case p key w of (Inl e, w1) \<Rightarrow> (Inl e, w1) | (Inr (Some v), w1) \<Rightarrow> (Inr (Some v), w1) | (Inr None, w1) \<Rightarrow> q key w1)"
  by (auto split: prod.splits sum.splits option.splits)

text \<open>
  Vault fails closed: an outage (no answer, a status of the 500 range, a body that is no JSON,
  or the open circuit) raises, so that no later provider is asked; a missing or forbidden key
  answers nothing, and the next provider is.
\<close>

theorem vault_fails_closed:
  assumes "cb_state (fst st) = Closed"
  shows "case first_value [vault_get session url mount env, fallback] key st of (r, st') \<Rightarrow>
    (case fst (session (vault_path url mount key) (snd st)) of
       Unreachable \<Rightarrow> r = Inl VaultFetchError
     | VaultReply status body \<Rightarrow>
         if 500 \<le> status \<or> status = 200 \<and> body = VaultNotJson then r = Inl VaultFetchError
         else if status \<noteq> 200
         then r = fst (fallback key (cb_on_success (fst st), snd (session (vault_path url mount key) (snd st))))
         else (case body of
            VaultValue (Some (JText v)) \<Rightarrow> r = Inr (Some v)
          | VaultValue _ \<Rightarrow> r = fst (fallback key (cb_on_success (fst st), snd (session (vault_path url mount key) (snd st))))
          | _ \<Rightarrow> isl r))"
proof -
  obtain reply w where reply: "session (vault_path url mount key) (snd st) = (reply, w)" by fastforce
  have cb: "cb_observe VAULT_CB (env_time env) (fst st) = fst st" using assms by (simp add: cb_observe_def)
  have vault: "vault_get session url mount env key st =
      (case vault_fetch session (vault_path url mount key) env (snd st) of
         (Inr None, s) \<Rightarrow> (Inr None, (cb_on_success (fst st), s))
       | (Inr (Some body), s) \<Rightarrow>
           (case body of VaultValue (Some (JText v)) \<Rightarrow> Inr (Some v) | VaultValue _ \<Rightarrow> Inr None | _ \<Rightarrow> Inl (OtherException ''AttributeError''),
            (cb_on_success (fst st), s))
       | (Inl e, s) \<Rightarrow> (Inl e, (cb_on_failure VAULT_CB (env_time_end env) (fst st), s)))"
  proof -
    obtain r s where f: "vault_fetch session (vault_path url mount key) env (snd st) = (r, s)" by fastforce
    have "cbc_expected VAULT_CB e" "\<not> cbc_non_failure VAULT_CB e" for e by (simp_all add: VAULT_CB_def)
    note counted = this
    consider e where "r = Inl e" | "r = Inr None" | b where "r = Inr (Some b)" by (metis option.exhaust sum.exhaust)
    then show ?thesis
      by cases (simp_all add: vault_get_def with_circuit_breaker_def cb_call_def cb assms f counted Let_def)
  qed
  show ?thesis
  proof (cases reply)
    case Unreachable
    then show ?thesis by (simp add: vault vault_fetch_def reply)
  next
    case (VaultReply status body)
    show ?thesis
    proof (cases body)
      case (VaultValue v)
      then show ?thesis using VaultReply
        by (cases v) (auto simp: two_values vault vault_fetch_def reply simp del: first_value.simps split: reply_json.splits prod.splits)
    qed (use VaultReply in \<open>auto simp: two_values vault vault_fetch_def reply simp del: first_value.simps split: prod.splits\<close>)
  qed
qed

theorem vault_fails_closed_witness:
  "fst (first_value [vault_get (\<lambda>_ n. (VaultReply 503 VaultNotJson, n)) ''http://v'' ''secret'' sample_env,
     \<lambda>_ st. (Inr (Some ''from the environment''), st)] ''K'' (new_breaker, 0 :: nat)) = Inl VaultFetchError"
proof -
  have "cb_state (fst (new_breaker, 0 :: nat)) = Closed" by (simp add: new_breaker_def)
  from vault_fails_closed [OF this, where session = "\<lambda>_ n. (VaultReply 503 VaultNotJson, n)" and url = "''http://v''" and
      mount = "''secret''" and env = sample_env and fallback = "\<lambda>_ st. (Inr (Some ''from the environment''), st)" and key = "''K''"]
  show ?thesis by (simp only: split_beta fst_conv vault_reply.case) simp
qed

subsection \<open>Backups\<close>

record 'w backup_scheduler =
  bk_last_success :: "datetime option"
  bk_last_error :: "exc option"
  bk_count :: nat
  bk_metrics :: metrics_log
  bk_world :: 'w

definition interval_from_env :: "environ \<Rightarrow> int" where
  "interval_from_env e = (case parse_int (getenv e ''DB_BACKUP_INTERVAL_SECONDS'' []) of None \<Rightarrow> 3600 | Some n \<Rightarrow> n)"

text \<open>A tick with the outcome of its backup: an exception, or the instant it ended.\<close>

definition record_failure ::
  "(exc \<Rightarrow> 'w \<Rightarrow> unit res \<times> 'w) option \<Rightarrow> exc \<Rightarrow> 'w backup_scheduler \<Rightarrow> unit res \<times> 'w backup_scheduler" where
  "record_failure on_failure e st =
     (let st1 = st\<lparr>bk_last_error := Some e, bk_metrics := counter ''backup.scheduled.failed'' 1 (bk_metrics st)\<rparr> in
      case on_failure of
        None \<Rightarrow> (Inr (), st1)
      | Some f \<Rightarrow> (case f e (bk_world st1) of (r, w) \<Rightarrow> (r, st1\<lparr>bk_world := w\<rparr>)))"

definition backup_tick ::
  "(exc \<Rightarrow> 'w \<Rightarrow> unit res \<times> 'w) option \<Rightarrow> exc + datetime \<Rightarrow> 'w backup_scheduler \<Rightarrow> unit res \<times> 'w backup_scheduler" where
  "backup_tick on_failure outcome st =
     (case outcome of
        Inl e \<Rightarrow> record_failure on_failure e st
      | Inr now \<Rightarrow>
          (Inr (), st\<lparr>bk_last_success := Some now, bk_count := bk_count st + 1, bk_last_error := None,
                      bk_metrics := counter ''backup.scheduled.created'' 1 (bk_metrics st)\<rparr>))"

text \<open>The callback of \<open>factory.py\<close>: a critical notification.\<close>

definition page_backup_failure ::
  "(alert \<Rightarrow> 'w oncall \<Rightarrow> bool res \<times> 'w oncall) option \<Rightarrow> bool \<Rightarrow> channel \<Rightarrow> exc \<Rightarrow> 'w notifier \<Rightarrow> unit res \<times> 'w notifier" where
  "page_backup_failure rt wh ch e n =
     send rt wh ch \<lparr>al_level = CRITICAL, al_title = ''Backup Failed'', al_message = [L ''automatic DB backup failed: ''], al_metadata = []\<rparr> n"

definition new_backup_scheduler :: "'w \<Rightarrow> 'w backup_scheduler" where
  "new_backup_scheduler w = \<lparr>bk_last_success = None, bk_last_error = None, bk_count = 0, bk_metrics = None, bk_world = w\<rparr>"

lemma backups_before_failure:
  "worker_loop (backup_tick f) (map Inr ts @ xs) st =
     worker_loop (backup_tick f) xs (snd (worker_loop (backup_tick f) (map Inr ts) st)) \<and>
   bk_count (snd (worker_loop (backup_tick f) (map Inr ts) st)) = bk_count st + length ts \<and>
   bk_world (snd (worker_loop (backup_tick f) (map Inr ts) st)) = bk_world st"
  by (induction ts arbitrary: st) (auto simp: backup_tick_def)

text \<open>
  A failed backup that cannot be paged ends the backups: with an on-call router none of whose
  transports delivers, the first failure raises out of the worker's loop, and the process
  makes no backup any more, whatever the later ticks would bring.
\<close>

theorem unpaged_failure_ends_backups:
  assumes "\<And>t a w. fst (dv t a w) = Inl OnCallDeliveryError" and "ch \<noteq> File"
  shows "case worker_loop (backup_tick (Some (page_backup_failure (Some (route dv ts CRITICAL)) wh ch)))
      (map Inr before @ Inl e # later) (new_backup_scheduler n) of
    (ended, st) \<Rightarrow> ended = Some OnCallDeliveryError \<and> bk_count st = length before \<and> bk_last_error st = Some e"
proof -
  let ?f = "Some (page_backup_failure (Some (route dv ts CRITICAL)) wh ch)"
  let ?a = "\<lparr>al_level = CRITICAL, al_title = ''Backup Failed'', al_message = [L ''automatic DB backup failed: ''], al_metadata = []\<rparr>"
  have dead: "fst (fan_out dv ts ?a False w) = Inr False" for w
  proof (induction ts arbitrary: w)
    case (Cons t ts)
    then show ?case using assms(1) [of t ?a w] by (cases "dv t ?a w") simp
  qed simp
  have rt: "fst (route dv ts CRITICAL ?a oc) = Inl OnCallDeliveryError" for oc
    using dead [of "oc_world oc"] by (cases "fan_out dv ts ?a False (oc_world oc)") (simp add: route_def)
  have page: "fst (page_backup_failure (Some (route dv ts CRITICAL)) wh ch e m) = Inl OnCallDeliveryError" for m
    using assms(2)
    by (cases ch) (simp_all add: page_backup_failure_def send_def send_console_def send_webhook_def rt Let_def split_beta)
  obtain st1 where st1: "worker_loop (backup_tick ?f) (map Inr before @ Inl e # later) (new_backup_scheduler n) =
      worker_loop (backup_tick ?f) (Inl e # later) st1" "bk_count st1 = length before"
    using backups_before_failure [of ?f before "Inl e # later" "new_backup_scheduler n"] by (auto simp: new_backup_scheduler_def)
  obtain m where "page_backup_failure (Some (route dv ts CRITICAL)) wh ch e (bk_world st1) = (Inl OnCallDeliveryError, m)"
    using page [of "bk_world st1"] by (cases "page_backup_failure (Some (route dv ts CRITICAL)) wh ch e (bk_world st1)") simp
  then show ?thesis using st1 by (simp add: backup_tick_def record_failure_def Let_def)
qed

theorem unpaged_failure_ends_backups_witness:
  "let n = \<lparr>nf_console = [], nf_file = [], nf_file_fails = False, nf_webhook = None,
            nf_oncall = \<lparr>oc_audit = None, oc_metrics = None, oc_world = (0 :: nat)\<rparr>\<rparr> in
   bk_count (snd (worker_loop (backup_tick (Some (page_backup_failure
       (Some (route (\<lambda>(t :: unit) a w. (Inl OnCallDeliveryError, w)) [()] CRITICAL)) False Console)))
     [Inr 1, Inl OSError, Inr 2, Inr 3] (new_backup_scheduler n))) = 1"
proof -
  let ?dv = "\<lambda>(t :: unit) (a :: alert) (w :: nat). (Inl OnCallDeliveryError :: unit res, w)"
  have "\<And>t a w. fst (?dv t a w) = Inl OnCallDeliveryError" by simp
  from unpaged_failure_ends_backups [where dv = ?dv and ch = Console and ts = "[()]" and wh = False and before = "[1]" and
      e = OSError and later = "[Inr 2, Inr 3]" and n = "\<lparr>nf_console = [], nf_file = [], nf_file_fails = False, nf_webhook = None,
        nf_oncall = \<lparr>oc_audit = None, oc_metrics = None, oc_world = (0 :: nat)\<rparr>\<rparr>", OF this]
  show ?thesis by (simp add: Let_def split_beta)
qed

end
