(* ===== verification/Wiring.thy ===== *)
theory Wiring
  imports Deployment Workers MarketData "HOL-Library.Sublist"
begin

text \<open>
  How \<open>application/factory.py\<close> wires a process: the market-data sources and their collectors, the
  broker of the mode, the on-call transports, the secret providers, the profiles of the traders
  and the optional parts.

  A symbol of the settings is a text; \<open>market_of\<close> is the \<open>uuid5\<close> of
  \<open>traderos/{symbol}\<close>.  A collector is registered under the value of its type.
\<close>

subsection \<open>Flags and numbers\<close>

definition env_switch :: "environ \<Rightarrow> string \<Rightarrow> yaml \<Rightarrow> bool" where
  "env_switch env name dflt =
     (case map_of env name of
        None \<Rightarrow> truthy_yaml dflt
      | Some raw \<Rightarrow> lower (strip raw) \<in> {''1'', ''true'', ''yes'', ''on''})"

text \<open>\<open>int(value)\<close> of a value of the settings file.\<close>

fun yaml_int :: "yaml \<Rightarrow> int res" where
  "yaml_int (YInt n) = Inr n"
| "yaml_int (YBool b) = Inr (if b then 1 else 0)"
| "yaml_int (YFloat x) =
     (case x of Fin r \<Rightarrow> Inr (trunc_float x) | NaN \<Rightarrow> Inl ValueError | _ \<Rightarrow> Inl OverflowError)"
| "yaml_int (YText s) = (case parse_int s of None \<Rightarrow> Inl ValueError | Some n \<Rightarrow> Inr n)"
| "yaml_int _ = Inl TypeError"

fun yaml_text :: "yaml \<Rightarrow> string" where
  "yaml_text (YText s) = s"
| "yaml_text _ = []"

subsection \<open>Market data\<close>

fun symbols_of :: "yaml \<Rightarrow> string list" where
  "symbols_of (YList xs) = map yaml_text xs"
| "symbols_of _ = []"

text \<open>\<open>symbol in crypto\<close>, whatever the settings hold for \<open>crypto\<close>.\<close>

fun symbol_in :: "string \<Rightarrow> yaml \<Rightarrow> bool res" where
  "symbol_in sy (YList xs) = Inr (sy \<in> set (map yaml_text xs))"
| "symbol_in sy (YText s) = Inr (sublist sy s)"
| "symbol_in sy (YMap d) = Inr (sy \<in> set (map fst d))"
| "symbol_in sy _ = Inl TypeError"

definition forex_setting :: "config \<Rightarrow> yaml" where
  "forex_setting c = config_get (cf_raw c) [''data_collection'', ''forex_symbols''] (YList [])"

definition crypto_setting :: "config \<Rightarrow> yaml" where
  "crypto_setting c = config_get (cf_raw c) [''data_collection'', ''crypto_symbols''] (YList [])"

definition wired_symbols :: "config \<Rightarrow> string list" where
  "wired_symbols c = symbols_of (forex_setting c) @ symbols_of (crypto_setting c)"

definition binance_enabled :: "environ \<Rightarrow> config \<Rightarrow> bool" where
  "binance_enabled env c =
     env_switch env ''BINANCE_ENABLED'' (config_get (cf_raw c) [''data_collection'', ''binance'', ''enabled''] (YBool False))"

definition streaming_enabled :: "environ \<Rightarrow> config \<Rightarrow> bool" where
  "streaming_enabled env c =
     env_switch env ''BINANCE_STREAMING'' (config_get (cf_raw c) [''data_collection'', ''binance'', ''streaming''] (YBool False))"

text \<open>What can be imported and constructed: the collector of Binance, and the live stream.\<close>

record available =
  av_mock :: collector
  av_binance :: "collector option"
  av_stream :: "collector option"

definition crypto_collector :: "environ \<Rightarrow> config \<Rightarrow> available \<Rightarrow> string" where
  "crypto_collector env c av = (if binance_enabled env c \<and> av_binance av \<noteq> None then ''binance'' else ''mock'')"

text \<open>The registry of the collectors, and whether the crypto symbols are read from the stream.\<close>

definition wire_collectors :: "environ \<Rightarrow> config \<Rightarrow> available \<Rightarrow> (string \<times> collector) list \<times> bool" where
  "wire_collectors env c av =
     (let reg = (''mock'', av_mock av) # (case av_binance av of None \<Rightarrow> [] | Some b \<Rightarrow> [(''binance'', b)]) in
      if streaming_enabled env c \<and> crypto_collector env c av = ''binance''
      then (case av_stream av of Some s \<Rightarrow> (reg @ [(''streaming'', s)], True) | None \<Rightarrow> (reg, False))
      else (reg, streaming_enabled env c))"

definition source_type :: "environ \<Rightarrow> config \<Rightarrow> available \<Rightarrow> bool \<Rightarrow> string \<Rightarrow> string res" where
  "source_type env c av streaming sy =
     rbind (symbol_in sy (crypto_setting c)) (\<lambda>crypto.
       Inr (if streaming \<and> crypto then ''streaming'' else if crypto then crypto_collector env c av else ''mock''))"

record wiring =
  wr_ingestion :: ingestion
  wr_symbol_map :: "(uuid \<times> string) list"
  wr_markets :: "uuid list"

fun wire_sources ::
  "(string \<Rightarrow> uuid) \<Rightarrow> environ \<Rightarrow> config \<Rightarrow> available \<Rightarrow> bool \<Rightarrow> string list \<Rightarrow> wiring \<Rightarrow> wiring res" where
  "wire_sources market_of env c av streaming [] w = Inr w"
| "wire_sources market_of env c av streaming (sy # sys) w =
     rbind (source_type env c av streaming sy) (\<lambda>t.
       wire_sources market_of env c av streaming sys
         \<lparr>wr_ingestion = snd (add_source (market_of sy) sy t ''1h'' (wr_ingestion w)),
          wr_symbol_map = AList.update (market_of sy) sy (wr_symbol_map w), wr_markets = wr_markets w @ [market_of sy]\<rparr>)"

definition wire_market_data :: "(string \<Rightarrow> uuid) \<Rightarrow> environ \<Rightarrow> config \<Rightarrow> available \<Rightarrow> wiring res" where
  "wire_market_data market_of env c av =
     (case wire_collectors env c av of
        (reg, streaming) \<Rightarrow>
          wire_sources market_of env c av streaming (wired_symbols c)
            \<lparr>wr_ingestion = \<lparr>di_registry = reg, di_sources = []\<rparr>, wr_symbol_map = [], wr_markets = []\<rparr>)"

text \<open>The markets of the loop: the ones of the caller, the ones with data, or a fresh one.\<close>

definition loop_markets :: "uuid list option \<Rightarrow> uuid list \<Rightarrow> uuid \<Rightarrow> uuid list" where
  "loop_markets given_markets data fresh =
     (case given_markets of Some ms \<Rightarrow> ms | None \<Rightarrow> if data \<noteq> [] then data else [fresh])"

subsection \<open>The broker\<close>

datatype venue = Alpaca string string yaml | PaperVenue

text \<open>\<open>init\<close>: what the constructor of the live adapter raises; only some exceptions are renamed.\<close>

definition select_broker ::
  "bool \<Rightarrow> (string \<Rightarrow> string \<Rightarrow> exc option) \<Rightarrow> config \<Rightarrow> 'w provider list \<Rightarrow> 'w rotator \<Rightarrow> venue res \<times> 'w rotator" where
  "select_broker live init c ps r =
     (if \<not> live then (Inr PaperVenue, r)
      else case secret_get ps ''ALPACA_API_KEY'' r of
        (Inl e, r1) \<Rightarrow> (Inl e, r1)
      | (Inr k, r1) \<Rightarrow>
          (case secret_get ps ''ALPACA_SECRET_KEY'' r1 of
             (Inl e, r2) \<Rightarrow> (Inl e, r2)
           | (Inr s, r2) \<Rightarrow>
               ((case (k, s) of
                   (Some key, Some secret) \<Rightarrow>
                     if key = [] \<or> secret = [] then Inl RuntimeError
                     else (case init key secret of
                       None \<Rightarrow> Inr (Alpaca key secret (cf c ''alpaca_paper''))
                     | Some e \<Rightarrow> Inl (if e \<in> {ValueError, RuntimeError, OSError, InfrastructureError} then RuntimeError else e))
                 | _ \<Rightarrow> Inl RuntimeError), r2)))"

subsection \<open>Transports, secrets and profiles\<close>

text \<open>A transport whose constructor raises is left out.\<close>

definition oncall_transports :: "environ \<Rightarrow> transport list" where
  "oncall_transports env =
     (let key = getenv env ''PAGERDUTY_ROUTING_KEY'' []; hook = getenv env ''SLACK_WEBHOOK_URL'' [];
          url = getenv env ''ONCALL_WEBHOOK_URL'' []; bearer = getenv env ''ONCALL_BEARER_TOKEN'' [] in
      (if key = [] then [] else case new_pagerduty key (getenv env ''PAGERDUTY_SOURCE'' ''traderos'') of Inl e \<Rightarrow> [] | Inr t \<Rightarrow> [t]) @
      (if hook = [] then [] else case new_slack hook (getenv env ''SLACK_CHANNEL'' []) of Inl e \<Rightarrow> [] | Inr t \<Rightarrow> [t]) @
      (if url = [] then [] else [HttpTransport url (if bearer = [] then None else Some bearer)]))"

definition oncall_router :: "environ \<Rightarrow> transport list option" where
  "oncall_router env = (if oncall_transports env = [] then None else Some (oncall_transports env))"

datatype secret_source = EnvSecrets | VaultSecrets string string string

definition secret_sources :: "environ \<Rightarrow> secret_source list" where
  "secret_sources env =
     (let addr = getenv env ''VAULT_ADDR'' [] in
      if addr = [] then [EnvSecrets]
      else [VaultSecrets addr (getenv env ''VAULT_TOKEN'' ''traderos-dev-root'') (getenv env ''VAULT_MOUNT'' ''secret'')])"

definition vault_probe_reader :: "secret_source list \<Rightarrow> secret_source option" where
  "vault_probe_reader ps = List.find (\<lambda>p. p \<noteq> EnvSecrets) ps"

definition wired_probes :: "environ \<Rightarrow> string list res" where
  "wired_probes env =
     rbind (getenv_int env ''RATE_LIMIT_MAX'' 100) (\<lambda>budget.
       Inr ([''broker''] @ (if vault_probe_reader (secret_sources env) = None then [] else [''vault'']) @
            [''rate_limit''] @ (if getenv env ''PROBE_HEALTH_URL'' [] = [] then [] else [''health''])))"

text \<open>The texts of \<open>allowed_markets\<close>: of a text its characters, of a mapping its keys.\<close>

fun market_texts :: "yaml \<Rightarrow> string list res" where
  "market_texts (YList xs) = Inr (concat (map (\<lambda>x. case x of YText s \<Rightarrow> [s] | _ \<Rightarrow> []) xs))"
| "market_texts (YText s) = Inr (map (\<lambda>ch. [ch]) s)"
| "market_texts (YMap d) = Inr (map fst d)"
| "market_texts _ = Inl TypeError"

definition user_profile :: "(string \<Rightarrow> uuid) \<Rightarrow> string \<Rightarrow> settings \<Rightarrow> risk_profile res" where
  "user_profile market_of uid d =
     rbind (market_texts (dict_get d ''allowed_markets'' (YList []))) (\<lambda>ms.
     rbind (yaml_float (dict_get d ''max_gross_exposure'' (YFloat (Fin 1)))) (\<lambda>gross.
     rbind (yaml_float (dict_get d ''max_position_size'' (YFloat (lit 0.25)))) (\<lambda>size.
     rbind (yaml_int (dict_get d ''max_positions_total'' (YInt 10))) (\<lambda>total.
     rbind (yaml_float (dict_get d ''daily_loss_pct'' (YFloat DEFAULT_DAILY_LOSS_PCT))) (\<lambda>daily.
       Inr \<lparr>pr_user_id = uid, pr_max_gross_exposure = gross, pr_max_position_size = size, pr_max_positions_total = total,
            pr_daily_loss_pct = daily, pr_allowed_markets = map market_of ms,
            pr_engaged = truthy_yaml (dict_get d ''engaged'' (YBool False))\<rparr>)))))"

text \<open>The user of an entry; entries without one are skipped.\<close>

fun entry_user :: "yaml \<Rightarrow> (string \<times> settings) option" where
  "entry_user (YMap d) =
     (case dict_get d ''user_id'' YNull of YText uid \<Rightarrow> if uid = [] then None else Some (uid, d) | _ \<Rightarrow> None)"
| "entry_user _ = None"

fun user_profiles :: "(string \<Rightarrow> uuid) \<Rightarrow> yaml list \<Rightarrow> user_resolver \<Rightarrow> user_resolver res" where
  "user_profiles market_of [] acc = Inr acc"
| "user_profiles market_of (x # xs) acc =
     (case entry_user x of
        None \<Rightarrow> user_profiles market_of xs acc
      | Some (uid, d) \<Rightarrow> rbind (user_profile market_of uid d) (\<lambda>p. user_profiles market_of xs (AList.update uid p acc)))"

definition resolve_per_user_profiles :: "(string \<Rightarrow> uuid) \<Rightarrow> config \<Rightarrow> user_resolver res" where
  "resolve_per_user_profiles market_of c =
     (case config_get (cf_raw c) [''risk'', ''per_users''] (YList []) of
        YList xs \<Rightarrow> user_profiles market_of xs []
      | _ \<Rightarrow> Inr [])"

subsection \<open>Optional parts\<close>

record brain_setup =
  bn_min_candles :: int
  bn_threshold :: float64
  bn_max_risk :: float64

definition build_market_brain :: "config \<Rightarrow> brain_setup option res" where
  "build_market_brain c =
     (case config_get (cf_raw c) [''market_brain''] YNull of
        YMap d \<Rightarrow>
          if \<not> truthy_yaml (dict_get d ''enabled'' (YBool True)) then Inr None
          else rbind (yaml_int (dict_get d ''min_candles'' (YInt 60))) (\<lambda>n.
               rbind (yaml_float (dict_get d ''action_threshold'' (YFloat (lit 0.55)))) (\<lambda>th.
               rbind (yaml_float (dict_get d ''max_risk_fraction'' (YFloat (lit 0.01)))) (\<lambda>cap.
                 Inr (Some \<lparr>bn_min_candles = n, bn_threshold = th, bn_max_risk = cap\<rparr>))))
      | _ \<Rightarrow> Inr None)"

definition brain_history :: "config \<Rightarrow> int res" where
  "brain_history c =
     (case config_get (cf_raw c) [''market_brain''] YNull of
        YMap d \<Rightarrow> yaml_int (dict_get d ''history_bars'' (YInt 300))
      | _ \<Rightarrow> Inr 300)"

definition build_failover :: "config \<Rightarrow> float64 option res" where
  "build_failover c =
     (if \<not> truthy_yaml (config_get (cf_raw c) [''ha'', ''enabled''] (YBool False)) then Inr None
      else rbind (yaml_float (config_get (cf_raw c) [''ha'', ''lease_stale_after_seconds''] (YFloat (Fin 90)))) (\<lambda>s. Inr (Some s)))"

text \<open>The text of any other value ends in none of the four letters behind digits.\<close>

definition stream_interval_seconds :: "config \<Rightarrow> int res" where
  "stream_interval_seconds c =
     (case config_get (cf_raw c) [''data_collection'', ''timeframe''] (YText ''1h'') of
        YText tf \<Rightarrow>
          if tf = [] then Inl IndexError
          else (case map_of [(CHR ''s'', 1), (CHR ''m'', 60), (CHR ''h'', 3600), (CHR ''d'', 86400)] (last tf) of
            Some unit \<Rightarrow> if butlast tf \<noteq> [] \<and> list_all is_digit (butlast tf) then Inr (digits_value (butlast tf) * unit) else Inr 3600
          | None \<Rightarrow> Inr 3600)
      | _ \<Rightarrow> Inr 3600)"

definition in_memory :: "config \<Rightarrow> bool" where
  "in_memory c =
     (\<not> truthy_yaml (cf c ''database_url'') \<and> (\<not> truthy_yaml (cf c ''db_path'') \<or> cf c ''db_path'' = YText '':memory:''))"

text \<open>The async daemon's routes, and whether it gets an ingestor (\<open>ok\<close>: the constructor did not raise).\<close>

definition daemon_routes :: "(string \<Rightarrow> uuid) \<Rightarrow> config \<Rightarrow> (uuid \<times> string) list" where
  "daemon_routes market_of c = fold (\<lambda>sy. AList.update (market_of sy) sy) (wired_symbols c) []"

definition daemon_ingestor :: "environ \<Rightarrow> config \<Rightarrow> bool \<Rightarrow> string list option" where
  "daemon_ingestor env c ok =
     (case crypto_setting c of
        YList xs \<Rightarrow> if streaming_enabled env c \<and> xs \<noteq> [] \<and> ok then Some (map yaml_text xs) else None
      | _ \<Rightarrow> None)"

subsection \<open>What the wiring promises\<close>

lemma wire_sources_effect:
  assumes "wire_sources market_of env c av streaming sys w = Inr w'"
  shows "wr_markets w' = wr_markets w @ map market_of sys \<and>
     wr_symbol_map w' = fold (\<lambda>sy. AList.update (market_of sy) sy) sys (wr_symbol_map w) \<and>
     di_registry (wr_ingestion w') = di_registry (wr_ingestion w) \<and>
     (\<exists>new. di_sources (wr_ingestion w') = di_sources (wr_ingestion w) @ new \<and> map ds_symbol new = sys \<and>
       (\<forall>s \<in> set new. ds_market s = market_of (ds_symbol s) \<and> ds_timeframe s = ''1h'' \<and> source_type env c av streaming (ds_symbol s) = Inr (ds_collector s)))"
  using assms
proof (induction sys arbitrary: w)
  case (Cons sy sys)
  from Cons.prems obtain t where t: "source_type env c av streaming sy = Inr t"
    and rest: "wire_sources market_of env c av streaming sys
      \<lparr>wr_ingestion = snd (add_source (market_of sy) sy t ''1h'' (wr_ingestion w)),
       wr_symbol_map = AList.update (market_of sy) sy (wr_symbol_map w), wr_markets = wr_markets w @ [market_of sy]\<rparr> = Inr w'"
    by (auto elim: rbind_eq_InrE)
  from Cons.IH [OF rest] obtain new where new: "di_sources (wr_ingestion w') =
      di_sources (wr_ingestion w) @ \<lparr>ds_market = market_of sy, ds_symbol = sy, ds_collector = t, ds_timeframe = ''1h''\<rparr> # new"
    "map ds_symbol new = sys"
    "\<forall>s \<in> set new. ds_market s = market_of (ds_symbol s) \<and> ds_timeframe s = ''1h'' \<and> source_type env c av streaming (ds_symbol s) = Inr (ds_collector s)"
    by (auto simp: add_source_def Let_def)
  have "\<exists>new'. di_sources (wr_ingestion w') = di_sources (wr_ingestion w) @ new' \<and> map ds_symbol new' = sy # sys \<and>
      (\<forall>s \<in> set new'. ds_market s = market_of (ds_symbol s) \<and> ds_timeframe s = ''1h'' \<and> source_type env c av streaming (ds_symbol s) = Inr (ds_collector s))"
    by (rule exI [of _ "\<lparr>ds_market = market_of sy, ds_symbol = sy, ds_collector = t, ds_timeframe = ''1h''\<rparr> # new"])
      (use new t in simp)
  with Cons.IH [OF rest] show ?case by (simp add: add_source_def Let_def)
qed simp

lemma wired_data:
  assumes "wire_market_data market_of env c av = Inr w"
  shows "wr_markets w = map market_of (wired_symbols c) \<and>
     wr_symbol_map w = daemon_routes market_of c \<and>
     di_registry (wr_ingestion w) = fst (wire_collectors env c av) \<and>
     map ds_symbol (di_sources (wr_ingestion w)) = wired_symbols c \<and>
     (\<forall>s \<in> set (di_sources (wr_ingestion w)). ds_market s = market_of (ds_symbol s) \<and> ds_timeframe s = ''1h'' \<and>
        source_type env c av (snd (wire_collectors env c av)) (ds_symbol s) = Inr (ds_collector s))"
  using assms wire_sources_effect unfolding wire_market_data_def daemon_routes_def by (fastforce split: prod.splits)

lemma mock_registered: "map_of (fst (wire_collectors env c av)) ''mock'' = Some (av_mock av)"
  by (simp add: wire_collectors_def Let_def split: option.split)

text \<open>
  C28. Live boots fail closed: a live process gets a broker only when the secret manager answers a key
  and a secret, neither of them empty, and the live adapter accepts them, and the broker is then
  that adapter; no failure on the way gives it a simulated one, and no other mode reads a secret.
\<close>

theorem live_boot_fails_closed:
  "case select_broker live init c ps r of (q, r') \<Rightarrow>
     if \<not> live then q = Inr PaperVenue \<and> r' = r
     else (case q of
        Inl e \<Rightarrow> True
      | Inr v \<Rightarrow>
          (case (secret_get ps ''ALPACA_API_KEY'' r) of (k, r1) \<Rightarrow>
           case secret_get ps ''ALPACA_SECRET_KEY'' r1 of (s, r2) \<Rightarrow>
             \<exists>key secret. k = Inr (Some key) \<and> s = Inr (Some secret) \<and> key \<noteq> [] \<and> secret \<noteq> [] \<and>
               init key secret = None \<and> v = Alpaca key secret (cf c ''alpaca_paper'') \<and> r' = r2))"
  by (cases "secret_get ps ''ALPACA_API_KEY'' r"; cases "secret_get ps ''ALPACA_SECRET_KEY'' (snd (secret_get ps ''ALPACA_API_KEY'' r))")
    (auto simp: select_broker_def split: sum.splits option.splits if_splits)

lemma live_venue: "fst (select_broker True init c ps r) = Inr v \<Longrightarrow> v \<noteq> PaperVenue"
  by (auto simp: select_broker_def split: prod.splits sum.splits option.splits if_splits)

lemma mock_priced:
  assumes "wire_market_data market_of env c av = Inr w" and "source_of m (wr_ingestion w) = Some s"
    and "symbol_in (ds_symbol s) (crypto_setting c) = Inr False \<or> \<not> binance_enabled env c \<and> \<not> streaming_enabled env c"
  shows "get_latest_close m (wr_ingestion w) =
     rbind (av_mock av (ds_symbol s) ''1h'' 1) (\<lambda>cs. Inr (if cs = [] then None else Some (cn_close (hd cs))))"
proof -
  have "s \<in> set (di_sources (wr_ingestion w))" using assms(2) by (auto simp: source_of_def find_Some_iff)
  then have src: "ds_timeframe s = ''1h''" "source_type env c av (snd (wire_collectors env c av)) (ds_symbol s) = Inr (ds_collector s)"
    using wired_data [OF assms(1)] by auto
  have idle: "\<not> snd (wire_collectors env c av)" if "\<not> streaming_enabled env c"
    using that by (simp add: wire_collectors_def Let_def split: option.split)
  have "ds_collector s = ''mock''"
    using src(2) assms(3) idle by (auto simp: source_type_def crypto_collector_def elim!: rbind_eq_InrE split: if_splits)
  then show ?thesis
    using assms(2) src(1) wired_data [OF assms(1)] by (simp add: get_latest_close_def fetch_latest_def mock_registered)
qed

text \<open>
  Real orders at simulated prices: a live process has a real venue, and the price it reads for a
  market whose symbol is none of the crypto symbols, or for any market as long as the Binance
  feed is off, which is the default, is the close of the simulated collector.
\<close>

theorem live_orders_at_simulated_prices:
  assumes "fst (select_broker True init c ps r) = Inr v" and "wire_market_data market_of env c av = Inr w"
    and "source_of m (wr_ingestion w) = Some s"
    and "symbol_in (ds_symbol s) (crypto_setting c) = Inr False \<or> \<not> binance_enabled env c \<and> \<not> streaming_enabled env c"
  shows "v \<noteq> PaperVenue \<and> get_latest_close m (wr_ingestion w) =
     rbind (av_mock av (ds_symbol s) ''1h'' 1) (\<lambda>cs. Inr (if cs = [] then None else Some (cn_close (hd cs))))"
  using live_venue [OF assms(1)] mock_priced [OF assms(2-4)] by blast

definition live_settings :: config where
  "live_settings = \<lparr>cf_fields = [], cf_raw = [(''data_collection'', YMap [(''forex_symbols'', YList [YText ''EURUSD'']),
     (''crypto_symbols'', YList [YText ''BTCUSDT''])])]\<rparr>"

definition keyed_rotator :: "unit rotator" where
  "keyed_rotator = \<lparr>sr_secrets = [], sr_audit = None, sr_metrics = None, sr_world = ()\<rparr>"

theorem live_orders_at_simulated_prices_witness:
  "case wire_market_data (\<lambda>sy. sy) [] live_settings
     \<lparr>av_mock = (\<lambda>sy tf n. Inr []), av_binance = Some (\<lambda>sy tf n. Inl OSError), av_stream = None\<rparr> of
     Inl e \<Rightarrow> False | Inr w \<Rightarrow> get_latest_close ''BTCUSDT'' (wr_ingestion w) = Inr None"
proof -
  let ?av = "\<lparr>av_mock = (\<lambda>sy tf n. Inr []), av_binance = Some (\<lambda>sy tf n. Inl OSError), av_stream = None\<rparr> :: available"
  have off: "\<not> binance_enabled [] live_settings" "\<not> streaming_enabled [] live_settings"
    by (simp_all add: binance_enabled_def streaming_enabled_def env_switch_def config_get_def live_settings_def yaml_get_def dict_get_def)
  obtain w where w: "wire_market_data (\<lambda>sy. sy) [] live_settings ?av = Inr w"
    "source_of ''BTCUSDT'' (wr_ingestion w) = Some \<lparr>ds_market = ''BTCUSDT'', ds_symbol = ''BTCUSDT'', ds_collector = ''mock'', ds_timeframe = ''1h''\<rparr>"
    using off by (simp add: wire_market_data_def wire_collectors_def wired_symbols_def forex_setting_def crypto_setting_def config_get_def
        live_settings_def yaml_get_def dict_get_def source_type_def crypto_collector_def add_source_def source_of_def Let_def)
  have "fst (select_broker True (\<lambda>k s. None) live_settings [\<lambda>key u. (Inr (Some ''k''), u)] keyed_rotator) =
      Inr (Alpaca ''k'' ''k'' (cf live_settings ''alpaca_paper''))"
    by (simp add: select_broker_def secret_get_def keyed_rotator_def audit_access_def)
  from live_orders_at_simulated_prices [OF this w] off w(1) show ?thesis by simp
qed

lemma fetch_sources_fails:
  "s \<in> set ss \<Longrightarrow> fetch_latest s limit di = Inl e \<Longrightarrow>
     \<forall>x \<in> set ss. fetch_latest x limit di = Inl e \<or> (\<exists>cs. fetch_latest x limit di = Inr cs) \<Longrightarrow> fetch_sources ss limit di acc = Inl e"
  by (induction ss arbitrary: acc) auto

text \<open>
  A flag that stops every feed: with the streaming flag on and the Binance feed off, a crypto
  symbol is read from a stream that was never registered, and reading the sources raises for all
  of them, the other symbols included.
\<close>

theorem streaming_flag_stops_every_feed:
  assumes "wire_market_data market_of env c av = Inr w" and "streaming_enabled env c" and "\<not> binance_enabled env c"
    and "crypto_setting c = YList (YText sy # rest)" and "\<And>sy n. \<not> isl (av_mock av sy ''1h'' n)"
  shows "fetch_all limit (wr_ingestion w) = Inl ValueError"
proof -
  have reg: "wire_collectors env c av = ((''mock'', av_mock av) # (case av_binance av of None \<Rightarrow> [] | Some b \<Rightarrow> [(''binance'', b)]), True)"
    using assms(2,3) by (simp add: wire_collectors_def crypto_collector_def Let_def)
  let ?di = "wr_ingestion w"
  have di: "di_registry ?di = fst (wire_collectors env c av)"
    "\<forall>s \<in> set (di_sources ?di). ds_timeframe s = ''1h'' \<and> source_type env c av True (ds_symbol s) = Inr (ds_collector s)"
    "map ds_symbol (di_sources ?di) = wired_symbols c"
    using wired_data [OF assms(1)] reg by auto
  have "sy \<in> set (map ds_symbol (di_sources ?di))" using assms(4) di(3) by (simp add: wired_symbols_def)
  then obtain s where s: "s \<in> set (di_sources ?di)" "ds_symbol s = sy" by auto
  then have stream: "ds_collector s = ''streaming''" using di(2) assms(4) by (force simp: source_type_def)
  have either: "fetch_latest x limit ?di = Inl ValueError \<or> (\<exists>cs. fetch_latest x limit ?di = Inr cs)"
    if "x \<in> set (di_sources ?di)" for x
  proof -
    have "ds_collector x = ''streaming'' \<or> ds_collector x = ''mock''" "ds_timeframe x = ''1h''"
      using di(2) that assms(3) by (auto simp: source_type_def crypto_collector_def elim!: rbind_eq_InrE split: if_splits)
    moreover obtain cs where "av_mock av (ds_symbol x) ''1h'' limit = Inr cs"
      using assms(5) [of "ds_symbol x" limit] by (cases "av_mock av (ds_symbol x) ''1h'' limit") auto
    ultimately show ?thesis using di(1) reg by (auto simp: fetch_latest_def split: option.split)
  qed
  have "fetch_latest s limit ?di = Inl ValueError" using stream di(1) reg by (simp add: fetch_latest_def split: option.split)
  then show ?thesis unfolding fetch_all_def by (rule fetch_sources_fails [OF s(1)]) (use either in blast)
qed

theorem streaming_flag_stops_every_feed_witness:
  "case wire_market_data (\<lambda>sy. sy) [(''BINANCE_STREAMING'', ''on'')] live_settings
     \<lparr>av_mock = (\<lambda>sy tf n. Inr []), av_binance = Some (\<lambda>sy tf n. Inr []), av_stream = Some (\<lambda>sy tf n. Inr [])\<rparr> of
     Inl e \<Rightarrow> False | Inr w \<Rightarrow> fetch_all 1 (wr_ingestion w) = Inl ValueError"
proof -
  let ?av = "\<lparr>av_mock = (\<lambda>sy tf n. Inr []), av_binance = Some (\<lambda>sy tf n. Inr []), av_stream = Some (\<lambda>sy tf n. Inr [])\<rparr> :: available"
  let ?env = "[(''BINANCE_STREAMING'', ''on'')]"
  have flags: "streaming_enabled ?env live_settings" "\<not> binance_enabled ?env live_settings"
    by (simp_all add: binance_enabled_def streaming_enabled_def env_switch_def config_get_def live_settings_def yaml_get_def dict_get_def
        strip_def is_space_def lower_def lower_char_def char_code_def)
  have crypto: "crypto_setting live_settings = YList (YText ''BTCUSDT'' # [])"
    by (simp add: crypto_setting_def config_get_def live_settings_def yaml_get_def dict_get_def)
  obtain w where "wire_market_data (\<lambda>sy. sy) ?env live_settings ?av = Inr w"
    using flags by (simp add: wire_market_data_def wire_collectors_def wired_symbols_def forex_setting_def crypto_setting_def config_get_def
        live_settings_def yaml_get_def dict_get_def source_type_def crypto_collector_def Let_def)
  then show ?thesis using streaming_flag_stops_every_feed [OF _ flags crypto, where limit = 1] by simp
qed

subsection \<open>Traders without a profile\<close>

lemma profiles_of_entries:
  assumes "user_profiles market_of xs acc = Inr res" and "map_of res uid = Some p"
  shows "map_of acc uid = Some p \<or> (\<exists>x \<in> set xs. \<exists>d. entry_user x = Some (uid, d) \<and> user_profile market_of uid d = Inr p)"
  using assms
proof (induction xs arbitrary: acc)
  case (Cons x xs)
  show ?case
  proof (cases "entry_user x")
    case None
    then show ?thesis using Cons by auto
  next
    case (Some e)
    then obtain u d q where e: "entry_user x = Some (u, d)" "user_profile market_of u d = Inr q"
      "user_profiles market_of xs (AList.update u q acc) = Inr res"
      using Cons.prems(1) by (cases e) (auto elim: rbind_eq_InrE)
    from Cons.IH [OF e(3) Cons.prems(2)] e(1,2) show ?thesis by (auto split: if_splits)
  qed
qed simp

text \<open>
  A trader without a profile is refused: whatever the settings hold, an order of a user that no
  entry of the settings names is refused by the risk gate, so the accounts anybody may register
  cannot trade until an operator lists them.
\<close>

theorem trader_without_profile_is_refused:
  assumes "resolve_per_user_profiles market_of c = Inr profiles" and "rs_user_resolver rs = Some profiles"
    and "or_user_id rq = Some uid"
    and "case config_get (cf_raw c) [''risk'', ''per_users''] (YList []) of
           YList xs \<Rightarrow> \<forall>x \<in> set xs. pred_option (\<lambda>(u, d). u \<noteq> uid) (entry_user x) | _ \<Rightarrow> True"
  shows "\<not> allowed (fst (authorize_order rq rs))"
proof -
  have "map_of profiles uid = None"
  proof (rule ccontr)
    assume "map_of profiles uid \<noteq> None"
    then obtain p where p: "map_of profiles uid = Some p" by blast
    show False
    proof (cases "config_get (cf_raw c) [''risk'', ''per_users''] (YList [])")
      case (YList xs)
      then have "user_profiles market_of xs [] = Inr profiles" using assms(1) by (simp add: resolve_per_user_profiles_def)
      from profiles_of_entries [OF this p] obtain x d where "x \<in> set xs" "entry_user x = Some (uid, d)" by auto
      then show False using assms(4) YList by force
    qed (use p assms(1) in \<open>simp_all add: resolve_per_user_profiles_def\<close>)
  qed
  then have "unknown_user rs (or_user_id rq)"
    using assms(2,3) by (simp add: unknown_user_def resolve_user_def resolver_resolve_def)
  then show ?thesis by (simp add: authorize_order_iff order_rails_def)
qed

theorem trader_without_profile_is_refused_witness:
  "\<not> allowed (fst (authorize_order (sample_request\<lparr>or_user_id := Some ''mallory''\<rparr>) ((new_risk_service 0)\<lparr>rs_user_resolver := Some []\<rparr>)))"
proof -
  have "resolve_per_user_profiles (\<lambda>sy. sy) live_settings = Inr []"
    by (simp add: resolve_per_user_profiles_def config_get_def live_settings_def yaml_get_def dict_get_def)
  from trader_without_profile_is_refused [OF this, of "(new_risk_service 0)\<lparr>rs_user_resolver := Some []\<rparr>"
      "sample_request\<lparr>or_user_id := Some ''mallory''\<rparr>" "''mallory''"]
  show ?thesis by (simp add: config_get_def live_settings_def yaml_get_def dict_get_def)
qed

end
