(* ===== verification/Spec2Isabelle.thy ===== *)
theory Spec2Isabelle
  imports Accounts Alerting Alpaca Analysis ApiAuth AsyncDaemon AuditChain Backtest
    Backups Brain BrainGate BrokerPort BrokerStack Catalog Cli Connections Cycle
    CycleSafety Daemon Deployment Election Entities Execution Failover Flatten Framework
    Governance Ingestor Journal KillSwitch Manifest MarketCycle MarketData MarketHours
    MarketStream Messaging Migrations Money Observability OperatorApi OrderEvents
    PaperBroker PaperTrading Patterns Portfolio Ports Preflight Prelude PyFloat PyText
    Reconciliation Replay Repositories Resilience Risk RiskConfig SafetyGuard
    SqlRefinement SqlStore StreamCollector Supervision Wiring Workers Workflow
begin

text \<open>
  Verification library of TraderOS, an automated trading system in Python.

  \<^bold>\<open>The program and how its parts interact.\<close>  Paths are under \<open>src/src/traderos/\<close>.  A process is wired by
  \<open>application/factory.py\<close> into an orchestrator.  Prices arrive from collectors or a stream
  (\<open>infrastructure/collectors\<close>, \<open>market_stream.py\<close>, \<open>async_streaming.py\<close>) and are kept by
  \<open>domain/services/data_ingestion_service.py\<close>.  The daemon (\<open>application/daemon_controller.py\<close>, or
  \<open>async_daemon.py\<close> on ticks) asks the market brain for permission and runs a cycle
  (\<open>application/cycle_executor.py\<close>) per market: strategies give signals, the risk service sizes and
  authorises an order, the preflight and the reconciliation gate must be open, and the broker port sends it.
  The live broker is the Alpaca adapter under a rate limiter, a size guardrail, a circuit breaker and a
  journal; the paper broker simulates fills.  Fills change trades and positions in repositories (memory or SQL),
  and every decision is written to a hash-chained audit trail, counted and, when critical, paged.  An operator
  acts through the HTTP interface (\<open>interfaces/api\<close>) or the command line (\<open>interfaces/cli\<close>); traders use
  the retail endpoints.  Scripts under \<open>src/scripts/governance\<close> decide whether a release may trade live.

  \<^bold>\<open>Conventions.\<close>  A Python value is a HOL value of its kind: an \<open>int\<close> is an \<open>int\<close>, a string is a character
  list, an identifier is its text, an instant is its microseconds, a dictionary is an association list in
  insertion order, a dataclass is a record, an enum or union is a datatype.  A call that may raise returns
  \<open>exc + 'a\<close> (an HTTP handler: a status or a result), together with the state it leaves behind, so that what an
  exception leaves half done is visible.  Floats are binary64 values (\<open>PyFloat\<close>): finite rationals with rounding
  to nearest, the infinities and NaN, with comparisons that are not a linear order.  Machine code that
  is not under \<open>src/\<close> (a venue's client, hashes, the YAML parser, sockets, \<open>pg_dump\<close>) is an
  argument of the definitions that use it; nothing is assumed of it unless a theorem says so.  Threads are the
  interleavings of their atomic accesses, or steps of an explicit scheduler.

  \<^bold>\<open>Shared theories.\<close>  \<open>Prelude\<close>: results, dictionaries, common types, the collections \<open>frame_simps\<close> and
  \<open>guard_simps\<close>.  \<open>PyFloat\<close>, \<open>PyText\<close>: floats and the text operations of the language.  \<open>Ports\<close>: audit, metrics
  and notification sinks.

  \<^bold>\<open>Domain.\<close>
  \<^item> \<open>Money\<close> (\<open>entities/money.py\<close>), \<open>Entities\<close> (trade, position, signal): the status machine of a trade ends and
    keeps it well-formed.
  \<^item> \<open>KillSwitch\<close>, \<open>Risk\<close> (\<open>risk_service.py\<close>), \<open>RiskConfig\<close> (\<open>risk_config.py\<close>): switches latch, an authorised order is
    within every rail, a live boot has explicit and sane rails.
  \<^item> \<open>Execution\<close>, \<open>Portfolio\<close>, \<open>Flatten\<close>, \<open>PaperBroker\<close>, \<open>PaperTrading\<close>, \<open>Backtest\<close>: fills, books, the emergency
    exit, the simulated venue, simulated sessions, and the backtest, which never looks ahead.
  \<^item> \<open>Framework\<close>, \<open>Catalog\<close>: strategies and their lifecycle.  \<open>Analysis\<close>, \<open>Patterns\<close>: indicators and chart
    patterns, which never repaint.  \<open>Brain\<close>: the market brain and the cap on its advice.
  \<^item> \<open>Preflight\<close>, \<open>Workflow\<close>, \<open>MarketHours\<close>, \<open>Replay\<close>, \<open>Accounts\<close>, \<open>MarketData\<close>: the checks before a
    submission, the ten operator steps in order, trading hours, replayed evidence, users with sessions and keys,
    and historical candles.

  \<^bold>\<open>Application.\<close>
  \<^item> \<open>Cycle\<close>, \<open>CycleSafety\<close>, \<open>MarketCycle\<close> (\<open>cycle_executor.py\<close>): the cycle step by step; no order without
    authorisation, none under a closed gate, and the retail order.
  \<^item> \<open>Reconciliation\<close>: local books against the broker's, and the gate that reflects their drift exactly.
  \<^item> \<open>OrderEvents\<close>: broker events are applied once and published at most once.
  \<^item> \<open>Daemon\<close>, \<open>AsyncDaemon\<close>, \<open>BrainGate\<close>, \<open>Supervision\<close>: the loops, their gate and stop signals.
  \<^item> \<open>Wiring\<close> (\<open>factory.py\<close>): what a process is wired to; a live boot fails closed.

  \<^bold>\<open>Infrastructure.\<close>
  \<^item> \<open>BrokerPort\<close>, \<open>Journal\<close>, \<open>Resilience\<close>, \<open>BrokerStack\<close>, \<open>Alpaca\<close>: the broker interface and what
    is wrapped around a venue; a client order id is sent once.
  \<^item> \<open>AuditChain\<close>, \<open>Observability\<close>, \<open>Manifest\<close>: the audit trail in memory and in tables, metrics, health, and
    the record of runs.
  \<^item> \<open>Repositories\<close>, \<open>SqlStore\<close>, \<open>SqlRefinement\<close>: the in-memory store and the SQL tables that implement it.
  \<^item> \<open>Connections\<close>, \<open>Migrations\<close>, \<open>SafetyGuard\<close>, \<open>Backups\<close>: the pool, the schema, the interlock before destructive
    statements, and backups that restore what they copied.
  \<^item> \<open>MarketStream\<close>, \<open>Ingestor\<close>, \<open>StreamCollector\<close>: ticks, candles, reconnection and bounded queues.
  \<^item> \<open>Failover\<close>, \<open>Election\<close>: the lease file and the two locks; one leader while leases are renewed in time.
  \<^item> \<open>Messaging\<close>: queue, event bus and cache.  \<open>Alerting\<close>, \<open>Workers\<close>: paging, probes, secret rotation, backups.
  \<^item> \<open>Deployment\<close>: configuration, security policy, boot.

  \<^bold>\<open>Interfaces and governance.\<close>  \<open>ApiAuth\<close> (who may call), \<open>OperatorApi\<close> (feed, middleware, the operator's and the
  retail endpoints), \<open>Cli\<close> (the commands with a decision), \<open>Governance\<close> (signatures, acknowledgment, the live
  gate, live readiness).

  \<^bold>\<open>Interfaces as locales.\<close>  \<open>failure_latch\<close> (both kill switches), \<open>durable_journal\<close> (the SQL journal),
  \<open>one_order_per_call\<close> (the guarded broker stack), \<open>repository\<close> (the in-memory store), \<open>codec\<close> (the trade, position and
  signal rows), \<open>audit_store\<close> (both SQL trails) and \<open>steady_worker\<close> (the probe loop) state what a client relies
  on; each is interpreted on the model's definitions.

  \<^bold>\<open>What the properties show.\<close>  The texts that begin with a claim number state them.  In short: the path of an
  order (cycle, risk, gate, stack, journal, events) is safe; the audit trail commits to its history; SQL refines memory;
  streams and queues lose nothing and stay bounded; interleavings of the breaker, the lease, the daemon and the
  pool keep their invariants; encodings round-trip; loops end.  Several theorems pin down behaviour that
  is surely unintended: their names say so and the text in front of them says what happens.

  \<^bold>\<open>Bounds and fuel.\<close>  Every loop of the source is a recursion on data it consumes (candles, frames, ticks,
  scripted connections, statements), or a \<open>function\<close> with a measure: the digit counts and roots of \<open>PyFloat\<close> and
  \<open>Money\<close>, the weekend of \<open>MarketHours\<close>, the matching of lots in \<open>Replay\<close>, the comment stripping of
  \<open>SafetyGuard\<close>, the rehearsal of \<open>Cli\<close> (the steps that are left).  Reconnection and daemon loops run over the
  list of what the outside brings, so a theorem about all lists covers every run.  Publishing on the event bus of
  \<open>Messaging\<close>, whose handlers may subscribe further ones for ever, is a partial function whose value is \<open>None\<close> when it does not return.  No
  definition carries fuel.

  \<^bold>\<open>Not modelled.\<close>
  \<^item> Pure input and output: argument parsing and printing of the command line, rendering of response bodies, the CORS
    layer, request logs, log rotation and visualisation, the REST collectors and WebSocket transports (they only call a client),
    the server process, the webhook notifier.
  \<^item> Redis queue and cache, and the remaining SQLite and all PostgreSQL repositories: the same statements over other tables as
    the ones modelled in \<open>SqlStore\<close>, without logic of their own.
  \<^item> Text-only reports: session report, portfolio analysis, attribution; the research notes, knowledge graph and
    evidence recorder, which record what happened and decide nothing that trades.
  \<^item> The data-frame manager \<open>db_manager.py\<close> (pandas), migrations that rebuild one legacy table, deployment-hygiene checks.
  \<^item> \<open>src/scripts/evidence\<close> and \<open>src/scripts/ci\<close>: drills that drive the program and print what they saw; tests.
  \<^item> Within a modelled part, texts of messages that nothing reads are left out, each named in the theory's own
    text.
\<close>

end
